(* ===== verification/Prelude.thy ===== *)
theory Prelude
  imports Complex_Main "HOL-Library.AList"
begin

section \<open>Shared vocabulary of the gateway model\<close>

text \<open>
  What every component theory uses: Python dictionaries as ordered association lists (insertion
  order is what iteration over a Python dictionary follows, and an assignment to an existing key
  keeps its place, which is exactly \<open>AList.update\<close>), dynamic Python values, decimal printing of
  integers, results of fallible code as a sum with the raised exception on the left, and the
  simplification and introduction collections the component proofs rely on.
\<close>

named_theorems py_simps \<open>unfolding of the helpers that stand for Python built-ins\<close>
named_theorems frame_simps \<open>what an operation leaves unchanged\<close>
named_theorems inv_intros \<open>operations keep their component's invariant\<close>

subsection \<open>Dictionaries\<close>

type_synonym ('k, 'v) dict = "('k \<times> 'v) list"

abbreviation dget :: "('k, 'v) dict \<Rightarrow> 'k \<Rightarrow> 'v option" where
  "dget d k \<equiv> map_of d k"

abbreviation dput :: "'k \<Rightarrow> 'v \<Rightarrow> ('k, 'v) dict \<Rightarrow> ('k, 'v) dict" where
  "dput k v d \<equiv> AList.update k v d"

abbreviation dkeys :: "('k, 'v) dict \<Rightarrow> 'k list" where
  "dkeys d \<equiv> map fst d"

definition dict_wf :: "('k, 'v) dict \<Rightarrow> bool" where
  "dict_wf d \<longleftrightarrow> distinct (dkeys d)"

text \<open>A dictionary comprehension \<open>{k: v for ...}\<close> inserts left to right.\<close>

definition dict_of :: "('k \<times> 'v) list \<Rightarrow> ('k, 'v) dict" where
  "dict_of kvs = fold (\<lambda>(k, v) d. dput k v d) kvs []"

lemma dget_dput [simp]: "dget (dput k v d) k' = (if k' = k then Some v else dget d k')"
  by (simp add: update_conv')

lemma dkeys_dput: "set (dkeys (dput k v d)) = insert k (set (dkeys d))"
  by (induction d) auto

lemma dkeys_dput_present: "k \<in> set (dkeys d) \<Longrightarrow> dkeys (dput k v d) = dkeys d"
  by (induction d) auto

lemma dkeys_dput_absent: "k \<notin> set (dkeys d) \<Longrightarrow> dput k v d = d @ [(k, v)]"
  by (induction d) auto

lemma dput_not_Nil [simp]: "dput k v d \<noteq> []"
  by (cases d) auto

lemma dict_wf_Nil [simp]: "dict_wf []"
  by (simp add: dict_wf_def)

lemma dict_wf_dput [simp, inv_intros]: "dict_wf d \<Longrightarrow> dict_wf (dput k v d)"
  by (simp add: dict_wf_def distinct_update)

lemma dget_None_iff: "dget d k = None \<longleftrightarrow> k \<notin> set (dkeys d)"
  by (simp add: map_of_eq_None_iff)

lemma dget_Some_in: "dget d k = Some v \<Longrightarrow> (k, v) \<in> set d"
  by (rule map_of_SomeD)

lemma dget_in_keys: "k \<in> set (dkeys d) \<longleftrightarrow> (\<exists>v. dget d k = Some v)"
  using dget_None_iff [of d k] by (cases "dget d k") auto

lemma dict_wf_get: "dict_wf d \<Longrightarrow> (k, v) \<in> set d \<Longrightarrow> dget d k = Some v"
  by (simp add: dict_wf_def)

lemma fold_dput_wf: "dict_wf d \<Longrightarrow> dict_wf (fold (\<lambda>(k, v) d. dput k v d) kvs d)"
  by (induction kvs arbitrary: d) auto

lemma dict_wf_dict_of [simp]: "dict_wf (dict_of kvs)"
  by (simp add: dict_of_def fold_dput_wf)

lemma fold_dput_get:
  "dget (fold (\<lambda>(k, v) d. dput k v d) kvs d) k =
     (case map_of (rev kvs) k of None \<Rightarrow> dget d k | Some v \<Rightarrow> Some v)"
  by (induction kvs arbitrary: d) (auto simp: map_add_def split: option.splits)

lemma dget_dict_of: "dget (dict_of kvs) k = map_of (rev kvs) k"
  by (simp add: dict_of_def fold_dput_get split: option.splits)

lemma dkeys_dict_of: "set (dkeys (dict_of kvs)) = fst ` set kvs"
proof -
  have "k \<in> set (dkeys (dict_of kvs)) \<longleftrightarrow> k \<in> fst ` set kvs" for k
  proof -
    have "k \<notin> set (dkeys (dict_of kvs)) \<longleftrightarrow> map_of (rev kvs) k = None"
      by (simp only: dget_None_iff [symmetric] dget_dict_of)
    then show ?thesis by (auto simp: map_of_eq_None_iff)
  qed
  then show ?thesis by blast
qed

lemma fold_dput_distinct:
  "distinct (map fst d @ map fst kvs) \<Longrightarrow> fold (\<lambda>(k, v) d. dput k v d) kvs d = d @ kvs"
  by (induction kvs arbitrary: d) (auto simp: dkeys_dput_absent)

lemma dict_of_distinct: "distinct (map fst kvs) \<Longrightarrow> dict_of kvs = kvs"
  by (simp add: dict_of_def fold_dput_distinct)

subsection \<open>Results\<close>

text \<open>A raised exception is \<open>Inl\<close>; \<open>bindR\<close> is the sequencing that stops at the first raise.\<close>

definition bindR :: "'e + 'a \<Rightarrow> ('a \<Rightarrow> 'e + 'b) \<Rightarrow> 'e + 'b" where
  "bindR r f = (case r of Inl e \<Rightarrow> Inl e | Inr a \<Rightarrow> f a)"

lemma bindR_simps [simp]:
  "bindR (Inl e) f = Inl e"
  "bindR (Inr a) f = f a"
  by (simp_all add: bindR_def)

lemma bindR_Inr: "bindR r f = Inr b \<longleftrightarrow> (\<exists>a. r = Inr a \<and> f a = Inr b)"
  by (cases r) auto

lemma bindR_Inl: "bindR r f = Inl e \<longleftrightarrow> r = Inl e \<or> (\<exists>a. r = Inr a \<and> f a = Inl e)"
  by (cases r) auto

subsection \<open>Text\<close>

definition digit_char :: "nat \<Rightarrow> char" where
  "digit_char n = char_of (48 + n)"

fun nat_str :: "nat \<Rightarrow> string" where
  "nat_str n = (if n < 10 then [digit_char n] else nat_str (n div 10) @ [digit_char (n mod 10)])"

declare nat_str.simps [simp del]

definition int_str :: "int \<Rightarrow> string" where
  "int_str i = (if i < 0 then ''-'' @ nat_str (nat (- i)) else nat_str (nat i))"

definition upper_char :: "char \<Rightarrow> char" where
  "upper_char c =
     (let n = of_char c :: nat in if 97 \<le> n \<and> n \<le> 122 then char_of (n - 32) else c)"

definition lower_char :: "char \<Rightarrow> char" where
  "lower_char c =
     (let n = of_char c :: nat in if 65 \<le> n \<and> n \<le> 90 then char_of (n + 32) else c)"

definition str_upper :: "string \<Rightarrow> string" where
  "str_upper s = map upper_char s"

definition str_lower :: "string \<Rightarrow> string" where
  "str_lower s = map lower_char s"

text \<open>\<open>sep.join(parts)\<close> and \<open>s.startswith(p)\<close>.\<close>

fun str_join :: "string \<Rightarrow> string list \<Rightarrow> string" where
  "str_join sep [] = []"
| "str_join sep [x] = x"
| "str_join sep (x # y # zs) = x @ sep @ str_join sep (y # zs)"

definition starts_with :: "string \<Rightarrow> string \<Rightarrow> bool" where
  "starts_with s p \<longleftrightarrow> take (length p) s = p"

text \<open>\<open>s.endswith(p)\<close>, \<open>p in s\<close> and \<open>s.strip()\<close> (the white space among the first 256 code points).\<close>

definition ends_with :: "string \<Rightarrow> string \<Rightarrow> bool" where
  "ends_with s p \<longleftrightarrow> starts_with (rev s) (rev p)"

fun tails :: "'a list \<Rightarrow> 'a list list" where
  "tails [] = [[]]"
| "tails (x # xs) = (x # xs) # tails xs"

definition str_contains :: "string \<Rightarrow> string \<Rightarrow> bool" where
  "str_contains s p \<longleftrightarrow> list_ex (\<lambda>t. starts_with t p) (tails s)"

definition is_space :: "char \<Rightarrow> bool" where
  "is_space c = (let n = of_char c :: nat in 9 \<le> n \<and> n \<le> 13 \<or> 28 \<le> n \<and> n \<le> 32 \<or> n = 133 \<or> n = 160)"

definition str_strip :: "string \<Rightarrow> string" where
  "str_strip s = rev (dropWhile is_space (rev (dropWhile is_space s)))"

lemma starts_with_append [simp]: "starts_with (p @ s) p"
  by (simp add: starts_with_def)

lemma starts_with_iff: "starts_with s p \<longleftrightarrow> (\<exists>r. s = p @ r)"
  by (metis append_take_drop_id starts_with_append starts_with_def)

lemma ends_with_iff: "ends_with s p \<longleftrightarrow> (\<exists>r. s = r @ p)"
  unfolding ends_with_def starts_with_iff by (metis rev_append rev_rev_ident)

lemma str_upper_Nil_iff [simp]: "str_upper s = [] \<longleftrightarrow> s = []"
  by (simp add: str_upper_def)

subsection \<open>Lists\<close>

text \<open>\<open>xs.index(x)\<close> for an element that is present.\<close>

fun index_of :: "'a list \<Rightarrow> 'a \<Rightarrow> nat" where
  "index_of [] x = 0"
| "index_of (y # ys) x = (if y = x then 0 else Suc (index_of ys x))"

lemma index_of_less: "x \<in> set xs \<Longrightarrow> index_of xs x < length xs"
  by (induction xs) auto

lemma nth_index_of: "x \<in> set xs \<Longrightarrow> xs ! index_of xs x = x"
  by (induction xs) auto

lemma drop_index_of: "x \<in> set xs \<Longrightarrow> \<exists>ys. drop (index_of xs x) xs = x # ys"
  by (induction xs) auto

lemma length_filter_Un:
  "distinct qs \<Longrightarrow> set qs \<inter> P = {} \<Longrightarrow>
   length (filter (\<lambda>d. d \<notin> P) ds) =
     length (filter (\<lambda>d. d \<notin> P \<union> set qs) ds) + (\<Sum>q\<leftarrow>qs. count_list ds q)"
proof (induction qs arbitrary: P)
  case Nil
  then show ?case by simp
next
  case (Cons q qs)
  have one: "length (filter (\<lambda>d. d \<notin> P) ds) =
      length (filter (\<lambda>d. d \<notin> insert q P) ds) + count_list ds q"
    using Cons.prems by (induction ds) auto
  from Cons.IH [of "insert q P"] Cons.prems
  have two: "length (filter (\<lambda>d. d \<notin> insert q P) ds) =
      length (filter (\<lambda>d. d \<notin> insert q P \<union> set qs) ds) + (\<Sum>q\<leftarrow>qs. count_list ds q)"
    by auto
  have same: "insert q P \<union> set qs = P \<union> set (q # qs)" by auto
  from one two show ?case unfolding same by simp
qed

lemma distinct_concat_disjoint:
  assumes "distinct (concat ls)" and "i \<noteq> j" and "i < length ls" and "j < length ls"
    and "x \<in> set (ls ! i)"
  shows "x \<notin> set (ls ! j)"
  using assms
proof (induction ls arbitrary: i j)
  case Nil
  then show ?case by simp
next
  case (Cons l ls)
  show ?case
  proof (cases i)
    case 0
    with Cons.prems obtain j' where "j = Suc j'" by (cases j) auto
    with 0 Cons.prems show ?thesis by (auto dest: nth_mem)
  next
    case (Suc i')
    show ?thesis
    proof (cases j)
      case 0
      with Suc Cons.prems show ?thesis by (auto dest: nth_mem)
    next
      case (Suc j')
      with \<open>i = Suc i'\<close> Cons show ?thesis by auto
    qed
  qed
qed

end
