(* ===== verification/Quota_Script.thy ===== *)
theory Quota_Script
  imports Prelude
begin

section \<open>The quota deduction script\<close>

text \<open>
  src/app/core/redis_scripts/quota_deduct.lua, which Redis runs atomically on the hash of a tenant,
  and the inline script of \<open>BillingRepository.adjust_redis_balance\<close>. A hash is a dictionary from
  field names to values; the text of a number, of an ISO date and of a year-month is kept as the
  number, date or month it denotes, and Lua numbers are exact rationals. What the Redis server and
  client library do to the script's reply on its way back is not part of the repository, so the
  callers take it as an argument (\<open>reply_conv\<close>); the script itself replies with Lua values.
\<close>

type_synonym date = "int \<times> int \<times> int"

definition date_less :: "date \<Rightarrow> date \<Rightarrow> bool" where
  "date_less a b =
     (case a of (y, m, d) \<Rightarrow> case b of (y', m', d') \<Rightarrow>
        y < y' \<or> y = y' \<and> (m < m' \<or> m = m' \<and> d < d'))"

definition first_of_month :: "date \<Rightarrow> date" where
  "first_of_month t = (case t of (y, m, d) \<Rightarrow> (y, m, 1))"

definition month_of :: "date \<Rightarrow> int \<times> int" where
  "month_of t = (case t of (y, m, d) \<Rightarrow> (y, m))"

datatype hval = HNum rat | HDate date | HMonth "int \<times> int"

type_synonym redis_hash = "(string, hval) dict"

text \<open>\<open>tonumber(redis.call('HGET', key, field) or 0)\<close>.\<close>

definition hnum :: "redis_hash \<Rightarrow> string \<Rightarrow> rat" where
  "hnum h f = (case dget h f of Some (HNum r) \<Rightarrow> r | _ \<Rightarrow> 0)"

definition hset :: "(string \<times> hval) list \<Rightarrow> redis_hash \<Rightarrow> redis_hash" where
  "hset fvs h = fold (\<lambda>(f, v) d. dput f v d) fvs h"

datatype lua_val = LNum rat | LStr string

record quota_argv =
  qa_amount :: rat
  qa_daily_requests :: rat
  qa_monthly_requests :: rat
  qa_today :: date
  qa_month :: "int \<times> int"
  qa_allow_negative :: bool

text \<open>The reply and the hash afterwards; an absent key is \<open>None\<close>.\<close>

definition quota_deduct_script :: "quota_argv \<Rightarrow> redis_hash option \<Rightarrow> lua_val list \<times> redis_hash option" where
  "quota_deduct_script a hash =
     (case hash of
        None \<Rightarrow> ([LNum 0, LStr ''QUOTA_NOT_FOUND''], None)
      | Some h \<Rightarrow>
          let balance = hnum h ''balance'';
              credit_limit = hnum h ''credit_limit'';
              daily_quota = hnum h ''daily_quota'';
              same_day = (dget h ''daily_date'' = Some (HDate (qa_today a)));
              same_month = (dget h ''monthly_month'' = Some (HMonth (qa_month a)));
              monthly_quota = hnum h ''monthly_quota'';
              new_balance = balance - qa_amount a;
              effective_balance = balance + credit_limit
          in if \<not> qa_allow_negative a \<and> effective_balance < qa_amount a
             then ([LNum 0, LStr ''INSUFFICIENT_BALANCE'', LNum balance, LNum credit_limit,
                    LNum (qa_amount a)], hash)
             else
               let daily_used = (if same_day then hnum h ''daily_used'' else 0);
                   new_daily_used = daily_used + qa_daily_requests a
               in if new_daily_used > daily_quota
                  then ([LNum 0, LStr ''DAILY_QUOTA_EXCEEDED'', LNum daily_quota, LNum daily_used], hash)
                  else
                    let monthly_used = (if same_month then hnum h ''monthly_used'' else 0);
                        new_monthly_used = monthly_used + qa_monthly_requests a
                    in if new_monthly_used > monthly_quota
                       then ([LNum 0, LStr ''MONTHLY_QUOTA_EXCEEDED'', LNum monthly_quota,
                              LNum monthly_used], hash)
                       else
                         let version = hnum h ''version''
                         in ([LNum 1, LStr ''OK'', LNum new_balance, LNum new_daily_used,
                              LNum new_monthly_used, LNum (version + 1)],
                             Some (hset [(''balance'', HNum new_balance),
                                         (''daily_used'', HNum new_daily_used),
                                         (''daily_date'', HDate (qa_today a)),
                                         (''monthly_used'', HNum new_monthly_used),
                                         (''monthly_month'', HMonth (qa_month a)),
                                         (''version'', HNum (version + 1))] h)))"

definition adjust_balance_script :: "rat \<Rightarrow> redis_hash option \<Rightarrow> bool \<times> redis_hash option" where
  "adjust_balance_script diff hash =
     (case hash of
        None \<Rightarrow> (False, None)
      | Some h \<Rightarrow>
          (case dget h ''balance'' of
             None \<Rightarrow> (False, hash)
           | Some _ \<Rightarrow>
               let h1 = hset [(''balance'', HNum (hnum h ''balance'' - diff))] h
               in (True, Some (if dget h1 ''version'' = None then h1
                               else hset [(''version'', HNum (hnum h1 ''version'' + 1))] h1))))"

subsection \<open>The script on its fields\<close>

lemma dget_hset_Nil [simp]: "hset [] h = h"
  by (simp add: hset_def)

lemma hset_Cons [simp]: "hset ((f, v) # fvs) h = hset fvs (dput f v h)"
  by (simp add: hset_def)

lemma hnum_dput [simp]:
  "hnum (dput f v h) g = (if g = f then (case v of HNum r \<Rightarrow> r | _ \<Rightarrow> 0) else hnum h g)"
  by (simp add: hnum_def)

definition script_ok :: "lua_val list \<Rightarrow> bool" where
  "script_ok r \<longleftrightarrow> r \<noteq> [] \<and> hd r = LNum 1"

text \<open>
  Requests used today and this month as the script sees them: a counter of another day or month
  counts as zero.
\<close>

definition hash_daily_used :: "redis_hash \<Rightarrow> date \<Rightarrow> rat" where
  "hash_daily_used h today =
     (if dget h ''daily_date'' = Some (HDate today) then hnum h ''daily_used'' else 0)"

definition hash_monthly_used :: "redis_hash \<Rightarrow> int \<times> int \<Rightarrow> rat" where
  "hash_monthly_used h month =
     (if dget h ''monthly_month'' = Some (HMonth month) then hnum h ''monthly_used'' else 0)"

definition script_accepts :: "quota_argv \<Rightarrow> redis_hash \<Rightarrow> bool" where
  "script_accepts a h \<longleftrightarrow>
     (qa_allow_negative a \<or> qa_amount a \<le> hnum h ''balance'' + hnum h ''credit_limit'') \<and>
     hash_daily_used h (qa_today a) + qa_daily_requests a \<le> hnum h ''daily_quota'' \<and>
     hash_monthly_used h (qa_month a) + qa_monthly_requests a \<le> hnum h ''monthly_quota''"

definition script_commit :: "quota_argv \<Rightarrow> redis_hash \<Rightarrow> redis_hash" where
  "script_commit a h = hset
     [(''balance'', HNum (hnum h ''balance'' - qa_amount a)),
      (''daily_used'', HNum (hash_daily_used h (qa_today a) + qa_daily_requests a)),
      (''daily_date'', HDate (qa_today a)),
      (''monthly_used'', HNum (hash_monthly_used h (qa_month a) + qa_monthly_requests a)),
      (''monthly_month'', HMonth (qa_month a)),
      (''version'', HNum (hnum h ''version'' + 1))] h"

lemmas script_defs = quota_deduct_script_def Let_def script_ok_def script_accepts_def
  script_commit_def hash_daily_used_def [symmetric] hash_monthly_used_def [symmetric]

lemma quota_deduct_script_accept:
  "script_accepts a h \<Longrightarrow> quota_deduct_script a (Some h) =
     ([LNum 1, LStr ''OK'', LNum (hnum h ''balance'' - qa_amount a),
       LNum (hash_daily_used h (qa_today a) + qa_daily_requests a),
       LNum (hash_monthly_used h (qa_month a) + qa_monthly_requests a),
       LNum (hnum h ''version'' + 1)], Some (script_commit a h))"
  by (simp add: script_defs not_less)

lemma quota_deduct_script_refuse:
  assumes "\<not> script_accepts a h"
  shows "\<exists>r. quota_deduct_script a (Some h) = (LNum 0 # r, Some h)"
proof (cases "\<not> qa_allow_negative a \<and> hnum h ''balance'' + hnum h ''credit_limit'' < qa_amount a")
  case True
  then show ?thesis by (simp add: script_defs)
next
  case balance: False
  show ?thesis
  proof (cases "hnum h ''daily_quota'' < hash_daily_used h (qa_today a) + qa_daily_requests a")
    case True
    with balance show ?thesis by (simp add: script_defs)
  next
    case False
    with balance assms
    have "hnum h ''monthly_quota'' < hash_monthly_used h (qa_month a) + qa_monthly_requests a"
      by (auto simp: script_accepts_def)
    with balance False show ?thesis by (simp add: script_defs)
  qed
qed

lemma script_commit_fields [simp]:
  "hnum (script_commit a h) ''balance'' = hnum h ''balance'' - qa_amount a"
  "hnum (script_commit a h) ''credit_limit'' = hnum h ''credit_limit''"
  "hnum (script_commit a h) ''daily_quota'' = hnum h ''daily_quota''"
  "hnum (script_commit a h) ''monthly_quota'' = hnum h ''monthly_quota''"
  "hnum (script_commit a h) ''version'' = hnum h ''version'' + 1"
  "hash_daily_used (script_commit a h) (qa_today a) = hash_daily_used h (qa_today a) + qa_daily_requests a"
  "hash_monthly_used (script_commit a h) (qa_month a) =
     hash_monthly_used h (qa_month a) + qa_monthly_requests a"
  by (simp_all add: script_commit_def hash_daily_used_def hash_monthly_used_def)

lemma quota_deduct_script_ok_iff:
  "script_ok (fst (quota_deduct_script a hash)) \<longleftrightarrow> (\<exists>h. hash = Some h \<and> script_accepts a h)"
proof (cases hash)
  case None
  then show ?thesis by (simp add: quota_deduct_script_def script_ok_def)
next
  case (Some h)
  show ?thesis
  proof (cases "script_accepts a h")
    case True
    with Some show ?thesis by (simp add: quota_deduct_script_accept script_ok_def)
  next
    case False
    from quota_deduct_script_refuse [OF this] Some False show ?thesis by (auto simp: script_ok_def)
  qed
qed

end
