(* ===== verification/Quota_Repository.thy ===== *)
theory Quota_Repository
  imports Quota_Script
begin

section \<open>Tenant quotas\<close>

text \<open>
  \<open>TenantQuota\<close> of src/app/models/billing.py and \<open>QuotaRepository\<close> of
  src/app/repositories/quota_repository.py. The state is what the repository can see: the quota
  rows of its database session, and Redis with the quota hashes, the versioned read cache, its
  version counter and the idempotency keys of billing. A tenant has one row (the column is unique),
  so the tenant identifies it. Money is an exact rational; timestamps and the expiry of cache
  entries are not modelled. Other sessions may act between the read and the conditional update of
  \<open>check_and_deduct\<close>: they are a list of functions on the rows, one per attempt, and the retry
  after a lost race continues with the rest of the list.
\<close>

datatype billing_error =
    InsufficientQuotaError string rat rat
  | InsufficientBalanceError rat rat
  | DuplicateTransactionError string
  | QuotaExceededError string rat rat
  | BillingValueError string
  | AttributeError string

record tenant_quota =
  tq_tenant :: string
  tq_balance :: rat
  tq_credit_limit :: rat
  tq_daily_quota :: int
  tq_daily_used :: int
  tq_daily_reset_at :: "date option"
  tq_monthly_quota :: int
  tq_monthly_used :: int
  tq_monthly_reset_at :: "date option"
  tq_rpm_limit :: int
  tq_tpm_limit :: int
  tq_token_quota :: int
  tq_token_used :: int
  tq_is_active :: bool
  tq_version :: int

record quota_defaults =
  qd_balance :: rat
  qd_daily_quota :: int
  qd_monthly_quota :: int
  qd_rpm_limit :: int
  qd_tpm_limit :: int

definition no_defaults :: quota_defaults where
  "no_defaults = \<lparr>qd_balance = 0, qd_daily_quota = 10000, qd_monthly_quota = 300000,
     qd_rpm_limit = 60, qd_tpm_limit = 100000\<rparr>"

definition new_tenant_quota :: "quota_defaults \<Rightarrow> string \<Rightarrow> tenant_quota" where
  "new_tenant_quota d t =
     \<lparr>tq_tenant = t, tq_balance = qd_balance d, tq_credit_limit = 0,
      tq_daily_quota = qd_daily_quota d, tq_daily_used = 0, tq_daily_reset_at = None,
      tq_monthly_quota = qd_monthly_quota d, tq_monthly_used = 0, tq_monthly_reset_at = None,
      tq_rpm_limit = qd_rpm_limit d, tq_tpm_limit = qd_tpm_limit d, tq_token_quota = 0,
      tq_token_used = 0, tq_is_active = True, tq_version = 1\<rparr>"

record quota_view =
  qv_balance :: rat
  qv_credit_limit :: rat
  qv_daily_remaining :: int
  qv_monthly_remaining :: int
  qv_rpm_limit :: int
  qv_tpm_limit :: int
  qv_token_remaining :: int

definition view_of :: "tenant_quota \<Rightarrow> quota_view" where
  "view_of q =
     \<lparr>qv_balance = tq_balance q, qv_credit_limit = tq_credit_limit q,
      qv_daily_remaining = max 0 (tq_daily_quota q - tq_daily_used q),
      qv_monthly_remaining = max 0 (tq_monthly_quota q - tq_monthly_used q),
      qv_rpm_limit = tq_rpm_limit q, qv_tpm_limit = tq_tpm_limit q,
      qv_token_remaining =
        (if 0 < tq_token_quota q then max 0 (tq_token_quota q - tq_token_used q) else - 1)\<rparr>"

text \<open>A cached value is stored bare or tagged with the configuration version.\<close>

datatype cache_entry = Bare quota_view | Tagged int quota_view

record quota_state =
  qs_today :: date
  qs_rows :: "(string, tenant_quota) dict"
  qs_redis :: bool
  qs_script :: bool
  qs_hashes :: "(string, redis_hash) dict"
  qs_cache :: "(string, cache_entry) dict"
  qs_cfg_version :: "int option"
  qs_idem :: "(string \<times> string) list"

subsection \<open>Cache and hash\<close>

definition get_version :: "quota_state \<Rightarrow> int option" where
  "get_version s = (if qs_redis s then qs_cfg_version s else None)"

definition bump_version :: "quota_state \<Rightarrow> int \<times> quota_state" where
  "bump_version s =
     (if \<not> qs_redis s then (0, s)
      else let v = (case qs_cfg_version s of None \<Rightarrow> 1 | Some k \<Rightarrow> k + 1)
           in (v, s\<lparr>qs_cfg_version := Some v\<rparr>))"

definition cache_set :: "string \<Rightarrow> cache_entry \<Rightarrow> quota_state \<Rightarrow> quota_state" where
  "cache_set t e s = (if qs_redis s then s\<lparr>qs_cache := dput t e (qs_cache s)\<rparr> else s)"

definition cache_delete :: "string \<Rightarrow> quota_state \<Rightarrow> quota_state" where
  "cache_delete t s = (if qs_redis s then s\<lparr>qs_cache := AList.delete t (qs_cache s)\<rparr> else s)"

text \<open>
  Without an expected version the stored object comes back as it is, tag included; with one, only
  the value of an entry that carries it.
\<close>

definition get_with_version :: "string \<Rightarrow> int option \<Rightarrow> quota_state \<Rightarrow> cache_entry option" where
  "get_with_version t expected s =
     (if \<not> qs_redis s then None
      else (case expected of
              None \<Rightarrow> dget (qs_cache s) t
            | Some v \<Rightarrow>
                (case dget (qs_cache s) t of
                   Some (Tagged w q) \<Rightarrow> if w = v then Some (Bare q) else None
                 | _ \<Rightarrow> None)))"

definition invalidate_cache :: "string \<Rightarrow> quota_state \<Rightarrow> quota_state" where
  "invalidate_cache t s = snd (bump_version (cache_delete t s))"

definition update_cache :: "tenant_quota \<Rightarrow> quota_state \<Rightarrow> quota_state" where
  "update_cache q s =
     (case bump_version s of (v, s1) \<Rightarrow> cache_set (tq_tenant q) (Tagged v (view_of q)) s1)"

definition hash_payload :: "date \<Rightarrow> tenant_quota \<Rightarrow> (string \<times> hval) list" where
  "hash_payload today q =
     [(''balance'', HNum (tq_balance q)),
      (''credit_limit'', HNum (tq_credit_limit q)),
      (''daily_quota'', HNum (of_int (tq_daily_quota q))),
      (''daily_used'', HNum (of_int (tq_daily_used q))),
      (''daily_date'', HDate (case tq_daily_reset_at q of Some d \<Rightarrow> d | None \<Rightarrow> today)),
      (''monthly_quota'', HNum (of_int (tq_monthly_quota q))),
      (''monthly_used'', HNum (of_int (tq_monthly_used q))),
      (''monthly_month'', HMonth (month_of (case tq_monthly_reset_at q of Some d \<Rightarrow> d | None \<Rightarrow> today))),
      (''rpm_limit'', HNum (of_int (tq_rpm_limit q))),
      (''tpm_limit'', HNum (of_int (tq_tpm_limit q))),
      (''version'', HNum (of_int (tq_version q)))]"

definition hash_of :: "string \<Rightarrow> quota_state \<Rightarrow> redis_hash" where
  "hash_of t s = (case dget (qs_hashes s) t of None \<Rightarrow> [] | Some h \<Rightarrow> h)"

definition sync_redis_hash :: "tenant_quota \<Rightarrow> quota_state \<Rightarrow> quota_state" where
  "sync_redis_hash q s =
     (if \<not> qs_redis s then s
      else s\<lparr>qs_hashes := dput (tq_tenant q)
               (hset (hash_payload (qs_today s) q) (hash_of (tq_tenant q) s)) (qs_hashes s)\<rparr>)"

subsection \<open>Reading rows\<close>

definition put_row :: "tenant_quota \<Rightarrow> quota_state \<Rightarrow> quota_state" where
  "put_row q s = s\<lparr>qs_rows := dput (tq_tenant q) q (qs_rows s)\<rparr>"

definition needs_daily_reset :: "date \<Rightarrow> tenant_quota \<Rightarrow> bool" where
  "needs_daily_reset today q =
     (case tq_daily_reset_at q of None \<Rightarrow> True | Some d \<Rightarrow> date_less d today)"

definition needs_monthly_reset :: "date \<Rightarrow> tenant_quota \<Rightarrow> bool" where
  "needs_monthly_reset today q =
     (case tq_monthly_reset_at q of None \<Rightarrow> True | Some d \<Rightarrow> date_less d (first_of_month today))"

definition reset_row :: "date \<Rightarrow> tenant_quota \<Rightarrow> tenant_quota" where
  "reset_row today q =
     (let q1 = (if needs_daily_reset today q
                then q\<lparr>tq_daily_used := 0, tq_daily_reset_at := Some today\<rparr> else q)
      in if needs_monthly_reset today q
         then q1\<lparr>tq_monthly_used := 0, tq_monthly_reset_at := Some (first_of_month today)\<rparr> else q1)"

definition maybe_reset_quotas :: "bool \<Rightarrow> tenant_quota \<Rightarrow> quota_state \<Rightarrow> tenant_quota \<times> quota_state" where
  "maybe_reset_quotas commit q s =
     (if needs_daily_reset (qs_today s) q \<or> needs_monthly_reset (qs_today s) q then
        let q' = reset_row (qs_today s) q;
            s1 = put_row q' s
        in (q', if commit then sync_redis_hash q' (invalidate_cache (tq_tenant q') s1) else s1)
      else (q, s))"

definition get_or_create :: "quota_defaults \<Rightarrow> bool \<Rightarrow> string \<Rightarrow> quota_state \<Rightarrow>
    tenant_quota \<times> quota_state" where
  "get_or_create d commit t s =
     (case dget (qs_rows s) t of
        Some q \<Rightarrow> maybe_reset_quotas commit q s
      | None \<Rightarrow>
          let q = new_tenant_quota d t; s1 = put_row q s
          in (q, if commit then sync_redis_hash q (update_cache q s1) else s1))"

definition get_quota :: "string option \<Rightarrow> quota_state \<Rightarrow> cache_entry option \<times> quota_state" where
  "get_quota tenant s =
     (case tenant of
        None \<Rightarrow> (None, s)
      | Some t \<Rightarrow>
          if t = [] then (None, s)
          else
            let version = get_version s
            in (case get_with_version t version s of
                  Some e \<Rightarrow> (Some e, s)
                | None \<Rightarrow>
                    (case get_or_create no_defaults True t s of
                       (q, s1) \<Rightarrow>
                         (Some (Bare (view_of q)),
                          cache_set t (case version of Some v \<Rightarrow> Tagged v (view_of q)
                                       | None \<Rightarrow> Bare (view_of q)) s1))))"

subsection \<open>Deduction\<close>

record deduct_args =
  da_balance_amount :: rat
  da_daily_requests :: int
  da_monthly_requests :: int
  da_tokens :: int
  da_allow_negative :: bool

definition deduct_check :: "deduct_args \<Rightarrow> tenant_quota \<Rightarrow> billing_error option" where
  "deduct_check a q =
     (let effective = tq_balance q + tq_credit_limit q;
          daily_remaining = tq_daily_quota q - tq_daily_used q;
          monthly_remaining = tq_monthly_quota q - tq_monthly_used q;
          token_remaining = tq_token_quota q - tq_token_used q
      in if 0 < da_balance_amount a \<and> \<not> da_allow_negative a \<and> effective < da_balance_amount a
         then Some (InsufficientQuotaError ''balance'' (da_balance_amount a) effective)
         else if 0 < da_daily_requests a \<and> daily_remaining < da_daily_requests a
         then Some (InsufficientQuotaError ''daily_requests'' (of_int (da_daily_requests a))
                (of_int daily_remaining))
         else if 0 < da_monthly_requests a \<and> monthly_remaining < da_monthly_requests a
         then Some (InsufficientQuotaError ''monthly_requests'' (of_int (da_monthly_requests a))
                (of_int monthly_remaining))
         else if 0 < da_tokens a \<and> 0 < tq_token_quota q \<and> token_remaining < da_tokens a
         then Some (InsufficientQuotaError ''tokens'' (of_int (da_tokens a)) (of_int token_remaining))
         else None)"

definition deduct_row :: "deduct_args \<Rightarrow> tenant_quota \<Rightarrow> tenant_quota" where
  "deduct_row a q =
     q\<lparr>tq_balance := tq_balance q - da_balance_amount a,
       tq_daily_used := tq_daily_used q + da_daily_requests a,
       tq_monthly_used := tq_monthly_used q + da_monthly_requests a,
       tq_token_used := tq_token_used q + da_tokens a,
       tq_version := tq_version q + 1\<rparr>"

definition finish_deduct :: "bool \<Rightarrow> bool \<Rightarrow> bool \<Rightarrow> tenant_quota \<Rightarrow> quota_state \<Rightarrow> quota_state" where
  "finish_deduct commit sync_cache invalidate q s =
     (let s1 = (if commit \<and> invalidate then invalidate_cache (tq_tenant q) s else s)
      in if commit \<and> sync_cache then sync_redis_hash q s1 else s1)"

type_synonym interference = "(string, tenant_quota) dict \<Rightarrow> (string, tenant_quota) dict"

fun check_and_deduct :: "bool \<Rightarrow> bool \<Rightarrow> bool \<Rightarrow> interference list \<Rightarrow> deduct_args \<Rightarrow> string \<Rightarrow>
    quota_state \<Rightarrow> (billing_error + tenant_quota) \<times> quota_state" where
  "check_and_deduct commit sync invalidate [] a t s =
     (case get_or_create no_defaults False t s of
        (q, s1) \<Rightarrow>
          (case deduct_check a q of
             Some e \<Rightarrow> (Inl e, s1)
           | None \<Rightarrow>
               let q' = deduct_row a q
               in (Inr q', finish_deduct commit sync invalidate q' (put_row q' s1))))"
| "check_and_deduct commit sync invalidate (f # env) a t s =
     (case get_or_create no_defaults False t s of
        (q, s1) \<Rightarrow>
          (case deduct_check a q of
             Some e \<Rightarrow> (Inl e, s1)
           | None \<Rightarrow>
               (case dget (f (qs_rows s1)) t of
                  Some row \<Rightarrow>
                    if tq_version row = tq_version q then
                      let q' = deduct_row a row
                      in (Inr q', finish_deduct commit sync invalidate q'
                            (put_row q' (s1\<lparr>qs_rows := f (qs_rows s1)\<rparr>)))
                    else check_and_deduct commit sync invalidate env a t
                           (s\<lparr>qs_rows := f (qs_rows s)\<rparr>)
                | None \<Rightarrow> check_and_deduct commit sync invalidate env a t
                           (s\<lparr>qs_rows := f (qs_rows s)\<rparr>))))"

definition deduct_balance :: "interference list \<Rightarrow> string \<Rightarrow> rat \<Rightarrow> quota_state \<Rightarrow>
    (billing_error + rat) \<times> quota_state" where
  "deduct_balance env t amount s =
     (case check_and_deduct True True True env
        \<lparr>da_balance_amount = amount, da_daily_requests = 0, da_monthly_requests = 0, da_tokens = 0,
         da_allow_negative = True\<rparr> t s of
        (Inl e, s1) \<Rightarrow> (Inl e, s1)
      | (Inr q, s1) \<Rightarrow> (Inr (tq_balance q), s1))"

subsection \<open>Recharging and limits\<close>

definition add_balance :: "string \<Rightarrow> rat \<Rightarrow> quota_state \<Rightarrow> tenant_quota \<times> quota_state" where
  "add_balance t amount s =
     (case get_or_create no_defaults True t s of
        (q, s1) \<Rightarrow>
          let q' = q\<lparr>tq_balance := tq_balance q + amount, tq_version := tq_version q + 1\<rparr>
          in (q', sync_redis_hash q' (invalidate_cache t (put_row q' s1))))"

record limit_update =
  lu_rpm_limit :: "int option"
  lu_tpm_limit :: "int option"
  lu_daily_quota :: "int option"
  lu_monthly_quota :: "int option"
  lu_token_quota :: "int option"
  lu_credit_limit :: "rat option"

definition update_limits :: "string \<Rightarrow> limit_update \<Rightarrow> quota_state \<Rightarrow> tenant_quota \<times> quota_state" where
  "update_limits t u s =
     (case get_or_create no_defaults True t s of
        (q, s1) \<Rightarrow>
          let pick = (\<lambda>old new. case new of None \<Rightarrow> old | Some v \<Rightarrow> v);
              q' = q\<lparr>tq_rpm_limit := pick (tq_rpm_limit q) (lu_rpm_limit u),
                     tq_tpm_limit := pick (tq_tpm_limit q) (lu_tpm_limit u),
                     tq_daily_quota := pick (tq_daily_quota q) (lu_daily_quota u),
                     tq_monthly_quota := pick (tq_monthly_quota q) (lu_monthly_quota u),
                     tq_token_quota := pick (tq_token_quota q) (lu_token_quota u),
                     tq_credit_limit := (case lu_credit_limit u of None \<Rightarrow> tq_credit_limit q
                                         | Some v \<Rightarrow> v)\<rparr>
          in (q', sync_redis_hash q' (invalidate_cache t (put_row q' s1))))"

subsection \<open>Frame facts\<close>

lemma bump_version_keeps [frame_simps, simp]:
  "qs_rows (snd (bump_version s)) = qs_rows s" "qs_hashes (snd (bump_version s)) = qs_hashes s"
  "qs_today (snd (bump_version s)) = qs_today s" "qs_redis (snd (bump_version s)) = qs_redis s"
  "qs_cache (snd (bump_version s)) = qs_cache s"
  by (simp_all add: bump_version_def Let_def)

lemma cache_ops_keep [frame_simps, simp]:
  "qs_rows (cache_set t e s) = qs_rows s" "qs_rows (cache_delete t s) = qs_rows s"
  "qs_rows (invalidate_cache t s) = qs_rows s" "qs_rows (update_cache q s) = qs_rows s"
  "qs_rows (sync_redis_hash q s) = qs_rows s"
  "qs_today (cache_set t e s) = qs_today s" "qs_today (cache_delete t s) = qs_today s"
  "qs_today (invalidate_cache t s) = qs_today s" "qs_today (update_cache q s) = qs_today s"
  "qs_today (sync_redis_hash q s) = qs_today s"
  "qs_redis (cache_set t e s) = qs_redis s" "qs_redis (cache_delete t s) = qs_redis s"
  "qs_redis (invalidate_cache t s) = qs_redis s" "qs_redis (update_cache q s) = qs_redis s"
  "qs_redis (sync_redis_hash q s) = qs_redis s"
  by (simp_all add: cache_set_def cache_delete_def invalidate_cache_def update_cache_def
      sync_redis_hash_def split: prod.splits)
     (metis bump_version_keeps snd_conv)+

lemma put_row_simps [frame_simps, simp]:
  "qs_rows (put_row q s) = dput (tq_tenant q) q (qs_rows s)" "qs_today (put_row q s) = qs_today s"
  "qs_redis (put_row q s) = qs_redis s" "qs_cache (put_row q s) = qs_cache s"
  "qs_hashes (put_row q s) = qs_hashes s" "qs_cfg_version (put_row q s) = qs_cfg_version s"
  by (simp_all add: put_row_def)

lemma finish_deduct_keeps [frame_simps, simp]:
  "qs_rows (finish_deduct c sy i q s) = qs_rows s" "qs_today (finish_deduct c sy i q s) = qs_today s"
  by (simp_all add: finish_deduct_def Let_def)

lemma reset_row_keeps [frame_simps, simp]:
  "tq_tenant (reset_row d q) = tq_tenant q" "tq_balance (reset_row d q) = tq_balance q"
  "tq_credit_limit (reset_row d q) = tq_credit_limit q" "tq_version (reset_row d q) = tq_version q"
  "tq_daily_quota (reset_row d q) = tq_daily_quota q" "tq_monthly_quota (reset_row d q) = tq_monthly_quota q"
  "tq_token_quota (reset_row d q) = tq_token_quota q" "tq_token_used (reset_row d q) = tq_token_used q"
  by (simp_all add: reset_row_def Let_def)

lemma reset_row_noop:
  "\<not> needs_daily_reset d q \<Longrightarrow> \<not> needs_monthly_reset d q \<Longrightarrow> reset_row d q = q"
  by (simp add: reset_row_def)

lemma date_less_irrefl [simp]: "\<not> date_less d d"
  by (cases d) (simp add: date_less_def)

lemma reset_row_settled [simp]:
  "\<not> needs_daily_reset d (reset_row d q)" "\<not> needs_monthly_reset d (reset_row d q)"
  by (auto simp: reset_row_def Let_def needs_daily_reset_def needs_monthly_reset_def)

lemma reset_row_idem [simp]: "reset_row d (reset_row d q) = reset_row d q"
  by (auto simp: reset_row_def Let_def needs_daily_reset_def needs_monthly_reset_def)

lemma deduct_row_simps [simp]:
  "tq_tenant (deduct_row a q) = tq_tenant q"
  "tq_balance (deduct_row a q) = tq_balance q - da_balance_amount a"
  "tq_credit_limit (deduct_row a q) = tq_credit_limit q"
  "tq_daily_quota (deduct_row a q) = tq_daily_quota q"
  "tq_daily_used (deduct_row a q) = tq_daily_used q + da_daily_requests a"
  "tq_monthly_quota (deduct_row a q) = tq_monthly_quota q"
  "tq_monthly_used (deduct_row a q) = tq_monthly_used q + da_monthly_requests a"
  "tq_version (deduct_row a q) = tq_version q + 1"
  "tq_token_quota (deduct_row a q) = tq_token_quota q"
  "tq_token_used (deduct_row a q) = tq_token_used q + da_tokens a"
  "needs_daily_reset d (deduct_row a q) = needs_daily_reset d q"
  "needs_monthly_reset d (deduct_row a q) = needs_monthly_reset d q"
  by (simp_all add: deduct_row_def needs_daily_reset_def needs_monthly_reset_def)

subsection \<open>Rows\<close>

definition rows_wf :: "(string, tenant_quota) dict \<Rightarrow> bool" where
  "rows_wf rows \<longleftrightarrow> (\<forall>t q. dget rows t = Some q \<longrightarrow> tq_tenant q = t)"

text \<open>The row the code works with: an existing row after its resets, or a fresh one.\<close>

definition current_row :: "date \<Rightarrow> (string, tenant_quota) dict \<Rightarrow> string \<Rightarrow> tenant_quota" where
  "current_row today rows t =
     (case dget rows t of Some q \<Rightarrow> reset_row today q | None \<Rightarrow> new_tenant_quota no_defaults t)"

lemma current_row_tenant: "rows_wf rows \<Longrightarrow> tq_tenant (current_row today rows t) = t"
  by (auto simp: current_row_def rows_wf_def new_tenant_quota_def split: option.splits)

lemma rows_wf_dput [simp]: "rows_wf rows \<Longrightarrow> tq_tenant q = t \<Longrightarrow> rows_wf (dput t q rows)"
  by (simp add: rows_wf_def)

lemma tq_tenant_new [simp]: "tq_tenant (new_tenant_quota d t) = t"
  by (simp add: new_tenant_quota_def)

lemma get_or_create_row:
  assumes "rows_wf (qs_rows s)" and "get_or_create no_defaults c t s = (q, s1)"
  shows "q = current_row (qs_today s) (qs_rows s) t" and "dget (qs_rows s1) t = Some q"
    and "\<forall>u. u \<noteq> t \<longrightarrow> dget (qs_rows s1) u = dget (qs_rows s) u"
    and "rows_wf (qs_rows s1)" and "qs_today s1 = qs_today s" and "qs_redis s1 = qs_redis s"
proof -
  have "q = current_row (qs_today s) (qs_rows s) t \<and> dget (qs_rows s1) t = Some q \<and>
    (\<forall>u. u \<noteq> t \<longrightarrow> dget (qs_rows s1) u = dget (qs_rows s) u) \<and> rows_wf (qs_rows s1) \<and>
    qs_today s1 = qs_today s \<and> qs_redis s1 = qs_redis s"
  proof (cases "dget (qs_rows s) t")
    case None
    with assms show ?thesis
      by (cases c) (auto simp: get_or_create_def current_row_def Let_def)
  next
    case (Some r)
    with assms(1) have "tq_tenant r = t" by (simp add: rows_wf_def)
    with Some assms show ?thesis
      by (cases c) (auto simp: get_or_create_def current_row_def maybe_reset_quotas_def Let_def
          reset_row_noop split: if_splits)
  qed
  then show "q = current_row (qs_today s) (qs_rows s) t" and "dget (qs_rows s1) t = Some q"
    and "\<forall>u. u \<noteq> t \<longrightarrow> dget (qs_rows s1) u = dget (qs_rows s) u"
    and "rows_wf (qs_rows s1)" and "qs_today s1 = qs_today s" and "qs_redis s1 = qs_redis s"
    by blast+
qed

lemma current_row_stable:
  "dget rows t = Some (current_row today rows' t) \<Longrightarrow> dget rows' t \<noteq> None \<Longrightarrow>
   current_row today rows t = current_row today rows' t"
  by (auto simp: current_row_def)

subsection \<open>Races\<close>

text \<open>
  Another session respects the lock when a row it changes gets another version, and rows keep
  their tenant.
\<close>

definition version_guarded :: "interference \<Rightarrow> bool" where
  "version_guarded f \<longleftrightarrow>
     (\<forall>rows. rows_wf rows \<longrightarrow> rows_wf (f rows)) \<and>
     (\<forall>rows t q q'. dget rows t = Some q \<longrightarrow> dget (f rows) t = Some q' \<longrightarrow>
        tq_version q' = tq_version q \<longrightarrow> q' = q)"

lemma check_and_deduct_sound:
  assumes "rows_wf (qs_rows s)" and "\<forall>f \<in> set env. version_guarded f"
    and "check_and_deduct c sy i env a t s = (Inr q', s')"
  shows "\<exists>q. deduct_check a q = None \<and> q' = deduct_row a q \<and> tq_tenant q = t \<and>
    dget (qs_rows s') t = Some q' \<and> rows_wf (qs_rows s')"
  using assms
proof (induction c sy i env a t s rule: check_and_deduct.induct)
  case (1 c sy i a t s)
  obtain q s1 where g: "get_or_create no_defaults False t s = (q, s1)"
    by (cases "get_or_create no_defaults False t s")
  note row = get_or_create_row [OF "1.prems"(1) g]
  from row(1) have "tq_tenant q = t" using current_row_tenant [OF "1.prems"(1)] by simp
  with "1.prems"(3) g row(4) show ?case
    by (auto simp: Let_def intro!: exI [of _ q] split: option.splits)
next
  case (2 c sy i f env a t s)
  obtain q s1 where g: "get_or_create no_defaults False t s = (q, s1)"
    by (cases "get_or_create no_defaults False t s")
  note row = get_or_create_row [OF "2.prems"(1) g]
  from row(1) have tq: "tq_tenant q = t" using current_row_tenant [OF "2.prems"(1)] by simp
  from "2.prems"(3) g have chk: "deduct_check a q = None" by (auto split: option.splits)
  have f: "version_guarded f" and env: "\<forall>f \<in> set env. version_guarded f" using "2.prems"(2) by auto
  from f "2.prems"(1) have wf': "rows_wf (f (qs_rows s))" by (simp add: version_guarded_def)
  from f row(4) have wf1: "rows_wf (f (qs_rows s1))" by (simp add: version_guarded_def)
  show ?case
  proof (cases "dget (f (qs_rows s1)) t")
    case None
    with "2.prems"(3) g chk
    have "check_and_deduct c sy i env a t (s\<lparr>qs_rows := f (qs_rows s)\<rparr>) = (Inr q', s')" by simp
    with "2.IH"(1) [OF g [symmetric] chk None] wf' env show ?thesis by simp
  next
    case (Some r)
    show ?thesis
    proof (cases "tq_version r = tq_version q")
      case True
      with Some row(2) f have "r = q" unfolding version_guarded_def by metis
      with "2.prems"(3) g chk Some tq wf1 show ?thesis
        by (auto simp: Let_def intro!: exI [of _ q])
    next
      case False
      with "2.prems"(3) g chk Some
      have "check_and_deduct c sy i env a t (s\<lparr>qs_rows := f (qs_rows s)\<rparr>) = (Inr q', s')" by simp
      with "2.IH"(2) [OF g [symmetric] chk Some False] wf' env show ?thesis by simp
    qed
  qed
qed

lemma deduct_check_None:
  "deduct_check a q = None \<longleftrightarrow>
     (0 < da_balance_amount a \<and> \<not> da_allow_negative a \<longrightarrow>
        da_balance_amount a \<le> tq_balance q + tq_credit_limit q) \<and>
     (0 < da_daily_requests a \<longrightarrow> tq_daily_used q + da_daily_requests a \<le> tq_daily_quota q) \<and>
     (0 < da_monthly_requests a \<longrightarrow> tq_monthly_used q + da_monthly_requests a \<le> tq_monthly_quota q) \<and>
     (0 < da_tokens a \<and> 0 < tq_token_quota q \<longrightarrow> tq_token_used q + da_tokens a \<le> tq_token_quota q)"
  by (auto simp: deduct_check_def Let_def)

subsection \<open>The contract of a deduction\<close>

text \<open>
  What billing relies on, whichever store holds the quota: a successful deduction takes exactly the
  amount and the requests, never more than is there, and a refused one takes nothing.
\<close>

fun spend_all :: "(deduct_args \<Rightarrow> 's \<Rightarrow> bool \<times> 's) \<Rightarrow> deduct_args list \<Rightarrow> 's \<Rightarrow> deduct_args list \<times> 's" where
  "spend_all deduct [] s = ([], s)"
| "spend_all deduct (a # as) s =
     (case deduct a s of
        (ok, s1) \<Rightarrow> (case spend_all deduct as s1 of
          (acc, s2) \<Rightarrow> (if ok then a # acc else acc, s2)))"

locale quota_deduction =
  fixes deduct :: "deduct_args \<Rightarrow> 's \<Rightarrow> bool \<times> 's"
    and inv :: "'s \<Rightarrow> bool"
    and funds :: "'s \<Rightarrow> rat"
    and used :: "'s \<Rightarrow> rat"
    and cap :: "'s \<Rightarrow> rat"
  assumes deduct_inv: "inv s \<Longrightarrow> deduct a s = (b, s') \<Longrightarrow> inv s'"
    and deduct_ok: "inv s \<Longrightarrow> deduct a s = (True, s') \<Longrightarrow>
      funds s' = funds s - da_balance_amount a \<and> used s' = used s + of_int (da_daily_requests a) \<and>
      cap s' = cap s"
    and deduct_refused: "inv s \<Longrightarrow> deduct a s = (False, s') \<Longrightarrow>
      funds s' = funds s \<and> used s' = used s \<and> cap s' = cap s"
    and deduct_funded: "inv s \<Longrightarrow> deduct a s = (True, s') \<Longrightarrow> 0 < da_balance_amount a \<Longrightarrow>
      \<not> da_allow_negative a \<Longrightarrow> da_balance_amount a \<le> funds s"
    and deduct_within: "inv s \<Longrightarrow> deduct a s = (True, s') \<Longrightarrow> 0 < da_daily_requests a \<Longrightarrow> used s' \<le> cap s"
begin

lemma spend_all_exact:
  "inv s \<Longrightarrow> spend_all deduct as s = (acc, s') \<Longrightarrow>
   funds s' = funds s - (\<Sum>a\<leftarrow>acc. da_balance_amount a) \<and>
   used s' = used s + (\<Sum>a\<leftarrow>acc. of_int (da_daily_requests a)) \<and> cap s' = cap s"
proof (induction as arbitrary: s acc s')
  case Nil
  then show ?case by simp
next
  case (Cons a as)
  obtain ok s1 where d: "deduct a s = (ok, s1)" by (cases "deduct a s")
  obtain acc1 s2 where r: "spend_all deduct as s1 = (acc1, s2)" by (cases "spend_all deduct as s1")
  have "inv s1" using deduct_inv [OF Cons.prems(1) d] .
  note IH = Cons.IH [OF this r]
  show ?case
  proof (cases ok)
    case True
    with deduct_ok [OF Cons.prems(1)] d IH r Cons.prems(2) show ?thesis by auto
  next
    case False
    with deduct_refused [OF Cons.prems(1)] d IH r Cons.prems(2) show ?thesis by auto
  qed
qed

lemma spend_all_solvent:
  "inv s \<Longrightarrow> spend_all deduct as s = (acc, s') \<Longrightarrow>
   \<forall>a \<in> set as. 0 \<le> da_balance_amount a \<and> \<not> da_allow_negative a \<Longrightarrow> 0 \<le> funds s \<Longrightarrow> 0 \<le> funds s'"
proof (induction as arbitrary: s acc s')
  case Nil
  then show ?case by simp
next
  case (Cons a as)
  obtain ok s1 where d: "deduct a s = (ok, s1)" by (cases "deduct a s")
  obtain acc1 s2 where r: "spend_all deduct as s1 = (acc1, s2)" by (cases "spend_all deduct as s1")
  have "0 \<le> funds s1"
  proof (cases ok)
    case True
    with deduct_ok [OF Cons.prems(1)] deduct_funded [OF Cons.prems(1)] d Cons.prems(3,4)
    show ?thesis by (cases "da_balance_amount a = 0") force+
  next
    case False
    with deduct_refused [OF Cons.prems(1)] d Cons.prems(4) show ?thesis by auto
  qed
  with Cons.IH [OF deduct_inv [OF Cons.prems(1) d] r] Cons.prems d r show ?case by auto
qed

lemma spend_all_within_cap:
  "inv s \<Longrightarrow> spend_all deduct as s = (acc, s') \<Longrightarrow>
   \<forall>a \<in> set as. 0 \<le> da_daily_requests a \<Longrightarrow> used s \<le> cap s \<Longrightarrow> used s' \<le> cap s'"
proof (induction as arbitrary: s acc s')
  case Nil
  then show ?case by simp
next
  case (Cons a as)
  obtain ok s1 where d: "deduct a s = (ok, s1)" by (cases "deduct a s")
  obtain acc1 s2 where r: "spend_all deduct as s1 = (acc1, s2)" by (cases "spend_all deduct as s1")
  have "used s1 \<le> cap s1"
  proof (cases ok)
    case True
    with deduct_ok [OF Cons.prems(1)] deduct_within [OF Cons.prems(1)] d Cons.prems(3,4)
    show ?thesis by (cases "da_daily_requests a = 0") force+
  next
    case False
    with deduct_refused [OF Cons.prems(1)] d Cons.prems(4) show ?thesis by auto
  qed
  with Cons.IH [OF deduct_inv [OF Cons.prems(1) d] r] Cons.prems d r show ?case by auto
qed

end

subsection \<open>Both stores keep the contract\<close>

definition db_deduct :: "string \<Rightarrow> deduct_args \<Rightarrow> quota_state \<Rightarrow> bool \<times> quota_state" where
  "db_deduct t a s =
     (case check_and_deduct False False False [] a t s of
        (Inl _, s') \<Rightarrow> (False, s') | (Inr _, s') \<Rightarrow> (True, s'))"

definition db_ready :: "string \<Rightarrow> quota_state \<Rightarrow> bool" where
  "db_ready t s \<longleftrightarrow> rows_wf (qs_rows s) \<and> dget (qs_rows s) t \<noteq> None"

definition row_now :: "string \<Rightarrow> quota_state \<Rightarrow> tenant_quota" where
  "row_now t s = current_row (qs_today s) (qs_rows s) t"

lemma db_deduct_cases:
  assumes "db_ready t s"
  shows "\<exists>s'. db_deduct t a s = (deduct_check a (row_now t s) = None, s') \<and> db_ready t s' \<and>
    row_now t s' = (if deduct_check a (row_now t s) = None then deduct_row a (row_now t s) else row_now t s)"
proof -
  obtain q s1 where g: "get_or_create no_defaults False t s = (q, s1)"
    by (cases "get_or_create no_defaults False t s")
  from assms have wf: "rows_wf (qs_rows s)" and old: "dget (qs_rows s) t \<noteq> None"
    by (simp_all add: db_ready_def)
  note row = get_or_create_row [OF wf g]
  from row(1) have q: "q = row_now t s" by (simp add: row_now_def)
  have tq: "tq_tenant q = t" using current_row_tenant [OF wf] row(1) by simp
  from old obtain r where "dget (qs_rows s) t = Some r" by blast
  then have r: "q = reset_row (qs_today s) r" by (simp add: row(1) current_row_def)
  then have fresh: "reset_row (qs_today s) q = q" by simp
  have fresh': "reset_row (qs_today s) (deduct_row a q) = deduct_row a q"
    by (rule reset_row_noop) (simp_all add: r)
  show ?thesis
  proof (cases "deduct_check a q")
    case None
    with g q tq row fresh' show ?thesis
      by (simp add: db_deduct_def Let_def db_ready_def row_now_def current_row_def)
  next
    case (Some e)
    with g q row fresh show ?thesis
      by (simp add: db_deduct_def db_ready_def row_now_def current_row_def)
  qed
qed

definition argv_of :: "date \<Rightarrow> deduct_args \<Rightarrow> quota_argv" where
  "argv_of today a =
     \<lparr>qa_amount = da_balance_amount a, qa_daily_requests = of_int (da_daily_requests a),
      qa_monthly_requests = of_int (da_monthly_requests a), qa_today = today,
      qa_month = month_of today, qa_allow_negative = da_allow_negative a\<rparr>"

lemma argv_of_simps [simp]:
  "qa_amount (argv_of today a) = da_balance_amount a"
  "qa_daily_requests (argv_of today a) = of_int (da_daily_requests a)"
  "qa_monthly_requests (argv_of today a) = of_int (da_monthly_requests a)"
  "qa_today (argv_of today a) = today" "qa_month (argv_of today a) = month_of today"
  "qa_allow_negative (argv_of today a) = da_allow_negative a"
  by (simp_all add: argv_of_def)

definition script_deduct :: "date \<Rightarrow> deduct_args \<Rightarrow> redis_hash \<Rightarrow> bool \<times> redis_hash" where
  "script_deduct today a h =
     (case quota_deduct_script (argv_of today a) (Some h) of
        (r, h') \<Rightarrow> (script_ok r, the h'))"

lemma script_deduct_cases:
  "script_deduct today a h =
     (if script_accepts (argv_of today a) h then (True, script_commit (argv_of today a) h) else (False, h))"
proof (cases "script_accepts (argv_of today a) h")
  case True
  then show ?thesis by (simp add: script_deduct_def quota_deduct_script_accept script_ok_def)
next
  case False
  from quota_deduct_script_refuse [OF this] False show ?thesis
    by (auto simp: script_deduct_def script_ok_def)
qed

interpretation db: quota_deduction "db_deduct t" "db_ready t"
  "\<lambda>s. tq_balance (row_now t s) + tq_credit_limit (row_now t s)"
  "\<lambda>s. of_int (tq_daily_used (row_now t s))" "\<lambda>s. of_int (tq_daily_quota (row_now t s))"
proof unfold_locales
  fix s s' a b
  assume "db_ready t s" and "db_deduct t a s = (b, s')"
  with db_deduct_cases [of t s a] show "db_ready t s'" by auto
next
  fix s s' a
  assume "db_ready t s" and "db_deduct t a s = (True, s')"
  with db_deduct_cases [of t s a] show "tq_balance (row_now t s') + tq_credit_limit (row_now t s') =
      tq_balance (row_now t s) + tq_credit_limit (row_now t s) - da_balance_amount a \<and>
    rat_of_int (tq_daily_used (row_now t s')) =
      of_int (tq_daily_used (row_now t s)) + of_int (da_daily_requests a) \<and>
    rat_of_int (tq_daily_quota (row_now t s')) = of_int (tq_daily_quota (row_now t s))" by auto
next
  fix s s' a
  assume "db_ready t s" and "db_deduct t a s = (False, s')"
  with db_deduct_cases [of t s a] show "tq_balance (row_now t s') + tq_credit_limit (row_now t s') =
      tq_balance (row_now t s) + tq_credit_limit (row_now t s) \<and>
    rat_of_int (tq_daily_used (row_now t s')) = of_int (tq_daily_used (row_now t s)) \<and>
    rat_of_int (tq_daily_quota (row_now t s')) = of_int (tq_daily_quota (row_now t s))" by auto
next
  fix s s' a
  assume "db_ready t s" "db_deduct t a s = (True, s')" "0 < da_balance_amount a" "\<not> da_allow_negative a"
  with db_deduct_cases [of t s a]
  show "da_balance_amount a \<le> tq_balance (row_now t s) + tq_credit_limit (row_now t s)"
    by (auto simp: deduct_check_None)
next
  fix s s' a
  assume "db_ready t s" "db_deduct t a s = (True, s')" "0 < da_daily_requests a"
  with db_deduct_cases [of t s a]
  have "tq_daily_used (row_now t s') \<le> tq_daily_quota (row_now t s)" by (auto simp: deduct_check_None)
  then show "rat_of_int (tq_daily_used (row_now t s')) \<le> of_int (tq_daily_quota (row_now t s))" by simp
qed

interpretation script: quota_deduction "script_deduct today" "\<lambda>_. True"
  "\<lambda>h. hnum h ''balance'' + hnum h ''credit_limit''" "\<lambda>h. hash_daily_used h today"
  "\<lambda>h. hnum h ''daily_quota''"
proof -
  have fields: "hash_daily_used (script_commit (argv_of today a) h) today =
      hash_daily_used h today + of_int (da_daily_requests a)" for a h
    using script_commit_fields(6) [of "argv_of today a" h] by simp
  show "quota_deduction (script_deduct today) (\<lambda>_. True)
    (\<lambda>h. hnum h ''balance'' + hnum h ''credit_limit'') (\<lambda>h. hash_daily_used h today)
    (\<lambda>h. hnum h ''daily_quota'')"
    by unfold_locales (auto simp: script_deduct_cases fields script_accepts_def split: if_splits)
qed

subsection \<open>The script refines the database deduction\<close>

text \<open>A hash that shows what a row holds, at a given day.\<close>

definition hash_matches :: "date \<Rightarrow> tenant_quota \<Rightarrow> redis_hash \<Rightarrow> bool" where
  "hash_matches today q h \<longleftrightarrow>
     hnum h ''balance'' = tq_balance q \<and> hnum h ''credit_limit'' = tq_credit_limit q \<and>
     hnum h ''daily_quota'' = of_int (tq_daily_quota q) \<and>
     hnum h ''monthly_quota'' = of_int (tq_monthly_quota q) \<and>
     hash_daily_used h today = of_int (tq_daily_used q) \<and>
     hash_monthly_used h (month_of today) = of_int (tq_monthly_used q) \<and>
     hnum h ''version'' = of_int (tq_version q)"

text \<open>A row is settled when its counters are those of the day and month.\<close>

definition settled :: "date \<Rightarrow> tenant_quota \<Rightarrow> bool" where
  "settled today q \<longleftrightarrow> (case tq_daily_reset_at q of None \<Rightarrow> True | Some d \<Rightarrow> d = today) \<and>
     (case tq_monthly_reset_at q of None \<Rightarrow> True | Some d \<Rightarrow> month_of d = month_of today)"

lemma sync_matches:
  assumes "settled today q"
  shows "hash_matches today q (hset (hash_payload today q) h)"
  using assms
  by (auto simp: hash_matches_def settled_def hash_payload_def hash_daily_used_def
      hash_monthly_used_def hnum_def split: option.splits)

lemma script_refines_db:
  assumes m: "hash_matches today q h"
    and a: "0 < da_balance_amount a" "0 < da_daily_requests a" "0 < da_monthly_requests a" "da_tokens a = 0"
  shows "script_accepts (argv_of today a) h \<longleftrightarrow> deduct_check a q = None"
    and "hash_matches today (deduct_row a q) (script_commit (argv_of today a) h)"
proof -
  have daily: "hnum h ''daily_quota'' = rat_of_int (tq_daily_quota q)"
    "hash_daily_used h today = rat_of_int (tq_daily_used q)"
    and monthly: "hnum h ''monthly_quota'' = rat_of_int (tq_monthly_quota q)"
    "hash_monthly_used h (month_of today) = rat_of_int (tq_monthly_used q)"
    using m by (simp_all add: hash_matches_def)
  have "rat_of_int (tq_daily_used q) + of_int (da_daily_requests a) \<le> of_int (tq_daily_quota q) \<longleftrightarrow>
      tq_daily_used q + da_daily_requests a \<le> tq_daily_quota q"
    and "rat_of_int (tq_monthly_used q) + of_int (da_monthly_requests a) \<le> of_int (tq_monthly_quota q) \<longleftrightarrow>
      tq_monthly_used q + da_monthly_requests a \<le> tq_monthly_quota q"
    by (simp_all flip: of_int_add)
  with m a show "script_accepts (argv_of today a) h \<longleftrightarrow> deduct_check a q = None"
    by (auto simp: script_accepts_def deduct_check_None daily monthly hash_matches_def)
  have "hash_daily_used (script_commit (argv_of today a) h) today =
      hash_daily_used h today + of_int (da_daily_requests a)"
    and "hash_monthly_used (script_commit (argv_of today a) h) (month_of today) =
      hash_monthly_used h (month_of today) + of_int (da_monthly_requests a)"
    using script_commit_fields(6,7) [of "argv_of today a" h] by simp_all
  with m show "hash_matches today (deduct_row a q) (script_commit (argv_of today a) h)"
    by (simp add: hash_matches_def)
qed

subsection \<open>The read cache\<close>

text \<open>
  With Redis present: tags never exceed the version counter, and an entry that a reader would
  accept shows the row as it is stored.
\<close>

definition tags_bounded :: "quota_state \<Rightarrow> bool" where
  "tags_bounded s \<longleftrightarrow> qs_redis s \<and>
     (\<forall>t v q. dget (qs_cache s) t = Some (Tagged v q) \<longrightarrow> (\<exists>c. qs_cfg_version s = Some c \<and> v \<le> c))"

definition cache_fresh :: "quota_state \<Rightarrow> bool" where
  "cache_fresh s \<longleftrightarrow> tags_bounded s \<and>
     (\<forall>t v q. dget (qs_cache s) t = Some (Tagged v q) \<longrightarrow> qs_cfg_version s = Some v \<longrightarrow>
        (\<exists>r. dget (qs_rows s) t = Some r \<and> q = view_of r)) \<and>
     (\<forall>t q. dget (qs_cache s) t = Some (Bare q) \<longrightarrow> qs_cfg_version s = None \<longrightarrow>
        (\<exists>r. dget (qs_rows s) t = Some r \<and> q = view_of r))"

lemma tags_bounded_ops [simp, inv_intros]:
  "tags_bounded (put_row q s) = tags_bounded s"
  "tags_bounded s \<Longrightarrow> tags_bounded (cache_delete t s)"
  "tags_bounded s \<Longrightarrow> tags_bounded (sync_redis_hash q s)"
  by (auto simp: tags_bounded_def cache_delete_def sync_redis_hash_def map_of_delete delete_conv' restrict_map_def
      split: if_splits)

lemma bump_fresh:
  assumes "tags_bounded s"
  shows "cache_fresh (snd (bump_version s))"
proof (cases "qs_cfg_version s")
  case None
  with assms show ?thesis by (auto simp: cache_fresh_def tags_bounded_def bump_version_def)
next
  case (Some c)
  have le: "v \<le> c" if "dget (qs_cache s) t = Some (Tagged v q)" for t v q
    using assms that Some by (auto simp: tags_bounded_def)
  have "v \<le> c + 1 \<and> v \<noteq> c + 1" if "dget (qs_cache s) t = Some (Tagged v q)" for t v q
    using le [OF that] by simp
  with Some assms show ?thesis
    by (auto simp: cache_fresh_def tags_bounded_def bump_version_def Let_def)
qed

lemma version_of_ops [frame_simps, simp]:
  "qs_cfg_version (sync_redis_hash q s) = qs_cfg_version s"
  "qs_cfg_version (cache_delete t s) = qs_cfg_version s"
  "qs_cfg_version (update_cache q s) = qs_cfg_version (snd (bump_version s))"
  "qs_cfg_version (invalidate_cache t s) = qs_cfg_version (snd (bump_version s))"
  by (simp_all add: sync_redis_hash_def cache_delete_def update_cache_def cache_set_def
      invalidate_cache_def bump_version_def Let_def)

definition version_grows :: "quota_state \<Rightarrow> quota_state \<Rightarrow> bool" where
  "version_grows s s' \<longleftrightarrow>
     (case qs_cfg_version s of None \<Rightarrow> True | Some v \<Rightarrow> \<exists>c. qs_cfg_version s' = Some c \<and> v \<le> c)"

lemma bump_grows: "version_grows s (snd (bump_version (put_row q s)))"
  by (auto simp: version_grows_def bump_version_def Let_def split: option.splits)

lemma invalidate_fresh: "tags_bounded s \<Longrightarrow> cache_fresh (invalidate_cache t s)"
  unfolding invalidate_cache_def by (intro bump_fresh tags_bounded_ops)

lemma sync_fresh [simp]: "cache_fresh s \<Longrightarrow> cache_fresh (sync_redis_hash q s)"
  by (simp add: cache_fresh_def tags_bounded_def sync_redis_hash_def)

lemma cache_fresh_bounded: "cache_fresh s \<Longrightarrow> tags_bounded s"
  by (simp add: cache_fresh_def)

lemma cache_set_fresh:
  assumes "cache_fresh s" and "dget (qs_rows s) t = Some r"
    and "case e of Tagged v q \<Rightarrow> q = view_of r \<and> (\<exists>c. qs_cfg_version s = Some c \<and> v \<le> c)
         | Bare q \<Rightarrow> q = view_of r"
  shows "cache_fresh (cache_set t e s)"
  using assms by (cases e) (auto simp: cache_fresh_def tags_bounded_def cache_set_def)

lemma update_cache_fresh:
  assumes "tags_bounded s" and "dget (qs_rows s) (tq_tenant q) = Some q"
  shows "cache_fresh (update_cache q s)"
proof -
  obtain v s1 where b: "bump_version s = (v, s1)" by (cases "bump_version s")
  have "cache_fresh s1" using bump_fresh [OF assms(1)] b by simp
  moreover have "qs_cfg_version s1 = Some v" and "qs_rows s1 = qs_rows s"
    using b assms(1) by (auto simp: bump_version_def tags_bounded_def Let_def)
  ultimately show ?thesis
    using assms(2) by (auto simp: update_cache_def b intro!: cache_set_fresh)
qed

lemma get_or_create_fresh:
  assumes "rows_wf (qs_rows s)" and "cache_fresh s" and "get_or_create no_defaults True t s = (q, s1)"
  shows "cache_fresh s1 \<and> dget (qs_rows s1) t = Some q \<and> version_grows s s1"
proof (cases "dget (qs_rows s) t")
  case None
  let ?q = "new_tenant_quota no_defaults t"
  from None assms(3) have s1: "s1 = sync_redis_hash ?q (update_cache ?q (put_row ?q s))"
    and q: "q = ?q" by (auto simp: get_or_create_def Let_def)
  have "tags_bounded (put_row ?q s)" using assms(2) by (simp add: cache_fresh_def)
  then have "cache_fresh s1" unfolding s1 by (intro sync_fresh update_cache_fresh) simp_all
  moreover have "qs_cfg_version s1 = qs_cfg_version (snd (bump_version (put_row ?q s)))"
    by (simp add: s1)
  then have "version_grows s s1" using bump_grows [of s ?q] by (simp add: version_grows_def split: option.splits)
  ultimately show ?thesis by (simp add: q s1)
next
  case (Some r)
  with assms(1) have tr: "tq_tenant r = t" by (simp add: rows_wf_def)
  show ?thesis
  proof (cases "needs_daily_reset (qs_today s) r \<or> needs_monthly_reset (qs_today s) r")
    case True
    let ?q = "reset_row (qs_today s) r"
    from assms(3) Some True
    have q: "q = ?q" and s1: "s1 = sync_redis_hash ?q (invalidate_cache t (put_row ?q s))"
      by (auto simp: get_or_create_def maybe_reset_quotas_def Let_def tr)
    have "tags_bounded (put_row ?q s)" using assms(2) by (simp add: cache_fresh_def)
    then have "cache_fresh s1" unfolding s1 by (intro sync_fresh invalidate_fresh)
    moreover have "qs_cfg_version s1 = qs_cfg_version (snd (bump_version (put_row ?q s)))"
    by (simp add: s1)
  then have "version_grows s s1" using bump_grows [of s ?q] by (simp add: version_grows_def split: option.splits)
    ultimately show ?thesis by (simp add: q s1 tr)
  next
    case False
    with Some assms show ?thesis
      by (auto simp: get_or_create_def maybe_reset_quotas_def version_grows_def split: option.splits)
  qed
qed

lemma get_quota_fresh:
  assumes "rows_wf (qs_rows s)" and "cache_fresh s" and "t \<noteq> []" and "get_quota (Some t) s = (e, s')"
  shows "cache_fresh s' \<and> (\<exists>r. dget (qs_rows s') t = Some r \<and> e = Some (Bare (view_of r)) \<and>
    tq_balance r = tq_balance (row_now t s))"
proof (cases "get_with_version t (get_version s) s")
  case None
  obtain q s1 where g: "get_or_create no_defaults True t s = (q, s1)"
    by (cases "get_or_create no_defaults True t s")
  note fresh = get_or_create_fresh [OF assms(1,2) g]
  have "get_version s = qs_cfg_version s"
    using assms(2) by (simp add: get_version_def cache_fresh_def tags_bounded_def)
  moreover have "q = row_now t s" using get_or_create_row(1) [OF assms(1) g] by (simp add: row_now_def)
  ultimately show ?thesis
    using None g assms(3,4) fresh
    by (auto simp: get_quota_def Let_def version_grows_def intro!: cache_set_fresh split: option.splits)
next
  case (Some x)
  then have e: "e = Some x" "s' = s" using assms(3,4) by (simp_all add: get_quota_def Let_def)
  have version: "get_version s = qs_cfg_version s" and redis: "qs_redis s"
    using assms(2) by (simp_all add: get_version_def cache_fresh_def tags_bounded_def)
  have "\<exists>r. dget (qs_rows s) t = Some r \<and> x = Bare (view_of r)"
  proof (cases "qs_cfg_version s")
    case None
    with Some redis have hit: "dget (qs_cache s) t = Some x" by (simp add: get_with_version_def version)
    with None assms(2) show ?thesis
      by (cases x) (auto simp: cache_fresh_def tags_bounded_def)
  next
    case v: (Some v)
    with Some redis obtain q where "dget (qs_cache s) t = Some (Tagged v q)" and "x = Bare q"
      by (auto simp: get_with_version_def version split: option.splits cache_entry.splits if_splits)
    with v assms(2) show ?thesis by (auto simp: cache_fresh_def)
  qed
  then show ?thesis using e assms(2) by (auto simp: row_now_def current_row_def)
qed

lemma commit_fresh:
  "rows_wf (qs_rows s) \<Longrightarrow> tags_bounded s \<Longrightarrow>
   cache_fresh (sync_redis_hash q (invalidate_cache t (put_row q s)))"
  by (intro sync_fresh invalidate_fresh) simp

lemma add_balance_fresh:
  assumes "rows_wf (qs_rows s)" and "cache_fresh s" and "add_balance t x s = (q, s')"
  shows "cache_fresh s' \<and> rows_wf (qs_rows s') \<and> dget (qs_rows s') t = Some q \<and>
    tq_balance q = tq_balance (row_now t s) + x"
proof -
  obtain r s1 where g: "get_or_create no_defaults True t s = (r, s1)"
    by (cases "get_or_create no_defaults True t s")
  note row = get_or_create_row [OF assms(1) g] and fresh = get_or_create_fresh [OF assms(1,2) g]
  have "tq_tenant r = t" using current_row_tenant [OF assms(1)] row(1) by simp
  with assms(3) g row fresh show ?thesis
    by (auto simp: add_balance_def Let_def row_now_def intro!: commit_fresh cache_fresh_bounded)
qed

lemma update_limits_fresh:
  assumes "rows_wf (qs_rows s)" and "cache_fresh s" and "update_limits t u s = (q, s')"
  shows "cache_fresh s' \<and> rows_wf (qs_rows s') \<and> dget (qs_rows s') t = Some q \<and>
    tq_balance q = tq_balance (row_now t s) \<and> tq_version q = tq_version (row_now t s)"
proof -
  obtain r s1 where g: "get_or_create no_defaults True t s = (r, s1)"
    by (cases "get_or_create no_defaults True t s")
  note row = get_or_create_row [OF assms(1) g] and fresh = get_or_create_fresh [OF assms(1,2) g]
  have "tq_tenant r = t" using current_row_tenant [OF assms(1)] row(1) by simp
  with assms(3) g row fresh show ?thesis
    by (auto simp: update_limits_def Let_def row_now_def intro!: commit_fresh cache_fresh_bounded)
qed

subsection \<open>Properties\<close>

text \<open>C35: through the database, any sequence of deductions that may not go negative takes exactly
  the accepted amounts, never drives balance plus credit below zero, and never lets the requests of
  the day exceed the daily quota.\<close>

theorem db_deductions_within_budget:
  assumes "rows_wf (qs_rows s)" and "dget (qs_rows s) t = Some r"
    and "spend_all (db_deduct t) as s = (acc, s')"
    and "\<forall>a \<in> set as. 0 \<le> da_balance_amount a \<and> \<not> da_allow_negative a \<and> 0 \<le> da_daily_requests a"
    and "0 \<le> tq_balance r + tq_credit_limit r"
    and "tq_daily_used (row_now t s) \<le> tq_daily_quota (row_now t s)"
  shows "tq_balance (row_now t s') + tq_credit_limit (row_now t s') =
      tq_balance r + tq_credit_limit r - (\<Sum>a\<leftarrow>acc. da_balance_amount a) \<and>
    0 \<le> tq_balance (row_now t s') + tq_credit_limit (row_now t s') \<and>
    tq_daily_used (row_now t s') \<le> tq_daily_quota (row_now t s')"
proof -
  from assms(1,2) have ready: "db_ready t s" by (simp add: db_ready_def)
  have now: "tq_balance (row_now t s) = tq_balance r" "tq_credit_limit (row_now t s) = tq_credit_limit r"
    using assms(2) by (simp_all add: row_now_def current_row_def)
  from assms(6) have cap: "rat_of_int (tq_daily_used (row_now t s)) \<le> of_int (tq_daily_quota (row_now t s))"
    by simp
  from db.spend_all_exact [OF ready assms(3)] db.spend_all_solvent [OF ready assms(3)]
    db.spend_all_within_cap [OF ready assms(3) _ cap] assms(4,5)
  show ?thesis by (simp add: now)
qed

text \<open>The Redis script gives the same guarantee on the hash of a tenant.\<close>

theorem script_deductions_within_budget:
  assumes "spend_all (script_deduct today) as h = (acc, h')"
    and "\<forall>a \<in> set as. 0 \<le> da_balance_amount a \<and> \<not> da_allow_negative a \<and> 0 \<le> da_daily_requests a"
    and "0 \<le> hnum h ''balance'' + hnum h ''credit_limit''"
    and "hash_daily_used h today \<le> hnum h ''daily_quota''"
  shows "hnum h' ''balance'' + hnum h' ''credit_limit'' =
      hnum h ''balance'' + hnum h ''credit_limit'' - (\<Sum>a\<leftarrow>acc. da_balance_amount a) \<and>
    0 \<le> hnum h' ''balance'' + hnum h' ''credit_limit'' \<and>
    hash_daily_used h' today \<le> hnum h' ''daily_quota''"
  using script.spend_all_exact [OF _ assms(1)] script.spend_all_solvent [OF _ assms(1)]
    script.spend_all_within_cap [OF _ assms(1) _ assms(4)] assms(2,3) by simp



text \<open>A committed recharge is visible to the next cached read: with Redis present and a cache
  that shows the rows, \<open>get_quota\<close> after \<open>add_balance\<close> returns the stored row with the raised
  balance, and the cache keeps showing the rows.\<close>

theorem recharge_visible_in_cache:
  assumes "rows_wf (qs_rows s)" and "cache_fresh s" and "t \<noteq> []"
    and "add_balance t x s = (q, s1)" and "get_quota (Some t) s1 = (e, s2)"
  shows "cache_fresh s2 \<and> (\<exists>r. dget (qs_rows s2) t = Some r \<and> e = Some (Bare (view_of r)) \<and>
    tq_balance r = tq_balance (row_now t s) + x)"
proof -
  note add = add_balance_fresh [OF assms(1,2,4)]
  then have "tq_balance (row_now t s1) = tq_balance q" by (simp add: row_now_def current_row_def)
  with get_quota_fresh [OF _ _ assms(3,5)] add show ?thesis by auto
qed

definition race_row :: tenant_quota where
  "race_row = (new_tenant_quota no_defaults ''t'')\<lparr>tq_balance := 5, tq_credit_limit := 10,
     tq_daily_reset_at := Some (2025, 1, 1), tq_monthly_reset_at := Some (2025, 1, 1)\<rparr>"

definition race_state :: quota_state where
  "race_state = \<lparr>qs_today = (2025, 1, 1), qs_rows = [(''t'', race_row)], qs_redis = True,
     qs_script = True, qs_hashes = [], qs_cache = [], qs_cfg_version = None, qs_idem = []\<rparr>"

definition withdraw_credit :: interference where
  "withdraw_credit rows = qs_rows (snd (update_limits ''t''
     \<lparr>lu_rpm_limit = None, lu_tpm_limit = None, lu_daily_quota = None, lu_monthly_quota = None,
      lu_token_quota = None, lu_credit_limit = Some 0\<rparr> (race_state\<lparr>qs_rows := rows\<rparr>)))"

definition race_args :: deduct_args where
  "race_args = \<lparr>da_balance_amount = 12, da_daily_requests = 1, da_monthly_requests = 1,
     da_tokens = 0, da_allow_negative = False\<rparr>"

text \<open>\<open>update_limits\<close> leaves the version of the row alone, so the optimistic lock does not see
  it: a credit limit withdrawn between the check and the update of a deduction still gets spent, and
  the tenant ends below its credit limit.\<close>

theorem update_limits_defeats_lock:
  "\<exists>q s'. check_and_deduct True True True [withdraw_credit] race_args ''t'' race_state = (Inr q, s') \<and>
     tq_balance q + tq_credit_limit q = - 7"
proof -
  have "case fst (check_and_deduct True True True [withdraw_credit] race_args ''t'' race_state) of
      Inl _ \<Rightarrow> False | Inr q \<Rightarrow> tq_balance q + tq_credit_limit q = - 7"
    by code_simp
  then show ?thesis
    by (cases "check_and_deduct True True True [withdraw_credit] race_args ''t'' race_state")
       (auto split: sum.splits)
qed

text \<open>The requests of the first deduction of a tenant are not counted: the row it creates has
  no reset date, so the next access on the same day resets the counter.\<close>

theorem first_deduction_uncounted:
  assumes "rows_wf (qs_rows s)" and "dget (qs_rows s) t = None"
    and "check_and_deduct commit sync invalidate [] a t s = (Inr q, s')"
    and "get_or_create no_defaults True t s' = (q', s'')"
  shows "tq_daily_used q = da_daily_requests a \<and> tq_daily_used q' = 0 \<and>
    tq_balance q' = - da_balance_amount a"
proof -
  obtain q0 s1 where g: "get_or_create no_defaults False t s = (q0, s1)"
    by (cases "get_or_create no_defaults False t s")
  note row = get_or_create_row [OF assms(1) g]
  have q0: "q0 = new_tenant_quota no_defaults t" using row(1) assms(2) by (simp add: current_row_def)
  from assms(3) g have q: "q = deduct_row a q0"
    and s': "s' = finish_deduct commit sync invalidate q (put_row q s1)"
    by (auto simp: Let_def split: option.splits)
  have wf: "rows_wf (qs_rows s')" using row(4) by (simp add: s' q q0)
  from get_or_create_row(1) [OF wf assms(4)] have "q' = reset_row (qs_today s') q"
    by (simp add: current_row_def s' q q0)
  then show ?thesis
    by (simp add: q q0 reset_row_def Let_def needs_daily_reset_def new_tenant_quota_def deduct_row_def
        no_defaults_def)
qed

subsection \<open>Concrete runs\<close>

lemma race_rows_wf: "rows_wf (qs_rows race_state)"
  by (auto simp: rows_wf_def race_state_def race_row_def new_tenant_quota_def split: if_splits)

lemma race_row_get: "dget (qs_rows race_state) ''t'' = Some race_row"
  by (simp add: race_state_def)

lemma race_row_now: "row_now ''t'' race_state = race_row"
  by code_simp

lemma race_args_bounds:
  "0 \<le> da_balance_amount race_args \<and> \<not> da_allow_negative race_args \<and> 0 \<le> da_daily_requests race_args"
  by (simp add: race_args_def)

definition race_hash :: redis_hash where
  "race_hash = hset (hash_payload (2025, 1, 1) race_row) []"

text \<open>C35 at two deductions of twelve from funds of fifteen: one is accepted.\<close>

theorem db_deductions_within_budget_witness:
  "fst (spend_all (db_deduct ''t'') [race_args, race_args] race_state) = [race_args] \<and>
   tq_balance (row_now ''t'' (snd (spend_all (db_deduct ''t'') [race_args, race_args] race_state))) +
   tq_credit_limit (row_now ''t'' (snd (spend_all (db_deduct ''t'') [race_args, race_args] race_state))) = 3"
proof -
  have acc: "fst (spend_all (db_deduct ''t'') [race_args, race_args] race_state) = [race_args]"
    by code_simp
  obtain s' where run: "spend_all (db_deduct ''t'') [race_args, race_args] race_state = ([race_args], s')"
    using acc by (cases "spend_all (db_deduct ''t'') [race_args, race_args] race_state") auto
  have "tq_balance (row_now ''t'' s') + tq_credit_limit (row_now ''t'' s') =
      tq_balance race_row + tq_credit_limit race_row - (\<Sum>a\<leftarrow>[race_args]. da_balance_amount a)"
    using db_deductions_within_budget [OF race_rows_wf race_row_get run] race_args_bounds
    by (simp add: race_row_now) (simp add: race_row_def new_tenant_quota_def no_defaults_def)
  also have "\<dots> = 3" by (simp add: race_row_def race_args_def)
  finally show ?thesis unfolding run by simp
qed

text \<open>The preceding statement at the same deductions on the hash of that row.\<close>

theorem script_deductions_within_budget_witness:
  "0 \<le> hnum (snd (spend_all (script_deduct (2025, 1, 1)) [race_args, race_args] race_hash)) ''balance'' +
     hnum (snd (spend_all (script_deduct (2025, 1, 1)) [race_args, race_args] race_hash)) ''credit_limit''"
proof -
  obtain acc h' where run: "spend_all (script_deduct (2025, 1, 1)) [race_args, race_args] race_hash = (acc, h')"
    by (cases "spend_all (script_deduct (2025, 1, 1)) [race_args, race_args] race_hash")
  have "0 \<le> hnum race_hash ''balance'' + hnum race_hash ''credit_limit''"
    and "hash_daily_used race_hash (2025, 1, 1) \<le> hnum race_hash ''daily_quota''"
    by code_simp+
  from script_deductions_within_budget [OF run _ this] race_args_bounds show ?thesis
    unfolding run by simp
qed

lemma version_guarded_id: "version_guarded (\<lambda>rows. rows)"
  by (simp add: version_guarded_def)



text \<open>The preceding statement at a recharge of two.\<close>

theorem recharge_visible_in_cache_witness:
  "\<exists>r. fst (get_quota (Some ''t'') (snd (add_balance ''t'' 2 race_state))) = Some (Bare (view_of r)) \<and>
     tq_balance r = 7"
proof -
  obtain q s1 where add: "add_balance ''t'' 2 race_state = (q, s1)" by (cases "add_balance ''t'' 2 race_state")
  obtain e s2 where get: "get_quota (Some ''t'') s1 = (e, s2)" by (cases "get_quota (Some ''t'') s1")
  have fresh: "cache_fresh race_state" by (simp add: cache_fresh_def tags_bounded_def race_state_def)
  have "tq_balance (row_now ''t'' race_state) = 5" by (simp add: race_row_now race_row_def)
  with recharge_visible_in_cache [OF race_rows_wf fresh _ add get] add get show ?thesis by auto
qed

text \<open>The preceding statement at a tenant without a row.\<close>

theorem first_deduction_uncounted_witness:
  "\<exists>q s' q' s''. check_and_deduct True True True [] (race_args\<lparr>da_balance_amount := 0\<rparr>) ''new'' race_state = (Inr q, s') \<and>
     get_or_create no_defaults True ''new'' s' = (q', s'') \<and> tq_daily_used q = 1 \<and> tq_daily_used q' = 0"
proof -
  let ?a = "race_args\<lparr>da_balance_amount := 0\<rparr>"
  have "case fst (check_and_deduct True True True [] ?a ''new'' race_state) of Inl _ \<Rightarrow> False | Inr q \<Rightarrow> True"
    by code_simp
  then obtain q s' where run: "check_and_deduct True True True [] ?a ''new'' race_state = (Inr q, s')"
    by (cases "check_and_deduct True True True [] ?a ''new'' race_state") (auto split: sum.splits)
  obtain q' s'' where g: "get_or_create no_defaults True ''new'' s' = (q', s'')"
    by (cases "get_or_create no_defaults True ''new'' s'")
  have "dget (qs_rows race_state) ''new'' = None" by (simp add: race_state_def)
  from first_deduction_uncounted [OF race_rows_wf this run g] run g show ?thesis
    by (simp add: race_args_def)
qed

end
