(* ===== verification/Py_Value.thy ===== *)
theory Py_Value
  imports Prelude
begin

section \<open>Dynamic values and exceptions\<close>

text \<open>
  The values that travel through untyped dictionaries (request bodies, JSON columns, the
  namespaces of a workflow context), their truth value, and the exceptions of the modelled code.
  Floats and decimals are exact rationals: no rounding happens unless the source asks for it
  (\<open>quantize\<close>, \<open>int(...)\<close>), and then it is written out.
\<close>

datatype pyval =
    PNone
  | PBool bool
  | PInt int
  | PFloat rat
  | PStr string
  | PList "pyval list"
  | PDict "(string \<times> pyval) list"

text \<open>\<open>bool(v)\<close>.\<close>

fun truthy :: "pyval \<Rightarrow> bool" where
  "truthy PNone = False"
| "truthy (PBool b) = b"
| "truthy (PInt i) = (i \<noteq> 0)"
| "truthy (PFloat r) = (r \<noteq> 0)"
| "truthy (PStr s) = (s \<noteq> [])"
| "truthy (PList xs) = (xs \<noteq> [])"
| "truthy (PDict d) = (d \<noteq> [])"

text \<open>\<open>a or b\<close>, and \<open>d.get(k, default)\<close> on a value that is a dictionary.\<close>

definition py_or :: "pyval \<Rightarrow> pyval \<Rightarrow> pyval" where
  "py_or a b = (if truthy a then a else b)"

fun as_dict :: "pyval \<Rightarrow> (string, pyval) dict" where
  "as_dict (PDict d) = d"
| "as_dict _ = []"

definition py_get :: "(string, pyval) dict \<Rightarrow> string \<Rightarrow> pyval \<Rightarrow> pyval" where
  "py_get d k dflt = (case dget d k of None \<Rightarrow> dflt | Some v \<Rightarrow> v)"

lemma py_get_dput [simp]:
  "py_get (dput k v d) k' dflt = (if k' = k then v else py_get d k' dflt)"
  by (simp add: py_get_def)

definition opt_str :: "string option \<Rightarrow> pyval" where
  "opt_str s = (case s of None \<Rightarrow> PNone | Some t \<Rightarrow> PStr t)"

definition opt_int :: "int option \<Rightarrow> pyval" where
  "opt_int s = (case s of None \<Rightarrow> PNone | Some t \<Rightarrow> PInt t)"

definition opt_float :: "rat option \<Rightarrow> pyval" where
  "opt_float s = (case s of None \<Rightarrow> PNone | Some t \<Rightarrow> PFloat t)"

text \<open>Truth of an optional string: None and the empty string are false.\<close>

definition str_truthy :: "string option \<Rightarrow> bool" where
  "str_truthy s = (case s of None \<Rightarrow> False | Some t \<Rightarrow> t \<noteq> [])"

lemma str_truthy_simps [simp]:
  "\<not> str_truthy None"
  "str_truthy (Some t) \<longleftrightarrow> t \<noteq> []"
  by (simp_all add: str_truthy_def)

subsection \<open>Exceptions\<close>

datatype exn =
    ValueError string
  | CyclicDependencyError "string list"
  | StepNotFoundError string
  | StepExecutionError string exn int
  | TimeoutError
  | UnboundLocalError string
  | OtherError string string

text \<open>\<open>str(e)\<close>; for a class outside the model the second argument is its text.\<close>

fun exn_str :: "exn \<Rightarrow> string" where
  "exn_str (ValueError m) = m"
| "exn_str (CyclicDependencyError c) = ''Cyclic dependency detected: '' @ str_join '' -> '' c"
| "exn_str (StepNotFoundError n) = ''Step '' @ [CHR 0x27] @ n @ [CHR 0x27] @ '' not found in registry''"
| "exn_str (StepExecutionError n e k) =
     ''Step '' @ [CHR 0x27] @ n @ [CHR 0x27] @ '' failed after '' @ int_str k @ '' attempts: '' @ exn_str e"
| "exn_str TimeoutError = []"
| "exn_str (UnboundLocalError v) =
     ''cannot access local variable '' @ [CHR 0x27] @ v @ [CHR 0x27] @
     '' where it is not associated with a value''"
| "exn_str (OtherError c m) = m"

end
