(* ===== verification/Billing_Repository.thy ===== *)
theory Billing_Repository
  imports Quota_Repository Py_Value
begin

section \<open>Billing transactions\<close>

text \<open>
  \<open>BillingTransaction\<close> of src/app/models/billing.py and \<open>BillingRepository\<close> of
  src/app/repositories/billing_repository.py: pending and committed transactions, the deduction
  with its two idempotency checks, recharge, reversal, listing and the usage summary. A transaction
  is identified by its trace id, which is unique in the table. The state adds to the quota state the
  transactions in insertion order, a clock for creation times and the rows whose hash an
  after-commit hook will write. What comes back from the script goes through \<open>conv\<close>, the
  conversion the Redis server and the client library apply to a reply; \<open>redis_reply\<close> states the
  documented one for the client that src/app/core/cache.py builds (\<open>decode_responses=False\<close>): a Lua
  number becomes an integer by dropping its fraction, a Lua string becomes bytes, and bytes never
  equal text. Money is exact; the precision of the columns is not modelled.
\<close>

datatype transaction_type = DEDUCT | RECHARGE | REFUND | ADJUST

datatype transaction_status = TxPending | TxCommitted | TxReversed

record billing_tx =
  tx_trace_id :: string
  tx_tenant :: string
  tx_api_key_id :: "string option"
  tx_type :: transaction_type
  tx_status :: transaction_status
  tx_amount :: rat
  tx_input_tokens :: int
  tx_output_tokens :: int
  tx_input_price :: rat
  tx_output_price :: rat
  tx_provider :: "string option"
  tx_model :: "string option"
  tx_provider_model_id :: "string option"
  tx_balance_before :: rat
  tx_balance_after :: rat
  tx_description :: "string option"
  tx_reversed_by :: "string option"
  tx_created_at :: rat

record billing_state =
  bs_quota :: quota_state
  bs_txs :: "(string, billing_tx) dict"
  bs_now :: rat
  bs_hooks :: "tenant_quota list"

text \<open>What a caller says about a request besides its cost.\<close>

record usage_info =
  ui_input_tokens :: int
  ui_output_tokens :: int
  ui_input_price :: rat
  ui_output_price :: rat
  ui_provider :: "string option"
  ui_model :: "string option"
  ui_provider_model_id :: "string option"
  ui_api_key_id :: "string option"
  ui_description :: "string option"

definition no_usage :: usage_info where
  "no_usage = \<lparr>ui_input_tokens = 0, ui_output_tokens = 0, ui_input_price = 0, ui_output_price = 0,
     ui_provider = None, ui_model = None, ui_provider_model_id = None, ui_api_key_id = None,
     ui_description = None\<rparr>"

definition mk_tx :: "string \<Rightarrow> string \<Rightarrow> transaction_type \<Rightarrow> transaction_status \<Rightarrow> rat \<Rightarrow> usage_info \<Rightarrow>
    rat \<Rightarrow> rat \<Rightarrow> rat \<Rightarrow> billing_tx" where
  "mk_tx tenant trace ty st amount u before after now =
     \<lparr>tx_trace_id = trace, tx_tenant = tenant, tx_api_key_id = ui_api_key_id u, tx_type = ty,
      tx_status = st, tx_amount = amount, tx_input_tokens = ui_input_tokens u,
      tx_output_tokens = ui_output_tokens u, tx_input_price = ui_input_price u,
      tx_output_price = ui_output_price u, tx_provider = ui_provider u, tx_model = ui_model u,
      tx_provider_model_id = ui_provider_model_id u, tx_balance_before = before,
      tx_balance_after = after, tx_description = ui_description u, tx_reversed_by = None,
      tx_created_at = now\<rparr>"

definition get_by_trace_id :: "string \<Rightarrow> billing_state \<Rightarrow> billing_tx option" where
  "get_by_trace_id trace s = dget (bs_txs s) trace"

definition put_tx :: "billing_tx \<Rightarrow> billing_state \<Rightarrow> billing_state" where
  "put_tx t s = s\<lparr>bs_txs := dput (tx_trace_id t) t (bs_txs s)\<rparr>"

definition quota_or_create :: "bool \<Rightarrow> string \<Rightarrow> billing_state \<Rightarrow> tenant_quota \<times> billing_state" where
  "quota_or_create commit tenant s =
     (case get_or_create no_defaults commit tenant (bs_quota s) of
        (q, qs) \<Rightarrow> (q, s\<lparr>bs_quota := qs\<rparr>))"

subsection \<open>Replies of the script\<close>

datatype py_reply = RNum rat | RBytes string | RText string

type_synonym reply_conv = "lua_val \<Rightarrow> py_reply"

definition lua_int :: "rat \<Rightarrow> int" where
  "lua_int x = (if x < 0 then \<lceil>x\<rceil> else \<lfloor>x\<rfloor>)"

definition redis_reply :: "reply_conv \<Rightarrow> bool" where
  "redis_reply conv \<longleftrightarrow> (\<forall>x. conv (LNum x) = RNum (of_int (lua_int x))) \<and> (\<forall>s. conv (LStr s) = RBytes s)"

definition resp2_conv :: reply_conv where
  "resp2_conv v = (case v of LNum x \<Rightarrow> RNum (of_int (lua_int x)) | LStr s \<Rightarrow> RBytes s)"

definition exact_conv :: reply_conv where
  "exact_conv v = (case v of LNum x \<Rightarrow> RNum x | LStr s \<Rightarrow> RText s)"

definition reply_num :: "py_reply \<Rightarrow> rat" where
  "reply_num r = (case r of RNum x \<Rightarrow> x | _ \<Rightarrow> 0)"

subsection \<open>Deducting through Redis\<close>

definition deduct_args_of :: "rat \<Rightarrow> int \<Rightarrow> int \<Rightarrow> bool \<Rightarrow> deduct_args" where
  "deduct_args_of amount daily monthly neg =
     \<lparr>da_balance_amount = amount, da_daily_requests = daily, da_monthly_requests = monthly,
      da_tokens = 0, da_allow_negative = neg\<rparr>"

definition deduct_quota_db :: "string \<Rightarrow> deduct_args \<Rightarrow> quota_state \<Rightarrow>
    (billing_error + tenant_quota) \<times> quota_state" where
  "deduct_quota_db tenant a s = check_and_deduct False False False [] a tenant s"

text \<open>The hash is written from the row when the key does not exist yet.\<close>

definition warm_hash :: "string \<Rightarrow> quota_state \<Rightarrow> quota_state" where
  "warm_hash tenant s =
     (if dget (qs_hashes s) tenant = None
      then (case get_or_create no_defaults False tenant s of (q, s0) \<Rightarrow> sync_redis_hash q s0)
      else s)"

definition eval_quota_script :: "reply_conv \<Rightarrow> string \<Rightarrow> deduct_args \<Rightarrow> quota_state \<Rightarrow>
    py_reply list \<times> quota_state" where
  "eval_quota_script conv tenant a s =
     (case quota_deduct_script (argv_of (qs_today s) a) (dget (qs_hashes s) tenant) of
        (reply, hash) \<Rightarrow>
          (map conv reply,
           case hash of None \<Rightarrow> s | Some h \<Rightarrow> s\<lparr>qs_hashes := dput tenant h (qs_hashes s)\<rparr>))"

definition reply_error :: "py_reply list \<Rightarrow> billing_error" where
  "reply_error result =
     (let num = (\<lambda>i. reply_num (result ! i))
      in if result ! 1 = RText ''INSUFFICIENT_BALANCE''
         then InsufficientQuotaError ''balance'' (num 2) (num 4)
         else if result ! 1 = RText ''DAILY_QUOTA_EXCEEDED''
         then InsufficientQuotaError ''daily'' (num 2) (num 3)
         else if result ! 1 = RText ''MONTHLY_QUOTA_EXCEEDED''
         then InsufficientQuotaError ''monthly'' (num 2) (num 3)
         else InsufficientQuotaError ''unknown'' 0 0)"

definition apply_reply :: "py_reply list \<Rightarrow> tenant_quota \<Rightarrow> tenant_quota" where
  "apply_reply result q =
     (let num = (\<lambda>i. reply_num (result ! i))
      in q\<lparr>tq_balance := num 2, tq_daily_used := lua_int (num 3),
           tq_monthly_used := lua_int (num 4), tq_version := lua_int (num 5)\<rparr>)"

definition deduct_quota_redis :: "reply_conv \<Rightarrow> string \<Rightarrow> deduct_args \<Rightarrow> quota_state \<Rightarrow>
    (billing_error + tenant_quota) \<times> quota_state" where
  "deduct_quota_redis conv tenant a s =
     (if \<not> qs_redis s then deduct_quota_db tenant a s
      else if \<not> qs_script s then deduct_quota_db tenant a s
      else
        (case eval_quota_script conv tenant a (warm_hash tenant s) of
           (result, s1) \<Rightarrow>
             if result ! 0 = RNum 0 then (Inl (reply_error result), s1)
             else
               (case get_or_create no_defaults False tenant s1 of
                  (q, s2) \<Rightarrow> (Inr (apply_reply result q), put_row (apply_reply result q) s2))))"

subsection \<open>Pending transactions\<close>

text \<open>Prices are numbers; what \<open>float\<close> and \<open>Decimal\<close> make of any other value is left out.\<close>

type_synonym pricing = "(string, pyval) dict"

definition num_of :: "pyval \<Rightarrow> rat" where
  "num_of v = (case v of PInt i \<Rightarrow> of_int i | PFloat r \<Rightarrow> r | PBool b \<Rightarrow> (if b then 1 else 0) | _ \<Rightarrow> 0)"

definition price :: "pricing \<Rightarrow> string \<Rightarrow> rat" where
  "price p k = num_of (py_get p k (PInt 0))"

definition create_pending_transaction :: "string \<Rightarrow> string \<Rightarrow> int \<Rightarrow> pricing \<Rightarrow> usage_info \<Rightarrow>
    billing_state \<Rightarrow> billing_tx \<times> billing_state" where
  "create_pending_transaction tenant trace estimated_tokens pr u s =
     (case get_by_trace_id trace s of
        Some t \<Rightarrow> (t, s)
      | None \<Rightarrow>
          let estimated_cost = (if pr \<noteq> [] \<and> 0 < estimated_tokens
                then of_int estimated_tokens / 1000 * price pr ''input_per_1k'' else 0)
          in (case quota_or_create False tenant s of
                (q, s1) \<Rightarrow>
                  let t = mk_tx tenant trace DEDUCT TxPending estimated_cost
                        (u\<lparr>ui_input_tokens := 0, ui_output_tokens := 0, ui_input_price := 0,
                           ui_output_price := 0, ui_description := Some ''Stream billing (pending)''\<rparr>)
                        (tq_balance q) (tq_balance q) (bs_now s1)
                  in (t, put_tx t s1)))"

text \<open>
  The status \<open>FAILED\<close> that the insufficient-funds branch assigns is no member of
  \<open>TransactionStatus\<close>, so looking it up raises.
\<close>

definition commit_pending_transaction :: "reply_conv \<Rightarrow> string \<Rightarrow> int \<Rightarrow> int \<Rightarrow> rat \<Rightarrow> rat \<Rightarrow> bool \<Rightarrow>
    billing_state \<Rightarrow> (billing_error + billing_tx) \<times> billing_state" where
  "commit_pending_transaction conv trace input_tokens output_tokens input_price output_price neg s =
     (case get_by_trace_id trace s of
        None \<Rightarrow> (Inl (BillingValueError (''Transaction not found: '' @ trace)), s)
      | Some t \<Rightarrow>
          if tx_status t = TxCommitted then (Inr t, s)
          else if tx_status t \<noteq> TxPending
          then (Inl (BillingValueError ''Invalid transaction status: TransactionStatus.REVERSED''), s)
          else
            let input_cost = of_int input_tokens / 1000 * input_price;
                output_cost = of_int output_tokens / 1000 * output_price;
                actual_cost = input_cost + output_cost
            in (case deduct_quota_redis conv (tx_tenant t) (deduct_args_of actual_cost 1 1 neg) (bs_quota s) of
                  (Inl (InsufficientQuotaError k r av), qs) \<Rightarrow> (Inl (AttributeError ''FAILED''), s\<lparr>bs_quota := qs\<rparr>)
                | (Inl e, qs) \<Rightarrow> (Inl e, s\<lparr>bs_quota := qs\<rparr>)
                | (Inr q, qs) \<Rightarrow>
                    let t' = t\<lparr>tx_amount := actual_cost, tx_input_tokens := input_tokens,
                               tx_output_tokens := output_tokens, tx_input_price := input_price,
                               tx_output_price := output_price, tx_balance_after := tq_balance q,
                               tx_status := TxCommitted\<rparr>
                    in (Inr t', put_tx t' (s\<lparr>bs_quota := qs, bs_hooks := bs_hooks s @ [q]\<rparr>))))"

definition record_transaction :: "string \<Rightarrow> rat \<Rightarrow> string \<Rightarrow> usage_info \<Rightarrow> billing_state \<Rightarrow>
    (billing_error + billing_tx) \<times> billing_state" where
  "record_transaction tenant amount trace u s =
     (case get_by_trace_id trace s of
        Some t \<Rightarrow> if tx_status t = TxCommitted then (Inr t, s)
                  else (Inl (DuplicateTransactionError trace), s)
      | None \<Rightarrow>
          (case quota_or_create False tenant s of
             (q, s1) \<Rightarrow>
               let d = (case ui_description u of
                          Some x \<Rightarrow> if x = [] then ''Transaction recorded (quota deducted in quota_check)'' else x
                        | None \<Rightarrow> ''Transaction recorded (quota deducted in quota_check)'');
                   t = mk_tx tenant trace DEDUCT TxCommitted amount (u\<lparr>ui_description := Some d\<rparr>)
                         (tq_balance q) (tq_balance q) (bs_now s1)
               in (Inr t, put_tx t s1)))"

definition adjust_redis_balance :: "string \<Rightarrow> rat \<Rightarrow> billing_state \<Rightarrow> billing_state" where
  "adjust_redis_balance tenant diff s =
     (if \<bar>diff\<bar> < 1 / 1000000 then s
      else if \<not> qs_redis (bs_quota s) then s
      else (case adjust_balance_script diff (dget (qs_hashes (bs_quota s)) tenant) of
              (_, None) \<Rightarrow> s
            | (_, Some h) \<Rightarrow>
                s\<lparr>bs_quota := (bs_quota s)\<lparr>qs_hashes := dput tenant h (qs_hashes (bs_quota s))\<rparr>\<rparr>))"

subsection \<open>Deduction with idempotency keys\<close>

text \<open>\<open>cache.set(key, "1", nx=True)\<close>: false without Redis and when the key exists.\<close>

definition idem_lock :: "string \<Rightarrow> string \<Rightarrow> quota_state \<Rightarrow> bool \<times> quota_state" where
  "idem_lock tenant trace s =
     (if \<not> qs_redis s then (False, s)
      else if (tenant, trace) \<in> set (qs_idem s) then (False, s)
      else (True, s\<lparr>qs_idem := (tenant, trace) # qs_idem s\<rparr>))"

definition idem_release :: "string \<Rightarrow> string \<Rightarrow> quota_state \<Rightarrow> quota_state" where
  "idem_release tenant trace s =
     (if qs_redis s then s\<lparr>qs_idem := removeAll (tenant, trace) (qs_idem s)\<rparr> else s)"

text \<open>Leaving the savepoint with an exception restores the rows and the transactions, not Redis.\<close>

definition rollback_to :: "billing_state \<Rightarrow> quota_state \<Rightarrow> billing_state" where
  "rollback_to s qs = s\<lparr>bs_quota := qs\<lparr>qs_rows := qs_rows (bs_quota s)\<rparr>\<rparr>"

definition deduct :: "reply_conv \<Rightarrow> string \<Rightarrow> rat \<Rightarrow> string \<Rightarrow> usage_info \<Rightarrow> bool \<Rightarrow> billing_state \<Rightarrow>
    (billing_error + billing_tx) \<times> billing_state" where
  "deduct conv tenant amount trace u neg s =
     (case idem_lock tenant trace (bs_quota s) of
        (locked, qs) \<Rightarrow>
          if \<not> locked then
            (case get_by_trace_id trace s of
               Some t \<Rightarrow> if tx_status t = TxCommitted then (Inr t, s)
                         else (Inl (DuplicateTransactionError trace), s)
             | None \<Rightarrow> (Inl (DuplicateTransactionError trace), s))
          else
            let s1 = s\<lparr>bs_quota := qs\<rparr>
            in (case get_by_trace_id trace s1 of
                  Some t \<Rightarrow> if tx_status t = TxCommitted then (Inr t, s1)
                            else (Inl (DuplicateTransactionError trace), s1)
                | None \<Rightarrow>
                    (case quota_or_create False tenant s1 of
                       (q, s2) \<Rightarrow>
                         let t = mk_tx tenant trace DEDUCT TxPending amount u (tq_balance q)
                               (tq_balance q - amount) (bs_now s2)
                         in (case deduct_quota_redis conv tenant (deduct_args_of amount 1 1 neg) (bs_quota s2) of
                               (Inl (InsufficientQuotaError k r av), qs') \<Rightarrow>
                                 (Inl (InsufficientBalanceError amount av),
                                  rollback_to s1 (idem_release tenant trace qs'))
                             | (Inl e, qs') \<Rightarrow> (Inl e, rollback_to s1 (idem_release tenant trace qs'))
                             | (Inr q', qs') \<Rightarrow>
                                 let t' = t\<lparr>tx_status := TxCommitted, tx_balance_after := tq_balance q'\<rparr>
                                 in (Inr t', put_tx t'
                                       (s2\<lparr>bs_quota := qs', bs_hooks := bs_hooks s2 @ [q']\<rparr>))))))"

subsection \<open>Committing the session\<close>

definition billing_hash_payload :: "date \<Rightarrow> tenant_quota \<Rightarrow> (string \<times> hval) list" where
  "billing_hash_payload today q =
     [(''balance'', HNum (tq_balance q)),
      (''credit_limit'', HNum (tq_credit_limit q)),
      (''daily_quota'', HNum (of_int (tq_daily_quota q))),
      (''daily_used'', HNum (of_int (tq_daily_used q))),
      (''daily_date'', HDate (case tq_daily_reset_at q of Some d \<Rightarrow> d | None \<Rightarrow> today)),
      (''monthly_quota'', HNum (of_int (tq_monthly_quota q))),
      (''monthly_used'', HNum (of_int (tq_monthly_used q))),
      (''monthly_month'', HMonth (month_of (case tq_monthly_reset_at q of Some d \<Rightarrow> d | None \<Rightarrow> today))),
      (''version'', HNum (of_int (tq_version q)))]"

definition billing_sync_hash :: "tenant_quota \<Rightarrow> quota_state \<Rightarrow> quota_state" where
  "billing_sync_hash q s =
     (if \<not> qs_redis s then s
      else s\<lparr>qs_hashes := dput (tq_tenant q)
               (hset (billing_hash_payload (qs_today s) q) (hash_of (tq_tenant q) s)) (qs_hashes s)\<rparr>)"

definition commit_session :: "billing_state \<Rightarrow> billing_state" where
  "commit_session s = s\<lparr>bs_quota := fold billing_sync_hash (bs_hooks s) (bs_quota s), bs_hooks := []\<rparr>"

subsection \<open>Recharge and reversal\<close>

definition recharge :: "string \<Rightarrow> rat \<Rightarrow> string \<Rightarrow> string option \<Rightarrow> billing_state \<Rightarrow>
    (billing_error + billing_tx) \<times> billing_state" where
  "recharge tenant amount trace d s =
     (case get_by_trace_id trace s of
        Some t \<Rightarrow> if tx_status t = TxCommitted then (Inr t, s)
                  else (Inl (DuplicateTransactionError trace), s)
      | None \<Rightarrow>
          (case quota_or_create True tenant s of
             (q, s1) \<Rightarrow>
               let t = mk_tx tenant trace RECHARGE TxPending amount (no_usage\<lparr>ui_description := d\<rparr>)
                     (tq_balance q) (tq_balance q + amount) (bs_now s1);
                   qs = snd (add_balance tenant amount (bs_quota s1));
                   t' = t\<lparr>tx_status := TxCommitted\<rparr>
               in (Inr t', commit_session (put_tx t' (s1\<lparr>bs_quota := qs\<rparr>)))))"

definition reverse_tx :: "string \<Rightarrow> string \<Rightarrow> string option \<Rightarrow> billing_state \<Rightarrow>
    (billing_error + billing_tx) \<times> billing_state" where
  "reverse_tx original_trace reverse_trace d s =
     (case get_by_trace_id original_trace s of
        None \<Rightarrow> (Inl (BillingValueError (''Original transaction not found: '' @ original_trace)), s)
      | Some t \<Rightarrow>
          if tx_status t = TxReversed
          then (Inl (BillingValueError (''Transaction already reversed: '' @ original_trace)), s)
          else if tx_type t \<noteq> DEDUCT
          then (Inl (BillingValueError ''Can only reverse deduct transactions''), s)
          else
            (case get_by_trace_id reverse_trace s of
               Some r \<Rightarrow> if tx_status r = TxCommitted then (Inr r, s)
                         else (Inl (DuplicateTransactionError reverse_trace), s)
             | None \<Rightarrow>
                 (case quota_or_create True (tx_tenant t) s of
                    (q, s1) \<Rightarrow>
                      let r = (mk_tx (tx_tenant t) reverse_trace REFUND TxPending (tx_amount t)
                                 \<lparr>ui_input_tokens = tx_input_tokens t, ui_output_tokens = tx_output_tokens t,
                                  ui_input_price = tx_input_price t, ui_output_price = tx_output_price t,
                                  ui_provider = tx_provider t, ui_model = tx_model t,
                                  ui_provider_model_id = tx_provider_model_id t,
                                  ui_api_key_id = tx_api_key_id t,
                                  ui_description = (case d of
                                      Some x \<Rightarrow> if x = [] then Some (''Reverse of '' @ original_trace) else Some x
                                    | None \<Rightarrow> Some (''Reverse of '' @ original_trace))\<rparr>
                                 (tq_balance q) (tq_balance q + tx_amount t) (bs_now s1));
                          qs = snd (add_balance (tx_tenant t) (tx_amount t) (bs_quota s1));
                          t' = t\<lparr>tx_status := TxReversed, tx_reversed_by := Some reverse_trace\<rparr>;
                          r' = r\<lparr>tx_status := TxCommitted\<rparr>
                      in (Inr r', commit_session (put_tx t' (put_tx r' (s1\<lparr>bs_quota := qs\<rparr>)))))))"

subsection \<open>Queries\<close>

record tx_filter =
  tf_status :: "transaction_status option"
  tf_type :: "transaction_type option"
  tf_model :: "string option"
  tf_start :: "rat option"
  tf_end :: "rat option"

definition tx_matches :: "string \<Rightarrow> tx_filter \<Rightarrow> billing_tx \<Rightarrow> bool" where
  "tx_matches tenant f t \<longleftrightarrow> tx_tenant t = tenant \<and>
     (case tf_status f of None \<Rightarrow> True | Some x \<Rightarrow> tx_status t = x) \<and>
     (case tf_type f of None \<Rightarrow> True | Some x \<Rightarrow> tx_type t = x) \<and>
     (case tf_model f of None \<Rightarrow> True | Some x \<Rightarrow> x = [] \<or> tx_model t = Some x) \<and>
     (case tf_start f of None \<Rightarrow> True | Some x \<Rightarrow> x \<le> tx_created_at t) \<and>
     (case tf_end f of None \<Rightarrow> True | Some x \<Rightarrow> tx_created_at t \<le> x)"

definition list_transactions :: "string \<Rightarrow> nat \<Rightarrow> nat \<Rightarrow> tx_filter \<Rightarrow> billing_state \<Rightarrow> billing_tx list" where
  "list_transactions tenant cnt offset f s =
     take cnt (drop offset
       (sort_key (\<lambda>t. - tx_created_at t) (filter (tx_matches tenant f) (map snd (bs_txs s)))))"

record model_usage =
  mu_amount :: rat
  mu_input_tokens :: int
  mu_output_tokens :: int
  mu_requests :: int

record usage_summary =
  us_amount :: rat
  us_input_tokens :: int
  us_output_tokens :: int
  us_requests :: int
  us_by_model :: "(string, model_usage) dict"

definition model_key :: "billing_tx \<Rightarrow> string" where
  "model_key t = (case tx_model t of Some m \<Rightarrow> if m = [] then ''unknown'' else m | None \<Rightarrow> ''unknown'')"

definition add_usage :: "billing_tx \<Rightarrow> usage_summary \<Rightarrow> usage_summary" where
  "add_usage t u =
     (let old = (case dget (us_by_model u) (model_key t) of
                   None \<Rightarrow> \<lparr>mu_amount = 0, mu_input_tokens = 0, mu_output_tokens = 0, mu_requests = 0\<rparr>
                 | Some m \<Rightarrow> m)
      in \<lparr>us_amount = us_amount u + tx_amount t,
          us_input_tokens = us_input_tokens u + tx_input_tokens t,
          us_output_tokens = us_output_tokens u + tx_output_tokens t,
          us_requests = us_requests u + 1,
          us_by_model = dput (model_key t)
            \<lparr>mu_amount = mu_amount old + tx_amount t,
             mu_input_tokens = mu_input_tokens old + tx_input_tokens t,
             mu_output_tokens = mu_output_tokens old + tx_output_tokens t,
             mu_requests = mu_requests old + 1\<rparr> (us_by_model u)\<rparr>)"

definition get_usage_summary :: "string \<Rightarrow> rat \<Rightarrow> rat \<Rightarrow> billing_state \<Rightarrow> usage_summary" where
  "get_usage_summary tenant start_time end_time s =
     fold add_usage
       (list_transactions tenant 10000 0
          \<lparr>tf_status = Some TxCommitted, tf_type = Some DEDUCT, tf_model = None,
           tf_start = Some start_time, tf_end = Some end_time\<rparr> s)
       \<lparr>us_amount = 0, us_input_tokens = 0, us_output_tokens = 0, us_requests = 0, us_by_model = []\<rparr>"

text \<open>Finishing a transaction that was left pending.\<close>

definition commit_transaction :: "billing_tx \<Rightarrow> billing_state \<Rightarrow>
    (billing_error + billing_tx) \<times> billing_state" where
  "commit_transaction t s =
     (if tx_status t \<noteq> TxPending then (Inr t, s)
      else
        (case quota_or_create True (tx_tenant t) s of
           (q, s1) \<Rightarrow>
             let t' = t\<lparr>tx_status := TxCommitted\<rparr>
             in if tq_balance q \<le> tx_balance_after t then (Inr t', commit_session (put_tx t' s1))
                else (case check_and_deduct True True True [] (deduct_args_of (tx_amount t) 0 0 True)
                        (tx_tenant t) (bs_quota s1) of
                        (Inl e, qs) \<Rightarrow> (Inl e, s1\<lparr>bs_quota := qs\<rparr>)
                      | (Inr _, qs) \<Rightarrow> (Inr t', commit_session (put_tx t' (s1\<lparr>bs_quota := qs\<rparr>))))))"

subsection \<open>Frame facts\<close>

lemma put_tx_simps [frame_simps, simp]:
  "bs_quota (put_tx t s) = bs_quota s" "get_by_trace_id (tx_trace_id t) (put_tx t s) = Some t"
  "bs_now (put_tx t s) = bs_now s" "bs_hooks (put_tx t s) = bs_hooks s"
  by (simp_all add: put_tx_def get_by_trace_id_def)

lemma get_put_tx: "get_by_trace_id x (put_tx t s) = (if x = tx_trace_id t then Some t else get_by_trace_id x s)"
  by (simp add: put_tx_def get_by_trace_id_def)

lemma get_by_trace_id_frames [frame_simps, simp]:
  "get_by_trace_id x (s\<lparr>bs_quota := qs\<rparr>) = get_by_trace_id x s"
  "get_by_trace_id x (s\<lparr>bs_hooks := hs\<rparr>) = get_by_trace_id x s"
  "get_by_trace_id x (commit_session s) = get_by_trace_id x s"
  "get_by_trace_id x (rollback_to s qs) = get_by_trace_id x s"
  by (simp_all add: get_by_trace_id_def commit_session_def rollback_to_def)

lemma mk_tx_simps [simp]:
  "tx_trace_id (mk_tx tn tr ty st am u b a now) = tr" "tx_status (mk_tx tn tr ty st am u b a now) = st"
  "tx_tenant (mk_tx tn tr ty st am u b a now) = tn" "tx_type (mk_tx tn tr ty st am u b a now) = ty"
  "tx_amount (mk_tx tn tr ty st am u b a now) = am"
  "tx_balance_before (mk_tx tn tr ty st am u b a now) = b"
  "tx_balance_after (mk_tx tn tr ty st am u b a now) = a"
  by (simp_all add: mk_tx_def)

lemma quota_or_create_txs:
  "quota_or_create c t s = (q, s1) \<Longrightarrow>
   bs_txs s1 = bs_txs s \<and> bs_hooks s1 = bs_hooks s \<and> bs_now s1 = bs_now s \<and>
   get_or_create no_defaults c t (bs_quota s) = (q, bs_quota s1)"
  by (auto simp: quota_or_create_def split: prod.splits)

lemma get_or_create_idem [frame_simps]:
  "get_or_create d c t s = (q, s1) \<Longrightarrow> qs_idem s1 = qs_idem s \<and> qs_redis s1 = qs_redis s \<and>
   qs_script s1 = qs_script s"
  by (auto simp: get_or_create_def maybe_reset_quotas_def Let_def put_row_def sync_redis_hash_def
      invalidate_cache_def update_cache_def cache_delete_def cache_set_def bump_version_def
      split: option.splits if_splits)

lemma check_and_deduct_idem:
  "check_and_deduct c sy i [] a t s = (r, s') \<Longrightarrow> qs_idem s' = qs_idem s \<and> qs_redis s' = qs_redis s"
  by (auto simp: Let_def finish_deduct_def sync_redis_hash_def invalidate_cache_def cache_delete_def
      bump_version_def put_row_def split: prod.splits option.splits if_splits dest!: get_or_create_idem)

lemma warm_hash_idem: "qs_idem (warm_hash t s) = qs_idem s \<and> qs_redis (warm_hash t s) = qs_redis s"
  by (cases "get_or_create no_defaults False t s")
     (auto simp: warm_hash_def sync_redis_hash_def dest: get_or_create_idem)

lemma eval_quota_script_idem:
  "eval_quota_script conv t a s = (r, s') \<Longrightarrow> qs_idem s' = qs_idem s \<and> qs_redis s' = qs_redis s \<and>
   qs_rows s' = qs_rows s \<and> qs_today s' = qs_today s"
  by (auto simp: eval_quota_script_def split: prod.splits option.splits)

lemma deduct_quota_redis_idem:
  assumes "deduct_quota_redis conv t a s = (r, s')"
  shows "qs_idem s' = qs_idem s \<and> qs_redis s' = qs_redis s"
proof (cases "qs_redis s \<and> qs_script s")
  case True
  obtain res s1 where e: "eval_quota_script conv t a (warm_hash t s) = (res, s1)"
    by (cases "eval_quota_script conv t a (warm_hash t s)")
  obtain q s2 where g: "get_or_create no_defaults False t s1 = (q, s2)"
    by (cases "get_or_create no_defaults False t s1")
  from assms True e g eval_quota_script_idem [OF e] warm_hash_idem [of t s] get_or_create_idem [OF g]
  show ?thesis by (auto simp: deduct_quota_redis_def put_row_def split: if_splits)
next
  case False
  with assms check_and_deduct_idem show ?thesis
    by (auto simp: deduct_quota_redis_def deduct_quota_db_def split: if_splits)
qed

lemma deduct_quota_redis_error:
  assumes "deduct_quota_redis conv t a s = (Inl e, s')"
  shows "\<exists>k r av. e = InsufficientQuotaError k r av"
  using assms
  by (auto simp: deduct_quota_redis_def deduct_quota_db_def reply_error_def Let_def deduct_check_def
      split: if_splits prod.splits option.splits)

subsection \<open>Deducting once\<close>

text \<open>The state reached by a fresh, unlocked deduction.\<close>

lemma deduct_fresh:
  assumes "get_by_trace_id trace s = None" and "qs_redis (bs_quota s)"
    and "(tenant, trace) \<notin> set (qs_idem (bs_quota s))"
    and "deduct conv tenant amount trace u neg s = (r, s')"
  shows "case r of
      Inr t \<Rightarrow> tx_status t = TxCommitted \<and> tx_amount t = amount \<and> get_by_trace_id trace s' = Some t \<and>
        (tenant, trace) \<in> set (qs_idem (bs_quota s')) \<and> qs_redis (bs_quota s')
    | Inl e \<Rightarrow> (\<exists>av. e = InsufficientBalanceError amount av) \<and> bs_txs s' = bs_txs s \<and>
        qs_rows (bs_quota s') = qs_rows (bs_quota s) \<and> (tenant, trace) \<notin> set (qs_idem (bs_quota s'))"
proof -
  let ?s1 = "s\<lparr>bs_quota := (bs_quota s)\<lparr>qs_idem := (tenant, trace) # qs_idem (bs_quota s)\<rparr>\<rparr>"
  obtain q s2 where g: "quota_or_create False tenant ?s1 = (q, s2)"
    by (cases "quota_or_create False tenant ?s1")
  obtain x qs where d: "deduct_quota_redis conv tenant (deduct_args_of amount 1 1 neg) (bs_quota s2) = (x, qs)"
    by (cases "deduct_quota_redis conv tenant (deduct_args_of amount 1 1 neg) (bs_quota s2)")
  have lock: "idem_lock tenant trace (bs_quota s) = (True, bs_quota ?s1)"
    using assms(2,3) by (simp add: idem_lock_def)
  note idem = deduct_quota_redis_idem [OF d] quota_or_create_txs [OF g]
  have keys: "qs_idem qs = (tenant, trace) # qs_idem (bs_quota s)" "qs_redis qs"
    using idem get_or_create_idem [of no_defaults False tenant "bs_quota ?s1"] assms(2) by auto
  have none: "get_by_trace_id trace ?s1 = None" using assms(1) by simp
  show ?thesis
  proof (cases x)
    case (Inl e)
    with deduct_quota_redis_error d obtain k rq av where "e = InsufficientQuotaError k rq av" by blast
    with Inl assms(4) lock none g d
    have "r = Inl (InsufficientBalanceError amount av)"
      and s': "s' = rollback_to ?s1 (idem_release tenant trace qs)"
      by (auto simp: deduct_def Let_def)
    with keys show ?thesis by (simp add: rollback_to_def idem_release_def)
  next
    case (Inr q')
    with assms(4) lock none g d keys show ?thesis
      by (auto simp: deduct_def Let_def get_put_tx)
  qed
qed

subsection \<open>Balances\<close>

definition balance_of :: "string \<Rightarrow> billing_state \<Rightarrow> rat" where
  "balance_of tenant s = tq_balance (row_now tenant (bs_quota s))"

lemma add_balance_row:
  assumes "rows_wf (qs_rows s)" and "add_balance t x s = (q, s')"
  shows "dget (qs_rows s') t = Some q \<and> tq_balance q = tq_balance (row_now t s) + x \<and>
    rows_wf (qs_rows s') \<and> qs_today s' = qs_today s"
proof -
  obtain r s1 where g: "get_or_create no_defaults True t s = (r, s1)"
    by (cases "get_or_create no_defaults True t s")
  note row = get_or_create_row [OF assms(1) g]
  have "tq_tenant r = t" using current_row_tenant [OF assms(1)] row(1) by simp
  with assms(2) g row show ?thesis
    by (auto simp: add_balance_def Let_def row_now_def)
qed

lemma row_now_balance: "dget (qs_rows s) t = Some q \<Longrightarrow> tq_balance (row_now t s) = tq_balance q"
  by (simp add: row_now_def current_row_def)

lemma fold_billing_sync_keeps [frame_simps, simp]:
  "qs_rows (fold billing_sync_hash hs q) = qs_rows q \<and> qs_today (fold billing_sync_hash hs q) = qs_today q"
  by (induction hs arbitrary: q) (auto simp: billing_sync_hash_def)

lemma commit_session_quota [frame_simps, simp]:
  "row_now t (bs_quota (commit_session s)) = row_now t (bs_quota s)"
  "qs_rows (bs_quota (commit_session s)) = qs_rows (bs_quota s)"
  by (simp_all add: commit_session_def row_now_def)

lemma quota_or_create_row:
  assumes "rows_wf (qs_rows (bs_quota s))" and "quota_or_create c t s = (q, s1)"
  shows "rows_wf (qs_rows (bs_quota s1)) \<and> q = row_now t (bs_quota s) \<and> balance_of t s1 = balance_of t s"
proof -
  from quota_or_create_txs [OF assms(2)]
  have g: "get_or_create no_defaults c t (bs_quota s) = (q, bs_quota s1)" by simp
  note row = get_or_create_row [OF assms(1) g]
  show ?thesis using row row_now_balance [OF row(2)] by (simp add: row_now_def balance_of_def)
qed

text \<open>Crediting a tenant inside a committed session.\<close>

lemma credit_balance:
  assumes "rows_wf (qs_rows (bs_quota s))" and "quota_or_create True t s = (q, s1)"
  shows "tq_balance (row_now t (snd (add_balance t x (bs_quota s1)))) = balance_of t s + x"
proof -
  note qr = quota_or_create_row [OF assms]
  obtain q' qs where add: "add_balance t x (bs_quota s1) = (q', qs)"
    by (cases "add_balance t x (bs_quota s1)")
  from add_balance_row [OF _ add] qr have "dget (qs_rows qs) t = Some q'"
    and "tq_balance q' = balance_of t s + x" by (auto simp: balance_of_def)
  with row_now_balance [of qs t q'] add show ?thesis by simp
qed

subsection \<open>Summaries\<close>

definition model_sum :: "(model_usage \<Rightarrow> 'a::comm_monoid_add) \<Rightarrow> (string, model_usage) dict \<Rightarrow> 'a" where
  "model_sum f d = (\<Sum>(k, m)\<leftarrow>d. f m)"

lemma model_sum_dput:
  "model_sum f (dput k m d) =
     (case dget d k of None \<Rightarrow> model_sum f d + f m
      | Some old \<Rightarrow> model_sum f d - f old + (f m :: 'a::ab_group_add))"
  by (induction d) (auto simp: model_sum_def split: option.splits)

definition summary_ok :: "usage_summary \<Rightarrow> bool" where
  "summary_ok u \<longleftrightarrow> model_sum mu_amount (us_by_model u) = us_amount u \<and>
     model_sum mu_input_tokens (us_by_model u) = us_input_tokens u \<and>
     model_sum mu_output_tokens (us_by_model u) = us_output_tokens u \<and>
     model_sum mu_requests (us_by_model u) = us_requests u"

lemma add_usage_ok: "summary_ok u \<Longrightarrow> summary_ok (add_usage t u)"
  by (auto simp: summary_ok_def add_usage_def Let_def model_sum_dput split: option.splits)

lemma fold_add_usage:
  "summary_ok u \<Longrightarrow> summary_ok (fold add_usage ts u) \<and>
   us_amount (fold add_usage ts u) = us_amount u + (\<Sum>t\<leftarrow>ts. tx_amount t) \<and>
   us_requests (fold add_usage ts u) = us_requests u + int (length ts)"
proof (induction ts arbitrary: u)
  case Nil
  then show ?case by simp
next
  case (Cons t ts)
  from Cons.IH [OF add_usage_ok [OF Cons.prems], of t] show ?case
    by (simp add: add_usage_def Let_def)
qed

subsection \<open>Properties\<close>

text \<open>C34: a successful deduction takes money at most once: repeating it with the same trace id,
  whatever the other arguments, returns the recorded transaction and changes nothing.\<close>

theorem deduct_idempotent:
  assumes "get_by_trace_id trace s = None" and "qs_redis (bs_quota s)"
    and "(tenant, trace) \<notin> set (qs_idem (bs_quota s))"
    and "deduct conv tenant amount trace u neg s = (Inr t, s')"
  shows "tx_status t = TxCommitted \<and> tx_amount t = amount \<and>
    deduct conv' tenant amount' trace u' neg' s' = (Inr t, s')"
  using deduct_fresh [OF assms] by (simp add: deduct_def idem_lock_def)

text \<open>A deduction refused for lack of funds leaves no trace: rows and transactions are as
  before, the idempotency key is free again, and the error is about this amount.\<close>

theorem deduct_refusal_atomic:
  assumes "get_by_trace_id trace s = None" and "qs_redis (bs_quota s)"
    and "(tenant, trace) \<notin> set (qs_idem (bs_quota s))"
    and "deduct conv tenant amount trace u neg s = (Inl e, s')"
  shows "(\<exists>av. e = InsufficientBalanceError amount av) \<and> bs_txs s' = bs_txs s \<and>
    qs_rows (bs_quota s') = qs_rows (bs_quota s) \<and> (tenant, trace) \<notin> set (qs_idem (bs_quota s'))"
  using deduct_fresh [OF assms] by simp

text \<open>Without Redis the deduction never reaches its database fallback: the idempotency key
  cannot be set, so every new trace is rejected as a duplicate.\<close>

theorem deduct_unusable_without_redis:
  assumes "\<not> qs_redis (bs_quota s)" and "get_by_trace_id trace s = None"
  shows "deduct conv tenant amount trace u neg s = (Inl (DuplicateTransactionError trace), s)"
  using assms by (simp add: deduct_def idem_lock_def)

text \<open>With the documented conversion of script replies, a deduction through Redis stores a
  balance without its fraction: the hash keeps the exact balance, the row gets the integer part.\<close>

theorem redis_deduction_truncates_balance:
  assumes "redis_reply conv" and "qs_redis s" and "qs_script s" and "rows_wf (qs_rows s)"
    and "dget (qs_hashes s) t = Some h" and "script_accepts (argv_of (qs_today s) a) h"
  shows "\<exists>q s'. deduct_quota_redis conv t a s = (Inr q, s') \<and> dget (qs_rows s') t = Some q \<and>
    tq_balance q = of_int (lua_int (hnum h ''balance'' - da_balance_amount a))"
proof -
  let ?s1 = "s\<lparr>qs_hashes := dput t (script_commit (argv_of (qs_today s) a) h) (qs_hashes s)\<rparr>"
  have conv: "conv (LNum x) = RNum (of_int (lua_int x))" for x
    using assms(1) by (simp add: redis_reply_def)
  have one: "lua_int 1 = 1" by (simp add: lua_int_def)
  obtain q0 s2 where g: "get_or_create no_defaults False t ?s1 = (q0, s2)"
    by (cases "get_or_create no_defaults False t ?s1")
  have wf: "rows_wf (qs_rows ?s1)" using assms(4) by simp
  note row = get_or_create_row [OF wf g]
  have "tq_tenant q0 = t" using current_row_tenant [OF wf] row(1) by simp
  then show ?thesis
    using assms(2,3,5) g quota_deduct_script_accept [OF assms(6)]
    by (simp add: deduct_quota_redis_def warm_hash_def eval_quota_script_def conv one apply_reply_def
        reply_num_def)
qed

text \<open>Committing a pending transaction for which the funds are missing raises an attribute
  error, because the status it wants to record does not exist; the transaction stays pending.\<close>

theorem commit_pending_insufficient_raises:
  assumes "get_by_trace_id trace s = Some t" and "tx_status t = TxPending"
    and "deduct_quota_redis conv (tx_tenant t)
      (deduct_args_of (of_int i / 1000 * ip + of_int j / 1000 * op) 1 1 neg) (bs_quota s) = (Inl e, qs)"
  shows "commit_pending_transaction conv trace i j ip op neg s =
      (Inl (AttributeError ''FAILED''), s\<lparr>bs_quota := qs\<rparr>) \<and>
    get_by_trace_id trace (snd (commit_pending_transaction conv trace i j ip op neg s)) = Some t"
proof -
  from deduct_quota_redis_error [OF assms(3)] obtain k r av where "e = InsufficientQuotaError k r av"
    by blast
  with assms show ?thesis by (simp add: commit_pending_transaction_def Let_def)
qed

text \<open>A recharge credits exactly its amount, records balances that add up, and is idempotent in
  its trace id.\<close>

theorem recharge_exact:
  assumes "rows_wf (qs_rows (bs_quota s))" and "get_by_trace_id trace s = None"
    and "recharge tenant amount trace d s = (r, s')"
  shows "\<exists>t. r = Inr t \<and> tx_balance_after t = tx_balance_before t + amount \<and>
    balance_of tenant s' = balance_of tenant s + amount \<and>
    recharge tenant amount' trace d' s' = (Inr t, s')"
proof -
  obtain q s1 where g: "quota_or_create True tenant s = (q, s1)"
    by (cases "quota_or_create True tenant s")
  from credit_balance [OF assms(1) g, of amount] assms(2,3) g show ?thesis
    by (auto simp: recharge_def Let_def balance_of_def get_put_tx)
qed

text \<open>A transaction is reversed at most once, and the reversal returns exactly its amount.\<close>

theorem reverse_once:
  assumes "rows_wf (qs_rows (bs_quota s))" and "get_by_trace_id orig s = Some t"
    and "tx_status t \<noteq> TxReversed" and "tx_type t = DEDUCT" and "tx_trace_id t = orig"
    and "get_by_trace_id rev_id s = None"
  shows "\<exists>r s'. reverse_tx orig rev_id d s = (Inr r, s') \<and> tx_amount r = tx_amount t \<and>
    balance_of (tx_tenant t) s' = balance_of (tx_tenant t) s + tx_amount t \<and>
    reverse_tx orig rev' d' s' =
      (Inl (BillingValueError (''Transaction already reversed: '' @ orig)), s')"
proof -
  obtain q s1 where g: "quota_or_create True (tx_tenant t) s = (q, s1)"
    by (cases "quota_or_create True (tx_tenant t) s")
  from credit_balance [OF assms(1) g, of "tx_amount t"] assms(2-6) g show ?thesis
    by (auto simp: reverse_tx_def Let_def balance_of_def get_put_tx)
qed

text \<open>Reversing does not ask whether the original was ever charged: a pending transaction,
  which took nothing, is paid out in full.\<close>

theorem reverse_pays_out_pending:
  assumes "rows_wf (qs_rows (bs_quota s))" and "get_by_trace_id trace s = None"
    and "create_pending_transaction tenant trace tokens pr u s = (t, s1)"
    and "rev_id \<noteq> trace" and "get_by_trace_id rev_id s = None"
  shows "balance_of tenant s1 = balance_of tenant s \<and>
    (\<exists>r s2. reverse_tx trace rev_id d s1 = (Inr r, s2) \<and>
       balance_of tenant s2 = balance_of tenant s + tx_amount t)"
proof -
  obtain q s0 where g: "quota_or_create False tenant s = (q, s0)"
    by (cases "quota_or_create False tenant s")
  note qr = quota_or_create_row [OF assms(1) g] and txs = quota_or_create_txs [OF g]
  from assms(2,3) g have s1: "s1 = put_tx t s0" and t: "tx_status t = TxPending" "tx_type t = DEDUCT"
    "tx_trace_id t = trace" "tx_tenant t = tenant"
    by (auto simp: create_pending_transaction_def Let_def)
  have bal: "balance_of tenant s1 = balance_of tenant s" using qr by (simp add: s1 balance_of_def)
  have free: "get_by_trace_id rev_id s1 = None"
    using assms(4,5) txs t(3) by (simp add: s1 get_put_tx) (simp add: get_by_trace_id_def)
  have wf: "rows_wf (qs_rows (bs_quota s1))" using qr by (simp add: s1)
  obtain q' s3 where g': "quota_or_create True tenant s1 = (q', s3)"
    by (cases "quota_or_create True tenant s1")
  have "get_by_trace_id trace s1 = Some t" by (simp add: s1 get_put_tx t(3))
  with credit_balance [OF wf g', of "tx_amount t"] g' free t bal show ?thesis
    by (auto simp: reverse_tx_def Let_def balance_of_def)
qed

text \<open>The usage summary is consistent: its totals are those of the listed transactions, and the
  per-model figures add up to the totals.\<close>

theorem usage_summary_consistent:
  "let u = get_usage_summary tenant t0 t1 s;
       txs = list_transactions tenant 10000 0
         \<lparr>tf_status = Some TxCommitted, tf_type = Some DEDUCT, tf_model = None, tf_start = Some t0,
          tf_end = Some t1\<rparr> s
   in us_amount u = (\<Sum>t\<leftarrow>txs. tx_amount t) \<and> us_requests u = int (length txs) \<and>
      model_sum mu_amount (us_by_model u) = us_amount u \<and>
      model_sum mu_input_tokens (us_by_model u) = us_input_tokens u \<and>
      model_sum mu_output_tokens (us_by_model u) = us_output_tokens u \<and>
      model_sum mu_requests (us_by_model u) = us_requests u"
proof -
  have "summary_ok \<lparr>us_amount = 0, us_input_tokens = 0, us_output_tokens = 0, us_requests = 0,
      us_by_model = []\<rparr>" by (simp add: summary_ok_def model_sum_def)
  from fold_add_usage [OF this] show ?thesis
    unfolding get_usage_summary_def Let_def by (simp add: summary_ok_def)
qed

subsection \<open>Concrete runs\<close>

definition bill_state :: billing_state where
  "bill_state = \<lparr>bs_quota = race_state, bs_txs = [], bs_now = 0, bs_hooks = []\<rparr>"

lemma bill_state_facts:
  "get_by_trace_id x bill_state = None" "qs_redis (bs_quota bill_state)"
  "k \<notin> set (qs_idem (bs_quota bill_state))" "rows_wf (qs_rows (bs_quota bill_state))"
  using race_rows_wf by (simp_all add: bill_state_def get_by_trace_id_def) (simp_all add: race_state_def)

text \<open>C34 at a deduction of twelve.\<close>

theorem deduct_idempotent_witness:
  "\<exists>t s'. deduct resp2_conv ''t'' 12 ''trace'' no_usage False bill_state = (Inr t, s') \<and>
     deduct resp2_conv ''t'' 99 ''trace'' no_usage True s' = (Inr t, s')"
proof -
  have "case fst (deduct resp2_conv ''t'' 12 ''trace'' no_usage False bill_state) of
      Inl _ \<Rightarrow> False | Inr _ \<Rightarrow> True" by code_simp
  then obtain t s' where run: "deduct resp2_conv ''t'' 12 ''trace'' no_usage False bill_state = (Inr t, s')"
    by (cases "deduct resp2_conv ''t'' 12 ''trace'' no_usage False bill_state") (auto split: sum.splits)
  from deduct_idempotent [OF bill_state_facts(1,2,3) run] run show ?thesis by blast
qed

text \<open>The preceding statement at a deduction that is too large.\<close>

theorem deduct_refusal_atomic_witness:
  "\<exists>e s'. deduct resp2_conv ''t'' 100 ''trace'' no_usage False bill_state = (Inl e, s') \<and>
     bs_txs s' = [] \<and> qs_rows (bs_quota s') = qs_rows race_state"
proof -
  have "case fst (deduct resp2_conv ''t'' 100 ''trace'' no_usage False bill_state) of
      Inl _ \<Rightarrow> True | Inr _ \<Rightarrow> False" by code_simp
  then obtain e s' where run: "deduct resp2_conv ''t'' 100 ''trace'' no_usage False bill_state = (Inl e, s')"
    by (cases "deduct resp2_conv ''t'' 100 ''trace'' no_usage False bill_state") (auto split: sum.splits)
  from deduct_refusal_atomic [OF bill_state_facts(1,2,3) run] run show ?thesis
    by (simp add: bill_state_def)
qed

text \<open>The preceding statement at a tenant with funds.\<close>

theorem deduct_unusable_without_redis_witness:
  "deduct resp2_conv ''t'' 1 ''trace'' no_usage False
     (bill_state\<lparr>bs_quota := race_state\<lparr>qs_redis := False\<rparr>\<rparr>) =
   (Inl (DuplicateTransactionError ''trace''), bill_state\<lparr>bs_quota := race_state\<lparr>qs_redis := False\<rparr>\<rparr>)"
  by (rule deduct_unusable_without_redis) (simp_all add: bill_state_facts)

definition fraction_state :: quota_state where
  "fraction_state = race_state\<lparr>qs_hashes := [(''t'', hset [(''balance'', HNum (19 / 2))] race_hash)]\<rparr>"

text \<open>The preceding statement at a balance of 9.5 and a cost of 0.25: the row ends at 9.\<close>

theorem redis_deduction_truncates_balance_witness:
  "\<exists>q s'. deduct_quota_redis resp2_conv ''t'' (deduct_args_of (1 / 4) 1 1 False) fraction_state = (Inr q, s') \<and>
     tq_balance q = 9"
proof -
  let ?h = "hset [(''balance'', HNum (19 / 2))] race_hash"
  let ?a = "deduct_args_of (1 / 4) 1 1 False"
  have conv: "redis_reply resp2_conv" by (simp add: redis_reply_def resp2_conv_def)
  have acc: "script_accepts (argv_of (qs_today fraction_state) ?a) ?h" by code_simp
  have nine: "of_int (lua_int (hnum ?h ''balance'' - da_balance_amount ?a)) = (9 :: rat)" by code_simp
  have ready: "qs_redis fraction_state" "qs_script fraction_state" "rows_wf (qs_rows fraction_state)"
    "dget (qs_hashes fraction_state) ''t'' = Some ?h"
    using race_rows_wf by (simp_all add: fraction_state_def) (simp_all add: race_state_def)
  from redis_deduction_truncates_balance [OF conv ready acc] show ?thesis unfolding nine by blast
qed

definition pending_state :: billing_state where
  "pending_state = snd (create_pending_transaction ''t'' ''trace'' 1000 [(''input_per_1k'', PInt 3)] no_usage bill_state)"

text \<open>The preceding statement at an actual cost of one hundred.\<close>

theorem commit_pending_insufficient_raises_witness:
  "\<exists>s'. commit_pending_transaction resp2_conv ''trace'' 1000 0 100 0 False pending_state =
     (Inl (AttributeError ''FAILED''), s')"
proof -
  obtain t where t: "get_by_trace_id ''trace'' pending_state = Some t" "tx_status t = TxPending"
    "tx_tenant t = ''t''"
  proof -
    have "case get_by_trace_id ''trace'' pending_state of None \<Rightarrow> False
      | Some t \<Rightarrow> tx_status t = TxPending \<and> tx_tenant t = ''t''" by code_simp
    then show thesis using that by (auto split: option.splits)
  qed
  let ?r = "deduct_quota_redis resp2_conv (tx_tenant t)
    (deduct_args_of (of_int 1000 / 1000 * 100 + of_int 0 / 1000 * 0) 1 1 False) (bs_quota pending_state)"
  have "case fst (deduct_quota_redis resp2_conv ''t''
    (deduct_args_of (of_int 1000 / 1000 * 100 + of_int 0 / 1000 * 0) 1 1 False) (bs_quota pending_state)) of
    Inl _ \<Rightarrow> True | Inr _ \<Rightarrow> False" by code_simp
  then obtain e qs where "?r = (Inl e, qs)"
    unfolding t(3) by (auto split: sum.splits simp: prod_eq_iff)
  from commit_pending_insufficient_raises [OF t(1,2) this] show ?thesis by blast
qed

text \<open>The preceding statement at a recharge of two.\<close>

theorem recharge_exact_witness:
  "balance_of ''t'' (snd (recharge ''t'' 2 ''top-up'' None bill_state)) = balance_of ''t'' bill_state + 2"
proof -
  obtain r s' where run: "recharge ''t'' 2 ''top-up'' None bill_state = (r, s')"
    by (cases "recharge ''t'' 2 ''top-up'' None bill_state")
  from recharge_exact [OF bill_state_facts(4,1) run] show ?thesis by (auto simp: run)
qed

text \<open>The preceding statement at the reversal of a deduction of twelve.\<close>

definition charged_state :: billing_state where
  "charged_state = snd (deduct resp2_conv ''t'' 12 ''trace'' no_usage False bill_state)"

theorem reverse_once_witness:
  "\<exists>r s'. reverse_tx ''trace'' ''undo'' None charged_state = (Inr r, s') \<and> tx_amount r = 12 \<and>
     reverse_tx ''trace'' ''again'' None s' =
       (Inl (BillingValueError (''Transaction already reversed: '' @ ''trace'')), s')"
proof -
  have "case get_by_trace_id ''trace'' charged_state of None \<Rightarrow> False
    | Some t \<Rightarrow> tx_status t \<noteq> TxReversed \<and> tx_type t = DEDUCT \<and> tx_trace_id t = ''trace'' \<and> tx_amount t = 12"
    by code_simp
  then obtain t where t: "get_by_trace_id ''trace'' charged_state = Some t" "tx_status t \<noteq> TxReversed"
    "tx_type t = DEDUCT" "tx_trace_id t = ''trace''" "tx_amount t = 12"
    by (auto split: option.splits)
  have "get_by_trace_id ''undo'' charged_state = None" by code_simp
  moreover have "list_all (\<lambda>(n, q). tq_tenant q = n) (qs_rows (bs_quota charged_state))" by code_simp
  then have "rows_wf (qs_rows (bs_quota charged_state))"
    by (auto simp: rows_wf_def list_all_iff dest: map_of_SomeD)
  ultimately show ?thesis using reverse_once [OF _ t(1-4), of "''undo''"] t(5) by metis
qed

text \<open>The preceding statement at a pending transaction estimated at three.\<close>

theorem reverse_pays_out_pending_witness:
  "\<exists>r s2. reverse_tx ''trace'' ''undo'' None pending_state = (Inr r, s2) \<and>
     balance_of ''t'' s2 = balance_of ''t'' bill_state + 3"
proof -
  obtain t s1 where run: "create_pending_transaction ''t'' ''trace'' 1000 [(''input_per_1k'', PInt 3)] no_usage
      bill_state = (t, s1)"
    by (cases "create_pending_transaction ''t'' ''trace'' 1000 [(''input_per_1k'', PInt 3)] no_usage bill_state")
  have "tx_amount (fst (create_pending_transaction ''t'' ''trace'' 1000 [(''input_per_1k'', PInt 3)] no_usage
      bill_state)) = 3" by code_simp
  with reverse_pays_out_pending [OF bill_state_facts(4,1) run, of "''undo''" None] bill_state_facts(1) run
  show ?thesis by (simp add: pending_state_def)
qed

end
