(* ===== verification/Billing_Pipeline.thy ===== *)
theory Billing_Pipeline
  imports Billing_Repository
begin

section \<open>The billing pipeline\<close>

text \<open>
  src/app/services/billing_pipeline.py, which the gateway steps and the credits proxy share: the
  cost estimate and the actual cost (rounded half to even to six decimals), the pre-deduction with
  its Redis and database paths, the recording of a transaction with the correction of the
  pre-deducted amount, the usage accumulator of a stream and the wrapper that bills when the stream
  ends. Floats and decimals are exact. JSON parsing of a stream line is the argument \<open>parse\<close>.
\<close>

subsection \<open>Costs\<close>

definition estimate_cost :: "pricing \<Rightarrow> int \<Rightarrow> rat" where
  "estimate_cost p max_tokens =
     (if p = [] then 0
      else of_int (max_tokens * 2) / 1000 * ((price p ''input_per_1k'' + price p ''output_per_1k'') / 2))"

definition round_half_even :: "rat \<Rightarrow> int" where
  "round_half_even x =
     (let f = \<lfloor>x\<rfloor>; d = x - of_int f
      in if d < 1 / 2 then f else if 1 / 2 < d then f + 1 else if even f then f else f + 1)"

definition quantize6 :: "rat \<Rightarrow> rat" where
  "quantize6 x = of_int (round_half_even (x * 1000000)) / 1000000"

definition unit_cost :: "int \<Rightarrow> rat \<Rightarrow> rat" where
  "unit_cost tokens price_per_1k =
     (if tokens \<le> 0 \<or> price_per_1k \<le> 0 then 0
      else quantize6 (of_int tokens / 1000 * price_per_1k))"

definition calculate_cost :: "int \<Rightarrow> int \<Rightarrow> pricing \<Rightarrow> rat \<times> rat \<times> rat" where
  "calculate_cost input_tokens output_tokens p =
     (let ic = unit_cost input_tokens (price p ''input_per_1k'');
          oc = unit_cost output_tokens (price p ''output_per_1k'')
      in (ic, oc, ic + oc))"

subsection \<open>Pre-deduction\<close>

record quota_info =
  qi_balance :: rat
  qi_credit_limit :: "rat option"
  qi_daily_used :: int
  qi_monthly_used :: int
  qi_version :: int
  qi_daily_remaining :: "int option"
  qi_monthly_remaining :: "int option"

definition pipeline_deduct_db :: "string \<Rightarrow> rat \<Rightarrow> quota_state \<Rightarrow> (billing_error + quota_info) \<times> quota_state" where
  "pipeline_deduct_db tenant cost s =
     (case check_and_deduct False False False [] (deduct_args_of cost 1 1 False) tenant s of
        (Inl (InsufficientQuotaError k r av), s1) \<Rightarrow> (Inl (QuotaExceededError k r av), s1)
      | (Inl e, s1) \<Rightarrow> (Inl e, s1)
      | (Inr q, s1) \<Rightarrow>
          (Inr \<lparr>qi_balance = tq_balance q, qi_credit_limit = Some (tq_credit_limit q), qi_daily_used = tq_daily_used q,
                qi_monthly_used = tq_monthly_used q, qi_version = tq_version q,
                qi_daily_remaining = Some (tq_daily_quota q - tq_daily_used q),
                qi_monthly_remaining = Some (tq_monthly_quota q - tq_monthly_used q)\<rparr>, s1))"

text \<open>
  Writing the hash when it is missing. When another worker holds the warming lock the function only
  waits; the hash is then whatever that worker has written by now.
\<close>

definition warm_quota_cache :: "bool \<Rightarrow> string \<Rightarrow> quota_state \<Rightarrow> quota_state" where
  "warm_quota_cache contended tenant s =
     (if contended then s
      else (case get_or_create no_defaults True tenant s of
              (q, s1) \<Rightarrow>
                s1\<lparr>qs_hashes := dput tenant (hset (hash_payload (qs_today s1) q) (hash_of tenant s1))
                     (qs_hashes s1)\<rparr>))"

definition precheck_error :: "py_reply list \<Rightarrow> billing_error" where
  "precheck_error result =
     (let num = (\<lambda>i. reply_num (result ! i))
      in if result ! 1 = RText ''INSUFFICIENT_BALANCE'' then QuotaExceededError ''balance'' (num 2) (num 3)
         else if result ! 1 = RText ''DAILY_QUOTA_EXCEEDED'' then QuotaExceededError ''daily'' (num 2) (num 3)
         else if result ! 1 = RText ''MONTHLY_QUOTA_EXCEEDED''
         then QuotaExceededError ''monthly'' (num 2) (num 3)
         else QuotaExceededError ''unknown'' 0 0)"

definition quota_precheck :: "reply_conv \<Rightarrow> bool \<Rightarrow> string \<Rightarrow> rat \<Rightarrow> quota_state \<Rightarrow>
    (billing_error + quota_info) \<times> quota_state" where
  "quota_precheck conv contended tenant cost s =
     (if \<not> qs_redis s then pipeline_deduct_db tenant cost s
      else if \<not> qs_script s then pipeline_deduct_db tenant cost s
      else
        let s1 = (if dget (qs_hashes s) tenant = None then warm_quota_cache contended tenant s else s)
        in (case eval_quota_script conv tenant (deduct_args_of cost 1 1 False) s1 of
              (result, s2) \<Rightarrow>
                if result ! 0 = RNum 0 then (Inl (precheck_error result), s2)
                else
                  (Inr \<lparr>qi_balance = reply_num (result ! 2), qi_credit_limit = None, qi_daily_used = lua_int (reply_num (result ! 3)),
                        qi_monthly_used = lua_int (reply_num (result ! 4)),
                        qi_version = lua_int (reply_num (result ! 5)),
                        qi_daily_remaining = None, qi_monthly_remaining = None\<rparr>, s2)))"

subsection \<open>Recording and settling\<close>

definition record_and_adjust :: "string \<Rightarrow> string \<Rightarrow> int \<Rightarrow> int \<Rightarrow> pricing \<Rightarrow> rat \<Rightarrow> usage_info \<Rightarrow>
    billing_state \<Rightarrow> (billing_error + rat option) \<times> billing_state" where
  "record_and_adjust tenant trace input_tokens output_tokens p estimated u s =
     (if tenant = [] \<or> p = [] then (Inr None, s)
      else
        let total = snd (snd (calculate_cost input_tokens output_tokens p))
        in if total \<le> 0 then (Inr None, s)
           else
             let diff = total - estimated
             in (case record_transaction tenant total trace
                   (u\<lparr>ui_input_tokens := input_tokens, ui_output_tokens := output_tokens,
                      ui_input_price := price p ''input_per_1k'',
                      ui_output_price := price p ''output_per_1k''\<rparr>) s of
                   (Inl e, s1) \<Rightarrow> (Inl e, s1)
                 | (Inr t, s1) \<Rightarrow>
                     (Inr (Some (tx_balance_after t)),
                      if 1 / 1000000 < \<bar>diff\<bar> then adjust_redis_balance tenant diff s1 else s1)))"

subsection \<open>Streams\<close>

record stream_usage =
  su_input_tokens :: int
  su_output_tokens :: int
  su_is_completed :: bool
  su_error :: "string option"
  su_chunks :: int

definition new_stream_usage :: stream_usage where
  "new_stream_usage = \<lparr>su_input_tokens = 0, su_output_tokens = 0, su_is_completed = False,
     su_error = None, su_chunks = 0\<rparr>"

text \<open>
  What parsing the payload of a data line gives: no JSON (or a value on which the code raises,
  which it ignores), JSON without usage, or a usage object with its two counters, which default to
  zero. The chunk counter is raised before the usage is read.
\<close>

datatype sse_payload = NotJson | NoUsage | Usage int int | BadUsage

fun split_lines :: "string \<Rightarrow> string list" where
  "split_lines [] = [[]]"
| "split_lines (c # cs) =
     (if c = CHR 0x0A then [] # split_lines cs
      else (case split_lines cs of [] \<Rightarrow> [[c]] | l # ls \<Rightarrow> (c # l) # ls))"

definition feed_line :: "(string \<Rightarrow> sse_payload) \<Rightarrow> string \<Rightarrow> stream_usage \<Rightarrow> stream_usage" where
  "feed_line parse raw u =
     (let line = str_strip raw
      in if line = [] then u
         else if line = ''data: [DONE]'' then u\<lparr>su_is_completed := True\<rparr>
         else if \<not> starts_with line ''data: '' then u
         else (case parse (drop 6 line) of
                 NotJson \<Rightarrow> u
               | NoUsage \<Rightarrow> u\<lparr>su_chunks := su_chunks u + 1\<rparr>
               | BadUsage \<Rightarrow> u\<lparr>su_chunks := su_chunks u + 1\<rparr>
               | Usage i j \<Rightarrow> u\<lparr>su_chunks := su_chunks u + 1, su_input_tokens := i, su_output_tokens := j\<rparr>))"

text \<open>A chunk that is not UTF-8 is ignored; \<open>None\<close> stands for it.\<close>

definition feed :: "(string \<Rightarrow> sse_payload) \<Rightarrow> string option \<Rightarrow> stream_usage \<Rightarrow> stream_usage" where
  "feed parse chunk u = (case chunk of None \<Rightarrow> u | Some text \<Rightarrow> fold (feed_line parse) (split_lines text) u)"

text \<open>
  The wrapped stream: the chunks passed through, the error that ended it if any, and the billing at
  the end, whose own failure is only logged and rolled back.
\<close>

definition wrap_stream_with_billing :: "(string \<Rightarrow> sse_payload) \<Rightarrow> string option list \<Rightarrow> string option \<Rightarrow>
    string \<Rightarrow> string \<Rightarrow> pricing \<Rightarrow> rat \<Rightarrow> string option \<Rightarrow> string option \<Rightarrow> billing_state \<Rightarrow>
    string option list \<times> string option \<times> billing_state" where
  "wrap_stream_with_billing parse chunks failure tenant trace p estimated provider model s =
     (let acc = fold (feed parse) chunks new_stream_usage
      in (chunks, failure,
          case record_and_adjust tenant trace (su_input_tokens acc) (su_output_tokens acc) p estimated
                 (no_usage\<lparr>ui_provider := provider, ui_model := model,
                    ui_description := Some ''Credits proxy stream billing''\<rparr>) s of
            (Inl _, s1) \<Rightarrow> s1\<lparr>bs_quota := (bs_quota s1)\<lparr>qs_rows := qs_rows (bs_quota s)\<rparr>, bs_txs := bs_txs s\<rparr>
          | (Inr _, s1) \<Rightarrow> commit_session s1))"

subsection \<open>Rounding\<close>

lemma round_half_even_near: "\<bar>of_int (round_half_even x) - x\<bar> \<le> 1 / 2"
proof -
  define d where "d = x - of_int \<lfloor>x\<rfloor>"
  have "0 \<le> d" and "d < 1" unfolding d_def by linarith+
  have x: "x = of_int \<lfloor>x\<rfloor> + d" by (simp add: d_def)
  have "round_half_even x = (if d < 1 / 2 then \<lfloor>x\<rfloor> else if 1 / 2 < d then \<lfloor>x\<rfloor> + 1
      else if even \<lfloor>x\<rfloor> then \<lfloor>x\<rfloor> else \<lfloor>x\<rfloor> + 1)"
    by (simp add: round_half_even_def d_def Let_def)
  then have "of_int (round_half_even x) = (of_int \<lfloor>x\<rfloor> :: rat) \<and> d \<le> 1 / 2 \<or>
      of_int (round_half_even x) = (of_int \<lfloor>x\<rfloor> + 1 :: rat) \<and> 1 / 2 \<le> d"
    by (auto split: if_splits)
  with \<open>0 \<le> d\<close> \<open>d < 1\<close> show ?thesis
    by (subst (2) x) (auto simp: abs_le_iff)
qed

lemma round_half_even_nonneg: "0 \<le> x \<Longrightarrow> 0 \<le> round_half_even x"
  by (auto simp: round_half_even_def Let_def)

lemma quantize6_near: "\<bar>quantize6 x - x\<bar> \<le> 1 / 2000000"
proof -
  have eq: "quantize6 x - x = (of_int (round_half_even (x * 1000000)) - x * 1000000) / 1000000"
    by (simp add: quantize6_def field_simps)
  have "\<bar>quantize6 x - x\<bar> = \<bar>of_int (round_half_even (x * 1000000)) - x * 1000000\<bar> / 1000000"
    unfolding eq abs_divide by simp
  also have "\<dots> \<le> (1 / 2) / 1000000"
    by (rule divide_right_mono [OF round_half_even_near]) simp
  finally show ?thesis by simp
qed

lemma unit_cost_near:
  "0 \<le> n \<Longrightarrow> 0 \<le> p \<Longrightarrow> \<bar>unit_cost n p - of_int n / 1000 * p\<bar> \<le> 1 / 2000000"
  using quantize6_near [of "of_int n / 1000 * p"]
  by (cases "n \<le> 0 \<or> p \<le> 0") (auto simp: unit_cost_def)

lemma unit_cost_micros: "\<exists>k \<ge> 0. unit_cost n p = of_int k / 1000000"
proof (cases "n \<le> 0 \<or> p \<le> 0")
  case True
  then show ?thesis by (auto simp: unit_cost_def intro: exI [of _ 0])
next
  case False
  then have "0 \<le> round_half_even (of_int n / 1000 * p * 1000000)"
    by (intro round_half_even_nonneg) simp
  with False show ?thesis by (auto simp: unit_cost_def quantize6_def)
qed

lemma calculate_cost_total:
  "calculate_cost i j p = (unit_cost i (price p ''input_per_1k''), unit_cost j (price p ''output_per_1k''),
     unit_cost i (price p ''input_per_1k'') + unit_cost j (price p ''output_per_1k''))"
  by (simp add: calculate_cost_def Let_def)

subsection \<open>What the operations keep\<close>

lemma get_or_create_keeps_hashes:
  "get_or_create d False t s = (q, s1) \<Longrightarrow> qs_hashes s1 = qs_hashes s"
  by (auto simp: get_or_create_def maybe_reset_quotas_def Let_def put_row_def
      split: option.splits if_splits)

lemma quota_or_create_keeps_hashes:
  assumes "quota_or_create False t s = (q, s1)"
  shows "qs_hashes (bs_quota s1) = qs_hashes (bs_quota s)" "qs_redis (bs_quota s1) = qs_redis (bs_quota s)"
  using quota_or_create_txs [OF assms] get_or_create_keeps_hashes get_or_create_idem by blast+

lemma record_transaction_keeps_hashes:
  "record_transaction tenant amount trace u s = (r, s1) \<Longrightarrow>
   qs_hashes (bs_quota s1) = qs_hashes (bs_quota s) \<and> qs_redis (bs_quota s1) = qs_redis (bs_quota s)"
  by (auto simp: record_transaction_def Let_def quota_or_create_keeps_hashes
      split: option.splits if_splits prod.splits)

lemma adjust_redis_balance_hash:
  assumes "qs_redis (bs_quota s)" and "dget (qs_hashes (bs_quota s)) t = Some h"
    and "dget h ''balance'' = Some b"
  shows "\<exists>h'. dget (qs_hashes (bs_quota (adjust_redis_balance t diff s))) t = Some h' \<and>
    hnum h' ''balance'' = hnum h ''balance'' - (if \<bar>diff\<bar> < 1 / 1000000 then 0 else diff)"
  using assms by (auto simp: adjust_redis_balance_def adjust_balance_script_def Let_def)

lemma quota_precheck_script:
  assumes "qs_redis s" and "qs_script s" and "dget (qs_hashes s) t = Some h"
    and "redis_reply conv" and "quota_precheck conv c t e s = (Inr i, s')"
  shows "\<exists>h'. dget (qs_hashes s') t = Some h' \<and> qs_redis s' \<and> dget h' ''balance'' \<noteq> None \<and>
    hnum h' ''balance'' = hnum h ''balance'' - e \<and> e \<le> hnum h ''balance'' + hnum h ''credit_limit''"
proof -
  let ?a = "argv_of (qs_today s) (deduct_args_of e 1 1 False)"
  have zero: "conv (LNum 0) = RNum 0" using assms(4) by (simp add: redis_reply_def lua_int_def)
  show ?thesis
  proof (cases "script_accepts ?a h")
    case True
    then have "e \<le> hnum h ''balance'' + hnum h ''credit_limit''"
      by (simp add: script_accepts_def deduct_args_of_def)
    moreover have "dget (script_commit ?a h) ''balance'' \<noteq> None" by (simp add: script_commit_def)
    ultimately show ?thesis
      using assms(1-3,5) True
      by (auto simp: quota_precheck_def Let_def eval_quota_script_def quota_deduct_script_accept
          deduct_args_of_def split: if_splits)
  next
    case False
    from quota_deduct_script_refuse [OF this] assms zero show ?thesis
      by (auto simp: quota_precheck_def Let_def eval_quota_script_def)
  qed
qed

text \<open>
  Settling with the estimate \<open>e\<close> after a pre-deduction of \<open>e0\<close>: the hash ends, up to the threshold
  of a millionth below which the correction is skipped, at the balance less \<open>e0\<close> and less what the
  cost exceeds \<open>e\<close>.
\<close>

lemma precheck_then_settle:
  assumes "redis_reply conv" and "qs_redis (bs_quota s)" and "qs_script (bs_quota s)"
    and "dget (qs_hashes (bs_quota s)) t = Some h" and "t \<noteq> []" and "p \<noteq> []"
    and "quota_precheck conv c t e0 (bs_quota s) = (Inr i, qs)"
    and "record_and_adjust t trace n k p e u (s\<lparr>bs_quota := qs\<rparr>) = (Inr r, s')"
    and "0 < snd (snd (calculate_cost n k p))"
  shows "\<exists>h'. dget (qs_hashes (bs_quota s')) t = Some h' \<and> e0 \<le> hnum h ''balance'' + hnum h ''credit_limit'' \<and>
    \<bar>hnum h' ''balance'' - (hnum h ''balance'' - e0 - (snd (snd (calculate_cost n k p)) - e))\<bar> \<le> 1 / 1000000"
proof -
  let ?diff = "snd (snd (calculate_cost n k p)) - e"
  from quota_precheck_script [OF assms(2-4,1,7)] obtain h1 b where h1: "dget (qs_hashes qs) t = Some h1"
    "qs_redis qs" "dget h1 ''balance'' = Some b" "hnum h1 ''balance'' = hnum h ''balance'' - e0"
    and funds: "e0 \<le> hnum h ''balance'' + hnum h ''credit_limit''" by auto
  from assms(5,6,8,9) obtain tx s1 where
    rec: "record_transaction t (snd (snd (calculate_cost n k p))) trace
       (u\<lparr>ui_input_tokens := n, ui_output_tokens := k, ui_input_price := price p ''input_per_1k'',
          ui_output_price := price p ''output_per_1k''\<rparr>) (s\<lparr>bs_quota := qs\<rparr>) = (Inr tx, s1)"
    and s': "s' = (if 1 / 1000000 < \<bar>?diff\<bar> then adjust_redis_balance t ?diff s1 else s1)"
    by (auto simp: record_and_adjust_def Let_def split: if_splits sum.splits prod.splits)
  from record_transaction_keeps_hashes [OF rec] h1 have s1: "qs_redis (bs_quota s1)"
    "dget (qs_hashes (bs_quota s1)) t = Some h1" by simp_all
  show ?thesis
  proof (cases "1 / 1000000 < \<bar>?diff\<bar>")
    case True
    with adjust_redis_balance_hash [OF s1 h1(3), of ?diff] h1(4) s' funds show ?thesis by auto
  next
    case False
    with s1 h1(4) s' funds show ?thesis by (auto simp: abs_if split: if_splits)
  qed
qed

subsection \<open>Properties\<close>

text \<open>The cost of a request is a whole non-negative number of millionths, each of its two parts
  within half a millionth of the exact product of tokens and price, the total within one.\<close>

theorem cost_rounding_bound:
  assumes "0 \<le> n" and "0 \<le> k" and "0 \<le> price p ''input_per_1k''" and "0 \<le> price p ''output_per_1k''"
    and "calculate_cost n k p = (ic, oc, tot)"
  shows "(\<exists>m \<ge> 0. tot = of_int m / 1000000) \<and>
    \<bar>ic - of_int n / 1000 * price p ''input_per_1k''\<bar> \<le> 1 / 2000000 \<and>
    \<bar>oc - of_int k / 1000 * price p ''output_per_1k''\<bar> \<le> 1 / 2000000 \<and>
    \<bar>tot - (of_int n / 1000 * price p ''input_per_1k'' + of_int k / 1000 * price p ''output_per_1k'')\<bar>
      \<le> 1 / 1000000"
proof -
  from assms(5) have costs: "ic = unit_cost n (price p ''input_per_1k'')"
    "oc = unit_cost k (price p ''output_per_1k'')" "tot = ic + oc"
    by (auto simp: calculate_cost_total)
  obtain a b where "0 \<le> a" "ic = of_int a / 1000000" "0 \<le> b" "oc = of_int b / 1000000"
    using unit_cost_micros costs(1,2) by metis
  then have "\<exists>m \<ge> 0. tot = of_int m / 1000000"
    by (intro exI [of _ "a + b"]) (simp add: costs(3) add_divide_distrib)
  moreover have near: "\<bar>ic - of_int n / 1000 * price p ''input_per_1k''\<bar> \<le> 1 / 2000000"
    "\<bar>oc - of_int k / 1000 * price p ''output_per_1k''\<bar> \<le> 1 / 2000000"
    using unit_cost_near [OF assms(1,3)] unit_cost_near [OF assms(2,4)] by (simp_all only: costs)
  moreover have "\<bar>tot - (of_int n / 1000 * price p ''input_per_1k'' +
      of_int k / 1000 * price p ''output_per_1k'')\<bar> \<le> 1 / 1000000"
    using near unfolding costs(3) by linarith
  ultimately show ?thesis by blast
qed

text \<open>C33: when settlement uses the estimate that was pre-deducted, the tenant's Redis balance ends
  at the old balance less the actual cost, up to a millionth, and the pre-deduction was covered.\<close>

theorem settlement_charges_actual_cost:
  assumes "redis_reply conv" and "qs_redis (bs_quota s)" and "qs_script (bs_quota s)"
    and "dget (qs_hashes (bs_quota s)) t = Some h" and "t \<noteq> []" and "p \<noteq> []"
    and "quota_precheck conv c t e (bs_quota s) = (Inr i, qs)"
    and "record_and_adjust t trace n k p e u (s\<lparr>bs_quota := qs\<rparr>) = (Inr r, s')"
    and "0 < snd (snd (calculate_cost n k p))"
  shows "\<exists>h'. dget (qs_hashes (bs_quota s')) t = Some h' \<and> e \<le> hnum h ''balance'' + hnum h ''credit_limit'' \<and>
    \<bar>hnum h' ''balance'' - (hnum h ''balance'' - snd (snd (calculate_cost n k p)))\<bar> \<le> 1 / 1000000"
  using precheck_then_settle [OF assms] by simp

text \<open>A stream is billed only if its usage line arrives in one piece: the accumulator keeps
  nothing between chunks, so when the line is cut so that the first piece is not JSON and the second
  does not begin like a data line, no usage is seen and the stream costs nothing: no transaction is
  written and the pre-deduction is not settled.\<close>

theorem split_usage_line_unbilled:
  assumes "split_lines a = [a]" and "split_lines b = [b]"
    and "parse (drop 6 (str_strip a)) = NotJson" and "\<not> starts_with (str_strip b) ''data: ''"
  shows "su_input_tokens (fold (feed parse) [Some a, Some b] new_stream_usage) = 0 \<and>
    su_output_tokens (fold (feed parse) [Some a, Some b] new_stream_usage) = 0 \<and>
    wrap_stream_with_billing parse [Some a, Some b] None t trace p e prov model s =
      ([Some a, Some b], None, commit_session s)"
proof -
  have tokens: "su_input_tokens (feed_line parse x u) = su_input_tokens u"
    "su_output_tokens (feed_line parse x u) = su_output_tokens u"
    if "parse (drop 6 (str_strip x)) = NotJson \<or> \<not> starts_with (str_strip x) ''data: ''" for x u
    using that by (auto simp: feed_line_def Let_def)
  have zero: "su_input_tokens (fold (feed parse) [Some a, Some b] new_stream_usage) = 0"
    "su_output_tokens (fold (feed parse) [Some a, Some b] new_stream_usage) = 0"
    using assms by (simp_all add: feed_def tokens) (simp_all add: new_stream_usage_def)
  then show ?thesis
    by (simp add: wrap_stream_with_billing_def record_and_adjust_def calculate_cost_total unit_cost_def Let_def)
qed

subsection \<open>Witnesses\<close>

text \<open>The preceding statement at 1500 and 700 tokens for three and five per thousand.\<close>

theorem cost_rounding_bound_witness:
  "\<bar>snd (snd (calculate_cost 1500 700 [(''input_per_1k'', PInt 3), (''output_per_1k'', PInt 5)])) - 8\<bar>
     \<le> 1 / 1000000"
proof -
  let ?p = "[(''input_per_1k'', PInt 3), (''output_per_1k'', PInt 5)]"
  have prices: "price ?p ''input_per_1k'' = 3" "price ?p ''output_per_1k'' = 5" by code_simp+
  obtain ic oc tot where c: "calculate_cost 1500 700 ?p = (ic, oc, tot)"
    by (cases "calculate_cost 1500 700 ?p")
  from cost_rounding_bound [OF _ _ _ _ c] prices c show ?thesis by simp
qed

definition stream_state :: billing_state where
  "stream_state = \<lparr>bs_quota = fraction_state, bs_txs = [], bs_now = 0, bs_hooks = []\<rparr>"

text \<open>C33 at a balance of 9.5, an estimate of two and a cost of three.\<close>

theorem settlement_charges_actual_cost_witness:
  "\<exists>i qs r s' h'. quota_precheck resp2_conv False ''t'' 2 (bs_quota stream_state) = (Inr i, qs) \<and>
     record_and_adjust ''t'' ''trace'' 1000 0 [(''input_per_1k'', PInt 3)] 2 no_usage
       (stream_state\<lparr>bs_quota := qs\<rparr>) = (Inr r, s') \<and>
     dget (qs_hashes (bs_quota s')) ''t'' = Some h' \<and> \<bar>hnum h' ''balance'' - (19 / 2 - 3)\<bar> \<le> 1 / 1000000"
proof -
  let ?p = "[(''input_per_1k'', PInt 3)]" and ?h = "hset [(''balance'', HNum (19 / 2))] race_hash"
  have "case fst (quota_precheck resp2_conv False ''t'' 2 (bs_quota stream_state)) of
      Inl _ \<Rightarrow> False | Inr _ \<Rightarrow> True" by code_simp
  then obtain i qs where pre: "quota_precheck resp2_conv False ''t'' 2 (bs_quota stream_state) = (Inr i, qs)"
    by (cases "quota_precheck resp2_conv False ''t'' 2 (bs_quota stream_state)") (auto split: sum.splits)
  let ?r = "record_and_adjust ''t'' ''trace'' 1000 0 ?p 2 no_usage
    (stream_state\<lparr>bs_quota := snd (quota_precheck resp2_conv False ''t'' 2 (bs_quota stream_state))\<rparr>)"
  have "case fst ?r of Inl _ \<Rightarrow> False | Inr _ \<Rightarrow> True" by code_simp
  then obtain r s' where run: "record_and_adjust ''t'' ''trace'' 1000 0 ?p 2 no_usage
      (stream_state\<lparr>bs_quota := qs\<rparr>) = (Inr r, s')"
    using pre by (cases ?r) (auto split: sum.splits)
  have conv: "redis_reply resp2_conv" by (simp add: redis_reply_def resp2_conv_def)
  have facts: "qs_redis (bs_quota stream_state)" "qs_script (bs_quota stream_state)"
    "dget (qs_hashes (bs_quota stream_state)) ''t'' = Some ?h"
    by (simp_all add: stream_state_def fraction_state_def) (simp_all add: race_state_def)
  have cost: "snd (snd (calculate_cost 1000 0 ?p)) = 3" by code_simp
  have bal: "hnum ?h ''balance'' = 19 / 2" by simp
  from settlement_charges_actual_cost [OF conv facts _ _ pre run] cost bal pre run show ?thesis by auto
qed

definition usage_parser :: "string \<Rightarrow> sse_payload" where
  "usage_parser x = (if x = ''{usage}'' then Usage 1000 0 else NotJson)"

text \<open>The preceding statement at a usage line cut in the middle; in one piece the same line is charged.\<close>

theorem split_usage_line_unbilled_witness:
  "wrap_stream_with_billing usage_parser [Some ''data: {usa'', Some ''ge}''] None ''t'' ''trace''
     [(''input_per_1k'', PInt 3)] 2 None None stream_state =
     ([Some ''data: {usa'', Some ''ge}''], None, commit_session stream_state) \<and>
   su_input_tokens (feed usage_parser (Some ''data: {usage}'') new_stream_usage) = 1000"
proof
  show "su_input_tokens (feed usage_parser (Some ''data: {usage}'') new_stream_usage) = 1000" by code_simp
  have "split_lines ''data: {usa'' = [''data: {usa'']" "split_lines ''ge}'' = [''ge}'']"
    "usage_parser (drop 6 (str_strip ''data: {usa'')) = NotJson" "\<not> starts_with (str_strip ''ge}'') ''data: ''"
    by code_simp+
  from split_usage_line_unbilled [where parse = usage_parser, OF this]
  show "wrap_stream_with_billing usage_parser [Some ''data: {usa'', Some ''ge}''] None ''t'' ''trace''
     [(''input_per_1k'', PInt 3)] 2 None None stream_state =
     ([Some ''data: {usa'', Some ''ge}''], None, commit_session stream_state)" by blast
qed

end
