(* ===== verification/Workflow_Context.thy ===== *)
theory Workflow_Context
  imports Py_Value
begin

section \<open>The workflow context\<close>

text \<open>
  \<open>WorkflowContext\<close> of src/app/services/orchestrator/context.py: the request's metadata, one
  key-value namespace per step, the routing, upstream and billing results, the error fields, the
  execution trace and the status stream. A live database session is only ever tested for presence,
  so it is a flag. The status emitter is a callback: whether one is installed is a flag, and the
  payloads handed to it are recorded in order in \<open>ctx_emitted\<close>. The weak global registry behind
  \<open>get_active\<close> (whose entries vanish with garbage collection) is not part of the model.
\<close>

datatype channel = INTERNAL | EXTERNAL

fun channel_value :: "channel \<Rightarrow> string" where
  "channel_value INTERNAL = ''internal''"
| "channel_value EXTERNAL = ''external''"

datatype error_source = GATEWAY | UPSTREAM | CLIENT

fun error_source_value :: "error_source \<Rightarrow> string" where
  "error_source_value GATEWAY = ''gateway''"
| "error_source_value UPSTREAM = ''upstream''"
| "error_source_value CLIENT = ''client''"

record upstream_result =
  ur_provider :: "string option"
  ur_model :: "string option"
  ur_upstream_url :: "string option"
  ur_status_code :: "int option"
  ur_latency_ms :: "rat option"
  ur_retry_count :: int
  ur_error_code :: "string option"
  ur_error_message :: "string option"

record billing_info =
  bi_input_tokens :: int
  bi_output_tokens :: int
  bi_total_tokens :: int
  bi_input_cost :: rat
  bi_output_cost :: rat
  bi_total_cost :: rat
  bi_currency :: string

definition new_upstream_result :: upstream_result where
  "new_upstream_result =
     \<lparr>ur_provider = None, ur_model = None, ur_upstream_url = None, ur_status_code = None,
      ur_latency_ms = None, ur_retry_count = 0, ur_error_code = None, ur_error_message = None\<rparr>"

definition new_billing_info :: billing_info where
  "new_billing_info =
     \<lparr>bi_input_tokens = 0, bi_output_tokens = 0, bi_total_tokens = 0, bi_input_cost = 0,
      bi_output_cost = 0, bi_total_cost = 0, bi_currency = ''USD''\<rparr>"

record workflow_context =
  ctx_trace_id :: string
  ctx_channel :: channel
  ctx_created_at :: string
  ctx_tenant_id :: "string option"
  ctx_api_key_id :: "string option"
  ctx_user_id :: "string option"
  ctx_session_id :: "string option"
  ctx_capability :: "string option"
  ctx_requested_model :: "string option"
  ctx_client_ip :: "string option"
  ctx_user_agent :: "string option"
  ctx_db_session :: bool
  ctx_namespaces :: "(string, (string, pyval) dict) dict"
  ctx_selected_preset_id :: "string option"
  ctx_selected_instance_id :: "string option"
  ctx_selected_provider_model_id :: "string option"
  ctx_selected_upstream :: "string option"
  ctx_routing_weight :: "rat option"
  ctx_upstream_result :: upstream_result
  ctx_billing :: billing_info
  ctx_error_source :: "error_source option"
  ctx_error_code :: "string option"
  ctx_error_message :: "string option"
  ctx_is_success :: bool
  ctx_failed_step :: "string option"
  ctx_executed_steps :: "string list"
  ctx_step_timings :: "(string, rat) dict"
  ctx_status_emitter :: bool
  ctx_status_stage :: "string option"
  ctx_status_step :: "string option"
  ctx_status_state :: "string option"
  ctx_status_code :: "string option"
  ctx_status_meta :: pyval
  ctx_emitted :: "pyval list"

definition new_context :: "string \<Rightarrow> channel \<Rightarrow> string \<Rightarrow> workflow_context" where
  "new_context tid chan now =
     \<lparr>ctx_trace_id = tid, ctx_channel = chan, ctx_created_at = now,
      ctx_tenant_id = None, ctx_api_key_id = None, ctx_user_id = None, ctx_session_id = None,
      ctx_capability = None, ctx_requested_model = None, ctx_client_ip = None,
      ctx_user_agent = None, ctx_db_session = False, ctx_namespaces = [],
      ctx_selected_preset_id = None, ctx_selected_instance_id = None,
      ctx_selected_provider_model_id = None, ctx_selected_upstream = None,
      ctx_routing_weight = None, ctx_upstream_result = new_upstream_result,
      ctx_billing = new_billing_info, ctx_error_source = None, ctx_error_code = None,
      ctx_error_message = None, ctx_is_success = True, ctx_failed_step = None,
      ctx_executed_steps = [], ctx_step_timings = [], ctx_status_emitter = False,
      ctx_status_stage = None, ctx_status_step = None, ctx_status_state = None,
      ctx_status_code = None, ctx_status_meta = PNone, ctx_emitted = []\<rparr>"

subsection \<open>Operations\<close>

definition ctx_get_namespace :: "workflow_context \<Rightarrow> string \<Rightarrow> (string, pyval) dict" where
  "ctx_get_namespace c step = (case dget (ctx_namespaces c) step of None \<Rightarrow> [] | Some d \<Rightarrow> d)"

definition ctx_get :: "workflow_context \<Rightarrow> string \<Rightarrow> string \<Rightarrow> pyval \<Rightarrow> pyval" where
  "ctx_get c step key dflt = py_get (ctx_get_namespace c step) key dflt"

definition ctx_set :: "string \<Rightarrow> string \<Rightarrow> pyval \<Rightarrow> workflow_context \<Rightarrow> workflow_context" where
  "ctx_set step key v c =
     (let c1 = (if dget (ctx_namespaces c) step = None
                then c\<lparr>ctx_namespaces := dput step [] (ctx_namespaces c)\<rparr> else c)
      in c1\<lparr>ctx_namespaces :=
              dput step (dput key v (ctx_get_namespace c1 step)) (ctx_namespaces c1)\<rparr>)"

definition mark_step_executed :: "string \<Rightarrow> rat \<Rightarrow> workflow_context \<Rightarrow> workflow_context" where
  "mark_step_executed step duration c =
     c\<lparr>ctx_executed_steps := ctx_executed_steps c @ [step],
       ctx_step_timings := dput step duration (ctx_step_timings c)\<rparr>"

definition emit_blocks :: "string \<Rightarrow> pyval list \<Rightarrow> workflow_context \<Rightarrow> workflow_context" where
  "emit_blocks now blocks c =
     (if \<not> ctx_status_emitter c \<or> blocks = [] then c
      else c\<lparr>ctx_emitted := ctx_emitted c @
              [PDict [(''type'', PStr ''blocks''), (''blocks'', PList blocks),
                      (''trace_id'', PStr (ctx_trace_id c)), (''timestamp'', PStr now)]]\<rparr>)"

definition push_blocks :: "string \<Rightarrow> pyval list \<Rightarrow> workflow_context \<Rightarrow> workflow_context" where
  "push_blocks now blocks c = (if blocks \<noteq> [] then emit_blocks now blocks c else c)"

definition emit_status :: "string \<Rightarrow> string \<Rightarrow> string option \<Rightarrow> string \<Rightarrow> string option \<Rightarrow> pyval \<Rightarrow>
    workflow_context \<Rightarrow> workflow_context" where
  "emit_status now stage step state code meta c =
     (if \<not> ctx_status_emitter c then c
      else if Some stage = ctx_status_stage c \<and> step = ctx_status_step c \<and>
              Some state = ctx_status_state c \<and> code = ctx_status_code c \<and>
              meta = ctx_status_meta c then c
      else c\<lparr>ctx_status_stage := Some stage, ctx_status_step := step,
             ctx_status_state := Some state, ctx_status_code := code, ctx_status_meta := meta,
             ctx_emitted := ctx_emitted c @
               [PDict [(''type'', PStr ''status''), (''stage'', PStr stage),
                       (''step'', opt_str step), (''state'', PStr state),
                       (''code'', opt_str code), (''meta'', meta),
                       (''trace_id'', PStr (ctx_trace_id c)), (''timestamp'', PStr now)]]\<rparr>)"

definition mark_error :: "error_source \<Rightarrow> string \<Rightarrow> string \<Rightarrow> int option \<Rightarrow> string option \<Rightarrow>
    workflow_context \<Rightarrow> workflow_context" where
  "mark_error source code message upstream_status upstream_code c =
     (let c1 = c\<lparr>ctx_is_success := False, ctx_error_source := Some source,
                 ctx_error_code := Some code, ctx_error_message := Some message\<rparr>;
          c2 = (case upstream_status of None \<Rightarrow> c1
                | Some st \<Rightarrow> c1\<lparr>ctx_upstream_result := (ctx_upstream_result c1)\<lparr>ur_status_code := Some st\<rparr>\<rparr>)
      in (case upstream_code of None \<Rightarrow> c2
          | Some uc \<Rightarrow> c2\<lparr>ctx_upstream_result := (ctx_upstream_result c2)\<lparr>ur_error_code := Some uc\<rparr>\<rparr>))"

definition to_audit_dict :: "workflow_context \<Rightarrow> (string, pyval) dict" where
  "to_audit_dict c =
     [(''trace_id'', PStr (ctx_trace_id c)),
      (''channel'', PStr (channel_value (ctx_channel c))),
      (''created_at'', PStr (ctx_created_at c)),
      (''tenant_id'', opt_str (ctx_tenant_id c)),
      (''api_key_id'', opt_str (ctx_api_key_id c)),
      (''capability'', opt_str (ctx_capability c)),
      (''requested_model'', opt_str (ctx_requested_model c)),
      (''selected_upstream'', opt_str (ctx_selected_upstream c)),
      (''upstream'', PDict
        [(''provider'', opt_str (ur_provider (ctx_upstream_result c))),
         (''model'', opt_str (ur_model (ctx_upstream_result c))),
         (''status_code'', opt_int (ur_status_code (ctx_upstream_result c))),
         (''latency_ms'', opt_float (ur_latency_ms (ctx_upstream_result c))),
         (''retry_count'', PInt (ur_retry_count (ctx_upstream_result c)))]),
      (''billing'', PDict
        [(''input_tokens'', PInt (bi_input_tokens (ctx_billing c))),
         (''output_tokens'', PInt (bi_output_tokens (ctx_billing c))),
         (''total_cost'', PFloat (bi_total_cost (ctx_billing c))),
         (''currency'', PStr (bi_currency (ctx_billing c)))]),
      (''is_success'', PBool (ctx_is_success c)),
      (''error_source'', opt_str (map_option error_source_value (ctx_error_source c))),
      (''error_code'', opt_str (ctx_error_code c)),
      (''executed_steps'', PList (map PStr (ctx_executed_steps c))),
      (''step_timings'', PDict (map (\<lambda>(k, v). (k, PFloat v)) (ctx_step_timings c))),
      (''total_duration_ms'', PFloat (sum_list (map snd (ctx_step_timings c))))]"

definition is_external :: "workflow_context \<Rightarrow> bool" where
  "is_external c \<longleftrightarrow> ctx_channel c = EXTERNAL"

definition is_internal :: "workflow_context \<Rightarrow> bool" where
  "is_internal c \<longleftrightarrow> ctx_channel c = INTERNAL"

subsection \<open>The namespace store as an interface\<close>

text \<open>
  What a step relies on when it reads and writes the context: a read returns what was last
  written under the same step and key, and a write touches no other step's namespace.
\<close>

locale namespace_store =
  fixes lookup :: "'c \<Rightarrow> string \<Rightarrow> string \<Rightarrow> pyval \<Rightarrow> pyval"
    and store :: "string \<Rightarrow> string \<Rightarrow> pyval \<Rightarrow> 'c \<Rightarrow> 'c"
  assumes lookup_store:
    "lookup (store s k v c) s' k' dflt = (if s' = s \<and> k' = k then v else lookup c s' k' dflt)"
begin

definition store_all :: "string \<Rightarrow> (string \<times> pyval) list \<Rightarrow> 'c \<Rightarrow> 'c" where
  "store_all s kvs c = fold (\<lambda>(k, v). store s k v) kvs c"

lemma lookup_store_all:
  "lookup (store_all s kvs c) s' k dflt =
     (if s' = s then (case map_of (rev kvs) k of Some v \<Rightarrow> v | None \<Rightarrow> lookup c s k dflt)
      else lookup c s' k dflt)"
proof (induction kvs arbitrary: c)
  case Nil
  then show ?case by (simp add: store_all_def)
next
  case (Cons kv kvs)
  obtain k0 v0 where kv: "kv = (k0, v0)" by (cases kv)
  have "lookup (store_all s (kv # kvs) c) s' k dflt = lookup (store_all s kvs (store s k0 v0 c)) s' k dflt"
    by (simp add: store_all_def kv)
  then show ?case
    unfolding Cons.IH by (auto simp: lookup_store kv map_add_def split: option.splits)
qed

lemma store_commutes_on_lookup:
  "s \<noteq> s' \<Longrightarrow> lookup (store s k v (store s' k' v' c)) = lookup (store s' k' v' (store s k v c))"
  by (auto simp: lookup_store fun_eq_iff)

end

lemma ctx_get_set [simp]:
  "ctx_get (ctx_set s k v c) s' k' dflt = (if s' = s \<and> k' = k then v else ctx_get c s' k' dflt)"
  by (auto simp: ctx_get_def ctx_set_def ctx_get_namespace_def Let_def py_get_def split: option.splits)

interpretation ctx_store: namespace_store ctx_get ctx_set
  by unfold_locales (rule ctx_get_set)

subsection \<open>Frame lemmas\<close>

lemma ctx_set_frame [frame_simps, simp]:
  "ctx_error_code (ctx_set s k v c) = ctx_error_code c"
  "ctx_is_success (ctx_set s k v c) = ctx_is_success c"
  "ctx_executed_steps (ctx_set s k v c) = ctx_executed_steps c"
  "ctx_channel (ctx_set s k v c) = ctx_channel c"
  "ctx_tenant_id (ctx_set s k v c) = ctx_tenant_id c"
  "ctx_billing (ctx_set s k v c) = ctx_billing c"
  by (simp_all add: ctx_set_def Let_def)

lemma mark_error_fields [simp]:
  "ctx_error_code (mark_error src code msg us uc c) = Some code"
  "ctx_error_source (mark_error src code msg us uc c) = Some src"
  "ctx_error_message (mark_error src code msg us uc c) = Some msg"
  "\<not> ctx_is_success (mark_error src code msg us uc c)"
  by (simp_all add: mark_error_def Let_def split: option.splits)

lemma mark_error_get [frame_simps, simp]:
  "ctx_get (mark_error src code msg us uc c) s k d = ctx_get c s k d"
  by (simp add: mark_error_def Let_def ctx_get_def ctx_get_namespace_def split: option.splits)

lemma emit_status_frame [frame_simps, simp]:
  "ctx_error_code (emit_status now st sp sa co me c) = ctx_error_code c"
  "ctx_is_success (emit_status now st sp sa co me c) = ctx_is_success c"
  "ctx_get (emit_status now st sp sa co me c) = ctx_get c"
  by (simp_all add: emit_status_def ctx_get_def ctx_get_namespace_def fun_eq_iff)

text \<open>A repeated status is emitted once.\<close>

lemma emit_status_idem:
  "emit_status now2 st sp sa co me (emit_status now1 st sp sa co me c) =
     emit_status now1 st sp sa co me c"
  by (auto simp: emit_status_def)

text \<open>The audit record depends on no namespace: request and response bodies stay out of it.\<close>

lemma to_audit_dict_set: "to_audit_dict (ctx_set s k v c) = to_audit_dict c"
  by (simp add: to_audit_dict_def ctx_set_def Let_def)

end
