(* ===== verification/Base_Step.thy ===== *)
theory Base_Step
  imports Workflow_Context
begin

section \<open>Workflow steps\<close>

text \<open>
  src/app/services/workflow/steps/base.py: step statuses, failure actions, results,
  configuration, and the abstract step with its default hooks. A step of the source is an object
  whose subclass code may read and change anything outside the gateway, so a step of the model is
  a record of functions over an engine state: the outside world (an arbitrary type), the clock
  that \<open>time.perf_counter\<close> reads, and the context. \<open>step_execute\<close> stands for the awaited
  \<open>asyncio.wait_for(step.execute(ctx), timeout)\<close> and receives the timeout; whether the subclass
  code or the timer raised, the engine only sees the exception.
\<close>

datatype step_status = PENDING | RUNNING | SUCCESS | FAILED | SKIPPED | DEGRADED

datatype failure_action = RETRY | SKIP | DEGRADE | ABORT

record step_result =
  sr_status :: step_status
  sr_message :: "string option"
  sr_data :: "(string, pyval) dict option"
  sr_duration_ms :: rat

definition new_step_result :: "step_status \<Rightarrow> step_result" where
  "new_step_result st = \<lparr>sr_status = st, sr_message = None, sr_data = None, sr_duration_ms = 0\<rparr>"

record step_config =
  sc_timeout :: rat
  sc_max_retries :: int
  sc_retry_delay :: rat
  sc_retry_backoff :: rat
  sc_enabled :: bool
  sc_skip_on_channels :: "string list"
  sc_max_turns :: int

definition default_step_config :: step_config where
  "default_step_config =
     \<lparr>sc_timeout = 30, sc_max_retries = 0, sc_retry_delay = 1, sc_retry_backoff = 2,
      sc_enabled = True, sc_skip_on_channels = [], sc_max_turns = 10\<rparr>"

record 'w engine_state =
  es_world :: 'w
  es_clock :: rat
  es_ctx :: workflow_context

type_synonym ('w, 'a) effect = "'w engine_state \<Rightarrow> (exn + 'a) \<times> 'w engine_state"

record 'w base_step =
  step_name :: string
  step_depends_on :: "string list"
  step_config_of :: step_config
  step_retry_on :: "exn \<Rightarrow> bool"
  step_execute :: "rat \<Rightarrow> ('w, step_result) effect"
  step_on_failure :: "exn \<Rightarrow> int \<Rightarrow> ('w, failure_action) effect"
  step_on_skip :: "('w, unit) effect"
  step_on_degrade :: "exn \<Rightarrow> ('w, step_result) effect"
  step_should_skip :: "workflow_context \<Rightarrow> bool"

subsection \<open>The default hooks of the abstract step\<close>

definition base_on_failure :: "step_config \<Rightarrow> (exn \<Rightarrow> bool) \<Rightarrow> exn \<Rightarrow> int \<Rightarrow>
    ('w, failure_action) effect" where
  "base_on_failure cfg retry_on err attempt s =
     (Inr (if retry_on err \<and> attempt \<le> sc_max_retries cfg then RETRY else ABORT), s)"

definition base_on_skip :: "('w, unit) effect" where
  "base_on_skip s = (Inr (), s)"

definition base_on_degrade :: "string \<Rightarrow> exn \<Rightarrow> ('w, step_result) effect" where
  "base_on_degrade nm err s =
     (Inr ((new_step_result DEGRADED)
        \<lparr>sr_message := Some (''Step '' @ nm @ '' degraded: '' @ exn_str err)\<rparr>), s)"

definition base_should_skip :: "step_config \<Rightarrow> workflow_context \<Rightarrow> bool" where
  "base_should_skip cfg c =
     (if \<not> sc_enabled cfg then True
      else if channel_value (ctx_channel c) \<in> set (sc_skip_on_channels cfg) then True
      else False)"

text \<open>A subclass that overrides nothing but \<open>name\<close>, \<open>depends_on\<close>, \<open>retry_on\<close> and \<open>execute\<close>.\<close>

definition make_step :: "string \<Rightarrow> string list \<Rightarrow> (exn \<Rightarrow> bool) \<Rightarrow>
    (rat \<Rightarrow> ('w, step_result) effect) \<Rightarrow> step_config option \<Rightarrow> 'w base_step" where
  "make_step nm deps retry_on run cfg =
     (let conf = (case cfg of None \<Rightarrow> default_step_config | Some c \<Rightarrow> c)
      in \<lparr>step_name = nm, step_depends_on = deps, step_config_of = conf,
          step_retry_on = retry_on, step_execute = run,
          step_on_failure = base_on_failure conf retry_on, step_on_skip = base_on_skip,
          step_on_degrade = base_on_degrade nm, step_should_skip = base_should_skip conf\<rparr>)"

lemma base_on_failure_retry_bound:
  "base_on_failure cfg ro err attempt s = (Inr RETRY, s') \<Longrightarrow> attempt \<le> sc_max_retries cfg \<and> s' = s"
  by (auto simp: base_on_failure_def split: if_splits)

end
