(* ===== verification/Step_Graph.thy ===== *)
theory Step_Graph
  imports Prelude
begin

section \<open>The dependency graph of a workflow\<close>

text \<open>
  The two graph algorithms of \<open>OrchestrationEngine\<close> (src/app/services/orchestrator/engine.py):
  the depth-first search of \<open>_validate_dag\<close> that rejects unknown and cyclic dependencies, and
  Kahn's layering of \<open>_get_execution_layers\<close>. A graph is the projection of the engine's ordered
  dictionary \<open>self.steps\<close> to \<open>name -> depends_on\<close>. Accepted graphs are characterised exactly
  (known dependencies and an acyclic dependency relation), a reported cycle is a real one, and
  the layers of an accepted graph enumerate every step once, after all its dependencies.
\<close>

type_synonym 'a dep_graph = "('a, 'a list) dict"

definition deps_of :: "'a dep_graph \<Rightarrow> 'a \<Rightarrow> 'a list" where
  "deps_of g n = (case dget g n of None \<Rightarrow> [] | Some ds \<Rightarrow> ds)"

definition nodes :: "'a dep_graph \<Rightarrow> 'a set" where
  "nodes g = set (dkeys g)"

text \<open>\<open>(d, n) \<in> dep_rel g\<close> reads: step \<open>n\<close> waits for step \<open>d\<close>.\<close>

definition dep_rel :: "'a dep_graph \<Rightarrow> ('a \<times> 'a) set" where
  "dep_rel g = {(d, n). n \<in> nodes g \<and> d \<in> set (deps_of g n)}"

definition deps_known :: "'a dep_graph \<Rightarrow> bool" where
  "deps_known g \<longleftrightarrow> (\<forall>n \<in> set (dkeys g). \<forall>d \<in> set (deps_of g n). d \<in> set (dkeys g))"

subsection \<open>Depth-first search for cycles\<close>

datatype color = WHITE | GRAY | BLACK

datatype 'a dag_error = UnknownDependency 'a 'a | Cyclic "'a list" | OutOfFuel

type_synonym 'a dfs_state = "('a \<Rightarrow> color) \<times> 'a list"

text \<open>
  The body of the loop over \<open>depends_on\<close>, with the recursive call as a parameter. The inner
  function of the source never returns True, so its result is the updated colours and path.
\<close>

fun visit_deps :: "('a \<Rightarrow> 'a dfs_state \<Rightarrow> 'a dag_error + 'a dfs_state) \<Rightarrow> 'a list \<Rightarrow>
    'a dfs_state \<Rightarrow> 'a dag_error + 'a dfs_state" where
  "visit_deps rec [] st = Inr st"
| "visit_deps rec (d # ds) (color, path) =
     (if color d = GRAY then Inl (Cyclic (drop (index_of path d) path @ [d]))
      else if color d = WHITE
        then (case rec d (color, path) of Inl e \<Rightarrow> Inl e | Inr st \<Rightarrow> visit_deps rec ds st)
      else visit_deps rec ds (color, path))"

text \<open>The fuel bounds the recursion depth; the number of steps plus one is always enough.\<close>

fun dfs :: "nat \<Rightarrow> 'a dep_graph \<Rightarrow> 'a \<Rightarrow> 'a dfs_state \<Rightarrow> 'a dag_error + 'a dfs_state" where
  "dfs 0 g node st = Inl OutOfFuel"
| "dfs (Suc fuel) g node (color, path) =
     (case visit_deps (dfs fuel g) (deps_of g node) (color(node := GRAY), path @ [node]) of
        Inl e \<Rightarrow> Inl e
      | Inr (color', path') \<Rightarrow> Inr (color'(node := BLACK), butlast path'))"

fun dfs_all :: "nat \<Rightarrow> 'a dep_graph \<Rightarrow> 'a list \<Rightarrow> 'a dfs_state \<Rightarrow> 'a dag_error + 'a dfs_state" where
  "dfs_all fuel g [] st = Inr st"
| "dfs_all fuel g (n # ns) (color, path) =
     (if color n = WHITE
      then (case dfs fuel g n (color, path) of Inl e \<Rightarrow> Inl e | Inr st \<Rightarrow> dfs_all fuel g ns st)
      else dfs_all fuel g ns (color, path))"

text \<open>The first unknown dependency in iteration order, as the nested loops meet it.\<close>

fun first_unknown :: "'a dep_graph \<Rightarrow> 'a list \<Rightarrow> ('a \<times> 'a) option" where
  "first_unknown g [] = None"
| "first_unknown g (n # ns) =
     (case find (\<lambda>d. d \<notin> set (dkeys g)) (deps_of g n) of
        Some d \<Rightarrow> Some (n, d)
      | None \<Rightarrow> first_unknown g ns)"

definition validate_dag :: "'a dep_graph \<Rightarrow> 'a dag_error + unit" where
  "validate_dag g =
     (case first_unknown g (dkeys g) of
        Some (n, d) \<Rightarrow> Inl (UnknownDependency n d)
      | None \<Rightarrow>
          (case dfs_all (Suc (length g)) g (dkeys g) (\<lambda>_. WHITE, []) of
             Inl e \<Rightarrow> Inl e
           | Inr _ \<Rightarrow> Inr ()))"

subsection \<open>Correctness of the search\<close>

lemma first_unknown_None:
  "first_unknown g ns = None \<longleftrightarrow> (\<forall>n \<in> set ns. \<forall>d \<in> set (deps_of g n). d \<in> set (dkeys g))"
  by (induction ns) (auto simp: find_None_iff find_Some_iff split: option.splits)

lemma first_unknown_Some:
  "first_unknown g ns = Some (n, d) \<Longrightarrow> n \<in> set ns \<and> d \<in> set (deps_of g n) \<and> d \<notin> set (dkeys g)"
  by (induction ns) (auto simp: find_Some_iff split: option.splits)

text \<open>A chain follows dependency edges; a cycle is a chain that ends where it starts.\<close>

definition chain :: "'a dep_graph \<Rightarrow> 'a list \<Rightarrow> bool" where
  "chain g p \<longleftrightarrow> (\<forall>i. Suc i < length p \<longrightarrow> p ! Suc i \<in> set (deps_of g (p ! i))) \<and> set p \<subseteq> nodes g"

definition is_cycle :: "'a dep_graph \<Rightarrow> 'a list \<Rightarrow> bool" where
  "is_cycle g c \<longleftrightarrow> 2 \<le> length c \<and> hd c = last c \<and> chain g c"

lemma chain_Nil [simp]: "chain g []"
  by (simp add: chain_def)

lemma chain_snoc:
  assumes "chain g p" and "n \<in> nodes g" and "p \<noteq> [] \<Longrightarrow> n \<in> set (deps_of g (last p))"
  shows "chain g (p @ [n])"
proof -
  have "n \<in> set (deps_of g (p ! i))" if "Suc i = length p" for i
  proof -
    from that have ne: "p \<noteq> []" by auto
    moreover from that have "length p - 1 = i" by simp
    ultimately have "last p = p ! i" by (simp add: last_conv_nth)
    with assms(3) ne show ?thesis by simp
  qed
  with assms(1,2) show ?thesis by (auto simp: chain_def nth_append less_Suc_eq)
qed

lemma chain_drop: "chain g p \<Longrightarrow> chain g (drop k p)"
  by (auto simp: chain_def dest: in_set_dropD)

lemma chain_trancl:
  assumes "chain g p" and "i < j" and "j < length p"
  shows "(p ! j, p ! i) \<in> (dep_rel g)\<^sup>+"
  using assms(2,3)
proof (induction j)
  case 0
  then show ?case by simp
next
  case (Suc j)
  have "p ! j \<in> nodes g" using assms(1) Suc.prems by (auto simp: chain_def)
  then have edge: "(p ! Suc j, p ! j) \<in> dep_rel g"
    using assms(1) Suc.prems by (auto simp: chain_def dep_rel_def)
  show ?case
  proof (cases "i = j")
    case True
    with edge show ?thesis by auto
  next
    case False
    with Suc have "(p ! j, p ! i) \<in> (dep_rel g)\<^sup>+" by simp
    with edge show ?thesis by (rule trancl_into_trancl2)
  qed
qed

lemma cycle_not_acyclic: "is_cycle g c \<Longrightarrow> \<not> acyclic (dep_rel g)"
proof
  assume c: "is_cycle g c" and a: "acyclic (dep_rel g)"
  then have "(c ! (length c - 1), c ! 0) \<in> (dep_rel g)\<^sup>+"
    by (intro chain_trancl) (auto simp: is_cycle_def)
  moreover have "c ! (length c - 1) = c ! 0"
  proof -
    from c have "c \<noteq> []" and "hd c = last c" by (auto simp: is_cycle_def)
    then show ?thesis by (simp add: hd_conv_nth last_conv_nth)
  qed
  ultimately show False using a by (auto simp: acyclic_def)
qed

lemma finite_dep_rel: "deps_known g \<Longrightarrow> finite (dep_rel g)"
proof (rule finite_subset)
  assume "deps_known g"
  then show "dep_rel g \<subseteq> nodes g \<times> nodes g"
    by (auto simp: dep_rel_def deps_known_def nodes_def)
qed (simp add: nodes_def)

text \<open>
  The search invariant: the grey steps are exactly the current path, which is a chain, and
  every black step is accessible along its dependencies.
\<close>

definition dfs_inv :: "'a dep_graph \<Rightarrow> 'a dfs_state \<Rightarrow> bool" where
  "dfs_inv g st \<longleftrightarrow>
     (case st of (color, path) \<Rightarrow>
        distinct path \<and> set path = {n. color n = GRAY} \<and> chain g path \<and>
        (\<forall>n. color n = BLACK \<longrightarrow> n \<in> Wellfounded.acc (dep_rel g)))"

definition whites :: "'a dep_graph \<Rightarrow> ('a \<Rightarrow> color) \<Rightarrow> 'a set" where
  "whites g color = {n \<in> nodes g. color n = WHITE}"

lemma finite_whites [simp]: "finite (whites g color)"
  by (simp add: whites_def nodes_def)

text \<open>What one call promises: the path is restored, only white steps change, to black.\<close>

definition dfs_post :: "'a dep_graph \<Rightarrow> 'a dfs_state \<Rightarrow> 'a set \<Rightarrow>
    'a dag_error + 'a dfs_state \<Rightarrow> bool" where
  "dfs_post g st ns r \<longleftrightarrow>
     (case r of
        Inl e \<Rightarrow> \<exists>c. e = Cyclic c \<and> is_cycle g c
      | Inr st' \<Rightarrow> dfs_inv g st' \<and> snd st' = snd st \<and>
          (\<forall>n. fst st n \<noteq> WHITE \<longrightarrow> fst st' n = fst st n) \<and>
          whites g (fst st') \<subseteq> whites g (fst st) \<and>
          (\<forall>n \<in> ns. fst st' n = BLACK))"

definition dfs_ok :: "'a dep_graph \<Rightarrow> nat \<Rightarrow>
    ('a \<Rightarrow> 'a dfs_state \<Rightarrow> 'a dag_error + 'a dfs_state) \<Rightarrow> bool" where
  "dfs_ok g k rec \<longleftrightarrow>
     (\<forall>n color path. dfs_inv g (color, path) \<longrightarrow> n \<in> nodes g \<longrightarrow> color n = WHITE \<longrightarrow>
        (path \<noteq> [] \<longrightarrow> n \<in> set (deps_of g (last path))) \<longrightarrow> card (whites g color) \<le> k \<longrightarrow>
        dfs_post g (color, path) {n} (rec n (color, path)))"

lemma dfs_okD:
  assumes "dfs_ok g k rec" and "dfs_inv g (color, path)" and "n \<in> nodes g" and "color n = WHITE"
    and "path \<noteq> [] \<Longrightarrow> n \<in> set (deps_of g (last path))" and "card (whites g color) \<le> k"
  shows "dfs_post g (color, path) {n} (rec n (color, path))"
  using assms by (simp add: dfs_ok_def)

lemma dfs_inv_iff:
  "dfs_inv g (color, path) \<longleftrightarrow> distinct path \<and> set path = {n. color n = GRAY} \<and> chain g path \<and>
     (\<forall>n. color n = BLACK \<longrightarrow> n \<in> Wellfounded.acc (dep_rel g))"
  by (simp add: dfs_inv_def)

lemma dfs_inv_leave:
  assumes "dfs_inv g (color', path @ [n])" and "dfs_inv g (color, path)" and "n \<notin> set path"
    and "n \<in> Wellfounded.acc (dep_rel g)"
  shows "dfs_inv g (color'(n := BLACK), path)"
proof -
  have "set path = {m. color' m = GRAY} - {n}"
    using assms(1,3) by (auto simp: dfs_inv_iff)
  also have "\<dots> = {m. (color'(n := BLACK)) m = GRAY}" by auto
  finally have grey: "set path = {m. (color'(n := BLACK)) m = GRAY}" .
  have black: "m \<in> Wellfounded.acc (dep_rel g)" if "(color'(n := BLACK)) m = BLACK" for m
    using that assms(1,4) by (cases "m = n") (simp_all add: dfs_inv_iff)
  from assms(2) grey black show ?thesis unfolding dfs_inv_iff by blast
qed

lemma grey_is_cycle:
  assumes inv: "dfs_inv g (color, path)" and "color d = GRAY" and "d \<in> nodes g"
    and ne: "path \<noteq> []" and dep: "d \<in> set (deps_of g (last path))"
  shows "is_cycle g (drop (index_of path d) path @ [d])"
proof -
  from inv assms(2) have d: "d \<in> set path" by (auto simp: dfs_inv_def)
  then obtain ys where ys: "drop (index_of path d) path = d # ys"
    using drop_index_of by metis
  have "index_of path d < length path" using d by (rule index_of_less)
  then have "last (drop (index_of path d) path) = last path" by simp
  moreover have "chain g (drop (index_of path d) path)"
    using inv by (auto simp: dfs_inv_def intro: chain_drop)
  ultimately have "chain g (drop (index_of path d) path @ [d])"
    using assms(3) dep ys by (intro chain_snoc) auto
  with ys show ?thesis by (simp add: is_cycle_def)
qed

lemma visit_deps_post:
  assumes ok: "dfs_ok g k rec" and "set ds \<subseteq> set (deps_of g (last path))" and "path \<noteq> []"
    and "set ds \<subseteq> nodes g" and "dfs_inv g (color, path)" and "card (whites g color) \<le> k"
  shows "dfs_post g (color, path) (set ds) (visit_deps rec ds (color, path))"
  using assms(2-)
proof (induction ds arbitrary: color)
  case Nil
  then show ?case by (simp add: dfs_post_def)
next
  case (Cons d ds)
  show ?case
  proof (cases "color d")
    case GRAY
    have "is_cycle g (drop (index_of path d) path @ [d])"
      using Cons.prems by (intro grey_is_cycle [OF Cons.prems(4) GRAY]) auto
    with GRAY show ?thesis by (simp add: dfs_post_def)
  next
    case BLACK
    with Cons.IH [of color] Cons.prems show ?thesis
      by (auto simp: dfs_post_def split: sum.splits)
  next
    case WHITE
    have post: "dfs_post g (color, path) {d} (rec d (color, path))"
      using Cons.prems by (intro dfs_okD [OF ok] WHITE) auto
    show ?thesis
    proof (cases "rec d (color, path)")
      case (Inl e)
      with WHITE post show ?thesis by (simp add: dfs_post_def)
    next
      case (Inr st)
      then obtain color' where st: "st = (color', path)"
        using post by (cases st) (auto simp: dfs_post_def)
      with post Inr have c': "dfs_inv g (color', path)" "color' d = BLACK"
        "whites g color' \<subseteq> whites g color" "\<forall>n. color n \<noteq> WHITE \<longrightarrow> color' n = color n"
        by (auto simp: dfs_post_def)
      from c'(3) have "card (whites g color') \<le> card (whites g color)"
        by (simp add: card_mono)
      with Cons.IH [of color'] Cons.prems c'(1)
      have "dfs_post g (color', path) (set ds) (visit_deps rec ds (color', path))" by simp
      with WHITE Inr st c' show ?thesis
        by (auto simp: dfs_post_def split: sum.splits)
    qed
  qed
qed

lemma dfs_inv_enter:
  assumes "dfs_inv g (color, path)" and "n \<in> nodes g" and "color n = WHITE"
    and "path \<noteq> [] \<longrightarrow> n \<in> set (deps_of g (last path))"
  shows "dfs_inv g (color(n := GRAY), path @ [n])"
  using assms by (auto simp: dfs_inv_def intro!: chain_snoc)

lemma dfs_ok_fuel:
  assumes known: "deps_known g"
  shows "dfs_ok g fuel (dfs (Suc fuel) g)"
proof (induction fuel)
  case 0
  have "whites g color \<noteq> {}" if "n \<in> nodes g" and "color n = WHITE" for color :: "'a \<Rightarrow> color" and n
    using that by (auto simp: whites_def)
  then show ?case by (auto simp: dfs_ok_def card_eq_0_iff)
next
  case (Suc fuel)
  show ?case
    unfolding dfs_ok_def
  proof (intro allI impI)
    fix n and color :: "'a \<Rightarrow> color" and path
    let ?c = "color(n := GRAY)"
    assume inv: "dfs_inv g (color, path)" and n: "n \<in> nodes g" and w: "color n = WHITE"
      and dep: "path \<noteq> [] \<longrightarrow> n \<in> set (deps_of g (last path))"
      and card: "card (whites g color) \<le> Suc fuel"
    have sub: "whites g ?c = whites g color - {n}" by (auto simp: whites_def)
    have "n \<in> whites g color" using n w by (simp add: whites_def)
    then have "card (whites g ?c) \<le> fuel"
      using card by (simp add: sub)
    then have post: "dfs_post g (?c, path @ [n]) (set (deps_of g n))
        (visit_deps (dfs (Suc fuel) g) (deps_of g n) (?c, path @ [n]))"
      using known n dfs_inv_enter [OF inv n w dep]
      by (intro visit_deps_post [OF Suc.IH]) (auto simp: deps_known_def nodes_def)
    show "dfs_post g (color, path) {n} (dfs (Suc (Suc fuel)) g n (color, path))"
    proof (cases "visit_deps (dfs (Suc fuel) g) (deps_of g n) (?c, path @ [n])")
      case (Inl e)
      with post show ?thesis by (simp add: dfs_post_def)
    next
      case (Inr st)
      then obtain color' where st: "st = (color', path @ [n])"
        using post by (cases st) (auto simp: dfs_post_def)
      with post Inr have p: "dfs_inv g (color', path @ [n])" "\<forall>d \<in> set (deps_of g n). color' d = BLACK"
        "whites g color' \<subseteq> whites g ?c" "\<forall>m. ?c m \<noteq> WHITE \<longrightarrow> color' m = ?c m"
        by (auto simp: dfs_post_def)
      have acc: "n \<in> Wellfounded.acc (dep_rel g)"
      proof (rule accI)
        fix d assume "(d, n) \<in> dep_rel g"
        then have "color' d = BLACK" using p(2) by (simp add: dep_rel_def)
        then show "d \<in> Wellfounded.acc (dep_rel g)" using p(1) by (simp add: dfs_inv_iff)
      qed
      have "n \<notin> set path" using inv w by (simp add: dfs_inv_iff)
      then have "dfs_inv g (color'(n := BLACK), path)"
        using p(1) inv acc by (intro dfs_inv_leave)
      moreover have "\<forall>m. color m \<noteq> WHITE \<longrightarrow> (color'(n := BLACK)) m = color m"
        using p(4) w by auto
      moreover have "whites g (color'(n := BLACK)) \<subseteq> whites g color"
        using p(3) sub by (auto simp: whites_def)
      ultimately show ?thesis
        using Inr st by (simp add: dfs_post_def)
    qed
  qed
qed

lemma dfs_all_post:
  assumes known: "deps_known g" and "set ns \<subseteq> nodes g" and "dfs_inv g (color, [])"
    and "card (whites g color) \<le> fuel"
  shows "dfs_post g (color, []) (set ns) (dfs_all (Suc fuel) g ns (color, []))"
  using assms(2-)
proof (induction ns arbitrary: color)
  case Nil
  then show ?case by (simp add: dfs_post_def)
next
  case (Cons n ns)
  show ?case
  proof (cases "color n = WHITE")
    case False
    from Cons.prems(2) have "color n \<noteq> GRAY" by (auto simp: dfs_inv_def)
    with False have "color n = BLACK" by (cases "color n") auto
    with Cons.IH [of color] Cons.prems show ?thesis
      by (auto simp: dfs_post_def split: sum.splits)
  next
    case True
    have post: "dfs_post g (color, []) {n} (dfs (Suc fuel) g n (color, []))"
      using Cons.prems by (intro dfs_okD [OF dfs_ok_fuel [OF known]] True) auto
    show ?thesis
    proof (cases "dfs (Suc fuel) g n (color, [])")
      case (Inl e)
      with True post show ?thesis by (simp add: dfs_post_def)
    next
      case (Inr st)
      then obtain color' where st: "st = (color', [])"
        using post by (cases st) (auto simp: dfs_post_def)
      with post Inr have c': "dfs_inv g (color', [])" "color' n = BLACK"
        "whites g color' \<subseteq> whites g color" "\<forall>m. color m \<noteq> WHITE \<longrightarrow> color' m = color m"
        by (auto simp: dfs_post_def)
      from c'(3) have "card (whites g color') \<le> card (whites g color)" by (simp add: card_mono)
      with Cons.IH [of color'] Cons.prems c'(1)
      have "dfs_post g (color', []) (set ns) (dfs_all (Suc fuel) g ns (color', []))" by simp
      with True Inr st c' show ?thesis by (auto simp: dfs_post_def split: sum.splits)
    qed
  qed
qed

lemma dfs_run_post:
  assumes "deps_known g"
  shows "dfs_post g (\<lambda>_. WHITE, []) (nodes g)
    (dfs_all (Suc (length g)) g (dkeys g) (\<lambda>_. WHITE, []))"
proof -
  have "card (whites g (\<lambda>_. WHITE)) \<le> length (dkeys g)"
    by (simp add: whites_def nodes_def del: set_map length_map) (rule card_length)
  then show ?thesis
    using dfs_all_post [OF assms, of "dkeys g" "\<lambda>_. WHITE" "length g"]
    by (simp add: dfs_inv_def nodes_def)
qed

lemma validate_dag_cases:
  "case validate_dag g of
     Inr _ \<Rightarrow> deps_known g \<and> acyclic (dep_rel g)
   | Inl (UnknownDependency n d) \<Rightarrow> n \<in> nodes g \<and> d \<in> set (deps_of g n) \<and> d \<notin> nodes g
   | Inl (Cyclic c) \<Rightarrow> deps_known g \<and> is_cycle g c
   | Inl OutOfFuel \<Rightarrow> False"
proof (cases "first_unknown g (dkeys g)")
  case (Some nd)
  then show ?thesis
    using first_unknown_Some [of g "dkeys g"]
    by (cases nd) (auto simp: validate_dag_def nodes_def)
next
  case None
  then have known: "deps_known g" by (simp add: deps_known_def first_unknown_None)
  note post = dfs_run_post [OF known]
  show ?thesis
  proof (cases "dfs_all (Suc (length g)) g (dkeys g) (\<lambda>_. WHITE, [])")
    case (Inl e)
    with None post known show ?thesis by (auto simp: validate_dag_def dfs_post_def)
  next
    case (Inr st)
    have "x \<in> Wellfounded.acc (dep_rel g)" for x
    proof (cases "x \<in> nodes g")
      case True
      with post Inr have "fst st x = BLACK" and "dfs_inv g st"
        by (auto simp: dfs_post_def)
      then show ?thesis by (cases st) (simp add: dfs_inv_iff)
    next
      case False
      then show ?thesis by (auto simp: dep_rel_def intro: accI)
    qed
    then have "acyclic (dep_rel g)" by (intro wf_acyclic acc_wfI allI)
    moreover have "validate_dag g = Inr ()" using None Inr by (simp add: validate_dag_def)
    ultimately show ?thesis using known by simp
  qed
qed

lemma validate_dag_iff:
  "validate_dag g = Inr () \<longleftrightarrow> deps_known g \<and> acyclic (dep_rel g)"
proof
  assume "validate_dag g = Inr ()"
  then show "deps_known g \<and> acyclic (dep_rel g)" using validate_dag_cases [of g] by simp
next
  assume a: "deps_known g \<and> acyclic (dep_rel g)"
  show "validate_dag g = Inr ()"
    using validate_dag_cases [of g] a cycle_not_acyclic [of g]
    by (auto simp: deps_known_def nodes_def split: sum.splits dag_error.splits)
qed

subsection \<open>Kahn's layering\<close>

text \<open>
  The two nested loops that fill \<open>in_degree\<close> and \<open>dependents\<close> (both default dictionaries, so
  an absent key reads as zero and as the empty list).
\<close>

definition add_edge :: "'a \<Rightarrow> 'a \<Rightarrow> ('a \<Rightarrow> int) \<times> ('a \<Rightarrow> 'a list) \<Rightarrow>
    ('a \<Rightarrow> int) \<times> ('a \<Rightarrow> 'a list)" where
  "add_edge name dep st =
     (case st of (indeg, dependents) \<Rightarrow>
        (indeg(name := indeg name + 1), dependents(dep := dependents dep @ [name])))"

definition build_graph :: "'a dep_graph \<Rightarrow> ('a \<Rightarrow> int) \<times> ('a \<Rightarrow> 'a list)" where
  "build_graph g =
     fold (\<lambda>name. fold (add_edge name) (deps_of g name)) (dkeys g) (\<lambda>_. 0, \<lambda>_. [])"

text \<open>The inner loops of the while body: each neighbour loses one, and joins the next layer at zero.\<close>

definition relax :: "'a \<Rightarrow> ('a \<Rightarrow> int) \<times> 'a list \<Rightarrow> ('a \<Rightarrow> int) \<times> 'a list" where
  "relax neighbor st =
     (case st of (indeg, next_queue) \<Rightarrow>
        let k = indeg neighbor - 1
        in (indeg(neighbor := k), if k = 0 then next_queue @ [neighbor] else next_queue))"

definition relax_layer :: "('a \<Rightarrow> 'a list) \<Rightarrow> 'a list \<Rightarrow> ('a \<Rightarrow> int) \<Rightarrow> ('a \<Rightarrow> int) \<times> 'a list" where
  "relax_layer dependents queue indeg =
     fold (\<lambda>node. fold relax (dependents node)) queue (indeg, [])"

text \<open>Both folds in closed form.\<close>

lemma fold_add_edge:
  "fold (add_edge n) ds (indeg, dependents) =
     (indeg(n := indeg n + int (length ds)), \<lambda>d. dependents d @ replicate (count_list ds d) n)"
proof (induction ds arbitrary: indeg dependents)
  case Nil
  then show ?case by simp
next
  case (Cons d ds)
  have "fold (add_edge n) (d # ds) (indeg, dependents) =
      fold (add_edge n) ds (indeg(n := indeg n + 1), dependents(d := dependents d @ [n]))"
    by (simp add: add_edge_def)
  also have "\<dots> = (indeg(n := indeg n + int (length (d # ds))),
      \<lambda>x. dependents x @ replicate (count_list (d # ds) x) n)"
    unfolding Cons.IH by (auto simp: fun_eq_iff replicate_append_same)
  finally show ?case .
qed

lemma fold_add_edges:
  "fold (\<lambda>n. fold (add_edge n) (h n)) ns (indeg, dependents) =
     (\<lambda>n. indeg n + int (count_list ns n * length (h n)),
      \<lambda>d. dependents d @ concat (map (\<lambda>n. replicate (count_list (h n) d) n) ns))"
proof (induction ns arbitrary: indeg dependents)
  case Nil
  then show ?case by simp
next
  case (Cons n ns)
  have "fold (\<lambda>n. fold (add_edge n) (h n)) (n # ns) (indeg, dependents) =
      fold (\<lambda>n. fold (add_edge n) (h n)) ns (fold (add_edge n) (h n) (indeg, dependents))"
    by simp
  also have "\<dots> = (\<lambda>m. indeg m + int (count_list (n # ns) m * length (h m)),
      \<lambda>d. dependents d @ concat (map (\<lambda>n. replicate (count_list (h n) d) n) (n # ns)))"
    unfolding fold_add_edge Cons.IH by (auto simp: fun_eq_iff algebra_simps)
  finally show ?case .
qed

lemma count_list_distinct: "distinct xs \<Longrightarrow> count_list xs x = (if x \<in> set xs then 1 else 0)"
  by (induction xs) auto

definition dependents_of :: "'a dep_graph \<Rightarrow> 'a \<Rightarrow> 'a list" where
  "dependents_of g d = concat (map (\<lambda>n. replicate (count_list (deps_of g n) d) n) (dkeys g))"

lemma build_graph_eq:
  "dict_wf g \<Longrightarrow> build_graph g =
     (\<lambda>n. if n \<in> nodes g then int (length (deps_of g n)) else 0, dependents_of g)"
  unfolding build_graph_def fold_add_edges
  by (auto simp: count_list_distinct dict_wf_def nodes_def dependents_of_def fun_eq_iff)

lemma dependents_keys: "set (snd (build_graph g) d) \<subseteq> set (dkeys g)"
  unfolding build_graph_def fold_add_edges by force

text \<open>A run of relaxations over one flat list of neighbours.\<close>

lemma relax_pair [simp]:
  "relax m (indeg, acc) =
     (indeg(m := indeg m - 1), if indeg m = 1 then acc @ [m] else acc)"
  by (simp add: relax_def Let_def)

lemma fold_fold_concat: "fold (\<lambda>x. fold f (h x)) xs s = fold f (concat (map h xs)) s"
  by (induction xs arbitrary: s) simp_all

lemma relax_layer_flat:
  "relax_layer dependents queue indeg = fold relax (concat (map dependents queue)) (indeg, [])"
  by (simp add: relax_layer_def fold_fold_concat)

lemma fold_relax_indeg:
  "fst (fold relax ns (indeg, acc)) = (\<lambda>n. indeg n - int (count_list ns n))"
  by (induction ns arbitrary: indeg acc) (auto simp: fun_eq_iff)

lemma fold_relax_queue:
  "n \<in> set (snd (fold relax ns (indeg, acc))) \<longleftrightarrow>
     n \<in> set acc \<or> 0 < indeg n \<and> indeg n \<le> int (count_list ns n)"
  by (induction ns arbitrary: indeg acc) (auto simp del: fun_upd_apply simp add: fun_upd_def)

lemma fold_relax_distinct:
  "distinct acc \<Longrightarrow> \<forall>n \<in> set acc. indeg n \<le> 0 \<Longrightarrow> distinct (snd (fold relax ns (indeg, acc)))"
proof (induction ns arbitrary: indeg acc)
  case Nil
  then show ?case by simp
next
  case (Cons m ns)
  show ?case
  proof (cases "indeg m = 1")
    case True
    with Cons.prems(2) have "m \<notin> set acc" by auto
    with True Cons.prems have "distinct (snd (fold relax ns (indeg(m := indeg m - 1), acc @ [m])))"
      by (intro Cons.IH) auto
    with True show ?thesis by simp
  next
    case False
    have "distinct (snd (fold relax ns (indeg(m := indeg m - 1), acc)))"
      using Cons.prems by (intro Cons.IH) auto
    with False show ?thesis by simp
  qed
qed

text \<open>
  The while loop. It ends because every non-empty next layer consists of steps whose in-degree
  was positive and is positive no more.
\<close>

function kahn :: "'a dep_graph \<Rightarrow> 'a list \<Rightarrow> ('a \<Rightarrow> int) \<Rightarrow> 'a list list" where
  "kahn g queue indeg =
     (if queue = [] then []
      else (case relax_layer (snd (build_graph g)) queue indeg of
              (indeg', next_queue) \<Rightarrow> queue # kahn g next_queue indeg'))"
  by pat_completeness auto

lemma relax_layer_measure:
  assumes eq: "relax_layer (snd (build_graph g)) queue indeg = (indeg', next_queue)"
  shows "card {n \<in> set (dkeys g). 0 < indeg' n} \<le> card {n \<in> set (dkeys g). 0 < indeg n}"
    and "next_queue \<noteq> [] \<Longrightarrow>
      card {n \<in> set (dkeys g). 0 < indeg' n} < card {n \<in> set (dkeys g). 0 < indeg n}"
proof -
  let ?ns = "concat (map (snd (build_graph g)) queue)"
  let ?P = "\<lambda>indeg :: 'a \<Rightarrow> int. {n \<in> set (dkeys g). 0 < indeg n}"
  have r: "fold relax ?ns (indeg, []) = (indeg', next_queue)"
    using eq by (simp add: relax_layer_flat)
  have indeg': "indeg' = (\<lambda>n. indeg n - int (count_list ?ns n))"
    using fold_relax_indeg [of ?ns indeg "[]"] by (simp add: r)
  have sub: "?P indeg' \<subseteq> ?P indeg" by (auto simp: indeg')
  then show "card (?P indeg') \<le> card (?P indeg)" by (intro card_mono) auto
  assume nq: "next_queue \<noteq> []"
  show "card (?P indeg') < card (?P indeg)"
  proof (rule psubset_card_mono)
    from nq have m: "hd next_queue \<in> set next_queue" by simp
    have pos: "0 < indeg (hd next_queue) \<and> indeg (hd next_queue) \<le> int (count_list ?ns (hd next_queue))"
      using fold_relax_queue [of "hd next_queue" ?ns indeg "[]"] m by (simp add: r)
    then have "count_list ?ns (hd next_queue) \<noteq> 0" by auto
    then have "hd next_queue \<in> set ?ns" by (simp add: count_list_0_iff)
    then have "hd next_queue \<in> set (dkeys g)" using dependents_keys [of g] by auto
    with pos have "hd next_queue \<in> ?P indeg" and "hd next_queue \<notin> ?P indeg'"
      by (simp_all add: indeg')
    with sub show "?P indeg' \<subset> ?P indeg" by blast
  qed simp
qed

termination kahn
proof (relation "measure (\<lambda>(g, queue, indeg).
    card {n \<in> set (dkeys g). 0 < indeg n} + (if queue = [] then 0 else 1))", goal_cases)
  case 1
  show ?case by simp
next
  case (2 g queue indeg indeg' next_queue)
  then have "relax_layer (snd (build_graph g)) queue indeg = (indeg', next_queue)" by simp
  from relax_layer_measure [OF this] 2(1) show ?case by auto
qed

declare kahn.simps [simp del]

definition get_execution_layers :: "'a dep_graph \<Rightarrow> 'a list list" where
  "get_execution_layers g =
     (let indeg = fst (build_graph g)
      in kahn g (filter (\<lambda>n. indeg n = 0) (dkeys g)) indeg)"

subsection \<open>Correctness of the layering\<close>

text \<open>
  With \<open>P\<close> the steps already placed, the in-degree of a step counts its dependencies outside
  \<open>P\<close>, and the queue holds the unplaced steps for which none is left.
\<close>

definition pending_deps :: "'a dep_graph \<Rightarrow> 'a set \<Rightarrow> 'a \<Rightarrow> int" where
  "pending_deps g P n = (if n \<in> nodes g then int (length (filter (\<lambda>d. d \<notin> P) (deps_of g n))) else 0)"

definition kahn_inv :: "'a dep_graph \<Rightarrow> 'a set \<Rightarrow> 'a list \<Rightarrow> ('a \<Rightarrow> int) \<Rightarrow> bool" where
  "kahn_inv g P queue indeg \<longleftrightarrow>
     indeg = pending_deps g P \<and> distinct queue \<and>
     set queue = {n \<in> nodes g. n \<notin> P \<and> set (deps_of g n) \<subseteq> P} \<and>
     (\<forall>n \<in> nodes g \<inter> P. set (deps_of g n) \<subseteq> P)"

lemma pending_deps_zero: "n \<in> nodes g \<Longrightarrow> pending_deps g P n = 0 \<longleftrightarrow> set (deps_of g n) \<subseteq> P"
  by (auto simp: pending_deps_def filter_empty_conv)

lemma count_replicate [simp]: "count_list (replicate k x) y = (if x = y then k else 0)"
  by (induction k) auto

lemma count_dependents:
  "dict_wf g \<Longrightarrow> count_list (dependents_of g d) n =
     (if n \<in> nodes g then count_list (deps_of g n) d else 0)"
proof -
  have "count_list (concat (map (\<lambda>m. replicate (c m) m) ns)) n =
      (if n \<in> set ns then c n else 0)" if "distinct ns" for c and ns :: "'a list"
    using that by (induction ns) auto
  from this [of "dkeys g" "\<lambda>m. count_list (deps_of g m) d"] show "dict_wf g \<Longrightarrow> ?thesis"
    by (simp add: dependents_of_def dict_wf_def nodes_def)
qed

lemma count_relaxed:
  "dict_wf g \<Longrightarrow> count_list (concat (map (dependents_of g) qs)) n =
     (if n \<in> nodes g then (\<Sum>q\<leftarrow>qs. count_list (deps_of g n) q) else 0)"
  by (induction qs) (auto simp: count_dependents)

lemma pending_deps_step:
  "dict_wf g \<Longrightarrow> distinct qs \<Longrightarrow> set qs \<inter> P = {} \<Longrightarrow>
   pending_deps g P n - int (count_list (concat (map (dependents_of g) qs)) n) =
     pending_deps g (P \<union> set qs) n"
  using length_filter_Un [of qs P "deps_of g n"]
  by (simp add: pending_deps_def count_relaxed)

lemma kahn_inv_step:
  assumes wf: "dict_wf g" and inv: "kahn_inv g P queue indeg"
    and r: "relax_layer (snd (build_graph g)) queue indeg = (indeg', next_queue)"
  shows "kahn_inv g (P \<union> set queue) next_queue indeg'"
proof -
  let ?ns = "concat (map (dependents_of g) queue)" and ?P = "P \<union> set queue"
  from inv have i: "indeg = pending_deps g P" and d: "distinct queue" "set queue \<inter> P = {}"
    and q: "set queue = {n \<in> nodes g. n \<notin> P \<and> set (deps_of g n) \<subseteq> P}"
    and closed: "\<forall>n \<in> nodes g \<inter> P. set (deps_of g n) \<subseteq> P"
    by (auto simp: kahn_inv_def)
  from r wf have f: "fold relax ?ns (pending_deps g P, []) = (indeg', next_queue)"
    by (simp add: relax_layer_flat build_graph_eq i)
  have step: "pending_deps g P n - int (count_list ?ns n) = pending_deps g ?P n" for n
    using wf d by (rule pending_deps_step)
  have i': "indeg' = pending_deps g ?P"
    using fold_relax_indeg [of ?ns "pending_deps g P" "[]"] step by (simp add: f)
  have nq0: "n \<in> set next_queue \<longleftrightarrow> 0 < pending_deps g P n \<and> pending_deps g ?P n \<le> 0" for n
    using fold_relax_queue [of n ?ns "pending_deps g P" "[]"] step [of n] by (auto simp: f)
  have pos: "0 \<le> pending_deps g Q n" for Q n by (simp add: pending_deps_def)
  have out: "pending_deps g P n \<noteq> 0 \<Longrightarrow> n \<in> nodes g" for n
    by (simp add: pending_deps_def split: if_splits)
  have nq: "n \<in> set next_queue \<longleftrightarrow>
      n \<in> nodes g \<and> pending_deps g P n \<noteq> 0 \<and> pending_deps g ?P n = 0" for n
    using nq0 [of n] pos [of P n] pos [of ?P n] out [of n] by (auto simp: order_less_le)
  have "set next_queue = {n \<in> nodes g. n \<notin> ?P \<and> set (deps_of g n) \<subseteq> ?P}"
  proof (intro set_eqI)
    fix n
    have "n \<in> ?P \<longleftrightarrow> set (deps_of g n) \<subseteq> P" if "n \<in> nodes g" using that q closed by blast
    then show "n \<in> set next_queue \<longleftrightarrow> n \<in> {n \<in> nodes g. n \<notin> ?P \<and> set (deps_of g n) \<subseteq> ?P}"
      by (auto simp: nq pending_deps_zero simp del: Un_iff)
  qed
  moreover have "distinct next_queue"
    using fold_relax_distinct [of "[]" "pending_deps g P" ?ns] by (simp add: f)
  moreover have "\<forall>n \<in> nodes g \<inter> ?P. set (deps_of g n) \<subseteq> ?P" using q closed by auto
  ultimately show ?thesis using i' by (simp add: kahn_inv_def)
qed

text \<open>
  Layers built on top of \<open>P\<close>: each is duplicate free, new, and waits only for steps below it.
\<close>

fun layered :: "'a dep_graph \<Rightarrow> 'a set \<Rightarrow> 'a list list \<Rightarrow> bool" where
  "layered g P [] \<longleftrightarrow> True"
| "layered g P (l # ls) \<longleftrightarrow>
     l \<noteq> [] \<and> distinct l \<and> set l \<subseteq> nodes g - P \<and> (\<forall>n \<in> set l. set (deps_of g n) \<subseteq> P) \<and>
     layered g (P \<union> set l) ls"

lemma kahn_layered:
  assumes "dict_wf g" and "kahn_inv g P queue indeg"
  shows "layered g P (kahn g queue indeg)"
    and "\<forall>n \<in> nodes g. set (deps_of g n) \<subseteq> P \<union> set (concat (kahn g queue indeg)) \<longrightarrow>
           n \<in> P \<union> set (concat (kahn g queue indeg))"
  using assms
proof (induction g queue indeg arbitrary: P rule: kahn.induct)
  case (1 g queue indeg)
  obtain indeg' nq where r: "relax_layer (snd (build_graph g)) queue indeg = (indeg', nq)"
    by (cases "relax_layer (snd (build_graph g)) queue indeg")
  {
    case 1
    show ?case
    proof (cases "queue = []")
      case True
      then show ?thesis by (simp add: kahn.simps)
    next
      case False
      with "1.IH"(1) [OF False r [symmetric]] r 1 show ?thesis
        using kahn_inv_step [OF 1 r] by (auto simp: kahn.simps [of g queue] kahn_inv_def)
    qed
  next
    case 2
    show ?case
    proof (cases "queue = []")
      case True
      with 2 show ?thesis by (auto simp: kahn.simps kahn_inv_def)
    next
      case False
      with "1.IH"(2) [OF False r [symmetric]] r 2 show ?thesis
        using kahn_inv_step [OF 2 r] by (auto simp: kahn.simps [of g queue] Un_assoc)
    qed
  }
qed

lemma kahn_inv_init:
  "dict_wf g \<Longrightarrow> kahn_inv g {} (filter (\<lambda>n. fst (build_graph g) n = 0) (dkeys g)) (fst (build_graph g))"
  by (auto simp: kahn_inv_def build_graph_eq pending_deps_def fun_eq_iff dict_wf_def nodes_def)

lemma layers_layered: "dict_wf g \<Longrightarrow> layered g {} (get_execution_layers g)"
  using kahn_layered(1) [OF _ kahn_inv_init] by (auto simp: get_execution_layers_def Let_def)

lemma layered_subset: "layered g P ls \<Longrightarrow> set (concat ls) \<subseteq> nodes g - P"
  by (induction ls arbitrary: P) auto

lemma layered_distinct: "layered g P ls \<Longrightarrow> distinct (concat ls)"
proof (induction ls arbitrary: P)
  case Nil
  then show ?case by simp
next
  case (Cons l ls)
  with layered_subset [of g "P \<union> set l" ls] show ?case by auto
qed

lemma layers_complete:
  assumes wf: "dict_wf g" and "deps_known g" and "acyclic (dep_rel g)"
  shows "set (concat (get_execution_layers g)) = nodes g"
proof -
  let ?L = "set (concat (get_execution_layers g))"
  have "wf (dep_rel g)" using assms by (intro finite_acyclic_wf finite_dep_rel)
  have closed: "\<forall>n \<in> nodes g. set (deps_of g n) \<subseteq> ?L \<longrightarrow> n \<in> ?L"
    using kahn_layered(2) [OF wf kahn_inv_init [OF wf]]
    by (simp add: get_execution_layers_def Let_def)
  have "n \<in> nodes g \<longrightarrow> n \<in> ?L" for n
  proof (induction n rule: wf_induct_rule [OF \<open>wf (dep_rel g)\<close>])
    case (1 n)
    show ?case
    proof
      assume n: "n \<in> nodes g"
      have "d \<in> ?L" if "d \<in> set (deps_of g n)" for d
        using 1 [of d] that n assms(2) by (auto simp: dep_rel_def deps_known_def nodes_def)
      with closed n show "n \<in> ?L" by blast
    qed
  qed
  moreover have "?L \<subseteq> nodes g" using layered_subset [OF layers_layered [OF wf]] by auto
  ultimately show ?thesis by auto
qed

lemma layered_before:
  assumes "layered g P ls" and "i < length ls" and "n \<in> set (ls ! i)" and "d \<in> set (deps_of g n)"
  shows "d \<in> P \<union> set (concat (take i ls))"
  using assms
proof (induction ls arbitrary: P i)
  case Nil
  then show ?case by simp
next
  case (Cons l ls)
  show ?case
  proof (cases i)
    case 0
    with Cons.prems show ?thesis by auto
  next
    case (Suc j)
    with Cons.IH [of "P \<union> set l" j] Cons.prems show ?thesis by auto
  qed
qed

text \<open>Conversely, layers that cover a graph rank its steps, so the graph is acyclic.\<close>

lemma layers_cover_acyclic:
  assumes wf: "dict_wf g" and cover: "nodes g \<subseteq> set (concat (get_execution_layers g))"
  shows "acyclic (dep_rel g)"
proof -
  let ?ls = "get_execution_layers g"
  define rank where "rank n = (LEAST i. i < length ?ls \<and> n \<in> set (?ls ! i))" for n
  have "rank d < rank n" if dn: "(d, n) \<in> dep_rel g" for d n
  proof -
    from dn cover have "n \<in> set (concat ?ls)" by (auto simp: dep_rel_def)
    then obtain i where "i < length ?ls \<and> n \<in> set (?ls ! i)"
      by (auto simp: in_set_conv_nth [of _ ?ls])
    then have "rank n < length ?ls \<and> n \<in> set (?ls ! rank n)" unfolding rank_def by (rule LeastI)
    with layered_before [OF layers_layered [OF wf]] dn
    have "d \<in> set (concat (take (rank n) ?ls))" by (auto simp: dep_rel_def)
    then obtain j where j: "j < rank n" "j < length ?ls" "d \<in> set (?ls ! j)"
      by (auto simp: in_set_conv_nth [of _ "take (rank n) ?ls"])
    then have "rank d \<le> j" unfolding rank_def by (intro Least_le conjI)
    with j(1) show ?thesis by simp
  qed
  then have "dep_rel g \<subseteq> measure rank" by auto
  then show ?thesis by (intro wf_acyclic wf_subset [OF wf_measure])
qed

lemma validate_dag_layers:
  "dict_wf g \<Longrightarrow>
   validate_dag g = Inr () \<longleftrightarrow> deps_known g \<and> set (concat (get_execution_layers g)) = nodes g"
  using layers_complete [of g] layers_cover_acyclic [of g]
  by (auto simp: validate_dag_iff simp del: set_concat)

subsection \<open>Evaluation with tables\<close>

text \<open>
  The same layering on association lists instead of functions, for evaluating it on concrete
  workflows; the fuel counts layers, and a result is the result of the layering above.
\<close>

definition tab_nat :: "('a, int) dict \<Rightarrow> 'a \<Rightarrow> int" where
  "tab_nat t x = (case dget t x of None \<Rightarrow> 0 | Some k \<Rightarrow> k)"

definition tab_list :: "('a, 'a list) dict \<Rightarrow> 'a \<Rightarrow> 'a list" where
  "tab_list t x = (case dget t x of None \<Rightarrow> [] | Some k \<Rightarrow> k)"

definition add_edge_tab :: "'a \<Rightarrow> 'a \<Rightarrow> ('a, int) dict \<times> ('a, 'a list) dict \<Rightarrow>
    ('a, int) dict \<times> ('a, 'a list) dict" where
  "add_edge_tab name dep st =
     (case st of (t, u) \<Rightarrow> (dput name (tab_nat t name + 1) t, dput dep (tab_list u dep @ [name]) u))"

fun relax_tab :: "'a list \<Rightarrow> ('a, int) dict \<Rightarrow> 'a list \<Rightarrow> ('a, int) dict \<times> 'a list" where
  "relax_tab [] t q = (t, q)"
| "relax_tab (n # ns) t q =
     (let k = tab_nat t n - 1 in relax_tab ns (dput n k t) (if k = 0 then q @ [n] else q))"

fun kahn_tab :: "nat \<Rightarrow> ('a, 'a list) dict \<Rightarrow> 'a list \<Rightarrow> ('a, int) dict \<Rightarrow> 'a list list option" where
  "kahn_tab 0 u q t = None"
| "kahn_tab (Suc fuel) u q t =
     (if q = [] then Some []
      else (case relax_tab (concat (map (tab_list u) q)) t [] of
              (t', q') \<Rightarrow> map_option (Cons q) (kahn_tab fuel u q' t')))"

definition layers_tab :: "'a dep_graph \<Rightarrow> 'a list list option" where
  "layers_tab g =
     (case fold (\<lambda>(name, ds). fold (add_edge_tab name) ds) g ([], []) of
        (t, u) \<Rightarrow> kahn_tab (Suc (length g)) u (filter (\<lambda>n. tab_nat t n = 0) (dkeys g)) t)"

lemma tab_dput:
  "tab_nat (dput x k t) = (tab_nat t)(x := k)"
  "tab_list (dput x l u) = (tab_list u)(x := l)"
  by (simp_all add: tab_nat_def tab_list_def fun_eq_iff)

lemma relax_tab_sim:
  "relax_tab ns t q = (t', q') \<Longrightarrow> fold relax ns (tab_nat t, q) = (tab_nat t', q')"
  by (induction ns arbitrary: t q) (auto simp: relax_def Let_def simp flip: tab_dput)

lemma kahn_tab_sim:
  assumes "tab_list u = snd (build_graph g)"
  shows "kahn_tab fuel u q t = Some ls \<Longrightarrow> kahn g q (tab_nat t) = ls"
proof (induction fuel arbitrary: q t ls)
  case 0
  then show ?case by simp
next
  case (Suc fuel)
  show ?case
  proof (cases "q = []")
    case True
    with Suc.prems show ?thesis by (simp add: kahn.simps)
  next
    case False
    obtain t' q' where r: "relax_tab (concat (map (tab_list u) q)) t [] = (t', q')"
      by (cases "relax_tab (concat (map (tab_list u) q)) t []")
    have "relax_layer (snd (build_graph g)) q (tab_nat t) = (tab_nat t', q')"
      using relax_tab_sim [OF r] by (simp add: relax_layer_flat assms)
    with False Suc r show ?thesis by (auto simp: kahn.simps [of g q])
  qed
qed

lemma build_tab_sim:
  "fold (\<lambda>(name, ds). fold (add_edge_tab name) ds) g (t, u) = (t', u') \<Longrightarrow>
   fold (\<lambda>(name, ds). fold (add_edge name) ds) g (tab_nat t, tab_list u) = (tab_nat t', tab_list u')"
proof (induction g arbitrary: t u)
  case Nil
  then show ?case by simp
next
  case (Cons nd g)
  obtain name ds where nd: "nd = (name, ds)" by (cases nd)
  have inner: "fold (add_edge name) ds (tab_nat t, tab_list u) = (tab_nat t1, tab_list u1)"
    if "fold (add_edge_tab name) ds (t, u) = (t1, u1)" for t1 u1 and t :: "('a, int) dict" and u
    using that by (induction ds arbitrary: t u) (auto simp: add_edge_def add_edge_tab_def simp flip: tab_dput)
  obtain t1 u1 where 1: "fold (add_edge_tab name) ds (t, u) = (t1, u1)"
    by (cases "fold (add_edge_tab name) ds (t, u)")
  from Cons.prems 1 have "fold (\<lambda>(name, ds). fold (add_edge_tab name) ds) g (t1, u1) = (t', u')"
    by (simp add: nd)
  from Cons.IH [OF this] inner [OF 1] show ?case by (simp add: nd)
qed

lemma fold_dkeys_deps:
  assumes "dict_wf g"
  shows "fold (\<lambda>name. fold (f name) (deps_of g name)) (dkeys g) st =
    fold (\<lambda>(name, ds). fold (f name) ds) g st"
proof -
  have "fold (\<lambda>name. fold (f name) (deps_of g name)) (dkeys h) st =
      fold (\<lambda>(name, ds). fold (f name) ds) h st" if "set h \<subseteq> set g" for h
    using that
  proof (induction h arbitrary: st)
    case Nil
    then show ?case by simp
  next
    case (Cons nd h)
    obtain name ds where nd: "nd = (name, ds)" by (cases nd)
    with Cons.prems have "(name, ds) \<in> set g" by simp
    from dict_wf_get [OF assms this] have "deps_of g name = ds" by (simp add: deps_of_def)
    with Cons nd show ?case by simp
  qed
  then show ?thesis by simp
qed

lemma layers_tab_sound:
  assumes "dict_wf g" and "layers_tab g = Some ls"
  shows "get_execution_layers g = ls"
proof -
  obtain t u where b: "fold (\<lambda>(name, ds). fold (add_edge_tab name) ds) g ([], []) = (t, u)"
    by (cases "fold (\<lambda>(name, ds). fold (add_edge_tab name) ds) g ([], [])")
  have empty: "tab_nat ([] :: ('a, int) dict) = (\<lambda>_. 0)" "tab_list ([] :: ('a, 'a list) dict) = (\<lambda>_. [])"
    by (simp_all add: tab_nat_def tab_list_def fun_eq_iff)
  have bg: "build_graph g = (tab_nat t, tab_list u)"
    using build_tab_sim [OF b] by (simp add: build_graph_def fold_dkeys_deps [OF assms(1)] empty)
  with assms(2) b kahn_tab_sim [of u g] show ?thesis
    by (simp add: layers_tab_def get_execution_layers_def Let_def del: kahn_tab.simps)
qed

end
