(* ===== verification/Orchestration_Engine.thy ===== *)
theory Orchestration_Engine
  imports Base_Step Step_Graph
begin

section \<open>The orchestration engine\<close>

text \<open>
  \<open>OrchestrationEngine\<close> of src/app/services/orchestrator/engine.py: construction with graph
  validation, one loop iteration of \<open>_execute_step\<close> with its retry, skip, degrade and abort
  branches, the whole retry loop, and \<open>execute\<close> over the layers, sequential when the steps share
  a database session and interleaved otherwise. \<open>asyncio.gather\<close> is modelled by a scheduler that
  picks, before every loop iteration, which of the unfinished tasks of the layer runs next; the
  theorems hold for every scheduler. It stops at the first raise, as \<open>gather\<close> does; what tasks
  still in flight do afterwards is outside the engine.
\<close>

record execution_result =
  er_success :: bool
  er_failed_step :: "string option"
  er_error :: "exn option"
  er_step_results :: "(string, step_result) dict"

definition new_execution_result :: execution_result where
  "new_execution_result =
     \<lparr>er_success = True, er_failed_step = None, er_error = None, er_step_results = []\<rparr>"

definition step_status_stage_map :: "(string, string) dict" where
  "step_status_stage_map =
     [(''request_adapter'', ''listen''), (''validation'', ''listen''),
      (''quota_check'', ''listen''), (''rate_limit'', ''listen''),
      (''conversation_load'', ''remember''), (''resolve_assets'', ''remember''),
      (''routing'', ''remember''), (''template_render'', ''evolve''),
      (''agent_executor'', ''evolve''), (''upstream_call'', ''evolve''),
      (''provider_execution'', ''evolve''), (''response_transform'', ''render''),
      (''conversation_append'', ''render''), (''memory_write'', ''render''),
      (''sanitize'', ''render''), (''billing'', ''render''), (''audit_log'', ''render'')]"

subsection \<open>Construction\<close>

type_synonym 'w steps = "(string, 'w base_step) dict"

definition dep_graph_of :: "'w steps \<Rightarrow> string dep_graph" where
  "dep_graph_of steps = map (\<lambda>(n, s). (n, step_depends_on s)) steps"

fun dag_exn :: "string dag_error \<Rightarrow> exn" where
  "dag_exn (UnknownDependency n d) =
     ValueError (''Step '' @ [CHR 0x27] @ n @ [CHR 0x27] @ '' depends on unknown step '' @
       [CHR 0x27] @ d @ [CHR 0x27])"
| "dag_exn (Cyclic c) = CyclicDependencyError c"
| "dag_exn OutOfFuel = OtherError ''RecursionError'' ''maximum recursion depth exceeded''"

definition engine_init :: "'w base_step list \<Rightarrow> exn + 'w steps" where
  "engine_init ss =
     (let steps = dict_of (map (\<lambda>s. (step_name s, s)) ss)
      in (case validate_dag (dep_graph_of steps) of
            Inl e \<Rightarrow> Inl (dag_exn e)
          | Inr _ \<Rightarrow> Inr steps))"

definition execution_layers :: "'w steps \<Rightarrow> string list list" where
  "execution_layers steps = get_execution_layers (dep_graph_of steps)"

subsection \<open>One step\<close>

text \<open>
  One pass through the body of the \<open>while\<close> loop: the task is finished, has raised, or goes round
  again with the attempt number it has reached.
\<close>

datatype progress = Done | Raised exn | Again int

type_synonym 'w run_state = "'w engine_state \<times> execution_result"

definition with_ctx :: "(workflow_context \<Rightarrow> workflow_context) \<Rightarrow> 'w engine_state \<Rightarrow> 'w engine_state" where
  "with_ctx f s = s\<lparr>es_ctx := f (es_ctx s)\<rparr>"

definition put_result :: "string \<Rightarrow> step_result \<Rightarrow> execution_result \<Rightarrow> execution_result" where
  "put_result n r res = res\<lparr>er_step_results := dput n r (er_step_results res)\<rparr>"

definition announce :: "string \<Rightarrow> 'w base_step \<Rightarrow> 'w engine_state \<Rightarrow> 'w engine_state" where
  "announce now st s =
     (case dget step_status_stage_map (step_name st) of
        None \<Rightarrow> s
      | Some stage \<Rightarrow> with_ctx (emit_status now stage (Some (step_name st)) ''running'' None PNone) s)"

definition fail_step :: "'w base_step \<Rightarrow> rat \<Rightarrow> exn \<Rightarrow> int \<Rightarrow> 'w run_state \<Rightarrow> progress \<times> 'w run_state" where
  "fail_step st start err attempt rs =
     (case rs of (s, res) \<Rightarrow>
        let duration = (es_clock s - start) * 1000;
            res' = put_result (step_name st)
              \<lparr>sr_status = FAILED, sr_message = Some (exn_str err), sr_data = None,
               sr_duration_ms = duration\<rparr> res;
            s' = with_ctx (mark_step_executed (step_name st) duration) s;
            s'' = with_ctx (mark_error GATEWAY (str_upper (step_name st) @ ''_FAILED'')
              (exn_str err) None None) s'
        in (Raised (StepExecutionError (step_name st) err attempt), s'', res'))"

definition handle_failure :: "'w base_step \<Rightarrow> rat \<Rightarrow> exn \<Rightarrow> int \<Rightarrow> 'w run_state \<Rightarrow>
    progress \<times> 'w run_state" where
  "handle_failure st start err attempt rs =
     (case rs of (s0, res) \<Rightarrow>
        (case step_on_failure st err attempt s0 of
           (Inl e, s) \<Rightarrow> (Raised e, s, res)
         | (Inr action, s) \<Rightarrow>
             if action = RETRY \<and> attempt < sc_max_retries (step_config_of st) + 1 then
               (Again attempt,
                s\<lparr>es_clock := es_clock s + sc_retry_delay (step_config_of st) *
                     sc_retry_backoff (step_config_of st) ^ nat (attempt - 1)\<rparr>, res)
             else if action = SKIP then
               (Done, s, put_result (step_name st)
                  ((new_step_result SKIPPED)\<lparr>sr_message := Some (exn_str err)\<rparr>) res)
             else if action = DEGRADE then
               (case step_on_degrade st err s of
                  (Inl e, s') \<Rightarrow> (Raised e, s', res)
                | (Inr r, s') \<Rightarrow>
                    (Done,
                     with_ctx (mark_step_executed (step_name st) ((es_clock s' - start) * 1000)) s',
                     put_result (step_name st) r res))
             else fail_step st start err attempt (s, res)))"

definition attempt_step :: "string \<Rightarrow> 'w base_step \<Rightarrow> int \<Rightarrow> 'w run_state \<Rightarrow>
    progress \<times> 'w run_state" where
  "attempt_step now st done_attempts rs =
     (case rs of (s0, res) \<Rightarrow>
        if \<not> done_attempts < sc_max_retries (step_config_of st) + 1
        then (Raised (UnboundLocalError ''start_time''), s0, res)
        else
          let attempt = done_attempts + 1; start = es_clock s0
          in (case step_execute st (sc_timeout (step_config_of st)) (announce now st s0) of
                (Inr r, s) \<Rightarrow>
                  let duration = (es_clock s - start) * 1000
                  in (Done, with_ctx (mark_step_executed (step_name st) duration) s,
                      put_result (step_name st) (r\<lparr>sr_duration_ms := duration\<rparr>) res)
              | (Inl err, s) \<Rightarrow> handle_failure st start err attempt (s, res)))"

text \<open>A retry only happens below the attempt limit, so going round again makes progress.\<close>

lemma attempt_step_again:
  "attempt_step now st k rs = (Again k', rs') \<Longrightarrow> k' = k + 1 \<and> k' < sc_max_retries (step_config_of st) + 1"
  by (auto simp: attempt_step_def handle_failure_def fail_step_def Let_def
      split: prod.splits sum.splits if_splits)

function execute_step :: "string \<Rightarrow> 'w base_step \<Rightarrow> int \<Rightarrow> 'w run_state \<Rightarrow>
    (exn + unit) \<times> 'w run_state" where
  "execute_step now st k rs =
     (case attempt_step now st k rs of
        (Done, rs') \<Rightarrow> (Inr (), rs')
      | (Raised e, rs') \<Rightarrow> (Inl e, rs')
      | (Again k', rs') \<Rightarrow> execute_step now st k' rs')"
  by pat_completeness auto
termination
  by (relation "measure (\<lambda>(now, st, k, rs). nat (sc_max_retries (step_config_of st) + 1 - k))")
     (auto dest!: attempt_step_again [OF sym])

declare execute_step.simps [simp del]

subsection \<open>A layer\<close>

fun execute_serial :: "string \<Rightarrow> 'w base_step list \<Rightarrow> 'w run_state \<Rightarrow> (exn + unit) \<times> 'w run_state" where
  "execute_serial now [] rs = (Inr (), rs)"
| "execute_serial now (st # sts) rs =
     (case execute_step now st 0 rs of
        (Inl e, rs') \<Rightarrow> (Inl e, rs')
      | (Inr _, rs') \<Rightarrow> execute_serial now sts rs')"

text \<open>
  \<open>asyncio.gather\<close>: the list holds the unfinished tasks with the attempts each has made;
  \<open>sched i\<close> chooses the task of the \<open>i\<close>-th turn.
\<close>

definition attempts_left :: "('w base_step \<times> int) list \<Rightarrow> nat" where
  "attempts_left tasks =
     (\<Sum>(st, k)\<leftarrow>tasks. Suc (nat (sc_max_retries (step_config_of st) + 1 - k)))"

definition drop_nth :: "nat \<Rightarrow> 'a list \<Rightarrow> 'a list" where
  "drop_nth i xs = take i xs @ drop (Suc i) xs"

lemma attempts_left_split:
  "i < length tasks \<Longrightarrow> attempts_left tasks =
     Suc (nat (sc_max_retries (step_config_of (fst (tasks ! i))) + 1 - snd (tasks ! i))) +
     attempts_left (drop_nth i tasks)"
proof -
  assume "i < length tasks"
  then have eq: "tasks = take i tasks @ tasks ! i # drop (Suc i) tasks"
    by (simp add: id_take_nth_drop)
  show ?thesis
    by (subst eq) (simp add: attempts_left_def drop_nth_def case_prod_beta)
qed

lemma attempts_left_update:
  "i < length tasks \<Longrightarrow> attempts_left (tasks[i := t]) =
     Suc (nat (sc_max_retries (step_config_of (fst t)) + 1 - snd t)) + attempts_left (drop_nth i tasks)"
  by (simp add: upd_conv_take_nth_drop attempts_left_def drop_nth_def case_prod_beta)

function gather :: "string \<Rightarrow> (nat \<Rightarrow> nat) \<Rightarrow> nat \<Rightarrow> ('w base_step \<times> int) list \<Rightarrow> 'w run_state \<Rightarrow>
    (exn + unit) \<times> 'w run_state" where
  "gather now sched turn tasks rs =
     (if tasks = [] then (Inr (), rs)
      else
        let i = sched turn mod length tasks; t = tasks ! i
        in (case attempt_step now (fst t) (snd t) rs of
              (Done, rs') \<Rightarrow> gather now sched (Suc turn) (drop_nth i tasks) rs'
            | (Raised e, rs') \<Rightarrow> (Inl e, rs')
            | (Again k, rs') \<Rightarrow> gather now sched (Suc turn) (tasks[i := (fst t, k)]) rs'))"
  by pat_completeness auto
termination
proof (relation "measure (\<lambda>(now, sched, turn, tasks, rs). attempts_left tasks)", goal_cases)
  case 1
  show ?case by simp
next
  case (2 now sched turn tasks rs i t p rs')
  then have "i < length tasks" by simp
  from attempts_left_split [OF this] show ?case by simp
next
  case (3 now sched turn tasks rs i t p rs' k)
  then have i: "i < length tasks" by simp
  from 3 have "attempt_step now (fst t) (snd t) rs = (Again k, rs')" by simp
  from attempt_step_again [OF this] attempts_left_split [OF i] attempts_left_update [OF i] 3(3)
  show ?case by simp
qed

declare gather.simps [simp del]

text \<open>Parallel only without a shared session and with more than one step to run.\<close>

definition run_tasks :: "string \<Rightarrow> (nat \<Rightarrow> nat) \<Rightarrow> 'w base_step list \<Rightarrow> 'w run_state \<Rightarrow>
    (exn + unit) \<times> 'w run_state" where
  "run_tasks now sched sts rs =
     (if \<not> ctx_db_session (es_ctx (fst rs)) \<and> 1 < length sts
      then gather now sched 0 (map (\<lambda>st. (st, 0)) sts) rs
      else execute_serial now sts rs)"

text \<open>The loop that sorts a layer into skipped and executable steps.\<close>

fun select_executable :: "'w steps \<Rightarrow> string list \<Rightarrow> 'w run_state \<Rightarrow>
    (exn + 'w base_step list) \<times> 'w run_state" where
  "select_executable steps [] rs = (Inr [], rs)"
| "select_executable steps (n # ns) (s, res) =
     (case dget steps n of
        None \<Rightarrow> (Inl (OtherError ''KeyError'' n), s, res)
      | Some st \<Rightarrow>
          if step_should_skip st (es_ctx s) then
            (case step_on_skip st s of
               (Inl e, s') \<Rightarrow> (Inl e, s', res)
             | (Inr _, s') \<Rightarrow>
                 select_executable steps ns (s', put_result n (new_step_result SKIPPED) res))
          else
            (case select_executable steps ns (s, res) of
               (Inl e, rs') \<Rightarrow> (Inl e, rs')
             | (Inr sts, rs') \<Rightarrow> (Inr (st # sts), rs')))"

text \<open>The check after a layer; \<open>True\<close> means the run was aborted and \<open>execute\<close> returns.\<close>

fun check_failed :: "'w base_step list \<Rightarrow> 'w run_state \<Rightarrow> bool \<times> 'w run_state" where
  "check_failed [] rs = (False, rs)"
| "check_failed (st # sts) (s, res) =
     (case dget (er_step_results res) (step_name st) of
        Some r \<Rightarrow>
          if sr_status r = FAILED then
            let n = step_name st;
                s1 = (if str_truthy (ctx_error_code (es_ctx s)) then s
                      else with_ctx (mark_error GATEWAY (str_upper n @ ''_FAILED'')
                        (if str_truthy (sr_message r) then the (sr_message r) else ''Step failed'')
                        None None) s)
            in (True, s1\<lparr>es_ctx := (es_ctx s1)\<lparr>ctx_failed_step := Some n\<rparr>\<rparr>,
                res\<lparr>er_success := False, er_failed_step := Some n\<rparr>)
          else check_failed sts (s, res)
      | None \<Rightarrow> check_failed sts (s, res))"

text \<open>The body of the loop over the layers.\<close>

definition run_layer :: "string \<Rightarrow> (nat \<Rightarrow> nat) \<Rightarrow> 'w steps \<Rightarrow> string list \<Rightarrow> 'w run_state \<Rightarrow>
    (exn + bool) \<times> 'w run_state" where
  "run_layer now sched steps layer rs =
     (case select_executable steps layer rs of
        (Inl e, rs1) \<Rightarrow> (Inl e, rs1)
      | (Inr sts, rs1) \<Rightarrow>
          if sts = [] then (Inr False, rs1)
          else (case run_tasks now sched sts rs1 of
                  (Inl e, rs2) \<Rightarrow> (Inl e, rs2)
                | (Inr _, rs2) \<Rightarrow> (case check_failed sts rs2 of (b, rs3) \<Rightarrow> (Inr b, rs3))))"

fun run_layers :: "string \<Rightarrow> (nat \<Rightarrow> nat \<Rightarrow> nat) \<Rightarrow> 'w steps \<Rightarrow> nat \<Rightarrow> string list list \<Rightarrow>
    'w run_state \<Rightarrow> (exn + unit) \<times> 'w run_state" where
  "run_layers now sched steps idx [] rs = (Inr (), rs)"
| "run_layers now sched steps idx (layer # layers) rs =
     (case run_layer now (sched idx) steps layer rs of
        (Inl e, rs') \<Rightarrow> (Inl e, rs')
      | (Inr aborted, rs') \<Rightarrow>
          if aborted then (Inr (), rs') else run_layers now sched steps (Suc idx) layers rs')"

definition execute :: "string \<Rightarrow> (nat \<Rightarrow> nat \<Rightarrow> nat) \<Rightarrow> 'w steps \<Rightarrow> 'w engine_state \<Rightarrow> 'w run_state" where
  "execute now sched steps s0 =
     (case run_layers now sched steps 0 (execution_layers steps) (s0, new_execution_result) of
        (Inr _, rs) \<Rightarrow> rs
      | (Inl e, s, res) \<Rightarrow>
          (if str_truthy (ctx_error_code (es_ctx s)) then s
           else with_ctx (mark_error GATEWAY ''ORCHESTRATION_ERROR'' (exn_str e) None None) s,
           res\<lparr>er_success := False, er_error := Some e\<rparr>))"

subsection \<open>Construction accepts exactly the executable workflows\<close>

lemma dkeys_dep_graph_of [simp]: "map fst (dep_graph_of steps) = dkeys steps"
  by (simp add: dep_graph_of_def case_prod_beta comp_def)

lemma dict_wf_dep_graph_of [simp]: "dict_wf (dep_graph_of steps) \<longleftrightarrow> dict_wf steps"
  by (simp add: dict_wf_def)

lemma nodes_dep_graph_of: "nodes (dep_graph_of steps) = set (dkeys steps)"
  by (simp add: nodes_def flip: set_map)

lemma dget_dep_graph_of: "dget (dep_graph_of steps) n = map_option step_depends_on (dget steps n)"
  by (induction steps) (auto simp: dep_graph_of_def)

lemma deps_of_dep_graph_of:
  "dget steps n = Some st \<Longrightarrow> deps_of (dep_graph_of steps) n = step_depends_on st"
  by (simp add: deps_of_def dget_dep_graph_of)

definition steps_wf :: "'w steps \<Rightarrow> bool" where
  "steps_wf steps \<longleftrightarrow> dict_wf steps \<and> (\<forall>(n, st) \<in> set steps. step_name st = n) \<and>
     deps_known (dep_graph_of steps) \<and> acyclic (dep_rel (dep_graph_of steps))"

lemma dict_of_names: "(n, st) \<in> set (dict_of (map (\<lambda>s. (step_name s, s)) ss)) \<Longrightarrow> step_name st = n"
proof -
  assume a: "(n, st) \<in> set (dict_of (map (\<lambda>s. (step_name s, s)) ss))"
  have "dget (dict_of (map (\<lambda>s. (step_name s, s)) ss)) n = Some st"
    using a by (rule dict_wf_get [OF dict_wf_dict_of])
  then have "(n, st) \<in> set (rev (map (\<lambda>s. (step_name s, s)) ss))"
    unfolding dget_dict_of by (rule map_of_SomeD)
  then show ?thesis by auto
qed

lemma engine_init_wf: "engine_init ss = Inr steps \<Longrightarrow> steps_wf steps"
  by (auto simp: engine_init_def steps_wf_def Let_def validate_dag_iff dict_of_names split: sum.splits)

lemma steps_wf_get: "steps_wf steps \<Longrightarrow> dget steps n = Some st \<Longrightarrow> step_name st = n"
  by (auto simp: steps_wf_def dest: map_of_SomeD)

subsection \<open>What running one step records\<close>

text \<open>
  A step's run writes no result but its own, and nothing else of the execution result.
\<close>

definition has_result :: "execution_result \<Rightarrow> string \<Rightarrow> bool" where
  "has_result res n \<longleftrightarrow> dget (er_step_results res) n \<noteq> None"

definition records_only :: "string set \<Rightarrow> execution_result \<Rightarrow> execution_result \<Rightarrow> bool" where
  "records_only ns res res' \<longleftrightarrow>
     (\<forall>n. n \<notin> ns \<longrightarrow> dget (er_step_results res') n = dget (er_step_results res) n) \<and>
     (\<forall>n. has_result res n \<longrightarrow> has_result res' n) \<and>
     er_success res' = er_success res \<and> er_failed_step res' = er_failed_step res \<and>
     er_error res' = er_error res"

lemma records_only_refl [simp]: "records_only ns res res"
  by (simp add: records_only_def)

lemma records_only_put [simp]: "n \<in> ns \<Longrightarrow> records_only ns res (put_result n r res)"
  by (auto simp: records_only_def has_result_def put_result_def)

lemma records_only_trans:
  "records_only ns res res' \<Longrightarrow> records_only ns' res' res'' \<Longrightarrow> ns \<subseteq> ms \<Longrightarrow> ns' \<subseteq> ms \<Longrightarrow>
   records_only ms res res''"
  unfolding records_only_def by (metis subsetD)

lemma put_result_get [simp]:
  "dget (er_step_results (put_result n r res)) m =
     (if m = n then Some r else dget (er_step_results res) m)"
  by (simp add: put_result_def)

lemmas step_defs = attempt_step_def handle_failure_def fail_step_def Let_def

lemma attempt_step_records:
  "attempt_step now st k (s, res) = (p, s', res') \<Longrightarrow> records_only {step_name st} res res'"
  by (auto simp: step_defs split: prod.splits sum.splits if_splits)

lemma attempt_step_done:
  "attempt_step now st k (s, res) = (Done, s', res') \<Longrightarrow>
   has_result res' (step_name st)"
  by (auto simp: step_defs has_result_def put_result_def split: prod.splits sum.splits if_splits)

lemma execute_step_records:
  "execute_step now st k (s, res) = (r, s', res') \<Longrightarrow>
   records_only {step_name st} res res' \<and>
   (r = Inr () \<longrightarrow> has_result res' (step_name st))"
proof (induction now st k "(s, res)" arbitrary: s res rule: execute_step.induct)
  case (1 now st k s res)
  obtain p s1 res1 where a: "attempt_step now st k (s, res) = (p, s1, res1)"
    by (cases "attempt_step now st k (s, res)") auto
  note rec = attempt_step_records [OF a]
  show ?case
  proof (cases p)
    case Done
    with "1.prems" a rec attempt_step_done [of now st k s res s1 res1] show ?thesis
      by (simp add: execute_step.simps [of now st k])
  next
    case (Raised e)
    with "1.prems" a rec show ?thesis by (auto simp: execute_step.simps [of now st k])
  next
    case (Again k')
    with "1.prems" a have "execute_step now st k' (s1, res1) = (r, s', res')"
      by (simp add: execute_step.simps [of now st k])
    with "1.hyps" [OF a [symmetric] Again] rec show ?thesis
      by (auto intro: records_only_trans)
  qed
qed

subsection \<open>The contract of a layer runner\<close>

text \<open>
  What \<open>execute\<close> needs from whatever runs the steps of a layer, serial or interleaved: it
  records results of those steps only, and when it does not raise, of all of them.
\<close>

locale layer_runner =
  fixes run :: "'w base_step list \<Rightarrow> 'w run_state \<Rightarrow> (exn + unit) \<times> 'w run_state"
  assumes run_records:
      "run sts (s, res) = (r, s', res') \<Longrightarrow> records_only (step_name ` set sts) res res'"
    and run_complete:
      "run sts (s, res) = (Inr (), s', res') \<Longrightarrow> st \<in> set sts \<Longrightarrow>
       has_result res' (step_name st)"
begin

lemma run_keeps_flags:
  "run sts (s, res) = (r, s', res') \<Longrightarrow>
   er_success res' = er_success res \<and> er_error res' = er_error res \<and>
   er_failed_step res' = er_failed_step res"
  using run_records [of sts s res r s' res'] by (auto simp: records_only_def)

lemma run_keeps_others:
  "run sts (s, res) = (r, s', res') \<Longrightarrow> n \<notin> step_name ` set sts \<Longrightarrow>
   dget (er_step_results res') n = dget (er_step_results res) n"
  using run_records [of sts s res r s' res'] by (simp add: records_only_def)

end

lemma execute_serial_contract:
  "execute_serial now sts (s, res) = (r, s', res') \<Longrightarrow>
   records_only (step_name ` set sts) res res' \<and>
   (r = Inr () \<longrightarrow> (\<forall>st \<in> set sts. has_result res' (step_name st)))"
proof (induction sts arbitrary: s res)
  case Nil
  then show ?case by simp
next
  case (Cons st sts)
  obtain p s1 res1 where a: "execute_step now st 0 (s, res) = (p, s1, res1)"
    by (cases "execute_step now st 0 (s, res)") auto
  note rec = execute_step_records [OF a]
  show ?case
  proof (cases p)
    case (Inl e)
    with Cons.prems a rec show ?thesis by (auto intro: records_only_trans)
  next
    case (Inr u)
    with Cons.prems a have "execute_serial now sts (s1, res1) = (r, s', res')" by simp
    note IH = Cons.IH [OF this]
    have "records_only (step_name ` set (st # sts)) res res'"
      using rec IH by (auto intro: records_only_trans)
    moreover have "has_result res' (step_name st)"
      using rec IH Inr by (simp add: records_only_def)
    ultimately show ?thesis using IH by auto
  qed
qed

lemma set_drop_nth:
  "i < length xs \<Longrightarrow> set xs = insert (xs ! i) (set (drop_nth i xs))"
  by (subst id_take_nth_drop [of i xs]) (auto simp: drop_nth_def)

lemma gather_contract:
  "gather now sched turn tasks (s, res) = (r, s', res') \<Longrightarrow>
   records_only (step_name ` fst ` set tasks) res res' \<and>
   (r = Inr () \<longrightarrow> (\<forall>t \<in> set tasks. has_result res' (step_name (fst t))))"
proof (induction now sched turn tasks "(s, res)" arbitrary: s res rule: gather.induct)
  case (1 now sched turn tasks s res)
  show ?case
  proof (cases "tasks = []")
    case True
    with "1.prems" show ?thesis by (simp add: gather.simps)
  next
    case False
    define i where "i = sched turn mod length tasks"
    define t where "t = tasks ! i"
    from False have i: "i < length tasks" by (simp add: i_def)
    note tasks = set_drop_nth [OF i, folded t_def]
    obtain p s1 res1 where a: "attempt_step now (fst t) (snd t) (s, res) = (p, s1, res1)"
      by (cases "attempt_step now (fst t) (snd t) (s, res)") auto
    note rec = attempt_step_records [OF a]
    note unf = gather.simps [of now sched turn tasks] i_def [symmetric] t_def [symmetric]
    show ?thesis
    proof (cases p)
      case Done
      with "1.prems" a False
      have g: "gather now sched (Suc turn) (drop_nth i tasks) (s1, res1) = (r, s', res')"
        by (simp add: unf Let_def)
      from "1.hyps"(1) [OF False i_def t_def a [symmetric] Done g] rec
        attempt_step_done [OF a [unfolded Done]] tasks
      show ?thesis by (auto simp: records_only_def)
    next
      case (Raised e)
      with "1.prems" a False have "r = Inl e" and "res' = res1" by (simp_all add: unf Let_def)
      with rec tasks show ?thesis by (auto simp: records_only_def)
    next
      case (Again k)
      with "1.prems" a False
      have g: "gather now sched (Suc turn) (tasks[i := (fst t, k)]) (s1, res1) = (r, s', res')"
        by (simp add: unf Let_def)
      have upd: "set (tasks[i := (fst t, k)]) = insert (fst t, k) (set (drop_nth i tasks))"
        using i set_drop_nth [of i "tasks[i := (fst t, k)]"]
        by (simp add: drop_nth_def)
      from "1.hyps"(2) [OF False i_def t_def a [symmetric] Again g] rec tasks upd
      show ?thesis by (auto simp: records_only_def)
    qed
  qed
qed

interpretation serial: layer_runner "execute_serial now"
  by unfold_locales (use execute_serial_contract in blast)+

interpretation parallel: layer_runner "\<lambda>sts. gather now sched turn (map (\<lambda>st. (st, 0)) sts)"
proof unfold_locales
  fix sts :: "'a base_step list" and s :: "'a engine_state" and s' res res' r
  assume "gather now sched turn (map (\<lambda>st. (st, 0)) sts) (s, res) = (r, s', res')"
  from gather_contract [OF this] show "records_only (step_name ` set sts) res res'"
    by (simp add: image_image)
next
  fix sts :: "'a base_step list" and s :: "'a engine_state" and s' res res' st
  assume "gather now sched turn (map (\<lambda>st. (st, 0)) sts) (s, res) = (Inr (), s', res')"
    and "st \<in> set sts"
  with gather_contract [OF this(1)] show "has_result res' (step_name st)"
    by auto
qed

interpretation layer: layer_runner "run_tasks now sched"
  by unfold_locales
     (auto simp: run_tasks_def split: if_splits
       dest: serial.run_records parallel.run_records serial.run_complete parallel.run_complete)

subsection \<open>The layers of a run\<close>

definition ok_result :: "execution_result \<Rightarrow> string \<Rightarrow> bool" where
  "ok_result res n \<longleftrightarrow> (\<exists>r. dget (er_step_results res) n = Some r \<and> sr_status r \<noteq> FAILED)"

lemma ok_has_result: "ok_result res n \<Longrightarrow> has_result res n"
  by (auto simp: ok_result_def has_result_def)

lemma records_only_ok: "records_only ns res res' \<Longrightarrow> n \<notin> ns \<Longrightarrow> ok_result res' n = ok_result res n"
  by (simp add: records_only_def ok_result_def)

lemma records_only_has:
  "records_only ns res res' \<Longrightarrow> has_result res' n \<Longrightarrow> n \<in> ns \<or> has_result res n"
  by (auto simp: records_only_def has_result_def)

lemma ok_put_skipped: "ok_result (put_result n (new_step_result SKIPPED) res) n"
  by (simp add: ok_result_def new_step_result_def)

lemma select_executable_contract:
  assumes "steps_wf steps" and "distinct ns" and "set ns \<subseteq> set (dkeys steps)"
    and "select_executable steps ns (s, res) = (r, s', res')"
  shows "records_only (set ns) res res' \<and>
    (\<forall>sts. r = Inr sts \<longrightarrow> step_name ` set sts \<subseteq> set ns \<and>
       (\<forall>n \<in> set ns. n \<in> step_name ` set sts \<or> ok_result res' n))"
  using assms(2-)
proof (induction ns arbitrary: s res r s' res')
  case Nil
  then show ?case by auto
next
  case (Cons n ns)
  obtain st where st: "dget steps n = Some st"
    using Cons.prems(2) dget_in_keys [of n steps] by auto
  have nm: "step_name st = n" using assms(1) st by (rule steps_wf_get)
  have IHp: "distinct ns" "set ns \<subseteq> set (dkeys steps)" using Cons.prems by auto
  show ?case
  proof (cases "step_should_skip st (es_ctx s)")
    case True
    obtain e s1 where sk: "step_on_skip st s = (e, s1)" by (cases "step_on_skip st s")
    show ?thesis
    proof (cases e)
      case (Inl x)
      with True sk st Cons.prems(3) show ?thesis by auto
    next
      case (Inr u)
      let ?res = "put_result n (new_step_result SKIPPED) res"
      from True sk st Inr Cons.prems(3)
      have "select_executable steps ns (s1, ?res) = (r, s', res')" by simp
      note IH = Cons.IH [OF IHp this]
      have "ok_result res' n"
        using IH Cons.prems(1) records_only_ok [of "set ns" ?res res' n] ok_put_skipped by auto
      moreover have "records_only (set (n # ns)) res res'"
      proof (rule records_only_trans)
        show "records_only {n} res ?res" by simp
        show "records_only (set ns) ?res res'" using IH by blast
      qed auto
      ultimately show ?thesis using IH by auto
    qed
  next
    case False
    obtain q s1 res1 where q: "select_executable steps ns (s, res) = (q, s1, res1)"
      by (cases "select_executable steps ns (s, res)") auto
    note IH = Cons.IH [OF IHp q]
    have "records_only (set (n # ns)) res res1"
    proof (rule records_only_trans)
      show "records_only {n} res res" by simp
      show "records_only (set ns) res res1" using IH by blast
    qed auto
    with IH False st q nm Cons.prems(3) show ?thesis
      by (cases q) (auto simp: image_subset_iff)
  qed
qed

lemma check_failed_contract:
  "check_failed sts (s, res) = (b, s', res') \<Longrightarrow>
   er_step_results res' = er_step_results res \<and> er_error res' = er_error res \<and>
   (if b then \<not> er_success res' \<and> str_truthy (ctx_error_code (es_ctx s')) \<and>
        ctx_failed_step (es_ctx s') = er_failed_step res' \<and>
        (\<exists>st \<in> set sts. er_failed_step res' = Some (step_name st) \<and>
           has_result res' (step_name st) \<and> \<not> ok_result res' (step_name st))
    else s' = s \<and> res' = res \<and>
        (\<forall>st \<in> set sts. has_result res (step_name st) \<longrightarrow> ok_result res (step_name st)))"
proof (induction sts)
  case Nil
  then show ?case by simp
next
  case (Cons st sts)
  show ?case
  proof (cases "dget (er_step_results res) (step_name st)")
    case None
    with Cons show ?thesis by (auto simp: has_result_def split: if_splits)
  next
    case (Some r)
    show ?thesis
    proof (cases "sr_status r = FAILED")
      case True
      with Some Cons.prems show ?thesis
        by (auto simp: Let_def with_ctx_def has_result_def ok_result_def)
    next
      case False
      with Some Cons show ?thesis by (auto simp: ok_result_def split: if_splits)
    qed
  qed
qed

text \<open>
  After a run there is a layer \<open>k\<close>: everything below it finished well, nothing above it was
  touched, and \<open>k\<close> is past the end exactly when the run succeeded.
\<close>

definition covered_upto :: "string set \<Rightarrow> string list list \<Rightarrow> nat \<Rightarrow> execution_result \<Rightarrow> bool" where
  "covered_upto P layers k res \<longleftrightarrow>
     (\<forall>n \<in> P \<union> set (concat (take k layers)). ok_result res n) \<and>
     (\<forall>n. has_result res n \<longrightarrow> n \<in> P \<union> set (concat (take (Suc k) layers)))"

definition run_post :: "string set \<Rightarrow> string list list \<Rightarrow> exn + unit \<Rightarrow> 'w run_state \<Rightarrow> bool" where
  "run_post P layers r rs \<longleftrightarrow>
     (case rs of (s, res) \<Rightarrow>
        \<exists>k \<le> length layers. covered_upto P layers k res \<and> er_error res = None \<and>
          (case r of
             Inl e \<Rightarrow> k < length layers \<and> er_success res \<and> er_failed_step res = None
           | Inr _ \<Rightarrow>
               if k = length layers then er_success res \<and> er_failed_step res = None
               else \<not> er_success res \<and> str_truthy (ctx_error_code (es_ctx s)) \<and>
                 ctx_failed_step (es_ctx s) = er_failed_step res \<and>
                 (\<exists>n \<in> set (layers ! k). er_failed_step res = Some n \<and> has_result res n \<and>
                    \<not> ok_result res n)))"

lemma run_post_Cons:
  assumes "run_post (P \<union> set l) ls r rs"
  shows "run_post P (l # ls) r rs"
proof -
  obtain s res where rs: "rs = (s, res)" by (cases rs)
  from assms obtain k where k: "k \<le> length ls" "covered_upto (P \<union> set l) ls k res"
    "er_error res = None"
    "case r of Inl e \<Rightarrow> k < length ls \<and> er_success res \<and> er_failed_step res = None
     | Inr _ \<Rightarrow> if k = length ls then er_success res \<and> er_failed_step res = None
         else \<not> er_success res \<and> str_truthy (ctx_error_code (es_ctx s)) \<and>
           ctx_failed_step (es_ctx s) = er_failed_step res \<and>
           (\<exists>n \<in> set (ls ! k). er_failed_step res = Some n \<and> has_result res n \<and> \<not> ok_result res n)"
    by (auto simp: run_post_def rs)
  have "covered_upto P (l # ls) (Suc k) res"
    using k(2) by (simp add: covered_upto_def Un_assoc)
  with k show ?thesis
    unfolding run_post_def rs by (auto intro!: exI [of _ "Suc k"] split: sum.splits if_splits)
qed

text \<open>Between layers: the steps of \<open>P\<close> finished well, only steps of \<open>Q\<close> have results.\<close>

definition run_inv :: "string set \<Rightarrow> string set \<Rightarrow> execution_result \<Rightarrow> bool" where
  "run_inv P Q res \<longleftrightarrow>
     (\<forall>n \<in> P. ok_result res n) \<and> (\<forall>n. has_result res n \<longrightarrow> n \<in> Q) \<and>
     er_success res \<and> er_failed_step res = None \<and> er_error res = None"

lemma run_inv_records:
  assumes "run_inv P Q res" and "records_only ns res res'" and "ns \<inter> P = {}" and "ns \<union> Q \<subseteq> Q'"
  shows "run_inv P Q' res'"
proof -
  have "ok_result res' n" if "n \<in> P" for n
    using that assms records_only_ok [OF assms(2), of n] by (auto simp: run_inv_def)
  moreover have "n \<in> Q'" if "has_result res' n" for n
    using records_only_has [OF assms(2) that] assms(1,4) by (auto simp: run_inv_def)
  ultimately show ?thesis using assms(1,2) by (simp add: run_inv_def records_only_def)
qed

lemma run_post_stop: "run_inv P (P \<union> set l) res \<Longrightarrow> run_post P (l # ls) (Inl e) (s, res)"
  by (auto simp: run_inv_def run_post_def covered_upto_def intro!: exI [of _ 0])

lemma run_post_abort:
  assumes "run_inv P (P \<union> set l) res" and "check_failed sts (s, res) = (True, s', res')"
    and "step_name ` set sts \<subseteq> set l"
  shows "run_post P (l # ls) (Inr ()) (s', res')"
proof -
  note c = check_failed_contract [OF assms(2)]
  from c assms(3) have "\<exists>n \<in> set l. er_failed_step res' = Some n \<and>
      has_result res' n \<and> \<not> ok_result res' n" by (auto simp: image_subset_iff)
  moreover from c assms(1) have "covered_upto P (l # ls) 0 res'"
    by (auto simp: run_inv_def covered_upto_def ok_result_def has_result_def)
  ultimately show ?thesis
    using c assms(1) by (auto simp: run_post_def run_inv_def intro!: exI [of _ 0])
qed

lemma run_layer_post:
  assumes wf: "steps_wf steps" and l: "distinct l" "set l \<subseteq> set (dkeys steps)" "set l \<inter> P = {}"
    and inv: "run_inv P P res" and run: "run_layer now sched steps l (s, res) = (r, s', res')"
  shows "case r of
      Inl e \<Rightarrow> run_post P (l # ls) (Inl e) (s', res')
    | Inr aborted \<Rightarrow> if aborted then run_post P (l # ls) (Inr ()) (s', res')
        else run_inv (P \<union> set l) (P \<union> set l) res'"
proof -
  obtain q s1 res1 where sel: "select_executable steps l (s, res) = (q, s1, res1)"
    by (cases "select_executable steps l (s, res)") auto
  note c1 = select_executable_contract [OF wf l(1,2) sel]
  have inv1: "run_inv P (P \<union> set l) res1"
  proof (rule run_inv_records [OF inv _ l(3)])
    show "records_only (set l) res res1" using c1 by blast
  qed auto
  show ?thesis
  proof (cases q)
    case (Inl e)
    with sel run inv1 show ?thesis by (auto simp: run_layer_def run_post_stop)
  next
    case q: (Inr sts)
    from c1 q have names: "step_name ` set sts \<subseteq> set l"
      and rest: "\<forall>n \<in> set l. n \<in> step_name ` set sts \<or> ok_result res1 n" by auto
    show ?thesis
    proof (cases "sts = []")
      case True
      with sel q run rest inv1 show ?thesis by (auto simp: run_layer_def run_inv_def)
    next
      case False
      obtain t s2 res2 where tasks: "run_tasks now sched sts (s1, res1) = (t, s2, res2)"
        by (cases "run_tasks now sched sts (s1, res1)") auto
      note rec2 = layer.run_records [OF tasks]
      have inv2: "run_inv P (P \<union> set l) res2"
      proof (rule run_inv_records [OF inv1 rec2])
        show "step_name ` set sts \<inter> P = {}" using names l(3) by blast
        show "step_name ` set sts \<union> (P \<union> set l) \<subseteq> P \<union> set l" using names by blast
      qed
      show ?thesis
      proof (cases t)
        case (Inl e)
        with sel q False tasks run inv2 show ?thesis by (auto simp: run_layer_def run_post_stop)
      next
        case t: (Inr u)
        obtain b where chk: "check_failed sts (s2, res2) = (b, s', res')" and r: "r = Inr b"
          using sel q False tasks t run by (auto simp: run_layer_def split: prod.splits)
        show ?thesis
        proof (cases b)
          case True
          with run_post_abort [OF inv2 _ names] chk r show ?thesis by simp
        next
          case False
          with check_failed_contract [OF chk] have same: "res' = res2"
            and good: "\<forall>st \<in> set sts. has_result res2 (step_name st) \<longrightarrow> ok_result res2 (step_name st)"
            by auto
          have "ok_result res2 n" if "n \<in> set l" for n
          proof (cases "n \<in> step_name ` set sts")
            case True
            then show ?thesis
              using good layer.run_complete [of now sched sts s1 res1 s2 res2] tasks t by auto
          next
            case False
            then show ?thesis using that rest records_only_ok [OF rec2 False] by blast
          qed
          with inv2 have "run_inv (P \<union> set l) (P \<union> set l) res2" by (auto simp: run_inv_def)
          with False same r show ?thesis by simp
        qed
      qed
    qed
  qed
qed

lemma run_layers_post:
  assumes "steps_wf steps" and "layered (dep_graph_of steps) P layers" and "run_inv P P res"
    and "run_layers now sched steps idx layers (s, res) = (r, rs')"
  shows "run_post P layers r rs'"
  using assms(2-)
proof (induction layers arbitrary: P s res idx)
  case Nil
  then show ?case by (auto simp: run_post_def covered_upto_def run_inv_def)
next
  case (Cons l ls)
  have l: "distinct l" "set l \<subseteq> set (dkeys steps)" "set l \<inter> P = {}"
    using Cons.prems(1) by (auto simp: nodes_dep_graph_of)
  obtain q s1 res1 where run: "run_layer now (sched idx) steps l (s, res) = (q, s1, res1)"
    by (cases "run_layer now (sched idx) steps l (s, res)") auto
  note post = run_layer_post [OF assms(1) l Cons.prems(2) run, of ls]
  show ?case
  proof (cases q)
    case (Inl e)
    with post run Cons.prems show ?thesis by auto
  next
    case (Inr aborted)
    show ?thesis
    proof (cases aborted)
      case True
      with Inr post run Cons.prems show ?thesis by auto
    next
      case False
      with Inr post run Cons.prems have "run_inv (P \<union> set l) (P \<union> set l) res1"
        and "run_layers now sched steps (Suc idx) ls (s1, res1) = (r, rs')" by auto
      with Cons.prems(1) have "run_post (P \<union> set l) ls r rs'" by (intro Cons.IH) auto
      then show ?thesis by (rule run_post_Cons)
    qed
  qed
qed

lemma execute_post:
  assumes "steps_wf steps"
  shows "\<exists>r rs. run_layers now sched steps 0 (execution_layers steps) (s, new_execution_result) = (r, rs)
    \<and> run_post {} (execution_layers steps) r rs"
proof -
  obtain r rs where run: "run_layers now sched steps 0 (execution_layers steps)
      (s, new_execution_result) = (r, rs)"
    by (cases "run_layers now sched steps 0 (execution_layers steps) (s, new_execution_result)")
  have "layered (dep_graph_of steps) {} (execution_layers steps)"
    using assms by (simp add: execution_layers_def layers_layered steps_wf_def)
  moreover have "run_inv {} {} new_execution_result"
    by (simp add: run_inv_def new_execution_result_def has_result_def)
  ultimately have "run_post {} (execution_layers steps) r rs"
    using run_layers_post [OF assms] run by blast
  with run show ?thesis by blast
qed

lemma ok_result_flags [simp]:
  "ok_result (res\<lparr>er_success := b, er_error := e\<rparr>) n = ok_result res n"
  "has_result (res\<lparr>er_success := b, er_error := e\<rparr>) n = has_result res n"
  by (simp_all add: ok_result_def has_result_def)

text \<open>Everything the callers of the engine rely on, in one place.\<close>

lemma execute_summary:
  assumes wf: "steps_wf steps" and ex: "execute now sched steps s0 = (s, res)"
  shows "\<exists>k \<le> length (execution_layers steps).
    (\<forall>n \<in> set (concat (take k (execution_layers steps))). ok_result res n) \<and>
    (\<forall>n. has_result res n \<longrightarrow> n \<in> set (concat (take (Suc k) (execution_layers steps)))) \<and>
    (er_success res \<longleftrightarrow> k = length (execution_layers steps)) \<and>
    (\<not> er_success res \<longrightarrow> str_truthy (ctx_error_code (es_ctx s))) \<and>
    (er_error res \<noteq> None \<longrightarrow> \<not> er_success res \<and> er_failed_step res = None) \<and>
    (\<not> er_success res \<longrightarrow> er_error res \<noteq> None \<or> er_failed_step res \<noteq> None) \<and>
    (\<forall>n. er_failed_step res = Some n \<longrightarrow>
       has_result res n \<and> \<not> ok_result res n \<and> ctx_failed_step (es_ctx s) = Some n)"
proof -
  obtain r s1 res1 where run: "run_layers now sched steps 0 (execution_layers steps)
      (s0, new_execution_result) = (r, s1, res1)"
    and post: "run_post {} (execution_layers steps) r (s1, res1)"
    using execute_post [OF wf, of now sched s0] by auto
  from post obtain k where k: "k \<le> length (execution_layers steps)"
    "covered_upto {} (execution_layers steps) k res1" "er_error res1 = None"
    "case r of Inl e \<Rightarrow> k < length (execution_layers steps) \<and> er_success res1 \<and> er_failed_step res1 = None
     | Inr _ \<Rightarrow> if k = length (execution_layers steps) then er_success res1 \<and> er_failed_step res1 = None
         else \<not> er_success res1 \<and> str_truthy (ctx_error_code (es_ctx s1)) \<and>
           ctx_failed_step (es_ctx s1) = er_failed_step res1 \<and>
           (\<exists>n \<in> set (execution_layers steps ! k). er_failed_step res1 = Some n \<and>
              has_result res1 n \<and> \<not> ok_result res1 n)"
    by (auto simp: run_post_def)
  show ?thesis
  proof (cases r)
    case (Inl e)
    with ex run have res: "res = res1\<lparr>er_success := False, er_error := Some e\<rparr>"
      and s: "str_truthy (ctx_error_code (es_ctx s))"
      by (auto simp: execute_def with_ctx_def)
    show ?thesis
      using k Inl s unfolding res covered_upto_def by (intro exI [of _ k]) auto
  next
    case (Inr u)
    with ex run have "res = res1" and "s = s1" by (auto simp: execute_def)
    then show ?thesis
      using k Inr unfolding covered_upto_def by (intro exI [of _ k]) (auto split: if_splits)
  qed
qed

lemma engine_init_Inr_iff:
  "engine_init ss = Inr steps \<longleftrightarrow>
     steps = dict_of (map (\<lambda>s. (step_name s, s)) ss) \<and>
     deps_known (dep_graph_of steps) \<and> acyclic (dep_rel (dep_graph_of steps))"
proof -
  let ?steps = "dict_of (map (\<lambda>s. (step_name s, s)) ss)"
  show ?thesis
  proof (cases "validate_dag (dep_graph_of ?steps)")
    case (Inl e)
    then have "\<not> (deps_known (dep_graph_of ?steps) \<and> acyclic (dep_rel (dep_graph_of ?steps)))"
      by (simp flip: validate_dag_iff)
    with Inl show ?thesis by (auto simp: engine_init_def)
  next
    case (Inr u)
    then have "validate_dag (dep_graph_of ?steps) = Inr ()" by simp
    then have "deps_known (dep_graph_of ?steps) \<and> acyclic (dep_rel (dep_graph_of ?steps))"
      by (simp only: validate_dag_iff)
    with Inr show ?thesis by (auto simp: engine_init_def)
  qed
qed

lemma engine_init_names:
  assumes "engine_init ss = Inr steps"
  shows "set (dkeys steps) = step_name ` set ss"
proof -
  from assms have "set (dkeys steps) = fst ` set (map (\<lambda>s. (step_name s, s)) ss)"
    by (simp only: engine_init_Inr_iff dkeys_dict_of)
  then show ?thesis by (simp add: image_image)
qed

lemma steps_wf_layers:
  assumes "steps_wf steps"
  shows "layered (dep_graph_of steps) {} (execution_layers steps)"
    and "set (concat (execution_layers steps)) = set (dkeys steps)"
  using assms layers_complete [of "dep_graph_of steps"]
  by (simp_all add: steps_wf_def execution_layers_def layers_layered nodes_dep_graph_of)

lemma concat_take_lessE:
  assumes "n \<in> set (concat (take k ls))"
  obtains j where "j < k" and "j < length ls" and "n \<in> set (ls ! j)"
  using assms by (auto simp: in_set_conv_nth [of _ "take k ls"])

text \<open>A dependency of a step that ran is in a layer that completed.\<close>

lemma execute_deps_ok:
  assumes wf: "steps_wf steps" and ex: "execute now sched steps s0 = (s, res)"
    and st: "dget steps n = Some st" and "has_result res n" and d: "d \<in> set (step_depends_on st)"
  shows "ok_result res d"
proof -
  obtain k where ok: "\<forall>n \<in> set (concat (take k (execution_layers steps))). ok_result res n"
    and has: "\<forall>n. has_result res n \<longrightarrow> n \<in> set (concat (take (Suc k) (execution_layers steps)))"
    using execute_summary [OF wf ex] by blast
  from has \<open>has_result res n\<close> obtain j where j: "j < Suc k" "j < length (execution_layers steps)"
    "n \<in> set (execution_layers steps ! j)" by (blast elim: concat_take_lessE)
  have "d \<in> set (concat (take j (execution_layers steps)))"
    using layered_before [OF steps_wf_layers(1) [OF wf] j(2,3)] d deps_of_dep_graph_of [OF st]
    by simp
  then obtain i where "i < j" "i < length (execution_layers steps)" "d \<in> set (execution_layers steps ! i)"
    by (rule concat_take_lessE)
  with j(1) have "execution_layers steps ! i \<in> set (take k (execution_layers steps))"
    and "d \<in> set (execution_layers steps ! i)"
    by (auto simp: in_set_conv_nth intro!: exI [of _ i])
  then have "d \<in> set (concat (take k (execution_layers steps)))" by auto
  with ok show ?thesis by blast
qed

subsection \<open>Retries\<close>

lemma announce_keeps [frame_simps, simp]:
  "es_world (announce now st s) = es_world s" "es_clock (announce now st s) = es_clock s"
  by (simp_all add: announce_def with_ctx_def split: option.splits)

lemma with_ctx_keeps [frame_simps, simp]:
  "es_world (with_ctx f s) = es_world s" "es_clock (with_ctx f s) = es_clock s"
  by (simp_all add: with_ctx_def)

text \<open>
  A step that always raises the retryable error \<open>err\<close>, with the default hook, from the moment
  \<open>k\<close> attempts are behind it.
\<close>

lemma execute_step_retries:
  fixes s :: "'w engine_state"
  assumes raises: "\<And>t s. step_execute st t s = (Inl err, s\<lparr>es_world := bump (es_world s)\<rparr>)"
    and hook: "step_on_failure st = base_on_failure (step_config_of st) (step_retry_on st)"
    and retry: "step_retry_on st err"
    and k: "int k + int m = sc_max_retries (step_config_of st)"
  shows "\<exists>s' res'. execute_step now st (int k) (s, res) =
      (Inl (StepExecutionError (step_name st) err (sc_max_retries (step_config_of st) + 1)), s', res') \<and>
    es_world s' = (bump ^^ Suc m) (es_world s) \<and>
    es_clock s' = es_clock s + (\<Sum>i<m. sc_retry_delay (step_config_of st) *
        sc_retry_backoff (step_config_of st) ^ (k + i)) \<and>
    map_option sr_status (dget (er_step_results res') (step_name st)) = Some FAILED"
  using k
proof (induction m arbitrary: k s res)
  case 0
  then have k: "int k = sc_max_retries (step_config_of st)" by simp
  show ?case
    unfolding execute_step.simps [of now st "int k"]
    by (simp add: attempt_step_def handle_failure_def fail_step_def Let_def raises hook
        base_on_failure_def k)
next
  case (Suc m)
  let ?d = "sc_retry_delay (step_config_of st) * sc_retry_backoff (step_config_of st) ^ k"
  define s1 where "s1 = (announce now st s)\<lparr>es_world := bump (es_world s), es_clock := es_clock s + ?d\<rparr>"
  have "attempt_step now st (int k) (s, res) = (Again (int (Suc k)), s1, res)"
    using Suc.prems
    by (simp add: attempt_step_def handle_failure_def raises hook base_on_failure_def retry s1_def)
  then have step: "execute_step now st (int k) (s, res) = execute_step now st (int (Suc k)) (s1, res)"
    by (simp add: execute_step.simps [of now st "int k"])
  have k1: "int (Suc k) + int m = sc_max_retries (step_config_of st)" using Suc.prems by simp
  have "es_clock s1 + (\<Sum>i<m. sc_retry_delay (step_config_of st) *
        sc_retry_backoff (step_config_of st) ^ (Suc k + i)) =
      es_clock s + (\<Sum>i<Suc m. sc_retry_delay (step_config_of st) *
        sc_retry_backoff (step_config_of st) ^ (k + i))"
    unfolding sum.lessThan_Suc_shift by (simp add: s1_def)
  moreover have "(bump ^^ Suc m) (es_world s1) = (bump ^^ Suc (Suc m)) (es_world s)"
    by (simp add: s1_def funpow_swap1)
  ultimately show ?case using Suc.IH [OF k1, of s1 res] unfolding step by metis
qed

text \<open>With the default hook an error outside \<open>retry_on\<close> ends the step at once.\<close>

lemma execute_step_no_retry:
  fixes s :: "'w engine_state"
  assumes raises: "\<And>t s. step_execute st t s = (Inl err, s\<lparr>es_world := bump (es_world s)\<rparr>)"
    and hook: "step_on_failure st = base_on_failure (step_config_of st) (step_retry_on st)"
    and "\<not> step_retry_on st err" and "0 \<le> sc_max_retries (step_config_of st)"
  shows "\<exists>s' res'. execute_step now st 0 (s, res) =
      (Inl (StepExecutionError (step_name st) err 1), s', res') \<and>
    es_world s' = bump (es_world s)"
  using assms
  by (simp add: execute_step.simps [of now st 0] attempt_step_def handle_failure_def fail_step_def
      Let_def base_on_failure_def)

subsection \<open>Properties\<close>

text \<open>C1: the constructor accepts a list of steps exactly when every dependency names one of the
  steps and the dependency relation is acyclic; a raised \<open>CyclicDependencyError\<close> carries a
  genuine cycle of the graph, a \<open>ValueError\<close> names a step with an unknown dependency, and the
  search never runs out of its depth bound.\<close>

theorem engine_init_spec:
  "let steps = dict_of (map (\<lambda>s. (step_name s, s)) ss); g = dep_graph_of steps
   in if deps_known g \<and> acyclic (dep_rel g) then engine_init ss = Inr steps
      else (\<exists>c. engine_init ss = Inl (CyclicDependencyError c) \<and> deps_known g \<and> is_cycle g c) \<or>
        (\<exists>n d. engine_init ss = Inl (dag_exn (UnknownDependency n d)) \<and>
           n \<in> nodes g \<and> d \<in> set (deps_of g n) \<and> d \<notin> nodes g)"
proof -
  let ?steps = "dict_of (map (\<lambda>s. (step_name s, s)) ss)"
  let ?g = "dep_graph_of ?steps"
  show ?thesis
  proof (cases "validate_dag ?g")
    case (Inl e)
    then have "\<not> (deps_known ?g \<and> acyclic (dep_rel ?g))" by (simp flip: validate_dag_iff)
    with Inl validate_dag_cases [of ?g] show ?thesis
      by (cases e) (auto simp: engine_init_def Let_def)
  next
    case (Inr u)
    with engine_init_Inr_iff [of ss ?steps] validate_dag_cases [of ?g] show ?thesis
      by (simp add: Let_def)
  qed
qed

text \<open>C3: the execution layers of an accepted workflow contain every step exactly once, and every
  dependency of a step is in a strictly earlier layer.\<close>

theorem execution_layers_topological:
  assumes "engine_init ss = Inr steps"
  shows "distinct (concat (execution_layers steps)) \<and>
    set (concat (execution_layers steps)) = step_name ` set ss \<and>
    (\<forall>i < length (execution_layers steps). \<forall>n \<in> set (execution_layers steps ! i).
       \<forall>d \<in> set (deps_of (dep_graph_of steps) n). \<exists>j < i. d \<in> set (execution_layers steps ! j))"
proof -
  note wf = engine_init_wf [OF assms]
  note engine_init_names [OF assms]
  moreover have "\<exists>j < i. d \<in> set (execution_layers steps ! j)"
    if "i < length (execution_layers steps)" "n \<in> set (execution_layers steps ! i)"
      "d \<in> set (deps_of (dep_graph_of steps) n)" for i n d
  proof -
    have "d \<in> set (concat (take i (execution_layers steps)))"
      using layered_before [OF steps_wf_layers(1) [OF wf] that] by simp
    then show ?thesis by (rule concat_take_lessE) blast
  qed
  moreover note layered_distinct [OF steps_wf_layers(1) [OF wf]]
  ultimately show ?thesis using steps_wf_layers(2) [OF wf] by simp
qed

text \<open>C2: in every run, under every interleaving of a layer's tasks, a step has a result only if
  all its dependencies completed with a result that is not FAILED.\<close>

theorem execute_respects_dependencies:
  assumes "engine_init ss = Inr steps" and "execute now sched steps s0 = (s, res)"
    and "dget steps n = Some st" and "has_result res n"
  shows "\<forall>d \<in> set (step_depends_on st). ok_result res d"
  using execute_deps_ok [OF engine_init_wf [OF assms(1)] assms(2-4)] by blast

text \<open>C9: a run reports success exactly when it went through every layer: then every step has a
  result that is not FAILED and there is neither an error nor a failed step; otherwise the context
  carries a non-empty error code, and either \<open>failed_step\<close> names a step whose recorded result is
  FAILED, or an exception is recorded, and in that case \<open>failed_step\<close> stays unset.\<close>

theorem execute_outcome:
  assumes "engine_init ss = Inr steps" and "execute now sched steps s0 = (s, res)"
  shows "if er_success res
    then (\<forall>n \<in> step_name ` set ss. ok_result res n) \<and> er_error res = None \<and> er_failed_step res = None
    else str_truthy (ctx_error_code (es_ctx s)) \<and>
      (case er_failed_step res of
         Some n \<Rightarrow> er_error res = None \<and> ctx_failed_step (es_ctx s) = Some n \<and>
           map_option sr_status (dget (er_step_results res) n) = Some FAILED
       | None \<Rightarrow> er_error res \<noteq> None)"
proof -
  note wf = engine_init_wf [OF assms(1)]
  have names: "set (concat (execution_layers steps)) = step_name ` set ss"
    using steps_wf_layers(2) [OF wf] engine_init_names [OF assms(1)] by simp
  from execute_summary [OF wf assms(2)] obtain k where
    ok: "\<forall>n \<in> set (concat (take k (execution_layers steps))). ok_result res n"
    and has: "\<forall>n. has_result res n \<longrightarrow> n \<in> set (concat (take (Suc k) (execution_layers steps)))"
    and all: "er_success res \<longleftrightarrow> k = length (execution_layers steps)"
    and bad: "\<not> er_success res \<longrightarrow> str_truthy (ctx_error_code (es_ctx s))"
    and err: "er_error res \<noteq> None \<longrightarrow> \<not> er_success res \<and> er_failed_step res = None"
      "\<not> er_success res \<longrightarrow> er_error res \<noteq> None \<or> er_failed_step res \<noteq> None"
    and step: "\<forall>n. er_failed_step res = Some n \<longrightarrow>
      has_result res n \<and> \<not> ok_result res n \<and> ctx_failed_step (es_ctx s) = Some n"
    by blast
  show ?thesis
  proof (cases "er_success res")
    case True
    with all ok have every: "\<forall>n \<in> set (concat (execution_layers steps)). ok_result res n" by simp
    moreover have "er_failed_step res = None"
    proof (rule ccontr)
      assume "er_failed_step res \<noteq> None"
      then obtain n where "er_failed_step res = Some n" by blast
      with step has True all have "\<not> ok_result res n" "n \<in> set (concat (execution_layers steps))"
        by auto
      with every show False by blast
    qed
    ultimately show ?thesis using True err unfolding names by auto
  next
    case False
    with bad err step show ?thesis
      by (cases "er_failed_step res") (auto simp: ok_result_def has_result_def)
  qed
qed

text \<open>A step with the default failure hook that keeps raising a retryable error is attempted
  exactly \<open>max_retries + 1\<close> times, sleeps \<open>retry_delay * retry_backoff ** i\<close> between the attempts,
  leaves a FAILED result, and surfaces as \<open>StepExecutionError\<close> with that number of attempts.\<close>

theorem execute_step_exhausts_retries:
  assumes "\<And>t s. step_execute st t s = (Inl err, s\<lparr>es_world := bump (es_world s)\<rparr>)"
    and "step_on_failure st = base_on_failure (step_config_of st) (step_retry_on st)"
    and "step_retry_on st err" and "sc_max_retries (step_config_of st) = int m"
  shows "\<exists>s' res'. execute_step now st 0 (s, res) =
      (Inl (StepExecutionError (step_name st) err (int m + 1)), s', res') \<and>
    es_world s' = (bump ^^ Suc m) (es_world s) \<and>
    es_clock s' = es_clock s + (\<Sum>i<m. sc_retry_delay (step_config_of st) *
        sc_retry_backoff (step_config_of st) ^ i) \<and>
    map_option sr_status (dget (er_step_results res') (step_name st)) = Some FAILED"
  using execute_step_retries [OF assms(1-3), of 0 m now s res] assms(4) by simp

subsection \<open>A concrete workflow\<close>

text \<open>
  A step that succeeds and a step that depends on it and always raises a retryable error; the
  world counts the calls.
\<close>

definition demo_config :: step_config where
  "demo_config = default_step_config\<lparr>sc_max_retries := 2\<rparr>"

definition demo_ok :: "nat base_step" where
  "demo_ok = make_step ''validation'' [] (\<lambda>_. False)
     (\<lambda>t s. (Inr (new_step_result SUCCESS), s\<lparr>es_world := Suc (es_world s)\<rparr>)) None"

definition demo_raise :: "nat base_step" where
  "demo_raise = make_step ''routing'' [''validation''] (\<lambda>e. e = TimeoutError)
     (\<lambda>t s. (Inl TimeoutError, s\<lparr>es_world := Suc (es_world s)\<rparr>)) (Some demo_config)"

definition demo_state :: "nat engine_state" where
  "demo_state = \<lparr>es_world = 0, es_clock = 0, es_ctx = new_context ''t'' EXTERNAL ''now''\<rparr>"

definition demo_steps :: "nat steps" where
  "demo_steps = [(''routing'', demo_raise), (''validation'', demo_ok)]"

lemma demo_engine: "engine_init [demo_raise, demo_ok] = Inr demo_steps"
  by (simp add: engine_init_def demo_steps_def demo_ok_def demo_raise_def make_step_def dict_of_def
      validate_dag_def dep_graph_of_def deps_of_def Let_def)

lemma demo_run:
  "let r = execute ''now'' (\<lambda>_ _. 0) demo_steps demo_state
   in (es_world (fst r) = 4) \<and>
      (map_option sr_status (dget (er_step_results (snd r)) ''routing'') = Some FAILED) \<and>
      er_error (snd r) = Some (StepExecutionError ''routing'' TimeoutError 3)"
  by code_simp

text \<open>C3 at the demo workflow.\<close>

theorem execution_layers_topological_witness:
  "distinct (concat (execution_layers demo_steps)) \<and>
   set (concat (execution_layers demo_steps)) = {''routing'', ''validation''} \<and>
   (\<exists>j < 1. ''validation'' \<in> set (execution_layers demo_steps ! j))"
proof -
  note layers = execution_layers_topological [OF demo_engine]
  have names: "step_name ` set [demo_raise, demo_ok] = {''routing'', ''validation''}"
    by (simp add: demo_raise_def demo_ok_def make_step_def Let_def)
  have one: "1 < length (execution_layers demo_steps)"
    and routing: "''routing'' \<in> set (execution_layers demo_steps ! 1)"
    and dep: "''validation'' \<in> set (deps_of (dep_graph_of demo_steps) ''routing'')"
    by code_simp+
  from layers have "\<exists>j < 1. ''validation'' \<in> set (execution_layers demo_steps ! j)"
    using one routing dep by blast
  with layers show ?thesis unfolding names by blast
qed

lemma demo_outcome:
  obtains s res where "execute ''now'' (\<lambda>_ _. 0) demo_steps demo_state = (s, res)"
    and "er_error res = Some (StepExecutionError ''routing'' TimeoutError 3)"
    and "has_result res ''routing''"
  using demo_run
  by (cases "execute ''now'' (\<lambda>_ _. 0) demo_steps demo_state") (auto simp: has_result_def Let_def)

lemma demo_raise_get: "dget demo_steps ''routing'' = Some demo_raise"
  by (simp add: demo_steps_def)

text \<open>C2 at the demo workflow: the failing step ran, so its dependency had completed.\<close>

theorem execute_respects_dependencies_witness:
  "ok_result (snd (execute ''now'' (\<lambda>_ _. 0) demo_steps demo_state)) ''validation''"
proof -
  obtain s res where ex: "execute ''now'' (\<lambda>_ _. 0) demo_steps demo_state = (s, res)"
    and "has_result res ''routing''" by (rule demo_outcome)
  then have "\<forall>d \<in> set (step_depends_on demo_raise). ok_result res d"
    by (intro execute_respects_dependencies [OF demo_engine ex demo_raise_get])
  with ex show ?thesis by (simp add: demo_raise_def make_step_def Let_def)
qed

text \<open>C9 at the demo workflow: the raised error is recorded and \<open>failed_step\<close> is unset.\<close>

theorem execute_outcome_witness:
  "let r = execute ''now'' (\<lambda>_ _. 0) demo_steps demo_state
   in \<not> er_success (snd r) \<and> str_truthy (ctx_error_code (es_ctx (fst r))) \<and>
      er_failed_step (snd r) = None"
proof -
  obtain s res where ex: "execute ''now'' (\<lambda>_ _. 0) demo_steps demo_state = (s, res)"
    and "er_error res = Some (StepExecutionError ''routing'' TimeoutError 3)" by (rule demo_outcome)
  with execute_outcome [OF demo_engine ex] show ?thesis
    by (auto split: if_splits option.splits)
qed

text \<open>The preceding statement at the failing demo step: three attempts, and one and two seconds of delay.\<close>

theorem execute_step_exhausts_retries_witness:
  "\<exists>s' res'. execute_step ''now'' demo_raise 0 (demo_state, new_execution_result) =
     (Inl (StepExecutionError ''routing'' TimeoutError 3), s', res') \<and>
   es_world s' = 3 \<and> es_clock s' = 3"
proof -
  have "\<exists>s' res'. execute_step ''now'' demo_raise 0 (demo_state, new_execution_result) =
      (Inl (StepExecutionError (step_name demo_raise) TimeoutError (int 2 + 1)), s', res') \<and>
    es_world s' = (Suc ^^ Suc 2) (es_world demo_state) \<and>
    es_clock s' = es_clock demo_state + (\<Sum>i<2. sc_retry_delay (step_config_of demo_raise) *
        sc_retry_backoff (step_config_of demo_raise) ^ i) \<and>
    map_option sr_status (dget (er_step_results res') (step_name demo_raise)) = Some FAILED"
    by (rule execute_step_exhausts_retries)
       (simp_all add: demo_raise_def make_step_def Let_def demo_config_def)
  then show ?thesis
    by (auto simp: demo_raise_def make_step_def Let_def demo_config_def demo_state_def
        default_step_config_def numeral_2_eq_2)
qed

end
