(* ===== verification/Step_Registry.thy ===== *)
theory Step_Registry
  imports Base_Step
begin

section \<open>The step registry\<close>

text \<open>
  \<open>StepRegistry\<close> of src/app/services/orchestrator/registry.py. The singleton is its dictionary
  \<open>_steps\<close> from names to step classes; a class is its Python name, its \<open>name\<close> attribute (which
  may be missing) and its constructor. The registry is an instance of a write-once store: what was
  registered under a name stays, and a second registration is refused.
\<close>

record 'w step_class =
  cls_name :: string
  cls_step_name :: "string option"
  cls_new :: "step_config option \<Rightarrow> 'w base_step"

type_synonym 'w registry = "(string, 'w step_class) dict"

definition new_registry :: "'w registry" where
  "new_registry = []"

definition registry_register :: "'w step_class \<Rightarrow> 'w registry \<Rightarrow> exn + 'w registry" where
  "registry_register c reg =
     (if \<not> str_truthy (cls_step_name c)
      then Inl (ValueError (''Step class '' @ cls_name c @ '' must define '' @ [CHR 0x27] @ ''name'' @
             [CHR 0x27] @ '' attribute''))
      else (case dget reg (the (cls_step_name c)) of
              Some old \<Rightarrow> Inl (ValueError (''Step '' @ [CHR 0x27] @ the (cls_step_name c) @ [CHR 0x27] @
                '' already registered by '' @ cls_name old))
            | None \<Rightarrow> Inr (dput (the (cls_step_name c)) c reg)))"

definition registry_get :: "'w registry \<Rightarrow> string \<Rightarrow> step_config option \<Rightarrow> exn + 'w base_step" where
  "registry_get reg nm cfg =
     (case dget reg nm of
        None \<Rightarrow> Inl (StepNotFoundError nm)
      | Some c \<Rightarrow> Inr (cls_new c cfg))"

fun registry_get_many :: "'w registry \<Rightarrow> string list \<Rightarrow> (string, step_config) dict \<Rightarrow>
    exn + 'w base_step list" where
  "registry_get_many reg [] cfgs = Inr []"
| "registry_get_many reg (n # ns) cfgs =
     bindR (registry_get reg n (dget cfgs n)) (\<lambda>st.
     bindR (registry_get_many reg ns cfgs) (\<lambda>sts. Inr (st # sts)))"

definition registry_has :: "'w registry \<Rightarrow> string \<Rightarrow> bool" where
  "registry_has reg nm \<longleftrightarrow> dget reg nm \<noteq> None"

definition registry_list_all :: "'w registry \<Rightarrow> string list" where
  "registry_list_all reg = dkeys reg"

definition registry_clear :: "'w registry \<Rightarrow> 'w registry" where
  "registry_clear reg = []"

definition registry_len :: "'w registry \<Rightarrow> nat" where
  "registry_len reg = length reg"

text \<open>Registering a sequence of classes, as importing the step modules does.\<close>

fun register_all :: "'w step_class list \<Rightarrow> 'w registry \<Rightarrow> exn + 'w registry" where
  "register_all [] reg = Inr reg"
| "register_all (c # cs) reg = bindR (registry_register c reg) (register_all cs)"

subsection \<open>A write-once store\<close>

locale write_once =
  fixes put :: "'c \<Rightarrow> 's \<Rightarrow> exn + 's"
    and key :: "'c \<Rightarrow> 'k option"
    and look :: "'s \<Rightarrow> 'k \<Rightarrow> 'c option"
  assumes put_fresh: "put c s = Inr s' \<Longrightarrow> key c = Some k \<Longrightarrow> look s k = None \<and> look s' k = Some c"
    and put_key: "put c s = Inr s' \<Longrightarrow> key c \<noteq> None"
    and put_other: "put c s = Inr s' \<Longrightarrow> key c \<noteq> Some k \<Longrightarrow> look s' k = look s k"
begin

lemma put_keeps: "put c s = Inr s' \<Longrightarrow> look s k = Some d \<Longrightarrow> look s' k = Some d"
  using put_fresh [of c s s' k] put_other [of c s s' k] by (cases "key c = Some k") auto

lemma put_twice: "put c s = Inr s' \<Longrightarrow> key d = key c \<Longrightarrow> \<exists>e. put d s' = Inl e"
  using put_fresh [of c s s'] put_key [of c s s'] put_fresh [of d s']
  by (cases "put d s'"; cases "key c") auto

end

interpretation registry: write_once registry_register cls_step_name dget
  by unfold_locales
     (auto simp: registry_register_def str_truthy_def split: if_splits option.splits)

lemma register_all_keeps:
  "register_all cs reg = Inr reg' \<Longrightarrow> dget reg n = Some c \<Longrightarrow> dget reg' n = Some c"
  by (induction cs arbitrary: reg) (auto simp: bindR_Inr dest: registry.put_keeps)

lemma register_all_get:
  "register_all cs reg = Inr reg' \<Longrightarrow> c \<in> set cs \<Longrightarrow> cls_step_name c = Some n \<Longrightarrow>
   dget reg' n = Some c"
proof (induction cs arbitrary: reg)
  case Nil
  then show ?case by simp
next
  case (Cons d cs)
  then obtain reg1 where reg1: "registry_register d reg = Inr reg1" "register_all cs reg1 = Inr reg'"
    by (auto simp: bindR_Inr)
  show ?case
  proof (cases "c = d")
    case True
    with reg1(1) Cons.prems(3) have "dget reg1 n = Some c" using registry.put_fresh by blast
    with reg1(2) show ?thesis by (rule register_all_keeps)
  next
    case False
    with Cons reg1(2) show ?thesis by simp
  qed
qed

lemma registry_get_many_names:
  "registry_get_many reg ns cfgs = Inr sts \<Longrightarrow>
   (\<forall>n \<in> set ns. registry_has reg n) \<and>
   sts = map (\<lambda>n. cls_new (the (dget reg n)) (dget cfgs n)) ns"
  by (induction ns arbitrary: sts)
     (auto simp: bindR_Inr registry_get_def registry_has_def split: option.splits)

end
