(* ===== verification/Workflow_Config.thy ===== *)
theory Workflow_Config
  imports Base_Step
begin

section \<open>Workflow templates\<close>

text \<open>
  src/app/services/orchestrator/config.py: the predefined workflows of the two channels and the
  choice among them. The four agent settings come from the process configuration
  (src/app/core/config.py, where they may be overridden by the environment), so they are a record
  that the templates take as an argument; \<open>default_agent_settings\<close> holds the declared defaults.
\<close>

record agent_settings =
  ag_max_turns_external :: int
  ag_max_turns_internal :: int
  ag_timeout_external :: rat
  ag_timeout_internal :: rat

definition default_agent_settings :: agent_settings where
  "default_agent_settings =
     \<lparr>ag_max_turns_external = 24, ag_max_turns_internal = 30,
      ag_timeout_external = 120, ag_timeout_internal = 300\<rparr>"

datatype workflow_template =
    EXTERNAL_CHAT | EXTERNAL_EMBEDDINGS | EXTERNAL_IMAGE | INTERNAL_CHAT
  | INTERNAL_EMBEDDINGS | INTERNAL_IMAGE | INTERNAL_DEBUG | INTERNAL_PREVIEW

record workflow_config =
  wc_template :: workflow_template
  wc_steps :: "string list"
  wc_step_configs :: "(string, step_config) dict"
  wc_enabled :: bool
  wc_version :: string

definition timed :: "rat \<Rightarrow> int \<Rightarrow> step_config" where
  "timed t retries = default_step_config\<lparr>sc_timeout := t, sc_max_retries := retries\<rparr>"

definition mk_workflow :: "workflow_template \<Rightarrow> string list \<Rightarrow> (string, step_config) dict \<Rightarrow>
    workflow_config" where
  "mk_workflow t ss cfgs =
     \<lparr>wc_template = t, wc_steps = ss, wc_step_configs = cfgs, wc_enabled = True, wc_version = ''1.0''\<rparr>"

definition external_chat_workflow :: "agent_settings \<Rightarrow> workflow_config" where
  "external_chat_workflow cfg = mk_workflow EXTERNAL_CHAT
     [''request_adapter'', ''validation'', ''signature_verify'', ''resolve_assets'', ''mcp_discovery'',
      ''quota_check'', ''rate_limit'', ''routing'', ''template_render'', ''agent_executor'',
      ''response_transform'', ''memory_write'', ''sanitize'', ''billing'', ''audit_log'']
     [(''quota_check'', timed 5 0), (''rate_limit'', timed 2 0), (''routing'', timed 10 1),
      (''agent_executor'', (timed (ag_timeout_external cfg) 2)
         \<lparr>sc_retry_delay := 1, sc_max_turns := ag_max_turns_external cfg\<rparr>),
      (''billing'', timed 10 3)]"

definition external_image_workflow :: workflow_config where
  "external_image_workflow = mk_workflow EXTERNAL_IMAGE
     [''request_adapter'', ''validation'', ''signature_verify'', ''resolve_assets'', ''quota_check'',
      ''rate_limit'', ''routing'', ''provider_execution'', ''response_transform'', ''sanitize'',
      ''billing'', ''audit_log'']
     [(''quota_check'', timed 5 0), (''rate_limit'', timed 2 0), (''routing'', timed 10 1),
      (''provider_execution'', timed 300 1), (''billing'', timed 10 3)]"

definition external_embeddings_workflow :: workflow_config where
  "external_embeddings_workflow = mk_workflow EXTERNAL_EMBEDDINGS
     [''request_adapter'', ''validation'', ''signature_verify'', ''quota_check'', ''rate_limit'',
      ''routing'', ''provider_execution'', ''response_transform'', ''sanitize'', ''billing'',
      ''audit_log'']
     [(''quota_check'', timed 5 0), (''rate_limit'', timed 2 0), (''routing'', timed 10 1),
      (''provider_execution'', timed 60 1), (''billing'', timed 10 3)]"

definition internal_chat_workflow :: "agent_settings \<Rightarrow> workflow_config" where
  "internal_chat_workflow cfg = mk_workflow INTERNAL_CHAT
     [''request_adapter'', ''validation'', ''conversation_load'', ''assistant_prompt_injection'',
      ''resolve_assets'', ''mcp_discovery'', ''jit_persona_tool_injection'', ''semantic_kernel'',
      ''knowledge_selection_injection'', ''quota_check'', ''rate_limit'', ''routing'',
      ''template_render'', ''agent_executor'', ''response_transform'', ''spec_agent_detector'',
      ''conversation_append'', ''memory_write'', ''sanitize'', ''billing'', ''audit_log'']
     [(''quota_check'', timed 5 0), (''rate_limit'', timed 2 0), (''routing'', timed 10 0),
      (''agent_executor'', (timed (ag_timeout_internal cfg) 2)
         \<lparr>sc_max_turns := ag_max_turns_internal cfg\<rparr>),
      (''billing'', timed 10 3)]"

definition internal_embeddings_workflow :: workflow_config where
  "internal_embeddings_workflow = mk_workflow INTERNAL_EMBEDDINGS
     [''validation'', ''quota_check'', ''rate_limit'', ''routing'', ''provider_execution'',
      ''response_transform'', ''billing'', ''audit_log'']
     [(''quota_check'', timed 5 0), (''rate_limit'', timed 2 0), (''routing'', timed 10 0),
      (''provider_execution'', timed 60 1), (''billing'', timed 10 3)]"

definition internal_image_workflow :: workflow_config where
  "internal_image_workflow = mk_workflow INTERNAL_IMAGE
     [''validation'', ''resolve_assets'', ''quota_check'', ''rate_limit'', ''routing'',
      ''provider_execution'', ''response_transform'', ''billing'', ''audit_log'']
     [(''quota_check'', timed 5 0), (''rate_limit'', timed 2 0), (''routing'', timed 10 0),
      (''provider_execution'', timed 600 1), (''billing'', timed 10 3)]"

definition internal_preview_workflow :: "agent_settings \<Rightarrow> workflow_config" where
  "internal_preview_workflow cfg = mk_workflow INTERNAL_PREVIEW
     [''validation'', ''resolve_assets'', ''mcp_discovery'', ''jit_persona_tool_injection'',
      ''semantic_kernel'', ''quota_check'', ''rate_limit'', ''routing'', ''template_render'',
      ''agent_executor'', ''response_transform'', ''sanitize'', ''billing'', ''audit_log'']
     (wc_step_configs (internal_chat_workflow cfg))"

definition internal_debug_workflow :: workflow_config where
  "internal_debug_workflow = mk_workflow INTERNAL_DEBUG
     [''validation'', ''routing''] [(''routing'', timed 10 0)]"

definition workflow_templates :: "agent_settings \<Rightarrow> (workflow_template, workflow_config) dict" where
  "workflow_templates cfg =
     [(EXTERNAL_CHAT, external_chat_workflow cfg),
      (EXTERNAL_EMBEDDINGS, external_embeddings_workflow),
      (EXTERNAL_IMAGE, external_image_workflow),
      (INTERNAL_CHAT, internal_chat_workflow cfg),
      (INTERNAL_EMBEDDINGS, internal_embeddings_workflow),
      (INTERNAL_IMAGE, internal_image_workflow),
      (INTERNAL_PREVIEW, internal_preview_workflow cfg),
      (INTERNAL_DEBUG, internal_debug_workflow)]"

definition media_capabilities :: "string list" where
  "media_capabilities =
     [''image_generation'', ''text_to_speech'', ''speech_to_text'', ''video_generation'']"

definition get_workflow_for_channel :: "agent_settings \<Rightarrow> channel \<Rightarrow> string \<Rightarrow> workflow_config" where
  "get_workflow_for_channel cfg chan capability =
     (let cap = str_lower capability
      in if chan = EXTERNAL then
           (if cap = ''embedding'' then external_embeddings_workflow
            else if cap \<in> set media_capabilities then external_image_workflow
            else external_chat_workflow cfg)
         else
           (if cap = ''embedding'' then internal_embeddings_workflow
            else if cap \<in> set media_capabilities then internal_image_workflow
            else if cap \<noteq> ''chat'' then internal_preview_workflow cfg
            else internal_chat_workflow cfg))"

lemmas workflow_defs =
  external_chat_workflow_def external_image_workflow_def external_embeddings_workflow_def
  internal_chat_workflow_def internal_embeddings_workflow_def internal_image_workflow_def
  internal_preview_workflow_def internal_debug_workflow_def

text \<open>Every template is registered under its own name, and the choice is one of them.\<close>

lemma workflow_templates_own: "dget (workflow_templates cfg) t = Some w \<Longrightarrow> wc_template w = t"
  by (cases t) (auto simp: workflow_templates_def workflow_defs mk_workflow_def)

lemma workflow_templates_total: "\<exists>w. dget (workflow_templates cfg) t = Some w"
  by (cases t) (simp_all add: workflow_templates_def)

lemma get_workflow_member:
  "\<exists>t. dget (workflow_templates cfg) t = Some (get_workflow_for_channel cfg chan cap)"
proof (cases "chan = EXTERNAL")
  case True
  then show ?thesis
    by (auto simp: get_workflow_for_channel_def Let_def workflow_templates_def)
next
  case False
  then show ?thesis
    by (auto simp: get_workflow_for_channel_def Let_def workflow_templates_def)
qed

end
