(* ===== verification/Gateway_Orchestrator.thy ===== *)
theory Gateway_Orchestrator
  imports Orchestration_Engine Step_Registry Workflow_Config
begin

section \<open>The gateway orchestrator\<close>

text \<open>
  src/app/services/orchestrator/orchestrator.py: choosing the template, instantiating its steps
  from the registry, aligning three dependencies with the steps that are actually present, and
  building the engine. The \<open>name\<close> and \<open>depends_on\<close> attributes of the step classes of
  src/app/services/workflow/steps/ are given class by class; the rest of a class (its \<open>execute\<close>,
  its hooks) is the argument \<open>impl\<close>, over which the theorems quantify. What the engine does with the
  steps depends on their names and dependencies only, so the layer structure of each template is
  computed on that projection.
\<close>

subsection \<open>The step classes\<close>

record step_attrs =
  at_class :: string
  at_name :: string
  at_depends_on :: "string list"

definition agent_executor_attrs :: step_attrs where
  "agent_executor_attrs = \<lparr>at_class = ''AgentExecutorStep'', at_name = ''agent_executor'',
     at_depends_on = [''template_render'']\<rparr>"

definition assistant_prompt_injection_attrs :: step_attrs where
  "assistant_prompt_injection_attrs = \<lparr>at_class = ''AssistantPromptInjectionStep'', at_name = ''assistant_prompt_injection'',
     at_depends_on = [''validation'', ''conversation_load'']\<rparr>"

definition audit_log_attrs :: step_attrs where
  "audit_log_attrs = \<lparr>at_class = ''AuditLogStep'', at_name = ''audit_log'',
     at_depends_on = [''billing'']\<rparr>"

definition billing_attrs :: step_attrs where
  "billing_attrs = \<lparr>at_class = ''BillingStep'', at_name = ''billing'',
     at_depends_on = [''response_transform'']\<rparr>"

definition conversation_append_attrs :: step_attrs where
  "conversation_append_attrs = \<lparr>at_class = ''ConversationAppendStep'', at_name = ''conversation_append'',
     at_depends_on = [''response_transform'', ''spec_agent_detector'']\<rparr>"

definition conversation_load_attrs :: step_attrs where
  "conversation_load_attrs = \<lparr>at_class = ''ConversationLoadStep'', at_name = ''conversation_load'',
     at_depends_on = [''validation'']\<rparr>"

definition jit_persona_tool_injection_attrs :: step_attrs where
  "jit_persona_tool_injection_attrs = \<lparr>at_class = ''JitPersonaToolInjectionStep'', at_name = ''jit_persona_tool_injection'',
     at_depends_on = [''validation'', ''mcp_discovery'']\<rparr>"

definition knowledge_selection_injection_attrs :: step_attrs where
  "knowledge_selection_injection_attrs = \<lparr>at_class = ''KnowledgeSelectionInjectionStep'', at_name = ''knowledge_selection_injection'',
     at_depends_on = [''semantic_kernel'']\<rparr>"

definition mcp_discovery_attrs :: step_attrs where
  "mcp_discovery_attrs = \<lparr>at_class = ''McpDiscoveryStep'', at_name = ''mcp_discovery'',
     at_depends_on = [''validation'']\<rparr>"

definition memory_write_attrs :: step_attrs where
  "memory_write_attrs = \<lparr>at_class = ''MemoryWriteStep'', at_name = ''memory_write'',
     at_depends_on = [''response_transform'']\<rparr>"

definition provider_execution_attrs :: step_attrs where
  "provider_execution_attrs = \<lparr>at_class = ''ProviderExecutionStep'', at_name = ''provider_execution'',
     at_depends_on = [''routing'']\<rparr>"

definition quota_check_attrs :: step_attrs where
  "quota_check_attrs = \<lparr>at_class = ''QuotaCheckStep'', at_name = ''quota_check'',
     at_depends_on = [''validation'']\<rparr>"

definition rate_limit_attrs :: step_attrs where
  "rate_limit_attrs = \<lparr>at_class = ''RateLimitStep'', at_name = ''rate_limit'',
     at_depends_on = [''validation'']\<rparr>"

definition request_adapter_attrs :: step_attrs where
  "request_adapter_attrs = \<lparr>at_class = ''RequestAdapterStep'', at_name = ''request_adapter'',
     at_depends_on = []\<rparr>"

definition resolve_assets_attrs :: step_attrs where
  "resolve_assets_attrs = \<lparr>at_class = ''ResolveAssetsStep'', at_name = ''resolve_assets'',
     at_depends_on = [''validation'']\<rparr>"

definition response_transform_attrs :: step_attrs where
  "response_transform_attrs = \<lparr>at_class = ''ResponseTransformStep'', at_name = ''response_transform'',
     at_depends_on = [''upstream_call'']\<rparr>"

definition routing_attrs :: step_attrs where
  "routing_attrs = \<lparr>at_class = ''RoutingStep'', at_name = ''routing'',
     at_depends_on = [''validation'']\<rparr>"

definition sanitize_attrs :: step_attrs where
  "sanitize_attrs = \<lparr>at_class = ''SanitizeStep'', at_name = ''sanitize'',
     at_depends_on = [''response_transform'']\<rparr>"

definition semantic_kernel_attrs :: step_attrs where
  "semantic_kernel_attrs = \<lparr>at_class = ''SemanticKernelStep'', at_name = ''semantic_kernel'',
     at_depends_on = [''validation'', ''mcp_discovery'']\<rparr>"

definition signature_verify_attrs :: step_attrs where
  "signature_verify_attrs = \<lparr>at_class = ''SignatureVerifyStep'', at_name = ''signature_verify'',
     at_depends_on = [''validation'']\<rparr>"

definition spec_agent_detector_attrs :: step_attrs where
  "spec_agent_detector_attrs = \<lparr>at_class = ''SpecAgentDetectorStep'', at_name = ''spec_agent_detector'',
     at_depends_on = [''response_transform'']\<rparr>"

definition template_render_attrs :: step_attrs where
  "template_render_attrs = \<lparr>at_class = ''TemplateRenderStep'', at_name = ''template_render'',
     at_depends_on = [''routing'', ''assistant_prompt_injection'']\<rparr>"

definition upstream_call_attrs :: step_attrs where
  "upstream_call_attrs = \<lparr>at_class = ''UpstreamCallStep'', at_name = ''upstream_call'',
     at_depends_on = [''routing'']\<rparr>"

definition validation_attrs :: step_attrs where
  "validation_attrs = \<lparr>at_class = ''ValidationStep'', at_name = ''validation'',
     at_depends_on = []\<rparr>"

text \<open>In the order in which importing the package registers them.\<close>

definition builtin_attrs :: "step_attrs list" where
  "builtin_attrs =
     [agent_executor_attrs,
      assistant_prompt_injection_attrs,
      audit_log_attrs,
      billing_attrs,
      conversation_append_attrs,
      conversation_load_attrs,
      jit_persona_tool_injection_attrs,
      knowledge_selection_injection_attrs,
      mcp_discovery_attrs,
      memory_write_attrs,
      provider_execution_attrs,
      quota_check_attrs,
      rate_limit_attrs,
      request_adapter_attrs,
      resolve_assets_attrs,
      response_transform_attrs,
      routing_attrs,
      sanitize_attrs,
      semantic_kernel_attrs,
      signature_verify_attrs,
      spec_agent_detector_attrs,
      template_render_attrs,
      upstream_call_attrs,
      validation_attrs]"

lemmas attrs_defs =
  agent_executor_attrs_def
  assistant_prompt_injection_attrs_def
  audit_log_attrs_def
  billing_attrs_def
  conversation_append_attrs_def
  conversation_load_attrs_def
  jit_persona_tool_injection_attrs_def
  knowledge_selection_injection_attrs_def
  mcp_discovery_attrs_def
  memory_write_attrs_def
  provider_execution_attrs_def
  quota_check_attrs_def
  rate_limit_attrs_def
  request_adapter_attrs_def
  resolve_assets_attrs_def
  response_transform_attrs_def
  routing_attrs_def
  sanitize_attrs_def
  semantic_kernel_attrs_def
  signature_verify_attrs_def
  spec_agent_detector_attrs_def
  template_render_attrs_def
  upstream_call_attrs_def
  validation_attrs_def

text \<open>A class whose behaviour is \<open>impl\<close>; the constructor fills in the default configuration.\<close>

type_synonym 'w step_impl = "string \<Rightarrow> step_config \<Rightarrow> 'w base_step"

definition class_of :: "'w step_impl \<Rightarrow> step_attrs \<Rightarrow> 'w step_class" where
  "class_of impl a =
     \<lparr>cls_name = at_class a, cls_step_name = Some (at_name a),
      cls_new = (\<lambda>cfg. let conf = (case cfg of None \<Rightarrow> default_step_config | Some c \<Rightarrow> c)
        in (impl (at_name a) conf)\<lparr>step_name := at_name a, step_depends_on := at_depends_on a,
             step_config_of := conf\<rparr>)\<rparr>"

lemma cls_step_name_class_of [simp]: "cls_step_name (class_of impl a) = Some (at_name a)"
  by (simp add: class_of_def)

definition step_registry :: "'w step_impl \<Rightarrow> exn + 'w registry" where
  "step_registry impl = register_all (map (class_of impl) builtin_attrs) new_registry"

subsection \<open>Dependency alignment\<close>

definition step_names :: "'w base_step list \<Rightarrow> string set" where
  "step_names steps = step_name ` set steps"

text \<open>\<open>step.depends_on = deps\<close> on the first step of that name, if there is one.\<close>

fun set_first_deps :: "string \<Rightarrow> string list \<Rightarrow> 'w base_step list \<Rightarrow> 'w base_step list" where
  "set_first_deps nm deps [] = []"
| "set_first_deps nm deps (s # ss) =
     (if step_name s = nm then s\<lparr>step_depends_on := deps\<rparr> # ss else s # set_first_deps nm deps ss)"

definition align_template_render_dependencies :: "'w base_step list \<Rightarrow> 'w base_step list" where
  "align_template_render_dependencies steps =
     (let ns = step_names steps;
          deps = (if ''routing'' \<in> ns then [''routing''] else []) @
                 (if ''assistant_prompt_injection'' \<in> ns then [''assistant_prompt_injection''] else [])
      in set_first_deps ''template_render'' deps steps)"

definition align_response_transform_dependencies :: "'w base_step list \<Rightarrow> 'w base_step list" where
  "align_response_transform_dependencies steps =
     (let ns = step_names steps
      in set_first_deps ''response_transform''
           (if ''agent_executor'' \<in> ns then [''agent_executor'']
            else if ''provider_execution'' \<in> ns then [''provider_execution'']
            else if ''upstream_call'' \<in> ns then [''upstream_call'']
            else []) steps)"

definition align_upstream_call_dependencies :: "'w base_step list \<Rightarrow> 'w base_step list" where
  "align_upstream_call_dependencies steps =
     (let ns = step_names steps
      in set_first_deps ''upstream_call''
           (if ''template_render'' \<in> ns then [''template_render'']
            else if ''routing'' \<in> ns then [''routing'']
            else []) steps)"

subsection \<open>Building and running the engine\<close>

record 'w gateway_orchestrator =
  go_workflow_config :: "workflow_config option"
  go_custom_steps :: "'w base_step list"

text \<open>A step missing from the registry is skipped with a warning.\<close>

fun lookup_steps :: "'w registry \<Rightarrow> (string, step_config) dict \<Rightarrow> string list \<Rightarrow> 'w base_step list" where
  "lookup_steps reg cfgs [] = []"
| "lookup_steps reg cfgs (n # ns) =
     (case registry_get reg n (dget cfgs n) of
        Inl _ \<Rightarrow> lookup_steps reg cfgs ns
      | Inr st \<Rightarrow> st # lookup_steps reg cfgs ns)"

definition align_steps :: "'w base_step list \<Rightarrow> 'w base_step list" where
  "align_steps steps = align_response_transform_dependencies (align_upstream_call_dependencies
     (align_template_render_dependencies steps))"

definition choose_workflow :: "agent_settings \<Rightarrow> 'w gateway_orchestrator \<Rightarrow> workflow_context \<Rightarrow>
    workflow_config" where
  "choose_workflow cfg g c =
     (case go_workflow_config g of
        Some w \<Rightarrow> w
      | None \<Rightarrow> get_workflow_for_channel cfg (ctx_channel c)
          (if str_truthy (ctx_capability c) then the (ctx_capability c) else ''chat''))"

definition build_engine :: "agent_settings \<Rightarrow> 'w registry \<Rightarrow> 'w gateway_orchestrator \<Rightarrow>
    workflow_context \<Rightarrow> exn + 'w steps" where
  "build_engine cfg reg g c =
     (let config = choose_workflow cfg g c;
          steps = (if go_custom_steps g \<noteq> [] then go_custom_steps g
                   else lookup_steps reg (wc_step_configs config) (wc_steps config))
      in engine_init (align_steps steps))"

definition orchestrator_execute :: "agent_settings \<Rightarrow> 'w registry \<Rightarrow> string \<Rightarrow> (nat \<Rightarrow> nat \<Rightarrow> nat) \<Rightarrow>
    'w gateway_orchestrator \<Rightarrow> 'w engine_state \<Rightarrow> exn + 'w run_state" where
  "orchestrator_execute cfg reg now sched g s =
     bindR (build_engine cfg reg g (es_ctx s)) (\<lambda>steps. Inr (execute now sched steps s))"

definition for_channel :: "agent_settings \<Rightarrow> channel \<Rightarrow> string \<Rightarrow> 'w gateway_orchestrator" where
  "for_channel cfg chan capability =
     \<lparr>go_workflow_config = Some (get_workflow_for_channel cfg chan capability), go_custom_steps = []\<rparr>"

definition get_orchestrator :: "'w gateway_orchestrator" where
  "get_orchestrator = \<lparr>go_workflow_config = None, go_custom_steps = []\<rparr>"

definition get_external_orchestrator :: "agent_settings \<Rightarrow> 'w gateway_orchestrator" where
  "get_external_orchestrator cfg = for_channel cfg EXTERNAL ''chat''"

definition get_internal_orchestrator :: "agent_settings \<Rightarrow> 'w gateway_orchestrator" where
  "get_internal_orchestrator cfg = for_channel cfg INTERNAL ''chat''"

definition get_internal_embedding_orchestrator :: "agent_settings \<Rightarrow> 'w gateway_orchestrator" where
  "get_internal_embedding_orchestrator cfg = for_channel cfg INTERNAL ''embedding''"

subsection \<open>The projection to names and dependencies\<close>

definition sig_of :: "'w base_step \<Rightarrow> string \<times> string list" where
  "sig_of s = (step_name s, step_depends_on s)"

fun sig_set_first :: "string \<Rightarrow> string list \<Rightarrow> (string \<times> string list) list \<Rightarrow>
    (string \<times> string list) list" where
  "sig_set_first nm deps [] = []"
| "sig_set_first nm deps ((n, d) # ss) =
     (if n = nm then (n, deps) # ss else (n, d) # sig_set_first nm deps ss)"

definition sig_align :: "(string \<times> string list) list \<Rightarrow> (string \<times> string list) list" where
  "sig_align ss =
     (let ns = map fst ss; has = (\<lambda>n. n \<in> set ns)
      in sig_set_first ''response_transform''
           (if has ''agent_executor'' then [''agent_executor'']
            else if has ''provider_execution'' then [''provider_execution'']
            else if has ''upstream_call'' then [''upstream_call''] else [])
         (sig_set_first ''upstream_call''
           (if has ''template_render'' then [''template_render'']
            else if has ''routing'' then [''routing''] else [])
         (sig_set_first ''template_render''
           ((if has ''routing'' then [''routing''] else []) @
            (if has ''assistant_prompt_injection'' then [''assistant_prompt_injection''] else [])) ss)))"

lemma map_sig_set_first: "map sig_of (set_first_deps nm d ss) = sig_set_first nm d (map sig_of ss)"
  by (induction ss) (auto simp: sig_of_def)

lemma names_set_first [simp]: "step_names (set_first_deps nm d ss) = step_names ss"
  unfolding step_names_def by (induction ss) auto

lemma step_names_sigs: "n \<in> step_names ss \<longleftrightarrow> n \<in> set (map fst (map sig_of ss))"
  by (auto simp: step_names_def sig_of_def image_iff)

lemma step_names_align [simp]:
  "step_names (align_template_render_dependencies ss) = step_names ss"
  "step_names (align_upstream_call_dependencies ss) = step_names ss"
  by (simp_all add: align_template_render_dependencies_def align_upstream_call_dependencies_def Let_def)

lemma map_sig_align: "map sig_of (align_steps ss) = sig_align (map sig_of ss)"
proof -
  show ?thesis
    unfolding align_steps_def align_response_transform_dependencies_def Let_def sig_align_def
      map_sig_set_first step_names_align
    by (simp only: align_upstream_call_dependencies_def align_template_render_dependencies_def
        Let_def map_sig_set_first names_set_first step_names_sigs)
qed

lemma map_dput: "map (\<lambda>(n, s). (n, f s)) (dput k v d) = dput k (f v) (map (\<lambda>(n, s). (n, f s)) d)"
  by (induction d) auto

lemma dep_graph_of_dict_of:
  "dep_graph_of (dict_of (map (\<lambda>s. (step_name s, s)) ss)) = dict_of (map sig_of ss)"
proof -
  have "map (\<lambda>(n, s). (n, step_depends_on s))
      (fold (\<lambda>(k, v) d. dput k v d) (map (\<lambda>s. (step_name s, s)) ss) d) =
      fold (\<lambda>(k, v) d. dput k v d) (map sig_of ss) (map (\<lambda>(n, s). (n, step_depends_on s)) d)" for d
    by (induction ss arbitrary: d) (simp_all add: sig_of_def map_dput)
  from this [of "[]"] show ?thesis by (simp add: dep_graph_of_def dict_of_def)
qed

text \<open>The registry that importing the step package leaves behind.\<close>

definition builtin_registry :: "'w step_impl \<Rightarrow> 'w registry" where
  "builtin_registry impl = map (\<lambda>a. (at_name a, class_of impl a)) builtin_attrs"

lemma register_all_distinct:
  "distinct (dkeys reg @ map at_name as) \<Longrightarrow> (\<forall>a \<in> set as. at_name a \<noteq> []) \<Longrightarrow>
   register_all (map (class_of impl) as) reg = Inr (reg @ map (\<lambda>a. (at_name a, class_of impl a)) as)"
proof (induction as arbitrary: reg)
  case Nil
  then show ?case by simp
next
  case (Cons a as)
  then have "at_name a \<notin> set (dkeys reg)" by auto
  then have new: "dget reg (at_name a) = None"
    and put: "dput (at_name a) (class_of impl a) reg = reg @ [(at_name a, class_of impl a)]"
    by (simp_all only: dget_None_iff dkeys_dput_absent not_False_eq_True)
  from Cons.prems Cons.IH [of "reg @ [(at_name a, class_of impl a)]"] show ?case
    by (simp add: registry_register_def new put)
qed

lemma builtin_names: "distinct (map at_name builtin_attrs) \<and> (\<forall>a \<in> set builtin_attrs. at_name a \<noteq> [])"
  by code_simp

lemma step_registry_ok: "step_registry impl = Inr (builtin_registry impl)"
  using register_all_distinct [of "[]" builtin_attrs impl] builtin_names
  by (simp add: step_registry_def new_registry_def builtin_registry_def)

definition builtin_deps :: "(string, string list) dict" where
  "builtin_deps = map (\<lambda>a. (at_name a, at_depends_on a)) builtin_attrs"

definition sig_lookup :: "string list \<Rightarrow> (string \<times> string list) list" where
  "sig_lookup ns = List.map_filter (\<lambda>n. map_option (Pair n) (dget builtin_deps n)) ns"

lemma builtin_registry_get:
  "dget (builtin_registry impl) n = map_option (\<lambda>a. class_of impl a)
     (dget (map (\<lambda>a. (at_name a, a)) builtin_attrs) n)"
  "dget builtin_deps n = map_option at_depends_on (dget (map (\<lambda>a. (at_name a, a)) builtin_attrs) n)"
proof -
  have "dget (map (\<lambda>a. (at_name a, f a)) as) n =
      map_option f (dget (map (\<lambda>a. (at_name a, a)) as) n)" for f :: "step_attrs \<Rightarrow> 'c" and as
    by (induction as) auto
  then show "dget (builtin_registry impl) n = map_option (\<lambda>a. class_of impl a)
      (dget (map (\<lambda>a. (at_name a, a)) builtin_attrs) n)"
    by (simp add: builtin_registry_def)
next
  have "dget (map (\<lambda>a. (at_name a, f a)) as) n =
      map_option f (dget (map (\<lambda>a. (at_name a, a)) as) n)" for f :: "step_attrs \<Rightarrow> 'c" and as
    by (induction as) auto
  then show "dget builtin_deps n = map_option at_depends_on
      (dget (map (\<lambda>a. (at_name a, a)) builtin_attrs) n)"
    by (simp add: builtin_deps_def)
qed

lemma dget_names: "dget (map (\<lambda>a. (at_name a, a)) as) n = Some a \<Longrightarrow> at_name a = n"
  by (induction as) (auto split: if_splits)

lemma map_sig_lookup:
  "map sig_of (lookup_steps (builtin_registry impl) cfgs ns) = sig_lookup ns"
proof (induction ns)
  case Nil
  then show ?case by (simp add: sig_lookup_def List.map_filter_def)
next
  case (Cons n ns)
  then show ?case
    by (cases "dget (map (\<lambda>a. (at_name a, a)) builtin_attrs) n")
       (auto simp: registry_get_def builtin_registry_get sig_lookup_def List.map_filter_def
         class_of_def Let_def sig_of_def dest: dget_names)
qed

text \<open>The dependency graph of a template, and the engine it gives.\<close>

definition template_graph :: "string list \<Rightarrow> string dep_graph" where
  "template_graph ns = dict_of (sig_align (sig_lookup ns))"

lemma build_engine_graph:
  assumes "go_custom_steps g = []"
    and "validate_dag (template_graph (wc_steps (choose_workflow cfg g c))) = Inr ()"
  shows "\<exists>steps. build_engine cfg (builtin_registry impl) g c = Inr steps \<and>
    dep_graph_of steps = template_graph (wc_steps (choose_workflow cfg g c))"
  using assms
  by (simp add: build_engine_def engine_init_def Let_def dep_graph_of_dict_of map_sig_align
      map_sig_lookup template_graph_def)

subsection \<open>The predefined templates\<close>

text \<open>The step lists, apart from the settings.\<close>

definition template_steps :: "workflow_template \<Rightarrow> string list" where
  "template_steps t = wc_steps (the (dget (workflow_templates default_agent_settings) t))"

lemma template_steps_any:
  "dget (workflow_templates cfg) t = Some w \<Longrightarrow> wc_steps w = template_steps t"
  by (cases t) (auto simp: workflow_templates_def template_steps_def workflow_defs mk_workflow_def)

definition template_layers :: "workflow_template \<Rightarrow> string list list" where
  "template_layers t = get_execution_layers (template_graph (template_steps t))"

text \<open>The layers of every template, as the engine computes them.\<close>

fun layer_table :: "workflow_template \<Rightarrow> string list list" where
  "layer_table EXTERNAL_CHAT =
     [[''request_adapter'', ''validation''],
      [''signature_verify'', ''resolve_assets'', ''mcp_discovery'', ''quota_check'',
       ''rate_limit'', ''routing''],
      [''template_render''],
      [''agent_executor''],
      [''response_transform''],
      [''memory_write'', ''sanitize'', ''billing''],
      [''audit_log'']]"
| "layer_table EXTERNAL_EMBEDDINGS =
     [[''request_adapter'', ''validation''],
      [''signature_verify'', ''quota_check'', ''rate_limit'', ''routing''],
      [''provider_execution''],
      [''response_transform''],
      [''sanitize'', ''billing''],
      [''audit_log'']]"
| "layer_table EXTERNAL_IMAGE =
     [[''request_adapter'', ''validation''],
      [''signature_verify'', ''resolve_assets'', ''quota_check'', ''rate_limit'',
       ''routing''],
      [''provider_execution''],
      [''response_transform''],
      [''sanitize'', ''billing''],
      [''audit_log'']]"
| "layer_table INTERNAL_CHAT =
     [[''request_adapter'', ''validation''],
      [''conversation_load'', ''resolve_assets'', ''mcp_discovery'', ''quota_check'',
       ''rate_limit'', ''routing''],
      [''assistant_prompt_injection'', ''jit_persona_tool_injection'', ''semantic_kernel''],
      [''template_render'', ''knowledge_selection_injection''],
      [''agent_executor''],
      [''response_transform''],
      [''spec_agent_detector'', ''memory_write'', ''sanitize'', ''billing''],
      [''conversation_append'', ''audit_log'']]"
| "layer_table INTERNAL_EMBEDDINGS =
     [[''validation''],
      [''quota_check'', ''rate_limit'', ''routing''],
      [''provider_execution''],
      [''response_transform''],
      [''billing''],
      [''audit_log'']]"
| "layer_table INTERNAL_IMAGE =
     [[''validation''],
      [''resolve_assets'', ''quota_check'', ''rate_limit'', ''routing''],
      [''provider_execution''],
      [''response_transform''],
      [''billing''],
      [''audit_log'']]"
| "layer_table INTERNAL_DEBUG =
     [[''validation''],
      [''routing'']]"
| "layer_table INTERNAL_PREVIEW =
     [[''validation''],
      [''resolve_assets'', ''mcp_discovery'', ''quota_check'', ''rate_limit'', ''routing''],
      [''jit_persona_tool_injection'', ''semantic_kernel'', ''template_render''],
      [''agent_executor''],
      [''response_transform''],
      [''sanitize'', ''billing''],
      [''audit_log'']]"


lemma template_layers_tab: "layers_tab (template_graph (template_steps t)) = Some (layer_table t)"
proof (cases t)
  case EXTERNAL_CHAT
  show ?thesis unfolding EXTERNAL_CHAT by code_simp
next
  case EXTERNAL_EMBEDDINGS
  show ?thesis unfolding EXTERNAL_EMBEDDINGS by code_simp
next
  case EXTERNAL_IMAGE
  show ?thesis unfolding EXTERNAL_IMAGE by code_simp
next
  case INTERNAL_CHAT
  show ?thesis unfolding INTERNAL_CHAT by code_simp
next
  case INTERNAL_EMBEDDINGS
  show ?thesis unfolding INTERNAL_EMBEDDINGS by code_simp
next
  case INTERNAL_IMAGE
  show ?thesis unfolding INTERNAL_IMAGE by code_simp
next
  case INTERNAL_DEBUG
  show ?thesis unfolding INTERNAL_DEBUG by code_simp
next
  case INTERNAL_PREVIEW
  show ?thesis unfolding INTERNAL_PREVIEW by code_simp
qed

definition graph_closed :: "string list \<Rightarrow> bool" where
  "graph_closed ns \<longleftrightarrow>
     (let g = template_graph ns
      in dkeys g = ns \<and> list_all (\<lambda>(n, ds). list_all (\<lambda>d. d \<in> set ns) ds) g)"

lemma template_closed: "graph_closed (template_steps t)"
  by (cases t) (hypsubst, code_simp)+

lemma template_layers_eq: "template_layers t = layer_table t"
  unfolding template_layers_def
  by (rule layers_tab_sound [OF _ template_layers_tab]) (simp add: template_graph_def)

lemma layer_table_cover: "set (concat (layer_table t)) = set (template_steps t)"
  by (cases t) (hypsubst, code_simp)+

lemma template_keys: "dkeys (template_graph (template_steps t)) = template_steps t"
  using template_closed [of t] by (simp add: graph_closed_def Let_def)

lemma template_valid: "validate_dag (template_graph (template_steps t)) = Inr ()"
proof -
  let ?g = "template_graph (template_steps t)"
  have wf: "dict_wf ?g" by (simp add: template_graph_def)
  have "d \<in> set (dkeys ?g)" if "n \<in> set (dkeys ?g)" "d \<in> set (deps_of ?g n)" for n d
  proof -
    from that(1) obtain ds where "dget ?g n = Some ds" unfolding dget_in_keys by blast
    with that(2) have "(n, ds) \<in> set ?g" "d \<in> set ds"
      by (auto simp: deps_of_def dest: dget_Some_in)
    with template_closed [of t] show ?thesis
      unfolding template_keys by (auto simp: graph_closed_def Let_def list_all_iff)
  qed
  then have "deps_known ?g" unfolding deps_known_def by blast
  moreover have "set (concat (get_execution_layers ?g)) = nodes ?g"
    using template_layers_eq [of t] layer_table_cover [of t]
    unfolding template_layers_def nodes_def template_keys by simp
  ultimately show ?thesis using validate_dag_layers [OF wf] by blast
qed

text \<open>An orchestrator that uses the registry and one of the templates.\<close>

definition uses_template :: "agent_settings \<Rightarrow> 'w gateway_orchestrator \<Rightarrow> workflow_context \<Rightarrow>
    workflow_template \<Rightarrow> bool" where
  "uses_template cfg g c t \<longleftrightarrow> go_custom_steps g = [] \<and>
     dget (workflow_templates cfg) t = Some (choose_workflow cfg g c)"

lemma template_engine:
  assumes "uses_template cfg g c t"
  shows "\<exists>steps. build_engine cfg (builtin_registry impl) g c = Inr steps \<and>
    dkeys steps = template_steps t \<and> execution_layers steps = layer_table t"
proof -
  from assms have ns: "wc_steps (choose_workflow cfg g c) = template_steps t"
    and "go_custom_steps g = []"
    using template_steps_any by (auto simp: uses_template_def)
  then obtain steps where b: "build_engine cfg (builtin_registry impl) g c = Inr steps"
    and dg: "dep_graph_of steps = template_graph (template_steps t)"
    using build_engine_graph [of g cfg c impl] template_valid [of t] by auto
  have "dkeys steps = template_steps t"
    using template_keys [of t] dkeys_dep_graph_of [of steps] unfolding dg by simp
  moreover have "execution_layers steps = layer_table t"
    using template_layers_eq [of t] by (simp add: execution_layers_def dg template_layers_def)
  ultimately show ?thesis using b by blast
qed

subsection \<open>Gatekeepers\<close>

text \<open>The steps that must have passed before a provider is called.\<close>

definition gate_steps :: "string list" where
  "gate_steps = [''validation'', ''signature_verify'', ''quota_check'', ''rate_limit'', ''routing'']"

definition provider_steps :: "string list" where
  "provider_steps = [''agent_executor'', ''provider_execution'']"

definition gates_first :: "workflow_template \<Rightarrow> bool" where
  "gates_first t \<longleftrightarrow> list_all (\<lambda>i. list_all (\<lambda>n. n \<in> set provider_steps \<longrightarrow>
     list_all (\<lambda>x. x \<in> set (template_steps t) \<longrightarrow> x \<in> set (concat (take i (layer_table t))))
       gate_steps) (layer_table t ! i)) [0..<length (layer_table t)]"

lemma gates_first_all: "gates_first t"
  by (cases t) (hypsubst, code_simp)+

text \<open>Steps of the layers before a step that has a result have completed.\<close>

lemma execute_earlier_ok:
  assumes wf: "steps_wf steps" and ex: "execute now sched steps s0 = (s, res)"
    and has: "has_result res n" and n: "i < length (execution_layers steps)" "n \<in> set (execution_layers steps ! i)"
    and m: "m \<in> set (concat (take i (execution_layers steps)))"
  shows "ok_result res m"
proof -
  let ?L = "execution_layers steps"
  obtain k where ok: "\<forall>n \<in> set (concat (take k ?L)). ok_result res n"
    and run: "\<forall>n. has_result res n \<longrightarrow> n \<in> set (concat (take (Suc k) ?L))"
    using execute_summary [OF wf ex] by blast
  from run has obtain j where j: "j < Suc k" "j < length ?L" "n \<in> set (?L ! j)"
    by (blast elim: concat_take_lessE)
  have "j = i"
  proof (rule ccontr)
    assume "j \<noteq> i"
    moreover have "distinct (concat ?L)" by (rule layered_distinct [OF steps_wf_layers(1) [OF wf]])
    ultimately show False
      using distinct_concat_disjoint [of ?L j i] j n by blast
  qed
  with j(1) have "take i ?L = take i (take k ?L)" by (simp add: min_def)
  with m have "m \<in> set (concat (take k ?L))"
    by (metis set_concat UN_iff in_set_takeD)
  with ok show ?thesis by blast
qed

subsection \<open>Properties\<close>

text \<open>Importing the step package registers every class, and for every channel and capability
  the default orchestrator builds an engine whose steps are exactly the chosen template's, in its
  order: no step is missing, and the aligned dependencies are known and acyclic.\<close>

theorem build_engine_total:
  "\<exists>reg steps. step_registry impl = Inr reg \<and> build_engine cfg reg get_orchestrator c = Inr steps \<and>
     dkeys steps = wc_steps (get_workflow_for_channel cfg (ctx_channel c)
       (if str_truthy (ctx_capability c) then the (ctx_capability c) else ''chat''))"
proof -
  let ?w = "choose_workflow cfg (get_orchestrator :: 'a gateway_orchestrator) c"
  have w: "?w = get_workflow_for_channel cfg (ctx_channel c)
      (if str_truthy (ctx_capability c) then the (ctx_capability c) else ''chat'')"
    by (simp add: choose_workflow_def get_orchestrator_def)
  obtain t where t: "dget (workflow_templates cfg) t = Some ?w"
    unfolding w using get_workflow_member by blast
  then have "uses_template cfg (get_orchestrator :: 'a gateway_orchestrator) c t"
    by (simp add: uses_template_def get_orchestrator_def)
  from template_engine [OF this, of impl] step_registry_ok [of impl] template_steps_any [OF t]
  show ?thesis unfolding w by metis
qed

text \<open>C4: in every run of a predefined workflow, whatever the steps do and however a layer is
  interleaved, a provider-calling step has a result only if every gatekeeper of that workflow
  (validation, signature, quota, rate limit, routing) completed without FAILED.\<close>

theorem provider_only_after_gates:
  assumes "uses_template cfg g (es_ctx s0) t"
    and "orchestrator_execute cfg (builtin_registry impl) now sched g s0 = Inr (s, res)"
    and "has_result res n" and "n \<in> set provider_steps"
    and "x \<in> set gate_steps" and "x \<in> set (template_steps t)"
  shows "ok_result res x"
proof -
  from template_engine [OF assms(1), of impl] obtain steps where
    b: "build_engine cfg (builtin_registry impl) g (es_ctx s0) = Inr steps"
    and L: "execution_layers steps = layer_table t" by blast
  then have ex: "execute now sched steps s0 = (s, res)"
    using assms(2) by (simp add: orchestrator_execute_def)
  from b have wf: "steps_wf steps" by (auto simp: build_engine_def Let_def dest: engine_init_wf)
  obtain k where "n \<in> set (concat (take (Suc k) (layer_table t)))"
    using execute_summary [OF wf ex] assms(3) unfolding L by blast
  then obtain i where i: "i < length (layer_table t)" "n \<in> set (layer_table t ! i)"
    by (rule concat_take_lessE)
  with gates_first_all [of t] assms(4-6) have "x \<in> set (concat (take i (layer_table t)))"
    unfolding gates_first_def list_all_iff by auto
  with execute_earlier_ok [OF wf ex assms(3)] i show ?thesis unfolding L by blast
qed

text \<open>In the internal chat workflow \<open>template_render\<close> and \<open>knowledge_selection_injection\<close> share
  a layer, with \<open>template_render\<close> first: the snippets that rendering reads are only written after
  it ran.\<close>

theorem internal_chat_renders_before_knowledge:
  assumes "uses_template cfg g c INTERNAL_CHAT"
    and "build_engine cfg (builtin_registry impl) g c = Inr steps"
  shows "execution_layers steps ! 3 = [''template_render'', ''knowledge_selection_injection''] \<and>
    ''knowledge_selection_injection'' \<notin> set (concat (take 3 (execution_layers steps)))"
proof -
  have L: "execution_layers steps = layer_table INTERNAL_CHAT"
    using template_engine [OF assms(1), of impl] assms(2) by auto
  show ?thesis unfolding L by simp
qed

definition configured_step :: "'w step_impl \<Rightarrow> step_attrs \<Rightarrow> workflow_config \<Rightarrow> 'w base_step" where
  "configured_step impl a w = cls_new (class_of impl a) (dget (wc_step_configs w) (at_name a))"

text \<open>The retries that the templates configure for \<open>billing\<close> never happen: the class keeps the
  default failure hook and an empty \<open>retry_on\<close>, so a raising billing step is attempted once
  although its \<open>max_retries\<close> is three.\<close>

theorem billing_never_retried:
  assumes "dget (workflow_templates cfg) t = Some w" and "''billing'' \<in> set (wc_steps w)"
    and "\<And>conf. step_on_failure (impl ''billing'' conf) = base_on_failure conf (\<lambda>_. False)"
    and "\<And>conf. step_retry_on (impl ''billing'' conf) = (\<lambda>_. False)"
    and "\<And>conf t s. step_execute (impl ''billing'' conf) t s = (Inl err, s\<lparr>es_world := bump (es_world s)\<rparr>)"
  shows "sc_max_retries (step_config_of (configured_step impl billing_attrs w)) = 3 \<and>
    (\<exists>s' res'. execute_step now (configured_step impl billing_attrs w) 0 (s, res) =
       (Inl (StepExecutionError ''billing'' err 1), s', res') \<and> es_world s' = bump (es_world s))"
proof -
  let ?st = "configured_step impl billing_attrs w"
  have cfg: "dget (wc_step_configs w) ''billing'' = Some (timed 10 3)"
    using assms(1,2) by (cases t) (auto simp: workflow_templates_def workflow_defs mk_workflow_def)
  then have st: "?st = (impl ''billing'' (timed 10 3))\<lparr>step_name := ''billing'',
      step_depends_on := [''response_transform''], step_config_of := timed 10 3\<rparr>"
    by (simp add: configured_step_def class_of_def billing_attrs_def Let_def)
  have three: "sc_max_retries (step_config_of ?st) = 3" by (simp add: st timed_def)
  have "\<exists>s' res'. execute_step now ?st 0 (s, res) =
      (Inl (StepExecutionError (step_name ?st) err 1), s', res') \<and> es_world s' = bump (es_world s)"
    by (rule execute_step_no_retry) (simp_all add: st assms(3-5) timed_def)
  with three show ?thesis by (simp add: st)
qed

subsection \<open>Concrete runs\<close>

definition demo_impl :: "nat step_impl" where
  "demo_impl nm conf = make_step nm [] (\<lambda>_. False)
     (\<lambda>t s. (Inr (new_step_result SUCCESS), s\<lparr>es_world := Suc (es_world s)\<rparr>)) (Some conf)"

definition demo_gateway_run :: "exn + nat run_state" where
  "demo_gateway_run = orchestrator_execute default_agent_settings (builtin_registry demo_impl) ''now''
     (\<lambda>_ _. 0) (for_channel default_agent_settings INTERNAL ''embedding'') demo_state"

lemma demo_gateway_result:
  "case demo_gateway_run of
     Inl _ \<Rightarrow> False | Inr r \<Rightarrow> has_result (snd r) ''provider_execution''"
  by code_simp

lemma demo_uses_embeddings:
  "uses_template default_agent_settings
     (for_channel default_agent_settings INTERNAL ''embedding'' :: nat gateway_orchestrator)
     (es_ctx demo_state) INTERNAL_EMBEDDINGS"
proof -
  have "str_lower ''embedding'' = ''embedding''" by code_simp
  then show ?thesis
    by (simp add: uses_template_def for_channel_def choose_workflow_def get_workflow_for_channel_def
        workflow_templates_def)
qed

lemma demo_uses_chat:
  "uses_template default_agent_settings
     (for_channel default_agent_settings INTERNAL ''chat'' :: nat gateway_orchestrator)
     (es_ctx demo_state) INTERNAL_CHAT"
proof -
  have "str_lower ''chat'' = ''chat''" by code_simp
  then show ?thesis
    by (simp add: uses_template_def for_channel_def choose_workflow_def get_workflow_for_channel_def
        workflow_templates_def media_capabilities_def)
qed

text \<open>C4 at a successful run of the internal embeddings workflow.\<close>

theorem provider_only_after_gates_witness:
  "\<exists>s res. demo_gateway_run = Inr (s, res) \<and> has_result res ''provider_execution'' \<and>
     ok_result res ''quota_check''"
proof -
  obtain s res where run: "demo_gateway_run = Inr (s, res)" and has: "has_result res ''provider_execution''"
    using demo_gateway_result by (auto split: sum.splits)
  have "ok_result res ''quota_check''"
    by (rule provider_only_after_gates [OF demo_uses_embeddings run [unfolded demo_gateway_run_def] has])
       (simp_all add: provider_steps_def gate_steps_def template_steps_def workflow_templates_def
         workflow_defs mk_workflow_def)
  with run has show ?thesis by blast
qed

text \<open>The preceding statement at the engine of the internal chat workflow.\<close>

theorem internal_chat_renders_before_knowledge_witness:
  "\<exists>steps. build_engine default_agent_settings (builtin_registry demo_impl)
      (for_channel default_agent_settings INTERNAL ''chat'') (es_ctx demo_state) = Inr steps \<and>
    execution_layers steps ! 3 = [''template_render'', ''knowledge_selection_injection'']"
proof -
  obtain steps where b: "build_engine default_agent_settings (builtin_registry demo_impl)
      (for_channel default_agent_settings INTERNAL ''chat'') (es_ctx demo_state) = Inr steps"
    using template_engine [OF demo_uses_chat, of demo_impl] by blast
  with internal_chat_renders_before_knowledge [OF demo_uses_chat b] show ?thesis by blast
qed

definition failing_impl :: "nat step_impl" where
  "failing_impl nm conf = make_step nm [] (\<lambda>_. False)
     (\<lambda>t s. (Inl TimeoutError, s\<lparr>es_world := Suc (es_world s)\<rparr>)) (Some conf)"

text \<open>The preceding statement at a billing step that times out in the internal embeddings workflow.\<close>

theorem billing_never_retried_witness:
  "sc_max_retries (step_config_of (configured_step failing_impl billing_attrs
      internal_embeddings_workflow)) = 3 \<and>
   (\<exists>s' res'. execute_step ''now'' (configured_step failing_impl billing_attrs
      internal_embeddings_workflow) 0 (demo_state, new_execution_result) =
      (Inl (StepExecutionError ''billing'' TimeoutError 1), s', res') \<and> es_world s' = 1)"
proof -
  have "sc_max_retries (step_config_of (configured_step failing_impl billing_attrs
      internal_embeddings_workflow)) = 3 \<and>
   (\<exists>s' res'. execute_step ''now'' (configured_step failing_impl billing_attrs
      internal_embeddings_workflow) 0 (demo_state, new_execution_result) =
      (Inl (StepExecutionError ''billing'' TimeoutError 1), s', res') \<and>
      es_world s' = Suc (es_world demo_state))"
    by (rule billing_never_retried [of default_agent_settings INTERNAL_EMBEDDINGS])
       (simp_all add: workflow_templates_def internal_embeddings_workflow_def mk_workflow_def
         failing_impl_def make_step_def Let_def)
  then show ?thesis by (simp add: demo_state_def)
qed

end
