(* ===== verification/Billing_Steps.thy ===== *)
theory Billing_Steps
  imports Billing_Pipeline Gateway_Orchestrator
begin

section \<open>The quota and billing steps of the gateway\<close>

text \<open>
  \<open>QuotaCheckStep\<close> (src/app/services/workflow/steps/quota_check.py), \<open>BillingStep\<close>
  (src/app/services/workflow/steps/billing.py) and the callback that bills a finished stream
  (src/app/services/workflow/stream_billing.py), as effects on an engine state whose world holds the
  billing state, the API keys, their budget hashes in Redis and the jobs scheduled for after the
  commit. The request object is the dictionary of its attributes. The text of a float in a message
  is the argument \<open>fmt\<close>; the database id of a transaction is identified with its trace id. Tenant
  and key ids are taken to be well-formed.
\<close>

datatype quota_type = TokenQuota | RequestQuota | CostQuota

record api_key_quota =
  kq_type :: quota_type
  kq_total :: int
  kq_used :: int

record api_key =
  ak_budget_limit :: "rat option"
  ak_budget_used :: rat
  ak_quotas :: "api_key_quota list"

record billing_world =
  bw_billing :: billing_state
  bw_keys :: "(string, api_key) dict"
  bw_key_hashes :: "(string, redis_hash) dict"
  bw_jobs :: "(string \<times> (string, pyval) dict) list"

abbreviation bw_redis :: "billing_world \<Rightarrow> bool" where
  "bw_redis w \<equiv> qs_redis (bs_quota (bw_billing w))"

text \<open>\<open>int(x)\<close> drops the fraction.\<close>

definition py_int :: "rat \<Rightarrow> int" where
  "py_int x = (if x < 0 then \<lceil>x\<rceil> else \<lfloor>x\<rfloor>)"

subsection \<open>Reading the context\<close>

definition ctx_pricing :: "workflow_context \<Rightarrow> pricing" where
  "ctx_pricing c = as_dict (py_or (ctx_get c ''routing'' ''pricing_config'' PNone) (PDict []))"

definition request_max_tokens :: "workflow_context \<Rightarrow> pyval \<Rightarrow> pyval" where
  "request_max_tokens c dflt =
     (let request = ctx_get c ''validation'' ''request'' PNone
      in if truthy request then py_get (as_dict request) ''max_tokens'' dflt else dflt)"

text \<open>\<open>estimate_cost(pricing, max_tokens)\<close>: without pricing the tokens are not looked at, with
  pricing a missing number of tokens raises.\<close>

definition estimate_cost_py :: "pricing \<Rightarrow> pyval \<Rightarrow> exn + rat" where
  "estimate_cost_py p max_tokens =
     (if p = [] then Inr 0
      else (case max_tokens of
              PInt n \<Rightarrow> Inr (estimate_cost p n)
            | _ \<Rightarrow> Inl (OtherError ''TypeError'' ''unsupported operand type(s) for *'')))"

definition quota_error_str :: "(rat \<Rightarrow> string) \<Rightarrow> billing_error \<Rightarrow> string" where
  "quota_error_str fmt e =
     (case e of
        QuotaExceededError k r av \<Rightarrow>
          k @ '' quota insufficient: required='' @ fmt r @ '', available='' @ fmt av
      | InsufficientQuotaError k r av \<Rightarrow>
          k @ '' quota insufficient: required='' @ fmt r @ '', available='' @ fmt av
      | InsufficientBalanceError r av \<Rightarrow>
          ''Insufficient balance: required='' @ fmt r @ '', available='' @ fmt av
      | DuplicateTransactionError t \<Rightarrow> ''Duplicate transaction: trace_id='' @ t
      | BillingValueError m \<Rightarrow> m
      | AttributeError a \<Rightarrow> a)"

subsection \<open>Quota check\<close>

definition warm_apikey_budget_cache :: "bool \<Rightarrow> string \<Rightarrow> billing_world \<Rightarrow> billing_world" where
  "warm_apikey_budget_cache contended key w =
     (if contended then w
      else (case dget (bw_keys w) key of
              None \<Rightarrow> w
            | Some k \<Rightarrow>
                let used_micro = py_int (ak_budget_used k * 1000000);
                    limit_micro = (case ak_budget_limit k of None \<Rightarrow> 0 | Some l \<Rightarrow> py_int (l * 1000000))
                in w\<lparr>bw_key_hashes := dput key
                       (hset [(''budget_used'', HNum (of_int used_micro)),
                              (''budget_limit'', HNum (of_int limit_micro)),
                              (''version'', HNum 1)]
                          (case dget (bw_key_hashes w) key of None \<Rightarrow> [] | Some h \<Rightarrow> h))
                       (bw_key_hashes w)\<rparr>))"

definition get_apikey_budget_used :: "bool \<Rightarrow> workflow_context \<Rightarrow> string \<Rightarrow> billing_world \<Rightarrow> rat \<times> billing_world" where
  "get_apikey_budget_used contended c key w =
     (if \<not> bw_redis w then (num_of (ctx_get c ''external_auth'' ''budget_used'' PNone), w)
      else
        let w1 = (if dget (bw_key_hashes w) key = None then warm_apikey_budget_cache contended key w else w)
        in (case dget (bw_key_hashes w1) key of
              None \<Rightarrow> (0, w1)
            | Some h \<Rightarrow> (hnum h ''budget_used'' / 1000000, w1)))"

fun first_exhausted :: "api_key_quota list \<Rightarrow> billing_error option" where
  "first_exhausted [] = None"
| "first_exhausted (q # qs) =
     (if kq_type q = RequestQuota \<and> kq_total q \<le> kq_used q
      then Some (QuotaExceededError ''apikey_request'' (of_int (kq_total q)) (of_int (kq_used q)))
      else if kq_type q = TokenQuota \<and> 0 < kq_total q \<and> kq_total q \<le> kq_used q
      then Some (QuotaExceededError ''apikey_token'' (of_int (kq_total q)) (of_int (kq_used q)))
      else first_exhausted qs)"

definition check_api_key_quota :: "bool \<Rightarrow> string option \<Rightarrow> workflow_context \<Rightarrow> billing_world \<Rightarrow>
    billing_error option \<times> workflow_context \<times> billing_world" where
  "check_api_key_quota contended api_key_id c w =
     (if \<not> str_truthy api_key_id then (None, c, w)
      else
        let key = the api_key_id;
            limit = ctx_get c ''external_auth'' ''budget_limit'' PNone;
            rest = (\<lambda>c w. case dget (bw_keys w) key of
                      None \<Rightarrow> (None, c, w) | Some k \<Rightarrow> (first_exhausted (ak_quotas k), c, w))
        in if limit = PNone then rest c w
           else (case get_apikey_budget_used contended c key w of
                   (used, w1) \<Rightarrow>
                     if num_of limit \<le> used
                     then (Some (QuotaExceededError ''budget'' (num_of limit) used), c, w1)
                     else rest (ctx_set ''external_auth'' ''budget_used'' (PFloat used) c) w1))"

definition info_dict :: "quota_info \<Rightarrow> (string, pyval) dict" where
  "info_dict i =
     [(''balance'', PFloat (qi_balance i))] @
     (case qi_credit_limit i of None \<Rightarrow> [] | Some l \<Rightarrow> [(''credit_limit'', PFloat l)]) @
     [(''daily_remaining'', opt_int (qi_daily_remaining i)),
      (''monthly_remaining'', opt_int (qi_monthly_remaining i)),
      (''daily_used'', PInt (qi_daily_used i)), (''monthly_used'', PInt (qi_monthly_used i)),
      (''version'', PInt (qi_version i))]"

text \<open>The guarded part: a quota error, another exception, or the information of the tenant.\<close>

definition quota_check_body :: "reply_conv \<Rightarrow> bool \<Rightarrow> workflow_context \<Rightarrow> billing_world \<Rightarrow>
    ((billing_error + exn) + quota_info option) \<times> workflow_context \<times> billing_world" where
  "quota_check_body conv contended c w =
     (case (if is_external c then check_api_key_quota contended (ctx_api_key_id c) c w else (None, c, w)) of
        (Some e, c1, w1) \<Rightarrow> (Inl (Inl e), c1, w1)
      | (None, c1, w1) \<Rightarrow>
          if \<not> str_truthy (ctx_tenant_id c) then (Inr None, c1, w1)
          else
            (case estimate_cost_py (ctx_pricing c1) (request_max_tokens c1 (PInt 4096)) of
               Inl e \<Rightarrow> (Inl (Inr e), c1, w1)
             | Inr cost \<Rightarrow>
                 (case quota_precheck conv contended (the (ctx_tenant_id c)) cost (bs_quota (bw_billing w1)) of
                    (r, qs) \<Rightarrow>
                      (case r of Inl e \<Rightarrow> Inl (Inl e) | Inr i \<Rightarrow> Inr (Some i), c1,
                       w1\<lparr>bw_billing := (bw_billing w1)\<lparr>bs_quota := qs\<rparr>\<rparr>))))"

definition write_quota_info :: "quota_info \<Rightarrow> workflow_context \<Rightarrow> workflow_context" where
  "write_quota_info i c =
     ctx_set ''quota_check'' ''monthly_remaining'' (opt_int (qi_monthly_remaining i))
       (ctx_set ''quota_check'' ''daily_remaining'' (opt_int (qi_daily_remaining i))
         (ctx_set ''quota_check'' ''remaining_balance'' (PFloat (qi_balance i)) c))"

definition quota_check_execute :: "(rat \<Rightarrow> string) \<Rightarrow> reply_conv \<Rightarrow> bool \<Rightarrow> workflow_context \<Rightarrow> billing_world \<Rightarrow>
    step_result \<times> workflow_context \<times> billing_world" where
  "quota_check_execute fmt conv contended c w =
     (if \<not> ctx_db_session c then (new_step_result SUCCESS, c, w)
      else if \<not> str_truthy (ctx_tenant_id c) \<and> \<not> str_truthy (ctx_api_key_id c)
      then (if is_external c then (new_step_result SUCCESS)\<lparr>sr_message := Some ''skip_external_no_identity''\<rparr>
            else new_step_result SUCCESS, c, w)
      else (case quota_check_body conv contended c w of
              (Inr None, c1, w1) \<Rightarrow> ((new_step_result SUCCESS)\<lparr>sr_data := Some []\<rparr>, c1, w1)
            | (Inr (Some i), c1, w1) \<Rightarrow>
                ((new_step_result SUCCESS)\<lparr>sr_data := Some (info_dict i)\<rparr>, write_quota_info i c1, w1)
            | (Inl (Inl e), c1, w1) \<Rightarrow>
                (case e of
                   QuotaExceededError k r av \<Rightarrow>
                     ((new_step_result FAILED)\<lparr>sr_message := Some (quota_error_str fmt e)\<rparr>,
                      mark_error GATEWAY (''QUOTA_'' @ str_upper k @ ''_EXCEEDED'') (quota_error_str fmt e)
                        None None c1, w1)
                 | _ \<Rightarrow> ((new_step_result SUCCESS)\<lparr>sr_message := Some ''quota check degraded''\<rparr>, c1, w1))
            | (Inl (Inr _), c1, w1) \<Rightarrow>
                ((new_step_result SUCCESS)\<lparr>sr_message := Some ''quota check degraded''\<rparr>, c1, w1)))"

subsection \<open>Billing\<close>

definition usage_of :: "workflow_context \<Rightarrow> usage_info" where
  "usage_of c = no_usage\<lparr>ui_provider := ur_provider (ctx_upstream_result c), ui_model := ctx_requested_model c,
     ui_provider_model_id := (case ctx_get c ''routing'' ''provider_model_id'' PNone of PStr x \<Rightarrow> Some x | _ \<Rightarrow> None),
     ui_api_key_id := ctx_api_key_id c\<rparr>"

definition step_commit :: "workflow_context \<Rightarrow> billing_state \<Rightarrow> billing_state" where
  "step_commit c s = (if ctx_db_session c then commit_session s else s)"

text \<open>
  Without a session the repository raises when it first uses it; with one, an existing transaction
  is returned before the number of tokens is looked at, and comparing a missing number raises.
\<close>

definition create_pending_for_stream :: "workflow_context \<Rightarrow> billing_state \<Rightarrow>
    step_result \<times> workflow_context \<times> billing_state" where
  "create_pending_for_stream c s =
     (if ctx_pricing c = [] \<or> \<not> str_truthy (ctx_tenant_id c)
      then (new_step_result SUCCESS, ctx_set ''billing'' ''skip_reason'' (PStr ''no_pricing_or_tenant'') c, s)
      else
        let failed = (new_step_result FAILED)\<lparr>sr_message := Some ''Create pending billing failed''\<rparr>;
            tokens = request_max_tokens c (PInt 4096);
            done = (\<lambda>n. case create_pending_transaction (the (ctx_tenant_id c)) (ctx_trace_id c) n
                          (ctx_pricing c) (usage_of c) s of
                     (t, s1) \<Rightarrow>
                       ((new_step_result SUCCESS)\<lparr>sr_data := Some [(''pending_transaction_id'', PStr (tx_trace_id t))]\<rparr>,
                        ctx_set ''billing'' ''pricing_config'' (PDict (ctx_pricing c))
                          (ctx_set ''billing'' ''pending_trace_id'' (PStr (ctx_trace_id c))
                            (ctx_set ''billing'' ''pending_transaction_id'' (PStr (tx_trace_id t)) c)),
                        step_commit c s1))
        in if \<not> ctx_db_session c then (failed, c, s)
           else (case tokens of
                   PInt n \<Rightarrow> done n
                 | _ \<Rightarrow> if get_by_trace_id (ctx_trace_id c) s \<noteq> None then done 0 else (failed, c, s)))"

definition not_positive :: "pyval \<Rightarrow> bool" where
  "not_positive v = (case v of PInt i \<Rightarrow> i \<le> 0 | PFloat r \<Rightarrow> r \<le> 0 | PBool b \<Rightarrow> \<not> b | _ \<Rightarrow> False)"

definition sync_affinity_savings :: "rat \<Rightarrow> workflow_context \<Rightarrow> workflow_context" where
  "sync_affinity_savings rate c =
     (if \<not> truthy (ctx_get c ''routing'' ''affinity_hit'' (PBool False)) then c
      else
        let discount = max 0 (min 1 rate);
            tokens = py_or (ctx_get c ''routing'' ''affinity_saved_tokens_est'' (PInt 0)) (PInt 0);
            c1 = (if not_positive tokens \<and> 0 < bi_total_tokens (ctx_billing c)
                  then ctx_set ''routing'' ''affinity_saved_tokens_est''
                         (PInt (py_int (of_int (bi_total_tokens (ctx_billing c)) * discount))) c
                  else c);
            cost = py_or (ctx_get c1 ''routing'' ''affinity_saved_cost_est'' (PFloat 0)) (PFloat 0)
        in if not_positive cost \<and> 0 < bi_total_cost (ctx_billing c1)
           then ctx_set ''routing'' ''affinity_saved_cost_est''
                  (PFloat (bi_total_cost (ctx_billing c1) * discount)) c1
           else c1)"

text \<open>A currency in a pricing configuration is text.\<close>

definition currency_of :: "pricing \<Rightarrow> string" where
  "currency_of p = (case py_get p ''currency'' (PStr ''USD'') of PStr x \<Rightarrow> x | _ \<Rightarrow> ''USD'')"

definition fill_billing :: "rat \<times> rat \<times> rat \<Rightarrow> string \<Rightarrow> workflow_context \<Rightarrow> workflow_context" where
  "fill_billing costs currency c =
     c\<lparr>ctx_billing := (ctx_billing c)\<lparr>bi_input_cost := fst costs, bi_output_cost := fst (snd costs),
         bi_total_cost := snd (snd costs), bi_currency := currency\<rparr>\<rparr>"

definition deduct_balance_step :: "reply_conv \<Rightarrow> workflow_context \<Rightarrow> rat \<Rightarrow> pricing \<Rightarrow> int \<Rightarrow> int \<Rightarrow> billing_state \<Rightarrow>
    (billing_error + rat option) \<times> billing_state" where
  "deduct_balance_step conv c total_cost p n k s =
     (if \<not> ctx_db_session c \<or> \<not> str_truthy (ctx_tenant_id c) \<or> total_cost \<le> 0 then (Inr None, s)
      else if ctx_get c ''quota_check'' ''remaining_balance'' PNone = PNone \<and>
              ctx_get c ''quota_check'' ''daily_remaining'' PNone = PNone \<and>
              ctx_get c ''quota_check'' ''monthly_remaining'' PNone = PNone
      then (case deduct conv (the (ctx_tenant_id c)) total_cost (ctx_trace_id c)
                   ((usage_of c)\<lparr>ui_input_tokens := n, ui_output_tokens := k,
                      ui_input_price := price p ''input_per_1k'', ui_output_price := price p ''output_per_1k''\<rparr>)
                   False s of
              (Inl e, s1) \<Rightarrow> (Inl e, s1)
            | (Inr t, s1) \<Rightarrow> (Inr (Some (tx_balance_after t)), s1))
      else (Inr None, s))"

definition record_usage :: "workflow_context \<Rightarrow> pricing \<Rightarrow> int \<Rightarrow> int \<Rightarrow> billing_state \<Rightarrow>
    (billing_error + workflow_context) \<times> billing_state" where
  "record_usage c p n k s =
     (if \<not> ctx_db_session c \<or> p = [] \<or> \<not> str_truthy (ctx_tenant_id c) then (Inr c, s)
      else
        let max_tokens = (case py_or (request_max_tokens c PNone) (PInt 4096) of PInt m \<Rightarrow> m | _ \<Rightarrow> 4096)
        in (case record_and_adjust (the (ctx_tenant_id c)) (ctx_trace_id c) n k p
                   (estimate_cost p max_tokens) (usage_of c) s of
              (Inl e, s1) \<Rightarrow> (Inl e, s1)
            | (Inr None, s1) \<Rightarrow> (Inr c, s1)
            | (Inr (Some b), s1) \<Rightarrow> (Inr (ctx_set ''billing'' ''balance_after'' (PFloat b) c), s1)))"

definition error_class :: "billing_error \<Rightarrow> string" where
  "error_class e =
     (case e of InsufficientQuotaError _ _ _ \<Rightarrow> ''InsufficientQuotaError''
      | InsufficientBalanceError _ _ \<Rightarrow> ''InsufficientBalanceError''
      | DuplicateTransactionError _ \<Rightarrow> ''DuplicateTransactionError''
      | QuotaExceededError _ _ _ \<Rightarrow> ''QuotaExceededError''
      | BillingValueError _ \<Rightarrow> ''ValueError''
      | AttributeError _ \<Rightarrow> ''AttributeError'')"

definition exn_of_billing :: "(rat \<Rightarrow> string) \<Rightarrow> billing_error \<Rightarrow> exn" where
  "exn_of_billing fmt e = OtherError (error_class e) (quota_error_str fmt e)"

definition billing_result :: "int \<Rightarrow> int \<Rightarrow> rat \<Rightarrow> string \<Rightarrow> step_result" where
  "billing_result n k cost currency =
     (new_step_result SUCCESS)\<lparr>sr_data := Some [(''input_tokens'', PInt n), (''output_tokens'', PInt k),
        (''total_cost'', PFloat cost), (''currency'', PStr currency)]\<rparr>"

definition billing_failed :: "(rat \<Rightarrow> string) \<Rightarrow> billing_error \<Rightarrow> workflow_context \<Rightarrow> step_result \<times> workflow_context" where
  "billing_failed fmt e c =
     (case e of
        InsufficientBalanceError r av \<Rightarrow>
          ((new_step_result FAILED)\<lparr>sr_message := Some ''Payment required'',
             sr_data := Some [(''error_code'', PStr ''INSUFFICIENT_BALANCE''), (''required'', PFloat r),
                              (''available'', PFloat av)]\<rparr>,
           mark_error GATEWAY ''INSUFFICIENT_BALANCE'' (quota_error_str fmt e) None None c)
      | _ \<Rightarrow> ((new_step_result FAILED)\<lparr>sr_message := Some ''billing failed''\<rparr>, c))"

definition deduct_for_non_stream :: "(rat \<Rightarrow> string) \<Rightarrow> reply_conv \<Rightarrow> rat \<Rightarrow> workflow_context \<Rightarrow> billing_state \<Rightarrow>
    (exn + step_result) \<times> workflow_context \<times> billing_state" where
  "deduct_for_non_stream fmt conv rate c0 s =
     (let p = ctx_pricing c0;
          n = bi_input_tokens (ctx_billing c0);
          k = bi_output_tokens (ctx_billing c0);
          costs = calculate_cost n k p;
          cost = snd (snd costs);
          currency = currency_of p;
          c = sync_affinity_savings rate (ctx_set ''billing'' ''total_cost'' (PFloat cost) (fill_billing costs currency c0))
      in if p = [] \<or> \<not> str_truthy (ctx_tenant_id c) then
           let c1 = ctx_set ''billing'' ''skip_reason'' (PStr ''no_pricing_or_tenant'') c
           in (case record_usage c1 p n k s of
                 (Inl e, s1) \<Rightarrow> (Inl (exn_of_billing fmt e), c1, s1)
               | (Inr c2, s1) \<Rightarrow> (Inr (new_step_result SUCCESS), c2, step_commit c2 s1))
         else if is_internal c then
           (case record_usage c p n k s of
              (Inl e, s1) \<Rightarrow> (Inl (exn_of_billing fmt e), c, s1)
            | (Inr c2, s1) \<Rightarrow> (Inr (billing_result n k cost currency), c2, step_commit c2 s1))
         else
           (case deduct_balance_step conv c cost p n k s of
              (Inl e, s1) \<Rightarrow> (case billing_failed fmt e c of (r, c2) \<Rightarrow> (Inr r, c2, s1))
            | (Inr (Some b), s1) \<Rightarrow>
                (Inr (billing_result n k cost currency), ctx_set ''billing'' ''balance_after'' (PFloat b) c,
                 step_commit c s1)
            | (Inr None, s1) \<Rightarrow>
                (case record_usage c p n k s1 of
                   (Inl e, s2) \<Rightarrow> (case billing_failed fmt e c of (r, c2) \<Rightarrow> (Inr r, c2, s2))
                 | (Inr c2, s2) \<Rightarrow> (Inr (billing_result n k cost currency), c2, step_commit c2 s2))))"

definition billing_execute :: "(rat \<Rightarrow> string) \<Rightarrow> reply_conv \<Rightarrow> rat \<Rightarrow> workflow_context \<Rightarrow> billing_world \<Rightarrow>
    (exn + step_result) \<times> workflow_context \<times> billing_world" where
  "billing_execute fmt conv rate c w =
     (if truthy (ctx_get c ''upstream_call'' ''stream'' (PBool False))
      then (case create_pending_for_stream c (bw_billing w) of (r, c1, s1) \<Rightarrow> (Inr r, c1, w\<lparr>bw_billing := s1\<rparr>))
      else (case deduct_for_non_stream fmt conv rate c (bw_billing w) of
              (r, c1, s1) \<Rightarrow> (r, c1, w\<lparr>bw_billing := s1\<rparr>)))"

subsection \<open>Billing a finished stream\<close>

text \<open>
  The jobs are those handed to the after-commit scheduler. A rollback restores rows and
  transactions to the last commit, which is the state before the callback.
\<close>

definition settle_stream :: "workflow_context \<Rightarrow> pricing \<Rightarrow> int \<Rightarrow> int \<Rightarrow> billing_state \<Rightarrow> bool \<times> billing_state" where
  "settle_stream c p n k s =
     (case estimate_cost_py p (request_max_tokens c (PInt 4096)) of
        Inl _ \<Rightarrow> (False, s)
      | Inr est \<Rightarrow>
          (case record_and_adjust (the (ctx_tenant_id c)) (ctx_trace_id c) n k p est
                  ((usage_of c)\<lparr>ui_description := Some ''Stream billing completed''\<rparr>) s of
             (Inl _, s1) \<Rightarrow>
               (False, s1\<lparr>bs_quota := (bs_quota s1)\<lparr>qs_rows := qs_rows (bs_quota s)\<rparr>, bs_txs := bs_txs s\<rparr>)
           | (Inr _, s1) \<Rightarrow> (True, commit_session s1)))"

definition hincrby :: "string \<Rightarrow> int \<Rightarrow> redis_hash \<Rightarrow> redis_hash" where
  "hincrby f n h = hset [(f, HNum (hnum h f + of_int n))] h"

definition add_budget_used :: "string \<Rightarrow> rat \<Rightarrow> billing_world \<Rightarrow> billing_world" where
  "add_budget_used key cost w =
     (if \<not> bw_redis w then w
      else
        let h = (case dget (bw_key_hashes w) key of None \<Rightarrow> [] | Some h \<Rightarrow> h)
        in w\<lparr>bw_key_hashes := dput key
               (hincrby ''version'' 1 (hincrby ''budget_used'' (py_int (cost * 1000000)) h))
               (bw_key_hashes w)\<rparr>)"

definition usage_job :: "workflow_context \<Rightarrow> int \<Rightarrow> int \<Rightarrow> rat \<Rightarrow> bool \<Rightarrow> string option \<Rightarrow> (string, pyval) dict" where
  "usage_job c n k cost completed err =
     [(''tenant_id'', if str_truthy (ctx_tenant_id c) then opt_str (ctx_tenant_id c) else PNone),
      (''api_key_id'', if str_truthy (ctx_api_key_id c) then opt_str (ctx_api_key_id c) else PNone),
      (''trace_id'', PStr (ctx_trace_id c)), (''model'', opt_str (ctx_requested_model c)),
      (''capability'', opt_str (ctx_capability c)), (''input_tokens'', PInt n),
      (''output_tokens'', PInt k), (''total_cost'', PFloat cost),
      (''currency'', PStr (bi_currency (ctx_billing c))),
      (''provider'', opt_str (ur_provider (ctx_upstream_result c))),
      (''latency_ms'', opt_float (ur_latency_ms (ctx_upstream_result c))),
      (''is_stream'', PBool True), (''stream_completed'', PBool completed),
      (''stream_error'', opt_str err)]"

definition stream_billing_callback :: "bool \<Rightarrow> string option \<Rightarrow> workflow_context \<Rightarrow> billing_world \<Rightarrow>
    workflow_context \<times> billing_world" where
  "stream_billing_callback completed err c0 w0 =
     (let p = ctx_pricing c0;
          n = bi_input_tokens (ctx_billing c0);
          k = bi_output_tokens (ctx_billing c0);
          costs = calculate_cost n k p;
          cost = snd (snd costs);
          currency = (if p \<noteq> [] then currency_of p
                      else if bi_currency (ctx_billing c0) = [] then ''USD'' else bi_currency (ctx_billing c0));
          c = fill_billing costs currency c0;
          (c1, w1) =
            (if p \<noteq> [] \<and> str_truthy (ctx_tenant_id c) \<and> ctx_db_session c
             then (case settle_stream c p n k (bw_billing w0) of
                     (ok, s1) \<Rightarrow>
                       let w = w0\<lparr>bw_billing := s1\<rparr>
                       in if ok \<and> str_truthy (ctx_api_key_id c) \<and> 0 < cost
                          then let wb = add_budget_used (the (ctx_api_key_id c)) cost w
                               in (ctx_set ''external_auth'' ''budget_used''
                                     (PFloat (num_of (ctx_get c ''external_auth'' ''budget_used'' PNone) + cost)) c,
                                   wb\<lparr>bw_jobs := bw_jobs wb @ [(''sync_apikey_budget'', [(''api_key_id'', opt_str (ctx_api_key_id c))])]\<rparr>)
                          else (c, w))
             else (c, w0))
      in (c1, if ctx_db_session c1
              then w1\<lparr>bw_jobs := bw_jobs w1 @ [(''record_usage'', usage_job c1 n k cost completed err)]\<rparr>
              else w1))"

subsection \<open>Which step sees the price\<close>

text \<open>
  In every template that checks quotas and routes, both steps share a layer and the quota check comes
  first, so the pricing that routing writes is not there when the cost is estimated.
\<close>

fun comes_first :: "'a \<Rightarrow> 'a \<Rightarrow> 'a list list \<Rightarrow> bool" where
  "comes_first a b [] = False"
| "comes_first a b (l # ls) =
     (if b \<in> set l then a \<in> set l \<and> index_of l a < index_of l b else a \<notin> set l \<and> comes_first a b ls)"

lemma quota_check_in_layer_of_routing:
  "''quota_check'' \<in> set (template_steps t) \<Longrightarrow> ''routing'' \<in> set (template_steps t) \<Longrightarrow>
   comes_first ''quota_check'' ''routing'' (layer_table t)"
  by (cases t) (hypsubst, code_simp)+

lemma ctx_pricing_unset: "ctx_get c ''routing'' ''pricing_config'' PNone = PNone \<Longrightarrow> ctx_pricing c = []"
  by (simp add: ctx_pricing_def py_or_def)

lemma estimate_without_price: "ctx_pricing c = [] \<Longrightarrow> estimate_cost_py (ctx_pricing c) m = Inr 0"
  by (simp add: estimate_cost_py_def)

subsection \<open>What the steps keep\<close>

lemma get_apikey_budget_used_keeps:
  "get_apikey_budget_used cont c key w = (x, w1) \<Longrightarrow> bw_billing w1 = bw_billing w"
  by (auto simp: get_apikey_budget_used_def warm_apikey_budget_cache_def Let_def
      split: if_splits option.splits)

lemma check_api_key_quota_keeps:
  assumes "check_api_key_quota cont key c w = (e, c1, w1)"
  shows "bw_billing w1 = bw_billing w" "ctx_pricing c1 = ctx_pricing c"
  using assms get_apikey_budget_used_keeps
  by (fastforce simp: check_api_key_quota_def Let_def ctx_pricing_def split: if_splits option.splits prod.splits)+

lemma first_exhausted_error: "first_exhausted qs = Some e \<Longrightarrow> \<exists>k r av. e = QuotaExceededError k r av"
  by (induction qs) (auto split: if_splits)

lemma check_api_key_quota_error:
  "check_api_key_quota cont key c w = (Some e, c1, w1) \<Longrightarrow> \<exists>k r av. e = QuotaExceededError k r av"
  by (auto simp: check_api_key_quota_def Let_def first_exhausted_error
      split: if_splits option.splits prod.splits)

lemma precheck_error_kind: "\<exists>k r av. precheck_error x = QuotaExceededError k r av"
  by (simp add: precheck_error_def Let_def)

lemma quota_precheck_redis_error:
  "qs_redis s \<Longrightarrow> qs_script s \<Longrightarrow> quota_precheck conv cont t cost s = (Inl e, s') \<Longrightarrow>
   \<exists>k r av. e = QuotaExceededError k r av"
  using precheck_error_kind by (auto simp: quota_precheck_def Let_def split: if_splits prod.splits)

text \<open>A quota check that passes for a tenant before its price is known has pre-deducted nothing.\<close>

lemma quota_check_pass_unpriced:
  assumes "quota_check_execute fmt conv cont c w = (r, c1, w1)" and "sr_status r = SUCCESS"
    and "ctx_db_session c" and "ctx_tenant_id c = Some t" and "t \<noteq> []" and "ctx_pricing c = []"
    and "bw_redis w" and "qs_script (bs_quota (bw_billing w))"
  shows "\<exists>i qs. quota_precheck conv cont t 0 (bs_quota (bw_billing w)) = (Inr i, qs) \<and>
    bw_billing w1 = (bw_billing w)\<lparr>bs_quota := qs\<rparr> \<and>
    ctx_get c1 ''quota_check'' ''remaining_balance'' PNone = PFloat (qi_balance i)"
proof -
  obtain e c0 w0 where k: "(if is_external c then check_api_key_quota cont (ctx_api_key_id c) c w
      else (None, c, w)) = (e, c0, w0)" by (metis prod_cases3)
  have keep: "bw_billing w0 = bw_billing w" "ctx_pricing c0 = []"
    using k check_api_key_quota_keeps assms(6) by (auto split: if_splits)
  show ?thesis
  proof (cases e)
    case (Some x)
    with k have "check_api_key_quota cont (ctx_api_key_id c) c w = (Some x, c0, w0)"
      by (auto split: if_splits)
    from check_api_key_quota_error [OF this] obtain kk rr av where "x = QuotaExceededError kk rr av"
      by blast
    then show ?thesis
      using assms(1-5) k Some
      by (simp add: quota_check_execute_def quota_check_body_def new_step_result_def)
         (auto simp: new_step_result_def)
  next
    case None
    obtain res qs where q: "quota_precheck conv cont t 0 (bs_quota (bw_billing w)) = (res, qs)"
      by (cases "quota_precheck conv cont t 0 (bs_quota (bw_billing w))")
    have body: "quota_check_body conv cont c w = (case res of Inl e \<Rightarrow> Inl (Inl e) | Inr i \<Rightarrow> Inr (Some i), c0,
        w0\<lparr>bw_billing := (bw_billing w)\<lparr>bs_quota := qs\<rparr>\<rparr>)"
      using k None assms(4,5) keep q by (simp add: quota_check_body_def estimate_cost_py_def)
    show ?thesis
    proof (cases res)
      case (Inl x)
      with q quota_precheck_redis_error assms(7,8) obtain kk rr av where "x = QuotaExceededError kk rr av"
        by blast
      with assms(1-5) body Inl show ?thesis by (auto simp: quota_check_execute_def new_step_result_def)
    next
      case (Inr i)
      with assms(1-5) body q show ?thesis
        by (auto simp: quota_check_execute_def write_quota_info_def)
    qed
  qed
qed

lemma sync_affinity_savings_keeps:
  "ctx_db_session (sync_affinity_savings rate c) = ctx_db_session c"
  "ctx_tenant_id (sync_affinity_savings rate c) = ctx_tenant_id c"
  "ctx_trace_id (sync_affinity_savings rate c) = ctx_trace_id c"
  "ctx_channel (sync_affinity_savings rate c) = ctx_channel c"
  "s \<noteq> ''routing'' \<Longrightarrow> ctx_get (sync_affinity_savings rate c) s k d = ctx_get c s k d"
  by (simp_all add: sync_affinity_savings_def Let_def) (simp_all add: ctx_set_def Let_def)

lemma ctx_set_keeps [frame_simps]:
  "ctx_db_session (ctx_set s k v c) = ctx_db_session c"
  "ctx_trace_id (ctx_set s k v c) = ctx_trace_id c"
  by (simp_all add: ctx_set_def Let_def)

lemma fill_billing_keeps [frame_simps]:
  "ctx_db_session (fill_billing x cur c) = ctx_db_session c"
  "ctx_tenant_id (fill_billing x cur c) = ctx_tenant_id c"
  "ctx_trace_id (fill_billing x cur c) = ctx_trace_id c"
  "ctx_channel (fill_billing x cur c) = ctx_channel c"
  "ctx_get (fill_billing x cur c) = ctx_get c"
  by (simp_all add: fill_billing_def ctx_get_def ctx_get_namespace_def fun_eq_iff)

lemma record_and_adjust_hooks:
  "record_and_adjust t trace n k p e u s = (r, s1) \<Longrightarrow> bs_hooks s1 = bs_hooks s"
  by (auto simp: record_and_adjust_def record_transaction_def adjust_redis_balance_def Let_def put_tx_def
      split: if_splits option.splits prod.splits sum.splits dest!: quota_or_create_txs)

lemma step_commit_no_hooks: "bs_hooks s = [] \<Longrightarrow> bs_quota (step_commit c s) = bs_quota s"
  by (simp add: step_commit_def commit_session_def)

lemma get_by_trace_id_commit: "get_by_trace_id x (step_commit c s) = get_by_trace_id x s"
  by (simp add: step_commit_def)

lemma create_pending_fresh:
  assumes "get_by_trace_id trace s = None"
  shows "\<exists>t. get_by_trace_id trace (snd (create_pending_transaction tenant trace n p u s)) = Some t \<and>
    tx_status t = TxPending"
  using assms
  by (cases "quota_or_create False tenant s") (simp add: create_pending_transaction_def Let_def get_put_tx)

lemma billing_external_settles:
  assumes "billing_execute fmt conv rate c w = (Inr r, c', w')" and "sr_status r = SUCCESS"
    and "\<not> truthy (ctx_get c ''upstream_call'' ''stream'' (PBool False))"
    and "ctx_pricing c \<noteq> []" and "ctx_tenant_id c = Some t" and "t \<noteq> []" and "ctx_db_session c" and "is_external c"
    and "ctx_get c ''quota_check'' ''remaining_balance'' PNone \<noteq> PNone"
    and "request_max_tokens c PNone = PInt m" and "m \<noteq> 0" and "bs_hooks (bw_billing w) = []"
  shows "\<exists>x u s1. record_and_adjust t (ctx_trace_id c) (bi_input_tokens (ctx_billing c))
      (bi_output_tokens (ctx_billing c)) (ctx_pricing c) (estimate_cost (ctx_pricing c) m) u (bw_billing w) = (Inr x, s1) \<and>
    bs_quota (bw_billing w') = bs_quota s1"
proof -
  let ?p = "ctx_pricing c" and ?n = "bi_input_tokens (ctx_billing c)" and ?k = "bi_output_tokens (ctx_billing c)"
  define c1 where "c1 = sync_affinity_savings rate (ctx_set ''billing'' ''total_cost''
    (PFloat (snd (snd (calculate_cost ?n ?k ?p)))) (fill_billing (calculate_cost ?n ?k ?p) (currency_of ?p) c))"
  have keep: "ctx_db_session c1" "ctx_tenant_id c1 = Some t" "ctx_trace_id c1 = ctx_trace_id c"
    "\<not> is_internal c1" "ctx_get c1 ''quota_check'' ''remaining_balance'' PNone \<noteq> PNone"
    "request_max_tokens c1 PNone = PInt m"
    using assms(5,7-10)
    by (simp_all add: c1_def sync_affinity_savings_keeps frame_simps is_internal_def is_external_def
        request_max_tokens_def)
  have none: "deduct_balance_step conv c1 x ?p ?n ?k s = (Inr None, s)" for x s
    using keep by (simp add: deduct_balance_step_def)
  let ?rec = "record_and_adjust t (ctx_trace_id c) ?n ?k ?p (estimate_cost ?p m) (usage_of c1) (bw_billing w)"
  obtain x s1 where rec: "?rec = (x, s1)" by (cases ?rec)
  have usage: "record_usage c1 ?p ?n ?k (bw_billing w) = (case x of Inl e \<Rightarrow> (Inl e, s1) | Inr None \<Rightarrow> (Inr c1, s1)
      | Inr (Some b) \<Rightarrow> (Inr (ctx_set ''billing'' ''balance_after'' (PFloat b) c1), s1))"
    using keep assms(4,6,11) rec by (simp add: record_usage_def py_or_def split: sum.splits option.splits)
  have run: "(Inr r, c', w') = (case deduct_for_non_stream fmt conv rate c (bw_billing w) of
      (r, c1, s1) \<Rightarrow> (r, c1, w\<lparr>bw_billing := s1\<rparr>))"
    using assms(1,3) by (simp add: billing_execute_def)
  have dns: "deduct_for_non_stream fmt conv rate c (bw_billing w) =
      (case record_usage c1 ?p ?n ?k (bw_billing w) of
         (Inl e, s2) \<Rightarrow> (case billing_failed fmt e c1 of (r, c2) \<Rightarrow> (Inr r, c2, s2))
       | (Inr c2, s2) \<Rightarrow> (Inr (billing_result ?n ?k (snd (snd (calculate_cost ?n ?k ?p))) (currency_of ?p)), c2,
           step_commit c2 s2))"
    unfolding deduct_for_non_stream_def Let_def c1_def [symmetric]
    using assms(4,6) keep none by simp
  have hooks: "bs_hooks s1 = []" using record_and_adjust_hooks [OF rec] assms(12) by simp
  show ?thesis
  proof (cases x)
    case (Inl e)
    have "sr_status (fst (billing_failed fmt e c1)) = FAILED"
      by (simp add: billing_failed_def new_step_result_def split: billing_error.splits)
    with run dns usage Inl assms(2) show ?thesis by (auto split: prod.splits)
  next
    case (Inr y)
    with run dns usage have "bw_billing w' = step_commit c' s1"
      by (auto split: option.splits)
    with step_commit_no_hooks [OF hooks] rec Inr show ?thesis by auto
  qed
qed

subsection \<open>Properties\<close>

text \<open>C24: an external request is charged its cost less the estimate. The quota check runs before
  routing has written the pricing, so it pre-deducts nothing; the billing step corrects by the cost
  less the estimate at the real pricing, as if that estimate had been taken. The Redis balance ends
  at the old one less the cost plus the estimate, so a request below its estimate earns money.\<close>

theorem gateway_refunds_untaken_estimate:
  assumes "redis_reply conv" and "bw_redis w" and "qs_script (bs_quota (bw_billing w))"
    and "dget (qs_hashes (bs_quota (bw_billing w))) t = Some h" and "bs_hooks (bw_billing w) = []"
    and "ctx_db_session c" and "ctx_tenant_id c = Some t" and "t \<noteq> []"
    and "ctx_get c ''routing'' ''pricing_config'' PNone = PNone"
    and "quota_check_execute fmt conv cont c w = (r, c1, w1)" and "sr_status r = SUCCESS"
    and "ctx_db_session c2" and "ctx_tenant_id c2 = Some t" and "is_external c2"
    and "\<not> truthy (ctx_get c2 ''upstream_call'' ''stream'' (PBool False))" and "ctx_pricing c2 = p" and "p \<noteq> []"
    and "ctx_get c2 ''quota_check'' ''remaining_balance'' PNone = ctx_get c1 ''quota_check'' ''remaining_balance'' PNone"
    and "request_max_tokens c2 PNone = PInt m" and "m \<noteq> 0"
    and "billing_execute fmt conv rate c2 w1 = (Inr r', c3, w3)" and "sr_status r' = SUCCESS"
    and "cost = snd (snd (calculate_cost (bi_input_tokens (ctx_billing c2)) (bi_output_tokens (ctx_billing c2)) p))"
    and "0 < cost"
  shows "\<exists>h'. dget (qs_hashes (bs_quota (bw_billing w3))) t = Some h' \<and>
    \<bar>hnum h' ''balance'' - (hnum h ''balance'' - cost + estimate_cost p m)\<bar> \<le> 1 / 1000000"
proof -
  from quota_check_pass_unpriced [OF assms(10,11,6,7,8) ctx_pricing_unset [OF assms(9)] assms(2,3)]
  obtain i qs where pre: "quota_precheck conv cont t 0 (bs_quota (bw_billing w)) = (Inr i, qs)"
    and w1: "bw_billing w1 = (bw_billing w)\<lparr>bs_quota := qs\<rparr>"
    and bal: "ctx_get c1 ''quota_check'' ''remaining_balance'' PNone = PFloat (qi_balance i)" by blast
  have hooks: "bs_hooks (bw_billing w1) = []" using w1 assms(5) by simp
  have "\<exists>x u s1. record_and_adjust t (ctx_trace_id c2) (bi_input_tokens (ctx_billing c2))
      (bi_output_tokens (ctx_billing c2)) p (estimate_cost p m) u (bw_billing w1) = (Inr x, s1) \<and>
    bs_quota (bw_billing w3) = bs_quota s1"
    using billing_external_settles [OF assms(21,22,15) _ assms(13,8,12,14) _ assms(19,20) hooks]
      assms(16,17,18) bal by simp
  then obtain x u s1 where
    rec: "record_and_adjust t (ctx_trace_id c2) (bi_input_tokens (ctx_billing c2))
      (bi_output_tokens (ctx_billing c2)) p (estimate_cost p m) u ((bw_billing w)\<lparr>bs_quota := qs\<rparr>) = (Inr x, s1)"
    and w3: "bs_quota (bw_billing w3) = bs_quota s1" unfolding w1 by blast
  from precheck_then_settle [OF assms(1-4,8,17) pre rec] assms(23,24) w3 show ?thesis
    by (auto simp: algebra_simps)
qed

text \<open>C31: a stream is never settled. The billing step writes a pending transaction under the trace id
  of the request; when the stream ends the callback records a transaction under the same id, which is
  refused as a duplicate, and rolls back: the transaction stays pending, the balance in Redis and the
  rows stay as they were, and the budget of the API key is not touched.\<close>

theorem stream_never_settled:
  assumes "billing_execute fmt conv rate c w = (Inr r, c1, w1)" and "sr_status r = SUCCESS"
    and "truthy (ctx_get c ''upstream_call'' ''stream'' (PBool False))"
    and "ctx_pricing c \<noteq> []" and "str_truthy (ctx_tenant_id c)"
    and "get_by_trace_id (ctx_trace_id c) (bw_billing w) = None"
    and "ctx_trace_id c2 = ctx_trace_id c" and "0 < snd (snd (calculate_cost (bi_input_tokens (ctx_billing c2))
      (bi_output_tokens (ctx_billing c2)) (ctx_pricing c2)))"
  shows "\<exists>t. get_by_trace_id (ctx_trace_id c) (bw_billing w1) = Some t \<and> tx_status t = TxPending \<and>
    bw_billing (snd (stream_billing_callback completed err c2 w1)) = bw_billing w1 \<and>
    bw_key_hashes (snd (stream_billing_callback completed err c2 w1)) = bw_key_hashes w1"
proof -
  let ?t = "create_pending_transaction (the (ctx_tenant_id c)) (ctx_trace_id c)"
  obtain r' c' s' where pend: "create_pending_for_stream c (bw_billing w) = (r', c', s')"
    by (metis prod_cases3)
  with assms(1-3) have "sr_status r' = SUCCESS" and w1: "bw_billing w1 = s'"
    by (auto simp: billing_execute_def)
  with pend assms(4-6) have "\<exists>n. s' = step_commit c (snd (?t n (ctx_pricing c) (usage_of c) (bw_billing w)))"
    by (cases "request_max_tokens c (PInt 4096)")
       (auto simp: create_pending_for_stream_def Let_def new_step_result_def split: prod.splits if_splits,
        metis snd_conv)
  then obtain n where run: "bw_billing w1 = step_commit c (snd (?t n (ctx_pricing c) (usage_of c) (bw_billing w)))"
    using w1 by blast
  obtain t where t: "get_by_trace_id (ctx_trace_id c) (bw_billing w1) = Some t" "tx_status t = TxPending"
    using create_pending_fresh [OF assms(6)] unfolding run by (metis get_by_trace_id_commit)
  have dup: "record_and_adjust tn (ctx_trace_id c2) n k p e u (bw_billing w1) =
      (if tn = [] \<or> p = [] \<or> snd (snd (calculate_cost n k p)) \<le> 0 then (Inr None, bw_billing w1)
       else (Inl (DuplicateTransactionError (ctx_trace_id c)), bw_billing w1))" for tn n k p e u
    using t assms(7) by (simp add: record_and_adjust_def record_transaction_def Let_def)
  have "settle_stream (fill_billing x cur c2) (ctx_pricing c2) (bi_input_tokens (ctx_billing c2))
      (bi_output_tokens (ctx_billing c2)) (bw_billing w1) = (False, bw_billing w1)"
    if "ctx_pricing c2 \<noteq> []" "str_truthy (ctx_tenant_id c2)" for x cur
    using that assms(8) by (auto simp: settle_stream_def dup frame_simps str_truthy_def
        split: sum.splits option.splits)
  then have "bw_billing (snd (stream_billing_callback completed err c2 w1)) = bw_billing w1"
    "bw_key_hashes (snd (stream_billing_callback completed err c2 w1)) = bw_key_hashes w1"
    by (simp_all add: stream_billing_callback_def Let_def frame_simps)
  with t show ?thesis by blast
qed

text \<open>A stream whose request leaves \<open>max_tokens\<close> open fails in the billing step: the missing
  number is compared with zero, the step reports FAILED and nothing is recorded.\<close>

theorem stream_without_max_tokens_fails:
  assumes "truthy (ctx_get c ''upstream_call'' ''stream'' (PBool False))"
    and "ctx_pricing c \<noteq> []" and "str_truthy (ctx_tenant_id c)"
    and "ctx_get c ''validation'' ''request'' PNone = PDict request" and "dget request ''max_tokens'' = Some PNone"
    and "get_by_trace_id (ctx_trace_id c) (bw_billing w) = None"
  shows "\<exists>r. billing_execute fmt conv rate c w = (Inr r, c, w) \<and> sr_status r = FAILED"
proof -
  have "request \<noteq> []" using assms(5) by auto
  then have "request_max_tokens c (PInt 4096) = PNone"
    using assms(4,5) by (simp add: request_max_tokens_def py_get_def)
  with assms show ?thesis
    by (simp add: billing_execute_def create_pending_for_stream_def Let_def new_step_result_def)
qed

subsection \<open>Witnesses\<close>

definition tenant_ctx :: workflow_context where
  "tenant_ctx = (new_context ''trace'' EXTERNAL ''now'')\<lparr>ctx_db_session := True, ctx_tenant_id := Some ''t''\<rparr>"

definition tenant_world :: billing_world where
  "tenant_world = \<lparr>bw_billing = stream_state, bw_keys = [], bw_key_hashes = [], bw_jobs = []\<rparr>"

text \<open>The context after routing and the upstream call: three per thousand input tokens, 500 of them used.\<close>

definition priced_ctx :: "pyval \<Rightarrow> pyval \<Rightarrow> workflow_context \<Rightarrow> workflow_context" where
  "priced_ctx max_tokens stream c =
     (ctx_set ''routing'' ''pricing_config'' (PDict [(''input_per_1k'', PInt 3)])
       (ctx_set ''validation'' ''request'' (PDict [(''max_tokens'', max_tokens)])
         (ctx_set ''upstream_call'' ''stream'' stream c)))
     \<lparr>ctx_billing := (ctx_billing c)\<lparr>bi_input_tokens := 500, bi_total_tokens := 500\<rparr>\<rparr>"

lemma priced_ctx_simps [simp]:
  "ctx_get (priced_ctx m st c) s k d = (if s = ''routing'' \<and> k = ''pricing_config'' then PDict [(''input_per_1k'', PInt 3)]
     else if s = ''validation'' \<and> k = ''request'' then PDict [(''max_tokens'', m)]
     else if s = ''upstream_call'' \<and> k = ''stream'' then st else ctx_get c s k d)"
  "ctx_pricing (priced_ctx m st c) = [(''input_per_1k'', PInt 3)]"
  "ctx_tenant_id (priced_ctx m st c) = ctx_tenant_id c" "ctx_db_session (priced_ctx m st c) = ctx_db_session c"
  "ctx_trace_id (priced_ctx m st c) = ctx_trace_id c" "ctx_channel (priced_ctx m st c) = ctx_channel c"
  "bi_input_tokens (ctx_billing (priced_ctx m st c)) = 500"
  "bi_output_tokens (ctx_billing (priced_ctx m st c)) = bi_output_tokens (ctx_billing c)"
proof -
  show get: "ctx_get (priced_ctx m st c) s k d = (if s = ''routing'' \<and> k = ''pricing_config'' then PDict [(''input_per_1k'', PInt 3)]
     else if s = ''validation'' \<and> k = ''request'' then PDict [(''max_tokens'', m)]
     else if s = ''upstream_call'' \<and> k = ''stream'' then st else ctx_get c s k d)" for s k d
  proof -
    have "ctx_get (x\<lparr>ctx_billing := b\<rparr>) = ctx_get x" for x b
      by (simp add: ctx_get_def ctx_get_namespace_def fun_eq_iff)
    then show ?thesis by (simp add: priced_ctx_def)
  qed
  show "ctx_pricing (priced_ctx m st c) = [(''input_per_1k'', PInt 3)]"
    by (simp add: ctx_pricing_def get py_or_def)
qed (simp_all add: priced_ctx_def frame_simps)

text \<open>C24 at a balance of 9.5, a cost of 1.5 and an estimate of three: the balance ends at 11.\<close>

theorem gateway_refunds_untaken_estimate_witness:
  "\<exists>r c1 w1 r' c3 w3 h'. quota_check_execute (\<lambda>_. []) resp2_conv False tenant_ctx tenant_world = (r, c1, w1) \<and>
     billing_execute (\<lambda>_. []) resp2_conv 0 (priced_ctx (PInt 1000) (PBool False) c1) w1 = (Inr r', c3, w3) \<and>
     dget (qs_hashes (bs_quota (bw_billing w3))) ''t'' = Some h' \<and> \<bar>hnum h' ''balance'' - 11\<bar> \<le> 1 / 1000000"
proof -
  let ?q = "quota_check_execute (\<lambda>_. []) resp2_conv False tenant_ctx tenant_world"
  let ?h = "hset [(''balance'', HNum (19 / 2))] race_hash" and ?p = "[(''input_per_1k'', PInt 3)]"
  obtain r c1 w1 where q: "?q = (r, c1, w1)" by (metis prod_cases3)
  let ?b = "billing_execute (\<lambda>_. []) resp2_conv 0 (priced_ctx (PInt 1000) (PBool False) (fst (snd ?q))) (snd (snd ?q))"
  have "sr_status (fst ?q) = SUCCESS" "ctx_tenant_id (fst (snd ?q)) = Some ''t''" "ctx_db_session (fst (snd ?q))"
    "is_external (fst (snd ?q))" "bi_output_tokens (ctx_billing (fst (snd ?q))) = 0" by code_simp+
  then have c1: "sr_status r = SUCCESS" "ctx_tenant_id c1 = Some ''t''" "ctx_db_session c1" "ctx_channel c1 = EXTERNAL"
    "bi_output_tokens (ctx_billing c1) = 0"
    by (simp_all add: q is_external_def)
  have "case fst ?b of Inl _ \<Rightarrow> False | Inr r' \<Rightarrow> sr_status r' = SUCCESS" by code_simp
  then obtain r' c3 w3 where b: "billing_execute (\<lambda>_. []) resp2_conv 0 (priced_ctx (PInt 1000) (PBool False) c1) w1 = (Inr r', c3, w3)"
    "sr_status r' = SUCCESS"
    unfolding q by (cases "billing_execute (\<lambda>_. []) resp2_conv 0 (priced_ctx (PInt 1000) (PBool False) c1) w1")
      (auto split: sum.splits)
  have conv: "redis_reply resp2_conv" by (simp add: redis_reply_def resp2_conv_def)
  have w: "bw_redis tenant_world" "qs_script (bs_quota (bw_billing tenant_world))"
    "dget (qs_hashes (bs_quota (bw_billing tenant_world))) ''t'' = Some ?h" "bs_hooks (bw_billing tenant_world) = []"
    by (simp_all add: tenant_world_def stream_state_def fraction_state_def) (simp_all add: race_state_def)
  have c: "ctx_db_session tenant_ctx" "ctx_tenant_id tenant_ctx = Some ''t''"
    "ctx_get tenant_ctx ''routing'' ''pricing_config'' PNone = PNone" by code_simp+
  have num: "snd (snd (calculate_cost 500 0 ?p)) = 3 / 2" "estimate_cost ?p 1000 = 3"
    "hnum ?h ''balance'' = 19 / 2" by code_simp+
  have mt: "request_max_tokens (priced_ctx (PInt 1000) (PBool False) c1) PNone = PInt 1000"
    by (simp add: request_max_tokens_def py_get_def)
  have "\<exists>h'. dget (qs_hashes (bs_quota (bw_billing w3))) ''t'' = Some h' \<and>
      \<bar>hnum h' ''balance'' - (hnum ?h ''balance'' - 3 / 2 + estimate_cost ?p 1000)\<bar> \<le> 1 / 1000000"
    by (rule gateway_refunds_untaken_estimate [OF conv w c(1,2) _ c(3) q c1(1) _ _ _ _ _ _ _ mt _ b])
       (simp_all add: c1 num is_external_def)
  with q b num show ?thesis by auto
qed

text \<open>C31 at a stream of 500 tokens.\<close>

theorem stream_never_settled_witness:
  "\<exists>r c1 w1 t. billing_execute (\<lambda>_. []) resp2_conv 0 (priced_ctx (PInt 1000) (PBool True) tenant_ctx) tenant_world =
      (Inr r, c1, w1) \<and> get_by_trace_id ''trace'' (bw_billing w1) = Some t \<and> tx_status t = TxPending \<and>
    bw_billing (snd (stream_billing_callback True None (priced_ctx (PInt 1000) (PBool True) tenant_ctx) w1)) = bw_billing w1"
proof -
  let ?c = "priced_ctx (PInt 1000) (PBool True) tenant_ctx"
  let ?b = "billing_execute (\<lambda>_. []) resp2_conv 0 ?c tenant_world"
  have "case fst ?b of Inl _ \<Rightarrow> False | Inr r' \<Rightarrow> sr_status r' = SUCCESS" by code_simp
  then obtain r c1 w1 where b: "?b = (Inr r, c1, w1)" "sr_status r = SUCCESS"
    by (cases ?b) (auto split: sum.splits)
  have num: "0 < snd (snd (calculate_cost (bi_input_tokens (ctx_billing ?c)) (bi_output_tokens (ctx_billing ?c))
      (ctx_pricing ?c)))" "get_by_trace_id (ctx_trace_id ?c) (bw_billing tenant_world) = None"
    "str_truthy (ctx_tenant_id ?c)" "ctx_trace_id ?c = ''trace''" by code_simp+
  from stream_never_settled [OF b _ _ num(3,2) refl num(1), of True None] b num(4) show ?thesis by auto
qed

text \<open>The preceding statement at a request without \<open>max_tokens\<close>.\<close>

theorem stream_without_max_tokens_fails_witness:
  "\<exists>r. billing_execute (\<lambda>_. []) resp2_conv 0 (priced_ctx PNone (PBool True) tenant_ctx) tenant_world =
     (Inr r, priced_ctx PNone (PBool True) tenant_ctx, tenant_world) \<and> sr_status r = FAILED"
proof -
  have "get_by_trace_id (ctx_trace_id (priced_ctx PNone (PBool True) tenant_ctx)) (bw_billing tenant_world) = None"
    "str_truthy (ctx_tenant_id (priced_ctx PNone (PBool True) tenant_ctx))" by code_simp+
  then show ?thesis
    by (intro stream_without_max_tokens_fails [where request = "[(''max_tokens'', PNone)]"]) simp_all
qed

end
