(* ===== verification/Budget_Sync.thy ===== *)
theory Budget_Sync
  imports Billing_Steps
begin

section \<open>Writing Redis figures back to the database\<close>

text \<open>
  The periodic tasks of src/app/tasks/quota_sync.py and src/app/tasks/apikey_sync.py: balance and
  counters of a tenant and the used budget of an API key are copied from their Redis hashes to the
  rows, Redis being the authority. Both quota variants (blocking and asynchronous) run the same
  comparison and update; a counter that is not the text of an integer makes \<open>int\<close> raise. The
  blocking API-key task reads its Redis address from the keyword arguments of the connection pool,
  a client library's; \<open>pool_url\<close> says whether they hold one.
\<close>

datatype sync_outcome =
    SyncSkipped string
  | AlreadySynced int int
  | SyncFailed string
  | Synced rat int int int int

definition int_field :: "redis_hash \<Rightarrow> string \<Rightarrow> int option" where
  "int_field h f = (if hnum h f = of_int \<lfloor>hnum h f\<rfloor> then Some \<lfloor>hnum h f\<rfloor> else None)"

definition sync_quota_row :: "rat \<Rightarrow> int \<Rightarrow> int \<Rightarrow> int \<Rightarrow> tenant_quota \<Rightarrow> quota_state \<Rightarrow> sync_outcome \<times> quota_state" where
  "sync_quota_row balance daily monthly version q s =
     (let balance_diff = \<bar>balance - tq_balance q\<bar>;
          daily_diff = \<bar>daily - tq_daily_used q\<bar>;
          monthly_diff = \<bar>monthly - tq_monthly_used q\<bar>
      in if balance_diff < 1 / 1000000 \<and> daily_diff = 0 \<and> monthly_diff = 0
         then (AlreadySynced version (tq_version q), s)
         else (Synced balance_diff daily_diff monthly_diff version (tq_version q),
               put_row (q\<lparr>tq_balance := balance, tq_daily_used := daily, tq_monthly_used := monthly,
                          tq_version := version\<rparr>) s))"

definition sync_quota_from_redis_to_db :: "string \<Rightarrow> quota_state \<Rightarrow> sync_outcome \<times> quota_state" where
  "sync_quota_from_redis_to_db tenant s =
     (if \<not> qs_redis s then (SyncSkipped ''redis_unavailable'', s)
      else (case dget (qs_hashes s) tenant of
              None \<Rightarrow> (SyncSkipped ''redis_key_not_found'', s)
            | Some h \<Rightarrow>
                if h = [] then (SyncSkipped ''redis_key_not_found'', s)
                else (case (int_field h ''daily_used'', int_field h ''monthly_used'', int_field h ''version'') of
                        (Some daily, Some monthly, Some version) \<Rightarrow>
                          (case dget (qs_rows s) tenant of
                             None \<Rightarrow> (SyncFailed ''db_record_not_found'', s)
                           | Some q \<Rightarrow> sync_quota_row (hnum h ''balance'') daily monthly version q s)
                      | _ \<Rightarrow> (SyncFailed ''invalid literal for int()'', s))))"

record sync_summary =
  sm_total :: nat
  sm_synced :: nat
  sm_skipped :: nat
  sm_failed :: nat
  sm_details :: "(string \<times> sync_outcome) list"

definition count_outcome :: "string \<Rightarrow> sync_outcome \<Rightarrow> sync_summary \<Rightarrow> sync_summary" where
  "count_outcome t r m =
     (let m1 = (case r of Synced _ _ _ _ _ \<Rightarrow> m\<lparr>sm_synced := sm_synced m + 1\<rparr>
                | SyncFailed _ \<Rightarrow> m\<lparr>sm_failed := sm_failed m + 1\<rparr>
                | _ \<Rightarrow> m\<lparr>sm_skipped := sm_skipped m + 1\<rparr>)
      in m1\<lparr>sm_details := sm_details m1 @ [(t, r)]\<rparr>)"

fun sync_tenants :: "string list \<Rightarrow> sync_summary \<times> quota_state \<Rightarrow> sync_summary \<times> quota_state" where
  "sync_tenants [] ms = ms"
| "sync_tenants (t # ts) (m, s) =
     (case sync_quota_from_redis_to_db t s of (r, s1) \<Rightarrow> sync_tenants ts (count_outcome t r m, s1))"

definition sync_all_quotas :: "quota_state \<Rightarrow> sync_summary \<times> quota_state" where
  "sync_all_quotas s =
     sync_tenants (dkeys (qs_rows s)) (\<lparr>sm_total = length (qs_rows s), sm_synced = 0, sm_skipped = 0, sm_failed = 0, sm_details = []\<rparr>, s)"

subsection \<open>API key budgets\<close>

definition sync_apikey_budget_from_redis_to_db :: "bool \<Rightarrow> string \<Rightarrow> billing_world \<Rightarrow> sync_outcome \<times> billing_world" where
  "sync_apikey_budget_from_redis_to_db pool_url key w =
     (if \<not> bw_redis w then (SyncSkipped ''redis_unavailable'', w)
      else if \<not> pool_url then (SyncFailed ''url'', w)
      else (case dget (bw_key_hashes w) key of
              None \<Rightarrow> (SyncSkipped ''redis_key_not_found'', w)
            | Some h \<Rightarrow>
                if h = [] then (SyncSkipped ''redis_key_not_found'', w)
                else (case int_field h ''version'' of
                        None \<Rightarrow> (SyncFailed ''invalid literal for int()'', w)
                      | Some version \<Rightarrow>
                          (case dget (bw_keys w) key of
                             None \<Rightarrow> (SyncFailed ''db_record_not_found'', w)
                           | Some k \<Rightarrow>
                               let diff = \<bar>hnum h ''budget_used'' - ak_budget_used k\<bar>
                               in if diff < 1 / 1000000 then (SyncSkipped ''already_synced'', w)
                                  else (Synced diff 0 0 version 0,
                                        w\<lparr>bw_keys := dput key (k\<lparr>ak_budget_used := hnum h ''budget_used''\<rparr>)
                                            (bw_keys w)\<rparr>)))))"

subsection \<open>Lemmas\<close>

lemma py_int_of_int [simp]: "py_int (of_int n) = n"
  by (simp add: py_int_def)

lemma int_field_eq: "int_field h f = Some n \<longleftrightarrow> hnum h f = of_int n"
  by (auto simp: int_field_def)

text \<open>
  The hash of a key counts millionths, which is what the quota check writes and divides by again, but
  the task stores the count itself: warming and syncing multiplies the used budget by a million.
\<close>

lemma apikey_sync_stores_millionths:
  assumes "bw_redis w" and "dget (bw_keys w) key = Some k" and "dget (bw_key_hashes w) key = None"
    and "ak_budget_used k * 1000000 = of_int m" and "m \<noteq> 0"
  shows "\<exists>k'. dget (bw_keys (snd (sync_apikey_budget_from_redis_to_db True key
      (warm_apikey_budget_cache False key w)))) key = Some k' \<and>
    ak_budget_used k' = 1000000 * ak_budget_used k"
proof -
  let ?w = "warm_apikey_budget_cache False key w"
  obtain h where h: "dget (bw_key_hashes ?w) key = Some h" "hnum h ''budget_used'' = of_int m"
    "hnum h ''version'' = 1" "bw_keys ?w = bw_keys w" "bw_redis ?w" "h \<noteq> []"
    using assms by (auto simp: warm_apikey_budget_cache_def Let_def hnum_def)
  have used: "ak_budget_used k = of_int m / 1000000" using assms(4) by (simp add: field_simps)
  have "1 \<le> \<bar>of_int m :: rat\<bar>" using assms(5) by (metis of_int_abs of_int_1_le_iff zless_imp_add1_zle add_0 zero_less_abs_iff)
  moreover have "\<bar>of_int m - of_int m / 1000000 :: rat\<bar> = \<bar>of_int m\<bar> * (999999 / 1000000)"
    by (simp add: abs_if field_simps)
  ultimately have "\<not> \<bar>hnum h ''budget_used'' - ak_budget_used k\<bar> < 1 / 1000000"
    unfolding h(2) used by simp
  with h assms(2) used show ?thesis
    by (simp add: sync_apikey_budget_from_redis_to_db_def int_field_def Let_def)
qed

subsection \<open>Properties\<close>

text \<open>After the task has run for a tenant with a hash and a row, the row agrees with the hash:
  the counters are equal, the balance is within a millionth, and running it again is skipped and
  changes nothing.\<close>

theorem quota_sync_settles:
  assumes "rows_wf (qs_rows s)" and "qs_redis s" and "dget (qs_hashes s) t = Some h" and "h \<noteq> []"
    and "dget (qs_rows s) t = Some q"
    and "hnum h ''daily_used'' = of_int d" and "hnum h ''monthly_used'' = of_int m" and "hnum h ''version'' = of_int v"
    and "sync_quota_from_redis_to_db t s = (r, s')"
  shows "\<exists>q'. dget (qs_rows s') t = Some q' \<and> tq_daily_used q' = d \<and> tq_monthly_used q' = m \<and>
    \<bar>tq_balance q' - hnum h ''balance''\<bar> < 1 / 1000000 \<and>
    (\<exists>dv. sync_quota_from_redis_to_db t s' = (AlreadySynced v dv, s'))"
proof -
  have fields: "int_field h ''daily_used'' = Some d" "int_field h ''monthly_used'' = Some m"
    "int_field h ''version'' = Some v"
    using assms(6-8) by (simp_all add: int_field_eq)
  have tenant: "tq_tenant q = t" using assms(1,5) by (auto simp: rows_wf_def)
  have run: "sync_quota_from_redis_to_db t x = sync_quota_row (hnum h ''balance'') d m v q' x"
    if "qs_redis x" "dget (qs_hashes x) t = Some h" "dget (qs_rows x) t = Some q'" for x q'
    using that assms(4) fields by (simp add: sync_quota_from_redis_to_db_def)
  let ?same = "\<bar>hnum h ''balance'' - tq_balance q\<bar> < 1 / 1000000 \<and> d = tq_daily_used q \<and> m = tq_monthly_used q"
  show ?thesis
  proof (cases ?same)
    case True
    with run [OF assms(2,3,5)] assms(9) have "s' = s" by (auto simp: sync_quota_row_def Let_def)
    moreover have "sync_quota_from_redis_to_db t s = (AlreadySynced v (tq_version q), s)"
      using run [OF assms(2,3,5)] True by (simp add: sync_quota_row_def Let_def)
    ultimately show ?thesis
      using True assms(5) by (auto simp: abs_minus_commute)
  next
    case False
    let ?q = "q\<lparr>tq_balance := hnum h ''balance'', tq_daily_used := d, tq_monthly_used := m, tq_version := v\<rparr>"
    from False run [OF assms(2,3,5)] assms(9) have s': "s' = put_row ?q s"
      by (auto simp: sync_quota_row_def Let_def split: if_splits)
    then have "dget (qs_rows s') t = Some ?q" "qs_redis s'" "dget (qs_hashes s') t = Some h"
      using tenant assms(2,3) by (simp_all add: put_row_def)
    with run [of s' ?q] show ?thesis by (auto simp: sync_quota_row_def Let_def)
  qed
qed

subsection \<open>Witnesses\<close>

text \<open>The preceding statement at a row with balance five and a hash that shows 9.5.\<close>

theorem quota_sync_settles_witness:
  "\<exists>q. dget (qs_rows (snd (sync_quota_from_redis_to_db ''t'' fraction_state))) ''t'' = Some q \<and>
     \<bar>tq_balance q - 19 / 2\<bar> < 1 / 1000000"
proof -
  let ?h = "hset [(''balance'', HNum (19 / 2))] race_hash"
  have row: "rows_wf (qs_rows fraction_state)" "qs_redis fraction_state"
    "dget (qs_hashes fraction_state) ''t'' = Some ?h" "dget (qs_rows fraction_state) ''t'' = Some race_row"
    using race_rows_wf race_row_get by (simp_all add: fraction_state_def) (simp_all add: race_state_def)
  have h: "?h \<noteq> []" "hnum ?h ''daily_used'' = of_int 0" "hnum ?h ''monthly_used'' = of_int 0"
    "hnum ?h ''version'' = of_int 1" "hnum ?h ''balance'' = 19 / 2" by code_simp+
  obtain r s' where run: "sync_quota_from_redis_to_db ''t'' fraction_state = (r, s')"
    by (cases "sync_quota_from_redis_to_db ''t'' fraction_state")
  from quota_sync_settles [OF row(1-3) h(1) row(4) h(2-4) run] h(5) run show ?thesis by auto
qed

end
