(* ===== verification/Rate_Limit.thy ===== *)
theory Rate_Limit
  imports Billing_Steps
begin

section \<open>Rate limiting\<close>

text \<open>
  \<open>RateLimitStep\<close> (src/app/services/workflow/steps/rate_limit.py) with its two Redis scripts
  sliding_window_rate_limit.lua and token_bucket_rate_limit.lua, the serial and in-memory fallbacks
  and the choice of limits. A member of a sorted set is the text of its score, a colon and a request
  id, so it is kept as the pair of the two; its score is the first component. Keys expire only when
  everything in them is already out of the window, so expiry is not modelled for the windows; for a
  bucket it is the step \<open>expire_bucket\<close>. The clock readings of one call are the same instant. What
  comes back from a script goes through \<open>conv\<close> as in the billing theories, and the text of a number
  in a message is \<open>fmt\<close>.
\<close>

type_synonym zset = "(int \<times> string) list"

record rl_state =
  rl_redis :: bool
  rl_sliding_script :: bool
  rl_bucket_script :: bool
  rl_zsets :: "(string, zset) dict"
  rl_buckets :: "(string, rat \<times> rat) dict"
  rl_memory :: "(string, rat list) dict"

datatype rate_limit_error = RateLimitExceededError string rat rat string

record rl_settings =
  rs_external_rpm :: int
  rs_internal_rpm :: int
  rs_external_tpm :: int
  rs_internal_tpm :: int
  rs_window_seconds :: int
  rs_ip_default_rpm :: int

definition default_rl_settings :: rl_settings where
  "default_rl_settings = \<lparr>rs_external_rpm = 60, rs_internal_rpm = 600, rs_external_tpm = 100000,
     rs_internal_tpm = 1000000, rs_window_seconds = 60, rs_ip_default_rpm = 600\<rparr>"

subsection \<open>The sliding window script\<close>

definition zget :: "(string, zset) dict \<Rightarrow> string \<Rightarrow> zset" where
  "zget zs k = (case dget zs k of None \<Rightarrow> [] | Some z \<Rightarrow> z)"

text \<open>\<open>ZREMRANGEBYSCORE key 0 (now - window)\<close> and \<open>ZADD\<close>.\<close>

definition zclean :: "int \<Rightarrow> int \<Rightarrow> zset \<Rightarrow> zset" where
  "zclean window now z = filter (\<lambda>(sc, _). \<not> (0 \<le> sc \<and> sc \<le> now - window)) z"

definition zadd :: "int \<times> string \<Rightarrow> zset \<Rightarrow> zset" where
  "zadd m z = (if m \<in> set z then z else z @ [m])"

definition ceil_div :: "int \<Rightarrow> int \<Rightarrow> int" where
  "ceil_div a b = - ((- a) div b)"

definition retry_after_of :: "int \<Rightarrow> int \<Rightarrow> zset \<Rightarrow> int" where
  "retry_after_of window now z =
     (let r = (if z \<noteq> [] then ceil_div (min_list (map fst z) + window - now) 1000 else ceil_div window 1000)
      in if r < 0 then 0 else r)"

text \<open>A level is a key with its window in seconds and its limit.\<close>

type_synonym rl_level = "string \<times> int \<times> int"

fun sliding_check :: "nat \<Rightarrow> rl_level list \<Rightarrow> int \<Rightarrow> (string, zset) dict \<Rightarrow> lua_val list option \<times> (string, zset) dict" where
  "sliding_check i [] now zs = (None, zs)"
| "sliding_check i ((key, win, cap) # ls) now zs =
     (let z = zclean (win * 1000) now (zget zs key);
          zs1 = dput key z zs
      in if cap \<le> int (length z)
         then (Some [LNum 0, LNum (of_nat i), LNum (of_int cap), LNum (of_int (retry_after_of (win * 1000) now z))], zs1)
         else sliding_check (Suc i) ls now zs1)"

fun sliding_commit :: "rl_level list \<Rightarrow> int \<Rightarrow> string \<Rightarrow> int \<times> int \<Rightarrow> (string, zset) dict \<Rightarrow>
    (int \<times> int) \<times> (string, zset) dict" where
  "sliding_commit [] now rid acc zs = (acc, zs)"
| "sliding_commit ((key, win, cap) # ls) now rid (min_remaining, max_reset) zs =
     (let z = zadd (now, rid) (zget zs key);
          remaining = cap - int (length z);
          mr = (if min_remaining = -1 \<or> remaining < min_remaining then remaining else min_remaining);
          reset = win * 1000 div 1000;
          mx = (if max_reset < reset then reset else max_reset)
      in sliding_commit ls now rid (mr, mx) (dput key z zs))"

definition sliding_window_script :: "rl_level list \<Rightarrow> int \<Rightarrow> string \<Rightarrow> (string, zset) dict \<Rightarrow>
    lua_val list \<times> (string, zset) dict" where
  "sliding_window_script ls now rid zs =
     (case sliding_check 1 ls now zs of
        (Some reply, zs1) \<Rightarrow> (reply, zs1)
      | (None, zs1) \<Rightarrow>
          (case sliding_commit ls now rid (-1, 0) zs1 of
             ((mr, mx), zs2) \<Rightarrow> ([LNum 1, LNum (of_int mr), LNum (of_int mx)], zs2)))"

subsection \<open>The token bucket script\<close>

text \<open>
  The reply and the bucket afterwards. A missing key counts as an empty bucket. With rate zero the
  expiry time is infinite and the script fails after it has written the bucket.
\<close>

definition token_bucket_script :: "rat \<Rightarrow> rat \<Rightarrow> rat \<Rightarrow> rat \<Rightarrow> (rat \<times> rat) option \<Rightarrow> lua_val list option \<times> (rat \<times> rat)" where
  "token_bucket_script capacity rate now cost bucket =
     (let (tokens0, last_update) = (case bucket of None \<Rightarrow> (0, now) | Some b \<Rightarrow> b);
          elapsed = max 0 (now - last_update);
          tokens1 = min capacity (tokens0 + elapsed * rate);
          allowed = cost \<le> tokens1;
          tokens = (if allowed then tokens1 - cost else tokens1);
          retry_after = (if allowed then 0 else \<lceil>(cost - tokens1) / rate\<rceil>)
      in (if rate = 0 then None
          else Some [LNum (if allowed then 1 else 0), LNum tokens, LNum (of_int retry_after)], (tokens, now)))"

subsection \<open>The step\<close>

record rl_spec =
  sp_key :: string
  sp_rpm :: int
  sp_window :: int
  sp_scope :: string
  sp_tpm :: "rat option"
  sp_tpm_key :: "string option"

definition rate_limit_rpm_key :: "string \<Rightarrow> string" where
  "rate_limit_rpm_key subject = ''gw:rl:'' @ subject @ '':chat:rpm''"

definition rate_limit_tpm_key :: "string \<Rightarrow> string" where
  "rate_limit_tpm_key subject = ''gw:rl:'' @ subject @ '':chat:tpm''"

definition opt_num :: "pyval \<Rightarrow> rat option" where
  "opt_num v = (if v = PNone then None else Some (num_of v))"

definition ctx_limit_config :: "workflow_context \<Rightarrow> (string, pyval) dict" where
  "ctx_limit_config c = as_dict (py_or (ctx_get c ''routing'' ''limit_config'' PNone) (PDict []))"

definition default_window :: "rl_settings \<Rightarrow> (string, pyval) dict \<Rightarrow> int" where
  "default_window cfg lc = py_int (num_of (py_or (py_get lc ''window'' PNone) (PInt (rs_window_seconds cfg))))"

definition build_rate_limit_specs :: "rl_settings \<Rightarrow> workflow_context \<Rightarrow> rl_spec list" where
  "build_rate_limit_specs cfg c =
     (let lc = ctx_limit_config c;
          win = default_window cfg lc;
          sig = (\<lambda>k. let v = ctx_get c ''signature_verify'' k PNone
                     in if v = PNone then py_get lc (if k = ''rate_limit_rpm'' then ''rpm'' else ''tpm'') PNone else v);
          ak_rpm = sig ''rate_limit_rpm'';
          ak_tpm = sig ''rate_limit_tpm'';
          default_rpm = (if is_external c then rs_external_rpm cfg else rs_internal_rpm cfg)
      in (if str_truthy (ctx_api_key_id c) \<and> truthy ak_rpm
          then let subject = ''ak:'' @ the (ctx_api_key_id c)
               in [\<lparr>sp_key = rate_limit_rpm_key subject, sp_rpm = py_int (num_of ak_rpm), sp_window = win,
                   sp_scope = ''apikey'', sp_tpm = opt_num ak_tpm,
                   sp_tpm_key = (if truthy ak_tpm then Some (rate_limit_tpm_key subject) else None)\<rparr>]
          else []) @
         (if str_truthy (ctx_client_ip c) \<and> 0 < rs_ip_default_rpm cfg
          then [\<lparr>sp_key = rate_limit_rpm_key (''ip:'' @ the (ctx_client_ip c)), sp_rpm = rs_ip_default_rpm cfg,
                 sp_window = win, sp_scope = ''ip'', sp_tpm = None, sp_tpm_key = None\<rparr>]
          else []) @
         (if 0 < default_rpm
          then [\<lparr>sp_key = rate_limit_rpm_key ''global'', sp_rpm = default_rpm, sp_window = win,
                 sp_scope = ''global'', sp_tpm = None, sp_tpm_key = None\<rparr>]
          else []))"

text \<open>The specification with the smallest TPM, the first of several; the running minimum starts at infinity.\<close>

fun strictest :: "rl_spec list \<Rightarrow> (rat \<times> rl_spec) option \<Rightarrow> rl_spec option" where
  "strictest [] best = map_option snd best"
| "strictest (sp # sps) best =
     strictest sps (case sp_tpm sp of
        None \<Rightarrow> best
      | Some t \<Rightarrow> (case best of None \<Rightarrow> Some (t, sp) | Some (m, _) \<Rightarrow> if t < m then Some (t, sp) else best))"

definition select_strict_tpm_spec :: "rl_settings \<Rightarrow> rl_spec list \<Rightarrow> workflow_context \<Rightarrow> rl_spec option" where
  "select_strict_tpm_spec cfg specs c =
     (case strictest specs None of
        Some sp \<Rightarrow> Some sp
      | None \<Rightarrow>
          let lc = ctx_limit_config c
          in (case opt_num (py_get lc ''tpm'' PNone) of
                None \<Rightarrow> None
              | Some t \<Rightarrow>
                  let (subject, scope) =
                        (if str_truthy (ctx_api_key_id c) then (''ak:'' @ the (ctx_api_key_id c), ''apikey'')
                         else if str_truthy (ctx_tenant_id c) then (''tenant:'' @ the (ctx_tenant_id c), ''tenant'')
                         else (''global'', ''global''))
                  in Some \<lparr>sp_key = [], sp_rpm = 0, sp_window = default_window cfg lc, sp_scope = scope,
                           sp_tpm = Some t, sp_tpm_key = Some (rate_limit_tpm_key subject)\<rparr>))"

definition check_rpm_fallback_memory :: "rat \<Rightarrow> rl_spec \<Rightarrow> rl_state \<Rightarrow>
    (rate_limit_error + int \<times> int option) \<times> rl_state" where
  "check_rpm_fallback_memory now sp s =
     (let bucket = filter (\<lambda>t. now - of_int (sp_window sp) < t)
            (case dget (rl_memory s) (sp_key sp) of None \<Rightarrow> [] | Some b \<Rightarrow> b)
      in if sp_rpm sp \<le> int (length bucket)
         then (Inl (RateLimitExceededError ''rpm'' (of_int (sp_rpm sp)) (of_int (sp_window sp)) ''memory_fallback''), s)
         else let bucket' = bucket @ [now]
              in (Inr (sp_rpm sp - int (length bucket'), Some (sp_window sp)),
                  s\<lparr>rl_memory := dput (sp_key sp) bucket' (rl_memory s)\<rparr>))"

fun check_rpm_fallback_redis_serial :: "int \<Rightarrow> int \<Rightarrow> rl_spec list \<Rightarrow> rl_state \<Rightarrow>
    (rate_limit_error + int \<times> int option) \<times> rl_state" where
  "check_rpm_fallback_redis_serial now min_rem [] s = (Inr (min_rem, Some 0), s)"
| "check_rpm_fallback_redis_serial now min_rem (sp # sps) s =
     (let z = zclean (sp_window sp * 1000) now (zget (rl_zsets s) (sp_key sp));
          s1 = s\<lparr>rl_zsets := dput (sp_key sp) z (rl_zsets s)\<rparr>
      in if sp_rpm sp \<le> int (length z)
         then (Inl (RateLimitExceededError ''rpm'' (of_int (sp_rpm sp)) (of_int (sp_window sp)) (sp_scope sp)), s1)
         else
           let s2 = s1\<lparr>rl_zsets := dput (sp_key sp) (zadd (now, ''fallback'') z) (rl_zsets s1)\<rparr>;
               rem = sp_rpm sp - int (length z) - 1
           in check_rpm_fallback_redis_serial now
                (if min_rem = -1 \<or> rem < min_rem then rem else min_rem) sps s2)"

definition levels_of :: "rl_spec list \<Rightarrow> rl_level list" where
  "levels_of specs = map (\<lambda>sp. (sp_key sp, sp_window sp, sp_rpm sp)) specs"

text \<open>The pair is \<open>remaining\<close> and \<open>reset\<close>; without any rule the memory fallback has no reset.\<close>

definition check_multi_level_rpm :: "reply_conv \<Rightarrow> rat \<Rightarrow> string \<Rightarrow> rl_spec list \<Rightarrow> rl_state \<Rightarrow>
    (rate_limit_error + int \<times> int option) \<times> rl_state" where
  "check_multi_level_rpm conv now rid specs s =
     (if \<not> rl_redis s
      then (case specs of [] \<Rightarrow> (Inr (-1, None), s) | sp # _ \<Rightarrow> check_rpm_fallback_memory now sp s)
      else if \<not> rl_sliding_script s then check_rpm_fallback_redis_serial (py_int (now * 1000)) (-1) specs s
      else
        (case sliding_window_script (levels_of specs) (py_int (now * 1000)) rid (rl_zsets s) of
           (reply, zs) \<Rightarrow>
             let res = map conv reply; s1 = s\<lparr>rl_zsets := zs\<rparr>
             in if res ! 0 = RNum 0
                then let idx = py_int (reply_num (res ! 1)) - 1;
                         sp = (if 0 \<le> idx \<and> nat idx < length specs then specs ! nat idx else specs ! 0)
                     in (Inl (RateLimitExceededError ''rpm'' (reply_num (res ! 2)) (reply_num (res ! 3)) (sp_scope sp)), s1)
                else (Inr (py_int (reply_num (res ! 1)), Some (py_int (reply_num (res ! 2)))), s1)))"

text \<open>
  The bucket check. A key that is \<open>None\<close> makes the client raise, which lets the request pass; so does
  the division by a zero rate.
\<close>

definition check_tpm :: "reply_conv \<Rightarrow> rat \<Rightarrow> rl_spec \<Rightarrow> rl_state \<Rightarrow> (rate_limit_error + rat option) \<times> rl_state" where
  "check_tpm conv now sp s =
     (case (rl_redis s, sp_tpm sp, sp_tpm_key sp) of
        (True, Some limit, Some key) \<Rightarrow>
          let rate = limit / of_int (sp_window sp); cost = 1; bucket = dget (rl_buckets s) key
          in if rl_bucket_script s then
               (case token_bucket_script limit rate now cost bucket of
                  (reply, b) \<Rightarrow>
                    let s1 = s\<lparr>rl_buckets := dput key b (rl_buckets s)\<rparr>
                    in (case reply of
                          None \<Rightarrow> (Inr None, s1)
                        | Some r \<Rightarrow>
                            let res = map conv r
                            in if res ! 0 = RNum 0
                               then (Inl (RateLimitExceededError ''tpm'' limit (of_int (py_int (reply_num (res ! 2)))) (sp_scope sp)), s1)
                               else (Inr (Some (reply_num (res ! 1))), s1)))
             else
               let (tokens0, last_update) = (case bucket of None \<Rightarrow> (limit, now) | Some b \<Rightarrow> b);
                   tokens1 = min limit (tokens0 + max 0 (now - last_update) * rate)
               in if tokens1 < cost
                  then (if rate = 0 then (Inr None, s)
                        else (Inl (RateLimitExceededError ''tpm'' limit (of_int (py_int ((cost - tokens1) / rate + 1))) (sp_scope sp)),
                              s\<lparr>rl_buckets := dput key (tokens1, now) (rl_buckets s)\<rparr>))
                  else (Inr (Some (tokens1 - cost)), s\<lparr>rl_buckets := dput key (tokens1 - cost, now) (rl_buckets s)\<rparr>)
      | _ \<Rightarrow> (Inr None, s))"

definition expire_bucket :: "string \<Rightarrow> rl_state \<Rightarrow> rl_state" where
  "expire_bucket key s = s\<lparr>rl_buckets := AList.delete key (rl_buckets s)\<rparr>"

definition rate_error_str :: "(rat \<Rightarrow> string) \<Rightarrow> rate_limit_error \<Rightarrow> string" where
  "rate_error_str fmt e =
     (case e of RateLimitExceededError k l ra sc \<Rightarrow>
        ''Rate limit exceeded: '' @ sc @ ''.'' @ k @ ''='' @ fmt l @ '', retry_after='' @ fmt ra @ ''s'')"

definition rate_limit_reject :: "(rat \<Rightarrow> string) \<Rightarrow> rate_limit_error \<Rightarrow> workflow_context \<Rightarrow> step_result \<times> workflow_context" where
  "rate_limit_reject fmt e c =
     (case e of RateLimitExceededError k l ra sc \<Rightarrow>
        ((new_step_result FAILED)\<lparr>sr_message := Some (rate_error_str fmt e),
           sr_data := Some [(''retry_after'', PFloat ra), (''scope'', PStr sc)]\<rparr>,
         ctx_set ''rate_limit'' ''detail'' (PStr (rate_error_str fmt e))
           (ctx_set ''rate_limit'' ''retry_after'' (PFloat ra)
             (mark_error GATEWAY (''RATE_LIMIT_'' @ str_upper k) ''Too Many Requests'' None None c))))"

definition rate_limit_accept :: "(int \<times> int option) option \<Rightarrow> rat option \<Rightarrow> workflow_context \<Rightarrow> step_result \<times> workflow_context" where
  "rate_limit_accept info tpm c =
     (let c1 = (case info of None \<Rightarrow> c
                | Some (rem, reset) \<Rightarrow> ctx_set ''rate_limit'' ''reset_after'' (opt_int reset)
                    (ctx_set ''rate_limit'' ''rpm_remaining'' (PInt rem) c));
          c2 = (case tpm of None \<Rightarrow> c1 | Some t \<Rightarrow> ctx_set ''rate_limit'' ''tpm_remaining'' (PFloat t) c1);
          d1 = (case info of None \<Rightarrow> []
                | Some (rem, reset) \<Rightarrow> [(''remaining'', PInt rem), (''reset'', opt_int reset),
                    (''rpm_remaining'', PInt rem), (''rpm_reset'', opt_int reset)]);
          d2 = (case tpm of None \<Rightarrow> [] | Some t \<Rightarrow> [(''tpm_remaining'', PFloat t)])
      in ((new_step_result SUCCESS)\<lparr>sr_data := Some (d1 @ d2)\<rparr>, c2))"

definition rate_limit_execute :: "(rat \<Rightarrow> string) \<Rightarrow> reply_conv \<Rightarrow> rl_settings \<Rightarrow> rat \<Rightarrow> string \<Rightarrow> workflow_context \<Rightarrow>
    rl_state \<Rightarrow> step_result \<times> workflow_context \<times> rl_state" where
  "rate_limit_execute fmt conv cfg now rid c s =
     (if truthy (ctx_get c ''signature_verify'' ''is_whitelist'' PNone) then
        let or1 = (\<lambda>n. if n = 0 then 1 else n);
            rpm = or1 (if is_external c then rs_external_rpm cfg else rs_internal_rpm cfg);
            tpm = or1 (if is_external c then rs_external_tpm cfg else rs_internal_tpm cfg)
        in ((new_step_result SUCCESS)\<lparr>sr_data := Some [(''skipped'', PBool True), (''rpm_remaining'', PInt rpm),
              (''tpm_remaining'', PInt tpm)]\<rparr>,
            ctx_set ''rate_limit'' ''tpm_remaining'' (PInt tpm) (ctx_set ''rate_limit'' ''rpm_remaining'' (PInt rpm) c), s)
      else
        let specs = build_rate_limit_specs cfg c;
            tpm_spec = select_strict_tpm_spec cfg specs c
        in if specs = [] \<and> tpm_spec = None then ((new_step_result SUCCESS)\<lparr>sr_data := Some []\<rparr>, c, s)
           else
             (case (if specs = [] then (Inr None, s)
                    else (case check_multi_level_rpm conv now rid specs s of
                            (Inl e, s1) \<Rightarrow> (Inl e, s1) | (Inr i, s1) \<Rightarrow> (Inr (Some i), s1))) of
                (Inl e, s1) \<Rightarrow> (case rate_limit_reject fmt e c of (r, c1) \<Rightarrow> (r, c1, s1))
              | (Inr info, s1) \<Rightarrow>
                  (case (case tpm_spec of None \<Rightarrow> (Inr None, s1) | Some sp \<Rightarrow> check_tpm conv now sp s1) of
                     (Inl e, s2) \<Rightarrow> (case rate_limit_reject fmt e c of (r, c1) \<Rightarrow> (r, c1, s2))
                   | (Inr tpm, s2) \<Rightarrow> (case rate_limit_accept info tpm c of (r, c1) \<Rightarrow> (r, c1, s2)))))"

subsection \<open>The script on one key\<close>

lemma zget_dput [simp]: "zget (dput k z zs) k' = (if k' = k then z else zget zs k')"
  by (simp add: zget_def)

lemma zclean_in: "(t, r) \<in> set (zclean w now z) \<longleftrightarrow> (t, r) \<in> set z \<and> \<not> (0 \<le> t \<and> t \<le> now - w)"
  by (auto simp: zclean_def)

lemma zadd_in [simp]: "x \<in> set (zadd m z) \<longleftrightarrow> x = m \<or> x \<in> set z"
  by (auto simp: zadd_def)

lemma sliding_check_other: "k \<notin> fst ` set ls \<Longrightarrow> zget (snd (sliding_check i ls now zs)) k = zget zs k"
proof (induction i ls now zs rule: sliding_check.induct)
  case (2 i key win cap ls now zs)
  then show ?case by (auto simp: Let_def)
qed simp

lemma sliding_check_key:
  assumes "distinct (map fst ls)" and "(k, win, cap) \<in> set ls"
  shows "(fst (sliding_check i ls now zs) = None \<longrightarrow>
      zget (snd (sliding_check i ls now zs)) k = zclean (win * 1000) now (zget zs k) \<and>
      int (length (zclean (win * 1000) now (zget zs k))) < cap) \<and>
    zget (snd (sliding_check i ls now zs)) k \<in> {zget zs k, zclean (win * 1000) now (zget zs k)}"
  using assms
proof (induction i ls now zs rule: sliding_check.induct)
  case (1 i now zs)
  then show ?case by simp
next
  case (2 i key win' cap' ls now zs)
  let ?z = "zclean (win' * 1000) now (zget zs key)"
  show ?case
  proof (cases "key = k")
    case True
    with 2 have eq: "win' = win" "cap' = cap" and out: "k \<notin> fst ` set ls" by (auto simp: rev_image_eqI)
    from sliding_check_other [OF out] True eq show ?thesis by (auto simp: Let_def)
  next
    case False
    with 2 show ?thesis by (auto simp: Let_def)
  qed
qed

lemma sliding_commit_key:
  "distinct (map fst ls) \<Longrightarrow> zget (snd (sliding_commit ls now rid acc zs)) k =
     (if k \<in> fst ` set ls then zadd (now, rid) (zget zs k) else zget zs k)"
proof (induction ls now rid acc zs rule: sliding_commit.induct)
  case (2 key win cap ls now rid mr mx zs)
  then show ?case by (auto simp: Let_def)
qed simp

definition admits :: "rl_level list \<Rightarrow> int \<Rightarrow> string \<Rightarrow> (string, zset) dict \<Rightarrow> bool" where
  "admits ls now rid zs \<longleftrightarrow> hd (fst (sliding_window_script ls now rid zs)) = LNum 1"

lemma sliding_check_reply: "fst (sliding_check i ls now zs) = Some r \<Longrightarrow> hd r = LNum 0"
  by (induction i ls now zs rule: sliding_check.induct) (auto simp: Let_def split: if_splits)

lemma admits_iff: "admits ls now rid zs \<longleftrightarrow> fst (sliding_check 1 ls now zs) = None"
  using sliding_check_reply [of 1 ls now zs]
  by (auto simp: admits_def sliding_window_script_def split: option.splits prod.splits)

lemma script_zsets_reject:
  "fst (sliding_check 1 ls now zs) = Some r \<Longrightarrow>
   snd (sliding_window_script ls now rid zs) = snd (sliding_check 1 ls now zs)"
  by (cases "sliding_check 1 ls now zs") (simp add: sliding_window_script_def)

lemma script_zsets_admit:
  assumes "distinct (map fst ls)" and "fst (sliding_check 1 ls now zs) = None"
  shows "zget (snd (sliding_window_script ls now rid zs)) k =
    (if k \<in> fst ` set ls then zadd (now, rid) (zget (snd (sliding_check 1 ls now zs)) k)
     else zget (snd (sliding_check 1 ls now zs)) k)"
proof -
  obtain zs1 where c: "sliding_check 1 ls now zs = (None, zs1)" using assms(2) by (metis prod.collapse)
  obtain acc zs2 where d: "sliding_commit ls now rid (-1, 0) zs1 = (acc, zs2)"
    by (cases "sliding_commit ls now rid (-1, 0) zs1")
  from sliding_commit_key [OF assms(1), of now rid "(-1, 0)" zs1 k] d c show ?thesis
    by (cases acc) (simp add: sliding_window_script_def)
qed

text \<open>What a run of the script does to a key, admitted or not.\<close>

lemma script_key:
  assumes "distinct (map fst ls)" and "(k, win, cap) \<in> set ls"
  shows "if admits ls now rid zs
    then zget (snd (sliding_window_script ls now rid zs)) k = zadd (now, rid) (zclean (win * 1000) now (zget zs k)) \<and>
      int (length (zclean (win * 1000) now (zget zs k))) < cap
    else zget (snd (sliding_window_script ls now rid zs)) k \<in> {zget zs k, zclean (win * 1000) now (zget zs k)}"
proof -
  have "k \<in> fst ` set ls" using assms(2) by force
  show ?thesis
  proof (cases "fst (sliding_check 1 ls now zs)")
    case None
    with sliding_check_key [OF assms, of 1 now zs] \<open>k \<in> fst ` set ls\<close> show ?thesis
      by (simp add: admits_iff script_zsets_admit [OF assms(1) None])
  next
    case (Some r)
    with sliding_check_key [OF assms, of 1 now zs] show ?thesis
      by (simp add: admits_iff script_zsets_reject)
  qed
qed

lemma script_other_key:
  assumes "distinct (map fst ls)" and "k \<notin> fst ` set ls"
  shows "zget (snd (sliding_window_script ls now rid zs)) k = zget zs k"
  using sliding_check_other [OF assms(2), of 1 now zs] assms(2)
  by (cases "fst (sliding_check 1 ls now zs)") (simp_all add: script_zsets_admit [OF assms(1)] script_zsets_reject)

subsection \<open>Sequences of requests\<close>

type_synonym rl_request = "rl_level list \<times> int \<times> string"

fun admitted :: "rl_request list \<Rightarrow> (string, zset) dict \<Rightarrow> rl_request list" where
  "admitted [] zs = []"
| "admitted ((ls, now, rid) # rs) zs =
     (if admits ls now rid zs then [(ls, now, rid)] else []) @
     admitted rs (snd (sliding_window_script ls now rid zs))"

definition uses_key :: "string \<Rightarrow> rl_request \<Rightarrow> bool" where
  "uses_key k q \<longleftrightarrow> k \<in> fst ` set (fst q)"

definition in_window :: "int \<Rightarrow> int \<Rightarrow> int \<times> string \<Rightarrow> bool" where
  "in_window w T e \<longleftrightarrow> T - w < fst e \<and> fst e \<le> T"

text \<open>
  The invariant for a key with window \<open>w\<close> and limit \<open>n\<close> over the entries \<open>hist\<close> admitted so far, the
  last request having come at \<open>prev\<close>: whatever is still inside the window is in the set, and no
  window holds more than \<open>n\<close>.
\<close>

definition window_inv :: "int \<Rightarrow> int \<Rightarrow> (int \<times> string) list \<Rightarrow> int \<Rightarrow> zset \<Rightarrow> bool" where
  "window_inv w n hist prev z \<longleftrightarrow> distinct hist \<and> (\<forall>e \<in> set hist. 0 \<le> fst e \<and> fst e \<le> prev) \<and>
     (\<forall>e \<in> set hist. prev - w < fst e \<longrightarrow> e \<in> set z) \<and>
     (\<forall>T. int (length (filter (in_window w T) hist)) \<le> n)"

lemma window_inv_later:
  assumes "window_inv w n hist prev z" and "prev \<le> now" and "z' = z \<or> z' = zclean w now z"
  shows "window_inv w n hist now z'"
  using assms zclean_in [of _ _ w now z] unfolding window_inv_def
  by (smt (verit, best) prod.collapse)

lemma window_inv_admit:
  assumes inv: "window_inv w n hist prev z" and "prev \<le> now" and "0 \<le> now" and "0 \<le> w"
    and fresh: "(now, rid) \<notin> set hist" and room: "int (length (zclean w now z)) < cap" and "cap \<le> n"
  shows "window_inv w n (hist @ [(now, rid)]) now (zadd (now, rid) (zclean w now z))"
proof -
  let ?z = "zclean w now z"
  have now: "window_inv w n hist now ?z" using window_inv_later [OF inv assms(2)] by simp
  have "int (length (filter (in_window w T) (hist @ [(now, rid)]))) \<le> n" for T
  proof (cases "now \<le> T")
    case False
    then have "filter (in_window w T) [(now, rid)] = []" by (simp add: in_window_def)
    with now show ?thesis by (simp add: window_inv_def)
  next
    case True
    have "distinct (filter (in_window w T) hist)" using now by (simp add: window_inv_def)
    then have "length (filter (in_window w T) hist) = card (set (filter (in_window w T) hist))"
      by (rule distinct_card [symmetric])
    also have "\<dots> \<le> card (set ?z)"
      using now True by (intro card_mono) (auto simp: window_inv_def in_window_def)
    also have "\<dots> \<le> length ?z" by (rule card_length)
    finally have "length (filter (in_window w T) hist) \<le> length ?z" .
    then show ?thesis using room assms(7) by (simp add: in_window_def)
  qed
  with now fresh assms(3) show ?thesis
    unfolding window_inv_def by auto
qed

lemma admitted_window_inv:
  assumes "window_inv w n hist prev (zget zs k)" and "0 \<le> w" and "w = win * 1000"
    and "sorted (prev # map (\<lambda>q. fst (snd q)) reqs)" and "0 \<le> prev"
    and "distinct (hist @ map snd reqs)"
    and "\<forall>(ls, _) \<in> set reqs. distinct (map fst ls) \<and> (\<forall>(key, win', cap) \<in> set ls. key = k \<longrightarrow> win' = win \<and> cap \<le> n)"
  shows "\<exists>prev' z'. window_inv w n (hist @ map snd (filter (uses_key k) (admitted reqs zs))) prev' z'"
  using assms
proof (induction reqs arbitrary: hist prev zs)
  case Nil
  then show ?case by auto
next
  case (Cons q reqs)
  obtain ls now rid where q: "q = (ls, now, rid)" by (cases q)
  let ?zs = "snd (sliding_window_script ls now rid zs)"
  have now: "prev \<le> now" "0 \<le> now" "sorted (now # map (\<lambda>q. fst (snd q)) reqs)" using Cons.prems q by auto
  have dist: "distinct (map fst ls)" using Cons.prems(7) q by auto
  have rest: "\<forall>(ls, _) \<in> set reqs. distinct (map fst ls) \<and> (\<forall>(key, win', cap) \<in> set ls. key = k \<longrightarrow> win' = win \<and> cap \<le> n)"
    using Cons.prems(7) by auto
  have skip: ?case if same: "filter (uses_key k) (admitted (q # reqs) zs) = filter (uses_key k) (admitted reqs ?zs)"
    and inv: "window_inv w n hist now (zget ?zs k)"
    using Cons.IH [OF inv Cons.prems(2,3) now(3,2) _ rest] Cons.prems(6) unfolding same by auto
  show ?case
  proof (cases "k \<in> fst ` set ls")
    case False
    show ?thesis
    proof (rule skip)
      show "filter (uses_key k) (admitted (q # reqs) zs) = filter (uses_key k) (admitted reqs ?zs)"
        using False by (simp add: q uses_key_def)
      show "window_inv w n hist now (zget ?zs k)"
        using window_inv_later [OF Cons.prems(1) now(1)] script_other_key [OF dist False] by simp
    qed
  next
    case True
    then obtain cap where cap: "(k, win, cap) \<in> set ls" "cap \<le> n" using Cons.prems(7) q by fastforce
    note key = script_key [OF dist cap(1), of now rid zs, folded Cons.prems(3)]
    show ?thesis
    proof (cases "admits ls now rid zs")
      case False
      show ?thesis
      proof (rule skip)
        show "filter (uses_key k) (admitted (q # reqs) zs) = filter (uses_key k) (admitted reqs ?zs)"
          using False by (simp add: q)
        show "window_inv w n hist now (zget ?zs k)"
          using window_inv_later [OF Cons.prems(1) now(1)] key False by auto
      qed
    next
      case adm: True
      have fresh: "(now, rid) \<notin> set hist" using Cons.prems(6) q by auto
      have inv: "window_inv w n (hist @ [(now, rid)]) now (zget ?zs k)"
        using window_inv_admit [OF Cons.prems(1) now(1,2) Cons.prems(2) fresh _ cap(2)] key adm by simp
      have "distinct ((hist @ [(now, rid)]) @ map snd reqs)" using Cons.prems(6) q by auto
      from Cons.IH [OF inv Cons.prems(2,3) now(3,2) this rest] adm True show ?thesis
        by (simp add: q uses_key_def)
    qed
  qed
qed

subsection \<open>Waiting as told\<close>

lemma ceil_div_ge:
  assumes "0 < b"
  shows "a \<le> b * ceil_div a b"
proof -
  have "b * (- a div b) + - a mod b = - a" by (rule mult_div_mod_eq)
  moreover have "0 \<le> - a mod b" using assms by simp
  ultimately show ?thesis unfolding ceil_div_def mult_minus_right by linarith
qed

lemma min_list_fst_in: "z \<noteq> [] \<Longrightarrow> \<exists>r. (min_list (map fst z), r) \<in> set (z :: zset)"
proof -
  assume "z \<noteq> []"
  then have "min_list (map fst z) = Min (fst ` set z)" by (simp add: min_list_Min)
  moreover have "Min (fst ` set z) \<in> fst ` set z" using \<open>z \<noteq> []\<close> by (intro Min_in) auto
  ultimately obtain e where "e \<in> set z" "fst e = min_list (map fst z)" by (metis imageE)
  then show ?thesis by (metis prod.collapse)
qed

lemma zclean_drops:
  assumes "(t, r) \<in> set z" and "0 \<le> t" and "t \<le> now - w"
  shows "length (zclean w now z) < length z"
  unfolding zclean_def by (rule length_filter_less [OF assms(1)]) (simp add: assms)

lemma zclean_length: "length (zclean w now z) \<le> length z"
  by (simp add: zclean_def)

lemma single_level_script:
  "sliding_window_script [(k, win, cap)] now rid zs =
     (let z = zclean (win * 1000) now (zget zs k)
      in if cap \<le> int (length z)
         then ([LNum 0, LNum 1, LNum (of_int cap), LNum (of_int (retry_after_of (win * 1000) now z))], dput k z zs)
         else ([LNum 1, LNum (of_int (cap - int (length (zadd (now, rid) z)))), LNum (of_int (max 0 win))],
               dput k (zadd (now, rid) z) (dput k z zs)))"
  by (auto simp: sliding_window_script_def Let_def)

subsection \<open>Token buckets\<close>

fun bucket_run :: "rat \<Rightarrow> rat \<Rightarrow> (rat \<times> rat) list \<Rightarrow> rat \<times> rat \<Rightarrow> rat \<times> (rat \<times> rat)" where
  "bucket_run capacity rate [] b = (0, b)"
| "bucket_run capacity rate ((now, cost) # qs) b =
     (case token_bucket_script capacity rate now cost (Some b) of
        (reply, b') \<Rightarrow>
          (case bucket_run capacity rate qs b' of
             (spent, b'') \<Rightarrow> ((if reply \<noteq> None \<and> hd (the reply) = LNum 1 then cost else 0) + spent, b'')))"

lemma token_bucket_step:
  assumes "0 < rate" and "0 \<le> tok" and "tok \<le> capacity" and "prev \<le> now" and "0 \<le> cost"
  obtains spent tok' r where "token_bucket_script capacity rate now cost (Some (tok, prev)) = (Some r, (tok', now))"
    and "spent = (if hd r = LNum 1 then cost else 0)" and "0 \<le> tok'" and "tok' \<le> capacity"
    and "spent + tok' \<le> tok + rate * (now - prev)"
proof -
  let ?t = "min capacity (tok + max 0 (now - prev) * rate)"
  have t: "0 \<le> ?t" "?t \<le> capacity" "?t \<le> tok + rate * (now - prev)"
    using assms by (auto simp: max_def min_def mult.commute)
  show thesis
  proof (cases "cost \<le> ?t")
    case True
    show thesis
      by (rule that [where tok' = "?t - cost" and spent = cost and r = "[LNum 1, LNum (?t - cost), LNum 0]"])
         (use assms True t in \<open>auto simp: token_bucket_script_def Let_def\<close>)
  next
    case False
    show thesis
      by (rule that [where tok' = ?t and spent = 0 and r = "[LNum 0, LNum ?t, LNum (of_int \<lceil>(cost - ?t) / rate\<rceil>)]"])
         (use assms False t in \<open>auto simp: token_bucket_script_def Let_def\<close>)
  qed
qed

lemma bucket_run_bound:
  assumes "0 < rate" and "0 \<le> tok" and "tok \<le> capacity"
    and "sorted (prev # map fst qs)" and "\<forall>q \<in> set qs. 0 \<le> snd q"
    and "bucket_run capacity rate qs (tok, prev) = (spent, (tok', prev'))"
  shows "spent + tok' \<le> tok + rate * (prev' - prev) \<and> 0 \<le> tok' \<and> tok' \<le> capacity \<and>
    prev \<le> prev' \<and> (\<forall>T. (\<forall>q \<in> set qs. fst q \<le> T) \<and> prev \<le> T \<longrightarrow> prev' \<le> T)"
  using assms
proof (induction qs arbitrary: tok prev spent)
  case Nil
  then show ?case by simp
next
  case (Cons q qs)
  obtain now cost where q: "q = (now, cost)" by (cases q)
  have pre: "prev \<le> now" "0 \<le> cost" "sorted (now # map fst qs)" "\<forall>q \<in> set qs. 0 \<le> snd q"
    using Cons.prems q by auto
  obtain sp tok1 r where step: "token_bucket_script capacity rate now cost (Some (tok, prev)) = (Some r, (tok1, now))"
    "sp = (if hd r = LNum 1 then cost else 0)" "0 \<le> tok1" "tok1 \<le> capacity" "sp + tok1 \<le> tok + rate * (now - prev)"
    using token_bucket_step [OF Cons.prems(1-3) pre(1,2)] .
  obtain s2 where run: "bucket_run capacity rate qs (tok1, now) = (s2, (tok', prev'))" "spent = sp + s2"
    using Cons.prems(6) step(1,2) by (auto simp: q split: prod.splits)
  from Cons.IH [OF Cons.prems(1) step(3,4) pre(3,4) run(1)] step(5) run(2) pre(1) show ?case
    by (auto simp: q algebra_simps)
qed

subsection \<open>Properties\<close>

text \<open>C7: however requests with different sets of levels are mixed, a key whose levels all use the
  same window and a limit of at most \<open>n\<close> never admits more than \<open>n\<close> requests in any window of that
  length, when the clock does not run backwards and request ids differ.\<close>

theorem sliding_window_limit:
  assumes "sorted (map (\<lambda>q. fst (snd q)) reqs)" and "\<forall>q \<in> set reqs. 0 \<le> fst (snd q)" and "distinct (map snd reqs)"
    and "\<forall>(ls, _) \<in> set reqs. distinct (map fst ls) \<and> (\<forall>(key, win', cap) \<in> set ls. key = k \<longrightarrow> win' = win \<and> cap \<le> n)"
    and "0 \<le> win" and "0 \<le> n"
  shows "int (length (filter (\<lambda>q. uses_key k q \<and> in_window (win * 1000) T (snd q)) (admitted reqs []))) \<le> n"
proof -
  have start: "window_inv (win * 1000) n [] 0 (zget [] k)" using assms(6) by (simp add: window_inv_def)
  have "sorted (0 # map (\<lambda>q. fst (snd q)) reqs)" using assms(1,2) by auto
  from admitted_window_inv [OF start _ refl this] assms(3-5)
  have "int (length (filter (in_window (win * 1000) T) (map snd (filter (uses_key k) (admitted reqs []))))) \<le> n"
    by (auto simp: window_inv_def)
  then show ?thesis by (simp add: filter_map o_def conj_commute)
qed

text \<open>A client that was refused and waits as long as \<open>retry_after\<close> says is admitted, if nobody
  else used the key in between: the wait named in the refusal is long enough.\<close>

theorem retry_after_sufficient:
  assumes "\<forall>e \<in> set (zget zs k). 0 \<le> fst e" and "int (length (zget zs k)) \<le> cap" and "0 < cap"
    and "sliding_window_script [(k, win, cap)] now rid zs = (LNum 0 # i # l # [LNum retry], zs')"
    and "of_int now + 1000 * retry \<le> (of_int now' :: rat)"
  shows "admits [(k, win, cap)] now' rid' zs'"
proof -
  let ?w = "win * 1000" and ?z = "zclean (win * 1000) now (zget zs k)"
  from assms(4) have full: "cap \<le> int (length ?z)" and retry: "retry = of_int (retry_after_of ?w now ?z)"
    and zs': "zs' = dput k ?z zs"
    by (auto simp: single_level_script Let_def split: if_splits)
  have "?z \<noteq> []" using full assms(3) by auto
  then obtain r where e: "(min_list (map fst ?z), r) \<in> set ?z" using min_list_fst_in by blast
  let ?e = "min_list (map fst ?z)"
  have "?e + ?w - now \<le> 1000 * ceil_div (?e + ?w - now) 1000" by (rule ceil_div_ge) simp
  also have "\<dots> \<le> 1000 * retry_after_of ?w now ?z"
    using \<open>?z \<noteq> []\<close> by (auto simp: retry_after_of_def Let_def)
  also have "\<dots> \<le> now' - now"
  proof -
    have "rat_of_int (now + 1000 * retry_after_of ?w now ?z) \<le> of_int now'"
      using assms(5) unfolding retry by simp
    then show ?thesis by (simp only: of_int_le_iff)
  qed
  finally have "?e \<le> now' - ?w" by simp
  moreover have "0 \<le> ?e" using e assms(1) zclean_in by force
  ultimately have "length (zclean ?w now' ?z) < length ?z" using zclean_drops [OF e] by simp
  with zclean_length [of ?w now "zget zs k"] assms(2) have "\<not> cap \<le> int (length (zclean ?w now' ?z))" by simp
  then show ?thesis by (simp add: admits_def single_level_script zs' Let_def)
qed

text \<open>C39: a token bucket never holds less than nothing or more than its capacity, and over any
  sequence of requests admits at most the tokens it held plus what the elapsed time refilled.\<close>

theorem token_bucket_rate_bound:
  assumes "0 < rate" and "0 \<le> tok" and "tok \<le> capacity"
    and "sorted (prev # map fst qs)" and "\<forall>q \<in> set qs. 0 \<le> snd q \<and> fst q \<le> T" and "prev \<le> T"
    and "bucket_run capacity rate qs (tok, prev) = (spent, (tok', prev'))"
  shows "0 \<le> tok' \<and> tok' \<le> capacity \<and> spent \<le> tok + rate * (T - prev)"
proof -
  have q: "\<forall>q \<in> set qs. 0 \<le> snd q" using assms(5) by blast
  have b: "spent + tok' \<le> tok + rate * (prev' - prev)" "0 \<le> tok'" "tok' \<le> capacity" "prev' \<le> T"
    using bucket_run_bound [OF assms(1-4) q assms(7)] assms(5,6) by auto
  have "rate * (prev' - prev) \<le> rate * (T - prev)" using b(4) assms(1) by simp
  with b show ?thesis by linarith
qed

text \<open>A bucket that does not exist is empty for the script and full for the Python fallback: the
  first request of a client, and every request after its idle key has expired, is refused by the
  script although the fallback admits it.\<close>

theorem cold_bucket_refused:
  assumes "redis_reply conv" and "rl_redis s" and "1 \<le> limit" and "0 < sp_window sp"
    and "sp_tpm sp = Some limit" and "sp_tpm_key sp = Some key"
  shows "(\<exists>ra s'. check_tpm conv now sp (expire_bucket key (s\<lparr>rl_bucket_script := True\<rparr>)) =
      (Inl (RateLimitExceededError ''tpm'' limit ra (sp_scope sp)), s')) \<and>
    (\<exists>s'. check_tpm conv now sp (expire_bucket key (s\<lparr>rl_bucket_script := False\<rparr>)) = (Inr (Some (limit - 1)), s'))"
proof -
  have zero: "conv (LNum 0) = RNum 0" using assms(1) by (simp add: redis_reply_def lua_int_def)
  have gone: "dget (rl_buckets (expire_bucket key x)) key = None" for x
    by (simp add: expire_bucket_def delete_conv')
  have cold: "token_bucket_script limit (limit / of_int (sp_window sp)) now 1 None =
      (Some [LNum 0, LNum 0, LNum (of_int \<lceil>1 / (limit / of_int (sp_window sp))\<rceil>)], (0, now))"
    using assms(3,4) by (simp add: token_bucket_script_def)
  have "\<exists>ra s'. check_tpm conv now sp (expire_bucket key (s\<lparr>rl_bucket_script := True\<rparr>)) =
      (Inl (RateLimitExceededError ''tpm'' limit ra (sp_scope sp)), s')"
    using assms(2,5,6) zero gone [of "s\<lparr>rl_bucket_script := True\<rparr>"]
    by (simp add: check_tpm_def cold Let_def) (simp add: expire_bucket_def cold)
  moreover have "\<exists>s'. check_tpm conv now sp (expire_bucket key (s\<lparr>rl_bucket_script := False\<rparr>)) = (Inr (Some (limit - 1)), s')"
    using assms(2,3,5,6) gone [of "s\<lparr>rl_bucket_script := False\<rparr>"]
    by (simp add: check_tpm_def Let_def) (simp add: expire_bucket_def)
  ultimately show ?thesis ..
qed

subsection \<open>Witnesses\<close>

text \<open>C7 at four requests on a key with limit two and a window of one second: three are admitted, at
  most two in any second.\<close>

definition demo_requests :: "rl_request list" where
  "demo_requests = [([(''k'', 1, 2)], 0, ''a''), ([(''k'', 1, 2), (''g'', 1, 9)], 100, ''b''),
     ([(''k'', 1, 2)], 200, ''c''), ([(''k'', 1, 2)], 1050, ''d'')]"

theorem sliding_window_limit_witness:
  "map (\<lambda>q. fst (snd q)) (admitted demo_requests []) = [0, 100, 1050] \<and>
   int (length (filter (\<lambda>q. uses_key ''k'' q \<and> in_window (1 * 1000) 999 (snd q)) (admitted demo_requests []))) \<le> 2"
proof
  show "map (\<lambda>q. fst (snd q)) (admitted demo_requests []) = [0, 100, 1050]" by code_simp
  show "int (length (filter (\<lambda>q. uses_key ''k'' q \<and> in_window (1 * 1000) 999 (snd q)) (admitted demo_requests []))) \<le> 2"
    by (rule sliding_window_limit) (auto simp: demo_requests_def)
qed

text \<open>The preceding statement at a full key with limit one.\<close>

theorem retry_after_sufficient_witness:
  "admits [(''k'', 1, 1)] 1400 ''b'' (snd (sliding_window_script [(''k'', 1, 1)] 400 ''x'' [(''k'', [(0, ''a'')])]))"
proof -
  have run: "sliding_window_script [(''k'', 1, 1)] 400 ''x'' [(''k'', [(0, ''a'')])] =
      (LNum 0 # LNum 1 # LNum 1 # [LNum 1], [(''k'', [(0, ''a'')])])" by code_simp
  have "admits [(''k'', 1, 1)] 1400 ''b'' [(''k'', [(0, ''a'')])]"
    by (rule retry_after_sufficient [OF _ _ _ run]) (simp_all add: zget_def)
  then show ?thesis by (simp add: run)
qed

text \<open>C39 at a bucket of two tokens refilled at one per second.\<close>

theorem token_bucket_rate_bound_witness:
  "fst (bucket_run 2 1 [(0, 1), (0, 1), (0, 1), (1, 1)] (2, 0)) = 3 \<and>
   fst (bucket_run 2 1 [(0, 1), (0, 1), (0, 1), (1, 1)] (2, 0)) \<le> 2 + 1 * (1 - 0)"
proof -
  obtain sp tk pv where run: "bucket_run 2 1 [(0, 1), (0, 1), (0, 1), (1, 1)] (2, 0) = (sp, (tk, pv))"
    by (metis prod_cases3)
  have "sp \<le> 2 + 1 * (1 - 0)" using token_bucket_rate_bound [OF _ _ _ _ _ _ run, of 1] by simp
  moreover have "fst (bucket_run 2 1 [(0, 1), (0, 1), (0, 1), (1, 1)] (2, 0)) = 3" by code_simp
  ultimately show ?thesis by (simp add: run)
qed

definition tpm_spec :: rl_spec where
  "tpm_spec = \<lparr>sp_key = ''k'', sp_rpm = 60, sp_window = 60, sp_scope = ''apikey'', sp_tpm = Some 1000,
     sp_tpm_key = Some ''t''\<rparr>"

text \<open>The preceding statement at a limit of a thousand tokens per minute.\<close>

theorem cold_bucket_refused_witness:
  "\<exists>ra s'. check_tpm resp2_conv 5 tpm_spec (expire_bucket ''t'' \<lparr>rl_redis = True, rl_sliding_script = True,
     rl_bucket_script = True, rl_zsets = [], rl_buckets = [], rl_memory = []\<rparr>) =
     (Inl (RateLimitExceededError ''tpm'' 1000 ra ''apikey''), s')"
proof -
  have conv: "redis_reply resp2_conv" by (simp add: redis_reply_def resp2_conv_def)
  let ?s = "\<lparr>rl_redis = True, rl_sliding_script = True, rl_bucket_script = True, rl_zsets = [], rl_buckets = [],
    rl_memory = []\<rparr>"
  from cold_bucket_refused [OF conv, of ?s 1000 tpm_spec "''t''" 5] show ?thesis
    by (simp add: tpm_spec_def)
qed

end
