(* ===== verification/Routing_Affinity.thy ===== *)
theory Routing_Affinity
  imports Py_Value
begin

section \<open>Routing affinity\<close>

text \<open>
  \<open>RoutingAffinityStateMachine\<close> of src/app/services/routing/affinity.py, which pins a session to an
  upstream. The context lives in a Redis hash; \<open>af_hash\<close> is its content, empty when the key does not
  exist. Writing never removes a field, so the lock fields of an earlier lock stay in the hash while
  the machine explores. A time stamp survives its ISO text. Expiry of the key is the operation
  \<open>reset\<close>.
\<close>

datatype affinity_state = INIT | EXPLORING | LOCKED

datatype af_val = AState affinity_state | AInt int | AText string | ATime rat

record affinity_context =
  ac_state :: affinity_state
  ac_locked_provider :: "string option"
  ac_locked_provider_model_id :: "string option"
  ac_explore_count :: int
  ac_success_count :: int
  ac_failure_count :: int
  ac_last_updated :: "rat option"
  ac_lock_expires_at :: "rat option"

definition init_context :: affinity_context where
  "init_context = \<lparr>ac_state = INIT, ac_locked_provider = None, ac_locked_provider_model_id = None,
     ac_explore_count = 0, ac_success_count = 0, ac_failure_count = 0, ac_last_updated = None,
     ac_lock_expires_at = None\<rparr>"

record affinity_config =
  af_explore_threshold :: int
  af_lock_duration :: rat
  af_failure_threshold :: int

definition default_affinity_config :: affinity_config where
  "default_affinity_config = \<lparr>af_explore_threshold = 3, af_lock_duration = 3600, af_failure_threshold = 3\<rparr>"

record affinity_store =
  af_redis :: bool
  af_hash :: "(string, af_val) dict"

subsection \<open>Reading and writing the context\<close>

definition af_text :: "(string, af_val) dict \<Rightarrow> string \<Rightarrow> string option" where
  "af_text h f = (case dget h f of Some (AText x) \<Rightarrow> if x = [] then None else Some x | _ \<Rightarrow> None)"

definition af_int :: "(string, af_val) dict \<Rightarrow> string \<Rightarrow> int" where
  "af_int h f = (case dget h f of Some (AInt i) \<Rightarrow> i | _ \<Rightarrow> 0)"

definition af_time :: "(string, af_val) dict \<Rightarrow> string \<Rightarrow> rat option" where
  "af_time h f = (case dget h f of Some (ATime t) \<Rightarrow> Some t | _ \<Rightarrow> None)"

definition get_context :: "affinity_store \<Rightarrow> affinity_context" where
  "get_context s =
     (if \<not> af_redis s \<or> af_hash s = [] then init_context
      else
        let h = af_hash s
        in \<lparr>ac_state = (case dget h ''state'' of Some (AState st) \<Rightarrow> st | _ \<Rightarrow> INIT),
            ac_locked_provider = af_text h ''locked_provider'',
            ac_locked_provider_model_id = (case af_text h ''locked_provider_model_id'' of
               Some x \<Rightarrow> Some x | None \<Rightarrow> af_text h ''locked_item_id''),
            ac_explore_count = af_int h ''explore_count'', ac_success_count = af_int h ''success_count'',
            ac_failure_count = af_int h ''failure_count'', ac_last_updated = af_time h ''last_updated'',
            ac_lock_expires_at = af_time h ''lock_expires_at''\<rparr>)"

definition save_context :: "rat \<Rightarrow> affinity_context \<Rightarrow> affinity_store \<Rightarrow> affinity_store" where
  "save_context now c s =
     (if \<not> af_redis s then s
      else
        let payload =
              [(''state'', AState (ac_state c)), (''explore_count'', AInt (ac_explore_count c)),
               (''success_count'', AInt (ac_success_count c)), (''failure_count'', AInt (ac_failure_count c)),
               (''last_updated'', ATime (case ac_last_updated c of Some t \<Rightarrow> t | None \<Rightarrow> now))] @
              (if str_truthy (ac_locked_provider c) then [(''locked_provider'', AText (the (ac_locked_provider c)))] else []) @
              (if str_truthy (ac_locked_provider_model_id c)
               then [(''locked_provider_model_id'', AText (the (ac_locked_provider_model_id c)))] else []) @
              (case ac_lock_expires_at c of None \<Rightarrow> [] | Some t \<Rightarrow> [(''lock_expires_at'', ATime t)])
        in s\<lparr>af_hash := fold (\<lambda>(f, v) h. dput f v h) payload (af_hash s)\<rparr>)"

subsection \<open>Transitions\<close>

definition transition_to_exploring :: "rat \<Rightarrow> affinity_context \<Rightarrow> affinity_store \<Rightarrow> affinity_store" where
  "transition_to_exploring now c s =
     save_context now (c\<lparr>ac_state := EXPLORING, ac_locked_provider := None, ac_locked_provider_model_id := None,
       ac_explore_count := 0, ac_success_count := 0, ac_failure_count := 0, ac_lock_expires_at := None,
       ac_last_updated := Some now\<rparr>) s"

definition transition_to_locked :: "affinity_config \<Rightarrow> rat \<Rightarrow> affinity_context \<Rightarrow> string \<Rightarrow> string \<Rightarrow> affinity_store \<Rightarrow>
    affinity_store" where
  "transition_to_locked cfg now c provider pm s =
     save_context now (c\<lparr>ac_state := LOCKED, ac_locked_provider := Some provider,
       ac_locked_provider_model_id := Some pm, ac_lock_expires_at := Some (now + af_lock_duration cfg),
       ac_last_updated := Some now\<rparr>) s"

definition should_use_affinity :: "rat \<Rightarrow> affinity_store \<Rightarrow> (bool \<times> string option \<times> string option) \<times> affinity_store" where
  "should_use_affinity now s =
     (let c = get_context s
      in case ac_state c of
           LOCKED \<Rightarrow>
             (case ac_lock_expires_at c of
                Some t \<Rightarrow> if t < now then ((False, None, None), transition_to_exploring now c s)
                          else ((True, ac_locked_provider c, ac_locked_provider_model_id c), s)
              | None \<Rightarrow> ((True, ac_locked_provider c, ac_locked_provider_model_id c), s))
         | _ \<Rightarrow> ((False, None, None), s))"

record affinity_request =
  ar_now :: rat
  ar_provider :: string
  ar_provider_model_id :: string
  ar_success :: bool

definition record_request :: "affinity_config \<Rightarrow> affinity_request \<Rightarrow> affinity_store \<Rightarrow> affinity_store" where
  "record_request cfg r s0 =
     (let c0 = get_context s0;
          s = (if ac_state c0 = INIT then transition_to_exploring (ar_now r) c0 s0 else s0);
          c = (if ac_state c0 = INIT then get_context s else c0)
      in case ac_state c of
           EXPLORING \<Rightarrow>
             let c1 = c\<lparr>ac_explore_count := ac_explore_count c + 1\<rparr>;
                 c2 = (if ar_success r then c1\<lparr>ac_success_count := ac_success_count c1 + 1\<rparr> else c1)
             in if af_explore_threshold cfg \<le> ac_explore_count c2
                then transition_to_locked cfg (ar_now r) c2 (ar_provider r) (ar_provider_model_id r) s
                else save_context (ar_now r) c2 s
         | LOCKED \<Rightarrow>
             if ar_success r
             then save_context (ar_now r) (c\<lparr>ac_success_count := ac_success_count c + 1, ac_failure_count := 0\<rparr>) s
             else
               let c1 = c\<lparr>ac_failure_count := ac_failure_count c + 1\<rparr>
               in if af_failure_threshold cfg \<le> ac_failure_count c1
                  then transition_to_exploring (ar_now r) c1 s
                  else save_context (ar_now r) c1 s
         | INIT \<Rightarrow> s)"

definition reset_affinity :: "affinity_store \<Rightarrow> affinity_store" where
  "reset_affinity s = (if af_redis s then s\<lparr>af_hash := []\<rparr> else s)"

subsection \<open>What a saved context reads as\<close>

lemma save_context_redis [simp]: "af_redis (save_context now c s) = af_redis s"
  by (simp add: save_context_def Let_def)

lemma save_context_frame:
  assumes "af_redis s"
  shows "ac_state (get_context (save_context now c s)) = ac_state c"
    "ac_explore_count (get_context (save_context now c s)) = ac_explore_count c"
    "ac_success_count (get_context (save_context now c s)) = ac_success_count c"
    "ac_failure_count (get_context (save_context now c s)) = ac_failure_count c"
    "str_truthy (ac_locked_provider c) \<Longrightarrow>
     ac_locked_provider (get_context (save_context now c s)) = ac_locked_provider c"
    "str_truthy (ac_locked_provider_model_id c) \<Longrightarrow>
     ac_locked_provider_model_id (get_context (save_context now c s)) = ac_locked_provider_model_id c"
    "ac_lock_expires_at c \<noteq> None \<Longrightarrow>
     ac_lock_expires_at (get_context (save_context now c s)) = ac_lock_expires_at c"
proof -
  show "ac_state (get_context (save_context now c s)) = ac_state c"
    "ac_explore_count (get_context (save_context now c s)) = ac_explore_count c"
    "ac_success_count (get_context (save_context now c s)) = ac_success_count c"
    "ac_failure_count (get_context (save_context now c s)) = ac_failure_count c"
    using assms by (auto simp: get_context_def save_context_def Let_def af_int_def split: option.splits)
  show "str_truthy (ac_locked_provider c) \<Longrightarrow>
     ac_locked_provider (get_context (save_context now c s)) = ac_locked_provider c"
    using assms by (auto simp: get_context_def save_context_def Let_def af_text_def str_truthy_def split: option.splits)
  show "str_truthy (ac_locked_provider_model_id c) \<Longrightarrow>
     ac_locked_provider_model_id (get_context (save_context now c s)) = ac_locked_provider_model_id c"
    using assms by (auto simp: get_context_def save_context_def Let_def af_text_def str_truthy_def split: option.splits)
  show "ac_lock_expires_at c \<noteq> None \<Longrightarrow>
     ac_lock_expires_at (get_context (save_context now c s)) = ac_lock_expires_at c"
    using assms by (auto simp: get_context_def save_context_def Let_def af_time_def split: option.splits)
qed

definition explored :: "affinity_store \<Rightarrow> int \<Rightarrow> bool" where
  "explored s n \<longleftrightarrow> af_redis s \<and>
     (ac_state (get_context s) = INIT \<and> n = 0 \<or>
      ac_state (get_context s) = EXPLORING \<and> ac_explore_count (get_context s) = n)"

definition locked_on :: "affinity_store \<Rightarrow> string \<Rightarrow> string \<Rightarrow> rat \<Rightarrow> bool" where
  "locked_on s p pm expires \<longleftrightarrow> af_redis s \<and> ac_state (get_context s) = LOCKED \<and>
     ac_locked_provider (get_context s) = Some p \<and> ac_locked_provider_model_id (get_context s) = Some pm \<and>
     ac_lock_expires_at (get_context s) = Some expires"

lemma transition_to_exploring_explored: "af_redis s \<Longrightarrow> explored (transition_to_exploring now c s) 0"
  by (simp add: explored_def transition_to_exploring_def save_context_frame)

lemma record_request_explores:
  assumes "explored s n" and "n + 1 < af_explore_threshold cfg"
  shows "explored (record_request cfg r s) (n + 1)"
proof -
  let ?s = "if ac_state (get_context s) = INIT then transition_to_exploring (ar_now r) (get_context s) s else s"
  have s: "explored ?s n" "ac_state (get_context ?s) = EXPLORING" "ac_explore_count (get_context ?s) = n" "af_redis ?s"
    using assms(1) transition_to_exploring_explored [of s "ar_now r" "get_context s"]
    by (auto simp: explored_def transition_to_exploring_def save_context_frame)
  have "record_request cfg r s = save_context (ar_now r)
      (let c1 = (get_context ?s)\<lparr>ac_explore_count := n + 1\<rparr>
       in if ar_success r then c1\<lparr>ac_success_count := ac_success_count c1 + 1\<rparr> else c1) ?s"
    using s assms(2) by (auto simp: record_request_def Let_def)
  then show ?thesis using s by (simp add: explored_def save_context_frame Let_def)
qed

lemma record_request_locks:
  assumes "explored s n" and "af_explore_threshold cfg \<le> n + 1"
    and "ar_provider r \<noteq> []" and "ar_provider_model_id r \<noteq> []"
  shows "locked_on (record_request cfg r s) (ar_provider r) (ar_provider_model_id r) (ar_now r + af_lock_duration cfg)"
proof -
  let ?s = "if ac_state (get_context s) = INIT then transition_to_exploring (ar_now r) (get_context s) s else s"
  have s: "ac_state (get_context ?s) = EXPLORING" "ac_explore_count (get_context ?s) = n" "af_redis ?s"
    using assms(1) by (auto simp: explored_def transition_to_exploring_def save_context_frame)
  have "\<exists>c. record_request cfg r s = transition_to_locked cfg (ar_now r) c (ar_provider r) (ar_provider_model_id r) ?s"
    using s assms(2) by (auto simp: record_request_def Let_def)
  then show ?thesis
    using s(3) assms(3,4) by (auto simp: locked_on_def transition_to_locked_def save_context_frame)
qed

lemma explore_then_lock:
  assumes "explored s n" and "n + int (length rs) = af_explore_threshold cfg" and "rs \<noteq> []"
    and "ar_provider (last rs) \<noteq> []" and "ar_provider_model_id (last rs) \<noteq> []"
  shows "locked_on (fold (record_request cfg) rs s) (ar_provider (last rs)) (ar_provider_model_id (last rs))
    (ar_now (last rs) + af_lock_duration cfg)"
  using assms
proof (induction rs arbitrary: s n)
  case (Cons r rs)
  show ?case
  proof (cases "rs = []")
    case True
    with Cons.prems record_request_locks [OF Cons.prems(1)] show ?thesis by simp
  next
    case False
    then have "n + 1 < af_explore_threshold cfg" using Cons.prems(2) by (cases rs) auto
    from Cons.IH [OF record_request_explores [OF Cons.prems(1) this]] Cons.prems False show ?thesis by simp
  qed
qed simp

lemma locked_failure_counts:
  assumes "af_redis s" and "ac_state (get_context s) = LOCKED" and "\<not> ar_success r"
    and "ac_failure_count (get_context s) = n"
  shows "if af_failure_threshold cfg \<le> n + 1 then explored (record_request cfg r s) 0
    else af_redis (record_request cfg r s) \<and> ac_state (get_context (record_request cfg r s)) = LOCKED \<and>
      ac_failure_count (get_context (record_request cfg r s)) = n + 1"
  using assms transition_to_exploring_explored [OF assms(1)]
  by (auto simp: record_request_def Let_def save_context_frame)

lemma failures_unlock:
  assumes "af_redis s" and "ac_state (get_context s) = LOCKED" and "ac_failure_count (get_context s) = n"
    and "n + int (length rs) = af_failure_threshold cfg" and "rs \<noteq> []" and "\<forall>r \<in> set rs. \<not> ar_success r"
  shows "explored (fold (record_request cfg) rs s) 0"
  using assms
proof (induction rs arbitrary: s n)
  case (Cons r rs)
  note step = locked_failure_counts [OF Cons.prems(1,2) _ Cons.prems(3), of r cfg]
  show ?case
  proof (cases "rs = []")
    case True
    with step Cons.prems show ?thesis by simp
  next
    case False
    then have "\<not> af_failure_threshold cfg \<le> n + 1" using Cons.prems(4) by (cases rs) auto
    with step Cons.prems have after: "af_redis (record_request cfg r s)"
      "ac_state (get_context (record_request cfg r s)) = LOCKED"
      "ac_failure_count (get_context (record_request cfg r s)) = n + 1" by auto
    from Cons.IH [OF after] Cons.prems False show ?thesis by simp
  qed
qed simp

subsection \<open>Properties\<close>

text \<open>A session that starts fresh is locked after exactly as many requests as the exploration
  threshold says, onto the upstream of the last of them, whether or not any of the requests succeeded,
  and is routed to it until the lock expires.\<close>

theorem affinity_locks_last_upstream:
  assumes "af_redis s" and "ac_state (get_context s) = INIT" and "rs \<noteq> []"
    and "int (length rs) = af_explore_threshold cfg"
    and "ar_provider (last rs) \<noteq> []" and "ar_provider_model_id (last rs) \<noteq> []"
    and "now \<le> ar_now (last rs) + af_lock_duration cfg"
  shows "fst (should_use_affinity now (fold (record_request cfg) rs s)) =
    (True, Some (ar_provider (last rs)), Some (ar_provider_model_id (last rs)))"
proof -
  have "explored s 0" using assms(1,2) by (simp add: explored_def)
  from explore_then_lock [OF this _ assms(3,5,6)] assms(4,7) show ?thesis
    by (auto simp: locked_on_def should_use_affinity_def Let_def)
qed

text \<open>A locked session leaves its upstream after as many failures in a row as the failure
  threshold says, and then locks again after a new exploration of full length.\<close>

theorem affinity_recovers_from_failures:
  assumes "af_redis s" and "ac_state (get_context s) = LOCKED" and "ac_failure_count (get_context s) = 0"
    and "fs \<noteq> []" and "int (length fs) = af_failure_threshold cfg" and "\<forall>r \<in> set fs. \<not> ar_success r"
    and "rs \<noteq> []" and "int (length rs) = af_explore_threshold cfg"
    and "ar_provider (last rs) \<noteq> []" and "ar_provider_model_id (last rs) \<noteq> []"
    and "now \<le> ar_now (last rs) + af_lock_duration cfg"
  shows "fst (should_use_affinity now' (fold (record_request cfg) fs s)) = (False, None, None) \<and>
    fst (should_use_affinity now (fold (record_request cfg) (fs @ rs) s)) =
      (True, Some (ar_provider (last rs)), Some (ar_provider_model_id (last rs)))"
proof -
  have e: "explored (fold (record_request cfg) fs s) 0"
    using failures_unlock [OF assms(1-3) _ assms(4,6)] assms(5) by simp
  then have "fst (should_use_affinity now' (fold (record_request cfg) fs s)) = (False, None, None)"
    by (auto simp: explored_def should_use_affinity_def Let_def)
  with explore_then_lock [OF e _ assms(7,9,10)] assms(8,11) show ?thesis
    by (auto simp: locked_on_def should_use_affinity_def Let_def)
qed

subsection \<open>Witnesses\<close>

definition affinity_try :: "rat \<Rightarrow> string \<Rightarrow> bool \<Rightarrow> affinity_request" where
  "affinity_try now p ok = \<lparr>ar_now = now, ar_provider = p, ar_provider_model_id = p @ ''-model'', ar_success = ok\<rparr>"

definition failing_tries :: "affinity_request list" where
  "failing_tries = [affinity_try 0 ''a'' False, affinity_try 1 ''b'' False, affinity_try 2 ''c'' False]"

text \<open>The preceding statement at three requests that all failed.\<close>

theorem affinity_locks_last_upstream_witness:
  "fst (should_use_affinity 100 (fold (record_request default_affinity_config) failing_tries
     \<lparr>af_redis = True, af_hash = []\<rparr>)) = (True, Some ''c'', Some ''c-model'')"
proof -
  have "last failing_tries = affinity_try 2 ''c'' False" by (simp add: failing_tries_def)
  moreover have "ac_state (get_context \<lparr>af_redis = True, af_hash = []\<rparr>) = INIT" by code_simp
  ultimately show ?thesis
    using affinity_locks_last_upstream [of "\<lparr>af_redis = True, af_hash = []\<rparr>" failing_tries default_affinity_config 100]
    by (simp add: failing_tries_def affinity_try_def default_affinity_config_def)
qed

text \<open>The preceding statement at that session, three more failures and a new exploration.\<close>

theorem affinity_recovers_from_failures_witness:
  "fst (should_use_affinity 200 (fold (record_request default_affinity_config) (failing_tries @ failing_tries)
     (fold (record_request default_affinity_config) failing_tries \<lparr>af_redis = True, af_hash = []\<rparr>))) =
   (True, Some ''c'', Some ''c-model'')"
proof -
  let ?s = "fold (record_request default_affinity_config) failing_tries \<lparr>af_redis = True, af_hash = []\<rparr>"
  have s: "af_redis ?s" "ac_state (get_context ?s) = LOCKED" "ac_failure_count (get_context ?s) = 0" by code_simp+
  have l: "last failing_tries = affinity_try 2 ''c'' False" "failing_tries \<noteq> []" "length failing_tries = 3"
    "\<forall>r \<in> set failing_tries. \<not> ar_success r"
    by (simp_all add: failing_tries_def affinity_try_def)
  from affinity_recovers_from_failures [OF s, of failing_tries default_affinity_config failing_tries 200] l show ?thesis
    by (simp add: affinity_try_def default_affinity_config_def)
qed

end
