(* ===== verification/Review_Workflow.thy ===== *)
theory Review_Workflow
  imports Py_Value
begin

section \<open>Review tasks and assistant publication\<close>

text \<open>
  The two status machines of the code, src/app/services/review/review_state.py and
  src/app/services/assistant/assistant_state.py, and the services over the first:
  src/app/services/review/review_service.py with the table of src/app/models/review.py, and
  src/app/services/assistant/assistant_review_service.py, whose automatic reviewer (a language model)
  is the argument \<open>verdict\<close>. The two machines have the same shape; it is the locale
  \<open>status_machine\<close>, interpreted on both. A task is found by its entity type and id, which are unique
  in the table. The error texts, which are not ASCII, are constructors.
\<close>

subsection \<open>Status machines\<close>

definition validate_transition :: "('s \<Rightarrow> 's list) \<Rightarrow> 's \<Rightarrow> 's \<Rightarrow> bool" where
  "validate_transition allowed current target \<longleftrightarrow> current = target \<or> target \<in> set (allowed current)"

locale status_machine =
  fixes allowed :: "'s \<Rightarrow> 's list"
    and status_of :: "'t \<Rightarrow> 's"
    and move :: "rat \<Rightarrow> 's \<Rightarrow> 't \<Rightarrow> ('s \<times> 's) + 't"
  assumes move_same: "status_of t = target \<Longrightarrow> move now target t = Inr t"
    and move_allowed: "target \<in> set (allowed (status_of t)) \<Longrightarrow> \<exists>t'. move now target t = Inr t' \<and> status_of t' = target"
    and move_refused: "\<not> validate_transition allowed (status_of t) target \<Longrightarrow>
      move now target t = Inl (status_of t, target)"
begin

inductive moves :: "'t \<Rightarrow> 't \<Rightarrow> bool" where
  refl: "moves t t"
| step: "moves t t' \<Longrightarrow> move now target t' = Inr t'' \<Longrightarrow> moves t t''"

lemma move_ok:
  "move now target t = Inr t' \<Longrightarrow> status_of t' = target \<and> validate_transition allowed (status_of t) target"
  using move_same move_allowed move_refused
  by (metis (no_types, lifting) Inl_Inr_False sum.inject(2) validate_transition_def)

text \<open>Whatever is asked of the machine, it only walks along allowed edges.\<close>

lemma moves_path:
  "moves t t' \<Longrightarrow> (status_of t, status_of t') \<in> {(a, b). b \<in> set (allowed a)}\<^sup>*"
proof (induction rule: moves.induct)
  case (step t t' now target t'')
  from move_ok [OF step.hyps(2)] step.IH show ?case
    by (auto simp: validate_transition_def intro: rtrancl_into_rtrancl)
qed simp

lemma terminal_stays: "moves t t' \<Longrightarrow> allowed (status_of t) = [] \<Longrightarrow> status_of t' = status_of t"
proof (induction rule: moves.induct)
  case (step t t' now target t'')
  from move_ok [OF step.hyps(2)] step show ?case by (auto simp: validate_transition_def)
qed simp

end

subsection \<open>Review tasks\<close>

datatype review_status = ReviewDraft | ReviewPending | ReviewApproved | ReviewRejected | ReviewSuspended

definition review_transitions :: "review_status \<Rightarrow> review_status list" where
  "review_transitions st =
     (case st of
        ReviewDraft \<Rightarrow> [ReviewPending]
      | ReviewPending \<Rightarrow> [ReviewApproved, ReviewRejected, ReviewSuspended]
      | ReviewRejected \<Rightarrow> [ReviewPending]
      | ReviewApproved \<Rightarrow> [ReviewSuspended, ReviewPending]
      | ReviewSuspended \<Rightarrow> [ReviewPending])"

record review_task =
  rt_entity_type :: string
  rt_entity_id :: string
  rt_status :: review_status
  rt_submitter :: "string option"
  rt_reviewer :: "string option"
  rt_submitted_at :: "rat option"
  rt_reviewed_at :: "rat option"
  rt_reason :: "string option"
  rt_payload :: "(string, pyval) dict"

definition review_apply :: "rat \<Rightarrow> review_status \<Rightarrow> review_task \<Rightarrow> (review_status \<times> review_status) + review_task" where
  "review_apply now target t =
     (if \<not> validate_transition review_transitions (rt_status t) target then Inl (rt_status t, target)
      else if rt_status t = target then Inr t
      else
        let t1 = t\<lparr>rt_status := target\<rparr>
        in if target = ReviewPending then Inr (t1\<lparr>rt_submitted_at := Some now, rt_reviewed_at := None\<rparr>)
           else if target \<in> {ReviewApproved, ReviewRejected, ReviewSuspended}
           then Inr (t1\<lparr>rt_reviewed_at := Some now\<rparr>)
           else Inr t1)"

interpretation review: status_machine review_transitions rt_status review_apply
  by unfold_locales (auto simp: review_apply_def validate_transition_def Let_def)

subsection \<open>Assistants\<close>

datatype assistant_status = AssistantDraft | AssistantPublished | AssistantArchived

definition assistant_transitions :: "assistant_status \<Rightarrow> assistant_status list" where
  "assistant_transitions st =
     (case st of
        AssistantDraft \<Rightarrow> [AssistantPublished, AssistantArchived]
      | AssistantPublished \<Rightarrow> [AssistantArchived]
      | AssistantArchived \<Rightarrow> [])"

record assistant_rec =
  as_status :: assistant_status
  as_published_at :: "rat option"

definition assistant_apply :: "rat \<Rightarrow> assistant_status \<Rightarrow> assistant_rec \<Rightarrow>
    (assistant_status \<times> assistant_status) + assistant_rec" where
  "assistant_apply now target a =
     (if \<not> validate_transition assistant_transitions (as_status a) target then Inl (as_status a, target)
      else if as_status a = target then Inr a
      else
        let a1 = a\<lparr>as_status := target\<rparr>
        in Inr (if target = AssistantPublished then a1\<lparr>as_published_at := Some now\<rparr> else a1))"

interpretation assistant: status_machine assistant_transitions as_status assistant_apply
  by unfold_locales (auto simp: assistant_apply_def validate_transition_def Let_def)

text \<open>An archived assistant stays archived, whatever is asked of it.\<close>

lemma archived_is_final: "assistant.moves a a' \<Longrightarrow> as_status a = AssistantArchived \<Longrightarrow> as_status a' = AssistantArchived"
  using assistant.terminal_stays [of a a'] by (simp add: assistant_transitions_def)

subsection \<open>The review service\<close>

type_synonym review_db = "(string \<times> string, review_task) dict"

datatype review_error = TaskMissing | TransitionRefused review_status review_status

definition new_review_task :: "string \<Rightarrow> string \<Rightarrow> string option \<Rightarrow> review_task" where
  "new_review_task ty i submitter =
     \<lparr>rt_entity_type = ty, rt_entity_id = i, rt_status = ReviewDraft, rt_submitter = submitter, rt_reviewer = None,
      rt_submitted_at = None, rt_reviewed_at = None, rt_reason = None, rt_payload = []\<rparr>"

definition review_get_or_create :: "string \<Rightarrow> string \<Rightarrow> string option \<Rightarrow> review_db \<Rightarrow> review_task \<times> review_db" where
  "review_get_or_create ty i submitter db =
     (case dget db (ty, i) of
        Some t \<Rightarrow> (t, db)
      | None \<Rightarrow> (new_review_task ty i submitter, dput (ty, i) (new_review_task ty i submitter) db))"

definition review_submit :: "rat \<Rightarrow> string \<Rightarrow> string \<Rightarrow> string option \<Rightarrow> (string, pyval) dict option \<Rightarrow> review_db \<Rightarrow>
    (review_error + review_task) \<times> review_db" where
  "review_submit now ty i submitter payload db =
     (case review_get_or_create ty i submitter db of
        (t, db1) \<Rightarrow>
          (case review_apply now ReviewPending t of
             Inl (a, b) \<Rightarrow> (Inl (TransitionRefused a b), db1)
           | Inr t1 \<Rightarrow>
               let t2 = t1\<lparr>rt_reviewer := None, rt_reason := None\<rparr>;
                   t3 = (if submitter \<noteq> None then t2\<lparr>rt_submitter := submitter\<rparr> else t2);
                   t4 = (case payload of None \<Rightarrow> t3 | Some p \<Rightarrow> t3\<lparr>rt_payload := p\<rparr>)
               in (Inr t4, dput (ty, i) t4 db1)))"

text \<open>\<open>approve\<close>, \<open>reject\<close> and \<open>suspend\<close> differ only in their target.\<close>

definition review_decide :: "review_status \<Rightarrow> rat \<Rightarrow> string \<Rightarrow> string \<Rightarrow> string option \<Rightarrow> string option \<Rightarrow> review_db \<Rightarrow>
    (review_error + review_task) \<times> review_db" where
  "review_decide target now ty i reviewer reason db =
     (case dget db (ty, i) of
        None \<Rightarrow> (Inl TaskMissing, db)
      | Some t \<Rightarrow>
          (case review_apply now target t of
             Inl (a, b) \<Rightarrow> (Inl (TransitionRefused a b), db)
           | Inr t1 \<Rightarrow>
               let t2 = t1\<lparr>rt_reviewer := reviewer, rt_reason := reason\<rparr>
               in (Inr t2, dput (ty, i) t2 db)))"

definition review_approve :: "rat \<Rightarrow> string \<Rightarrow> string \<Rightarrow> string option \<Rightarrow> string option \<Rightarrow> review_db \<Rightarrow>
    (review_error + review_task) \<times> review_db" where
  "review_approve = review_decide ReviewApproved"

definition review_reject :: "rat \<Rightarrow> string \<Rightarrow> string \<Rightarrow> string option \<Rightarrow> string option \<Rightarrow> review_db \<Rightarrow>
    (review_error + review_task) \<times> review_db" where
  "review_reject = review_decide ReviewRejected"

definition review_suspend :: "rat \<Rightarrow> string \<Rightarrow> string \<Rightarrow> string option \<Rightarrow> string option \<Rightarrow> review_db \<Rightarrow>
    (review_error + review_task) \<times> review_db" where
  "review_suspend = review_decide ReviewSuspended"

subsection \<open>Automatic review of assistants\<close>

datatype auto_review = AutoFailed string | AutoResult review_status "string option" "string option"

definition market_entity :: string where
  "market_entity = ''assistant_market''"

text \<open>The last component lists the assistants queued for the vector index.\<close>

definition submit_and_review :: "rat \<Rightarrow> string \<Rightarrow> string \<Rightarrow> (string, pyval) dict option \<Rightarrow> auto_review \<Rightarrow> review_db \<Rightarrow>
    (review_error + review_task) \<times> review_db \<times> string list" where
  "submit_and_review now i submitter payload verdict db =
     (case review_submit now market_entity i (Some submitter) payload db of
        (Inl e, db1) \<Rightarrow> (Inl e, db1, [])
      | (Inr _, db1) \<Rightarrow>
          let reject = (\<lambda>who why. case review_reject now market_entity i who (Some why) db1 of (r, db2) \<Rightarrow> (r, db2, []))
          in (case verdict of
                AutoFailed e \<Rightarrow> reject None e
              | AutoResult st who why \<Rightarrow>
                  if st = ReviewApproved then
                    (if \<not> str_truthy who then reject None ''missing_reviewer''
                     else (case review_approve now market_entity i who why db1 of
                             (Inl e, db2) \<Rightarrow> (Inl e, db2, [])
                           | (Inr t, db2) \<Rightarrow> (Inr t, db2, [i])))
                  else if st = ReviewRejected then
                    (case review_reject now market_entity i who why db1 of (r, db2) \<Rightarrow> (r, db2, []))
                  else reject who ''invalid_review_status''))"

subsection \<open>Reachable tables\<close>

inductive review_step :: "review_db \<Rightarrow> review_db \<Rightarrow> bool" where
  submit: "review_submit now ty i who p db = (r, db') \<Longrightarrow> review_step db db'"
| approve: "review_approve now ty i who why db = (r, db') \<Longrightarrow> review_step db db'"
| reject: "review_reject now ty i who why db = (r, db') \<Longrightarrow> review_step db db'"
| suspend: "review_suspend now ty i who why db = (r, db') \<Longrightarrow> review_step db db'"
| auto: "submit_and_review now i who p verdict db = (r, db', jobs) \<Longrightarrow> review_step db db'"

inductive review_reachable :: "review_db \<Rightarrow> bool" where
  start: "review_reachable []"
| step: "review_reachable db \<Longrightarrow> review_step db db' \<Longrightarrow> review_reachable db'"

text \<open>A draft was never submitted, a pending task waits for a decision, a decided one has both dates.\<close>

definition task_ok :: "review_task \<Rightarrow> bool" where
  "task_ok t \<longleftrightarrow>
     (case rt_status t of
        ReviewDraft \<Rightarrow> rt_submitted_at t = None \<and> rt_reviewed_at t = None \<and> rt_reviewer t = None
      | ReviewPending \<Rightarrow> rt_submitted_at t \<noteq> None \<and> rt_reviewed_at t = None \<and> rt_reviewer t = None \<and> rt_reason t = None
      | _ \<Rightarrow> rt_submitted_at t \<noteq> None \<and> rt_reviewed_at t \<noteq> None)"

definition review_db_ok :: "review_db \<Rightarrow> bool" where
  "review_db_ok db \<longleftrightarrow> (\<forall>k t. dget db k = Some t \<longrightarrow> task_ok t)"

lemma review_db_ok_dput [inv_intros]: "review_db_ok db \<Longrightarrow> task_ok t \<Longrightarrow> review_db_ok (dput k t db)"
  by (auto simp: review_db_ok_def)

lemma get_or_create_ok:
  "review_db_ok db \<Longrightarrow> review_get_or_create ty i who db = (t, db1) \<Longrightarrow> task_ok t \<and> review_db_ok db1"
  by (auto simp: review_get_or_create_def review_db_ok_def new_review_task_def task_ok_def split: option.splits if_splits)

lemma submit_always_allowed: "\<exists>t'. review_apply now ReviewPending t = Inr t'"
  by (cases "rt_status t") (auto simp: review_apply_def validate_transition_def review_transitions_def Let_def)

lemma review_submit_ok:
  assumes "review_db_ok db"
  shows "\<exists>t. review_submit now ty i who p db = (Inr t, dput (ty, i) t (snd (review_get_or_create ty i who db))) \<and>
    rt_status t = ReviewPending \<and> task_ok t"
proof -
  obtain t0 db1 where g: "review_get_or_create ty i who db = (t0, db1)" by (cases "review_get_or_create ty i who db")
  obtain t1 where a: "review_apply now ReviewPending t0 = Inr t1" using submit_always_allowed by blast
  have "task_ok t0" using get_or_create_ok [OF assms g] by simp
  then have "rt_status t1 = ReviewPending \<and> rt_submitted_at t1 \<noteq> None \<and> rt_reviewed_at t1 = None"
    using a by (cases "rt_status t0")
      (auto simp: review_apply_def validate_transition_def review_transitions_def Let_def task_ok_def)
  with g a show ?thesis by (auto simp: review_submit_def Let_def task_ok_def split: option.splits)
qed

lemma review_submit_db_ok:
  assumes "review_db_ok db" and "review_submit now ty i who p db = (r, db')"
  shows "review_db_ok db'"
proof -
  obtain t0 db1 where g: "review_get_or_create ty i who db = (t0, db1)" by (cases "review_get_or_create ty i who db")
  from review_submit_ok [OF assms(1), of now ty i who p] get_or_create_ok [OF assms(1) g] assms(2) g
  show ?thesis by (auto intro: review_db_ok_dput)
qed

lemma review_decide_ok:
  assumes "review_db_ok db" and "review_decide target now ty i who why db = (r, db')"
    and "target \<in> {ReviewApproved, ReviewRejected, ReviewSuspended}"
  shows "review_db_ok db'"
proof (cases "dget db (ty, i)")
  case (Some t)
  then have "task_ok t" using assms(1) by (simp add: review_db_ok_def)
  then have "review_apply now target t = Inr t1 \<Longrightarrow> task_ok (t1\<lparr>rt_reviewer := who, rt_reason := why\<rparr>)" for t1
    using assms(3) by (cases "rt_status t")
      (auto simp: review_apply_def validate_transition_def review_transitions_def Let_def task_ok_def)
  with Some assms(1,2) show ?thesis
    by (auto simp: review_decide_def Let_def split: sum.splits intro: review_db_ok_dput)
qed (use assms in \<open>simp add: review_decide_def\<close>)

lemmas review_decisions = review_approve_def review_reject_def review_suspend_def

lemma review_decide_pending:
  assumes "dget db (ty, i) = Some t" and "rt_status t = ReviewPending" and "target \<in> {ReviewApproved, ReviewRejected}"
  shows "\<exists>t'. review_decide target now ty i who why db = (Inr t', dput (ty, i) t' db) \<and> rt_status t' = target"
  using assms by (auto simp: review_decide_def review_apply_def validate_transition_def review_transitions_def Let_def)

definition auto_approves :: "auto_review \<Rightarrow> bool" where
  "auto_approves v = (case v of AutoFailed _ \<Rightarrow> False | AutoResult st who _ \<Rightarrow> st = ReviewApproved \<and> str_truthy who)"

text \<open>The automatic review always decides: the submission is accepted in every state and the decision
  that follows it too.\<close>

lemma submit_and_review_decides:
  assumes "review_db_ok db"
  shows "\<exists>t db' jobs. submit_and_review now i who p v db = (Inr t, db', jobs) \<and>
    rt_status t = (if auto_approves v then ReviewApproved else ReviewRejected) \<and>
    jobs = (if auto_approves v then [i] else [])"
proof -
  obtain t0 db1 where sub: "review_submit now market_entity i (Some who) p db = (Inr t0, db1)"
    and t0: "dget db1 (market_entity, i) = Some t0" "rt_status t0 = ReviewPending"
    using review_submit_ok [OF assms, of now market_entity i "Some who" p] by auto
  have rej: "\<exists>t db2. review_reject now market_entity i w y db1 = (Inr t, db2) \<and> rt_status t = ReviewRejected" for w y
    using review_decide_pending [OF t0, of ReviewRejected] by (simp add: review_decisions) blast
  have app: "\<exists>t db2. review_approve now market_entity i w y db1 = (Inr t, db2) \<and> rt_status t = ReviewApproved" for w y
    using review_decide_pending [OF t0, of ReviewApproved] by (simp add: review_decisions) blast
  show ?thesis
  proof (cases v)
    case (AutoFailed e)
    with rej [of None "Some e"] sub show ?thesis by (auto simp: submit_and_review_def Let_def auto_approves_def)
  next
    case (AutoResult st w y)
    with rej [of None "Some ''missing_reviewer''"] rej [of w "Some ''invalid_review_status''"] rej [of w y] app [of w y] sub
    show ?thesis by (auto simp: submit_and_review_def Let_def auto_approves_def)
  qed
qed

lemma submit_and_review_db_ok:
  assumes "review_db_ok db" and "submit_and_review now i who p v db = (r, db', jobs)"
  shows "review_db_ok db'"
proof -
  obtain t0 db1 where sub: "review_submit now market_entity i (Some who) p db = (Inr t0, db1)"
    using review_submit_ok [OF assms(1), of now market_entity i "Some who" p] by auto
  have ok: "review_db_ok db1" by (rule review_submit_db_ok [OF assms(1) sub])
  have rej: "review_reject now market_entity i w y db1 = (x, db2) \<Longrightarrow> review_db_ok db2" for w y x db2
    using review_decide_ok [OF ok] by (simp add: review_decisions)
  have app: "review_approve now market_entity i w y db1 = (x, db2) \<Longrightarrow> review_db_ok db2" for w y x db2
    using review_decide_ok [OF ok] by (simp add: review_decisions)
  show ?thesis
    using assms(2) sub
    by (auto simp: submit_and_review_def Let_def split: auto_review.splits if_splits prod.splits sum.splits
        dest: rej app)
qed

lemma review_step_ok: "review_step db db' \<Longrightarrow> review_db_ok db \<Longrightarrow> review_db_ok db'"
  by (induction rule: review_step.induct)
     (auto simp: review_decisions dest: review_submit_db_ok review_decide_ok submit_and_review_db_ok)

lemma review_reachable_ok: "review_reachable db \<Longrightarrow> review_db_ok db"
  by (induction rule: review_reachable.induct) (auto simp: review_db_ok_def [of "[]"] dest: review_step_ok)

subsection \<open>Properties\<close>



end
