(* ===== verification/Cache_Service.thy ===== *)
theory Cache_Service
  imports Py_Value
begin

section \<open>The Redis cache service\<close>

text \<open>
  src/app/core/cache.py: \<open>CacheService\<close>. The server holds, per key, either a pickled value or the
  plain number that INCR keeps, with the time at which the key expires. A key is visible until then.
  Reading a number that INCR wrote fails to unpickle, which the service reports as a miss. Without a
  Redis client every read misses and every write is dropped. A SET whose expiry is not positive is
  refused by the server, which the service turns into False. The key prefix is the same for all keys
  and is left out; times are seconds. The locale \<open>expiring_store\<close> is what the clients rely on.
\<close>

datatype 'v redis_val = Pickled 'v | Counter int

record 'v cache_state =
  cs_redis :: bool
  cs_data :: "(string, 'v redis_val \<times> rat option) dict"

definition live :: "rat \<Rightarrow> rat option \<Rightarrow> bool" where
  "live now e = (case e of None \<Rightarrow> True | Some t \<Rightarrow> now < t)"

definition redis_get :: "rat \<Rightarrow> string \<Rightarrow> 'v cache_state \<Rightarrow> 'v redis_val option" where
  "redis_get now k s =
     (case dget (cs_data s) k of None \<Rightarrow> None | Some (v, e) \<Rightarrow> if live now e then Some v else None)"

definition redis_put :: "string \<Rightarrow> 'v redis_val \<times> rat option \<Rightarrow> 'v cache_state \<Rightarrow> 'v cache_state" where
  "redis_put k x s = s\<lparr>cs_data := dput k x (cs_data s)\<rparr>"

definition redis_del :: "string \<Rightarrow> 'v cache_state \<Rightarrow> 'v cache_state" where
  "redis_del k s = s\<lparr>cs_data := AList.delete k (cs_data s)\<rparr>"

subsection \<open>Operations\<close>

definition cache_get :: "rat \<Rightarrow> string \<Rightarrow> 'v cache_state \<Rightarrow> 'v option" where
  "cache_get now k s =
     (if \<not> cs_redis s then None
      else case redis_get now k s of Some (Pickled v) \<Rightarrow> Some v | _ \<Rightarrow> None)"

definition expiry :: "rat \<Rightarrow> int option \<Rightarrow> rat option" where
  "expiry now ttl = map_option (\<lambda>t. now + of_int t) ttl"

definition cache_set :: "rat \<Rightarrow> string \<Rightarrow> 'v \<Rightarrow> int option \<Rightarrow> bool \<Rightarrow> 'v cache_state \<Rightarrow> bool \<times> 'v cache_state" where
  "cache_set now k v ttl nx s =
     (if \<not> cs_redis s then (False, s)
      else if (case ttl of Some t \<Rightarrow> t \<le> 0 | None \<Rightarrow> False) then (False, s)
      else if nx \<and> redis_get now k s \<noteq> None then (False, s)
      else (True, redis_put k (Pickled v, expiry now ttl) s))"

definition cache_delete :: "string \<Rightarrow> 'v cache_state \<Rightarrow> 'v cache_state" where
  "cache_delete k s = (if cs_redis s then redis_del k s else s)"

text \<open>\<open>incr\<close>: the expiry is set when the counter is new (it reads 1 afterwards), and an existing
  expiry is kept. A pickled value under the key is a server error, reported as 0.\<close>

definition cache_incr :: "rat \<Rightarrow> string \<Rightarrow> int option \<Rightarrow> int \<Rightarrow> 'v cache_state \<Rightarrow> int \<times> 'v cache_state" where
  "cache_incr now k ttl amount s =
     (if \<not> cs_redis s then (0, s)
      else case redis_get now k s of
             Some (Pickled v) \<Rightarrow> (0, s)
           | Some (Counter n) \<Rightarrow>
               let val = n + amount;
                   e = (case dget (cs_data s) k of Some (_, e) \<Rightarrow> e | None \<Rightarrow> None);
                   e' = (case ttl of Some t \<Rightarrow> if t \<noteq> 0 \<and> val = 1 then Some (now + of_int t) else e | None \<Rightarrow> e)
               in (val, redis_put k (Counter val, e') s)
           | None \<Rightarrow>
               let e' = (case ttl of Some t \<Rightarrow> if t \<noteq> 0 \<and> amount = 1 then Some (now + of_int t) else None | None \<Rightarrow> None)
               in (amount, redis_put k (Counter amount, e') s))"

definition clear_prefix :: "rat \<Rightarrow> string \<Rightarrow> 'v cache_state \<Rightarrow> int \<times> 'v cache_state" where
  "clear_prefix now p s =
     (if \<not> cs_redis s then (0, s)
      else
        let ks = filter (\<lambda>k. starts_with k p \<and> redis_get now k s \<noteq> None) (dkeys (cs_data s))
        in (int (length ks), s\<lparr>cs_data := filter (\<lambda>(k, _). k \<notin> set ks) (cs_data s)\<rparr>))"

text \<open>A cache of Python values reads a miss as None; versioned entries are dictionaries.\<close>

definition py_cache_get :: "rat \<Rightarrow> string \<Rightarrow> pyval cache_state \<Rightarrow> pyval" where
  "py_cache_get now k s = (case cache_get now k s of None \<Rightarrow> PNone | Some v \<Rightarrow> v)"

definition set_with_version :: "rat \<Rightarrow> string \<Rightarrow> pyval \<Rightarrow> int \<Rightarrow> int option \<Rightarrow> pyval cache_state \<Rightarrow> bool \<times> pyval cache_state" where
  "set_with_version now k v version ttl s =
     cache_set now k (PDict [(''v'', PInt version), (''data'', v)]) ttl False s"

definition get_with_version :: "rat \<Rightarrow> string \<Rightarrow> int option \<Rightarrow> pyval cache_state \<Rightarrow> pyval" where
  "get_with_version now k expected s =
     (case expected of
        None \<Rightarrow> py_cache_get now k s
      | Some n \<Rightarrow>
          (case py_cache_get now k s of
             PDict d \<Rightarrow> if py_get d ''v'' PNone = PInt n then py_get d ''data'' PNone else PNone
           | _ \<Rightarrow> PNone))"

text \<open>
  \<open>get_or_set_singleflight\<close>. \<open>jitter\<close> is the random change of the time to live and \<open>loader\<close> the value
  the loader returns. A caller that does not get the lock polls; \<open>polls\<close> lists the times and the
  states it sees until its deadline, after which it loads the value itself.
\<close>

definition jitter_ttl :: "int \<Rightarrow> int \<Rightarrow> int" where
  "jitter_ttl jitter ttl = (if ttl \<le> 0 then ttl else ttl + jitter)"

definition store_loaded_value :: "rat \<Rightarrow> int \<Rightarrow> string \<Rightarrow> pyval \<Rightarrow> int \<Rightarrow> int option \<Rightarrow> pyval cache_state \<Rightarrow> pyval cache_state" where
  "store_loaded_value now jitter k value ttl version s =
     (if value = PNone then s
      else case version of
             None \<Rightarrow> snd (cache_set now k value (Some (jitter_ttl jitter ttl)) False s)
           | Some n \<Rightarrow> snd (set_with_version now k value n (Some (jitter_ttl jitter ttl)) s))"

fun poll_cache :: "string \<Rightarrow> int option \<Rightarrow> (rat \<times> pyval cache_state) list \<Rightarrow> rat \<times> pyval cache_state \<Rightarrow> pyval \<times> rat \<times> pyval cache_state" where
  "poll_cache k version [] (now, s) = (PNone, now, s)"
| "poll_cache k version ((t, s') # polls) (now, s) =
     (let v = get_with_version t k version s'
      in if v \<noteq> PNone then (v, t, s') else poll_cache k version polls (t, s'))"

definition get_or_set_singleflight ::
    "rat \<Rightarrow> int \<Rightarrow> (rat \<times> pyval cache_state) list \<Rightarrow> string \<Rightarrow> pyval \<Rightarrow> int \<Rightarrow> int option \<Rightarrow> int \<Rightarrow> pyval cache_state \<Rightarrow> pyval \<times> pyval cache_state" where
  "get_or_set_singleflight now jitter polls k loader ttl version lock_ttl s =
     (if \<not> cs_redis s then (loader, s)
      else
        let existing = get_with_version now k version s
        in if existing \<noteq> PNone then (existing, s)
           else
             let lock_key = ''lock:'' @ k
             in (case cache_set now lock_key (PInt 1) (Some lock_ttl) True s of
                   (True, s1) \<Rightarrow>
                     let again = get_with_version now k version s1
                     in if again \<noteq> PNone then (again, redis_del lock_key s1)
                        else (loader, redis_del lock_key (store_loaded_value now jitter k loader ttl version s1))
                 | (False, s1) \<Rightarrow>
                     (case poll_cache k version polls (now, s1) of
                        (v, t, s2) \<Rightarrow>
                          if v \<noteq> PNone then (v, s2)
                          else (loader, store_loaded_value t jitter k loader ttl version s2))))"

subsection \<open>The laws of an expiring store\<close>

locale expiring_store =
  fixes lookup :: "rat \<Rightarrow> string \<Rightarrow> 's \<Rightarrow> 'v option"
    and store :: "rat \<Rightarrow> string \<Rightarrow> 'v \<Rightarrow> int \<Rightarrow> 's \<Rightarrow> 's"
    and remove :: "string \<Rightarrow> 's \<Rightarrow> 's"
    and up :: "'s \<Rightarrow> bool"
  assumes lookup_store: "up s \<Longrightarrow> 0 < ttl \<Longrightarrow> t0 \<le> now \<Longrightarrow>
      lookup now k' (store t0 k v ttl s) =
        (if k' = k then if now < t0 + of_int ttl then Some v else None else lookup now k' s)"
    and lookup_remove: "lookup now k' (remove k s) = (if k' = k then None else lookup now k' s)"
    and lookup_down: "\<not> up s \<Longrightarrow> lookup now k s = None"
    and up_store: "up (store t0 k v ttl s) = up s"
    and up_remove: "up (remove k s) = up s"
    and lookup_expired: "lookup now k s = None \<Longrightarrow> now \<le> now' \<Longrightarrow> lookup now' k s = None"
begin

text \<open>A value stored under one key is read back until it expires, whatever happens to other keys.\<close>

lemma lookup_store_frame:
  assumes "up s" and "0 < ttl" and "t0 \<le> now" and "k' \<noteq> k"
  shows "lookup now k' (store t0 k v ttl s) = lookup now k' s"
  using assms by (simp add: lookup_store)

lemma lookup_store_same:
  assumes "up s" and "0 < ttl" and "t0 \<le> now" and "now < t0 + of_int ttl"
  shows "lookup now k (store t0 k v ttl s) = Some v"
  using assms by (simp add: lookup_store)

lemma lookup_store_expired:
  assumes "up s" and "0 < ttl" and "t0 + of_int ttl \<le> now"
  shows "lookup now k (store t0 k v ttl s) = None"
proof -
  have "0 < (of_int ttl :: rat)" using assms(2) by simp
  with assms(3) have "t0 \<le> now" by linarith
  with assms show ?thesis by (simp add: lookup_store)
qed

text \<open>Removing keys one after the other leaves nothing under any of them.\<close>

lemma lookup_fold_remove:
  "lookup now k (fold remove ks s) = (if k \<in> set ks then None else lookup now k s)"
  by (induction ks arbitrary: s) (auto simp: lookup_remove)

lemma up_fold_remove: "up (fold remove ks s) = up s"
  by (induction ks arbitrary: s) (auto simp: up_remove)

text \<open>A removed value stays away until something is stored under its key again.\<close>

lemma removed_stays: "now \<le> now' \<Longrightarrow> lookup now' k (remove k s) = None"
  by (simp add: lookup_remove)

end

lemma redis_get_put: "redis_get now k' (redis_put k (v, e) s) =
    (if k' = k then if live now e then Some v else None else redis_get now k' s)"
  by (simp add: redis_get_def redis_put_def)

lemma redis_get_del: "redis_get now k' (redis_del k s) = (if k' = k then None else redis_get now k' s)"
  by (simp add: redis_get_def redis_del_def delete_conv')

lemma redis_frames [simp]:
  "cs_redis (redis_put k x s) = cs_redis s" "cs_redis (redis_del k s) = cs_redis s"
  by (simp_all add: redis_put_def redis_del_def)

lemma cache_frames [simp]:
  "cs_redis (snd (cache_set now k v ttl nx s)) = cs_redis s"
  "cs_redis (cache_delete k s) = cs_redis s"
  "cs_redis (snd (cache_incr now k ttl a s)) = cs_redis s"
  by (auto simp: cache_set_def cache_delete_def cache_incr_def Let_def split: option.splits redis_val.splits)

definition cache_put :: "rat \<Rightarrow> string \<Rightarrow> 'v \<Rightarrow> int \<Rightarrow> 'v cache_state \<Rightarrow> 'v cache_state" where
  "cache_put now k v ttl s = snd (cache_set now k v (Some ttl) False s)"

interpretation redis: expiring_store cache_get cache_put cache_delete cs_redis
proof unfold_locales
  fix s :: "'v cache_state" and ttl :: int and t0 now :: rat and k' k v
  assume "cs_redis s" "0 < ttl" "t0 \<le> now"
  then show "cache_get now k' (cache_put t0 k v ttl s) =
      (if k' = k then if now < t0 + of_int ttl then Some v else None else cache_get now k' s)"
    by (simp add: cache_get_def cache_put_def cache_set_def redis_get_put expiry_def live_def)
next
  fix now :: rat and k' k and s :: "'v cache_state"
  show "cache_get now k' (cache_delete k s) = (if k' = k then None else cache_get now k' s)"
    by (simp add: cache_get_def cache_delete_def redis_get_del)
next
  fix now now' :: rat and k and s :: "'v cache_state"
  assume "cache_get now k s = None" and "now \<le> now'"
  then show "cache_get now' k s = None"
    by (auto simp: cache_get_def redis_get_def live_def split: option.splits redis_val.splits if_splits)
qed (simp_all add: cache_get_def cache_put_def)

lemmas cache_laws = redis.lookup_store redis.lookup_remove redis.up_store redis.up_remove

subsection \<open>Versioned entries and single flight\<close>

lemma lock_key_neq [simp]: "''lock:'' @ k \<noteq> k" "k \<noteq> ''lock:'' @ k"
  by (auto dest: arg_cong [where f = length])

lemma py_cache_put:
  "cs_redis s \<Longrightarrow> 0 < ttl \<Longrightarrow> t0 \<le> now \<Longrightarrow> py_cache_get now k' (cache_put t0 k v ttl s) =
     (if k' = k then if now < t0 + of_int ttl then v else PNone else py_cache_get now k' s)"
  by (simp add: py_cache_get_def redis.lookup_store)

lemma py_cache_delete: "py_cache_get now k' (cache_delete k s) = (if k' = k then PNone else py_cache_get now k' s)"
  by (simp add: py_cache_get_def redis.lookup_remove)

lemma set_with_version_put:
  "snd (set_with_version now k v n (Some ttl) s) = cache_put now k (PDict [(''v'', PInt n), (''data'', v)]) ttl s"
  by (simp add: set_with_version_def cache_put_def)

text \<open>An entry is read back under its own version until it expires, and under no other version.\<close>

lemma versioned_roundtrip:
  assumes "cs_redis s" and "0 < ttl" and "t0 \<le> now" and "now < t0 + of_int ttl"
  shows "get_with_version now k (Some n) (snd (set_with_version t0 k v n (Some ttl) s)) = v"
    and "m \<noteq> n \<Longrightarrow> get_with_version now k (Some m) (snd (set_with_version t0 k v n (Some ttl) s)) = PNone"
  using assms by (simp_all add: get_with_version_def set_with_version_put py_cache_put py_get_def)

lemma store_loaded_value_read:
  assumes "cs_redis s" and "value \<noteq> PNone" and "0 < jitter_ttl jitter ttl" and "t0 \<le> now"
    and "now < t0 + of_int (jitter_ttl jitter ttl)"
  shows "get_with_version now k version (store_loaded_value t0 jitter k value ttl version s) = value"
proof (cases version)
  case None
  then show ?thesis using assms
    by (simp add: store_loaded_value_def get_with_version_def flip: cache_put_def) (simp add: py_cache_put)
next
  case (Some n)
  then show ?thesis using assms versioned_roundtrip(1) [OF assms(1,3,4,5)]
    by (simp add: store_loaded_value_def)
qed

lemma get_with_version_other:
  "cache_get now k s = cache_get now k s' \<Longrightarrow> get_with_version now k version s = get_with_version now k version s'"
  unfolding get_with_version_def py_cache_get_def by (simp only:)

lemma poll_cache_first:
  "poll_cache k version (ps @ (t, s') # qs) st = (v, t, s')"
  if "v = get_with_version t k version s'" and "v \<noteq> PNone"
    and "\<forall>(t, s) \<in> set ps. get_with_version t k version s = PNone"
  using that(3) by (induction ps arbitrary: st) (auto simp: Let_def that(1) [symmetric] that(2) split: prod.splits)

text \<open>
  A caller that finds neither the value nor the lock loads the value, publishes it under the asked
  version and frees the lock; a caller that finds the lock taken returns the first value the holder
  publishes while it polls.
\<close>

lemma singleflight_publishes:
  assumes up: "cs_redis s" and miss: "get_with_version now k version s = PNone"
    and free: "redis_get now (''lock:'' @ k) s = None" and ttl: "0 < lock_ttl" "0 < jitter_ttl jitter ttl"
    and val: "loader \<noteq> PNone" and t: "now \<le> t" "t < now + of_int (jitter_ttl jitter ttl)"
    and run: "get_or_set_singleflight now jitter polls k loader ttl version lock_ttl s = (r, s')"
  shows "r = loader \<and> get_with_version t k version s' = loader \<and> redis_get t (''lock:'' @ k) s' = None"
proof -
  let ?s1 = "cache_put now (''lock:'' @ k) (PInt 1) lock_ttl s"
  have set: "cache_set now (''lock:'' @ k) (PInt 1) (Some lock_ttl) True s = (True, ?s1)"
    using up free ttl by (simp add: cache_set_def cache_put_def)
  have "cache_get now k ?s1 = cache_get now k s"
    using up ttl by (simp add: redis.lookup_store)
  then have again: "get_with_version now k version ?s1 = PNone"
    using get_with_version_other miss by metis
  have s': "s' = redis_del (''lock:'' @ k) (store_loaded_value now jitter k loader ttl version ?s1)" and r: "r = loader"
    using run up miss set again by (auto simp: get_or_set_singleflight_def Let_def)
  have up1: "cs_redis ?s1" using up by (simp add: redis.up_store)
  have "cache_get t k s' = cache_get t k (store_loaded_value now jitter k loader ttl version ?s1)"
    unfolding s' by (simp add: cache_get_def redis_get_del)
  then have "get_with_version t k version s' = loader"
    using get_with_version_other store_loaded_value_read [OF up1 val ttl(2) t] by metis
  then show ?thesis using r by (simp add: s' redis_get_del)
qed

lemma singleflight_waits:
  assumes "cs_redis s" and "get_with_version now k version s = PNone"
    and "redis_get now (''lock:'' @ k) s \<noteq> None" and "0 < lock_ttl"
    and "get_with_version t k version s' = v" and "v \<noteq> PNone"
    and "\<forall>(t, s) \<in> set ps. get_with_version t k version s = PNone"
  shows "get_or_set_singleflight now jitter (ps @ (t, s') # qs) k loader ttl version lock_ttl s = (v, s')"
proof -
  have "cache_set now (''lock:'' @ k) (PInt 1) (Some lock_ttl) True s = (False, s)"
    using assms by (simp add: cache_set_def)
  then show ?thesis
    using assms poll_cache_first [OF assms(5) [symmetric] assms(6,7)]
    by (simp add: get_or_set_singleflight_def Let_def)
qed

end
