(* ===== verification/Api_Keys.thy ===== *)
theory Api_Keys
  imports Cache_Service
begin

section \<open>API keys\<close>

text \<open>
  src/app/models/api_key.py (the rows), src/app/repositories/api_key.py (their queries and updates) and
  src/app/services/providers/api_key.py: \<open>ApiKeyService\<close>. A key row carries its scopes, rate limit, quotas
  and IP patterns as lists, which is how the relations are loaded. The random text of a key and of a
  secret and the new row's id are arguments. HMAC-SHA256 is the argument \<open>mac\<close> (key, message), and the
  parsers of addresses and networks of the \<open>ipaddress\<close> module are the arguments \<open>addr\<close> and \<open>net\<close>.
  The principals that \<open>validate_key\<close> caches live in \<open>ks_cache\<close>, the keys written through the raw Redis
  client in \<open>ks_raw\<close>. A violated unique constraint aborts the transaction: the operation raises and
  stores nothing.
\<close>

datatype api_key_type = KEY_INTERNAL | KEY_EXTERNAL

datatype api_key_status = KEY_ACTIVE | KEY_EXPIRING | KEY_REVOKED | KEY_EXPIRED

datatype scope_type = CAPABILITY | MODEL | ENDPOINT

datatype quota_type = QTOKEN | QREQUEST | QCOST

record api_scope =
  sp_type :: scope_type
  sp_value :: string
  sp_permission :: string

record rate_limit =
  rl_rpm :: "int option"
  rl_tpm :: "int option"
  rl_rpd :: "int option"
  rl_tpd :: "int option"
  rl_concurrent :: "int option"
  rl_burst :: "int option"
  rl_whitelist :: "bool option"

record api_quota =
  aq_type :: quota_type
  aq_total :: int
  aq_used :: int
  aq_period :: string
  aq_reset_at :: "rat option"

record api_key =
  ak_prefix :: string
  ak_key_hash :: string
  ak_hint :: string
  ak_secret_hash :: "string option"
  ak_secret_hint :: "string option"
  ak_type :: api_key_type
  ak_status :: api_key_status
  ak_name :: string
  ak_description :: "string option"
  ak_tenant :: "string option"
  ak_user :: "string option"
  ak_created_by :: string
  ak_expires_at :: "rat option"
  ak_allowed_models :: "string list"
  ak_allowed_ips :: "string list"
  ak_budget_limit :: "rat option"
  ak_budget_used :: rat
  ak_rate_limit_rpm :: "int option"
  ak_enable_logging :: bool
  ak_last_used_at :: "rat option"
  ak_revoked_at :: "rat option"
  ak_revoked_reason :: "string option"
  ak_scopes :: "api_scope list"
  ak_rate_limit :: "rate_limit option"
  ak_quotas :: "api_quota list"
  ak_ip_whitelist :: "string list"

record api_principal =
  pr_api_key_id :: string
  pr_key_type :: api_key_type
  pr_tenant :: "string option"
  pr_user :: "string option"
  pr_scopes :: "(scope_type \<times> string) list"
  pr_whitelist :: bool
  pr_rpm :: "int option"
  pr_tpm :: "int option"
  pr_allowed_models :: "string list"
  pr_allowed_ips :: "string list"
  pr_budget_limit :: "rat option"
  pr_budget_used :: rat
  pr_enable_logging :: bool
  pr_secret_hash :: "string option"
  pr_secret_hint :: "string option"

record api_usage =
  us_requests :: int
  us_tokens :: int
  us_cost :: rat
  us_errors :: int

record key_state =
  ks_rows :: "(string, api_key) dict"
  ks_usage :: "(string \<times> int \<times> int, api_usage) dict"
  ks_cache :: "api_principal cache_state"
  ks_raw :: "pyval cache_state"

subsection \<open>Repository\<close>

definition row_of_hash :: "string \<Rightarrow> key_state \<Rightarrow> (string \<times> api_key) option" where
  "row_of_hash h s = find (\<lambda>(_, k). ak_key_hash k = h) (ks_rows s)"

text \<open>\<open>update(id, data)\<close>: the fields that are given and not None.\<close>

definition update_row :: "string \<Rightarrow> (api_key \<Rightarrow> api_key) \<Rightarrow> key_state \<Rightarrow> key_state" where
  "update_row i f s =
     (case dget (ks_rows s) i of None \<Rightarrow> s | Some k \<Rightarrow> s\<lparr>ks_rows := dput i (f k) (ks_rows s)\<rparr>)"

text \<open>Newest first: rows are appended when they are created.\<close>

definition repo_list_keys :: "string option \<Rightarrow> string option \<Rightarrow> api_key_type option \<Rightarrow> api_key_status option \<Rightarrow>
    key_state \<Rightarrow> (string \<times> api_key) list" where
  "repo_list_keys tenant user typ status s =
     rev (filter (\<lambda>(_, k).
       (tenant = None \<or> ak_tenant k = tenant) \<and> (user = None \<or> ak_user k = user) \<and>
       (typ = None \<or> Some (ak_type k) = typ) \<and> (status = None \<or> Some (ak_status k) = status)) (ks_rows s))"

definition mark_revoked :: "rat \<Rightarrow> string \<Rightarrow> api_key \<Rightarrow> api_key" where
  "mark_revoked now reason k =
     k\<lparr>ak_status := KEY_REVOKED, ak_revoked_at := Some now, ak_revoked_reason := Some reason\<rparr>"

definition repo_delete :: "string \<Rightarrow> key_state \<Rightarrow> bool \<times> key_state" where
  "repo_delete i s = (dget (ks_rows s) i \<noteq> None, s\<lparr>ks_rows := AList.delete i (ks_rows s)\<rparr>)"

definition update_last_used :: "rat \<Rightarrow> string \<Rightarrow> key_state \<Rightarrow> key_state" where
  "update_last_used now i s = update_row i (\<lambda>k. k\<lparr>ak_last_used_at := Some now\<rparr>) s"

text \<open>\<open>update_rate_limit\<close>: a missing row is created with the defaults of the table.\<close>

definition new_rate_limit :: rate_limit where
  "new_rate_limit = \<lparr>rl_rpm = None, rl_tpm = None, rl_rpd = None, rl_tpd = None, rl_concurrent = None,
     rl_burst = None, rl_whitelist = Some False\<rparr>"

definition opt_over :: "'a option \<Rightarrow> 'a option \<Rightarrow> 'a option" where
  "opt_over new old = (case new of None \<Rightarrow> old | Some _ \<Rightarrow> new)"

definition update_rate_limit :: "rate_limit \<Rightarrow> api_key \<Rightarrow> api_key" where
  "update_rate_limit d k =
     (let r = (case ak_rate_limit k of None \<Rightarrow> new_rate_limit | Some r \<Rightarrow> r)
      in k\<lparr>ak_rate_limit := Some \<lparr>rl_rpm = opt_over (rl_rpm d) (rl_rpm r), rl_tpm = opt_over (rl_tpm d) (rl_tpm r),
           rl_rpd = opt_over (rl_rpd d) (rl_rpd r), rl_tpd = opt_over (rl_tpd d) (rl_tpd r),
           rl_concurrent = opt_over (rl_concurrent d) (rl_concurrent r),
           rl_burst = opt_over (rl_burst d) (rl_burst r),
           rl_whitelist = opt_over (rl_whitelist d) (rl_whitelist r)\<rparr>\<rparr>)"

definition get_quota_row :: "quota_type \<Rightarrow> api_key \<Rightarrow> api_quota option" where
  "get_quota_row t k = find (\<lambda>q. aq_type q = t) (ak_quotas k)"

fun map_first :: "('a \<Rightarrow> bool) \<Rightarrow> ('a \<Rightarrow> 'a) \<Rightarrow> 'a list \<Rightarrow> 'a list" where
  "map_first P f [] = []"
| "map_first P f (x # xs) = (if P x then f x # xs else x # map_first P f xs)"

definition update_quota_usage :: "string \<Rightarrow> quota_type \<Rightarrow> int \<Rightarrow> key_state \<Rightarrow> key_state" where
  "update_quota_usage i t delta s =
     update_row i (\<lambda>k. k\<lparr>ak_quotas := map_first (\<lambda>q. aq_type q = t)
       (\<lambda>q. q\<lparr>aq_used := max 0 (aq_used q + delta)\<rparr>) (ak_quotas k)\<rparr>) s"

definition reset_quota :: "rat \<Rightarrow> string \<Rightarrow> quota_type \<Rightarrow> key_state \<Rightarrow> key_state" where
  "reset_quota now i t s =
     update_row i (\<lambda>k. k\<lparr>ak_quotas := map_first (\<lambda>q. aq_type q = t)
       (\<lambda>q. q\<lparr>aq_used := 0, aq_reset_at := Some now\<rparr>) (ak_quotas k)\<rparr>) s"

text \<open>\<open>record_usage\<close>: an insert per key, day and hour that adds to the row on conflict.\<close>

definition record_key_usage :: "string \<times> int \<times> int \<Rightarrow> api_usage \<Rightarrow> key_state \<Rightarrow> key_state" where
  "record_key_usage slot u s =
     s\<lparr>ks_usage := dput slot
        (case dget (ks_usage s) slot of
           None \<Rightarrow> u
         | Some v \<Rightarrow> \<lparr>us_requests = us_requests v + us_requests u, us_tokens = us_tokens v + us_tokens u,
                      us_cost = us_cost v + us_cost u, us_errors = us_errors v + us_errors u\<rparr>) (ks_usage s)\<rparr>"

definition expire_keys :: "rat \<Rightarrow> key_state \<Rightarrow> int \<times> key_state" where
  "expire_keys now s =
     (let hit = (\<lambda>k. (case ak_expires_at k of None \<Rightarrow> False | Some t \<Rightarrow> t < now) \<and> ak_status k = KEY_ACTIVE)
      in (int (length (filter (hit \<circ> snd) (ks_rows s))),
          s\<lparr>ks_rows := map (\<lambda>(i, k). (i, if hit k then k\<lparr>ak_status := KEY_EXPIRED\<rparr> else k)) (ks_rows s)\<rparr>))"

subsection \<open>Generation\<close>

record key_request =
  kr_type :: api_key_type
  kr_name :: string
  kr_created_by :: string
  kr_tenant :: "string option"
  kr_user :: "string option"
  kr_expires_at :: "rat option"
  kr_scopes :: "api_scope list"
  kr_rate_limit :: "rate_limit option"
  kr_quotas :: "(quota_type \<times> int \<times> string) list"
  kr_ip_whitelist :: "string list"
  kr_generate_secret :: bool
  kr_allowed_models :: "string list"
  kr_allowed_ips :: "string list"
  kr_budget_limit :: "rat option"
  kr_rate_limit_rpm :: "int option"
  kr_enable_logging :: "bool option"

definition compute_key_hash :: "(string \<Rightarrow> string \<Rightarrow> string) \<Rightarrow> string \<Rightarrow> string \<Rightarrow> string" where
  "compute_key_hash mac sk raw = mac sk raw"

text \<open>\<open>text[-4:]\<close>.\<close>

definition last_four :: "string \<Rightarrow> string" where
  "last_four s = drop (length s - 4) s"

definition generate_raw_key :: "api_key_type \<Rightarrow> string \<Rightarrow> string" where
  "generate_raw_key t random = (if t = KEY_EXTERNAL then ''sk-ext-'' else ''sk-int-'') @ random"

text \<open>\<open>x or y\<close> on optional numbers: zero is false.\<close>

definition int_or :: "int option \<Rightarrow> int option \<Rightarrow> int option" where
  "int_or a b = (case a of Some n \<Rightarrow> if n \<noteq> 0 then a else b | None \<Rightarrow> b)"

definition new_key_row :: "(string \<Rightarrow> string \<Rightarrow> string) \<Rightarrow> string \<Rightarrow> string \<Rightarrow> string \<Rightarrow> key_request \<Rightarrow> api_key" where
  "new_key_row mac sk raw_key raw_secret r =
     \<lparr>ak_prefix = take 7 raw_key, ak_key_hash = compute_key_hash mac sk raw_key, ak_hint = last_four raw_key,
      ak_secret_hash = (if kr_generate_secret r then Some (compute_key_hash mac sk raw_secret) else None),
      ak_secret_hint = (if kr_generate_secret r then Some (last_four raw_secret) else None),
      ak_type = kr_type r, ak_status = KEY_ACTIVE, ak_name = kr_name r, ak_description = None,
      ak_tenant = kr_tenant r, ak_user = kr_user r, ak_created_by = kr_created_by r,
      ak_expires_at = kr_expires_at r, ak_allowed_models = kr_allowed_models r,
      ak_allowed_ips = (if kr_allowed_ips r \<noteq> [] then kr_allowed_ips r else kr_ip_whitelist r),
      ak_budget_limit = kr_budget_limit r, ak_budget_used = 0,
      ak_rate_limit_rpm = int_or (kr_rate_limit_rpm r) (case kr_rate_limit r of None \<Rightarrow> None | Some d \<Rightarrow> rl_rpm d),
      ak_enable_logging = (case kr_enable_logging r of None \<Rightarrow> True | Some b \<Rightarrow> b),
      ak_last_used_at = None, ak_revoked_at = None, ak_revoked_reason = None,
      ak_scopes = kr_scopes r, ak_rate_limit = None,
      ak_quotas = map (\<lambda>(t, n, p). \<lparr>aq_type = t, aq_total = n, aq_used = 0, aq_period = p, aq_reset_at = None\<rparr>) (kr_quotas r),
      ak_ip_whitelist = kr_ip_whitelist r\<rparr>"

text \<open>The unique constraints on the scopes, quotas and IP patterns of a key and on the hash of all keys.\<close>

definition unique_ok :: "api_key \<Rightarrow> key_state \<Rightarrow> bool" where
  "unique_ok k s \<longleftrightarrow> distinct (map (\<lambda>x. (sp_type x, sp_value x)) (ak_scopes k)) \<and> distinct (map aq_type (ak_quotas k)) \<and>
     distinct (ak_ip_whitelist k) \<and> row_of_hash (ak_key_hash k) s = None"

definition generate_key :: "(string \<Rightarrow> string \<Rightarrow> string) \<Rightarrow> string \<Rightarrow> string \<Rightarrow> string \<Rightarrow> string \<Rightarrow> key_request \<Rightarrow>
    key_state \<Rightarrow> (exn + string \<times> string \<times> string option) \<times> key_state" where
  "generate_key mac sk i random raw_secret r s =
     (let raw_key = generate_raw_key (kr_type r) random;
          k0 = new_key_row mac sk raw_key raw_secret r;
          k = (case kr_rate_limit r of None \<Rightarrow> k0 | Some d \<Rightarrow> update_rate_limit d k0)
      in if unique_ok k s
         then (Inr (i, raw_key, if kr_generate_secret r then Some raw_secret else None),
               s\<lparr>ks_rows := ks_rows s @ [(i, k)]\<rparr>)
         else (Inl (OtherError ''IntegrityError'' i), s))"

subsection \<open>Validation\<close>

definition api_key_cache_key :: "string \<Rightarrow> string" where
  "api_key_cache_key h = ''gw:api_key:'' @ h"

definition principal_of :: "string \<Rightarrow> api_key \<Rightarrow> api_principal" where
  "principal_of i k =
     \<lparr>pr_api_key_id = i, pr_key_type = ak_type k, pr_tenant = ak_tenant k, pr_user = ak_user k,
      pr_scopes = map (\<lambda>x. (sp_type x, sp_value x)) (ak_scopes k),
      pr_whitelist = (case ak_rate_limit k of None \<Rightarrow> False | Some r \<Rightarrow> rl_whitelist r = Some True),
      pr_rpm = int_or (ak_rate_limit_rpm k) (case ak_rate_limit k of None \<Rightarrow> None | Some r \<Rightarrow> rl_rpm r),
      pr_tpm = (case ak_rate_limit k of None \<Rightarrow> None | Some r \<Rightarrow> rl_tpm r),
      pr_allowed_models = ak_allowed_models k, pr_allowed_ips = ak_allowed_ips k,
      pr_budget_limit = ak_budget_limit k, pr_budget_used = ak_budget_used k,
      pr_enable_logging = ak_enable_logging k, pr_secret_hash = ak_secret_hash k,
      pr_secret_hint = ak_secret_hint k\<rparr>"

definition key_usable :: "rat \<Rightarrow> api_key \<Rightarrow> bool" where
  "key_usable now k \<longleftrightarrow> ak_status k = KEY_ACTIVE \<and> (case ak_expires_at k of None \<Rightarrow> True | Some t \<Rightarrow> \<not> t < now)"

definition validate_key :: "(string \<Rightarrow> string \<Rightarrow> string) \<Rightarrow> string \<Rightarrow> rat \<Rightarrow> string \<Rightarrow> key_state \<Rightarrow>
    api_principal option \<times> key_state" where
  "validate_key mac sk now raw_key s =
     (if raw_key = [] then (None, s)
      else
        let h = compute_key_hash mac sk raw_key; ck = api_key_cache_key h
        in (case cache_get now ck (ks_cache s) of
              Some p \<Rightarrow> (Some p, s)
            | None \<Rightarrow>
                (case row_of_hash h s of
                   None \<Rightarrow> (None, s)
                 | Some (i, k) \<Rightarrow>
                     if \<not> key_usable now k then (None, s)
                     else
                       let p = principal_of i k; s1 = update_last_used now i s
                       in (Some p, s1\<lparr>ks_cache := cache_put now ck p 300 (ks_cache s1)\<rparr>))))"

text \<open>\<open>_check_nonce\<close>: True when the nonce was used before.\<close>

definition check_nonce :: "rat \<Rightarrow> string \<Rightarrow> string \<Rightarrow> key_state \<Rightarrow> bool \<times> key_state" where
  "check_nonce now i nonce s =
     (if \<not> cs_redis (ks_raw s) then (False, s)
      else case cache_set now (''gw:nonce:'' @ i @ '':'' @ nonce) (PInt 1) (Some 600) True (ks_raw s) of
             (ok, r) \<Rightarrow> (\<not> ok, s\<lparr>ks_raw := r\<rparr>))"

definition signed_text :: "int \<Rightarrow> string \<Rightarrow> string \<Rightarrow> string" where
  "signed_text timestamp nonce body_hash = int_str timestamp @ ''.'' @ nonce @ ''.'' @ body_hash"

definition verify_signature :: "(string \<Rightarrow> string \<Rightarrow> string) \<Rightarrow> string \<Rightarrow> rat \<Rightarrow> string \<Rightarrow> int \<Rightarrow> string \<Rightarrow> string \<Rightarrow>
    string \<Rightarrow> string option \<Rightarrow> key_state \<Rightarrow> bool \<times> key_state" where
  "verify_signature mac sk now raw_key timestamp nonce signature body_hash raw_secret s =
     (if 300 < \<bar>\<lfloor>now\<rfloor> - timestamp\<bar> then (False, s)
      else case row_of_hash (compute_key_hash mac sk raw_key) s of
             None \<Rightarrow> (False, s)
           | Some (i, k) \<Rightarrow>
               (case check_nonce now i nonce s of
                  (used, s1) \<Rightarrow>
                    if used then (False, s1)
                    else
                      let signing_key = (if str_truthy raw_secret then the raw_secret else raw_key)
                      in (signature = mac signing_key (signed_text timestamp nonce body_hash), s1)))"

definition verify_signature_by_secret_hash :: "(string \<Rightarrow> string \<Rightarrow> string) \<Rightarrow> string \<Rightarrow> rat \<Rightarrow> string \<Rightarrow> int \<Rightarrow>
    string \<Rightarrow> string \<Rightarrow> string \<Rightarrow> string \<Rightarrow> key_state \<Rightarrow> bool \<times> key_state" where
  "verify_signature_by_secret_hash mac sk now i timestamp nonce signature body_hash raw_secret s =
     (case dget (ks_rows s) i of
        None \<Rightarrow> (False, s)
      | Some k \<Rightarrow>
          if \<not> str_truthy (ak_secret_hash k) then (False, s)
          else if compute_key_hash mac sk raw_secret \<noteq> the (ak_secret_hash k) then (False, s)
          else if 300 < \<bar>\<lfloor>now\<rfloor> - timestamp\<bar> then (False, s)
          else case check_nonce now i nonce s of
                 (used, s1) \<Rightarrow>
                   if used then (False, s1)
                   else (signature = mac raw_secret (signed_text timestamp nonce body_hash), s1))"

subsection \<open>Quotas, scopes and addresses\<close>

record quota_check_result =
  qc_allowed :: bool
  qc_remaining :: int
  qc_total :: int
  qc_reset_at :: "rat option"

definition key_check_quota :: "string \<Rightarrow> quota_type \<Rightarrow> int \<Rightarrow> key_state \<Rightarrow> quota_check_result" where
  "key_check_quota i t amount s =
     (case (case dget (ks_rows s) i of None \<Rightarrow> None | Some k \<Rightarrow> get_quota_row t k) of
        None \<Rightarrow> \<lparr>qc_allowed = True, qc_remaining = -1, qc_total = -1, qc_reset_at = None\<rparr>
      | Some q \<Rightarrow> \<lparr>qc_allowed = (amount \<le> aq_total q - aq_used q), qc_remaining = aq_total q - aq_used q,
                   qc_total = aq_total q, qc_reset_at = aq_reset_at q\<rparr>)"

definition key_deduct_quota :: "string \<Rightarrow> quota_type \<Rightarrow> int \<Rightarrow> key_state \<Rightarrow> bool \<times> key_state" where
  "key_deduct_quota i t amount s =
     (if \<not> qc_allowed (key_check_quota i t amount s) then (False, s)
      else (True, update_quota_usage i t amount s))"

definition check_scope :: "string \<Rightarrow> scope_type \<Rightarrow> string \<Rightarrow> key_state \<Rightarrow> bool" where
  "check_scope i t v s =
     (case dget (ks_rows s) i of
        None \<Rightarrow> False
      | Some k \<Rightarrow>
          let match = (\<lambda>perm x. sp_type x = t \<and> sp_value x = v \<and> sp_permission x = perm)
          in if ak_scopes k = [] then ak_type k = KEY_INTERNAL
             else if list_ex (match ''deny'') (ak_scopes k) then False
             else if list_ex (match ''allow'') (ak_scopes k) then True
             else ak_type k = KEY_INTERNAL)"

definition match_domain :: "string \<Rightarrow> string \<Rightarrow> bool" where
  "match_domain pattern host =
     (let p = str_lower pattern; h = str_lower host
      in if starts_with p ''*.'' then ends_with h (drop 1 p) \<or> h = drop 2 p else h = p)"

fun match_whitelist :: "(string \<Rightarrow> 'a option) \<Rightarrow> (string \<Rightarrow> ('a \<Rightarrow> bool) option) \<Rightarrow> 'a option \<Rightarrow> string option \<Rightarrow>
    string list \<Rightarrow> bool" where
  "match_whitelist addr net client host [] = False"
| "match_whitelist addr net client host (e # es) =
     (let raw = str_strip e;
          domain = (case host of None \<Rightarrow> False | Some h \<Rightarrow> match_domain raw h)
      in if raw = [] then match_whitelist addr net client host es
         else if CHR ''/'' \<in> set raw
           then (case net raw of
                   Some n \<Rightarrow> if (case client of None \<Rightarrow> False | Some a \<Rightarrow> n a) then True
                             else match_whitelist addr net client host es
                 | None \<Rightarrow> if domain then True else match_whitelist addr net client host es)
         else (case addr raw of
                 Some a \<Rightarrow> if client = Some a then True else match_whitelist addr net client host es
               | None \<Rightarrow> if domain then True else match_whitelist addr net client host es))"

definition check_ip :: "(string \<Rightarrow> 'a option) \<Rightarrow> (string \<Rightarrow> ('a \<Rightarrow> bool) option) \<Rightarrow> string \<Rightarrow> string option \<Rightarrow>
    string option \<Rightarrow> key_state \<Rightarrow> bool" where
  "check_ip addr net i client_ip client_host s =
     (case (case dget (ks_rows s) i of None \<Rightarrow> [] | Some k \<Rightarrow> ak_ip_whitelist k) of
        [] \<Rightarrow> True
      | w \<Rightarrow>
          if \<not> str_truthy client_ip \<and> \<not> str_truthy client_host then False
          else
            let client = (if str_truthy client_ip then addr (the client_ip) else None);
                host = (if str_truthy client_host then Some (str_lower (the client_host)) else None)
            in match_whitelist addr net client host w)"

subsection \<open>Administration\<close>

definition invalidate_key_cache :: "string \<Rightarrow> key_state \<Rightarrow> key_state" where
  "invalidate_key_cache h s =
     (if \<not> cs_redis (ks_raw s) then s
      else s\<lparr>ks_raw := cache_delete (api_key_cache_key h) (ks_raw s),
             ks_cache := cache_delete (api_key_cache_key h) (ks_cache s)\<rparr>)"

text \<open>
  \<open>rotate_key\<close>. The old row object is the one that \<open>update\<close> changes (a session has one object per
  row), so the expiry that the new key inherits is the one just written. The scopes, the rate limit
  and the IP patterns are copied afterwards; the quotas are not.
\<close>

definition rotated_request :: "api_key \<Rightarrow> key_request" where
  "rotated_request k =
     \<lparr>kr_type = ak_type k, kr_name = ak_name k @ '' (rotated)'', kr_created_by = ak_created_by k,
      kr_tenant = ak_tenant k, kr_user = ak_user k, kr_expires_at = ak_expires_at k, kr_scopes = [],
      kr_rate_limit = None, kr_quotas = [], kr_ip_whitelist = [], kr_generate_secret = True,
      kr_allowed_models = ak_allowed_models k, kr_allowed_ips = ak_allowed_ips k,
      kr_budget_limit = ak_budget_limit k, kr_rate_limit_rpm = ak_rate_limit_rpm k,
      kr_enable_logging = Some (ak_enable_logging k)\<rparr>"

definition copy_relations :: "api_key \<Rightarrow> api_key \<Rightarrow> api_key" where
  "copy_relations old k =
     (let k1 = k\<lparr>ak_scopes := ak_scopes old, ak_ip_whitelist := ak_ip_whitelist old\<rparr>
      in case ak_rate_limit old of None \<Rightarrow> k1 | Some rl \<Rightarrow> update_rate_limit rl k1)"

definition rotate_key :: "(string \<Rightarrow> string \<Rightarrow> string) \<Rightarrow> string \<Rightarrow> rat \<Rightarrow> string \<Rightarrow> string \<Rightarrow> string \<Rightarrow> string \<Rightarrow> int \<Rightarrow>
    key_state \<Rightarrow> (exn + (string \<times> string \<times> string option) option) \<times> key_state" where
  "rotate_key mac sk now new_id random raw_secret i grace_hours s =
     (case dget (ks_rows s) i of
        None \<Rightarrow> (Inr None, s)
      | Some k0 \<Rightarrow>
          let k = k0\<lparr>ak_status := KEY_EXPIRING, ak_expires_at := Some (now + of_int grace_hours * 3600)\<rparr>;
              s1 = update_row i (\<lambda>_. k) s
          in (case generate_key mac sk new_id random raw_secret (rotated_request k) s1 of
                (Inl e, _) \<Rightarrow> (Inl e, s)
              | (Inr out, s2) \<Rightarrow>
                  (Inr (Some out), invalidate_key_cache (ak_key_hash k) (update_row new_id (copy_relations k) s2))))"

definition regenerate_secret :: "(string \<Rightarrow> string \<Rightarrow> string) \<Rightarrow> string \<Rightarrow> string \<Rightarrow> string \<Rightarrow> key_state \<Rightarrow>
    string option \<times> key_state" where
  "regenerate_secret mac sk raw_secret i s =
     (case dget (ks_rows s) i of
        None \<Rightarrow> (None, s)
      | Some k \<Rightarrow>
          (Some raw_secret, invalidate_key_cache (ak_key_hash k)
             (update_row i (\<lambda>k. k\<lparr>ak_secret_hash := Some (compute_key_hash mac sk raw_secret),
                ak_secret_hint := Some (last_four raw_secret)\<rparr>) s)))"

definition revoke_key :: "rat \<Rightarrow> string \<Rightarrow> string \<Rightarrow> key_state \<Rightarrow> key_state" where
  "revoke_key now reason i s =
     (case dget (ks_rows s) i of
        None \<Rightarrow> s
      | Some k \<Rightarrow> invalidate_key_cache (ak_key_hash k) (update_row i (mark_revoked now reason) s))"

definition update_key :: "string \<Rightarrow> string option \<Rightarrow> string option \<Rightarrow> rat option \<Rightarrow> key_state \<Rightarrow> key_state" where
  "update_key i name description expires s =
     (case dget (ks_rows s) i of
        None \<Rightarrow> s
      | Some k \<Rightarrow> invalidate_key_cache (ak_key_hash k)
          (update_row i (\<lambda>k. k\<lparr>ak_name := (case name of None \<Rightarrow> ak_name k | Some n \<Rightarrow> n),
             ak_description := opt_over description (ak_description k),
             ak_expires_at := opt_over expires (ak_expires_at k)\<rparr>) s))"

definition delete_key :: "string \<Rightarrow> key_state \<Rightarrow> bool \<times> key_state" where
  "delete_key i s =
     (case dget (ks_rows s) i of
        None \<Rightarrow> (False, s)
      | Some k \<Rightarrow> (case repo_delete i s of
                    (ok, s1) \<Rightarrow> (ok, if ok then invalidate_key_cache (ak_key_hash k) s1 else s1)))"

definition revoke_keys :: "rat \<Rightarrow> string \<Rightarrow> (string \<times> api_key) list \<Rightarrow> key_state \<Rightarrow> key_state" where
  "revoke_keys now reason ks s =
     fold (\<lambda>(i, k) s. invalidate_key_cache (ak_key_hash k) (update_row i (mark_revoked now reason) s)) ks s"

definition revoke_tenant_keys :: "rat \<Rightarrow> string \<Rightarrow> string \<Rightarrow> key_state \<Rightarrow> int \<times> key_state" where
  "revoke_tenant_keys now tenant reason s =
     (let ks = repo_list_keys (Some tenant) None None (Some KEY_ACTIVE) s
      in (int (length ks), revoke_keys now reason ks s))"

definition revoke_user_keys :: "rat \<Rightarrow> string \<Rightarrow> string \<Rightarrow> key_state \<Rightarrow> int \<times> key_state" where
  "revoke_user_keys now user reason s =
     (let ks = repo_list_keys None (Some user) None (Some KEY_ACTIVE) s
      in (int (length ks), revoke_keys now reason ks s))"

end
