(* ===== verification/Py_Text.thy ===== *)
theory Py_Text
  imports Prelude
begin

text \<open>
  Text operations of Python that several components parse their inputs with: \<open>int(text)\<close>,
  \<open>s.split(sep)\<close>, \<open>s.split(sep, 1)\<close> and \<open>s.split()\<close>.
\<close>

text \<open>\<open>int(text)\<close>: surrounding white space, a sign, and digits that single underscores may separate.\<close>

definition is_digit :: "char \<Rightarrow> bool" where
  "is_digit c = (let n = of_char c :: nat in 48 \<le> n \<and> n \<le> 57)"

fun int_digits :: "int \<Rightarrow> bool \<Rightarrow> string \<Rightarrow> int option" where
  "int_digits acc after [] = (if after then Some acc else None)"
| "int_digits acc after (c # cs) =
     (if is_digit c then int_digits (acc * 10 + int (of_char c - 48)) True cs
      else if c = CHR ''_'' \<and> after then int_digits acc False cs
      else None)"

definition int_of_text :: "string \<Rightarrow> int option" where
  "int_of_text s =
     (case str_strip s of
        [] \<Rightarrow> None
      | c # cs \<Rightarrow> if c = CHR ''-'' then map_option uminus (int_digits 0 False cs)
                  else if c = CHR ''+'' then int_digits 0 False cs
                  else int_digits 0 False (c # cs))"

text \<open>\<open>s.split(sep)\<close> for one character, \<open>s.split(sep, 1)\<close> where it occurs, and \<open>s.split()\<close>.\<close>

fun split_on :: "char \<Rightarrow> string \<Rightarrow> string list" where
  "split_on c [] = [[]]"
| "split_on c (x # xs) =
     (if x = c then [] # split_on c xs
      else (case split_on c xs of [] \<Rightarrow> [[x]] | w # ws \<Rightarrow> (x # w) # ws))"

definition split_once :: "char \<Rightarrow> string \<Rightarrow> string \<times> string" where
  "split_once c s = (takeWhile (\<lambda>x. x \<noteq> c) s, tl (dropWhile (\<lambda>x. x \<noteq> c) s))"

function words_of :: "string \<Rightarrow> string list" where
  "words_of [] = []"
| "words_of (c # cs) =
     (if is_space c then words_of cs
      else takeWhile (\<lambda>x. \<not> is_space x) (c # cs) # words_of (dropWhile (\<lambda>x. \<not> is_space x) (c # cs)))"
  by pat_completeness auto
termination
  by (relation "measure length") (auto simp: le_imp_less_Suc length_dropWhile_le)

lemma split_on_not_Nil [simp]: "split_on c s \<noteq> []"
  by (induction s) (auto split: list.splits)

lemma split_on_join: "str_join [c] (split_on c s) = s"
proof (induction s)
  case Nil
  then show ?case by simp
next
  case (Cons x s)
  obtain w ws where "split_on c s = w # ws" by (cases "split_on c s") auto
  with Cons show ?case by (cases ws) auto
qed

lemma split_on_parts: "w \<in> set (split_on c s) \<Longrightarrow> c \<notin> set w"
proof (induction s arbitrary: w)
  case (Cons x s)
  obtain v vs where "split_on c s = v # vs" by (cases "split_on c s") auto
  with Cons show ?case by (auto split: if_splits)
qed simp

lemma words_of_nonempty: "w \<in> set (words_of s) \<Longrightarrow> w \<noteq> []"
  by (induction s rule: words_of.induct) (auto split: if_splits)

end
