(* ===== verification/Signature_Verify.thy ===== *)
theory Signature_Verify
  imports Api_Keys Base_Step Py_Text
begin

section \<open>The signature step\<close>

text \<open>
  src/app/services/workflow/steps/signature_verify.py: \<open>SignatureVerifyStep\<close>, the gate of the external
  channel. It reads the key, the time stamp, the nonce and the signature of a request from the context,
  checks the clock window and the nonce, validates the key through \<open>ApiKeyService\<close>, checks the blacklists,
  the ban of the tenant and the client's address, compares the HMAC and counts failures. The keys it
  writes with the raw Redis client are \<open>ks_raw\<close>, the keys of the cache service (which carry a prefix)
  are \<open>sg_cache\<close>; both are down together. Time stamps are text or integers, as annotated.
\<close>

record sig_state =
  sg_keys :: key_state
  sg_cache :: "pyval cache_state"
  sg_fail_counts :: "(string, int) dict"
  sg_blacklist :: "string list"

datatype sig_error = SignatureError string | SigOther string

subsection \<open>The time stamp\<close>

definition stamp_value :: "pyval \<Rightarrow> int option" where
  "stamp_value v = (case v of PInt i \<Rightarrow> Some i | PStr s \<Rightarrow> int_of_text s | _ \<Rightarrow> None)"

definition stamp_text :: "pyval \<Rightarrow> string" where
  "stamp_text v = (case v of PInt i \<Rightarrow> int_str i | PStr s \<Rightarrow> s | _ \<Rightarrow> [])"

subsection \<open>Checks\<close>

definition verify_timestamp :: "rat \<Rightarrow> pyval \<Rightarrow> sig_error + int" where
  "verify_timestamp now v =
     (if v = PNone then Inl (SignatureError ''Missing timestamp'')
      else case stamp_value v of
             None \<Rightarrow> Inl (SignatureError ''Invalid timestamp format'')
           | Some ts \<Rightarrow>
               let diff = \<bar>\<lfloor>now\<rfloor> - ts\<bar>
               in if 300 < diff
                  then Inl (SignatureError (''Timestamp expired: diff='' @ int_str diff @ ''s, window=300s''))
                  else Inr diff)"

definition nonce_key :: "string option \<Rightarrow> string \<Rightarrow> string" where
  "nonce_key tenant nonce = ''gw:nonce:'' @ (if str_truthy tenant then the tenant else ''anonymous'') @ '':'' @ nonce"

definition with_raw :: "(pyval cache_state \<Rightarrow> pyval cache_state) \<Rightarrow> sig_state \<Rightarrow> sig_state" where
  "with_raw f s = s\<lparr>sg_keys := (sg_keys s)\<lparr>ks_raw := f (ks_raw (sg_keys s))\<rparr>\<rparr>"

abbreviation raw :: "sig_state \<Rightarrow> pyval cache_state" where
  "raw s \<equiv> ks_raw (sg_keys s)"

definition verify_nonce :: "rat \<Rightarrow> string \<Rightarrow> string option \<Rightarrow> sig_state \<Rightarrow> (sig_error + unit) \<times> sig_state" where
  "verify_nonce now nonce tenant s =
     (if \<not> cs_redis (raw s) then (Inr (), s)
      else case cache_set now (nonce_key tenant nonce) (PInt 1) (Some 300) True (raw s) of
             (ok, r) \<Rightarrow> (if ok then Inr () else Inl (SignatureError ''Nonce already used''), with_raw (\<lambda>_. r) s))"

definition blacklist_key :: "string \<Rightarrow> string" where
  "blacklist_key i = ''gw:api_key:blacklist:'' @ i"

definition revoked_key :: "string \<Rightarrow> string" where
  "revoked_key i = ''gw:api_key:revoked:'' @ i"

definition legacy_blacklist_key :: "string \<Rightarrow> string" where
  "legacy_blacklist_key i = ''gw:blacklist:'' @ i"

definition cache_truthy :: "rat \<Rightarrow> string \<Rightarrow> pyval cache_state \<Rightarrow> bool" where
  "cache_truthy now k c = truthy (py_cache_get now k c)"

definition is_api_key_blacklisted :: "rat \<Rightarrow> string \<Rightarrow> sig_state \<Rightarrow> bool" where
  "is_api_key_blacklisted now i s \<longleftrightarrow>
     i \<in> set (sg_blacklist s) \<or> cache_truthy now (blacklist_key i) (sg_cache s) \<or>
     cache_truthy now (legacy_blacklist_key i) (sg_cache s) \<or> cache_truthy now (revoked_key i) (sg_cache s) \<or>
     cs_redis (raw s) \<and> (redis_get now (blacklist_key i) (raw s) \<noteq> None \<or> redis_get now (revoked_key i) (raw s) \<noteq> None)"

definition tenant_ban_key :: "string \<Rightarrow> string" where
  "tenant_ban_key t = ''gw:tenant:ban:'' @ t"

definition is_tenant_banned :: "rat \<Rightarrow> string option \<Rightarrow> sig_state \<Rightarrow> bool" where
  "is_tenant_banned now tenant s \<longleftrightarrow> str_truthy tenant \<and>
     (cache_truthy now (tenant_ban_key (the tenant)) (sg_cache s) \<or> cache_truthy now (''auth:ban:'' @ the tenant) (sg_cache s))"

subsection \<open>Failure counting\<close>

definition fail_key :: "string \<Rightarrow> string" where
  "fail_key i = ''gw:sig:fail:ak:'' @ i"

definition legacy_fail_key :: "string \<Rightarrow> string" where
  "legacy_fail_key i = ''gw:sig_fail:ak:'' @ i"

definition tenant_fail_key :: "string option \<Rightarrow> string" where
  "tenant_fail_key t = ''gw:sig:fail:'' @ (if str_truthy t then the t else ''anonymous'')"

definition redis_expire :: "rat \<Rightarrow> string \<Rightarrow> int \<Rightarrow> 'v cache_state \<Rightarrow> 'v cache_state" where
  "redis_expire now k ttl c =
     (case redis_get now k c of None \<Rightarrow> c | Some v \<Rightarrow> redis_put k (v, Some (now + of_int ttl)) c)"

text \<open>INCR and, on the first count, EXPIRE are what the cache service's \<open>incr\<close> does.\<close>

definition record_signature_failure :: "rat \<Rightarrow> string \<Rightarrow> string option \<Rightarrow> sig_state \<Rightarrow> (bool \<times> int) \<times> sig_state" where
  "record_signature_failure now i tenant s =
     (if \<not> cs_redis (raw s) then
        let n = (case dget (sg_fail_counts s) i of None \<Rightarrow> 0 | Some k \<Rightarrow> k) + 1;
            s1 = s\<lparr>sg_fail_counts := dput i n (sg_fail_counts s)\<rparr>
        in if 5 \<le> n then ((True, n), s1\<lparr>sg_blacklist := (if i \<in> set (sg_blacklist s1) then sg_blacklist s1 else i # sg_blacklist s1)\<rparr>)
           else ((False, n), s1)
      else
        (case cache_incr now (fail_key i) (Some 900) 1 (raw s) of
           (n, r1) \<Rightarrow>
             let r2 = redis_expire now (legacy_fail_key i) 900 (snd (cache_incr now (legacy_fail_key i) None 1 r1));
                 r3 = (if str_truthy tenant then snd (cache_incr now (tenant_fail_key tenant) (Some 900) 1 r2) else r2);
                 s1 = with_raw (\<lambda>_. r3) s
             in if 5 \<le> n
                then let s2 = s1\<lparr>sg_keys := revoke_key now ''signature_failure_threshold'' i (sg_keys s1)\<rparr>
                     in ((True, n), with_raw (\<lambda>r. cache_put now (revoked_key i) (PInt 1) 900
                           (cache_put now (legacy_blacklist_key i) (PInt 1) 900
                             (cache_put now (blacklist_key i) (PInt 1) 900 r))) s2)
                else ((False, n), s1)))"

definition reset_signature_failure :: "string \<Rightarrow> string option \<Rightarrow> sig_state \<Rightarrow> sig_state" where
  "reset_signature_failure i tenant s =
     (if \<not> cs_redis (raw s)
      then s\<lparr>sg_fail_counts := AList.delete i (sg_fail_counts s), sg_blacklist := filter (\<lambda>x. x \<noteq> i) (sg_blacklist s)\<rparr>
      else with_raw (\<lambda>r.
        let r1 = cache_delete (legacy_blacklist_key i) (cache_delete (legacy_fail_key i) (cache_delete (fail_key i) r))
        in if str_truthy tenant then cache_delete (tenant_fail_key tenant) r1 else r1) s)"

subsection \<open>The signature\<close>

record key_info =
  ki_id :: string
  ki_tenant :: "string option"
  ki_whitelist :: bool
  ki_rpm :: "int option"
  ki_tpm :: "int option"

definition text_of :: "pyval \<Rightarrow> string option" where
  "text_of v = (case v of PStr s \<Rightarrow> Some s | _ \<Rightarrow> None)"

definition sig_message :: "string \<Rightarrow> pyval \<Rightarrow> string option \<Rightarrow> string" where
  "sig_message api_key timestamp nonce = api_key @ stamp_text timestamp @ (case nonce of None \<Rightarrow> [] | Some n \<Rightarrow> n)"

text \<open>What \<open>hmac.compare_digest\<close> says about a missing signature.\<close>

definition type_error_text :: string where
  "type_error_text = ''unsupported operand types(s) or combination of types: '' @ [CHR 0x27] @ ''str'' @ [CHR 0x27] @
     '' and '' @ [CHR 0x27] @ ''NoneType'' @ [CHR 0x27]"

text \<open>
  \<open>_verify_signature\<close>. \<open>mac\<close>, \<open>addr\<close> and \<open>net\<close> as for the API keys; \<open>sk\<close> is the secret the key hashes use.
\<close>

definition verify_request_signature ::
    "(string \<Rightarrow> string \<Rightarrow> string) \<Rightarrow> (string \<Rightarrow> 'a option) \<Rightarrow> (string \<Rightarrow> ('a \<Rightarrow> bool) option) \<Rightarrow> string \<Rightarrow> rat \<Rightarrow>
     workflow_context \<Rightarrow> string option \<Rightarrow> pyval \<Rightarrow> string option \<Rightarrow> string option \<Rightarrow> string option \<Rightarrow> sig_state \<Rightarrow>
     (sig_error + key_info) \<times> workflow_context \<times> sig_state" where
  "verify_request_signature mac addr net sk now c api_key timestamp nonce signature api_secret s =
     (if \<not> ctx_db_session c then (Inl (SignatureError ''Database session missing''), c, s)
      else
        let key = (case api_key of None \<Rightarrow> [] | Some k \<Rightarrow> k)
        in (case validate_key mac sk now key (sg_keys s) of
              (None, ks) \<Rightarrow> (Inl (SignatureError ''Invalid or inactive API key''), c, s\<lparr>sg_keys := ks\<rparr>)
            | (Some p, ks) \<Rightarrow>
                let s1 = s\<lparr>sg_keys := ks\<rparr>; i = pr_api_key_id p; tenant = pr_tenant p
                in if is_api_key_blacklisted now i s1
                   then (Inl (SignatureError ''Invalid or inactive API key''), c, s1)
                   else if str_truthy tenant \<and> is_tenant_banned now tenant s1
                   then (Inl (SignatureError ''Tenant is banned''), c, s1)
                   else if \<not> check_ip addr net i (ctx_client_ip c)
                               (text_of (ctx_get c ''signature_verify'' ''client_host'' PNone)) (sg_keys s1)
                   then (Inl (SignatureError ''Client IP/host not allowed''), c, s1)
                   else if str_truthy (pr_secret_hash p) \<and> \<not> str_truthy api_secret
                   then (Inl (SignatureError ''API secret required''), c, s1)
                   else if str_truthy (pr_secret_hash p) \<and>
                           compute_key_hash mac sk (the api_secret) \<noteq> the (pr_secret_hash p)
                   then (Inl (SignatureError ''Invalid API secret''), c, s1)
                   else
                     let signing_key = (if str_truthy api_secret then the api_secret else key);
                         c1 = (if str_truthy (pr_secret_hash p)
                               then ctx_set ''signature_verify'' ''secret_hint'' (opt_str (pr_secret_hint p)) c else c);
                         expected = mac signing_key (sig_message key timestamp nonce)
                     in (case signature of
                           None \<Rightarrow> (Inl (SigOther type_error_text), c1, s1)
                         | Some sg \<Rightarrow>
                             if expected \<noteq> sg
                             then (case record_signature_failure now i tenant s1 of
                                     ((revoked, n), s2) \<Rightarrow>
                                       (Inl (SignatureError (if revoked then ''Signature mismatch, API key frozen''
                                          else ''Signature mismatch (failures='' @ int_str n @ '')'')), c1, s2))
                             else (Inr \<lparr>ki_id = i, ki_tenant = tenant, ki_whitelist = pr_whitelist p,
                                        ki_rpm = pr_rpm p, ki_tpm = pr_tpm p\<rparr>, c1,
                                   reset_signature_failure i tenant s1))))"

subsection \<open>The step\<close>

definition record_key_info :: "key_info \<Rightarrow> workflow_context \<Rightarrow> workflow_context" where
  "record_key_info k c =
     (let c1 = ctx_set ''signature_verify'' ''api_key_id'' (PStr (ki_id k)) (ctx_set ''signature_verify'' ''verified'' (PBool True) c);
          c2 = c1\<lparr>ctx_api_key_id := Some (ki_id k), ctx_tenant_id := ki_tenant k\<rparr>
      in ctx_set ''signature_verify'' ''rate_limit_tpm'' (opt_int (ki_tpm k))
           (ctx_set ''signature_verify'' ''rate_limit_rpm'' (opt_int (ki_rpm k))
             (ctx_set ''signature_verify'' ''is_whitelist'' (PBool (ki_whitelist k)) c2)))"

definition sig_failed :: "string \<Rightarrow> step_result" where
  "sig_failed msg = (new_step_result FAILED)\<lparr>sr_message := Some msg\<rparr>"

definition reject_signature :: "sig_error \<Rightarrow> workflow_context \<Rightarrow> step_result \<times> workflow_context" where
  "reject_signature e c =
     (case e of
        SignatureError m \<Rightarrow>
          (sig_failed m, mark_error GATEWAY ''SIGNATURE_INVALID'' m None None
             (c\<lparr>ctx_upstream_result := (ctx_upstream_result c)\<lparr>ur_status_code := Some 401\<rparr>\<rparr>))
      | SigOther m \<Rightarrow>
          let msg = (if m = [] then ''Invalid signature'' else m)
          in (sig_failed msg, mark_error GATEWAY ''SIGNATURE_INVALID'' msg None None c))"

definition signature_verify_execute ::
    "(string \<Rightarrow> string \<Rightarrow> string) \<Rightarrow> (string \<Rightarrow> 'a option) \<Rightarrow> (string \<Rightarrow> ('a \<Rightarrow> bool) option) \<Rightarrow> string \<Rightarrow> rat \<Rightarrow>
     workflow_context \<Rightarrow> sig_state \<Rightarrow> step_result \<times> workflow_context \<times> sig_state" where
  "signature_verify_execute mac addr net sk now c s =
     (let get = (\<lambda>k. ctx_get c ''signature_verify'' k PNone);
          timestamp = get ''timestamp''; nonce = get ''nonce''; signature = get ''signature'';
          api_key = get ''api_key''; api_secret = get ''api_secret''
      in if is_external c \<and> \<not> (truthy timestamp \<and> truthy signature \<and> truthy api_key)
         then (sig_failed ''Missing required signature parameters'',
               mark_error GATEWAY ''SIGNATURE_MISSING'' ''Missing required signature parameters'' None None c, s)
         else
           case verify_timestamp now timestamp of
             Inl e \<Rightarrow> (case reject_signature e c of (r, c') \<Rightarrow> (r, c', s))
           | Inr drift \<Rightarrow>
               let c1 = ctx_set ''signature_verify'' ''timestamp_drift'' (PInt drift) c
               in (case (if truthy nonce then verify_nonce now (case text_of nonce of None \<Rightarrow> [] | Some n \<Rightarrow> n) (ctx_tenant_id c1) s
                         else (Inr (), s)) of
                     (Inl e, s1) \<Rightarrow> (case reject_signature e c1 of (r, c') \<Rightarrow> (r, c', s1))
                   | (Inr _, s1) \<Rightarrow>
                       (case verify_request_signature mac addr net sk now c1 (text_of api_key) timestamp (text_of nonce)
                               (text_of signature) (text_of api_secret) s1 of
                          (Inl e, c2, s2) \<Rightarrow> (case reject_signature e c2 of (r, c') \<Rightarrow> (r, c', s2))
                        | (Inr k, c2, s2) \<Rightarrow>
                            ((new_step_result SUCCESS)\<lparr>sr_data := Some [(''api_key_id'', PStr (ki_id k))]\<rparr>,
                             record_key_info k c2, s2))))"

end
