(* ===== verification/Api_Key_Lifecycle.thy ===== *)
theory Api_Key_Lifecycle
  imports Api_Keys
begin

section \<open>Life cycle of an API key\<close>

text \<open>
  What \<open>ApiKeyService\<close> of src/app/services/providers/api_key.py promises over whole histories: rows and the
  cached principals stay consistent under every operation, a key that is accepted is backed by a row
  that was active, and what rotation, quotas and nonces do. \<open>key_step\<close> is one operation of the service.
\<close>

subsection \<open>Rows\<close>

definition rows_ok :: "key_state \<Rightarrow> bool" where
  "rows_ok s \<longleftrightarrow> dict_wf (ks_rows s) \<and> distinct (map (ak_key_hash \<circ> snd) (ks_rows s))"

lemma row_of_hash_mem: "row_of_hash h s = Some (i, k) \<Longrightarrow> (i, k) \<in> set (ks_rows s) \<and> ak_key_hash k = h"
  by (auto simp: row_of_hash_def find_Some_iff) (metis nth_mem)

lemma row_of_hash_iff:
  assumes "rows_ok s"
  shows "row_of_hash h s = Some (i, k) \<longleftrightarrow> dget (ks_rows s) i = Some k \<and> ak_key_hash k = h"
proof
  assume "row_of_hash h s = Some (i, k)"
  then have "(i, k) \<in> set (ks_rows s)" "ak_key_hash k = h"
    by (auto dest: row_of_hash_mem)
  then show "dget (ks_rows s) i = Some k \<and> ak_key_hash k = h"
    using assms dict_wf_get by (auto simp: rows_ok_def)
next
  assume R: "dget (ks_rows s) i = Some k \<and> ak_key_hash k = h"
  then have mem: "(i, k) \<in> set (ks_rows s)" by (auto dest: dget_Some_in)
  then obtain j l where f: "row_of_hash h s = Some (j, l)"
    using R by (cases "row_of_hash h s") (auto simp: row_of_hash_def find_None_iff)
  then have "(j, l) \<in> set (ks_rows s)" "ak_key_hash l = h" by (auto dest: row_of_hash_mem)
  moreover have "inj_on (ak_key_hash \<circ> snd) (set (ks_rows s))" using assms by (simp add: rows_ok_def distinct_map)
  ultimately have "(j, l) = (i, k)" using mem R by (intro inj_onD [of "ak_key_hash \<circ> snd"]) auto
  with f show "row_of_hash h s = Some (i, k)" by simp
qed

lemma row_of_hash_None:
  "row_of_hash h s = None \<longleftrightarrow> (\<forall>i k. (i, k) \<in> set (ks_rows s) \<longrightarrow> ak_key_hash k \<noteq> h)"
  by (auto simp: row_of_hash_def find_None_iff)

lemma dget_update_row: "dget (ks_rows (update_row i f s)) j =
    (if j = i then map_option f (dget (ks_rows s) i) else dget (ks_rows s) j)"
  by (simp add: update_row_def split: option.splits)

lemma update_row_frame [simp]:
  "ks_cache (update_row i f s) = ks_cache s" "ks_raw (update_row i f s) = ks_raw s"
  "ks_usage (update_row i f s) = ks_usage s"
  by (simp_all add: update_row_def split: option.splits)

lemma hashes_dput:
  "dict_wf d \<Longrightarrow> dget d i = Some k \<Longrightarrow> ak_key_hash k' = ak_key_hash k \<Longrightarrow>
   map (ak_key_hash \<circ> snd) (dput i k' d) = map (ak_key_hash \<circ> snd) d"
  by (induction d) (auto simp: dict_wf_def)

lemma rows_ok_update:
  assumes "rows_ok s" and "\<And>k. dget (ks_rows s) i = Some k \<Longrightarrow> ak_key_hash (f k) = ak_key_hash k"
  shows "rows_ok (update_row i f s)"
  using assms hashes_dput [of "ks_rows s" i]
  by (auto simp: rows_ok_def update_row_def split: option.splits)

lemma invalidate_frame [simp]:
  "ks_rows (invalidate_key_cache h s) = ks_rows s"
  "row_of_hash h' (invalidate_key_cache h s) = row_of_hash h' s"
  "rows_ok (invalidate_key_cache h s) = rows_ok s"
  "cs_redis (ks_cache (invalidate_key_cache h s)) = cs_redis (ks_cache s)"
  "cs_redis (ks_raw (invalidate_key_cache h s)) = cs_redis (ks_raw s)"
  by (simp_all add: invalidate_key_cache_def row_of_hash_def rows_ok_def)

lemma api_key_cache_key_inj [simp]: "api_key_cache_key h = api_key_cache_key h' \<longleftrightarrow> h = h'"
  by (simp add: api_key_cache_key_def)

subsection \<open>The cached principals are backed by rows\<close>

text \<open>
  A cached principal is the one its row would give now, its row is active or was marked expired by the
  periodic task, and the entry ends at most five minutes after the key expires.
\<close>

definition backed :: "key_state \<Rightarrow> string \<Rightarrow> api_principal \<Rightarrow> rat option \<Rightarrow> bool" where
  "backed s h p e \<longleftrightarrow> (\<exists>i k t. row_of_hash h s = Some (i, k) \<and> p = principal_of i k \<and>
     ak_status k \<in> {KEY_ACTIVE, KEY_EXPIRED} \<and> e = Some t \<and>
     (case ak_expires_at k of None \<Rightarrow> True | Some x \<Rightarrow> t \<le> x + 300))"

definition entry :: "key_state \<Rightarrow> string \<Rightarrow> (api_principal redis_val \<times> rat option) option" where
  "entry s h = dget (cs_data (ks_cache s)) (api_key_cache_key h)"

definition key_inv :: "key_state \<Rightarrow> bool" where
  "key_inv s \<longleftrightarrow> rows_ok s \<and> cs_redis (ks_raw s) = cs_redis (ks_cache s) \<and>
     (cs_redis (ks_cache s) \<longrightarrow>
       (\<forall>h p e. entry s h = Some (Pickled p, e) \<longrightarrow> backed s h p e))"

lemma key_invD:
  "key_inv s \<Longrightarrow> cs_redis (ks_cache s) \<Longrightarrow> entry s h = Some (Pickled p, e) \<Longrightarrow> backed s h p e"
  by (simp add: key_inv_def)

lemma entry_frame [simp]: "entry (update_row i f s) h = entry s h" "entry (s\<lparr>ks_rows := r\<rparr>) h = entry s h"
  by (simp_all add: entry_def)

lemma entry_invalidate:
  "cs_redis (ks_raw s) \<Longrightarrow> cs_redis (ks_cache s) \<Longrightarrow>
   entry (invalidate_key_cache h s) h' = (if h' = h then None else entry s h')"
  by (simp add: entry_def invalidate_key_cache_def cache_delete_def redis_del_def delete_conv')

text \<open>An operation that leaves the cache alone keeps the invariant when the rows behind it stay usable.\<close>

lemma key_inv_rows:
  assumes "key_inv s" and "rows_ok s'" and "ks_cache s' = ks_cache s" and "ks_raw s' = ks_raw s"
    and "\<And>h p e. backed s h p e \<Longrightarrow> backed s' h p e"
  shows "key_inv s'"
  using assms by (simp add: key_inv_def entry_def)

text \<open>An operation that rewrites one row and then drops its cached principal keeps it too.\<close>

lemma key_inv_replaced:
  assumes inv: "key_inv s" and row: "dget (ks_rows s) i = Some k" and hash: "ak_key_hash (f k) = ak_key_hash k"
  shows "key_inv (invalidate_key_cache (ak_key_hash k) (update_row i f s))"
proof -
  let ?s1 = "update_row i f s" and ?s2 = "invalidate_key_cache (ak_key_hash k) (update_row i f s)"
  have ok: "rows_ok s" and red: "cs_redis (ks_raw s) = cs_redis (ks_cache s)" using inv by (simp_all add: key_inv_def)
  have ok1: "rows_ok ?s1" by (rule rows_ok_update [OF ok]) (use row hash in auto)
  have "backed ?s2 h p e" if up: "cs_redis (ks_cache s)" and en: "entry ?s2 h = Some (Pickled p, e)" for h p e
  proof -
    from en up red have ne: "h \<noteq> ak_key_hash k" and "entry s h = Some (Pickled p, e)"
      by (auto simp: entry_invalidate split: if_splits)
    from key_invD [OF inv up this(2)] obtain j l t where
      jl: "row_of_hash h s = Some (j, l)" "p = principal_of j l" "ak_status l \<in> {KEY_ACTIVE, KEY_EXPIRED}"
        "e = Some t" "case ak_expires_at l of None \<Rightarrow> True | Some x \<Rightarrow> t \<le> x + 300"
      unfolding backed_def by blast
    with row_of_hash_iff [OF ok] row ne have "row_of_hash h ?s1 = Some (j, l)"
      unfolding row_of_hash_iff [OF ok1] dget_update_row by auto
    with jl show ?thesis by (auto simp: backed_def)
  qed
  with ok1 red show ?thesis by (simp add: key_inv_def)
qed

text \<open>Changes of a row that neither a principal nor the validity of the key depends on.\<close>

lemma key_inv_same:
  assumes inv: "key_inv s"
    and same: "\<And>k. ak_key_hash (f k) = ak_key_hash k" "\<And>k. principal_of i (f k) = principal_of i k"
      "\<And>k. ak_status (f k) = ak_status k" "\<And>k. ak_expires_at (f k) = ak_expires_at k"
  shows "key_inv (update_row i f s)"
proof (rule key_inv_rows [OF inv])
  have ok: "rows_ok s" using inv by (simp add: key_inv_def)
  show ok1: "rows_ok (update_row i f s)" by (rule rows_ok_update [OF ok]) (rule same)
  show "backed (update_row i f s) h p e" if "backed s h p e" for h p e
  proof -
    from that obtain j l t where
      jl: "row_of_hash h s = Some (j, l)" "p = principal_of j l" "ak_status l \<in> {KEY_ACTIVE, KEY_EXPIRED}"
        "e = Some t" "case ak_expires_at l of None \<Rightarrow> True | Some x \<Rightarrow> t \<le> x + 300"
      unfolding backed_def by blast
    let ?l = "if j = i then f l else l"
    have "row_of_hash h (update_row i f s) = Some (j, ?l)"
      using jl(1) unfolding row_of_hash_iff [OF ok1] row_of_hash_iff [OF ok] dget_update_row by (auto simp: same)
    moreover have "p = principal_of j ?l" and "ak_status ?l = ak_status l" and "ak_expires_at ?l = ak_expires_at l"
      using jl(2) by (simp_all add: same)
    ultimately show ?thesis unfolding backed_def using jl(3-5) by (intro exI [of _ j] exI [of _ ?l] exI [of _ t]) simp
  qed
qed simp_all

subsection \<open>Every operation keeps the invariant\<close>

lemma key_inv_validate:
  assumes inv: "key_inv s"
  shows "key_inv (snd (validate_key mac sk now raw s))"
proof -
  let ?h = "compute_key_hash mac sk raw" and ?ck = "api_key_cache_key (compute_key_hash mac sk raw)"
  let ?v = "validate_key mac sk now raw s"
  have ok: "rows_ok s" using inv by (simp add: key_inv_def)
  show ?thesis
  proof (cases "raw = [] \<or> cache_get now ?ck (ks_cache s) \<noteq> None")
    case True
    then have "snd ?v = s" by (auto simp: validate_key_def Let_def)
    with inv show ?thesis by simp
  next
    case miss: False
    show ?thesis
    proof (cases "\<exists>i k. row_of_hash ?h s = Some (i, k) \<and> key_usable now k")
      case False
      with miss have "snd ?v = s" by (auto simp: validate_key_def Let_def split: option.splits)
      with inv show ?thesis by simp
    next
      case True
      then obtain i k where row: "row_of_hash ?h s = Some (i, k)" and use: "key_usable now k" by blast
      let ?s1 = "update_last_used now i s" and ?p = "principal_of i k"
      have s': "snd ?v = ?s1\<lparr>ks_cache := cache_put now ?ck ?p 300 (ks_cache ?s1)\<rparr>"
        using miss row use by (auto simp: validate_key_def Let_def)
      have inv1: "key_inv ?s1"
        unfolding update_last_used_def by (rule key_inv_same [OF inv]) (simp_all add: principal_of_def)
      then have ok1: "rows_ok ?s1" by (simp add: key_inv_def)
      have row1: "row_of_hash ?h ?s1 = Some (i, k\<lparr>ak_last_used_at := Some now\<rparr>)"
        using row unfolding row_of_hash_iff [OF ok1] row_of_hash_iff [OF ok]
        by (auto simp: update_last_used_def dget_update_row)
      have "backed (snd ?v) h p e" if up: "cs_redis (ks_cache ?s1)" and en: "entry (snd ?v) h = Some (Pickled p, e)" for h p e
      proof (cases "h = ?h")
        case True
        with en up have "p = ?p" "e = Some (now + 300)"
          by (auto simp: s' entry_def cache_put_def cache_set_def redis_put_def expiry_def)
        then show ?thesis using True row1 use
          by (auto simp: s' backed_def row_of_hash_def principal_of_def key_usable_def split: option.splits)
      next
        case False
        with en up have "entry ?s1 h = Some (Pickled p, e)"
          by (auto simp: s' entry_def cache_put_def cache_set_def redis_put_def)
        from key_invD [OF inv1 up this] show ?thesis by (simp add: s' backed_def row_of_hash_def)
      qed
      moreover have "rows_ok (snd ?v)" using ok1 by (simp add: s' rows_ok_def)
      moreover have "cs_redis (ks_raw (snd ?v)) = cs_redis (ks_cache (snd ?v))" and
        "cs_redis (ks_cache (snd ?v)) = cs_redis (ks_cache ?s1)"
        using inv1 by (simp_all add: s' key_inv_def redis.up_store)
      ultimately show ?thesis unfolding key_inv_def by (simp add: redis.up_store)
    qed
  qed
qed

lemma find_snoc: "find P (xs @ [x]) = (case find P xs of Some r \<Rightarrow> Some r | None \<Rightarrow> if P x then Some x else None)"
  by (induction xs) auto

lemma row_of_hash_append:
  "row_of_hash h (s\<lparr>ks_rows := ks_rows s @ [(i, k)]\<rparr>) =
     (case row_of_hash h s of Some r \<Rightarrow> Some r | None \<Rightarrow> if ak_key_hash k = h then Some (i, k) else None)"
  by (simp add: row_of_hash_def find_snoc split: option.splits)

lemma rows_ok_append:
  assumes "rows_ok s" and "i \<notin> set (dkeys (ks_rows s))" and "row_of_hash (ak_key_hash k) s = None"
  shows "rows_ok (s\<lparr>ks_rows := ks_rows s @ [(i, k)]\<rparr>)"
proof -
  have "ak_key_hash k \<notin> set (map (ak_key_hash \<circ> snd) (ks_rows s))"
    using assms(3) by (force simp: row_of_hash_None)
  with assms(1,2) show ?thesis by (simp add: rows_ok_def dict_wf_def)
qed

lemma key_inv_append:
  assumes "key_inv s" and "i \<notin> set (dkeys (ks_rows s))" and "row_of_hash (ak_key_hash k) s = None"
  shows "key_inv (s\<lparr>ks_rows := ks_rows s @ [(i, k)]\<rparr>)"
proof (rule key_inv_rows [OF assms(1)])
  show "rows_ok (s\<lparr>ks_rows := ks_rows s @ [(i, k)]\<rparr>)"
    using assms by (intro rows_ok_append) (simp_all add: key_inv_def)
  show "backed (s\<lparr>ks_rows := ks_rows s @ [(i, k)]\<rparr>) h p e" if "backed s h p e" for h p e
    using that by (auto simp: backed_def row_of_hash_append)
qed simp_all

lemma update_rate_limit_hash [simp]: "ak_key_hash (update_rate_limit d k) = ak_key_hash k"
  by (simp add: update_rate_limit_def Let_def)

lemma generate_key_cases:
  obtains (failed) e where "generate_key mac sk i random secret r s = (Inl e, s)"
  | (made) k out where "generate_key mac sk i random secret r s = (Inr out, s\<lparr>ks_rows := ks_rows s @ [(i, k)]\<rparr>)"
      and "row_of_hash (ak_key_hash k) s = None" and "fst out = i"
      and "ak_key_hash k = compute_key_hash mac sk (generate_raw_key (kr_type r) random)"
proof -
  let ?raw = "generate_raw_key (kr_type r) random"
  let ?k0 = "new_key_row mac sk ?raw secret r"
  let ?k = "case kr_rate_limit r of None \<Rightarrow> ?k0 | Some d \<Rightarrow> update_rate_limit d ?k0"
  show thesis
  proof (cases "unique_ok ?k s")
    case True
    have "ak_key_hash ?k = compute_key_hash mac sk ?raw"
      by (simp add: new_key_row_def split: option.splits)
    with True show thesis
      by (intro made [of "(i, ?raw, if kr_generate_secret r then Some secret else None)" ?k])
         (simp_all add: generate_key_def Let_def unique_ok_def)
  next
    case False
    then show thesis by (intro failed [of "OtherError ''IntegrityError'' i"]) (simp add: generate_key_def Let_def)
  qed
qed

lemma key_inv_generate:
  assumes "key_inv s" and "i \<notin> set (dkeys (ks_rows s))"
  shows "key_inv (snd (generate_key mac sk i random secret r s))"
proof (rule generate_key_cases [of mac sk i random secret r s])
  fix k out
  assume "generate_key mac sk i random secret r s = (Inr out, s\<lparr>ks_rows := ks_rows s @ [(i, k)]\<rparr>)"
    and "row_of_hash (ak_key_hash k) s = None"
  then show ?thesis using key_inv_append [OF assms] by simp
qed (simp add: assms)

lemma key_inv_redis: "key_inv s \<Longrightarrow> cs_redis (ks_raw s) = cs_redis (ks_cache s)"
  by (simp add: key_inv_def)

lemma key_inv_rotate:
  assumes inv: "key_inv s" and new: "new_id \<notin> set (dkeys (ks_rows s))"
  shows "key_inv (snd (rotate_key mac sk now new_id random secret i g s))"
proof (cases "dget (ks_rows s) i")
  case None
  then show ?thesis using inv by (simp add: rotate_key_def)
next
  case (Some k0)
  let ?k = "k0\<lparr>ak_status := KEY_EXPIRING, ak_expires_at := Some (now + of_int g * 3600)\<rparr>"
  let ?s1 = "update_row i (\<lambda>_. ?k) s" and ?r = "rotated_request ?k"
  show ?thesis
  proof (rule generate_key_cases [of mac sk new_id random secret ?r ?s1])
    fix e assume "generate_key mac sk new_id random secret ?r ?s1 = (Inl e, ?s1)"
    then show ?thesis using inv Some by (simp add: rotate_key_def Let_def)
  next
    fix k out
    let ?s2 = "?s1\<lparr>ks_rows := ks_rows ?s1 @ [(new_id, k)]\<rparr>"
    let ?s3 = "update_row new_id (copy_relations ?k) ?s2"
    assume gen: "generate_key mac sk new_id random secret ?r ?s1 = (Inr out, ?s2)"
      and hash: "row_of_hash (ak_key_hash k) ?s1 = None"
    have ok: "rows_ok s" using inv by (simp add: key_inv_def)
    have ok1: "rows_ok ?s1" by (rule rows_ok_update [OF ok]) (use Some in auto)
    have "i \<in> set (dkeys (ks_rows s))" using Some by (metis dget_in_keys)
    then have new1: "new_id \<notin> set (dkeys (ks_rows ?s1))"
      using new Some dkeys_dput_present [of i "ks_rows s" ?k] by (simp add: update_row_def del: set_map)
    have ok2: "rows_ok ?s2" by (rule rows_ok_append [OF ok1 new1 hash])
    have ok3: "rows_ok ?s3"
      by (rule rows_ok_update [OF ok2]) (simp add: copy_relations_def Let_def split: option.splits)
    have ne: "new_id \<noteq> i" using new Some by (metis dget_in_keys)
    have "backed (invalidate_key_cache (ak_key_hash k0) ?s3) h p e"
      if up: "cs_redis (ks_cache s)" and en: "entry (invalidate_key_cache (ak_key_hash k0) ?s3) h = Some (Pickled p, e)" for h p e
    proof -
      from en up have neh: "h \<noteq> ak_key_hash k0" and "entry s h = Some (Pickled p, e)"
        by (auto simp: entry_invalidate key_inv_redis [OF inv] split: if_splits)
      from key_invD [OF inv up this(2)] obtain j l t where
        jl: "row_of_hash h s = Some (j, l)" "p = principal_of j l" "ak_status l \<in> {KEY_ACTIVE, KEY_EXPIRED}"
          "e = Some t" "case ak_expires_at l of None \<Rightarrow> True | Some x \<Rightarrow> t \<le> x + 300"
        unfolding backed_def by blast
      have row: "dget (ks_rows s) j = Some l" "ak_key_hash l = h" using jl(1) by (simp_all add: row_of_hash_iff [OF ok])
      have "j \<noteq> i" using row Some neh by auto
      moreover have "j \<noteq> new_id" using row(1) new by (metis dget_in_keys)
      ultimately have "dget (ks_rows ?s3) j = Some l"
        using row(1) Some by (simp add: dget_update_row map_add_def)
      with row(2) have "row_of_hash h ?s3 = Some (j, l)" by (simp only: row_of_hash_iff [OF ok3])
      with jl show ?thesis by (auto simp: backed_def)
    qed
    then have "key_inv (invalidate_key_cache (ak_key_hash k0) ?s3)"
      using ok3 key_inv_redis [OF inv] by (simp add: key_inv_def)
    moreover have "snd (rotate_key mac sk now new_id random secret i g s) = invalidate_key_cache (ak_key_hash k0) ?s3"
      using Some gen by (simp add: rotate_key_def Let_def)
    ultimately show ?thesis by simp
  qed
qed

lemma key_inv_simple:
  assumes "key_inv s"
  shows "key_inv (snd (regenerate_secret mac sk secret i s))" and "key_inv (revoke_key now reason i s)"
    and "key_inv (update_key i name description expires s)"
  using assms key_inv_replaced [OF assms]
  by (auto simp: regenerate_secret_def revoke_key_def update_key_def mark_revoked_def split: option.splits)

lemma row_of_hash_delete:
  assumes "rows_ok s"
  shows "rows_ok (s\<lparr>ks_rows := AList.delete i (ks_rows s)\<rparr>)"
    and "row_of_hash h s = Some (j, l) \<Longrightarrow> j \<noteq> i \<Longrightarrow>
      row_of_hash h (s\<lparr>ks_rows := AList.delete i (ks_rows s)\<rparr>) = Some (j, l)"
proof -
  have sub: "AList.delete i (ks_rows s) = filter (\<lambda>x. fst x \<noteq> i) (ks_rows s)" 
    unfolding AList.delete_eq by (rule filter_cong) auto
  show ok: "rows_ok (s\<lparr>ks_rows := AList.delete i (ks_rows s)\<rparr>)"
    using assms unfolding rows_ok_def sub dict_wf_def by (auto simp: distinct_map_filter)
  show "row_of_hash h (s\<lparr>ks_rows := AList.delete i (ks_rows s)\<rparr>) = Some (j, l)"
    if "row_of_hash h s = Some (j, l)" "j \<noteq> i"
    using that assms unfolding row_of_hash_iff [OF ok] row_of_hash_iff [OF assms] by (simp add: delete_conv')
qed

lemma key_inv_delete:
  assumes inv: "key_inv s"
  shows "key_inv (snd (delete_key i s))"
proof (cases "dget (ks_rows s) i")
  case None
  then show ?thesis using inv by (simp add: delete_key_def)
next
  case (Some k)
  let ?s1 = "s\<lparr>ks_rows := AList.delete i (ks_rows s)\<rparr>"
  have ok: "rows_ok s" using inv by (simp add: key_inv_def)
  have "backed (invalidate_key_cache (ak_key_hash k) ?s1) h p e"
    if up: "cs_redis (ks_cache s)" and en: "entry (invalidate_key_cache (ak_key_hash k) ?s1) h = Some (Pickled p, e)" for h p e
  proof -
    from en up have ne: "h \<noteq> ak_key_hash k" and "entry s h = Some (Pickled p, e)"
      by (auto simp: entry_invalidate key_inv_redis [OF inv] split: if_splits)
    from key_invD [OF inv up this(2)] obtain j l t where
      jl: "row_of_hash h s = Some (j, l)" "p = principal_of j l" "ak_status l \<in> {KEY_ACTIVE, KEY_EXPIRED}"
        "e = Some t" "case ak_expires_at l of None \<Rightarrow> True | Some x \<Rightarrow> t \<le> x + 300"
      unfolding backed_def by blast
    then have "j \<noteq> i" using ne Some by (auto simp: row_of_hash_iff [OF ok])
    with row_of_hash_delete(2) [OF ok jl(1)] jl show ?thesis by (auto simp: backed_def)
  qed
  then have "key_inv (invalidate_key_cache (ak_key_hash k) ?s1)"
    using row_of_hash_delete(1) [OF ok] key_inv_redis [OF inv] by (simp add: key_inv_def)
  then show ?thesis using Some by (simp add: delete_key_def repo_delete_def)
qed

text \<open>Revoking a list of rows taken from the table.\<close>

lemma revoke_keys_step:
  assumes "key_inv s" and "\<forall>(i, k) \<in> set ks. \<exists>k'. dget (ks_rows s) i = Some k' \<and> ak_key_hash k' = ak_key_hash k"
  shows "key_inv (revoke_keys now reason ks s)"
  using assms
proof (induction ks arbitrary: s)
  case Nil
  then show ?case by (simp add: revoke_keys_def)
next
  case (Cons x ks)
  obtain i k where x: "x = (i, k)" by (cases x)
  with Cons.prems obtain k' where row: "dget (ks_rows s) i = Some k'" "ak_key_hash k' = ak_key_hash k" by auto
  let ?s1 = "invalidate_key_cache (ak_key_hash k) (update_row i (mark_revoked now reason) s)"
  have "key_inv ?s1"
    using key_inv_replaced [OF Cons.prems(1) row(1), of "mark_revoked now reason"] row(2) by (simp add: mark_revoked_def)
  moreover have "\<forall>(i, k) \<in> set ks. \<exists>k'. dget (ks_rows ?s1) i = Some k' \<and> ak_key_hash k' = ak_key_hash k"
    using Cons.prems(2) by (fastforce simp: dget_update_row mark_revoked_def)
  ultimately have "key_inv (revoke_keys now reason ks ?s1)" by (rule Cons.IH)
  then show ?case by (simp add: revoke_keys_def x)
qed

lemma listed_rows:
  assumes "key_inv s"
  shows "\<forall>(i, k) \<in> set (repo_list_keys tenant user typ status s). dget (ks_rows s) i = Some k"
  using assms by (auto simp: repo_list_keys_def key_inv_def rows_ok_def dict_wf_get)

lemma key_inv_revoke_many:
  assumes "key_inv s"
  shows "key_inv (snd (revoke_tenant_keys now tenant reason s))" and "key_inv (snd (revoke_user_keys now user reason s))"
  using assms listed_rows [OF assms]
  by (auto simp: revoke_tenant_keys_def revoke_user_keys_def Let_def intro!: revoke_keys_step) force+

lemma key_inv_expire:
  assumes inv: "key_inv s"
  shows "key_inv (snd (expire_keys now s))"
proof (rule key_inv_rows [OF inv])
  let ?f = "\<lambda>k. if (case ak_expires_at k of None \<Rightarrow> False | Some t \<Rightarrow> t < now) \<and> ak_status k = KEY_ACTIVE
    then k\<lparr>ak_status := KEY_EXPIRED\<rparr> else k"
  let ?s = "snd (expire_keys now s)"
  have rows: "ks_rows ?s = map (\<lambda>(i, k). (i, ?f k)) (ks_rows s)" by (simp add: expire_keys_def Let_def)
  have "map fst (ks_rows ?s) = map fst (ks_rows s)"
    and "map (ak_key_hash \<circ> snd) (ks_rows ?s) = map (ak_key_hash \<circ> snd) (ks_rows s)"
    unfolding rows by (auto simp: o_def case_prod_beta)
  then show ok': "rows_ok ?s" using inv by (simp add: key_inv_def rows_ok_def dict_wf_def)
  have ok: "rows_ok s" using inv by (simp add: key_inv_def)
  show "backed ?s h p e" if "backed s h p e" for h p e
  proof -
    from that obtain j l t where
      jl: "row_of_hash h s = Some (j, l)" "p = principal_of j l" "ak_status l \<in> {KEY_ACTIVE, KEY_EXPIRED}"
        "e = Some t" "case ak_expires_at l of None \<Rightarrow> True | Some x \<Rightarrow> t \<le> x + 300"
      unfolding backed_def by blast
    have "row_of_hash h ?s = Some (j, ?f l)"
      using jl(1) unfolding row_of_hash_iff [OF ok'] row_of_hash_iff [OF ok] rows by (simp add: map_of_map)
    moreover have "principal_of j (?f l) = principal_of j l" by (simp add: principal_of_def)
    ultimately show ?thesis unfolding backed_def using jl
      by (intro exI [of _ j] exI [of _ "?f l"] exI [of _ t]) auto
  qed
qed (simp_all add: expire_keys_def Let_def)

lemma key_inv_quota:
  assumes "key_inv s"
  shows "key_inv (snd (key_deduct_quota i t amount s))" and "key_inv (reset_quota now i t s)"
    and "key_inv (record_key_usage slot u s)"
  using assms key_inv_same [OF assms]
  by (auto simp: key_deduct_quota_def update_quota_usage_def reset_quota_def principal_of_def)
     (auto simp: record_key_usage_def key_inv_def rows_ok_def entry_def backed_def row_of_hash_def)

lemma key_inv_raw:
  assumes "key_inv s" and "cs_redis r = cs_redis (ks_raw s)"
  shows "key_inv (s\<lparr>ks_raw := r\<rparr>)"
  using assms by (simp add: key_inv_def rows_ok_def entry_def backed_def row_of_hash_def)

lemma key_inv_check_nonce: "key_inv s \<Longrightarrow> key_inv (snd (check_nonce now i nonce s))"
  by (auto simp: check_nonce_def intro!: key_inv_raw split: prod.splits) (metis cache_frames(1) snd_conv)

lemma key_inv_verify:
  assumes "key_inv s"
  shows "key_inv (snd (verify_signature mac sk now raw ts nonce sg body secret s))"
    and "key_inv (snd (verify_signature_by_secret_hash mac sk now i ts nonce sg body raw_secret s))"
  using assms key_inv_check_nonce [OF assms]
  by (auto simp: verify_signature_def verify_signature_by_secret_hash_def Let_def split: option.splits prod.splits)
     (metis snd_conv)+

subsection \<open>Histories\<close>

inductive key_step :: "(string \<Rightarrow> string \<Rightarrow> string) \<Rightarrow> string \<Rightarrow> key_state \<Rightarrow> key_state \<Rightarrow> bool" for mac sk where
  validate: "key_step mac sk s (snd (validate_key mac sk now raw s))"
| generate: "i \<notin> set (dkeys (ks_rows s)) \<Longrightarrow> key_step mac sk s (snd (generate_key mac sk i random secret r s))"
| rotate: "j \<notin> set (dkeys (ks_rows s)) \<Longrightarrow> key_step mac sk s (snd (rotate_key mac sk now j random secret i g s))"
| regenerate: "key_step mac sk s (snd (regenerate_secret mac sk secret i s))"
| revoke: "key_step mac sk s (revoke_key now reason i s)"
| change: "key_step mac sk s (update_key i name description expires s)"
| delete: "key_step mac sk s (snd (delete_key i s))"
| revoke_tenant: "key_step mac sk s (snd (revoke_tenant_keys now tenant reason s))"
| revoke_user: "key_step mac sk s (snd (revoke_user_keys now user reason s))"
| expire: "key_step mac sk s (snd (expire_keys now s))"
| deduct: "key_step mac sk s (snd (key_deduct_quota i t amount s))"
| reset: "key_step mac sk s (reset_quota now i t s)"
| usage: "key_step mac sk s (record_key_usage slot u s)"
| signature: "key_step mac sk s (snd (verify_signature mac sk now raw ts nonce sg body secret s))"
| secret_signature: "key_step mac sk s (snd (verify_signature_by_secret_hash mac sk now i ts nonce sg body raw_secret s))"

lemma key_step_inv: "key_step mac sk s s' \<Longrightarrow> key_inv s \<Longrightarrow> key_inv s'"
  by (induction rule: key_step.induct)
     (blast intro: key_inv_validate key_inv_generate key_inv_rotate key_inv_simple key_inv_delete
        key_inv_revoke_many key_inv_expire key_inv_quota key_inv_verify)+

lemma key_steps_inv: "(key_step mac sk)\<^sup>*\<^sup>* s0 s \<Longrightarrow> key_inv s0 \<Longrightarrow> key_inv s"
  by (induction rule: rtranclp_induct) (auto intro: key_step_inv)

definition no_keys :: "bool \<Rightarrow> key_state" where
  "no_keys up = \<lparr>ks_rows = [], ks_usage = [], ks_cache = \<lparr>cs_redis = up, cs_data = []\<rparr>,
     ks_raw = \<lparr>cs_redis = up, cs_data = []\<rparr>\<rparr>"

lemma key_inv_no_keys: "key_inv (no_keys up)"
  by (simp add: key_inv_def no_keys_def rows_ok_def entry_def)

lemma validate_key_backed:
  assumes inv: "key_inv s" and val: "validate_key mac sk now raw s = (Some p, s')"
  shows "\<exists>i k. row_of_hash (compute_key_hash mac sk raw) s = Some (i, k) \<and> p = principal_of i k \<and>
      ak_status k \<in> {KEY_ACTIVE, KEY_EXPIRED} \<and> (case ak_expires_at k of None \<Rightarrow> True | Some x \<Rightarrow> now < x + 300)"
proof -
  let ?h = "compute_key_hash mac sk raw"
  show ?thesis
  proof (cases "cache_get now (api_key_cache_key ?h) (ks_cache s)")
    case None
    with val obtain i k where "row_of_hash ?h s = Some (i, k)" "key_usable now k" "p = principal_of i k"
      by (auto simp: validate_key_def Let_def split: if_splits option.splits)
    then show ?thesis by (auto simp: key_usable_def split: option.splits)
  next
    case (Some q)
    then obtain e where up: "cs_redis (ks_cache s)" and en: "entry s ?h = Some (Pickled q, e)" and l: "live now e"
      by (auto simp: cache_get_def redis_get_def entry_def split: if_splits option.splits redis_val.splits)
    have "p = q" using Some val by (auto simp: validate_key_def Let_def split: if_splits)
    moreover obtain i k t where "row_of_hash ?h s = Some (i, k)" "q = principal_of i k"
        "ak_status k \<in> {KEY_ACTIVE, KEY_EXPIRED}" "e = Some t"
        "case ak_expires_at k of None \<Rightarrow> True | Some x \<Rightarrow> t \<le> x + 300"
      using key_invD [OF inv up en] unfolding backed_def by blast
    ultimately show ?thesis using l by (auto simp: live_def split: option.splits)
  qed
qed


definition demo_mac :: "string \<Rightarrow> string \<Rightarrow> string" where
  "demo_mac k m = k @ ''|'' @ m"

definition demo_request :: key_request where
  "demo_request = \<lparr>kr_type = KEY_EXTERNAL, kr_name = ''prod'', kr_created_by = ''u1'', kr_tenant = Some ''t1'',
     kr_user = None, kr_expires_at = Some 1000, kr_scopes = [], kr_rate_limit = None,
     kr_quotas = [(QREQUEST, 100, ''monthly'')], kr_ip_whitelist = [], kr_generate_secret = True,
     kr_allowed_models = [], kr_allowed_ips = [], kr_budget_limit = None, kr_rate_limit_rpm = None,
     kr_enable_logging = None\<rparr>"

definition demo_keys :: key_state where
  "demo_keys = snd (generate_key demo_mac ''jwt'' ''k1'' ''abcdef'' ''s3cret'' demo_request (no_keys True))"

lemma demo_keys_reach: "(key_step demo_mac ''jwt'')\<^sup>*\<^sup>* (no_keys True) demo_keys"
  unfolding demo_keys_def by (rule r_into_rtranclp, rule key_step.generate) (simp add: no_keys_def)


subsection \<open>Rotation\<close>

lemma cache_get_invalidated:
  "cs_redis (ks_raw s) = cs_redis (ks_cache s) \<Longrightarrow>
   cache_get now (api_key_cache_key h) (ks_cache (invalidate_key_cache h s)) = None"
  by (simp add: invalidate_key_cache_def redis.lookup_remove redis.lookup_down)

lemma validate_refused:
  assumes "row_of_hash (compute_key_hash mac sk raw) s = Some (i, k)" and "ak_status k \<noteq> KEY_ACTIVE"
    and "cache_get now (api_key_cache_key (compute_key_hash mac sk raw)) (ks_cache s) = None"
  shows "validate_key mac sk now raw s = (None, s)"
  using assms by (simp add: validate_key_def Let_def key_usable_def)

text \<open>Rotating a key gives its old text no grace period: it is refused from that moment on, although the
  row says it expires later. The new key itself ends when the grace period of the old one does, and it
  has the scopes of the old key but none of its quotas.\<close>

theorem rotation_has_no_grace:
  assumes inv: "key_inv s" and row: "dget (ks_rows s) i = Some k" and hash: "ak_key_hash k = compute_key_hash mac sk raw"
    and new: "j \<notin> set (dkeys (ks_rows s))"
    and rot: "rotate_key mac sk now j random secret i g s = (Inr (Some (j', raw', sec')), s')"
  shows "validate_key mac sk t raw s' = (None, s') \<and>
    (\<exists>k'. dget (ks_rows s') i = Some k' \<and> ak_expires_at k' = Some (now + of_int g * 3600)) \<and>
    (\<exists>k'. dget (ks_rows s') j = Some k' \<and> ak_key_hash k' = compute_key_hash mac sk raw' \<and> ak_status k' = KEY_ACTIVE \<and>
      ak_expires_at k' = Some (now + of_int g * 3600) \<and> ak_quotas k' = [] \<and> ak_scopes k' = ak_scopes k)"
proof -
  let ?k = "k\<lparr>ak_status := KEY_EXPIRING, ak_expires_at := Some (now + of_int g * 3600)\<rparr>"
  let ?s1 = "update_row i (\<lambda>_. ?k) s" and ?r = "rotated_request ?k"
  let ?raw = "generate_raw_key (ak_type k) random"
  let ?n = "new_key_row mac sk ?raw secret ?r"
  let ?s2 = "?s1\<lparr>ks_rows := ks_rows ?s1 @ [(j, ?n)]\<rparr>"
  have gen: "generate_key mac sk j random secret ?r ?s1 = (Inr (j, ?raw, Some secret), ?s2)"
    and out: "raw' = ?raw" and s': "s' = invalidate_key_cache (ak_key_hash k) (update_row j (copy_relations ?k) ?s2)"
    using rot row by (auto simp: rotate_key_def generate_key_def rotated_request_def Let_def split: if_splits)
  have ne: "j \<noteq> i" and nj: "dget (ks_rows s) j = None"
    using new row by (metis dget_in_keys, metis dget_None_iff)
  have at_i: "dget (ks_rows s') i = Some ?k"
    using row ne by (simp add: s' dget_update_row map_add_def)
  have at_j: "dget (ks_rows s') j = Some (copy_relations ?k ?n)"
    using row ne nj by (simp add: s' dget_update_row map_add_def)
  have inv': "key_inv s'" using key_inv_rotate [OF inv new, of mac sk now random secret i g] rot by simp
  then have "row_of_hash (compute_key_hash mac sk raw) s' = Some (i, ?k)"
    using at_i hash by (simp add: row_of_hash_iff key_inv_def)
  moreover have "cache_get t (api_key_cache_key (ak_key_hash k)) (ks_cache s') = None"
    unfolding s' by (rule cache_get_invalidated) (simp add: key_inv_redis [OF inv])
  moreover have "ak_status ?k \<noteq> KEY_ACTIVE" by simp
  ultimately have "validate_key mac sk t raw s' = (None, s')"
    unfolding hash by (intro validate_refused)
  moreover have "\<exists>k'. dget (ks_rows s') i = Some k' \<and> ak_expires_at k' = Some (now + of_int g * 3600)"
    using at_i by simp
  moreover have "ak_key_hash (copy_relations ?k ?n) = compute_key_hash mac sk raw' \<and> ak_status (copy_relations ?k ?n) = KEY_ACTIVE \<and>
      ak_expires_at (copy_relations ?k ?n) = Some (now + of_int g * 3600) \<and> ak_quotas (copy_relations ?k ?n) = [] \<and>
      ak_scopes (copy_relations ?k ?n) = ak_scopes k"
    by (simp add: out copy_relations_def Let_def update_rate_limit_def new_key_row_def rotated_request_def split: option.splits)
  ultimately show ?thesis using at_j by blast
qed

definition demo_rotation :: "(exn + (string \<times> string \<times> string option) option) \<times> key_state" where
  "demo_rotation = rotate_key demo_mac ''jwt'' 10 ''k2'' ''ghijkl'' ''n3w'' ''k1'' 24 demo_keys"

text \<open>The preceding statement at the key of the example, rotated with a day of grace.\<close>

theorem rotation_has_no_grace_witness:
  "fst demo_rotation = Inr (Some (''k2'', ''sk-ext-ghijkl'', Some ''n3w'')) \<and>
   fst (validate_key demo_mac ''jwt'' 11 ''sk-ext-abcdef'' (snd demo_rotation)) = None"
proof -
  have row: "map_option ak_key_hash (dget (ks_rows demo_keys) ''k1'') = Some (compute_key_hash demo_mac ''jwt'' ''sk-ext-abcdef'')"
    by code_simp
  have out: "fst demo_rotation = Inr (Some (''k2'', ''sk-ext-ghijkl'', Some ''n3w''))" by code_simp
  then have rot: "rotate_key demo_mac ''jwt'' 10 ''k2'' ''ghijkl'' ''n3w'' ''k1'' 24 demo_keys =
      (Inr (Some (''k2'', ''sk-ext-ghijkl'', Some ''n3w'')), snd demo_rotation)"
    by (simp add: demo_rotation_def prod_eq_iff)
  have inv: "key_inv demo_keys" by (rule key_steps_inv [OF demo_keys_reach key_inv_no_keys])
  have new: "''k2'' \<notin> set (dkeys (ks_rows demo_keys))" by code_simp
  from row obtain k where "dget (ks_rows demo_keys) ''k1'' = Some k"
    "ak_key_hash k = compute_key_hash demo_mac ''jwt'' ''sk-ext-abcdef''" by auto
  from rotation_has_no_grace [OF inv this new rot, of 11] out show ?thesis by simp
qed

end
