(* ===== verification/Signature_Properties.thy ===== *)
theory Signature_Properties
  imports Signature_Verify Api_Key_Lifecycle
begin

section \<open>What the signature step guarantees\<close>

text \<open>
  How long the nonce of src/app/services/workflow/steps/signature_verify.py protects a request against
  replay, how its failure counter freezes a key, and which guesses that counter does not see.
\<close>

subsection \<open>Replay\<close>

lemma verify_nonce_fresh:
  assumes "cs_redis (raw s)" and "verify_nonce t1 nonce tenant s = (Inr (), s1)"
  shows "raw s1 = cache_put t1 (nonce_key tenant nonce) (PInt 1) 300 (raw s)"
    and "redis_get t1 (nonce_key tenant nonce) (raw s) = None"
  using assms by (auto simp: verify_nonce_def with_raw_def cache_set_def cache_put_def split: if_splits)

lemma redis_get_cache_put:
  "cs_redis c \<Longrightarrow> 0 < ttl \<Longrightarrow> redis_get t k' (cache_put t0 k v ttl c) =
     (if k' = k then if t < t0 + of_int ttl then Some (Pickled v) else None else redis_get t k' c)"
  by (simp add: cache_put_def cache_set_def redis_get_put expiry_def live_def)

lemma nonce_reusable:
  assumes "cs_redis (raw s)" and "verify_nonce t1 nonce tenant s = (Inr (), s1)"
  shows "fst (verify_nonce t2 nonce tenant s1) = Inr () \<longleftrightarrow> t1 + 300 \<le> t2"
  using verify_nonce_fresh(1) [OF assms] assms(1)
  by (auto simp: verify_nonce_def cache_set_def redis_get_cache_put redis.up_store)

lemma verify_timestamp_ok: "(\<exists>d. verify_timestamp now (PInt ts) = Inr d) \<longleftrightarrow> \<bar>\<lfloor>now\<rfloor> - ts\<bar> \<le> 300"
  by (auto simp: verify_timestamp_def stamp_value_def Let_def)

text \<open>C36: after a request stamped \<open>ts\<close> passed the clock and nonce checks at \<open>t1\<close>, the same request passes both
  again exactly from 300 seconds later on until its stamp is 300 seconds old. The nonce is kept for 300
  seconds while a stamp is accepted for 600, so a request whose stamp is ahead of the server by \<open>d\<close>
  seconds can be replayed during \<open>d\<close> seconds (and for the rest of the second when \<open>d\<close> is 0).\<close>

theorem replay_window:
  assumes "cs_redis (raw s)" and "verify_timestamp t1 (PInt ts) = Inr d"
    and "verify_nonce t1 nonce tenant s = (Inr (), s1)"
  shows "((\<exists>d'. verify_timestamp t2 (PInt ts) = Inr d') \<and> fst (verify_nonce t2 nonce tenant s1) = Inr ()) \<longleftrightarrow>
    t1 + 300 \<le> t2 \<and> \<lfloor>t2\<rfloor> \<le> ts + 300"
proof -
  have d: "\<bar>\<lfloor>t1\<rfloor> - ts\<bar> \<le> 300" using assms(2) verify_timestamp_ok by blast
  have "\<lfloor>t1\<rfloor> + 300 \<le> \<lfloor>t2\<rfloor>" if "t1 + 300 \<le> t2"
    using floor_mono [OF that] by simp
  with d show ?thesis
    unfolding verify_timestamp_ok nonce_reusable [OF assms(1,3)] by auto
qed

definition demo_sig :: sig_state where
  "demo_sig = \<lparr>sg_keys = demo_keys, sg_cache = \<lparr>cs_redis = True, cs_data = []\<rparr>, sg_fail_counts = [], sg_blacklist = []\<rparr>"

text \<open>C36 at a stamp 100 seconds ahead of the server: replayed after 310 seconds.\<close>

theorem replay_window_witness:
  "(\<exists>d. verify_timestamp 10 (PInt 110) = Inr d) \<and>
   (\<exists>d'. verify_timestamp 320 (PInt 110) = Inr d') \<and>
   fst (verify_nonce 320 ''n'' None (snd (verify_nonce 10 ''n'' None demo_sig))) = Inr ()"
proof -
  have up: "cs_redis (raw demo_sig)" by code_simp
  have ts: "verify_timestamp 10 (PInt 110) = Inr 100" by code_simp
  have "fst (verify_nonce 10 ''n'' None demo_sig) = Inr ()" by code_simp
  then have n: "verify_nonce 10 ''n'' None demo_sig = (Inr (), snd (verify_nonce 10 ''n'' None demo_sig))"
    by (simp add: prod_eq_iff)
  from replay_window [OF up ts n, of 320] ts show ?thesis by auto
qed

text \<open>The whole step accepts such a replay: the request of the example is verified twice.\<close>

definition signed_request :: workflow_context where
  "signed_request =
     ctx_set ''signature_verify'' ''timestamp'' (PStr ''110'') (ctx_set ''signature_verify'' ''nonce'' (PStr ''n'')
       (ctx_set ''signature_verify'' ''api_key'' (PStr ''sk-ext-abcdef'')
         (ctx_set ''signature_verify'' ''api_secret'' (PStr ''s3cret'')
           (ctx_set ''signature_verify'' ''signature'' (PStr (demo_mac ''s3cret'' ''sk-ext-abcdef110n''))
             ((new_context ''t'' EXTERNAL ''now'')\<lparr>ctx_db_session := True\<rparr>)))))"

abbreviation demo_verify :: "rat \<Rightarrow> workflow_context \<Rightarrow> sig_state \<Rightarrow> step_result \<times> workflow_context \<times> sig_state" where
  "demo_verify \<equiv> signature_verify_execute demo_mac (\<lambda>_. None :: nat option) (\<lambda>_. None) ''jwt''"

lemma replayed_request_verified:
  "sr_status (fst (demo_verify 10 signed_request demo_sig)) = SUCCESS"
  "sr_status (fst (demo_verify 20 signed_request (snd (snd (demo_verify 10 signed_request demo_sig))))) = FAILED"
  "sr_status (fst (demo_verify 320 signed_request (snd (snd (demo_verify 10 signed_request demo_sig))))) = SUCCESS"
  by code_simp+

subsection \<open>Freezing\<close>

text \<open>The results of recording failures at the given times, in order, and the final state.\<close>

fun record_failures :: "string \<Rightarrow> string option \<Rightarrow> rat list \<Rightarrow> sig_state \<Rightarrow> (bool \<times> int) list \<times> sig_state" where
  "record_failures i tenant [] s = ([], s)"
| "record_failures i tenant (t # ts) s =
     (case record_signature_failure t i tenant s of
        (r, s1) \<Rightarrow> (case record_failures i tenant ts s1 of (rs, s2) \<Rightarrow> (r # rs, s2)))"

definition no_colon :: "string option \<Rightarrow> bool" where
  "no_colon t \<longleftrightarrow> (case t of None \<Rightarrow> True | Some x \<Rightarrow> CHR '':'' \<notin> set x)"

definition counts :: "string \<Rightarrow> int \<Rightarrow> rat \<Rightarrow> sig_state \<Rightarrow> bool" where
  "counts i n e s \<longleftrightarrow> cs_redis (raw s) \<and> dget (cs_data (raw s)) (fail_key i) = Some (Counter n, Some e)"

lemma fail_key_neq [simp]:
  "fail_key i \<noteq> legacy_fail_key j" "legacy_fail_key j \<noteq> fail_key i"
  by (simp_all add: fail_key_def legacy_fail_key_def)

lemma tenant_fail_key_neq: "no_colon tenant \<Longrightarrow> tenant_fail_key tenant \<noteq> fail_key i"
  by (auto simp: no_colon_def tenant_fail_key_def fail_key_def split: option.splits)

lemma freeze_keys_neq [simp]:
  "fail_key i \<noteq> blacklist_key j" "fail_key i \<noteq> revoked_key j" "fail_key i \<noteq> legacy_blacklist_key j"
  "fail_key i \<noteq> api_key_cache_key h"
  by (simp_all add: fail_key_def blacklist_key_def revoked_key_def legacy_blacklist_key_def api_key_cache_key_def)

lemma dget_incr_other: "k \<noteq> k' \<Longrightarrow> dget (cs_data (snd (cache_incr now k ttl a c))) k' = dget (cs_data c) k'"
  by (auto simp: cache_incr_def redis_put_def Let_def split: option.splits redis_val.splits)

lemma dget_expire_other: "k \<noteq> k' \<Longrightarrow> dget (cs_data (redis_expire now k ttl c)) k' = dget (cs_data c) k'"
  by (auto simp: redis_expire_def redis_put_def split: option.splits)

lemma dget_put_other: "k \<noteq> k' \<Longrightarrow> dget (cs_data (cache_put now k v ttl c)) k' = dget (cs_data c) k'"
  by (auto simp: cache_put_def cache_set_def redis_put_def)

lemma redis_expire_up [simp]: "cs_redis (redis_expire now k ttl c) = cs_redis c"
  by (simp add: redis_expire_def split: option.splits)

text \<open>The raw keys after the three counters were raised.\<close>

definition count_raw :: "rat \<Rightarrow> string \<Rightarrow> string option \<Rightarrow> pyval cache_state \<Rightarrow> pyval cache_state" where
  "count_raw now i tenant r =
     (let r2 = redis_expire now (legacy_fail_key i) 900 (snd (cache_incr now (legacy_fail_key i) None 1
            (snd (cache_incr now (fail_key i) (Some 900) 1 r))))
      in if str_truthy tenant then snd (cache_incr now (tenant_fail_key tenant) (Some 900) 1 r2) else r2)"

lemma count_raw_up [simp]: "cs_redis (count_raw now i tenant r) = cs_redis r"
  by (simp add: count_raw_def Let_def)

lemma count_raw_get:
  "no_colon tenant \<Longrightarrow> dget (cs_data (count_raw now i tenant r)) (fail_key i) =
     dget (cs_data (snd (cache_incr now (fail_key i) (Some 900) 1 r))) (fail_key i)"
  by (simp add: count_raw_def Let_def dget_incr_other dget_expire_other tenant_fail_key_neq)

definition freeze_raw :: "rat \<Rightarrow> string \<Rightarrow> pyval cache_state \<Rightarrow> pyval cache_state" where
  "freeze_raw now i r = cache_put now (revoked_key i) (PInt 1) 900
     (cache_put now (legacy_blacklist_key i) (PInt 1) 900 (cache_put now (blacklist_key i) (PInt 1) 900 r))"

lemma record_signature_failure_alt:
  assumes "cs_redis (raw s)" and "cache_incr now (fail_key i) (Some 900) 1 (raw s) = (n, r1)"
  shows "record_signature_failure now i tenant s =
    (let s1 = with_raw (count_raw now i tenant) s
     in if 5 \<le> n then ((True, n), with_raw (freeze_raw now i)
            (s1\<lparr>sg_keys := revoke_key now ''signature_failure_threshold'' i (sg_keys s1)\<rparr>))
        else ((False, n), s1))"
  using assms by (simp add: record_signature_failure_def count_raw_def freeze_raw_def with_raw_def Let_def)

lemma with_raw_rows [simp]:
  "ks_rows (sg_keys (with_raw f s)) = ks_rows (sg_keys s)" "raw (with_raw f s) = f (raw s)"
  "ks_cache (sg_keys (with_raw f s)) = ks_cache (sg_keys s)"
  by (simp_all add: with_raw_def)

lemma key_inv_with_raw:
  "key_inv (sg_keys s) \<Longrightarrow> cs_redis (f (raw s)) = cs_redis (raw s) \<Longrightarrow> key_inv (sg_keys (with_raw f s))"
  by (simp add: with_raw_def key_inv_raw)

text \<open>One failure below the threshold raises the live counter and keeps its expiry.\<close>

lemma failure_counted:
  assumes "counts i n e s" and "t < e" and "1 \<le> n" and "n < 4" and "no_colon tenant"
  shows "record_signature_failure t i tenant s = ((False, n + 1), with_raw (count_raw t i tenant) s)"
    and "counts i (n + 1) e (with_raw (count_raw t i tenant) s)"
proof -
  have up: "cs_redis (raw s)" and get: "dget (cs_data (raw s)) (fail_key i) = Some (Counter n, Some e)"
    using assms(1) by (auto simp: counts_def)
  have inc: "cache_incr t (fail_key i) (Some 900) 1 (raw s) = (n + 1, redis_put (fail_key i) (Counter (n + 1), Some e) (raw s))"
    using up get assms(2,3) by (simp add: cache_incr_def redis_get_def live_def Let_def)
  show "record_signature_failure t i tenant s = ((False, n + 1), with_raw (count_raw t i tenant) s)"
    using record_signature_failure_alt [OF up inc] assms(4) by simp
  show "counts i (n + 1) e (with_raw (count_raw t i tenant) s)"
    using up by (simp add: counts_def count_raw_get [OF assms(5)] inc redis_put_def)
qed

lemma first_failure:
  assumes "cs_redis (raw s)" and "redis_get t (fail_key i) (raw s) = None" and "no_colon tenant"
  shows "record_signature_failure t i tenant s = ((False, 1), with_raw (count_raw t i tenant) s)"
    and "counts i 1 (t + 900) (with_raw (count_raw t i tenant) s)"
proof -
  have inc: "cache_incr t (fail_key i) (Some 900) 1 (raw s) = (1, redis_put (fail_key i) (Counter 1, Some (t + 900)) (raw s))"
    using assms by (simp add: cache_incr_def)
  show "record_signature_failure t i tenant s = ((False, 1), with_raw (count_raw t i tenant) s)"
    using record_signature_failure_alt [OF assms(1) inc] by simp
  show "counts i 1 (t + 900) (with_raw (count_raw t i tenant) s)"
    using assms(1) by (simp add: counts_def count_raw_get [OF assms(3)] inc redis_put_def)
qed

lemma fifth_failure:
  assumes "counts i 4 e s" and "t < e" and "no_colon tenant"
  shows "record_signature_failure t i tenant s = ((True, 5), with_raw (freeze_raw t i)
    ((with_raw (count_raw t i tenant) s)\<lparr>sg_keys := revoke_key t ''signature_failure_threshold'' i
       (sg_keys (with_raw (count_raw t i tenant) s))\<rparr>))"
proof -
  have up: "cs_redis (raw s)" and get: "dget (cs_data (raw s)) (fail_key i) = Some (Counter 4, Some e)"
    using assms(1) by (auto simp: counts_def)
  have inc: "cache_incr t (fail_key i) (Some 900) 1 (raw s) = (5, redis_put (fail_key i) (Counter 5, Some e) (raw s))"
    using up get assms(2) by (simp add: cache_incr_def redis_get_def live_def)
  show ?thesis using record_signature_failure_alt [OF up inc] by (simp add: Let_def)
qed

lemma revoked_never_valid:
  assumes inv: "key_inv ks" and row: "dget (ks_rows ks) i = Some k" and hash: "ak_key_hash k = compute_key_hash mac sk key"
  shows "validate_key mac sk t key ((revoke_key now reason i ks)\<lparr>ks_raw := r\<rparr>) = (None, (revoke_key now reason i ks)\<lparr>ks_raw := r\<rparr>)"
proof -
  let ?s = "revoke_key now reason i ks" and ?h = "compute_key_hash mac sk key"
  have s: "?s = invalidate_key_cache ?h (update_row i (mark_revoked now reason) ks)"
    using row hash by (simp add: revoke_key_def)
  have "key_inv ?s" by (rule key_inv_simple(2) [OF inv])
  then have ok: "rows_ok ?s" by (simp add: key_inv_def)
  have "dget (ks_rows ?s) i = Some (mark_revoked now reason k)" using row by (simp add: s dget_update_row)
  then have "row_of_hash ?h ?s = Some (i, mark_revoked now reason k)"
    unfolding row_of_hash_iff [OF ok] using hash by (simp add: mark_revoked_def)
  moreover have "cache_get t (api_key_cache_key ?h) (ks_cache ?s) = None"
    unfolding s by (rule cache_get_invalidated) (simp add: key_inv_redis [OF inv])
  ultimately show ?thesis
    by (intro validate_refused [of _ _ _ _ i "mark_revoked now reason k"]) (simp_all add: row_of_hash_def mark_revoked_def)
qed

text \<open>Five signature mismatches of a key within 15 minutes of the first freeze it. The first four are only
  counted; the fifth revokes the row, and from then on every request with that key is refused, with
  whatever signature, nonce and secret, at any later time.\<close>

theorem failures_freeze_key:
  assumes inv: "key_inv (sg_keys s)" and up: "cs_redis (raw s)"
    and row: "dget (ks_rows (sg_keys s)) i = Some k" and hash: "ak_key_hash k = compute_key_hash mac sk key"
    and fresh: "redis_get t0 (fail_key i) (raw s) = None" and ten: "no_colon tenant"
    and soon: "max (max t1 t2) (max t3 t4) < t0 + 900"
    and run: "record_failures i tenant [t0, t1, t2, t3, t4] s = (rs, s')" and db: "ctx_db_session c"
  shows "rs = [(False, 1), (False, 2), (False, 3), (False, 4), (True, 5)] \<and>
    fst (verify_request_signature mac addr net sk t c (Some key) stamp nonce sg secret s') =
      Inl (SignatureError ''Invalid or inactive API key'')"
proof -
  let ?w = "\<lambda>t. with_raw (count_raw t i tenant)"
  let ?s1 = "?w t0 s" let ?s2 = "?w t1 ?s1" let ?s3 = "?w t2 ?s2" let ?s4 = "?w t3 ?s3" let ?s5 = "?w t4 ?s4"
  note f0 = first_failure [OF up fresh ten]
  have t: "t1 < t0 + 900" "t2 < t0 + 900" "t3 < t0 + 900" "t4 < t0 + 900" using soon by auto
  note f1 = failure_counted [OF f0(2) t(1) _ _ ten, simplified]
  note f2 = failure_counted [OF f1(2) t(2) _ _ ten, simplified]
  note f3 = failure_counted [OF f2(2) t(3) _ _ ten, simplified]
  note f4 = fifth_failure [OF f3(2) t(4) ten]
  let ?ks = "sg_keys ?s5"
  let ?e = "?s5\<lparr>sg_keys := revoke_key t4 ''signature_failure_threshold'' i ?ks\<rparr>"
  have rs: "rs = [(False, 1), (False, 2), (False, 3), (False, 4), (True, 5)]" and s': "s' = with_raw (freeze_raw t4 i) ?e"
    using run f0(1) f1(1) f2(1) f3(1) f4 by auto
  have inv5: "key_inv ?ks" by (intro key_inv_with_raw inv) simp_all
  have row5: "dget (ks_rows ?ks) i = Some k" using row by simp
  have "sg_keys s' = (revoke_key t4 ''signature_failure_threshold'' i ?ks)\<lparr>ks_raw := freeze_raw t4 i (raw ?e)\<rparr>"
    by (simp add: s' with_raw_def)
  then have "validate_key mac sk t key (sg_keys s') = (None, sg_keys s')"
    using revoked_never_valid [OF inv5 row5 hash] by simp
  with rs show ?thesis by (simp add: verify_request_signature_def db)
qed

text \<open>The preceding statement at the key of the example.\<close>

theorem failures_freeze_key_witness:
  "fst (record_failures ''k1'' (Some ''t1'') [1, 2, 3, 4, 5] demo_sig) = [(False, 1), (False, 2), (False, 3), (False, 4), (True, 5)] \<and>
   fst (verify_request_signature demo_mac (\<lambda>_. None :: nat option) (\<lambda>_. None) ''jwt'' 5000 signed_request (Some ''sk-ext-abcdef'')
     (PInt 5000) None (Some ''x'') (Some ''s3cret'') (snd (record_failures ''k1'' (Some ''t1'') [1, 2, 3, 4, 5] demo_sig))) =
   Inl (SignatureError ''Invalid or inactive API key'')"
proof -
  have inv: "key_inv (sg_keys demo_sig)"
    using key_steps_inv [OF demo_keys_reach key_inv_no_keys] by (simp add: demo_sig_def)
  have up: "cs_redis (raw demo_sig)" by code_simp
  have row: "map_option ak_key_hash (dget (ks_rows (sg_keys demo_sig)) ''k1'') = Some (compute_key_hash demo_mac ''jwt'' ''sk-ext-abcdef'')"
    by code_simp
  then obtain k where k: "dget (ks_rows (sg_keys demo_sig)) ''k1'' = Some k"
    "ak_key_hash k = compute_key_hash demo_mac ''jwt'' ''sk-ext-abcdef''" by auto
  have fresh: "redis_get 1 (fail_key ''k1'') (raw demo_sig) = None" by code_simp
  have ten: "no_colon (Some ''t1'')" by (simp add: no_colon_def)
  have db: "ctx_db_session signed_request" by code_simp
  show ?thesis
    by (rule failures_freeze_key [OF inv up k fresh ten _ prod.collapse [symmetric] db]) simp
qed

text \<open>
  A wrong API secret is refused before the signature is looked at and leaves every counter as it was, so
  guessing secrets never freezes a key. Only the key rows' last use and the cached principal change.
\<close>

lemma secret_guess_not_counted:
  assumes "validate_key mac sk now key (sg_keys s) = (Some p, ks)" and "ctx_db_session c"
    and "pr_secret_hash p = Some h" and "h \<noteq> []" and "g \<noteq> []" and "compute_key_hash mac sk g \<noteq> h"
  shows "raw (snd (snd (verify_request_signature mac addr net sk now c (Some key) stamp nonce sg (Some g) s))) = ks_raw ks"
    and "\<exists>m. fst (verify_request_signature mac addr net sk now c (Some key) stamp nonce sg (Some g) s) = Inl (SignatureError m)"
  using assms by (auto simp: verify_request_signature_def Let_def)

end
