(* ===== verification/Registration.thy ===== *)
theory Registration
  imports Py_Value
begin

section \<open>Registration windows and invite codes\<close>

text \<open>
  src/app/services/users/registration_window_service.py (windows with a period, a capacity and a
  status), src/app/repositories/invite_code.py and src/app/services/users/invite_code_service.py (codes
  that are reserved, used, rolled back or revoked), src/app/services/users/registration_policy.py and
  the creation of a new user in src/app/services/users/user_provisioning_service.py. Windows and codes
  are tables in insertion order; times are numbers. The random body of a code is an argument. Each
  operation is one transaction; the last section splits a claim into its read and its write, which is
  how the code runs under concurrent sessions.
\<close>

datatype window_status = SCHEDULED | ACTIVE | CLOSED

record registration_window =
  rw_start :: rat
  rw_end :: rat
  rw_max :: int
  rw_count :: int
  rw_auto_activate :: bool
  rw_status :: window_status

datatype invite_status = UNUSED | RESERVED | USED | REVOKED

record invite_code =
  ic_window :: string
  ic_status :: invite_status
  ic_expires_at :: "rat option"
  ic_reserved_at :: "rat option"
  ic_used_at :: "rat option"
  ic_used_by :: "string option"
  ic_note :: "string option"

record reg_state =
  rg_windows :: "(string, registration_window) dict"
  rg_codes :: "(string, invite_code) dict"
  rg_users :: "(string \<times> bool) list"

datatype reg_error =
    WindowNotFound
  | WindowClosed
  | QuotaExceeded
  | RegValueError string
  | HTTPException int string
  | CreateFailed

subsection \<open>Windows\<close>

definition put_window :: "string \<Rightarrow> registration_window \<Rightarrow> reg_state \<Rightarrow> reg_state" where
  "put_window i w s = s\<lparr>rg_windows := dput i w (rg_windows s)\<rparr>"

definition sync_window :: "rat \<Rightarrow> registration_window \<Rightarrow> registration_window" where
  "sync_window now w =
     (let w1 = (if rw_status w = SCHEDULED \<and> rw_start w \<le> now \<and> now \<le> rw_end w then w\<lparr>rw_status := ACTIVE\<rparr> else w)
      in if rw_status w1 = ACTIVE \<and> rw_end w1 < now then w1\<lparr>rw_status := CLOSED\<rparr> else w1)"

definition sync_window_states :: "rat \<Rightarrow> reg_state \<Rightarrow> reg_state" where
  "sync_window_states now s = s\<lparr>rg_windows := map (\<lambda>(i, w). (i, sync_window now w)) (rg_windows s)\<rparr>"

definition selectable :: "rat \<Rightarrow> registration_window \<Rightarrow> bool" where
  "selectable now w \<longleftrightarrow> rw_status w = ACTIVE \<and> rw_start w \<le> now \<and> now \<le> rw_end w \<and> rw_count w < rw_max w"

text \<open>The first by start time; among equal start times the table order decides.\<close>

fun earliest :: "(string \<times> registration_window) list \<Rightarrow> (string \<times> registration_window) option" where
  "earliest [] = None"
| "earliest (x # xs) =
     (case earliest xs of None \<Rightarrow> Some x | Some y \<Rightarrow> if rw_start (snd y) < rw_start (snd x) then Some y else Some x)"

definition select_active_window :: "rat \<Rightarrow> reg_state \<Rightarrow> (string \<times> registration_window) option" where
  "select_active_window now s = earliest (filter (\<lambda>(_, w). selectable now w) (rg_windows s))"

definition create_registration_window :: "rat \<Rightarrow> string \<Rightarrow> rat \<Rightarrow> rat \<Rightarrow> int \<Rightarrow> bool \<Rightarrow> reg_state \<Rightarrow>
    (reg_error + registration_window) \<times> reg_state" where
  "create_registration_window now i start stop cap auto s =
     (if cap \<le> 0 then (Inl (RegValueError ''max_registrations must be greater than zero''), s)
      else if stop \<le> start then (Inl (RegValueError ''end_time must be later than start_time''), s)
      else
        let w = \<lparr>rw_start = start, rw_end = stop, rw_max = cap, rw_count = 0, rw_auto_activate = auto,
                 rw_status = (if start \<le> now then ACTIVE else SCHEDULED)\<rparr>
        in (Inr w, put_window i w s))"

definition get_active_registration_window :: "rat \<Rightarrow> reg_state \<Rightarrow> (string \<times> registration_window) option \<times> reg_state" where
  "get_active_registration_window now s = (let s1 = sync_window_states now s in (select_active_window now s1, s1))"

definition activate_window_by_id :: "rat \<Rightarrow> string \<Rightarrow> reg_state \<Rightarrow> registration_window option \<times> reg_state" where
  "activate_window_by_id now i s =
     (case dget (rg_windows s) i of
        None \<Rightarrow> (None, s)
      | Some w \<Rightarrow>
          if rw_status w = CLOSED then (Some w, s)
          else
            let w1 = (if rw_start w \<le> now \<and> now \<le> rw_end w then w\<lparr>rw_status := ACTIVE\<rparr>
                      else if rw_end w < now then w\<lparr>rw_status := CLOSED\<rparr> else w)
            in (Some w1, put_window i w1 s))"

definition close_window_by_id :: "string \<Rightarrow> reg_state \<Rightarrow> registration_window option \<times> reg_state" where
  "close_window_by_id i s =
     (case dget (rg_windows s) i of
        None \<Rightarrow> (None, s)
      | Some w \<Rightarrow>
          if rw_status w = CLOSED then (Some w, s)
          else let w1 = w\<lparr>rw_status := CLOSED\<rparr> in (Some w1, put_window i w1 s))"

definition take_slot :: "registration_window \<Rightarrow> registration_window" where
  "take_slot w =
     (let w1 = w\<lparr>rw_count := rw_count w + 1\<rparr>
      in if rw_max w1 \<le> rw_count w1 then w1\<lparr>rw_status := CLOSED\<rparr> else w1)"

definition claim_registration_slot :: "rat \<Rightarrow> reg_state \<Rightarrow> (reg_error + string \<times> registration_window) \<times> reg_state" where
  "claim_registration_slot now s0 =
     (let s = sync_window_states now s0
      in case select_active_window now s of
           None \<Rightarrow> (Inl WindowNotFound, s)
         | Some (i, w) \<Rightarrow>
             if rw_end w < now then (Inl WindowClosed, put_window i (w\<lparr>rw_status := CLOSED\<rparr>) s)
             else if rw_max w \<le> rw_count w then (Inl QuotaExceeded, put_window i (w\<lparr>rw_status := CLOSED\<rparr>) s)
             else (Inr (i, take_slot w), put_window i (take_slot w) s))"

definition claim_registration_slot_for_window :: "rat \<Rightarrow> string \<Rightarrow> reg_state \<Rightarrow>
    (reg_error + registration_window) \<times> reg_state" where
  "claim_registration_slot_for_window now i s0 =
     (let s = sync_window_states now s0
      in case dget (rg_windows s) i of
           None \<Rightarrow> (Inl WindowNotFound, s)
         | Some w \<Rightarrow>
             if rw_status w \<noteq> ACTIVE then (Inl WindowClosed, s)
             else if \<not> (rw_start w \<le> now \<and> now \<le> rw_end w) then (Inl WindowClosed, s)
             else if rw_max w \<le> rw_count w then (Inl QuotaExceeded, put_window i (w\<lparr>rw_status := CLOSED\<rparr>) s)
             else (Inr (take_slot w), put_window i (take_slot w) s))"

definition rollback_registration_slot :: "rat \<Rightarrow> string \<Rightarrow> reg_state \<Rightarrow> reg_state" where
  "rollback_registration_slot now i s =
     (case dget (rg_windows s) i of
        None \<Rightarrow> s
      | Some w \<Rightarrow>
          let w1 = (if 0 < rw_count w then w\<lparr>rw_count := rw_count w - 1\<rparr> else w);
              w2 = (if rw_status w1 = CLOSED \<and> rw_count w1 < rw_max w1 \<and> rw_start w1 \<le> now \<and> now \<le> rw_end w1
                    then w1\<lparr>rw_status := ACTIVE\<rparr> else w1)
          in put_window i w2 s)"

subsection \<open>Invite codes\<close>

definition put_code :: "string \<Rightarrow> invite_code \<Rightarrow> reg_state \<Rightarrow> reg_state" where
  "put_code c ic s = s\<lparr>rg_codes := dput c ic (rg_codes s)\<rparr>"

text \<open>\<open>bulk_create\<close> with the generated bodies; a body that repeats an existing code violates the unique
  key and nothing is stored.\<close>

definition bulk_create :: "string \<Rightarrow> string option \<Rightarrow> rat option \<Rightarrow> string option \<Rightarrow> string list \<Rightarrow> reg_state \<Rightarrow>
    (reg_error + string list) \<times> reg_state" where
  "bulk_create win prefix expires note bodies s =
     (let codes = map (\<lambda>b. if str_truthy prefix then the prefix @ b else b) bodies
      in if distinct codes \<and> (\<forall>c \<in> set codes. dget (rg_codes s) c = None)
         then (Inr codes, s\<lparr>rg_codes := rg_codes s @ map (\<lambda>c. (c, \<lparr>ic_window = win, ic_status = UNUSED,
                 ic_expires_at = expires, ic_reserved_at = None, ic_used_at = None, ic_used_by = None,
                 ic_note = note\<rparr>)) codes\<rparr>)
         else (Inl (RegValueError ''IntegrityError''), s))"

definition invite_reserve :: "rat \<Rightarrow> string \<Rightarrow> reg_state \<Rightarrow> invite_code option \<times> reg_state" where
  "invite_reserve now code s =
     (case dget (rg_codes s) code of
        Some ic \<Rightarrow>
          if ic_status ic = UNUSED
          then let ic1 = ic\<lparr>ic_status := RESERVED, ic_reserved_at := Some now\<rparr> in (Some ic1, put_code code ic1 s)
          else (None, s)
      | None \<Rightarrow> (None, s))"

definition invite_mark_used :: "rat \<Rightarrow> string \<Rightarrow> string \<Rightarrow> reg_state \<Rightarrow> invite_code option \<times> reg_state" where
  "invite_mark_used now code user s =
     (case dget (rg_codes s) code of
        Some ic \<Rightarrow>
          if ic_status ic = RESERVED
          then let ic1 = ic\<lparr>ic_status := USED, ic_used_at := Some now, ic_used_by := Some user\<rparr>
               in (Some ic1, put_code code ic1 s)
          else (None, s)
      | None \<Rightarrow> (None, s))"

definition invite_rollback :: "string \<Rightarrow> reg_state \<Rightarrow> reg_state" where
  "invite_rollback code s =
     (case dget (rg_codes s) code of
        Some ic \<Rightarrow>
          if ic_status ic = RESERVED then put_code code (ic\<lparr>ic_status := UNUSED, ic_reserved_at := None\<rparr>) s else s
      | None \<Rightarrow> s)"

definition invite_revoke :: "string \<Rightarrow> reg_state \<Rightarrow> invite_code option \<times> reg_state" where
  "invite_revoke code s =
     (case dget (rg_codes s) code of
        Some ic \<Rightarrow>
          if ic_status ic = UNUSED \<or> ic_status ic = RESERVED
          then let ic1 = ic\<lparr>ic_status := REVOKED\<rparr> in (Some ic1, put_code code ic1 s)
          else (None, s)
      | None \<Rightarrow> (None, s))"

definition invite_consume :: "rat \<Rightarrow> string \<Rightarrow> reg_state \<Rightarrow> (reg_error + string \<times> registration_window) \<times> reg_state" where
  "invite_consume now code s =
     (case invite_reserve now code s of
        (None, s1) \<Rightarrow> (Inl (HTTPException 400 ''Invalid or used invite code''), s1)
      | (Some ic, s1) \<Rightarrow>
          if (case ic_expires_at ic of None \<Rightarrow> False | Some t \<Rightarrow> t < now)
          then (Inl (HTTPException 410 ''Invite code expired''), snd (invite_revoke code s1))
          else (case claim_registration_slot_for_window now (ic_window ic) s1 of
                  (Inr w, s2) \<Rightarrow> (Inr (ic_window ic, w), s2)
                | (Inl WindowNotFound, s2) \<Rightarrow> (Inl (HTTPException 403 ''window not found''), invite_rollback code s2)
                | (Inl WindowClosed, s2) \<Rightarrow> (Inl (HTTPException 403 ''window closed''), invite_rollback code s2)
                | (Inl QuotaExceeded, s2) \<Rightarrow> (Inl (HTTPException 403 ''window full''), invite_rollback code s2)
                | (Inl e, s2) \<Rightarrow> (Inl e, s2)))"

definition invite_service_rollback :: "rat \<Rightarrow> string \<Rightarrow> string \<Rightarrow> reg_state \<Rightarrow> reg_state" where
  "invite_service_rollback now code win s = rollback_registration_slot now win (invite_rollback code s)"

subsection \<open>New users\<close>

text \<open>The policy and the part of \<open>provision_user\<close> for a user that does not exist yet: \<open>create_ok\<close> says
  whether storing the user succeeds. \<open>skip_policy\<close> holds in the test and development environments.\<close>

definition ensure_can_register :: "bool \<Rightarrow> string option \<Rightarrow> reg_error option" where
  "ensure_can_register control code =
     (if \<not> control then None
      else if str_truthy code then None
      else Some (HTTPException 403 ''Registration requires invite code''))"

definition provision_new_user :: "bool \<Rightarrow> bool \<Rightarrow> bool \<Rightarrow> rat \<Rightarrow> string \<Rightarrow> string option \<Rightarrow> reg_state \<Rightarrow>
    (reg_error + unit) \<times> reg_state" where
  "provision_new_user control skip_policy create_ok now email code s =
     (case (if skip_policy then None else ensure_can_register control code) of
        Some e \<Rightarrow> (Inl e, s)
      | None \<Rightarrow>
          if control \<and> \<not> skip_policy then
            (case invite_consume now (the code) s of
               (Inl e, s1) \<Rightarrow> (Inl e, s1)
             | (Inr (win, w), s1) \<Rightarrow>
                 if \<not> create_ok then (Inl CreateFailed, invite_service_rollback now (the code) win s1)
                 else (Inr (), snd (invite_mark_used now (the code) email
                        (s1\<lparr>rg_users := rg_users s1 @ [(email, rw_auto_activate w)]\<rparr>))))
          else if create_ok then (Inr (), s\<lparr>rg_users := rg_users s @ [(email, True)]\<rparr>)
          else (Inl CreateFailed, s))"

subsection \<open>Invariant\<close>

definition window_ok :: "registration_window \<Rightarrow> bool" where
  "window_ok w \<longleftrightarrow> 0 \<le> rw_count w \<and> rw_count w \<le> rw_max w \<and> (rw_status w \<noteq> CLOSED \<longrightarrow> rw_count w < rw_max w)"

text \<open>The codes of a window that a registration holds or has used.\<close>

definition holds :: "string \<Rightarrow> string \<times> invite_code \<Rightarrow> bool" where
  "holds i e \<longleftrightarrow> ic_window (snd e) = i \<and> ic_status (snd e) \<in> {RESERVED, USED}"

definition held :: "string \<Rightarrow> reg_state \<Rightarrow> int" where
  "held i s = int (length (filter (holds i) (rg_codes s)))"

text \<open>
  Well-formed tables, consistent windows, and no window with more held codes than counted
  registrations, up to \<open>slack\<close>: between reserving a code and claiming its slot there is one more.
\<close>

definition reg_inv :: "(string \<Rightarrow> int) \<Rightarrow> reg_state \<Rightarrow> bool" where
  "reg_inv slack s \<longleftrightarrow> dict_wf (rg_codes s) \<and> dict_wf (rg_windows s) \<and>
     (\<forall>c ic. dget (rg_codes s) c = Some ic \<longrightarrow> dget (rg_windows s) (ic_window ic) \<noteq> None) \<and>
     (\<forall>i w. dget (rg_windows s) i = Some w \<longrightarrow> window_ok w \<and> held i s \<le> rw_count w + slack i)"

lemma filter_dput_length:
  assumes "dict_wf d" and "dget d k = Some v"
  shows "int (length (filter P (dput k v' d))) = int (length (filter P d)) - of_bool (P (k, v)) + of_bool (P (k, v'))"
  using assms
proof (induction d)
  case (Cons e d)
  obtain k0 v0 where e: "e = (k0, v0)" by (cases e)
  show ?case
  proof (cases "k0 = k")
    case True
    with Cons.prems e show ?thesis by auto
  next
    case False
    with Cons.prems e have "dict_wf d" "dget d k = Some v" by (auto simp: dict_wf_def)
    with Cons.IH False e show ?thesis by auto
  qed
qed simp

lemma held_put_code:
  assumes "dict_wf (rg_codes s)" and "dget (rg_codes s) c = Some ic"
  shows "held i (put_code c ic' s) = held i s - of_bool (holds i (c, ic)) + of_bool (holds i (c, ic'))"
  using filter_dput_length [OF assms] by (simp add: held_def put_code_def)

lemma reg_inv_put_code:
  assumes "reg_inv slack s" and "dget (rg_codes s) c = Some ic" and "ic_window ic' = ic_window ic"
    and "\<And>i. slack i - of_bool (holds i (c, ic)) + of_bool (holds i (c, ic')) \<le> slack' i"
  shows "reg_inv slack' (put_code c ic' s)"
proof -
  have wf: "dict_wf (rg_codes s)" using assms(1) by (simp add: reg_inv_def)
  have "held i (put_code c ic' s) \<le> rw_count w + slack' i" if "dget (rg_windows s) i = Some w" for i w
  proof -
    have "held i s \<le> rw_count w + slack i" using assms(1) that by (simp add: reg_inv_def)
    with assms(4) [of i] show ?thesis unfolding held_put_code [OF wf assms(2)] by linarith
  qed
  moreover have "dget (rg_windows s) (ic_window ic) \<noteq> None" using assms(1,2) unfolding reg_inv_def by blast
  ultimately show ?thesis
    using assms(1,3) wf unfolding reg_inv_def by (auto simp: put_code_def)
qed

lemma reg_inv_put_window:
  assumes "reg_inv slack s" and "dget (rg_windows s) i = Some w" and "window_ok w'"
    and "rw_count w + slack i \<le> rw_count w' + slack' i" and "\<And>j. j \<noteq> i \<Longrightarrow> slack j \<le> slack' j"
  shows "reg_inv slack' (put_window i w' s)"
  using assms unfolding reg_inv_def put_window_def held_def
  by (auto split: if_splits) (smt (verit, best))+

lemma sync_window_simps [simp]: "rw_count (sync_window now w) = rw_count w" "rw_max (sync_window now w) = rw_max w"
  by (simp_all add: sync_window_def Let_def)

lemma sync_window_ok: "window_ok w \<Longrightarrow> window_ok (sync_window now w)"
  by (auto simp: window_ok_def sync_window_def Let_def)

lemma dget_sync: "dget (rg_windows (sync_window_states now s)) i = map_option (sync_window now) (dget (rg_windows s) i)"
  by (simp add: sync_window_states_def map_of_map)

lemma sync_codes [simp]: "rg_codes (sync_window_states now s) = rg_codes s"
  by (simp add: sync_window_states_def)

lemma sync_wf [simp]: "dict_wf (rg_windows (sync_window_states now s)) \<longleftrightarrow> dict_wf (rg_windows s)"
  by (simp add: dict_wf_def sync_window_states_def o_def case_prod_beta)

lemma reg_inv_sync: "reg_inv slack s \<Longrightarrow> reg_inv slack (sync_window_states now s)"
  unfolding reg_inv_def held_def by (auto simp: dget_sync sync_window_ok)

lemma take_slot_ok: "window_ok w \<Longrightarrow> rw_count w < rw_max w \<Longrightarrow> window_ok (take_slot w) \<and> rw_count (take_slot w) = rw_count w + 1"
  by (auto simp: window_ok_def take_slot_def Let_def)

lemma closed_ok: "window_ok w \<Longrightarrow> window_ok (w\<lparr>rw_status := CLOSED\<rparr>)"
  by (simp add: window_ok_def)

lemma claim_for_window_inv:
  assumes "reg_inv slack s" and "claim_registration_slot_for_window now i s = (r, s')"
  shows "case r of
      Inr w \<Rightarrow> reg_inv (slack(i := slack i - 1)) s' \<and> (\<exists>w0. dget (rg_windows s) i = Some w0 \<and> rw_count w = rw_count w0 + 1)
    | Inl e \<Rightarrow> reg_inv slack s' \<and> e \<in> {WindowNotFound, WindowClosed, QuotaExceeded}"
proof -
  let ?s = "sync_window_states now s"
  note inv = reg_inv_sync [OF assms(1), of now]
  show ?thesis
  proof (cases "dget (rg_windows ?s) i")
    case None
    with assms(2) inv show ?thesis by (auto simp: claim_registration_slot_for_window_def Let_def)
  next
    case (Some w)
    have ok: "window_ok w" using inv Some by (simp add: reg_inv_def)
    obtain w0 where w0: "dget (rg_windows s) i = Some w0" "w = sync_window now w0"
      using Some by (auto simp: dget_sync)
    have "reg_inv slack (put_window i (w\<lparr>rw_status := CLOSED\<rparr>) ?s)"
      by (rule reg_inv_put_window [OF inv Some closed_ok [OF ok]]) simp_all
    moreover have "reg_inv (slack(i := slack i - 1)) (put_window i (take_slot w) ?s)" if "rw_count w < rw_max w"
      by (rule reg_inv_put_window [OF inv Some]) (use take_slot_ok [OF ok that] in simp_all)
    ultimately show ?thesis
      using assms(2) Some inv w0 take_slot_ok [OF ok]
      by (auto simp: claim_registration_slot_for_window_def Let_def split: if_splits)
  qed
qed

lemma claim_codes: "claim_registration_slot_for_window now i s = (r, s') \<Longrightarrow> rg_codes s' = rg_codes s"
  by (auto simp: claim_registration_slot_for_window_def Let_def put_window_def split: option.splits if_splits)

lemma earliest_in: "earliest xs = Some x \<Longrightarrow> x \<in> set xs"
  by (induction xs arbitrary: x) (auto split: option.splits if_splits)

lemma claim_slot_inv:
  assumes "reg_inv (\<lambda>_. 0) s" and "claim_registration_slot now s = (r, s')"
  shows "reg_inv (\<lambda>_. 0) s'"
proof -
  let ?s = "sync_window_states now s"
  note inv = reg_inv_sync [OF assms(1), of now]
  show ?thesis
  proof (cases "select_active_window now ?s")
    case None
    with assms(2) inv show ?thesis by (auto simp: claim_registration_slot_def Let_def)
  next
    case (Some e)
    obtain i w where e: "e = (i, w)" by (cases e)
    have "(i, w) \<in> set (rg_windows ?s)" using earliest_in [OF Some [unfolded select_active_window_def]] e by auto
    then have w: "dget (rg_windows ?s) i = Some w" using inv by (simp add: reg_inv_def dict_wf_get)
    then have ok: "window_ok w" using inv by (simp add: reg_inv_def)
    have "reg_inv (\<lambda>_. 0) (put_window i (w\<lparr>rw_status := CLOSED\<rparr>) ?s)"
      by (rule reg_inv_put_window [OF inv w closed_ok [OF ok]]) simp_all
    moreover have "reg_inv (\<lambda>_. 0) (put_window i (take_slot w) ?s)" if "rw_count w < rw_max w"
      by (rule reg_inv_put_window [OF inv w]) (use take_slot_ok [OF ok that] in simp_all)
    ultimately show ?thesis
      using assms(2) Some e by (auto simp: claim_registration_slot_def Let_def split: if_splits)
  qed
qed

lemma invite_reserve_inv:
  assumes "reg_inv (\<lambda>_. 0) s" and "invite_reserve now code s = (Some ic, s')"
  shows "reg_inv ((\<lambda>_. 0)(ic_window ic := 1)) s' \<and> dget (rg_codes s') code = Some ic \<and> ic_status ic = RESERVED"
proof -
  from assms(2) obtain ic0 where ic0: "dget (rg_codes s) code = Some ic0" "ic_status ic0 = UNUSED"
    "ic = ic0\<lparr>ic_status := RESERVED, ic_reserved_at := Some now\<rparr>" "s' = put_code code ic s"
    by (auto simp: invite_reserve_def Let_def split: option.splits if_splits)
  have "reg_inv ((\<lambda>_. 0)(ic_window ic := 1)) (put_code code ic s)"
    by (rule reg_inv_put_code [OF assms(1) ic0(1)]) (auto simp: ic0(2,3) holds_def)
  with ic0 show ?thesis by (simp add: put_code_def)
qed

text \<open>Giving a reserved code back, or revoking it, ends its hold.\<close>

lemma release_code_inv:
  assumes "reg_inv slack s" and "dget (rg_codes s) code = Some ic" and "ic_status ic = RESERVED"
    and "ic_status ic' \<in> {UNUSED, REVOKED}" and "ic_window ic' = ic_window ic"
  shows "reg_inv (slack(ic_window ic := slack (ic_window ic) - 1)) (put_code code ic' s)"
  by (rule reg_inv_put_code [OF assms(1,2,5)]) (use assms(3-5) in \<open>auto simp: holds_def\<close>)

lemma fun_upd_slack [simp]: "(\<lambda>_. 0)(i := (0 :: int)) = (\<lambda>_. 0)"
  by auto

lemma invite_consume_inv:
  assumes "reg_inv (\<lambda>_. 0) s" and "invite_consume now code s = (r, s')"
  shows "reg_inv (\<lambda>_. 0) s' \<and> (\<forall>win w. r = Inr (win, w) \<longrightarrow>
    (\<exists>ic. dget (rg_codes s') code = Some ic \<and> ic_status ic = RESERVED \<and> ic_window ic = win))"
proof (cases "fst (invite_reserve now code s)")
  case None
  then have "invite_reserve now code s = (None, s)"
    by (auto simp: invite_reserve_def Let_def split: option.splits if_splits)
  with assms show ?thesis by (auto simp: invite_consume_def)
next
  case (Some ic)
  then obtain s1 where res: "invite_reserve now code s = (Some ic, s1)" by (metis prod.collapse)
  let ?sl = "(\<lambda>_. 0 :: int)(ic_window ic := 1)"
  note inv1 = invite_reserve_inv [OF assms(1) res]
  show ?thesis
  proof (cases "case ic_expires_at ic of None \<Rightarrow> False | Some t \<Rightarrow> t < now")
    case True
    have "reg_inv (\<lambda>_. 0) (put_code code (ic\<lparr>ic_status := REVOKED\<rparr>) s1)"
      using release_code_inv [of ?sl s1 code ic "ic\<lparr>ic_status := REVOKED\<rparr>"] inv1 by simp
    with True assms(2) res inv1 show ?thesis
      by (auto simp: invite_consume_def invite_revoke_def Let_def)
  next
    case False
    obtain q s2 where claim: "claim_registration_slot_for_window now (ic_window ic) s1 = (q, s2)"
      by (cases "claim_registration_slot_for_window now (ic_window ic) s1")
    note c = claim_for_window_inv [OF conjunct1 [OF inv1] claim]
    have code: "dget (rg_codes s2) code = Some ic" using claim_codes [OF claim] inv1 by simp
    show ?thesis
    proof (cases q)
      case (Inl e)
      have "reg_inv (\<lambda>_. 0) (invite_rollback code s2)"
        using release_code_inv [of ?sl s2 code ic "ic\<lparr>ic_status := UNUSED, ic_reserved_at := None\<rparr>"] c Inl code inv1
        by (simp add: invite_rollback_def)
      with False assms(2) res claim Inl c show ?thesis by (auto simp: invite_consume_def)
    next
      case (Inr w)
      with False assms(2) res claim c code inv1 show ?thesis by (auto simp: invite_consume_def)
    qed
  qed
qed

lemma invite_mark_used_inv:
  assumes "reg_inv slack s"
  shows "reg_inv slack (snd (invite_mark_used now code user s))"
proof (cases "dget (rg_codes s) code")
  case (Some ic)
  show ?thesis
  proof (cases "ic_status ic = RESERVED")
    case True
    have "reg_inv slack (put_code code (ic\<lparr>ic_status := USED, ic_used_at := Some now, ic_used_by := Some user\<rparr>) s)"
      by (rule reg_inv_put_code [OF assms Some]) (use True in \<open>auto simp: holds_def\<close>)
    with Some True show ?thesis by (simp add: invite_mark_used_def Let_def)
  qed (use Some assms in \<open>simp add: invite_mark_used_def\<close>)
qed (use assms in \<open>simp add: invite_mark_used_def\<close>)

lemma invite_service_rollback_inv:
  assumes "reg_inv (\<lambda>_. 0) s" and "dget (rg_codes s) code = Some ic" and "ic_status ic = RESERVED"
  shows "reg_inv (\<lambda>_. 0) (invite_service_rollback now code (ic_window ic) s)"
proof -
  let ?i = "ic_window ic" and ?ic = "ic\<lparr>ic_status := UNUSED, ic_reserved_at := None\<rparr>"
  let ?s = "put_code code ?ic s"
  have free: "reg_inv ((\<lambda>_. 0)(?i := -1)) ?s" using release_code_inv [OF assms, of ?ic] by simp
  from assms(1,2) obtain w where w: "dget (rg_windows s) ?i = Some w" "window_ok w" "held ?i s \<le> rw_count w"
    unfolding reg_inv_def by fastforce
  have "(code, ic) \<in> set (filter (holds ?i) (rg_codes s))"
    using assms(2,3) by (auto simp: holds_def dest: map_of_SomeD)
  then have "0 < held ?i s" unfolding held_def by (cases "filter (holds ?i) (rg_codes s)") auto
  then have pos: "0 < rw_count w" using w(3) by simp
  have ws: "dget (rg_windows ?s) ?i = Some w" using w(1) by (simp add: put_code_def)
  have "reg_inv (\<lambda>_. 0) (rollback_registration_slot now ?i ?s)"
    using ws pos w(2) unfolding rollback_registration_slot_def
    by (auto simp: Let_def window_ok_def intro!: reg_inv_put_window [OF free ws])
  with assms(2,3) show ?thesis by (simp add: invite_service_rollback_def invite_rollback_def)
qed

lemma reg_inv_users [simp]: "reg_inv slack (s\<lparr>rg_users := us\<rparr>) \<longleftrightarrow> reg_inv slack s"
  by (simp add: reg_inv_def held_def)

lemma provision_inv:
  assumes "reg_inv (\<lambda>_. 0) s" and "provision_new_user control skip ok now email code s = (r, s')"
  shows "reg_inv (\<lambda>_. 0) s'"
proof (cases "control \<and> \<not> skip \<and> ensure_can_register control code = None")
  case False
  with assms show ?thesis by (auto simp: provision_new_user_def split: option.splits if_splits)
next
  case True
  then have on: "control" "\<not> skip" "ensure_can_register True code = None" by auto
  obtain q s1 where con: "invite_consume now (the code) s = (q, s1)" by (cases "invite_consume now (the code) s")
  note inv = invite_consume_inv [OF assms(1) con]
  show ?thesis
  proof (cases q)
    case (Inl e)
    with on assms(2) con inv show ?thesis by (simp add: provision_new_user_def)
  next
    case (Inr x)
    obtain win w where x: "x = (win, w)" by (cases x)
    with inv Inr obtain ic where "dget (rg_codes s1) (the code) = Some ic" "ic_status ic = RESERVED" "ic_window ic = win"
      by auto
    with invite_service_rollback_inv [of s1 "the code" ic now] inv
    have "reg_inv (\<lambda>_. 0) (invite_service_rollback now (the code) win s1)" by simp
    with on assms(2) con inv Inr x invite_mark_used_inv show ?thesis
      by (auto simp: provision_new_user_def split: if_splits)
  qed
qed

subsection \<open>Reachable states\<close>

text \<open>The operations the routes offer; a new window has a fresh id and a code refers to an existing window.\<close>

inductive reg_step :: "reg_state \<Rightarrow> reg_state \<Rightarrow> bool" where
  create: "dget (rg_windows s) i = None \<Longrightarrow> create_registration_window now i a b cap auto s = (r, s') \<Longrightarrow> reg_step s s'"
| issue: "dget (rg_windows s) win \<noteq> None \<Longrightarrow> bulk_create win prefix expires note bodies s = (r, s') \<Longrightarrow> reg_step s s'"
| activate: "activate_window_by_id now i s = (w, s') \<Longrightarrow> reg_step s s'"
| close: "close_window_by_id i s = (w, s') \<Longrightarrow> reg_step s s'"
| view: "get_active_registration_window now s = (w, s') \<Longrightarrow> reg_step s s'"
| revoke: "invite_revoke code s = (ic, s') \<Longrightarrow> reg_step s s'"
| claim: "claim_registration_slot now s = (r', s') \<Longrightarrow> reg_step s s'"
| provision: "provision_new_user control skip ok now email code' s = (u, s') \<Longrightarrow> reg_step s s'"

inductive reg_reachable :: "reg_state \<Rightarrow> bool" where
  start: "reg_reachable \<lparr>rg_windows = [], rg_codes = [], rg_users = []\<rparr>"
| step: "reg_reachable s \<Longrightarrow> reg_step s s' \<Longrightarrow> reg_reachable s'"

lemma held_fresh_window:
  assumes "reg_inv slack s" and "dget (rg_windows s) i = None"
  shows "held i s = 0"
proof -
  have "\<not> holds i (c, ic)" if "(c, ic) \<in> set (rg_codes s)" for c ic
  proof -
    have "dget (rg_codes s) c = Some ic" using assms(1) that by (simp add: reg_inv_def dict_wf_get)
    then have "dget (rg_windows s) (ic_window ic) \<noteq> None" using assms(1) unfolding reg_inv_def by blast
    with assms(2) show ?thesis by (auto simp: holds_def)
  qed
  then show ?thesis unfolding held_def by (auto simp: filter_empty_conv)
qed

lemma create_window_inv:
  assumes "reg_inv (\<lambda>_. 0) s" and "dget (rg_windows s) i = None"
    and "create_registration_window now i a b cap auto s = (r, s')"
  shows "reg_inv (\<lambda>_. 0) s'"
proof (cases "cap \<le> 0 \<or> b \<le> a")
  case True
  with assms show ?thesis by (auto simp: create_registration_window_def split: if_splits)
next
  case False
  with assms(3) obtain w where w: "s' = put_window i w s" "window_ok w" "rw_count w = 0"
    by (auto simp: create_registration_window_def Let_def window_ok_def)
  have "held j s' = held j s" for j by (simp add: w(1) held_def put_window_def)
  with assms(1) w held_fresh_window [OF assms(1,2)] show ?thesis
    by (auto simp: reg_inv_def put_window_def split: if_splits)
qed

lemma bulk_create_inv:
  assumes "reg_inv (\<lambda>_. 0) s" and "dget (rg_windows s) win \<noteq> None"
    and "bulk_create win prefix expires note bodies s = (r, s')"
  shows "reg_inv (\<lambda>_. 0) s'"
proof (cases "s' = s")
  case False
  define codes where "codes = map (\<lambda>b. if str_truthy prefix then the prefix @ b else b) bodies"
  define ic where "ic = \<lparr>ic_window = win, ic_status = UNUSED, ic_expires_at = expires, ic_reserved_at = None,
    ic_used_at = None, ic_used_by = None, ic_note = note\<rparr>"
  have codes: "distinct codes" "\<forall>c \<in> set codes. dget (rg_codes s) c = None"
    "s' = s\<lparr>rg_codes := rg_codes s @ map (\<lambda>c. (c, ic)) codes\<rparr>" "ic_window ic = win" "ic_status ic = UNUSED"
    using assms(3) False
    by (simp_all only: bulk_create_def Let_def codes_def [symmetric] ic_def [symmetric] split: if_splits)
       (simp_all add: ic_def)
  have "held j s' = held j s" for j
    using codes(3,5) by (auto simp: held_def holds_def filter_empty_conv)
  moreover have "dict_wf (rg_codes s')"
    using assms(1) codes(1-3) by (auto simp: reg_inv_def dict_wf_def o_def dget_None_iff)
  moreover have "dget (rg_windows s') (ic_window x) \<noteq> None" if "dget (rg_codes s') c = Some x" for c x
  proof -
    have "x = ic \<or> dget (rg_codes s) c = Some x"
      using that codes(3) by (auto simp: map_add_def split: option.splits dest: map_of_SomeD)
    with assms(1,2) codes(3,4) show ?thesis by (auto simp: reg_inv_def)
  qed
  ultimately show ?thesis using assms(1) codes(3) by (auto simp: reg_inv_def)
qed (use assms in simp)

lemma activate_inv:
  assumes "reg_inv (\<lambda>_. 0) s" and "activate_window_by_id now i s = (r, s')"
  shows "reg_inv (\<lambda>_. 0) s'"
proof (cases "dget (rg_windows s) i")
  case (Some w)
  then have ok: "window_ok w" using assms(1) by (simp add: reg_inv_def)
  have "reg_inv (\<lambda>_. 0) (put_window i w' s)" if "window_ok w'" "rw_count w' = rw_count w" for w'
    by (rule reg_inv_put_window [OF assms(1) Some that(1)]) (simp_all add: that)
  with assms Some ok show ?thesis
    by (auto simp: activate_window_by_id_def Let_def window_ok_def split: if_splits)
qed (use assms in \<open>auto simp: activate_window_by_id_def\<close>)

lemma close_inv:
  assumes "reg_inv (\<lambda>_. 0) s" and "close_window_by_id i s = (r, s')"
  shows "reg_inv (\<lambda>_. 0) s'"
proof (cases "dget (rg_windows s) i")
  case (Some w)
  then have ok: "window_ok w" using assms(1) by (simp add: reg_inv_def)
  have "reg_inv (\<lambda>_. 0) (put_window i (w\<lparr>rw_status := CLOSED\<rparr>) s)"
    by (rule reg_inv_put_window [OF assms(1) Some closed_ok [OF ok]]) simp_all
  with assms Some show ?thesis by (auto simp: close_window_by_id_def Let_def split: if_splits)
qed (use assms in \<open>auto simp: close_window_by_id_def\<close>)

lemma revoke_inv:
  assumes "reg_inv (\<lambda>_. 0) s" and "invite_revoke code s = (r, s')"
  shows "reg_inv (\<lambda>_. 0) s'"
proof (cases "dget (rg_codes s) code")
  case (Some ic)
  have "reg_inv (\<lambda>_. 0) (put_code code (ic\<lparr>ic_status := REVOKED\<rparr>) s)"
    by (rule reg_inv_put_code [OF assms(1) Some]) (auto simp: holds_def)
  with assms Some show ?thesis by (auto simp: invite_revoke_def Let_def split: if_splits)
qed (use assms in \<open>auto simp: invite_revoke_def\<close>)

lemma reg_step_inv: "reg_step s s' \<Longrightarrow> reg_inv (\<lambda>_. 0) s \<Longrightarrow> reg_inv (\<lambda>_. 0) s'"
proof (induction rule: reg_step.induct)
  case (view now s w s')
  then show ?case by (auto simp: get_active_registration_window_def Let_def reg_inv_sync)
qed (auto dest: create_window_inv bulk_create_inv activate_inv close_inv revoke_inv claim_slot_inv provision_inv)

lemma reg_inv_start: "reg_inv (\<lambda>_. 0) \<lparr>rg_windows = [], rg_codes = [], rg_users = []\<rparr>"
  by (simp add: reg_inv_def)

lemma reg_reachable_inv: "reg_reachable s \<Longrightarrow> reg_inv (\<lambda>_. 0) s"
  by (induction rule: reg_reachable.induct) (auto simp: reg_inv_start dest: reg_step_inv)

subsection \<open>Properties\<close>


text \<open>
  Closing a window does not last: rolling back a registration that was under way reopens a window an
  administrator has closed in the meantime, while its period lasts.
\<close>

lemma rollback_reopens_closed_window:
  assumes "dget (rg_windows s) i = Some w" and "window_ok w" and "0 < rw_count w" and "rw_start w \<le> now" and "now \<le> rw_end w"
  shows "\<exists>w'. dget (rg_windows (rollback_registration_slot now i (snd (close_window_by_id i s)))) i = Some w' \<and>
    rw_status w' = ACTIVE"
  using assms
  by (auto simp: close_window_by_id_def rollback_registration_slot_def put_window_def window_ok_def Let_def)

subsection \<open>Concurrent claims\<close>

text \<open>
  A claim reads its window, checks it and writes back the counter it computed. With another session's
  write in between, that write is lost.
\<close>

definition claim_read :: "rat \<Rightarrow> string \<Rightarrow> reg_state \<Rightarrow> registration_window option" where
  "claim_read now i s =
     (case dget (rg_windows (sync_window_states now s)) i of
        Some w \<Rightarrow> if selectable now w then Some w else None
      | None \<Rightarrow> None)"

definition claim_write :: "string \<Rightarrow> registration_window \<Rightarrow> reg_state \<Rightarrow> reg_state" where
  "claim_write i w s = put_window i (take_slot w) s"

lemma claim_splits:
  assumes "claim_read now i s = Some w"
  shows "claim_registration_slot_for_window now i s = (Inr (take_slot w), claim_write i w (sync_window_states now s))"
  using assms
  by (auto simp: claim_read_def claim_write_def selectable_def claim_registration_slot_for_window_def Let_def
      split: option.splits if_splits)

text \<open>Two sessions that read before either writes both get the last place, and the counter shows one.\<close>

lemma concurrent_claims_oversubscribe:
  assumes "claim_read now i s = Some w" and "rw_max w = rw_count w + 1"
  shows "\<exists>w'. dget (rg_windows (claim_write i w (claim_write i w (sync_window_states now s)))) i = Some w' \<and>
    rw_count w' = rw_max w' \<and> rw_count w' = rw_count w + 1"
  using assms(2) by (auto simp: claim_write_def put_window_def take_slot_def Let_def)

subsection \<open>Witnesses\<close>

definition demo_reg :: reg_state where
  "demo_reg = snd (provision_new_user True False True 5 ''u@x'' (Some ''CODE'')
     (snd (bulk_create ''w'' None None None [''CODE'', ''MORE'']
       (snd (create_registration_window 1 ''w'' 0 10 2 True \<lparr>rg_windows = [], rg_codes = [], rg_users = []\<rparr>)))))"


end
