(* ===== verification/Auth_Service.thy ===== *)
theory Auth_Service
  imports Api_Keys Registration
begin

section \<open>Sessions, tokens and login\<close>

text \<open>
  src/app/services/users/auth_service.py (\<open>AuthService\<close>), src/app/services/users/login_session_service.py and
  src/app/repositories/login_session_repository.py (login sessions), the token functions of
  src/app/utils/security.py and the access check of src/app/deps/auth.py. A token is its payload; the
  signature of a JWT is the business of a library, so decoding is the argument \<open>dec\<close>, which gives the
  payload of a token text that verifies at the given time. The \<open>sub\<close> of a payload is the text of a UUID,
  another text, or missing. Identifiers that the code draws at random (token ids, session keys, codes,
  row ids) are arguments. \<open>au_cache\<close> holds the Redis keys of the component.
\<close>

datatype subject = Uuid string | OtherText string | NoSub

datatype token_type = ACCESS_TOKEN | REFRESH_TOKEN | OTHER_TOKEN

record token_payload =
  tp_sub :: subject
  tp_jti :: "string option"
  tp_sid :: "string option"
  tp_type :: token_type
  tp_version :: "int option"
  tp_exp :: rat
  tp_iat :: rat

record auth_user =
  u_email :: string
  u_active :: bool
  u_version :: int
  u_super :: bool

record login_session =
  ls_id :: string
  ls_user :: string
  ls_access_jti :: string
  ls_refresh_jti :: string
  ls_ip :: "string option"
  ls_agent :: "string option"
  ls_device_type :: "string option"
  ls_device_name :: "string option"
  ls_last_active :: rat
  ls_revoked_at :: "rat option"

record auth_config =
  cf_grace :: int
  cf_access_minutes :: int
  cf_refresh_days :: int
  cf_login_attempts :: int
  cf_login_window :: int
  cf_code_ttl :: int
  cf_code_attempts :: int
  cf_control :: bool
  cf_dev :: bool

definition default_auth_config :: auth_config where
  "default_auth_config = \<lparr>cf_grace = 5, cf_access_minutes = 30, cf_refresh_days = 7, cf_login_attempts = 5,
     cf_login_window = 600, cf_code_ttl = 600, cf_code_attempts = 3, cf_control = False, cf_dev = False\<rparr>"

record auth_state =
  au_cache :: "pyval cache_state"
  au_users :: "(string, auth_user) dict"
  au_identities :: "(string \<times> string, string) dict"
  au_sessions :: "(string, login_session) dict"
  au_reg :: reg_state
  au_keys :: key_state

datatype auth_error = AuthHTTP int string | AuthUncaught string | AuthReg reg_error

definition with_cache :: "(pyval cache_state \<Rightarrow> pyval cache_state) \<Rightarrow> auth_state \<Rightarrow> auth_state" where
  "with_cache f s = s\<lparr>au_cache := f (au_cache s)\<rparr>"

definition aget :: "rat \<Rightarrow> string \<Rightarrow> auth_state \<Rightarrow> pyval" where
  "aget now k s = py_cache_get now k (au_cache s)"

definition aset :: "rat \<Rightarrow> string \<Rightarrow> pyval \<Rightarrow> int \<Rightarrow> auth_state \<Rightarrow> auth_state" where
  "aset now k v ttl s = with_cache (cache_put now k v ttl) s"

definition adel :: "string \<Rightarrow> auth_state \<Rightarrow> auth_state" where
  "adel k s = with_cache (cache_delete k) s"

subsection \<open>Devices\<close>

definition search_ci :: "string \<Rightarrow> string \<Rightarrow> bool" where
  "search_ci p ua = str_contains (str_lower ua) (str_lower p)"

definition line_of :: "string \<Rightarrow> string" where
  "line_of s = takeWhile (\<lambda>c. c \<noteq> CHR 0x0A) s"

text \<open>A literal that is not followed by another literal on the same line.\<close>

definition not_followed :: "string \<Rightarrow> string \<Rightarrow> string \<Rightarrow> bool" where
  "not_followed p q s = list_ex (\<lambda>t. starts_with t p \<and> \<not> str_contains (line_of (drop (length p) t)) q) (tails s)"

definition is_version_char :: "char \<Rightarrow> bool" where
  "is_version_char c = (let n = of_char c :: nat in 48 \<le> n \<and> n \<le> 57 \<or> n = 46)"

definition versioned :: "string \<Rightarrow> string \<Rightarrow> bool" where
  "versioned p t = (starts_with t p \<and> (case drop (length p) t of [] \<Rightarrow> False | c # _ \<Rightarrow> is_version_char c))"

definition search_versioned :: "string \<Rightarrow> string \<Rightarrow> bool" where
  "search_versioned p ua = list_ex (versioned p) (tails ua)"

definition parse_device_type :: "string \<Rightarrow> string" where
  "parse_device_type ua =
     (if search_ci ''iPad'' ua \<or> not_followed ''android'' ''mobile'' (str_lower ua) \<or> search_ci ''Tablet'' ua then ''tablet''
      else if list_ex (\<lambda>p. search_ci p ua) [''Mobile'', ''Android'', ''iPhone'', ''iPad'', ''iPod''] then ''mobile''
      else ''desktop'')"

definition parse_browser :: "string \<Rightarrow> string" where
  "parse_browser ua =
     (if list_ex (\<lambda>p. search_versioned p ua) [''Edg/'', ''Edge/'', ''EdgA/'', ''EdgiOS/''] then ''Edge''
      else if search_versioned ''Chrome/'' ua then ''Chrome''
      else if search_versioned ''Firefox/'' ua then ''Firefox''
      else if list_ex (\<lambda>t. versioned ''Version/'' t \<and> str_contains (line_of (drop 9 t)) ''Safari'') (tails ua) then ''Safari''
      else if search_versioned ''OPR/'' ua then ''Opera''
      else ''Unknown Browser'')"

definition parse_os :: "string \<Rightarrow> string" where
  "parse_os ua =
     (if str_contains ua ''Windows NT'' then ''Windows''
      else if str_contains ua ''Mac OS X'' then ''macOS''
      else if not_followed ''Linux'' ''Android'' ua then ''Linux''
      else if str_contains ua ''Android'' then ''Android''
      else if str_contains ua ''iPhone'' \<or> str_contains ua ''iPad'' \<or> str_contains ua ''iPod'' then ''iOS''
      else ''Unknown OS'')"

definition parse_device_name :: "string \<Rightarrow> string" where
  "parse_device_name ua = parse_browser ua @ '' on '' @ parse_os ua"

subsection \<open>Login sessions\<close>

record client_info =
  ci_ip :: "string option"
  ci_agent :: "string option"
  ci_device_type :: "string option"
  ci_device_name :: "string option"

definition str_or :: "string option \<Rightarrow> string option \<Rightarrow> string option" where
  "str_or a b = (if str_truthy a then a else b)"

definition create_session :: "rat \<Rightarrow> string \<Rightarrow> string \<Rightarrow> string \<Rightarrow> string \<Rightarrow> string \<Rightarrow> client_info \<Rightarrow> auth_state \<Rightarrow> auth_state" where
  "create_session now i key user ajti rjti ci s =
     (let ua = (if str_truthy (ci_agent ci) then ci_agent ci else None)
      in s\<lparr>au_sessions := dput key \<lparr>ls_id = i, ls_user = user, ls_access_jti = ajti, ls_refresh_jti = rjti,
           ls_ip = ci_ip ci, ls_agent = ci_agent ci,
           ls_device_type = str_or (ci_device_type ci) (map_option parse_device_type ua),
           ls_device_name = str_or (ci_device_name ci) (map_option parse_device_name ua),
           ls_last_active = now, ls_revoked_at = None\<rparr> (au_sessions s)\<rparr>)"

definition get_active_by_key :: "string \<Rightarrow> auth_state \<Rightarrow> login_session option" where
  "get_active_by_key key s =
     (case dget (au_sessions s) key of None \<Rightarrow> None | Some r \<Rightarrow> if ls_revoked_at r = None then Some r else None)"

text \<open>Most recently active first.\<close>

definition list_active_by_user :: "string \<Rightarrow> auth_state \<Rightarrow> (string \<times> login_session) list" where
  "list_active_by_user user s =
     sort_key (\<lambda>(_, r). - ls_last_active r)
       (filter (\<lambda>(_, r). ls_user r = user \<and> ls_revoked_at r = None) (au_sessions s))"

definition put_session :: "string \<Rightarrow> login_session \<Rightarrow> auth_state \<Rightarrow> auth_state" where
  "put_session key r s = s\<lparr>au_sessions := dput key r (au_sessions s)\<rparr>"

definition rotate_session_tokens :: "rat \<Rightarrow> string \<Rightarrow> string \<Rightarrow> string \<Rightarrow> auth_state \<Rightarrow> auth_state" where
  "rotate_session_tokens now key ajti rjti s =
     (case get_active_by_key key s of
        None \<Rightarrow> s
      | Some r \<Rightarrow> put_session key (r\<lparr>ls_access_jti := ajti, ls_refresh_jti := rjti, ls_last_active := now\<rparr>) s)"

definition session_by_id :: "string \<Rightarrow> string \<Rightarrow> auth_state \<Rightarrow> (string \<times> login_session) option" where
  "session_by_id user i s = find (\<lambda>(_, r). ls_id r = i \<and> ls_user r = user) (au_sessions s)"

definition revoke_session :: "rat \<Rightarrow> string \<Rightarrow> string \<Rightarrow> auth_state \<Rightarrow> (string \<times> login_session) option \<times> auth_state" where
  "revoke_session now user i s =
     (case session_by_id user i s of
        Some (key, r) \<Rightarrow>
          if ls_revoked_at r = None
          then let r1 = r\<lparr>ls_revoked_at := Some now\<rparr> in (Some (key, r1), put_session key r1 s)
          else (None, s)
      | None \<Rightarrow> (None, s))"

definition revoke_by_session_key :: "rat \<Rightarrow> string \<Rightarrow> string \<Rightarrow> auth_state \<Rightarrow> (string \<times> login_session) option \<times> auth_state" where
  "revoke_by_session_key now user key s =
     (case get_active_by_key key s of
        Some r \<Rightarrow>
          if ls_user r = user
          then let r1 = r\<lparr>ls_revoked_at := Some now\<rparr> in (Some (key, r1), put_session key r1 s)
          else (None, s)
      | None \<Rightarrow> (None, s))"

definition touch_session :: "rat \<Rightarrow> string \<Rightarrow> auth_state \<Rightarrow> auth_state" where
  "touch_session now key s =
     (case get_active_by_key key s of None \<Rightarrow> s | Some r \<Rightarrow> put_session key (r\<lparr>ls_last_active := now\<rparr>) s)"

definition revoke_all_other_sessions :: "rat \<Rightarrow> string \<Rightarrow> string \<Rightarrow> auth_state \<Rightarrow> int \<times> auth_state" where
  "revoke_all_other_sessions now user current s =
     (let hit = (\<lambda>key r. ls_user r = user \<and> key \<noteq> current \<and> ls_revoked_at r = None)
      in (int (length (filter (\<lambda>(key, r). hit key r) (au_sessions s))),
          s\<lparr>au_sessions := map (\<lambda>(key, r). (key, if hit key r then r\<lparr>ls_revoked_at := Some now\<rparr> else r)) (au_sessions s)\<rparr>))"

subsection \<open>Tokens\<close>

definition create_access_token :: "auth_config \<Rightarrow> rat \<Rightarrow> string \<Rightarrow> string \<Rightarrow> int \<Rightarrow> string \<Rightarrow> token_payload" where
  "create_access_token cf now user jti version sid =
     \<lparr>tp_sub = Uuid user, tp_jti = Some jti, tp_sid = Some sid, tp_type = ACCESS_TOKEN, tp_version = Some version,
      tp_exp = now + of_int (cf_access_minutes cf) * 60, tp_iat = now\<rparr>"

definition create_refresh_token :: "auth_config \<Rightarrow> rat \<Rightarrow> string \<Rightarrow> string \<Rightarrow> int \<Rightarrow> string \<Rightarrow> token_payload" where
  "create_refresh_token cf now user jti version sid =
     \<lparr>tp_sub = Uuid user, tp_jti = Some jti, tp_sid = Some sid, tp_type = REFRESH_TOKEN, tp_version = Some version,
      tp_exp = now + of_int (cf_refresh_days cf) * 86400, tp_iat = now\<rparr>"

definition refresh_key :: "string \<Rightarrow> string" where
  "refresh_key jti = ''auth:refresh:'' @ jti"

definition token_blacklist_key :: "string \<Rightarrow> string" where
  "token_blacklist_key jti = ''gw:auth:access:'' @ jti"

definition ban_key :: "string \<Rightarrow> string" where
  "ban_key user = ''auth:ban:'' @ user"

definition refresh_entry :: "string \<Rightarrow> int \<Rightarrow> string \<Rightarrow> (string, pyval) dict" where
  "refresh_entry user version sid =
     [(''user_id'', PStr user), (''version'', PInt version), (''session_key'', PStr sid), (''used'', PBool False)]"

definition create_tokens :: "auth_config \<Rightarrow> rat \<Rightarrow> string \<Rightarrow> string \<Rightarrow> string \<Rightarrow> auth_user \<Rightarrow> string \<Rightarrow> auth_state \<Rightarrow>
    (token_payload \<times> token_payload) \<times> auth_state" where
  "create_tokens cf now ajti rjti user u sid s =
     ((create_access_token cf now user ajti (u_version u) sid, create_refresh_token cf now user rjti (u_version u) sid),
      aset now (refresh_key rjti) (PDict (refresh_entry user (u_version u) sid)) (cf_refresh_days cf * 24 * 3600) s)"

definition create_session_tokens :: "auth_config \<Rightarrow> rat \<Rightarrow> string \<Rightarrow> string \<Rightarrow> string \<Rightarrow> string \<Rightarrow> string \<Rightarrow> auth_user \<Rightarrow>
    client_info \<Rightarrow> auth_state \<Rightarrow> (token_payload \<times> token_payload) \<times> auth_state" where
  "create_session_tokens cf now i sid ajti rjti user u ci s =
     (case create_tokens cf now ajti rjti user u sid s of
        (ts, s1) \<Rightarrow> (ts, create_session now i sid user ajti rjti ci s1))"

text \<open>The stored time of use is a number.\<close>

definition is_refresh_reuse_within_grace :: "auth_config \<Rightarrow> rat \<Rightarrow> (string, pyval) dict \<Rightarrow> bool" where
  "is_refresh_reuse_within_grace cf now d =
     (let inside = (\<lambda>used. let grace = max 0 (cf_grace cf) in 0 < grace \<and> now - used \<le> of_int grace)
      in case py_get d ''used_at_ts'' PNone of
           PInt i \<Rightarrow> inside (of_int i)
         | PFloat r \<Rightarrow> inside r
         | _ \<Rightarrow> False)"

definition blacklist_access_token :: "auth_config \<Rightarrow> rat \<Rightarrow> string option \<Rightarrow> auth_state \<Rightarrow> auth_state" where
  "blacklist_access_token cf now jti s =
     (if str_truthy jti
      then aset now (token_blacklist_key (the jti)) (PDict [(''revoked'', PBool True)]) (cf_access_minutes cf * 60) s
      else s)"

definition delete_refresh_token :: "string option \<Rightarrow> auth_state \<Rightarrow> auth_state" where
  "delete_refresh_token jti s = (if str_truthy jti then adel (refresh_key (the jti)) s else s)"

definition invalidate_login_session :: "auth_config \<Rightarrow> rat \<Rightarrow> string option \<Rightarrow> string \<times> login_session \<Rightarrow> auth_state \<Rightarrow> auth_state" where
  "invalidate_login_session cf now access_jti x s =
     (case x of (key, r) \<Rightarrow>
        let r1 = (if ls_revoked_at r = None then r\<lparr>ls_revoked_at := Some now\<rparr> else r);
            s1 = put_session key r1 s;
            s2 = blacklist_access_token cf now (Some (ls_access_jti r)) (delete_refresh_token (Some (ls_refresh_jti r)) s1)
        in if str_truthy access_jti \<and> access_jti \<noteq> Some (ls_access_jti r)
           then blacklist_access_token cf now access_jti s2 else s2)"

definition increment_token_version :: "string \<Rightarrow> auth_state \<Rightarrow> auth_state" where
  "increment_token_version user s =
     (case dget (au_users s) user of
        None \<Rightarrow> s
      | Some u \<Rightarrow> s\<lparr>au_users := dput user (u\<lparr>u_version := u_version u + 1\<rparr>) (au_users s)\<rparr>)"

definition revoke_all_tokens :: "auth_config \<Rightarrow> rat \<Rightarrow> string \<Rightarrow> auth_state \<Rightarrow> auth_state" where
  "revoke_all_tokens cf now user s =
     increment_token_version user
       (fold (invalidate_login_session cf now None) (list_active_by_user user s) s)"

definition mark_refresh_used :: "rat \<Rightarrow> string \<Rightarrow> (string, pyval) dict \<Rightarrow> auth_state \<Rightarrow> auth_state" where
  "mark_refresh_used now jti d s =
     aset now (refresh_key jti) (PDict (dput ''used_at_ts'' (PInt \<lfloor>now\<rfloor>) (dput ''used'' (PBool True) d))) 60 s"

text \<open>
  \<open>refresh_tokens\<close>: \<open>ajti\<close> and \<open>rjti\<close> are the new token ids. The old token is marked used before the user is
  looked up.
\<close>

definition refresh_tokens :: "auth_config \<Rightarrow> ('t \<Rightarrow> token_payload option) \<Rightarrow> rat \<Rightarrow> string \<Rightarrow> string \<Rightarrow> 't \<Rightarrow> auth_state \<Rightarrow>
    (auth_error + token_payload \<times> token_payload) \<times> auth_state" where
  "refresh_tokens cf dec now ajti rjti tok s =
     (case dec tok of
        None \<Rightarrow> (Inl (AuthHTTP 401 ''Invalid refresh token''), s)
      | Some p \<Rightarrow>
          if tp_type p \<noteq> REFRESH_TOKEN then (Inl (AuthHTTP 401 ''Invalid token type''), s)
          else (case tp_sub p of
            OtherText _ \<Rightarrow> (Inl (AuthUncaught ''ValueError''), s)
          | NoSub \<Rightarrow> (Inl (AuthUncaught ''TypeError''), s)
          | Uuid user \<Rightarrow>
              if \<not> str_truthy (tp_jti p) \<or> \<not> str_truthy (tp_sid p) then (Inl (AuthHTTP 401 ''Invalid token payload''), s)
              else
                let jti = the (tp_jti p); sid = the (tp_sid p);
                    version = (case tp_version p of None \<Rightarrow> 0 | Some v \<Rightarrow> v);
                    d = as_dict (aget now (refresh_key jti) s)
                in if \<not> truthy (aget now (refresh_key jti) s)
                   then (Inl (AuthHTTP 401 ''Refresh token expired or invalid''), s)
                   else if truthy (py_get d ''used'' PNone)
                   then (if is_refresh_reuse_within_grace cf now d
                         then (Inl (AuthHTTP 401 ''Refresh token reuse detected, retry with latest token''), s)
                         else (Inl (AuthHTTP 401 ''Token reuse detected, all sessions invalidated''),
                               revoke_all_tokens cf now user s))
                   else
                     (case get_active_by_key sid s of
                        None \<Rightarrow> (Inl (AuthHTTP 401 ''Refresh token expired or invalid''), s)
                      | Some r \<Rightarrow>
                          if ls_user r \<noteq> user \<or> ls_refresh_jti r \<noteq> jti
                          then (Inl (AuthHTTP 401 ''Refresh token expired or invalid''), s)
                          else
                            let s1 = mark_refresh_used now jti d s
                            in (case dget (au_users s1) user of
                                  None \<Rightarrow> (Inl (AuthHTTP 401 ''User not found or inactive''), s1)
                                | Some u \<Rightarrow>
                                    if \<not> u_active u then (Inl (AuthHTTP 401 ''User not found or inactive''), s1)
                                    else if truthy (aget now (ban_key user) s1) then (Inl (AuthHTTP 423 ''Account is banned''), s1)
                                    else if u_version u \<noteq> version
                                    then (Inl (AuthHTTP 401 ''Token version mismatch, please login again''), s1)
                                    else (case create_tokens cf now ajti rjti user u sid s1 of
                                            (ts, s2) \<Rightarrow> (Inr ts, rotate_session_tokens now sid ajti rjti s2))))))"

definition logout :: "auth_config \<Rightarrow> rat \<Rightarrow> string option \<Rightarrow> string option \<Rightarrow> auth_state \<Rightarrow> auth_state" where
  "logout cf now access_jti refresh_jti s = delete_refresh_token refresh_jti (blacklist_access_token cf now access_jti s)"

definition extract_token_identity :: "('t \<Rightarrow> token_payload option) \<Rightarrow> 't option \<Rightarrow> string option \<times> string option" where
  "extract_token_identity dec tok =
     (case tok of
        None \<Rightarrow> (None, None)
      | Some t \<Rightarrow> (case dec t of None \<Rightarrow> (None, None) | Some p \<Rightarrow> (tp_jti p, tp_sid p)))"

definition logout_with_tokens :: "auth_config \<Rightarrow> ('t \<Rightarrow> token_payload option) \<Rightarrow> rat \<Rightarrow> string \<Rightarrow> 't option \<Rightarrow> 't option \<Rightarrow>
    auth_state \<Rightarrow> auth_state" where
  "logout_with_tokens cf dec now user access refresh s =
     (case extract_token_identity dec access of (ajti, asid) \<Rightarrow>
      case extract_token_identity dec refresh of (rjti, rsid) \<Rightarrow>
        let sid = str_or asid rsid;
            s1 = (if str_truthy ajti then logout cf now ajti rjti s else s)
        in if \<not> str_truthy sid then s1
           else (case revoke_by_session_key now user (the sid) s1 of
                   (None, s2) \<Rightarrow> s2
                 | (Some x, s2) \<Rightarrow> invalidate_login_session cf now ajti x s2))"

definition revoke_login_session :: "auth_config \<Rightarrow> rat \<Rightarrow> string \<Rightarrow> string \<Rightarrow> auth_state \<Rightarrow> bool \<times> auth_state" where
  "revoke_login_session cf now user i s =
     (case revoke_session now user i s of
        (None, s1) \<Rightarrow> (False, s1)
      | (Some x, s1) \<Rightarrow> (True, invalidate_login_session cf now None x s1))"

definition is_token_blacklisted :: "rat \<Rightarrow> string \<Rightarrow> auth_state \<Rightarrow> bool" where
  "is_token_blacklisted now jti s \<longleftrightarrow> aget now (token_blacklist_key jti) s \<noteq> PNone"

subsection \<open>Access\<close>

definition get_user_from_jwt :: "('t \<Rightarrow> token_payload option) \<Rightarrow> rat \<Rightarrow> 't \<Rightarrow> auth_state \<Rightarrow> auth_error + string \<times> auth_user" where
  "get_user_from_jwt dec now tok s =
     (case dec tok of
        None \<Rightarrow> Inl (AuthHTTP 401 ''Invalid token'')
      | Some p \<Rightarrow>
          if tp_type p \<noteq> ACCESS_TOKEN then Inl (AuthHTTP 401 ''Invalid token type'')
          else if \<not> str_truthy (tp_jti p) \<or> tp_sub p = NoSub \<or> tp_sub p = OtherText [] \<or> \<not> str_truthy (tp_sid p)
          then Inl (AuthHTTP 401 ''Invalid token payload'')
          else if truthy (aget now (token_blacklist_key (the (tp_jti p))) s) then Inl (AuthHTTP 401 ''Token has been revoked'')
          else (case tp_sub p of
                  Uuid user \<Rightarrow>
                    (case dget (au_users s) user of
                       None \<Rightarrow> Inl (AuthHTTP 401 ''User not found'')
                     | Some u \<Rightarrow>
                         if tp_version p \<noteq> None \<and> tp_version p \<noteq> Some (u_version u)
                         then Inl (AuthHTTP 401 ''Token has expired, please login again'')
                         else if tp_version p = None \<and> 0 < u_version u
                         then Inl (AuthHTTP 401 ''Token has expired, please login again'')
                         else if truthy (aget now (ban_key user) s) then Inl (AuthHTTP 403 ''Account is banned'')
                         else (case get_active_by_key (the (tp_sid p)) s of
                                 None \<Rightarrow> Inl (AuthHTTP 401 ''Login session has been revoked'')
                               | Some r \<Rightarrow> if ls_user r \<noteq> user then Inl (AuthHTTP 401 ''Login session has been revoked'')
                                           else Inr (user, u)))
                | _ \<Rightarrow> Inl (AuthHTTP 401 ''Invalid user id in token'')))"

definition get_current_user :: "(string \<Rightarrow> token_payload option) \<Rightarrow> rat \<Rightarrow> string option \<Rightarrow> auth_state \<Rightarrow> auth_error + string \<times> auth_user" where
  "get_current_user dec now authorization s =
     (if str_truthy authorization \<and> starts_with (the authorization) ''Bearer ''
      then get_user_from_jwt dec now (drop 7 (the authorization)) s
      else Inl (AuthHTTP 401 ''Missing authentication credentials''))"

definition get_current_active_user :: "(string \<Rightarrow> token_payload option) \<Rightarrow> rat \<Rightarrow> string option \<Rightarrow> auth_state \<Rightarrow> auth_error + string \<times> auth_user" where
  "get_current_active_user dec now authorization s =
     bindR (get_current_user dec now authorization s)
       (\<lambda>(i, u). if u_active u then Inr (i, u) else Inl (AuthHTTP 401 ''Account is not activated''))"

end
