(* ===== verification/Auth_Login.thy ===== *)
theory Auth_Login
  imports Auth_Service
begin

section \<open>Login by code, attempts and bans\<close>

text \<open>
  The rest of src/app/services/users/auth_service.py: verification codes, the counters of failed logins, the
  login by e-mail code with the registration of new users through
  src/app/services/users/user_provisioning_service.py, and bans. \<open>code\<close> is the random code, \<open>delivered\<close>
  says whether the mail went out, \<open>user_id\<close> is the id of a new row, \<open>create_ok\<close> whether storing it
  succeeds. Default roles and the default assistant of a user are not modelled.
\<close>

definition verify_code_key :: "string \<Rightarrow> string \<Rightarrow> string" where
  "verify_code_key email purpose = ''gw:auth:verify:'' @ email @ '':'' @ purpose"

definition attempts_key :: "string \<Rightarrow> string \<Rightarrow> string" where
  "attempts_key email purpose = ''gw:auth:verify_attempts:'' @ email @ '':'' @ purpose"

definition attempts_ip_key :: "string \<Rightarrow> string \<Rightarrow> string" where
  "attempts_ip_key ip purpose = ''gw:auth:verify_attempts_ip:'' @ ip @ '':'' @ purpose"

definition login_fail_key :: "string \<Rightarrow> string" where
  "login_fail_key email = ''gw:auth:login_fail:'' @ email"

definition login_fail_ip_key :: "string \<Rightarrow> string" where
  "login_fail_ip_key ip = ''gw:auth:login_fail_ip:'' @ ip"

definition temp_invite_key :: "string \<Rightarrow> string" where
  "temp_invite_key email = ''gw:auth:invite:'' @ email"

definition user_ban_key :: "string \<Rightarrow> string" where
  "user_ban_key user = ''gw:user:ban:'' @ user"

definition tenant_ban_flag :: "string \<Rightarrow> string" where
  "tenant_ban_flag tenant = ''gw:tenant:ban:'' @ tenant"

subsection \<open>Verification codes\<close>

definition send_verification_code :: "auth_config \<Rightarrow> rat \<Rightarrow> string \<Rightarrow> bool \<Rightarrow> string \<Rightarrow> string \<Rightarrow> auth_state \<Rightarrow>
    (auth_error + string) \<times> auth_state" where
  "send_verification_code cf now random delivered email purpose s =
     (let code = (if cf_dev cf then ''123456'' else random);
          s1 = aset now (verify_code_key email purpose) (PStr code) (cf_code_ttl cf) s
      in if delivered then (Inr code, s1)
         else (Inl (AuthHTTP 503 ''Verification email delivery failed''), adel (verify_code_key email purpose) s1))"

definition forget_code :: "string \<Rightarrow> string option \<Rightarrow> string \<Rightarrow> auth_state \<Rightarrow> auth_state" where
  "forget_code email ip purpose s =
     (let s1 = adel (attempts_key email purpose) (adel (verify_code_key email purpose) s)
      in if str_truthy ip then adel (attempts_ip_key (the ip) purpose) s1 else s1)"

definition verify_code :: "auth_config \<Rightarrow> rat \<Rightarrow> string \<Rightarrow> string \<Rightarrow> string \<Rightarrow> string option \<Rightarrow> auth_state \<Rightarrow> bool \<times> auth_state" where
  "verify_code cf now email code purpose ip s =
     (case cache_incr now (attempts_key email purpose) (Some (cf_code_ttl cf)) 1 (au_cache s) of
        (attempts, c1) \<Rightarrow>
          (case (if str_truthy ip then cache_incr now (attempts_ip_key (the ip) purpose) (Some (cf_code_ttl cf)) 1 c1 else (0, c1)) of
             (attempts_ip, c2) \<Rightarrow>
               let s1 = s\<lparr>au_cache := c2\<rparr>
               in if cf_code_attempts cf < attempts \<or> cf_code_attempts cf < attempts_ip
                  then (False, forget_code email ip purpose s1)
                  else
                    let stored = aget now (verify_code_key email purpose) s1
                    in if \<not> truthy stored \<or> stored \<noteq> PStr code then (False, s1)
                       else (True, forget_code email ip purpose s1)))"

subsection \<open>Failed logins\<close>

definition int_value :: "pyval \<Rightarrow> int" where
  "int_value v = (case v of PInt i \<Rightarrow> i | _ \<Rightarrow> 0)"

definition check_login_rate_limit :: "auth_config \<Rightarrow> rat \<Rightarrow> string \<Rightarrow> string option \<Rightarrow> auth_state \<Rightarrow> auth_error option" where
  "check_login_rate_limit cf now email ip s =
     (if cf_login_attempts cf \<le> int_value (aget now (login_fail_key email) s) \<or>
         cf_login_attempts cf \<le> (if str_truthy ip then int_value (aget now (login_fail_ip_key (the ip)) s) else 0)
      then Some (AuthHTTP 429 ''Too many failed login attempts, please try again later'') else None)"

definition increment_login_failure :: "auth_config \<Rightarrow> rat \<Rightarrow> string \<Rightarrow> string option \<Rightarrow> auth_state \<Rightarrow> auth_state" where
  "increment_login_failure cf now email ip s =
     (let s1 = aset now (login_fail_key email) (PInt (int_value (aget now (login_fail_key email) s) + 1)) (cf_login_window cf) s
      in if str_truthy ip
         then aset now (login_fail_ip_key (the ip)) (PInt (int_value (aget now (login_fail_ip_key (the ip)) s1) + 1))
                (cf_login_window cf) s1
         else s1)"

definition reset_login_failures :: "string \<Rightarrow> auth_state \<Rightarrow> auth_state" where
  "reset_login_failures email s = adel (login_fail_key email) s"

subsection \<open>Users\<close>

definition normalize_login_email :: "string \<Rightarrow> string" where
  "normalize_login_email email = str_lower (str_strip email)"

definition user_by_email :: "string \<Rightarrow> auth_state \<Rightarrow> (string \<times> auth_user) option" where
  "user_by_email email s = find (\<lambda>(_, u). u_email u = email) (au_users s)"

definition get_user_by_login_email :: "string \<Rightarrow> auth_state \<Rightarrow> (string \<times> auth_user) option" where
  "get_user_by_login_email email s =
     (let e = normalize_login_email email
      in case dget (au_identities s) (''email_code'', e) of
           Some i \<Rightarrow> (case dget (au_users s) i of Some u \<Rightarrow> Some (i, u) | None \<Rightarrow> user_by_email e s)
         | None \<Rightarrow> user_by_email e s)"

definition activate_user_for_login :: "string \<times> auth_user \<Rightarrow> auth_state \<Rightarrow> (auth_error + string \<times> auth_user) \<times> auth_state" where
  "activate_user_for_login x s =
     (case x of (i, u) \<Rightarrow>
        if u_active u then (Inr (i, u), s)
        else (case dget (au_users s) i of
                None \<Rightarrow> (Inl (AuthHTTP 401 ''User not found or inactive''), s)
              | Some v \<Rightarrow> let v1 = v\<lparr>u_active := True\<rparr>
                          in (Inr (i, v1), s\<lparr>au_users := dput i v1 (au_users s)\<rparr>)))"

text \<open>
  \<open>provision_user\<close> without an external identity: an existing user is returned as it is, a new one is
  created by \<open>provision_new_user\<close>, which records its e-mail and whether it is active at the end of the
  registration table.
\<close>

definition provision_user :: "auth_config \<Rightarrow> rat \<Rightarrow> string \<Rightarrow> bool \<Rightarrow> string \<Rightarrow> string option \<Rightarrow> auth_state \<Rightarrow>
    (auth_error + string \<times> auth_user) \<times> auth_state" where
  "provision_user cf now user_id create_ok email code s =
     (case user_by_email email s of
        Some x \<Rightarrow> (Inr x, s)
      | None \<Rightarrow>
          (case provision_new_user (cf_control cf) (cf_dev cf) create_ok now email code (au_reg s) of
             (Inl e, g) \<Rightarrow> (Inl (AuthReg e), s\<lparr>au_reg := g\<rparr>)
           | (Inr _, g) \<Rightarrow>
               let u = \<lparr>u_email = email, u_active = snd (last (rg_users g)), u_version = 0, u_super = False\<rparr>
               in (Inr (user_id, u), s\<lparr>au_reg := g, au_users := dput user_id u (au_users s)\<rparr>)))"

definition invite_finalize :: "rat \<Rightarrow> string \<Rightarrow> string \<Rightarrow> auth_state \<Rightarrow> auth_state" where
  "invite_finalize now code user s = s\<lparr>au_reg := snd (invite_mark_used now code user (au_reg s))\<rparr>"

definition provision_login_user :: "auth_config \<Rightarrow> rat \<Rightarrow> string \<Rightarrow> bool \<Rightarrow> string \<Rightarrow> string option \<Rightarrow> auth_state \<Rightarrow>
    (auth_error + string \<times> auth_user) \<times> auth_state" where
  "provision_login_user cf now user_id create_ok email invite s =
     (let cached = as_dict (aget now (temp_invite_key email) s);
          code = str_or invite (case py_get cached ''code'' PNone of PStr c \<Rightarrow> Some c | _ \<Rightarrow> None)
      in (case provision_user cf now user_id create_ok email code s of
            (Inl e, s1) \<Rightarrow> (Inl e, s1)
          | (Inr x, s1) \<Rightarrow>
              (case activate_user_for_login x s1 of
                 (Inl e, s2) \<Rightarrow> (Inl e, s2)
               | (Inr (i, u), s2) \<Rightarrow>
                   let s3 = (if str_truthy code \<and> truthy (py_get cached ''window_id'' PNone)
                             then invite_finalize now (the code) i s2 else s2)
                   in (Inr (i, u), adel (temp_invite_key email) s3))))"

definition resolve_login_user :: "auth_config \<Rightarrow> rat \<Rightarrow> string \<Rightarrow> bool \<Rightarrow> string \<Rightarrow> string option \<Rightarrow> auth_state \<Rightarrow>
    (auth_error + (string \<times> auth_user) \<times> bool) \<times> auth_state" where
  "resolve_login_user cf now user_id create_ok email invite s =
     (let e = normalize_login_email email
      in case get_user_by_login_email e s of
           None \<Rightarrow> (case provision_login_user cf now user_id create_ok e invite s of
                      (Inl er, s1) \<Rightarrow> (Inl er, s1) | (Inr x, s1) \<Rightarrow> (Inr (x, True), s1))
         | Some x \<Rightarrow> (case activate_user_for_login x s of
                      (Inl er, s1) \<Rightarrow> (Inl er, s1) | (Inr y, s1) \<Rightarrow> (Inr (y, False), s1)))"

subsection \<open>Login\<close>

definition send_login_code :: "auth_config \<Rightarrow> rat \<Rightarrow> string \<Rightarrow> bool \<Rightarrow> string \<Rightarrow> string option \<Rightarrow> string option \<Rightarrow> auth_state \<Rightarrow>
    (auth_error + unit) \<times> auth_state" where
  "send_login_code cf now random delivered email invite ip s =
     (let e = normalize_login_email email;
          send = (\<lambda>s. case send_verification_code cf now random delivered e ''login'' s of
                        (Inl er, s1) \<Rightarrow> (Inl er, s1) | (Inr _, s1) \<Rightarrow> (Inr (), s1))
      in case check_login_rate_limit cf now e ip s of
           Some er \<Rightarrow> (Inl er, s)
         | None \<Rightarrow>
             if get_user_by_login_email e s \<noteq> None then send s
             else if cf_control cf \<and> \<not> str_truthy invite then (Inl (AuthHTTP 403 ''Registration requires invite code''), s)
             else (case ensure_can_register (cf_control cf) invite of
                     Some er \<Rightarrow> (Inl (AuthReg er), s)
                   | None \<Rightarrow>
                       if str_truthy invite \<and> \<not> cf_dev cf
                       then (case invite_consume now (the invite) (au_reg s) of
                               (Inl er, g) \<Rightarrow> (Inl (AuthReg er), s\<lparr>au_reg := g\<rparr>)
                             | (Inr (w, _), g) \<Rightarrow>
                                 send (aset now (temp_invite_key e)
                                   (PDict [(''code'', PStr (the invite)), (''window_id'', PStr w)]) 600 (s\<lparr>au_reg := g\<rparr>)))
                       else send s))"

record new_ids =
  ni_user :: string
  ni_session :: string
  ni_sid :: string
  ni_access :: string
  ni_refresh :: string

definition login_with_code :: "auth_config \<Rightarrow> rat \<Rightarrow> new_ids \<Rightarrow> bool \<Rightarrow> string \<Rightarrow> string \<Rightarrow> string option \<Rightarrow> client_info \<Rightarrow>
    auth_state \<Rightarrow> (auth_error + token_payload \<times> token_payload) \<times> auth_state" where
  "login_with_code cf now ids create_ok email0 code invite ci s =
     (let email = normalize_login_email email0
      in case check_login_rate_limit cf now email (ci_ip ci) s of
           Some er \<Rightarrow> (Inl er, s)
         | None \<Rightarrow>
             (case verify_code cf now email code ''login'' (ci_ip ci) s of
                (False, s1) \<Rightarrow> (Inl (AuthHTTP 401 ''Invalid or expired code''), increment_login_failure cf now email (ci_ip ci) s1)
              | (True, s1) \<Rightarrow>
                  (case resolve_login_user cf now (ni_user ids) create_ok email invite s1 of
                     (Inl er, s2) \<Rightarrow> (Inl er, s2)
                   | (Inr ((i, u), created), s2) \<Rightarrow>
                       (case create_session_tokens cf now (ni_session ids) (ni_sid ids) (ni_access ids) (ni_refresh ids) i u ci
                               (reset_login_failures email s2) of
                          (ts, s3) \<Rightarrow> (Inr ts, s3)))))"

definition register_user :: "auth_config \<Rightarrow> rat \<Rightarrow> string \<Rightarrow> bool \<Rightarrow> string \<Rightarrow> bool \<Rightarrow> string \<Rightarrow> string option \<Rightarrow> auth_state \<Rightarrow>
    (auth_error + string \<times> auth_user) \<times> auth_state" where
  "register_user cf now random delivered user_id create_ok email invite s =
     (if user_by_email email s \<noteq> None then (Inl (AuthHTTP 400 ''Email already registered''), s)
      else (case provision_user cf now user_id create_ok email invite s of
              (Inl e, s1) \<Rightarrow> (Inl e, s1)
            | (Inr (i, u), s1) \<Rightarrow>
                if u_active u then (Inr (i, u), s1)
                else (case send_verification_code cf now random delivered email ''activate'' s1 of
                        (Inl e, s2) \<Rightarrow> (Inl e, s2) | (Inr _, s2) \<Rightarrow> (Inr (i, u), s2))))"

definition activate_user :: "auth_config \<Rightarrow> rat \<Rightarrow> string \<Rightarrow> string \<Rightarrow> auth_state \<Rightarrow> (auth_error + string \<times> auth_user) \<times> auth_state" where
  "activate_user cf now email code s =
     (case verify_code cf now email code ''activate'' None s of
        (False, s1) \<Rightarrow> (Inl (AuthHTTP 400 ''Invalid or expired verification code''), s1)
      | (True, s1) \<Rightarrow>
          (case user_by_email email s1 of
             None \<Rightarrow> (Inl (AuthHTTP 404 ''User not found''), s1)
           | Some (i, u) \<Rightarrow>
               if u_active u then (Inl (AuthHTTP 400 ''User already activated''), s1)
               else let v = u\<lparr>u_active := True\<rparr> in (Inr (i, v), s1\<lparr>au_users := dput i v (au_users s1)\<rparr>)))"

subsection \<open>Bans\<close>

text \<open>A ban without a duration, or of zero hours, is permanent.\<close>

definition ban_data :: "rat \<Rightarrow> string \<Rightarrow> int option \<Rightarrow> string option \<Rightarrow> (string, pyval) dict" where
  "ban_data now reason hours tenant =
     (let temp = (case hours of None \<Rightarrow> False | Some h \<Rightarrow> h \<noteq> 0)
      in [(''type'', PStr (if temp then ''temporary'' else ''permanent'')), (''reason'', PStr reason),
          (''tenant_id'', if str_truthy tenant then opt_str tenant else PNone),
          (''expires_at'', if temp then PFloat (now + of_int (the hours) * 3600) else PNone)])"

definition ban_ttl :: "int option \<Rightarrow> int option" where
  "ban_ttl hours = (case hours of None \<Rightarrow> None | Some h \<Rightarrow> if h \<noteq> 0 then Some (h * 3600) else None)"

definition aset_ttl :: "rat \<Rightarrow> string \<Rightarrow> pyval \<Rightarrow> int option \<Rightarrow> auth_state \<Rightarrow> auth_state" where
  "aset_ttl now k v ttl s = with_cache (\<lambda>c. snd (cache_set now k v ttl False c)) s"

definition ban_user :: "auth_config \<Rightarrow> rat \<Rightarrow> string \<Rightarrow> string \<Rightarrow> int option \<Rightarrow> string option \<Rightarrow> auth_state \<Rightarrow> auth_state" where
  "ban_user cf now user reason hours tenant s =
     (let d = PDict (ban_data now reason hours tenant);
          s1 = aset_ttl now (user_ban_key user) d (ban_ttl hours) (aset_ttl now (ban_key user) d (ban_ttl hours) s);
          s2 = (if str_truthy tenant then aset_ttl now (tenant_ban_flag (the tenant)) d (ban_ttl hours) s1 else s1);
          s3 = revoke_all_tokens cf now user s2;
          k1 = snd (revoke_user_keys now user reason (au_keys s3));
          k2 = (if str_truthy tenant then snd (revoke_tenant_keys now (the tenant) reason k1) else k1)
      in s3\<lparr>au_keys := k2\<rparr>)"

definition ban_tenant :: "rat \<Rightarrow> string \<Rightarrow> string \<Rightarrow> int option \<Rightarrow> auth_state \<Rightarrow> auth_state" where
  "ban_tenant now tenant reason hours s =
     (let s1 = aset_ttl now (tenant_ban_flag tenant) (PDict (ban_data now reason hours (Some tenant))) (ban_ttl hours) s
      in s1\<lparr>au_keys := snd (revoke_tenant_keys now tenant reason (au_keys s1))\<rparr>)"

definition unban_user :: "rat \<Rightarrow> string \<Rightarrow> auth_state \<Rightarrow> auth_state" where
  "unban_user now user s =
     (let d = aget now (user_ban_key user) s;
          s1 = adel (user_ban_key user) (adel (ban_key user) s)
      in case py_get (as_dict d) ''tenant_id'' PNone of
           PStr t \<Rightarrow> if truthy d \<and> t \<noteq> [] then adel (tenant_ban_flag t) s1 else s1
         | _ \<Rightarrow> s1)"

definition unban_tenant :: "string \<Rightarrow> auth_state \<Rightarrow> auth_state" where
  "unban_tenant tenant s = adel (tenant_ban_flag tenant) s"

definition get_ban_status :: "rat \<Rightarrow> string \<Rightarrow> auth_state \<Rightarrow> pyval \<times> auth_state" where
  "get_ban_status now user s =
     (let d = aget now (ban_key user) s
      in if \<not> truthy d then (PNone, s)
         else if py_get (as_dict d) ''type'' PNone = PStr ''temporary'' \<and>
                 (case py_get (as_dict d) ''expires_at'' PNone of PFloat t \<Rightarrow> t < now | _ \<Rightarrow> False)
         then (PNone, adel (ban_key user) s)
         else (d, s))"

end
