(* ===== verification/Auth_Properties.thy ===== *)
theory Auth_Properties
  imports Auth_Login
begin

section \<open>What login and refresh guarantee\<close>

text \<open>
  Properties of src/app/services/users/auth_service.py: what a used refresh token leads to, how failed
  logins lock an address, and what becomes of an invited user's first login.
\<close>

subsection \<open>Reading the cache\<close>

lemma with_cache_frame [simp]:
  "au_users (with_cache f s) = au_users s" "au_sessions (with_cache f s) = au_sessions s"
  "au_identities (with_cache f s) = au_identities s" "au_reg (with_cache f s) = au_reg s"
  "au_keys (with_cache f s) = au_keys s" "au_cache (with_cache f s) = f (au_cache s)"
  by (simp_all add: with_cache_def)

lemma cache_op_frame [simp]:
  "au_users (aset now k v ttl s) = au_users s" "au_sessions (aset now k v ttl s) = au_sessions s"
  "au_identities (aset now k v ttl s) = au_identities s" "au_reg (aset now k v ttl s) = au_reg s"
  "au_users (adel k s) = au_users s" "au_sessions (adel k s) = au_sessions s"
  "au_identities (adel k s) = au_identities s" "au_reg (adel k s) = au_reg s"
  "cs_redis (au_cache (aset now k v ttl s)) = cs_redis (au_cache s)"
  "cs_redis (au_cache (adel k s)) = cs_redis (au_cache s)"
  by (simp_all add: aset_def adel_def redis.up_store redis.up_remove)

lemma aget_aset:
  "cs_redis (au_cache s) \<Longrightarrow> 0 < ttl \<Longrightarrow> t0 \<le> now \<Longrightarrow> aget now k' (aset t0 k v ttl s) =
     (if k' = k then if now < t0 + of_int ttl then v else PNone else aget now k' s)"
  by (simp add: aget_def aset_def py_cache_put)

lemma aget_adel: "aget now k' (adel k s) = (if k' = k then PNone else aget now k' s)"
  by (simp add: aget_def adel_def py_cache_delete)

lemma aget_aset_other: "k' \<noteq> k \<Longrightarrow> aget now k' (aset t0 k v ttl s) = aget now k' s"
  by (simp add: aget_def aset_def py_cache_get_def cache_get_def cache_put_def cache_set_def redis_get_put)

lemma cache_get_incr_other: "k \<noteq> k' \<Longrightarrow> cache_get now k' (snd (cache_incr t k ttl a c)) = cache_get now k' c"
  by (auto simp: cache_get_def cache_incr_def redis_get_put Let_def split: option.splits redis_val.splits)

lemma refresh_key_inj [simp]: "refresh_key a = refresh_key b \<longleftrightarrow> a = b"
  by (simp add: refresh_key_def)

lemma refresh_key_neq [simp]:
  "refresh_key j \<noteq> token_blacklist_key k" "refresh_key j \<noteq> ban_key u" "ban_key u \<noteq> refresh_key j"
  by (simp_all add: refresh_key_def token_blacklist_key_def ban_key_def)

subsection \<open>Reuse of a refresh token\<close>

lemma rotate_cache [simp]: "au_cache (rotate_session_tokens now k a r s) = au_cache s"
  by (simp add: rotate_session_tokens_def put_session_def split: option.splits)

text \<open>What a successful refresh needs and what it leaves behind.\<close>

lemma refresh_success:
  assumes "refresh_tokens cf dec now ajti rjti tok s = (Inr ts, s')"
  obtains p user jti sid r u d where "dec tok = Some p" and "tp_type p = REFRESH_TOKEN" and "tp_sub p = Uuid user"
    and "tp_jti p = Some jti" and "jti \<noteq> []" and "tp_sid p = Some sid" and "sid \<noteq> []"
    and "get_active_by_key sid s = Some r" and "ls_user r = user" and "ls_refresh_jti r = jti"
    and "dget (au_users s) user = Some u" and "u_active u"
    and "u_version u = (case tp_version p of None \<Rightarrow> 0 | Some v \<Rightarrow> v)"
    and "d = as_dict (aget now (refresh_key jti) s)" and "\<not> truthy (py_get d ''used'' PNone)"
    and "ts = (create_access_token cf now user ajti (u_version u) sid, create_refresh_token cf now user rjti (u_version u) sid)"
    and "s' = rotate_session_tokens now sid ajti rjti
           (aset now (refresh_key rjti) (PDict (refresh_entry user (u_version u) sid)) (cf_refresh_days cf * 24 * 3600)
             (mark_refresh_used now jti d s))"
  using assms
  by (auto simp: refresh_tokens_def create_tokens_def mark_refresh_used_def Let_def str_truthy_def
      split: option.splits if_splits subject.splits)

lemma used_entry_read:
  assumes "cs_redis (au_cache s)" and "t1 \<le> t2" and "t2 < t1 + 60" and "rjti \<noteq> jti"
  shows "aget t2 (refresh_key jti) (rotate_session_tokens t1 sid a r (aset t1 (refresh_key rjti) v ttl (mark_refresh_used t1 jti d s))) =
      PDict (dput ''used_at_ts'' (PInt \<lfloor>t1\<rfloor>) (dput ''used'' (PBool True) d))"
  using assms by (simp add: aget_def [of _ _ "rotate_session_tokens _ _ _ _ _"] flip: aget_def)
    (simp add: aget_aset_other aget_aset mark_refresh_used_def)

lemma used_entry_expired:
  assumes "cs_redis (au_cache s)" and "t1 + 60 \<le> t2" and "rjti \<noteq> jti"
  shows "aget t2 (refresh_key jti) (rotate_session_tokens t1 sid a r (aset t1 (refresh_key rjti) v ttl (mark_refresh_used t1 jti d s))) = PNone"
  using assms by (simp add: aget_def [of _ _ "rotate_session_tokens _ _ _ _ _"] flip: aget_def)
    (simp add: aget_aset_other aget_aset mark_refresh_used_def)

text \<open>A refresh token that was redeemed at \<open>t1\<close> and comes back at \<open>t2\<close> is refused, but only a return after the
  grace period and within the minute for which its entry is kept counts as a reuse that ends all sessions
  of the user; a later one is refused like an unknown token and nothing is revoked.\<close>

theorem refresh_reuse_outcome:
  assumes ok: "refresh_tokens cf dec t1 ajti rjti tok s = (Inr ts, s1)" and up: "cs_redis (au_cache s)"
    and fresh: "tp_jti (the (dec tok)) \<noteq> Some rjti" and t: "t1 \<le> t2" and grace: "0 < cf_grace cf"
  shows "refresh_tokens cf dec t2 a2 r2 tok s1 =
    (if t1 + 60 \<le> t2 then (Inl (AuthHTTP 401 ''Refresh token expired or invalid''), s1)
     else if t2 - of_int \<lfloor>t1\<rfloor> \<le> of_int (cf_grace cf)
     then (Inl (AuthHTTP 401 ''Refresh token reuse detected, retry with latest token''), s1)
     else (Inl (AuthHTTP 401 ''Token reuse detected, all sessions invalidated''),
           revoke_all_tokens cf t2 (case tp_sub (the (dec tok)) of Uuid u \<Rightarrow> u | _ \<Rightarrow> []) s1))"
proof -
  obtain p user jti sid d and u :: auth_user where
    p: "dec tok = Some p" "tp_type p = REFRESH_TOKEN" "tp_sub p = Uuid user" "tp_jti p = Some jti" "jti \<noteq> []"
      "tp_sid p = Some sid" "sid \<noteq> []"
    and s1: "s1 = rotate_session_tokens t1 sid ajti rjti
           (aset t1 (refresh_key rjti) (PDict (refresh_entry user (u_version u) sid)) (cf_refresh_days cf * 24 * 3600)
             (mark_refresh_used t1 jti d s))"
    by (rule refresh_success [OF ok])
  have ne: "rjti \<noteq> jti" using fresh p(1,4) by auto
  show ?thesis
  proof (cases "t1 + 60 \<le> t2")
    case True
    then have "aget t2 (refresh_key jti) s1 = PNone" unfolding s1 by (rule used_entry_expired [OF up _ ne])
    with True p show ?thesis by (simp add: refresh_tokens_def Let_def)
  next
    case False
    then have "t2 < t1 + 60" by simp
    from used_entry_read [OF up t this ne] have
      g: "aget t2 (refresh_key jti) s1 = PDict (dput ''used_at_ts'' (PInt \<lfloor>t1\<rfloor>) (dput ''used'' (PBool True) d))"
      unfolding s1 .
    have w: "is_refresh_reuse_within_grace cf t2 (dput ''used_at_ts'' (PInt \<lfloor>t1\<rfloor>) (dput ''used'' (PBool True) d)) \<longleftrightarrow>
        t2 - of_int \<lfloor>t1\<rfloor> \<le> of_int (cf_grace cf)"
      using grace by (simp add: is_refresh_reuse_within_grace_def Let_def max_def)
    show ?thesis using False p by (simp add: refresh_tokens_def g w Let_def)
  qed
qed

definition demo_user :: auth_user where
  "demo_user = \<lparr>u_email = ''a@b.c'', u_active = True, u_version = 0, u_super = False\<rparr>"

definition no_client :: client_info where
  "no_client = \<lparr>ci_ip = None, ci_agent = None, ci_device_type = None, ci_device_name = None\<rparr>"

definition demo_auth :: auth_state where
  "demo_auth = snd (create_session_tokens default_auth_config 0 ''row'' ''sid'' ''a0'' ''r0'' ''u1'' demo_user no_client
     \<lparr>au_cache = \<lparr>cs_redis = True, cs_data = []\<rparr>, au_users = [(''u1'', demo_user)], au_identities = [],
      au_sessions = [], au_reg = \<lparr>rg_windows = [], rg_codes = [], rg_users = []\<rparr>,
      au_keys = \<lparr>ks_rows = [], ks_usage = [], ks_cache = \<lparr>cs_redis = True, cs_data = []\<rparr>,
        ks_raw = \<lparr>cs_redis = True, cs_data = []\<rparr>\<rparr>\<rparr>)"

text \<open>The tokens of the example are their payloads, and every payload verifies.\<close>

definition demo_refresh :: "rat \<Rightarrow> string \<Rightarrow> auth_state \<Rightarrow> (auth_error + token_payload \<times> token_payload) \<times> auth_state" where
  "demo_refresh now n s = refresh_tokens default_auth_config Some now (''a'' @ n) (''r'' @ n)
     (create_refresh_token default_auth_config 0 ''u1'' ''r0'' 0 ''sid'') s"

text \<open>The preceding statement at a token that comes back after two minutes: no session is ended.\<close>

theorem refresh_reuse_outcome_witness:
  "demo_refresh 130 ''2'' (snd (demo_refresh 10 ''1'' demo_auth)) =
     (Inl (AuthHTTP 401 ''Refresh token expired or invalid''), snd (demo_refresh 10 ''1'' demo_auth))"
proof -
  have "case fst (demo_refresh 10 ''1'' demo_auth) of Inl _ \<Rightarrow> False | Inr _ \<Rightarrow> True" by code_simp
  then obtain ts where "demo_refresh 10 ''1'' demo_auth = (Inr ts, snd (demo_refresh 10 ''1'' demo_auth))"
    by (cases "demo_refresh 10 ''1'' demo_auth") (auto split: sum.splits)
  then have ok: "refresh_tokens default_auth_config Some 10 ''a1'' ''r1''
      (create_refresh_token default_auth_config 0 ''u1'' ''r0'' 0 ''sid'') demo_auth = (Inr ts, snd (demo_refresh 10 ''1'' demo_auth))"
    by (simp add: demo_refresh_def)
  have up: "cs_redis (au_cache demo_auth)" by code_simp
  show ?thesis
    using refresh_reuse_outcome [OF ok up, of 130 "''a2''" "''r2''"]
    by (simp add: demo_refresh_def [of 130] create_refresh_token_def default_auth_config_def)
qed

subsection \<open>Lockout\<close>

lemma login_key_neq [simp]:
  "login_fail_key e \<noteq> attempts_key e' p" "login_fail_key e \<noteq> attempts_ip_key i p" "login_fail_key e \<noteq> verify_code_key e' p"
  "login_fail_key e \<noteq> login_fail_ip_key i"
  "temp_invite_key e \<noteq> attempts_key e' p" "temp_invite_key e \<noteq> attempts_ip_key i p" "temp_invite_key e \<noteq> verify_code_key e' p"
  by (simp_all add: login_fail_key_def attempts_key_def attempts_ip_key_def verify_code_key_def login_fail_ip_key_def temp_invite_key_def)

lemma forget_code_frame [simp]:
  "au_users (forget_code e ip p s) = au_users s" "au_identities (forget_code e ip p s) = au_identities s"
  "au_reg (forget_code e ip p s) = au_reg s" "au_sessions (forget_code e ip p s) = au_sessions s"
  "cs_redis (au_cache (forget_code e ip p s)) = cs_redis (au_cache s)"
  by (simp_all add: forget_code_def Let_def)

text \<open>Checking a code reads and writes nothing but its own counters and the code.\<close>

lemma verify_code_frame:
  assumes "verify_code cf now e code p ip s = (b, s')"
  shows "au_users s' = au_users s" and "au_identities s' = au_identities s" and "au_reg s' = au_reg s"
    and "cs_redis (au_cache s') = cs_redis (au_cache s)"
    and "k \<noteq> attempts_key e p \<Longrightarrow> (\<And>i. k \<noteq> attempts_ip_key i p) \<Longrightarrow> k \<noteq> verify_code_key e p \<Longrightarrow> aget t k s' = aget t k s"
proof -
  obtain n1 c1 where i1: "cache_incr now (attempts_key e p) (Some (cf_code_ttl cf)) 1 (au_cache s) = (n1, c1)" by fastforce
  obtain n2 c2 where i2: "(if str_truthy ip then cache_incr now (attempts_ip_key (the ip) p) (Some (cf_code_ttl cf)) 1 c1 else (0, c1)) = (n2, c2)"
    by fastforce
  have s': "s' = s\<lparr>au_cache := c2\<rparr> \<or> s' = forget_code e ip p (s\<lparr>au_cache := c2\<rparr>)"
    using assms i2 by (auto simp: verify_code_def i1 Let_def split: if_splits)
  have up: "cs_redis c2 = cs_redis (au_cache s)"
    using i1 i2 cache_frames(3) by (metis prod.inject snd_conv)
  from s' up show "au_users s' = au_users s" "au_identities s' = au_identities s" "au_reg s' = au_reg s"
    "cs_redis (au_cache s') = cs_redis (au_cache s)" by auto
  show "aget t k s' = aget t k s" if "k \<noteq> attempts_key e p" "\<And>i. k \<noteq> attempts_ip_key i p" "k \<noteq> verify_code_key e p"
  proof -
    have "cache_get t k c2 = cache_get t k (au_cache s)"
      using i1 i2 that cache_get_incr_other by (metis prod.inject snd_conv)
    then have "aget t k (s\<lparr>au_cache := c2\<rparr>) = aget t k s" by (simp add: aget_def py_cache_get_def)
    with s' that show ?thesis by (auto simp: forget_code_def Let_def aget_adel)
  qed
qed

record login_attempt =
  la_time :: rat
  la_code :: string
  la_ids :: new_ids
  la_create_ok :: bool
  la_invite :: "string option"
  la_client :: client_info

definition login_of :: "auth_config \<Rightarrow> string \<Rightarrow> login_attempt \<Rightarrow> auth_state \<Rightarrow> (auth_error + token_payload \<times> token_payload) \<times> auth_state" where
  "login_of cf email a s = login_with_code cf (la_time a) (la_ids a) (la_create_ok a) email (la_code a) (la_invite a) (la_client a) s"

fun login_attempts :: "auth_config \<Rightarrow> string \<Rightarrow> login_attempt list \<Rightarrow> auth_state \<Rightarrow>
    (auth_error + token_payload \<times> token_payload) list \<times> auth_state" where
  "login_attempts cf email [] s = ([], s)"
| "login_attempts cf email (a # as) s =
     (case login_of cf email a s of (r, s1) \<Rightarrow> (case login_attempts cf email as s1 of (rs, s2) \<Rightarrow> (r # rs, s2)))"

text \<open>Consecutive times that are less than the window apart.\<close>

fun paced :: "rat \<Rightarrow> rat list \<Rightarrow> bool" where
  "paced w (t # u # ts) = (t \<le> u \<and> u < t + w \<and> paced w (u # ts))"
| "paced w _ = True"

abbreviation wrong_code :: "auth_error + token_payload \<times> token_payload" where
  "wrong_code \<equiv> Inl (AuthHTTP 401 ''Invalid or expired code'')"

definition failures :: "rat \<Rightarrow> string \<Rightarrow> auth_state \<Rightarrow> int" where
  "failures t email s = int_value (aget t (login_fail_key (normalize_login_email email)) s)"

lemma increment_login_failure_up [simp]:
  "cs_redis (au_cache (increment_login_failure cf now e ip s)) = cs_redis (au_cache s)"
  by (simp add: increment_login_failure_def Let_def)

lemma failed_login_counts:
  assumes run: "login_of cf email a s = (wrong_code, s')" and up: "cs_redis (au_cache s)"
    and t: "la_time a \<le> t" "t < la_time a + of_int (cf_login_window cf)"
  shows "failures t email s' = failures (la_time a) email s + 1" and "cs_redis (au_cache s')"
proof -
  let ?e = "normalize_login_email email" and ?now = "la_time a" and ?ip = "ci_ip (la_client a)"
  have w: "0 < cf_login_window cf" using t by (metis add_0_right add_le_cancel_left le_less_trans of_int_0_less_iff not_le of_int_le_0_iff)
  obtain b s1 where v: "verify_code cf ?now ?e (la_code a) ''login'' ?ip s = (b, s1)" by fastforce
  have "s' = increment_login_failure cf ?now ?e ?ip s1 \<and> \<not> b"
  proof (cases b)
    case True
    with run v show ?thesis
      by (auto simp: login_of_def login_with_code_def Let_def resolve_login_user_def provision_login_user_def
          provision_user_def activate_user_for_login_def check_login_rate_limit_def
          split: option.splits prod.splits sum.splits if_splits)
  next
    case False
    with run v show ?thesis
      by (auto simp: login_of_def login_with_code_def Let_def check_login_rate_limit_def split: option.splits if_splits)
  qed
  then have s': "s' = increment_login_failure cf ?now ?e ?ip s1" by blast
  have up1: "cs_redis (au_cache s1)" using verify_code_frame(4) [OF v] up by simp
  then show "cs_redis (au_cache s')" by (simp add: s')
  have same: "aget u (login_fail_key ?e) s1 = aget u (login_fail_key ?e) s" for u
    by (rule verify_code_frame(5) [OF v]) simp_all
  show "failures t email s' = failures ?now email s + 1"
    using up1 w t by (simp add: failures_def s' increment_login_failure_def Let_def aget_aset_other aget_aset same int_value_def)
qed

lemma attempts_count:
  assumes "login_attempts cf email as s = (rs, s')" and "set rs \<subseteq> {wrong_code}" and "cs_redis (au_cache s)"
    and "paced (of_int (cf_login_window cf)) (map la_time as @ [t])" and "n \<le> failures (hd (map la_time as @ [t])) email s"
  shows "n + int (length as) \<le> failures t email s'"
  using assms
proof (induction as arbitrary: s rs n)
  case Nil
  then show ?case by simp
next
  case (Cons a as)
  obtain r s1 where a: "login_of cf email a s = (r, s1)" by fastforce
  obtain rs' where as: "login_attempts cf email as s1 = (rs', s')" and rs: "rs = r # rs'"
    using Cons.prems(1) a by (auto split: prod.splits)
  then have r: "r = wrong_code" and rs': "set rs' \<subseteq> {wrong_code}" using Cons.prems(2) by auto
  let ?u = "hd (map la_time as @ [t])"
  have u: "la_time a \<le> ?u" "?u < la_time a + of_int (cf_login_window cf)"
    and p: "paced (of_int (cf_login_window cf)) (map la_time as @ [t])"
    using Cons.prems(4) by (cases as; simp)+
  note c = failed_login_counts [OF a [unfolded r] Cons.prems(3) u]
  have "(n + 1) + int (length as) \<le> failures t email s'"
    using Cons.IH [OF as rs' c(2) p, of "n + 1"] c(1) Cons.prems(5) by simp
  then show ?case by simp
qed

text \<open>C37: once the configured number of logins to an address failed in a row, each within the window of the one
  before, every further login to that address within the window of the last is refused with 429, whatever
  the code and wherever it comes from, and changes nothing.\<close>

theorem login_lockout:
  assumes "login_attempts cf email as s = (rs, s1)" and "set rs \<subseteq> {wrong_code}" and "cs_redis (au_cache s)"
    and "int (length as) = cf_login_attempts cf" and "paced (of_int (cf_login_window cf)) (map la_time as @ [la_time a])"
    and "failures (hd (map la_time as @ [la_time a])) email s = 0"
  shows "login_of cf email a s1 = (Inl (AuthHTTP 429 ''Too many failed login attempts, please try again later''), s1)"
proof -
  have "cf_login_attempts cf \<le> failures (la_time a) email s1"
    using attempts_count [OF assms(1-3,5), of 0] assms(4,6) by simp
  then show ?thesis by (simp add: login_of_def login_with_code_def Let_def check_login_rate_limit_def failures_def)
qed

definition demo_ids :: new_ids where
  "demo_ids = \<lparr>ni_user = ''u2'', ni_session = ''row2'', ni_sid = ''sid2'', ni_access = ''a9'', ni_refresh = ''r9''\<rparr>"

definition demo_attempt :: "rat \<Rightarrow> string \<Rightarrow> login_attempt" where
  "demo_attempt t code = \<lparr>la_time = t, la_code = code, la_ids = demo_ids, la_create_ok = True, la_invite = None, la_client = no_client\<rparr>"

definition demo_guesses :: "login_attempt list" where
  "demo_guesses = map (\<lambda>t. demo_attempt t ''000000'') [10, 20, 30, 40, 50]"

definition demo_coded :: auth_state where
  "demo_coded = snd (send_login_code default_auth_config 5 ''424242'' True ''A@b.c '' None None demo_auth)"

text \<open>C37 at five wrong guesses: even the right code is refused afterwards.\<close>

theorem login_lockout_witness:
  "set (fst (login_attempts default_auth_config ''a@b.c'' demo_guesses demo_coded)) \<subseteq> {wrong_code} \<and>
   fst (login_of default_auth_config ''a@b.c'' (demo_attempt 60 ''424242'') (snd (login_attempts default_auth_config ''a@b.c'' demo_guesses demo_coded))) =
   Inl (AuthHTTP 429 ''Too many failed login attempts, please try again later'')"
proof -
  have rs: "fst (login_attempts default_auth_config ''a@b.c'' demo_guesses demo_coded) = [wrong_code, wrong_code, wrong_code, wrong_code, wrong_code]"
    by code_simp
  have up: "cs_redis (au_cache demo_coded)" by code_simp
  have f: "failures (hd (map la_time demo_guesses @ [la_time (demo_attempt 60 ''424242'')])) ''a@b.c'' demo_coded = 0" by code_simp
  have p: "paced (of_int (cf_login_window default_auth_config)) (map la_time demo_guesses @ [la_time (demo_attempt 60 ''424242'')])"
    by code_simp
  have n: "int (length demo_guesses) = cf_login_attempts default_auth_config" by code_simp
  from login_lockout [OF prod.collapse [symmetric] _ up n p f] rs show ?thesis by simp
qed

subsection \<open>Invited users\<close>

lemma consume_reserves:
  assumes "invite_consume now code g = (Inr x, g')"
  shows "\<exists>ic. dget (rg_codes g') code = Some ic \<and> ic_status ic = RESERVED"
proof -
  obtain ic g1 where r: "invite_reserve now code g = (Some ic, g1)"
    using assms by (auto simp: invite_consume_def split: prod.splits option.splits)
  obtain w g2 where c: "claim_registration_slot_for_window now (ic_window ic) g1 = (w, g2)" by fastforce
  have "g' = g2" using assms r c by (auto simp: invite_consume_def split: if_splits sum.splits reg_error.splits)
  moreover have "rg_codes g2 = rg_codes g1" by (rule claim_codes [OF c])
  moreover have "dget (rg_codes g1) code = Some ic \<and> ic_status ic = RESERVED"
    using r by (auto simp: invite_reserve_def put_code_def Let_def split: option.splits if_splits)
  ultimately show ?thesis by metis
qed

lemma consume_reserved_fails:
  assumes "dget (rg_codes g) code = Some ic" and "ic_status ic = RESERVED"
  shows "invite_consume now code g = (Inl (HTTPException 400 ''Invalid or used invite code''), g)"
  using assms by (simp add: invite_consume_def invite_reserve_def)

text \<open>Normalising an address twice changes nothing more.\<close>

lemma is_space_lower [simp]: "is_space (lower_char c) = is_space c"
proof -
  have "of_char (char_of n :: char) = n mod 256" for n :: nat by simp
  then show ?thesis by (simp add: is_space_def lower_char_def Let_def)
qed

lemma lower_char_idem [simp]: "lower_char (lower_char c) = lower_char c"
  by (simp add: lower_char_def Let_def)

lemma strip_lower: "str_strip (str_lower s) = str_lower (str_strip s)"
proof -
  have d: "dropWhile is_space (map lower_char xs) = map lower_char (dropWhile is_space xs)" for xs
    by (induction xs) auto
  show ?thesis by (simp add: str_strip_def str_lower_def d rev_map)
qed

lemma strip_idem [simp]: "str_strip (str_strip s) = str_strip s"
proof -
  let ?y = "dropWhile is_space s" and ?z = "rev (dropWhile is_space (rev (dropWhile is_space s)))"
  have "dropWhile is_space ?z = ?z"
  proof (cases ?z)
    case (Cons c cs)
    obtain ws where "?y = ?z @ ws"
      by (metis rev_append rev_rev_ident takeWhile_dropWhile_id)
    then have "hd ?y = c" "?y \<noteq> []" using Cons by auto
    then have "\<not> is_space c" using hd_dropWhile [of is_space s] by auto
    with Cons show ?thesis by simp
  next
    case Nil
    then show ?thesis by (metis dropWhile.simps(1))
  qed
  then show ?thesis by (simp add: str_strip_def)
qed

lemma normalize_idem [simp]: "normalize_login_email (normalize_login_email e) = normalize_login_email e"
proof -
  have "str_lower (str_lower x) = str_lower x" for x by (simp add: str_lower_def)
  then show ?thesis by (simp add: normalize_login_email_def strip_lower)
qed

lemma get_user_normalized [simp]: "get_user_by_login_email (normalize_login_email e) s = get_user_by_login_email e s"
  by (simp add: get_user_by_login_email_def)

lemma get_user_same:
  "au_users s' = au_users s \<Longrightarrow> au_identities s' = au_identities s \<Longrightarrow> get_user_by_login_email e s' = get_user_by_login_email e s"
  unfolding get_user_by_login_email_def user_by_email_def by (simp only:)

text \<open>What asking for a code with an invitation leaves behind.\<close>

lemma send_login_code_invited:
  assumes "\<not> cf_dev cf" and "cs_redis (au_cache s)" and "iv \<noteq> []" and "get_user_by_login_email email s = None"
    and "send_login_code cf t1 code True email (Some iv) ip s = (Inr (), s1)"
  shows "au_users s1 = au_users s" and "au_identities s1 = au_identities s"
    and "\<exists>ic. dget (rg_codes (au_reg s1)) iv = Some ic \<and> ic_status ic = RESERVED"
    and "t1 \<le> t \<Longrightarrow> t < t1 + 600 \<Longrightarrow>
      \<exists>w. aget t (temp_invite_key (normalize_login_email email)) s1 = PDict [(''code'', PStr iv), (''window_id'', PStr w)]"
proof -
  let ?e = "normalize_login_email email"
  obtain w x g where c: "invite_consume t1 iv (au_reg s) = (Inr (w, x), g)"
    and s1: "s1 = aset t1 (verify_code_key ?e ''login'') (PStr code) (cf_code_ttl cf)
       (aset t1 (temp_invite_key ?e) (PDict [(''code'', PStr iv), (''window_id'', PStr w)]) 600 (s\<lparr>au_reg := g\<rparr>))"
    using assms
    by (auto simp: send_login_code_def send_verification_code_def Let_def split: option.splits if_splits prod.splits sum.splits)
  show "au_users s1 = au_users s" "au_identities s1 = au_identities s" by (simp_all add: s1)
  show "\<exists>ic. dget (rg_codes (au_reg s1)) iv = Some ic \<and> ic_status ic = RESERVED"
    using consume_reserves [OF c] by (simp add: s1)
  show "\<exists>w. aget t (temp_invite_key ?e) s1 = PDict [(''code'', PStr iv), (''window_id'', PStr w)]"
    if "t1 \<le> t" "t < t1 + 600"
    using assms(2) that by (simp add: s1 aget_aset_other aget_aset)
qed

lemma provision_reserved_fails:
  assumes "cf_control cf" and "\<not> cf_dev cf" and "dget (rg_codes (au_reg s)) iv = Some ic" and "ic_status ic = RESERVED"
    and "iv \<noteq> []" and "user_by_email e s = None"
  shows "provision_user cf now user ok e (Some iv) s = (Inl (AuthReg (HTTPException 400 ''Invalid or used invite code'')), s)"
  using assms consume_reserved_fails [OF assms(3,4), of now]
  by (simp add: provision_user_def provision_new_user_def ensure_can_register_def)

text \<open>With registration control on outside development, a new user who asks for a login code with a valid
  invitation can never log in with it. Asking for the code reserves the invitation, and the login
  consumes it a second time, which a reserved code refuses; the place in the window stays taken.\<close>

theorem invited_login_refused:
  assumes ctl: "cf_control cf" "\<not> cf_dev cf" and up: "cs_redis (au_cache s)" and iv: "iv \<noteq> []"
    and new: "get_user_by_login_email email s = None"
    and sent: "send_login_code cf t1 code True email (Some iv) ip s = (Inr (), s1)"
    and t: "t1 \<le> t2" "t2 < t1 + 600" and given: "invite = None \<or> invite = Some iv"
    and login: "login_with_code cf t2 ids ok email code' invite ci s1 = (r, s2)"
  shows "(\<exists>e. r = Inl e) \<and> (\<exists>ic. dget (rg_codes (au_reg s2)) iv = Some ic \<and> ic_status ic = RESERVED)"
proof -
  let ?e = "normalize_login_email email"
  note S = send_login_code_invited [OF ctl(2) up iv new sent]
  obtain ic where ic: "dget (rg_codes (au_reg s1)) iv = Some ic" "ic_status ic = RESERVED" using S(3) by blast
  obtain w where w: "aget t2 (temp_invite_key ?e) s1 = PDict [(''code'', PStr iv), (''window_id'', PStr w)]" using S(4) [OF t] by blast
  obtain b s3 where v: "verify_code cf t2 ?e code' ''login'' (ci_ip ci) s1 = (b, s3)" by fastforce
  note F = verify_code_frame [OF v]
  have none: "get_user_by_login_email ?e s3 = None" using get_user_same [of s3 s] F(1,2) S(1,2) new by simp
  then have noemail: "user_by_email ?e s3 = None" by (auto simp: get_user_by_login_email_def Let_def split: option.splits)
  have w3: "aget t2 (temp_invite_key ?e) s3 = PDict [(''code'', PStr iv), (''window_id'', PStr w)]"
    using w by (simp add: F(5))
  have "provision_user cf t2 (ni_user ids) ok ?e (Some iv) s3 = (Inl (AuthReg (HTTPException 400 ''Invalid or used invite code'')), s3)"
    by (rule provision_reserved_fails [OF ctl _ ic(2) iv noemail]) (simp add: F(3) ic(1))
  then have "provision_login_user cf t2 (ni_user ids) ok ?e invite s3 = (Inl (AuthReg (HTTPException 400 ''Invalid or used invite code'')), s3)"
    using given iv by (auto simp: provision_login_user_def w3 py_get_def str_or_def Let_def)
  then have res: "resolve_login_user cf t2 (ni_user ids) ok ?e invite s3 = (Inl (AuthReg (HTTPException 400 ''Invalid or used invite code'')), s3)"
    using none by (simp add: resolve_login_user_def Let_def)
  have "(\<exists>e. r = Inl e) \<and> au_reg s2 = au_reg s1"
    using login F(3) by (auto simp: login_with_code_def v res increment_login_failure_def Let_def split: option.splits bool.splits)
  with ic show ?thesis by metis
qed

definition invited_config :: auth_config where
  "invited_config = default_auth_config\<lparr>cf_control := True\<rparr>"

definition invited_state :: auth_state where
  "invited_state = demo_auth\<lparr>au_reg := \<lparr>rg_windows = [(''w'', \<lparr>rw_start = 0, rw_end = 1000, rw_max = 10, rw_count = 0,
       rw_auto_activate = True, rw_status = ACTIVE\<rparr>)],
     rg_codes = [(''INV1'', \<lparr>ic_window = ''w'', ic_status = UNUSED, ic_expires_at = None, ic_reserved_at = None,
       ic_used_at = None, ic_used_by = None, ic_note = None\<rparr>)], rg_users = []\<rparr>\<rparr>"

definition invited_sent :: "(auth_error + unit) \<times> auth_state" where
  "invited_sent = send_login_code invited_config 10 ''424242'' True ''new@x.y'' (Some ''INV1'') None invited_state"

text \<open>The preceding statement at a new user with a fresh invitation and the right code.\<close>

theorem invited_login_refused_witness:
  "fst invited_sent = Inr () \<and>
   (\<exists>e. fst (login_with_code invited_config 20 demo_ids True ''new@x.y'' ''424242'' (Some ''INV1'') no_client (snd invited_sent)) = Inl e)"
proof -
  have ok: "fst invited_sent = Inr ()" by code_simp
  then have sent: "send_login_code invited_config 10 ''424242'' True ''new@x.y'' (Some ''INV1'') None invited_state = (Inr (), snd invited_sent)"
    by (simp add: invited_sent_def prod_eq_iff)
  have ctl: "cf_control invited_config" "\<not> cf_dev invited_config" by code_simp+
  have up: "cs_redis (au_cache invited_state)" by code_simp
  have new: "get_user_by_login_email ''new@x.y'' invited_state = None" by code_simp
  from invited_login_refused [OF ctl up _ new sent _ _ _ prod.collapse [symmetric], of 20 "Some ''INV1''"] ok
  show ?thesis by simp
qed

end
