(* ===== verification/Auth_Sessions.thy ===== *)
theory Auth_Sessions
  imports Auth_Properties
begin

section \<open>Refresh tokens over whole histories\<close>

text \<open>
  The operations of src/app/services/users/auth_service.py that touch sessions, tokens or users, as steps over
  the service's state together with what was issued, redeemed and drawn so far. Token ids, session keys
  and user ids are drawn fresh, and a presented token verifies only if its payload was issued: that is
  what the random source and the signature of the JWT library give.
\<close>

record auth_ghost =
  ag_state :: auth_state
  ag_issued :: "token_payload list"
  ag_redeemed :: "string list"
  ag_ids :: "string list"

definition fresh_ids :: "auth_ghost \<Rightarrow> string list \<Rightarrow> bool" where
  "fresh_ids g xs \<longleftrightarrow> distinct xs \<and> set xs \<inter> set (ag_ids g) = {} \<and> [] \<notin> set xs"

definition genuine :: "('t \<Rightarrow> token_payload option) \<Rightarrow> 't \<Rightarrow> auth_ghost \<Rightarrow> bool" where
  "genuine dec tok g \<longleftrightarrow> (case dec tok of None \<Rightarrow> True | Some p \<Rightarrow> p \<in> set (ag_issued g))"

definition issue :: "auth_state \<Rightarrow> token_payload \<times> token_payload \<Rightarrow> string list \<Rightarrow> auth_ghost \<Rightarrow> auth_ghost" where
  "issue s ts ids g = g\<lparr>ag_state := s, ag_issued := fst ts # snd ts # ag_issued g, ag_ids := ids @ ag_ids g\<rparr>"

definition redeem :: "string \<Rightarrow> auth_ghost \<Rightarrow> auth_ghost" where
  "redeem jti g = g\<lparr>ag_redeemed := jti # ag_redeemed g\<rparr>"

inductive auth_step :: "auth_config \<Rightarrow> ('t \<Rightarrow> token_payload option) \<Rightarrow> auth_ghost \<Rightarrow> auth_ghost \<Rightarrow> bool" for cf dec where
  login: "fresh_ids g [ni_sid ids, ni_access ids, ni_refresh ids] \<Longrightarrow> dget (au_users (ag_state g)) (ni_user ids) = None \<Longrightarrow>
    login_with_code cf now ids ok email code invite ci (ag_state g) = (Inr ts, s') \<Longrightarrow>
    auth_step cf dec g (issue s' ts [ni_sid ids, ni_access ids, ni_refresh ids] g)"
| login_refused: "dget (au_users (ag_state g)) (ni_user ids) = None \<Longrightarrow>
    login_with_code cf now ids ok email code invite ci (ag_state g) = (Inl e, s') \<Longrightarrow> auth_step cf dec g (g\<lparr>ag_state := s'\<rparr>)"
| refresh: "fresh_ids g [a, r] \<Longrightarrow> genuine dec tok g \<Longrightarrow> refresh_tokens cf dec now a r tok (ag_state g) = (Inr ts, s') \<Longrightarrow>
    auth_step cf dec g (redeem (the (tp_jti (the (dec tok)))) (issue s' ts [a, r] g))"
| refresh_refused: "genuine dec tok g \<Longrightarrow> refresh_tokens cf dec now a r tok (ag_state g) = (Inl e, s') \<Longrightarrow>
    auth_step cf dec g (g\<lparr>ag_state := s'\<rparr>)"
| logout: "auth_step cf dec g (g\<lparr>ag_state := logout_with_tokens cf dec now user access tok' (ag_state g)\<rparr>)"
| revoke_one: "auth_step cf dec g (g\<lparr>ag_state := snd (revoke_login_session cf now user i (ag_state g))\<rparr>)"
| revoke_all: "auth_step cf dec g (g\<lparr>ag_state := revoke_all_tokens cf now user (ag_state g)\<rparr>)"
| revoke_others: "auth_step cf dec g (g\<lparr>ag_state := snd (revoke_all_other_sessions now user key (ag_state g))\<rparr>)"
| touch: "auth_step cf dec g (g\<lparr>ag_state := touch_session now key (ag_state g)\<rparr>)"
| ban: "auth_step cf dec g (g\<lparr>ag_state := ban_user cf now user reason hours tenant (ag_state g)\<rparr>)"
| unban: "auth_step cf dec g (g\<lparr>ag_state := unban_user now user (ag_state g)\<rparr>)"
| code: "auth_step cf dec g (g\<lparr>ag_state := snd (send_login_code cf now random delivered email invite ip (ag_state g))\<rparr>)"

subsection \<open>What the operations keep\<close>

definition sess_ids :: "auth_state \<Rightarrow> string \<Rightarrow> (string \<times> string) option" where
  "sess_ids s k = map_option (\<lambda>r. (ls_user r, ls_refresh_jti r)) (dget (au_sessions s) k)"

definition versions_grow :: "auth_state \<Rightarrow> auth_state \<Rightarrow> bool" where
  "versions_grow s s' \<longleftrightarrow> (\<forall>i u. dget (au_users s) i = Some u \<longrightarrow> (\<exists>u'. dget (au_users s') i = Some u' \<and> u_version u \<le> u_version u')) \<and>
     (dict_wf (au_users s) \<longrightarrow> dict_wf (au_users s'))"

definition keeps :: "auth_state \<Rightarrow> auth_state \<Rightarrow> bool" where
  "keeps s s' \<longleftrightarrow> sess_ids s' = sess_ids s \<and> versions_grow s s' \<and> (dict_wf (au_sessions s) \<longrightarrow> dict_wf (au_sessions s'))"

lemma versions_grow_refl [simp]: "versions_grow s s"
  by (simp add: versions_grow_def)

lemma versions_grow_trans: "versions_grow s s1 \<Longrightarrow> versions_grow s1 s2 \<Longrightarrow> versions_grow s s2"
  unfolding versions_grow_def by (meson order_trans)

lemma keeps_refl [simp, intro]: "keeps s s"
  by (simp add: keeps_def)

lemma keeps_trans: "keeps s s1 \<Longrightarrow> keeps s1 s2 \<Longrightarrow> keeps s s2"
  unfolding keeps_def using versions_grow_trans by auto

lemma keeps_same: "au_sessions s' = au_sessions s \<Longrightarrow> au_users s' = au_users s \<Longrightarrow> keeps s s'"
  by (auto simp: keeps_def sess_ids_def versions_grow_def)

lemma keeps_cache [intro]: "keeps s (aset now k v ttl s)" "keeps s (adel k s)" "keeps s (with_cache f s)"
  by (simp_all add: keeps_same)

lemma keeps_put_session:
  assumes "sess_ids s k = Some (ls_user r, ls_refresh_jti r)"
  shows "keeps s (put_session k r s)"
  using assms by (auto simp: keeps_def sess_ids_def put_session_def versions_grow_def)

lemma keeps_blacklist: "keeps s (blacklist_access_token cf now j s)"
  by (auto simp: blacklist_access_token_def)

lemma keeps_delete_refresh: "keeps s (delete_refresh_token j s)"
  by (auto simp: delete_refresh_token_def)

lemma keeps_invalidate:
  assumes "sess_ids s k = Some (ls_user r, ls_refresh_jti r)"
  shows "keeps s (invalidate_login_session cf now a (k, r) s)"
proof -
  let ?r1 = "if ls_revoked_at r = None then r\<lparr>ls_revoked_at := Some now\<rparr> else r"
  have "keeps s (put_session k ?r1 s)" by (rule keeps_put_session) (simp add: assms)
  then show ?thesis
    unfolding invalidate_login_session_def Let_def prod.case
    by (simp add: keeps_trans [OF _ keeps_blacklist] keeps_trans [OF _ keeps_delete_refresh])
qed

lemma keeps_invalidate_list:
  assumes "\<forall>(k, r) \<in> set xs. sess_ids s k = Some (ls_user r, ls_refresh_jti r)"
  shows "keeps s (fold (invalidate_login_session cf now a) xs s)"
  using assms
proof (induction xs arbitrary: s)
  case (Cons x xs)
  obtain k r where x: "x = (k, r)" by (cases x)
  let ?s1 = "invalidate_login_session cf now a x s"
  have k1: "keeps s ?s1" using Cons.prems x by (auto intro: keeps_invalidate)
  then have "\<forall>(k, r) \<in> set xs. sess_ids ?s1 k = Some (ls_user r, ls_refresh_jti r)"
    using Cons.prems by (auto simp: keeps_def)
  from Cons.IH [OF this] k1 show ?case by (auto intro: keeps_trans)
qed simp

lemma keeps_increment: "keeps s (increment_token_version user s)"
  by (auto simp: keeps_def sess_ids_def versions_grow_def increment_token_version_def split: option.splits)


lemma sess_ids_wf:
  assumes "dict_wf (au_sessions s)" and "(k, r) \<in> set (au_sessions s)"
  shows "sess_ids s k = Some (ls_user r, ls_refresh_jti r)"
  using assms by (simp add: sess_ids_def dict_wf_get)

lemma keeps_revoke_all:
  assumes "dict_wf (au_sessions s)"
  shows "keeps s (revoke_all_tokens cf now user s)"
  unfolding revoke_all_tokens_def
  by (rule keeps_trans [OF keeps_invalidate_list keeps_increment])
     (auto simp: list_active_by_user_def sess_ids_wf [OF assms])

lemma keeps_mark_used: "keeps s (mark_refresh_used now jti d s)"
  by (simp add: mark_refresh_used_def keeps_cache)

lemma get_active_ids: "get_active_by_key k s = Some r \<Longrightarrow> sess_ids s k = Some (ls_user r, ls_refresh_jti r)"
  by (auto simp: get_active_by_key_def sess_ids_def split: option.splits if_splits)

lemma keeps_refresh_refused:
  assumes "refresh_tokens cf dec now a r tok s = (Inl e, s')" and "dict_wf (au_sessions s)"
  shows "keeps s s'"
  using assms(1) keeps_revoke_all [OF assms(2), of cf now] keeps_mark_used
  by (auto simp: refresh_tokens_def Let_def split: option.splits if_splits subject.splits prod.splits)

lemma keeps_revoke_by_key:
  assumes "revoke_by_session_key now user key s = (x, s')"
  shows "keeps s s'" and "x = Some (k, r) \<Longrightarrow> sess_ids s' k = Some (ls_user r, ls_refresh_jti r)"
  using assms get_active_ids [of key s]
  by (auto simp: revoke_by_session_key_def Let_def intro!: keeps_put_session split: option.splits if_splits)
     (simp_all add: put_session_def sess_ids_def)

lemma keeps_logout: "keeps s (logout_with_tokens cf dec now user access refresh s)"
proof -
  obtain ajti asid where a: "extract_token_identity dec access = (ajti, asid)" by fastforce
  obtain rjti rsid where r: "extract_token_identity dec refresh = (rjti, rsid)" by fastforce
  let ?s1 = "if str_truthy ajti then logout cf now ajti rjti s else s" and ?k = "the (str_or asid rsid)"
  have k1: "keeps s ?s1"
    by (simp add: logout_def keeps_trans [OF keeps_blacklist keeps_delete_refresh])
  obtain x s2 where v: "revoke_by_session_key now user ?k ?s1 = (x, s2)" by fastforce
  have k2: "keeps s s2" using k1 keeps_revoke_by_key(1) [OF v] keeps_trans by blast
  show ?thesis
  proof (cases x)
    case None
    then show ?thesis using k1 k2 v by (simp add: logout_with_tokens_def a r Let_def)
  next
    case (Some y)
    obtain k q where y: "y = (k, q)" by (cases y)
    have "keeps s2 (invalidate_login_session cf now ajti (k, q) s2)"
      using keeps_revoke_by_key(2) [OF v] Some y by (auto intro: keeps_invalidate)
    with k1 k2 v Some y show ?thesis
      by (auto simp: logout_with_tokens_def a r Let_def intro: keeps_trans)
  qed
qed

lemma keeps_revoke_one:
  assumes "dict_wf (au_sessions s)"
  shows "keeps s (snd (revoke_login_session cf now user i s))"
proof -
  obtain x s1 where v: "revoke_session now user i s = (x, s1)" by fastforce
  have mem: "session_by_id user i s = Some (k, r) \<Longrightarrow> (k, r) \<in> set (au_sessions s)" for k r
    by (auto simp: session_by_id_def find_Some_iff in_set_conv_nth)
  have k1: "keeps s s1" and some: "x = Some (k, r) \<Longrightarrow> sess_ids s1 k = Some (ls_user r, ls_refresh_jti r)" for k r
    using v sess_ids_wf [OF assms mem]
    by (auto simp: revoke_session_def Let_def intro!: keeps_put_session split: option.splits if_splits)
       (simp_all add: put_session_def sess_ids_def)
  show ?thesis
  proof (cases x)
    case None
    then show ?thesis using k1 v by (simp add: revoke_login_session_def)
  next
    case (Some y)
    obtain k r where y: "y = (k, r)" by (cases y)
    from keeps_invalidate [OF some [OF Some [unfolded y]]] k1 v Some y show ?thesis
      by (auto simp: revoke_login_session_def intro: keeps_trans)
  qed
qed

lemma keeps_revoke_others: "keeps s (snd (revoke_all_other_sessions now user key s))"
proof -
  let ?f = "\<lambda>k r. if ls_user r = user \<and> k \<noteq> key \<and> ls_revoked_at r = None then r\<lparr>ls_revoked_at := Some now\<rparr> else r"
  let ?s' = "snd (revoke_all_other_sessions now user key s)"
  have ses: "au_sessions ?s' = map (\<lambda>(k, r). (k, ?f k r)) (au_sessions s)" and usr: "au_users ?s' = au_users s"
    by (simp_all add: revoke_all_other_sessions_def Let_def)
  have "map_of (map (\<lambda>(k, r). (k, ?f k r)) xs) k = map_option (?f k) (map_of xs k)" for xs :: "(string \<times> login_session) list" and k
    by (induction xs) auto
  then have "sess_ids ?s' k = sess_ids s k" for k
    by (cases "dget (au_sessions s) k") (auto simp: sess_ids_def ses)
  moreover have "dkeys (au_sessions ?s') = dkeys (au_sessions s)" unfolding ses by (simp add: o_def case_prod_beta)
  ultimately show ?thesis by (auto simp: keeps_def versions_grow_def usr dict_wf_def)
qed

lemma keeps_touch: "keeps s (touch_session now key s)"
  using get_active_ids [of key s] by (auto simp: touch_session_def intro!: keeps_put_session split: option.splits)

lemma keeps_bans:
  assumes "dict_wf (au_sessions s)"
  shows "keeps s (ban_user cf now user reason hours tenant s)" and "keeps s (unban_user now user s)"
proof -
  let ?d = "PDict (ban_data now reason hours tenant)"
  let ?s1 = "aset_ttl now (user_ban_key user) ?d (ban_ttl hours) (aset_ttl now (ban_key user) ?d (ban_ttl hours) s)"
  let ?s2 = "if str_truthy tenant then aset_ttl now (tenant_ban_flag (the tenant)) ?d (ban_ttl hours) ?s1 else ?s1"
  have same: "au_sessions ?s2 = au_sessions s" "au_users ?s2 = au_users s" by (simp_all add: aset_ttl_def)
  then have k: "keeps s (revoke_all_tokens cf now user ?s2)"
    using keeps_trans [OF keeps_same keeps_revoke_all] assms by metis
  show "keeps s (ban_user cf now user reason hours tenant s)"
    unfolding ban_user_def Let_def by (rule keeps_trans [OF k]) (rule keeps_same; simp)
  show "keeps s (unban_user now user s)"
    by (rule keeps_same) (simp_all add: unban_user_def Let_def split: pyval.splits)
qed

lemma send_code_same:
  "au_sessions (snd (send_login_code cf now random delivered email invite ip s)) = au_sessions s"
  "au_users (snd (send_login_code cf now random delivered email invite ip s)) = au_users s"
  by (auto simp: send_login_code_def send_verification_code_def Let_def split: option.splits prod.splits sum.splits)


text \<open>Logging in: the users it may add or activate, and the session it opens.\<close>

lemma versions_grow_new:
  assumes "dget (au_users s) i = None" and "au_users s' = dput i u (au_users s)"
  shows "versions_grow s s'"
  using assms by (auto simp: versions_grow_def)

lemma activate_grow:
  assumes "activate_user_for_login x s = (r, s')"
  shows "versions_grow s s'" and "au_sessions s' = au_sessions s" and "au_cache s' = au_cache s"
    and "r = Inr (i, u) \<Longrightarrow> dget (au_users s) (fst x) = Some (snd x) \<Longrightarrow> dget (au_users s') i = Some u"
  using assms by (auto simp: activate_user_for_login_def versions_grow_def Let_def split: prod.splits if_splits option.splits)

lemma user_by_email_row: "dict_wf (au_users s) \<Longrightarrow> user_by_email e s = Some (i, u) \<Longrightarrow> dget (au_users s) i = Some u"
  by (auto simp: user_by_email_def find_Some_iff in_set_conv_nth intro!: dict_wf_get)

lemma get_user_row: "dict_wf (au_users s) \<Longrightarrow> get_user_by_login_email e s = Some (i, u) \<Longrightarrow> dget (au_users s) i = Some u"
  by (auto simp: get_user_by_login_email_def Let_def dest: user_by_email_row split: option.splits)

lemma provision_grow:
  assumes "provision_user cf now i ok e code s = (r, s')" and "dget (au_users s) i = None" and "dict_wf (au_users s)"
  shows "versions_grow s s'" and "au_sessions s' = au_sessions s" and "r = Inr (j, u) \<Longrightarrow> dget (au_users s') j = Some u"
  using assms
  by (auto simp: provision_user_def Let_def dest: user_by_email_row intro: versions_grow_new
      split: option.splits prod.splits sum.splits) (auto simp: versions_grow_def)

lemma provision_login_grow:
  assumes "provision_login_user cf now i ok e iv s = (r, s')" and "dget (au_users s) i = None" and "dict_wf (au_users s)"
  shows "versions_grow s s'" and "au_sessions s' = au_sessions s" and "r = Inr (j, u) \<Longrightarrow> dget (au_users s') j = Some u"
proof -
  let ?c = "as_dict (aget now (temp_invite_key e) s)"
  let ?code = "str_or iv (case py_get ?c ''code'' PNone of PStr c \<Rightarrow> Some c | _ \<Rightarrow> None)"
  obtain x s1 where p: "provision_user cf now i ok e ?code s = (x, s1)" by fastforce
  note P = provision_grow [OF p assms(2,3)]
  have "versions_grow s s' \<and> au_sessions s' = au_sessions s \<and> (r = Inr (j, u) \<longrightarrow> dget (au_users s') j = Some u)"
  proof (cases x)
    case (Inl er)
    then have "s' = s1" "r = Inl er" using assms(1) p by (simp_all add: provision_login_user_def Let_def)
    with P show ?thesis by simp
  next
    case (Inr y)
    obtain z s2 where a: "activate_user_for_login y s1 = (z, s2)" by fastforce
    note A = activate_grow [OF a]
    have row: "dget (au_users s1) (fst y) = Some (snd y)" using P(3) [of "fst y" "snd y"] Inr by simp
    have s': "(au_users s' = au_users s2 \<and> au_sessions s' = au_sessions s2) \<and> (\<forall>q. r = Inr q \<longrightarrow> z = Inr q)"
      using assms(1) p a Inr
      by (auto simp: provision_login_user_def invite_finalize_def Let_def split: sum.splits prod.splits)
    have "versions_grow s s2" using P(1) A(1) by (rule versions_grow_trans)
    with s' A(2,4) P(2) row show ?thesis by (auto simp: versions_grow_def)
  qed
  then show "versions_grow s s'" "au_sessions s' = au_sessions s" "r = Inr (j, u) \<Longrightarrow> dget (au_users s') j = Some u" by blast+
qed

lemma resolve_grow:
  assumes "resolve_login_user cf now i ok e iv s = (r, s')" and "dget (au_users s) i = None" and "dict_wf (au_users s)"
  shows "versions_grow s s'" and "au_sessions s' = au_sessions s" and "r = Inr ((j, u), b) \<Longrightarrow> dget (au_users s') j = Some u"
proof -
  let ?e = "normalize_login_email e"
  have "versions_grow s s' \<and> au_sessions s' = au_sessions s \<and> (r = Inr ((j, u), b) \<longrightarrow> dget (au_users s') j = Some u)"
  proof (cases "get_user_by_login_email e s")
    case None
    obtain x s1 where p: "provision_login_user cf now i ok ?e iv s = (x, s1)" by fastforce
    have "s' = s1 \<and> (r = Inr ((j, u), b) \<longrightarrow> x = Inr (j, u))"
      using assms(1) None p by (auto simp: resolve_login_user_def Let_def split: sum.splits)
    with provision_login_grow [OF p assms(2,3)] show ?thesis by auto
  next
    case (Some y)
    obtain x s1 where a: "activate_user_for_login y s = (x, s1)" by fastforce
    have "s' = s1 \<and> (r = Inr ((j, u), b) \<longrightarrow> x = Inr (j, u))"
      using assms(1) Some a by (auto simp: resolve_login_user_def Let_def split: sum.splits)
    moreover have "dget (au_users s) (fst y) = Some (snd y)"
      using get_user_row [OF assms(3), of e "fst y" "snd y"] Some by simp
    ultimately show ?thesis using activate_grow [OF a] by auto
  qed
  then show "versions_grow s s'" "au_sessions s' = au_sessions s" "r = Inr ((j, u), b) \<Longrightarrow> dget (au_users s') j = Some u" by blast+
qed

lemma verify_code_sessions: "verify_code cf now e code p ip s = (b, s') \<Longrightarrow> au_sessions s' = au_sessions s"
  by (auto simp: verify_code_def Let_def split: prod.splits if_splits)

lemma versions_grow_same: "au_users s' = au_users s \<Longrightarrow> versions_grow s s'"
  by (auto simp: versions_grow_def)

lemma login_outcome:
  assumes run: "login_with_code cf now ids ok email code iv ci s = (r, s')"
    and new: "dget (au_users s) (ni_user ids) = None" and wf: "dict_wf (au_users s)"
  shows "versions_grow s s'"
    and "r = Inl e \<Longrightarrow> au_sessions s' = au_sessions s"
    and "r = Inr ts \<Longrightarrow> \<exists>i u. dget (au_users s') i = Some u \<and>
      ts = (create_access_token cf now i (ni_access ids) (u_version u) (ni_sid ids),
            create_refresh_token cf now i (ni_refresh ids) (u_version u) (ni_sid ids)) \<and>
      sess_ids s' = (sess_ids s)(ni_sid ids := Some (i, ni_refresh ids)) \<and>
      (dict_wf (au_sessions s) \<longrightarrow> dict_wf (au_sessions s'))"
proof -
  let ?e = "normalize_login_email email"
  obtain b s1 where v: "verify_code cf now ?e code ''login'' (ci_ip ci) s = (b, s1)" by fastforce
  note V = verify_code_frame(1) [OF v] verify_code_sessions [OF v]
  obtain x s2 where rs: "resolve_login_user cf now (ni_user ids) ok ?e iv s1 = (x, s2)" by fastforce
  have new1: "dget (au_users s1) (ni_user ids) = None" and wf1: "dict_wf (au_users s1)" using new wf V(1) by simp_all
  note R = resolve_grow [OF rs new1 wf1]
  have g12: "versions_grow s s2" using R(1) V(1) by (metis versions_grow_same versions_grow_trans)
  have cases: "(\<exists>e. r = Inl e \<and> au_sessions s' = au_sessions s \<and> versions_grow s s') \<or>
    (\<exists>i u c. x = Inr ((i, u), c) \<and> create_session_tokens cf now (ni_session ids) (ni_sid ids) (ni_access ids) (ni_refresh ids) i u ci
        (reset_login_failures ?e s2) = (case r of Inr ts \<Rightarrow> ts | Inl _ \<Rightarrow> undefined, s') \<and> (\<exists>ts. r = Inr ts))"
    using run V R(2) g12 versions_grow_same [OF V(1)]
    by (auto simp: login_with_code_def v rs increment_login_failure_def Let_def versions_grow_def
        split: option.splits bool.splits sum.splits prod.splits)
  have main: "\<exists>i u. dget (au_users s') i = Some u \<and>
      ts = (create_access_token cf now i (ni_access ids) (u_version u) (ni_sid ids),
            create_refresh_token cf now i (ni_refresh ids) (u_version u) (ni_sid ids)) \<and>
      sess_ids s' = (sess_ids s)(ni_sid ids := Some (i, ni_refresh ids)) \<and>
      (dict_wf (au_sessions s) \<longrightarrow> dict_wf (au_sessions s')) \<and> versions_grow s s'" if "r = Inr ts" for ts
  proof -
    from cases that obtain i u c where x: "x = Inr ((i, u), c)" and t: "create_session_tokens cf now (ni_session ids) (ni_sid ids)
        (ni_access ids) (ni_refresh ids) i u ci (reset_login_failures ?e s2) = (ts, s')" by auto
    have u': "au_users s' = au_users s2" and se: "\<exists>q. au_sessions s' = dput (ni_sid ids) q (au_sessions s2) \<and> ls_user q = i \<and> ls_refresh_jti q = ni_refresh ids"
      and ts: "ts = (create_access_token cf now i (ni_access ids) (u_version u) (ni_sid ids), create_refresh_token cf now i (ni_refresh ids) (u_version u) (ni_sid ids))"
      using t by (auto simp: create_session_tokens_def create_tokens_def create_session_def reset_login_failures_def Let_def)
    from se R(2) V(2) have "sess_ids s' = (sess_ids s)(ni_sid ids := Some (i, ni_refresh ids))"
      and "dict_wf (au_sessions s) \<longrightarrow> dict_wf (au_sessions s')"
      by (auto simp: sess_ids_def fun_eq_iff)
    moreover have "versions_grow s s'" using g12 u' by (simp add: versions_grow_def)
    ultimately show ?thesis using u' ts R(3) [OF x] by auto
  qed
  show "versions_grow s s'" using cases main by (cases r) auto
  show "au_sessions s' = au_sessions s" if "r = Inl e" using cases that by auto
  show "\<exists>i u. dget (au_users s') i = Some u \<and>
      ts = (create_access_token cf now i (ni_access ids) (u_version u) (ni_sid ids),
            create_refresh_token cf now i (ni_refresh ids) (u_version u) (ni_sid ids)) \<and>
      sess_ids s' = (sess_ids s)(ni_sid ids := Some (i, ni_refresh ids)) \<and>
      (dict_wf (au_sessions s) \<longrightarrow> dict_wf (au_sessions s'))" if "r = Inr ts"
    using main [OF that] by blast
qed

lemma refresh_outcome:
  assumes "refresh_tokens cf dec now a r tok s = (Inr ts, s')"
  obtains p user jti sid and u :: auth_user where "dec tok = Some p" and "tp_sub p = Uuid user" and "tp_jti p = Some jti"
    and "sess_ids s sid = Some (user, jti)" and "dget (au_users s) user = Some u"
    and "u_version u = (case tp_version p of None \<Rightarrow> 0 | Some v \<Rightarrow> v)"
    and "ts = (create_access_token cf now user a (u_version u) sid, create_refresh_token cf now user r (u_version u) sid)"
    and "au_users s' = au_users s" and "sess_ids s' = (sess_ids s)(sid := Some (user, r))"
    and "dict_wf (au_sessions s) \<Longrightarrow> dict_wf (au_sessions s')"
proof -
  from assms obtain p user jti sid q d and u :: auth_user where
    A: "dec tok = Some p" "tp_sub p = Uuid user" "tp_jti p = Some jti" "get_active_by_key sid s = Some q" "ls_user q = user"
      "ls_refresh_jti q = jti" "dget (au_users s) user = Some u" "u_version u = (case tp_version p of None \<Rightarrow> 0 | Some v \<Rightarrow> v)"
      "ts = (create_access_token cf now user a (u_version u) sid, create_refresh_token cf now user r (u_version u) sid)"
    and s': "s' = rotate_session_tokens now sid a r
           (aset now (refresh_key r) (PDict (refresh_entry user (u_version u) sid)) (cf_refresh_days cf * 24 * 3600)
             (mark_refresh_used now jti d s))"
    by (rule refresh_success)
  let ?s1 = "aset now (refresh_key r) (PDict (refresh_entry user (u_version u) sid)) (cf_refresh_days cf * 24 * 3600)
             (mark_refresh_used now jti d s)"
  have same: "au_sessions ?s1 = au_sessions s" "au_users ?s1 = au_users s" by (simp_all add: mark_refresh_used_def)
  then have "get_active_by_key sid ?s1 = Some q" using A(4) by (simp add: get_active_by_key_def)
  then have ses: "au_sessions s' = dput sid (q\<lparr>ls_access_jti := a, ls_refresh_jti := r, ls_last_active := now\<rparr>) (au_sessions s)"
    and usr: "au_users s' = au_users s"
    by (simp_all add: s' rotate_session_tokens_def put_session_def mark_refresh_used_def)
  have "sess_ids s' = (sess_ids s)(sid := Some (user, r))" using A(5) by (auto simp: sess_ids_def ses fun_eq_iff)
  moreover have "dict_wf (au_sessions s) \<Longrightarrow> dict_wf (au_sessions s')" by (simp add: ses)
  moreover have "sess_ids s sid = Some (user, jti)" using get_active_ids [OF A(4)] A(5,6) by simp
  ultimately show thesis using that A usr by blast
qed

subsection \<open>The invariant of a history\<close>

definition ghost_inv :: "auth_ghost \<Rightarrow> bool" where
  "ghost_inv g \<longleftrightarrow> dict_wf (au_users (ag_state g)) \<and> dict_wf (au_sessions (ag_state g)) \<and>
     (\<forall>k1 k2 x1 x2 j. sess_ids (ag_state g) k1 = Some (x1, j) \<and> sess_ids (ag_state g) k2 = Some (x2, j) \<longrightarrow> k1 = k2) \<and>
     (\<forall>k x j. sess_ids (ag_state g) k = Some (x, j) \<longrightarrow> j \<in> set (ag_ids g) \<and> j \<notin> set (ag_redeemed g)) \<and>
     set (ag_redeemed g) \<subseteq> set (ag_ids g) \<and>
     (\<forall>p \<in> set (ag_issued g). \<exists>i v u. tp_sub p = Uuid i \<and> tp_version p = Some v \<and>
        dget (au_users (ag_state g)) i = Some u \<and> v \<le> u_version u)"

lemma issued_grow:
  assumes "\<forall>p \<in> set ps. \<exists>i v u. tp_sub p = Uuid i \<and> tp_version p = Some v \<and> dget (au_users s) i = Some u \<and> v \<le> u_version u"
    and "versions_grow s s'"
  shows "\<forall>p \<in> set ps. \<exists>i v u. tp_sub p = Uuid i \<and> tp_version p = Some v \<and> dget (au_users s') i = Some u \<and> v \<le> u_version u"
  using assms unfolding versions_grow_def by (meson order_trans)

lemma ghost_inv_keeps:
  assumes "ghost_inv g" and "keeps (ag_state g) s'"
  shows "ghost_inv (g\<lparr>ag_state := s'\<rparr>)"
  using assms issued_grow [of "ag_issued g" "ag_state g" s']
  by (auto simp: ghost_inv_def keeps_def versions_grow_def)

text \<open>A new refresh id in place of at most one old one, which then counts as redeemed.\<close>

lemma ghost_inv_issue:
  assumes inv: "ghost_inv g" and ids: "r \<notin> set (ag_ids g)" "r \<in> set ids"
    and ses: "sess_ids s' = (sess_ids (ag_state g))(k := Some (i, r))" and wf: "dict_wf (au_users s')" "dict_wf (au_sessions s')"
    and grow: "versions_grow (ag_state g) s'" and row: "dget (au_users s') i = Some u"
    and ts: "ts = (create_access_token cf now i a (u_version u) k, create_refresh_token cf now i r (u_version u) k)"
    and old: "js = [] \<or> (\<exists>x j. js = [j] \<and> sess_ids (ag_state g) k = Some (x, j))"
  shows "ghost_inv (g\<lparr>ag_state := s', ag_issued := fst ts # snd ts # ag_issued g, ag_ids := ids @ ag_ids g, ag_redeemed := js @ ag_redeemed g\<rparr>)"
proof -
  have I: "\<forall>k1 k2 x1 x2 j. sess_ids (ag_state g) k1 = Some (x1, j) \<and> sess_ids (ag_state g) k2 = Some (x2, j) \<longrightarrow> k1 = k2"
    and J: "\<forall>k x j. sess_ids (ag_state g) k = Some (x, j) \<longrightarrow> j \<in> set (ag_ids g) \<and> j \<notin> set (ag_redeemed g)"
    and R: "set (ag_redeemed g) \<subseteq> set (ag_ids g)" using inv by (auto simp: ghost_inv_def)
  have P: "\<forall>p \<in> set (ag_issued g). \<exists>i v u. tp_sub p = Uuid i \<and> tp_version p = Some v \<and> dget (au_users s') i = Some u \<and> v \<le> u_version u"
    using inv unfolding ghost_inv_def by (intro issued_grow [OF _ grow]) (elim conjE)
  have tok: "\<forall>p \<in> {fst ts, snd ts}. tp_sub p = Uuid i \<and> tp_version p = Some (u_version u)"
    by (simp add: ts create_access_token_def create_refresh_token_def)
  have js: "set js \<subseteq> set (ag_ids g)" using old J by auto
  have inj: "k1 = k2" if "sess_ids s' k1 = Some (x1, j)" "sess_ids s' k2 = Some (x2, j)" for k1 k2 x1 x2 j
    using that I J ids(1) by (auto simp: ses split: if_splits)
  have new: "j \<in> set (ids @ ag_ids g) \<and> j \<notin> set (js @ ag_redeemed g)" if s: "sess_ids s' k' = Some (x, j)" for k' x j
  proof (cases "k' = k")
    case True
    then have "j = r" using s by (simp add: ses)
    then show ?thesis using ids js R by auto
  next
    case False
    then have "sess_ids (ag_state g) k' = Some (x, j)" using s by (simp add: ses)
    moreover from this have "j \<notin> set js" using old I False by auto
    ultimately show ?thesis using J by auto
  qed
  have iss: "\<forall>p \<in> set (fst ts # snd ts # ag_issued g). \<exists>i v u. tp_sub p = Uuid i \<and> tp_version p = Some v \<and>
      dget (au_users s') i = Some u \<and> v \<le> u_version u"
  proof (rule ballI)
    fix p assume "p \<in> set (fst ts # snd ts # ag_issued g)"
    then consider (new) "p \<in> {fst ts, snd ts}" | (old) "p \<in> set (ag_issued g)" by auto
    then show "\<exists>i v u. tp_sub p = Uuid i \<and> tp_version p = Some v \<and> dget (au_users s') i = Some u \<and> v \<le> u_version u"
    proof cases
      case new
      then have "tp_sub p = Uuid i" "tp_version p = Some (u_version u)" using tok by blast+
      with row show ?thesis by blast
    next
      case old
      with P show ?thesis by blast
    qed
  qed
  let ?g = "g\<lparr>ag_state := s', ag_issued := fst ts # snd ts # ag_issued g, ag_ids := ids @ ag_ids g, ag_redeemed := js @ ag_redeemed g\<rparr>"
  have sel: "ag_state ?g = s'" "ag_issued ?g = fst ts # snd ts # ag_issued g" "ag_ids ?g = ids @ ag_ids g"
    "ag_redeemed ?g = js @ ag_redeemed g" by simp_all
  have "set (js @ ag_redeemed g) \<subseteq> set (ids @ ag_ids g)" using js R by auto
  with wf iss inj new show ?thesis unfolding ghost_inv_def sel by (intro conjI allI impI; (elim conjE)?) blast+
qed

lemma auth_step_inv:
  assumes "auth_step cf dec g g'" and inv: "ghost_inv g"
  shows "ghost_inv g' \<and> versions_grow (ag_state g) (ag_state g') \<and> set (ag_issued g) \<subseteq> set (ag_issued g')"
proof -
  have wfu: "dict_wf (au_users (ag_state g))" and wfs: "dict_wf (au_sessions (ag_state g))"
    using inv by (auto simp: ghost_inv_def)
  have quiet: ?thesis if "keeps (ag_state g) s'" "g' = g\<lparr>ag_state := s'\<rparr>" for s'
    using ghost_inv_keeps [OF inv that(1)] that by (simp add: keeps_def)
  from assms(1) show ?thesis
  proof cases
    case (login ids now ok email code invite ci ts s')
    note L = login_outcome [OF login(4,3) wfu]
    obtain i u where o: "dget (au_users s') i = Some u"
      "ts = (create_access_token cf now i (ni_access ids) (u_version u) (ni_sid ids),
            create_refresh_token cf now i (ni_refresh ids) (u_version u) (ni_sid ids))"
      "sess_ids s' = (sess_ids (ag_state g))(ni_sid ids := Some (i, ni_refresh ids))" "dict_wf (au_sessions s')"
      using L(3) wfs by blast
    have "ghost_inv (g\<lparr>ag_state := s', ag_issued := fst ts # snd ts # ag_issued g,
        ag_ids := [ni_sid ids, ni_access ids, ni_refresh ids] @ ag_ids g, ag_redeemed := [] @ ag_redeemed g\<rparr>)"
      using L(1) wfu login(2)
      by (intro ghost_inv_issue [OF inv _ _ o(3) _ o(4) L(1) o(1,2)]) (auto simp: versions_grow_def fresh_ids_def)
    then show ?thesis using L(1) login(1) by (auto simp: issue_def)
  next
    case (login_refused ids now ok email code invite ci e s')
    note L = login_outcome [OF login_refused(3,2) wfu]
    have "keeps (ag_state g) s'"
      using L(1) L(2) [of e] by (simp add: keeps_def sess_ids_def fun_eq_iff)
    with login_refused(1) show ?thesis by (intro quiet)
  next
    case (refresh a r tok now ts s')
    obtain p user jti sid and u :: auth_user where o: "dec tok = Some p" "tp_jti p = Some jti" "sess_ids (ag_state g) sid = Some (user, jti)"
      "dget (au_users (ag_state g)) user = Some u"
      "ts = (create_access_token cf now user a (u_version u) sid, create_refresh_token cf now user r (u_version u) sid)"
      "au_users s' = au_users (ag_state g)" "sess_ids s' = (sess_ids (ag_state g))(sid := Some (user, r))"
      "dict_wf (au_sessions s')"
      using refresh_outcome [OF refresh(4)] wfs by metis
    have grow: "versions_grow (ag_state g) s'" by (rule versions_grow_same) (rule o(6))
    have row: "dget (au_users s') user = Some u" using o(4,6) by simp
    have "ghost_inv (g\<lparr>ag_state := s', ag_issued := fst ts # snd ts # ag_issued g, ag_ids := [a, r] @ ag_ids g,
        ag_redeemed := [jti] @ ag_redeemed g\<rparr>)"
      using wfu refresh(2) o(3,6)
      by (intro ghost_inv_issue [OF inv _ _ o(7) _ o(8) grow row o(5)]) (auto simp: fresh_ids_def)
    then show ?thesis using grow refresh(1) o(1,2) by (auto simp: issue_def redeem_def)
  next
    case (refresh_refused tok now a r e s')
    from keeps_refresh_refused [OF refresh_refused(3) wfs] refresh_refused(1) show ?thesis by (intro quiet)
  next
    case (code now random delivered email invite ip)
    then show ?thesis by (intro quiet [OF keeps_same]) (simp_all add: send_code_same)
  qed (erule quiet [rotated], intro keeps_logout keeps_revoke_one keeps_revoke_all keeps_revoke_others keeps_touch keeps_bans wfs)+
qed

definition auth_start :: "auth_ghost \<Rightarrow> bool" where
  "auth_start g \<longleftrightarrow> ag_issued g = [] \<and> ag_redeemed g = [] \<and> au_sessions (ag_state g) = [] \<and> dict_wf (au_users (ag_state g))"

lemma auth_start_inv: "auth_start g \<Longrightarrow> ghost_inv g"
  by (simp add: auth_start_def ghost_inv_def sess_ids_def)

lemma auth_steps_inv:
  assumes "(auth_step cf dec)\<^sup>*\<^sup>* g g'" and "ghost_inv g"
  shows "ghost_inv g' \<and> versions_grow (ag_state g) (ag_state g') \<and> set (ag_issued g) \<subseteq> set (ag_issued g')"
  using assms
proof (induction rule: rtranclp_induct)
  case (step y z)
  then show ?case using auth_step_inv [OF step.hyps(2)] versions_grow_trans by blast
qed simp

text \<open>C25: over every history of logins, refreshes, log-outs, revocations and bans, a refresh token that was
  redeemed once is never redeemed again, whatever state the service is in and whenever it is presented.\<close>

theorem refresh_token_single_use:
  assumes "auth_start g0" and "(auth_step cf dec)\<^sup>*\<^sup>* g0 g" and "jti \<in> set (ag_redeemed g)"
    and "dec tok = Some p" and "tp_jti p = Some jti"
  shows "\<exists>e. fst (refresh_tokens cf dec now a r tok (ag_state g)) = Inl e"
proof (rule ccontr)
  assume "\<nexists>e. fst (refresh_tokens cf dec now a r tok (ag_state g)) = Inl e"
  then obtain ts s' where ok: "refresh_tokens cf dec now a r tok (ag_state g) = (Inr ts, s')"
    by (metis prod.collapse sum.exhaust)
  obtain q user jti' sid where o: "dec tok = Some q" "tp_jti q = Some jti'" "sess_ids (ag_state g) sid = Some (user, jti')"
    using refresh_outcome [OF ok] by metis
  have "ghost_inv g" using auth_steps_inv [OF assms(2) auth_start_inv [OF assms(1)]] by blast
  then have "jti' \<notin> set (ag_redeemed g)" using o(3) unfolding ghost_inv_def by blast
  with o(1,2) assms(3-5) show False by simp
qed

text \<open>C26: once all tokens of a user are revoked, no token issued to that user before is accepted any more, neither
  as an access token nor for a refresh, in any later state.\<close>

theorem revoke_all_is_final:
  assumes "auth_start g0" and "(auth_step cf dec)\<^sup>*\<^sup>* g0 g" and "dget (au_users (ag_state g)) user \<noteq> None"
    and "(auth_step cf dec)\<^sup>*\<^sup>* (g\<lparr>ag_state := revoke_all_tokens cf now user (ag_state g)\<rparr>) g'"
    and "p \<in> set (ag_issued g)" and "tp_sub p = Uuid user" and "dec tok = Some p"
  shows "(\<exists>e. get_user_from_jwt dec t tok (ag_state g') = Inl e) \<and>
    (\<exists>e. fst (refresh_tokens cf dec t a r tok (ag_state g')) = Inl e)"
proof -
  let ?s = "ag_state g" and ?g1 = "g\<lparr>ag_state := revoke_all_tokens cf now user (ag_state g)\<rparr>"
  have inv: "ghost_inv g" using auth_steps_inv [OF assms(2) auth_start_inv [OF assms(1)]] by blast
  then obtain v u where v: "tp_version p = Some v" "dget (au_users ?s) user = Some u" "v \<le> u_version u"
    using assms(5,6) unfolding ghost_inv_def by fastforce
  have inv1: "ghost_inv ?g1" using auth_step_inv [OF auth_step.revoke_all inv] by blast
  let ?f = "fold (invalidate_login_session cf now None) (list_active_by_user user ?s) ?s"
  have "keeps ?s ?f"
    using inv by (intro keeps_invalidate_list) (auto simp: list_active_by_user_def ghost_inv_def intro: sess_ids_wf)
  then obtain u1 where u1: "dget (au_users ?f) user = Some u1" "u_version u \<le> u_version u1"
    using v(2) by (auto simp: keeps_def versions_grow_def)
  have "dget (au_users (ag_state ?g1)) user = Some (u1\<lparr>u_version := u_version u1 + 1\<rparr>)"
    using u1(1) by (simp add: revoke_all_tokens_def increment_token_version_def)
  moreover have "versions_grow (ag_state ?g1) (ag_state g')" using auth_steps_inv [OF assms(4) inv1] by blast
  ultimately obtain u2 where u2: "dget (au_users (ag_state g')) user = Some u2" "u_version u1 + 1 \<le> u_version u2"
    unfolding versions_grow_def by fastforce
  have lt: "v < u_version u2" using v(3) u1(2) u2(2) by simp
  have "\<exists>e. fst (refresh_tokens cf dec t a r tok (ag_state g')) = Inl e"
  proof (rule ccontr)
    assume "\<nexists>e. fst (refresh_tokens cf dec t a r tok (ag_state g')) = Inl e"
    then obtain ts s' where ok: "refresh_tokens cf dec t a r tok (ag_state g') = (Inr ts, s')"
      by (metis prod.collapse sum.exhaust)
    obtain q user' and w :: auth_user where "dec tok = Some q" "tp_sub q = Uuid user'" "dget (au_users (ag_state g')) user' = Some w"
      "u_version w = (case tp_version q of None \<Rightarrow> 0 | Some v \<Rightarrow> v)"
      using refresh_outcome [OF ok] by metis
    with assms(6,7) u2(1) v(1) lt show False by simp
  qed
  moreover have "\<exists>e. get_user_from_jwt dec t tok (ag_state g') = Inl e"
    using assms(6,7) u2(1) v(1) lt by (simp add: get_user_from_jwt_def)
  ultimately show ?thesis by blast
qed

subsection \<open>An example history\<close>

definition hist0 :: auth_ghost where
  "hist0 = \<lparr>ag_state = demo_auth\<lparr>au_sessions := []\<rparr>, ag_issued = [], ag_redeemed = [], ag_ids = []\<rparr>"

definition hist1 :: auth_ghost where
  "hist1 = hist0\<lparr>ag_state := snd (send_login_code default_auth_config 5 ''424242'' True ''a@b.c'' None None (ag_state hist0))\<rparr>"

definition login_run :: "(auth_error + token_payload \<times> token_payload) \<times> auth_state" where
  "login_run = login_with_code default_auth_config 10 demo_ids True ''a@b.c'' ''424242'' None no_client (ag_state hist1)"

definition hist2 :: auth_ghost where
  "hist2 = issue (snd login_run) (projr (fst login_run)) [''sid2'', ''a9'', ''r9''] hist1"

definition old_refresh_token :: token_payload where
  "old_refresh_token = snd (projr (fst login_run))"

definition refresh_run :: "(auth_error + token_payload \<times> token_payload) \<times> auth_state" where
  "refresh_run = refresh_tokens default_auth_config Some 20 ''a10'' ''r10'' old_refresh_token (ag_state hist2)"

definition hist3 :: auth_ghost where
  "hist3 = redeem ''r9'' (issue (snd refresh_run) (projr (fst refresh_run)) [''a10'', ''r10''] hist2)"

lemma Inr_projr: "(case r of Inl _ \<Rightarrow> False | Inr _ \<Rightarrow> True) \<Longrightarrow> r = Inr (projr r)"
  by (cases r) auto

lemma hist2_reach: "(auth_step default_auth_config Some)\<^sup>*\<^sup>* hist0 hist2"
proof -
  have "auth_step default_auth_config Some hist0 hist1" unfolding hist1_def by (rule auth_step.code)
  moreover have "auth_step default_auth_config Some hist1 hist2"
  proof -
    have "case fst login_run of Inl _ \<Rightarrow> False | Inr _ \<Rightarrow> True" by code_simp
    then have run: "login_with_code default_auth_config 10 demo_ids True ''a@b.c'' ''424242'' None no_client (ag_state hist1) =
        (Inr (projr (fst login_run)), snd login_run)"
      using Inr_projr by (simp add: login_run_def prod_eq_iff)
    have fr: "fresh_ids hist1 [ni_sid demo_ids, ni_access demo_ids, ni_refresh demo_ids]" by code_simp
    have nu: "dget (au_users (ag_state hist1)) (ni_user demo_ids) = None" by code_simp
    from auth_step.login [OF fr nu run, of Some] show ?thesis by (simp add: hist2_def demo_ids_def)
  qed
  ultimately show ?thesis by auto
qed

lemma hist3_step: "auth_step default_auth_config Some hist2 hist3"
proof -
  have "case fst refresh_run of Inl _ \<Rightarrow> False | Inr _ \<Rightarrow> True" by code_simp
  then have run: "refresh_tokens default_auth_config Some 20 ''a10'' ''r10'' old_refresh_token (ag_state hist2) =
      (Inr (projr (fst refresh_run)), snd refresh_run)"
    using Inr_projr by (simp add: refresh_run_def prod_eq_iff)
  have fr: "fresh_ids hist2 [''a10'', ''r10'']" by code_simp
  have ge: "genuine Some old_refresh_token hist2" by (simp add: genuine_def old_refresh_token_def hist2_def issue_def)
  have "tp_jti old_refresh_token = Some ''r9''" by code_simp
  with auth_step.refresh [OF fr ge run] show ?thesis by (simp add: hist3_def)
qed

lemma hist0_start: "auth_start hist0"
  unfolding auth_start_def dict_wf_def by code_simp

text \<open>C25 at a token that was redeemed after a login by code.\<close>

theorem refresh_token_single_use_witness:
  "''r9'' \<in> set (ag_redeemed hist3) \<and>
   (\<exists>e. fst (refresh_tokens default_auth_config Some 30 ''a11'' ''r11'' old_refresh_token (ag_state hist3)) = Inl e)"
proof -
  have reach: "(auth_step default_auth_config Some)\<^sup>*\<^sup>* hist0 hist3"
    using hist2_reach hist3_step by (rule rtranclp.rtrancl_into_rtrancl)
  have mem: "''r9'' \<in> set (ag_redeemed hist3)" by (simp add: hist3_def redeem_def)
  have jti: "tp_jti old_refresh_token = Some ''r9''" by code_simp
  from refresh_token_single_use [OF hist0_start reach mem refl jti] mem show ?thesis by blast
qed

text \<open>C26 at the tokens of that login.\<close>

theorem revoke_all_is_final_witness:
  "old_refresh_token \<in> set (ag_issued hist2) \<and>
   (\<exists>e. fst (refresh_tokens default_auth_config Some 30 ''a11'' ''r11'' old_refresh_token
      (revoke_all_tokens default_auth_config 25 ''u1'' (ag_state hist2))) = Inl e)"
proof -
  have user: "dget (au_users (ag_state hist2)) ''u1'' \<noteq> None" by code_simp
  have mem: "old_refresh_token \<in> set (ag_issued hist2)" by (simp add: old_refresh_token_def hist2_def issue_def)
  have sub: "tp_sub old_refresh_token = Uuid ''u1''" by code_simp
  from revoke_all_is_final [OF hist0_start hist2_reach user rtranclp.rtrancl_refl mem sub refl, of 30 25 "''a11''" "''r11''"] mem
  show ?thesis by simp
qed

end
