(* ===== verification/Monitor_Cron.thy ===== *)
theory Monitor_Cron
  imports Py_Text
begin

text \<open>
  src/app/services/monitor_cron.py: five-field schedules of monitor tasks. Instants are minutes since
  1970-01-01 00:00 UTC (\<open>Datetime.now()\<close> is always in UTC); the calendar is that of \<open>datetime\<close>, computed
  from the ordinal of the day. A parsed expression keeps its five sets; every way the parser raises
  \<open>CronExpressionError\<close> is a constructor, with the field and the token of its message.
\<close>

subsection \<open>Calendar\<close>

definition is_leap :: "int \<Rightarrow> bool" where
  "is_leap y \<longleftrightarrow> y mod 4 = 0 \<and> (y mod 100 \<noteq> 0 \<or> y mod 400 = 0)"

definition days_in_month :: "int \<Rightarrow> int \<Rightarrow> int" where
  "days_in_month y m = (if m = 2 then (if is_leap y then 29 else 28) else if m \<in> {4, 6, 9, 11} then 30 else 31)"

definition days_before_year :: "int \<Rightarrow> int" where
  "days_before_year y = (let z = y - 1 in z * 365 + z div 4 - z div 100 + z div 400)"

definition days_before_month :: "int \<Rightarrow> int \<Rightarrow> int" where
  "days_before_month y m = (\<Sum>k\<leftarrow>[1..m - 1]. days_in_month y k)"

text \<open>\<open>date.toordinal()\<close> and its inverse: the ordinal of 0001-01-01 is one.\<close>

definition ymd2ord :: "int \<Rightarrow> int \<Rightarrow> int \<Rightarrow> int" where
  "ymd2ord y m d = days_before_year y + days_before_month y m + d"

definition year_of :: "int \<Rightarrow> int" where
  "year_of n =
     (let n400 = (n - 1) div 146097; r = (n - 1) mod 146097;
          n100 = min 3 (r div 36524); r = r - n100 * 36524;
          n4 = r div 1461; r = r mod 1461;
          n1 = min 3 (r div 365)
      in n400 * 400 + n100 * 100 + n4 * 4 + n1 + 1)"

fun walk_months :: "int \<Rightarrow> int \<Rightarrow> nat \<Rightarrow> int \<Rightarrow> int \<times> int" where
  "walk_months y m 0 d = (m, d)"
| "walk_months y m (Suc left) d =
     (if d \<le> days_in_month y m then (m, d) else walk_months y (m + 1) left (d - days_in_month y m))"

definition ord2ymd :: "int \<Rightarrow> int \<times> int \<times> int" where
  "ord2ymd n = (let y = year_of n in (y, walk_months y 1 11 (n - days_before_year y)))"

definition minute_of :: "int \<Rightarrow> int" where
  "minute_of t = t mod 60"

definition hour_of :: "int \<Rightarrow> int" where
  "hour_of t = t div 60 mod 24"

definition ordinal_of :: "int \<Rightarrow> int" where
  "ordinal_of t = t div 1440 + 719163"

definition day_of :: "int \<Rightarrow> int" where
  "day_of t = snd (snd (ord2ymd (ordinal_of t)))"

definition month_of :: "int \<Rightarrow> int" where
  "month_of t = fst (snd (ord2ymd (ordinal_of t)))"

definition weekday_of :: "int \<Rightarrow> int" where
  "weekday_of t = (ordinal_of t + 6) mod 7"

text \<open>The first minute after the year 9999, beyond which \<open>datetime\<close> raises \<open>OverflowError\<close>.\<close>

definition max_minute :: int where
  "max_minute = (3652059 - 719163 + 1) * 1440"

subsection \<open>Expressions\<close>

record cron_spec =
  cron_minutes :: "int set"
  cron_hours :: "int set"
  cron_days :: "int set"
  cron_months :: "int set"
  cron_weekdays :: "int set"

datatype cron_error =
    EmptyField string | BadStep string string | StepNotPositive string string | BadRange string string
  | BadValue string string | OutOfRange string string | NotFiveFields | NoRunInWindow | DateOverflow

definition spec_matches :: "cron_spec \<Rightarrow> int \<Rightarrow> bool" where
  "spec_matches sp t \<longleftrightarrow> minute_of t \<in> cron_minutes sp \<and> hour_of t \<in> cron_hours sp \<and> day_of t \<in> cron_days sp \<and>
     month_of t \<in> cron_months sp \<and> weekday_of t \<in> cron_weekdays sp"

definition normalize_weekday :: "int \<Rightarrow> int" where
  "normalize_weekday v = (if v \<in> {0, 7} then 6 else v - 1)"

text \<open>\<open>range(a, b, k)\<close> for a positive step.\<close>

definition py_range :: "int \<Rightarrow> int \<Rightarrow> int \<Rightarrow> int list" where
  "py_range a b k = filter (\<lambda>v. (v - a) mod k = 0) [a..b - 1]"

definition parse_step :: "string \<Rightarrow> string \<Rightarrow> cron_error + string \<times> int" where
  "parse_step field token =
     (if CHR ''/'' \<in> set token then
        let (base, step_part) = split_once CHR ''/'' token
        in case int_of_text step_part of
             None \<Rightarrow> Inl (BadStep field token)
           | Some k \<Rightarrow> if k \<le> 0 then Inl (StepNotPositive field token) else Inr (base, k)
      else Inr (token, 1))"

definition parse_bounds :: "int \<Rightarrow> int \<Rightarrow> string \<Rightarrow> string \<Rightarrow> string \<Rightarrow> cron_error + int \<times> int" where
  "parse_bounds mn mx field token base =
     (if base = ''*'' then Inr (mn, mx)
      else if CHR ''-'' \<in> set base then
        let (l, r) = split_once CHR ''-'' base
        in case (int_of_text l, int_of_text r) of
             (Some a, Some b) \<Rightarrow> Inr (a, b)
           | _ \<Rightarrow> Inl (BadRange field token)
      else case int_of_text base of None \<Rightarrow> Inl (BadValue field token) | Some v \<Rightarrow> Inr (v, v))"

definition parse_token :: "string \<Rightarrow> int \<Rightarrow> int \<Rightarrow> string \<Rightarrow> cron_error + int set" where
  "parse_token raw mn mx field =
     (let token = str_strip raw
      in if token = [] then Inl (EmptyField field)
         else if token = ''*'' then Inr (set (py_range mn (mx + 1) 1))
         else case parse_step field token of
                Inl e \<Rightarrow> Inl e
              | Inr (base, k) \<Rightarrow>
                  (case parse_bounds mn mx field token base of
                     Inl e \<Rightarrow> Inl e
                   | Inr (a, b) \<Rightarrow>
                       if a < mn \<or> b > mx \<or> a > b then Inl (OutOfRange field token)
                       else Inr (set (py_range a (b + 1) k))))"

fun parse_parts :: "string list \<Rightarrow> int \<Rightarrow> int \<Rightarrow> string \<Rightarrow> int set \<Rightarrow> cron_error + int set" where
  "parse_parts [] mn mx field acc = Inr acc"
| "parse_parts (p # ps) mn mx field acc =
     (case parse_token p mn mx field of
        Inl e \<Rightarrow> Inl e
      | Inr vs \<Rightarrow> parse_parts ps mn mx field (acc \<union> vs))"

definition parse_field :: "string \<Rightarrow> int \<Rightarrow> int \<Rightarrow> string \<Rightarrow> cron_error + int set" where
  "parse_field raw mn mx field = parse_parts (split_on CHR '','' raw) mn mx field {}"

definition parse_cron_expr :: "string \<Rightarrow> cron_error + cron_spec" where
  "parse_cron_expr expr =
     (case words_of (str_strip expr) of
        [mi, h, d, mo, w] \<Rightarrow>
          (case parse_field w 0 7 ''weekday'' of Inl e \<Rightarrow> Inl e | Inr wd \<Rightarrow>
          (case parse_field mi 0 59 ''minute'' of Inl e \<Rightarrow> Inl e | Inr mis \<Rightarrow>
          (case parse_field h 0 23 ''hour'' of Inl e \<Rightarrow> Inl e | Inr hs \<Rightarrow>
          (case parse_field d 1 31 ''day'' of Inl e \<Rightarrow> Inl e | Inr ds \<Rightarrow>
          (case parse_field mo 1 12 ''month'' of Inl e \<Rightarrow> Inl e | Inr mos \<Rightarrow>
             Inr \<lparr>cron_minutes = mis, cron_hours = hs, cron_days = ds, cron_months = mos,
                  cron_weekdays = normalize_weekday ` wd\<rparr>)))))
      | _ \<Rightarrow> Inl NotFiveFields)"

definition validate_cron_expr :: "string \<Rightarrow> bool \<times> cron_error option" where
  "validate_cron_expr expr = (case parse_cron_expr expr of Inl e \<Rightarrow> (False, Some e) | Inr _ \<Rightarrow> (True, None))"

subsection \<open>The next run\<close>

text \<open>The \<open>while\<close> loop: minute by minute up to the last minute of the window.\<close>

function scan_minutes :: "cron_spec \<Rightarrow> int \<Rightarrow> int \<Rightarrow> cron_error + int" where
  "scan_minutes sp cursor stop =
     (if cursor \<le> stop
      then (if spec_matches sp cursor then Inr cursor else scan_minutes sp (cursor + 1) stop)
      else Inl NoRunInWindow)"
  by pat_completeness auto
termination
  by (relation "measure (\<lambda>(sp, cursor, stop). nat (stop + 1 - cursor))") auto

declare scan_minutes.simps [simp del]

text \<open>\<open>next_run_after\<close> with \<open>after_dt\<close> in seconds: the seconds are dropped, a minute is added.\<close>

definition next_run_after :: "string \<Rightarrow> rat \<Rightarrow> cron_error + int" where
  "next_run_after expr after_ts =
     (case parse_cron_expr expr of
        Inl e \<Rightarrow> Inl e
      | Inr sp \<Rightarrow>
          let cursor = \<lfloor>after_ts / 60\<rfloor> + 1; stop = cursor + 366 * 1440
          in if stop \<ge> max_minute then Inl DateOverflow else scan_minutes sp cursor stop)"

subsection \<open>The calendar is a calendar\<close>

text \<open>A year split into its 400-, 100-, 4- and single-year parts.\<close>

lemma year_parts:
  fixes y :: int
  obtains a b c d where "y - 1 = 400 * a + 100 * b + 4 * c + d" "0 \<le> b" "b \<le> 3" "0 \<le> c" "c \<le> 24" "0 \<le> d" "d \<le> 3"
proof -
  let ?z = "y - 1"
  let ?a = "?z div 400" and ?b = "?z mod 400 div 100" and ?c = "?z mod 100 div 4" and ?d = "?z mod 4"
  have "?z mod 400 mod 100 = ?z mod 100" "?z mod 100 mod 4 = ?z mod 4" by (simp_all add: mod_mod_cancel)
  moreover have eqs: "400 * ?a + ?z mod 400 = ?z" "100 * ?b + ?z mod 400 mod 100 = ?z mod 400" "4 * ?c + ?z mod 100 mod 4 = ?z mod 100"
    by (rule mult_div_mod_eq)+
  ultimately have "?z = 400 * ?a + 100 * ?b + 4 * ?c + ?d" by linarith
  moreover have "0 \<le> ?z mod 400" "?z mod 400 < 400" "0 \<le> ?z mod 400 mod 100" "?z mod 400 mod 100 < 100"
    "0 \<le> ?z mod 100" "?z mod 100 < 100" "0 \<le> ?z mod 100 mod 4" "?z mod 100 mod 4 < 4" "0 \<le> ?d" "?d < 4" by simp_all
  then have "0 \<le> ?b" "?b \<le> 3" "0 \<le> ?c" "?c \<le> 24" "0 \<le> ?d" "?d \<le> 3"
    using eqs by linarith+
  ultimately show thesis by (rule that)
qed

lemma Suc_mod_zero_iff:
  fixes m q r :: int
  assumes "0 \<le> r" and "r < m"
  shows "(m * q + r + 1) mod m = 0 \<longleftrightarrow> r + 1 = m"
proof (cases "r + 1 = m")
  case True
  then have "m * q + r + 1 = m * (q + 1)" by (simp add: algebra_simps)
  with True show ?thesis by simp
next
  case False
  with assms have "(m * q + (r + 1)) mod m = r + 1" by (intro int_mod_pos_eq [where q = q]) auto
  with assms False show ?thesis by (simp add: add.assoc)
qed

lemma days_before_year_parts:
  fixes a b c d :: int
  assumes "y - 1 = 400 * a + 100 * b + 4 * c + d" "0 \<le> b" "b \<le> 3" "0 \<le> c" "c \<le> 24" "0 \<le> d" "d \<le> 3"
  shows "days_before_year y = 146097 * a + 36524 * b + 1461 * c + 365 * d"
    and "is_leap y \<longleftrightarrow> d = 3 \<and> (c \<noteq> 24 \<or> b = 3)"
proof -
  have "(y - 1) div 4 = 100 * a + 25 * b + c" "(y - 1) div 100 = 4 * a + b" "(y - 1) div 400 = a"
    using assms by (auto intro: int_div_pos_eq [where r = d] int_div_pos_eq [where r = "4 * c + d"]
        int_div_pos_eq [where r = "100 * b + 4 * c + d"])
  with assms(1) show "days_before_year y = 146097 * a + 36524 * b + 1461 * c + 365 * d"
    by (simp add: days_before_year_def Let_def)
  have y: "y = 4 * (100 * a + 25 * b + c) + d + 1" "y = 100 * (4 * a + b) + (4 * c + d) + 1"
    "y = 400 * a + (100 * b + 4 * c + d) + 1" using assms(1) by simp_all
  have m4: "y mod 4 = 0 \<longleftrightarrow> d = 3" by (subst y(1), subst Suc_mod_zero_iff) (use assms in auto)
  have m100: "y mod 100 = 0 \<longleftrightarrow> c = 24 \<and> d = 3"
    by (subst y(2), subst Suc_mod_zero_iff) (use assms(2-7) in \<open>linarith | (rule iffI, intro conjI; linarith)\<close>)+
  have m400: "y mod 400 = 0 \<longleftrightarrow> b = 3 \<and> c = 24 \<and> d = 3"
    by (subst y(3), subst Suc_mod_zero_iff) (use assms(2-7) in \<open>linarith | (rule iffI, intro conjI; linarith)\<close>)+
  show "is_leap y \<longleftrightarrow> d = 3 \<and> (c \<noteq> 24 \<or> b = 3)" unfolding is_leap_def m4 m100 m400 by auto
qed

definition year_length :: "int \<Rightarrow> int" where
  "year_length y = (if is_leap y then 366 else 365)"

lemma days_before_next_year: "days_before_year (y + 1) = days_before_year y + year_length y"
proof -
  obtain a b c d :: int where p: "y - 1 = 400 * a + 100 * b + 4 * c + d"
    "0 \<le> b" "b \<le> 3" "0 \<le> c" "c \<le> 24" "0 \<le> d" "d \<le> 3" by (rule year_parts)
  note now = days_before_year_parts [OF p]
  consider "d < 3" | "d = 3" "c < 24" | "d = 3" "c = 24" "b < 3" | "d = 3" "c = 24" "b = 3" using p by linarith
  then show ?thesis
  proof cases
    case 1
    with p days_before_year_parts(1) [of "y + 1" a b c "d + 1"] now show ?thesis by (simp add: year_length_def)
  next
    case 2
    with p days_before_year_parts(1) [of "y + 1" a b "c + 1" 0] now show ?thesis by (simp add: year_length_def)
  next
    case 3
    with p days_before_year_parts(1) [of "y + 1" a "b + 1" 0 0] now show ?thesis by (simp add: year_length_def)
  next
    case 4
    with p days_before_year_parts(1) [of "y + 1" "a + 1" 0 0 0] now show ?thesis by (simp add: year_length_def)
  qed
qed

lemma year_of_ordinal:
  assumes "0 \<le> k" and "k < year_length y"
  shows "year_of (days_before_year y + k + 1) = y"
proof -
  obtain a b c d :: int where p: "y - 1 = 400 * a + 100 * b + 4 * c + d"
    "0 \<le> b" "b \<le> 3" "0 \<le> c" "c \<le> 24" "0 \<le> d" "d \<le> 3" by (rule year_parts)
  note q = days_before_year_parts [OF p]
  have k: "k \<le> 364 \<or> k = 365 \<and> d = 3 \<and> (c \<noteq> 24 \<or> b = 3)" using assms q(2) by (auto simp: year_length_def split: if_splits)
  let ?s = "1461 * c + 365 * d + k" and ?t = "365 * d + k"
  have bounds: "0 \<le> ?t" "?t < 1461" "0 \<le> ?s" "b < 3 \<Longrightarrow> ?s < 36524" "?s \<le> 36524" using p k assms(1) by linarith+
  have d400: "(146097 * a + (36524 * b + ?s)) div 146097 = a" "(146097 * a + (36524 * b + ?s)) mod 146097 = 36524 * b + ?s"
    using bounds p k by (auto intro!: int_div_pos_eq int_mod_pos_eq)
  have d100: "min 3 ((36524 * b + ?s) div 36524) = b"
  proof (cases "b < 3")
    case True
    then have "(36524 * b + ?s) div 36524 = b" using bounds by (intro int_div_pos_eq) auto
    with True show ?thesis by simp
  next
    case False
    then have "b = 3" using p by simp
    moreover have "(36524 * 3 + ?s) div 36524 \<ge> 3" using bounds by linarith
    ultimately show ?thesis by simp
  qed
  have d4: "?s div 1461 = c" "?s mod 1461 = ?t"
    using bounds by (auto intro!: int_div_pos_eq int_mod_pos_eq)
  have d1: "min 3 (?t div 365) = d"
  proof (cases "d < 3")
    case True
    with k have "?t div 365 = d" using assms by (intro int_div_pos_eq) auto
    with True show ?thesis by simp
  next
    case False
    with p have "d = 3" by simp
    moreover have "(365 * 3 + k) div 365 \<ge> 3" using assms by linarith
    ultimately show ?thesis by simp
  qed
  have arg: "days_before_year y + k + 1 - 1 = 146097 * a + (36524 * b + ?s)" using q(1) by simp
  show ?thesis unfolding year_of_def Let_def arg d400 d100 using d4 d1 p(1) by (simp add: algebra_simps)
qed

lemma days_in_month_pos: "28 \<le> days_in_month y m"
  by (simp add: days_in_month_def)

lemma walk_months_sum:
  assumes "1 \<le> d" and "d \<le> days_in_month y m"
  shows "m0 \<le> m \<Longrightarrow> m \<le> m0 + int left \<Longrightarrow> walk_months y m0 left ((\<Sum>k\<leftarrow>[m0..m - 1]. days_in_month y k) + d) = (m, d)"
proof (induction left arbitrary: m0)
  case 0
  then show ?case by simp
next
  case (Suc left)
  show ?case
  proof (cases "m0 = m")
    case True
    with assms show ?thesis by simp
  next
    case False
    with Suc.prems have "[m0..m - 1] = m0 # [m0 + 1..m - 1]" by (subst upto.simps) simp
    moreover have "0 \<le> (\<Sum>k\<leftarrow>[m0 + 1..m - 1]. days_in_month y k)"
      by (rule sum_list_nonneg) (auto intro: order_trans [OF _ days_in_month_pos])
    ultimately show ?thesis using Suc.IH [of "m0 + 1"] Suc.prems False assms(1) by (simp add: algebra_simps)
  qed
qed

lemma days_before_month_step: "1 \<le> m \<Longrightarrow> days_before_month y (m + 1) = days_before_month y m + days_in_month y m"
  using upto_rec2 [of 1 m] by (simp add: days_before_month_def)

text \<open>The days before a month, as \<open>datetime\<close> tabulates them.\<close>

lemma days_before_month_table:
  assumes "1 \<le> m" and "m \<le> 13"
  shows "days_before_month y m =
    [0, 31, 59, 90, 120, 151, 181, 212, 243, 273, 304, 334, 365] ! nat (m - 1) + (if 2 < m \<and> is_leap y then 1 else 0)"
proof -
  have one: "days_before_month y 1 = 0" by (simp add: days_before_month_def)
  have step: "days_before_month y (k + 1) = days_before_month y k + days_in_month y k" if "1 \<le> k" for k
    using that by (rule days_before_month_step)
  have all: "days_before_month y 2 = 31" "days_before_month y 3 = (if is_leap y then 60 else 59)"
    "days_before_month y 4 = (if is_leap y then 91 else 90)" "days_before_month y 5 = (if is_leap y then 121 else 120)"
    "days_before_month y 6 = (if is_leap y then 152 else 151)" "days_before_month y 7 = (if is_leap y then 182 else 181)"
    "days_before_month y 8 = (if is_leap y then 213 else 212)" "days_before_month y 9 = (if is_leap y then 244 else 243)"
    "days_before_month y 10 = (if is_leap y then 274 else 273)" "days_before_month y 11 = (if is_leap y then 305 else 304)"
    "days_before_month y 12 = (if is_leap y then 335 else 334)" "days_before_month y 13 = (if is_leap y then 366 else 365)"
    using one step [of 1] step [of 2] step [of 3] step [of 4] step [of 5] step [of 6] step [of 7] step [of 8] step [of 9]
      step [of 10] step [of 11] step [of 12] by (simp_all add: days_in_month_def)
  have "m \<in> {1, 2, 3, 4, 5, 6, 7, 8, 9, 10, 11, 12, 13}" using assms by (simp, presburger)
  with one all show ?thesis by (auto simp: nat_diff_distrib)
qed

definition valid_date :: "int \<Rightarrow> int \<Rightarrow> int \<Rightarrow> bool" where
  "valid_date y m d \<longleftrightarrow> 1 \<le> m \<and> m \<le> 12 \<and> 1 \<le> d \<and> d \<le> days_in_month y m"

lemma ord2ymd_ymd2ord:
  assumes "valid_date y m d"
  shows "ord2ymd (ymd2ord y m d) = (y, m, d)"
proof -
  have v: "1 \<le> m" "m \<le> 12" "1 \<le> d" "d \<le> days_in_month y m" using assms by (simp_all add: valid_date_def)
  have "m \<in> {1, 2, 3, 4, 5, 6, 7, 8, 9, 10, 11, 12}" using v(1,2) by (simp, presburger)
  then have "days_before_month y m + d \<le> year_length y" "0 \<le> days_before_month y m"
    using v(3,4) days_before_month_table [of m y] by (auto simp: year_length_def days_in_month_def)
  with v have "year_of (days_before_year y + (days_before_month y m + d - 1) + 1) = y"
    by (intro year_of_ordinal) auto
  then have y: "year_of (ymd2ord y m d) = y" by (simp add: ymd2ord_def algebra_simps)
  have "walk_months y 1 11 (days_before_month y m + d) = (m, d)"
    unfolding days_before_month_def using v by (intro walk_months_sum) auto
  with y show ?thesis by (simp add: ord2ymd_def ymd2ord_def Let_def)
qed

text \<open>A date that exists in every year comes back after 365 or 366 days.\<close>

lemma ymd2ord_next_year:
  assumes "1 \<le> m" and "m \<le> 12"
  shows "ymd2ord y m d < ymd2ord (y + 1) m d" and "ymd2ord (y + 1) m d \<le> ymd2ord y m d + 366"
  using assms days_before_month_table [of m y] days_before_month_table [of m "y + 1"] days_before_next_year [of y]
  by (auto simp: ymd2ord_def year_length_def)

subsection \<open>Parsed expressions are well-formed\<close>

definition spec_ok :: "cron_spec \<Rightarrow> bool" where
  "spec_ok sp \<longleftrightarrow> cron_minutes sp \<subseteq> {0..59} \<and> cron_hours sp \<subseteq> {0..23} \<and> cron_days sp \<subseteq> {1..31} \<and>
     cron_months sp \<subseteq> {1..12} \<and> cron_weekdays sp \<subseteq> {0..6} \<and>
     cron_minutes sp \<noteq> {} \<and> cron_hours sp \<noteq> {} \<and> cron_days sp \<noteq> {} \<and> cron_months sp \<noteq> {} \<and> cron_weekdays sp \<noteq> {}"

lemma py_range_bounds: "a \<le> b \<Longrightarrow> set (py_range a (b + 1) k) \<subseteq> {a..b} \<and> set (py_range a (b + 1) k) \<noteq> {}"
proof -
  assume "a \<le> b"
  then have "a \<in> set (py_range a (b + 1) k)" by (simp add: py_range_def)
  then show ?thesis by (auto simp: py_range_def)
qed

lemma parse_token_range:
  assumes "parse_token raw mn mx field = Inr vs" and "mn \<le> mx"
  shows "vs \<subseteq> {mn..mx} \<and> vs \<noteq> {}"
proof (cases "str_strip raw = ''*''")
  case True
  with assms py_range_bounds [of mn mx 1] show ?thesis by (simp add: parse_token_def)
next
  case False
  with assms(1) obtain base k where st: "parse_step field (str_strip raw) = Inr (base, k)"
    by (auto simp: parse_token_def Let_def split: if_splits sum.splits prod.splits)
  with False assms(1) obtain a b where bd: "parse_bounds mn mx field (str_strip raw) base = Inr (a, b)"
    by (cases "parse_bounds mn mx field (str_strip raw) base") (auto simp: parse_token_def Let_def split: if_splits)
  from False st bd assms(1) have "mn \<le> a" "b \<le> mx" "a \<le> b" "vs = set (py_range a (b + 1) k)"
    by (simp_all add: parse_token_def Let_def split: if_splits)
  with py_range_bounds [of a b k] show ?thesis by fastforce
qed

lemma parse_parts_range:
  assumes "parse_parts ps mn mx field acc = Inr vs" and "mn \<le> mx" and "acc \<subseteq> {mn..mx}"
  shows "vs \<subseteq> {mn..mx} \<and> (ps \<noteq> [] \<or> acc \<noteq> {} \<longrightarrow> vs \<noteq> {})"
  using assms
proof (induction ps arbitrary: acc)
  case (Cons p ps)
  from Cons.prems obtain v where v: "parse_token p mn mx field = Inr v" "parse_parts ps mn mx field (acc \<union> v) = Inr vs"
    by (auto split: sum.splits)
  with parse_token_range [OF v(1) Cons.prems(2)] Cons.IH [OF v(2)] Cons.prems show ?case by auto
qed simp

lemma parse_field_range:
  "parse_field raw mn mx field = Inr vs \<Longrightarrow> mn \<le> mx \<Longrightarrow> vs \<subseteq> {mn..mx} \<and> vs \<noteq> {}"
  using parse_parts_range [of "split_on CHR '','' raw" mn mx field "{}" vs] by (simp add: parse_field_def)

lemma parse_cron_expr_ok:
  assumes "parse_cron_expr expr = Inr sp"
  shows "spec_ok sp"
proof -
  from assms obtain mi h d mo w wd where f: "parse_field w 0 7 ''weekday'' = Inr wd"
    "parse_field mi 0 59 ''minute'' = Inr (cron_minutes sp)" "parse_field h 0 23 ''hour'' = Inr (cron_hours sp)"
    "parse_field d 1 31 ''day'' = Inr (cron_days sp)" "parse_field mo 1 12 ''month'' = Inr (cron_months sp)"
    and wd: "cron_weekdays sp = normalize_weekday ` wd"
    by (auto simp: parse_cron_expr_def split: list.splits sum.splits)
  from parse_field_range [OF f(1)] have "cron_weekdays sp \<subseteq> {0..6}" "cron_weekdays sp \<noteq> {}"
    unfolding wd by (auto simp: normalize_weekday_def)
  with f(2-5) [THEN parse_field_range] show ?thesis by (simp add: spec_ok_def)
qed

subsection \<open>The scan\<close>

lemma scan_minutes_cases:
  "case scan_minutes sp cursor stop of
     Inr t \<Rightarrow> cursor \<le> t \<and> t \<le> stop \<and> spec_matches sp t \<and> (\<forall>u\<in>{cursor..<t}. \<not> spec_matches sp u)
   | Inl e \<Rightarrow> e = NoRunInWindow \<and> (\<forall>u\<in>{cursor..stop}. \<not> spec_matches sp u)"
proof (induction sp cursor stop rule: scan_minutes.induct)
  case (1 sp cursor stop)
  show ?case
  proof (cases "cursor \<le> stop \<and> \<not> spec_matches sp cursor")
    case True
    then have step: "scan_minutes sp cursor stop = scan_minutes sp (cursor + 1) stop"
      by (subst scan_minutes.simps) simp
    have split: "u = cursor \<or> u \<in> {cursor + 1..<b}" if "u \<in> {cursor..<b}" for u b using that by auto
    have split': "u = cursor \<or> u \<in> {cursor + 1..b}" if "u \<in> {cursor..b}" for u b using that by auto
    from 1 True show ?thesis unfolding step by (fastforce split: sum.splits dest: split split')
  next
    case False
    then show ?thesis by (subst scan_minutes.simps) (auto split: sum.splits)
  qed
qed

lemma scan_minutes_finds:
  assumes "spec_matches sp t" and "cursor \<le> t" and "t \<le> stop"
  shows "\<exists>u. scan_minutes sp cursor stop = Inr u \<and> u \<le> t"
  using scan_minutes_cases [where sp = sp and cursor = cursor and stop = stop] assms by (force split: sum.splits simp: not_less [symmetric])

text \<open>The minute of a date and a time of day, and what the accessors read from it.\<close>

definition minute_at :: "int \<Rightarrow> int \<Rightarrow> int \<Rightarrow> int \<Rightarrow> int \<Rightarrow> int" where
  "minute_at y m d h mi = (ymd2ord y m d - 719163) * 1440 + h * 60 + mi"

lemma minute_at_reads:
  assumes "0 \<le> h" "h \<le> 23" "0 \<le> mi" "mi \<le> 59"
  shows "minute_of (minute_at y m d h mi) = mi" and "hour_of (minute_at y m d h mi) = h"
    and "ordinal_of (minute_at y m d h mi) = ymd2ord y m d"
proof -
  let ?o = "ymd2ord y m d - 719163"
  have "minute_at y m d h mi = 60 * (?o * 24 + h) + mi" "minute_at y m d h mi = 1440 * ?o + (h * 60 + mi)"
    by (simp_all add: minute_at_def)
  moreover have "(60 * k + mi) div 60 = k" "(60 * k + mi) mod 60 = mi" "(1440 * k + (h * 60 + mi)) div 1440 = k" for k
    using assms by (auto intro: int_div_pos_eq)
  ultimately have q: "minute_at y m d h mi div 60 = ?o * 24 + h" "minute_at y m d h mi mod 60 = mi" "minute_at y m d h mi div 1440 = ?o"
    by metis+
  have "(k * 24 + h) mod 24 = h" for k using assms by simp
  from this [of ?o] q show "minute_of (minute_at y m d h mi) = mi" "hour_of (minute_at y m d h mi) = h"
    "ordinal_of (minute_at y m d h mi) = ymd2ord y m d"
    by (simp_all only: minute_of_def hour_of_def ordinal_of_def diff_add_cancel)
qed

lemma minute_at_matches:
  assumes "spec_ok sp" and "cron_weekdays sp = {0..6}" and "mo \<in> cron_months sp" "d \<in> cron_days sp" "h \<in> cron_hours sp" "mi \<in> cron_minutes sp"
    and "valid_date y mo d"
  shows "spec_matches sp (minute_at y mo d h mi)"
proof -
  have "0 \<le> h" "h \<le> 23" "0 \<le> mi" "mi \<le> 59" using assms(1,5,6) by (auto simp: spec_ok_def)
  note r = minute_at_reads [OF this, of y mo d]
  have "weekday_of (minute_at y mo d h mi) \<in> {0..6}" by (simp add: weekday_of_def)
  with r ord2ymd_ymd2ord [OF assms(7)] assms show ?thesis by (simp add: spec_matches_def day_of_def month_of_def)
qed

text \<open>A sequence of integers that passes a point and steps by at most \<open>g\<close> has a member less than \<open>g\<close> beyond it.\<close>

lemma crossing:
  fixes f :: "int \<Rightarrow> int"
  assumes step: "\<And>y. f y < f (y + 1)" "\<And>y. f (y + 1) \<le> f y + g"
  shows "\<exists>y. x \<le> f y \<and> f y < x + g"
proof -
  have up: "f 0 + int n \<le> f (int n)" for n
  proof (induction n)
    case (Suc n)
    have "f (int n) < f (int n + 1)" by (rule step(1))
    with Suc show ?case by (simp add: add.commute)
  qed simp
  have down: "f (- int n) \<le> f 0 - int n" for n
  proof (induction n)
    case (Suc n)
    have "f (- int (Suc n)) < f (- int (Suc n) + 1)" by (rule step(1))
    with Suc show ?case by simp
  qed simp
  have walk: "\<exists>y. x \<le> f y \<and> f y < x + g" if "f y0 < x" and "x \<le> f (y0 + int n)" for y0 n
    using that
  proof (induction n)
    case (Suc n)
    show ?case
    proof (cases "x \<le> f (y0 + int n)")
      case False
      with step(2) [of "y0 + int n"] Suc.prems have "x \<le> f (y0 + int n + 1) \<and> f (y0 + int n + 1) < x + g"
        by (simp add: algebra_simps)
      then show ?thesis by blast
    qed (use Suc in blast)
  qed simp
  let ?a = "nat (f 0 - x + 1)" and ?b = "nat (x - f 0)"
  have "f (- int ?a) < x" using down [of ?a] by linarith
  moreover have "x \<le> f (- int ?a + int (?a + ?b))" using up [of ?b] by (auto split: if_splits)
  ultimately show ?thesis by (rule walk)
qed

subsection \<open>Properties\<close>

text \<open>C40: an expression the parser accepts has five non-empty fields, each inside the range of its unit and week
days in the numbering of \<open>datetime\<close>; \<open>validate_cron_expr\<close> accepts exactly these expressions.\<close>

theorem cron_spec_typed:
  "case parse_cron_expr expr of
     Inl e \<Rightarrow> validate_cron_expr expr = (False, Some e)
   | Inr sp \<Rightarrow> spec_ok sp \<and> validate_cron_expr expr = (True, None)"
  by (auto simp: validate_cron_expr_def parse_cron_expr_ok split: sum.splits)

text \<open>C30: the search for the next run always ends, at the earliest matching minute after the given instant within
366 days; it raises only where no minute of that window matches.\<close>

theorem next_run_least:
  assumes "parse_cron_expr expr = Inr sp" and "\<lfloor>after_ts / 60\<rfloor> + 1 + 366 * 1440 < max_minute"
  shows "(\<exists>t. next_run_after expr after_ts = Inr t \<and> \<lfloor>after_ts / 60\<rfloor> < t \<and> t \<le> \<lfloor>after_ts / 60\<rfloor> + 1 + 366 * 1440 \<and>
            spec_matches sp t \<and> filter (spec_matches sp) [\<lfloor>after_ts / 60\<rfloor> + 1..t - 1] = []) \<or>
         next_run_after expr after_ts = Inl NoRunInWindow \<and>
            filter (spec_matches sp) [\<lfloor>after_ts / 60\<rfloor> + 1..\<lfloor>after_ts / 60\<rfloor> + 1 + 366 * 1440] = []"
proof -
  have "next_run_after expr after_ts = scan_minutes sp (\<lfloor>after_ts / 60\<rfloor> + 1) (\<lfloor>after_ts / 60\<rfloor> + 1 + 366 * 1440)"
    using assms by (simp add: next_run_after_def Let_def)
  with scan_minutes_cases [where sp = sp and cursor = "\<lfloor>after_ts / 60\<rfloor> + 1" and stop = "\<lfloor>after_ts / 60\<rfloor> + 1 + 366 * 1440"]
  show ?thesis by (force simp: filter_empty_conv split: sum.splits)
qed

lemma next_run_matches:
  assumes "next_run_after expr after_ts = Inr t" and "parse_cron_expr expr = Inr sp"
  shows "\<lfloor>after_ts / 60\<rfloor> < t" and "spec_matches sp t"
  using scan_minutes_cases [where sp = sp and cursor = "\<lfloor>after_ts / 60\<rfloor> + 1" and stop = "\<lfloor>after_ts / 60\<rfloor> + 1 + 366 * 1440"] assms
  by (auto simp: next_run_after_def Let_def split: if_splits)

text \<open>A schedule that names a day of the month which exists in every year, whatever the day of the week, always has
a next run within 366 days.\<close>

theorem yearly_schedule_fires:
  assumes parse: "parse_cron_expr expr = Inr sp" and room: "\<lfloor>after_ts / 60\<rfloor> + 1 + 366 * 1440 < max_minute"
    and any: "cron_weekdays sp = {0..6}" and md: "mo \<in> cron_months sp" "d \<in> cron_days sp"
    and exists: "d \<le> days_in_month 1 mo"
  shows "\<exists>t. next_run_after expr after_ts = Inr t"
proof -
  have ok: "spec_ok sp" using parse by (rule parse_cron_expr_ok)
  then obtain h mi where hm: "h \<in> cron_hours sp" "mi \<in> cron_minutes sp" by (auto simp: spec_ok_def)
  have m: "1 \<le> mo" "mo \<le> 12" "1 \<le> d" using ok md by (auto simp: spec_ok_def)
  have "\<not> is_leap 1" by code_simp
  with exists m have valid: "valid_date y mo d" for y by (auto simp: valid_date_def days_in_month_def split: if_splits)
  let ?c = "\<lfloor>after_ts / 60\<rfloor> + 1"
  have "\<exists>y. ?c \<le> minute_at y mo d h mi \<and> minute_at y mo d h mi < ?c + 366 * 1440"
  proof (rule crossing)
    show "minute_at y mo d h mi < minute_at (y + 1) mo d h mi" for y
      using ymd2ord_next_year(1) [OF m(1,2), of y d] by (simp add: minute_at_def)
    show "minute_at (y + 1) mo d h mi \<le> minute_at y mo d h mi + 366 * 1440" for y
      using ymd2ord_next_year(2) [OF m(1,2), of y d] by (simp add: minute_at_def)
  qed
  then obtain y where y: "?c \<le> minute_at y mo d h mi" "minute_at y mo d h mi < ?c + 366 * 1440" by blast
  have "\<exists>u. scan_minutes sp ?c (?c + 366 * 1440) = Inr u \<and> u \<le> minute_at y mo d h mi"
    using minute_at_matches [OF ok any md hm valid] y by (intro scan_minutes_finds) auto
  with parse room show ?thesis by (auto simp: next_run_after_def Let_def)
qed

text \<open>C30 at the schedule of every Thursday at half past one, asked at the start of 1970.\<close>

theorem next_run_least_witness:
  "\<exists>sp. parse_cron_expr ''30 1 * * 4'' = Inr sp \<and> next_run_after ''30 1 * * 4'' 0 = Inr 90 \<and> spec_matches sp 90 \<and>
     filter (spec_matches sp) [1..89] = []"
proof -
  have "case parse_cron_expr ''30 1 * * 4'' of Inr _ \<Rightarrow> True | Inl _ \<Rightarrow> False" by code_simp
  then obtain sp where sp: "parse_cron_expr ''30 1 * * 4'' = Inr sp" by (auto split: sum.splits)
  have run: "next_run_after ''30 1 * * 4'' 0 = Inr 90" by code_simp
  have room: "\<lfloor>0 / 60 :: rat\<rfloor> + 1 + 366 * 1440 < max_minute" by (simp add: max_minute_def)
  from next_run_least [OF sp room] run sp show ?thesis by auto
qed

text \<open>The preceding statement at the first of January.\<close>

theorem yearly_schedule_fires_witness:
  "\<exists>sp t. parse_cron_expr ''30 4 1 1 *'' = Inr sp \<and> cron_weekdays sp = {0..6} \<and> 1 \<in> cron_months sp \<and> 1 \<in> cron_days sp \<and>
     next_run_after ''30 4 1 1 *'' 1750000000 = Inr t"
proof -
  have "case parse_cron_expr ''30 4 1 1 *'' of Inl _ \<Rightarrow> False
      | Inr sp \<Rightarrow> cron_weekdays sp = set [0, 1, 2, 3, 4, 5, 6] \<and> 1 \<in> cron_months sp \<and> 1 \<in> cron_days sp" by code_simp
  then obtain sp where sp: "parse_cron_expr ''30 4 1 1 *'' = Inr sp" "cron_weekdays sp = set [0, 1, 2, 3, 4, 5, 6]"
    "1 \<in> cron_months sp" "1 \<in> cron_days sp" by (auto split: sum.splits)
  have "set [0, 1, 2, 3, 4, 5, 6] = {0..6 :: int}" by auto
  with sp(2) have any: "cron_weekdays sp = {0..6}" by simp
  have "1750000000 / 60 < (60000000 :: rat)" by simp
  then have "\<lfloor>1750000000 / 60 :: rat\<rfloor> < 60000000" by linarith
  then have room: "\<lfloor>1750000000 / 60 :: rat\<rfloor> + 1 + 366 * 1440 < max_minute" by (simp add: max_minute_def)
  have "1 \<le> days_in_month 1 1" by code_simp
  from yearly_schedule_fires [OF sp(1) room any sp(3,4) this] sp any show ?thesis by blast
qed

text \<open>A schedule on the 29th of February is accepted, but all through 2025 and 2026 the search for its next run
raises: the window of 366 days does not reach the next leap year.\<close>

lemma walk_months_day: "walk_months y m left d = (m', d') \<Longrightarrow> m' < m + int left \<Longrightarrow> d' \<le> days_in_month y m'"
  by (induction y m left d rule: walk_months.induct) (auto split: if_splits)

lemma leap_day_leap_year: "snd (ord2ymd n) = (2, 29) \<Longrightarrow> is_leap (year_of n)"
  using walk_months_day [of "year_of n" 1 11 "n - days_before_year (year_of n)" 2 29]
  by (auto simp: ord2ymd_def Let_def days_in_month_def split: if_splits)

lemma years_2025_to_2027:
  assumes "739252 \<le> n" and "n \<le> 740346"
  shows "\<not> is_leap (year_of n)"
proof -
  have len: "year_length 2025 = 365" "year_length 2026 = 365" "year_length 2027 = 365"
    "days_before_year 2025 = 739251" "days_before_year 2026 = 739616" "days_before_year 2027 = 739981" by code_simp+
  consider "n \<le> 739616" | "739616 < n" "n \<le> 739981" | "739981 < n" by linarith
  then have "year_of n \<in> {2025, 2026, 2027}"
  proof cases
    case 1
    with assms len year_of_ordinal [of "n - 739252" 2025] show ?thesis by simp
  next
    case 2
    with assms len year_of_ordinal [of "n - 739617" 2026] show ?thesis by simp
  next
    case 3
    with assms len year_of_ordinal [of "n - 739982" 2027] show ?thesis by simp
  qed
  then show ?thesis by (auto simp: is_leap_def)
qed

theorem leap_day_schedule_raises:
  assumes "20089 * 1440 \<le> \<lfloor>after_ts / 60\<rfloor>" and "\<lfloor>after_ts / 60\<rfloor> + 1 < (21184 - 366) * 1440"
  shows "validate_cron_expr ''0 0 29 2 *'' = (True, None) \<and> next_run_after ''0 0 29 2 *'' after_ts = Inl NoRunInWindow"
proof
  show "validate_cron_expr ''0 0 29 2 *'' = (True, None)" by code_simp
  have "case parse_cron_expr ''0 0 29 2 *'' of Inl _ \<Rightarrow> False | Inr sp \<Rightarrow> cron_days sp = set [29] \<and> cron_months sp = set [2]" by code_simp
  then obtain sp where sp: "parse_cron_expr ''0 0 29 2 *'' = Inr sp" "cron_days sp = {29}" "cron_months sp = {2}"
    by (auto split: sum.splits)
  let ?c = "\<lfloor>after_ts / 60\<rfloor> + 1"
  have "scan_minutes sp ?c (?c + 366 * 1440) = Inl NoRunInWindow"
  proof (cases "scan_minutes sp ?c (?c + 366 * 1440)")
    case (Inl e)
    with scan_minutes_cases [where sp = sp and cursor = ?c and stop = "?c + 366 * 1440"] show ?thesis by simp
  next
    case (Inr t)
    with scan_minutes_cases [where sp = sp and cursor = ?c and stop = "?c + 366 * 1440"]
    have t: "?c \<le> t" "t \<le> ?c + 366 * 1440" "spec_matches sp t" by simp_all
    from t(1) assms(1) have "20089 * 1440 \<le> t" by linarith
    moreover have "u < 21184 * 1440" if "u \<le> q + 1 + 366 * 1440" "q + 1 < (21184 - 366) * 1440" for u q :: int
      using that by simp
    then have "t < 21184 * 1440" using t(2) assms(2) .
    ultimately have "20089 \<le> t div 1440" "t div 1440 \<le> 21183" by simp_all
    then have "\<not> is_leap (year_of (ordinal_of t))" by (intro years_2025_to_2027) (simp_all add: ordinal_of_def)
    moreover have "snd (ord2ymd (ordinal_of t)) = (2, 29)"
      using t(3) sp by (simp add: spec_matches_def day_of_def month_of_def prod_eq_iff)
    ultimately show ?thesis using leap_day_leap_year by blast
  qed
  with sp(1) assms(2) show "next_run_after ''0 0 29 2 *'' after_ts = Inl NoRunInWindow"
    by (simp add: next_run_after_def Let_def max_minute_def)
qed

end
