(* ===== verification/Distributed_Lock.thy ===== *)
theory Distributed_Lock
  imports Cache_Service
begin

section \<open>The distributed lock\<close>

text \<open>
  src/app/core/distributed_lock.py: \<open>DistributedLock\<close>, a lease in Redis. A lock object carries a value
  of its own (a fresh UUID), which the server stores under the lock's key; releasing and extending run
  Lua scripts that compare the stored value with it. The server is the one of \<open>Cache_Service\<close>; the value
  is the raw text of the key. Between two attempts to acquire other clients act: \<open>waits\<close> gives, per
  attempt that is left, the time of the attempt and what happened meanwhile, and \<open>faults\<close> says which
  attempts the client library raised on before reaching the server.
\<close>

record lock_obj =
  lk_key :: string
  lk_ttl :: int
  lk_retry_times :: nat
  lk_value :: string
  lk_acquired :: bool

definition new_lock :: "string \<Rightarrow> int \<Rightarrow> nat \<Rightarrow> string \<Rightarrow> lock_obj" where
  "new_lock key ttl n uuid =
     \<lparr>lk_key = key, lk_ttl = ttl, lk_retry_times = n, lk_value = uuid, lk_acquired = False\<rparr>"

text \<open>\<open>SET key value EX ttl NX\<close>; the server refuses a \<open>ttl\<close> that is not positive, on which the client raises.\<close>

definition set_nx :: "rat \<Rightarrow> lock_obj \<Rightarrow> pyval cache_state \<Rightarrow> bool \<times> pyval cache_state" where
  "set_nx now l s =
     (if lk_ttl l \<le> 0 \<or> redis_get now (lk_key l) s \<noteq> None then (False, s)
      else (True, redis_put (lk_key l) (Pickled (PStr (lk_value l)), Some (now + of_int (lk_ttl l))) s))"

fun acquire_loop :: "lock_obj \<Rightarrow> nat \<Rightarrow> (nat \<Rightarrow> bool) \<Rightarrow> (nat \<Rightarrow> rat \<times> (pyval cache_state \<Rightarrow> pyval cache_state)) \<Rightarrow>
    rat \<Rightarrow> pyval cache_state \<Rightarrow> bool \<times> lock_obj \<times> pyval cache_state" where
  "acquire_loop l 0 faults waits now s = (False, l, s)"
| "acquire_loop l (Suc n) faults waits now s =
     (case (if faults n then (False, s) else set_nx now l s) of
        (True, s') \<Rightarrow> (True, l\<lparr>lk_acquired := True\<rparr>, s')
      | (False, s') \<Rightarrow>
          if n = 0 then (False, l, s')
          else (case waits n of (t, others) \<Rightarrow> acquire_loop l n faults waits t (others s')))"

definition lock_acquire :: "lock_obj \<Rightarrow> (nat \<Rightarrow> bool) \<Rightarrow> (nat \<Rightarrow> rat \<times> (pyval cache_state \<Rightarrow> pyval cache_state)) \<Rightarrow>
    rat \<Rightarrow> pyval cache_state \<Rightarrow> bool \<times> lock_obj \<times> pyval cache_state" where
  "lock_acquire l faults waits now s =
     (if \<not> cs_redis s then (True, l, s) else acquire_loop l (lk_retry_times l) faults waits now s)"

definition holds_entry :: "rat \<Rightarrow> lock_obj \<Rightarrow> pyval cache_state \<Rightarrow> bool" where
  "holds_entry now l s \<longleftrightarrow> redis_get now (lk_key l) s = Some (Pickled (PStr (lk_value l)))"

definition lock_release :: "rat \<Rightarrow> lock_obj \<Rightarrow> pyval cache_state \<Rightarrow> bool \<times> lock_obj \<times> pyval cache_state" where
  "lock_release now l s =
     (if \<not> lk_acquired l \<or> \<not> cs_redis s then (True, l, s)
      else if holds_entry now l s then (True, l\<lparr>lk_acquired := False\<rparr>, redis_del (lk_key l) s)
      else (False, l\<lparr>lk_acquired := False\<rparr>, s))"

text \<open>\<open>extend\<close> runs EXPIRE, which drops the key when the time is not positive.\<close>

definition lock_extend :: "rat \<Rightarrow> int option \<Rightarrow> lock_obj \<Rightarrow> pyval cache_state \<Rightarrow> bool \<times> pyval cache_state" where
  "lock_extend now additional l s =
     (if \<not> lk_acquired l then (False, s)
      else if \<not> cs_redis s then (True, s)
      else if holds_entry now l s then
        let ttl = (case additional of Some t \<Rightarrow> if t = 0 then lk_ttl l else t | None \<Rightarrow> lk_ttl l)
        in (True, if ttl \<le> 0 then redis_del (lk_key l) s
                  else redis_put (lk_key l) (Pickled (PStr (lk_value l)), Some (now + of_int ttl)) s)
      else (False, s))"

text \<open>\<open>distributed_lock\<close>: the context manager around a critical section \<open>body\<close>, which is told whether the
lock was taken and says when it ended. \<open>None\<close> is \<open>LockAcquisitionError\<close>.\<close>

definition with_lock :: "lock_obj \<Rightarrow> (nat \<Rightarrow> bool) \<Rightarrow> (nat \<Rightarrow> rat \<times> (pyval cache_state \<Rightarrow> pyval cache_state)) \<Rightarrow> bool \<Rightarrow> rat \<Rightarrow>
    (bool \<Rightarrow> pyval cache_state \<Rightarrow> 'a \<times> rat \<times> pyval cache_state) \<Rightarrow> pyval cache_state \<Rightarrow> 'a option \<times> pyval cache_state" where
  "with_lock l faults waits raise_on_failure now body s =
     (case lock_acquire l faults waits now s of
        (acquired, l', s') \<Rightarrow>
          if \<not> acquired \<and> raise_on_failure then (None, s')
          else (case body acquired s' of
                  (r, t, s'') \<Rightarrow> (Some r, if acquired then snd (snd (lock_release t l' s'')) else s'')))"

subsection \<open>Single operations\<close>

lemma set_nx_frames: "set_nx now l s = (b, s') \<Longrightarrow> cs_redis s' = cs_redis s"
  by (auto simp: set_nx_def split: if_splits)

lemma acquire_loop_frame:
  "acquire_loop l n faults waits now s = (b, l', s') \<Longrightarrow>
     lk_key l' = lk_key l \<and> lk_ttl l' = lk_ttl l \<and> lk_value l' = lk_value l \<and> lk_retry_times l' = lk_retry_times l \<and>
     lk_acquired l' = (b \<or> lk_acquired l)"
proof (induction l n faults waits now s rule: acquire_loop.induct)
  case (2 l n faults waits now s)
  then show ?case by (auto split: if_splits prod.splits bool.splits)
qed auto

text \<open>A lock that was just taken is stored with the full lease.\<close>

lemma set_nx_taken:
  assumes "set_nx now l s = (True, s')"
  shows "s' = redis_put (lk_key l) (Pickled (PStr (lk_value l)), Some (now + of_int (lk_ttl l))) s"
    and "redis_get now (lk_key l) s = None" and "0 < lk_ttl l"
  using assms by (auto simp: set_nx_def split: if_splits)

text \<open>A lock whose lease ran out cannot be released or extended, and another client's entry stays.\<close>

lemma release_foreign:
  assumes "\<not> holds_entry now l s"
  shows "snd (snd (lock_release now l s)) = s" and "lk_acquired l \<Longrightarrow> cs_redis s \<Longrightarrow> fst (lock_release now l s) = False"
  using assms by (simp_all add: lock_release_def)

lemma extend_foreign:
  assumes "\<not> holds_entry now l s" and "cs_redis s"
  shows "lock_extend now a l s = (False, s)"
  using assms by (simp add: lock_extend_def)

text \<open>Without a Redis client every acquisition succeeds, and the release that follows reports success.\<close>

lemma lock_fails_open:
  assumes "\<not> cs_redis s"
  shows "lock_acquire l faults waits now s = (True, l, s)" and "lock_release t l s = (True, l, s)"
  using assms by (simp_all add: lock_acquire_def lock_release_def)

text \<open>\<open>additional_ttl\<close> is not added to the lease: it replaces what is left of it, and may shorten it.\<close>

lemma extend_replaces_lease:
  assumes "lk_acquired l" and "cs_redis s" and "holds_entry now l s" and "0 < a"
  shows "redis_get t (lk_key l) (snd (lock_extend now (Some a) l s)) = (if t < now + of_int a then Some (Pickled (PStr (lk_value l))) else None)"
  using assms by (auto simp: lock_extend_def Let_def redis_get_put live_def)

subsection \<open>Interleaved clients\<close>

text \<open>
  Clients that compete for one key, identified by numbers. Each has its lock object and, while it is in
  its critical section, the end of the lease it knows of: the time of its last successful attempt or
  extension plus the lease. A step is one round trip to the server by one client, or time passing.
\<close>

record lock_world =
  lw_now :: rat
  lw_server :: "pyval cache_state"
  lw_locks :: "nat \<Rightarrow> lock_obj"
  lw_lease :: "nat \<Rightarrow> rat option"

inductive lock_step :: "lock_world \<Rightarrow> lock_world \<Rightarrow> bool" where
  tick: "0 \<le> d \<Longrightarrow> lock_step w (w\<lparr>lw_now := lw_now w + d\<rparr>)"
| attempt: "lw_lease w c = None \<Longrightarrow> set_nx (lw_now w) (lw_locks w c) (lw_server w) = (True, s') \<Longrightarrow>
    lock_step w (w\<lparr>lw_server := s', lw_locks := (lw_locks w)(c := (lw_locks w c)\<lparr>lk_acquired := True\<rparr>),
                   lw_lease := (lw_lease w)(c := Some (lw_now w + of_int (lk_ttl (lw_locks w c))))\<rparr>)"
| leave: "lw_lease w c \<noteq> None \<Longrightarrow> lock_release (lw_now w) (lw_locks w c) (lw_server w) = (b, l', s') \<Longrightarrow>
    lock_step w (w\<lparr>lw_server := s', lw_locks := (lw_locks w)(c := l'), lw_lease := (lw_lease w)(c := None)\<rparr>)"
| prolong: "lw_lease w c \<noteq> None \<Longrightarrow> 0 < a \<Longrightarrow> lock_extend (lw_now w) (Some a) (lw_locks w c) (lw_server w) = (True, s') \<Longrightarrow>
    lock_step w (w\<lparr>lw_server := s', lw_lease := (lw_lease w)(c := Some (lw_now w + of_int a))\<rparr>)"

inductive_cases lock_stepE: "lock_step w w'"

text \<open>All clients use the same key, with pairwise different values, and none is in its critical section.\<close>

definition lock_start :: "string \<Rightarrow> lock_world \<Rightarrow> bool" where
  "lock_start k w \<longleftrightarrow> cs_redis (lw_server w) \<and> inj (\<lambda>c. lk_value (lw_locks w c)) \<and>
     (\<forall>c. lk_key (lw_locks w c) = k \<and> \<not> lk_acquired (lw_locks w c) \<and> lw_lease w c = None)"

definition lock_inv :: "string \<Rightarrow> lock_world \<Rightarrow> bool" where
  "lock_inv k w \<longleftrightarrow> cs_redis (lw_server w) \<and> inj (\<lambda>c. lk_value (lw_locks w c)) \<and>
     (\<forall>c. lk_key (lw_locks w c) = k \<and> (lw_lease w c \<noteq> None \<longrightarrow> lk_acquired (lw_locks w c)) \<and>
        (\<forall>e. lw_lease w c = Some e \<longrightarrow> lw_now w < e \<longrightarrow>
           dget (cs_data (lw_server w)) k = Some (Pickled (PStr (lk_value (lw_locks w c))), Some e)))"

lemma lock_invD:
  assumes "lock_inv k w"
  shows "cs_redis (lw_server w)" and "inj (\<lambda>c. lk_value (lw_locks w c))" and "lk_key (lw_locks w c) = k"
    and "lw_lease w c \<noteq> None \<Longrightarrow> lk_acquired (lw_locks w c)"
    and "lw_lease w c = Some e \<Longrightarrow> lw_now w < e \<Longrightarrow>
      dget (cs_data (lw_server w)) k = Some (Pickled (PStr (lk_value (lw_locks w c))), Some e)"
  using assms by (auto simp: lock_inv_def)

lemma lock_invI:
  assumes "cs_redis (lw_server w)" and "inj (\<lambda>c. lk_value (lw_locks w c))" and "\<And>c. lk_key (lw_locks w c) = k"
    and "\<And>c. lw_lease w c \<noteq> None \<Longrightarrow> lk_acquired (lw_locks w c)"
    and "\<And>c e. lw_lease w c = Some e \<Longrightarrow> lw_now w < e \<Longrightarrow>
      dget (cs_data (lw_server w)) k = Some (Pickled (PStr (lk_value (lw_locks w c))), Some e)"
  shows "lock_inv k w"
  using assms by (auto simp: lock_inv_def)

lemma inv_exclusive:
  assumes "lock_inv k w" and "lw_lease w c = Some e" "lw_now w < e" and "lw_lease w c' = Some e'" "lw_now w < e'"
  shows "c = c'"
proof -
  have "lk_value (lw_locks w c) = lk_value (lw_locks w c')"
    using lock_invD(5) [OF assms(1,2,3)] lock_invD(5) [OF assms(1,4,5)] by simp
  with lock_invD(2) [OF assms(1)] show ?thesis by (simp add: inj_def)
qed

lemma inv_holds_entry:
  assumes "lock_inv k w" and "lw_lease w c = Some e" "lw_now w < e"
  shows "holds_entry (lw_now w) (lw_locks w d) (lw_server w) \<longleftrightarrow> d = c"
proof -
  have "redis_get (lw_now w) k (lw_server w) = Some (Pickled (PStr (lk_value (lw_locks w c))))"
    using lock_invD(5) [OF assms] assms(3) by (simp add: redis_get_def live_def)
  with lock_invD(2,3) [OF assms(1)] show ?thesis by (auto simp: holds_entry_def inj_def)
qed

lemma lock_start_inv: "lock_start k w \<Longrightarrow> lock_inv k w"
  by (simp add: lock_start_def lock_inv_def)

lemma values_upd: "lk_value l = lk_value (f c) \<Longrightarrow> (\<lambda>d. lk_value ((f(c := l)) d)) = (\<lambda>d. lk_value (f d))"
  by (rule ext) simp

lemma lock_step_inv:
  assumes "lock_step w w'" and "lock_inv k w"
  shows "lock_inv k w'"
  using assms
proof (induction rule: lock_step.induct)
  case (tick d w)
  then show ?case by (auto simp: lock_inv_def)
next
  case (attempt w c s')
  note inv = lock_invD [OF attempt.prems]
  note taken = set_nx_taken [OF attempt.hyps(2)]
  have other: False if "lw_lease w d = Some e" "lw_now w < e" for d e
    using inv(5) [OF that] that taken(2) inv(3) by (simp add: redis_get_def live_def)
  have inj: "inj (\<lambda>d. lk_value (((lw_locks w)(c := (lw_locks w c)\<lparr>lk_acquired := True\<rparr>)) d))"
    using inv(2) by (subst values_upd) simp_all
  have put: "dget (cs_data s') k = Some (Pickled (PStr (lk_value (lw_locks w c))), Some (lw_now w + of_int (lk_ttl (lw_locks w c))))"
    using inv(3) taken(1) by (simp add: redis_put_def)
  have up: "cs_redis s'" using inv(1) taken(1) by simp
  show ?case
  proof (rule lock_invI, goal_cases)
    case (5 d e)
    with put other [of d e] show ?case by (cases "d = c") auto
  qed (use up inj inv in auto)
next
  case (leave w c b l' s')
  note inv = lock_invD [OF leave.prems]
  from leave.hyps inv(1) have l': "lk_value l' = lk_value (lw_locks w c)" "lk_key l' = lk_key (lw_locks w c)"
    and s': "s' = (if holds_entry (lw_now w) (lw_locks w c) (lw_server w) then redis_del k (lw_server w) else lw_server w)"
    using inv(3,4) by (auto simp: lock_release_def split: if_splits)
  have keep: "s' = lw_server w" if "lw_lease w d = Some e" "lw_now w < e" "d \<noteq> c" for d e
    using inv_holds_entry [OF leave.prems that(1,2), of c] that(3) s' by auto
  have inj: "inj (\<lambda>d. lk_value (((lw_locks w)(c := l')) d))"
    using inv(2) l' by (subst values_upd) simp_all
  have up: "cs_redis s'" using s' inv(1) by simp
  have ent: "dget (cs_data s') k = Some (Pickled (PStr (lk_value (lw_locks w d))), Some e)"
    if "lw_lease w d = Some e" "lw_now w < e" "d \<noteq> c" for d e
    using keep [OF that] inv(5) [OF that(1,2)] by simp
  show ?case
  proof (rule lock_invI, goal_cases)
    case (5 d e)
    with ent [of d e] show ?case by (cases "d = c") auto
  qed (use up inj inv l' in \<open>auto split: if_splits\<close>)
next
  case (prolong w c a s')
  note inv = lock_invD [OF prolong.prems]
  from prolong.hyps inv(1,3,4) have hold: "holds_entry (lw_now w) (lw_locks w c) (lw_server w)"
    and s': "s' = redis_put k (Pickled (PStr (lk_value (lw_locks w c))), Some (lw_now w + of_int a)) (lw_server w)"
    by (auto simp: lock_extend_def Let_def split: if_splits)
  have other: "d = c" if "lw_lease w d = Some e" "lw_now w < e" for d e
    using inv_holds_entry [OF prolong.prems that, of c] hold by simp
  have put: "dget (cs_data s') k = Some (Pickled (PStr (lk_value (lw_locks w c))), Some (lw_now w + of_int a))"
    using s' by (simp add: redis_put_def)
  show ?case
  proof (rule lock_invI, goal_cases)
    case (5 d e)
    with put other [of d e] show ?case by (cases "d = c") auto
  qed (use inv s' prolong.hyps(1) in \<open>auto split: if_splits\<close>)
qed

lemma lock_steps_inv:
  assumes "lock_step\<^sup>*\<^sup>* w w'" and "lock_inv k w"
  shows "lock_inv k w'"
  using assms by (induction rule: rtranclp_induct) (auto intro: lock_step_inv)

text \<open>C28: over every interleaving of attempts, extensions, releases and waiting, at most one client of a lock is in
its critical section with a lease that has not run out, and its release is the only one that frees the key.\<close>

theorem lock_mutual_exclusion:
  assumes "lock_start k w0" and "lock_step\<^sup>*\<^sup>* w0 w"
    and "lw_lease w c = Some e" "lw_now w < e"
  shows "(\<forall>d e'. lw_lease w d = Some e' \<and> lw_now w < e' \<longrightarrow> d = c) \<and>
    (\<forall>d. d \<noteq> c \<longrightarrow> snd (snd (lock_release (lw_now w) (lw_locks w d) (lw_server w))) = lw_server w) \<and>
    redis_get (lw_now w) k (snd (snd (lock_release (lw_now w) (lw_locks w c) (lw_server w)))) = None"
proof -
  have inv: "lock_inv k w" by (rule lock_steps_inv [OF assms(2) lock_start_inv [OF assms(1)]])
  have "lk_acquired (lw_locks w c)" "cs_redis (lw_server w)" "lk_key (lw_locks w c) = k"
    using lock_invD [OF inv] assms(3) by auto
  with inv_holds_entry [OF inv assms(3,4)] inv_exclusive [OF inv _ _ assms(3,4)] show ?thesis
    by (auto simp: lock_release_def redis_get_del)
qed

definition lock0 :: lock_world where
  "lock0 = \<lparr>lw_now = 0, lw_server = \<lparr>cs_redis = True, cs_data = []\<rparr>,
     lw_locks = (\<lambda>c. new_lock ''k'' 5 1 (replicate c (CHR ''a''))), lw_lease = (\<lambda>_. None)\<rparr>"

definition lock1 :: lock_world where
  "lock1 = lock0\<lparr>lw_server := snd (set_nx 0 (lw_locks lock0 1) (lw_server lock0)),
     lw_locks := (lw_locks lock0)(1 := (lw_locks lock0 1)\<lparr>lk_acquired := True\<rparr>),
     lw_lease := (lw_lease lock0)(1 := Some (0 + of_int 5))\<rparr>"

lemma lock0_start: "lock_start ''k'' lock0"
  by (auto simp: lock_start_def lock0_def new_lock_def inj_def dest: arg_cong [where f = length])

lemma lock0_step: "lock_step lock0 lock1"
proof -
  have "lock_step lock0 (lock0\<lparr>lw_server := snd (set_nx 0 (lw_locks lock0 1) (lw_server lock0)),
     lw_locks := (lw_locks lock0)(1 := (lw_locks lock0 1)\<lparr>lk_acquired := True\<rparr>),
     lw_lease := (lw_lease lock0)(1 := Some (lw_now lock0 + of_int (lk_ttl (lw_locks lock0 1))))\<rparr>)"
    by (rule lock_step.attempt) (simp_all add: lock0_def new_lock_def set_nx_def redis_get_def)
  then show ?thesis by (simp add: lock1_def lock0_def new_lock_def)
qed

text \<open>C28 at the first client after its attempt.\<close>

theorem lock_mutual_exclusion_witness:
  "lw_lease lock1 1 = Some 5 \<and> lw_now lock1 < 5 \<and>
   snd (snd (lock_release (lw_now lock1) (lw_locks lock1 2) (lw_server lock1))) = lw_server lock1"
proof -
  have lease: "lw_lease lock1 1 = Some 5" "lw_now lock1 < 5" by (simp_all add: lock1_def lock0_def)
  from lock_mutual_exclusion [OF lock0_start r_into_rtranclp [where r = lock_step, OF lock0_step] lease] lease show ?thesis by simp
qed

text \<open>Beyond its lease a critical section is not protected: the key expires under the first client, the second takes
it, and both are inside.\<close>

lemma lock_overlap_after_lease:
  "set_nx 6 (lw_locks lock1 2) (lw_server lock1) =
     (True, redis_put ''k'' (Pickled (PStr ''aa''), Some 11) (lw_server lock1))"
  by code_simp

end
