(* ===== verification/Monitor_Task.thy ===== *)
theory Monitor_Task
  imports Monitor_Cron Distributed_Lock
begin

section \<open>Monitor tasks\<close>

text \<open>
  src/app/services/monitor_service.py, src/app/services/monitor_dispatch.py, the task repository
  (src/app/repositories/monitor_repository.py) and the tables of src/app/models/monitor.py. A monitor
  task is run either by the workers of the server (target cloud) or by a desktop client that pulls it
  (target desktop). The state holds the table of tasks in the order of the database, the schedule in
  the Redis sorted set, the cache, the execution log, the jobs that were handed to Celery, the
  assistants that were created and the stored secrets by reference. Times are seconds; \<open>next_run_after\<close>
  gives minutes. The Chinese texts of errors and notifications are replaced by short English ones.
\<close>

subsection \<open>Data\<close>

datatype monitor_status = MON_ACTIVE | MON_PAUSED | MON_SUSPENDED

datatype exec_target = CLOUD | DESKTOP | DESKTOP_PREFERRED

datatype target_arg = TargetEnum exec_target | TargetRaw pyval

datatype monitor_error = MonValue string | MonCron cron_error | MonIntegrity

record monitor_task =
  mt_user :: string
  mt_title :: string
  mt_objective :: string
  mt_cron :: string
  mt_status :: monitor_status
  mt_snapshot :: pyval
  mt_last_executed :: "rat option"
  mt_next_run :: "rat option"
  mt_interval :: int
  mt_variants :: pyval
  mt_assistant :: "string option"
  mt_model :: "string option"
  mt_error_count :: int
  mt_notify :: "(string, pyval) dict"
  mt_tools :: "string list"
  mt_tokens :: int
  mt_is_active :: bool

record monitor_log =
  ml_task :: string
  ml_at :: rat
  ml_status :: string
  ml_tokens :: int
  ml_error :: "string option"

record dead_letter =
  dl_worker :: string
  dl_task :: string
  dl_retries :: nat
  dl_error :: string

text \<open>Jobs: the two schedule updates, a run of the reasoning worker with its \<open>force_notify\<close>, and a notification.\<close>

datatype monitor_job = UpsertJob string | RemoveJob string | TriggerJob string bool | NotifyJob string string pyval

record monitor_config =
  mc_min_cloud :: int
  mc_max_tick :: int
  mc_max_user_tick :: int
  mc_backpressure :: int
  mc_cooldown :: int
  mc_heartbeat_ttl :: int
  mc_lease :: int
  mc_pull_max :: int

definition default_monitor_config :: monitor_config where
  "default_monitor_config =
     \<lparr>mc_min_cloud = 5, mc_max_tick = 50, mc_max_user_tick = 3, mc_backpressure = 60, mc_cooldown = 30,
      mc_heartbeat_ttl = 120, mc_lease = 180, mc_pull_max = 20\<rparr>"

record monitor_state =
  ms_tasks :: "(string, monitor_task) dict"
  ms_zset :: "(string, rat) dict"
  ms_cache :: "pyval cache_state"
  ms_logs :: "monitor_log list"
  ms_jobs :: "monitor_job list"
  ms_assistants :: "string list"
  ms_secrets :: "(string, string) dict"
  ms_dead :: "dead_letter list"

definition put_task :: "string \<Rightarrow> monitor_task \<Rightarrow> monitor_state \<Rightarrow> monitor_state" where
  "put_task i t s = s\<lparr>ms_tasks := dput i t (ms_tasks s)\<rparr>"

definition enqueue_job :: "monitor_job \<Rightarrow> monitor_state \<Rightarrow> monitor_state" where
  "enqueue_job j s = s\<lparr>ms_jobs := ms_jobs s @ [j]\<rparr>"

definition int_dflt :: "int \<Rightarrow> int \<Rightarrow> int" where
  "int_dflt n d = (if n = 0 then d else n)"

subsection \<open>Execution targets\<close>

definition normalize_target :: "target_arg \<Rightarrow> exec_target" where
  "normalize_target a =
     (case a of
        TargetEnum t \<Rightarrow> t
      | TargetRaw v \<Rightarrow> (case v of PStr s \<Rightarrow> if str_lower (str_strip s) = ''cloud'' then CLOUD else DESKTOP | _ \<Rightarrow> DESKTOP))"

definition target_value :: "exec_target \<Rightarrow> string" where
  "target_value t = (case t of CLOUD \<Rightarrow> ''cloud'' | DESKTOP \<Rightarrow> ''desktop'' | DESKTOP_PREFERRED \<Rightarrow> ''desktop_preferred'')"

definition resolve_target :: "(string, pyval) dict \<Rightarrow> exec_target" where
  "resolve_target notify = normalize_target (TargetRaw (py_get notify ''execution_target'' PNone))"

definition apply_target :: "(string, pyval) dict \<Rightarrow> exec_target \<Rightarrow> (string, pyval) dict" where
  "apply_target notify t = dput ''execution_target'' (PStr (target_value t)) notify"

definition is_cloud_target :: "exec_target \<Rightarrow> bool" where
  "is_cloud_target t \<longleftrightarrow> normalize_target (TargetEnum t) = CLOUD"

definition is_local_target :: "exec_target \<Rightarrow> bool" where
  "is_local_target t \<longleftrightarrow> normalize_target (TargetEnum t) = DESKTOP"

subsection \<open>Secrets in notification settings\<close>

definition sensitive_keywords :: "string list" where
  "sensitive_keywords = [''token'', ''secret'', ''password'', ''webhook'', ''api_key'', ''access_key'', ''private_key'']"

definition is_sensitive_key :: "string \<Rightarrow> bool" where
  "is_sensitive_key k = (let n = str_lower (str_strip k) in list_ex (\<lambda>w. str_contains n w) sensitive_keywords)"

text \<open>\<open>_secure_notify_config\<close>: \<open>fresh\<close> is the secret manager's supply of identifiers; a text under a sensitive key
is stored and replaced by its reference.\<close>

fun secure_value :: "(nat \<Rightarrow> string) \<Rightarrow> string \<Rightarrow> pyval \<Rightarrow> (string, string) dict \<Rightarrow> pyval \<times> (string, string) dict"
  and secure_items :: "(nat \<Rightarrow> string) \<Rightarrow> (string \<times> pyval) list \<Rightarrow> (string, string) dict \<Rightarrow> (string \<times> pyval) list \<times> (string, string) dict"
  and secure_elems :: "(nat \<Rightarrow> string) \<Rightarrow> pyval list \<Rightarrow> (string, string) dict \<Rightarrow> pyval list \<times> (string, string) dict" where
  "secure_value fresh k (PDict d) st = (case secure_items fresh d st of (d', st') \<Rightarrow> (PDict d', st'))"
| "secure_value fresh k (PList l) st = (case secure_elems fresh l st of (l', st') \<Rightarrow> (PList l', st'))"
| "secure_value fresh k (PStr t) st =
     (if str_strip t \<noteq> [] \<and> is_sensitive_key k \<and> \<not> starts_with t ''db:''
      then let ref = ''db:'' @ fresh (length st) in (PStr ref, dput ref (str_strip t) st)
      else (PStr t, st))"
| "secure_value fresh k v st = (v, st)"
| "secure_items fresh [] st = ([], st)"
| "secure_items fresh ((k, v) # d) st =
     (case secure_value fresh k v st of (v', st1) \<Rightarrow>
        (case secure_items fresh d st1 of (d', st2) \<Rightarrow> ((k, v') # d', st2)))"
| "secure_elems fresh [] st = ([], st)"
| "secure_elems fresh (v # l) st =
     (case (case v of PDict d \<Rightarrow> (case secure_items fresh d st of (d', st') \<Rightarrow> (PDict d', st')) | _ \<Rightarrow> (v, st)) of (v', st1) \<Rightarrow>
        (case secure_elems fresh l st1 of (l', st2) \<Rightarrow> (v' # l', st2)))"

text \<open>\<open>_sanitize_notify_config_for_response\<close>.\<close>

definition mask :: pyval where
  "mask = PStr ''***''"

fun sanitize_value :: "string \<Rightarrow> pyval \<Rightarrow> pyval"
  and sanitize_items :: "(string \<times> pyval) list \<Rightarrow> (string \<times> pyval) list"
  and sanitize_elems :: "pyval list \<Rightarrow> pyval list" where
  "sanitize_value k (PDict d) = PDict (sanitize_items d)"
| "sanitize_value k (PList l) = PList (sanitize_elems l)"
| "sanitize_value k (PStr t) = (if starts_with t ''db:'' \<or> is_sensitive_key k then mask else PStr t)"
| "sanitize_value k v = (if is_sensitive_key k then mask else v)"
| "sanitize_items [] = []"
| "sanitize_items ((k, v) # d) = (k, sanitize_value k v) # sanitize_items d"
| "sanitize_elems [] = []"
| "sanitize_elems (v # l) = (case v of PDict d \<Rightarrow> PDict (sanitize_items d) | _ \<Rightarrow> v) # sanitize_elems l"

subsection \<open>Requests\<close>

definition alnum :: "char \<Rightarrow> bool" where
  "alnum c = (let n = of_char c :: nat in 48 \<le> n \<and> n \<le> 57 \<or> 65 \<le> n \<and> n \<le> 90 \<or> 97 \<le> n \<and> n \<le> 122)"

text \<open>The pattern \<open>_ALLOWED_TOOL_PATTERN\<close>.\<close>

definition tool_name_ok :: "string \<Rightarrow> bool" where
  "tool_name_ok n =
     (case n of [] \<Rightarrow> False
      | c # cs \<Rightarrow> alnum c \<and> length cs \<le> 63 \<and> list_all (\<lambda>x. alnum x \<or> x \<in> set ''_./:-'') cs)"

fun collect_tools :: "string list \<Rightarrow> string list \<Rightarrow> monitor_error + string list" where
  "collect_tools [] acc = Inr acc"
| "collect_tools (raw # rest) acc =
     (let name = str_strip raw
      in if name = [] then collect_tools rest acc
         else if \<not> tool_name_ok name then Inl (MonValue ''illegal tool name'')
         else if name \<in> set acc then collect_tools rest acc
         else collect_tools rest (acc @ [name]))"

definition normalize_tools :: "string list option \<Rightarrow> monitor_error + string list" where
  "normalize_tools tools =
     (case tools of
        None \<Rightarrow> Inr []
      | Some ts \<Rightarrow>
          (case collect_tools ts [] of
             Inl e \<Rightarrow> Inl e
           | Inr ns \<Rightarrow> if length ns > 32 then Inl (MonValue ''too many tools'') else Inr ns))"

text \<open>\<open>_estimate_cron_interval_minutes\<close> and \<open>_validate_cloud_cron_interval\<close>.\<close>

definition estimate_interval :: "rat \<Rightarrow> string \<Rightarrow> cron_error + int" where
  "estimate_interval now expr =
     (case next_run_after expr now of
        Inl e \<Rightarrow> Inl e
      | Inr t1 \<Rightarrow>
          (case next_run_after expr (of_int (t1 * 60)) of
             Inl e \<Rightarrow> Inl e
           | Inr t2 \<Rightarrow> Inr (max 1 (t2 - t1))))"

definition validate_cloud_interval :: "monitor_config \<Rightarrow> rat \<Rightarrow> string \<Rightarrow> monitor_error option" where
  "validate_cloud_interval cf now expr =
     (case estimate_interval now expr of
        Inl e \<Rightarrow> Some (MonCron e)
      | Inr n \<Rightarrow> if n < max 1 (int_dflt (mc_min_cloud cf) 1) then Some (MonValue ''cron too frequent'') else None)"

definition enforce_cloud_limit :: "exec_target \<Rightarrow> bool" where
  "enforce_cloud_limit t \<longleftrightarrow> normalize_target (TargetEnum t) = CLOUD"

definition minutes_between :: "int \<Rightarrow> rat \<Rightarrow> int" where
  "minutes_between t from_time = max 1 \<lfloor>(of_int (t * 60) - from_time) / 60\<rfloor>"

text \<open>\<open>_compute_next_run\<close>, the same in the service and in the workers.\<close>

definition compute_next_run :: "monitor_task \<Rightarrow> rat \<Rightarrow> rat \<times> int" where
  "compute_next_run t from_time =
     (let expr = str_strip (mt_cron t);
          interval = max 1 (int_dflt (mt_interval t) 360);
          fallback = (from_time + of_int (interval * 60), interval)
      in if expr = [] then fallback
         else case next_run_after expr from_time of
                Inl _ \<Rightarrow> fallback
              | Inr m \<Rightarrow> (of_int (m * 60), minutes_between m from_time))"

record monitor_request =
  mr_user :: string
  mr_title :: string
  mr_objective :: string
  mr_cron :: string
  mr_notify :: "(string, pyval) dict"
  mr_tools :: "string list option"
  mr_target :: target_arg
  mr_variants :: pyval
  mr_model :: "string option"

definition get_by_title :: "string \<Rightarrow> string \<Rightarrow> monitor_state \<Rightarrow> (string \<times> monitor_task) option" where
  "get_by_title user title s = find (\<lambda>(_, t). mt_user t = user \<and> mt_title t = title \<and> mt_is_active t) (ms_tasks s)"

text \<open>The unique constraint on user and title, which soft-deleted rows take part in.\<close>

definition title_free :: "string \<Rightarrow> string \<Rightarrow> string \<Rightarrow> monitor_state \<Rightarrow> bool" where
  "title_free i user title s \<longleftrightarrow> \<not> list_ex (\<lambda>(j, t). j \<noteq> i \<and> mt_user t = user \<and> mt_title t = title) (ms_tasks s)"

definition secure_notify :: "(nat \<Rightarrow> string) \<Rightarrow> (string, pyval) dict \<Rightarrow> monitor_state \<Rightarrow> (string, pyval) dict \<times> monitor_state" where
  "secure_notify fresh d s = (case secure_items fresh d (ms_secrets s) of (d', st) \<Rightarrow> (d', s\<lparr>ms_secrets := st\<rparr>))"

text \<open>\<open>create_task\<close>: \<open>i\<close> is the identifier of the new row and \<open>a\<close> that of the assistant, which is committed before the
row is built.\<close>

definition create_monitor :: "monitor_config \<Rightarrow> (nat \<Rightarrow> string) \<Rightarrow> rat \<Rightarrow> string \<Rightarrow> string \<Rightarrow> monitor_request \<Rightarrow>
    monitor_state \<Rightarrow> (monitor_error + string) \<times> monitor_state" where
  "create_monitor cf fresh now i a r s =
     (case parse_cron_expr (mr_cron r) of
        Inl e \<Rightarrow> (Inl (MonCron e), s)
      | Inr _ \<Rightarrow>
          let target = normalize_target (mr_target r) in
          case (if enforce_cloud_limit target then validate_cloud_interval cf now (mr_cron r) else None) of
            Some e \<Rightarrow> (Inl e, s)
          | None \<Rightarrow>
              if get_by_title (mr_user r) (mr_title r) s \<noteq> None then (Inl (MonValue ''task exists''), s)
              else
                let s1 = s\<lparr>ms_assistants := ms_assistants s @ [a]\<rparr> in
                case next_run_after (mr_cron r) now of
                  Inl e \<Rightarrow> (Inl (MonCron e), s1)
                | Inr m \<Rightarrow>
                    (case secure_notify fresh (mr_notify r) s1 of
                       (notify, s2) \<Rightarrow>
                         (case normalize_tools (mr_tools r) of
                            Inl e \<Rightarrow> (Inl e, s2)
                          | Inr tools \<Rightarrow>
                              if \<not> title_free i (mr_user r) (mr_title r) s2 then (Inl MonIntegrity, s2)
                              else
                                let t = \<lparr>mt_user = mr_user r, mt_title = mr_title r, mt_objective = mr_objective r,
                                         mt_cron = mr_cron r, mt_status = MON_ACTIVE, mt_snapshot = PNone,
                                         mt_last_executed = None, mt_next_run = Some (of_int (m * 60)),
                                         mt_interval = minutes_between m now, mt_variants = mr_variants r,
                                         mt_assistant = Some a, mt_model = mr_model r, mt_error_count = 0,
                                         mt_notify = apply_target notify target, mt_tools = tools,
                                         mt_tokens = 0, mt_is_active = True\<rparr>
                                in (Inr i, enqueue_job (if is_cloud_target target then UpsertJob i else RemoveJob i)
                                      (put_task i t s2)))))"

text \<open>Looking a task up for its user.\<close>

definition owned_task :: "string \<Rightarrow> string \<Rightarrow> monitor_state \<Rightarrow> monitor_error + monitor_task" where
  "owned_task i user s =
     (case dget (ms_tasks s) i of
        None \<Rightarrow> Inl (MonValue ''task not found'')
      | Some t \<Rightarrow> if mt_user t \<noteq> user then Inl (MonValue ''not permitted'') else Inr t)"

record monitor_update =
  mu_title :: "string option"
  mu_objective :: "string option"
  mu_cron :: "string option"
  mu_status :: "string option"
  mu_notify :: "(string, pyval) dict option"
  mu_tools :: "string list option"
  mu_target :: "target_arg option"

definition parse_status :: "string \<Rightarrow> monitor_status option" where
  "parse_status v = (if v = ''active'' then Some MON_ACTIVE else if v = ''paused'' then Some MON_PAUSED
                     else if v = ''failed_suspended'' then Some MON_SUSPENDED else None)"

definition dflt :: "'a option \<Rightarrow> 'a \<Rightarrow> 'a" where
  "dflt x d = (case x of None \<Rightarrow> d | Some v \<Rightarrow> v)"

text \<open>The schedule job that follows a change of a task.\<close>

definition schedule_job :: "string \<Rightarrow> monitor_task \<Rightarrow> monitor_job" where
  "schedule_job i t =
     (if mt_status t = MON_ACTIVE \<and> mt_is_active t \<and> is_cloud_target (resolve_target (mt_notify t))
      then UpsertJob i else RemoveJob i)"

definition update_monitor :: "monitor_config \<Rightarrow> (nat \<Rightarrow> string) \<Rightarrow> rat \<Rightarrow> string \<Rightarrow> string \<Rightarrow> monitor_update \<Rightarrow>
    monitor_state \<Rightarrow> (monitor_error + string) \<times> monitor_state" where
  "update_monitor cf fresh now i user u s =
     (case owned_task i user s of
        Inl e \<Rightarrow> (Inl e, s)
      | Inr t \<Rightarrow>
          (case (case mu_cron u of None \<Rightarrow> None | Some c \<Rightarrow> (case parse_cron_expr c of Inl e \<Rightarrow> Some e | Inr _ \<Rightarrow> None)) of
             Some e \<Rightarrow> (Inl (MonCron e), s)
           | None \<Rightarrow>
          (case (case mu_status u of None \<Rightarrow> Some (mt_status t) | Some v \<Rightarrow> parse_status v) of
             None \<Rightarrow> (Inl (MonValue ''not a status''), s)
           | Some st \<Rightarrow>
          (case (case mu_notify u of None \<Rightarrow> (mt_notify t, s) | Some d \<Rightarrow> secure_notify fresh d s) of
             (merged, s1) \<Rightarrow>
               let target = (case mu_target u of Some a \<Rightarrow> normalize_target a | None \<Rightarrow> resolve_target merged) in
               case (case mu_cron u of Some c \<Rightarrow> if enforce_cloud_limit target then validate_cloud_interval cf now c else None
                     | None \<Rightarrow> None) of
                 Some e \<Rightarrow> (Inl e, s1)
               | None \<Rightarrow>
                   (case (case mu_tools u of None \<Rightarrow> Inr (mt_tools t) | Some ts \<Rightarrow> normalize_tools (Some ts)) of
                      Inl e \<Rightarrow> (Inl e, s1)
                    | Inr tools \<Rightarrow>
                        let t' = t\<lparr>mt_title := dflt (mu_title u) (mt_title t), mt_objective := dflt (mu_objective u) (mt_objective t),
                                   mt_cron := dflt (mu_cron u) (mt_cron t), mt_status := st,
                                   mt_notify := apply_target merged target, mt_tools := tools\<rparr>
                        in if \<not> title_free i user (mt_title t') s1 then (Inl MonIntegrity, s1)
                           else (Inr i, enqueue_job (schedule_job i t') (put_task i t' s1)))))))"

definition pause_monitor :: "string \<Rightarrow> string \<Rightarrow> monitor_state \<Rightarrow> (monitor_error + string) \<times> monitor_state" where
  "pause_monitor i user s =
     (case owned_task i user s of
        Inl e \<Rightarrow> (Inl e, s)
      | Inr t \<Rightarrow> (Inr i, enqueue_job (RemoveJob i) (put_task i (t\<lparr>mt_status := MON_PAUSED\<rparr>) s)))"

definition resume_monitor :: "string \<Rightarrow> string \<Rightarrow> monitor_state \<Rightarrow> (monitor_error + string) \<times> monitor_state" where
  "resume_monitor i user s =
     (case owned_task i user s of
        Inl e \<Rightarrow> (Inl e, s)
      | Inr t \<Rightarrow>
          (Inr i, enqueue_job (if is_cloud_target (resolve_target (mt_notify t)) then UpsertJob i else RemoveJob i)
             (put_task i (t\<lparr>mt_status := MON_ACTIVE\<rparr>) s)))"

definition delete_monitor :: "string \<Rightarrow> string \<Rightarrow> monitor_state \<Rightarrow> (monitor_error + string) \<times> monitor_state" where
  "delete_monitor i user s =
     (case owned_task i user s of
        Inl e \<Rightarrow> (Inl e, s)
      | Inr t \<Rightarrow> (Inr i, enqueue_job (RemoveJob i) (put_task i (t\<lparr>mt_is_active := False\<rparr>) s)))"

subsection \<open>Desktop clients\<close>

definition request_local_execution :: "rat \<Rightarrow> string \<Rightarrow> string \<Rightarrow> monitor_state \<Rightarrow> (monitor_error + string) \<times> monitor_state" where
  "request_local_execution now i user s =
     (case owned_task i user s of
        Inl e \<Rightarrow> (Inl e, s)
      | Inr t \<Rightarrow>
          if mt_status t \<noteq> MON_ACTIVE then (Inl (MonValue ''not active''), s)
          else if \<not> is_local_target (resolve_target (mt_notify t)) then (Inl (MonValue ''cloud task''), s)
          else (Inr i, put_task i (t\<lparr>mt_next_run := Some now\<rparr>) s))"

definition heartbeat_ttl :: "monitor_config \<Rightarrow> int" where
  "heartbeat_ttl cf = max 30 (int_dflt (mc_heartbeat_ttl cf) 120)"

definition claim_lease :: "monitor_config \<Rightarrow> int" where
  "claim_lease cf = max 30 (int_dflt (mc_lease cf) 180)"

definition pull_limit :: "monitor_config \<Rightarrow> int \<Rightarrow> int" where
  "pull_limit cf n = min (max 1 (int_dflt n 1)) (max 1 (int_dflt (mc_pull_max cf) 20))"

definition local_retry :: "monitor_config \<Rightarrow> int" where
  "local_retry cf = max 30 (int_dflt (mc_backpressure cf) 60)"

definition record_heartbeat :: "monitor_config \<Rightarrow> rat \<Rightarrow> string \<Rightarrow> string \<Rightarrow> monitor_state \<Rightarrow> bool \<times> monitor_state" where
  "record_heartbeat cf now user agent s =
     (case cache_set now (''monitor:desktop:heartbeat:'' @ user)
             (PDict [(''agent_id'', PStr agent), (''updated_at'', PFloat now)]) (Some (heartbeat_ttl cf)) False (ms_cache s) of
        (ok, c) \<Rightarrow> (ok, s\<lparr>ms_cache := c\<rparr>))"

record pulled_item =
  pi_task :: string
  pi_cron :: string
  pi_tools :: "string list"
  pi_snapshot :: pyval
  pi_notify :: "(string, pyval) dict"
  pi_until :: rat

definition due_of_user :: "rat \<Rightarrow> string \<Rightarrow> nat \<Rightarrow> monitor_state \<Rightarrow> (string \<times> monitor_task) list" where
  "due_of_user now user n s =
     take n (sort_key (\<lambda>(_, t). dflt (mt_next_run t) 0)
       (filter (\<lambda>(_, t). mt_user t = user \<and> mt_status t = MON_ACTIVE \<and> mt_is_active t \<and>
                  (case mt_next_run t of None \<Rightarrow> False | Some x \<Rightarrow> x \<le> now)) (ms_tasks s)))"

text \<open>The loop of \<open>pull_local_tasks\<close>: local tasks are claimed until the limit is reached.\<close>

fun claim_tasks :: "rat \<Rightarrow> nat \<Rightarrow> (string \<times> monitor_task) list \<Rightarrow> pulled_item list \<Rightarrow> monitor_state \<Rightarrow> pulled_item list \<times> monitor_state" where
  "claim_tasks until n [] items s = (items, s)"
| "claim_tasks until n ((i, t) # rest) items s =
     (if \<not> is_local_target (resolve_target (mt_notify t)) then claim_tasks until n rest items s
      else
        let s' = put_task i (t\<lparr>mt_next_run := Some until\<rparr>) s;
            item = \<lparr>pi_task = i, pi_cron = mt_cron t, pi_tools = mt_tools t,
                    pi_snapshot = (case mt_snapshot t of PDict d \<Rightarrow> PDict d | _ \<Rightarrow> PDict []),
                    pi_notify = sanitize_items (mt_notify t), pi_until = until\<rparr>;
            items' = items @ [item]
        in if n \<le> length items' then (items', s') else claim_tasks until n rest items' s')"

text \<open>\<open>pull_local_tasks\<close>: \<open>uuid\<close> is the value of the lock and \<open>faults\<close> whether the one attempt to take it raises.\<close>

definition pull_local_tasks :: "monitor_config \<Rightarrow> rat \<Rightarrow> string \<Rightarrow> (nat \<Rightarrow> bool) \<Rightarrow> string \<Rightarrow> string \<Rightarrow> int \<Rightarrow>
    monitor_state \<Rightarrow> pulled_item list \<times> monitor_state" where
  "pull_local_tasks cf now uuid faults user agent n s =
     (let k = pull_limit cf n;
          until = now + of_int (claim_lease cf);
          s1 = snd (record_heartbeat cf now user agent s)
      in case lock_acquire (new_lock (''monitor:local_pull:'' @ user) 5 1 uuid) faults (\<lambda>_. (now, id)) now (ms_cache s1) of
           (False, _, c) \<Rightarrow> ([], s1\<lparr>ms_cache := c\<rparr>)
         | (True, l, c) \<Rightarrow>
             (case claim_tasks until (nat k) (due_of_user now user (nat (max (k * 4) k)) s1) [] (s1\<lparr>ms_cache := c\<rparr>) of
                (items, s2) \<Rightarrow> (items, s2\<lparr>ms_cache := snd (snd (lock_release now l (ms_cache s2)))\<rparr>)))"

record local_report =
  lr_status :: string
  lr_change :: bool
  lr_summary :: string
  lr_snapshot :: pyval
  lr_tokens :: int
  lr_error :: "string option"
  lr_force :: bool

text \<open>\<open>report_local_execution\<close>.\<close>

definition report_local :: "monitor_config \<Rightarrow> rat \<Rightarrow> string \<Rightarrow> string \<Rightarrow> local_report \<Rightarrow> monitor_state \<Rightarrow>
    (monitor_error + string) \<times> monitor_state" where
  "report_local cf now i user r s =
     (case owned_task i user s of
        Inl e \<Rightarrow> (Inl e, s)
      | Inr t \<Rightarrow>
          let target = resolve_target (mt_notify t); st = str_lower (str_strip (lr_status r)) in
          if \<not> is_local_target target then (Inl (MonValue ''cloud task''), s)
          else if st \<notin> {''success'', ''failure'', ''skipped''} then (Inl (MonValue ''unknown status''), s)
          else
            let snapshot = (case lr_snapshot r of PDict d \<Rightarrow> PDict d | _ \<Rightarrow> PDict []);
                summary = str_strip (lr_summary r);
                cost = max 0 (lr_tokens r);
                entry = \<lparr>ml_task = i, ml_at = now, ml_status = st, ml_tokens = cost,
                         ml_error = (if st = ''success'' then None else Some (take 2000 (str_strip (dflt (lr_error r) []))))\<rparr>;
                s1 = s\<lparr>ms_logs := ms_logs s @ [entry]\<rparr>;
                retry = Some (now + of_int (local_retry cf));
                s2 = (if st = ''success'' then
                        let (nxt, interval) = compute_next_run t now;
                            t' = t\<lparr>mt_snapshot := (if truthy snapshot then snapshot else mt_snapshot t),
                                   mt_tokens := mt_tokens t + cost, mt_error_count := 0,
                                   mt_interval := interval, mt_next_run := Some nxt, mt_last_executed := Some now\<rparr>;
                            text = (if summary = [] then ''desktop run finished without a summary'' else summary)
                        in (if lr_change r \<or> lr_force r then enqueue_job (NotifyJob i text snapshot) else id) (put_task i t' s1)
                      else if st = ''failure'' then
                        put_task i (t\<lparr>mt_error_count := mt_error_count t + 1, mt_last_executed := Some now, mt_next_run := retry,
                                      mt_status := (if mt_error_count t + 1 > 3 then MON_SUSPENDED else mt_status t)\<rparr>) s1
                      else put_task i (t\<lparr>mt_last_executed := Some now, mt_next_run := retry\<rparr>) s1);
                s3 = enqueue_job (if is_cloud_target target then UpsertJob i else RemoveJob i) s2
            in (Inr i, if st = ''failure'' \<and> mt_error_count t + 1 > 3 \<and> mt_status t \<noteq> MON_SUSPENDED
                       then enqueue_job (NotifyJob i ''task suspended after failures'' (PDict [(''system_alert'', PBool True)])) s3
                       else s3))"

text \<open>
  The cool-down of a manual trigger (\<open>_check_manual_trigger_cooldown\<close> in
  src/app/api/v1/monitor_route.py). \<open>cache.set\<close> hands on what the client library answers: True, or None when
  NX found the key; False is its own answer without a client or after an exception.
\<close>

definition cache_set_answer :: "rat \<Rightarrow> string \<Rightarrow> pyval \<Rightarrow> int \<Rightarrow> pyval cache_state \<Rightarrow> pyval \<times> pyval cache_state" where
  "cache_set_answer now k v ex c =
     (if \<not> cs_redis c \<or> ex \<le> 0 then (PBool False, c)
      else case cache_set now k v (Some ex) True c of (ok, c') \<Rightarrow> (if ok then PBool True else PNone, c'))"

definition check_cooldown :: "monitor_config \<Rightarrow> rat \<Rightarrow> string \<Rightarrow> string \<Rightarrow> monitor_state \<Rightarrow> bool \<times> monitor_state" where
  "check_cooldown cf now user i s =
     (case cache_set_answer now (''monitor:manual_trigger:'' @ user @ '':'' @ i) (PBool True)
             (max 1 (int_dflt (mc_cooldown cf) 1)) (ms_cache s) of
        (accepted, c) \<Rightarrow> (\<not> (accepted = PBool False \<and> cs_redis (ms_cache s)), s\<lparr>ms_cache := c\<rparr>))"

text \<open>\<open>trigger_monitor\<close>: the error is the status of the HTTP answer.\<close>

definition trigger_monitor :: "monitor_config \<Rightarrow> rat \<Rightarrow> string \<Rightarrow> string \<Rightarrow> monitor_state \<Rightarrow> (int + string) \<times> monitor_state" where
  "trigger_monitor cf now i user s =
     (case dget (ms_tasks s) i of
        None \<Rightarrow> (Inl 404, s)
      | Some t \<Rightarrow>
          if mt_user t \<noteq> user then (Inl 403, s)
          else if mt_status t \<noteq> MON_ACTIVE then (Inl 400, s)
          else
            (case check_cooldown cf now user i s of
               (False, s1) \<Rightarrow> (Inl 429, s1)
             | (True, s1) \<Rightarrow>
                 if resolve_target (mt_notify t) \<noteq> CLOUD
                 then (case request_local_execution now i user s1 of (Inl _, s2) \<Rightarrow> (Inl 400, s2) | (Inr _, s2) \<Rightarrow> (Inr i, s2))
                 else (Inr i, enqueue_job (TriggerJob i True) s1)))"

end
