(* ===== verification/Monitor_Scheduler.thy ===== *)
theory Monitor_Scheduler
  imports Monitor_Task
begin

section \<open>The monitor workers\<close>

text \<open>
  src/app/tasks/monitor.py: the Celery tasks that scan the schedule, keep it in step with the table,
  run the reasoning of a task with retries and write dead letters. The sorted set is a dictionary of
  scores; members with equal scores keep the order in which they were added. A Redis command that
  fails although a client is there is left out. The reply of the language model comes in as an
  outcome: a successful run with its analysis, a failed one, or an exception.
\<close>

subsection \<open>The schedule\<close>

definition zset_add :: "string \<Rightarrow> rat \<Rightarrow> monitor_state \<Rightarrow> monitor_state" where
  "zset_add i x s = (if cs_redis (ms_cache s) then s\<lparr>ms_zset := dput i x (ms_zset s)\<rparr> else s)"

definition zset_remove :: "string \<Rightarrow> monitor_state \<Rightarrow> monitor_state" where
  "zset_remove i s = (if cs_redis (ms_cache s) then s\<lparr>ms_zset := AList.delete i (ms_zset s)\<rparr> else s)"

definition zset_due :: "rat \<Rightarrow> nat \<Rightarrow> monitor_state \<Rightarrow> string list" where
  "zset_due now n s = take n (map fst (sort_key snd (filter (\<lambda>(_, x). x \<le> now) (ms_zset s))))"

definition zset_pop_due :: "rat \<Rightarrow> nat \<Rightarrow> monitor_state \<Rightarrow> string list \<times> monitor_state" where
  "zset_pop_due now n s =
     (if \<not> cs_redis (ms_cache s) then ([], s)
      else let ids = zset_due now n s in (ids, s\<lparr>ms_zset := filter (\<lambda>(i, _). i \<notin> set ids) (ms_zset s)\<rparr>))"

definition max_per_tick :: "monitor_config \<Rightarrow> int" where
  "max_per_tick cf = max 1 (mc_max_tick cf)"

definition max_per_user :: "monitor_config \<Rightarrow> int" where
  "max_per_user cf = max 1 (mc_max_user_tick cf)"

definition backpressure_delay :: "monitor_config \<Rightarrow> int" where
  "backpressure_delay cf = max 5 (mc_backpressure cf)"

definition backpressure_next_run :: "monitor_config \<Rightarrow> rat \<Rightarrow> rat" where
  "backpressure_next_run cf now = now + of_int (backpressure_delay cf)"

definition dispatches_to_desktop :: "monitor_task \<Rightarrow> bool" where
  "dispatches_to_desktop t = is_local_target (resolve_target (mt_notify t))"

record tick_count =
  tc_triggered :: int
  tc_deferred :: int
  tc_desktop :: int
  tc_per_user :: "(string, int) dict"

definition no_ticks :: tick_count where
  "no_ticks = \<lparr>tc_triggered = 0, tc_deferred = 0, tc_desktop = 0, tc_per_user = []\<rparr>"

definition user_count :: "string \<Rightarrow> tick_count \<Rightarrow> int" where
  "user_count u c = dflt (dget (tc_per_user c) u) 0"

text \<open>The body of both scans for a task that is due: hand it to the desktop, defer it or trigger it.\<close>

definition dispatch_due :: "monitor_config \<Rightarrow> rat \<Rightarrow> string \<Rightarrow> monitor_task \<Rightarrow> tick_count \<times> monitor_state \<Rightarrow> tick_count \<times> monitor_state" where
  "dispatch_due cf now i t acc =
     (case acc of (c, s) \<Rightarrow>
        if dispatches_to_desktop t then (c\<lparr>tc_desktop := tc_desktop c + 1\<rparr>, s)
        else
          let u = mt_user t; n = user_count u c
          in if tc_triggered c \<ge> max_per_tick cf \<or> n \<ge> max_per_user cf then
               let later = backpressure_next_run cf now
               in (c\<lparr>tc_deferred := tc_deferred c + 1\<rparr>, zset_add i later (put_task i (t\<lparr>mt_next_run := Some later\<rparr>) s))
             else
               let (nxt, interval) = compute_next_run t now
               in (c\<lparr>tc_triggered := tc_triggered c + 1, tc_per_user := dput u (n + 1) (tc_per_user c)\<rparr>,
                   zset_add i nxt (put_task i (t\<lparr>mt_interval := interval, mt_next_run := Some nxt\<rparr>) (enqueue_job (TriggerJob i False) s))))"

text \<open>One popped identifier of the sorted set.\<close>

definition dispatch_popped :: "monitor_config \<Rightarrow> rat \<Rightarrow> string \<Rightarrow> tick_count \<times> monitor_state \<Rightarrow> tick_count \<times> monitor_state" where
  "dispatch_popped cf now i acc =
     (case acc of (c, s) \<Rightarrow>
        (case dget (ms_tasks s) i of
           None \<Rightarrow> (c, s)
         | Some t \<Rightarrow>
             if \<not> mt_is_active t \<or> mt_status t \<noteq> MON_ACTIVE then (c, s)
             else (case mt_next_run t of
                     Some x \<Rightarrow> if x > now then (c, zset_add i x s) else dispatch_due cf now i t (c, s)
                   | None \<Rightarrow> dispatch_due cf now i t (c, s))))"

definition db_due :: "rat \<Rightarrow> monitor_task \<Rightarrow> bool" where
  "db_due now t \<longleftrightarrow> mt_status t = MON_ACTIVE \<and> mt_is_active t \<and> (case mt_next_run t of None \<Rightarrow> True | Some x \<Rightarrow> x \<le> now)"

definition scan_and_trigger :: "monitor_config \<Rightarrow> rat \<Rightarrow> monitor_state \<Rightarrow> tick_count \<times> monitor_state" where
  "scan_and_trigger cf now s =
     (if cs_redis (ms_cache s) then
        (case zset_pop_due now 200 s of (ids, s1) \<Rightarrow> fold (dispatch_popped cf now) ids (no_ticks, s1))
      else fold (\<lambda>(i, t). dispatch_due cf now i t) (filter (\<lambda>(_, t). db_due now t) (ms_tasks s)) (no_ticks, s))"

text \<open>\<open>_upsert_schedule\<close> and \<open>_remove_schedule\<close>.\<close>

definition upsert_schedule :: "rat \<Rightarrow> string \<Rightarrow> monitor_state \<Rightarrow> monitor_state" where
  "upsert_schedule now i s =
     (case dget (ms_tasks s) i of
        None \<Rightarrow> s
      | Some t \<Rightarrow>
          if \<not> mt_is_active t \<or> mt_status t \<noteq> MON_ACTIVE then zset_remove i (put_task i (t\<lparr>mt_next_run := None\<rparr>) s)
          else let (nxt, interval) = compute_next_run t now
               in zset_add i nxt (put_task i (t\<lparr>mt_interval := interval, mt_next_run := Some nxt\<rparr>) s))"

definition remove_schedule :: "string \<Rightarrow> monitor_state \<Rightarrow> monitor_state" where
  "remove_schedule i s =
     (case dget (ms_tasks s) i of
        None \<Rightarrow> s
      | Some t \<Rightarrow> zset_remove i (put_task i (t\<lparr>mt_next_run := None\<rparr>) s))"

text \<open>\<open>_bootstrap_schedule\<close> under its lock; the result is the number of tasks it loaded, or None when the lock is taken.\<close>

definition bootstrap_task :: "rat \<Rightarrow> string \<times> monitor_task \<Rightarrow> int \<times> monitor_state \<Rightarrow> int \<times> monitor_state" where
  "bootstrap_task now x acc =
     (case (x, acc) of ((i, t), (n, s)) \<Rightarrow>
        if \<not> is_cloud_target (resolve_target (mt_notify t)) then (n, s)
        else (case mt_next_run t of
                Some x \<Rightarrow> (n + 1, zset_add i x s)
              | None \<Rightarrow>
                  let (nxt, interval) = compute_next_run t now
                  in (n + 1, zset_add i nxt (put_task i (t\<lparr>mt_interval := interval, mt_next_run := Some nxt\<rparr>) s))))"

definition bootstrap_schedule :: "rat \<Rightarrow> string \<Rightarrow> (nat \<Rightarrow> bool) \<Rightarrow> monitor_state \<Rightarrow> int option \<times> monitor_state" where
  "bootstrap_schedule now uuid faults s =
     (case lock_acquire (new_lock ''monitor:schedule:bootstrap'' 120 1 uuid) faults (\<lambda>_. (now, id)) now (ms_cache s) of
        (False, _, c) \<Rightarrow> (None, s\<lparr>ms_cache := c\<rparr>)
      | (True, l, c) \<Rightarrow>
          (case fold (bootstrap_task now) (filter (\<lambda>(_, t). mt_status t = MON_ACTIVE \<and> mt_is_active t) (ms_tasks s)) (0, s\<lparr>ms_cache := c\<rparr>) of
             (n, s1) \<Rightarrow> (Some n, s1\<lparr>ms_cache := snd (snd (lock_release now l (ms_cache s1)))\<rparr>)))"

subsection \<open>The reply of the model\<close>

record analysis =
  an_change :: bool
  an_summary :: string
  an_snapshot :: pyval

text \<open>
  \<open>_clamp_snapshot\<close> and \<open>_parse_agent_output\<close>: \<open>loads\<close> and \<open>dumps\<close> are the JSON library (\<open>loads\<close> gives None where it
  raises), \<open>bytes\<close> the length of a text in UTF-8 and \<open>build\<close> the summary made from a snapshot.
\<close>

definition snapshot_size :: "(pyval \<Rightarrow> string) \<Rightarrow> (string \<Rightarrow> nat) \<Rightarrow> pyval \<Rightarrow> nat" where
  "snapshot_size dumps bytes v = bytes (dumps v)"

definition clamp_snapshot :: "(pyval \<Rightarrow> string) \<Rightarrow> (string \<Rightarrow> nat) \<Rightarrow> pyval \<Rightarrow> pyval" where
  "clamp_snapshot dumps bytes v =
     (case v of
        PDict d \<Rightarrow>
          if snapshot_size dumps bytes v \<le> 16000 then v
          else
            let preview = PDict [(''truncated'', PBool True), (''preview'', PStr (take 1000 (dumps v)))]
            in (case py_get d ''key_metrics'' PNone of
                  PDict m \<Rightarrow>
                    let compact = PDict [(''key_metrics'', PDict m)]
                    in if snapshot_size dumps bytes compact \<le> 16000 then compact else preview
                | _ \<Rightarrow> preview)
      | _ \<Rightarrow> PDict [])"

definition no_analysis :: analysis where
  "no_analysis = \<lparr>an_change = False, an_summary = [], an_snapshot = PDict []\<rparr>"

text \<open>The text from the first opening to the last closing brace, if there are both; \<open>content[start:end]\<close> is empty
when the closing brace comes first.\<close>

definition braces :: "string \<Rightarrow> string option" where
  "braces s =
     (if CHR 0x7B \<in> set s \<and> CHR 0x7D \<in> set s
      then let start = length (takeWhile (\<lambda>c. c \<noteq> CHR 0x7B) s);
               stop = length s - length (takeWhile (\<lambda>c. c \<noteq> CHR 0x7D) (rev s))
           in Some (drop start (take stop s))
      else None)"

definition parse_agent_output :: "(string \<Rightarrow> pyval option) \<Rightarrow> (pyval \<Rightarrow> string) \<Rightarrow> (string \<Rightarrow> nat) \<Rightarrow> (pyval \<Rightarrow> bool \<Rightarrow> string) \<Rightarrow> string \<Rightarrow> analysis" where
  "parse_agent_output loads dumps bytes build raw =
     (let content = take 40000 (str_strip raw)
      in if content = [] then no_analysis
         else case braces content of
                None \<Rightarrow> no_analysis
              | Some text \<Rightarrow>
                  (case loads text of
                     Some (PDict d) \<Rightarrow>
                       let change = truthy (py_get d ''is_significant_change'' (PBool False));
                           summary = take 4000 (case py_get d ''change_summary'' PNone of PStr t \<Rightarrow> t | _ \<Rightarrow> []);
                           snapshot = clamp_snapshot dumps bytes (py_get d ''new_snapshot'' PNone)
                       in \<lparr>an_change = change, an_summary = (if str_strip summary = [] then build snapshot change else summary),
                           an_snapshot = snapshot\<rparr>
                   | _ \<Rightarrow> no_analysis))"

subsection \<open>The reasoning worker\<close>

datatype run_outcome = RunSuccess analysis int | RunFailure int string | RunRaises string

definition suspend_note :: "string \<Rightarrow> monitor_job" where
  "suspend_note i = NotifyJob i ''task suspended after failures'' (PDict [(''system_alert'', PBool True)])"

text \<open>A failed run: the counter goes up and the fourth failure in a row suspends the task.\<close>

definition count_failure :: "rat \<Rightarrow> string \<Rightarrow> monitor_task \<Rightarrow> monitor_state \<Rightarrow> monitor_state" where
  "count_failure now i t s =
     (let n = mt_error_count t + 1; trips = n > 3 \<and> mt_status t \<noteq> MON_SUSPENDED;
          t' = t\<lparr>mt_error_count := n, mt_last_executed := Some now, mt_status := (if trips then MON_SUSPENDED else mt_status t)\<rparr>
      in (if trips then enqueue_job (suspend_note i) else id) (put_task i t' s))"

definition log_run :: "string \<Rightarrow> rat \<Rightarrow> string \<Rightarrow> int \<Rightarrow> string option \<Rightarrow> monitor_state \<Rightarrow> monitor_state" where
  "log_run i now st n e s = s\<lparr>ms_logs := ms_logs s @ [\<lparr>ml_task = i, ml_at = now, ml_status = st, ml_tokens = n, ml_error = e\<rparr>]\<rparr>"

text \<open>\<open>_execute_reasoning_flow\<close>: \<open>model\<close> is the model that settings outside the task provide. The result is the error
that the task raises, if any.\<close>

definition reasoning_flow :: "rat \<Rightarrow> string option \<Rightarrow> run_outcome \<Rightarrow> string \<Rightarrow> bool \<Rightarrow> monitor_state \<Rightarrow> string option \<times> monitor_state" where
  "reasoning_flow now model outcome i force s =
     (case dget (ms_tasks s) i of
        None \<Rightarrow> (None, s)
      | Some t \<Rightarrow>
          if \<not> mt_is_active t \<or> mt_status t \<noteq> MON_ACTIVE then (None, s)
          else if str_strip (dflt (mt_model t) []) = [] \<and> model = None then (Some ''no model'', s)
          else
            (case outcome of
               RunSuccess an n \<Rightarrow>
                 let (nxt, interval) = compute_next_run t now;
                     t' = t\<lparr>mt_snapshot := (if truthy (an_snapshot an) then an_snapshot an else mt_snapshot t),
                            mt_tokens := mt_tokens t + n, mt_error_count := 0, mt_interval := interval,
                            mt_next_run := Some nxt, mt_last_executed := Some now\<rparr>;
                     summary = str_strip (an_summary an);
                     text = (if \<not> an_change an \<and> force \<and> summary = [] then ''no significant change'' else summary);
                     s1 = put_task i t' (log_run i now ''success'' n None s)
                 in (None, if an_change an \<or> force then enqueue_job (NotifyJob i text (an_snapshot an)) s1 else s1)
             | RunFailure n e \<Rightarrow> (None, count_failure now i t (log_run i now ''failure'' n (Some e) s))
             | RunRaises e \<Rightarrow> (Some e, count_failure now i t (log_run i now ''failure'' 0 (Some e) s))))"

text \<open>\<open>reasoning_task\<close> with Celery's retries: an exception is retried three times, the last one leaves a dead letter.
\<open>attempts\<close> lists the time and the outcome of each attempt.\<close>

definition retry_max :: nat where
  "retry_max = 3"

definition add_dead_letter :: "string \<Rightarrow> string \<Rightarrow> nat \<Rightarrow> string \<Rightarrow> monitor_state \<Rightarrow> monitor_state" where
  "add_dead_letter w i n e s =
     s\<lparr>ms_dead := ms_dead s @ [\<lparr>dl_worker = w, dl_task = i, dl_retries = n, dl_error = take 2000 e\<rparr>]\<rparr>"

fun reasoning_attempts :: "string option \<Rightarrow> nat \<Rightarrow> (rat \<times> run_outcome) list \<Rightarrow> string \<Rightarrow> bool \<Rightarrow> monitor_state \<Rightarrow> monitor_state" where
  "reasoning_attempts model k [] i force s = s"
| "reasoning_attempts model k ((now, outcome) # rest) i force s =
     (case reasoning_flow now model outcome i force s of
        (None, s') \<Rightarrow> s'
      | (Some e, s') \<Rightarrow>
          if k \<ge> retry_max then add_dead_letter ''reasoning_worker'' i k e s'
          else reasoning_attempts model (k + 1) rest i force s')"

end
