(* ===== verification/Monitor_Properties.thy ===== *)
theory Monitor_Properties
  imports Monitor_Scheduler
begin

text \<open>
  What the scheduler guarantees: a tick stays within its limits and loses no task of the cloud. What
  the machinery does to desktop tasks, to tasks that fail, and to manual triggers.
\<close>

subsection \<open>Frames\<close>

lemma task_frames [simp]:
  "ms_tasks (put_task i t s) = dput i t (ms_tasks s)" "ms_zset (put_task i t s) = ms_zset s"
  "ms_jobs (put_task i t s) = ms_jobs s" "ms_cache (put_task i t s) = ms_cache s" "ms_dead (put_task i t s) = ms_dead s"
  "ms_tasks (enqueue_job j s) = ms_tasks s" "ms_zset (enqueue_job j s) = ms_zset s"
  "ms_jobs (enqueue_job j s) = ms_jobs s @ [j]" "ms_cache (enqueue_job j s) = ms_cache s" "ms_dead (enqueue_job j s) = ms_dead s"
  "ms_tasks (zset_add i x s) = ms_tasks s" "ms_jobs (zset_add i x s) = ms_jobs s" "ms_cache (zset_add i x s) = ms_cache s"
  "ms_tasks (zset_remove i s) = ms_tasks s" "ms_jobs (zset_remove i s) = ms_jobs s" "ms_cache (zset_remove i s) = ms_cache s"
  by (simp_all add: put_task_def enqueue_job_def zset_add_def zset_remove_def)

lemma zset_add_up [simp]: "cs_redis (ms_cache s) \<Longrightarrow> ms_zset (zset_add i x s) = dput i x (ms_zset s)"
  by (simp add: zset_add_def)

lemma compute_next_run_later: "compute_next_run t now = (nxt, interval) \<Longrightarrow> now < nxt \<and> 1 \<le> interval"
proof -
  assume run: "compute_next_run t now = (nxt, interval)"
  have whole: "now < of_int (m * 60)" if found: "next_run_after e now = Inr m" for e m
  proof -
    obtain sp where "parse_cron_expr e = Inr sp" using found by (cases "parse_cron_expr e") (auto simp: next_run_after_def)
    with next_run_matches(1) [OF found] have "\<lfloor>now / 60\<rfloor> < m" by blast
    then have "now / 60 < of_int m" by (simp add: floor_less_iff)
    then show ?thesis by simp
  qed
  have pos: "(0 :: rat) < of_int (max 1 n * 60)" for n by simp
  show ?thesis
    using run whole pos [of "int_dflt (mt_interval t) 360"]
    by (auto simp: compute_next_run_def Let_def minutes_between_def split: if_splits sum.splits)
qed

subsection \<open>A tick stays within its limits\<close>

definition is_trigger :: "monitor_job \<Rightarrow> bool" where
  "is_trigger j = (case j of TriggerJob _ _ \<Rightarrow> True | _ \<Rightarrow> False)"

definition tick_inv :: "monitor_config \<Rightarrow> nat \<Rightarrow> tick_count \<times> monitor_state \<Rightarrow> bool" where
  "tick_inv cf base acc =
     (case acc of (c, s) \<Rightarrow> 0 \<le> tc_triggered c \<and> tc_triggered c \<le> max_per_tick cf \<and> (\<forall>u. user_count u c \<le> max_per_user cf) \<and>
        int (length (filter is_trigger (ms_jobs s))) = int base + tc_triggered c)"

lemma dispatch_due_inv:
  assumes "tick_inv cf base acc"
  shows "tick_inv cf base (dispatch_due cf now i t acc)"
proof -
  obtain c s where acc: "acc = (c, s)" by (cases acc)
  obtain nxt interval where run: "compute_next_run t now = (nxt, interval)" by (cases "compute_next_run t now")
  show ?thesis
    using assms by (auto simp: acc run tick_inv_def dispatch_due_def Let_def user_count_def dflt_def is_trigger_def)
qed

lemma dispatch_popped_inv:
  assumes "tick_inv cf base acc"
  shows "tick_inv cf base (dispatch_popped cf now i acc)"
proof -
  obtain c s where acc: "acc = (c, s)" by (cases acc)
  have keep: "tick_inv cf base (c, zset_add j x s)" for j x using assms by (simp add: acc tick_inv_def)
  show ?thesis
    using assms keep dispatch_due_inv [of cf base "(c, s)"] by (auto simp: acc dispatch_popped_def split: option.splits)
qed

lemma fold_popped_inv: "tick_inv cf base acc \<Longrightarrow> tick_inv cf base (fold (dispatch_popped cf now) ids acc)"
  by (induction ids arbitrary: acc) (simp_all add: dispatch_popped_inv)

lemma fold_due_inv: "tick_inv cf base acc \<Longrightarrow> tick_inv cf base (fold (\<lambda>(i, t). dispatch_due cf now i t) ts acc)"
  by (induction ts arbitrary: acc) (simp_all add: dispatch_due_inv split_def)

lemma limits_pos [simp]: "0 \<le> max_per_tick cf" "0 \<le> max_per_user cf"
  by (simp_all add: max_per_tick_def max_per_user_def)

text \<open>One tick triggers at most the configured number of runs, at most the configured number per user, and
exactly the runs it counts.\<close>

theorem tick_within_limits:
  "case scan_and_trigger cf now s of
     (c, s') \<Rightarrow> tc_triggered c \<le> max_per_tick cf \<and> (\<forall>u. user_count u c \<le> max_per_user cf) \<and>
       int (length (filter is_trigger (ms_jobs s'))) = int (length (filter is_trigger (ms_jobs s))) + tc_triggered c"
proof -
  let ?base = "length (filter is_trigger (ms_jobs s))"
  have start: "tick_inv cf ?base (no_ticks, s')" if "ms_jobs s' = ms_jobs s" for s'
    using that by (simp add: tick_inv_def no_ticks_def user_count_def dflt_def)
  have "tick_inv cf ?base (scan_and_trigger cf now s)"
  proof (cases "cs_redis (ms_cache s)")
    case True
    obtain ids s1 where pop: "zset_pop_due now 200 s = (ids, s1)" by (cases "zset_pop_due now 200 s")
    then have "ms_jobs s1 = ms_jobs s" by (auto simp: zset_pop_due_def Let_def split: if_splits)
    then have "tick_inv cf ?base (fold (dispatch_popped cf now) ids (no_ticks, s1))"
      by (intro fold_popped_inv start)
    with True pop show ?thesis by (simp add: scan_and_trigger_def)
  next
    case False
    have "tick_inv cf ?base (fold (\<lambda>(i, t). dispatch_due cf now i t) (filter (\<lambda>(_, t). db_due now t) (ms_tasks s)) (no_ticks, s))"
      by (intro fold_due_inv start) simp
    with False show ?thesis by (simp add: scan_and_trigger_def)
  qed
  then show ?thesis by (auto simp: tick_inv_def split: prod.splits)
qed

subsection \<open>A tick keeps the schedule\<close>

text \<open>A task is scheduled when its row has a next run after the tick and the sorted set carries the same time.\<close>

definition scheduled :: "rat \<Rightarrow> string \<Rightarrow> monitor_state \<Rightarrow> bool" where
  "scheduled now i s \<longleftrightarrow> cs_redis (ms_cache s) \<and>
     (\<exists>t x. dget (ms_tasks s) i = Some t \<and> mt_next_run t = Some x \<and> now < x \<and> dget (ms_zset s) i = Some x)"

definition cloud_live :: "monitor_task \<Rightarrow> bool" where
  "cloud_live t \<longleftrightarrow> mt_is_active t \<and> mt_status t = MON_ACTIVE \<and> \<not> dispatches_to_desktop t"

lemma dispatch_due_schedules:
  assumes "cs_redis (ms_cache s)" and "\<not> dispatches_to_desktop t"
  shows "scheduled now i (snd (dispatch_due cf now i t (c, s)))"
proof -
  obtain nxt interval where run: "compute_next_run t now = (nxt, interval)" by (cases "compute_next_run t now")
  have "now < backpressure_next_run cf now" by (simp add: backpressure_next_run_def backpressure_delay_def)
  with compute_next_run_later [OF run] assms show ?thesis
    by (simp add: dispatch_due_def run scheduled_def Let_def)
qed

lemma dispatch_popped_schedules:
  assumes "cs_redis (ms_cache s)" and "dget (ms_tasks s) i = Some t" and "cloud_live t"
  shows "scheduled now i (snd (dispatch_popped cf now i (c, s)))"
  using assms dispatch_due_schedules [OF assms(1), of t]
  by (auto simp: dispatch_popped_def cloud_live_def scheduled_def split: option.splits)

lemma dispatch_due_other:
  assumes "j \<noteq> i"
  shows "dget (ms_tasks (snd (dispatch_due cf now j t (c, s)))) i = dget (ms_tasks s) i"
    and "dget (ms_zset (snd (dispatch_due cf now j t (c, s)))) i = dget (ms_zset s) i"
    and "ms_cache (snd (dispatch_due cf now j t (c, s))) = ms_cache s"
proof -
  obtain nxt interval where run: "compute_next_run t now = (nxt, interval)" by (cases "compute_next_run t now")
  show "dget (ms_tasks (snd (dispatch_due cf now j t (c, s)))) i = dget (ms_tasks s) i"
    "dget (ms_zset (snd (dispatch_due cf now j t (c, s)))) i = dget (ms_zset s) i"
    "ms_cache (snd (dispatch_due cf now j t (c, s))) = ms_cache s"
    using assms by (simp_all add: dispatch_due_def run Let_def zset_add_def)
qed

lemma dispatch_popped_other:
  assumes "j \<noteq> i"
  shows "dget (ms_tasks (snd (dispatch_popped cf now j (c, s)))) i = dget (ms_tasks s) i"
    and "dget (ms_zset (snd (dispatch_popped cf now j (c, s)))) i = dget (ms_zset s) i"
    and "ms_cache (snd (dispatch_popped cf now j (c, s))) = ms_cache s"
  using assms dispatch_due_other [OF assms]
  by (auto simp: dispatch_popped_def zset_add_def split: option.splits)

lemma dispatch_due_cache: "ms_cache (snd (dispatch_due cf now j t (c, s))) = ms_cache s"
  by (simp add: dispatch_due_def Let_def split: prod.splits)

lemma dispatch_popped_cache: "ms_cache (snd (dispatch_popped cf now j (c, s))) = ms_cache s"
  by (auto simp: dispatch_popped_def dispatch_due_cache split: option.splits)

lemma fold_dispatch_cache: "ms_cache (snd (fold (dispatch_popped cf now) ids (c, s))) = ms_cache s"
proof (induction ids arbitrary: c s)
  case (Cons j ids)
  obtain c' s' where "dispatch_popped cf now j (c, s) = (c', s')" by (cases "dispatch_popped cf now j (c, s)")
  with Cons.IH [of c' s'] dispatch_popped_cache [of cf now j c s] show ?case by simp
qed simp

lemma fold_dispatch_other:
  assumes "i \<notin> set ids"
  shows "dget (ms_tasks (snd (fold (dispatch_popped cf now) ids (c, s)))) i = dget (ms_tasks s) i \<and>
    dget (ms_zset (snd (fold (dispatch_popped cf now) ids (c, s)))) i = dget (ms_zset s) i"
  using assms
proof (induction ids arbitrary: c s)
  case (Cons j ids)
  obtain c' s' where "dispatch_popped cf now j (c, s) = (c', s')" by (cases "dispatch_popped cf now j (c, s)")
  moreover have "j \<noteq> i" using Cons.prems by auto
  ultimately show ?case using Cons.IH [of c' s'] dispatch_popped_other [of j i cf now c s] Cons.prems by simp
qed simp

lemma fold_dispatch_schedules:
  assumes "i \<in> set ids" "distinct ids" and "cs_redis (ms_cache s)" and "dget (ms_tasks s) i = Some t" and "cloud_live t"
  shows "scheduled now i (snd (fold (dispatch_popped cf now) ids (c, s)))"
proof -
  obtain xs ys where ids: "ids = xs @ i # ys" using assms(1) by (auto simp: in_set_conv_decomp)
  with assms(2) have fresh: "i \<notin> set xs" "i \<notin> set ys" by auto
  obtain c1 s1 where s1: "fold (dispatch_popped cf now) xs (c, s) = (c1, s1)" by (cases "fold (dispatch_popped cf now) xs (c, s)")
  obtain c2 s2 where s2: "dispatch_popped cf now i (c1, s1) = (c2, s2)" by (cases "dispatch_popped cf now i (c1, s1)")
  have "dget (ms_tasks s1) i = Some t" using fold_dispatch_other [OF fresh(1), of cf now c s] s1 assms(4) by simp
  moreover have "cs_redis (ms_cache s1)" using fold_dispatch_cache [of cf now xs c s] s1 assms(3) by simp
  ultimately have "scheduled now i s2" using dispatch_popped_schedules [of s1 i t now cf c1] assms(5) s2 by simp
  with fold_dispatch_other [OF fresh(2), of cf now c2 s2] fold_dispatch_cache [of cf now ys c2 s2]
  show ?thesis by (simp add: ids s1 s2 scheduled_def)
qed

lemma zset_due_distinct: "dict_wf (ms_zset s) \<Longrightarrow> distinct (zset_due now n s)"
proof -
  assume "dict_wf (ms_zset s)"
  then have "distinct (map fst (filter (\<lambda>(_, x). x \<le> now) (ms_zset s)))"
    by (simp add: dict_wf_def distinct_map_filter)
  then have "distinct (map fst (sort_key snd (filter (\<lambda>(_, x). x \<le> now) (ms_zset s))))"
    by (simp add: distinct_map)
  then show ?thesis by (simp add: zset_due_def)
qed

lemma dget_filter_keys: "dget (filter (\<lambda>(k, _). k \<notin> A) d) i = (if i \<in> A then None else dget d i)"
  by (induction d) auto

text \<open>C29: a tick loses no task of the cloud. An active task with an entry in the sorted set still has one afterwards:
the same, or, when the entry was due and popped, one after the tick that agrees with the row.\<close>

theorem tick_keeps_schedule:
  assumes "cs_redis (ms_cache s)" and "dict_wf (ms_zset s)" and "dget (ms_tasks s) i = Some t" and "cloud_live t"
    and "dget (ms_zset s) i = Some x" and "scan_and_trigger cf now s = (c, s')"
  shows "if i \<in> set (zset_due now 200 s) then scheduled now i s'
     else dget (ms_zset s') i = Some x \<and> dget (ms_tasks s') i = Some t"
proof -
  let ?ids = "zset_due now 200 s" and ?s1 = "s\<lparr>ms_zset := filter (\<lambda>(k, _). k \<notin> set (zset_due now 200 s)) (ms_zset s)\<rparr>"
  have s': "s' = snd (fold (dispatch_popped cf now) ?ids (no_ticks, ?s1))"
    using assms(1,6) by (simp add: scan_and_trigger_def zset_pop_due_def Let_def)
  show ?thesis
  proof (cases "i \<in> set ?ids")
    case True
    with fold_dispatch_schedules [OF True zset_due_distinct [OF assms(2)], of ?s1 t] assms(1,3,4) show ?thesis
      by (simp add: s')
  next
    case False
    with fold_dispatch_other [OF False, of cf now no_ticks ?s1] assms(3,5) show ?thesis
      by (simp add: s' dget_filter_keys)
  qed
qed

subsection \<open>Desktop tasks are taken off the schedule\<close>

lemma resolve_cases: "resolve_target d = CLOUD \<or> resolve_target d = DESKTOP"
  by (auto simp: resolve_target_def normalize_target_def split: pyval.splits)

lemma local_not_cloud: "is_cloud_target (resolve_target d) \<longleftrightarrow> \<not> is_local_target (resolve_target d)"
  using resolve_cases [of d] by (auto simp: is_cloud_target_def is_local_target_def normalize_target_def)

text \<open>A job that would put a task back on the schedule.\<close>

definition restarts :: "string \<Rightarrow> monitor_job \<Rightarrow> bool" where
  "restarts i j = (case j of UpsertJob k \<Rightarrow> k = i | TriggerJob k _ \<Rightarrow> k = i | _ \<Rightarrow> False)"

lemma restarts_simps [simp]:
  "restarts i (UpsertJob k) = (k = i)" "restarts i (RemoveJob k) = False" "restarts i (TriggerJob k f) = (k = i)"
  "restarts i (NotifyJob k t v) = False"
  by (simp_all add: restarts_def)

definition quiet :: "string \<Rightarrow> monitor_state \<Rightarrow> bool" where
  "quiet i s \<longleftrightarrow> dict_wf (ms_tasks s) \<and> list_all (\<lambda>j. \<not> restarts i j) (ms_jobs s) \<and>
     (\<exists>t. dget (ms_tasks s) i = Some t \<and> is_local_target (resolve_target (mt_notify t)) \<and> mt_next_run t = None)"

lemma quiet_put_other: "quiet i s \<Longrightarrow> j \<noteq> i \<Longrightarrow> quiet i (put_task j t s)"
  by (simp add: quiet_def)

lemma quiet_put_same:
  "quiet i s \<Longrightarrow> is_local_target (resolve_target (mt_notify t)) \<Longrightarrow> mt_next_run t = None \<Longrightarrow> quiet i (put_task i t s)"
  by (simp add: quiet_def)

lemma quiet_enqueue: "quiet i s \<Longrightarrow> \<not> restarts i j \<Longrightarrow> quiet i (enqueue_job j s)"
  by (simp add: quiet_def)

lemma quiet_zset [simp]: "quiet i (zset_add j x s) = quiet i s" "quiet i (zset_remove j s) = quiet i s"
  by (simp_all add: quiet_def)

lemma quiet_fields [simp]:
  "quiet i (s\<lparr>ms_cache := c\<rparr>) = quiet i s" "quiet i (s\<lparr>ms_logs := l\<rparr>) = quiet i s" "quiet i (s\<lparr>ms_zset := z\<rparr>) = quiet i s"
  "quiet i (s\<lparr>ms_secrets := x\<rparr>) = quiet i s" "quiet i (s\<lparr>ms_assistants := a\<rparr>) = quiet i s" "quiet i (s\<lparr>ms_dead := d\<rparr>) = quiet i s"
  by (simp_all add: quiet_def)

lemmas quiet_intros = quiet_put_other quiet_put_same quiet_enqueue

lemma quiet_row:
  assumes "quiet i s" and "(i, t) \<in> set (ms_tasks s)"
  shows "is_local_target (resolve_target (mt_notify t))" and "mt_next_run t = None"
  using assms by (auto simp: quiet_def dict_wf_def)

lemma quiet_dispatch_due:
  assumes "quiet i s" and "j = i \<Longrightarrow> is_local_target (resolve_target (mt_notify t))"
  shows "quiet i (snd (dispatch_due cf now j t (c, s)))"
  using assms by (auto simp: dispatch_due_def dispatches_to_desktop_def Let_def intro!: quiet_intros split: prod.splits)

lemma quiet_dispatch_popped:
  assumes "quiet i s"
  shows "quiet i (snd (dispatch_popped cf now j (c, s)))"
proof -
  have "is_local_target (resolve_target (mt_notify t))" if "dget (ms_tasks s) j = Some t" "j = i" for t
    using that assms by (auto simp: quiet_def)
  with assms show ?thesis by (auto simp: dispatch_popped_def intro!: quiet_dispatch_due split: option.splits)
qed

lemma quiet_fold_popped: "quiet i (snd acc) \<Longrightarrow> quiet i (snd (fold (dispatch_popped cf now) ids acc))"
proof (induction ids arbitrary: acc)
  case (Cons j ids)
  from Cons.prems have "quiet i (snd (dispatch_popped cf now j acc))" by (cases acc) (simp add: quiet_dispatch_popped)
  with Cons.IH show ?case by simp
qed simp

lemma quiet_fold_due:
  assumes "quiet i (snd acc)" and "\<And>t. (i, t) \<in> set ts \<Longrightarrow> is_local_target (resolve_target (mt_notify t))"
  shows "quiet i (snd (fold (\<lambda>(j, t). dispatch_due cf now j t) ts acc))"
  using assms
proof (induction ts arbitrary: acc)
  case (Cons x ts)
  obtain j t where x: "x = (j, t)" by (cases x)
  from Cons.prems x have "quiet i (snd (dispatch_due cf now j t acc))" by (cases acc) (auto intro!: quiet_dispatch_due)
  with Cons x show ?case by simp
qed simp

lemma quiet_scan:
  assumes "quiet i s"
  shows "quiet i (snd (scan_and_trigger cf now s))"
proof (cases "cs_redis (ms_cache s)")
  case True
  obtain ids s1 where pop: "zset_pop_due now 200 s = (ids, s1)" by (cases "zset_pop_due now 200 s")
  then have "quiet i s1" using assms by (auto simp: zset_pop_due_def Let_def split: if_splits)
  with True pop show ?thesis by (simp add: scan_and_trigger_def quiet_fold_popped)
next
  case False
  have "quiet i (snd (fold (\<lambda>(j, t). dispatch_due cf now j t) (filter (\<lambda>(_, t). db_due now t) (ms_tasks s)) (no_ticks, s)))"
    by (rule quiet_fold_due) (use assms quiet_row in auto)
  with False show ?thesis by (simp add: scan_and_trigger_def)
qed

lemma quiet_fold_bootstrap:
  assumes "quiet i (snd acc)" and "\<And>t. (i, t) \<in> set ts \<Longrightarrow> is_local_target (resolve_target (mt_notify t))"
  shows "quiet i (snd (fold (bootstrap_task now) ts acc))"
  using assms
proof (induction ts arbitrary: acc)
  case (Cons x ts)
  obtain j t n s where x: "x = (j, t)" "acc = (n, s)" by (cases x, cases acc) simp
  from Cons.prems x have "quiet i (snd (bootstrap_task now x acc))"
    by (auto simp: bootstrap_task_def local_not_cloud Let_def intro!: quiet_intros split: option.splits prod.splits)
  with Cons show ?case by simp
qed simp

lemma quiet_bootstrap:
  assumes "quiet i s"
  shows "quiet i (snd (bootstrap_schedule now uuid faults s))"
proof -
  obtain b l c where lock: "lock_acquire (new_lock ''monitor:schedule:bootstrap'' 120 1 uuid) faults (\<lambda>_. (now, id)) now (ms_cache s) = (b, l, c)"
    by (metis prod_cases3)
  have "quiet i (snd (fold (bootstrap_task now) (filter (\<lambda>(_, t). mt_status t = MON_ACTIVE \<and> mt_is_active t) (ms_tasks s)) (0, s\<lparr>ms_cache := c\<rparr>)))"
    by (rule quiet_fold_bootstrap) (use assms quiet_row in auto)
  moreover obtain m s1 where "fold (bootstrap_task now) (filter (\<lambda>(_, t). mt_status t = MON_ACTIVE \<and> mt_is_active t) (ms_tasks s)) (0, s\<lparr>ms_cache := c\<rparr>) = (m, s1)"
    by (metis prod.exhaust)
  ultimately show ?thesis using assms lock by (cases b) (simp_all add: bootstrap_schedule_def)
qed

lemma quiet_claim:
  assumes "quiet i s" and "i \<notin> fst ` set rows" and "i \<notin> pi_task ` set items" and "claim_tasks until n rows items s = (items', s')"
  shows "quiet i s' \<and> i \<notin> pi_task ` set items'"
  using assms
proof (induction until n rows items s rule: claim_tasks.induct)
  case (2 until n j t rest items s)
  then show ?case by (auto simp: Let_def quiet_put_other split: if_splits)
qed simp

lemma quiet_pull:
  assumes "quiet i s" and "pull_local_tasks cf now uuid faults user agent n s = (items, s')"
  shows "quiet i s' \<and> i \<notin> pi_task ` set items"
proof -
  let ?s1 = "snd (record_heartbeat cf now user agent s)"
  have q1: "quiet i ?s1" using assms(1) by (auto simp: record_heartbeat_def split: prod.splits)
  have "i \<notin> fst ` set (due_of_user now user m ?s1)" for m
  proof
    assume "i \<in> fst ` set (due_of_user now user m ?s1)"
    then obtain t :: monitor_task where "(i, t) \<in> set (ms_tasks ?s1)" "mt_next_run t \<noteq> None"
      by (auto simp: due_of_user_def split: option.splits dest!: in_set_takeD)
    with quiet_row(2) [OF q1, of t] show False by simp
  qed
  note fresh = this
  obtain b l c where lock: "lock_acquire (new_lock (''monitor:local_pull:'' @ user) 5 1 uuid) faults (\<lambda>_. (now, id)) now (ms_cache ?s1) = (b, l, c)"
    by (metis prod_cases3)
  show ?thesis
  proof (cases b)
    case False
    with assms(2) lock q1 show ?thesis by (auto simp: pull_local_tasks_def Let_def)
  next
    case True
    let ?k = "pull_limit cf n"
    obtain its s2 where claim: "claim_tasks (now + of_int (claim_lease cf)) (nat ?k) (due_of_user now user (nat (max (?k * 4) ?k)) ?s1) [] (?s1\<lparr>ms_cache := c\<rparr>) = (its, s2)"
      by (metis prod.exhaust)
    from quiet_claim [OF _ fresh _ claim] q1 have "quiet i s2 \<and> i \<notin> pi_task ` set its" by simp
    with assms(2) lock True claim show ?thesis by (auto simp: pull_local_tasks_def Let_def)
  qed
qed

text \<open>Runs of other tasks, and the service's operations on them.\<close>

lemma quiet_count_failure: "quiet i s \<Longrightarrow> j \<noteq> i \<Longrightarrow> quiet i (count_failure now j t s)"
  by (auto simp: count_failure_def Let_def suspend_note_def intro!: quiet_intros)

lemma quiet_log_run [simp]: "quiet i (log_run j now st n e s) = quiet i s"
  by (simp add: log_run_def)

lemma quiet_reasoning_flow:
  assumes "quiet i s" and "j \<noteq> i" and "reasoning_flow now model outcome j force s = (r, s')"
  shows "quiet i s'"
proof (cases "dget (ms_tasks s) j")
  case None
  with assms show ?thesis by (simp add: reasoning_flow_def)
next
  case (Some t)
  obtain nxt interval where run: "compute_next_run t now = (nxt, interval)" by (cases "compute_next_run t now")
  show ?thesis
  proof (cases outcome)
    case (RunSuccess an n)
    with assms Some show ?thesis
      by (auto simp: reasoning_flow_def run Let_def quiet_put_other quiet_enqueue split: if_splits)
  qed (use assms Some in \<open>auto simp: reasoning_flow_def quiet_count_failure split: if_splits\<close>)
qed

lemma quiet_attempts: "quiet i s \<Longrightarrow> j \<noteq> i \<Longrightarrow> quiet i (reasoning_attempts model k attempts j force s)"
proof (induction model k attempts j force s rule: reasoning_attempts.induct)
  case (2 model k now outcome rest j force s)
  obtain r s' where flow: "reasoning_flow now model outcome j force s = (r, s')"
    by (cases "reasoning_flow now model outcome j force s")
  with 2 have "quiet i s'" by (blast intro: quiet_reasoning_flow)
  with 2 flow show ?case by (auto simp: add_dead_letter_def split: option.splits)
qed simp

lemma quiet_upsert: "quiet i s \<Longrightarrow> j \<noteq> i \<Longrightarrow> quiet i (upsert_schedule now j s)"
  by (auto simp: upsert_schedule_def Let_def intro!: quiet_intros split: option.splits prod.splits)

lemma quiet_remove: "quiet i s \<Longrightarrow> quiet i (remove_schedule j s)"
proof (cases "j = i")
  case True
  assume "quiet i s"
  with True show ?thesis by (auto simp: remove_schedule_def quiet_def split: option.splits)
qed (auto simp: remove_schedule_def quiet_put_other split: option.splits)

lemma owned_taskD: "owned_task j u s = Inr t \<Longrightarrow> dget (ms_tasks s) j = Some t"
  by (auto simp: owned_task_def split: option.splits if_splits)

lemma quiet_pause_resume_delete:
  assumes "quiet i s"
  shows "quiet i (snd (pause_monitor j u s))" and "quiet i (snd (resume_monitor j u s))" and "quiet i (snd (delete_monitor j u s))"
proof -
  have "quiet i (snd (pause_monitor j u s)) \<and> quiet i (snd (resume_monitor j u s)) \<and> quiet i (snd (delete_monitor j u s))"
  proof (cases "owned_task j u s")
    case (Inr t)
    have same: "is_local_target (resolve_target (mt_notify t))" "mt_next_run t = None" if "j = i"
      using assms owned_taskD [OF Inr] that by (auto simp: quiet_def)
    have put: "quiet i (put_task j t' s)" if "mt_notify t' = mt_notify t" "mt_next_run t' = mt_next_run t" for t'
      using assms same that by (cases "j = i") (auto intro: quiet_intros)
    from assms Inr put same show ?thesis
      by (auto simp: pause_monitor_def delete_monitor_def resume_monitor_def local_not_cloud intro!: quiet_enqueue)
  qed (use assms in \<open>simp_all add: pause_monitor_def resume_monitor_def delete_monitor_def\<close>)
  then show "quiet i (snd (pause_monitor j u s))" "quiet i (snd (resume_monitor j u s))" "quiet i (snd (delete_monitor j u s))"
    by simp_all
qed

lemma quiet_secure: "secure_notify fresh d s = (d', s') \<Longrightarrow> quiet i s' = quiet i s"
  by (auto simp: secure_notify_def split: prod.splits)

lemma quiet_create:
  assumes "quiet i s" and "j \<noteq> i"
  shows "quiet i (snd (create_monitor cf fresh now j a r s))"
proof -
  obtain d s2 where sec: "secure_notify fresh (mr_notify r) (s\<lparr>ms_assistants := ms_assistants s @ [a]\<rparr>) = (d, s2)"
    by (metis prod.exhaust)
  then have "quiet i s2" using assms(1) by (simp add: quiet_secure [OF sec])
  with assms show ?thesis
    by (auto simp: create_monitor_def Let_def sec intro!: quiet_put_other quiet_enqueue split: sum.splits option.splits)
qed

lemma quiet_update:
  assumes "quiet i s" and "j \<noteq> i"
  shows "quiet i (snd (update_monitor cf fresh now j u up s))"
proof (cases "owned_task j u s")
  case (Inl e)
  with assms show ?thesis by (simp add: update_monitor_def)
next
  case (Inr t)
  obtain merged s1 where m: "(case mu_notify up of None \<Rightarrow> (mt_notify t, s) | Some d \<Rightarrow> secure_notify fresh d s) = (merged, s1)"
    by (metis prod.exhaust)
  then have q: "quiet i s1" using assms(1) by (auto simp: quiet_secure split: option.splits)
  have job: "\<not> restarts i (schedule_job j t')" for t' using assms(2) by (simp add: schedule_job_def)
  show ?thesis unfolding update_monitor_def Inr
    using assms q job by (auto simp: m Let_def intro!: quiet_put_other quiet_enqueue split: sum.splits option.splits)
qed

lemma quiet_request:
  assumes "quiet i s" and "j \<noteq> i"
  shows "quiet i (snd (request_local_execution now j u s))"
  using assms by (auto simp: request_local_execution_def quiet_put_other split: sum.splits)

lemma quiet_report:
  assumes "quiet i s" and "j \<noteq> i"
  shows "quiet i (snd (report_local cf now j u r s))"
proof (cases "owned_task j u s")
  case (Inl e)
  with assms show ?thesis by (simp add: report_local_def)
next
  case (Inr t)
  obtain nxt interval where run: "compute_next_run t now = (nxt, interval)" by (cases "compute_next_run t now")
  have jobs: "\<not> restarts i (if b then UpsertJob j else RemoveJob j)" for b using assms(2) by simp
  from assms show ?thesis
    by (auto simp: report_local_def Inr run Let_def quiet_put_other quiet_enqueue jobs)
qed

definition drop_job :: "monitor_job \<Rightarrow> monitor_state \<Rightarrow> monitor_state" where
  "drop_job j s = s\<lparr>ms_jobs := remove1 j (ms_jobs s)\<rparr>"

lemma quiet_drop [intro]: "quiet i s \<Longrightarrow> quiet i (drop_job j s)"
  by (auto simp: quiet_def drop_job_def list_all_iff dest: notin_set_remove1 set_mp [OF set_remove1_subset])

text \<open>
  What happens to a service whose users leave task \<open>i\<close> alone: workers take jobs, the scheduler ticks, the
  schedule is rebuilt, desktop clients of any user pull, and users do anything with other tasks. Pausing,
  resuming and deleting \<open>i\<close> are included; editing it, asking for a run of it and reporting one are not.
\<close>

inductive unattended_step :: "string \<Rightarrow> monitor_state \<Rightarrow> monitor_state \<Rightarrow> bool" for i where
  upsert_job: "UpsertJob j \<in> set (ms_jobs s) \<Longrightarrow> unattended_step i s (upsert_schedule now j (drop_job (UpsertJob j) s))"
| remove_job: "RemoveJob j \<in> set (ms_jobs s) \<Longrightarrow> unattended_step i s (remove_schedule j (drop_job (RemoveJob j) s))"
| trigger_job: "TriggerJob j f \<in> set (ms_jobs s) \<Longrightarrow>
    unattended_step i s (reasoning_attempts model 0 attempts j f (drop_job (TriggerJob j f) s))"
| notify_job: "unattended_step i s (drop_job (NotifyJob j t v) s)"
| tick: "unattended_step i s (snd (scan_and_trigger cf now s))"
| bootstrap: "unattended_step i s (snd (bootstrap_schedule now uuid faults s))"
| pull: "unattended_step i s (snd (pull_local_tasks cf now uuid faults user agent n s))"
| lifecycle: "s' \<in> {snd (pause_monitor j u s), snd (resume_monitor j u s), snd (delete_monitor j u s)} \<Longrightarrow> unattended_step i s s'"
| others: "j \<noteq> i \<Longrightarrow> s' \<in> {snd (create_monitor cf fresh now j a r s), snd (update_monitor cf fresh now j u up s),
     snd (request_local_execution now j u s), snd (report_local cf now j u rep s)} \<Longrightarrow> unattended_step i s s'"

lemma quiet_step: "unattended_step i s s' \<Longrightarrow> quiet i s \<Longrightarrow> quiet i s'"
proof (induction rule: unattended_step.induct)
  case (upsert_job j s now)
  then have "j \<noteq> i" by (auto simp: quiet_def list_all_iff)
  with upsert_job show ?case by (auto intro: quiet_upsert)
next
  case (trigger_job j f s model attempts)
  then have "j \<noteq> i" by (auto simp: quiet_def list_all_iff)
  with trigger_job show ?case by (auto intro: quiet_attempts)
next
  case (pull s cf now uuid faults user agent n)
  obtain items s' where "pull_local_tasks cf now uuid faults user agent n s = (items, s')"
    by (cases "pull_local_tasks cf now uuid faults user agent n s")
  with quiet_pull [OF pull this] show ?case by simp
next
  case (others j s' cf fresh now a r s u up rep)
  note q = others.prems others.hyps(1)
  from others.hyps(2) quiet_create [OF q] quiet_update [OF q] quiet_request [OF q] quiet_report [OF q] show ?case by auto
next
  case (lifecycle s' j u s)
  with quiet_pause_resume_delete [OF lifecycle.prems, of j u] show ?case by auto
qed (auto intro: quiet_remove quiet_scan quiet_bootstrap)

lemma quiet_steps: "(unattended_step i)\<^sup>*\<^sup>* s s' \<Longrightarrow> quiet i s \<Longrightarrow> quiet i s'"
  by (induction rule: rtranclp_induct) (auto intro: quiet_step)

text \<open>What \<open>create_task\<close> leaves behind for a task of the desktop.\<close>

lemma create_desktop:
  assumes "create_monitor cf fresh now i a r s = (Inr i', s1)" and "normalize_target (mr_target r) = DESKTOP"
  shows "\<exists>t. ms_tasks s1 = dput i t (ms_tasks s) \<and> ms_jobs s1 = ms_jobs s @ [RemoveJob i] \<and> resolve_target (mt_notify t) = DESKTOP"
proof -
  obtain d s2 where sec: "secure_notify fresh (mr_notify r) (s\<lparr>ms_assistants := ms_assistants s @ [a]\<rparr>) = (d, s2)"
    by (metis prod.exhaust)
  then have s2: "ms_tasks s2 = ms_tasks s" "ms_jobs s2 = ms_jobs s" by (auto simp: secure_notify_def split: prod.splits)
  have cloud: "\<not> is_cloud_target DESKTOP" "\<not> enforce_cloud_limit DESKTOP"
    by (simp_all add: is_cloud_target_def enforce_cloud_limit_def normalize_target_def)
  have res: "resolve_target (apply_target d DESKTOP) = DESKTOP"
    by (simp add: resolve_target_def apply_target_def normalize_target_def target_value_def) code_simp
  obtain sp where sp: "parse_cron_expr (mr_cron r) = Inr sp"
    using assms(1) by (cases "parse_cron_expr (mr_cron r)") (auto simp: create_monitor_def)
  have title: "get_by_title (mr_user r) (mr_title r) s = None"
    using assms by (cases "get_by_title (mr_user r) (mr_title r) s") (auto simp: create_monitor_def sp cloud Let_def)
  obtain m where m: "next_run_after (mr_cron r) now = Inr m"
    using assms by (cases "next_run_after (mr_cron r) now") (auto simp: create_monitor_def sp cloud title Let_def)
  obtain tools where tools: "normalize_tools (mr_tools r) = Inr tools"
    using assms by (cases "normalize_tools (mr_tools r)") (auto simp: create_monitor_def sp cloud title m sec Let_def)
  let ?t = "\<lparr>mt_user = mr_user r, mt_title = mr_title r, mt_objective = mr_objective r, mt_cron = mr_cron r, mt_status = MON_ACTIVE,
       mt_snapshot = PNone, mt_last_executed = None, mt_next_run = Some (of_int (m * 60)), mt_interval = minutes_between m now,
       mt_variants = mr_variants r, mt_assistant = Some a, mt_model = mr_model r, mt_error_count = 0,
       mt_notify = apply_target d DESKTOP, mt_tools = tools, mt_tokens = 0, mt_is_active = True\<rparr>"
  from assms have "s1 = enqueue_job (RemoveJob i) (put_task i ?t s2)"
    by (auto simp: create_monitor_def sp cloud title m sec tools Let_def split: if_splits)
  with s2 have "ms_tasks s1 = dput i ?t (ms_tasks s) \<and> ms_jobs s1 = ms_jobs s @ [RemoveJob i] \<and> resolve_target (mt_notify ?t) = DESKTOP"
    by (simp add: res)
  then show ?thesis by blast
qed

text \<open>A task created for the desktop is never run by its schedule. The job that \<open>create_task\<close> queues for it clears
its next run, and from then on no tick, no rebuild of the schedule and no pull of a client finds it, until
the user asks for a run by hand.\<close>

theorem desktop_task_never_pulled:
  assumes "create_monitor cf fresh now i a r s = (Inr i', s1)" and "normalize_target (mr_target r) = DESKTOP"
    and "dict_wf (ms_tasks s)" and "filter (restarts i) (ms_jobs s) = []"
    and "(unattended_step i)\<^sup>*\<^sup>* (remove_schedule i (drop_job (RemoveJob i) s1)) s2"
    and "pull_local_tasks cf' now' uuid faults user agent n s2 = (items, s3)"
  shows "i \<notin> set (map pi_task items)"
proof -
  from create_desktop [OF assms(1,2)] obtain t where s1: "ms_tasks s1 = dput i t (ms_tasks s)" "ms_jobs s1 = ms_jobs s @ [RemoveJob i]"
    and t: "resolve_target (mt_notify t) = DESKTOP" by blast
  have desk: "is_local_target DESKTOP" by (simp add: is_local_target_def normalize_target_def)
  let ?s0 = "drop_job (RemoveJob i) s1"
  have row: "dget (ms_tasks ?s0) i = Some t" "dict_wf (ms_tasks ?s0)" using s1 assms(3) by (simp_all add: drop_job_def)
  have "list_all (\<lambda>j. \<not> restarts i j) (ms_jobs s1)" using s1 assms(4) by (simp add: list_all_iff filter_empty_conv)
  then have "list_all (\<lambda>j. \<not> restarts i j) (ms_jobs ?s0)"
    by (auto simp: drop_job_def list_all_iff dest: set_mp [OF set_remove1_subset])
  with row t desk have "quiet i (remove_schedule i ?s0)" by (simp add: quiet_def remove_schedule_def)
  with quiet_steps [OF assms(5)] have "quiet i s2" by blast
  from quiet_pull [OF this assms(6)] show ?thesis by simp
qed

text \<open>The report of a run, too, queues the job that clears the next run it has just computed.\<close>

lemma report_unschedules:
  assumes "report_local cf now i u r s = (Inr i', s')" and "dict_wf (ms_tasks s)"
  shows "RemoveJob i \<in> set (ms_jobs s') \<and> UpsertJob i \<notin> set (drop (length (ms_jobs s)) (ms_jobs s'))"
proof -
  from assms(1) obtain t where own: "owned_task i u s = Inr t" by (auto simp: report_local_def split: sum.splits)
  obtain nxt interval where run: "compute_next_run t now = (nxt, interval)" by (cases "compute_next_run t now")
  from assms(1) have loc: "is_local_target (resolve_target (mt_notify t))"
    by (auto simp: report_local_def own Let_def split: if_splits)
  from assms(1) show ?thesis
    by (auto simp: report_local_def own run Let_def loc local_not_cloud split: if_splits)
qed

subsection \<open>Failures\<close>

text \<open>A single run suspends a healthy task. Celery retries an exception three times, every attempt counts as a
failure of its own, and the fourth one is over the threshold that is meant for runs in a row.\<close>

theorem one_run_suspends:
  assumes "dget (ms_tasks s) i = Some t" and "mt_is_active t" and "mt_status t = MON_ACTIVE" and "mt_error_count t = 0"
    and "model = Some m" and "s' = reasoning_attempts model 0 [(ta, RunRaises ea), (tb, RunRaises eb), (tc, RunRaises ec), (td, RunRaises ed)] i force s"
  shows "(\<exists>t'. dget (ms_tasks s') i = Some t' \<and> mt_status t' = MON_SUSPENDED \<and> mt_error_count t' = 4) \<and>
    length (ms_dead s') = length (ms_dead s) + 1"
proof -
  have log [simp]: "ms_tasks (log_run j now st n e s) = ms_tasks s" "ms_dead (log_run j now st n e s) = ms_dead s" for j now st n e s
    by (simp_all add: log_run_def)
  have dead [simp]: "ms_tasks (add_dead_letter w j n e s) = ms_tasks s" "length (ms_dead (add_dead_letter w j n e s)) = Suc (length (ms_dead s))" for w j n e s
    by (simp_all add: add_dead_letter_def)
  show ?thesis unfolding assms(6)
    using assms(1-5) by (simp add: reasoning_flow_def count_failure_def Let_def retry_max_def)
qed

text \<open>Resuming a suspended task keeps its failure count, so that the next failure suspends it again at once.\<close>

lemma resumed_task_trips_at_once:
  assumes "dget (ms_tasks s) i = Some t" and "mt_user t = u" and "mt_status t = MON_SUSPENDED" and "3 < mt_error_count t" and "mt_is_active t"
    and "resume_monitor i u s = (Inr i, s1)" and "reasoning_flow now (Some m) (RunFailure n e) i force s1 = (r, s2)"
  shows "\<exists>t1 t2. dget (ms_tasks s1) i = Some t1 \<and> mt_status t1 = MON_ACTIVE \<and> dget (ms_tasks s2) i = Some t2 \<and> mt_status t2 = MON_SUSPENDED"
  using assms by (auto simp: resume_monitor_def owned_task_def reasoning_flow_def count_failure_def log_run_def Let_def)

subsection \<open>Manual triggers\<close>

text \<open>The cool-down of manual triggers never refuses anything while Redis works. The client library answers None, not
False, when NX finds the key, so the test for False does not see the collision.\<close>

theorem manual_cooldown_never_blocks:
  "fst (check_cooldown cf now user i s)"
proof -
  have ttl: "\<not> max 1 (int_dflt (mc_cooldown cf) 1) \<le> 0" by simp
  show ?thesis unfolding check_cooldown_def cache_set_answer_def
    using ttl by (auto split: prod.splits)
qed

subsection \<open>Titles\<close>

text \<open>The title of a deleted task is lost to its user: the row stays and keeps its place in the unique constraint, while
the check before the insertion only looks at active rows. The assistant of the new task is created all the same.\<close>

lemma deleted_title_not_reusable:
  assumes "dget (ms_tasks s) j = Some t" and "mt_user t = mr_user r" and "mt_title t = mr_title r" and "j \<noteq> i"
  shows "\<exists>e. fst (create_monitor cf fresh now i a r s) = Inl e"
proof -
  obtain d s2 where sec: "secure_notify fresh (mr_notify r) (s\<lparr>ms_assistants := ms_assistants s @ [a]\<rparr>) = (d, s2)"
    by (metis prod.exhaust)
  then have "ms_tasks s2 = ms_tasks s" by (auto simp: secure_notify_def split: prod.splits)
  with assms have taken: "\<not> title_free i (mr_user r) (mr_title r) s2"
    by (force simp: title_free_def list_ex_iff dest: map_of_SomeD)
  show ?thesis
  proof (cases "fst (create_monitor cf fresh now i a r s)")
    case (Inr x)
    with taken show ?thesis by (auto simp: create_monitor_def sec Let_def split: sum.splits option.splits if_splits)
  qed blast
qed

subsection \<open>Secrets\<close>

text \<open>A response is clean when no text of a sensitive key and no reference to a secret is left in it.\<close>

fun clean_value :: "string \<Rightarrow> pyval \<Rightarrow> bool" and clean_items :: "(string \<times> pyval) list \<Rightarrow> bool" and clean_elems :: "pyval list \<Rightarrow> bool" where
  "clean_value k (PDict d) = clean_items d"
| "clean_value k (PList l) = clean_elems l"
| "clean_value k (PStr t) = (t = ''***'' \<or> \<not> starts_with t ''db:'' \<and> \<not> is_sensitive_key k)"
| "clean_value k v = True"
| "clean_items [] = True"
| "clean_items ((k, v) # d) = (clean_value k v \<and> clean_items d)"
| "clean_elems [] = True"
| "clean_elems (v # l) = ((case v of PDict d \<Rightarrow> clean_items d | _ \<Rightarrow> True) \<and> clean_elems l)"

text \<open>What a user gets back of the notification settings holds no reference to a stored secret and no text under a
sensitive key, at any depth of nested dictionaries; texts that are direct elements of lists are not covered.\<close>

theorem sanitized_settings_clean: "clean_items (sanitize_items d)"
proof -
  have mask: "clean_value k mask" for k by (simp add: mask_def)
  have "clean_value k (sanitize_value k v)" and "clean_items (sanitize_items d)" and "clean_elems (sanitize_elems l)" for k v l
    by (induction k v and d and l rule: sanitize_value_sanitize_items_sanitize_elems.induct)
      (auto simp: mask split: pyval.splits)
  then show ?thesis by blast
qed

text \<open>A list of texts under a sensitive key is neither stored as secrets nor masked.\<close>

lemma list_of_secrets_exposed:
  "secure_items fresh [(k, PList [PStr x])] st = ([(k, PList [PStr x])], st)"
  "sanitize_items [(k, PList [PStr x])] = [(k, PList [PStr x])]"
  by simp_all

subsection \<open>Examples\<close>

definition no_monitors :: monitor_state where
  "no_monitors = \<lparr>ms_tasks = [], ms_zset = [], ms_cache = \<lparr>cs_redis = True, cs_data = []\<rparr>, ms_logs = [], ms_jobs = [],
     ms_assistants = [], ms_secrets = [], ms_dead = []\<rparr>"

definition desktop_request :: monitor_request where
  "desktop_request = \<lparr>mr_user = ''u'', mr_title = ''news'', mr_objective = ''watch'', mr_cron = ''0 * * * *'', mr_notify = [],
     mr_tools = None, mr_target = TargetRaw (PStr ''desktop''), mr_variants = PDict [], mr_model = None\<rparr>"

definition ids :: "nat \<Rightarrow> string" where
  "ids n = replicate n (CHR ''s'')"

definition desktop_created :: monitor_state where
  "desktop_created = snd (create_monitor default_monitor_config ids 100 ''t'' ''a'' desktop_request no_monitors)"

definition cloud_task :: monitor_task where
  "cloud_task = \<lparr>mt_user = ''u'', mt_title = ''news'', mt_objective = ''watch'', mt_cron = ''0 * * * *'', mt_status = MON_ACTIVE,
     mt_snapshot = PNone, mt_last_executed = None, mt_next_run = Some 3600, mt_interval = 60, mt_variants = PDict [],
     mt_assistant = None, mt_model = None, mt_error_count = 0, mt_notify = [(''execution_target'', PStr ''cloud'')], mt_tools = [],
     mt_tokens = 0, mt_is_active = True\<rparr>"

definition one_monitor :: monitor_state where
  "one_monitor = no_monitors\<lparr>ms_tasks := [(''t'', cloud_task)], ms_zset := [(''t'', 3600)]\<rparr>"

text \<open>C29 at a task that is due.\<close>

theorem tick_keeps_schedule_witness:
  "''t'' \<in> set (zset_due 3610 200 one_monitor) \<and> scheduled 3610 ''t'' (snd (scan_and_trigger default_monitor_config 3610 one_monitor))"
proof -
  have h: "cs_redis (ms_cache one_monitor)" "dict_wf (ms_zset one_monitor)" "dget (ms_tasks one_monitor) ''t'' = Some cloud_task"
    "cloud_live cloud_task" "dget (ms_zset one_monitor) ''t'' = Some 3600" "''t'' \<in> set (zset_due 3610 200 one_monitor)"
    unfolding dict_wf_def by code_simp+
  obtain c s' where run: "scan_and_trigger default_monitor_config 3610 one_monitor = (c, s')"
    by (cases "scan_and_trigger default_monitor_config 3610 one_monitor")
  from tick_keeps_schedule [OF h(1-5) run] h(6) run show ?thesis by simp
qed

text \<open>C39 a week after the task was created.\<close>

theorem desktop_task_never_pulled_witness:
  "ms_tasks desktop_created \<noteq> [] \<and>
   ''t'' \<notin> set (map pi_task (fst (pull_local_tasks default_monitor_config 604800 ''l'' (\<lambda>_. False) ''u'' ''pc'' 5
      (remove_schedule ''t'' (drop_job (RemoveJob ''t'') desktop_created)))))"
proof -
  have "fst (create_monitor default_monitor_config ids 100 ''t'' ''a'' desktop_request no_monitors) = Inr ''t''" by code_simp
  then have made: "create_monitor default_monitor_config ids 100 ''t'' ''a'' desktop_request no_monitors = (Inr ''t'', desktop_created)"
    by (simp add: desktop_created_def prod_eq_iff)
  have h: "normalize_target (mr_target desktop_request) = DESKTOP" "dict_wf (ms_tasks no_monitors)"
    "filter (restarts ''t'') (ms_jobs no_monitors) = []"
    unfolding dict_wf_def by code_simp+
  have row: "ms_tasks desktop_created \<noteq> []" by code_simp
  obtain items s3 where pull: "pull_local_tasks default_monitor_config 604800 ''l'' (\<lambda>_. False) ''u'' ''pc'' 5
      (remove_schedule ''t'' (drop_job (RemoveJob ''t'') desktop_created)) = (items, s3)" by (metis prod.exhaust)
  from desktop_task_never_pulled [OF made h rtranclp.rtrancl_refl pull] row pull show ?thesis by simp
qed

text \<open>The preceding statement at the cloud task.\<close>

theorem one_run_suspends_witness:
  "\<exists>t'. dget (ms_tasks (reasoning_attempts (Some ''m'') 0
       [(0, RunRaises ''a''), (1, RunRaises ''b''), (3, RunRaises ''c''), (7, RunRaises ''d'')] ''t'' False one_monitor)) ''t'' = Some t' \<and>
     mt_status t' = MON_SUSPENDED \<and> mt_error_count t' = 4"
proof -
  have h: "dget (ms_tasks one_monitor) ''t'' = Some cloud_task" "mt_is_active cloud_task" "mt_status cloud_task = MON_ACTIVE"
    "mt_error_count cloud_task = 0" by code_simp+
  from one_run_suspends [where ta = 0 and ea = "''a''" and tb = 1 and eb = "''b''" and tc = 3 and ec = "''c''" and td = 7 and ed = "''d''"
      and force = False and m = "''m''", OF h refl refl] show ?thesis by blast
qed

end
