(* ===== verification/Feishu_Callback.thy ===== *)
theory Feishu_Callback
  imports Monitor_Task
begin

section \<open>Callbacks of the chat platform\<close>

text \<open>
  src/app/api/v1/monitor_route.py: the check of a signed Feishu callback, and the suppression of
  duplicate events in src/app/services/monitoring/feishu_bot_service.py. Both keep a key per request
  with SET NX and test the answer for False. HMAC and the encodings of a digest are parameters; header
  values have been stripped, an empty one is None.
\<close>

definition signature_candidates :: "(string \<Rightarrow> string \<Rightarrow> 'd) \<Rightarrow> ('d \<Rightarrow> string list) \<Rightarrow> string \<Rightarrow> string \<Rightarrow> string \<Rightarrow> string \<Rightarrow> string list" where
  "signature_candidates mac encodings secret timestamp nonce body =
     concat (map (\<lambda>payload. encodings (mac secret payload))
       [timestamp @ nonce @ body, timestamp @ nonce @ secret @ body, timestamp @ [CHR 0x0A] @ nonce @ [CHR 0x0A] @ body])"

record callback =
  cb_timestamp :: "string option"
  cb_nonce :: "string option"
  cb_signature :: "string option"
  cb_body :: string

text \<open>\<open>_verify_feishu_callback_signature\<close>: None is acceptance, a number the status of the refusal.\<close>

definition verify_callback :: "(string \<Rightarrow> string \<Rightarrow> 'd) \<Rightarrow> ('d \<Rightarrow> string list) \<Rightarrow> string \<Rightarrow> int \<Rightarrow> rat \<Rightarrow> callback \<Rightarrow>
    pyval cache_state \<Rightarrow> int option \<times> pyval cache_state" where
  "verify_callback mac encodings raw_secret skew now cb c =
     (let secret = str_strip raw_secret
      in if secret = [] then (Some 503, c)
         else case (cb_timestamp cb, cb_nonce cb, cb_signature cb) of
           (Some timestamp, Some nonce, Some signature) \<Rightarrow>
             (case int_of_text timestamp of
                None \<Rightarrow> (Some 401, c)
              | Some ts \<Rightarrow>
                  if \<bar>\<lfloor>now\<rfloor> - ts\<bar> > skew then (Some 401, c)
                  else
                    (case cache_set_answer now (''feishu:callback:nonce:'' @ timestamp @ '':'' @ nonce @ '':'' @ take 16 signature)
                            (PBool True) skew c of
                       (accepted, c') \<Rightarrow>
                         if accepted = PBool False \<and> cs_redis c then (Some 401, c')
                         else
                           let provided = str_strip signature; good = signature_candidates mac encodings secret timestamp nonce (cb_body cb)
                           in if provided \<notin> set good \<and> str_lower provided \<notin> set (map str_lower good) then (Some 401, c')
                              else (None, c')))
         | _ \<Rightarrow> (Some 401, c))"

text \<open>The deduplication of events: whether the event is processed.\<close>

definition accept_event :: "rat \<Rightarrow> int \<Rightarrow> string \<Rightarrow> pyval cache_state \<Rightarrow> bool \<times> pyval cache_state" where
  "accept_event now ttl event_id c =
     (let e = str_strip event_id
      in if e = [] then (True, c)
         else case cache_set_answer now (''feishu:event:'' @ e) (PBool True) ttl c of
                (accepted, c') \<Rightarrow> (\<not> (accepted = PBool False \<and> cs_redis c), c'))"

lemma answer_not_False: "0 < ex \<Longrightarrow> cs_redis c \<Longrightarrow> fst (cache_set_answer now k v ex c) \<noteq> PBool False"
  by (auto simp: cache_set_answer_def split: prod.splits)

lemma answer_redis [simp]: "cs_redis (snd (cache_set_answer now k v ex c)) = cs_redis c"
  using cache_frames(1) [of now k v "Some ex" True c] by (cases "cache_set now k v (Some ex) True c") (simp add: cache_set_answer_def)

lemma answer_redis_eq: "cache_set_answer now k v ex c = (a, c') \<Longrightarrow> cs_redis c' = cs_redis c"
  using answer_redis [of now k v ex c] by simp

lemma verify_callback_redis: "cs_redis (snd (verify_callback mac encodings secret skew now cb c)) = cs_redis c"
  by (auto simp: verify_callback_def Let_def split: option.splits prod.splits dest: answer_redis_eq)

text \<open>The replay protection of callbacks does nothing while Redis works. A callback that was accepted is accepted
again, as often as it is sent, until its time stamp leaves the window.\<close>

theorem callback_replay_accepted:
  assumes "cs_redis c" and "verify_callback mac encodings secret skew now cb c = (None, c')"
    and "cb_timestamp cb = Some timestamp" and "int_of_text timestamp = Some ts" and "\<bar>\<lfloor>later\<rfloor> - ts\<bar> \<le> skew" and "0 < skew"
  shows "fst (verify_callback mac encodings secret skew later cb c') = None"
proof -
  have "cs_redis c'" using verify_callback_redis [of mac encodings secret skew now cb c] assms(1,2) by simp
  note fresh = answer_not_False [OF assms(6) this]
  from assms(2-4) obtain nonce signature where cb: "cb_nonce cb = Some nonce" "cb_signature cb = Some signature"
    and secret: "str_strip secret \<noteq> []"
    and good: "str_strip signature \<in> set (signature_candidates mac encodings (str_strip secret) timestamp nonce (cb_body cb)) \<or>
      str_lower (str_strip signature) \<in> set (map str_lower (signature_candidates mac encodings (str_strip secret) timestamp nonce (cb_body cb)))"
    by (auto simp: verify_callback_def Let_def split: option.splits if_splits prod.splits)
  obtain accepted c'' where answer: "cache_set_answer later (''feishu:callback:nonce:'' @ timestamp @ '':'' @ nonce @ '':'' @ take 16 signature)
      (PBool True) skew c' = (accepted, c'')" by (metis prod.exhaust)
  with fresh have "accepted \<noteq> PBool False" by (metis fst_conv)
  with answer good secret cb assms(3-5) show ?thesis by (auto simp: verify_callback_def Let_def)
qed

definition sample_callback :: callback where
  "sample_callback = \<lparr>cb_timestamp = Some ''1000'', cb_nonce = Some ''n'', cb_signature = Some ''s1000nhi'', cb_body = ''hi''\<rparr>"

definition sample_mac :: "string \<Rightarrow> string \<Rightarrow> string" where
  "sample_mac k m = k @ m"

text \<open>The preceding statement at a callback that is sent a second time.\<close>

theorem callback_replay_accepted_witness:
  "fst (verify_callback sample_mac (\<lambda>d. [d]) ''s'' 300 1001 sample_callback \<lparr>cs_redis = True, cs_data = []\<rparr>) = None \<and>
   fst (verify_callback sample_mac (\<lambda>d. [d]) ''s'' 300 1100 sample_callback
     (snd (verify_callback sample_mac (\<lambda>d. [d]) ''s'' 300 1001 sample_callback \<lparr>cs_redis = True, cs_data = []\<rparr>))) = None"
proof -
  let ?c = "\<lparr>cs_redis = True, cs_data = []\<rparr> :: pyval cache_state"
  have first: "fst (verify_callback sample_mac (\<lambda>d. [d]) ''s'' 300 1001 sample_callback ?c) = None" by code_simp
  obtain c' where run: "verify_callback sample_mac (\<lambda>d. [d]) ''s'' 300 1001 sample_callback ?c = (None, c')"
    using first by (metis prod.collapse)
  have h: "cs_redis ?c" "cb_timestamp sample_callback = Some ''1000''" "int_of_text ''1000'' = Some 1000"
    "\<bar>\<lfloor>1100 :: rat\<rfloor> - 1000\<bar> \<le> 300" "(0 :: int) < 300" by (simp_all add: sample_callback_def) code_simp
  from callback_replay_accepted [OF h(1) run h(2-5)] first run show ?thesis by simp
qed

text \<open>Duplicate events are processed again for the same reason.\<close>

lemma duplicate_events_accepted: "0 < ttl \<Longrightarrow> cs_redis c \<Longrightarrow> fst (accept_event now ttl e c)"
  using answer_not_False [of ttl c now] by (auto simp: accept_event_def Let_def split: prod.splits) (metis fst_conv)

end
