(* ===== verification/Conversation_Window.thy ===== *)
theory Conversation_Window
  imports Py_Value "HOL-Library.Sublist"
begin

section \<open>The sliding window of a conversation\<close>

text \<open>
  \<open>ConversationService\<close> of src/app/services/conversation/service.py and the alignment of turn indices in
  turn_index_sync.py. One session: the list of its messages, the hash of its meta data and its summary
  in Redis, the keys of the idle trigger of summary_scheduler.py, and the tasks that were queued. A
  field of the hash that was never written is None. A call to Redis can fail: \<open>healthy\<close> is the number of
  calls that still succeed, None when the connection holds. \<open>token_estimate\<close> is an integer, as the
  steps compute it. Every time to live is refreshed together; expiry is the operation \<open>expire_window\<close>.
\<close>

datatype conv_channel = CONV_INTERNAL | CONV_EXTERNAL

record window_msg =
  wm_role :: string
  wm_content :: string
  wm_tokens :: int
  wm_truncated :: bool
  wm_name :: "string option"
  wm_meta_info :: pyval
  wm_turn :: int
  wm_deleted :: bool

record conv_meta =
  mt_last_turn :: "int option"
  mt_total_tokens :: "int option"
  mt_summary_version :: "int option"
  mt_summarizing :: "bool option"
  mt_summary_job :: "string option"
  mt_channel :: "conv_channel option"
  mt_last_active :: "rat option"
  mt_first_message :: "rat option"
  mt_topic_named :: bool

definition no_meta :: conv_meta where
  "no_meta = \<lparr>mt_last_turn = None, mt_total_tokens = None, mt_summary_version = None, mt_summarizing = None,
     mt_summary_job = None, mt_channel = None, mt_last_active = None, mt_first_message = None, mt_topic_named = False\<rparr>"

record conv_summary =
  su_version :: int
  su_text :: string
  su_from :: int
  su_to :: int
  su_tokens :: int
  su_generated :: rat

datatype conv_job = Summarize | IdleCheck | NameTopic string string

record conv_redis =
  cr_msgs :: "window_msg list"
  cr_meta :: conv_meta
  cr_summary :: "conv_summary option"
  cr_idle_active :: "rat option"
  cr_idle_pending :: "string option"
  cr_jobs :: "conv_job list"

definition no_window :: conv_redis where
  "no_window = \<lparr>cr_msgs = [], cr_meta = no_meta, cr_summary = None, cr_idle_active = None, cr_idle_pending = None, cr_jobs = []\<rparr>"

record conv_config =
  cc_turns_internal :: int
  cc_turns_external :: int
  cc_overflow_ratio :: rat
  cc_flush_tokens :: int
  cc_idle :: rat
  cc_min_interval :: rat

definition default_conv_config :: conv_config where
  "default_conv_config = \<lparr>cc_turns_internal = 12, cc_turns_external = 8, cc_overflow_ratio = 12 / 10, cc_flush_tokens = 6144,
     cc_idle = 600, cc_min_interval = 120\<rparr>"

definition max_turns :: "conv_config \<Rightarrow> conv_channel \<Rightarrow> int" where
  "max_turns cf ch = (if ch = CONV_INTERNAL then cc_turns_internal cf else cc_turns_external cf)"

definition max_turns_overflow :: "conv_config \<Rightarrow> conv_channel \<Rightarrow> int" where
  "max_turns_overflow cf ch = max (max_turns cf ch) \<lfloor>of_int (max_turns cf ch) * cc_overflow_ratio cf\<rfloor>"

abbreviation zero_if_none :: "int option \<Rightarrow> int" where
  "zero_if_none v \<equiv> (case v of None \<Rightarrow> 0 | Some n \<Rightarrow> n)"

definition last_turn_of :: "conv_redis \<Rightarrow> int" where
  "last_turn_of r = zero_if_none (mt_last_turn (cr_meta r))"

definition total_tokens_of :: "conv_redis \<Rightarrow> int" where
  "total_tokens_of r = zero_if_none (mt_total_tokens (cr_meta r))"

definition upd_meta :: "(conv_meta \<Rightarrow> conv_meta) \<Rightarrow> conv_redis \<Rightarrow> conv_redis" where
  "upd_meta f r = r\<lparr>cr_meta := f (cr_meta r)\<rparr>"

subsection \<open>Appending\<close>

text \<open>A message as the callers hand it over. \<open>meta_info\<close> goes through JSON and the tables of Lua, which
  make an empty list an empty object; an empty dictionary is not sent at all.\<close>

record conv_msg =
  cm_role :: string
  cm_content :: string
  cm_tokens :: int
  cm_truncated :: bool
  cm_name :: "string option"
  cm_meta_info :: pyval

fun lua_value :: "pyval \<Rightarrow> pyval" and lua_items :: "(string \<times> pyval) list \<Rightarrow> (string \<times> pyval) list" and
  lua_list :: "pyval list \<Rightarrow> pyval list" where
  "lua_value (PList xs) = (if xs = [] then PDict [] else PList (lua_list xs))"
| "lua_value (PDict d) = PDict (lua_items d)"
| "lua_value v = v"
| "lua_items [] = []"
| "lua_items ((k, v) # d) = (k, lua_value v) # lua_items d"
| "lua_list [] = []"
| "lua_list (x # xs) = lua_value x # lua_list xs"

text \<open>\<open>APPEND_LUA\<close>: total tokens, length of the list, whether to summarize, and the turn.\<close>

definition append_script :: "int \<Rightarrow> int \<Rightarrow> int \<Rightarrow> conv_msg \<Rightarrow> conv_redis \<Rightarrow> (int \<times> int \<times> bool \<times> int) \<times> conv_redis" where
  "append_script cap over flush m r =
     (let turn = last_turn_of r + 1;
          tokens = total_tokens_of r + cm_tokens m;
          w = \<lparr>wm_role = cm_role m, wm_content = cm_content m, wm_tokens = cm_tokens m, wm_truncated = cm_truncated m,
               wm_name = (if str_truthy (cm_name m) then cm_name m else None),
               wm_meta_info = (if truthy (cm_meta_info m) then lua_value (cm_meta_info m) else PNone),
               wm_turn = turn, wm_deleted = False\<rparr>;
          msgs = cr_msgs r @ [w];
          msgs' = (if over < int (length msgs) then drop (nat (int (length msgs) - cap)) msgs else msgs)
      in ((tokens, int (length msgs'), flush \<le> tokens, turn),
          upd_meta (\<lambda>mt. mt\<lparr>mt_last_turn := Some turn, mt_total_tokens := Some tokens\<rparr>) (r\<lparr>cr_msgs := msgs'\<rparr>)))"

definition or_some :: "'a option \<Rightarrow> 'a \<Rightarrow> 'a option" where
  "or_some v x = (case v of None \<Rightarrow> Some x | Some _ \<Rightarrow> v)"

definition init_meta :: "rat \<Rightarrow> conv_channel \<Rightarrow> conv_redis \<Rightarrow> conv_redis" where
  "init_meta now ch = upd_meta (\<lambda>mt. mt\<lparr>mt_last_turn := or_some (mt_last_turn mt) 0, mt_total_tokens := or_some (mt_total_tokens mt) 0,
     mt_summary_version := or_some (mt_summary_version mt) 0, mt_summarizing := or_some (mt_summarizing mt) False,
     mt_summary_job := or_some (mt_summary_job mt) [], mt_channel := Some ch, mt_last_active := Some now,
     mt_first_message := or_some (mt_first_message mt) now\<rparr>)"

text \<open>The loop over the messages: the turns so far, the flush flag, the tokens.\<close>

fun append_loop :: "int \<Rightarrow> int \<Rightarrow> int \<Rightarrow> nat option \<Rightarrow> conv_msg list \<Rightarrow> int list \<times> bool \<times> int \<Rightarrow> conv_redis \<Rightarrow>
    (exn + (int list \<times> bool \<times> int) \<times> nat option) \<times> conv_redis" where
  "append_loop cap over flush healthy [] acc r = (Inr (acc, healthy), r)"
| "append_loop cap over flush healthy (m # ms) (turns, flag, tokens) r =
     (if healthy = Some 0 then (Inl (OtherError ''ConnectionError'' []), r)
      else case append_script cap over flush m r of
             ((tokens', _, flag', turn), r') \<Rightarrow>
               append_loop cap over flush (map_option (\<lambda>n. n - 1) healthy) ms (turns @ [turn], flag \<or> flag', tokens') r')"

definition is_summarizing :: "conv_redis \<Rightarrow> bool" where
  "is_summarizing r = (mt_summarizing (cr_meta r) = Some True)"

definition mark_summarizing :: "bool \<Rightarrow> conv_redis \<Rightarrow> conv_redis" where
  "mark_summarizing b = upd_meta (\<lambda>mt. mt\<lparr>mt_summarizing := Some b\<rparr>)"

text \<open>\<open>SummaryScheduler.touch_session\<close>; the id of a task is a parameter.\<close>

definition touch_idle :: "rat \<Rightarrow> string \<Rightarrow> conv_redis \<Rightarrow> conv_redis" where
  "touch_idle now task r =
     (case cr_idle_pending r of
        Some _ \<Rightarrow> r\<lparr>cr_idle_active := Some now\<rparr>
      | None \<Rightarrow> r\<lparr>cr_idle_active := Some now, cr_idle_pending := Some task, cr_jobs := cr_jobs r @ [IdleCheck]\<rparr>)"

record append_result =
  ar_should_flush :: bool
  ar_last_turn :: "int option"
  ar_total_tokens :: "int option"
  ar_turns :: "int list"

definition no_append :: append_result where
  "no_append = \<lparr>ar_should_flush = False, ar_last_turn = None, ar_total_tokens = None, ar_turns = []\<rparr>"

definition start_summary :: "string \<Rightarrow> conv_redis \<Rightarrow> conv_redis" where
  "start_summary job r =
     (let r1 = mark_summarizing True r; r2 = r1\<lparr>cr_jobs := cr_jobs r1 @ [Summarize]\<rparr>
      in upd_meta (\<lambda>mt. mt\<lparr>mt_summary_job := Some job, mt_summarizing := Some True\<rparr>) r2)"

text \<open>\<open>append_messages\<close>. \<open>ar_turns\<close> are the turns it writes into the dictionaries of the messages. The
  memory scheduler, whose failures are swallowed, is outside the model.\<close>

definition append_messages :: "conv_config \<Rightarrow> rat \<Rightarrow> string \<Rightarrow> string \<Rightarrow> nat option \<Rightarrow> conv_channel \<Rightarrow> conv_msg list \<Rightarrow> conv_redis \<Rightarrow>
    (exn + append_result) \<times> conv_redis" where
  "append_messages cf now task job healthy ch ms r =
     (if ms = [] then (Inr no_append, r)
      else if healthy = Some 0 then (Inl (OtherError ''ConnectionError'' []), r)
      else
        case append_loop (max_turns cf ch) (max_turns_overflow cf ch) (cc_flush_tokens cf) (map_option (\<lambda>n. n - 1) healthy) ms
               ([], False, 0) (init_meta now ch r) of
          (Inl e, r1) \<Rightarrow> (Inl e, r1)
        | (Inr ((turns, flag, tokens), left), r1) \<Rightarrow>
            if left = Some 0 then (Inl (OtherError ''ConnectionError'' []), r1)
            else
              let r2 = upd_meta (\<lambda>mt. mt\<lparr>mt_last_active := Some now\<rparr>) r1;
                  r3 = (if ch = CONV_INTERNAL then touch_idle now task r2 else r2);
                  r4 = (if flag \<and> \<not> is_summarizing r3 then start_summary job r3 else r3)
              in (Inr \<lparr>ar_should_flush = flag, ar_last_turn = Some (last turns), ar_total_tokens = Some tokens, ar_turns = turns\<rparr>, r4))"

subsection \<open>Reading, deleting, clearing\<close>

definition load_window :: "conv_redis \<Rightarrow> window_msg list \<times> conv_meta \<times> conv_summary option" where
  "load_window r = (filter (\<lambda>m. \<not> wm_deleted m) (cr_msgs r), cr_meta r, cr_summary r)"

text \<open>\<open>delete_message\<close> reads the list, and then writes the marked message back to the position it was read at.\<close>

definition delete_read :: "int \<Rightarrow> conv_redis \<Rightarrow> (nat \<times> window_msg) option" where
  "delete_read turn r = find (\<lambda>(i, m). wm_turn m = turn \<and> \<not> wm_deleted m) (enumerate 0 (cr_msgs r))"

definition delete_write :: "rat \<Rightarrow> nat \<times> window_msg \<Rightarrow> conv_redis \<Rightarrow> (exn + bool) \<times> conv_redis" where
  "delete_write now im r =
     (case im of (i, m) \<Rightarrow>
        if i < length (cr_msgs r) then
          (Inr True, upd_meta (\<lambda>mt. mt\<lparr>mt_total_tokens := Some (total_tokens_of r - wm_tokens m), mt_last_active := Some now\<rparr>)
             (r\<lparr>cr_msgs := (cr_msgs r)[i := m\<lparr>wm_deleted := True\<rparr>]\<rparr>))
        else (Inl (OtherError ''ResponseError'' ''index out of range''), r))"

definition delete_message :: "rat \<Rightarrow> int \<Rightarrow> conv_redis \<Rightarrow> (exn + bool) \<times> conv_redis" where
  "delete_message now turn r =
     (case delete_read turn r of None \<Rightarrow> (Inr False, r) | Some im \<Rightarrow> delete_write now im r)"

definition last_assistant :: "window_msg list \<Rightarrow> window_msg option" where
  "last_assistant ms = find (\<lambda>m. wm_role m = ''assistant'' \<and> \<not> wm_deleted m) (rev ms)"

definition delete_last_assistant_message :: "rat \<Rightarrow> conv_redis \<Rightarrow> (exn + bool) \<times> conv_redis" where
  "delete_last_assistant_message now r =
     (case last_assistant (cr_msgs r) of None \<Rightarrow> (Inr False, r) | Some m \<Rightarrow> delete_message now (wm_turn m) r)"

definition clear_session :: "conv_redis \<Rightarrow> conv_redis" where
  "clear_session r = r\<lparr>cr_msgs := [], cr_meta := no_meta, cr_summary := None\<rparr>"

definition clear_summarizing :: "conv_redis \<Rightarrow> conv_redis" where
  "clear_summarizing = upd_meta (\<lambda>mt. mt\<lparr>mt_summarizing := Some False, mt_summary_job := Some []\<rparr>)"

definition update_summary_cache :: "conv_summary \<Rightarrow> conv_redis \<Rightarrow> conv_redis" where
  "update_summary_cache su r = r\<lparr>cr_summary := Some su\<rparr>"

text \<open>The time to live passes: the three keys of the session are gone.\<close>

definition expire_window :: "conv_redis \<Rightarrow> conv_redis" where
  "expire_window = clear_session"

subsection \<open>Alignment with the database\<close>

definition db_max_turn :: "int list \<Rightarrow> int" where
  "db_max_turn turns = (case turns of [] \<Rightarrow> 0 | t # ts \<Rightarrow> fold max ts t)"

text \<open>\<open>sync_redis_last_turn\<close>, given the turns of the session in the database.\<close>

definition sync_last_turn :: "int list \<Rightarrow> conv_redis \<Rightarrow> int \<times> conv_redis" where
  "sync_last_turn turns r =
     (if last_turn_of r < db_max_turn turns
      then (db_max_turn turns, upd_meta (\<lambda>mt. mt\<lparr>mt_last_turn := Some (db_max_turn turns)\<rparr>) r)
      else (last_turn_of r, r))"

subsection \<open>The invariant of a window\<close>

text \<open>The turns grow along the list, up to the last turn that was given out, and start at 1.\<close>

definition window_ok :: "conv_redis \<Rightarrow> bool" where
  "window_ok r \<longleftrightarrow> sorted_wrt (<) (map wm_turn (cr_msgs r)) \<and>
     (\<forall>m \<in> set (cr_msgs r). 1 \<le> wm_turn m \<and> wm_turn m \<le> last_turn_of r) \<and> 0 \<le> last_turn_of r"

lemma upd_meta_simps [simp]:
  "cr_msgs (upd_meta f r) = cr_msgs r" "cr_meta (upd_meta f r) = f (cr_meta r)" "cr_summary (upd_meta f r) = cr_summary r"
  "cr_jobs (upd_meta f r) = cr_jobs r" "cr_idle_pending (upd_meta f r) = cr_idle_pending r" "cr_idle_active (upd_meta f r) = cr_idle_active r"
  by (simp_all add: upd_meta_def)

lemma window_ok_cong:
  "cr_msgs r' = cr_msgs r \<Longrightarrow> last_turn_of r \<le> last_turn_of r' \<Longrightarrow> window_ok r \<Longrightarrow> window_ok r'"
  by (force simp: window_ok_def)

lemma window_ok_sub:
  "sublist (cr_msgs r') (cr_msgs r) \<Longrightarrow> last_turn_of r' = last_turn_of r \<Longrightarrow> window_ok r \<Longrightarrow> window_ok r'"
  by (auto simp: window_ok_def sublist_def sorted_wrt_append)

lemma window_ok_no_window [simp]: "window_ok no_window"
  by (simp add: window_ok_def no_window_def last_turn_of_def no_meta_def)

lemma last_turn_simps [simp]:
  "last_turn_of (r\<lparr>cr_msgs := ms\<rparr>) = last_turn_of r" "last_turn_of (r\<lparr>cr_summary := su\<rparr>) = last_turn_of r"
  "last_turn_of (r\<lparr>cr_jobs := js\<rparr>) = last_turn_of r" "last_turn_of (r\<lparr>cr_idle_active := a\<rparr>) = last_turn_of r"
  "last_turn_of (r\<lparr>cr_idle_pending := p\<rparr>) = last_turn_of r"
  by (simp_all add: last_turn_of_def)

lemma last_turn_upd [simp]: "(\<And>mt. mt_last_turn (f mt) = mt_last_turn mt) \<Longrightarrow> last_turn_of (upd_meta f r) = last_turn_of r"
  by (simp add: last_turn_of_def)

lemma init_meta_frame [simp]: "cr_msgs (init_meta now ch r) = cr_msgs r" "last_turn_of (init_meta now ch r) = last_turn_of r"
  by (simp_all add: init_meta_def last_turn_of_def or_some_def split: option.splits)

lemma touch_idle_frame [simp]:
  "cr_msgs (touch_idle now task r) = cr_msgs r" "cr_meta (touch_idle now task r) = cr_meta r" "cr_summary (touch_idle now task r) = cr_summary r"
  "last_turn_of (touch_idle now task r) = last_turn_of r"
  by (simp_all add: touch_idle_def last_turn_of_def split: option.splits)

lemma start_summary_frame [simp]:
  "cr_msgs (start_summary job r) = cr_msgs r" "last_turn_of (start_summary job r) = last_turn_of r"
  "cr_summary (start_summary job r) = cr_summary r"
  by (simp_all add: start_summary_def mark_summarizing_def last_turn_of_def Let_def)

subsection \<open>Appending keeps the turns in order\<close>

lemma append_script_turn:
  "append_script cap over flush m r = ((t, n, f, turn), r') \<Longrightarrow> turn = last_turn_of r + 1 \<and> last_turn_of r' = turn"
  by (auto simp: append_script_def Let_def last_turn_of_def)

lemma append_script_window:
  assumes "append_script cap over flush m r = ((t, n, f, turn), r')" and "cap \<le> over" and "window_ok r"
  shows "window_ok r' \<and> (0 \<le> over \<longrightarrow> int (length (cr_msgs r')) \<le> over)"
proof -
  define w where "w = \<lparr>wm_role = cm_role m, wm_content = cm_content m, wm_tokens = cm_tokens m, wm_truncated = cm_truncated m,
               wm_name = (if str_truthy (cm_name m) then cm_name m else None),
               wm_meta_info = (if truthy (cm_meta_info m) then lua_value (cm_meta_info m) else PNone),
               wm_turn = last_turn_of r + 1, wm_deleted = False\<rparr>"
  let ?ms = "cr_msgs r @ [w]"
  have msgs: "cr_msgs r' = (if over < int (length ?ms) then drop (nat (int (length ?ms) - cap)) ?ms else ?ms)"
    and turn: "last_turn_of r' = last_turn_of r + 1"
    using assms(1) by (auto simp: append_script_def Let_def w_def last_turn_of_def)
  have "window_ok (r'\<lparr>cr_msgs := ?ms\<rparr>)"
    using assms(3) turn by (force simp: window_ok_def sorted_wrt_append w_def)
  moreover have "sublist (cr_msgs r') ?ms" by (simp only: msgs) (auto simp del: drop_append)
  ultimately have "window_ok r'" using window_ok_sub [of r' "r'\<lparr>cr_msgs := ?ms\<rparr>"] by simp
  moreover have "0 \<le> over \<longrightarrow> int (length (cr_msgs r')) \<le> over" using assms(2) by (auto simp: msgs)
  ultimately show ?thesis by blast
qed

text \<open>A complete loop gives out consecutive turns; one that breaks off keeps the window in order all the same.\<close>

lemma append_loop_turns:
  "append_loop cap over flush healthy ms (ts, f, t) r = (Inr ((ts', f', t'), left), r') \<Longrightarrow>
   ts' = ts @ map (\<lambda>i. last_turn_of r + 1 + int i) [0..<length ms] \<and> last_turn_of r' = last_turn_of r + int (length ms)"
proof (induction ms arbitrary: healthy ts f t r)
  case (Cons m ms)
  obtain t1 n1 f1 u1 r1 where s: "append_script cap over flush m r = ((t1, n1, f1, u1), r1)" by (metis prod.exhaust)
  have u: "u1 = last_turn_of r + 1" "last_turn_of r1 = last_turn_of r + 1" using append_script_turn [OF s] by auto
  have "append_loop cap over flush (map_option (\<lambda>n. n - 1) healthy) ms (ts @ [u1], f \<or> f1, t1) r1 = (Inr ((ts', f', t'), left), r')"
    using Cons.prems by (simp add: s split: if_splits)
  from Cons.IH [OF this] show ?case
    by (simp add: u upt_conv_Cons map_Suc_upt [symmetric] o_def algebra_simps del: upt_Suc)
qed simp

lemma append_loop_window:
  assumes "cap \<le> over"
  shows "window_ok r \<Longrightarrow> window_ok (snd (append_loop cap over flush healthy ms acc r))"
proof (induction ms arbitrary: healthy acc r)
  case (Cons m ms)
  obtain t1 n1 f1 u1 r1 where s: "append_script cap over flush m r = ((t1, n1, f1, u1), r1)" by (metis prod.exhaust)
  obtain ts f t where acc: "acc = (ts, f, t)" by (metis prod.exhaust)
  show ?case using Cons append_script_window [OF s assms Cons.prems] by (simp add: s acc)
qed (cases acc; simp)

lemma append_loop_length:
  assumes "cap \<le> over" and "0 \<le> over"
  shows "window_ok r \<Longrightarrow> int (length (cr_msgs r)) \<le> b \<Longrightarrow> over \<le> b \<Longrightarrow> int (length (cr_msgs (snd (append_loop cap over flush healthy ms acc r)))) \<le> b"
proof (induction ms arbitrary: healthy acc r)
  case (Cons m ms)
  obtain t1 n1 f1 u1 r1 where s: "append_script cap over flush m r = ((t1, n1, f1, u1), r1)" by (metis prod.exhaust)
  obtain ts f t where acc: "acc = (ts, f, t)" by (metis prod.exhaust)
  from append_script_window [OF s assms(1) Cons.prems(1)] assms(2) Cons.prems(3)
  have "window_ok r1" "int (length (cr_msgs r1)) \<le> b" by auto
  then show ?case using Cons by (simp add: s acc)
qed (cases acc; simp)

lemma max_turns_overflow_ge [simp]: "max_turns cf ch \<le> max_turns_overflow cf ch"
  by (simp add: max_turns_overflow_def)

lemma window_ok_frame:
  "window_ok (upd_meta f r) \<longleftrightarrow> window_ok r" if "\<And>mt. mt_last_turn (f mt) = mt_last_turn mt"
  using that by (simp add: window_ok_def last_turn_of_def)

lemma window_ok_touch_idle [simp]: "window_ok (touch_idle now task r) = window_ok r"
  by (simp add: window_ok_def last_turn_of_def)

lemma window_ok_start_summary [simp]: "window_ok (start_summary job r) = window_ok r"
  by (simp add: window_ok_def)

lemma window_ok_init_meta [simp]: "window_ok (init_meta now ch r) = window_ok r"
  by (simp add: window_ok_def)

definition window_cap :: "conv_config \<Rightarrow> int" where
  "window_cap cf = max (max_turns_overflow cf CONV_INTERNAL) (max_turns_overflow cf CONV_EXTERNAL)"

text \<open>Every way an append can end: the window is what the loop left.\<close>

lemma append_messages_msgs:
  assumes "append_messages cf now task job healthy ch ms r = (out, r')"
  shows "r' = r \<or> (\<exists>acc h. let r1 = snd (append_loop (max_turns cf ch) (max_turns_overflow cf ch) (cc_flush_tokens cf) h ms acc (init_meta now ch r))
           in cr_msgs r' = cr_msgs r1 \<and> last_turn_of r' = last_turn_of r1)"
proof (cases "ms = [] \<or> healthy = Some 0")
  case False
  let ?h = "map_option (\<lambda>n. n - 1) healthy"
  let ?loop = "append_loop (max_turns cf ch) (max_turns_overflow cf ch) (cc_flush_tokens cf) ?h ms ([], False, 0) (init_meta now ch r)"
  have "cr_msgs r' = cr_msgs (snd ?loop) \<and> last_turn_of r' = last_turn_of (snd ?loop)"
    using assms False by (auto simp: append_messages_def Let_def split: sum.splits prod.splits if_splits)
  then show ?thesis by (auto simp: Let_def)
qed (use assms in \<open>auto simp: append_messages_def split: if_splits\<close>)

lemma append_messages_ok:
  assumes "append_messages cf now task job healthy ch ms r = (out, r')" and "window_ok r"
  shows "window_ok r'"
  using append_messages_msgs [OF assms(1)] append_loop_window [OF max_turns_overflow_ge] assms(2)
  by (auto simp: Let_def intro: window_ok_cong)

lemma append_messages_length:
  assumes "append_messages cf now task job healthy ch ms r = (out, r')" and "window_ok r"
    and "0 \<le> cc_turns_internal cf" "0 \<le> cc_turns_external cf" and "int (length (cr_msgs r)) \<le> window_cap cf"
  shows "int (length (cr_msgs r')) \<le> window_cap cf"
proof -
  have cap: "0 \<le> max_turns_overflow cf ch" "max_turns_overflow cf ch \<le> window_cap cf"
    using assms(3,4) by (cases ch; auto simp: max_turns_overflow_def max_turns_def window_cap_def)+
  show ?thesis
    using append_messages_msgs [OF assms(1)] append_loop_length [OF max_turns_overflow_ge cap(1)] assms(2,5) cap(2)
    by (auto simp: Let_def)
qed

lemma append_messages_turns:
  assumes "append_messages cf now task job healthy ch ms r = (Inr a, r')" and "ms \<noteq> []"
  shows "ar_turns a = map (\<lambda>i. last_turn_of r + 1 + int i) [0..<length ms] \<and> ar_last_turn a = Some (last_turn_of r + int (length ms)) \<and>
    last_turn_of r' = last_turn_of r + int (length ms)"
proof -
  obtain ts f t left r1 where loop: "append_loop (max_turns cf ch) (max_turns_overflow cf ch) (cc_flush_tokens cf) (map_option (\<lambda>n. n - 1) healthy) ms
      ([], False, 0) (init_meta now ch r) = (Inr ((ts, f, t), left), r1)"
    using assms by (auto simp: append_messages_def Let_def split: sum.splits prod.splits if_splits)
  have out: "ar_turns a = ts" "ar_last_turn a = Some (last ts)" "last_turn_of r' = last_turn_of r1"
    using assms loop by (auto simp: append_messages_def Let_def split: if_splits)
  from append_loop_turns [OF loop] have "ts = map (\<lambda>i. last_turn_of r + 1 + int i) [0..<length ms]"
    "last_turn_of r1 = last_turn_of r + int (length ms)" by simp_all
  with out assms(2) show ?thesis by (simp add: last_map of_nat_diff Suc_leI)
qed

subsection \<open>Deleting\<close>

lemma delete_read_Some:
  assumes "delete_read turn r = Some (i, m)"
  shows "i < length (cr_msgs r) \<and> m = cr_msgs r ! i \<and> wm_turn m = turn \<and> \<not> wm_deleted m"
proof -
  from assms have "(i, m) \<in> set (enumerate 0 (cr_msgs r))" and "wm_turn m = turn \<and> \<not> wm_deleted m"
    by (auto simp: delete_read_def find_Some_iff in_set_conv_nth)
  then show ?thesis by (auto simp: in_set_enumerate_eq)
qed

lemma update_marked: "i < length ms \<Longrightarrow> map wm_turn (ms[i := (ms ! i)\<lparr>wm_deleted := True\<rparr>]) = map wm_turn ms"
  by (simp add: map_update) (metis list_update_id map_update nth_map)

lemma window_ok_turns:
  "map wm_turn (cr_msgs r') = map wm_turn (cr_msgs r) \<Longrightarrow> last_turn_of r \<le> last_turn_of r' \<Longrightarrow> window_ok r \<Longrightarrow> window_ok r'"
proof -
  assume a: "map wm_turn (cr_msgs r') = map wm_turn (cr_msgs r)" "last_turn_of r \<le> last_turn_of r'" "window_ok r"
  have "wm_turn ` set (cr_msgs r') = wm_turn ` set (cr_msgs r)" using a(1) by (metis set_map)
  then have "\<forall>m \<in> set (cr_msgs r'). 1 \<le> wm_turn m \<and> wm_turn m \<le> last_turn_of r"
    using a(3) unfolding window_ok_def by (metis (mono_tags, lifting) imageE imageI)
  with a show ?thesis by (force simp: window_ok_def)
qed

lemma delete_message_turns:
  "delete_message now turn r = (out, r') \<Longrightarrow> map wm_turn (cr_msgs r') = map wm_turn (cr_msgs r) \<and> last_turn_of r' = last_turn_of r"
  by (auto simp: delete_message_def delete_write_def update_marked split: option.splits if_splits dest!: delete_read_Some)

lemma delete_message_ok: "delete_message now turn r = (out, r') \<Longrightarrow> window_ok r \<Longrightarrow> window_ok r'"
  using delete_message_turns [of now turn r out r'] window_ok_turns [of r' r] by simp

text \<open>What a deletion does to what a reader of the window sees, when turns are unique.\<close>

lemma delete_message_hides:
  assumes "delete_message now turn r = (out, r')" and "window_ok r"
  shows "fst (load_window r') = filter (\<lambda>m. wm_turn m \<noteq> turn) (fst (load_window r))"
proof (cases "delete_read turn r")
  case None
  then have none: "(i, m) \<in> set (enumerate 0 (cr_msgs r)) \<Longrightarrow> wm_turn m = turn \<Longrightarrow> wm_deleted m" for i m
    by (auto simp: delete_read_def find_None_iff)
  have "\<forall>m \<in> set (cr_msgs r). wm_turn m = turn \<longrightarrow> wm_deleted m"
  proof (intro ballI impI)
    fix m assume "m \<in> set (cr_msgs r)" "wm_turn m = turn"
    then obtain i where "i < length (cr_msgs r)" "m = cr_msgs r ! i" by (auto simp: in_set_conv_nth)
    then have "(i, m) \<in> set (enumerate 0 (cr_msgs r))" by (simp add: in_set_enumerate_eq)
    with none \<open>wm_turn m = turn\<close> show "wm_deleted m" by blast
  qed
  with None assms(1) show ?thesis by (auto simp: delete_message_def load_window_def intro: filter_cong)
next
  case (Some im)
  obtain i m where im: "im = (i, m)" by fastforce
  with Some have i: "i < length (cr_msgs r)" "m = cr_msgs r ! i" "wm_turn m = turn" using delete_read_Some by auto
  define a b where "a = take i (cr_msgs r)" and "b = drop (Suc i) (cr_msgs r)"
  have ms: "cr_msgs r = a @ m # b" using i by (simp add: a_def b_def id_take_nth_drop)
  have r': "cr_msgs r' = a @ m\<lparr>wm_deleted := True\<rparr> # b"
    using assms(1) Some im i by (auto simp: delete_message_def delete_write_def a_def b_def upd_conv_take_nth_drop)
  have "\<forall>x \<in> set a \<union> set b. wm_turn x \<noteq> turn"
    using assms(2) i(3) unfolding window_ok_def ms by (auto simp: sorted_wrt_append)
  then have "filter (\<lambda>x. \<not> wm_deleted x \<and> wm_turn x \<noteq> turn) a = filter (\<lambda>x. \<not> wm_deleted x) a"
    "filter (\<lambda>x. \<not> wm_deleted x \<and> wm_turn x \<noteq> turn) b = filter (\<lambda>x. \<not> wm_deleted x) b"
    by (auto intro!: filter_cong)
  then show ?thesis by (simp add: load_window_def ms r' i(3) conj_commute)
qed

text \<open>Read and write are separate: when an append trims the window in between, the marked message lands on
  another one, which is lost, and the message to delete is still there.\<close>

definition msg_at :: "int \<Rightarrow> window_msg" where
  "msg_at t = \<lparr>wm_role = ''user'', wm_content = int_str t, wm_tokens = 1, wm_truncated = False, wm_name = None, wm_meta_info = PNone,
     wm_turn = t, wm_deleted = False\<rparr>"

definition plain_msg :: "string \<Rightarrow> conv_msg" where
  "plain_msg c = \<lparr>cm_role = ''user'', cm_content = c, cm_tokens = 1, cm_truncated = False, cm_name = None, cm_meta_info = PNone\<rparr>"

definition window_of :: "int list \<Rightarrow> conv_redis" where
  "window_of ts = no_window\<lparr>cr_msgs := map msg_at ts, cr_meta := no_meta\<lparr>mt_last_turn := Some (db_max_turn ts)\<rparr>\<rparr>"

lemma stale_delete_overwrites:
  "(case delete_read 2 (window_of [1..3]) of
     Some im \<Rightarrow>
       (case append_script 2 3 100 (plain_msg ''new'') (window_of [1..3]) of (_, r1) \<Rightarrow>
          map (\<lambda>m. (wm_turn m, wm_deleted m)) (cr_msgs r1) = [(3, False), (4, False)] \<and>
          map (\<lambda>m. (wm_turn m, wm_deleted m)) (cr_msgs (snd (delete_write 0 im r1))) = [(3, False), (2, True)])
   | None \<Rightarrow> False)"
  by code_simp

subsection \<open>Alignment\<close>

lemma fold_max_ge: "(s :: int) \<le> fold max ts s" "t \<in> set ts \<Longrightarrow> t \<le> fold max ts s"
proof (induction ts arbitrary: s)
  case (Cons a ts)
  { case 1 show ?case using Cons(1) [of "max a s"] by simp }
  { case 2 then show ?case using Cons(1) [of "max a s"] Cons(2) [of "max a s"] by auto }
qed simp_all

lemma db_max_turn_ge: "t \<in> set ts \<Longrightarrow> t \<le> db_max_turn ts"
  by (auto simp: db_max_turn_def fold_max_ge split: list.splits)

lemma sync_last_turn_spec:
  "sync_last_turn ts r = (n, r') \<Longrightarrow> n = max (last_turn_of r) (db_max_turn ts) \<and> last_turn_of r' = n \<and> cr_msgs r' = cr_msgs r"
  by (auto simp: sync_last_turn_def last_turn_of_def split: if_splits)

lemma sync_last_turn_ok: "window_ok r \<Longrightarrow> window_ok (snd (sync_last_turn ts r))"
  using sync_last_turn_spec [of ts r] window_ok_cong by (metis max.cobounded1 prod.collapse)

end
