(* ===== verification/Conversation_Store.thy ===== *)
theory Conversation_Store
  imports Conversation_Window
begin

section \<open>Conversations in the database\<close>

text \<open>
  The tables of src/app/models/conversation.py and what the code does with them: the message repository
  (conversation_message_repository.py), the session repository (conversation_session_repository.py),
  \<open>ConversationSessionService\<close> and \<open>ConversationHistoryService\<close> of src/app/services/conversation/. Messages
  arrive as dictionaries. The database is PostgreSQL: ON CONFLICT DO NOTHING skips a row whose session and
  turn are taken, a row without a role or session fails the statement.
\<close>

datatype conv_status = CONV_ACTIVE | CONV_CLOSED | CONV_ARCHIVED

record conv_row =
  cv_user :: "string option"
  cv_tenant :: "string option"
  cv_assistant :: "string option"
  cv_channel :: conv_channel
  cv_status :: conv_status
  cv_title :: "string option"
  cv_count :: int
  cv_summary_version :: int
  cv_first :: "rat option"
  cv_last_active :: rat

record db_msg =
  dm_session :: string
  dm_turn :: int
  dm_role :: pyval
  dm_name :: pyval
  dm_content :: pyval
  dm_tokens :: int
  dm_truncated :: bool
  dm_meta :: pyval
  dm_persona :: pyval
  dm_deleted :: bool

record db_summary =
  ds_session :: string
  ds_version :: int
  ds_text :: string
  ds_from :: int
  ds_to :: int
  ds_previous :: "int option"
  ds_tokens :: int
  ds_model :: "string option"

record conv_db =
  cd_sessions :: "(string, conv_row) dict"
  cd_messages :: "db_msg list"
  cd_summaries :: "db_summary list"

definition empty_conv_db :: conv_db where
  "empty_conv_db = \<lparr>cd_sessions = [], cd_messages = [], cd_summaries = []\<rparr>"

definition turns_of :: "string \<Rightarrow> conv_db \<Rightarrow> int list" where
  "turns_of sid db = map dm_turn (filter (\<lambda>m. dm_session m = sid) (cd_messages db))"

subsection \<open>Messages\<close>

definition row_fields :: "string list" where
  "row_fields = [''role'', ''content'', ''name'', ''token_estimate'', ''is_truncated'', ''turn_index'', ''is_deleted'',
     ''parent_message_id'', ''meta_info'', ''used_persona_id'']"

definition int_value :: "pyval \<Rightarrow> int" where
  "int_value v = (case v of PInt i \<Rightarrow> i | PFloat r \<Rightarrow> if 0 \<le> r then \<lfloor>r\<rfloor> else \<lceil>r\<rceil> | PBool b \<Rightarrow> (if b then 1 else 0) | _ \<Rightarrow> 0)"

definition is_str :: "pyval \<Rightarrow> bool" where
  "is_str v = (case v of PStr _ \<Rightarrow> True | _ \<Rightarrow> False)"

definition merge_dict :: "pyval \<Rightarrow> (string, pyval) dict \<Rightarrow> pyval" where
  "merge_dict base extras = PDict (fold (\<lambda>(k, v) d. dput k v d) extras (as_dict base))"

text \<open>The row of a message that has a turn.\<close>

definition message_row :: "string \<Rightarrow> (string, pyval) dict \<Rightarrow> db_msg option" where
  "message_row sid msg =
     (if \<not> truthy (py_get msg ''turn_index'' PNone) then None
      else
        let content = py_get msg ''content'' PNone;
            meta = py_get msg ''meta_info'' PNone;
            extras = filter (\<lambda>(k, v). k \<notin> set row_fields \<and> v \<noteq> PNone) msg;
            moved = (\<not> is_str content \<and> content \<noteq> PNone \<and> dget (as_dict meta) ''content'' = None);
            extras' = (if moved then dput ''content'' content extras else extras)
        in Some \<lparr>dm_session = sid, dm_turn = int_value (py_get msg ''turn_index'' PNone), dm_role = py_get msg ''role'' PNone,
             dm_name = py_get msg ''name'' PNone, dm_content = (if moved then PNone else content),
             dm_tokens = int_value (py_get msg ''token_estimate'' (PInt 0)), dm_truncated = truthy (py_get msg ''is_truncated'' (PBool False)),
             dm_meta = (if extras' \<noteq> [] then merge_dict meta extras' else meta), dm_persona = py_get msg ''used_persona_id'' PNone,
             dm_deleted = False\<rparr>)"

definition message_rows :: "string \<Rightarrow> (string, pyval) dict list \<Rightarrow> db_msg list" where
  "message_rows sid msgs = List.map_filter (message_row sid) msgs"

definition insert_if_new :: "db_msg \<Rightarrow> db_msg list \<Rightarrow> db_msg list" where
  "insert_if_new m ms = (if \<exists>x \<in> set ms. dm_session x = dm_session m \<and> dm_turn x = dm_turn m then ms else ms @ [m])"

definition insert_rows :: "db_msg list \<Rightarrow> conv_db \<Rightarrow> conv_db" where
  "insert_rows rows db = db\<lparr>cd_messages := fold insert_if_new rows (cd_messages db)\<rparr>"

definition bulk_insert_messages :: "string \<Rightarrow> (string, pyval) dict list \<Rightarrow> conv_db \<Rightarrow> (exn + int) \<times> conv_db" where
  "bulk_insert_messages sid msgs db =
     (let rows = message_rows sid msgs
      in if rows = [] then (Inr 0, db)
         else if dget (cd_sessions db) sid = None \<or> (\<exists>m \<in> set rows. dm_role m = PNone)
         then (Inl (OtherError ''IntegrityError'' []), db)
         else let db' = insert_rows rows db
              in (Inr (int (length (cd_messages db')) - int (length (cd_messages db))), db'))"

definition list_messages :: "string \<Rightarrow> int \<Rightarrow> int option \<Rightarrow> bool \<Rightarrow> bool \<Rightarrow> conv_db \<Rightarrow> db_msg list" where
  "list_messages sid bound before include_deleted descending db =
     (let ms = filter (\<lambda>m. dm_session m = sid \<and> (include_deleted \<or> \<not> dm_deleted m) \<and>
            (case before of None \<Rightarrow> True | Some t \<Rightarrow> dm_turn m < t)) (cd_messages db);
          sorted = sort_key dm_turn ms
      in take (nat bound) (if descending then rev sorted else sorted))"

definition get_by_turn_index :: "string \<Rightarrow> int \<Rightarrow> conv_db \<Rightarrow> db_msg option" where
  "get_by_turn_index sid turn db = find (\<lambda>m. dm_session m = sid \<and> dm_turn m = turn) (cd_messages db)"

definition soft_delete_by_turn_index :: "string \<Rightarrow> int \<Rightarrow> conv_db \<Rightarrow> bool \<times> conv_db" where
  "soft_delete_by_turn_index sid turn db =
     (let hit = (\<lambda>m. dm_session m = sid \<and> dm_turn m = turn \<and> \<not> dm_deleted m)
      in (\<exists>m \<in> set (cd_messages db). hit m,
          db\<lparr>cd_messages := map (\<lambda>m. if hit m then m\<lparr>dm_deleted := True\<rparr> else m) (cd_messages db)\<rparr>))"

subsection \<open>Sessions\<close>

definition or_opt :: "'a option \<Rightarrow> 'a option \<Rightarrow> 'a option" where
  "or_opt old new = (case old of None \<Rightarrow> new | Some _ \<Rightarrow> old)"

definition upsert_session :: "rat \<Rightarrow> string \<Rightarrow> string option \<Rightarrow> string option \<Rightarrow> string option \<Rightarrow> conv_channel \<Rightarrow> rat option \<Rightarrow>
    int option \<Rightarrow> rat option \<Rightarrow> string option \<Rightarrow> conv_db \<Rightarrow> conv_row \<times> conv_db" where
  "upsert_session now sid user tenant assistant ch active count first title db =
     (let row = (case dget (cd_sessions db) sid of
           None \<Rightarrow> \<lparr>cv_user = user, cv_tenant = tenant, cv_assistant = assistant, cv_channel = ch, cv_status = CONV_ACTIVE, cv_title = title,
              cv_count = zero_if_none count, cv_summary_version = 0, cv_first = first,
              cv_last_active = (case active of None \<Rightarrow> now | Some t \<Rightarrow> t)\<rparr>
         | Some r \<Rightarrow> r\<lparr>cv_user := or_opt (cv_user r) user, cv_tenant := or_opt (cv_tenant r) tenant, cv_assistant := or_opt (cv_assistant r) assistant,
              cv_title := (if str_truthy title then title else cv_title r), cv_first := or_opt (cv_first r) first,
              cv_last_active := (case active of None \<Rightarrow> cv_last_active r | Some t \<Rightarrow> t),
              cv_count := (case count of None \<Rightarrow> cv_count r | Some n \<Rightarrow> max (cv_count r) n)\<rparr>)
      in (row, db\<lparr>cd_sessions := dput sid row (cd_sessions db)\<rparr>))"

definition get_by_user :: "string \<Rightarrow> string \<Rightarrow> conv_channel \<Rightarrow> conv_db \<Rightarrow> conv_row option" where
  "get_by_user sid user ch db =
     (case dget (cd_sessions db) sid of
        Some r \<Rightarrow> if cv_user r = Some user \<and> cv_channel r = ch then Some r else None
      | None \<Rightarrow> None)"

definition reserve_turn_indexes :: "rat \<Rightarrow> string \<Rightarrow> string option \<Rightarrow> string option \<Rightarrow> string option \<Rightarrow> conv_channel \<Rightarrow> int \<Rightarrow> conv_db \<Rightarrow>
    int list \<times> conv_db" where
  "reserve_turn_indexes now sid user tenant assistant ch count db =
     (if count \<le> 0 then ([], db)
      else
        let (start, row) = (case dget (cd_sessions db) sid of
              None \<Rightarrow> (1, \<lparr>cv_user = user, cv_tenant = tenant, cv_assistant = assistant, cv_channel = ch, cv_status = CONV_ACTIVE, cv_title = None,
                cv_count = count, cv_summary_version = 0, cv_first = Some now, cv_last_active = now\<rparr>)
            | Some r \<Rightarrow>
                let base = max (cv_count r) (db_max_turn (turns_of sid db))
                in (base + 1, r\<lparr>cv_user := or_opt (cv_user r) user, cv_tenant := or_opt (cv_tenant r) tenant,
                      cv_assistant := or_opt (cv_assistant r) assistant, cv_last_active := now, cv_first := or_opt (cv_first r) (Some now),
                      cv_count := base + count\<rparr>))
        in (map (\<lambda>i. start + int i) [0..<nat count], db\<lparr>cd_sessions := dput sid row (cd_sessions db)\<rparr>))"

definition touch_session :: "rat \<Rightarrow> string \<Rightarrow> string option \<Rightarrow> string option \<Rightarrow> string option \<Rightarrow> conv_channel \<Rightarrow> int option \<Rightarrow> conv_db \<Rightarrow> conv_db" where
  "touch_session now sid user tenant assistant ch count db =
     snd (upsert_session now sid user tenant assistant ch (Some now) count None None db)"

definition create_session :: "rat \<Rightarrow> string \<Rightarrow> string option \<Rightarrow> string option \<Rightarrow> string option \<Rightarrow> string option \<Rightarrow> conv_db \<Rightarrow> conv_row \<times> conv_db" where
  "create_session now sid user tenant assistant title db =
     upsert_session now sid user tenant assistant CONV_INTERNAL (Some now) (Some 0) None
       (if str_truthy title then map_option str_strip title else None) db"

datatype conv_error = HTTP int | Crash exn

text \<open>The parameter \<open>status\<close> of \<open>update_session_status\<close> hides the module of that name: the branch that should
  answer 404 looks up an attribute of the enumeration instead.\<close>

definition update_session_status :: "string \<Rightarrow> string \<Rightarrow> conv_status \<Rightarrow> conv_db \<Rightarrow> (conv_error + conv_row) \<times> conv_db" where
  "update_session_status sid user st db =
     (case get_by_user sid user CONV_INTERNAL db of
        None \<Rightarrow> (Inl (Crash (OtherError ''AttributeError'' ''HTTP_404_NOT_FOUND'')), db)
      | Some r \<Rightarrow>
          if cv_status r = st then (Inr r, db)
          else (Inr (r\<lparr>cv_status := st\<rparr>), db\<lparr>cd_sessions := dput sid (r\<lparr>cv_status := st\<rparr>) (cd_sessions db)\<rparr>))"

lemma unknown_session_status_crashes:
  "get_by_user sid user CONV_INTERNAL db = None \<Longrightarrow>
   fst (update_session_status sid user st db) = Inl (Crash (OtherError ''AttributeError'' ''HTTP_404_NOT_FOUND''))"
  by (simp add: update_session_status_def)

definition get_user_session :: "string \<Rightarrow> string \<Rightarrow> conv_db \<Rightarrow> conv_error + conv_row" where
  "get_user_session sid user db = (case get_by_user sid user CONV_INTERNAL db of None \<Rightarrow> Inl (HTTP 404) | Some r \<Rightarrow> Inr r)"

definition update_session_title :: "string \<Rightarrow> string \<Rightarrow> string \<Rightarrow> conv_db \<Rightarrow> (conv_error + conv_row) \<times> conv_db" where
  "update_session_title sid user title db =
     (case get_by_user sid user CONV_INTERNAL db of
        None \<Rightarrow> (Inl (HTTP 404), db)
      | Some r \<Rightarrow>
          let new_title = str_strip title
          in if new_title = [] then (Inl (HTTP 400), db)
             else if cv_title r = Some new_title then (Inr r, db)
             else (Inr (r\<lparr>cv_title := Some new_title\<rparr>), db\<lparr>cd_sessions := dput sid (r\<lparr>cv_title := Some new_title\<rparr>) (cd_sessions db)\<rparr>))"

definition update_session_assistant :: "(string \<Rightarrow> bool) \<Rightarrow> string \<Rightarrow> string \<Rightarrow> string option \<Rightarrow> conv_db \<Rightarrow> (conv_error + conv_row) \<times> conv_db" where
  "update_session_assistant exists_assistant sid user assistant db =
     (case get_by_user sid user CONV_INTERNAL db of
        None \<Rightarrow> (Inl (HTTP 404), db)
      | Some r \<Rightarrow>
          if (case assistant of Some a \<Rightarrow> \<not> exists_assistant a | None \<Rightarrow> False) then (Inl (HTTP 404), db)
          else if cv_assistant r = assistant then (Inr r, db)
          else (Inr (r\<lparr>cv_assistant := assistant\<rparr>), db\<lparr>cd_sessions := dput sid (r\<lparr>cv_assistant := assistant\<rparr>) (cd_sessions db)\<rparr>))"

subsection \<open>History\<close>

record history_page =
  hp_messages :: "db_msg list"
  hp_has_more :: bool
  hp_next :: "int option"

definition load_history :: "string \<Rightarrow> string \<Rightarrow> int \<Rightarrow> int option \<Rightarrow> conv_db \<Rightarrow> conv_error + history_page" where
  "load_history sid user bound before db =
     (case get_by_user sid user CONV_INTERNAL db of
        None \<Rightarrow> Inl (HTTP 404)
      | Some _ \<Rightarrow>
          let rows = list_messages sid (max bound 1 + 1) before False True db;
              more = (bound < int (length rows));
              rows' = (if more then take (nat bound) rows else rows)
          in Inr \<lparr>hp_messages = rev rows', hp_has_more = more,
               hp_next = (if rows' \<noteq> [] \<and> more then Some (dm_turn (last rows')) else None)\<rparr>)"

subsection \<open>The tables stay consistent\<close>

text \<open>The unique constraint, and every row belongs to a session.\<close>

definition db_ok :: "conv_db \<Rightarrow> bool" where
  "db_ok db \<longleftrightarrow> distinct (map (\<lambda>m. (dm_session m, dm_turn m)) (cd_messages db)) \<and>
     (\<forall>m \<in> set (cd_messages db). dget (cd_sessions db) (dm_session m) \<noteq> None) \<and>
     distinct (map (\<lambda>s. (ds_session s, ds_version s)) (cd_summaries db))"

lemma db_ok_empty [simp]: "db_ok empty_conv_db"
  by (simp add: db_ok_def empty_conv_db_def)

lemma db_ok_distinct_turns: "db_ok db \<Longrightarrow> distinct (turns_of sid db)"
  by (auto simp: db_ok_def turns_of_def distinct_map inj_on_def distinct_filter)

lemma db_ok_sessions: "db_ok db \<Longrightarrow> db_ok (db\<lparr>cd_sessions := dput sid r (cd_sessions db)\<rparr>)"
  by (auto simp: db_ok_def)

lemma insert_if_new_distinct:
  "distinct (map (\<lambda>m. (dm_session m, dm_turn m)) ms) \<Longrightarrow> distinct (map (\<lambda>m. (dm_session m, dm_turn m)) (insert_if_new m ms))"
  by (auto simp: insert_if_new_def)

lemma fold_insert_distinct:
  "distinct (map (\<lambda>m. (dm_session m, dm_turn m)) ms) \<Longrightarrow> distinct (map (\<lambda>m. (dm_session m, dm_turn m)) (fold insert_if_new rows ms))"
  by (induction rows arbitrary: ms) (simp_all add: insert_if_new_distinct)

lemma insert_if_new_set: "set (insert_if_new m ms) \<subseteq> insert m (set ms)" "set ms \<subseteq> set (insert_if_new m ms)"
  by (auto simp: insert_if_new_def)

lemma fold_insert_set: "set (fold insert_if_new rows ms) \<subseteq> set ms \<union> set rows" "set ms \<subseteq> set (fold insert_if_new rows ms)"
proof (induction rows arbitrary: ms)
  case (Cons m rows)
  { case 1 show ?case using Cons(1) [of "insert_if_new m ms"] insert_if_new_set(1) [of m ms] by auto }
  { case 2 show ?case using Cons(2) [of "insert_if_new m ms"] insert_if_new_set(2) [of ms m] by auto }
qed simp_all

lemma insert_rows_ok:
  "db_ok db \<Longrightarrow> \<forall>m \<in> set rows. dget (cd_sessions db) (dm_session m) \<noteq> None \<Longrightarrow> db_ok (insert_rows rows db)"
  using fold_insert_distinct [of "cd_messages db" rows] fold_insert_set(1) [of rows "cd_messages db"]
  by (auto simp: db_ok_def insert_rows_def)

lemma message_rows_session: "m \<in> set (message_rows sid msgs) \<Longrightarrow> dm_session m = sid"
  by (auto simp: message_rows_def map_filter_def message_row_def Let_def split: if_splits)

lemma bulk_insert_ok: "bulk_insert_messages sid msgs db = (out, db') \<Longrightarrow> db_ok db \<Longrightarrow> db_ok db'"
  by (auto simp: bulk_insert_messages_def Let_def dest: message_rows_session split: if_splits intro!: insert_rows_ok)

lemma soft_delete_keys:
  "map (\<lambda>m. (dm_session m, dm_turn m)) (map (\<lambda>m. if P m then m\<lparr>dm_deleted := True\<rparr> else m) ms) = map (\<lambda>m. (dm_session m, dm_turn m)) ms"
  by simp

lemma soft_delete_ok:
  assumes "soft_delete_by_turn_index sid turn db = (out, db')" and "db_ok db"
  shows "db_ok db'"
proof -
  obtain P where db': "db' = db\<lparr>cd_messages := map (\<lambda>m. if P m then m\<lparr>dm_deleted := True\<rparr> else m) (cd_messages db)\<rparr>"
    using assms(1) by (auto simp: soft_delete_by_turn_index_def Let_def)
  show ?thesis
    using assms(2) soft_delete_keys [of P "cd_messages db"] by (auto simp add: db_ok_def db' simp del: map_map list.map_comp)
qed

lemma session_ops_ok:
  "db_ok db \<Longrightarrow> upsert_session now sid u t a ch active count first title db = (row, db1) \<Longrightarrow> db_ok db1"
  "db_ok db \<Longrightarrow> reserve_turn_indexes now sid u t a ch n db = (turns, db2) \<Longrightarrow> db_ok db2"
  "db_ok db \<Longrightarrow> update_session_status sid' user st db = (out, db3) \<Longrightarrow> db_ok db3"
  "db_ok db \<Longrightarrow> update_session_title sid' user ti db = (out, db4) \<Longrightarrow> db_ok db4"
  "db_ok db \<Longrightarrow> update_session_assistant ex sid' user as db = (out, db5) \<Longrightarrow> db_ok db5"
  by (auto simp: upsert_session_def reserve_turn_indexes_def update_session_status_def update_session_title_def
      update_session_assistant_def Let_def db_ok_sessions split: option.splits if_splits prod.splits)

subsection \<open>Insertion of rows with new turns\<close>

lemma fold_insert_fresh:
  "distinct (map (\<lambda>m. (dm_session m, dm_turn m)) (ms @ rows)) \<Longrightarrow> fold insert_if_new rows ms = ms @ rows"
proof (induction rows arbitrary: ms)
  case (Cons m rows)
  then have "\<not> (\<exists>x \<in> set ms. dm_session x = dm_session m \<and> dm_turn x = dm_turn m)" by (simp add: image_iff) (metis (no_types))
  then have "insert_if_new m ms = ms @ [m]" by (simp add: insert_if_new_def)
  with Cons show ?case by simp
qed simp

lemma turns_le_max: "m \<in> set (cd_messages db) \<Longrightarrow> dm_session m = sid \<Longrightarrow> dm_turn m \<le> db_max_turn (turns_of sid db)"
  by (rule db_max_turn_ge) (auto simp: turns_of_def)

text \<open>Rows of one session whose turns grow beyond those of the table are all inserted.\<close>

lemma insert_rows_beyond:
  assumes "db_ok db" and "\<forall>m \<in> set rows. dm_session m = sid \<and> db_max_turn (turns_of sid db) < dm_turn m"
    and "distinct (map dm_turn rows)"
  shows "cd_messages (insert_rows rows db) = cd_messages db @ rows"
proof -
  have "distinct (map (\<lambda>m. (dm_session m, dm_turn m)) rows)"
    using assms(3) by (auto simp: distinct_map inj_on_def)
  moreover have "dm_turn x < dm_turn m" if "m \<in> set rows" "x \<in> set (cd_messages db)" "dm_session x = dm_session m" for m x
    using assms(2) that turns_le_max [of x db sid] by force
  then have "(\<lambda>m. (dm_session m, dm_turn m)) ` set (cd_messages db) \<inter> (\<lambda>m. (dm_session m, dm_turn m)) ` set rows = {}"
    by (auto dest: sym) (metis less_irrefl)
  ultimately have "distinct (map (\<lambda>m. (dm_session m, dm_turn m)) (cd_messages db @ rows))"
    using assms(1) unfolding db_ok_def map_append distinct_append set_map by blast
  from fold_insert_fresh [OF this] show ?thesis by (simp add: insert_rows_def)
qed

lemma reserve_turns_beyond:
  assumes "reserve_turn_indexes now sid u t a ch n db = (turns, db')" and "db_ok db" and "0 < n"
    and "0 \<le> db_max_turn (turns_of sid db)"
  shows "length turns = nat n \<and> sorted_wrt (<) turns \<and> (\<forall>x \<in> set turns. db_max_turn (turns_of sid db) < x \<and> 0 < x) \<and>
    cd_messages db' = cd_messages db \<and> dget (cd_sessions db') sid \<noteq> None"
proof -
  have sorted: "sorted_wrt (<) (map (\<lambda>i. s + int i) [0..<k])" for s :: int and k
    by (simp add: sorted_wrt_map)
  have none: "dget (cd_sessions db) sid = None \<Longrightarrow> turns_of sid db = []"
    using assms(2) by (auto simp: db_ok_def turns_of_def filter_empty_conv)
  show ?thesis
    using assms(1,3,4) none sorted by (auto simp: reserve_turn_indexes_def Let_def db_max_turn_def split: option.splits)
qed

subsection \<open>Pages of the history\<close>

definition visible_before :: "string \<Rightarrow> int option \<Rightarrow> conv_db \<Rightarrow> db_msg list" where
  "visible_before sid before db = sort_key dm_turn (filter (\<lambda>m. dm_session m = sid \<and> \<not> dm_deleted m \<and>
     (case before of None \<Rightarrow> True | Some t \<Rightarrow> dm_turn m < t)) (cd_messages db))"

lemma list_messages_visible: "list_messages sid b before False True db = take (nat b) (rev (visible_before sid before db))"
  by (simp add: list_messages_def visible_before_def Let_def)

lemma visible_before_strict:
  assumes "db_ok db" shows "sorted_wrt (<) (map dm_turn (visible_before sid before db))"
proof -
  let ?R = "\<lambda>m. \<not> dm_deleted m \<and> (case before of None \<Rightarrow> True | Some t \<Rightarrow> dm_turn m < t)"
  have "distinct (map dm_turn (filter ?R (filter (\<lambda>m. dm_session m = sid) (cd_messages db))))"
    by (rule distinct_map_filter) (use db_ok_distinct_turns [OF assms, of sid] in \<open>simp add: turns_of_def\<close>)
  then have "distinct (map dm_turn (filter (\<lambda>m. dm_session m = sid \<and> ?R m) (cd_messages db)))"
    by (simp only: filter_filter)
  then have "distinct (map dm_turn (visible_before sid before db))"
    by (simp add: visible_before_def distinct_map inj_on_def)
  then show ?thesis by (simp add: strict_sorted_iff visible_before_def)
qed

lemma filter_below_nth:
  assumes "sorted_wrt (<) (map dm_turn ms)" and "k < length ms"
  shows "filter (\<lambda>m. dm_turn m < dm_turn (ms ! k)) ms = take k ms"
proof -
  have split: "ms = take k ms @ ms ! k # drop (Suc k) ms" using assms(2) by (simp add: id_take_nth_drop)
  from assms(1) have "sorted_wrt (<) (map dm_turn (take k ms @ ms ! k # drop (Suc k) ms))" by (simp flip: split)
  then have "(\<forall>m \<in> set (take k ms). dm_turn m < dm_turn (ms ! k)) \<and> (\<forall>m \<in> set (drop (Suc k) ms). dm_turn (ms ! k) < dm_turn m)"
    by (auto simp: sorted_wrt_append)
  then have "filter (\<lambda>m. dm_turn m < dm_turn (ms ! k)) (take k ms @ ms ! k # drop (Suc k) ms) = take k ms"
    by (force simp: filter_id_conv filter_empty_conv)
  then show ?thesis by (simp flip: split)
qed

lemma visible_before_below:
  assumes "\<And>u. before = Some u \<Longrightarrow> t \<le> u"
  shows "visible_before sid (Some t) db = filter (\<lambda>m. dm_turn m < t) (visible_before sid before db)"
  unfolding visible_before_def filter_sort
  using assms by (auto intro!: arg_cong [where f = "sort_key dm_turn"] filter_cong split: option.splits)

lemma visible_before_next:
  assumes "db_ok db" and "k < length (visible_before sid before db)"
  shows "visible_before sid (Some (dm_turn (visible_before sid before db ! k))) db = take k (visible_before sid before db)"
proof -
  let ?L = "visible_before sid before db"
  have "dm_turn (?L ! k) \<le> t" if "before = Some t" for t
    using nth_mem [OF assms(2)] that by (simp add: visible_before_def)
  from visible_before_below [OF this] show ?thesis using filter_below_nth [OF visible_before_strict [OF assms(1)] assms(2)] by simp
qed

text \<open>The history is paged without gaps or repetition. A page and everything before its cursor are together
  exactly what was to be listed; a page that announces more is full and its cursor leaves something to list,
  and one that does not is the last.\<close>

theorem history_pages_complete:
  assumes "db_ok db" and "load_history sid user bound before db = Inr page" and "1 \<le> bound"
  shows "visible_before sid before db =
      (case hp_next page of None \<Rightarrow> [] | Some t \<Rightarrow> visible_before sid (Some t) db) @ hp_messages page \<and>
    hp_has_more page = (case hp_next page of None \<Rightarrow> False | Some t \<Rightarrow> visible_before sid (Some t) db \<noteq> []) \<and>
    int (length (hp_messages page)) = (if hp_has_more page then bound else int (length (visible_before sid before db)))"
proof -
  let ?L = "visible_before sid before db"
  define k where "k = length ?L - nat bound"
  have more: "bound < int (length (take (nat (bound + 1)) (rev ?L))) \<longleftrightarrow> nat bound < length ?L"
    using assms(3) by auto
  note page = assms(2) [unfolded load_history_def list_messages_visible max_absorb1 [OF assms(3)], simplified, unfolded Let_def]
  show ?thesis
  proof (cases "nat bound < length ?L")
    case True
    have taken: "take (nat bound) (take (nat (bound + 1)) (rev ?L)) = rev (drop k ?L)"
    proof -
      have "min (nat bound) (nat (bound + 1)) = nat bound" using assms(3) by simp
      then show ?thesis by (simp only: take_take) (simp add: take_rev k_def)
    qed
    have "k < length ?L" using True assms(3) by (simp add: k_def)
    then have "last (rev (drop k ?L)) = ?L ! k" "drop k ?L \<noteq> []" by (simp_all add: last_rev hd_drop_conv_nth)
    moreover have "0 < k" using True by (simp add: k_def)
    ultimately show ?thesis
      using page True more taken \<open>k < length ?L\<close> visible_before_next [OF assms(1) \<open>k < length ?L\<close>] assms(3)
      by (auto simp: k_def split: option.splits)
  next
    case False
    then have "take (nat (bound + 1)) (rev ?L) = rev ?L" using assms(3) by simp
    then show ?thesis using page False more by (auto split: option.splits)
  qed
qed

lemma history_foreign: "get_by_user sid user CONV_INTERNAL db = None \<Longrightarrow> load_history sid user bound before db = Inl (HTTP 404)"
  by (simp add: load_history_def)

definition demo_row :: conv_row where
  "demo_row = \<lparr>cv_user = Some ''u'', cv_tenant = None, cv_assistant = None, cv_channel = CONV_INTERNAL, cv_status = CONV_ACTIVE,
     cv_title = None, cv_count = 3, cv_summary_version = 0, cv_first = None, cv_last_active = 0\<rparr>"

definition demo_db :: conv_db where
  "demo_db = snd (bulk_insert_messages ''s'' (map (\<lambda>i. [(''role'', PStr ''user''), (''content'', PStr (int_str i)), (''turn_index'', PInt i)]) [1..3])
     (empty_conv_db\<lparr>cd_sessions := [(''s'', demo_row)]\<rparr>))"

lemma demo_db_ok: "db_ok demo_db"
  unfolding demo_db_def by (rule bulk_insert_ok [OF prod.collapse [symmetric]]) (simp add: db_ok_def empty_conv_db_def)

text \<open>The preceding statement at a session of three messages, read in pages of two.\<close>

theorem history_pages_complete_witness:
  "(case load_history ''s'' ''u'' 2 None demo_db of
      Inr page \<Rightarrow> map dm_turn (hp_messages page) = [2, 3] \<and> hp_next page = Some 2 \<and>
        visible_before ''s'' None demo_db = visible_before ''s'' (Some 2) demo_db @ hp_messages page
    | Inl _ \<Rightarrow> False)"
proof -
  have run: "(case load_history ''s'' ''u'' 2 None demo_db of Inr page \<Rightarrow> map dm_turn (hp_messages page) = [2, 3] \<and> hp_next page = Some 2 | Inl _ \<Rightarrow> False)"
    by code_simp
  then obtain page where page: "load_history ''s'' ''u'' 2 None demo_db = Inr page" by (auto split: sum.splits)
  from history_pages_complete [OF demo_db_ok page] run page show ?thesis by simp
qed

end
