(* ===== verification/Conversation_Messages.thy ===== *)
theory Conversation_Messages
  imports Conversation_Store "HOL-Library.Multiset"
begin

section \<open>Messages of a turn\<close>

text \<open>
  How \<open>ConversationAppendStep\<close> of src/app/services/workflow/steps/conversation_append.py prepares the
  messages of a request and the reply: token estimates, meta data, and the blocks the front end shows.
  Messages, tool calls and blocks are dictionaries; a tool call's \<open>function\<close>, a log entry and \<open>meta_info\<close>
  are dictionaries where they are given. \<open>render\<close> is \<open>json.dumps\<close> with its fallback \<open>str\<close>.
\<close>

type_synonym msg = "(string, pyval) dict"

abbreviation field :: "msg \<Rightarrow> string \<Rightarrow> pyval" where
  "field d k \<equiv> py_get d k PNone"

abbreviation or_empty :: "pyval \<Rightarrow> msg" where
  "or_empty v \<equiv> as_dict (py_or v (PDict []))"

definition estimate_tokens :: "string \<Rightarrow> int" where
  "estimate_tokens text = (if text = [] then 1 else max 1 (int (length text div 4)))"

definition content_for_tokens :: "(pyval \<Rightarrow> string) \<Rightarrow> pyval \<Rightarrow> string" where
  "content_for_tokens render content = (case content of PStr s \<Rightarrow> s | PNone \<Rightarrow> [] | v \<Rightarrow> render v)"

definition meta_keys :: "string list" where
  "meta_keys = [''tool_calls'', ''tool_call_id'', ''function_call'', ''attachments'', ''image_url'', ''audio'', ''modalities'',
     ''reasoning_content'']"

definition build_meta_info :: "msg \<Rightarrow> pyval \<Rightarrow> pyval" where
  "build_meta_info message content =
     (let meta = py_or (field message ''meta_info'') (PDict []);
          extras = map (\<lambda>k. (k, field message k)) (filter (\<lambda>k. field message k \<noteq> PNone) meta_keys) @
            (if \<not> is_str content \<and> content \<noteq> PNone then [(''content'', content)] else []);
          meta' = (if extras \<noteq> [] then merge_dict meta extras else meta)
      in py_or meta' PNone)"

subsection \<open>Blocks\<close>

definition text_of :: "pyval \<Rightarrow> string option" where
  "text_of v = (case v of PStr s \<Rightarrow> Some s | _ \<Rightarrow> None)"

definition nonempty_text :: "pyval \<Rightarrow> string option" where
  "nonempty_text v = (case v of PStr s \<Rightarrow> if s = [] then None else Some s | _ \<Rightarrow> None)"

definition call_block :: "(pyval \<Rightarrow> string) \<Rightarrow> msg \<Rightarrow> msg" where
  "call_block render call =
     (let function = or_empty (field call ''function'');
          name = py_or (field function ''name'') (field call ''name'');
          args = py_or (field function ''arguments'') (field call ''arguments'');
          args_str = (case args of PNone \<Rightarrow> PNone | PStr s \<Rightarrow> PStr s | v \<Rightarrow> PStr (render v))
      in [(''type'', PStr ''tool_call''), (''toolName'', name), (''toolArgs'', args_str)] @
         (case nonempty_text (field call ''id'') of None \<Rightarrow> [] | Some i \<Rightarrow> [(''callId'', PStr i)]))"

definition dicts_in :: "pyval \<Rightarrow> msg list" where
  "dicts_in v = (case v of PList xs \<Rightarrow> List.map_filter (\<lambda>x. case x of PDict d \<Rightarrow> Some d | _ \<Rightarrow> None) xs | _ \<Rightarrow> [])"

definition build_blocks :: "(pyval \<Rightarrow> string) \<Rightarrow> string option \<Rightarrow> string option \<Rightarrow> pyval \<Rightarrow> msg list" where
  "build_blocks render content_text reasoning_text tool_calls =
     (case reasoning_text of Some t \<Rightarrow> if str_strip t \<noteq> [] then [[(''type'', PStr ''thought''), (''content'', PStr (str_strip t))]] else []
      | None \<Rightarrow> []) @
     (case content_text of Some t \<Rightarrow> if str_strip t \<noteq> [] then [[(''type'', PStr ''text''), (''content'', PStr t)]] else [] | None \<Rightarrow> []) @
     map (call_block render) (dicts_in tool_calls)"

definition result_block :: "msg \<Rightarrow> msg option" where
  "result_block call =
     (let success = field call ''success'';
          out = field call ''output'';
          result = (if out = PNone \<and> success = PBool False then field call ''error'' else out)
      in if result = PNone then None
         else Some ([(''type'', PStr ''tool_result''), (''result'', result),
             (''status'', PStr (if success = PBool False then ''error'' else ''success''))] @
           (case nonempty_text (field call ''tool_call_id'') of None \<Rightarrow> [] | Some i \<Rightarrow> [(''callId'', PStr i)]) @
           (case nonempty_text (field call ''name'') of None \<Rightarrow> [] | Some n \<Rightarrow> [(''toolName'', PStr n)]) @
           (case field call ''ui_blocks'' of PList xs \<Rightarrow> if xs = [] then [] else [(''ui'', PList xs)] | _ \<Rightarrow> []) @
           (case field call ''debug'' of PDict d \<Rightarrow> if d = [] then [] else [(''debug'', PDict d)] | _ \<Rightarrow> [])))"

definition build_tool_result_blocks :: "pyval \<Rightarrow> msg list" where
  "build_tool_result_blocks calls_log = List.map_filter result_block (dicts_in calls_log)"

definition call_id :: "msg \<Rightarrow> pyval" where
  "call_id b = field b ''callId''"

definition is_call :: "msg \<Rightarrow> bool" where
  "is_call b \<longleftrightarrow> field b ''type'' = PStr ''tool_call'' \<and> truthy (call_id b)"

definition call_ids :: "msg list \<Rightarrow> pyval list" where
  "call_ids base = map call_id (filter is_call base)"

definition is_matched :: "msg list \<Rightarrow> msg \<Rightarrow> bool" where
  "is_matched base rb \<longleftrightarrow> truthy (call_id rb) \<and> call_id rb \<in> set (call_ids base)"

text \<open>The loop that puts each result behind its call; the dictionary of results loses what was placed.\<close>

fun place_results :: "msg list \<Rightarrow> (pyval, msg) dict \<Rightarrow> msg list" where
  "place_results [] results = []"
| "place_results (b # base) results =
     b # (if is_call b then
            case dget results (call_id b) of
              Some rb \<Rightarrow> rb # place_results base (AList.delete (call_id b) results)
            | None \<Rightarrow> place_results base results
          else place_results base results)"

definition interleave_blocks :: "msg list \<Rightarrow> msg list \<Rightarrow> msg list" where
  "interleave_blocks base results =
     (if results = [] then base
      else
        let matched = dict_of (map (\<lambda>rb. (call_id rb, rb)) (filter (is_matched base) results));
            unmatched = filter (\<lambda>rb. \<not> is_matched base rb) results
        in if matched = [] then base @ results else place_results base matched @ unmatched)"

text \<open>\<open>_append_tool_result_blocks\<close>, which updates the message.\<close>

definition append_tool_result_blocks :: "(pyval \<Rightarrow> string) \<Rightarrow> pyval \<Rightarrow> msg \<Rightarrow> msg" where
  "append_tool_result_blocks render calls_log message =
     (let results = build_tool_result_blocks calls_log
      in if results = [] then message
         else
           let meta = (case field message ''meta_info'' of PDict d \<Rightarrow> d | _ \<Rightarrow> []);
               base = (case field meta ''blocks'' of
                   PList xs \<Rightarrow> List.map_filter (\<lambda>x. case x of PDict d \<Rightarrow> Some d | _ \<Rightarrow> None) xs
                 | _ \<Rightarrow> build_blocks render (text_of (field message ''content'')) None (field message ''tool_calls''))
           in dput ''meta_info'' (PDict (dput ''blocks'' (PList (map PDict (interleave_blocks base results))) meta)) message)"

definition extract_assistant_message :: "pyval \<Rightarrow> msg option" where
  "extract_assistant_message response =
     (case field (as_dict response) ''choices'' of
        PList (PDict first # _) \<Rightarrow> (case field first ''message'' of PDict m \<Rightarrow> if m = [] then None else Some m | _ \<Rightarrow> None)
      | _ \<Rightarrow> None)"

subsection \<open>Preparing a turn\<close>

definition normalize_message :: "(pyval \<Rightarrow> string) \<Rightarrow> string option \<Rightarrow> msg \<Rightarrow> msg" where
  "normalize_message render persona message =
     (let content = field message ''content'';
          estimate = field message ''token_estimate'';
          meta = build_meta_info message content;
          blocks = build_blocks render (text_of content) (text_of (field message ''reasoning_content'')) (field message ''tool_calls'');
          meta' = (if blocks \<noteq> [] \<and> \<not> truthy (field (or_empty meta) ''blocks'')
                   then PDict (dput ''blocks'' (PList (map PDict blocks)) (or_empty meta)) else meta);
          normalized = dput ''meta_info'' meta'
            (dput ''token_estimate'' (if estimate \<noteq> PNone then estimate else PInt (estimate_tokens (content_for_tokens render content)))
               (dput ''content'' (if is_str content then content else PNone) message))
      in if str_truthy persona \<and> field message ''role'' = PStr ''assistant''
         then dput ''used_persona_id'' (PStr (the persona)) normalized else normalized)"

definition redis_copy :: "(pyval \<Rightarrow> string) \<Rightarrow> msg \<Rightarrow> msg \<Rightarrow> msg" where
  "redis_copy render message normalized = dput ''content'' (PStr (content_for_tokens render (field message ''content''))) normalized"

definition prepare_messages :: "(pyval \<Rightarrow> string) \<Rightarrow> msg list \<Rightarrow> msg option \<Rightarrow> string option \<Rightarrow> msg list \<times> msg list" where
  "prepare_messages render user_messages assistant persona =
     (let raw = user_messages @ (case assistant of None \<Rightarrow> [] | Some m \<Rightarrow> [m])
      in (map (normalize_message render persona) raw, map (\<lambda>m. redis_copy render m (normalize_message render persona m)) raw))"

definition resolve_used_persona_id :: "pyval \<Rightarrow> pyval \<Rightarrow> pyval" where
  "resolve_used_persona_id assistant candidates =
     (if truthy assistant then assistant
      else case candidates of
        PList (PDict first # _) \<Rightarrow> if truthy (field first ''assistant_id'') then field first ''assistant_id'' else PNone
      | _ \<Rightarrow> PNone)"

fun extract_first_user_message :: "(pyval \<Rightarrow> string) \<Rightarrow> msg list \<Rightarrow> string option" where
  "extract_first_user_message to_text [] = None"
| "extract_first_user_message to_text (m # ms) =
     (if field m ''role'' \<noteq> PStr ''user'' \<or> field m ''content'' = PNone then extract_first_user_message to_text ms
      else let text = str_strip (case field m ''content'' of PStr s \<Rightarrow> s | v \<Rightarrow> to_text v)
           in if text \<noteq> [] then Some text else extract_first_user_message to_text ms)"

subsection \<open>Interleaving loses nothing\<close>

lemma delete_mset: "dict_wf d \<Longrightarrow> dget d k = Some v \<Longrightarrow> mset (map snd d) = add_mset v (mset (map snd (AList.delete k d)))"
proof (induction d)
  case (Cons e d)
  then show ?case
  proof (cases "fst e = k")
    case True
    with Cons.prems have "k \<notin> fst ` set d" "snd e = v" by (auto simp: dict_wf_def)
    with True show ?thesis by (cases e) simp
  next
    case False
    with Cons show ?thesis by (cases e) (simp add: dict_wf_def)
  qed
qed simp

lemma delete_wf: "dict_wf d \<Longrightarrow> dict_wf (AList.delete k d)"
  by (simp add: dict_wf_def distinct_delete)

lemma place_results_mset:
  "dict_wf d \<Longrightarrow> set (dkeys d) \<subseteq> set (call_ids base) \<Longrightarrow> mset (place_results base d) = mset base + mset (map snd d)"
proof (induction base arbitrary: d)
  case Nil
  then show ?case by (simp add: call_ids_def)
next
  case (Cons b base)
  show ?case
  proof (cases "is_call b")
    case call: True
    show ?thesis
    proof (cases "dget d (call_id b)")
      case None
      then have "call_id b \<notin> set (dkeys d)" by (simp add: dget_None_iff)
      with Cons.prems call have "set (dkeys d) \<subseteq> set (call_ids base)" by (simp add: call_ids_def subset_insert)
      with Cons call None show ?thesis by simp
    next
      case (Some rb)
      have "set (dkeys (AList.delete (call_id b) d)) \<subseteq> set (call_ids base)"
        using Cons.prems(2) call by (auto simp: call_ids_def delete_keys)
      with Cons.IH [OF delete_wf [OF Cons.prems(1)]] have
        "mset (place_results base (AList.delete (call_id b) d)) = mset base + mset (map snd (AList.delete (call_id b) d))" by blast
      with call Some delete_mset [OF Cons.prems(1) Some] show ?thesis by simp
    qed
  next
    case False
    with Cons show ?thesis by (simp add: call_ids_def)
  qed
qed

lemma place_results_adjacent:
  "dict_wf d \<Longrightarrow> dget d k = Some rb \<Longrightarrow> k \<in> set (call_ids base) \<Longrightarrow>
   \<exists>xs b ys. place_results base d = xs @ b # rb # ys \<and> is_call b \<and> call_id b = k"
proof (induction base arbitrary: d)
  case Nil
  then show ?case by (simp add: call_ids_def)
next
  case (Cons c base)
  show ?case
  proof (cases "is_call c \<and> call_id c = k")
    case True
    with Cons.prems have "place_results (c # base) d = [] @ c # rb # place_results base (AList.delete k d)" by simp
    with True show ?thesis by blast
  next
    case False
    then have k: "k \<in> set (call_ids base)" using Cons.prems(3) by (cases "is_call c") (auto simp: call_ids_def)
    have "\<exists>zs d'. place_results (c # base) d = zs @ place_results base d' \<and> dict_wf d' \<and> dget d' k = Some rb"
    proof (cases "is_call c \<and> dget d (call_id c) \<noteq> None")
      case True
      then obtain rc where "dget d (call_id c) = Some rc" by blast
      with True False Cons.prems have "place_results (c # base) d = [c, rc] @ place_results base (AList.delete (call_id c) d) \<and>
        dict_wf (AList.delete (call_id c) d) \<and> dget (AList.delete (call_id c) d) k = Some rb"
        by (simp add: delete_wf delete_conv')
      then show ?thesis by blast
    next
      case no: False
      then have "place_results (c # base) d = [c] @ place_results base d" by auto
      with Cons.prems show ?thesis by blast
    qed
    with Cons.IH [OF _ _ k] show ?thesis by (metis append_assoc)
  qed
qed

lemma place_results_subseq: "subseq base (place_results base d)"
  by (induction base arbitrary: d) (auto split: option.splits intro: subseq_Cons')

text \<open>Interleaving shows every block exactly once, keeps the order of the reply, and puts each result
  that answers a call directly behind that call, provided no two results answer the same call.\<close>

theorem interleave_blocks_complete:
  assumes "distinct (map call_id (filter (is_matched base) results))"
  shows "mset (interleave_blocks base results) = mset base + mset results \<and> subseq base (interleave_blocks base results) \<and>
    (\<forall>rb. rb \<in> set results \<and> is_matched base rb \<longrightarrow>
      (\<exists>xs b ys. interleave_blocks base results = xs @ b # rb # ys \<and> is_call b \<and> call_id b = call_id rb))"
proof -
  let ?kvs = "map (\<lambda>rb. (call_id rb, rb)) (filter (is_matched base) results)"
  have d: "dict_of ?kvs = ?kvs" by (rule dict_of_distinct) (use assms in \<open>simp add: o_def\<close>)
  have wf: "dict_wf ?kvs" using assms by (simp add: dict_wf_def o_def)
  have keys: "set (dkeys ?kvs) \<subseteq> set (call_ids base)" by (auto simp: is_matched_def)
  have vals: "map snd ?kvs = filter (is_matched base) results" by (simp add: o_def)
  show ?thesis
  proof (cases "?kvs = []")
    case True
    then have "\<forall>rb. rb \<in> set results \<longrightarrow> \<not> is_matched base rb" by (simp add: filter_empty_conv)
    with True show ?thesis by (auto simp: interleave_blocks_def dict_of_def)
  next
    case False
    then have out: "interleave_blocks base results = place_results base ?kvs @ filter (\<lambda>rb. \<not> is_matched base rb) results"
      by (auto simp: interleave_blocks_def Let_def d)
    have "mset (interleave_blocks base results) = mset base + mset results"
      unfolding out by (simp add: place_results_mset [OF wf keys] vals del: map_map mset_map)
    moreover have "subseq base (interleave_blocks base results)"
      unfolding out using list_emb_append_mono [OF place_results_subseq list_emb_Nil] by simp
    moreover have "\<exists>xs b ys. interleave_blocks base results = xs @ b # rb # ys \<and> is_call b \<and> call_id b = call_id rb"
      if rb: "rb \<in> set results" "is_matched base rb" for rb
    proof -
      have "dget ?kvs (call_id rb) = Some rb" by (rule dict_wf_get [OF wf]) (use rb in auto)
      with place_results_adjacent [OF wf this, of base] rb(2) show ?thesis unfolding out by (fastforce simp: is_matched_def)
    qed
    ultimately show ?thesis by blast
  qed
qed

definition demo_call :: "string \<Rightarrow> msg" where
  "demo_call i = [(''type'', PStr ''tool_call''), (''callId'', PStr i)]"

definition demo_result :: "string \<Rightarrow> string \<Rightarrow> msg" where
  "demo_result i r = [(''type'', PStr ''tool_result''), (''result'', PStr r), (''callId'', PStr i)]"

text \<open>The preceding statement at a reply with two calls whose results come in the other order.\<close>

theorem interleave_blocks_complete_witness:
  "interleave_blocks [demo_call ''a'', demo_call ''b''] [demo_result ''b'' ''2'', demo_result ''a'' ''1''] =
     [demo_call ''a'', demo_result ''a'' ''1'', demo_call ''b'', demo_result ''b'' ''2''] \<and>
   mset (interleave_blocks [demo_call ''a'', demo_call ''b''] [demo_result ''b'' ''2'', demo_result ''a'' ''1'']) =
     mset [demo_call ''a'', demo_call ''b''] + mset [demo_result ''b'' ''2'', demo_result ''a'' ''1'']"
proof -
  have "distinct (map call_id (filter (is_matched [demo_call ''a'', demo_call ''b'']) [demo_result ''b'' ''2'', demo_result ''a'' ''1'']))"
    by code_simp
  from interleave_blocks_complete [OF this] have
    "mset (interleave_blocks [demo_call ''a'', demo_call ''b''] [demo_result ''b'' ''2'', demo_result ''a'' ''1'']) =
     mset [demo_call ''a'', demo_call ''b''] + mset [demo_result ''b'' ''2'', demo_result ''a'' ''1'']" by blast
  moreover have "interleave_blocks [demo_call ''a'', demo_call ''b''] [demo_result ''b'' ''2'', demo_result ''a'' ''1''] =
     [demo_call ''a'', demo_result ''a'' ''1'', demo_call ''b'', demo_result ''b'' ''2'']" by code_simp
  ultimately show ?thesis by blast
qed

text \<open>Two results for one call: the first is dropped.\<close>

lemma second_result_replaces:
  "interleave_blocks [demo_call ''a''] [demo_result ''a'' ''1'', demo_result ''a'' ''2''] = [demo_call ''a'', demo_result ''a'' ''2'']"
  by code_simp

end
