(* ===== verification/Conversation_Append.thy ===== *)
theory Conversation_Append
  imports Conversation_Messages Base_Step
begin

section \<open>Writing and loading a conversation\<close>

text \<open>
  \<open>ConversationAppendStep\<close> (conversation_append.py) and \<open>ConversationLoadStep\<close> (conversation_load.py) of
  src/app/services/workflow/steps/. The world is the window in Redis, None when there is no connection,
  and the database. What can go wrong is in \<open>append_env\<close>: the lock is refused or raises, Redis breaks off
  during an append, the alignment of turns raises, the database refuses a statement, an identifier is no
  UUID. \<open>record_trial\<close>, whose failures are swallowed, is outside the model.
\<close>

record conv_world =
  vw_redis :: "conv_redis option"
  vw_db :: conv_db

datatype lock_outcome = LockAcquired | LockRefused | LockRaised

record append_env =
  ae_config :: conv_config
  ae_now :: rat
  ae_lock :: lock_outcome
  ae_sync :: bool
  ae_healthy :: "nat option"
  ae_db_session :: bool
  ae_db_insert :: bool
  ae_uuid :: "string \<Rightarrow> bool"
  ae_render :: "pyval \<Rightarrow> string"
  ae_task :: string
  ae_job :: string

definition healthy_env :: append_env where
  "healthy_env = \<lparr>ae_config = default_conv_config, ae_now = 0, ae_lock = LockAcquired, ae_sync = True, ae_healthy = None,
     ae_db_session = True, ae_db_insert = True, ae_uuid = (\<lambda>_. True), ae_render = (\<lambda>_. []), ae_task = ''t'', ae_job = ''j''\<rparr>"

subsection \<open>The arguments of the script\<close>

text \<open>The client refuses an argument that is neither text nor number, such as a missing role.\<close>

definition conv_args :: "msg \<Rightarrow> conv_msg option" where
  "conv_args m =
     (case (field m ''role'', py_get m ''content'' (PStr []), py_get m ''token_estimate'' (PInt 0), py_or (field m ''name'') (PStr [])) of
        (PStr role, PStr content, PInt tokens, PStr name) \<Rightarrow>
          Some \<lparr>cm_role = role, cm_content = content, cm_tokens = tokens, cm_truncated = truthy (field m ''is_truncated''),
            cm_name = (if name = [] then None else Some name), cm_meta_info = field m ''meta_info''\<rparr>
      | _ \<Rightarrow> None)"

fun good_prefix :: "msg list \<Rightarrow> conv_msg list \<times> bool" where
  "good_prefix [] = ([], True)"
| "good_prefix (m # ms) =
     (case conv_args m of
        None \<Rightarrow> ([], False)
      | Some c \<Rightarrow> (case good_prefix ms of (cs, all_good) \<Rightarrow> (c # cs, all_good)))"

text \<open>\<open>append_messages\<close> on dictionaries: a message the client refuses ends the loop where it is reached.\<close>

definition append_dicts :: "append_env \<Rightarrow> conv_channel \<Rightarrow> msg list \<Rightarrow> conv_redis \<Rightarrow> (exn + append_result) \<times> conv_redis" where
  "append_dicts e ch ms r =
     (case good_prefix ms of
        (cs, True) \<Rightarrow> append_messages (ae_config e) (ae_now e) (ae_task e) (ae_job e) (ae_healthy e) ch cs r
      | (cs, False) \<Rightarrow>
          (let start = (if ae_healthy e = Some 0 then r else init_meta (ae_now e) ch r)
           in (Inl (OtherError ''DataError'' []),
               if ae_healthy e = Some 0 then r
               else snd (append_loop (max_turns (ae_config e) ch) (max_turns_overflow (ae_config e) ch) (cc_flush_tokens (ae_config e))
                      (map_option (\<lambda>n. n - 1) (ae_healthy e)) cs ([], False, 0) start))))"

subsection \<open>The phases of the step\<close>

text \<open>Under the lock: alignment and append. None says that the lock was refused and the step returns.\<close>

record redis_phase =
  rp_available :: bool
  rp_result :: append_result

definition redis_append :: "append_env \<Rightarrow> string \<Rightarrow> conv_channel \<Rightarrow> msg list \<Rightarrow> conv_world \<Rightarrow> redis_phase option \<times> conv_world" where
  "redis_append e sid ch redis_messages w =
     (case vw_redis w of
        None \<Rightarrow> (Some \<lparr>rp_available = False, rp_result = no_append\<rparr>, w)
      | Some r \<Rightarrow>
          (case ae_lock e of
             LockRaised \<Rightarrow> (Some \<lparr>rp_available = False, rp_result = no_append\<rparr>, w)
           | LockRefused \<Rightarrow> (None, w)
           | LockAcquired \<Rightarrow>
               let r1 = (if ae_db_session e \<and> ae_uuid e sid \<and> ae_sync e then snd (sync_last_turn (turns_of sid (vw_db w)) r) else r)
               in (case append_dicts e ch redis_messages r1 of
                     (Inr a, r2) \<Rightarrow> (Some \<lparr>rp_available = True, rp_result = a\<rparr>, w\<lparr>vw_redis := Some r2\<rparr>)
                   | (Inl _, r2) \<Rightarrow> (Some \<lparr>rp_available = False, rp_result = no_append\<rparr>, w\<lparr>vw_redis := Some r2\<rparr>))))"

definition with_turns :: "int list \<Rightarrow> msg list \<Rightarrow> msg list" where
  "with_turns turns ms = map (\<lambda>(m, t). dput ''turn_index'' (PInt t) m) (zip ms turns)"

definition opt_uuid :: "append_env \<Rightarrow> string option \<Rightarrow> bool" where
  "opt_uuid e v = (str_truthy v \<longrightarrow> ae_uuid e (the v))"

text \<open>The database: the session row and the rows of the messages. A refused insertion takes the uncommitted
  reservation with it.\<close>

definition persist :: "append_env \<Rightarrow> string \<Rightarrow> string option \<Rightarrow> string option \<Rightarrow> string option \<Rightarrow> conv_channel \<Rightarrow> redis_phase \<Rightarrow> msg list \<Rightarrow>
    conv_db \<Rightarrow> conv_db" where
  "persist e sid user tenant assistant ch rp db_messages db =
     (if \<not> ae_db_session e \<or> \<not> ae_uuid e sid \<or> \<not> opt_uuid e user \<or> \<not> opt_uuid e tenant \<or> \<not> opt_uuid e assistant then db
      else
        let given = (\<lambda>v. if str_truthy v then v else None);
            insert_into = (\<lambda>ms start. if ae_db_insert e then
                (case bulk_insert_messages sid ms start of (Inr _, db') \<Rightarrow> Some db' | (Inl _, _) \<Rightarrow> None) else None)
        in if rp_available rp then
             let db1 = touch_session (ae_now e) sid (given user) (given tenant) (given assistant) ch (ar_last_turn (rp_result rp)) db
             in (case insert_into (with_turns (ar_turns (rp_result rp)) db_messages) db1 of None \<Rightarrow> db1 | Some db2 \<Rightarrow> db2)
           else
             case reserve_turn_indexes (ae_now e) sid (given user) (given tenant) (given assistant) ch (int (length db_messages)) db of
               (turns, db1) \<Rightarrow> (case insert_into (with_turns turns db_messages) db1 of None \<Rightarrow> db | Some db2 \<Rightarrow> db2))"

text \<open>After a regeneration the old reply is marked in both stores.\<close>

definition soft_delete_old :: "append_env \<Rightarrow> string \<Rightarrow> int \<Rightarrow> conv_world \<Rightarrow> conv_world" where
  "soft_delete_old e sid turn w =
     w\<lparr>vw_redis := map_option (\<lambda>r. snd (delete_message (ae_now e) turn r)) (vw_redis w),
       vw_db := (if ae_db_session e \<and> ae_uuid e sid then snd (soft_delete_by_turn_index sid turn (vw_db w)) else vw_db w)\<rparr>"

definition schedule_naming :: "append_env \<Rightarrow> string option \<Rightarrow> msg list \<Rightarrow> int \<Rightarrow> int option \<Rightarrow> conv_redis \<Rightarrow> conv_redis" where
  "schedule_naming e user ms appended last_turn r =
     (if \<not> str_truthy user \<or> last_turn = None \<or> last_turn = Some 0 \<or> last_turn \<noteq> Some appended then r
      else case extract_first_user_message (ae_render e) ms of
        None \<Rightarrow> r
      | Some text \<Rightarrow>
          if mt_topic_named (cr_meta r) then r
          else let r1 = upd_meta (\<lambda>mt. mt\<lparr>mt_topic_named := True\<rparr>) r
               in r1\<lparr>cr_jobs := cr_jobs r1 @ [NameTopic (the user) (take 1000 text)]\<rparr>)"

subsection \<open>The append step\<close>

definition str_of :: "pyval \<Rightarrow> string option" where
  "str_of v = (case v of PStr s \<Rightarrow> if s = [] then None else Some s | _ \<Rightarrow> None)"

definition skipped :: "string \<Rightarrow> step_result" where
  "skipped m = (new_step_result SUCCESS)\<lparr>sr_message := Some m\<rparr>"

definition reply_of :: "append_env \<Rightarrow> workflow_context \<Rightarrow> msg option" where
  "reply_of e c =
     (case extract_assistant_message (py_or (ctx_get c ''response_transform'' ''response'' PNone) (PDict [])) of
        None \<Rightarrow> None
      | Some m \<Rightarrow>
          let m1 = append_tool_result_blocks (ae_render e) (ctx_get c ''execution'' ''tool_calls'' PNone) m;
              suggestion = ctx_get c ''spec_agent_detector'' ''suggestion'' PNone
          in Some (if truthy suggestion
               then dput ''meta_info'' (PDict (dput ''spec_agent_suggestion'' suggestion (or_empty (field m1 ''meta_info'')))) m1 else m1))"

definition request_of :: "workflow_context \<Rightarrow> msg" where
  "request_of c = or_empty (ctx_get c ''validation'' ''validated'' PNone)"

definition append_session :: "workflow_context \<Rightarrow> string option" where
  "append_session c = str_of (py_or (ctx_get c ''conversation'' ''session_id'' PNone) (field (request_of c) ''session_id''))"

definition is_regenerate :: "workflow_context \<Rightarrow> bool" where
  "is_regenerate c = truthy (ctx_get c ''conversation'' ''regenerate'' (PBool False))"

definition user_messages_of :: "workflow_context \<Rightarrow> msg list" where
  "user_messages_of c = (if is_regenerate c then [] else dicts_in (field (request_of c) ''messages''))"

definition prepared_turn :: "append_env \<Rightarrow> workflow_context \<Rightarrow> msg list \<times> msg list" where
  "prepared_turn e c = prepare_messages (ae_render e) (user_messages_of c) (reply_of e c)
     (str_of (resolve_used_persona_id (ctx_get c ''assistant'' ''id'' PNone) (ctx_get c ''assistant'' ''candidates'' PNone)))"

definition append_assistant :: "workflow_context \<Rightarrow> string option" where
  "append_assistant c = str_of (py_or (field (request_of c) ''assistant_id'') (ctx_get c ''assistant'' ''id'' PNone))"

text \<open>The reply is the very dictionary inside the response: the blocks added to it are part of what the client gets.\<close>

definition with_reply :: "msg option \<Rightarrow> msg \<Rightarrow> msg" where
  "with_reply reply response =
     (case (reply, field response ''choices'') of
        (Some m, PList (PDict first # rest)) \<Rightarrow>
          dput ''choices'' (PList (PDict (dput ''message'' (PDict m) first) # rest)) response
      | _ \<Rightarrow> response)"

definition response_of :: "append_env \<Rightarrow> workflow_context \<Rightarrow> msg" where
  "response_of e c = with_reply (reply_of e c) (or_empty (ctx_get c ''response_transform'' ''response'' PNone))"

definition marked_context :: "append_env \<Rightarrow> workflow_context \<Rightarrow> workflow_context" where
  "marked_context e c = (case reply_of e c of None \<Rightarrow> c | Some _ \<Rightarrow> ctx_set ''response_transform'' ''response'' (PDict (response_of e c)) c)"

text \<open>What follows the append under the lock.\<close>

definition finish_append :: "append_env \<Rightarrow> workflow_context \<Rightarrow> string \<Rightarrow> msg list \<Rightarrow> redis_phase \<Rightarrow> conv_world \<Rightarrow> conv_world" where
  "finish_append e c sid db_messages rp w1 =
     (let w2 = w1\<lparr>vw_db := persist e sid (ctx_user_id c) (ctx_tenant_id c) (append_assistant c) CONV_INTERNAL rp db_messages (vw_db w1)\<rparr>;
          w3 = (case ctx_get c ''conversation'' ''regenerate_turn_index'' PNone of
              PInt turn \<Rightarrow> if is_regenerate c then soft_delete_old e sid turn w2 else w2
            | _ \<Rightarrow> w2)
      in w3\<lparr>vw_redis := map_option (schedule_naming e (ctx_user_id c) (user_messages_of c) (int (length db_messages))
              (ar_last_turn (rp_result rp))) (vw_redis w3)\<rparr>)"

definition conversation_append :: "append_env \<Rightarrow> workflow_context \<Rightarrow> conv_world \<Rightarrow> step_result \<times> workflow_context \<times> conv_world" where
  "conversation_append e c w =
     (if ctx_capability c \<noteq> Some ''chat'' then (skipped ''skip_non_chat'', c, w)
      else if is_external c then (skipped ''skip_external'', c, w)
      else if truthy (ctx_get c ''conversation'' ''skip'' (PBool False)) then (skipped ''skip_conversation'', c, w)
      else if truthy (ctx_get c ''upstream_call'' ''stream'' PNone) then (skipped ''skip_streaming'', c, w)
      else
        case append_session c of
          None \<Rightarrow> (skipped ''no_session_id'', c, w)
        | Some sid \<Rightarrow>
            (case prepared_turn e c of
               (db_messages, redis_messages) \<Rightarrow>
                 (case redis_append e sid CONV_INTERNAL redis_messages w of
                    (None, w1) \<Rightarrow> (skipped ''lock_acquisition_failed'', marked_context e c, w1)
                  | (Some rp, w1) \<Rightarrow>
                      let response = response_of e c;
                          response' = (if dget response ''session_id'' = None then dput ''session_id'' (PStr sid) response else response)
                      in ((new_step_result SUCCESS)\<lparr>sr_data := Some [(''session_id'', PStr sid), (''appended'', PInt (int (length db_messages))),
                            (''should_flush'', PBool (ar_should_flush (rp_result rp)))]\<rparr>,
                          ctx_set ''response_transform'' ''response'' (PDict response') c, finish_append e c sid db_messages rp w1))))"

subsection \<open>The load step\<close>

definition window_dict :: "window_msg \<Rightarrow> msg" where
  "window_dict m = [(''role'', PStr (wm_role m)), (''content'', PStr (wm_content m)), (''token_estimate'', PInt (wm_tokens m)),
     (''is_truncated'', PBool (wm_truncated m)), (''name'', opt_str (wm_name m)), (''meta_info'', wm_meta_info m),
     (''turn_index'', PInt (wm_turn m))] @ (if wm_deleted m then [(''is_deleted'', PBool True)] else [])"

definition short_dict :: "window_msg \<Rightarrow> msg" where
  "short_dict m = [(''role'', PStr (wm_role m)), (''content'', PStr (wm_content m))] @
     (if str_truthy (wm_name m) then [(''name'', opt_str (wm_name m))] else [])"

definition regenerate_target :: "bool \<Rightarrow> window_msg list \<Rightarrow> int option" where
  "regenerate_target regenerate ms = (if regenerate then map_option wm_turn (last_assistant ms) else None)"

definition summary_dict :: "conv_summary \<Rightarrow> msg" where
  "summary_dict su = [(''version'', PInt (su_version su)), (''summary_text'', PStr (su_text su)), (''covered_from_turn'', PInt (su_from su)),
     (''covered_to_turn'', PInt (su_to su)), (''token_estimate'', PInt (su_tokens su)), (''generated_at'', PFloat (su_generated su))]"

definition merged_messages :: "bool \<Rightarrow> conv_summary option \<Rightarrow> window_msg list \<Rightarrow> msg list \<Rightarrow> msg list" where
  "merged_messages regenerate summary window request =
     (case summary of Some su \<Rightarrow> if su_text su = [] then [] else [[(''role'', PStr ''system''), (''content'', PStr (''[SUMMARY]'' @ [CHR 0x0A] @ su_text su))]]
      | None \<Rightarrow> []) @ map short_dict window @
     (if regenerate then filter (\<lambda>m. field m ''role'' = PStr ''system'') request else request)"

text \<open>The meta data as they are decoded: only digits become a number, so a negative count stays text.\<close>

definition meta_dict :: "conv_meta \<Rightarrow> msg" where
  "meta_dict mt =
     (let num = (\<lambda>k v. case v of None \<Rightarrow> [] | Some n \<Rightarrow> [(k, if n < 0 then PStr (int_str n) else PInt n)]);
          flag = (\<lambda>b. if b then 1 else 0 :: int);
          txt = (\<lambda>k v. case v of None \<Rightarrow> [] | Some x \<Rightarrow> [(k, PStr x)]);
          time = (\<lambda>k v. case v of None \<Rightarrow> [] | Some x \<Rightarrow> [(k, PFloat x)])
      in num ''last_turn'' (mt_last_turn mt) @ num ''total_tokens'' (mt_total_tokens mt) @ num ''last_summary_version'' (mt_summary_version mt) @
         num ''summarizing'' (map_option flag (mt_summarizing mt)) @ txt ''summary_job_id'' (mt_summary_job mt) @
         txt ''channel'' (map_option (\<lambda>ch. if ch = CONV_INTERNAL then ''internal'' else ''external'') (mt_channel mt)) @
         time ''last_active_at'' (mt_last_active mt) @ time ''first_message_at'' (mt_first_message mt) @
         num ''topic_naming_scheduled'' (if mt_topic_named mt then Some 1 else None))"

text \<open>\<open>fresh\<close> is the identifier of a new session, \<open>session_assistant\<close> the assistant of the session's row.\<close>

definition conversation_load :: "string \<Rightarrow> string \<Rightarrow> append_env \<Rightarrow> workflow_context \<Rightarrow> conv_world \<Rightarrow> step_result \<times> workflow_context" where
  "conversation_load now fresh e c w =
     (if is_external c then (skipped ''skip_external'', c)
      else if truthy (ctx_get c ''conversation'' ''skip'' (PBool False)) then (skipped ''skip_conversation'', c)
      else
        let req = request_of c;
            sid = py_or (field req ''session_id'') (py_or (ctx_get c ''conversation'' ''session_id'' PNone) (PStr fresh));
            req1 = dput ''session_id'' sid req;
            c1 = ctx_set ''conversation'' ''session_id'' sid (ctx_set ''validation'' ''validated'' (PDict req1) c);
            session_assistant = (case str_of sid of
                Some i \<Rightarrow> if ae_db_session e \<and> ae_uuid e i
                          then (case dget (cd_sessions (vw_db w)) i of Some row \<Rightarrow> cv_assistant row | None \<Rightarrow> None) else None
              | None \<Rightarrow> None);
            (req2, c2) = (case session_assistant of
                None \<Rightarrow> (req1, c1)
              | Some a \<Rightarrow>
                  let c1' = ctx_set ''conversation'' ''session_assistant_id'' (PStr a) c1
                  in if truthy (field req1 ''assistant_id'') then (req1, c1')
                     else let r = dput ''assistant_id'' (PStr a) req1 in (r, ctx_set ''validation'' ''validated'' (PDict r) c1'))
        in case vw_redis w of
             None \<Rightarrow> ((new_step_result SUCCESS)\<lparr>sr_data := Some [(''session_id'', sid)]\<rparr>, c2)
           | Some r \<Rightarrow>
               let raw = sort_key wm_turn (fst (load_window r));
                   regenerate = truthy (field req2 ''regenerate'');
                   target = regenerate_target regenerate raw;
                   raw' = (case target of None \<Rightarrow> raw | Some t \<Rightarrow> filter (\<lambda>m. wm_turn m \<noteq> t) raw);
                   summary = cr_summary r;
                   has_summary = (case summary of Some su \<Rightarrow> su_text su \<noteq> [] | None \<Rightarrow> False);
                   c3 = ctx_set ''conversation'' ''regenerate_turn_index'' (opt_int target) (ctx_set ''conversation'' ''regenerate'' (PBool regenerate) c2);
                   c4 = ctx_set ''conversation'' ''window_messages'' (PList (map (PDict \<circ> short_dict) raw')) c3;
                   c5 = ctx_set ''conversation'' ''window_messages_raw'' (PList (map (PDict \<circ> window_dict) raw')) c4;
                   c6 = ctx_set ''conversation'' ''summary'' (case summary of None \<Rightarrow> PNone | Some su \<Rightarrow> PDict (summary_dict su)) c5;
                   c7 = ctx_set ''conversation'' ''merged_messages''
                          (PList (map PDict (merged_messages regenerate summary raw' (dicts_in (field req2 ''messages''))))) c6;
                   c8 = ctx_set ''conversation'' ''meta'' (PDict (meta_dict (cr_meta r))) c7
               in ((new_step_result SUCCESS)\<lparr>sr_data := Some [(''session_id'', sid), (''window_messages'', PInt (int (length raw')))]\<rparr>,
                   emit_status now ''remember'' (Some ''conversation_load'') ''success'' (Some ''context.loaded'')
                     (PDict [(''count'', PInt (int (length raw'))), (''has_summary'', PBool has_summary)]) c8))"

subsection \<open>No message of a turn is lost\<close>

lemma message_row_turn:
  "t \<noteq> 0 \<Longrightarrow> is_str (field m ''content'') \<or> field m ''content'' = PNone \<Longrightarrow>
   \<exists>r. message_row sid (dput ''turn_index'' (PInt t) m) = Some r \<and> dm_session r = sid \<and> dm_turn r = t \<and>
     dm_role r = field m ''role'' \<and> dm_content r = field m ''content''"
  by (auto simp: message_row_def Let_def int_value_def)

definition msg_shape :: "db_msg \<Rightarrow> string \<times> int \<times> pyval \<times> pyval" where
  "msg_shape r = (dm_session r, dm_turn r, dm_role r, dm_content r)"

lemma message_rows_turns:
  assumes "length ts = length ms" and "\<forall>t \<in> set ts. t \<noteq> 0" and "\<forall>m \<in> set ms. is_str (field m ''content'') \<or> field m ''content'' = PNone"
  shows "map msg_shape (message_rows sid (with_turns ts ms)) = map (\<lambda>(m, t). (sid, t, field m ''role'', field m ''content'')) (zip ms ts)"
  using assms
proof (induction ts ms rule: list_induct2)
  case (Cons t ts m ms)
  from Cons.prems message_row_turn [of t m sid] obtain r where
    "message_row sid (dput ''turn_index'' (PInt t) m) = Some r" "msg_shape r = (sid, t, field m ''role'', field m ''content'')"
    by (auto simp: msg_shape_def)
  with Cons show ?case by (simp add: message_rows_def with_turns_def map_filter_def)
qed (simp add: message_rows_def with_turns_def map_filter_def)

lemma zip_shapes:
  assumes "length ts = length ms"
  shows "map (\<lambda>(_, t, _). t) (map (\<lambda>(m, t). (sid, t, field m ''role'', field m ''content'')) (zip ms ts)) = ts"
    and "map (\<lambda>(_, _, r, _). r) (map (\<lambda>(m, t). (sid, t, field m ''role'', field m ''content'')) (zip ms ts)) = map (\<lambda>m. field m ''role'') ms"
  using assms by (induction ts ms rule: list_induct2) simp_all

text \<open>Rows with new, growing turns: the insertion succeeds and appends exactly them.\<close>

lemma bulk_insert_beyond:
  assumes "db_ok db" and "length ts = length ms" and "sorted_wrt (<) ts" and "\<forall>t \<in> set ts. db_max_turn (turns_of sid db) < t \<and> 0 < t"
    and "\<forall>m \<in> set ms. is_str (field m ''content'') \<or> field m ''content'' = PNone" and "\<forall>m \<in> set ms. field m ''role'' \<noteq> PNone"
    and "dget (cd_sessions db) sid \<noteq> None"
  shows "\<exists>n db'. bulk_insert_messages sid (with_turns ts ms) db = (Inr n, db') \<and>
    map msg_shape (cd_messages db') = map msg_shape (cd_messages db) @ map (\<lambda>(m, t). (sid, t, field m ''role'', field m ''content'')) (zip ms ts)"
proof -
  let ?rows = "message_rows sid (with_turns ts ms)"
  have shape: "map msg_shape ?rows = map (\<lambda>(m, t). (sid, t, field m ''role'', field m ''content'')) (zip ms ts)"
    by (rule message_rows_turns) (use assms in auto)
  have turns: "map dm_turn ?rows = ts" and roles: "map dm_role ?rows = map (\<lambda>m. field m ''role'') ms"
    using zip_shapes [OF assms(2), of sid] by (simp_all flip: shape add: msg_shape_def o_def)
  have "\<forall>r \<in> set ?rows. dm_session r = sid \<and> db_max_turn (turns_of sid db) < dm_turn r"
    using assms(4) message_rows_session turns by (metis (no_types, lifting) image_eqI list.set_map)
  moreover have "distinct (map dm_turn ?rows)" using assms(3) turns by (simp add: strict_sorted_iff)
  ultimately have ins: "cd_messages (insert_rows ?rows db) = cd_messages db @ ?rows" using assms(1) by (intro insert_rows_beyond)
  have "\<forall>r \<in> set ?rows. dm_role r \<noteq> PNone" using assms(6) roles by (metis (no_types, lifting) image_iff list.set_map)
  then show ?thesis
    using assms(7) ins shape by (cases "?rows = []") (auto simp: bulk_insert_messages_def Let_def)
qed

lemma normalize_content: "is_str (field (normalize_message render persona m) ''content'') \<or> field (normalize_message render persona m) ''content'' = PNone"
  by (simp add: normalize_message_def Let_def)

lemma normalize_role: "field (normalize_message render persona m) ''role'' = field m ''role''"
  by (simp add: normalize_message_def Let_def)

lemma prepare_lengths: "prepare_messages render us a p = (db, rd) \<Longrightarrow> length rd = length db"
  by (auto simp: prepare_messages_def Let_def)

lemma prepare_contents:
  "prepare_messages render us a p = (db, rd) \<Longrightarrow> m \<in> set db \<Longrightarrow> is_str (field m ''content'') \<or> field m ''content'' = PNone"
  by (auto simp: prepare_messages_def Let_def) (use normalize_content in blast)+

lemma good_prefix_length: "good_prefix ms = (cs, True) \<Longrightarrow> length cs = length ms"
  by (induction ms arbitrary: cs) (auto split: option.splits prod.splits)

lemma append_dicts_turns:
  assumes "append_dicts e ch ms r = (Inr a, r')"
  shows "ar_turns a = map (\<lambda>i. last_turn_of r + 1 + int i) [0..<length ms]"
proof -
  obtain cs where g: "good_prefix ms = (cs, True)" and run: "append_messages (ae_config e) (ae_now e) (ae_task e) (ae_job e) (ae_healthy e) ch cs r = (Inr a, r')"
    using assms by (auto simp: append_dicts_def Let_def split: prod.splits bool.splits)
  show ?thesis
  proof (cases "cs = []")
    case True
    with run good_prefix_length [OF g] show ?thesis by (auto simp: append_messages_def no_append_def)
  next
    case False
    from append_messages_turns [OF run False] good_prefix_length [OF g] show ?thesis by simp
  qed
qed

text \<open>The turns that a successful append under the lock gives out lie beyond the database.\<close>

lemma redis_append_turns:
  assumes "redis_append e sid ch ms w = (Some rp, w1)" and "rp_available rp" and "ae_db_session e" "ae_uuid e sid" "ae_sync e"
  shows "length (ar_turns (rp_result rp)) = length ms \<and> sorted_wrt (<) (ar_turns (rp_result rp)) \<and>
    (\<forall>t \<in> set (ar_turns (rp_result rp)). db_max_turn (turns_of sid (vw_db w)) < t)"
proof -
  obtain r r2 where "append_dicts e ch ms (snd (sync_last_turn (turns_of sid (vw_db w)) r)) = (Inr (rp_result rp), r2)"
    using assms by (auto simp: redis_append_def Let_def split: option.splits lock_outcome.splits sum.splits prod.splits)
  note turns = append_dicts_turns [OF this]
  have "db_max_turn (turns_of sid (vw_db w)) \<le> last_turn_of (snd (sync_last_turn (turns_of sid (vw_db w)) r))"
    using sync_last_turn_spec [of "turns_of sid (vw_db w)" r] by (metis max.cobounded2 prod.collapse)
  then show ?thesis by (auto simp: turns sorted_wrt_map)
qed

lemma redis_append_db: "redis_append e sid ch ms w = (rp, w1) \<Longrightarrow> vw_db w1 = vw_db w"
  by (auto simp: redis_append_def Let_def split: option.splits lock_outcome.splits sum.splits prod.splits)

lemma touch_session_frame:
  "cd_messages (touch_session now sid u t a ch n db) = cd_messages db" "turns_of sid' (touch_session now sid u t a ch n db) = turns_of sid' db"
  "dget (cd_sessions (touch_session now sid u t a ch n db)) sid \<noteq> None"
  "db_ok db \<Longrightarrow> db_ok (touch_session now sid u t a ch n db)"
  using session_ops_ok(1) [of db now sid u t a ch "Some now" n None None]
  by (auto simp: touch_session_def upsert_session_def Let_def turns_of_def)

lemma turns_of_cong: "cd_messages db' = cd_messages db \<Longrightarrow> turns_of sid db' = turns_of sid db"
  by (simp add: turns_of_def)

definition db_ready :: "append_env \<Rightarrow> string \<Rightarrow> string option \<Rightarrow> string option \<Rightarrow> string option \<Rightarrow> bool" where
  "db_ready e sid user tenant assistant \<longleftrightarrow> ae_db_session e \<and> ae_db_insert e \<and> ae_sync e \<and> ae_uuid e sid \<and>
     opt_uuid e user \<and> opt_uuid e tenant \<and> opt_uuid e assistant"

lemma persist_all:
  assumes app: "redis_append e sid ch redis_messages w = (Some rp, w1)" and ready: "db_ready e sid user tenant assistant"
    and prep: "prepare_messages render us reply persona = (db_messages, redis_messages)"
    and ok: "db_ok (vw_db w)" "0 \<le> db_max_turn (turns_of sid (vw_db w))"
    and roles: "\<forall>m \<in> set db_messages. field m ''role'' \<noteq> PNone"
  shows "\<exists>ts. length ts = length db_messages \<and> sorted_wrt (<) ts \<and> (\<forall>t \<in> set ts. db_max_turn (turns_of sid (vw_db w)) < t) \<and>
    map msg_shape (cd_messages (persist e sid user tenant assistant ch rp db_messages (vw_db w1))) =
      map msg_shape (cd_messages (vw_db w)) @ map (\<lambda>(m, t). (sid, t, field m ''role'', field m ''content'')) (zip db_messages ts)"
proof -
  let ?g = "\<lambda>v. if str_truthy v then v else None"
  note db = redis_append_db [OF app] and contents = prepare_contents [OF prep]
  show ?thesis
  proof (cases "rp_available rp")
    case True
    let ?ts = "ar_turns (rp_result rp)"
    let ?db1 = "touch_session (ae_now e) sid (?g user) (?g tenant) (?g assistant) ch (ar_last_turn (rp_result rp)) (vw_db w)"
    have ts: "length ?ts = length db_messages" "sorted_wrt (<) ?ts" "\<forall>t \<in> set ?ts. db_max_turn (turns_of sid (vw_db w)) < t \<and> 0 < t"
      using redis_append_turns [OF app True] ready prepare_lengths [OF prep] ok(2) by (auto simp: db_ready_def)
    obtain n db' where "bulk_insert_messages sid (with_turns ?ts db_messages) ?db1 = (Inr n, db')"
      "map msg_shape (cd_messages db') = map msg_shape (cd_messages (vw_db w)) @
         map (\<lambda>(m, t). (sid, t, field m ''role'', field m ''content'')) (zip db_messages ?ts)"
      using bulk_insert_beyond [OF touch_session_frame(4) [OF ok(1)] ts(1,2) _ _ roles touch_session_frame(3)] ts(3) contents
      unfolding touch_session_frame(1,2) by blast
    with ts True ready db show ?thesis by (auto simp: persist_def Let_def db_ready_def)
  next
    case False
    show ?thesis
    proof (cases "db_messages = []")
      case True
      with False ready db show ?thesis
        by (auto simp: persist_def Let_def db_ready_def reserve_turn_indexes_def with_turns_def bulk_insert_messages_def message_rows_def map_filter_def)
    next
      case some: False
      obtain ts db1 where res: "reserve_turn_indexes (ae_now e) sid (?g user) (?g tenant) (?g assistant) ch (int (length db_messages)) (vw_db w) = (ts, db1)"
        by (metis prod.exhaust)
      from reserve_turns_beyond [OF res ok(1) _ ok(2)] some have ts: "length ts = length db_messages \<and> sorted_wrt (<) ts \<and>
          (\<forall>t \<in> set ts. db_max_turn (turns_of sid (vw_db w)) < t \<and> 0 < t)" and db1: "cd_messages db1 = cd_messages (vw_db w)"
          "dget (cd_sessions db1) sid \<noteq> None" by auto
      have "db_ok db1" by (rule session_ops_ok(2) [OF ok(1) res])
      then obtain n db' where "bulk_insert_messages sid (with_turns ts db_messages) db1 = (Inr n, db')"
        "map msg_shape (cd_messages db') = map msg_shape (cd_messages (vw_db w)) @
           map (\<lambda>(m, t). (sid, t, field m ''role'', field m ''content'')) (zip db_messages ts)"
        using bulk_insert_beyond [of db1 ts db_messages sid] ts db1 contents roles turns_of_cong [OF db1(1)] by auto
      with ts False ready db res show ?thesis by (auto simp: persist_def Let_def db_ready_def)
    qed
  qed
qed

lemma soft_delete_shape: "map msg_shape (cd_messages (snd (soft_delete_by_turn_index sid turn db))) = map msg_shape (cd_messages db)"
  by (auto simp: soft_delete_by_turn_index_def Let_def msg_shape_def)

lemma soft_delete_old_shape:
  "map msg_shape (cd_messages (vw_db (soft_delete_old e sid turn w))) = map msg_shape (cd_messages (vw_db w))"
  by (simp add: soft_delete_old_def soft_delete_shape)

lemma conversation_append_world:
  assumes "conversation_append e c w = (res, c', w')"
  shows "w' = w \<or> (\<exists>sid dbm rd rp w1. redis_append e sid CONV_INTERNAL rd w = (rp, w1) \<and>
    w' = (case rp of None \<Rightarrow> w1 | Some p \<Rightarrow> finish_append e c sid dbm p w1))"
proof -
  obtain dbm rd where prep: "prepared_turn e c = (dbm, rd)" by fastforce
  show ?thesis
  proof (cases "append_session c")
    case (Some sid)
    obtain rp w1 where app: "redis_append e sid CONV_INTERNAL rd w = (rp, w1)" by fastforce
    have "w' = w \<or> w' = (case rp of None \<Rightarrow> w1 | Some p \<Rightarrow> finish_append e c sid dbm p w1)"
      using assms by (auto simp: conversation_append_def Some prep app Let_def split: if_splits option.splits)
    with app show ?thesis by blast
  qed (use assms in \<open>auto simp: conversation_append_def split: if_splits\<close>)
qed

lemma conversation_append_cases:
  assumes "conversation_append e c w = (res, c', w')" and "sr_message res = None"
  obtains sid rp w1 db_messages redis_messages where "append_session c = Some sid" "prepared_turn e c = (db_messages, redis_messages)"
    "redis_append e sid CONV_INTERNAL redis_messages w = (Some rp, w1)"
    "map msg_shape (cd_messages (vw_db w')) =
       map msg_shape (cd_messages (persist e sid (ctx_user_id c) (ctx_tenant_id c) (append_assistant c) CONV_INTERNAL rp db_messages (vw_db w1)))"
proof -
  obtain sid where sid: "append_session c = Some sid"
    using assms by (auto simp: conversation_append_def skipped_def split: if_splits option.splits)
  obtain db_messages redis_messages where prep: "prepared_turn e c = (db_messages, redis_messages)" by fastforce
  obtain rp w1 where app: "redis_append e sid CONV_INTERNAL redis_messages w = (Some rp, w1)"
    using assms sid prep by (auto simp: conversation_append_def skipped_def split: if_splits option.splits prod.splits)
  have "map msg_shape (cd_messages (vw_db w')) =
       map msg_shape (cd_messages (persist e sid (ctx_user_id c) (ctx_tenant_id c) (append_assistant c) CONV_INTERNAL rp db_messages (vw_db w1)))"
    using assms by (auto simp: conversation_append_def skipped_def sid prep app finish_append_def Let_def soft_delete_old_shape split: if_splits pyval.splits)
  with sid prep app that show ?thesis by blast
qed


definition demo_turn :: workflow_context where
  "demo_turn = ctx_set ''response_transform'' ''response''
       (PDict [(''choices'', PList [PDict [(''message'', PDict [(''role'', PStr ''assistant''), (''content'', PStr ''hello'')])]])])
     (ctx_set ''validation'' ''validated'' (PDict [(''session_id'', PStr ''s''), (''messages'', PList [PDict [(''role'', PStr ''user''), (''content'', PStr ''hi'')]])])
       ((new_context ''t'' INTERNAL ''now'')\<lparr>ctx_capability := Some ''chat''\<rparr>))"

definition demo_world :: conv_world where
  "demo_world = \<lparr>vw_redis = Some no_window, vw_db = demo_db\<rparr>"


text \<open>Without the alignment the turns start again at 1 when Redis has lost its meta data, and the rows are dropped.\<close>

lemma unaligned_append_dropped:
  "(case conversation_append (healthy_env\<lparr>ae_sync := False\<rparr>) demo_turn demo_world of (res, _, w') \<Rightarrow>
     sr_message res = None \<and> map dm_turn (cd_messages (vw_db w')) = [1, 2, 3])"
  by code_simp

subsection \<open>Loading before a regeneration\<close>

text \<open>The old reply is hidden from the model but stays in both stores until the append step.\<close>

lemma load_hides_reply:
  assumes "vw_redis w = Some r" and "\<not> is_external c" and "\<not> truthy (ctx_get c ''conversation'' ''skip'' (PBool False))"
    and "truthy (field (request_of c) ''regenerate'')"
  shows "ctx_get (snd (conversation_load now fresh e c w)) ''conversation'' ''regenerate_turn_index'' PNone =
    opt_int (map_option wm_turn (last_assistant (sort_key wm_turn (fst (load_window r)))))"
proof -
  have "truthy (field (dput ''assistant_id'' a (dput ''session_id'' i (request_of c))) ''regenerate'')"
    and "truthy (field (dput ''session_id'' i (request_of c)) ''regenerate'')" for a i
    using assms(4) by simp_all
  with assms(1-3) show ?thesis
    by (simp add: conversation_load_def Let_def regenerate_target_def split: option.split)
qed

end
