(* ===== verification/Conversation_Summary.thy ===== *)
theory Conversation_Summary
  imports Conversation_Append
begin

section \<open>Summaries of a conversation\<close>

text \<open>
  The tasks of src/app/tasks/conversation.py: the summary of a window and the idle check that starts one.
  A summary reads the window, asks a language model, and then writes: both halves are operations of
  their own, since anything can happen in between. The model is a parameter; of summarizer.py the reading
  of its reply is modelled. Errors of the event loop, which make a task start again, are outside the model.
\<close>

subsection \<open>The reply of the model\<close>

definition stripped :: "pyval \<Rightarrow> string option" where
  "stripped v = (case v of PStr s \<Rightarrow> if str_strip s \<noteq> [] then Some (str_strip s) else None | _ \<Rightarrow> None)"

definition first_dict :: "pyval \<Rightarrow> msg" where
  "first_dict v = (case v of PList (PDict d # _) \<Rightarrow> d | _ \<Rightarrow> [])"

fun first_some :: "'a option list \<Rightarrow> 'a option" where
  "first_some [] = None"
| "first_some (None # xs) = first_some xs"
| "first_some (Some x # xs) = Some x"

definition extract_text :: "pyval \<Rightarrow> string option" where
  "extract_text response_body =
     (case response_body of
        PDict d \<Rightarrow>
          (let first = first_dict (field d ''choices'');
               message = (case field first ''message'' of PDict m \<Rightarrow> m | _ \<Rightarrow> [])
           in first_some [stripped (field message ''content''), stripped (field first ''text''), stripped (field d ''content''),
                stripped (field (first_dict (field d ''content'')) ''text''), stripped (field d ''completion'')])
      | v \<Rightarrow> stripped v)"

definition format_line :: "window_msg \<Rightarrow> string" where
  "format_line m = ''['' @ wm_role m @ ''] '' @ wm_content m"

definition format_messages :: "window_msg list \<Rightarrow> string" where
  "format_messages ms = str_join [CHR 0x0A] (map format_line ms)"

text \<open>\<open>summarize\<close>: the user's own model answers with the body of a reply, or the shortened text of the last
  eight messages is used; \<open>ask\<close> and \<open>shorten\<close> stand for the two.\<close>

definition summarize_text :: "(string \<Rightarrow> (string \<times> pyval) option) \<Rightarrow> (string \<Rightarrow> string) \<Rightarrow> window_msg list \<Rightarrow> string \<times> string option" where
  "summarize_text ask shorten ms =
     (if ms = [] then ([], None)
      else case ask (format_messages ms) of
        Some (model, body) \<Rightarrow>
          (case extract_text body of
             Some text \<Rightarrow> (text, Some model)
           | None \<Rightarrow> (shorten (format_messages (drop (length ms - 8) ms)), None))
      | None \<Rightarrow> (shorten (format_messages (drop (length ms - 8) ms)), None))"

subsection \<open>Writing a summary\<close>

definition window_row :: "string \<Rightarrow> window_msg \<Rightarrow> db_msg" where
  "window_row sid m = \<lparr>dm_session = sid, dm_turn = wm_turn m, dm_role = PStr (wm_role m), dm_name = opt_str (wm_name m),
     dm_content = PStr (wm_content m), dm_tokens = wm_tokens m, dm_truncated = wm_truncated m, dm_meta = PNone, dm_persona = PNone,
     dm_deleted = False\<rparr>"

text \<open>\<open>_persist_summary\<close>: one transaction; a version that the session already has undoes all of it.\<close>

definition persist_summary :: "rat \<Rightarrow> string \<Rightarrow> conv_summary \<Rightarrow> window_msg list \<Rightarrow> conv_meta \<Rightarrow> string option \<Rightarrow> conv_db \<Rightarrow> conv_db" where
  "persist_summary now sid su ms mt model db =
     (let row = (case dget (cd_sessions db) sid of
            None \<Rightarrow> \<lparr>cv_user = None, cv_tenant = None, cv_assistant = None,
               cv_channel = (case mt_channel mt of None \<Rightarrow> CONV_INTERNAL | Some ch \<Rightarrow> ch), cv_status = CONV_ACTIVE, cv_title = None,
               cv_count = int (length ms), cv_summary_version = su_version su, cv_first = mt_first_message mt,
               cv_last_active = (case mt_last_active mt of None \<Rightarrow> now | Some t \<Rightarrow> t)\<rparr>
          | Some r \<Rightarrow> r\<lparr>cv_count := max (cv_count r) (zero_if_none (mt_last_turn mt)), cv_summary_version := su_version su,
               cv_last_active := (case mt_last_active mt of None \<Rightarrow> cv_last_active r | Some t \<Rightarrow> t), cv_first := or_opt (cv_first r) (mt_first_message mt)\<rparr>);
          db1 = insert_rows (map (window_row sid) ms) (db\<lparr>cd_sessions := dput sid row (cd_sessions db)\<rparr>);
          has = (\<lambda>v. \<exists>s \<in> set (cd_summaries db). ds_session s = sid \<and> ds_version s = v);
          ds = \<lparr>ds_session = sid, ds_version = su_version su, ds_text = su_text su, ds_from = su_from su, ds_to = su_to su,
             ds_previous = (if 1 < su_version su \<and> has (su_version su - 1) then Some (su_version su - 1) else None),
             ds_tokens = su_tokens su, ds_model = model\<rparr>
      in if has (su_version su) then db else db1\<lparr>cd_summaries := cd_summaries db1 @ [ds]\<rparr>)"

definition read_for_summary :: "conv_redis \<Rightarrow> window_msg list \<times> conv_meta" where
  "read_for_summary r = (sort_key wm_turn (fst (load_window r)), cr_meta r)"

definition summary_payload :: "rat \<Rightarrow> window_msg list \<Rightarrow> conv_meta \<Rightarrow> string \<Rightarrow> conv_summary" where
  "summary_payload now ms mt text = \<lparr>su_version = zero_if_none (mt_summary_version mt) + 1, su_text = text, su_from = wm_turn (hd ms),
     su_to = wm_turn (last ms), su_tokens = sum_list (map wm_tokens ms), su_generated = now\<rparr>"

text \<open>The second half, given what was read and the answer of the model, or its exception.\<close>

definition finish_summary :: "rat \<Rightarrow> string \<Rightarrow> window_msg list \<times> conv_meta \<Rightarrow> exn + string \<times> string option \<Rightarrow> conv_redis \<Rightarrow> conv_db \<Rightarrow>
    string \<times> conv_redis \<times> conv_db" where
  "finish_summary now sid snapshot answer r db =
     (case snapshot of (ms, mt) \<Rightarrow>
        if ms = [] then (''no_messages'', clear_summarizing r, db)
        else case answer of
          Inl _ \<Rightarrow> (''failed'', clear_summarizing r, db)
        | Inr (text, model) \<Rightarrow>
            let su = summary_payload now ms mt text;
                r1 = update_summary_cache su r
            in (''ok'', upd_meta (\<lambda>m. m\<lparr>mt_total_tokens := Some (su_tokens su), mt_summary_version := Some (su_version su),
                   mt_summarizing := Some False, mt_summary_job := Some []\<rparr>) r1,
                persist_summary now sid su ms mt model db))"

definition run_summarize :: "rat \<Rightarrow> string \<Rightarrow> (window_msg list \<Rightarrow> exn + string \<times> string option) \<Rightarrow> conv_redis \<Rightarrow> conv_db \<Rightarrow>
    string \<times> conv_redis \<times> conv_db" where
  "run_summarize now sid summarizer r db =
     (case read_for_summary r of (ms, mt) \<Rightarrow> finish_summary now sid (ms, mt) (summarizer ms) r db)"

subsection \<open>The idle check\<close>

definition run_idle_check :: "conv_config \<Rightarrow> rat \<Rightarrow> string \<Rightarrow> conv_redis \<Rightarrow> string \<times> conv_redis" where
  "run_idle_check cf now job r =
     (let r1 = r\<lparr>cr_idle_pending := None\<rparr>
      in case cr_idle_active r of
        None \<Rightarrow> (''no_last_active'', r1)
      | Some active \<Rightarrow>
          if now - active < cc_idle cf then (''skip_active'', r1)
          else if cr_meta r = no_meta then (''no_meta'', r1)
          else if last_turn_of r \<le> 0 then (''no_messages'', r1)
          else if is_summarizing r then (''already_summarizing'', r1)
          else
            let wait = (case cr_summary r of
                None \<Rightarrow> None
              | Some su \<Rightarrow> if last_turn_of r \<le> su_to su then Some ''no_new_messages''
                           else if now - su_generated su < cc_min_interval cf then Some ''min_interval'' else None)
            in case wait of
              Some reason \<Rightarrow> (reason, r1)
            | None \<Rightarrow> (''queued'', upd_meta (\<lambda>mt. mt\<lparr>mt_summarizing := Some True, mt_summary_job := Some job\<rparr>)
                (r1\<lparr>cr_jobs := cr_jobs r1 @ [Summarize]\<rparr>)))"

subsection \<open>What a summary leaves behind\<close>

lemma finish_summary_frame:
  assumes "finish_summary now sid snapshot answer r db = (out, r', db')"
  shows "cr_msgs r' = cr_msgs r" "last_turn_of r' = last_turn_of r"
  using assms by (auto simp: finish_summary_def clear_summarizing_def update_summary_cache_def Let_def split: prod.splits if_splits sum.splits)

lemma run_idle_check_frame:
  assumes "run_idle_check cf now job r = (out, r')"
  shows "cr_msgs r' = cr_msgs r" "last_turn_of r' = last_turn_of r"
  using assms by (auto simp: run_idle_check_def Let_def split: option.splits if_splits)

lemma persist_summary_ok: "db_ok db \<Longrightarrow> db_ok (persist_summary now sid su ms mt model db)"
proof -
  assume ok: "db_ok db"
  have "db_ok (insert_rows (map (window_row sid) ms) (db\<lparr>cd_sessions := dput sid row (cd_sessions db)\<rparr>))" for row
    by (rule insert_rows_ok [OF db_ok_sessions [OF ok]]) (auto simp: window_row_def)
  with ok show ?thesis
    by (auto simp: persist_summary_def Let_def db_ok_def insert_rows_def)
qed

lemma finish_summary_ok: "finish_summary now sid snapshot answer r db = (out, r', db') \<Longrightarrow> db_ok db \<Longrightarrow> db_ok db'"
  by (auto simp: finish_summary_def Let_def persist_summary_ok split: prod.splits if_splits sum.splits)

text \<open>The counter of tokens restarts with the tokens of the window, which the number of turns bounds and not
  their size: a window above the threshold asks for another summary at the very next message.\<close>

lemma large_window_summarized_again:
  assumes "run_summarize now sid summarizer r db = (''ok'', r', db')"
    and "cc_flush_tokens cf \<le> sum_list (map wm_tokens (fst (load_window r)))" and "0 \<le> cm_tokens m"
  shows "fst (snd (snd (fst (append_script cap over (cc_flush_tokens cf) m r'))))"
proof -
  have "total_tokens_of r' = sum_list (map wm_tokens (sort_key wm_turn (fst (load_window r))))"
    using assms(1) by (auto simp: run_summarize_def read_for_summary_def finish_summary_def summary_payload_def total_tokens_of_def Let_def
        split: if_splits sum.splits prod.splits)
  also have "\<dots> = sum_list (map wm_tokens (fst (load_window r)))"
    by (simp flip: sum_mset_sum_list)
  finally show ?thesis using assms(2,3) by (simp add: append_script_def Let_def)
qed

text \<open>Messages that arrive while the model works are not counted any more.\<close>

lemma concurrent_append_uncounted:
  "(case read_for_summary (window_of [1..2]) of snapshot \<Rightarrow>
    (case append_script 10 12 1000 (plain_msg ''new'') (window_of [1..2]) of (_, r1) \<Rightarrow>
      (case finish_summary 0 ''s'' snapshot (Inr (''text'', None)) r1 empty_conv_db of (_, r2, _) \<Rightarrow>
         total_tokens_of r2 = 2 \<and> map wm_turn (cr_msgs r2) = [1, 2, 3])))"
  by code_simp

text \<open>When Redis has lost the version of the last summary, as it does when a session is idle for longer than
  the time to live, the next summary takes a version that the database already has. Redis keeps the new
  summary, the task reports success, but the database refuses it and with it the messages of the window.\<close>

theorem summary_version_restarts:
  assumes "read_for_summary r = (ms, mt)" and "ms \<noteq> []" and "v = zero_if_none (mt_summary_version mt) + 1"
    and "summarizer ms = Inr (text, model)" and "s \<in> set (cd_summaries db)" and "ds_session s = sid" and "ds_version s = v"
  shows "run_summarize now sid summarizer r db =
      (''ok'', upd_meta (\<lambda>m. m\<lparr>mt_total_tokens := Some (sum_list (map wm_tokens ms)), mt_summary_version := Some v,
         mt_summarizing := Some False, mt_summary_job := Some []\<rparr>) (update_summary_cache (summary_payload now ms mt text) r), db)"
  using assms by (auto simp: run_summarize_def finish_summary_def summary_payload_def persist_summary_def Let_def)

definition summarized :: "conv_redis \<times> conv_db" where
  "summarized = snd (run_summarize 0 ''s'' (\<lambda>_. Inr (''old'', None)) (window_of [1..2]) demo_db)"

definition resumed :: conv_redis where
  "resumed = snd (append_messages default_conv_config 9 ''t'' ''j'' None CONV_INTERNAL [plain_msg ''back'']
     (snd (sync_last_turn (turns_of ''s'' (snd summarized)) (expire_window (fst summarized)))))"

text \<open>The preceding statement at a conversation that was summarized, expired, and goes on.\<close>

theorem summary_version_restarts_witness:
  "length (cd_summaries (snd summarized)) = 1 \<and> map wm_turn (cr_msgs resumed) = [4] \<and>
   fst (run_summarize 10 ''s'' (\<lambda>_. Inr (''new'', None)) resumed (snd summarized)) = ''ok'' \<and>
   map ds_text (cd_summaries (snd (snd (run_summarize 10 ''s'' (\<lambda>_. Inr (''new'', None)) resumed (snd summarized))))) = [''old'']"
proof -
  have shape: "length (cd_summaries (snd summarized)) = 1 \<and> map wm_turn (cr_msgs resumed) = [4]"
    "map ds_text (cd_summaries (snd summarized)) = [''old'']" "map ds_version (cd_summaries (snd summarized)) = [1]"
    "map ds_session (cd_summaries (snd summarized)) = [''s'']" by code_simp+
  then obtain s where s: "s \<in> set (cd_summaries (snd summarized))" "ds_session s = ''s''" "ds_version s = 1"
    by (auto simp: map_eq_Cons_conv)
  obtain ms mt where read: "read_for_summary resumed = (ms, mt)" by fastforce
  have "fst (read_for_summary resumed) \<noteq> [] \<and> zero_if_none (mt_summary_version (snd (read_for_summary resumed))) = 0" by code_simp
  then have "ms \<noteq> []" "1 = zero_if_none (mt_summary_version mt) + 1" by (simp_all add: read)
  note run = summary_version_restarts [where summarizer = "\<lambda>_. Inr (''new'', None)", OF read this refl s]
  show ?thesis using shape by (simp add: run)
qed

end
