(* ===== verification/Conversation_System.thy ===== *)
theory Conversation_System
  imports Conversation_Summary
begin

section \<open>Conversations as a system\<close>

text \<open>
  The handlers of src/app/api/v1/internal/conversation_route.py that touch the window, over the windows of
  all sessions, and the interleaving of everything that changes a session: requests, deletions, summaries,
  the idle check and the passing of the time to live.
\<close>

record conv_site =
  st_windows :: "(string, conv_redis) dict"
  st_db :: conv_db

definition window :: "string \<Rightarrow> conv_site \<Rightarrow> conv_redis" where
  "window sid s = (case dget (st_windows s) sid of None \<Rightarrow> no_window | Some r \<Rightarrow> r)"

definition set_window :: "string \<Rightarrow> conv_redis \<Rightarrow> conv_site \<Rightarrow> conv_site" where
  "set_window sid r s = s\<lparr>st_windows := dput sid r (st_windows s)\<rparr>"

lemma window_set [simp]: "window sid' (set_window sid r s) = (if sid' = sid then r else window sid' s)"
  by (simp add: window_def set_window_def)

subsection \<open>Handlers\<close>

text \<open>The authenticated user is an argument of every handler.\<close>

definition get_conversation_window :: "string \<Rightarrow> string \<Rightarrow> conv_site \<Rightarrow> window_msg list \<times> conv_meta \<times> conv_summary option" where
  "get_conversation_window user sid s = load_window (window sid s)"

definition delete_message_route :: "rat \<Rightarrow> string \<Rightarrow> string \<Rightarrow> int \<Rightarrow> conv_site \<Rightarrow> (exn + bool) \<times> conv_site" where
  "delete_message_route now user sid turn s =
     (case delete_message now turn (window sid s) of (out, r) \<Rightarrow> (out, set_window sid r s))"

definition clear_conversation :: "string \<Rightarrow> string \<Rightarrow> conv_site \<Rightarrow> conv_site" where
  "clear_conversation user sid s = set_window sid (clear_session (window sid s)) s"

definition get_conversation_history :: "string \<Rightarrow> string \<Rightarrow> int \<Rightarrow> int option \<Rightarrow> conv_site \<Rightarrow> conv_error + history_page" where
  "get_conversation_history user sid bound cursor s = load_history sid user bound cursor (st_db s)"

text \<open>\<open>regenerate_last_reply\<close> up to the call of the orchestrator. Its feedback to the assistant names a variable
  that is not defined; the exception is swallowed.\<close>

definition first_with_turn :: "(int \<Rightarrow> int \<Rightarrow> bool) \<Rightarrow> window_msg \<Rightarrow> window_msg list \<Rightarrow> window_msg" where
  "first_with_turn better m ms = fold (\<lambda>x best. if better (wm_turn x) (wm_turn best) then x else best) ms m"

definition regenerate_prepare :: "rat \<Rightarrow> string \<Rightarrow> string \<Rightarrow> conv_site \<Rightarrow> (conv_error + conv_summary option) \<times> conv_site" where
  "regenerate_prepare now user sid s =
     (case get_conversation_window user sid s of
        (ms, _, summary) \<Rightarrow>
          (case filter (\<lambda>m. wm_role m = ''user'') ms of
             [] \<Rightarrow> (Inl (HTTP 404), s)
           | u # us \<Rightarrow>
               let last_user = first_with_turn (\<lambda>a b. a > b) u us;
                   after = sort_key wm_turn (filter (\<lambda>m. wm_role m = ''assistant'' \<and> wm_turn last_user < wm_turn m) ms)
               in (case after of
                     [] \<Rightarrow> (Inr summary, s)
                   | a # _ \<Rightarrow>
                       (case delete_message_route now user sid (wm_turn a) s of
                          (Inl e, s') \<Rightarrow> (Inl (Crash e), s')
                        | (Inr _, s') \<Rightarrow> (Inr summary, s')))))"

text \<open>The handlers that work on the window never ask whose session it is. The history of a session is hidden
  from everybody but its owner; its window is shown to every user who knows the identifier, and every such
  user can wipe it.\<close>

theorem window_open_to_everybody:
  assumes "dget (cd_sessions (st_db s)) sid = Some row" and "cv_user row = Some owner" and "user \<noteq> owner"
  shows "get_conversation_history user sid bound cursor s = Inl (HTTP 404) \<and>
    get_conversation_window user sid s = get_conversation_window owner sid s \<and>
    delete_message_route now user sid turn s = delete_message_route now owner sid turn s \<and>
    fst (get_conversation_window owner sid (clear_conversation user sid s)) = []"
  using assms
  by (simp add: get_conversation_history_def load_history_def get_by_user_def get_conversation_window_def delete_message_route_def
      clear_conversation_def clear_session_def load_window_def)

definition demo_site :: conv_site where
  "demo_site = \<lparr>st_windows = [(''s'', window_of [1..3])], st_db = demo_db\<rparr>"

text \<open>The preceding statement at a session of user u that is read and wiped by user v.\<close>

theorem window_open_to_everybody_witness:
  "map wm_turn (fst (get_conversation_window ''v'' ''s'' demo_site)) = [1, 2, 3] \<and>
   get_conversation_history ''v'' ''s'' 5 None demo_site = Inl (HTTP 404) \<and>
   fst (get_conversation_window ''u'' ''s'' (clear_conversation ''v'' ''s'' demo_site)) = []"
proof -
  have user: "map_option cv_user (dget (cd_sessions (st_db demo_site)) ''s'') = Some (Some ''u'')"
    and window: "map wm_turn (fst (get_conversation_window ''v'' ''s'' demo_site)) = [1, 2, 3]" by code_simp+
  from user obtain row where "dget (cd_sessions (st_db demo_site)) ''s'' = Some row" "cv_user row = Some ''u''" by auto
  from window_open_to_everybody [OF this, of "''v''" 5 None 0 1] window show ?thesis by simp
qed

text \<open>A reply that is regenerated through the handler disappears from the window, but not from the history.\<close>

lemma regenerate_keeps_history: "st_db (snd (regenerate_prepare now user sid s)) = st_db s"
  by (auto simp: regenerate_prepare_def delete_message_route_def set_window_def Let_def split: prod.splits list.splits sum.splits)

subsection \<open>Everything that changes a session\<close>

text \<open>A step of session \<open>sid\<close> under the configuration \<open>cf\<close>. \<open>elsewhere\<close> is a request of another session, or of
  this one without a connection to Redis: it shares the database only. A summary may have read the window
  at any earlier time.\<close>

inductive conv_step :: "conv_config \<Rightarrow> string \<Rightarrow> conv_world \<Rightarrow> conv_world \<Rightarrow> bool" for cf sid where
  request: "ae_config e = cf \<Longrightarrow> conversation_append e c w = (res, c', w') \<Longrightarrow> append_session c = Some sid \<Longrightarrow> conv_step cf sid w w'"
| elsewhere: "conversation_append e c (w\<lparr>vw_redis := other\<rparr>) = (res, c', w') \<Longrightarrow> conv_step cf sid w (w'\<lparr>vw_redis := vw_redis w\<rparr>)"
| delete: "vw_redis w = Some r \<Longrightarrow> delete_message now turn r = (out, r') \<Longrightarrow> conv_step cf sid w (w\<lparr>vw_redis := Some r'\<rparr>)"
| delete_last: "vw_redis w = Some r \<Longrightarrow> delete_last_assistant_message now r = (out, r') \<Longrightarrow> conv_step cf sid w (w\<lparr>vw_redis := Some r'\<rparr>)"
| clear: "vw_redis w = Some r \<Longrightarrow> conv_step cf sid w (w\<lparr>vw_redis := Some (clear_session r)\<rparr>)"
| expire: "vw_redis w = Some r \<Longrightarrow> conv_step cf sid w (w\<lparr>vw_redis := Some (expire_window r)\<rparr>)"
| summary: "vw_redis w = Some r \<Longrightarrow> finish_summary now sid (ms, mt) answer r (vw_db w) = (out, r', db') \<Longrightarrow>
    conv_step cf sid w (w\<lparr>vw_redis := Some r', vw_db := db'\<rparr>)"
| idle: "vw_redis w = Some r \<Longrightarrow> run_idle_check cf now job r = (out, r') \<Longrightarrow> conv_step cf sid w (w\<lparr>vw_redis := Some r'\<rparr>)"
| create: "create_session now sid' user tenant assistant title (vw_db w) = (row, db') \<Longrightarrow> conv_step cf sid w (w\<lparr>vw_db := db'\<rparr>)"
| status: "update_session_status sid' user st (vw_db w) = (out, db') \<Longrightarrow> conv_step cf sid w (w\<lparr>vw_db := db'\<rparr>)"
| title: "update_session_title sid' user ti (vw_db w) = (out, db') \<Longrightarrow> conv_step cf sid w (w\<lparr>vw_db := db'\<rparr>)"
| assistant: "update_session_assistant ex sid' user as (vw_db w) = (out, db') \<Longrightarrow> conv_step cf sid w (w\<lparr>vw_db := db'\<rparr>)"

definition sane_config :: "conv_config \<Rightarrow> bool" where
  "sane_config cf \<longleftrightarrow> 0 \<le> cc_turns_internal cf \<and> 0 \<le> cc_turns_external cf"

definition window_good :: "conv_config \<Rightarrow> conv_redis \<Rightarrow> bool" where
  "window_good cf r \<longleftrightarrow> window_ok r \<and> int (length (cr_msgs r)) \<le> window_cap cf"

definition world_ok :: "conv_config \<Rightarrow> conv_world \<Rightarrow> bool" where
  "world_ok cf w \<longleftrightarrow> pred_option (window_good cf) (vw_redis w) \<and> db_ok (vw_db w)"

lemma window_good_cong:
  "cr_msgs r' = cr_msgs r \<Longrightarrow> last_turn_of r' = last_turn_of r \<Longrightarrow> window_good cf r \<Longrightarrow> window_good cf r'"
  using window_ok_cong [of r' r] by (simp add: window_good_def)

lemma window_good_empty: "sane_config cf \<Longrightarrow> window_good cf (clear_session r)"
  by (simp add: window_good_def window_ok_def clear_session_def last_turn_of_def no_meta_def window_cap_def max_turns_overflow_def max_turns_def
      sane_config_def le_max_iff_disj)

lemma window_good_turns:
  assumes "map wm_turn (cr_msgs r') = map wm_turn (cr_msgs r)" and "last_turn_of r' = last_turn_of r" and "window_good cf r"
  shows "window_good cf r'"
  using assms window_ok_turns [of r' r] map_eq_imp_length_eq [OF assms(1)] by (simp add: window_good_def)

lemma window_good_delete: "delete_message now turn r = (out, r') \<Longrightarrow> window_good cf r \<Longrightarrow> window_good cf r'"
  using window_good_turns [of r' r cf] delete_message_turns [of now turn r out r'] by simp

lemma window_good_delete_last:
  assumes "delete_last_assistant_message now r = (out, r')" and "window_good cf r"
  shows "window_good cf r'"
proof (cases "last_assistant (cr_msgs r)")
  case None
  with assms show ?thesis by (simp add: delete_last_assistant_message_def)
next
  case (Some m)
  with assms(1) have "delete_message now (wm_turn m) r = (out, r')" by (simp add: delete_last_assistant_message_def)
  then show ?thesis using assms(2) by (rule window_good_delete)
qed

lemma window_good_sync: "window_good cf r \<Longrightarrow> window_good cf (snd (sync_last_turn ts r))"
  using sync_last_turn_spec [OF prod.collapse [symmetric], of ts r] sync_last_turn_ok [of r ts] by (simp add: window_good_def)

lemma window_good_loop:
  assumes "sane_config cf" and "window_good cf r"
  shows "window_good cf (snd (append_loop (max_turns cf ch) (max_turns_overflow cf ch) flush h ms acc r))"
proof -
  have "0 \<le> max_turns_overflow cf ch" "max_turns_overflow cf ch \<le> window_cap cf"
    using assms(1) by (cases ch; auto simp: sane_config_def max_turns_overflow_def max_turns_def window_cap_def)+
  with assms(2) show ?thesis
    using append_loop_window [OF max_turns_overflow_ge] append_loop_length [OF max_turns_overflow_ge] by (simp add: window_good_def)
qed

lemma window_good_append:
  assumes "append_dicts e ch ms r = (out, r')" and "sane_config (ae_config e)" and "window_good (ae_config e) r"
  shows "window_good (ae_config e) r'"
proof -
  obtain cs good where g: "good_prefix ms = (cs, good)" by fastforce
  show ?thesis
  proof (cases good)
    case True
    with assms(1) g have "append_messages (ae_config e) (ae_now e) (ae_task e) (ae_job e) (ae_healthy e) ch cs r = (out, r')"
      by (simp add: append_dicts_def)
    from append_messages_ok [OF this] append_messages_length [OF this] assms(2,3) show ?thesis
      by (simp add: window_good_def sane_config_def)
  next
    case False
    have "window_good (ae_config e) (init_meta (ae_now e) ch r)" by (rule window_good_cong [OF _ _ assms(3)]) simp_all
    from window_good_loop [OF assms(2) this] assms(1,3) g False show ?thesis
      by (auto simp: append_dicts_def Let_def split: if_splits)
  qed
qed

lemma persist_db_ok: "db_ok db \<Longrightarrow> db_ok (persist e sid u t a ch rp ms db)"
proof -
  assume ok: "db_ok db"
  let ?g = "\<lambda>v. if str_truthy v then v else None"
  let ?db1 = "touch_session (ae_now e) sid (?g u) (?g t) (?g a) ch (ar_last_turn (rp_result rp)) db"
  obtain turns db2 where res: "reserve_turn_indexes (ae_now e) sid (?g u) (?g t) (?g a) ch (int (length ms)) db = (turns, db2)"
    by (metis prod.exhaust)
  obtain out1 d1 where b1: "bulk_insert_messages sid (with_turns (ar_turns (rp_result rp)) ms) ?db1 = (out1, d1)" by (metis prod.exhaust)
  obtain out2 d2 where b2: "bulk_insert_messages sid (with_turns turns ms) db2 = (out2, d2)" by (metis prod.exhaust)
  have touched: "db_ok (touch_session now sid u' t' a' ch n db)" for now u' t' a' n by (rule touch_session_frame(4) [OF ok])
  have "db_ok d1" by (rule bulk_insert_ok [OF b1 touched])
  moreover have "db_ok d2" by (rule bulk_insert_ok [OF b2 session_ops_ok(2) [OF ok res]])
  ultimately show ?thesis using ok touched by (simp add: persist_def Let_def res b1 b2 split: sum.split)
qed

lemma redis_append_good:
  assumes "redis_append e sid ch ms w = (rp, w')" and "sane_config (ae_config e)" and "pred_option (window_good (ae_config e)) (vw_redis w)"
  shows "pred_option (window_good (ae_config e)) (vw_redis w')"
proof (cases "vw_redis w")
  case None
  with assms(1) show ?thesis by (auto simp: redis_append_def)
next
  case (Some r)
  let ?r1 = "if ae_db_session e \<and> ae_uuid e sid \<and> ae_sync e then snd (sync_last_turn (turns_of sid (vw_db w)) r) else r"
  obtain out r2 where app: "append_dicts e ch ms ?r1 = (out, r2)" by fastforce
  have "window_good (ae_config e) ?r1" using assms(3) Some by (simp add: window_good_sync)
  from window_good_append [OF app assms(2) this] have "window_good (ae_config e) r2" .
  moreover have "w' = w \<or> w' = w\<lparr>vw_redis := Some r2\<rparr>"
    using assms(1) by (auto simp: redis_append_def Some app Let_def split: lock_outcome.splits sum.splits)
  ultimately show ?thesis using assms(3) by auto
qed

lemma soft_delete_old_good:
  "pred_option (window_good cf) (vw_redis w) \<Longrightarrow> pred_option (window_good cf) (vw_redis (soft_delete_old e sid turn w))"
  using window_good_delete [OF prod.collapse [symmetric]] by (cases "vw_redis w") (simp_all add: soft_delete_old_def)

lemma soft_delete_old_db: "db_ok (vw_db w) \<Longrightarrow> db_ok (vw_db (soft_delete_old e sid turn w))"
  using soft_delete_ok [OF prod.collapse [symmetric]] by (simp add: soft_delete_old_def)

lemma schedule_naming_good: "window_good cf (schedule_naming e u ms n t r) = window_good cf r"
  by (auto simp: schedule_naming_def Let_def window_good_def window_ok_def split: option.splits)

lemma finish_append_good:
  assumes "pred_option (window_good cf) (vw_redis w)"
  shows "pred_option (window_good cf) (vw_redis (finish_append e c sid ms rp w))"
proof -
  let ?w2 = "w\<lparr>vw_db := persist e sid (ctx_user_id c) (ctx_tenant_id c) (append_assistant c) CONV_INTERNAL rp ms (vw_db w)\<rparr>"
  have "pred_option (window_good cf) (vw_redis ?w2)" using assms by simp
  note soft_delete_old_good [OF this]
  with assms show ?thesis
    by (simp add: finish_append_def Let_def option.pred_map o_def schedule_naming_good split: pyval.split)
qed

lemma finish_append_db: "db_ok (vw_db w) \<Longrightarrow> db_ok (vw_db (finish_append e c sid ms rp w))"
  by (simp add: finish_append_def Let_def persist_db_ok soft_delete_old_db split: pyval.split)

lemma conversation_append_good:
  assumes "conversation_append e c w = (res, c', w')" and "sane_config (ae_config e)" and "pred_option (window_good (ae_config e)) (vw_redis w)"
  shows "pred_option (window_good (ae_config e)) (vw_redis w')"
  using conversation_append_world [OF assms(1)] assms(2,3) redis_append_good finish_append_good by (auto split: option.splits)

lemma conversation_append_db:
  assumes "conversation_append e c w = (res, c', w')" and "db_ok (vw_db w)"
  shows "db_ok (vw_db w')"
  using conversation_append_world [OF assms(1)] assms(2) redis_append_db finish_append_db by (fastforce split: option.splits)

lemma conv_step_ok:
  assumes "conv_step cf sid w w'" and "sane_config cf" and "world_ok cf w"
  shows "world_ok cf w'"
  using assms(1)
proof cases
  case (request e c res c')
  with assms(2,3) show ?thesis using conversation_append_good conversation_append_db by (auto simp: world_ok_def)
next
  case (elsewhere e c other res c' w1)
  then have "db_ok (vw_db w1)" using assms(3) conversation_append_db by (auto simp: world_ok_def)
  with elsewhere assms(3) show ?thesis by (simp add: world_ok_def)
next
  case (delete r now turn out r')
  with assms(3) show ?thesis using window_good_delete by (auto simp: world_ok_def)
next
  case (delete_last r now out r')
  with assms(3) show ?thesis using window_good_delete_last by (auto simp: world_ok_def)
next
  case (clear r)
  with assms(2,3) show ?thesis by (simp add: world_ok_def window_good_empty)
next
  case (expire r)
  with assms(2,3) show ?thesis by (simp add: world_ok_def window_good_empty expire_window_def)
next
  case (summary r now ms mt answer out r' db')
  then have "window_good cf r'" using assms(3) window_good_cong [OF finish_summary_frame [OF summary(3)]] by (simp add: world_ok_def)
  with summary assms(3) show ?thesis using finish_summary_ok by (auto simp: world_ok_def)
next
  case (idle r now job out r')
  then have "window_good cf r'" using assms(3) window_good_cong [OF run_idle_check_frame [OF idle(3)]] by (simp add: world_ok_def)
  with idle assms(3) show ?thesis by (simp add: world_ok_def)
next
  case (create now sid' user tenant assistant title row db')
  with assms(3) show ?thesis using session_ops_ok(1) by (auto simp: world_ok_def create_session_def)
next
  case (status sid' user st out db')
  then have "db_ok db'" using assms(3) session_ops_ok(3) [OF _ status(2)] by (simp add: world_ok_def)
  with status assms(3) show ?thesis by (simp add: world_ok_def)
next
  case (title sid' user ti out db')
  then have "db_ok db'" using assms(3) session_ops_ok(4) [OF _ title(2)] by (simp add: world_ok_def)
  with title assms(3) show ?thesis by (simp add: world_ok_def)
next
  case (assistant ex sid' user as out db')
  then have "db_ok db'" using assms(3) session_ops_ok(5) [OF _ assistant(2)] by (simp add: world_ok_def)
  with assistant assms(3) show ?thesis by (simp add: world_ok_def)
qed



end
