(* ===== verification/Bandit_Arms.thy ===== *)
theory Bandit_Arms
  imports Py_Value
begin

section \<open>Bandit arms\<close>

text \<open>
  The state of the arms of src/app/models/bandit.py and \<open>BanditRepository\<close> of
  src/app/repositories/bandit_repository.py: the rows, and the cache in Redis whose entries carry the
  version of the configuration under which they were written. Serializing a state keeps every field.
  An entry that expires is dropped by \<open>drop_entry\<close>; \<open>flush_redis\<close> is a restart of Redis.
\<close>

record arm_state =
  ba_model :: "string option"
  ba_scene :: string
  ba_arm :: string
  ba_metric :: "string option"
  ba_strategy :: string
  ba_epsilon :: rat
  ba_alpha :: rat
  ba_beta :: rat
  ba_trials :: int
  ba_successes :: int
  ba_failures :: int
  ba_latency :: int
  ba_p95 :: "rat option"
  ba_cost :: rat
  ba_reward :: rat
  ba_cooldown :: "rat option"
  ba_version :: int

type_synonym arm_key = "string \<times> string"

text \<open>What the cache holds: the version tag and the serialized state.\<close>

record arm_store =
  bs_rows :: "(arm_key, arm_state) dict"
  bs_online :: bool
  bs_version :: "int option"
  bs_cache :: "(arm_key, int \<times> arm_state) dict"

definition arms_version :: "arm_store \<Rightarrow> int option" where
  "arms_version s = (if bs_online s then bs_version s else None)"

definition arms_bump :: "arm_store \<Rightarrow> int option \<times> arm_store" where
  "arms_bump s =
     (if \<not> bs_online s then (None, s)
      else let v = (case bs_version s of None \<Rightarrow> 1 | Some n \<Rightarrow> n + 1) in (Some v, s\<lparr>bs_version := Some v\<rparr>))"

abbreviation tag_of :: "int option \<Rightarrow> int" where
  "tag_of version \<equiv> (case version of None \<Rightarrow> 0 | Some v \<Rightarrow> v)"

definition arms_cache_put :: "arm_key \<Rightarrow> int option \<Rightarrow> arm_state \<Rightarrow> arm_store \<Rightarrow> arm_store" where
  "arms_cache_put k version st s =
     (if bs_online s then s\<lparr>bs_cache := dput k (tag_of version, st) (bs_cache s)\<rparr> else s)"

subsection \<open>Reading\<close>

text \<open>\<open>_deserialize_state\<close> of the wrapper around a cached state: none of the fields is where it is looked for.\<close>

definition blank_state :: arm_state where
  "blank_state = \<lparr>ba_model = None, ba_scene = ''router:llm'', ba_arm = [], ba_metric = None, ba_strategy = [], ba_epsilon = 1 / 10,
     ba_alpha = 1, ba_beta = 1, ba_trials = 0, ba_successes = 0, ba_failures = 0, ba_latency = 0, ba_p95 = None, ba_cost = 0,
     ba_reward = 0, ba_cooldown = None, ba_version = 1\<rparr>"

text \<open>\<open>get_with_version\<close>: without an expected version the wrapper itself comes back.\<close>

definition cached_state :: "arm_key \<Rightarrow> int option \<Rightarrow> arm_store \<Rightarrow> arm_state option" where
  "cached_state k expected s =
     (if \<not> bs_online s then None
      else case dget (bs_cache s) k of
        None \<Rightarrow> None
      | Some (tag, st) \<Rightarrow>
          (case expected of
             None \<Rightarrow> Some blank_state
           | Some v \<Rightarrow> if tag = v then Some st else None))"

fun split_cached :: "string \<Rightarrow> int option \<Rightarrow> arm_store \<Rightarrow> string list \<Rightarrow> (string, arm_state) dict \<times> string list" where
  "split_cached scene version s [] = ([], [])"
| "split_cached scene version s (a # as) =
     (case split_cached scene version s as of
        (found, missing) \<Rightarrow>
          (case cached_state (scene, a) version s of
             Some st \<Rightarrow> (dput a st found, missing)
           | None \<Rightarrow> (found, a # missing)))"

definition fill_from_db :: "string \<Rightarrow> int option \<Rightarrow> string \<Rightarrow> (string, arm_state) dict \<times> arm_store \<Rightarrow> (string, arm_state) dict \<times> arm_store" where
  "fill_from_db scene version a acc =
     (case acc of (found, s) \<Rightarrow>
        (case dget (bs_rows s) (scene, a) of
           None \<Rightarrow> (found, s)
         | Some row \<Rightarrow> (dput a row found, arms_cache_put (scene, a) version row s)))"

definition get_states_map :: "string \<Rightarrow> string list \<Rightarrow> arm_store \<Rightarrow> (string, arm_state) dict \<times> arm_store" where
  "get_states_map scene ids s =
     (let version = arms_version s
      in case split_cached scene version s ids of
           (found, missing) \<Rightarrow> fold (fill_from_db scene version) missing (found, s))"

subsection \<open>Feedback\<close>

text \<open>The fields of a routing configuration that feedback looks at.\<close>

record feedback_config =
  fc_strategy :: "string option"
  fc_epsilon :: "rat option"
  fc_alpha :: "rat option"
  fc_beta :: "rat option"
  fc_threshold :: int
  fc_cooldown :: int

definition default_feedback :: feedback_config where
  "default_feedback = \<lparr>fc_strategy = None, fc_epsilon = None, fc_alpha = None, fc_beta = None, fc_threshold = 5, fc_cooldown = 60\<rparr>"

definition or_default :: "rat option \<Rightarrow> rat \<Rightarrow> rat" where
  "or_default v d = (case v of None \<Rightarrow> d | Some x \<Rightarrow> if x = 0 then d else x)"

definition new_arm :: "(string \<Rightarrow> bool) \<Rightarrow> arm_key \<Rightarrow> string option \<Rightarrow> feedback_config \<Rightarrow> arm_state" where
  "new_arm is_uuid k metric fc = blank_state\<lparr>ba_model := (if fst k = ''router:llm'' \<and> is_uuid (snd k) then Some (snd k) else None),
     ba_scene := fst k, ba_arm := snd k, ba_metric := metric,
     ba_strategy := (if str_truthy (fc_strategy fc) then the (fc_strategy fc) else ''epsilon_greedy''),
     ba_epsilon := or_default (fc_epsilon fc) (1 / 10), ba_alpha := or_default (fc_alpha fc) 1, ba_beta := or_default (fc_beta fc) 1\<rparr>"

definition ensure_state :: "(string \<Rightarrow> bool) \<Rightarrow> arm_key \<Rightarrow> string option \<Rightarrow> feedback_config \<Rightarrow> arm_store \<Rightarrow> arm_state \<times> arm_store" where
  "ensure_state is_uuid k metric fc s =
     (case dget (bs_rows s) k of
        Some st \<Rightarrow> (st, s)
      | None \<Rightarrow>
          let st = new_arm is_uuid k metric fc
          in case arms_bump (s\<lparr>bs_rows := dput k st (bs_rows s)\<rparr>) of
               (v, s1) \<Rightarrow> (st, arms_cache_put k v st s1))"

record feedback =
  fb_success :: bool
  fb_latency :: "rat option"
  fb_cost :: "rat option"
  fb_reward :: "rat option"

definition apply_feedback :: "feedback_config \<Rightarrow> rat \<Rightarrow> feedback \<Rightarrow> arm_state \<Rightarrow> arm_state" where
  "apply_feedback fc now f st =
     (let st1 = st\<lparr>ba_trials := ba_trials st + 1\<rparr>;
          st2 = (if fb_success f then st1\<lparr>ba_successes := ba_successes st1 + 1, ba_failures := max (ba_failures st1 - 1) 0\<rparr>
                 else st1\<lparr>ba_failures := ba_failures st1 + 1\<rparr>);
          st3 = (case fb_latency f of None \<Rightarrow> st2
                 | Some l \<Rightarrow> st2\<lparr>ba_latency := ba_latency st2 + (if 0 \<le> l then \<lfloor>l\<rfloor> else \<lceil>l\<rceil>), ba_p95 := Some l\<rparr>);
          st4 = (case fb_cost f of None \<Rightarrow> st3 | Some x \<Rightarrow> st3\<lparr>ba_cost := ba_cost st3 + x\<rparr>);
          st5 = (case fb_reward f of None \<Rightarrow> st4 | Some x \<Rightarrow> st4\<lparr>ba_reward := x\<rparr>)
      in if \<not> fb_success f \<and> fc_threshold fc \<le> ba_failures st5 then st5\<lparr>ba_cooldown := Some (now + of_int (fc_cooldown fc))\<rparr>
         else if fb_success f then st5\<lparr>ba_cooldown := None\<rparr> else st5)"

definition write_arm :: "arm_key \<Rightarrow> arm_state \<Rightarrow> arm_store \<Rightarrow> arm_store" where
  "write_arm k st s =
     (case arms_bump (s\<lparr>bs_rows := dput k st (bs_rows s)\<rparr>) of (v, s1) \<Rightarrow> arms_cache_put k v st s1)"

definition record_feedback :: "(string \<Rightarrow> bool) \<Rightarrow> arm_key \<Rightarrow> string option \<Rightarrow> feedback_config \<Rightarrow> rat \<Rightarrow> feedback \<Rightarrow> arm_store \<Rightarrow>
    arm_state \<times> arm_store" where
  "record_feedback is_uuid k metric fc now f s =
     (case ensure_state is_uuid k metric fc s of
        (st, s1) \<Rightarrow> (apply_feedback fc now f st, write_arm k (apply_feedback fc now f st) s1))"

definition lift_cooldown :: "arm_key \<Rightarrow> arm_store \<Rightarrow> arm_store" where
  "lift_cooldown k s =
     (case dget (bs_rows s) k of
        None \<Rightarrow> s
      | Some st \<Rightarrow> s\<lparr>bs_rows := dput k (st\<lparr>ba_cooldown := None\<rparr>) (bs_rows s)\<rparr>)"

definition in_cooldown :: "rat \<Rightarrow> arm_state option \<Rightarrow> bool" where
  "in_cooldown now st = (case st of Some a \<Rightarrow> (case ba_cooldown a of Some t \<Rightarrow> now < t | None \<Rightarrow> False) | None \<Rightarrow> False)"

definition drop_entry :: "arm_key \<Rightarrow> arm_store \<Rightarrow> arm_store" where
  "drop_entry k s = s\<lparr>bs_cache := AList.delete k (bs_cache s)\<rparr>"

definition flush_redis :: "arm_store \<Rightarrow> arm_store" where
  "flush_redis s = s\<lparr>bs_cache := [], bs_version := None\<rparr>"

subsection \<open>Reports\<close>

record arm_report =
  rp_arm :: string
  rp_trials :: int
  rp_rate :: rat
  rp_ratio :: rat
  rp_avg_latency :: rat

definition ratio :: "rat \<Rightarrow> int \<Rightarrow> rat" where
  "ratio x n = (if n = 0 then 0 else x / of_int n)"

definition report_row :: "int \<Rightarrow> arm_state \<Rightarrow> arm_report" where
  "report_row all_trials st = \<lparr>rp_arm = ba_arm st, rp_trials = ba_trials st, rp_rate = ratio (of_int (ba_successes st)) (ba_trials st),
     rp_ratio = ratio (of_int (ba_trials st)) all_trials, rp_avg_latency = ratio (of_int (ba_latency st)) (ba_trials st)\<rparr>"

text \<open>\<open>get_report\<close> over the rows that its joins leave: the entry of a row names a variable that does not exist.\<close>

definition get_report :: "arm_state list \<Rightarrow> exn + arm_report list" where
  "get_report rows = (if rows = [] then Inr [] else Inl (OtherError ''NameError'' ''item''))"

definition get_skill_report :: "string option \<Rightarrow> (arm_state \<Rightarrow> bool) \<Rightarrow> arm_store \<Rightarrow> arm_report list" where
  "get_skill_report skill has_status s =
     (let rows = filter (\<lambda>st. ba_scene st = ''retrieval:skill'' \<and>
            (case skill of None \<Rightarrow> True | Some i \<Rightarrow> i = [] \<or> ba_arm st = ''skill__'' @ i) \<and> has_status st) (map snd (bs_rows s))
      in map (report_row (sum_list (map ba_trials rows))) rows)"

subsection \<open>The counters of an arm\<close>

definition arm_ok :: "arm_state \<Rightarrow> bool" where
  "arm_ok st \<longleftrightarrow> 0 \<le> ba_successes st \<and> 0 \<le> ba_failures st \<and> ba_successes st + ba_failures st \<le> ba_trials st"

lemma arm_ok_new [simp]: "arm_ok (new_arm is_uuid k metric fc)"
  by (simp add: arm_ok_def new_arm_def blank_state_def)

lemma apply_feedback_fields:
  "ba_trials (apply_feedback fc now f st) = ba_trials st + 1"
  "ba_successes (apply_feedback fc now f st) = (if fb_success f then ba_successes st + 1 else ba_successes st)"
  "ba_failures (apply_feedback fc now f st) = (if fb_success f then max (ba_failures st - 1) 0 else ba_failures st + 1)"
  "ba_cooldown (apply_feedback fc now f st) =
     (if fb_success f then None else if fc_threshold fc \<le> ba_failures st + 1 then Some (now + of_int (fc_cooldown fc)) else ba_cooldown st)"
  by (auto simp: apply_feedback_def Let_def split: option.splits)

lemma arm_ok_feedback: "arm_ok st \<Longrightarrow> arm_ok (apply_feedback fc now f st)"
  by (auto simp: arm_ok_def apply_feedback_fields)

subsection \<open>The cache never contradicts the rows\<close>

text \<open>Tags do not exceed the version, and an entry under the current version is the row.\<close>

definition arms_ok :: "arm_store \<Rightarrow> bool" where
  "arms_ok s \<longleftrightarrow> bs_online s \<and> (\<forall>k st. dget (bs_rows s) k = Some st \<longrightarrow> arm_ok st) \<and>
     (\<forall>k tag st. dget (bs_cache s) k = Some (tag, st) \<longrightarrow>
        tag \<le> tag_of (bs_version s) \<and> (bs_version s = Some tag \<longrightarrow> dget (bs_rows s) k = Some st))"

lemma arms_okD: "arms_ok s \<Longrightarrow> dget (bs_rows s) k = Some st \<Longrightarrow> arm_ok st"
  by (cases k) (auto simp: arms_ok_def)

lemma arms_ok_write:
  assumes "arms_ok s" and "arm_ok st"
  shows "arms_ok (write_arm k st s) \<and> dget (bs_rows (write_arm k st s)) k = Some st"
proof -
  let ?v = "tag_of (bs_version s) + 1"
  have w: "write_arm k st s = s\<lparr>bs_rows := dput k st (bs_rows s), bs_version := Some ?v, bs_cache := dput k (?v, st) (bs_cache s)\<rparr>"
    using assms(1) by (simp add: write_arm_def arms_bump_def arms_cache_put_def Let_def arms_ok_def split: option.split)
  have "tag \<le> tag_of (bs_version s)" if "dget (bs_cache s) k' = Some (tag, st')" for k' tag st'
    using assms(1) that by (cases k') (auto simp: arms_ok_def)
  then have "tag \<le> ?v \<and> (?v = tag \<longrightarrow> dget (dput k st (bs_rows s)) k' = Some st')"
    if "dget (dput k (?v, st) (bs_cache s)) k' = Some (tag, st')" for k' tag st'
    using that by (cases "k' = k") fastforce+
  then have "arms_ok (write_arm k st s)"
    using assms arms_okD [OF assms(1)] unfolding w arms_ok_def by (simp del: dget_dput) (simp add: arms_ok_def)
  then show ?thesis by (simp add: w)
qed

lemma arms_ok_ensure:
  assumes "ensure_state is_uuid k metric fc s = (st, s')" and "arms_ok s"
  shows "arms_ok s' \<and> dget (bs_rows s') k = Some st \<and> arm_ok st"
proof (cases "dget (bs_rows s) k")
  case None
  then have "s' = write_arm k (new_arm is_uuid k metric fc) s" "st = new_arm is_uuid k metric fc"
    using assms(1) by (auto simp: ensure_state_def write_arm_def Let_def split: prod.splits)
  with arms_ok_write [OF assms(2) arm_ok_new] show ?thesis by simp
next
  case (Some row)
  with assms arms_okD [OF assms(2) Some] show ?thesis by (auto simp: ensure_state_def)
qed

lemma arms_ok_feedback:
  assumes "record_feedback is_uuid k metric fc now f s = (st, s')" and "arms_ok s"
  shows "arms_ok s' \<and> dget (bs_rows s') k = Some st"
proof -
  obtain st0 s1 where e: "ensure_state is_uuid k metric fc s = (st0, s1)" by fastforce
  from arms_ok_ensure [OF e assms(2)] arm_ok_feedback have "arms_ok s1" "arm_ok (apply_feedback fc now f st0)" by auto
  from arms_ok_write [OF this, of k] assms(1) e show ?thesis by (auto simp: record_feedback_def)
qed

lemma arms_ok_cache_put:
  "arms_ok s \<Longrightarrow> dget (bs_rows s) k = Some row \<Longrightarrow> arms_ok (arms_cache_put k (bs_version s) row s)"
  by (auto simp: arms_ok_def arms_cache_put_def)

lemma cached_state_fresh:
  "arms_ok s \<Longrightarrow> bs_version s = Some v \<Longrightarrow> cached_state k (Some v) s = Some st \<Longrightarrow> dget (bs_rows s) k = Some st"
  by (cases k) (auto simp: cached_state_def arms_ok_def split: option.splits if_splits)

lemma split_cached_spec:
  assumes "arms_ok s" and "bs_version s = Some v"
  shows "split_cached scene (Some v) s ids = (found, missing) \<Longrightarrow>
    set missing \<subseteq> set ids \<and> (\<forall>a. dget found a = (if a \<in> set ids \<and> cached_state (scene, a) (Some v) s \<noteq> None then dget (bs_rows s) (scene, a) else None)) \<and>
    (\<forall>a \<in> set ids. cached_state (scene, a) (Some v) s = None \<longrightarrow> a \<in> set missing)"
proof (induction ids arbitrary: found missing)
  case (Cons a ids)
  obtain f m where r: "split_cached scene (Some v) s ids = (f, m)" by fastforce
  from Cons.IH [OF r] Cons.prems r cached_state_fresh [OF assms, of "(scene, a)"] show ?case
    by (auto split: option.splits)
qed simp

lemma fill_spec:
  assumes "arms_ok s"
  shows "fold (fill_from_db scene (bs_version s)) missing (found, s) = (found', s') \<Longrightarrow>
    arms_ok s' \<and> bs_rows s' = bs_rows s \<and> bs_version s' = bs_version s \<and>
    (\<forall>a. dget found' a = (if a \<in> set missing \<and> dget (bs_rows s) (scene, a) \<noteq> None then dget (bs_rows s) (scene, a) else dget found a))"
  using assms
proof (induction missing arbitrary: found s)
  case (Cons a missing)
  show ?case
  proof (cases "dget (bs_rows s) (scene, a)")
    case None
    then have "fill_from_db scene (bs_version s) a (found, s) = (found, s)" by (simp add: fill_from_db_def)
    with Cons.prems have "fold (fill_from_db scene (bs_version s)) missing (found, s) = (found', s')" by simp
    from Cons.IH [OF this Cons.prems(2)] None show ?thesis by auto
  next
    case (Some row)
    let ?s1 = "arms_cache_put (scene, a) (bs_version s) row s"
    have ok: "arms_ok ?s1" by (rule arms_ok_cache_put [OF Cons.prems(2) Some])
    have frame: "bs_rows ?s1 = bs_rows s" "bs_version ?s1 = bs_version s" by (simp_all add: arms_cache_put_def)
    from Some have "fill_from_db scene (bs_version s) a (found, s) = (dput a row found, ?s1)" by (simp add: fill_from_db_def)
    with Cons.prems have "fold (fill_from_db scene (bs_version ?s1)) missing (dput a row found, ?s1) = (found', s')" by (simp add: frame)
    from Cons.IH [OF this ok] Some frame show ?thesis by auto
  qed
qed simp

lemma get_states_map_ok:
  assumes "arms_ok s" and "get_states_map scene ids s = (found, s')"
  shows "arms_ok s'" and "bs_version s = Some v \<Longrightarrow> dget found a = (if a \<in> set ids then dget (bs_rows s) (scene, a) else None)"
proof -
  have version: "arms_version s = bs_version s" using assms(1) by (simp add: arms_version_def arms_ok_def)
  obtain f m where sp: "split_cached scene (bs_version s) s ids = (f, m)" by fastforce
  have fill: "fold (fill_from_db scene (bs_version s)) m (f, s) = (found, s')"
    using assms(2) version by (simp add: get_states_map_def sp)
  from fill_spec [OF assms(1) fill] show "arms_ok s'" by simp
  assume v: "bs_version s = Some v"
  from split_cached_spec [OF assms(1) v sp [unfolded v]] fill_spec [OF assms(1) fill]
  show "dget found a = (if a \<in> set ids then dget (bs_rows s) (scene, a) else None)" by auto
qed

text \<open>Everything that happens to the arms; \<open>lift_cooldown\<close> is no part of it.\<close>

inductive arms_step :: "arm_store \<Rightarrow> arm_store \<Rightarrow> bool" where
  fed: "record_feedback is_uuid k metric fc now f s = (st, s') \<Longrightarrow> arms_step s s'"
| read: "get_states_map scene ids s = (found, s') \<Longrightarrow> arms_step s s'"
| dropped: "arms_step s (drop_entry k s)"
| flushed: "arms_step s (flush_redis s)"

definition no_arms :: arm_store where
  "no_arms = \<lparr>bs_rows = [], bs_online = True, bs_version = None, bs_cache = []\<rparr>"

lemma arms_step_ok: "arms_step s s' \<Longrightarrow> arms_ok s \<Longrightarrow> arms_ok s'"
proof (induction rule: arms_step.induct)
  case (fed is_uuid k metric fc now f s st s')
  then show ?case using arms_ok_feedback by blast
next
  case (read scene ids s found s')
  then show ?case using get_states_map_ok(1) by blast
next
  case (dropped s k)
  then show ?case by (auto simp: arms_ok_def drop_entry_def delete_conv' split: if_splits)
next
  case (flushed s)
  then show ?case by (simp add: arms_ok_def flush_redis_def)
qed

lemma arms_reachable_ok: "arms_step\<^sup>*\<^sup>* no_arms s \<Longrightarrow> arms_ok s"
proof (induction rule: rtranclp_induct)
  case base
  show ?case by (simp add: arms_ok_def no_arms_def)
next
  case (step y z)
  then show ?case by (blast intro: arms_step_ok)
qed


definition failed_call :: feedback where
  "failed_call = \<lparr>fb_success = False, fb_latency = Some 100, fb_cost = None, fb_reward = Some 0\<rparr>"

definition fed_once :: arm_store where
  "fed_once = snd (record_feedback (\<lambda>_. True) (''router:llm'', ''m'') None default_feedback 0 failed_call no_arms)"


text \<open>Lifting a cool-down does not reach a reader: the cached state keeps it.\<close>

lemma lifted_cooldown_stays_cached:
  "(let s = snd (record_feedback (\<lambda>_. True) (''router:llm'', ''m'') None (default_feedback\<lparr>fc_threshold := 1\<rparr>) 0 failed_call no_arms);
        s' = lift_cooldown (''router:llm'', ''m'') s
    in map_option ba_cooldown (dget (fst (get_states_map ''router:llm'' [''m''] s')) ''m'') = Some (Some 60) \<and>
       map_option ba_cooldown (dget (bs_rows s') (''router:llm'', ''m'')) = Some None)"
  by code_simp

text \<open>After a restart of Redis there is no version: the first read fills the cache, the second takes the wrapper
  for the state and finds an arm that was never tried.\<close>

lemma unversioned_states_forgotten:
  "(case get_states_map ''router:llm'' [''m''] (flush_redis fed_once) of (first, s') \<Rightarrow>
     map_option ba_trials (dget first ''m'') = Some 1 \<and>
     map_option ba_trials (dget (fst (get_states_map ''router:llm'' [''m''] s')) ''m'') = Some 0)"
  by code_simp

text \<open>Two feedbacks that read before either writes count once.\<close>

lemma concurrent_feedback_lost:
  "(case ensure_state (\<lambda>_. True) (''router:llm'', ''m'') None default_feedback fed_once of (st, s) \<Rightarrow>
     map_option ba_trials (dget (bs_rows (write_arm (''router:llm'', ''m'') (apply_feedback default_feedback 1 failed_call st)
       (write_arm (''router:llm'', ''m'') (apply_feedback default_feedback 2 failed_call st) s))) (''router:llm'', ''m'')) = Some 2 \<and>
     ba_trials st = 1)"
  by code_simp

text \<open>An exploration rate or prior of 0 in the configuration is replaced by the default.\<close>

lemma zero_epsilon_ignored: "ba_epsilon (new_arm is_uuid k metric (default_feedback\<lparr>fc_epsilon := Some 0\<rparr>)) = 1 / 10"
  by (simp add: new_arm_def or_default_def)

end
