(* ===== verification/Routing_Choice.thy ===== *)
theory Routing_Choice
  imports Bandit_Arms Py_Text Base_Step Routing_Affinity "HOL-Library.Product_Lexorder" "HOL-Library.Multiset"
begin

section \<open>Choosing an upstream\<close>

text \<open>
  \<open>RoutingSelector.choose\<close> of src/app/services/providers/routing_selector.py and its strategies. What
  \<open>random\<close> draws is an argument: \<open>dr_gray\<close> for the gray release, \<open>dr_unit\<close> and \<open>dr_index\<close> for the
  exploration, \<open>dr_point\<close> for \<open>random.choices\<close>, all but the index in the unit interval, and \<open>dr_beta\<close> for the
  samples of the Thompson strategy. The candidates are assembled from the tables in Routing_Candidates.
\<close>

record candidate =
  rc_model :: string
  rc_provider :: string
  rc_weight :: int
  rc_priority :: int
  rc_routing :: "(string, pyval) dict"
  rc_credential :: "string option"
  rc_alias :: "string option"
  rc_state :: "arm_state option"
  rc_rest :: "(string, pyval) dict"

record draws =
  dr_gray :: "nat \<Rightarrow> rat"
  dr_unit :: rat
  dr_index :: nat
  dr_point :: rat
  dr_beta :: "nat \<Rightarrow> rat"

text \<open>\<open>float(v)\<close>; a text is read in decimal notation without an exponent.\<close>

definition decimal_of_text :: "string \<Rightarrow> rat option" where
  "decimal_of_text s =
     (case split_on (CHR ''.'') (str_strip s) of
        [a] \<Rightarrow> map_option of_int (int_of_text a)
      | [a, b] \<Rightarrow>
          (case (if a = [] \<or> a = ''-'' \<or> a = ''+'' then (if b = [] then None else Some 0) else int_of_text a,
                 if b = [] then Some 0 else if list_all is_digit b then int_of_text b else None) of
             (Some i, Some f) \<Rightarrow>
               let frac = of_int f / 10 ^ length b
               in Some (if starts_with a ''-'' then of_int i - frac else of_int i + frac)
           | _ \<Rightarrow> None)
      | _ \<Rightarrow> None)"

definition float_of :: "pyval \<Rightarrow> exn + rat" where
  "float_of v =
     (case v of PInt i \<Rightarrow> Inr (of_int i) | PFloat r \<Rightarrow> Inr r | PBool b \<Rightarrow> Inr (if b then 1 else 0)
      | PStr s \<Rightarrow> (case decimal_of_text s of Some r \<Rightarrow> Inr r | None \<Rightarrow> Inl (ValueError ''could not convert string to float''))
      | _ \<Rightarrow> Inl (OtherError ''TypeError'' []))"

subsection \<open>Gray release\<close>

definition gray_ratio :: "candidate \<Rightarrow> pyval" where
  "gray_ratio c = py_get (rc_routing c) ''gray_ratio'' PNone"

text \<open>A number is drawn only for a ratio strictly between 0 and 1.\<close>

fun gray_select :: "(nat \<Rightarrow> rat) \<Rightarrow> nat \<Rightarrow> candidate list \<Rightarrow> candidate list" where
  "gray_select draw k [] = []"
| "gray_select draw k (c # cs) =
     (case (if gray_ratio c = PNone then Inl (OtherError [] []) else float_of (gray_ratio c)) of
        Inl _ \<Rightarrow> c # gray_select draw k cs
      | Inr r \<Rightarrow>
          if r \<le> 0 then gray_select draw k cs
          else if 1 \<le> r then c # gray_select draw k cs
          else if draw k < r then c # gray_select draw (Suc k) cs
          else gray_select draw (Suc k) cs)"

definition apply_gray :: "(nat \<Rightarrow> rat) \<Rightarrow> candidate list \<Rightarrow> candidate list" where
  "apply_gray draw cs =
     (if list_all (\<lambda>c. gray_ratio c = PNone) cs then cs
      else let selected = gray_select draw 0 cs in if selected = [] then cs else selected)"

subsection \<open>Weights\<close>

text \<open>\<open>random.choices\<close>: the first element whose cumulated weight exceeds the point, the last one at the latest.\<close>

fun pick_index :: "rat \<Rightarrow> int list \<Rightarrow> nat" where
  "pick_index x [] = 0"
| "pick_index x [w] = 0"
| "pick_index x (w # ws) = (if x < of_int w then 0 else Suc (pick_index (x - of_int w) ws))"

definition top_priority :: "candidate list \<Rightarrow> candidate list" where
  "top_priority cs = filter (\<lambda>c. rc_priority c = Max (rc_priority ` set cs)) cs"

definition draw_weight :: "candidate \<Rightarrow> int" where
  "draw_weight c = (if max (rc_weight c) 0 = 0 then 1 else max (rc_weight c) 0)"

definition weighted_choice :: "rat \<Rightarrow> candidate list \<Rightarrow> exn + candidate" where
  "weighted_choice u cs =
     (if cs = [] then Inl (ValueError ''no candidates available'')
      else let top = top_priority cs; ws = map draw_weight top
           in Inr (top ! pick_index (u * of_int (sum_list ws)) ws))"

subsection \<open>Bandits\<close>

text \<open>\<open>max(xs, key=f)\<close>: the first of the largest.\<close>

fun first_max :: "('a \<Rightarrow> 'b :: linorder) \<Rightarrow> 'a \<Rightarrow> 'a list \<Rightarrow> 'a" where
  "first_max f best [] = best"
| "first_max f best (x # xs) = first_max f (if f best < f x then x else best) xs"

definition max_by :: "('a \<Rightarrow> 'b :: linorder) \<Rightarrow> 'a list \<Rightarrow> 'a" where
  "max_by f xs = first_max f (hd xs) (tl xs)"

definition greedy_score :: "rat \<Rightarrow> rat \<Rightarrow> string option \<Rightarrow> candidate \<Rightarrow> rat" where
  "greedy_score target bonus affinity c =
     (let extra = (case rc_state c of
            Some st \<Rightarrow> if str_truthy affinity \<and> affinity = Some (rc_model c) \<and> 0 \<le> ba_trials st then bonus else 0
          | None \<Rightarrow> 0)
      in case rc_state c of
           Some st \<Rightarrow>
             if 0 < ba_trials st then
               let rate = of_int (ba_successes st) / of_int (ba_trials st);
                   penalty = (case ba_p95 st of Some l \<Rightarrow> if l = 0 then 0 else min (l / max target 1) (3 / 2) * (2 / 10) | None \<Rightarrow> 0)
               in rate - penalty + of_int (rc_weight c) / 10000 + extra
             else of_int (if rc_weight c = 0 then 1 else rc_weight c) + extra
         | None \<Rightarrow> of_int (if rc_weight c = 0 then 1 else rc_weight c) + extra)"

definition untried :: "candidate \<Rightarrow> bool" where
  "untried c = (case rc_state c of None \<Rightarrow> True | Some st \<Rightarrow> ba_trials st = 0)"

definition explored :: "candidate \<Rightarrow> bool" where
  "explored c = (case rc_state c of None \<Rightarrow> False | Some st \<Rightarrow> 0 < ba_trials st)"

definition ucb_score :: "int \<Rightarrow> candidate \<Rightarrow> real" where
  "ucb_score n c =
     (case rc_state c of
        Some st \<Rightarrow> of_int (ba_successes st) / of_int (ba_trials st) + sqrt (2 * ln (of_int n) / of_int (ba_trials st))
      | None \<Rightarrow> 0)"

definition ucb_choice :: "candidate list \<Rightarrow> candidate" where
  "ucb_choice cs =
     (let n = sum_list (map (\<lambda>c. case rc_state c of Some st \<Rightarrow> ba_trials st | None \<Rightarrow> 0) (filter explored cs))
      in case (if length (filter explored cs) < length cs then filter untried cs else []) of
           c # _ \<Rightarrow> c
         | [] \<Rightarrow> max_by (ucb_score (if n = 0 then 1 else n)) cs)"

definition beta_params :: "candidate \<Rightarrow> (rat \<times> rat) option" where
  "beta_params c =
     (case rc_state c of
        None \<Rightarrow> None
      | Some st \<Rightarrow>
          let a = (if ba_alpha st = 0 then 1 else ba_alpha st) + of_int (ba_successes st);
              b = (if ba_beta st = 0 then 1 else ba_beta st) + of_int (ba_failures st)
          in if a \<le> 0 \<or> b \<le> 0 then None else Some (a, b))"

definition thompson_choice :: "draws \<Rightarrow> candidate list \<Rightarrow> exn + candidate" where
  "thompson_choice d cs =
     (if list_all (\<lambda>c. beta_params c \<noteq> None) cs
      then Inr (snd (max_by fst (zip (map (dr_beta d) [0..<length cs]) cs)))
      else weighted_choice (dr_point d) cs)"

definition bandit_choice :: "draws \<Rightarrow> rat \<Rightarrow> (string, pyval) dict \<Rightarrow> string option \<Rightarrow> candidate list \<Rightarrow> exn + candidate" where
  "bandit_choice d bonus config affinity cs =
     (let strategy = py_get config ''strategy'' (PStr ''epsilon_greedy'')
      in if strategy = PStr ''ucb1'' then Inr (ucb_choice cs)
         else if strategy = PStr ''thompson'' then thompson_choice d cs
         else if strategy \<noteq> PStr ''epsilon_greedy'' \<and> strategy \<noteq> PStr ''bandit'' then weighted_choice (dr_point d) cs
         else bindR (float_of (py_get config ''epsilon'' (PFloat (1 / 10)))) (\<lambda>epsilon.
           if dr_unit d < epsilon then Inr (cs ! (dr_index d mod length cs))
           else if list_ex (\<lambda>c. explored c \<and> (case rc_state c of Some st \<Rightarrow> ba_p95 st \<noteq> None \<and> ba_p95 st \<noteq> Some 0 | None \<Rightarrow> False)) cs
           then bindR (float_of (py_get config ''latency_target_ms'' (PInt 3000))) (\<lambda>target.
             Inr (max_by (greedy_score target bonus affinity) cs))
           else Inr (max_by (greedy_score 0 bonus affinity) cs)))"

subsection \<open>The choice\<close>

definition by_rank :: "candidate \<Rightarrow> int \<times> int" where
  "by_rank c = (- rc_priority c, - rc_weight c)"

text \<open>\<open>RoutingSelector.choose\<close>; \<open>affinity\<close> is what the cache holds for the prefix of the messages.\<close>

definition choose_upstream :: "draws \<Rightarrow> rat \<Rightarrow> string option \<Rightarrow> candidate list \<Rightarrow> exn + candidate \<times> candidate list \<times> bool" where
  "choose_upstream d bonus affinity candidates =
     (if candidates = [] then Inl (ValueError ''no candidates available'')
      else
        let cs = apply_gray (dr_gray d) candidates;
            config = rc_routing (hd cs);
            bandit = (py_get config ''strategy'' (PStr ''weight'') = PStr ''bandit'')
        in bindR (if bandit then bandit_choice d bonus config affinity cs else weighted_choice (dr_point d) cs) (\<lambda>primary.
             Inr (primary, filter (\<lambda>c. c \<noteq> primary) (sort_key by_rank cs),
               bandit \<and> str_truthy affinity \<and> affinity = Some (rc_model primary))))"

subsection \<open>What is chosen\<close>

lemma gray_select_sub: "set (gray_select draw k cs) \<subseteq> set cs"
  by (induction cs arbitrary: k) (auto split: sum.splits if_splits dest: subsetD)

lemma apply_gray_sub: "cs \<noteq> [] \<Longrightarrow> apply_gray draw cs \<noteq> [] \<and> set (apply_gray draw cs) \<subseteq> set cs"
  using gray_select_sub [of draw 0 cs] by (auto simp: apply_gray_def Let_def)

lemma gray_select_off: "c \<in> set (gray_select draw k cs) \<Longrightarrow> float_of (gray_ratio c) = Inr r \<Longrightarrow> gray_ratio c \<noteq> PNone \<Longrightarrow> 0 < r"
  by (induction cs arbitrary: k) (auto split: sum.splits if_splits)

lemma pick_index_less: "ws \<noteq> [] \<Longrightarrow> pick_index x ws < length ws"
  by (induction x ws rule: pick_index.induct) auto

lemma top_priority_max:
  assumes "cs \<noteq> []"
  shows "top_priority cs \<noteq> [] \<and> set (top_priority cs) \<subseteq> set cs \<and> (\<forall>c \<in> set (top_priority cs). \<forall>c' \<in> set cs. rc_priority c' \<le> rc_priority c)"
proof -
  have "Max (rc_priority ` set cs) \<in> rc_priority ` set cs" by (rule Max_in) (use assms in auto)
  then have "top_priority cs \<noteq> []" by (auto simp: top_priority_def filter_empty_conv)
  then show ?thesis by (auto simp: top_priority_def)
qed

lemma weighted_choice_top:
  assumes "weighted_choice u cs = Inr c"
  shows "c \<in> set cs \<and> (\<forall>c' \<in> set cs. rc_priority c' \<le> rc_priority c)"
proof -
  have cs: "cs \<noteq> []" and c: "c = top_priority cs ! pick_index (u * of_int (sum_list (map draw_weight (top_priority cs)))) (map draw_weight (top_priority cs))"
    using assms by (auto simp: weighted_choice_def Let_def split: if_splits)
  have "c \<in> set (top_priority cs)" unfolding c using top_priority_max [OF cs] pick_index_less [of "map draw_weight (top_priority cs)"] by simp
  with top_priority_max [OF cs] show ?thesis by blast
qed

lemma weighted_choice_total: "cs \<noteq> [] \<Longrightarrow> \<exists>c. weighted_choice u cs = Inr c"
  by (simp add: weighted_choice_def Let_def)

lemma first_max_in: "first_max f b xs \<in> insert b (set xs)"
  by (induction f b xs rule: first_max.induct) auto

lemma max_by_in: "xs \<noteq> [] \<Longrightarrow> max_by f xs \<in> set xs"
  using first_max_in [of f "hd xs" "tl xs"] by (cases xs) (auto simp: max_by_def)

lemma filter_head_in: "filter P xs = y # ys \<Longrightarrow> y \<in> set xs"
  by (metis filter_is_subset list.set_intros(1) subsetD)

lemma ucb_choice_in: "cs \<noteq> [] \<Longrightarrow> ucb_choice cs \<in> set cs"
  unfolding ucb_choice_def Let_def
  by (simp add: max_by_in split: list.split if_split) (blast intro: filter_head_in)

lemma bandit_choice_in:
  assumes "bandit_choice d bonus config affinity cs = Inr c" and "cs \<noteq> []"
  shows "c \<in> set cs"
proof -
  have "thompson_choice d cs = Inr c \<Longrightarrow> c \<in> set cs"
    using max_by_in [of "zip (map (dr_beta d) [0..<length cs]) cs" fst] assms(2) weighted_choice_top
    by (auto simp: thompson_choice_def split: if_splits dest: set_zip_rightD) (metis prod.collapse set_zip_rightD)
  moreover have "cs ! (k mod length cs) \<in> set cs" for k using assms(2) by simp
  ultimately show ?thesis
    using assms weighted_choice_top ucb_choice_in max_by_in
    by (auto simp: bandit_choice_def Let_def bindR_Inr split: if_splits)
qed

lemma sort_filter_ranked: "sorted (map f (filter P (sort_key f xs)))"
  by (rule sorted_filter) (rule sorted_sort_key)

lemma choose_Inr:
  assumes "choose_upstream d bonus affinity candidates = Inr (primary, backups, hit)"
  shows "candidates \<noteq> []"
    and "backups = filter (\<lambda>c. c \<noteq> primary) (sort_key by_rank (apply_gray (dr_gray d) candidates))"
    and "primary \<in> set (apply_gray (dr_gray d) candidates)"
    and "hit \<Longrightarrow> affinity = Some (rc_model primary)"
  using assms apply_gray_sub [of candidates "dr_gray d"] weighted_choice_top bandit_choice_in
  by (auto simp: choose_upstream_def Let_def bindR_Inr split: if_splits)

lemma choose_weighted:
  assumes "choose_upstream d bonus affinity candidates = Inr (primary, backups, hit)"
    and "py_get (rc_routing (hd (apply_gray (dr_gray d) candidates))) ''strategy'' (PStr ''weight'') \<noteq> PStr ''bandit''"
    and "c \<in> set (apply_gray (dr_gray d) candidates)"
  shows "rc_priority c \<le> rc_priority primary"
  using assms weighted_choice_top by (auto simp: choose_upstream_def Let_def bindR_Inr split: if_splits)

text \<open>C16: whatever is drawn, the primary upstream is one of the candidates that passed the gray release, the backups
  are the other ones, by falling priority and weight, and unless the strategy is \<open>bandit\<close> no candidate has a
  higher priority than the primary; an affinity hit is reported only for the upstream the affinity names.
\<close>
theorem choose_sound:
  assumes "choose_upstream d bonus affinity candidates = Inr (primary, backups, hit)"
  shows "primary \<in> set (apply_gray (dr_gray d) candidates)
    \<and> set (apply_gray (dr_gray d) candidates) \<subseteq> set candidates
    \<and> set backups = set (apply_gray (dr_gray d) candidates) - {primary}
    \<and> sorted (map by_rank backups)
    \<and> (py_get (rc_routing (hd (apply_gray (dr_gray d) candidates))) ''strategy'' (PStr ''weight'') \<noteq> PStr ''bandit'' \<longrightarrow>
        (\<forall>c \<in> set (apply_gray (dr_gray d) candidates). rc_priority c \<le> rc_priority primary))
    \<and> (hit \<longrightarrow> affinity = Some (rc_model primary))"
proof (intro conjI impI ballI)
  note facts = choose_Inr [OF assms]
  show "primary \<in> set (apply_gray (dr_gray d) candidates)" by (rule facts(3))
  show "set (apply_gray (dr_gray d) candidates) \<subseteq> set candidates" using apply_gray_sub [OF facts(1)] by blast
  show "set backups = set (apply_gray (dr_gray d) candidates) - {primary}" unfolding facts(2) by auto
  show "sorted (map by_rank backups)" unfolding facts(2) by (rule sort_filter_ranked)
  show "rc_priority c \<le> rc_priority primary"
    if "py_get (rc_routing (hd (apply_gray (dr_gray d) candidates))) ''strategy'' (PStr ''weight'') \<noteq> PStr ''bandit''"
      and "c \<in> set (apply_gray (dr_gray d) candidates)" for c
    using choose_weighted [OF assms that] .
  show "affinity = Some (rc_model primary)" if hit using facts(4) [OF that] .
qed

lemma other_strategies_weighted:
  assumes "candidates \<noteq> []"
    and "py_get (rc_routing (hd (apply_gray (dr_gray d) candidates))) ''strategy'' (PStr ''weight'') \<noteq> PStr ''bandit''"
  shows "choose_upstream d bonus affinity candidates
    = bindR (weighted_choice (dr_point d) (apply_gray (dr_gray d) candidates)) (\<lambda>primary.
        Inr (primary, filter (\<lambda>c. c \<noteq> primary) (sort_key by_rank (apply_gray (dr_gray d) candidates)), False))"
  using assms by (simp add: choose_upstream_def Let_def)

definition witness_candidate :: "string \<Rightarrow> int \<Rightarrow> int \<Rightarrow> candidate" where
  "witness_candidate n w p =
     \<lparr>rc_model = n, rc_provider = ''openai'', rc_weight = w, rc_priority = p, rc_routing = [], rc_credential = None,
      rc_alias = Some ''default'', rc_state = None, rc_rest = []\<rparr>"

definition witness_draws :: draws where
  "witness_draws = \<lparr>dr_gray = (\<lambda>_. 0), dr_unit = 0, dr_index = 0, dr_point = 3 / 4, dr_beta = (\<lambda>_. 0)\<rparr>"

text \<open>C16 at two candidates of one priority.\<close>
theorem choose_sound_witness:
  "set [witness_candidate ''m1'' 100 5, witness_candidate ''m3'' 100 0]
     = set (apply_gray (dr_gray witness_draws) [witness_candidate ''m1'' 100 5, witness_candidate ''m2'' 100 5, witness_candidate ''m3'' 100 0])
       - {witness_candidate ''m2'' 100 5}"
proof -
  have *: "choose_upstream witness_draws (1 / 2) None
      [witness_candidate ''m1'' 100 5, witness_candidate ''m2'' 100 5, witness_candidate ''m3'' 100 0]
    = Inr (witness_candidate ''m2'' 100 5, [witness_candidate ''m1'' 100 5, witness_candidate ''m3'' 100 0], False)"
    by (subst other_strategies_weighted) code_simp+
  show ?thesis using choose_sound [OF *] by blast
qed

subsection \<open>Shares\<close>

text \<open>
  With non-negative weights the candidate at index \<open>i\<close> is drawn for the points of an interval as long as its weight, so for a
  uniform point its chance is its share of the sum.
\<close>

lemma pick_index_interval:
  assumes "\<forall>w \<in> set ws. 0 < w" and "0 \<le> x" and "x < of_int (sum_list ws)" and "i < length ws"
  shows "pick_index x ws = i \<longleftrightarrow> of_int (sum_list (take i ws)) \<le> x \<and> x < of_int (sum_list (take (Suc i) ws))"
  using assms
proof (induction x ws arbitrary: i rule: pick_index.induct)
  case (3 x w v ws)
  have pos: "0 \<le> sum_list (take j (v # ws))" for j
    using "3.prems"(1) by (intro sum_list_nonneg) (auto dest!: in_set_takeD intro: less_imp_le)
  show ?case
  proof (cases "x < of_int w")
    case True
    have "0 < sum_list (take j (v # ws)) + (w :: int)" for j using pos [of j] "3.prems"(1) by simp
    show ?thesis
    proof (cases i)
      case 0
      with True "3.prems" show ?thesis by simp
    next
      case (Suc k)
      have "x < of_int (w + sum_list (take k (v # ws)))" using True pos [of k] by (simp add: order_less_le_trans)
      with Suc True show ?thesis by (simp add: not_le)
    qed
  next
    case False
    show ?thesis
    proof (cases i)
      case 0
      with False show ?thesis by simp
    next
      case (Suc k)
      have "pick_index (x - of_int w) (v # ws) = k \<longleftrightarrow>
          of_int (sum_list (take k (v # ws))) \<le> x - of_int w \<and> x - of_int w < of_int (sum_list (take (Suc k) (v # ws)))"
        using "3.IH" [OF False] "3.prems" False Suc by simp
      with False Suc show ?thesis by (simp add: algebra_simps)
    qed
  qed
qed auto

lemma draw_weight_pos: "0 < draw_weight c"
  by (auto simp: draw_weight_def max_def)

text \<open>The index drawn in the highest priority class, as a share of the cumulated weights.\<close>

lemma weighted_choice_share:
  assumes "cs \<noteq> []" and "0 \<le> u" and "u < 1" and "i < length (top_priority cs)"
    and "ws = map draw_weight (top_priority cs)"
    and "of_int (sum_list (take i ws)) \<le> u * of_int (sum_list ws)"
    and "u * of_int (sum_list ws) < of_int (sum_list (take (Suc i) ws))"
  shows "weighted_choice u cs = Inr (top_priority cs ! i)"
proof -
  have pos: "\<forall>w \<in> set ws. 0 < w" using assms(5) draw_weight_pos by auto
  have "sum_list (take (Suc i) ws) \<le> sum_list ws"
    using pos sum_list_nonneg [of "drop (Suc i) ws"] by (metis append_take_drop_id in_set_dropD le_add_same_cancel1 less_le sum_list_append)
  then have "u * of_int (sum_list ws) < of_int (sum_list ws)" using assms(7) by (meson of_int_le_iff order_less_le_trans)
  moreover have "0 \<le> u * of_int (sum_list ws)" using assms(2) pos sum_list_nonneg [of ws] by (simp add: less_imp_le)
  ultimately have "pick_index (u * of_int (sum_list ws)) ws = i"
    using pick_index_interval [OF pos, of "u * of_int (sum_list ws)" i] assms by simp
  then show ?thesis using assms by (simp add: weighted_choice_def Let_def)
qed

subsection \<open>What is ignored\<close>

text \<open>The dates until which arms cool down after failures play no part: with others the same model is chosen.\<close>

definition with_cooldown :: "(arm_state \<Rightarrow> rat option) \<Rightarrow> candidate \<Rightarrow> candidate" where
  "with_cooldown f c = c\<lparr>rc_state := map_option (\<lambda>st. st\<lparr>ba_cooldown := f st\<rparr>) (rc_state c)\<rparr>"

lemma with_cooldown_fields [simp]:
  "rc_model (with_cooldown f c) = rc_model c" "rc_priority (with_cooldown f c) = rc_priority c"
  "rc_weight (with_cooldown f c) = rc_weight c" "rc_routing (with_cooldown f c) = rc_routing c"
  "gray_ratio (with_cooldown f c) = gray_ratio c" "draw_weight (with_cooldown f c) = draw_weight c"
  by (simp_all add: with_cooldown_def gray_ratio_def draw_weight_def)

lemma with_cooldown_scores [simp]:
  "explored (with_cooldown f c) = explored c" "untried (with_cooldown f c) = untried c"
  "greedy_score target bonus affinity (with_cooldown f c) = greedy_score target bonus affinity c"
  by (cases "rc_state c"; simp add: with_cooldown_def explored_def untried_def greedy_score_def)+

lemma gray_select_map: "gray_select draw k (map (with_cooldown f) cs) = map (with_cooldown f) (gray_select draw k cs)"
  by (induction cs arbitrary: k) (simp_all split: sum.split)

lemma apply_gray_map: "apply_gray draw (map (with_cooldown f) cs) = map (with_cooldown f) (apply_gray draw cs)"
  by (simp add: apply_gray_def Let_def gray_select_map list_all_iff)

lemma top_priority_map: "top_priority (map (with_cooldown f) cs) = map (with_cooldown f) (top_priority cs)"
  by (simp add: top_priority_def filter_map o_def image_image)

lemma weighted_choice_map:
  "weighted_choice u (map (with_cooldown f) cs) = map_sum id (with_cooldown f) (weighted_choice u cs)"
proof (cases "cs = []")
  case False
  then have "pick_index x (map draw_weight (top_priority cs)) < length (top_priority cs)" for x
    using top_priority_max [of cs] pick_index_less [of "map draw_weight (top_priority cs)"] by simp
  with False show ?thesis by (simp add: weighted_choice_def Let_def top_priority_map o_def)
qed (simp add: weighted_choice_def)

lemma first_max_map:
  assumes "\<And>x. score (g x) = score x"
  shows "first_max score (g b) (map g xs) = g (first_max score b xs)"
proof (induction xs arbitrary: b)
  case (Cons x xs)
  show ?case using Cons.IH [of b] Cons.IH [of x] by (simp add: assms)
qed simp

lemma max_by_map: "(\<And>x. score (g x) = score x) \<Longrightarrow> xs \<noteq> [] \<Longrightarrow> max_by score (map g xs) = g (max_by score xs)"
  by (cases xs) (simp_all add: max_by_def first_max_map)

lemma latency_map:
  "(case rc_state (with_cooldown f c) of Some st \<Rightarrow> ba_p95 st \<noteq> None \<and> ba_p95 st \<noteq> Some 0 | None \<Rightarrow> False)
   = (case rc_state c of Some st \<Rightarrow> ba_p95 st \<noteq> None \<and> ba_p95 st \<noteq> Some 0 | None \<Rightarrow> False)"
  by (cases "rc_state c") (simp_all add: with_cooldown_def)

lemma greedy_choice_map:
  assumes "cs \<noteq> []" and "py_get config ''strategy'' (PStr ''weight'') = PStr ''bandit''"
  shows "bandit_choice d bonus config affinity (map (with_cooldown f) cs)
    = map_sum id (with_cooldown f) (bandit_choice d bonus config affinity cs)"
proof -
  have "py_get config ''strategy'' (PStr ''epsilon_greedy'') = PStr ''bandit''"
    using assms(2) by (auto simp: py_get_def split: option.splits)
  then show ?thesis
    using assms(1)
    by (auto simp: bandit_choice_def list_ex_iff latency_map max_by_map bindR_def split: sum.splits)
qed

text \<open>
  C0: the cooldown an arm earns by failing repeatedly is never looked at when an upstream is chosen: with any
  other cooldown dates the same model is primary.
\<close>
theorem cooldown_ignored:
  "map_sum id (\<lambda>(p, _). rc_model p) (choose_upstream d bonus affinity (map (with_cooldown f) candidates))
   = map_sum id (\<lambda>(p, _). rc_model p) (choose_upstream d bonus affinity candidates)"
proof (cases "candidates = []")
  case False
  then have ne: "apply_gray (dr_gray d) candidates \<noteq> []" using apply_gray_sub by blast
  let ?cs = "apply_gray (dr_gray d) candidates"
  have "hd (map (with_cooldown f) ?cs) = with_cooldown f (hd ?cs)" using ne by (simp add: hd_map)
  with False ne show ?thesis
    by (simp add: choose_upstream_def Let_def apply_gray_map weighted_choice_map greedy_choice_map bindR_def split: sum.split)
qed (simp add: choose_upstream_def)

text \<open>
  The strategies UCB1 and Thompson sampling are never entered: only the strategy named \<open>bandit\<close> leaves the
  weights, and by that name it is the epsilon-greedy one.
\<close>

lemma beta_samples_unused: "choose_upstream (d\<lparr>dr_beta := b\<rparr>) bonus affinity candidates = choose_upstream d bonus affinity candidates"
proof -
  have "bandit_choice (d\<lparr>dr_beta := b\<rparr>) bonus config affinity cs = bandit_choice d bonus config affinity cs"
    if "py_get config ''strategy'' (PStr ''weight'') = PStr ''bandit''" for config cs
    using that by (auto simp: bandit_choice_def bindR_def py_get_def split: option.splits sum.splits)
  then show ?thesis by (simp add: choose_upstream_def Let_def)
qed

end
