(* ===== verification/Provider_Config.thy ===== *)
theory Provider_Config
  imports Py_Value Py_Text
begin

section \<open>Provider configuration\<close>

text \<open>
  The pure helpers below the provider code of src/app/services/providers: the merge patch and the path
  extractor of config_utils.py, the upstream address of upstream_url.py, the credentials' header of
  auth_resolver.py and the access rule of src/app/utils/provider_model_access.py.
\<close>

subsection \<open>Dynamic values\<close>

text \<open>The type tests \<open>isinstance(v, dict)\<close>, \<open>list\<close>, \<open>str\<close>, and \<open>v.get(k, default)\<close> on any value.\<close>

fun a_dict :: "pyval \<Rightarrow> bool" where
  "a_dict (PDict d) = True"
| "a_dict _ = False"

fun a_list :: "pyval \<Rightarrow> bool" where
  "a_list (PList xs) = True"
| "a_list _ = False"

fun a_str :: "pyval \<Rightarrow> bool" where
  "a_str (PStr s) = True"
| "a_str _ = False"

fun as_list :: "pyval \<Rightarrow> pyval list" where
  "as_list (PList xs) = xs"
| "as_list _ = []"

definition no_attribute :: exn where
  "no_attribute = OtherError ''AttributeError'' ''object has no attribute''"

fun get_of :: "pyval \<Rightarrow> string \<Rightarrow> pyval \<Rightarrow> exn + pyval" where
  "get_of (PDict d) k dflt = Inr (py_get d k dflt)"
| "get_of _ k dflt = Inl no_attribute"

lemma a_dict_iff: "a_dict v \<longleftrightarrow> (\<exists>d. v = PDict d)"
  by (cases v) auto

lemma a_list_iff: "a_list v \<longleftrightarrow> (\<exists>d. v = PList d)"
  by (cases v) auto

lemma a_str_iff: "a_str v \<longleftrightarrow> (\<exists>d. v = PStr d)"
  by (cases v) auto

lemma py_or_simps [simp]:
  "py_or PNone v = v" "py_or (PStr (c # s)) v = PStr (c # s)" "py_or (PDict ((k, x) # d)) v = PDict ((k, x) # d)"
  by (simp_all add: py_or_def)

subsection \<open>Merge patch\<close>

text \<open>\<open>deep_merge\<close>: None deletes a key, dictionaries merge, everything else overwrites.\<close>

function (sequential) deep_merge :: "(string, pyval) dict \<Rightarrow> (string, pyval) dict \<Rightarrow> (string, pyval) dict" where
  "deep_merge base [] = base"
| "deep_merge base ((k, PNone) # ov) = deep_merge (AList.delete k base) ov"
| "deep_merge base ((k, PDict d) # ov) =
     (case dget base k of
        Some (PDict b) \<Rightarrow> deep_merge (dput k (PDict (deep_merge b d)) base) ov
      | _ \<Rightarrow> deep_merge (dput k (PDict d) base) ov)"
| "deep_merge base ((k, v) # ov) = deep_merge (dput k v base) ov"
  by pat_completeness auto
termination
  by (relation "measure (\<lambda>(base, ov). size (PDict ov))") auto

text \<open>What a patch makes of one value, given the value there was.\<close>

definition patched :: "pyval option \<Rightarrow> pyval \<Rightarrow> pyval option" where
  "patched old new =
     (case new of
        PNone \<Rightarrow> None
      | PDict d \<Rightarrow> (case old of Some (PDict b) \<Rightarrow> Some (PDict (deep_merge b d)) | _ \<Rightarrow> Some (PDict d))
      | _ \<Rightarrow> Some new)"

lemma dget_delete: "dget (AList.delete k d) k' = (if k' = k then None else dget d k')"
  by (simp add: delete_conv')

lemma deep_merge_step: "deep_merge base ((k, v) # ov) =
    deep_merge (case patched (dget base k) v of None \<Rightarrow> AList.delete k base | Some w \<Rightarrow> dput k w base) ov"
  by (cases v) (auto simp: patched_def split: option.split pyval.split)

lemma deep_merge_get:
  assumes "dict_wf override"
  shows "dget (deep_merge base override) k =
    (case dget override k of None \<Rightarrow> dget base k | Some v \<Rightarrow> patched (dget base k) v)"
  using assms
proof (induction override arbitrary: base)
  case (Cons kv ov)
  obtain k0 v0 where kv: "kv = (k0, v0)" by (cases kv)
  let ?b = "case patched (dget base k0) v0 of None \<Rightarrow> AList.delete k0 base | Some w \<Rightarrow> dput k0 w base"
  have wf: "dict_wf ov" and fresh: "dget ov k0 = None"
    using Cons.prems kv by (auto simp: dict_wf_def dget_None_iff)
  have b: "dget ?b k' = (if k' = k0 then patched (dget base k0) v0 else dget base k')" for k'
    by (auto simp: dget_delete split: option.splits)
  show ?case
    unfolding kv deep_merge_step Cons.IH [OF wf] b using fresh by (auto split: option.splits)
qed simp

lemma deep_merge_wf: "dict_wf base \<Longrightarrow> dict_wf (deep_merge base override)"
proof (induction override arbitrary: base)
  case (Cons kv ov)
  obtain k v where kv: "kv = (k, v)" by (cases kv)
  have "dict_wf (AList.delete k base)" using Cons.prems by (simp add: dict_wf_def distinct_delete)
  then show ?case unfolding kv deep_merge_step using Cons by (auto split: option.splits)
qed simp

text \<open>
  A value that is new keeps the Nones inside it, unlike in RFC 7386, so that merging the same patch a second
  time deletes what the first time wrote.
\<close>

lemma merge_twice_differs:
  "let patch = [(''headers'', PDict [(''X'', PNone)])]
   in deep_merge [] patch = [(''headers'', PDict [(''X'', PNone)])] \<and>
      deep_merge (deep_merge [] patch) patch = [(''headers'', PDict [])]"
  by code_simp

subsection \<open>Paths\<close>

text \<open>\<open>extract_by_path\<close>: one part after the other, through dictionaries by key and lists by decimal index.\<close>

fun follow_path :: "pyval \<Rightarrow> string list \<Rightarrow> pyval" where
  "follow_path v [] = v"
| "follow_path (PList xs) (p # ps) =
     (if p \<noteq> [] \<and> list_all is_digit p
      then (case int_of_text p of
              Some i \<Rightarrow> if i < 0 \<or> int (length xs) \<le> i then PNone else follow_path (xs ! nat i) ps
            | None \<Rightarrow> PNone)
      else PNone)"
| "follow_path (PDict d) (p # ps) = (case dget d p of None \<Rightarrow> PNone | Some v \<Rightarrow> follow_path v ps)"
| "follow_path _ (p # ps) = PNone"

definition extract_by_path :: "pyval \<Rightarrow> string option \<Rightarrow> pyval" where
  "extract_by_path data path =
     (case path of None \<Rightarrow> PNone | Some p \<Rightarrow> if p = [] then data else follow_path data (split_on (CHR ''.'') p))"

lemma follow_path_append: "follow_path v (ps @ qs) = (if follow_path v ps = PNone \<and> qs \<noteq> [] then PNone else follow_path (follow_path v ps) qs)"
proof (induction v ps rule: follow_path.induct)
  case (1 v)
  then show ?case by (cases qs) (cases v, auto)+
next
  case (2 xs p ps)
  then show ?case by (cases qs) (auto split: option.splits)
next
  case (3 d p ps)
  then show ?case by (cases qs) (auto split: option.splits)
qed (cases qs; simp)+

subsection \<open>Upstream addresses\<close>

definition lstrip_slash :: "string \<Rightarrow> string" where
  "lstrip_slash s = dropWhile (\<lambda>c. c = CHR ''/'') s"

definition rstrip_slash :: "string \<Rightarrow> string" where
  "rstrip_slash s = rev (dropWhile (\<lambda>c. c = CHR ''/'') (rev s))"

text \<open>
  The search for \<open>/(?:api/)?v\d+(?:\.\d+)?(?:/|$)\<close> without regard to case; the text is lower-cased first.
  The path of an address is what \<open>urllib.parse.urlparse\<close> (an argument) makes of it, None where it raises.
\<close>

definition segment_end :: "string \<Rightarrow> bool" where
  "segment_end s = (s = [] \<or> hd s = CHR ''/'')"

definition version_here :: "string \<Rightarrow> bool" where
  "version_here s =
     (starts_with s ''v'' \<and>
      (let ds = takeWhile is_digit (tl s); rest = dropWhile is_digit (tl s)
       in ds \<noteq> [] \<and>
          (segment_end rest \<or>
           starts_with rest ''.'' \<and>
           (let es = takeWhile is_digit (tl rest) in es \<noteq> [] \<and> segment_end (dropWhile is_digit (tl rest))))))"

definition version_after_slash :: "string \<Rightarrow> bool" where
  "version_after_slash s =
     (starts_with s ''/'' \<and> (version_here (tl s) \<or> starts_with (tl s) ''api/'' \<and> version_here (drop 5 s)))"

definition has_versioned_path :: "(string \<Rightarrow> string option) \<Rightarrow> string \<Rightarrow> bool" where
  "has_versioned_path url_path base_url =
     (case url_path base_url of
        None \<Rightarrow> False
      | Some p \<Rightarrow> p \<noteq> [] \<and> list_ex version_after_slash (tails (str_lower (rstrip_slash p))))"

definition build_upstream_url :: "(string \<Rightarrow> string option) \<Rightarrow> string \<Rightarrow> string \<Rightarrow> string option \<Rightarrow> bool option \<Rightarrow> string" where
  "build_upstream_url url_path base_url upstream_path protocol auto_append =
     (let base = rstrip_slash base_url; path = lstrip_slash upstream_path;
          proto = str_lower (case protocol of Some p \<Rightarrow> p | None \<Rightarrow> []);
          append_v1 = (case auto_append of None \<Rightarrow> \<not> has_versioned_path url_path base | Some b \<Rightarrow> b);
          base' = (if \<not> str_contains proto ''azure'' \<and> str_contains proto ''openai'' \<and> append_v1 \<and> base \<noteq> [] \<and> \<not> ends_with base ''/v1''
                   then base @ ''/v1'' else base)
      in if path = [] then base' else base' @ ''/'' @ path)"

definition build_upstream_url_with_params ::
  "(string \<Rightarrow> string option) \<Rightarrow> string \<Rightarrow> string \<Rightarrow> string option \<Rightarrow> bool option \<Rightarrow> string option \<Rightarrow> string \<times> (string, pyval) dict" where
  "build_upstream_url_with_params url_path base_url upstream_path protocol auto_append api_version =
     (let base = rstrip_slash base_url; path = lstrip_slash upstream_path;
          proto = str_lower (case protocol of Some p \<Rightarrow> p | None \<Rightarrow> [])
      in if str_contains proto ''azure'' then
           (build_upstream_url url_path base path protocol (Some False),
            [(''api-version'', PStr (if str_truthy api_version then the api_version else ''2023-05-15''))])
         else if str_contains proto ''gemini'' \<or> str_contains proto ''google'' \<or> str_contains proto ''vertex'' then
           (build_upstream_url url_path base path protocol (Some False), [])
         else (build_upstream_url url_path base path protocol auto_append, []))"

lemma rstrip_slash_idem [simp]: "rstrip_slash (rstrip_slash s) = rstrip_slash s"
proof -
  have "dropWhile P (dropWhile P xs) = dropWhile P xs" for P and xs :: string by (induction xs) auto
  then show ?thesis by (simp add: rstrip_slash_def)
qed

lemma lstrip_slash_idem [simp]: "lstrip_slash (lstrip_slash s) = lstrip_slash s"
proof -
  have "dropWhile P (dropWhile P xs) = dropWhile P xs" for P and xs :: string by (induction xs) auto
  then show ?thesis by (simp add: lstrip_slash_def)
qed

lemma lstrip_slash_hd: "lstrip_slash s \<noteq> [] \<Longrightarrow> hd (lstrip_slash s) \<noteq> CHR ''/''"
  unfolding lstrip_slash_def by (rule hd_dropWhile)

lemma rstrip_slash_last: "rstrip_slash s \<noteq> [] \<Longrightarrow> List.last (rstrip_slash s) \<noteq> CHR ''/''"
  using hd_dropWhile [of "\<lambda>c. c = CHR ''/''" "rev s"] by (simp add: rstrip_slash_def last_rev del: dropWhile_eq_Nil_conv)

text \<open>Whatever slashes the parts have, the address has one slash between them.\<close>

lemma upstream_url_slashes:
  "build_upstream_url url_path (rstrip_slash b) (lstrip_slash p) protocol auto_append = build_upstream_url url_path b p protocol auto_append"
  by (simp add: build_upstream_url_def)

text \<open>
  For an OpenAI protocol the version is appended to an address without one and only there, and never to one
  that ends with it.
\<close>

lemma openai_version_once:
  assumes "str_contains (str_lower proto) ''openai''" and "\<not> str_contains (str_lower proto) ''azure''"
    and "rstrip_slash b \<noteq> []"
  shows "build_upstream_url url_path b [] (Some proto) None =
    (if has_versioned_path url_path (rstrip_slash b) \<or> ends_with (rstrip_slash b) ''/v1'' then rstrip_slash b
     else rstrip_slash b @ ''/v1'')"
  using assms by (simp add: build_upstream_url_def Let_def lstrip_slash_def)

text \<open>The address of Gemini's endpoint for OpenAI clients has the version \<open>v1beta\<close>, which is not recognized.\<close>

lemma beta_version_unseen:
  "build_upstream_url (\<lambda>u. Some ''/v1beta/openai'') ''https://generativelanguage.googleapis.com/v1beta/openai'' ''chat/completions''
     (Some ''openai'') None
   = ''https://generativelanguage.googleapis.com/v1beta/openai/v1/chat/completions''"
  by code_simp

subsection \<open>Authentication of the upstream call\<close>

definition opt_text :: "string option \<Rightarrow> string" where
  "opt_text s = (case s of None \<Rightarrow> [] | Some t \<Rightarrow> t)"

definition dict_setdefault :: "'k \<Rightarrow> 'v \<Rightarrow> ('k, 'v) dict \<Rightarrow> ('k, 'v) dict" where
  "dict_setdefault k v d = (if dget d k = None then dput k v d else d)"

text \<open>\<open>show\<close> is \<open>str(v)\<close>.\<close>

definition resolve_auth_for_protocol ::
  "(pyval \<Rightarrow> string) \<Rightarrow> string option \<Rightarrow> string option \<Rightarrow> string option \<Rightarrow> (string, pyval) dict \<Rightarrow> (string, pyval) dict \<Rightarrow>
    string \<times> (string, pyval) dict \<times> (string, string) dict" where
  "resolve_auth_for_protocol shown protocol provider auth_type auth_config default_headers =
     (let typ = (if str_truthy auth_type then the auth_type else ''bearer'');
          headers = map (\<lambda>(k, v). (k, shown v)) default_headers;
          proto = str_lower (str_strip (opt_text protocol));
          prov = str_lower (str_strip (opt_text provider))
      in if prov \<noteq> ''custom'' \<or> proto = [] then (typ, auth_config, headers)
         else if str_contains proto ''anthropic'' \<or> str_contains proto ''claude'' then
           (''api_key'', dput ''header'' (PStr ''x-api-key'') auth_config, dict_setdefault ''anthropic-version'' ''2023-06-01'' headers)
         else if str_contains proto ''azure'' then (''api_key'', dput ''header'' (PStr ''api-key'') auth_config, headers)
         else if str_contains proto ''gemini'' \<or> str_contains proto ''google'' \<or> str_contains proto ''vertex'' then
           (''api_key'', dput ''header'' (PStr ''x-goog-api-key'') auth_config, headers)
         else (''bearer'', auth_config, headers))"

text \<open>Only a custom provider's settings are changed, and of its configuration only the name of the header.\<close>

lemma resolve_auth_frame:
  assumes "resolve_auth_for_protocol shown protocol provider auth_type auth_config default_headers = (typ, cfg, headers)"
  shows "(k \<noteq> ''header'' \<longrightarrow> dget cfg k = dget auth_config k)
    \<and> (str_lower (str_strip (opt_text provider)) \<noteq> ''custom'' \<longrightarrow>
        cfg = auth_config \<and> typ = (if str_truthy auth_type then the auth_type else ''bearer''))"
  using assms by (auto simp: resolve_auth_for_protocol_def Let_def split: if_splits)

subsection \<open>Access to models that are sold\<close>

text \<open>
  A price as \<open>Decimal(str(raw))\<close> reads it: plain decimal notation, an infinity, or not a number, whose
  comparison with zero raises outside the guarded conversion.
\<close>

datatype price = Credits rat | Unbounded

definition signless :: "string \<Rightarrow> string" where
  "signless s = (if s \<noteq> [] \<and> (hd s = CHR ''-'' \<or> hd s = CHR ''+'') then tl s else s)"

definition price_of_number :: "rat \<Rightarrow> price option" where
  "price_of_number r = (if r \<le> 0 then None else Some (Credits r))"

definition decimal_text :: "string \<Rightarrow> rat option" where
  "decimal_text s =
     (let body = signless s; ip = takeWhile (\<lambda>c. c \<noteq> CHR ''.'') body; fp = tl (dropWhile (\<lambda>c. c \<noteq> CHR ''.'') body);
          digits = ip @ fp
      in if digits \<noteq> [] \<and> list_all is_digit digits
         then map_option (\<lambda>i. (if starts_with s ''-'' then - 1 else 1) * of_int i / 10 ^ length fp) (int_of_text digits)
         else None)"

definition parse_unlock_price_credits :: "(string, pyval) dict \<Rightarrow> exn + price option" where
  "parse_unlock_price_credits cfg =
     (case py_get cfg ''unlock_price_credits'' PNone of
        PInt i \<Rightarrow> Inr (price_of_number (of_int i))
      | PFloat r \<Rightarrow> Inr (price_of_number r)
      | PStr s \<Rightarrow>
          (let t = str_lower (signless (str_strip s))
           in if t = ''nan'' \<or> t = ''snan'' then Inl (OtherError ''InvalidOperation'' [])
              else if t = ''inf'' \<or> t = ''infinity'' then
                Inr (if starts_with (str_strip s) ''-'' then None else Some Unbounded)
              else case decimal_text (str_strip s) of Some r \<Rightarrow> Inr (price_of_number r) | None \<Rightarrow> Inr None)
      | _ \<Rightarrow> Inr None)"

definition requires_model_purchase :: "string option \<Rightarrow> string option \<Rightarrow> price option \<Rightarrow> bool" where
  "requires_model_purchase owner user price =
     (case price of None \<Rightarrow> False | Some _ \<Rightarrow> user \<noteq> None \<and> owner \<noteq> user)"

lemma price_positive: "parse_unlock_price_credits cfg = Inr (Some (Credits r)) \<Longrightarrow> 0 < r"
  by (auto simp: parse_unlock_price_credits_def price_of_number_def Let_def split: pyval.splits option.splits if_splits)

lemma nan_price_raises: "parse_unlock_price_credits [(''unlock_price_credits'', PStr ''NaN'')] = Inl (OtherError ''InvalidOperation'' [])"
  by code_simp

end
