(* ===== verification/Upstream_Transport.thy ===== *)
theory Upstream_Transport
  imports Provider_Config
begin

section \<open>Reaching an upstream\<close>

text \<open>
  How the upstream step of src/app/services/workflow/steps/upstream_call.py sends a request: the check of the
  address in src/app/utils/security.py, redirects, the proxies of src/app/services/proxy/proxy_pool.py and the
  repeated attempts. The network is an argument: what the n-th request of a run is answered with. Addresses are
  taken apart by \<open>ne_parse\<close> (None where \<open>urlparse\<close> raises), joined by \<open>ne_join\<close> and resolved by \<open>ne_resolve\<close>
  (None for a failed look-up); \<open>ne_blocked\<close> says whether a text is an address and lies in a blocked network.
\<close>

record parsed_url =
  pu_scheme :: string
  pu_host :: "string option"

record net_env =
  ne_parse :: "string \<Rightarrow> parsed_url option"
  ne_join :: "string \<Rightarrow> string \<Rightarrow> string"
  ne_resolve :: "string \<Rightarrow> string list option"
  ne_blocked :: "string \<Rightarrow> bool option"

record security_config =
  sec_whitelist :: "string list"
  sec_custom :: bool
  sec_internal :: bool

definition is_hostname_whitelisted :: "string \<Rightarrow> string list \<Rightarrow> bool" where
  "is_hostname_whitelisted hostname entries =
     (hostname \<noteq> [] \<and>
      list_ex (\<lambda>e. let allowed = str_strip (str_lower e); host = str_strip (str_lower hostname)
                   in allowed \<noteq> [] \<and>
                      (if starts_with allowed ''*.'' then ends_with host (drop 1 allowed) \<or> host = drop 2 allowed
                       else host = allowed)) entries)"

definition is_safe_upstream_url :: "security_config \<Rightarrow> net_env \<Rightarrow> string \<Rightarrow> bool" where
  "is_safe_upstream_url cfg env url =
     (if url = [] then False
      else case ne_parse env url of
             None \<Rightarrow> False
           | Some p \<Rightarrow>
               if pu_scheme p \<noteq> ''http'' \<and> pu_scheme p \<noteq> ''https'' then False
               else if \<not> str_truthy (pu_host p) then False
               else let host = the (pu_host p)
                    in if is_hostname_whitelisted host (sec_whitelist cfg) then True
                       else if \<not> sec_custom cfg then False
                       else if sec_internal cfg then True
                       else case ne_blocked env host of
                              Some b \<Rightarrow> \<not> b
                            | None \<Rightarrow>
                                (case ne_resolve env host of
                                   None \<Rightarrow> False
                                 | Some addrs \<Rightarrow> list_all (\<lambda>a. ne_blocked env a \<noteq> Some True) addrs))"

text \<open>What the check promises: the addresses a host has at the moment of the check lie in no blocked network.\<close>

definition reaches_blocked :: "net_env \<Rightarrow> string \<Rightarrow> bool" where
  "reaches_blocked env host \<longleftrightarrow>
     (case ne_blocked env host of
        Some b \<Rightarrow> b
      | None \<Rightarrow> (case ne_resolve env host of None \<Rightarrow> True | Some addrs \<Rightarrow> list_ex (\<lambda>a. ne_blocked env a = Some True) addrs))"

lemma safe_url_guard:
  assumes "is_safe_upstream_url cfg env url"
  obtains p where "ne_parse env url = Some p" and "pu_scheme p = ''http'' \<or> pu_scheme p = ''https''"
    and "str_truthy (pu_host p)"
    and "is_hostname_whitelisted (the (pu_host p)) (sec_whitelist cfg) \<or>
         sec_custom cfg \<and> (sec_internal cfg \<or> \<not> reaches_blocked env (the (pu_host p)))"
  using assms
  by (auto simp: is_safe_upstream_url_def reaches_blocked_def Let_def list_all_iff list_ex_iff split: option.splits if_splits)

subsection \<open>Requests and redirects\<close>

record http_request =
  hq_method :: string
  hq_url :: string
  hq_headers :: "(string, pyval) dict"
  hq_body :: pyval

datatype call_error =
    TimedOut
  | NetworkDown
  | BadStatus int pyval
  | Forbidden string
  | Failure exn

record answer =
  an_status :: int
  an_headers :: "(string, pyval) dict"
  an_body :: pyval
  an_bytes :: int

datatype http_reply = Answer answer | Redirect "string option" | Broken call_error

type_synonym network = "nat \<Rightarrow> http_request \<Rightarrow> http_reply"

definition max_redirects :: nat where
  "max_redirects = 3"

definition next_url :: "security_config \<Rightarrow> net_env \<Rightarrow> string \<Rightarrow> string option \<Rightarrow> call_error + string" where
  "next_url cfg env current location =
     (if \<not> str_truthy location \<or> ne_join env current (the location) = [] then Inl (Forbidden ''Upstream redirect missing location'')
      else if \<not> is_safe_upstream_url cfg env (ne_join env current (the location))
      then Inl (Forbidden ''Upstream redirect blocked by security policy'')
      else Inr (ne_join env current (the location)))"

text \<open>\<open>_request_with_redirects\<close>: the requests that were sent grow at the end; \<open>left\<close> is how many redirects may still be followed.\<close>

fun request_with_redirects ::
  "security_config \<Rightarrow> net_env \<Rightarrow> network \<Rightarrow> nat \<Rightarrow> http_request \<Rightarrow> http_request list \<Rightarrow> (call_error + answer) \<times> http_request list" where
  "request_with_redirects cfg env net left q sent =
     (case net (length sent) q of
        Answer a \<Rightarrow> (Inr a, sent @ [q])
      | Broken e \<Rightarrow> (Inl e, sent @ [q])
      | Redirect location \<Rightarrow>
          (case left of
             0 \<Rightarrow> (Inl (Forbidden ''Upstream redirect exceeds limit''), sent @ [q])
           | Suc left' \<Rightarrow>
               (case next_url cfg env (hq_url q) location of
                  Inl e \<Rightarrow> (Inl e, sent @ [q])
                | Inr u \<Rightarrow> request_with_redirects cfg env net left' (q\<lparr>hq_url := u\<rparr>) (sent @ [q]))))"

declare request_with_redirects.simps [simp del]

definition raise_for_status :: "answer \<Rightarrow> call_error + answer" where
  "raise_for_status a = (if 200 \<le> an_status a \<and> an_status a \<le> 299 then Inr a else Inl (BadStatus (an_status a) (an_body a)))"

subsection \<open>Proxies\<close>

text \<open>
  The pool in Redis: the endpoints that may be picked, their addresses and the times until which a failed one
  rests. Of the endpoints \<open>SRANDMEMBER\<close> returns the one at \<open>draw\<close>.
\<close>

record proxy_pool =
  px_online :: bool
  px_enabled :: bool
  px_cooldown_seconds :: rat
  px_available :: "string list"
  px_urls :: "(string, string) dict"
  px_resting :: "(string, rat) dict"

record proxy_selection =
  ps_url :: string
  ps_endpoint :: string

definition proxy_resting :: "rat \<Rightarrow> string \<Rightarrow> proxy_pool \<Rightarrow> bool" where
  "proxy_resting now e p = (case dget (px_resting p) e of Some t \<Rightarrow> now < t | None \<Rightarrow> False)"

definition drop_endpoint :: "string \<Rightarrow> proxy_pool \<Rightarrow> proxy_pool" where
  "drop_endpoint e p = p\<lparr>px_available := filter (\<lambda>x. x \<noteq> e) (px_available p)\<rparr>"

fun pick_proxy :: "rat \<Rightarrow> (nat \<Rightarrow> nat) \<Rightarrow> nat \<Rightarrow> string list \<Rightarrow> proxy_pool \<Rightarrow> proxy_selection option \<times> proxy_pool" where
  "pick_proxy now draw 0 tried p = (None, p)"
| "pick_proxy now draw (Suc tries) tried p =
     (if px_available p = [] then (None, p)
      else
        let e = px_available p ! (draw tries mod length (px_available p))
        in if e \<in> set tried then pick_proxy now draw tries tried p
           else if proxy_resting now e p then pick_proxy now draw tries tried (drop_endpoint e p)
           else case dget (px_urls p) e of
                  Some (c # u) \<Rightarrow> (Some \<lparr>ps_url = c # u, ps_endpoint = e\<rparr>, p)
                | _ \<Rightarrow> pick_proxy now draw tries tried (drop_endpoint e p))"

definition pick :: "rat \<Rightarrow> (nat \<Rightarrow> nat) \<Rightarrow> string list \<Rightarrow> proxy_pool \<Rightarrow> proxy_selection option \<times> proxy_pool" where
  "pick now draw tried p = (if \<not> px_online p \<or> \<not> px_enabled p then (None, p) else pick_proxy now draw 8 tried p)"

definition report_failure :: "rat \<Rightarrow> string \<Rightarrow> proxy_pool \<Rightarrow> proxy_pool" where
  "report_failure now e p =
     (if e = [] \<or> \<not> px_enabled p \<or> \<not> px_online p then p
      else (drop_endpoint e p)\<lparr>px_resting := dput e (now + px_cooldown_seconds p) (px_resting p)\<rparr>)"

lemma pick_proxy_fit:
  "pick_proxy now draw n tried p = (Some s, p') \<Longrightarrow>
   ps_endpoint s \<in> set (px_available p) \<and> ps_endpoint s \<notin> set tried \<and> \<not> proxy_resting now (ps_endpoint s) p
   \<and> dget (px_urls p) (ps_endpoint s) = Some (ps_url s) \<and> ps_url s \<noteq> []"
proof (induction n arbitrary: p)
  case (Suc n)
  let ?e = "px_available p ! (draw n mod length (px_available p))"
  have e: "px_available p \<noteq> [] \<Longrightarrow> ?e \<in> set (px_available p)" by simp
  have drop: "proxy_resting now x (drop_endpoint ?e p) = proxy_resting now x p" "px_urls (drop_endpoint ?e p) = px_urls p"
    "set (px_available (drop_endpoint ?e p)) \<subseteq> set (px_available p)" for x
    by (auto simp: proxy_resting_def drop_endpoint_def)
  show ?case
    using Suc.prems Suc.IH [of p] Suc.IH [of "drop_endpoint ?e p"] drop e
    by (fastforce simp: Let_def split: if_splits option.splits list.splits)
qed simp

subsection \<open>Attempts\<close>

text \<open>
  \<open>_call_upstream\<close>: one attempt more than the configured number, each with another proxy or directly; only time-outs
  and network errors lead to the next one. \<open>allowed\<close> is whether the models of the key admit the model of the request.
\<close>

datatype call_result = Refused | Answered answer

record transport =
  tr_sent :: "http_request list"
  tr_pool :: proxy_pool

definition retryable :: "call_error \<Rightarrow> bool" where
  "retryable e \<longleftrightarrow> e = TimedOut \<or> e = NetworkDown"

definition model_allowed :: "string list \<Rightarrow> string option \<Rightarrow> bool" where
  "model_allowed models model = (models = [] \<or> str_truthy model \<and> the model \<in> set models)"

definition attempt_once ::
  "security_config \<Rightarrow> net_env \<Rightarrow> network \<Rightarrow> http_request \<Rightarrow> transport \<Rightarrow> (call_error + answer) \<times> transport" where
  "attempt_once cfg env net q t =
     (case request_with_redirects cfg env net max_redirects q (tr_sent t) of
        (Inl e, sent) \<Rightarrow> (Inl e, t\<lparr>tr_sent := sent\<rparr>)
      | (Inr a, sent) \<Rightarrow> (raise_for_status a, t\<lparr>tr_sent := sent\<rparr>))"

fun call_attempts ::
  "security_config \<Rightarrow> net_env \<Rightarrow> network \<Rightarrow> rat \<Rightarrow> (nat \<Rightarrow> nat \<Rightarrow> nat) \<Rightarrow> http_request \<Rightarrow> nat \<Rightarrow> string list \<Rightarrow> transport \<Rightarrow>
    (call_error + answer) \<times> transport" where
  "call_attempts cfg env net now draw q 0 tried t = (Inl (Failure (OtherError ''RuntimeError'' ''Upstream call failed without error context'')), t)"
| "call_attempts cfg env net now draw q (Suc n) tried t =
     (case pick now (draw n) tried (tr_pool t) of
        (selection, pool) \<Rightarrow>
          (case attempt_once cfg env net q (t\<lparr>tr_pool := pool\<rparr>) of
             (Inr a, t1) \<Rightarrow> (Inr a, t1)
           | (Inl e, t1) \<Rightarrow>
               if \<not> retryable e then (Inl e, t1)
               else
                 let tried' = (case selection of Some s \<Rightarrow> ps_endpoint s # tried | None \<Rightarrow> tried);
                     t2 = (case selection of Some s \<Rightarrow> t1\<lparr>tr_pool := report_failure now (ps_endpoint s) (tr_pool t1)\<rparr> | None \<Rightarrow> t1)
                 in if n = 0 then (Inl e, t2) else call_attempts cfg env net now draw q n tried' t2))"

definition call_upstream ::
  "security_config \<Rightarrow> net_env \<Rightarrow> network \<Rightarrow> rat \<Rightarrow> (nat \<Rightarrow> nat \<Rightarrow> nat) \<Rightarrow> int \<Rightarrow> bool \<Rightarrow> http_request \<Rightarrow> transport \<Rightarrow>
    (call_error + call_result) \<times> transport" where
  "call_upstream cfg env net now draw retries allowed q t =
     (if \<not> allowed then (Inr Refused, t)
      else case call_attempts cfg env net now draw q (nat (max 1 (retries + 1))) [] t of
             (Inl e, t') \<Rightarrow> (Inl e, t')
           | (Inr a, t') \<Rightarrow> (Inr (Answered a), t'))"

subsection \<open>Streams\<close>

text \<open>
  \<open>_call_upstream_stream\<close>: what an attempt delivers before it ends, and how it ends. The next attempt starts the
  answer from its beginning; the error it ends with is noted in the accumulator where no further attempt follows.
\<close>

record stream_attempt =
  sa_chunks :: "string list"
  sa_end :: "call_error option"

fun stream_attempts :: "stream_attempt list \<Rightarrow> nat \<Rightarrow> string list \<times> call_error option" where
  "stream_attempts as 0 = ([], None)"
| "stream_attempts [] (Suc n) = ([], None)"
| "stream_attempts (a # as) (Suc n) =
     (case sa_end a of
        None \<Rightarrow> (sa_chunks a, None)
      | Some e \<Rightarrow>
          if \<not> retryable e \<or> n = 0 then (sa_chunks a, Some e)
          else (case stream_attempts as n of (cs, e') \<Rightarrow> (sa_chunks a @ cs, e')))"

text \<open>A connection that breaks within an answer leads to an answer that is passed on twice as far as it had come.\<close>

lemma broken_stream_restarts:
  "retryable e \<Longrightarrow> 0 < n \<Longrightarrow>
   stream_attempts [\<lparr>sa_chunks = before, sa_end = Some e\<rparr>, \<lparr>sa_chunks = before @ after, sa_end = None\<rparr>] (Suc n)
     = (before @ before @ after, None)"
  by (cases n) simp_all

subsection \<open>What is sent\<close>

definition same_but_url :: "http_request \<Rightarrow> http_request \<Rightarrow> bool" where
  "same_but_url q r \<longleftrightarrow> hq_method r = hq_method q \<and> hq_headers r = hq_headers q \<and> hq_body r = hq_body q"

definition sends_within :: "(http_request \<Rightarrow> bool) \<Rightarrow> nat \<Rightarrow> http_request list \<Rightarrow> http_request list \<Rightarrow> bool" where
  "sends_within P n before after \<longleftrightarrow> (\<exists>rs. after = before @ rs \<and> length rs \<le> n \<and> (\<forall>r \<in> set rs. P r))"

lemma sends_within_refl [simp]: "sends_within P n xs xs"
  by (simp add: sends_within_def)

lemma sends_within_trans: "sends_within P m xs ys \<Longrightarrow> sends_within P n ys zs \<Longrightarrow> sends_within P (m + n) xs zs"
  by (fastforce simp: sends_within_def)

lemma sends_within_mono: "sends_within P m xs ys \<Longrightarrow> m \<le> n \<Longrightarrow> (\<And>r. P r \<Longrightarrow> Q r) \<Longrightarrow> sends_within Q n xs ys"
  by (fastforce simp: sends_within_def)

lemma sends_within_one: "P q \<Longrightarrow> 0 < n \<Longrightarrow> sends_within P n xs (xs @ [q])"
  by (simp add: sends_within_def)

definition guarded :: "security_config \<Rightarrow> net_env \<Rightarrow> http_request \<Rightarrow> http_request \<Rightarrow> bool" where
  "guarded cfg env q r \<longleftrightarrow> is_safe_upstream_url cfg env (hq_url r) \<and> same_but_url q r"

lemma next_url_safe: "next_url cfg env u loc = Inr v \<Longrightarrow> is_safe_upstream_url cfg env v"
  by (auto simp: next_url_def split: if_splits)

lemma redirects_guarded:
  "is_safe_upstream_url cfg env (hq_url q) \<Longrightarrow>
   sends_within (guarded cfg env q) (Suc left) sent (snd (request_with_redirects cfg env net left q sent))"
proof (induction "left" arbitrary: q sent)
  case 0
  then have "guarded cfg env q q" by (simp add: guarded_def same_but_url_def)
  then show ?case
    by (subst request_with_redirects.simps) (auto intro: sends_within_one split: http_reply.split)
next
  case (Suc n)
  then have q: "guarded cfg env q q" by (simp add: guarded_def same_but_url_def)
  then have one: "sends_within (guarded cfg env q) (Suc (Suc n)) sent (sent @ [q])" by (rule sends_within_one) simp
  show ?case
  proof (cases "\<exists>loc v. net (length sent) q = Redirect loc \<and> next_url cfg env (hq_url q) loc = Inr v")
    case True
    then obtain loc v where v: "net (length sent) q = Redirect loc" "next_url cfg env (hq_url q) loc = Inr v" by blast
    have "sends_within (guarded cfg env (q\<lparr>hq_url := v\<rparr>)) (Suc n) (sent @ [q])
        (snd (request_with_redirects cfg env net n (q\<lparr>hq_url := v\<rparr>) (sent @ [q])))"
      by (rule Suc.IH) (use next_url_safe [OF v(2)] in simp)
    then have "sends_within (guarded cfg env q) (Suc n) (sent @ [q])
        (snd (request_with_redirects cfg env net n (q\<lparr>hq_url := v\<rparr>) (sent @ [q])))"
      by (rule sends_within_mono) (simp_all add: guarded_def same_but_url_def)
    then have "sends_within (guarded cfg env q) (1 + Suc n) sent
        (snd (request_with_redirects cfg env net n (q\<lparr>hq_url := v\<rparr>) (sent @ [q])))"
      by (rule sends_within_trans [OF sends_within_one [where P = "guarded cfg env q" and n = 1, OF q zero_less_one]])
    with v show ?thesis by (subst request_with_redirects.simps) simp
  next
    case False
    then have "snd (request_with_redirects cfg env net (Suc n) q sent) = sent @ [q]"
      by (subst request_with_redirects.simps) (auto split: http_reply.split sum.split)
    with one show ?thesis by simp
  qed
qed

lemma attempt_guarded:
  assumes "is_safe_upstream_url cfg env (hq_url q)"
  shows "sends_within (guarded cfg env q) 4 (tr_sent t) (tr_sent (snd (attempt_once cfg env net q t)))"
proof -
  have "tr_sent (snd (attempt_once cfg env net q t)) = snd (request_with_redirects cfg env net max_redirects q (tr_sent t))"
    by (simp add: attempt_once_def split: prod.split sum.split)
  with redirects_guarded [OF assms, of 3 "tr_sent t" net] show ?thesis by (simp add: max_redirects_def)
qed

lemma attempts_guarded:
  assumes "is_safe_upstream_url cfg env (hq_url q)"
  shows "sends_within (guarded cfg env q) (4 * n) (tr_sent t) (tr_sent (snd (call_attempts cfg env net now draw q n tried t)))"
proof (induction n arbitrary: tried t)
  case (Suc n)
  obtain sel pool where p: "pick now (draw n) tried (tr_pool t) = (sel, pool)" by (metis prod.exhaust)
  obtain r t1 where a: "attempt_once cfg env net q (t\<lparr>tr_pool := pool\<rparr>) = (r, t1)" by (metis prod.exhaust)
  have one: "sends_within (guarded cfg env q) 4 (tr_sent t) (tr_sent t1)"
    using attempt_guarded [OF assms, of "t\<lparr>tr_pool := pool\<rparr>" net] a by simp
  let ?t2 = "case sel of Some s \<Rightarrow> t1\<lparr>tr_pool := report_failure now (ps_endpoint s) (tr_pool t1)\<rparr> | None \<Rightarrow> t1"
  have sent: "tr_sent ?t2 = tr_sent t1" by (simp split: option.split)
  have more: "sends_within (guarded cfg env q) (4 * Suc n) (tr_sent t) (tr_sent t1)"
    by (rule sends_within_mono [OF one]) simp_all
  have rec: "sends_within (guarded cfg env q) (4 * Suc n) (tr_sent t) (tr_sent (snd (call_attempts cfg env net now draw q n tr ?t2)))" for tr
    using sends_within_trans [OF one, of "4 * n"] Suc.IH [of ?t2 tr] sent by (simp only: sent) (simp add: add.commute)
  show ?case
    using more rec sent by (auto simp: p a Let_def split: sum.split)
qed simp

text \<open>C10: however the network answers, a call sends at most four requests for each of its attempts, each of them to an
  address that passes the security check at that moment, and none for a model the key does not admit. Every
  request, after a redirect too, carries the headers of the first, its credentials included, to whatever host it
  is sent.
\<close>
theorem upstream_requests_guarded:
  assumes "is_safe_upstream_url cfg env (hq_url q)"
  shows "\<exists>rs. tr_sent (snd (call_upstream cfg env net now draw retries allowed q t)) = tr_sent t @ rs
    \<and> length rs \<le> (if allowed then 4 * nat (max 1 (retries + 1)) else 0)
    \<and> (\<forall>r \<in> set rs. is_safe_upstream_url cfg env (hq_url r) \<and> hq_method r = hq_method q \<and> hq_body r = hq_body q \<and> hq_headers r = hq_headers q)"
proof (cases allowed)
  case True
  have "sends_within (guarded cfg env q) (4 * nat (max 1 (retries + 1))) (tr_sent t)
      (tr_sent (snd (call_attempts cfg env net now draw q (nat (max 1 (retries + 1))) [] t)))"
    by (rule attempts_guarded [OF assms])
  moreover have "tr_sent (snd (call_upstream cfg env net now draw retries allowed q t)) =
      tr_sent (snd (call_attempts cfg env net now draw q (nat (max 1 (retries + 1))) [] t))"
    using True by (simp add: call_upstream_def split: prod.split sum.split)
  ultimately show ?thesis using True by (simp add: sends_within_def guarded_def same_but_url_def) blast
qed (simp add: call_upstream_def)

definition open_env :: net_env where
  "open_env =
     \<lparr>ne_parse = (\<lambda>u. if u = ''https://api.test/v1'' then Some \<lparr>pu_scheme = ''https'', pu_host = Some ''api.test''\<rparr>
                      else if u = ''https://evil.test/'' then Some \<lparr>pu_scheme = ''https'', pu_host = Some ''evil.test''\<rparr> else None),
      ne_join = (\<lambda>_ l. l), ne_resolve = (\<lambda>_. Some [''203.0.113.9'']), ne_blocked = (\<lambda>a. if a = ''203.0.113.9'' then Some False else None)\<rparr>"

definition custom_upstreams :: security_config where
  "custom_upstreams = \<lparr>sec_whitelist = [], sec_custom = True, sec_internal = False\<rparr>"

definition keyed_request :: http_request where
  "keyed_request = \<lparr>hq_method = ''POST'', hq_url = ''https://api.test/v1'', hq_headers = [(''Authorization'', PStr ''Bearer sk'')], hq_body = PDict []\<rparr>"

definition redirecting :: network where
  "redirecting n q =
     (if hq_url q = ''https://api.test/v1'' then Redirect (Some ''https://evil.test/'')
      else Answer \<lparr>an_status = 200, an_headers = [], an_body = PDict [], an_bytes = 2\<rparr>)"

definition no_proxies :: proxy_pool where
  "no_proxies = \<lparr>px_online = False, px_enabled = False, px_cooldown_seconds = 120, px_available = [], px_urls = [], px_resting = []\<rparr>"

text \<open>C10 at an upstream that redirects to another host: the key goes there as well.\<close>
theorem upstream_requests_guarded_witness:
  "\<exists>rs. tr_sent (snd (call_upstream custom_upstreams open_env redirecting 0 (\<lambda>_ _. 0) 1 True keyed_request \<lparr>tr_sent = [], tr_pool = no_proxies\<rparr>)) = rs
    \<and> length rs = 2 \<and> hq_url (rs ! 1) = ''https://evil.test/'' \<and> dget (hq_headers (rs ! 1)) ''Authorization'' = Some (PStr ''Bearer sk'')"
proof -
  let ?rs = "tr_sent (snd (call_upstream custom_upstreams open_env redirecting 0 (\<lambda>_ _. 0) 1 True keyed_request \<lparr>tr_sent = [], tr_pool = no_proxies\<rparr>))"
  have safe: "is_safe_upstream_url custom_upstreams open_env (hq_url keyed_request)" by code_simp
  have urls: "map hq_url ?rs = [''https://api.test/v1'', ''https://evil.test/'']" by code_simp
  then have len: "length ?rs = 2" by (metis length_map length_Cons list.size(3) numeral_2_eq_2)
  have "?rs ! 1 \<in> set ?rs" using len by simp
  moreover obtain rs where "?rs = [] @ rs" "\<forall>r \<in> set rs. hq_headers r = hq_headers keyed_request"
    using upstream_requests_guarded [OF safe, of redirecting 0 "\<lambda>_ _. 0" 1 True "\<lparr>tr_sent = [], tr_pool = no_proxies\<rparr>"] by auto
  ultimately have "hq_headers (?rs ! 1) = hq_headers keyed_request" by simp
  moreover have "hq_url (?rs ! 1) = map hq_url ?rs ! 1" using len by simp
  ultimately show ?thesis using len urls by (simp add: keyed_request_def)
qed

text \<open>A request that times out is sent again at once, without a proxy too.\<close>

lemma timeout_sent_twice:
  assumes "\<And>n r. net n r = Broken TimedOut" and "\<not> px_online (tr_pool t)"
  shows "call_upstream cfg env net now draw 1 True q t = (Inl TimedOut, t\<lparr>tr_sent := tr_sent t @ [q, q]\<rparr>)"
  using assms
  by (simp add: call_upstream_def eval_nat_numeral pick_def attempt_once_def request_with_redirects.simps retryable_def)

end
