(* ===== verification/Stream_Accumulator.thy ===== *)
theory Stream_Accumulator
  imports Provider_Config Workflow_Context
begin

section \<open>Reading a stream while it passes\<close>

text \<open>
  \<open>StreamTokenAccumulator\<close> and \<open>stream_with_billing\<close> of src/app/services/workflow/steps/upstream_call.py and
  the message blocks of src/app/services/providers/blocks_transformer.py. A chunk is the text of its bytes;
  \<open>decode\<close> is \<open>bytes.decode\<close> with None for a UnicodeDecodeError, \<open>loads\<close> is \<open>json.loads\<close> with None for a
  JSONDecodeError and \<open>dumps\<close> is \<open>json.dumps\<close>. The texts of the attribute and type errors of ill-formed payloads are one text.
\<close>

record accumulator =
  ac_input :: pyval
  ac_output :: pyval
  ac_chunks :: int
  ac_completed :: bool
  ac_error :: "string option"
  ac_finish :: pyval
  ac_model :: pyval
  ac_content :: "string list"
  ac_tools :: "pyval list"

definition new_accumulator :: accumulator where
  "new_accumulator =
     \<lparr>ac_input = PInt 0, ac_output = PInt 0, ac_chunks = 0, ac_completed = False, ac_error = None, ac_finish = PNone,
      ac_model = PNone, ac_content = [], ac_tools = []\<rparr>"

definition assistant_text :: "accumulator \<Rightarrow> string" where
  "assistant_text acc = concat (ac_content acc)"

subsection \<open>One payload\<close>

text \<open>The result is None when the payload was read to its end, otherwise the exception that stopped it.\<close>

type_synonym read_state = "exn option \<times> accumulator"

definition tool_name :: "pyval \<Rightarrow> pyval" where
  "tool_name tc =
     (let direct = py_get (as_dict tc) ''name'' PNone;
          inner = py_get (as_dict (py_get (as_dict tc) ''function'' PNone)) ''name'' PNone
      in if truthy inner then inner else if a_dict tc then direct else PNone)"

fun add_tools :: "pyval list \<Rightarrow> accumulator \<Rightarrow> accumulator" where
  "add_tools [] acc = acc"
| "add_tools (tc # tcs) acc =
     add_tools tcs
       (if truthy (tool_name tc) \<and> tool_name tc \<notin> set (ac_tools acc)
        then acc\<lparr>ac_tools := ac_tools acc @ [tool_name tc]\<rparr> else acc)"

definition read_delta :: "(string, pyval) dict \<Rightarrow> accumulator \<Rightarrow> accumulator" where
  "read_delta delta acc =
     (let acc1 = (case py_get delta ''content'' PNone of PStr s \<Rightarrow> if s = [] then acc else acc\<lparr>ac_content := ac_content acc @ [s]\<rparr> | _ \<Rightarrow> acc)
      in add_tools (as_list (py_get delta ''tool_calls'' PNone)) acc1)"

definition read_choice :: "(string, pyval) dict \<Rightarrow> accumulator \<Rightarrow> read_state" where
  "read_choice choice acc =
     (let fr = py_get choice ''finish_reason'' PNone;
          acc1 = (if truthy fr then acc\<lparr>ac_finish := fr\<rparr> else acc);
          delta = py_or (py_or (py_get choice ''delta'' PNone) (py_get choice ''message'' PNone)) (PDict [])
      in case delta of PDict d \<Rightarrow> (None, read_delta d acc1) | _ \<Rightarrow> (Some no_attribute, acc1))"

definition read_choices :: "pyval \<Rightarrow> accumulator \<Rightarrow> read_state" where
  "read_choices choices acc =
     (if \<not> truthy choices then (None, acc)
      else case choices of PList (PDict c # _) \<Rightarrow> read_choice c acc | _ \<Rightarrow> (Some no_attribute, acc))"

definition read_usage :: "(string, pyval) dict \<Rightarrow> accumulator \<Rightarrow> read_state" where
  "read_usage data acc =
     (case dget data ''usage'' of
        None \<Rightarrow> (None, acc)
      | Some (PDict u) \<Rightarrow>
          (None, acc\<lparr>ac_input := py_get u ''prompt_tokens'' (PInt 0), ac_output := py_get u ''completion_tokens'' (PInt 0)\<rparr>)
      | Some _ \<Rightarrow> (Some no_attribute, acc))"

definition read_payload :: "pyval \<Rightarrow> accumulator \<Rightarrow> read_state" where
  "read_payload data acc =
     (let acc0 = acc\<lparr>ac_chunks := ac_chunks acc + 1\<rparr>
      in case data of
           PDict d \<Rightarrow>
             (let acc1 = (if \<not> truthy (ac_model acc0) \<and> dget d ''model'' \<noteq> None then acc0\<lparr>ac_model := py_get d ''model'' PNone\<rparr> else acc0)
              in case read_choices (py_get d ''choices'' PNone) acc1 of
                   (Some e, acc2) \<Rightarrow> (Some e, acc2)
                 | (None, acc2) \<Rightarrow> read_usage d acc2)
         | _ \<Rightarrow> (Some no_attribute, acc0))"

subsection \<open>One chunk\<close>

definition done_line :: string where
  "done_line = ''data: [DONE]''"

fun read_lines :: "(string \<Rightarrow> pyval option) \<Rightarrow> string list \<Rightarrow> accumulator \<Rightarrow> read_state" where
  "read_lines loads [] acc = (None, acc)"
| "read_lines loads (l # ls) acc =
     (let line = str_strip l
      in if line = [] then read_lines loads ls acc
         else if line = done_line then read_lines loads ls (acc\<lparr>ac_completed := True\<rparr>)
         else if starts_with line ''data: '' then
           (case loads (drop 6 line) of
              None \<Rightarrow> read_lines loads ls acc
            | Some data \<Rightarrow>
                (case read_payload data acc of
                   (Some e, acc') \<Rightarrow> (Some e, acc')
                 | (None, acc') \<Rightarrow> read_lines loads ls acc'))
         else read_lines loads ls acc)"

definition newline :: char where
  "newline = CHR 0x0A"

definition parse_sse_chunk ::
  "(string \<Rightarrow> string option) \<Rightarrow> (string \<Rightarrow> pyval option) \<Rightarrow> string \<Rightarrow> accumulator \<Rightarrow> accumulator" where
  "parse_sse_chunk decode loads chunk acc =
     (case decode chunk of
        None \<Rightarrow> acc\<lparr>ac_error := Some ''UnicodeDecodeError''\<rparr>
      | Some text \<Rightarrow>
          (case read_lines loads (split_on newline text) acc of
             (None, acc') \<Rightarrow> acc'
           | (Some e, acc') \<Rightarrow> acc'\<lparr>ac_error := Some (exn_str e)\<rparr>))"

text \<open>\<open>estimate_output_tokens\<close>; a comparison with a value that is no number raises.\<close>

fun exceeds_zero :: "pyval \<Rightarrow> exn + bool" where
  "exceeds_zero (PInt i) = Inr (0 < i)"
| "exceeds_zero (PFloat r) = Inr (0 < r)"
| "exceeds_zero (PBool b) = Inr b"
| "exceeds_zero _ = Inl (OtherError ''TypeError'' ''not supported'')"

definition estimate_output_tokens :: "accumulator \<Rightarrow> exn + pyval" where
  "estimate_output_tokens acc =
     bindR (exceeds_zero (ac_output acc)) (\<lambda>pos.
       Inr (if pos then ac_output acc else PInt (max 1 (ac_chunks acc * 3))))"

subsection \<open>Blocks for the client\<close>

definition stripped :: "string option \<Rightarrow> bool" where
  "stripped s = (case s of None \<Rightarrow> False | Some t \<Rightarrow> str_strip t \<noteq> [])"

definition tool_call_block :: "(pyval \<Rightarrow> string) \<Rightarrow> (string, pyval) dict \<Rightarrow> exn + pyval" where
  "tool_call_block dumps call =
     (let function = py_or (py_get call ''function'' PNone) (PDict [])
      in case function of
           PDict f \<Rightarrow>
             (let name = py_or (py_get f ''name'' PNone) (py_get call ''name'' PNone);
                  args = py_or (py_get f ''arguments'' PNone) (py_get call ''arguments'' PNone);
                  text = (case args of PNone \<Rightarrow> PNone | PStr s \<Rightarrow> PStr s | _ \<Rightarrow> PStr (dumps args));
                  block = [(''type'', PStr ''tool_call''), (''toolName'', name), (''toolArgs'', text)]
              in Inr (PDict (case py_get call ''id'' PNone of
                               PStr (c # i) \<Rightarrow> block @ [(''callId'', PStr (c # i))]
                             | _ \<Rightarrow> block)))
         | _ \<Rightarrow> Inl no_attribute)"

fun tool_call_blocks :: "(pyval \<Rightarrow> string) \<Rightarrow> pyval list \<Rightarrow> exn + pyval list" where
  "tool_call_blocks dumps [] = Inr []"
| "tool_call_blocks dumps (PDict call # cs) =
     bindR (tool_call_block dumps call) (\<lambda>b. bindR (tool_call_blocks dumps cs) (\<lambda>bs. Inr (b # bs)))"
| "tool_call_blocks dumps (_ # cs) = tool_call_blocks dumps cs"

definition build_normalized_blocks :: "(pyval \<Rightarrow> string) \<Rightarrow> string option \<Rightarrow> string option \<Rightarrow> pyval list \<Rightarrow> exn + pyval list" where
  "build_normalized_blocks dumps content reasoning tool_calls =
     bindR (tool_call_blocks dumps tool_calls) (\<lambda>calls.
       Inr ((if stripped reasoning then [PDict [(''type'', PStr ''thought''), (''content'', PStr (str_strip (the reasoning)))]] else [])
          @ (if stripped content then [PDict [(''type'', PStr ''text''), (''content'', PStr (the content))]] else [])
          @ calls))"

fun string_of :: "pyval \<Rightarrow> string option" where
  "string_of (PStr s) = Some s"
| "string_of _ = None"

definition path_or :: "(string, pyval) dict \<Rightarrow> string \<Rightarrow> string \<Rightarrow> string option" where
  "path_or config k dflt = string_of (py_or (py_get config k PNone) (PStr dflt))"

definition anthropic_delta :: "pyval \<Rightarrow> pyval \<times> pyval \<Rightarrow> exn + pyval \<times> pyval" where
  "anthropic_delta payload cr =
     (if truthy (fst cr) \<or> truthy (snd cr) then Inr cr
      else bindR (get_of payload ''type'' PNone) (\<lambda>t.
        if t \<noteq> PStr ''content_block_delta'' then Inr cr
        else case py_or (py_get (as_dict payload) ''delta'' PNone) (PDict []) of
               PDict d \<Rightarrow>
                 Inr (if py_get d ''type'' PNone = PStr ''thinking_delta'' then (fst cr, py_get d ''thinking'' PNone)
                      else if py_get d ''type'' PNone = PStr ''text_delta'' then (py_get d ''text'' PNone, snd cr)
                      else cr)
             | _ \<Rightarrow> Inl no_attribute))"

definition extract_stream_blocks :: "(pyval \<Rightarrow> string) \<Rightarrow> pyval \<Rightarrow> (string, pyval) dict \<Rightarrow> exn + pyval list" where
  "extract_stream_blocks dumps payload config =
     (let content = extract_by_path payload (path_or config ''content_path'' ''choices.0.delta.content'');
          reasoning = extract_by_path payload (path_or config ''reasoning_path'' ''choices.0.delta.reasoning_content'');
          tools = extract_by_path payload (path_or config ''tool_calls_path'' ''choices.0.delta.tool_calls'')
      in bindR (anthropic_delta payload (content, reasoning)) (\<lambda>(content', reasoning').
           build_normalized_blocks dumps (string_of content') (string_of reasoning') (as_list tools)))"

definition blocks_event :: "workflow_context \<Rightarrow> pyval list \<Rightarrow> pyval" where
  "blocks_event c blocks =
     PDict [(''type'', PStr ''blocks''), (''blocks'', PList blocks), (''trace_id'', PStr (ctx_trace_id c)),
            (''timestamp'', PStr (ctx_created_at c))]"

fun emit_lines :: "(pyval \<Rightarrow> string) \<Rightarrow> (string \<Rightarrow> pyval option) \<Rightarrow> (string, pyval) dict \<Rightarrow> string list \<Rightarrow>
    workflow_context \<Rightarrow> exn option \<times> workflow_context" where
  "emit_lines dumps loads config [] c = (None, c)"
| "emit_lines dumps loads config (l # ls) c =
     (let line = str_strip l
      in if line = [] \<or> line = done_line \<or> \<not> starts_with line ''data: '' then emit_lines dumps loads config ls c
         else case loads (drop 6 line) of
                None \<Rightarrow> emit_lines dumps loads config ls c
              | Some payload \<Rightarrow>
                  (case extract_stream_blocks dumps payload config of
                     Inl e \<Rightarrow> (Some e, c)
                   | Inr blocks \<Rightarrow>
                       emit_lines dumps loads config ls
                         (if blocks = [] then c else c\<lparr>ctx_emitted := ctx_emitted c @ [blocks_event c blocks]\<rparr>)))"

definition emit_blocks_for_chunk ::
  "(pyval \<Rightarrow> string) \<Rightarrow> (string \<Rightarrow> string option) \<Rightarrow> (string \<Rightarrow> pyval option) \<Rightarrow> (string, pyval) dict \<Rightarrow> string \<Rightarrow>
    workflow_context \<Rightarrow> exn option \<times> workflow_context" where
  "emit_blocks_for_chunk dumps decode loads config chunk c =
     (if \<not> is_internal c \<or> \<not> ctx_status_emitter c then (None, c)
      else case decode chunk of
             None \<Rightarrow> (None, c)
           | Some text \<Rightarrow> emit_lines dumps loads config (split_on newline text) c)"

subsection \<open>The wrapped stream\<close>

text \<open>
  What the upstream delivers: its chunks, each with what a look at the cancellation would find at that moment,
  and the exception that ends it, if one does.
\<close>

record upstream_stream =
  us_chunks :: "(string \<times> bool) list"
  us_end :: "exn option"

record stream_state =
  st_ctx :: workflow_context
  st_acc :: accumulator
  st_tool :: bool
  st_out :: "string list"

record codec =
  cd_decode :: "string \<Rightarrow> string option"
  cd_loads :: "string \<Rightarrow> pyval option"
  cd_dumps :: "pyval \<Rightarrow> string"

definition announce_tool :: "stream_state \<Rightarrow> stream_state" where
  "announce_tool s =
     (if \<not> st_tool s \<and> ac_tools (st_acc s) \<noteq> []
      then s\<lparr>st_ctx := emit_status (ctx_created_at (st_ctx s)) ''evolve'' (Some ''tool_call'') ''running'' (Some ''tool.call'')
                          (PDict [(''name'', hd (ac_tools (st_acc s)))]) (st_ctx s),
             st_tool := True\<rparr>
      else s)"

definition fail_stream :: "exn \<Rightarrow> stream_state \<Rightarrow> stream_state" where
  "fail_stream e s = s\<lparr>st_acc := (st_acc s)\<lparr>ac_error := Some (exn_str e)\<rparr>\<rparr>"

text \<open>
  One chunk comes out of the generator of the upstream call, which has already read it into the accumulator
  when \<open>shared\<close>, is read by the wrapper and handed on.
\<close>

definition stream_chunk :: "codec \<Rightarrow> (string, pyval) dict \<Rightarrow> string \<Rightarrow> stream_state \<Rightarrow> bool \<times> stream_state" where
  "stream_chunk cd config chunk s =
     (let a = parse_sse_chunk (cd_decode cd) (cd_loads cd) chunk (st_acc s);
          s1 = s\<lparr>st_acc := a\<rparr>
      in case emit_blocks_for_chunk (cd_dumps cd) (cd_decode cd) (cd_loads cd) config chunk (st_ctx s1) of
           (Some e, c) \<Rightarrow> (False, fail_stream e (s1\<lparr>st_ctx := c\<rparr>))
         | (None, c) \<Rightarrow> (let s2 = announce_tool (s1\<lparr>st_ctx := c\<rparr>) in (True, s2\<lparr>st_out := st_out s2 @ [chunk]\<rparr>)))"

definition inner_read :: "codec \<Rightarrow> bool \<Rightarrow> string \<Rightarrow> stream_state \<Rightarrow> stream_state" where
  "inner_read cd shared chunk s =
     (if shared then s\<lparr>st_acc := parse_sse_chunk (cd_decode cd) (cd_loads cd) chunk (st_acc s)\<rparr> else s)"

fun stream_loop :: "codec \<Rightarrow> bool \<Rightarrow> (string, pyval) dict \<Rightarrow> bool \<Rightarrow> exn option \<Rightarrow> (string \<times> bool) list \<Rightarrow> stream_state \<Rightarrow> stream_state" where
  "stream_loop cd shared config can_cancel ending [] s = (case ending of None \<Rightarrow> s | Some e \<Rightarrow> fail_stream e s)"
| "stream_loop cd shared config can_cancel ending ((chunk, cancelled) # rest) s =
     (let s0 = inner_read cd shared chunk s
      in if can_cancel \<and> cancelled then
           s0\<lparr>st_ctx := mark_error CLIENT ''CLIENT_CANCELLED'' ''client canceled'' None None (st_ctx s0),
              st_acc := (st_acc s0)\<lparr>ac_error := Some ''client canceled''\<rparr>\<rparr>
         else case stream_chunk cd config chunk s0 of
                (False, s1) \<Rightarrow> s1
              | (True, s1) \<Rightarrow> stream_loop cd shared config can_cancel ending rest s1)"

text \<open>
  What the context is billed when the stream is over, and the callback is called with. The record of the context
  holds integers; a token count that is none is kept in the accumulator only.
\<close>

definition final_tokens :: "accumulator \<Rightarrow> exn + pyval \<times> pyval" where
  "final_tokens acc =
     (if truthy (ac_output acc) then Inr (ac_input acc, ac_output acc)
      else bindR (estimate_output_tokens acc) (\<lambda>n. Inr (ac_input acc, n)))"

definition finish_stream :: "stream_state \<Rightarrow> exn + stream_state" where
  "finish_stream s =
     bindR (final_tokens (st_acc s)) (\<lambda>(i, n).
       Inr (case (i, n) of
              (PInt a, PInt b) \<Rightarrow>
                s\<lparr>st_ctx := (st_ctx s)\<lparr>ctx_billing := (ctx_billing (st_ctx s))\<lparr>bi_input_tokens := a, bi_output_tokens := b\<rparr>\<rparr>\<rparr>
            | _ \<Rightarrow> s))"

definition stream_config :: "workflow_context \<Rightarrow> (string, pyval) dict" where
  "stream_config c =
     (let profile = as_dict (ctx_get c ''routing'' ''protocol_profile'' PNone);
          response = as_dict (py_get profile ''response'' PNone);
          template = as_dict (py_get response ''response_template'' PNone)
      in as_dict (py_get template ''stream_transform'' PNone))"

definition stream_with_billing :: "codec \<Rightarrow> bool \<Rightarrow> upstream_stream \<Rightarrow> workflow_context \<Rightarrow> accumulator \<Rightarrow> exn + stream_state" where
  "stream_with_billing cd shared us c acc =
     finish_stream (stream_loop cd shared (stream_config c)
       (truthy (ctx_get c ''request'' ''request_id'' PNone) \<and> str_truthy (ctx_user_id c)) (us_end us) (us_chunks us)
       \<lparr>st_ctx = c, st_acc = acc, st_tool = False, st_out = []\<rparr>)"

subsection \<open>What reading adds\<close>

text \<open>
  The text and the number of payloads a chunk adds, and whether it stops with an exception, do not depend on
  what was read before.
\<close>

definition adds :: "(accumulator \<Rightarrow> read_state) \<Rightarrow> bool" where
  "adds f \<longleftrightarrow> (\<exists>texts n e. \<forall>acc.
     fst (f acc) = e \<and> ac_content (snd (f acc)) = ac_content acc @ texts \<and> ac_chunks (snd (f acc)) = ac_chunks acc + n)"

lemma addsI:
  "(\<And>acc. fst (f acc) = e \<and> ac_content (snd (f acc)) = ac_content acc @ texts \<and> ac_chunks (snd (f acc)) = ac_chunks acc + n) \<Longrightarrow> adds f"
  unfolding adds_def by blast

lemma add_tools_adds: "ac_content (add_tools tcs acc) = ac_content acc \<and> ac_chunks (add_tools tcs acc) = ac_chunks acc"
  by (induction tcs arbitrary: acc) auto

definition delta_texts :: "(string, pyval) dict \<Rightarrow> string list" where
  "delta_texts d = (case py_get d ''content'' PNone of PStr s \<Rightarrow> if s = [] then [] else [s] | _ \<Rightarrow> [])"

lemma read_delta_adds:
  "ac_content (read_delta d acc) = ac_content acc @ delta_texts d \<and> ac_chunks (read_delta d acc) = ac_chunks acc"
  by (auto simp: read_delta_def delta_texts_def Let_def add_tools_adds split: pyval.split)

lemma read_choice_adds: "adds (read_choice choice)"
proof (cases "\<exists>d. py_or (py_or (py_get choice ''delta'' PNone) (py_get choice ''message'' PNone)) (PDict []) = PDict d")
  case True
  then obtain d where "py_or (py_or (py_get choice ''delta'' PNone) (py_get choice ''message'' PNone)) (PDict []) = PDict d" ..
  then show ?thesis
    by (intro addsI [of _ None "delta_texts d" 0]) (simp add: read_choice_def Let_def read_delta_adds)
next
  case False
  then show ?thesis
    by (intro addsI [of _ "Some no_attribute" "[]" 0]) (auto simp: read_choice_def Let_def split: pyval.split)
qed

lemma read_choices_adds: "adds (read_choices choices)"
proof (cases "truthy choices \<and> (\<exists>c cs. choices = PList (PDict c # cs))")
  case True
  then obtain c cs where "truthy choices" "choices = PList (PDict c # cs)" by blast
  then have "read_choices choices = read_choice c" by (intro ext) (simp add: read_choices_def)
  then show ?thesis using read_choice_adds by simp
next
  case False
  show ?thesis
  proof (cases "truthy choices")
    case True
    then have "read_choices choices acc = (Some no_attribute, acc)" for acc
      using False by (auto simp: read_choices_def split: pyval.split list.split)
    then show ?thesis by (intro addsI [of _ "Some no_attribute" "[]" 0]) simp
  next
    case False
    then show ?thesis by (intro addsI [of _ None "[]" 0]) (simp add: read_choices_def)
  qed
qed

lemma read_usage_adds: "adds (read_usage d)"
proof (cases "dget d ''usage''")
  case None
  then show ?thesis by (intro addsI [of _ None "[]" 0]) (simp add: read_usage_def)
next
  case (Some u)
  show ?thesis
  proof (cases u)
    case (PDict x)
    with Some show ?thesis by (intro addsI [of _ None "[]" 0]) (simp add: read_usage_def)
  qed (use Some in \<open>intro addsI [of _ "Some no_attribute" "[]" 0]; simp add: read_usage_def\<close>)+
qed

text \<open>Reading in sequence, the second part only after the first one has ended well.\<close>

definition then_read :: "(accumulator \<Rightarrow> read_state) \<Rightarrow> (accumulator \<Rightarrow> read_state) \<Rightarrow> accumulator \<Rightarrow> read_state" where
  "then_read f g acc = (case f acc of (Some e, acc') \<Rightarrow> (Some e, acc') | (None, acc') \<Rightarrow> g acc')"

lemma then_read_adds:
  assumes "adds f" and "adds g"
  shows "adds (then_read f g)"
proof -
  from assms(1) obtain t n e where f: "fst (f acc) = e \<and> ac_content (snd (f acc)) = ac_content acc @ t \<and> ac_chunks (snd (f acc)) = ac_chunks acc + n" for acc
    unfolding adds_def by blast
  from assms(2) obtain t' n' e' where g: "fst (g acc) = e' \<and> ac_content (snd (g acc)) = ac_content acc @ t' \<and> ac_chunks (snd (g acc)) = ac_chunks acc + n'" for acc
    unfolding adds_def by blast
  show ?thesis
  proof (cases e)
    case None
    then have "then_read f g acc = g (snd (f acc))" for acc
      using f [of acc] by (cases "f acc") (simp add: then_read_def)
    with f g show ?thesis by (intro addsI [of _ e' "t @ t'" "n + n'"]) simp
  next
    case (Some x)
    then have "then_read f g acc = f acc" for acc
      using f [of acc] by (cases "f acc") (simp add: then_read_def)
    with f show ?thesis by (intro addsI [of _ e t n]) simp
  qed
qed

lemma adds_update:
  assumes "adds f" and "\<And>acc. ac_content (u acc) = ac_content acc" and "\<And>acc. ac_chunks (u acc) = ac_chunks acc + k"
  shows "adds (\<lambda>acc. f (u acc))"
proof -
  from assms(1) obtain t n e where "fst (f acc) = e \<and> ac_content (snd (f acc)) = ac_content acc @ t \<and> ac_chunks (snd (f acc)) = ac_chunks acc + n" for acc
    unfolding adds_def by blast
  then show ?thesis using assms(2,3) by (intro addsI [of _ e t "n + k"]) simp
qed

lemma read_payload_adds: "adds (read_payload data)"
proof (cases data)
  case (PDict d)
  let ?u = "\<lambda>acc. let acc0 = acc\<lparr>ac_chunks := ac_chunks acc + 1\<rparr>
    in if \<not> truthy (ac_model acc0) \<and> dget d ''model'' \<noteq> None then acc0\<lparr>ac_model := py_get d ''model'' PNone\<rparr> else acc0"
  have "read_payload data = (\<lambda>acc. then_read (read_choices (py_get d ''choices'' PNone)) (read_usage d) (?u acc))"
    by (intro ext) (simp add: read_payload_def PDict Let_def then_read_def)
  moreover have "adds (\<lambda>acc. then_read (read_choices (py_get d ''choices'' PNone)) (read_usage d) (?u acc))"
    by (rule adds_update [where k = 1, OF then_read_adds [OF read_choices_adds read_usage_adds]]) (simp_all add: Let_def)
  ultimately show ?thesis by simp
qed (rule addsI [of _ "Some no_attribute" "[]" 1], simp add: read_payload_def)+

lemma adds_skip: "adds (Pair None)"
  by (rule addsI [of _ None "[]" 0]) simp

lemma read_lines_adds: "adds (read_lines loads ls)"
proof (induction ls)
  case Nil
  have "read_lines loads [] = Pair None" by (intro ext) simp
  then show ?case using adds_skip by simp
next
  case (Cons l ls)
  let ?line = "str_strip l"
  consider "?line = done_line" | d where "?line \<noteq> done_line" "?line \<noteq> []" "starts_with ?line ''data: ''" "loads (drop 6 ?line) = Some d"
    | "read_lines loads (l # ls) = read_lines loads ls"
  proof -
    have "read_lines loads (l # ls) = read_lines loads ls"
      if "?line \<noteq> done_line" and "\<not> (\<exists>d. ?line \<noteq> [] \<and> starts_with ?line ''data: '' \<and> loads (drop 6 ?line) = Some d)"
      using that by (intro ext) (auto simp: Let_def split: option.split)
    then show thesis using that by blast
  qed
  then show ?case
  proof cases
    case 1
    then have "read_lines loads (l # ls) = (\<lambda>acc. read_lines loads ls (acc\<lparr>ac_completed := True\<rparr>))"
      by (intro ext) (simp add: Let_def done_line_def)
    then show ?thesis using adds_update [OF Cons.IH, of "\<lambda>acc. acc\<lparr>ac_completed := True\<rparr>" 0] by simp
  next
    case 2
    then have "read_lines loads (l # ls) = then_read (read_payload d) (read_lines loads ls)"
      by (intro ext) (simp add: Let_def then_read_def split: prod.split option.split)
    then show ?thesis using then_read_adds [OF read_payload_adds Cons.IH] by simp
  next
    case 3
    then show ?thesis using Cons.IH by simp
  qed
qed

definition chunk_texts :: "codec \<Rightarrow> string \<Rightarrow> string list" where
  "chunk_texts cd chunk = ac_content (parse_sse_chunk (cd_decode cd) (cd_loads cd) chunk new_accumulator)"

definition chunk_count :: "codec \<Rightarrow> string \<Rightarrow> int" where
  "chunk_count cd chunk = ac_chunks (parse_sse_chunk (cd_decode cd) (cd_loads cd) chunk new_accumulator)"

lemma parse_chunk_adds:
  "ac_content (parse_sse_chunk (cd_decode cd) (cd_loads cd) chunk acc) = ac_content acc @ chunk_texts cd chunk \<and>
   ac_chunks (parse_sse_chunk (cd_decode cd) (cd_loads cd) chunk acc) = ac_chunks acc + chunk_count cd chunk"
proof (cases "cd_decode cd chunk")
  case (Some body)
  let ?f = "read_lines (cd_loads cd) (split_on newline body)"
  from read_lines_adds obtain t n e where f: "fst (?f acc) = e \<and> ac_content (snd (?f acc)) = ac_content acc @ t \<and> ac_chunks (snd (?f acc)) = ac_chunks acc + n" for acc
    unfolding adds_def by blast
  have "ac_content (parse_sse_chunk (cd_decode cd) (cd_loads cd) chunk acc) = ac_content (snd (?f acc)) \<and>
        ac_chunks (parse_sse_chunk (cd_decode cd) (cd_loads cd) chunk acc) = ac_chunks (snd (?f acc))" for acc
    by (simp add: parse_sse_chunk_def Some split: prod.split option.split)
  then show ?thesis using f by (simp add: chunk_texts_def chunk_count_def new_accumulator_def)
qed (simp add: parse_sse_chunk_def chunk_texts_def chunk_count_def new_accumulator_def)

subsection \<open>Every chunk is read twice\<close>

definition parse_all :: "codec \<Rightarrow> string list \<Rightarrow> accumulator \<Rightarrow> accumulator" where
  "parse_all cd chunks acc = fold (parse_sse_chunk (cd_decode cd) (cd_loads cd)) chunks acc"

lemma stream_chunk_acc:
  "ac_content (st_acc (snd (stream_chunk cd config chunk s))) = ac_content (st_acc s) @ chunk_texts cd chunk \<and>
   ac_chunks (st_acc (snd (stream_chunk cd config chunk s))) = ac_chunks (st_acc s) + chunk_count cd chunk"
  by (simp add: stream_chunk_def Let_def announce_tool_def fail_stream_def parse_chunk_adds split: prod.split option.split)

lemma stream_chunk_quiet:
  "\<not> ctx_status_emitter (st_ctx s) \<Longrightarrow> \<exists>s'. stream_chunk cd config chunk s = (True, s') \<and> \<not> ctx_status_emitter (st_ctx s')
     \<and> st_out s' = st_out s @ [chunk]"
  by (simp add: stream_chunk_def Let_def emit_blocks_for_chunk_def announce_tool_def emit_status_def)

lemma stream_loop_twice:
  assumes "\<not> ctx_status_emitter (st_ctx s)" and "list_all (\<lambda>(_, cancelled). \<not> cancelled) chunks"
  shows "ac_content (st_acc (stream_loop cd True config can_cancel None chunks s)) =
      ac_content (st_acc s) @ concat (map (\<lambda>(c, _). chunk_texts cd c @ chunk_texts cd c) chunks) \<and>
    ac_chunks (st_acc (stream_loop cd True config can_cancel None chunks s)) =
      ac_chunks (st_acc s) + 2 * sum_list (map (\<lambda>(c, _). chunk_count cd c) chunks) \<and>
    st_out (stream_loop cd True config can_cancel None chunks s) = st_out s @ map fst chunks"
  using assms
proof (induction chunks arbitrary: s)
  case (Cons ch chunks)
  obtain c x where ch: "ch = (c, x)" by (cases ch)
  let ?s0 = "inner_read cd True c s"
  have quiet: "\<not> ctx_status_emitter (st_ctx ?s0)" using Cons.prems(1) by (simp add: inner_read_def)
  obtain s1 where s1: "stream_chunk cd config c ?s0 = (True, s1)" "\<not> ctx_status_emitter (st_ctx s1)" "st_out s1 = st_out s @ [c]"
    using stream_chunk_quiet [OF quiet, of cd config c] by (auto simp: inner_read_def)
  have acc: "ac_content (st_acc s1) = ac_content (st_acc s) @ chunk_texts cd c @ chunk_texts cd c
      \<and> ac_chunks (st_acc s1) = ac_chunks (st_acc s) + 2 * chunk_count cd c"
    using stream_chunk_acc [of cd config c ?s0] s1(1) by (simp add: inner_read_def parse_chunk_adds)
  have "stream_loop cd True config can_cancel None (ch # chunks) s = stream_loop cd True config can_cancel None chunks s1"
    using Cons.prems(2) by (simp add: ch s1(1) Let_def)
  then show ?case using Cons.IH [OF s1(2)] Cons.prems(2) acc s1(3) by (simp add: ch)
qed simp

lemma finish_stream_keeps: "finish_stream s0 = Inr s \<Longrightarrow> st_out s = st_out s0 \<and> st_acc s = st_acc s0"
proof -
  assume fin: "finish_stream s0 = Inr s"
  then obtain i n where "final_tokens (st_acc s0) = Inr (i, n)" by (auto simp: finish_stream_def bindR_Inr)
  with fin show ?thesis by (cases i; cases n) (auto simp: finish_stream_def)
qed

text \<open>The wrapper reads every chunk into the accumulator that the generator below it has already filled: a stream
  that passes undisturbed to the client leaves every piece of its text twice in the accumulator and counts
  every payload twice, so that the text kept of the reply is not the one the client saw and an estimate of the
  output is twice as high.
\<close>
theorem stream_read_twice:
  assumes "\<not> ctx_status_emitter c" and "list_all (\<lambda>(_, cancelled). \<not> cancelled) (us_chunks us)" and "us_end us = None"
    and "stream_with_billing cd True us c new_accumulator = Inr s"
  shows "st_out s = map fst (us_chunks us)
    \<and> assistant_text (st_acc s) = concat (map (\<lambda>(ch, _). concat (chunk_texts cd ch) @ concat (chunk_texts cd ch)) (us_chunks us))
    \<and> ac_chunks (st_acc s) = 2 * sum_list (map (\<lambda>(ch, _). chunk_count cd ch) (us_chunks us))"
proof -
  obtain can where "finish_stream (stream_loop cd True (stream_config c) can None (us_chunks us)
      \<lparr>st_ctx = c, st_acc = new_accumulator, st_tool = False, st_out = []\<rparr>) = Inr s"
    using assms(3,4) by (auto simp: stream_with_billing_def)
  moreover have "finish_stream s0 = Inr s \<Longrightarrow> st_out s = st_out s0 \<and> st_acc s = st_acc s0" for s0
    by (rule finish_stream_keeps)
  moreover have "concat (concat (map (\<lambda>(ch, _). f ch @ f ch) xs)) = concat (map (\<lambda>(ch, _). concat (f ch) @ concat (f ch)) xs)"
    for f :: "string \<Rightarrow> string list" and xs :: "(string \<times> bool) list"
    by (induction xs) auto
  ultimately show ?thesis
    using stream_loop_twice [of "\<lparr>st_ctx = c, st_acc = new_accumulator, st_tool = False, st_out = []\<rparr>" "us_chunks us" cd "stream_config c" can] assms(1,2)
    by (simp add: assistant_text_def new_accumulator_def)
qed

definition text_payload :: "string \<Rightarrow> pyval" where
  "text_payload s = PDict [(''choices'', PList [PDict [(''delta'', PDict [(''content'', PStr s)])]])]"

definition usage_payload :: "pyval \<Rightarrow> pyval" where
  "usage_payload u = PDict [(''choices'', PList []), (''usage'', u)]"

definition sample_codec :: codec where
  "sample_codec =
     \<lparr>cd_decode = Some,
      cd_loads = map_of [(''{A}'', text_payload ''Hel''), (''{B}'', text_payload ''lo''),
                         (''{U}'', usage_payload (PDict [(''prompt_tokens'', PInt 7), (''completion_tokens'', PInt 2)])),
                         (''{N}'', usage_payload PNone)],
      cd_dumps = (\<lambda>_. [])\<rparr>"

definition sample_stream :: upstream_stream where
  "sample_stream = \<lparr>us_chunks = [(''data: {A}'' @ [newline], False), (''data: {B}'' @ [newline], False)], us_end = None\<rparr>"

text \<open>The preceding statement at a reply of two pieces: the client saw \<open>Hello\<close>.\<close>
theorem stream_read_twice_witness:
  "\<exists>s. stream_with_billing sample_codec True sample_stream (new_context ''t'' INTERNAL []) new_accumulator = Inr s
     \<and> assistant_text (st_acc s) = ''HelHellolo'' \<and> ac_chunks (st_acc s) = 4"
proof -
  obtain s where s: "stream_with_billing sample_codec True sample_stream (new_context ''t'' INTERNAL []) new_accumulator = Inr s"
  proof -
    have "case stream_with_billing sample_codec True sample_stream (new_context ''t'' INTERNAL []) new_accumulator of Inl _ \<Rightarrow> False | Inr _ \<Rightarrow> True"
      by code_simp
    then show thesis using that by (auto split: sum.splits)
  qed
  have ctx: "\<not> ctx_status_emitter (new_context ''t'' INTERNAL [])" by code_simp
  have us: "list_all (\<lambda>(_, cancelled). \<not> cancelled) (us_chunks sample_stream)" "us_end sample_stream = None" by code_simp+
  have "concat (map (\<lambda>(ch, _). concat (chunk_texts sample_codec ch) @ concat (chunk_texts sample_codec ch)) (us_chunks sample_stream)) = ''HelHellolo''"
    "2 * sum_list (map (\<lambda>(ch, _). chunk_count sample_codec ch) (us_chunks sample_stream)) = 4"
    by code_simp+
  with s stream_read_twice [OF ctx us s] show ?thesis by auto
qed

subsection \<open>Usage that gets lost\<close>

text \<open>Reading depends on where the bytes are cut: a usage line that arrives in two chunks is not seen.\<close>

lemma split_usage_line_unseen:
  "ac_input (parse_all sample_codec [''data: {U}'' @ [newline]] new_accumulator) = PInt 7 \<and>
   ac_input (parse_all sample_codec [''data: {U'', ''}'' @ [newline]] new_accumulator) = PInt 0"
  by code_simp

text \<open>
  A payload that carries \<open>usage: null\<close>, as every one but the last does when usage is asked for, counts as an
  error of the stream, and what follows in the same chunk is not read.
\<close>

lemma null_usage_is_an_error:
  "let acc = parse_all sample_codec [''data: {N}'' @ [newline] @ ''data: {A}'' @ [newline]] new_accumulator
   in ac_error acc \<noteq> None \<and> assistant_text acc = []"
  by code_simp

text \<open>Without usage the output is estimated at three tokens for each payload read.\<close>

lemma estimate_without_usage:
  "ac_output acc = PInt 0 \<Longrightarrow> final_tokens acc = Inr (ac_input acc, PInt (max 1 (ac_chunks acc * 3)))"
  by (simp add: final_tokens_def estimate_output_tokens_def)

end
