(* ===== verification/Circuit_Breaker.thy ===== *)
theory Circuit_Breaker
  imports Py_Value
begin

section \<open>The circuit breaker of an upstream\<close>

text \<open>
  The breaker of \<open>UpstreamCallStep\<close> in src/app/services/workflow/steps/upstream_call.py. Its state per host and
  credential lives in a Redis hash that expires, or in a dictionary of the process where Redis is not there or
  does not answer. \<open>cw_online\<close> says whether there is a Redis client, \<open>cw_readable\<close> and \<open>cw_writable\<close>
  whether its calls succeed.
\<close>

datatype breaker_status = Closed | Opened | HalfOpen

record breaker =
  cb_failures :: int
  cb_status :: breaker_status
  cb_opened_at :: rat
  cb_successes :: int

definition new_breaker :: breaker where
  "new_breaker = \<lparr>cb_failures = 0, cb_status = Closed, cb_opened_at = 0, cb_successes = 0\<rparr>"

record breaker_config =
  bc_threshold :: int
  bc_reset :: rat
  bc_half_open :: int

definition default_breaker_config :: breaker_config where
  "default_breaker_config = \<lparr>bc_threshold = 5, bc_reset = 30, bc_half_open = 2\<rparr>"

subsection \<open>Storage\<close>

type_synonym breaker_hashes = "(string, breaker \<times> rat) dict"

definition hash_load :: "rat \<Rightarrow> string \<Rightarrow> breaker_hashes \<Rightarrow> breaker" where
  "hash_load now k h = (case dget h k of Some (b, expires) \<Rightarrow> if now < expires then b else new_breaker | None \<Rightarrow> new_breaker)"

definition hash_store :: "breaker_config \<Rightarrow> rat \<Rightarrow> string \<Rightarrow> breaker \<Rightarrow> breaker_hashes \<Rightarrow> breaker_hashes" where
  "hash_store cfg now k b h = dput k (b, now + 2 * bc_reset cfg) h"

definition local_load :: "rat \<Rightarrow> string \<Rightarrow> (string, breaker) dict \<Rightarrow> breaker" where
  "local_load now k d = (case dget d k of Some b \<Rightarrow> b | None \<Rightarrow> new_breaker)"

definition local_store :: "rat \<Rightarrow> string \<Rightarrow> breaker \<Rightarrow> (string, breaker) dict \<Rightarrow> (string, breaker) dict" where
  "local_store now k b d = dput k b d"

record breaker_world =
  cw_online :: bool
  cw_readable :: bool
  cw_writable :: bool
  cw_hashes :: breaker_hashes
  cw_local :: "(string, breaker) dict"

definition from_redis :: "breaker_world \<Rightarrow> bool" where
  "from_redis w \<longleftrightarrow> cw_online w \<and> cw_readable w"

text \<open>
  \<open>_get_cb_state\<close>. What comes out of the dictionary of the process is the entry itself: a change in place is a
  change of the entry, whether or not it is written back; \<open>touch_local\<close> is that change.
\<close>

definition get_cb_state :: "rat \<Rightarrow> string \<Rightarrow> breaker_world \<Rightarrow> breaker" where
  "get_cb_state now k w = (if from_redis w then hash_load now k (cw_hashes w) else local_load now k (cw_local w))"

definition touch_local :: "rat \<Rightarrow> string \<Rightarrow> breaker \<Rightarrow> breaker_world \<Rightarrow> breaker_world" where
  "touch_local now k b w = (if from_redis w then w else w\<lparr>cw_local := local_store now k b (cw_local w)\<rparr>)"

definition set_cb_state :: "breaker_config \<Rightarrow> rat \<Rightarrow> string \<Rightarrow> breaker \<Rightarrow> breaker_world \<Rightarrow> breaker_world" where
  "set_cb_state cfg now k b w =
     (if cw_online w \<and> cw_writable w then w\<lparr>cw_hashes := hash_store cfg now k b (cw_hashes w)\<rparr>
      else w\<lparr>cw_local := local_store now k b (cw_local w)\<rparr>)"

subsection \<open>Transitions\<close>

definition after_failure :: "breaker_config \<Rightarrow> rat \<Rightarrow> breaker \<Rightarrow> breaker" where
  "after_failure cfg now b =
     (let b1 = b\<lparr>cb_failures := cb_failures b + 1\<rparr>
      in if cb_status b1 = HalfOpen then b1\<lparr>cb_status := Opened, cb_opened_at := now\<rparr>
         else if bc_threshold cfg \<le> cb_failures b1 then b1\<lparr>cb_status := Opened, cb_opened_at := now\<rparr>
         else b1)"

text \<open>What is changed in place by a success, and what is written.\<close>

definition touched_by_success :: "breaker \<Rightarrow> breaker" where
  "touched_by_success b =
     (if cb_status b = HalfOpen then b\<lparr>cb_successes := cb_successes b + 1\<rparr> else b\<lparr>cb_failures := 0\<rparr>)"

definition after_success :: "breaker_config \<Rightarrow> breaker \<Rightarrow> breaker" where
  "after_success cfg b =
     (let b1 = touched_by_success b
      in if cb_status b = HalfOpen \<and> bc_half_open cfg \<le> cb_successes b1 then new_breaker else b1)"

definition half_opened :: "breaker \<Rightarrow> breaker" where
  "half_opened b = b\<lparr>cb_status := HalfOpen, cb_successes := 0\<rparr>"

definition is_circuit_open :: "breaker_config \<Rightarrow> rat \<Rightarrow> string \<Rightarrow> breaker_world \<Rightarrow> bool \<times> breaker_world" where
  "is_circuit_open cfg now k w =
     (let b = get_cb_state now k w; w1 = touch_local now k b w
      in if cb_status b \<noteq> Opened then (False, w1)
         else if bc_reset cfg < now - cb_opened_at b
         then (False, set_cb_state cfg now k (half_opened b) (touch_local now k (half_opened b) w1))
         else (True, w1))"

definition mark_failure :: "breaker_config \<Rightarrow> rat \<Rightarrow> string \<Rightarrow> breaker_world \<Rightarrow> breaker_world" where
  "mark_failure cfg now k w =
     (let b = after_failure cfg now (get_cb_state now k w)
      in set_cb_state cfg now k b (touch_local now k b w))"

definition mark_success :: "breaker_config \<Rightarrow> rat \<Rightarrow> string \<Rightarrow> breaker_world \<Rightarrow> breaker_world" where
  "mark_success cfg now k w =
     (let b = get_cb_state now k w
      in set_cb_state cfg now k (after_success cfg b) (touch_local now k (touched_by_success b) w))"

subsection \<open>A store as an interface\<close>

text \<open>
  What the breaker relies on: a state that was written is read back for as long as the store keeps it, and
  writing one key leaves the others alone. Redis keeps a state for twice the reset time, the process for ever.
\<close>

locale breaker_store =
  fixes load :: "rat \<Rightarrow> string \<Rightarrow> 'w \<Rightarrow> breaker"
    and store :: "rat \<Rightarrow> string \<Rightarrow> breaker \<Rightarrow> 'w \<Rightarrow> 'w"
    and kept :: "rat \<Rightarrow> rat \<Rightarrow> bool"
  assumes load_store: "kept now now' \<Longrightarrow> load now' k (store now k b w) = b"
    and load_other: "k' \<noteq> k \<Longrightarrow> load now' k' (store now k b w) = load now' k' w"
begin

definition fail_at :: "breaker_config \<Rightarrow> string \<Rightarrow> rat \<Rightarrow> 'w \<Rightarrow> 'w" where
  "fail_at cfg k now w = store now k (after_failure cfg now (load now k w)) w"

definition succeed_at :: "breaker_config \<Rightarrow> string \<Rightarrow> rat \<Rightarrow> 'w \<Rightarrow> 'w" where
  "succeed_at cfg k now w = store now k (after_success cfg (load now k w)) w"

fun gaps_kept :: "rat \<Rightarrow> rat list \<Rightarrow> bool" where
  "gaps_kept t [] = True"
| "gaps_kept t (u # us) = (kept t u \<and> gaps_kept u us)"

text \<open>Failures in a row, none of them after a pause in which the store forgets, are counted until the breaker opens.\<close>

lemma failures_counted:
  assumes "cb_status (load t k w) = Closed" and "cb_failures (load t k w) + int (length ts) < bc_threshold cfg - 1"
    and "gaps_kept t (ts @ [u])"
  shows "cb_status (load u k (fold (fail_at cfg k) (t # ts) w)) = Closed \<and>
    cb_failures (load u k (fold (fail_at cfg k) (t # ts) w)) = cb_failures (load t k w) + int (length ts) + 1"
  using assms
proof (induction ts arbitrary: t w)
  case Nil
  then show ?case by (simp add: fail_at_def load_store after_failure_def Let_def)
next
  case (Cons v ts)
  let ?w = "fail_at cfg k t w"
  have v: "kept t v" and rest: "gaps_kept v (ts @ [u])" using Cons.prems(3) by simp_all
  have "load v k ?w = after_failure cfg t (load t k w)" by (simp add: fail_at_def load_store v)
  then have "cb_status (load v k ?w) = Closed" "cb_failures (load v k ?w) = cb_failures (load t k w) + 1"
    using Cons.prems(1,2) by (simp_all add: after_failure_def Let_def)
  with Cons.IH [of v ?w, OF _ _ rest] Cons.prems(2) show ?case by simp
qed

lemma opens_at_threshold:
  assumes "cb_status (load t k w) = Closed" and "cb_failures (load t k w) + 1 = bc_threshold cfg" and "kept t u"
  shows "cb_status (load u k (fail_at cfg k t w)) = Opened \<and> cb_opened_at (load u k (fail_at cfg k t w)) = t"
  using assms by (simp add: fail_at_def load_store after_failure_def Let_def)

lemma trips:
  assumes "cb_status (load t k w) = Closed" and "cb_failures (load t k w) = 0"
    and "int (length ts) + 1 = bc_threshold cfg" and "gaps_kept t (ts @ [u])"
  shows "cb_status (load u k (fold (fail_at cfg k) (t # ts) w)) = Opened
    \<and> cb_opened_at (load u k (fold (fail_at cfg k) (t # ts) w)) = List.last (t # ts)"
proof (cases ts rule: rev_cases)
  case Nil
  then show ?thesis using opens_at_threshold [of t k w cfg u] assms by simp
next
  case (snoc vs v)
  have "gaps_kept t (vs @ [v])" and v: "kept v u"
  proof -
    have "gaps_kept t (xs @ [a, b]) \<Longrightarrow> gaps_kept t (xs @ [a]) \<and> kept a b" for t xs a b by (induction xs arbitrary: t) auto
    then show "gaps_kept t (vs @ [v])" "kept v u" using assms(4) snoc by auto
  qed
  then have "cb_status (load v k (fold (fail_at cfg k) (t # vs) w)) = Closed \<and>
      cb_failures (load v k (fold (fail_at cfg k) (t # vs) w)) = int (length vs) + 1"
    using failures_counted [of t k w vs cfg v] assms snoc by simp
  then show ?thesis using opens_at_threshold [of v k "fold (fail_at cfg k) (t # vs) w" cfg u] v assms(3) snoc by simp
qed

end

interpretation redis_breaker: breaker_store hash_load "hash_store cfg" "\<lambda>now now'. now' < now + 2 * bc_reset cfg"
  for cfg by unfold_locales (simp_all add: hash_load_def hash_store_def)

interpretation local_breaker: breaker_store local_load local_store "\<lambda>now now'. True"
  by unfold_locales (simp_all add: local_load_def local_store_def)

subsection \<open>The breaker over Redis\<close>

definition redis_up :: "breaker_world \<Rightarrow> bool" where
  "redis_up w \<longleftrightarrow> cw_online w \<and> cw_readable w \<and> cw_writable w"

fun close_by :: "rat \<Rightarrow> rat \<Rightarrow> rat list \<Rightarrow> bool" where
  "close_by mem t [] = True"
| "close_by mem t (u # us) = (u < t + mem \<and> close_by mem u us)"

lemma close_by_gaps: "redis_breaker.gaps_kept cfg t us \<longleftrightarrow> close_by (2 * bc_reset cfg) t us"
  by (induction us arbitrary: t) simp_all

lemma close_by_append: "close_by mem t (us @ [v]) \<longleftrightarrow> close_by mem t us \<and> v < List.last (t # us) + mem"
  by (induction us arbitrary: t) auto

definition failures_at :: "breaker_config \<Rightarrow> string \<Rightarrow> rat list \<Rightarrow> breaker_world \<Rightarrow> breaker_world" where
  "failures_at cfg k ts w = fold (\<lambda>t. mark_failure cfg t k) ts w"

definition successes_at :: "breaker_config \<Rightarrow> string \<Rightarrow> rat list \<Rightarrow> breaker_world \<Rightarrow> breaker_world" where
  "successes_at cfg k ts w = fold (\<lambda>t. mark_success cfg t k) ts w"

lemma redis_up_hashes [simp]: "redis_up (w\<lparr>cw_hashes := h\<rparr>) = redis_up w"
  by (simp add: redis_up_def)

lemma get_up: "redis_up w \<Longrightarrow> get_cb_state now k w = hash_load now k (cw_hashes w)"
  by (simp add: redis_up_def get_cb_state_def from_redis_def)

lemma failure_up: "redis_up w \<Longrightarrow> mark_failure cfg now k w = w\<lparr>cw_hashes := redis_breaker.fail_at cfg cfg k now (cw_hashes w)\<rparr>"
  by (simp add: redis_up_def mark_failure_def Let_def get_cb_state_def from_redis_def touch_local_def set_cb_state_def redis_breaker.fail_at_def)

lemma success_up: "redis_up w \<Longrightarrow> mark_success cfg now k w = w\<lparr>cw_hashes := redis_breaker.succeed_at cfg cfg k now (cw_hashes w)\<rparr>"
  by (simp add: redis_up_def mark_success_def Let_def get_cb_state_def from_redis_def touch_local_def set_cb_state_def redis_breaker.succeed_at_def)

lemma failures_up:
  "redis_up w \<Longrightarrow> failures_at cfg k ts w = w\<lparr>cw_hashes := fold (redis_breaker.fail_at cfg cfg k) ts (cw_hashes w)\<rparr>"
  by (induction ts arbitrary: w) (simp_all add: failures_at_def failure_up)

lemma open_check_up:
  assumes "redis_up w" and "get_cb_state now k w = b" and "cb_status b = Opened"
  shows "is_circuit_open cfg now k w =
    (if bc_reset cfg < now - cb_opened_at b
     then (False, w\<lparr>cw_hashes := hash_store cfg now k (half_opened b) (cw_hashes w)\<rparr>) else (True, w))"
  using assms by (simp add: is_circuit_open_def Let_def touch_local_def redis_up_def from_redis_def set_cb_state_def)

lemma successes_close:
  assumes "redis_up w" and "cb_status (get_cb_state t k w) = HalfOpen"
    and "cb_successes (get_cb_state t k w) + int (length ts) + 1 = bc_half_open cfg" and "close_by (2 * bc_reset cfg) t (ts @ [u])"
  shows "get_cb_state u k (successes_at cfg k (t # ts) w) = new_breaker"
  using assms
proof (induction ts arbitrary: t w)
  case Nil
  then show ?case
    by (simp add: successes_at_def success_up get_up redis_breaker.succeed_at_def redis_breaker.load_store after_success_def touched_by_success_def Let_def)
next
  case (Cons v ts)
  let ?w = "mark_success cfg t k w"
  have v: "v < t + 2 * bc_reset cfg" and rest: "close_by (2 * bc_reset cfg) v (ts @ [u])" using Cons.prems(4) by simp_all
  have up: "redis_up ?w" using Cons.prems(1) by (simp add: success_up)
  have "get_cb_state v k ?w = after_success cfg (get_cb_state t k w)"
    using Cons.prems(1) v by (simp add: success_up get_up redis_breaker.succeed_at_def redis_breaker.load_store)
  then have "cb_status (get_cb_state v k ?w) = HalfOpen" "cb_successes (get_cb_state v k ?w) = cb_successes (get_cb_state t k w) + 1"
    using Cons.prems(2,3) by (simp_all add: after_success_def touched_by_success_def Let_def)
  with Cons.IH [OF up _ _ rest] Cons.prems(3) show ?case by (simp add: successes_at_def)
qed

text \<open>C11: with Redis up, as many failures as the threshold with pauses shorter than the memory of the store open the
  circuit: until the reset time is over every request is refused and nothing changes; the first one after it is
  let through on trial, another failure then opens the circuit again at once, and the configured number of
  successes closes it with a clean record.
\<close>
theorem circuit_trips_and_recovers:
  assumes "redis_up w" and "get_cb_state t k w = new_breaker" and "0 < bc_reset cfg"
    and "int (length ts) + 1 = bc_threshold cfg" and "close_by (2 * bc_reset cfg) t ts"
    and "int (length us) + 1 = bc_half_open cfg" and "close_by (2 * bc_reset cfg) trial (us @ [v])"
    and "down = failures_at cfg k (t # ts) w"
  shows "(\<forall>now \<le> List.last (t # ts) + bc_reset cfg. is_circuit_open cfg now k down = (True, down))
    \<and> (List.last (t # ts) + bc_reset cfg < trial \<and> trial < List.last (t # ts) + 2 * bc_reset cfg \<longrightarrow>
        \<not> fst (is_circuit_open cfg trial k down)
        \<and> cb_status (get_cb_state trial k (mark_failure cfg trial k (snd (is_circuit_open cfg trial k down)))) = Opened
        \<and> get_cb_state v k (successes_at cfg k (trial # us) (snd (is_circuit_open cfg trial k down))) = new_breaker)"
proof -
  let ?last = "List.last (t # ts)"
  have up: "redis_up down" using assms(1) by (simp add: assms(8) failures_up)
  have tripped: "cb_status (get_cb_state now k down) = Opened \<and> cb_opened_at (get_cb_state now k down) = ?last"
    if "now < ?last + 2 * bc_reset cfg" for now
    using redis_breaker.trips [of t k "cw_hashes w" ts cfg cfg now] assms(1,2,4,5) that
    by (simp add: assms(8) failures_up get_up close_by_gaps close_by_append new_breaker_def)
  have refused: "is_circuit_open cfg now k down = (True, down)" if "now \<le> ?last + bc_reset cfg" for now
    using open_check_up [OF up refl, of now k cfg] tripped [of now] that assms(3) by simp
  moreover have trial: "\<not> fst (is_circuit_open cfg trial k down)
      \<and> cb_status (get_cb_state trial k (mark_failure cfg trial k (snd (is_circuit_open cfg trial k down)))) = Opened
      \<and> get_cb_state v k (successes_at cfg k (trial # us) (snd (is_circuit_open cfg trial k down))) = new_breaker"
    if "?last + bc_reset cfg < trial" and "trial < ?last + 2 * bc_reset cfg"
  proof -
    let ?b = "half_opened (get_cb_state trial k down)"
    let ?w = "down\<lparr>cw_hashes := hash_store cfg trial k ?b (cw_hashes down)\<rparr>"
    have let_through: "is_circuit_open cfg trial k down = (False, ?w)"
      using open_check_up [OF up refl, of trial k cfg] tripped [OF that(2)] that(1) by simp
    have up': "redis_up ?w" using up by simp
    have b: "get_cb_state trial k ?w = ?b" using up assms(3) by (simp add: get_up redis_breaker.load_store)
    have "cb_status (get_cb_state trial k (mark_failure cfg trial k ?w)) = Opened"
      using up' b assms(3)
      by (simp add: failure_up get_up redis_breaker.fail_at_def redis_breaker.load_store after_failure_def half_opened_def Let_def)
    moreover have "get_cb_state v k (successes_at cfg k (trial # us) ?w) = new_breaker"
      by (rule successes_close [OF up' _ _ assms(7)], unfold b) (simp_all add: half_opened_def assms(6))
    ultimately show ?thesis using let_through by simp
  qed
  ultimately show ?thesis by blast
qed

definition no_breakers :: breaker_world where
  "no_breakers = \<lparr>cw_online = True, cw_readable = True, cw_writable = True, cw_hashes = [], cw_local = []\<rparr>"

text \<open>C11 at the settings of the gateway: five failures within four seconds.\<close>
theorem circuit_trips_and_recovers_witness:
  "fst (is_circuit_open default_breaker_config 33 ''api:k'' (failures_at default_breaker_config ''api:k'' [0, 1, 2, 3, 4] no_breakers))
   \<and> \<not> fst (is_circuit_open default_breaker_config 35 ''api:k'' (failures_at default_breaker_config ''api:k'' [0, 1, 2, 3, 4] no_breakers))"
proof -
  have "redis_up no_breakers" "get_cb_state 0 ''api:k'' no_breakers = new_breaker" "0 < bc_reset default_breaker_config"
    "int (length [1 :: rat, 2, 3, 4]) + 1 = bc_threshold default_breaker_config" "close_by (2 * bc_reset default_breaker_config) 0 [1, 2, 3, 4]"
    "int (length [36 :: rat]) + 1 = bc_half_open default_breaker_config" "close_by (2 * bc_reset default_breaker_config) 35 ([36] @ [37])"
    by code_simp+
  from circuit_trips_and_recovers [OF this refl] show ?thesis by (simp add: default_breaker_config_def)
qed

text \<open>Without Redis the breaker is the process's own: another process does not see it.\<close>

lemma local_failures_unseen:
  "get_cb_state now k (mark_failure cfg now k (w\<lparr>cw_online := False\<rparr>)\<lparr>cw_local := []\<rparr>) = new_breaker"
  by (simp add: mark_failure_def Let_def set_cb_state_def touch_local_def get_cb_state_def from_redis_def local_load_def)

end
