(* ===== verification/Secret_Manager.thy ===== *)
theory Secret_Manager
  imports Cache_Service Py_Text
begin

section \<open>Secrets of the upstreams\<close>

text \<open>
  \<open>SecretManager\<close> of src/app/services/secrets/manager.py over its table and the cache. The cipher is an argument:
  \<open>enc\<close> and \<open>dec\<close> of Fernet under the configured key, both absent when no key is configured; so is the parser
  of UUIDs, which gives the canonical text.
\<close>

record cipher =
  ci_enc :: "string \<Rightarrow> string"
  ci_dec :: "string \<Rightarrow> string option"

record secret_row =
  se_provider :: string
  se_encrypted :: string
  se_hint :: string

record secret_state =
  ss_cache :: "string cache_state"
  ss_rows :: "(string, secret_row) dict"

record secret_env =
  sv_cipher :: "cipher option"
  sv_uuid :: "string \<Rightarrow> string option"
  sv_env :: "string \<Rightarrow> string option"

definition credential_key :: "string \<Rightarrow> string \<Rightarrow> string" where
  "credential_key provider ref = ''gw:upstream_cred:'' @ provider @ (if ref = [] then [] else '':'' @ ref)"

definition is_db_ref :: "string \<Rightarrow> bool" where
  "is_db_ref ref = starts_with ref ''db:''"

definition parse_db_ref :: "secret_env \<Rightarrow> string \<Rightarrow> string option" where
  "parse_db_ref ev ref = (if is_db_ref ref then sv_uuid ev (drop 3 ref) else None)"

definition key_char :: "char \<Rightarrow> bool" where
  "key_char c = (let n = of_char c :: nat in 48 \<le> n \<and> n \<le> 57 \<or> 65 \<le> n \<and> n \<le> 90 \<or> 97 \<le> n \<and> n \<le> 122)"

definition chop_newline :: "string \<Rightarrow> string" where
  "chop_newline s = (if ends_with s [CHR 0x0A] then butlast s else s)"

definition looks_like_plain_secret :: "string \<Rightarrow> bool" where
  "looks_like_plain_secret v =
     (let keyed = (\<lambda>p. starts_with v p \<and> 16 \<le> length (chop_newline (drop (length p) v)) \<and>
            list_all (\<lambda>c. key_char c \<or> c = CHR ''_'' \<or> c = CHR ''-'') (chop_newline (drop (length p) v)))
      in v \<noteq> [] \<and>
         (keyed ''sk-'' \<or> keyed ''ak-'' \<or> keyed ''AIza-'' \<or>
          starts_with (str_lower v) ''bearer '' \<and> 15 < length v \<or>
          starts_with v ''eyJ'' \<and> 30 < length v \<and> CHR ''.'' \<in> set v \<or>
          starts_with v ''LTAI'' \<and> list_all key_char (chop_newline (drop 4 v)) \<and>
            16 \<le> length (chop_newline (drop 4 v)) \<and> length (chop_newline (drop 4 v)) \<le> 24))"

definition decrypt :: "secret_env \<Rightarrow> string \<Rightarrow> string option" where
  "decrypt ev token = (case sv_cipher ev of None \<Rightarrow> None | Some c \<Rightarrow> ci_dec c token)"

definition cache_set_encrypted :: "secret_env \<Rightarrow> rat \<Rightarrow> string \<Rightarrow> string \<Rightarrow> secret_state \<Rightarrow> secret_state" where
  "cache_set_encrypted ev now k secret s =
     (case sv_cipher ev of
        None \<Rightarrow> s
      | Some c \<Rightarrow> s\<lparr>ss_cache := snd (cache_set now k (ci_enc c secret) (Some 300) False (ss_cache s))\<rparr>)"

definition fetch_from_db :: "secret_env \<Rightarrow> string \<Rightarrow> string \<Rightarrow> secret_state \<Rightarrow> string option" where
  "fetch_from_db ev provider ref s =
     (case parse_db_ref ev ref of
        None \<Rightarrow> None
      | Some i \<Rightarrow>
          (case dget (ss_rows s) i of
             None \<Rightarrow> None
           | Some r \<Rightarrow> if se_provider r \<noteq> provider then None else decrypt ev (se_encrypted r)))"

definition fetch_from_store :: "secret_env \<Rightarrow> string \<Rightarrow> string \<Rightarrow> string option" where
  "fetch_from_store ev provider ref =
     (if str_truthy (sv_env ev ref) then sv_env ev ref else sv_env ev (''UPSTREAM_'' @ str_upper provider @ ''_SECRET''))"

definition remember :: "secret_env \<Rightarrow> rat \<Rightarrow> string \<Rightarrow> string option \<times> secret_state \<Rightarrow> string option \<times> secret_state" where
  "remember ev now k r =
     (case r of (secret, s) \<Rightarrow> (secret, if str_truthy secret then cache_set_encrypted ev now k (the secret) s else s))"

definition namespace_of :: "string option \<Rightarrow> string" where
  "namespace_of provider = (if str_truthy provider then the provider else ''default'')"

definition get_secret :: "secret_env \<Rightarrow> rat \<Rightarrow> string option \<Rightarrow> string option \<Rightarrow> bool \<Rightarrow> bool \<Rightarrow> secret_state \<Rightarrow>
    string option \<times> secret_state" where
  "get_secret ev now provider ref session allow_env s =
     (if \<not> str_truthy ref then (None, s)
      else
        let k = credential_key (namespace_of provider) (the ref);
            cached = cache_get now k (ss_cache s);
            plain = (case cached of Some t \<Rightarrow> if t = [] then None else decrypt ev t | None \<Rightarrow> None)
        in if str_truthy plain then (plain, s)
           else
             let s1 = (if str_truthy cached then s\<lparr>ss_cache := cache_delete k (ss_cache s)\<rparr> else s)
             in if is_db_ref (the ref) then
                  (if \<not> session then (None, s1)
                   else remember ev now k (fetch_from_db ev (namespace_of provider) (the ref) s1, s1))
                else if looks_like_plain_secret (the ref) then (None, s1)
                else if \<not> allow_env then (None, s1)
                else remember ev now k (fetch_from_store ev (namespace_of provider) (the ref), s1))"

text \<open>\<open>store\<close>: \<open>fresh\<close> is the new UUID. Without a key nothing is written.\<close>

definition secret_hint :: "string \<Rightarrow> string" where
  "secret_hint raw = (if 4 \<le> length raw then drop (length raw - 4) raw else ''****'')"

definition store_secret :: "secret_env \<Rightarrow> rat \<Rightarrow> string option \<Rightarrow> string \<Rightarrow> string option \<Rightarrow> string \<Rightarrow> secret_state \<Rightarrow>
    exn + string \<times> secret_state" where
  "store_secret ev now provider raw ref fresh s =
     (let given = (if str_truthy ref then parse_db_ref ev (the ref) else None);
          i = (case given of Some j \<Rightarrow> j | None \<Rightarrow> fresh);
          ref' = (case given of Some _ \<Rightarrow> the ref | None \<Rightarrow> ''db:'' @ fresh)
      in case sv_cipher ev of
           None \<Rightarrow> Inl (OtherError ''RuntimeError'' ''SECRET_KEY not configured'')
         | Some c \<Rightarrow>
             let s1 = s\<lparr>ss_rows := dput i \<lparr>se_provider = namespace_of provider, se_encrypted = ci_enc c raw, se_hint = secret_hint raw\<rparr> (ss_rows s)\<rparr>
             in Inr (ref', cache_set_encrypted ev now (credential_key (namespace_of provider) ref') raw s1))"

text \<open>\<open>rotate\<close> with the invalidation that follows; the version bump of the cache is left out.\<close>

definition on_secret_rotated :: "rat \<Rightarrow> string \<Rightarrow> string cache_state \<Rightarrow> string cache_state" where
  "on_secret_rotated now provider c = snd (clear_prefix now (''upstream_cred:'' @ provider) c)"

definition rotate_secret :: "secret_env \<Rightarrow> rat \<Rightarrow> string \<Rightarrow> string \<Rightarrow> string \<Rightarrow> bool \<Rightarrow> string \<Rightarrow> secret_state \<Rightarrow>
    exn + bool \<times> secret_state" where
  "rotate_secret ev now provider ref secret session fresh s =
     (if provider = [] \<or> ref = [] \<or> secret = [] \<or> \<not> session \<or> \<not> is_db_ref ref then Inr (False, s)
      else bindR (store_secret ev now (Some provider) secret (Some ref) fresh s) (\<lambda>(_, s1).
        Inr (True, s1\<lparr>ss_cache := on_secret_rotated now provider (ss_cache s1)\<rparr>)))"

subsection \<open>What comes back\<close>

lemma decrypt_enc: "sv_cipher ev = Some c \<Longrightarrow> ci_dec c (ci_enc c x) = Some x \<Longrightarrow> decrypt ev (ci_enc c x) = Some x"
  by (simp add: decrypt_def)

lemma cache_get_after_set:
  "cache_get now k (snd (cache_set t k' v (Some 300) False c)) =
     (if k' = k \<and> cs_redis c then (if now < t + 300 then Some v else None) else cache_get now k c)"
  by (auto simp: cache_get_def cache_set_def redis_get_def redis_put_def expiry_def live_def)

lemma db_ref_kept:
  assumes "store_secret ev t provider raw ref fresh s = Inr (ref', s')" and "sv_uuid ev fresh = Some fresh"
    and "sv_cipher ev = Some c"
  shows "is_db_ref ref' \<and> (\<exists>i. parse_db_ref ev ref' = Some i \<and>
      s' = cache_set_encrypted ev t (credential_key (namespace_of provider) ref') raw
        (s\<lparr>ss_rows := dput i \<lparr>se_provider = namespace_of provider, se_encrypted = ci_enc c raw, se_hint = secret_hint raw\<rparr> (ss_rows s)\<rparr>))"
proof (cases "if str_truthy ref then parse_db_ref ev (the ref) else None")
  case None
  then show ?thesis using assms by (auto simp: store_secret_def Let_def parse_db_ref_def is_db_ref_def starts_with_def)
next
  case (Some i)
  then have "is_db_ref (the ref)" "parse_db_ref ev (the ref) = Some i" by (auto simp: parse_db_ref_def split: if_splits)
  with Some assms show ?thesis by (auto simp: store_secret_def Let_def)
qed

text \<open>C21: what is stored is what the calls get: at any later time, whether the cache still holds it, has forgotten it or is
  not there, \<open>get\<close> with the reference \<open>store\<close> returned gives the secret back, as long as provider and cipher are the same.
\<close>
theorem secret_roundtrip:
  assumes "store_secret ev t provider raw ref fresh s = Inr (ref', s')"
    and "sv_cipher ev = Some c" and "\<And>x. ci_dec c (ci_enc c x) = Some x" and "\<And>x. ci_enc c x \<noteq> []"
    and "sv_uuid ev fresh = Some fresh" and "raw \<noteq> []"
    and "cache_get now (credential_key (namespace_of provider) ref') (ss_cache s) = None"
  shows "fst (get_secret ev now provider (Some ref') True allow_env s') = Some raw"
proof -
  let ?k = "credential_key (namespace_of provider) ref'"
  obtain i where db: "is_db_ref ref'" and i: "parse_db_ref ev ref' = Some i"
    and s': "s' = cache_set_encrypted ev t ?k raw
        (s\<lparr>ss_rows := dput i \<lparr>se_provider = namespace_of provider, se_encrypted = ci_enc c raw, se_hint = secret_hint raw\<rparr> (ss_rows s)\<rparr>)"
    using db_ref_kept [OF assms(1,5,2)] by blast
  have ne: "ref' \<noteq> []" using db by (auto simp: is_db_ref_def starts_with_def)
  have cached: "cache_get now ?k (ss_cache s') = (if cs_redis (ss_cache s) \<and> now < t + 300 then Some (ci_enc c raw) else None)"
    using assms(7) by (simp add: s' cache_set_encrypted_def assms(2) cache_get_after_set)
  have rows: "dget (ss_rows s') i = Some \<lparr>se_provider = namespace_of provider, se_encrypted = ci_enc c raw, se_hint = secret_hint raw\<rparr>"
    by (simp add: s' cache_set_encrypted_def assms(2))
  have dec: "decrypt ev (ci_enc c raw) = Some raw" by (rule decrypt_enc [OF assms(2,3)])
  have fetched: "fetch_from_db ev (namespace_of provider) ref' s' = Some raw"
    by (simp add: fetch_from_db_def i rows dec)
  show ?thesis
    using ne db dec assms(4,6) by (simp add: get_secret_def Let_def cached fetched remember_def split: if_split)
qed

definition shift_cipher :: cipher where
  "shift_cipher = \<lparr>ci_enc = (\<lambda>x. CHR ''x'' # rev x), ci_dec = (\<lambda>t. case t of [] \<Rightarrow> None | c # x \<Rightarrow> Some (rev x))\<rparr>"

definition plain_env :: secret_env where
  "plain_env = \<lparr>sv_cipher = Some shift_cipher, sv_uuid = Some, sv_env = (\<lambda>_. None)\<rparr>"

definition no_secrets :: secret_state where
  "no_secrets = \<lparr>ss_cache = \<lparr>cs_redis = True, cs_data = []\<rparr>, ss_rows = []\<rparr>"

text \<open>C21 at a new key, after the cache has forgotten it.\<close>
theorem secret_roundtrip_witness:
  "\<exists>s'. store_secret plain_env 0 (Some ''openai'') ''sk-1'' None ''u1'' no_secrets = Inr (''db:u1'', s')
     \<and> fst (get_secret plain_env 400 (Some ''openai'') (Some ''db:u1'') True False s') = Some ''sk-1''"
proof -
  obtain s' where s': "store_secret plain_env 0 (Some ''openai'') ''sk-1'' None ''u1'' no_secrets = Inr (''db:u1'', s')"
    by (simp add: store_secret_def plain_env_def Let_def)
  have "fst (get_secret plain_env 400 (Some ''openai'') (Some ''db:u1'') True False s') = Some ''sk-1''"
    by (rule secret_roundtrip [OF s', where c = shift_cipher])
       (simp_all add: plain_env_def shift_cipher_def no_secrets_def cache_get_def redis_get_def)
  with s' show ?thesis by blast
qed

text \<open>The reference itself is never given out as a secret, and a row is not read for another provider.\<close>

lemma foreign_provider_refused:
  "dget (ss_rows s) i = Some r \<Longrightarrow> parse_db_ref ev ref = Some i \<Longrightarrow> se_provider r \<noteq> p \<Longrightarrow> fetch_from_db ev p ref s = None"
  by (simp add: fetch_from_db_def)

lemma unresolved_ref_gives_nothing:
  "\<not> is_db_ref ref \<Longrightarrow> cache_get now (credential_key (namespace_of p) ref) (ss_cache s) = None \<Longrightarrow>
   fst (get_secret ev now p (Some ref) session False s) = None"
  by (simp add: get_secret_def Let_def)

text \<open>The invalidation after a rotation names a prefix without \<open>gw:\<close> and so clears no credential.\<close>

lemma rotation_clears_nothing: "cache_get now (credential_key p ref) (on_secret_rotated now p c) = cache_get now (credential_key p ref) c"
proof -
  have k: "\<not> starts_with (credential_key p ref) (''upstream_cred:'' @ p)"
    by (simp add: starts_with_def credential_key_def)
  let ?ks = "filter (\<lambda>k. starts_with k (''upstream_cred:'' @ p) \<and> redis_get now k c \<noteq> None) (dkeys (cs_data c))"
  have "map_of (filter (\<lambda>(k, _). k \<notin> set ks) d) x = map_of d x" if "x \<notin> set ks" for ks x and d :: "(string \<times> string redis_val \<times> rat option) list"
    using that by (induction d) auto
  moreover have "credential_key p ref \<notin> set ?ks" using k by simp
  ultimately have "dget (filter (\<lambda>(k, _). k \<notin> set ?ks) (cs_data c)) (credential_key p ref) = dget (cs_data c) (credential_key p ref)"
    by blast
  then show ?thesis by (simp add: on_secret_rotated_def clear_prefix_def Let_def cache_get_def redis_get_def)
qed

end
