(* ===== verification/Provider_Health.thy ===== *)
theory Provider_Health
  imports Py_Value
begin

section \<open>Health of provider instances\<close>

text \<open>
  \<open>HealthMonitorService\<close> of src/app/services/providers/health_monitor.py: the last status of an instance and its
  latencies in Redis. Times are the whole seconds of \<open>int(time.time())\<close>. The probe of an address is an argument:
  None for a failed request, otherwise its status code and latency.
\<close>

record health_config =
  hc_throttle :: int
  hc_stale :: int

definition default_health_config :: health_config where
  "default_health_config = \<lparr>hc_throttle = 5, hc_stale = 300\<rparr>"

record health_entry =
  he_status :: string
  he_latency :: int
  he_last_check :: int

record health_store =
  hs_entries :: "(string, health_entry) dict"
  hs_history :: "(string, int list) dict"

definition should_skip_write :: "health_config \<Rightarrow> int \<Rightarrow> string \<Rightarrow> string \<Rightarrow> health_store \<Rightarrow> bool" where
  "should_skip_write cfg now i status s =
     (if hc_throttle cfg \<le> 0 then False
      else case dget (hs_entries s) i of
             None \<Rightarrow> False
           | Some e \<Rightarrow>
               let current = str_lower (str_strip (he_status e))
               in if current = [] \<or> current \<noteq> str_lower (str_strip status) then False
                  else if he_last_check e \<le> 0 then False
                  else now - he_last_check e < hc_throttle cfg)"

definition keep_last :: "nat \<Rightarrow> 'a list \<Rightarrow> 'a list" where
  "keep_last n xs = drop (length xs - n) xs"

definition history_of :: "string \<Rightarrow> health_store \<Rightarrow> int list" where
  "history_of i s = (case dget (hs_history s) i of Some xs \<Rightarrow> xs | None \<Rightarrow> [])"

definition record_heartbeat :: "health_config \<Rightarrow> int \<Rightarrow> string \<Rightarrow> int \<Rightarrow> string \<Rightarrow> bool \<Rightarrow> health_store \<Rightarrow> health_store" where
  "record_heartbeat cfg now i latency status forced s =
     (if \<not> forced \<and> should_skip_write cfg now i status s then s
      else
        let l = max latency 0
        in s\<lparr>hs_entries := dput i \<lparr>he_status = status, he_latency = l, he_last_check = now\<rparr> (hs_entries s),
             hs_history := dput i (keep_last 20 (history_of i s @ [if status \<noteq> ''down'' then l else 0])) (hs_history s)\<rparr>)"

definition status_of_result :: "int option \<Rightarrow> string" where
  "status_of_result code =
     (let n = (case code of None \<Rightarrow> 0 | Some k \<Rightarrow> k)
      in if 500 \<le> n then ''degraded'' else if 0 < n then ''healthy'' else ''down'')"

definition record_request_result :: "health_config \<Rightarrow> int \<Rightarrow> string \<Rightarrow> int option \<Rightarrow> rat option \<Rightarrow> health_store \<Rightarrow> health_store" where
  "record_request_result cfg now i code latency s =
     (if i = [] then s
      else let l = max \<lfloor>case latency of None \<Rightarrow> 0 | Some x \<Rightarrow> x\<rfloor> 0; status = status_of_result code
           in record_heartbeat cfg now i (if status \<noteq> ''down'' then l else 0) status False s)"

definition get_health_status :: "health_config \<Rightarrow> int \<Rightarrow> string \<Rightarrow> health_store \<Rightarrow> health_entry" where
  "get_health_status cfg now i s =
     (case dget (hs_entries s) i of
        None \<Rightarrow> \<lparr>he_status = ''unknown'', he_latency = 0, he_last_check = 0\<rparr>
      | Some e \<Rightarrow>
          let status = str_lower (str_strip (he_status e)); latency = max (he_latency e) 0; last_check = max (he_last_check e) 0
          in if 0 < hc_stale cfg \<and> 0 < last_check \<and> hc_stale cfg < now - last_check
             then \<lparr>he_status = ''unknown'', he_latency = 0, he_last_check = last_check\<rparr>
             else \<lparr>he_status = (if status = [] then ''unknown'' else status), he_latency = latency, he_last_check = last_check\<rparr>)"

definition get_sparkline :: "string \<Rightarrow> health_store \<Rightarrow> int list" where
  "get_sparkline i s = history_of i s"

definition check_instance :: "health_config \<Rightarrow> int \<Rightarrow> string \<Rightarrow> (int \<times> int) option \<Rightarrow> health_store \<Rightarrow> health_store" where
  "check_instance cfg now i probe s =
     (case probe of
        None \<Rightarrow> record_heartbeat cfg now i 0 ''down'' False s
      | Some (code, latency) \<Rightarrow> record_heartbeat cfg now i latency (if 500 \<le> code then ''degraded'' else ''healthy'') False s)"

definition check_all_instances :: "health_config \<Rightarrow> int \<Rightarrow> (string \<times> (int \<times> int) option) list \<Rightarrow> health_store \<Rightarrow> health_store" where
  "check_all_instances cfg now probes s = fold (\<lambda>(i, probe). check_instance cfg now i probe) probes s"

subsection \<open>What is kept\<close>

definition health_ok :: "health_store \<Rightarrow> bool" where
  "health_ok s \<longleftrightarrow>
     (\<forall>i. length (history_of i s) \<le> 20 \<and> (\<forall>x \<in> set (history_of i s). 0 \<le> x)) \<and>
     (\<forall>i e. dget (hs_entries s) i = Some e \<longrightarrow> 0 \<le> he_latency e \<and> history_of i s \<noteq> [] \<and>
        (he_status e \<noteq> ''down'' \<longrightarrow> List.last (history_of i s) = he_latency e))"

lemma keep_last_props:
  "0 < n \<Longrightarrow> length (keep_last n (xs @ [x])) \<le> n \<and> set (keep_last n (xs @ [x])) \<subseteq> insert x (set xs)
   \<and> keep_last n (xs @ [x]) \<noteq> [] \<and> List.last (keep_last n (xs @ [x])) = x"
  unfolding keep_last_def
  by (auto simp del: drop_append dest: in_set_dropD)

lemma heartbeat_ok:
  assumes "health_ok s"
  shows "health_ok (record_heartbeat cfg now i latency status forced s)"
proof (cases "\<not> forced \<and> should_skip_write cfg now i status s")
  case True
  with assms show ?thesis by (simp add: record_heartbeat_def)
next
  case False
  let ?s = "record_heartbeat cfg now i latency status forced s"
  let ?x = "if status \<noteq> ''down'' then max latency 0 else 0"
  let ?h = "keep_last 20 (history_of i s @ [?x])"
  have rec: "?s = s\<lparr>hs_entries := dput i \<lparr>he_status = status, he_latency = max latency 0, he_last_check = now\<rparr> (hs_entries s),
      hs_history := dput i ?h (hs_history s)\<rparr>"
    by (simp only: record_heartbeat_def False if_False Let_def)
  have hist: "history_of j ?s = (if j = i then ?h else history_of j s)" for j
    unfolding rec by (simp add: history_of_def)
  have entry: "dget (hs_entries ?s) j =
      (if j = i then Some \<lparr>he_status = status, he_latency = max latency 0, he_last_check = now\<rparr> else dget (hs_entries s) j)" for j
    unfolding rec by simp
  have h: "length ?h \<le> 20" "set ?h \<subseteq> insert ?x (set (history_of i s))" "?h \<noteq> []" "List.last ?h = ?x"
    using keep_last_props [of 20 "history_of i s" ?x] by simp_all
  have old: "\<forall>x \<in> set (history_of j s). 0 \<le> x" "length (history_of j s) \<le> 20" for j
    using assms by (auto simp: health_ok_def)
  have "0 \<le> ?x" by simp
  with h(2) old(1) [of i] have "\<forall>x \<in> set ?h. 0 \<le> x" by blast
  with h(1,3,4) assms show ?thesis unfolding health_ok_def hist entry by (cases "status = ''down''") simp_all
qed

lemma request_result_ok: "health_ok s \<Longrightarrow> health_ok (record_request_result cfg now i code latency s)"
  by (simp add: record_request_result_def Let_def heartbeat_ok)

lemma check_all_ok: "health_ok s \<Longrightarrow> health_ok (check_all_instances cfg now probes s)"
proof (induction probes arbitrary: s)
  case (Cons p probes)
  then show ?case
    by (cases p) (simp add: check_all_instances_def check_instance_def heartbeat_ok split: option.split)
qed (simp add: check_all_instances_def)

text \<open>
  A change of status is written at once and read back, as long as it is fresh; the throttle only holds back a repetition.
\<close>

lemma changed_status_read_back:
  assumes "get_health_status cfg now i s = e" and "he_status e \<noteq> str_lower (str_strip status)" and "0 < now"
    and "str_lower (str_strip status) \<noteq> []" and "0 \<le> hc_stale cfg" and "he_status e \<noteq> ''unknown''" and "str_lower (str_strip status) = status"
  shows "he_status (get_health_status cfg now i (record_heartbeat cfg now i latency status False s)) = status"
proof -
  have "\<not> should_skip_write cfg now i status s"
    using assms(1,2,6) by (auto simp: get_health_status_def should_skip_write_def Let_def split: option.splits if_splits)
  then show ?thesis using assms(3,4,5,7) by (simp add: record_heartbeat_def Let_def get_health_status_def)
qed

end
