(* ===== verification/Upstream_Call.thy ===== *)
theory Upstream_Call
  imports Upstream_Transport Stream_Accumulator Circuit_Breaker Secret_Manager Provider_Health Bandit_Arms Routing_Affinity Base_Step
begin

section \<open>The upstream call\<close>

text \<open>
  \<open>UpstreamCallStep\<close> of src/app/services/workflow/steps/upstream_call.py over the transport, the breakers, the secrets,
  the arms, the affinity of the session and the health of the instances. The objects of the context are what their
  dictionaries are; the affinity machine, the accumulator and the stream are marks, their state is in the world.
  \<open>ce_render\<close> is \<open>render_value\<close>, \<open>ce_text\<close> the text of an error of the HTTP library, \<open>ce_feedback\<close> the reading of a
  routing configuration; one execution happens at \<open>ce_now\<close> and takes \<open>ce_latency\<close> milliseconds.
\<close>

record upstream_world =
  uw_transport :: transport
  uw_breakers :: breaker_world
  uw_secrets :: secret_state
  uw_arms :: arm_store
  uw_affinity :: affinity_store
  uw_health :: health_store

record call_env =
  ce_security :: security_config
  ce_net :: net_env
  ce_network :: network
  ce_draw :: "nat \<Rightarrow> nat \<Rightarrow> nat"
  ce_retries :: int
  ce_max_bytes :: int
  ce_breaker :: breaker_config
  ce_host :: "string \<Rightarrow> string option"
  ce_secret :: secret_env
  ce_feedback :: "(string, pyval) dict \<Rightarrow> feedback_config"
  ce_is_uuid :: "string \<Rightarrow> bool"
  ce_affinity :: affinity_config
  ce_health :: health_config
  ce_render :: "pyval \<Rightarrow> (string, pyval) dict \<Rightarrow> pyval"
  ce_text :: "call_error \<Rightarrow> string"
  ce_discount :: rat
  ce_now :: rat
  ce_latency :: rat

datatype upstream_exn = TimeoutX | HttpX int string | AuthX string | NetworkX string | RaisedX exn

subsection \<open>What the step reads\<close>

definition routing_text :: "workflow_context \<Rightarrow> string \<Rightarrow> string option" where
  "routing_text c k = string_of (ctx_get c ''routing'' k PNone)"

definition canonical_body :: "(string, pyval) dict \<Rightarrow> (string, pyval) dict" where
  "canonical_body d =
     [(''model'', py_get d ''model'' PNone), (''messages'', py_get d ''messages'' PNone), (''stream'', py_get d ''stream'' (PBool False))]
     @ (if py_get d ''temperature'' PNone = PNone then [] else [(''temperature'', py_get d ''temperature'' PNone)])
     @ (if py_get d ''max_output_tokens'' PNone = PNone then [] else [(''max_tokens'', py_get d ''max_output_tokens'' PNone)])
     @ (if a_list (py_get d ''tools'' PNone) \<and> truthy (py_get d ''tools'' PNone) then [(''tools'', py_get d ''tools'' PNone)] else [])"

text \<open>\<open>_build_request_body_from_context\<close>; the requests of the namespaces are their dumps without the Nones.\<close>

definition body_from_context :: "workflow_context \<Rightarrow> pyval" where
  "body_from_context c =
     (let canonical = as_dict (ctx_get c ''protocol'' ''canonical_request'' PNone);
          validated = as_dict (ctx_get c ''validation'' ''validated'' PNone);
          request = as_dict (ctx_get c ''validation'' ''request'' PNone)
      in if a_list (py_get canonical ''messages'' PNone) \<and> truthy (py_get canonical ''messages'' PNone)
         then PDict (canonical_body canonical)
         else if truthy (py_get validated ''messages'' PNone) then PDict validated
         else if truthy (py_get request ''messages'' PNone) then PDict request
         else PNone)"

definition default_headers_of :: "workflow_context \<Rightarrow> pyval" where
  "default_headers_of c =
     py_or (py_get (as_dict (py_get (as_dict (ctx_get c ''routing'' ''protocol_profile'' PNone)) ''defaults'' PNone)) ''headers'' PNone) (PDict [])"

definition has_body :: "workflow_context \<Rightarrow> bool" where
  "has_body c \<longleftrightarrow> a_dict (ctx_get c ''template_render'' ''request_body'' PNone) \<and> truthy (ctx_get c ''template_render'' ''request_body'' PNone)"

definition ensure_template_render_state :: "workflow_context \<Rightarrow> workflow_context" where
  "ensure_template_render_state c =
     (if has_body c then c
      else
        let body = body_from_context c;
            c1 = (if truthy body then ctx_set ''template_render'' ''request_body'' body c else c);
            c2 = (if truthy (ctx_get c1 ''template_render'' ''upstream_url'' PNone) then c1
                  else if truthy (ctx_get c1 ''routing'' ''upstream_url'' PNone)
                  then ctx_set ''template_render'' ''upstream_url'' (ctx_get c1 ''routing'' ''upstream_url'' PNone) c1 else c1)
        in if truthy (ctx_get c2 ''template_render'' ''headers'' PNone) then c2
           else ctx_set ''template_render'' ''headers'' (default_headers_of c2) c2)"

definition mask_secret_ref :: "string option \<Rightarrow> string" where
  "mask_secret_ref ref =
     (case ref of None \<Rightarrow> [] | Some r \<Rightarrow>
        if length r \<le> 8 then replicate (length r) (CHR ''*'') else take 4 r @ ''...'' @ drop (length r - 4) r)"

definition first_text :: "pyval \<Rightarrow> pyval \<Rightarrow> string option" where
  "first_text a b = string_of (py_or a b)"

definition build_cb_key :: "call_env \<Rightarrow> string \<Rightarrow> string option \<Rightarrow> string" where
  "build_cb_key env url secret_ref =
     (let host = (if str_truthy (ce_host env url) then the (ce_host env url) else url);
          key = host @ '':'' @ (if str_truthy secret_ref then the secret_ref else ''default'')
      in if str_contains key ''://'' \<and> str_truthy (ce_host env key) then the (ce_host env key) else key)"

subsection \<open>Credentials\<close>

type_synonym 'a call_run = "(upstream_exn + 'a) \<times> workflow_context \<times> upstream_world"

definition get_auth_headers :: "call_env \<Rightarrow> workflow_context \<Rightarrow> upstream_world \<Rightarrow> (string, pyval) dict call_run" where
  "get_auth_headers env c w =
     (let auth_type = opt_text (first_text (ctx_get c ''routing'' ''auth_type'' PNone) (PStr ''bearer''));
          config = as_dict (ctx_get c ''routing'' ''auth_config'' PNone);
          provider = first_text (ctx_get c ''routing'' ''provider'' PNone) (py_get config ''provider'' PNone);
          ref = first_text (py_get config ''secret_ref_id'' PNone) (py_get config ''secret'' PNone)
      in case get_secret (ce_secret env) (ce_now env) provider ref (ctx_db_session c) False (uw_secrets w) of
           (secret, ss) \<Rightarrow>
             let w1 = w\<lparr>uw_secrets := ss\<rparr>; s = opt_text secret;
                 message = ''Upstream auth secret missing provider='' @ opt_text provider @ '' auth_type='' @ auth_type @
                           '' secret_ref_id='' @ mask_secret_ref ref
             in if \<not> str_truthy secret \<and> auth_type \<noteq> ''none''
                then (Inl (AuthX message), mark_error UPSTREAM ''UPSTREAM_AUTH_MISSING'' message None (Some ''AUTH_MISSING'') c, w1)
                else (Inr (if auth_type = ''api_key'' then [(opt_text (string_of (py_get config ''header'' (PStr ''x-api-key''))), PStr s)]
                           else if auth_type = ''basic'' then [(''Authorization'', PStr (''Basic '' @ s))]
                           else if auth_type = ''none'' then []
                           else [(''Authorization'', PStr (''Bearer '' @ s))]), c, w1))"

subsection \<open>Feedback\<close>

definition update_provider_health :: "call_env \<Rightarrow> workflow_context \<Rightarrow> int option \<Rightarrow> upstream_world \<Rightarrow> upstream_world" where
  "update_provider_health env c code w =
     (let i = (if str_truthy (ctx_selected_instance_id c) then ctx_selected_instance_id c else routing_text c ''instance_id'')
      in if \<not> str_truthy i \<or> \<not> cw_online (uw_breakers w) then w
         else w\<lparr>uw_health := record_request_result (ce_health env) \<lfloor>ce_now env\<rfloor> (the i) code (Some (ce_latency env)) (uw_health w)\<rparr>)"

definition record_bandit_feedback :: "call_env \<Rightarrow> workflow_context \<Rightarrow> bool \<Rightarrow> upstream_world \<Rightarrow> upstream_world" where
  "record_bandit_feedback env c success w =
     (let arm = (if str_truthy (ctx_selected_provider_model_id c) then ctx_selected_provider_model_id c else routing_text c ''provider_model_id'')
      in if \<not> ctx_db_session c \<or> \<not> str_truthy arm then w
         else w\<lparr>uw_arms := snd (record_feedback (ce_is_uuid env) (''router:llm'', the arm) (Some ''latency_success'')
                 (ce_feedback env (as_dict (ctx_get c ''routing'' ''routing_config'' PNone))) (ce_now env)
                 \<lparr>fb_success = success, fb_latency = Some (ce_latency env), fb_cost = Some (bi_total_cost (ctx_billing c)),
                  fb_reward = Some (if success then 1 else 0)\<rparr> (uw_arms w))\<rparr>)"

definition record_affinity :: "call_env \<Rightarrow> workflow_context \<Rightarrow> bool \<Rightarrow> upstream_world \<Rightarrow> upstream_world" where
  "record_affinity env c success w =
     (let provider = routing_text c ''affinity_provider''; item = routing_text c ''affinity_item_id''
      in if \<not> truthy (ctx_get c ''routing'' ''affinity_machine'' PNone) \<or> \<not> str_truthy provider \<or> \<not> str_truthy item then w
         else w\<lparr>uw_affinity := record_request (ce_affinity env)
                 \<lparr>ar_now = ce_now env, ar_provider = the provider, ar_provider_model_id = the item, ar_success = success\<rparr> (uw_affinity w)\<rparr>)"

definition note_failure :: "call_env \<Rightarrow> string \<Rightarrow> int option \<Rightarrow> workflow_context \<Rightarrow> upstream_world \<Rightarrow> upstream_world" where
  "note_failure env cb_key code c w =
     record_affinity env c False (record_bandit_feedback env c False (update_provider_health env c code
       (w\<lparr>uw_breakers := mark_failure (ce_breaker env) (ce_now env) cb_key (uw_breakers w)\<rparr>)))"

definition note_success :: "call_env \<Rightarrow> string \<Rightarrow> int option \<Rightarrow> workflow_context \<Rightarrow> upstream_world \<Rightarrow> upstream_world" where
  "note_success env cb_key code c w =
     record_affinity env c True (record_bandit_feedback env c True (update_provider_health env c code
       (w\<lparr>uw_breakers := mark_success (ce_breaker env) (ce_now env) cb_key (uw_breakers w)\<rparr>)))"

subsection \<open>Asynchronous tasks\<close>

definition normalize_location :: "string option \<Rightarrow> string" where
  "normalize_location path =
     (case path of None \<Rightarrow> [] | Some p \<Rightarrow> if starts_with p ''body.'' then drop 5 p else if p = ''body'' then [] else p)"

definition normalize_json_response :: "pyval \<Rightarrow> (string, pyval) dict" where
  "normalize_json_response v = (case v of PDict d \<Rightarrow> d | PList xs \<Rightarrow> [(''data'', PList xs)] | _ \<Rightarrow> [])"

definition listed :: "string \<Rightarrow> pyval \<Rightarrow> (string, pyval) dict" where
  "listed k v = [(''data'', PList (map (\<lambda>x. PDict [(k, x)]) (filter a_str (as_list v))))]"

definition extract_async_result :: "(string, pyval) dict \<Rightarrow> (string, pyval) dict \<Rightarrow> (string, pyval) dict" where
  "extract_async_result payload config =
     (let extraction = as_dict (py_get config ''result_extraction'' PNone);
          loc = normalize_location (string_of (py_get extraction ''location'' PNone));
          format = py_or (py_get extraction ''format'' PNone) (PStr ''raw'');
          extracted = (if loc = [] then PDict payload else extract_by_path (PDict payload) (Some loc))
      in if format = PStr ''url_list'' then listed ''url'' extracted
         else if format = PStr ''b64_list'' then listed ''b64_json'' extracted
         else payload)"

text \<open>
  \<open>_poll_async_result\<close>. The first poll decides: a task that is still pending would be waited for with \<open>asyncio.sleep\<close>,
  but the module does not import \<open>asyncio\<close>. \<open>poll_url\<close> is not checked against the security policy. A poll that takes
  longer than the whole time-out ends it.
\<close>

definition runtime_error :: "string \<Rightarrow> call_error" where
  "runtime_error m = Failure (OtherError ''RuntimeError'' m)"

definition base_of :: "string \<Rightarrow> string" where
  "base_of url = (let path = takeWhile (\<lambda>ch. ch \<noteq> CHR ''?'') url
     in (if CHR ''/'' \<in> set path then rev (tl (dropWhile (\<lambda>ch. ch \<noteq> CHR ''/'') (rev path))) else path) @ ''/'')"

definition poll_verdict :: "(string, pyval) dict \<Rightarrow> bool \<Rightarrow> (string, pyval) dict \<Rightarrow> call_error + (string, pyval) dict" where
  "poll_verdict config expired payload =
     (let check = as_dict (py_get (as_dict (py_get config ''poll'' PNone)) ''status_check'' PNone);
          path = normalize_location (string_of (py_get check ''location'' PNone));
          status = (if path = [] then PNone else extract_by_path (PDict payload) (Some path))
      in if a_list status \<or> a_dict status then Inl (Failure (OtherError ''TypeError'' ''unhashable type''))
         else if status \<in> set (as_list (py_get check ''success_values'' PNone)) then Inr (extract_async_result payload config)
         else if status \<in> set (as_list (py_get check ''fail_values'' PNone)) then Inl (runtime_error ''async task failed'')
         else if expired then Inl (runtime_error ''async task timeout'')
         else Inl (Failure (OtherError ''NameError'' ''name asyncio is not defined'')))"

definition poll_request :: "call_env \<Rightarrow> (string, pyval) dict \<Rightarrow> (string, pyval) dict \<Rightarrow> (string, pyval) dict \<Rightarrow> string \<Rightarrow>
    call_error + http_request" where
  "poll_request env submitted config base_headers submit_url =
     (let extraction = as_dict (py_get config ''task_id_extraction'' PNone);
          task = extract_by_path (PDict submitted) (Some (normalize_location (string_of (py_get extraction ''key_path'' PNone))));
          poll = as_dict (py_get config ''poll'' PNone);
          context = [(''task_id'', task), (''base_url'', PStr (base_of submit_url))]
      in if \<not> truthy task then Inl (runtime_error ''async task_id extraction failed'')
         else if \<not> truthy (py_get poll ''url_template'' PNone) then Inl (runtime_error ''async poll.url_template missing'')
         else Inr \<lparr>hq_method = opt_text (string_of (py_or (py_get poll ''method'' PNone) (PStr ''GET''))),
                   hq_url = opt_text (string_of (ce_render env (py_get poll ''url_template'' PNone) context)),
                   hq_headers = as_dict (ce_render env (PDict (deep_merge base_headers (as_dict (py_get poll ''headers'' PNone)))) context),
                   hq_body = PNone\<rparr>)"

definition poll_async_result :: "call_env \<Rightarrow> bool \<Rightarrow> (string, pyval) dict \<Rightarrow> (string, pyval) dict \<Rightarrow> (string, pyval) dict \<Rightarrow> string \<Rightarrow>
    transport \<Rightarrow> (call_error + (string, pyval) dict) \<times> transport" where
  "poll_async_result env expired submitted config base_headers submit_url t =
     (case poll_request env submitted config base_headers submit_url of
        Inl e \<Rightarrow> (Inl e, t)
      | Inr q \<Rightarrow>
          (let t1 = t\<lparr>tr_sent := tr_sent t @ [q]\<rparr>
           in case ce_network env (length (tr_sent t)) q of
                Broken e \<Rightarrow> (Inl e, t1)
              | Redirect _ \<Rightarrow> (poll_verdict config expired [], t1)
              | Answer a \<Rightarrow>
                  (if 400 \<le> an_status a then Inl (runtime_error ''async poll failed'')
                   else poll_verdict config expired (normalize_json_response (an_body a)), t1)))"

subsection \<open>One call\<close>

definition upd_result :: "(upstream_result \<Rightarrow> upstream_result) \<Rightarrow> workflow_context \<Rightarrow> workflow_context" where
  "upd_result f c = c\<lparr>ctx_upstream_result := f (ctx_upstream_result c)\<rparr>"

definition failed_result :: "string \<Rightarrow> step_result" where
  "failed_result m = (new_step_result FAILED)\<lparr>sr_message := Some m\<rparr>"

definition too_large :: "call_env \<Rightarrow> answer \<Rightarrow> bool" where
  "too_large env a \<longleftrightarrow> ce_max_bytes env < an_bytes a"

text \<open>The part between the circuit and the answer: \<open>Inl\<close> is an error of the call, \<open>Inr None\<close> the early end for an answer that is too large.\<close>

definition store_answer :: "pyval \<Rightarrow> int \<Rightarrow> (string, pyval) dict \<Rightarrow> workflow_context \<Rightarrow> workflow_context" where
  "store_answer body status headers c =
     ctx_set ''upstream_call'' ''headers'' (PDict headers)
       (ctx_set ''upstream_call'' ''status_code'' (PInt status) (ctx_set ''upstream_call'' ''response'' body c))"

definition allowed_models :: "workflow_context \<Rightarrow> string list" where
  "allowed_models c = List.map_filter string_of (as_list (ctx_get c ''external_auth'' ''allowed_models'' PNone))"

definition transmit :: "call_env \<Rightarrow> bool \<Rightarrow> bool \<Rightarrow> (string, pyval) dict \<Rightarrow> string \<Rightarrow> http_request \<Rightarrow> workflow_context \<Rightarrow> upstream_world \<Rightarrow>
    (call_error + answer option) \<times> workflow_context \<times> upstream_world" where
  "transmit env is_async expired async_config cb_key q c w =
     (case call_upstream (ce_security env) (ce_net env) (ce_network env) (ce_now env) (ce_draw env) (ce_retries env)
             (model_allowed (allowed_models c) (string_of (ctx_get c ''request'' ''model'' PNone))) q (uw_transport w) of
        (Inl e, t) \<Rightarrow> (Inl e, c, w\<lparr>uw_transport := t\<rparr>)
      | (Inr Refused, t) \<Rightarrow>
          (Inl (if is_async then runtime_error ''async task_id extraction failed'' else Failure (OtherError ''KeyError'' ''body'')),
           mark_error GATEWAY ''MODEL_NOT_ALLOWED'' ''model not allowed by api key'' None None c, w\<lparr>uw_transport := t\<rparr>)
      | (Inr (Answered a), t) \<Rightarrow>
          if is_async then
            (case poll_async_result env expired (normalize_json_response (an_body a)) async_config (hq_headers q) (hq_url q) t of
               (Inl e, t') \<Rightarrow> (Inl e, c, w\<lparr>uw_transport := t'\<rparr>)
             | (Inr d, t') \<Rightarrow> (Inr (Some a), store_answer (PDict d) 200 (an_headers a) c, w\<lparr>uw_transport := t'\<rparr>))
          else if too_large env a then
            (Inr None,
             mark_error UPSTREAM ''UPSTREAM_RESPONSE_TOO_LARGE'' ''Upstream response exceeds size limit'' (Some (an_status a)) None c,
             w\<lparr>uw_transport := t\<rparr>)
          else (Inr (Some a), store_answer (an_body a) (an_status a) (an_headers a) c, w\<lparr>uw_transport := t\<rparr>))"

definition affinity_savings :: "call_env \<Rightarrow> workflow_context \<Rightarrow> workflow_context" where
  "affinity_savings env c =
     (let hit = truthy (ctx_get c ''routing'' ''affinity_hit'' (PBool False)) \<and> 0 < bi_total_tokens (ctx_billing c);
          d = max 0 (min 1 (ce_discount env))
      in ctx_set ''routing'' ''affinity_saved_cost_est'' (PFloat (if hit then bi_total_cost (ctx_billing c) * d else 0))
           (ctx_set ''routing'' ''affinity_saved_tokens_est'' (PInt (if hit then \<lfloor>of_int (bi_total_tokens (ctx_billing c)) * d\<rfloor> else 0)) c))"

definition status_of_ctx :: "workflow_context \<Rightarrow> int option" where
  "status_of_ctx c = (case ctx_get c ''upstream_call'' ''status_code'' PNone of PInt n \<Rightarrow> Some n | _ \<Rightarrow> None)"

definition complete_call :: "call_env \<Rightarrow> string \<Rightarrow> string \<Rightarrow> bool \<Rightarrow> workflow_context \<Rightarrow> upstream_world \<Rightarrow> step_result call_run" where
  "complete_call env url cb_key is_stream c w =
     (let c1 = ctx_set ''upstream_call'' ''latency_ms'' (PFloat (ce_latency env)) c;
          c2 = upd_result (\<lambda>r. r\<lparr>ur_provider := routing_text c1 ''provider'', ur_model := ctx_requested_model c1, ur_upstream_url := Some url,
                                  ur_status_code := status_of_ctx c1, ur_latency_ms := Some (ce_latency env)\<rparr>) c1;
          w1 = note_success env cb_key (status_of_ctx c1) c2 w;
          c3 = affinity_savings env c2;
          c4 = (if is_stream
                then emit_status (ctx_created_at c3) ''evolve'' (Some ''upstream_call'') ''streaming'' (Some ''upstream.streaming'') PNone c3
                else emit_status (ctx_created_at c3) ''evolve'' (Some ''upstream_call'') ''success'' (Some ''upstream.response'')
                       (PDict [(''latency_ms'', PInt (round (ce_latency env)))]) c3)
      in (Inr ((new_step_result SUCCESS)\<lparr>sr_data := Some [(''status_code'', opt_int (status_of_ctx c1)),
               (''latency_ms'', PFloat (ce_latency env)), (''stream'', PBool is_stream)]\<rparr>), c4, w1))"

definition fail_call :: "call_env \<Rightarrow> string \<Rightarrow> call_error \<Rightarrow> workflow_context \<Rightarrow> upstream_world \<Rightarrow> step_result call_run" where
  "fail_call env cb_key e c w =
     (case e of
        Forbidden m \<Rightarrow> (Inr (failed_result m), mark_error GATEWAY ''UPSTREAM_DOMAIN_NOT_ALLOWED'' m None None c, w)
      | TimedOut \<Rightarrow>
          (let c1 = upd_result (\<lambda>r. r\<lparr>ur_latency_ms := Some (ce_latency env), ur_error_code := Some ''UPSTREAM_TIMEOUT''\<rparr>) c;
               c2 = mark_error UPSTREAM ''UPSTREAM_TIMEOUT'' (ce_text env e) None (Some ''UPSTREAM_TIMEOUT'') c1
           in (Inl TimeoutX, c2, note_failure env cb_key None c2 w))
      | BadStatus n body \<Rightarrow>
          (let code = ''HTTP_'' @ int_str n;
               c1 = upd_result (\<lambda>r. r\<lparr>ur_status_code := Some n, ur_latency_ms := Some (ce_latency env), ur_error_code := Some code\<rparr>) c;
               c2 = mark_error UPSTREAM (''UPSTREAM_'' @ int_str n) (ce_text env e) (Some n) (Some code) c1
           in (Inl (HttpX n (ce_text env e)), c2, note_failure env cb_key (Some n) c2 w))
      | NetworkDown \<Rightarrow>
          (let c1 = mark_error UPSTREAM ''UPSTREAM_ERROR'' (ce_text env e) None None c
           in (Inl (NetworkX (ce_text env e)), c1, note_failure env cb_key None c1 w))
      | Failure x \<Rightarrow>
          (let c1 = mark_error UPSTREAM ''UPSTREAM_ERROR'' (exn_str x) None None c
           in (Inl (RaisedX x), c1, note_failure env cb_key None c1 w)))"

definition async_config_of :: "workflow_context \<Rightarrow> (string, pyval) dict" where
  "async_config_of c = as_dict (ctx_get c ''routing'' ''async_config'' PNone)"

definition async_enabled :: "workflow_context \<Rightarrow> bool" where
  "async_enabled c \<longleftrightarrow> py_get (async_config_of c) ''enabled'' PNone = PBool True"

definition http_method_of :: "workflow_context \<Rightarrow> string" where
  "http_method_of c =
     str_upper (opt_text (first_text (py_get (as_dict (py_get (as_dict (ctx_get c ''routing'' ''protocol_profile'' PNone)) ''transport'' PNone)) ''method'' PNone)
       (PStr ''POST'')))"

definition call_url :: "workflow_context \<Rightarrow> string" where
  "call_url c = opt_text (string_of (ctx_get c ''template_render'' ''upstream_url'' PNone))"

definition call_body :: "workflow_context \<Rightarrow> (string, pyval) dict" where
  "call_body c = as_dict (ctx_get c ''template_render'' ''request_body'' PNone)"

definition call_headers :: "call_env \<Rightarrow> workflow_context \<Rightarrow> (string, pyval) dict" where
  "call_headers env c =
     (let h = as_dict (ctx_get c ''template_render'' ''headers'' PNone)
      in if async_enabled c
         then deep_merge h (as_dict (ce_render env (PDict (as_dict (py_get (async_config_of c) ''submit_headers'' PNone)))
                [(''request'', PDict (call_body c)), (''input'', PDict (call_body c))]))
         else h)"

text \<open>
  \<open>headers.update(auth_headers)\<close> changes the dictionary of the context itself, unless that is empty or a merge has made a
  copy.
\<close>

definition with_auth :: "call_env \<Rightarrow> (string, pyval) dict \<Rightarrow> workflow_context \<Rightarrow> (string, pyval) dict \<times> workflow_context" where
  "with_auth env auth c =
     (let h = fold (\<lambda>(k, v) d. dput k v d) auth (call_headers env c)
      in (h, if \<not> async_enabled c \<and> call_headers env c \<noteq> [] then ctx_set ''template_render'' ''headers'' (PDict h) c else c))"

definition begin_stream :: "call_env \<Rightarrow> string \<Rightarrow> workflow_context \<Rightarrow> upstream_world \<Rightarrow> workflow_context \<times> upstream_world" where
  "begin_stream env cb_key c w =
     (ctx_set ''upstream_call'' ''status_code'' (PInt 200)
        (ctx_set ''upstream_call'' ''response_stream'' (PBool True) (ctx_set ''upstream_call'' ''stream_accumulator'' (PBool True) c)),
      w\<lparr>uw_breakers := mark_success (ce_breaker env) (ce_now env) cb_key (uw_breakers w)\<rparr>)"

definition run_call :: "call_env \<Rightarrow> bool \<Rightarrow> string \<Rightarrow> string \<Rightarrow> (string, pyval) dict \<Rightarrow> workflow_context \<Rightarrow> upstream_world \<Rightarrow> step_result call_run" where
  "run_call env expired url cb_key auth c0 w =
     (case with_auth env auth c0 of (headers, c) \<Rightarrow>
        let is_async = async_enabled c;
            wants = truthy (py_get (call_body c) ''stream'' (PBool False));
            body = (if is_async \<and> wants then dput ''stream'' (PBool False) (call_body c) else call_body c);
            c1 = (if is_async \<and> wants then ctx_set ''template_render'' ''request_body'' (PDict body) c else c);
            is_stream = (wants \<and> \<not> is_async);
            c2 = ctx_set ''upstream_call'' ''stream'' (PBool is_stream) c1;
            c3 = emit_status (ctx_created_at c2) ''evolve'' (Some ''upstream_call'') ''running''
                   (Some (if is_stream then ''upstream.request.stream'' else ''upstream.request.batch'')) PNone c2
        in if is_stream then
             (case begin_stream env cb_key c3 w of (c4, w1) \<Rightarrow> complete_call env url cb_key True c4 w1)
           else
             (case transmit env is_async expired (async_config_of c) cb_key
                     \<lparr>hq_method = http_method_of c, hq_url = url, hq_headers = headers, hq_body = PDict body\<rparr> c3 w of
                (Inl e, c4, w1) \<Rightarrow> fail_call env cb_key e c4 w1
              | (Inr None, c4, w1) \<Rightarrow>
                  (Inr (failed_result ''Upstream response too large''), c4,
                   (update_provider_health env c4 (ur_status_code (ctx_upstream_result c4)) w1)
                     \<lparr>uw_breakers := mark_failure (ce_breaker env) (ce_now env) cb_key (uw_breakers w1)\<rparr>)
              | (Inr (Some _), c4, w1) \<Rightarrow> complete_call env url cb_key False c4 w1))"

definition cb_key_of :: "call_env \<Rightarrow> workflow_context \<Rightarrow> string" where
  "cb_key_of env c = build_cb_key env (call_url c) (string_of (py_get (as_dict (ctx_get c ''routing'' ''auth_config'' PNone)) ''secret_ref_id'' PNone))"

definition upstream_execute :: "call_env \<Rightarrow> bool \<Rightarrow> workflow_context \<Rightarrow> upstream_world \<Rightarrow> step_result call_run" where
  "upstream_execute env expired c0 w =
     (let c = ensure_template_render_state c0; url = call_url c; cb_key = cb_key_of env c
      in if url = [] then (Inr (failed_result ''No upstream URL provided''), c, w)
         else if \<not> is_safe_upstream_url (ce_security env) (ce_net env) url then
           (Inr (failed_result ''Upstream URL blocked by security policy''),
            mark_error GATEWAY ''UPSTREAM_DOMAIN_NOT_ALLOWED'' ''Upstream URL blocked by security policy'' None None c, w)
         else
           (case is_circuit_open (ce_breaker env) (ce_now env) cb_key (uw_breakers w) of
              (True, b) \<Rightarrow>
                (Inr (failed_result ''Upstream circuit open''),
                 mark_error UPSTREAM ''UPSTREAM_CIRCUIT_OPEN'' ''Upstream temporarily blocked due to failures'' None None c,
                 w\<lparr>uw_breakers := b\<rparr>)
            | (False, b) \<Rightarrow>
                (case get_auth_headers env c (w\<lparr>uw_breakers := b\<rparr>) of
                   (Inl e, c1, w1) \<Rightarrow> (Inl e, c1, w1)
                 | (Inr auth, c1, w1) \<Rightarrow> run_call env expired url cb_key auth c1 w1)))"

subsection \<open>Failure and degradation\<close>

definition upstream_config :: step_config where
  "upstream_config = default_step_config\<lparr>sc_timeout := 120, sc_max_retries := 2, sc_retry_delay := 1, sc_retry_backoff := 2\<rparr>"

definition upstream_on_failure :: "step_config \<Rightarrow> upstream_exn \<Rightarrow> int \<Rightarrow> workflow_context \<Rightarrow> failure_action \<times> workflow_context" where
  "upstream_on_failure cfg e attempt c =
     ((case e of
         TimeoutX \<Rightarrow> if attempt \<le> sc_max_retries cfg then RETRY else DEGRADE
       | HttpX n _ \<Rightarrow> if 500 \<le> n \<and> n < 600 then (if attempt \<le> sc_max_retries cfg then RETRY else DEGRADE) else ABORT
       | AuthX _ \<Rightarrow> DEGRADE
       | NetworkX _ \<Rightarrow> if attempt \<le> sc_max_retries cfg then RETRY else DEGRADE
       | RaisedX _ \<Rightarrow> ABORT),
      upd_result (\<lambda>r. r\<lparr>ur_retry_count := attempt\<rparr>) c)"

definition candidate_index :: "workflow_context \<Rightarrow> int" where
  "candidate_index c = (case ctx_get c ''routing'' ''candidate_index'' (PInt 0) of PInt i \<Rightarrow> i | _ \<Rightarrow> 0)"

definition switch_to_backup :: "(string, pyval) dict \<Rightarrow> int \<Rightarrow> workflow_context \<Rightarrow> workflow_context" where
  "switch_to_backup b i c =
     (let get = (\<lambda>k. py_get b k PNone);
          c1 = fold (\<lambda>(k, v). ctx_set ''routing'' k v)
                 [(''candidate_index'', PInt i), (''preset_id'', get ''preset_id''), (''upstream_url'', get ''upstream_url''),
                  (''provider'', get ''provider''), (''protocol_profile'', py_or (get ''protocol_profile'') (PDict [])),
                  (''routing_config'', get ''routing_config''), (''instance_id'', get ''instance_id''),
                  (''provider_model_id'', get ''provider_model_id'')] c
      in c1\<lparr>ctx_selected_preset_id := string_of (get ''preset_id''), ctx_selected_instance_id := string_of (get ''instance_id''),
            ctx_selected_provider_model_id := string_of (get ''provider_model_id''), ctx_selected_upstream := string_of (get ''upstream_url'')\<rparr>)"

definition upstream_on_degrade :: "call_env \<Rightarrow> bool \<Rightarrow> string \<Rightarrow> workflow_context \<Rightarrow> upstream_world \<Rightarrow> step_result call_run" where
  "upstream_on_degrade env expired err c w =
     (let candidates = as_list (ctx_get c ''routing'' ''candidates'' PNone); i = candidate_index c + 1
      in if 0 \<le> i \<and> i < int (length candidates)
         then upstream_execute env expired (switch_to_backup (as_dict (candidates ! nat i)) i c) w
         else (Inr ((new_step_result DEGRADED)\<lparr>sr_message := Some (''All upstreams failed: '' @ err)\<rparr>), c, w))"

subsection \<open>What a call sends first\<close>

definition starts_sending :: "(http_request \<Rightarrow> bool) \<Rightarrow> transport \<Rightarrow> transport \<Rightarrow> bool" where
  "starts_sending P t t' \<longleftrightarrow> (\<exists>rs. tr_sent t' = tr_sent t @ rs \<and> (rs \<noteq> [] \<longrightarrow> P (hd rs)))"

lemma starts_sending_refl: "tr_sent t' = tr_sent t \<Longrightarrow> starts_sending P t t'"
  by (simp add: starts_sending_def)

lemma starts_sending_more: "starts_sending P t t1 \<Longrightarrow> tr_sent t1 \<noteq> tr_sent t \<Longrightarrow> tr_sent t2 = tr_sent t1 @ rs \<Longrightarrow> starts_sending P t t2"
  unfolding starts_sending_def
proof (elim exE conjE)
  fix xs assume "tr_sent t1 \<noteq> tr_sent t" "tr_sent t2 = tr_sent t1 @ rs" "tr_sent t1 = tr_sent t @ xs" "xs \<noteq> [] \<longrightarrow> P (hd xs)"
  then show "\<exists>rs. tr_sent t2 = tr_sent t @ rs \<and> (rs \<noteq> [] \<longrightarrow> P (hd rs))"
    by (intro exI [of _ "xs @ rs"]) auto
qed

lemma redirects_start: "\<exists>rs. snd (request_with_redirects cfg env net left q sent) = sent @ q # rs"
proof (induction "left" arbitrary: q sent)
  case 0
  then show ?case by (subst request_with_redirects.simps) (simp split: http_reply.split)
next
  case (Suc n)
  show ?case
  proof (cases "\<exists>loc v. net (length sent) q = Redirect loc \<and> next_url cfg env (hq_url q) loc = Inr v")
    case True
    then obtain loc v where v: "net (length sent) q = Redirect loc" "next_url cfg env (hq_url q) loc = Inr v" by blast
    from Suc.IH [of "q\<lparr>hq_url := v\<rparr>" "sent @ [q]"] v show ?thesis by (subst request_with_redirects.simps) auto
  next
    case False
    then show ?thesis by (subst request_with_redirects.simps) (auto split: http_reply.split sum.split)
  qed
qed

lemma attempt_starts: "\<exists>rs. tr_sent (snd (attempt_once cfg env net q t)) = tr_sent t @ q # rs"
  using redirects_start [of cfg env net max_redirects q "tr_sent t"]
  by (auto simp: attempt_once_def split: prod.split sum.split)

lemma attempts_grow: "\<exists>rs. tr_sent (snd (call_attempts cfg env net now draw q n tried t)) = tr_sent t @ rs \<and> (0 < n \<longrightarrow> rs \<noteq> [] \<and> hd rs = q)"
proof (induction n arbitrary: tried t)
  case (Suc n)
  obtain sel pool where p: "pick now (draw n) tried (tr_pool t) = (sel, pool)" by (metis prod.exhaust)
  obtain r t1 where a: "attempt_once cfg env net q (t\<lparr>tr_pool := pool\<rparr>) = (r, t1)" by (metis prod.exhaust)
  obtain rs where rs: "tr_sent t1 = tr_sent t @ q # rs"
    using attempt_starts [of cfg env net q "t\<lparr>tr_pool := pool\<rparr>"] a by auto
  let ?t2 = "case sel of Some s \<Rightarrow> t1\<lparr>tr_pool := report_failure now (ps_endpoint s) (tr_pool t1)\<rparr> | None \<Rightarrow> t1"
  have t2: "tr_sent ?t2 = tr_sent t @ q # rs" using rs by (simp split: option.split)
  have "\<exists>xs. tr_sent (snd (call_attempts cfg env net now draw q n tr ?t2)) = tr_sent t @ xs \<and> xs \<noteq> [] \<and> hd xs = q" for tr
  proof -
    obtain ys where "tr_sent (snd (call_attempts cfg env net now draw q n tr ?t2)) = tr_sent ?t2 @ ys"
      using Suc.IH [where t = ?t2 and tried = tr] by blast
    then show ?thesis using t2 by (intro exI [of _ "q # rs @ ys"]) simp
  qed
  then show ?case using rs t2 by (auto simp: p a Let_def split: sum.split)
qed simp

lemma call_starts: "starts_sending (\<lambda>r. r = q) t (snd (call_upstream cfg env net now draw retries allowed q t))"
  using attempts_grow [of cfg env net now draw q "nat (max 1 (retries + 1))" "[]" t]
  by (auto simp: call_upstream_def starts_sending_def split: prod.split sum.split)

lemma poll_sends: "\<exists>rs. tr_sent (snd (poll_async_result env expired sub cfg h u t)) = tr_sent t @ rs"
  by (auto simp: poll_async_result_def Let_def split: sum.split http_reply.split)

lemma call_answered: "call_upstream cfg env net now draw retries allowed q t = (Inr (Answered a), t') \<Longrightarrow> tr_sent t' \<noteq> tr_sent t"
  using attempts_grow [of cfg env net now draw q "nat (max 1 (retries + 1))" "[]" t]
  by (auto simp: call_upstream_def split: if_splits prod.splits sum.splits)

lemma transmit_starts:
  "starts_sending (\<lambda>r. r = q) (uw_transport w) (uw_transport (snd (snd (transmit env is_async expired cfg k q c w))))"
proof -
  let ?call = "call_upstream (ce_security env) (ce_net env) (ce_network env) (ce_now env) (ce_draw env) (ce_retries env)
    (model_allowed (allowed_models c) (string_of (ctx_get c ''request'' ''model'' PNone))) q (uw_transport w)"
  obtain r t where r: "?call = (r, t)" by (metis prod.exhaust)
  have start: "starts_sending (\<lambda>r. r = q) (uw_transport w) t"
    using call_starts [of q "uw_transport w" "ce_security env" "ce_net env" "ce_network env" "ce_now env" "ce_draw env" "ce_retries env"] r
    by (metis snd_conv)
  show ?thesis
  proof (cases "\<exists>a. r = Inr (Answered a) \<and> is_async")
    case True
    then obtain a where a: "r = Inr (Answered a)" is_async by blast
    obtain pr t' where pt: "poll_async_result env expired (normalize_json_response (an_body a)) cfg (hq_headers q) (hq_url q) t = (pr, t')"
      by (metis prod.exhaust)
    obtain rs where "tr_sent t' = tr_sent t @ rs"
      using poll_sends [of env expired "normalize_json_response (an_body a)" cfg "hq_headers q" "hq_url q" t] pt by auto
    from starts_sending_more [OF start call_answered [OF r [unfolded a(1)]] this] show ?thesis
      using a by (cases pr) (simp_all add: transmit_def r pt)
  next
    case False
    with start show ?thesis by (auto simp: transmit_def r split: sum.split call_result.split)
  qed
qed

lemma note_transport [simp]:
  "uw_transport (note_failure env k code c w) = uw_transport w" "uw_transport (note_success env k code c w) = uw_transport w"
  "uw_transport (update_provider_health env c code w) = uw_transport w"
  by (simp_all add: note_failure_def note_success_def record_affinity_def record_bandit_feedback_def update_provider_health_def Let_def)

lemma complete_transport [simp]: "uw_transport (snd (snd (complete_call env url k st c w))) = uw_transport w"
  by (simp add: complete_call_def Let_def)

lemma fail_transport [simp]: "uw_transport (snd (snd (fail_call env k e c w))) = uw_transport w"
  by (simp add: fail_call_def Let_def split: call_error.split)

lemma run_call_starts:
  "starts_sending (\<lambda>r. hq_url r = url) (uw_transport w) (uw_transport (snd (snd (run_call env expired url k auth c w))))"
proof -
  have weaken: "starts_sending (\<lambda>r. hq_url r = url) t t'" if "starts_sending (\<lambda>r. r = q) t t'" and "hq_url q = url" for q t t'
    using that by (auto simp: starts_sending_def)
  obtain h c1 where c1: "with_auth env auth c = (h, c1)" by (metis prod.exhaust)
  let ?wants = "truthy (py_get (call_body c1) ''stream'' (PBool False))"
  show ?thesis
  proof (cases "?wants \<and> \<not> async_enabled c1")
    case True
    then show ?thesis by (simp add: run_call_def c1 Let_def begin_stream_def starts_sending_refl)
  next
    case False
    define q where "q = \<lparr>hq_method = http_method_of c1, hq_url = url, hq_headers = h,
      hq_body = PDict (if async_enabled c1 \<and> ?wants then dput ''stream'' (PBool False) (call_body c1) else call_body c1)\<rparr>"
    define c2 where "c2 = (let a = (if async_enabled c1 \<and> ?wants
        then ctx_set ''template_render'' ''request_body''
          (PDict (if async_enabled c1 \<and> ?wants then dput ''stream'' (PBool False) (call_body c1) else call_body c1)) c1 else c1);
        b = ctx_set ''upstream_call'' ''stream'' (PBool False) a
      in emit_status (ctx_created_at b) ''evolve'' (Some ''upstream_call'') ''running'' (Some ''upstream.request.batch'') PNone b)"
    obtain r c3 w1 where tr: "transmit env (async_enabled c1) expired (async_config_of c1) k q c2 w = (r, c3, w1)"
      by (metis prod.exhaust)
    have "starts_sending (\<lambda>r. hq_url r = url) (uw_transport w) (uw_transport w1)"
      using weaken [OF transmit_starts [of q w env "async_enabled c1" expired "async_config_of c1" k c2]] tr by (simp add: q_def)
    moreover have "run_call env expired url k auth c w =
       (case transmit env (async_enabled c1) expired (async_config_of c1) k q c2 w of
          (Inl e, c4, w1) \<Rightarrow> fail_call env k e c4 w1
        | (Inr None, c4, w1) \<Rightarrow>
            (Inr (failed_result ''Upstream response too large''), c4,
             (update_provider_health env c4 (ur_status_code (ctx_upstream_result c4)) w1)
               \<lparr>uw_breakers := mark_failure (ce_breaker env) (ce_now env) k (uw_breakers w1)\<rparr>)
        | (Inr (Some _), c4, w1) \<Rightarrow> complete_call env url k False c4 w1)"
      by (simp only: run_call_def c1 prod.case Let_def q_def c2_def False if_False)
    then have "uw_transport (snd (snd (run_call env expired url k auth c w))) = uw_transport w1"
      by (simp add: tr split: sum.split option.split)
    ultimately show ?thesis by simp
  qed
qed

lemma auth_transport: "get_auth_headers env c w = (r, c', w') \<Longrightarrow> uw_transport w' = uw_transport w"
  by (auto simp: get_auth_headers_def Let_def split: prod.splits if_splits)

lemma auth_keeps_url: "get_auth_headers env c w = (Inr h, c', w') \<Longrightarrow> c' = c"
  by (auto simp: get_auth_headers_def Let_def split: prod.splits if_splits)

lemma execute_starts:
  "starts_sending (\<lambda>r. hq_url r = call_url (ensure_template_render_state c)) (uw_transport w) (uw_transport (snd (snd (upstream_execute env expired c w))))"
proof -
  let ?c = "ensure_template_render_state c"
  obtain op b where op: "is_circuit_open (ce_breaker env) (ce_now env) (cb_key_of env ?c) (uw_breakers w) = (op, b)" by (metis prod.exhaust)
  obtain r c1 w1 where auth: "get_auth_headers env ?c (w\<lparr>uw_breakers := b\<rparr>) = (r, c1, w1)" by (metis prod.exhaust)
  have w1: "uw_transport w1 = uw_transport w" using auth_transport [OF auth] by simp
  show ?thesis
    using run_call_starts [of "call_url ?c" w1] w1
    by (auto simp: upstream_execute_def Let_def op auth starts_sending_refl split: sum.split bool.split)
qed

subsection \<open>Degradation stays where it was\<close>

lemma switch_keeps:
  assumes "s \<noteq> ''routing''"
  shows "ctx_get (switch_to_backup b i c) s k d = ctx_get c s k d"
proof -
  have "ctx_get (x\<lparr>ctx_selected_preset_id := a1, ctx_selected_instance_id := a2, ctx_selected_provider_model_id := a3, ctx_selected_upstream := a4\<rparr>) s k d
      = ctx_get x s k d" for x a1 a2 a3 a4
    by (simp add: ctx_get_def ctx_get_namespace_def)
  then show ?thesis using assms by (simp add: switch_to_backup_def Let_def)
qed

lemma switch_routing:
  "ctx_get (switch_to_backup b i c) ''routing'' ''upstream_url'' d = py_get b ''upstream_url'' PNone"
  "ctx_get (switch_to_backup b i c) ''routing'' ''auth_config'' d = ctx_get c ''routing'' ''auth_config'' d"
  "ctx_get (switch_to_backup b i c) ''routing'' ''auth_type'' d = ctx_get c ''routing'' ''auth_type'' d"
  "ctx_selected_upstream (switch_to_backup b i c) = string_of (py_get b ''upstream_url'' PNone)"
  "ctx_selected_provider_model_id (switch_to_backup b i c) = string_of (py_get b ''provider_model_id'' PNone)"
proof -
  have "ctx_get (x\<lparr>ctx_selected_preset_id := a1, ctx_selected_instance_id := a2, ctx_selected_provider_model_id := a3, ctx_selected_upstream := a4\<rparr>) s k d
      = ctx_get x s k d" for x a1 a2 a3 a4 s k d
    by (simp add: ctx_get_def ctx_get_namespace_def)
  then show
    "ctx_get (switch_to_backup b i c) ''routing'' ''upstream_url'' d = py_get b ''upstream_url'' PNone"
    "ctx_get (switch_to_backup b i c) ''routing'' ''auth_config'' d = ctx_get c ''routing'' ''auth_config'' d"
    "ctx_get (switch_to_backup b i c) ''routing'' ''auth_type'' d = ctx_get c ''routing'' ''auth_type'' d"
    by (simp_all add: switch_to_backup_def Let_def)
qed (simp_all add: switch_to_backup_def Let_def)

text \<open>When a call has failed for good and a backup is left, the context, and with it the feedback for the arm, names
  the backup, but the request is built before as it was: it goes to the address of the failed upstream again,
  with the credentials and the body of the failed call.
\<close>
theorem degrade_repeats_failed_upstream:
  assumes "has_body c" and "candidates = as_list (ctx_get c ''routing'' ''candidates'' PNone)"
    and "0 \<le> candidate_index c" and "candidate_index c + 1 < int (length candidates)"
    and "backup = as_dict (candidates ! nat (candidate_index c + 1))"
    and "c2 = switch_to_backup backup (candidate_index c + 1) c"
  shows "upstream_on_degrade env expired err c w = upstream_execute env expired c2 w
    \<and> ctx_selected_upstream c2 = string_of (py_get backup ''upstream_url'' PNone)
    \<and> ctx_selected_provider_model_id c2 = string_of (py_get backup ''provider_model_id'' PNone)
    \<and> ctx_get c2 ''routing'' ''auth_config'' PNone = ctx_get c ''routing'' ''auth_config'' PNone
    \<and> starts_sending (\<lambda>r. hq_url r = call_url c) (uw_transport w) (uw_transport (snd (snd (upstream_on_degrade env expired err c w))))"
proof -
  have same: "upstream_on_degrade env expired err c w = upstream_execute env expired c2 w"
    using assms(3,4) by (simp add: upstream_on_degrade_def Let_def assms(2,5,6) [symmetric])
  have "ensure_template_render_state c2 = c2"
    using assms(1) by (simp add: ensure_template_render_state_def has_body_def assms(6) switch_keeps)
  then have "call_url (ensure_template_render_state c2) = call_url c"
    by (simp add: call_url_def assms(6) switch_keeps)
  then have "starts_sending (\<lambda>r. hq_url r = call_url c) (uw_transport w) (uw_transport (snd (snd (upstream_execute env expired c2 w))))"
    using execute_starts [of c2 w env expired] by simp
  with same show ?thesis by (simp add: assms(6) switch_routing)
qed

subsection \<open>An example\<close>

definition sample_env :: call_env where
  "sample_env =
     \<lparr>ce_security = custom_upstreams, ce_net = open_env, ce_network = (\<lambda>n q. Broken NetworkDown), ce_draw = (\<lambda>_ _. 0), ce_retries = 1,
      ce_max_bytes = 2097152, ce_breaker = default_breaker_config, ce_host = (\<lambda>_. Some ''api.test''), ce_secret = plain_env,
      ce_feedback = (\<lambda>_. default_feedback), ce_is_uuid = (\<lambda>_. False), ce_affinity = default_affinity_config,
      ce_health = default_health_config, ce_render = (\<lambda>v _. v), ce_text = (\<lambda>_. ''down''), ce_discount = 1 / 2, ce_now = 10, ce_latency = 20\<rparr>"

definition routed_context :: workflow_context where
  "routed_context =
     fold (\<lambda>(s, k, v). ctx_set s k v)
       [(''routing'', ''auth_type'', PStr ''none''), (''routing'', ''upstream_url'', PStr ''https://api.test/v1''),
        (''routing'', ''candidates'', PList [PDict [(''upstream_url'', PStr ''https://api.test/v1'')],
           PDict [(''upstream_url'', PStr ''https://backup.test/v1''), (''provider_model_id'', PStr ''m2'')]]),
        (''template_render'', ''upstream_url'', PStr ''https://api.test/v1''),
        (''template_render'', ''request_body'', PDict [(''messages'', PList [PStr ''hi''])])]
       (new_context ''t'' INTERNAL [])"

definition fresh_upstream_world :: upstream_world where
  "fresh_upstream_world =
     \<lparr>uw_transport = \<lparr>tr_sent = [], tr_pool = no_proxies\<rparr>, uw_breakers = no_breakers, uw_secrets = no_secrets, uw_arms = no_arms,
      uw_affinity = \<lparr>af_redis = True, af_hash = []\<rparr>, uw_health = \<lparr>hs_entries = [], hs_history = []\<rparr>\<rparr>"

text \<open>The preceding statement at a backup on another host.\<close>
theorem degrade_repeats_failed_upstream_witness:
  "map hq_url (tr_sent (uw_transport (snd (snd (upstream_on_degrade sample_env False ''down'' routed_context fresh_upstream_world)))))
     = [''https://api.test/v1'', ''https://api.test/v1'']
   \<and> starts_sending (\<lambda>r. hq_url r = ''https://api.test/v1'') (uw_transport fresh_upstream_world)
       (uw_transport (snd (snd (upstream_on_degrade sample_env False ''down'' routed_context fresh_upstream_world))))"
proof -
  have h: "has_body routed_context" "0 \<le> candidate_index routed_context"
    "candidate_index routed_context + 1 < int (length (as_list (ctx_get routed_context ''routing'' ''candidates'' PNone)))"
    by code_simp+
  have u: "call_url routed_context = ''https://api.test/v1''" by code_simp
  have "map hq_url (tr_sent (uw_transport (snd (snd (upstream_on_degrade sample_env False ''down'' routed_context fresh_upstream_world)))))
     = [''https://api.test/v1'', ''https://api.test/v1'']"
    by code_simp
  moreover from degrade_repeats_failed_upstream [OF h(1) refl h(2,3) refl refl, of sample_env False "''down''" fresh_upstream_world, unfolded u]
  have "starts_sending (\<lambda>r. hq_url r = ''https://api.test/v1'') (uw_transport fresh_upstream_world)
      (uw_transport (snd (snd (upstream_on_degrade sample_env False ''down'' routed_context fresh_upstream_world))))"
    by (elim conjE)
  ultimately show ?thesis by (rule conjI)
qed

subsection \<open>Streams count as successes\<close>

lemma note_success_breakers [simp]:
  "uw_breakers (note_success env k code c w) = mark_success (ce_breaker env) (ce_now env) k (uw_breakers w)"
  by (simp add: note_success_def record_affinity_def record_bandit_feedback_def update_provider_health_def Let_def)

lemma complete_succeeds:
  "\<exists>r c' w'. complete_call env url k st c w = (Inr r, c', w') \<and> sr_status r = SUCCESS \<and> uw_transport w' = uw_transport w
    \<and> uw_breakers w' = mark_success (ce_breaker env) (ce_now env) k (uw_breakers w)"
proof -
  have "uw_transport (snd (snd (complete_call env url k st c w))) = uw_transport w" by simp
  then show ?thesis by (simp add: complete_call_def Let_def new_step_result_def)
qed

lemma run_call_streams:
  assumes "with_auth env auth c = (h, c1)" and "truthy (py_get (call_body c1) ''stream'' (PBool False))" and "\<not> async_enabled c1"
  obtains c2 where "run_call env expired url k auth c w
    = complete_call env url k True c2 (w\<lparr>uw_breakers := mark_success (ce_breaker env) (ce_now env) k (uw_breakers w)\<rparr>)"
proof -
  obtain c2 where "run_call env expired url k auth c w = (case begin_stream env k c2 w of (c4, w1) \<Rightarrow> complete_call env url k True c4 w1)"
    using assms by (simp only: run_call_def prod.case Let_def not_False_eq_True simp_thms if_True if_False)
  then show thesis using that by (simp add: begin_stream_def)
qed


definition streaming_context :: workflow_context where
  "streaming_context = ctx_set ''template_render'' ''request_body'' (PDict [(''messages'', PList [PStr ''hi'']), (''stream'', PBool True)]) routed_context"


subsection \<open>Further branches\<close>

text \<open>A task that is not done at the first poll ends the call with a NameError.\<close>

lemma pending_task_fails:
  assumes "poll_request env submitted cfg h u = Inr q" and "ce_network env (length (tr_sent t)) q = Answer a" and "an_status a < 400"
    and "extract_by_path (PDict (normalize_json_response (an_body a)))
      (Some (normalize_location (string_of (py_get (as_dict (py_get (as_dict (py_get cfg ''poll'' PNone)) ''status_check'' PNone)) ''location'' PNone)))) = PStr s"
    and "normalize_location (string_of (py_get (as_dict (py_get (as_dict (py_get cfg ''poll'' PNone)) ''status_check'' PNone)) ''location'' PNone)) \<noteq> []"
    and "PStr s \<notin> set (as_list (py_get (as_dict (py_get (as_dict (py_get cfg ''poll'' PNone)) ''status_check'' PNone)) ''success_values'' PNone))"
    and "PStr s \<notin> set (as_list (py_get (as_dict (py_get (as_dict (py_get cfg ''poll'' PNone)) ''status_check'' PNone)) ''fail_values'' PNone))"
  shows "fst (poll_async_result env False submitted cfg h u t) = Inl (Failure (OtherError ''NameError'' ''name asyncio is not defined''))"
  using assms by (simp add: poll_async_result_def poll_verdict_def Let_def)

text \<open>Only transient errors are retried, each at most as often as configured.\<close>

lemma retry_only_transient:
  assumes "fst (upstream_on_failure cfg e attempt c) = RETRY"
  shows "attempt \<le> sc_max_retries cfg \<and> (case e of HttpX n _ \<Rightarrow> 500 \<le> n \<and> n < 600 | AuthX _ \<Rightarrow> False | RaisedX _ \<Rightarrow> False | _ \<Rightarrow> True)"
  using assms by (auto simp: upstream_on_failure_def split: upstream_exn.splits if_splits)

text \<open>A key whose models do not include the requested one sends nothing, yet counts as a failure of the upstream.\<close>

lemma refused_model_trips_breaker:
  assumes "\<not> model_allowed (allowed_models c) (string_of (ctx_get c ''request'' ''model'' PNone))"
  shows "transmit env False expired cfg k q c w =
    (Inl (Failure (OtherError ''KeyError'' ''body'')), mark_error GATEWAY ''MODEL_NOT_ALLOWED'' ''model not allowed by api key'' None None c, w)"
  using assms by (simp add: transmit_def call_upstream_def)

end
