(* ===== verification/Protocol_Messages.thy ===== *)
theory Protocol_Messages
  imports Provider_Config
begin

section \<open>Canonical messages\<close>

text \<open>
  The canonical form of src/app/protocols/canonical/models.py, the entry points of src/app/protocols/ingress, the
  decoders of src/app/protocols/runtime/response_decoders.py and the renderers of src/app/protocols/egress. A value a
  model does not admit raises \<open>ValidationError\<close>; fields a model does not declare are ignored, as \<open>BaseSchema\<close> asks for.
  \<open>fmt\<close> is \<open>str(v)\<close> of a value that is not a text. A JSON object has texts as keys.
\<close>

subsection \<open>Values\<close>

definition invalid :: exn where
  "invalid = OtherError ''ValidationError'' []"

definition type_error :: exn where
  "type_error = OtherError ''TypeError'' []"

fun opt_field :: "pyval \<Rightarrow> exn + string option" where
  "opt_field PNone = Inr None"
| "opt_field (PStr s) = Inr (Some s)"
| "opt_field _ = Inl invalid"

fun str_field :: "pyval \<Rightarrow> exn + string" where
  "str_field (PStr s) = Inr s"
| "str_field _ = Inl invalid"

fun dict_field :: "pyval \<Rightarrow> exn + (string, pyval) dict" where
  "dict_field (PDict d) = Inr d"
| "dict_field _ = Inl invalid"

definition py_text :: "(pyval \<Rightarrow> string) \<Rightarrow> pyval \<Rightarrow> string" where
  "py_text fmt v = (case v of PStr s \<Rightarrow> s | _ \<Rightarrow> fmt v)"

text \<open>\<open>int(v)\<close>.\<close>

fun py_int :: "pyval \<Rightarrow> exn + int" where
  "py_int (PInt i) = Inr i"
| "py_int (PBool b) = Inr (if b then 1 else 0)"
| "py_int (PFloat r) = Inr (if 0 \<le> r then \<lfloor>r\<rfloor> else \<lceil>r\<rceil>)"
| "py_int (PStr s) = (case int_of_text (str_strip s) of Some i \<Rightarrow> Inr i | None \<Rightarrow> Inl (ValueError ''invalid literal for int() with base 10''))"
| "py_int _ = Inl type_error"

text \<open>\<open>a + b\<close>.\<close>

fun number_of :: "pyval \<Rightarrow> rat option" where
  "number_of (PInt i) = Some (of_int i)"
| "number_of (PBool b) = Some (if b then 1 else 0)"
| "number_of (PFloat r) = Some r"
| "number_of _ = None"

fun py_add :: "pyval \<Rightarrow> pyval \<Rightarrow> exn + pyval" where
  "py_add (PInt i) (PInt j) = Inr (PInt (i + j))"
| "py_add (PStr s) (PStr t) = Inr (PStr (s @ t))"
| "py_add (PList xs) (PList ys) = Inr (PList (xs @ ys))"
| "py_add a b = (case (number_of a, number_of b) of (Some x, Some y) \<Rightarrow> Inr (PFloat (x + y)) | _ \<Rightarrow> Inl type_error)"

text \<open>The dictionaries among the elements of an iterable; the elements of a text and the keys of an object are texts.\<close>

fun dict_items :: "pyval \<Rightarrow> exn + (string, pyval) dict list" where
  "dict_items (PList xs) = Inr (map as_dict (filter a_dict xs))"
| "dict_items (PStr s) = Inr []"
| "dict_items (PDict d) = Inr []"
| "dict_items _ = Inl type_error"

definition dicts_or_none :: "pyval \<Rightarrow> exn + (string, pyval) dict list" where
  "dicts_or_none v = (if truthy v then dict_items v else Inr [])"

text \<open>\<open>(v or [{}])[0]\<close>.\<close>

definition first_or_empty :: "pyval \<Rightarrow> exn + pyval" where
  "first_or_empty v =
     (if \<not> truthy v then Inr (PDict [])
      else case v of PList (x # xs) \<Rightarrow> Inr x | PStr (ch # s) \<Rightarrow> Inr (PStr [ch]) | PDict d \<Rightarrow> Inl (OtherError ''KeyError'' ''0'')
           | _ \<Rightarrow> Inl type_error)"

text \<open>Membership in a set of texts: a list or a dictionary cannot be hashed.\<close>

definition one_of :: "pyval \<Rightarrow> string list \<Rightarrow> exn + bool" where
  "one_of v names = (if a_list v \<or> a_dict v then Inl type_error else Inr (v \<in> PStr ` set names))"

fun mapR :: "('a \<Rightarrow> 'e + 'b) \<Rightarrow> 'a list \<Rightarrow> 'e + 'b list" where
  "mapR f [] = Inr []"
| "mapR f (x # xs) = bindR (f x) (\<lambda>y. bindR (mapR f xs) (\<lambda>ys. Inr (y # ys)))"

fun foldR :: "('a \<Rightarrow> 's \<Rightarrow> 'e + 's) \<Rightarrow> 'a list \<Rightarrow> 's \<Rightarrow> 'e + 's" where
  "foldR f [] s = Inr s"
| "foldR f (x # xs) s = bindR (f x s) (foldR f xs)"

lemma mapR_Inr: "(\<And>x. x \<in> set xs \<Longrightarrow> f x = Inr (g x)) \<Longrightarrow> mapR f xs = Inr (map g xs)"
  by (induction xs) auto

lemma mapR_all: "mapR f xs = Inr ys \<Longrightarrow> (\<And>x y. f x = Inr y \<Longrightarrow> P y) \<Longrightarrow> \<forall>y \<in> set ys. P y"
  by (induction xs arbitrary: ys) (auto simp: bindR_Inr)

lemma foldR_invariant: "foldR f xs s = Inr s' \<Longrightarrow> I s \<Longrightarrow> (\<And>x s s'. I s \<Longrightarrow> f x s = Inr s' \<Longrightarrow> I s') \<Longrightarrow> I s'"
  by (induction xs arbitrary: s) (auto simp: bindR_Inr)

subsection \<open>The models\<close>

record tool_call =
  tl_id :: "string option"
  tl_type :: string
  tl_name :: "string option"
  tl_arguments :: pyval
  tl_status :: "string option"

record token_usage =
  cu_input :: int
  cu_output :: int
  cu_total :: int
  cu_cached :: int

record content_block =
  kb_type :: string
  kb_text :: "string option"
  kb_mime :: "string option"
  kb_url :: "string option"
  kb_data :: "(string, pyval) dict"

datatype content = NoContent | TextContent string | BlockContent "content_block list"

record canonical_message =
  ms_role :: string
  ms_content :: content
  ms_reasoning :: "string option"
  ms_tool_calls :: "tool_call list"
  ms_tool_call_id :: "string option"

record input_item =
  it_type :: string
  it_role :: "string option"
  it_text :: "string option"
  it_mime :: "string option"
  it_url :: "string option"
  it_data :: "(string, pyval) dict"

record canonical_request =
  cq_model :: string
  cq_provider_model :: "string option"
  cq_instructions :: "string option"
  cq_messages :: "canonical_message list"
  cq_input_items :: "input_item list"
  cq_tools :: "pyval list"
  cq_tool_choice :: pyval
  cq_temperature :: "rat option"
  cq_max_output :: "int option"
  cq_stream :: bool
  cq_output_format :: pyval
  cq_metadata :: "(string, pyval) dict"
  cq_client :: "(string, pyval) dict"

record canonical_response =
  cp_model :: string
  cp_text :: "string option"
  cp_blocks :: "content_block list"
  cp_tools :: "tool_call list"
  cp_reasoning :: "string option"
  cp_finish :: "string option"
  cp_usage :: token_usage
  cp_raw :: "(string, pyval) dict"

fun arguments_ok :: "pyval \<Rightarrow> bool" where
  "arguments_ok PNone = True"
| "arguments_ok (PStr s) = True"
| "arguments_ok (PDict d) = True"
| "arguments_ok _ = False"

definition make_tool_call :: "pyval \<Rightarrow> pyval \<Rightarrow> pyval \<Rightarrow> pyval \<Rightarrow> pyval \<Rightarrow> exn + tool_call" where
  "make_tool_call i t n args st =
     bindR (opt_field i) (\<lambda>i'. bindR (str_field t) (\<lambda>t'. bindR (opt_field n) (\<lambda>n'. bindR (opt_field st) (\<lambda>st'.
       if arguments_ok args then Inr \<lparr>tl_id = i', tl_type = t', tl_name = n', tl_arguments = args, tl_status = st'\<rparr> else Inl invalid))))"

definition text_block :: "string \<Rightarrow> content_block" where
  "text_block s = \<lparr>kb_type = ''text'', kb_text = Some s, kb_mime = None, kb_url = None, kb_data = []\<rparr>"

subsection \<open>Requests\<close>

text \<open>The parsed bodies of the three entry points.\<close>

record chat_message =
  gm_role :: string
  gm_content :: pyval
  gm_reasoning :: "string option"
  gm_tool_calls :: "pyval list option"
  gm_tool_call_id :: "string option"

record chat_request =
  gr_model :: string
  gr_messages :: "chat_message list"
  gr_stream :: bool
  gr_temperature :: "rat option"
  gr_max_tokens :: "int option"
  gr_request_id :: "string option"
  gr_provider_model :: "string option"
  gr_assistant :: "string option"
  gr_session :: "string option"
  gr_regenerate :: bool
  gr_tools :: "pyval list"
  gr_tool_choice :: pyval
  gr_output_format :: pyval
  gr_metadata :: "(string, pyval) dict"

definition validated_tool_call :: "pyval \<Rightarrow> exn + tool_call" where
  "validated_tool_call v =
     bindR (dict_field v) (\<lambda>d. make_tool_call (py_get d ''id'' PNone) (py_get d ''type'' (PStr ''function'')) (py_get d ''name'' PNone)
       (py_get d ''arguments'' PNone) (py_get d ''status'' PNone))"

definition validated_block :: "pyval \<Rightarrow> exn + content_block" where
  "validated_block v =
     bindR (dict_field v) (\<lambda>d. bindR (str_field (py_get d ''type'' (PStr ''text''))) (\<lambda>t. bindR (opt_field (py_get d ''text'' PNone)) (\<lambda>x.
       bindR (opt_field (py_get d ''mime_type'' PNone)) (\<lambda>m. bindR (opt_field (py_get d ''url'' PNone)) (\<lambda>u.
       bindR (dict_field (py_get d ''data'' (PDict []))) (\<lambda>dt.
         Inr \<lparr>kb_type = t, kb_text = x, kb_mime = m, kb_url = u, kb_data = dt\<rparr>))))))"

fun validated_content :: "pyval \<Rightarrow> exn + content" where
  "validated_content PNone = Inr NoContent"
| "validated_content (PStr s) = Inr (TextContent s)"
| "validated_content (PList xs) = map_sum id BlockContent (mapR validated_block xs)"
| "validated_content _ = Inl invalid"

definition canonical_chat_message :: "chat_message \<Rightarrow> exn + canonical_message" where
  "canonical_chat_message m =
     bindR (validated_content (gm_content m)) (\<lambda>content.
     bindR (mapR validated_tool_call (case gm_tool_calls m of None \<Rightarrow> [] | Some xs \<Rightarrow> xs)) (\<lambda>calls.
       Inr \<lparr>ms_role = gm_role m, ms_content = content, ms_reasoning = gm_reasoning m, ms_tool_calls = calls,
            ms_tool_call_id = gm_tool_call_id m\<rparr>))"

definition chat_instructions :: "(pyval \<Rightarrow> string) \<Rightarrow> chat_message list \<Rightarrow> string option" where
  "chat_instructions fmt ms =
     (let s = str_join [CHR 0x0A, CHR 0x0A] (map (\<lambda>m. py_text fmt (gm_content m)) (filter (\<lambda>m. gm_role m = ''system'' \<and> gm_content m \<noteq> PNone) ms))
      in if s = [] then None else Some s)"

definition plain_request :: "string \<Rightarrow> canonical_request" where
  "plain_request model =
     \<lparr>cq_model = model, cq_provider_model = None, cq_instructions = None, cq_messages = [], cq_input_items = [], cq_tools = [],
      cq_tool_choice = PNone, cq_temperature = None, cq_max_output = None, cq_stream = False, cq_output_format = PNone,
      cq_metadata = [], cq_client = [(''channel'', PStr ''internal''), (''request_id'', PNone), (''session_id'', PNone), (''trace_id'', PNone),
        (''assistant_id'', PNone), (''tenant_id'', PNone), (''user_id'', PNone), (''metadata'', PDict [])]\<rparr>"

definition client_with :: "(string, pyval) dict \<Rightarrow> (string, pyval) dict" where
  "client_with d = fold (\<lambda>(k, v). dput k v) d (cq_client (plain_request []))"

definition to_canonical_chat_request :: "(pyval \<Rightarrow> string) \<Rightarrow> chat_request \<Rightarrow> exn + canonical_request" where
  "to_canonical_chat_request fmt r =
     bindR (mapR canonical_chat_message (gr_messages r)) (\<lambda>ms.
       Inr ((plain_request (gr_model r))
         \<lparr>cq_provider_model := gr_provider_model r, cq_instructions := chat_instructions fmt (gr_messages r), cq_messages := ms,
          cq_temperature := gr_temperature r, cq_max_output := gr_max_tokens r, cq_stream := gr_stream r,
          cq_client := client_with [(''request_id'', opt_str (gr_request_id r)), (''session_id'', opt_str (gr_session r)),
            (''assistant_id'', opt_str (gr_assistant r)), (''metadata'', PDict [(''regenerate'', PBool (gr_regenerate r))])]\<rparr>))"

record simple_request =
  sq_model :: string
  sq_system :: "string option"
  sq_max_tokens :: "int option"
  sq_temperature :: "rat option"
  sq_stream :: bool
  sq_status_stream :: bool

text \<open>A message of the Anthropic entry point: its content is a text or a list of texts and blocks, a block as its dump.\<close>

record anthropic_message =
  am_role :: string
  am_content :: pyval

definition anthropic_block :: "(pyval \<Rightarrow> string) \<Rightarrow> pyval \<Rightarrow> content_block" where
  "anthropic_block fmt v =
     (case v of
        PStr s \<Rightarrow> text_block s
      | PDict d \<Rightarrow>
          (let t = py_get d ''type'' PNone; x = py_get d ''text'' PNone
           in \<lparr>kb_type = (if truthy t then py_text fmt t else ''text''), kb_text = (case x of PStr s \<Rightarrow> Some s | _ \<Rightarrow> None), kb_mime = None,
               kb_url = None, kb_data = d\<rparr>)
      | _ \<Rightarrow> text_block (fmt v))"

definition anthropic_content :: "(pyval \<Rightarrow> string) \<Rightarrow> pyval \<Rightarrow> content" where
  "anthropic_content fmt v = (case v of PStr s \<Rightarrow> TextContent s | _ \<Rightarrow> BlockContent (map (anthropic_block fmt) (as_list v)))"

definition entry_client :: "string \<Rightarrow> bool \<Rightarrow> (string, pyval) dict" where
  "entry_client entry status = client_with [(''metadata'', PDict [(''status_stream'', PBool status), (''entrypoint'', PStr entry)])]"

definition to_canonical_anthropic_request :: "(pyval \<Rightarrow> string) \<Rightarrow> simple_request \<Rightarrow> anthropic_message list \<Rightarrow> canonical_request" where
  "to_canonical_anthropic_request fmt r ms =
     (plain_request (sq_model r))
       \<lparr>cq_instructions := sq_system r,
        cq_messages := map (\<lambda>m. \<lparr>ms_role = am_role m, ms_content = anthropic_content fmt (am_content m), ms_reasoning = None, ms_tool_calls = [],
          ms_tool_call_id = None\<rparr>) ms,
        cq_temperature := sq_temperature r, cq_max_output := sq_max_tokens r, cq_stream := sq_stream r,
        cq_client := entry_client ''anthropic_messages'' (sq_status_stream r)\<rparr>"

definition text_item :: "string \<Rightarrow> input_item" where
  "text_item s = \<lparr>it_type = ''input_text'', it_role = Some ''user'', it_text = Some s, it_mime = None, it_url = None, it_data = []\<rparr>"

definition dict_item :: "(pyval \<Rightarrow> string) \<Rightarrow> (string, pyval) dict \<Rightarrow> input_item" where
  "dict_item fmt d =
     (let opt = (\<lambda>k. case py_get d k PNone of PStr s \<Rightarrow> Some s | _ \<Rightarrow> None); t = py_get d ''type'' PNone
      in \<lparr>it_type = (if truthy t then py_text fmt t else ''input_json''), it_role = (case opt ''role'' of Some r \<Rightarrow> Some r | None \<Rightarrow> Some ''user''),
          it_text = opt ''text'', it_mime = opt ''mime_type'', it_url = opt ''url'', it_data = d\<rparr>)"

definition to_input_items :: "(pyval \<Rightarrow> string) \<Rightarrow> pyval \<Rightarrow> input_item list" where
  "to_input_items fmt payload =
     (case payload of
        PStr s \<Rightarrow> [text_item s]
      | PDict d \<Rightarrow> [\<lparr>it_type = ''input_json'', it_role = Some ''user'', it_text = None, it_mime = None, it_url = None, it_data = d\<rparr>]
      | _ \<Rightarrow> map (\<lambda>v. case v of PStr s \<Rightarrow> text_item s | PDict d \<Rightarrow> dict_item fmt d | _ \<Rightarrow> text_item (fmt v)) (as_list payload))"

definition to_canonical_responses_request :: "(pyval \<Rightarrow> string) \<Rightarrow> simple_request \<Rightarrow> pyval \<Rightarrow> canonical_request" where
  "to_canonical_responses_request fmt r payload =
     (plain_request (sq_model r))
       \<lparr>cq_instructions := sq_system r, cq_input_items := to_input_items fmt payload, cq_temperature := sq_temperature r,
        cq_max_output := sq_max_tokens r, cq_stream := sq_stream r, cq_client := entry_client ''responses'' (sq_status_stream r)\<rparr>"

end
