(* ===== verification/Protocol_Responses.thy ===== *)
theory Protocol_Responses
  imports Protocol_Messages
begin

section \<open>Responses of the protocols\<close>

text \<open>
  The decoders of src/app/protocols/runtime/response_decoders.py for the three families of providers, the renderers of
  src/app/protocols/egress, and what a response keeps on its way from one to the other.
\<close>

subsection \<open>Decoders\<close>

definition usage_int :: "pyval \<Rightarrow> string list \<Rightarrow> exn + int" where
  "usage_int usage ks = bindR (mapR (\<lambda>k. get_of usage k PNone) ks) (\<lambda>vs. py_int (fold (\<lambda>v acc. py_or acc v) (vs @ [PInt 0]) PNone))"

definition usage_from_openai :: "(string, pyval) dict \<Rightarrow> exn + token_usage" where
  "usage_from_openai payload =
     (let usage = py_or (py_get payload ''usage'' PNone) (PDict [])
      in bindR (usage_int usage [''prompt_tokens'', ''input_tokens'']) (\<lambda>i.
         bindR (usage_int usage [''completion_tokens'', ''output_tokens'']) (\<lambda>out.
         bindR (usage_int usage [''total_tokens'']) (\<lambda>t.
           Inr \<lparr>cu_input = i, cu_output = out, cu_total = t, cu_cached = 0\<rparr>))))"

definition openai_tool_call :: "(string, pyval) dict \<Rightarrow> exn + tool_call" where
  "openai_tool_call item =
     (let f = py_or (py_get item ''function'' PNone) (PDict [])
      in bindR (get_of f ''name'' PNone) (\<lambda>n. bindR (get_of f ''arguments'' PNone) (\<lambda>a.
           make_tool_call (py_get item ''id'' PNone) (py_or (py_get item ''type'' PNone) (PStr ''function'')) n a PNone)))"

definition response_model :: "(pyval \<Rightarrow> string) \<Rightarrow> (string, pyval) dict \<Rightarrow> string" where
  "response_model fmt payload = py_text fmt (py_or (py_get payload ''model'' PNone) (PStr []))"

definition decode_openai_chat :: "(pyval \<Rightarrow> string) \<Rightarrow> (string, pyval) dict \<Rightarrow> exn + canonical_response" where
  "decode_openai_chat fmt payload =
     bindR (first_or_empty (py_get payload ''choices'' PNone)) (\<lambda>choice.
     bindR (get_of choice ''message'' PNone) (\<lambda>m.
     let message = py_or m (PDict []) in
     bindR (get_of message ''content'' PNone) (\<lambda>c.
     let text = (case c of PStr s \<Rightarrow> Some s | _ \<Rightarrow> None) in
     bindR (dicts_or_none (py_get (as_dict message) ''tool_calls'' PNone)) (\<lambda>items.
     bindR (mapR openai_tool_call items) (\<lambda>calls.
     bindR (opt_field (py_get (as_dict message) ''reasoning_content'' PNone)) (\<lambda>reasoning.
     bindR (opt_field (py_get (as_dict choice) ''finish_reason'' PNone)) (\<lambda>finish.
     bindR (usage_from_openai payload) (\<lambda>usage.
       Inr \<lparr>cp_model = response_model fmt payload, cp_text = text, cp_blocks = (if str_truthy text then [text_block (the text)] else []),
            cp_tools = calls, cp_reasoning = reasoning, cp_finish = finish, cp_usage = usage, cp_raw = payload\<rparr>))))))))"

type_synonym read_parts = "string option \<times> content_block list \<times> tool_call list"

definition read_output_text :: "(string, pyval) dict \<Rightarrow> read_parts \<Rightarrow> exn + read_parts" where
  "read_output_text content s =
     (case s of (text, blocks, calls) \<Rightarrow>
        bindR (one_of (py_get content ''type'' PNone) [''output_text'', ''text'']) (\<lambda>wanted.
          Inr (case py_get content ''text'' PNone of
                 PStr t \<Rightarrow> if wanted then (Some ((case text of None \<Rightarrow> [] | Some x \<Rightarrow> x) @ t), blocks @ [text_block t], calls) else s
               | _ \<Rightarrow> s)))"

definition read_output :: "(string, pyval) dict \<Rightarrow> read_parts \<Rightarrow> exn + read_parts" where
  "read_output item s =
     (if py_get item ''type'' PNone = PStr ''message'' then
        bindR (dicts_or_none (py_get item ''content'' PNone)) (\<lambda>contents. foldR read_output_text contents s)
      else
        bindR (one_of (py_get item ''type'' PNone) [''function_call'', ''tool_call'']) (\<lambda>tool.
          if \<not> tool then Inr s
          else bindR (make_tool_call (py_get item ''id'' PNone) (PStr ''function'') (py_get item ''name'' PNone) (py_get item ''arguments'' PNone)
                 (py_get item ''status'' PNone)) (\<lambda>c. case s of (text, blocks, calls) \<Rightarrow> Inr (text, blocks, calls @ [c]))))"

definition decode_openai_responses :: "(pyval \<Rightarrow> string) \<Rightarrow> (string, pyval) dict \<Rightarrow> exn + canonical_response" where
  "decode_openai_responses fmt payload =
     bindR (dicts_or_none (py_get payload ''output'' PNone)) (\<lambda>items.
     bindR (foldR read_output items (case py_get payload ''output_text'' PNone of PStr s \<Rightarrow> Some s | _ \<Rightarrow> None, [], [])) (\<lambda>(text, blocks, calls).
     bindR (opt_field (py_or (py_get payload ''status'' PNone) (py_get payload ''finish_reason'' PNone))) (\<lambda>finish.
     let usage = py_or (py_get payload ''usage'' PNone) (PDict []) in
     bindR (usage_int usage [''input_tokens'']) (\<lambda>i. bindR (usage_int usage [''output_tokens'']) (\<lambda>out. bindR (usage_int usage [''total_tokens'']) (\<lambda>t.
       Inr \<lparr>cp_model = response_model fmt payload, cp_text = text, cp_blocks = blocks, cp_tools = calls, cp_reasoning = None, cp_finish = finish,
            cp_usage = \<lparr>cu_input = i, cu_output = out, cu_total = t, cu_cached = 0\<rparr>, cp_raw = payload\<rparr>))))))"

type_synonym anthropic_parts = "string \<times> content_block list \<times> tool_call list \<times> string"

definition read_anthropic :: "(string, pyval) dict \<Rightarrow> anthropic_parts \<Rightarrow> exn + anthropic_parts" where
  "read_anthropic block s =
     (case s of (text, blocks, calls, thought) \<Rightarrow>
        let t = py_get block ''type'' PNone in
        if t = PStr ''text'' then Inr (case py_get block ''text'' PNone of PStr x \<Rightarrow> (text @ x, blocks @ [text_block x], calls, thought) | _ \<Rightarrow> s)
        else if t = PStr ''thinking'' then Inr (case py_get block ''thinking'' PNone of PStr x \<Rightarrow> (text, blocks, calls, thought @ x) | _ \<Rightarrow> s)
        else if t = PStr ''tool_use'' then
          bindR (make_tool_call (py_get block ''id'' PNone) (PStr ''function'') (py_get block ''name'' PNone) (py_get block ''input'' PNone) PNone)
            (\<lambda>c. Inr (text, blocks, calls @ [c], thought))
        else Inr s)"

definition some_text :: "string \<Rightarrow> string option" where
  "some_text s = (if s = [] then None else Some s)"

definition anthropic_usage :: "(string, pyval) dict \<Rightarrow> exn + token_usage" where
  "anthropic_usage payload =
     (let usage = py_or (py_get payload ''usage'' PNone) (PDict [])
      in bindR (usage_int usage [''input_tokens'']) (\<lambda>i. bindR (usage_int usage [''output_tokens'']) (\<lambda>out.
         bindR (py_add (py_or (py_get (as_dict usage) ''input_tokens'' PNone) (PInt 0)) (py_or (py_get (as_dict usage) ''output_tokens'' PNone) (PInt 0))) (\<lambda>sum.
         bindR (py_int sum) (\<lambda>t. Inr \<lparr>cu_input = i, cu_output = out, cu_total = t, cu_cached = 0\<rparr>)))))"

definition decode_anthropic_messages :: "(pyval \<Rightarrow> string) \<Rightarrow> (string, pyval) dict \<Rightarrow> exn + canonical_response" where
  "decode_anthropic_messages fmt payload =
     bindR (dicts_or_none (py_get payload ''content'' PNone)) (\<lambda>items.
     bindR (foldR read_anthropic items ([], [], [], [])) (\<lambda>(text, blocks, calls, thought).
     bindR (opt_field (py_get payload ''stop_reason'' PNone)) (\<lambda>finish.
     bindR (anthropic_usage payload) (\<lambda>usage.
       Inr \<lparr>cp_model = response_model fmt payload, cp_text = some_text text, cp_blocks = blocks, cp_tools = calls, cp_reasoning = some_text thought,
            cp_finish = finish, cp_usage = usage, cp_raw = payload\<rparr>))))"

definition decode_response :: "(pyval \<Rightarrow> string) \<Rightarrow> string \<Rightarrow> (string, pyval) dict \<Rightarrow> string option \<Rightarrow> exn + canonical_response" where
  "decode_response fmt decoder payload fallback =
     (let name = str_lower (str_strip decoder)
      in bindR (if name = ''openai_responses'' then decode_openai_responses fmt payload
                else if name = ''anthropic_messages'' then decode_anthropic_messages fmt payload
                else decode_openai_chat fmt payload) (\<lambda>r.
         Inr (if str_truthy fallback \<and> cp_model r = [] then r\<lparr>cp_model := the fallback\<rparr> else r)))"

subsection \<open>Renderers\<close>

definition render_tool_call :: "tool_call \<Rightarrow> pyval" where
  "render_tool_call t =
     PDict [(''id'', opt_str (tl_id t)), (''type'', PStr (tl_type t)),
            (''function'', PDict [(''name'', opt_str (tl_name t)), (''arguments'', tl_arguments t)])]"

definition chat_completion_message :: "canonical_response \<Rightarrow> (string, pyval) dict" where
  "chat_completion_message r =
     [(''role'', PStr ''assistant''), (''content'', opt_str (cp_text r))]
     @ (if str_truthy (cp_reasoning r) then [(''reasoning_content'', opt_str (cp_reasoning r))] else [])
     @ (if cp_tools r = [] then [] else [(''tool_calls'', PList (map render_tool_call (cp_tools r)))])"

definition render_chat_completion :: "canonical_response \<Rightarrow> (string, pyval) dict" where
  "render_chat_completion r =
     [(''id'', py_get (cp_raw r) ''id'' PNone), (''object'', PStr ''chat.completion''), (''model'', PStr (cp_model r)),
      (''choices'', PList [PDict [(''index'', PInt 0), (''message'', PDict (chat_completion_message r)), (''finish_reason'', opt_str (cp_finish r))]]),
      (''usage'', PDict [(''prompt_tokens'', PInt (cu_input (cp_usage r))), (''completion_tokens'', PInt (cu_output (cp_usage r))),
        (''total_tokens'', PInt (cu_total (cp_usage r)))])]"

definition render_responses_api :: "canonical_response \<Rightarrow> (string, pyval) dict" where
  "render_responses_api r =
     [(''object'', PStr ''response''), (''model'', PStr (cp_model r)),
      (''status'', PStr (if str_truthy (cp_finish r) then the (cp_finish r) else ''completed'')), (''output_text'', opt_str (cp_text r)),
      (''output'', PList [PDict [(''type'', PStr ''message''),
         (''content'', PList [PDict [(''type'', PStr ''output_text''), (''text'', PStr (case cp_text r of None \<Rightarrow> [] | Some s \<Rightarrow> s))]])]]),
      (''usage'', PDict [(''input_tokens'', PInt (cu_input (cp_usage r))), (''output_tokens'', PInt (cu_output (cp_usage r))),
        (''total_tokens'', PInt (cu_total (cp_usage r)))])]"

subsection \<open>What every decoder promises\<close>

definition call_ok :: "tool_call \<Rightarrow> bool" where
  "call_ok t \<longleftrightarrow> tl_type t \<noteq> [] \<and> arguments_ok (tl_arguments t)"

lemma make_tool_call_fields:
  "make_tool_call i t n a s = Inr c \<Longrightarrow> t = PStr (tl_type c) \<and> arguments_ok (tl_arguments c)"
  by (cases t) (auto simp: make_tool_call_def bindR_Inr split: if_splits)

lemma openai_tool_call_ok: "openai_tool_call item = Inr c \<Longrightarrow> call_ok c"
  by (auto simp: openai_tool_call_def Let_def bindR_Inr call_ok_def py_or_def dest!: make_tool_call_fields split: if_splits)

lemma read_output_ok:
  assumes "read_output item s = Inr s'" and "\<forall>c \<in> set (snd (snd s)). call_ok c"
  shows "\<forall>c \<in> set (snd (snd s')). call_ok c"
proof -
  have kept: "read_output_text d t = Inr t' \<Longrightarrow> snd (snd t') = snd (snd t)" for d t t'
    by (cases "py_get d ''text'' PNone") (auto simp: read_output_text_def bindR_Inr split: prod.splits if_splits)
  have keep: "foldR read_output_text ds t = Inr t' \<Longrightarrow> snd (snd t') = snd (snd t)" for ds t t'
    using kept by (induction ds arbitrary: t) (auto simp: bindR_Inr)
  obtain x y z where s: "s = (x, y, z)" by (metis prod.exhaust)
  show ?thesis
  proof (cases "py_get item ''type'' PNone = PStr ''message''")
    case True
    then obtain ds where "foldR read_output_text ds s = Inr s'" using assms(1) by (auto simp: read_output_def bindR_Inr)
    then show ?thesis using keep assms(2) by metis
  next
    case False
    then show ?thesis
      using assms by (auto simp: read_output_def bindR_Inr call_ok_def s dest!: make_tool_call_fields split: if_splits)
  qed
qed

lemma read_anthropic_ok:
  "read_anthropic block s = Inr s' \<Longrightarrow> \<forall>c \<in> set (fst (snd (snd s))). call_ok c \<Longrightarrow> \<forall>c \<in> set (fst (snd (snd s'))). call_ok c"
  by (auto simp: read_anthropic_def Let_def bindR_Inr call_ok_def dest!: make_tool_call_fields split: if_splits prod.splits pyval.splits)

lemma decoded_calls_ok:
  assumes "decode_response fmt decoder payload fallback = Inr r"
  shows "\<forall>c \<in> set (cp_tools r). call_ok c"
proof -
  have chat: "\<forall>c \<in> set (cp_tools r0). call_ok c" if "decode_openai_chat fmt payload = Inr r0" for r0
    using that by (auto simp: decode_openai_chat_def Let_def bindR_Inr dest!: mapR_all [where P = call_ok, OF _ openai_tool_call_ok])
  have responses: "\<forall>c \<in> set (cp_tools r0). call_ok c" if dec: "decode_openai_responses fmt payload = Inr r0" for r0
  proof -
    obtain items t b c where f: "foldR read_output items (case py_get payload ''output_text'' PNone of PStr s \<Rightarrow> Some s | _ \<Rightarrow> None, [], []) = Inr (t, b, c)"
      and c: "cp_tools r0 = c"
      using dec by (auto simp: decode_openai_responses_def Let_def bindR_Inr)
    have "\<forall>c \<in> set (snd (snd (t, b, c))). call_ok c"
      by (rule foldR_invariant [OF f]) (auto dest: read_output_ok)
    then show ?thesis by (simp add: c)
  qed
  have anthropic: "\<forall>c \<in> set (cp_tools r0). call_ok c" if dec: "decode_anthropic_messages fmt payload = Inr r0" for r0
  proof -
    obtain items t b c k where f: "foldR read_anthropic items ([], [], [], []) = Inr (t, b, c, k)" and c: "cp_tools r0 = c"
      using dec by (auto simp: decode_anthropic_messages_def Let_def bindR_Inr)
    have "\<forall>c \<in> set (fst (snd (snd (t, b, c, k)))). call_ok c"
      by (rule foldR_invariant [OF f]) (auto dest: read_anthropic_ok)
    then show ?thesis by (simp add: c)
  qed
  show ?thesis
    using assms chat responses anthropic by (fastforce simp: decode_response_def Let_def bindR_Inr split: if_splits)
qed

subsection \<open>Rendering and decoding\<close>

lemma py_or_opt_str [simp]: "opt_field (opt_str s) = Inr s"
  by (cases s) (simp_all add: opt_str_def)

lemma rendered_call_decodes:
  "call_ok t \<Longrightarrow> openai_tool_call (as_dict (render_tool_call t)) = Inr (t\<lparr>tl_status := None\<rparr>)"
  by (simp add: openai_tool_call_def render_tool_call_def call_ok_def py_get_def py_or_def make_tool_call_def Let_def)

lemma rendered_calls_decode:
  "\<forall>c \<in> set cs. call_ok c \<Longrightarrow>
   bindR (dict_items (PList (map render_tool_call cs))) (mapR openai_tool_call) = Inr (map (\<lambda>t. t\<lparr>tl_status := None\<rparr>) cs)"
proof -
  assume ok: "\<forall>c \<in> set cs. call_ok c"
  have "filter a_dict (map render_tool_call cs) = map render_tool_call cs"
    by (simp add: render_tool_call_def filter_id_conv)
  moreover have "mapR openai_tool_call (map (as_dict \<circ> render_tool_call) cs) = Inr (map (\<lambda>t. t\<lparr>tl_status := None\<rparr>) cs)"
    using ok by (induction cs) (simp_all add: rendered_call_decodes)
  ultimately show ?thesis by simp
qed

definition reread :: "canonical_response \<Rightarrow> canonical_response" where
  "reread r = r\<lparr>cp_blocks := (if str_truthy (cp_text r) then [text_block (the (cp_text r))] else []),
     cp_tools := map (\<lambda>t. t\<lparr>tl_status := None\<rparr>) (cp_tools r), cp_reasoning := (if str_truthy (cp_reasoning r) then cp_reasoning r else None),
     cp_usage := (cp_usage r)\<lparr>cu_cached := 0\<rparr>, cp_raw := render_chat_completion r\<rparr>"

lemma usage_int_or: "usage_int (PDict d) [k, k'] = py_int (py_or (py_or (py_get d k PNone) (py_get d k' PNone)) (PInt 0))"
  by (simp add: usage_int_def py_or_def)

lemma rendered_usage_decodes:
  "usage_from_openai (render_chat_completion r) = Inr ((cp_usage r)\<lparr>cu_cached := 0\<rparr>)"
  by (simp add: usage_from_openai_def render_chat_completion_def py_get_def usage_int_def py_or_def)

lemma render_decodes:
  assumes "\<forall>c \<in> set (cp_tools r). call_ok c"
  shows "decode_openai_chat fmt (render_chat_completion r) = Inr (reread r)"
proof -
  let ?p = "render_chat_completion r" and ?m = "chat_completion_message r"
  let ?choice = "PDict [(''index'', PInt 0), (''message'', PDict ?m), (''finish_reason'', opt_str (cp_finish r))]"
  have choice: "first_or_empty (py_get ?p ''choices'' PNone) = Inr ?choice"
    by (simp add: render_chat_completion_def py_get_def first_or_empty_def)
  have m: "?m \<noteq> []" by (simp add: chat_completion_message_def)
  have fields: "get_of ?choice ''message'' PNone = Inr (PDict ?m)" "py_or (PDict ?m) (PDict []) = PDict ?m"
    "opt_field (py_get (as_dict ?choice) ''finish_reason'' PNone) = Inr (cp_finish r)"
    using m by (simp_all add: py_get_def py_or_def)
  have content: "get_of (PDict ?m) ''content'' PNone = Inr (opt_str (cp_text r))"
    by (simp add: chat_completion_message_def py_get_def)
  have plain: "(case opt_str (cp_text r) of PStr s \<Rightarrow> Some s | _ \<Rightarrow> None) = cp_text r"
    by (cases "cp_text r") (simp_all add: opt_str_def)
  have calls: "bindR (dicts_or_none (py_get (as_dict (PDict ?m)) ''tool_calls'' PNone)) (mapR openai_tool_call)
      = Inr (map (\<lambda>t. t\<lparr>tl_status := None\<rparr>) (cp_tools r))"
    using rendered_calls_decode [OF assms]
    by (cases "cp_tools r") (simp_all add: chat_completion_message_def py_get_def dicts_or_none_def)
  then obtain items where items: "dicts_or_none (py_get (as_dict (PDict ?m)) ''tool_calls'' PNone) = Inr items"
    "mapR openai_tool_call items = Inr (map (\<lambda>t. t\<lparr>tl_status := None\<rparr>) (cp_tools r))"
    by (auto simp: bindR_Inr)
  have reasoning: "opt_field (py_get (as_dict (PDict ?m)) ''reasoning_content'' PNone) = Inr (if str_truthy (cp_reasoning r) then cp_reasoning r else None)"
    by (simp add: chat_completion_message_def py_get_def)
  have model: "response_model fmt ?p = cp_model r"
    by (cases "cp_model r") (simp_all add: response_model_def render_chat_completion_def py_get_def py_or_def py_text_def)
  show ?thesis
    by (simp only: decode_openai_chat_def choice bindR_simps Let_def fields content plain items reasoning rendered_usage_decodes model)
       (simp add: reread_def)
qed

lemma render_reread: "render_chat_completion (reread r) = render_chat_completion r"
proof -
  have "py_get (render_chat_completion r) ''id'' PNone = py_get (cp_raw r) ''id'' PNone"
    by (simp add: render_chat_completion_def py_get_def)
  moreover have "map render_tool_call (map (\<lambda>t. t\<lparr>tl_status := None\<rparr>) cs) = map render_tool_call cs" for cs
    by (simp add: render_tool_call_def)
  ultimately show ?thesis
    by (simp add: reread_def render_chat_completion_def [of "r\<lparr>cp_blocks := b, cp_tools := t, cp_reasoning := s, cp_usage := u, cp_raw := w\<rparr>" for b t s u w]
        chat_completion_message_def) (simp add: render_chat_completion_def chat_completion_message_def)
qed

text \<open>C13: whichever provider a response comes from, the chat completion rendered from it decodes to the same model, text,
  tool calls with their arguments, reasoning, finish reason and usage, only the status of a call and an empty
  reasoning are gone, and rendering what was decoded gives the same completion again.
\<close>
theorem chat_completion_roundtrip:
  assumes "decode_response fmt decoder payload fallback = Inr r"
  shows "decode_response fmt ''openai_chat'' (render_chat_completion r) None = Inr (reread r)
    \<and> render_chat_completion (reread r) = render_chat_completion r"
proof -
  have "str_lower (str_strip ''openai_chat'') = ''openai_chat''" by code_simp
  then show ?thesis
    using render_decodes [OF decoded_calls_ok [OF assms], of fmt] by (simp add: decode_response_def render_reread)
qed

definition claude_payload :: "(string, pyval) dict" where
  "claude_payload =
     [(''id'', PStr ''msg_1''), (''model'', PStr ''claude''), (''stop_reason'', PStr ''tool_use''),
      (''content'', PList [PDict [(''type'', PStr ''thinking''), (''thinking'', PStr ''hm'')], PDict [(''type'', PStr ''text''), (''text'', PStr ''Let me see.'')],
         PDict [(''type'', PStr ''tool_use''), (''id'', PStr ''t1''), (''name'', PStr ''search''), (''input'', PDict [(''q'', PStr ''x'')])]]),
      (''usage'', PDict [(''input_tokens'', PInt 12), (''output_tokens'', PInt 5)])]"

text \<open>C13 at a reply of an Anthropic model with a thought, a text and a tool call.\<close>
theorem chat_completion_roundtrip_witness:
  "\<exists>r. decode_response (\<lambda>_. []) ''anthropic_messages'' claude_payload None = Inr r \<and> cp_text r = Some ''Let me see.''
     \<and> cu_total (cp_usage r) = 17 \<and> decode_response (\<lambda>_. []) ''openai_chat'' (render_chat_completion r) None = Inr (reread r)"
proof -
  have "case decode_response (\<lambda>_. []) ''anthropic_messages'' claude_payload None of
      Inl _ \<Rightarrow> False | Inr r \<Rightarrow> cp_text r = Some ''Let me see.'' \<and> cu_total (cp_usage r) = 17"
    by code_simp
  then obtain r where r: "decode_response (\<lambda>_. []) ''anthropic_messages'' claude_payload None = Inr r"
    and "cp_text r = Some ''Let me see.''" "cu_total (cp_usage r) = 17"
    by (auto split: sum.splits)
  with chat_completion_roundtrip [OF r] show ?thesis by blast
qed

subsection \<open>Where the forms do not fit\<close>

text \<open>A response of the \<open>/responses\<close> entry point carries its text twice, and the decoder of that form joins both.\<close>

lemma responses_text_doubled:
  assumes "cp_text r = Some t"
  shows "map_sum id cp_text (decode_openai_responses fmt (render_responses_api r)) = Inr (Some (t @ t))"
  using assms
  by (simp add: decode_openai_responses_def render_responses_api_def py_get_def dicts_or_none_def read_output_def read_output_text_def one_of_def
      usage_int_def py_or_def opt_str_def Let_def)

text \<open>A total that is not sent counts as 0 for the OpenAI form, for the Anthropic form it is the sum.\<close>

lemma missing_total_is_zero:
  assumes "py_get payload ''usage'' PNone = PDict u" and "u \<noteq> []" and "py_get u ''total_tokens'' PNone = PNone"
    and "usage_from_openai payload = Inr us"
  shows "cu_total us = 0"
  using assms by (auto simp: usage_from_openai_def py_or_def bindR_Inr usage_int_def)

text \<open>The reasons and arguments of an Anthropic reply reach the client as they are, although the completion claims the OpenAI form.\<close>

lemma anthropic_forms_kept:
  "map_sum id (\<lambda>r. (cp_finish r, map tl_arguments (cp_tools r))) (decode_response fmt ''anthropic_messages'' claude_payload None)
     = Inr (Some ''tool_use'', [PDict [(''q'', PStr ''x'')]])"
proof -
  have "str_lower (str_strip ''anthropic_messages'') = ''anthropic_messages''" by code_simp
  then show ?thesis
    by (simp add: decode_response_def decode_anthropic_messages_def claude_payload_def py_get_def dicts_or_none_def read_anthropic_def make_tool_call_def
        anthropic_usage_def usage_int_def py_or_def)
qed

subsection \<open>What the entry points drop\<close>

text \<open>
  Tools, tool choice, output format and metadata of a chat request have no part in the canonical one, and a tool call of
  the history in the OpenAI form loses its name and arguments, which stand under \<open>function\<close>.
\<close>

lemma chat_tools_dropped:
  "to_canonical_chat_request fmt (r\<lparr>gr_tools := ts, gr_tool_choice := c, gr_output_format := f, gr_metadata := m\<rparr>) = to_canonical_chat_request fmt r"
  by (simp add: to_canonical_chat_request_def)

lemma past_tool_call_emptied:
  "validated_tool_call (PDict [(''id'', PStr i), (''type'', PStr ''function''), (''function'', PDict [(''name'', n), (''arguments'', a)])])
     = Inr \<lparr>tl_id = Some i, tl_type = ''function'', tl_name = None, tl_arguments = PNone, tl_status = None\<rparr>"
  by (simp add: validated_tool_call_def py_get_def make_tool_call_def)

text \<open>An image of a message loses its address, which stands under \<open>image_url\<close>.\<close>

lemma image_address_dropped:
  "map_sum id (\<lambda>b. (kb_text b, kb_url b, kb_data b)) (validated_block (PDict [(''type'', PStr ''image_url''), (''image_url'', v)])) = Inr (None, None, [])"
  by (simp add: validated_block_def py_get_def)

text \<open>A system message is an instruction and stays a message as well.\<close>

lemma system_message_twice:
  assumes "to_canonical_chat_request fmt r = Inr q" and "m \<in> set (gr_messages r)" and "gm_role m = ''system''" and "gm_content m = PStr (c # s)"
  shows "cq_instructions q \<noteq> None \<and> (\<exists>x \<in> set (cq_messages q). ms_role x = ''system'' \<and> ms_content x = TextContent (c # s))"
proof -
  have copied: "mapR canonical_chat_message ms = Inr xs \<Longrightarrow> m \<in> set ms \<Longrightarrow>
      \<exists>x \<in> set xs. ms_role x = ''system'' \<and> ms_content x = TextContent (c # s)" for ms xs
    using assms(3,4) by (induction ms arbitrary: xs) (fastforce simp: bindR_Inr canonical_chat_message_def)+
  have joined: "str_join sep xs \<noteq> []" if "(c # s) \<in> set xs" for sep xs
    using that by (induction sep xs rule: str_join.induct) auto
  have "c # s \<in> set (map (\<lambda>m. py_text fmt (gm_content m)) (filter (\<lambda>m. gm_role m = ''system'' \<and> gm_content m \<noteq> PNone) (gr_messages r)))"
    using assms(2-4) by (force simp: py_text_def image_iff)
  from joined [OF this] have "chat_instructions fmt (gr_messages r) \<noteq> None"
    by (simp add: chat_instructions_def Let_def)
  then show ?thesis using assms(1,2) copied by (auto simp: to_canonical_chat_request_def bindR_Inr)
qed

end
