(* ===== verification/Protocol_Runtime.thy ===== *)
theory Protocol_Runtime
  imports Protocol_Messages
begin

section \<open>Profiles and upstream requests\<close>

text \<open>
  The profiles of src/app/protocols/contracts and src/app/protocols/profiles, their resolution in
  runtime/profile_resolver.py, and how runtime/runtime_service.py renders a canonical request with them. The
  validation of a stored profile is the argument \<open>parse\<close>, a Jinja template the argument \<open>jinja\<close>: the text it renders to.
\<close>

record profile =
  pf_id :: string
  pf_provider :: string
  pf_family :: string
  pf_capability :: string
  pf_method :: string
  pf_path :: string
  pf_query_template :: "(string, pyval) dict"
  pf_header_template :: "(string, pyval) dict"
  pf_engine :: string
  pf_template :: pyval
  pf_builder :: "(string \<times> (string, pyval) dict) option"
  pf_decoder :: string
  pf_response_template :: "(string, pyval) dict"
  pf_output_mapping :: "(string, pyval) dict"
  pf_headers :: "(string, pyval) dict"
  pf_query :: "(string, pyval) dict"
  pf_body :: "(string, pyval) dict"
  pf_metadata :: "(string, pyval) dict"

definition bare_profile :: "string \<Rightarrow> string \<Rightarrow> string \<Rightarrow> string \<Rightarrow> profile" where
  "bare_profile i provider family path =
     \<lparr>pf_id = i, pf_provider = provider, pf_family = family, pf_capability = ''chat'', pf_method = ''POST'', pf_path = path,
      pf_query_template = [], pf_header_template = [], pf_engine = ''openai_compat'', pf_template = PDict [], pf_builder = None,
      pf_decoder = family, pf_response_template = [], pf_output_mapping = [], pf_headers = [], pf_query = [], pf_body = [], pf_metadata = []\<rparr>"

definition openai_chat_profile :: profile where
  "openai_chat_profile =
     (bare_profile ''openai-chat'' ''openai'' ''openai_chat'' ''chat/completions'')
       \<lparr>pf_template := PDict [(''model'', PNone), (''messages'', PNone), (''stream'', PNone)]\<rparr>"

definition responses_input_template :: string where
  "responses_input_template = ''{{ input.input_items[0].text if input.input_items else '' @ [CHR 0x27, CHR 0x27] @ '' }}''"

definition openai_responses_profile :: profile where
  "openai_responses_profile =
     (bare_profile ''openai-responses'' ''openai'' ''openai_responses'' ''responses'')
       \<lparr>pf_engine := ''jinja2'',
        pf_template := PDict [(''model'', PStr ''{{ request.model }}''), (''input'', PStr responses_input_template),
          (''stream'', PStr ''{{ request.stream | default(false) }}'')]\<rparr>"

definition anthropic_messages_profile :: profile where
  "anthropic_messages_profile =
     (bare_profile ''anthropic-messages'' ''anthropic'' ''anthropic_messages'' ''messages'')
       \<lparr>pf_header_template := [(''anthropic-version'', PStr ''2023-06-01'')], pf_engine := ''jinja2'',
        pf_template := PDict [(''model'', PStr ''{{ request.model }}''), (''system'', PStr ''{{ request.instructions }}''),
          (''messages'', PStr ''{{ request.messages }}''), (''max_tokens'', PStr ''{{ request.max_output_tokens }}''),
          (''stream'', PStr ''{{ request.stream | default(false) }}'')]\<rparr>"

definition builtin_profile :: "string \<Rightarrow> profile" where
  "builtin_profile family =
     (if family = ''openai_responses'' then openai_responses_profile
      else if family = ''anthropic_messages'' then anthropic_messages_profile else openai_chat_profile)"

subsection \<open>Resolution\<close>

definition infer_protocol_family :: "string option \<Rightarrow> string \<Rightarrow> string" where
  "infer_protocol_family protocol upstream_path =
     (let proto = str_lower (str_strip (opt_text protocol)); path = str_lower (str_strip upstream_path)
      in if str_contains proto ''anthropic'' \<or> str_contains proto ''claude'' then ''anthropic_messages''
         else if str_contains path ''responses'' then ''openai_responses'' else ''openai_chat'')"

definition template_matches_family :: "pyval \<Rightarrow> string \<Rightarrow> bool" where
  "template_matches_family template family =
     (case template of
        PDict d \<Rightarrow>
          if family = ''openai_responses'' then dget d ''input'' \<noteq> None
          else if family = ''openai_chat'' \<or> family = ''anthropic_messages'' then dget d ''messages'' \<noteq> None
          else True
      | _ \<Rightarrow> True)"

definition dict_update :: "('k, 'v) dict \<Rightarrow> ('k, 'v) dict \<Rightarrow> ('k, 'v) dict" where
  "dict_update base d = fold (\<lambda>(k, v). dput k v) d base"

text \<open>What the builders are given; an absent dictionary is the empty one, both are tested for truth only.\<close>

record profile_args =
  pa_provider :: string
  pa_capability :: string
  pa_protocol :: "string option"
  pa_path :: string
  pa_method :: string
  pa_engine :: string
  pa_template :: pyval
  pa_response :: "(string, pyval) dict"
  pa_mapping :: "(string, pyval) dict"
  pa_builder :: "(string, pyval) dict"
  pa_headers :: "(string, pyval) dict"
  pa_params :: "(string, pyval) dict"
  pa_async :: pyval

definition method_of :: "string \<Rightarrow> string \<Rightarrow> string" where
  "method_of given own = str_upper (if given \<noteq> [] then given else if own \<noteq> [] then own else ''POST'')"

definition protocol_of :: "profile_args \<Rightarrow> pyval" where
  "protocol_of a = PStr (if str_truthy (pa_protocol a) then the (pa_protocol a) else pa_provider a)"

definition build_protocol_profile :: "(pyval \<Rightarrow> string) \<Rightarrow> profile_args \<Rightarrow> exn + profile" where
  "build_protocol_profile fmt a =
     (let family = infer_protocol_family (pa_protocol a) (pa_path a);
          fits = template_matches_family (pa_template a) family;
          base = builtin_profile family;
          p1 = base\<lparr>pf_id := pa_provider a @ '':'' @ pa_capability a @ '':'' @ family, pf_provider := pa_provider a,
                 pf_capability := pa_capability a, pf_path := pa_path a, pf_method := method_of (pa_method a) (pf_method base),
                 pf_engine := (if pa_engine a \<noteq> [] \<and> fits then pa_engine a else pf_engine base),
                 pf_template := (if truthy (pa_template a) \<and> fits then pa_template a else pf_template base),
                 pf_response_template := (if pa_response a \<noteq> [] then pa_response a else pf_response_template base),
                 pf_output_mapping := (if pa_mapping a \<noteq> [] then pa_mapping a else pf_output_mapping base),
                 pf_headers := dict_update (pf_headers base) (pa_headers a), pf_body := dict_update (pf_body base) (pa_params a),
                 pf_metadata := dict_update (pf_metadata base)
                   [(''protocol'', protocol_of a), (''protocol_family'', PStr family), (''async_config'', py_or (pa_async a) (PDict []))]\<rparr>;
          name = py_get (pa_builder a) ''name'' PNone
      in if pa_builder a = [] \<or> \<not> truthy name then Inr p1
         else bindR (dict_field (py_or (py_get (pa_builder a) ''config'' PNone) (PDict []))) (\<lambda>config.
                Inr (p1\<lparr>pf_builder := Some (py_text fmt name, config)\<rparr>)))"

text \<open>A preset is its \<open>protocol_profiles\<close>; None is no preset.\<close>

definition load_profile :: "((string, pyval) dict \<Rightarrow> exn + profile) \<Rightarrow> pyval option \<Rightarrow> string \<Rightarrow> exn + profile option" where
  "load_profile parse preset capability =
     (case preset of
        Some (PDict profiles) \<Rightarrow>
          (case py_get profiles capability PNone of PDict raw \<Rightarrow> map_sum id Some (parse raw) | _ \<Rightarrow> Inr None)
      | _ \<Rightarrow> Inr None)"

definition effective_config :: "profile \<Rightarrow> (string, pyval) dict" where
  "effective_config p =
     [(''template_engine'', PStr (pf_engine p)), (''request_template'', pf_template p), (''response_transform'', PDict (pf_response_template p)),
      (''output_mapping'', PDict (pf_output_mapping p)), (''http_method'', PStr (pf_method p)), (''default_headers'', PDict (pf_headers p)),
      (''default_params'', PDict (pf_body p))]
     @ (case pf_builder p of None \<Rightarrow> [] | Some (n, c) \<Rightarrow> [(''request_builder'', PDict [(''name'', PStr n), (''config'', PDict c)])])
     @ (case py_get (pf_metadata p) ''async_config'' PNone of PDict d \<Rightarrow> [(''async_config'', PDict d)] | _ \<Rightarrow> [])"

definition resolve_effective_config ::
  "((string, pyval) dict \<Rightarrow> exn + profile) \<Rightarrow> pyval option \<Rightarrow> string \<Rightarrow> exn + (string, pyval) dict option" where
  "resolve_effective_config parse preset capability = map_sum id (map_option effective_config) (load_profile parse preset capability)"

definition resolve_profile_defaults ::
  "((string, pyval) dict \<Rightarrow> exn + profile) \<Rightarrow> pyval option \<Rightarrow> string \<Rightarrow> exn + (string, pyval) dict \<times> (string, pyval) dict" where
  "resolve_profile_defaults parse preset capability =
     map_sum id (\<lambda>p. case p of None \<Rightarrow> ([], []) | Some q \<Rightarrow> (pf_headers q, pf_body q)) (load_profile parse preset capability)"

definition async_or :: "profile_args \<Rightarrow> (string, pyval) dict \<Rightarrow> pyval" where
  "async_or a metadata = py_or (pa_async a) (py_or (py_get metadata ''async_config'' PNone) (PDict []))"

definition source_entry :: "string \<times> pyval" where
  "source_entry = (''protocol_profile_source'', PStr ''preset.protocol_profiles'')"

definition rebase_profile_family :: "profile_args \<Rightarrow> string \<Rightarrow> profile \<Rightarrow> profile" where
  "rebase_profile_family a family p =
     (let base = builtin_profile family; fits = template_matches_family (pf_template p) family
      in base\<lparr>pf_provider := pa_provider a, pf_capability := pa_capability a, pf_path := pa_path a,
           pf_method := method_of (pa_method a) (pf_method base),
           pf_template := (if fits then pf_template p else pf_template base),
           pf_engine := (if fits then pf_engine p else pf_engine base),
           pf_builder := (if fits \<and> pf_builder p \<noteq> None then pf_builder p else pf_builder base),
           pf_response_template := (if pf_response_template p \<noteq> [] then pf_response_template p else pf_response_template base),
           pf_output_mapping := (if pf_output_mapping p \<noteq> [] then pf_output_mapping p else pf_output_mapping base),
           pf_headers := dict_update (dict_update (pf_headers base) (pf_headers p)) (pa_headers a),
           pf_body := dict_update (dict_update (pf_body base) (pf_body p)) (pa_params a),
           pf_metadata := dict_update (dict_update (pf_metadata base) (pf_metadata p))
             [(''protocol'', protocol_of a), source_entry, (''async_config'', async_or a (pf_metadata p)),
              (''rebased_from_family'', PStr (pf_family p))]\<rparr>)"

definition build_profile_from_preset ::
  "((string, pyval) dict \<Rightarrow> exn + profile) \<Rightarrow> pyval option \<Rightarrow> profile_args \<Rightarrow> exn + profile" where
  "build_profile_from_preset parse preset a =
     bindR (load_profile parse preset (pa_capability a)) (\<lambda>stored.
       case stored of
         None \<Rightarrow> Inl (ValueError (''preset_protocol_profile_missing capability='' @ pa_capability a @ '' provider='' @ pa_provider a))
       | Some q \<Rightarrow>
           (let family = infer_protocol_family (pa_protocol a) (pa_path a);
                p = (if pf_family q \<noteq> family then rebase_profile_family a family q else q)
            in Inr (p\<lparr>pf_id := (if pf_id p \<noteq> [] then pf_id p else pa_provider a @ '':'' @ pa_capability a @ '':'' @ pf_family p),
                    pf_provider := pa_provider a, pf_capability := pa_capability a, pf_path := pa_path a,
                    pf_method := method_of (pa_method a) (pf_method p),
                    pf_headers := dict_update (pf_headers p) (pa_headers a), pf_body := dict_update (pf_body p) (pa_params a),
                    pf_metadata := dict_update (pf_metadata p)
                      [(''protocol'', protocol_of a), source_entry, (''async_config'', async_or a (pf_metadata p))]\<rparr>)))"

subsection \<open>Rendering\<close>

text \<open>What a rendered text stands for: a truth value, a number, nothing, or itself.\<close>

definition literal_of :: "string \<Rightarrow> pyval" where
  "literal_of s =
     (let n = str_strip s
      in if n = ''true'' \<or> n = ''false'' then PBool (n = ''true'')
         else if n = ''null'' \<or> n = ''none'' then PNone
         else if n \<noteq> [] \<and> list_all is_digit n then (case int_of_text n of Some i \<Rightarrow> PInt i | None \<Rightarrow> PStr s)
         else PStr s)"

fun render_jinja :: "(string \<Rightarrow> string) \<Rightarrow> pyval \<Rightarrow> pyval" where
  "render_jinja jinja (PStr t) = (if \<not> str_contains t ''{{'' \<and> \<not> str_contains t ''{%'' then PStr t else literal_of (jinja t))"
| "render_jinja jinja (PDict d) = PDict (filter (\<lambda>(_, v). v \<noteq> PNone) (map (\<lambda>(k, v). (k, render_jinja jinja v)) d))"
| "render_jinja jinja (PList xs) = PList (filter (\<lambda>v. v \<noteq> PNone) (map (render_jinja jinja) xs))"
| "render_jinja jinja v = v"

definition candidate_keys :: "string \<Rightarrow> string list" where
  "candidate_keys key =
     (let n = map (\<lambda>c. if c = CHR ''-'' then CHR ''_'' else c) (str_lower (str_strip key));
          ks = (if n = key then [key] else [key, n]); stripped = drop 2 n
      in if starts_with n ''x_'' \<and> stripped \<noteq> [] \<and> stripped \<notin> set ks then ks @ [stripped] else ks)"

fun first_present :: "(string, pyval) dict \<Rightarrow> string list \<Rightarrow> pyval option" where
  "first_present d [] = None"
| "first_present d (k # ks) = (case dget d k of Some v \<Rightarrow> Some v | None \<Rightarrow> first_present d ks)"

definition lookup_value :: "(string, pyval) dict \<Rightarrow> string \<Rightarrow> pyval" where
  "lookup_value ctx key =
     (let ks = candidate_keys key; scope = (\<lambda>k. as_dict (py_or (py_get ctx k PNone) (PDict [])))
      in case first_present (scope ''request'') ks of
           Some v \<Rightarrow> v
         | None \<Rightarrow>
             (case first_present ctx ks of
                Some v \<Rightarrow> v
              | None \<Rightarrow> (case first_present (scope ''client_context'') ks of Some v \<Rightarrow> v | None \<Rightarrow> PNone)))"

fun render_simple :: "(string, pyval) dict \<Rightarrow> pyval \<Rightarrow> pyval" where
  "render_simple ctx (PDict d) =
     PDict (filter (\<lambda>(_, v). v \<noteq> PNone) (map (\<lambda>(k, v). (k, if v = PNone then lookup_value ctx k else render_simple ctx v)) d))"
| "render_simple ctx (PList xs) = PList (filter (\<lambda>v. v \<noteq> PNone) (map (render_simple ctx) xs))"
| "render_simple ctx v = v"

definition render_template :: "(string \<Rightarrow> (string, pyval) dict \<Rightarrow> string) \<Rightarrow> string \<Rightarrow> (string, pyval) dict \<Rightarrow> pyval \<Rightarrow> pyval" where
  "render_template jinja engine ctx t = (if engine = ''jinja2'' then render_jinja (\<lambda>s. jinja s ctx) t else render_simple ctx t)"

subsection \<open>Dumps\<close>

definition dump_tool_call :: "tool_call \<Rightarrow> pyval" where
  "dump_tool_call t =
     PDict [(''id'', opt_str (tl_id t)), (''type'', PStr (tl_type t)), (''name'', opt_str (tl_name t)), (''arguments'', tl_arguments t),
            (''status'', opt_str (tl_status t))]"

definition dump_block :: "content_block \<Rightarrow> pyval" where
  "dump_block b =
     PDict [(''type'', PStr (kb_type b)), (''text'', opt_str (kb_text b)), (''mime_type'', opt_str (kb_mime b)), (''url'', opt_str (kb_url b)),
            (''data'', PDict (kb_data b))]"

definition dump_content :: "content \<Rightarrow> pyval" where
  "dump_content c = (case c of NoContent \<Rightarrow> PNone | TextContent s \<Rightarrow> PStr s | BlockContent bs \<Rightarrow> PList (map dump_block bs))"

definition dump_message :: "canonical_message \<Rightarrow> pyval" where
  "dump_message m =
     PDict [(''role'', PStr (ms_role m)), (''content'', dump_content (ms_content m)), (''reasoning'', opt_str (ms_reasoning m)),
            (''tool_calls'', PList (map dump_tool_call (ms_tool_calls m))), (''tool_call_id'', opt_str (ms_tool_call_id m)), (''name'', PNone),
            (''metadata'', PDict [])]"

definition dump_item :: "input_item \<Rightarrow> pyval" where
  "dump_item i =
     PDict [(''type'', PStr (it_type i)), (''role'', opt_str (it_role i)), (''text'', opt_str (it_text i)), (''mime_type'', opt_str (it_mime i)),
            (''url'', opt_str (it_url i)), (''data'', PDict (it_data i))]"

definition dump_request :: "canonical_request \<Rightarrow> (string, pyval) dict" where
  "dump_request q =
     [(''canonical_version'', PStr ''2026-03-07''), (''capability'', PStr ''chat''), (''model'', PStr (cq_model q)),
      (''provider_model_id'', opt_str (cq_provider_model q)), (''instructions'', opt_str (cq_instructions q)),
      (''messages'', PList (map dump_message (cq_messages q))), (''input_items'', PList (map dump_item (cq_input_items q))),
      (''tools'', PList (cq_tools q)), (''tool_choice'', cq_tool_choice q), (''temperature'', opt_float (cq_temperature q)),
      (''max_output_tokens'', opt_int (cq_max_output q)), (''stream'', PBool (cq_stream q)), (''output_format'', cq_output_format q),
      (''metadata'', PDict (cq_metadata q)), (''extensions'', PDict []), (''client_context'', PDict (cq_client q))]"

definition build_render_context :: "canonical_request \<Rightarrow> (string, pyval) dict" where
  "build_render_context q =
     (let payload = dump_request q
      in dict_update payload
           [(''request'', PDict payload), (''input'', PDict payload), (''messages'', py_or (py_get payload ''messages'' PNone) (PList [])),
            (''input_items'', py_or (py_get payload ''input_items'' PNone) (PList [])), (''tools'', py_or (py_get payload ''tools'' PNone) (PList [])),
            (''metadata'', py_or (py_get payload ''metadata'' PNone) (PDict [])),
            (''client_context'', py_or (py_get payload ''client_context'' PNone) (PDict [])),
            (''model'', PDict [(''id'', PStr (cq_model q)), (''uid'', PStr (cq_model q))])])"

subsection \<open>Upstream requests\<close>

text \<open>The texts of the input items that are not empty.\<close>

definition item_texts :: "pyval \<Rightarrow> pyval list" where
  "item_texts items =
     filter (\<lambda>v. case v of PStr s \<Rightarrow> s \<noteq> [] | _ \<Rightarrow> False) (map (\<lambda>i. py_get (as_dict i) ''text'' PNone) (as_list items))"

definition apply_request_builder ::
  "(pyval \<Rightarrow> string) \<Rightarrow> (string \<times> (string, pyval) dict) option \<Rightarrow> (string, pyval) dict \<Rightarrow> (string, pyval) dict \<Rightarrow> (string, pyval) dict" where
  "apply_request_builder fmt builder body ctx =
     (case builder of
        None \<Rightarrow> body
      | Some (name, config) \<Rightarrow>
          if name = ''inject_literal_fields'' then dict_update body (as_dict (py_or (py_get config ''fields'' PNone) (PDict [])))
          else if name = ''merge_metadata'' then dict_update body (as_dict (py_or (py_get ctx ''metadata'' PNone) (PDict [])))
          else if name = ''embedding_request_from_input_items'' then
            (let texts = item_texts (py_or (py_get ctx ''input_items'' PNone) (PList []));
                 mode = str_lower (str_strip (py_text fmt (py_or (py_get config ''mode'' PNone) (PStr ''openai''))));
                 model = py_get (as_dict (py_or (py_get ctx ''request'' PNone) (PDict []))) ''model'' PNone
             in if mode = ''gemini'' then
                  (let b = AList.delete ''model'' body
                   in if texts = [] then b else dput ''content'' (PDict [(''parts'', PList [PDict [(''text'', hd texts)]])]) b)
                else
                  (let b = (if model = PNone then body else dput ''model'' model body)
                   in if texts = [] then b else dput ''input'' (if length texts = 1 then hd texts else PList texts) b))
          else body)"

record upstream_request =
  uq_method :: string
  uq_url :: string
  uq_headers :: "(string, pyval) dict"
  uq_query :: "(string, pyval) dict"
  uq_body :: "(string, pyval) dict"

definition build_upstream_request ::
  "(pyval \<Rightarrow> string) \<Rightarrow> (string \<Rightarrow> (string, pyval) dict \<Rightarrow> string) \<Rightarrow> canonical_request \<Rightarrow> profile \<Rightarrow> string \<Rightarrow> exn + upstream_request" where
  "build_upstream_request fmt jinja q p base_url =
     (let ctx = build_render_context q;
          render = render_template jinja (pf_engine p) ctx;
          base = rstrip_slash base_url; path = lstrip_slash (pf_path p)
      in case render (pf_template p) of
           PDict body \<Rightarrow>
             Inr \<lparr>uq_method = str_upper (pf_method p), uq_url = (if path = [] then base else base @ ''/'' @ path),
                  uq_headers = dict_update (pf_headers p) (as_dict (render (PDict (pf_header_template p)))),
                  uq_query = dict_update (pf_query p) (as_dict (render (PDict (pf_query_template p)))),
                  uq_body = apply_request_builder fmt (pf_builder p) (dict_update (pf_body p) body) ctx\<rparr>
         | _ \<Rightarrow> Inl (ValueError ''request_template_must_render_to_object''))"

subsection \<open>What a resolved profile looks like\<close>

lemma map_of_rev_distinct: "distinct (map fst d) \<Longrightarrow> map_of (rev d) = map_of d"
proof (induction d)
  case (Cons e d)
  then have "map_of d (fst e) = None" by (simp add: map_of_eq_None_iff)
  with Cons show ?case by (cases e) (auto simp: fun_eq_iff map_add_def split: option.split)
qed simp

lemma dget_dict_update: "dict_wf d \<Longrightarrow> dget (dict_update base d) k = (case dget d k of Some v \<Rightarrow> Some v | None \<Rightarrow> dget base k)"
  by (simp add: dict_update_def fold_dput_get map_of_rev_distinct dict_wf_def)

lemma infer_cases: "infer_protocol_family protocol path \<in> {''openai_chat'', ''openai_responses'', ''anthropic_messages''}"
  by (simp add: infer_protocol_family_def Let_def)

lemma builtin_fits:
  "family \<in> {''openai_chat'', ''openai_responses'', ''anthropic_messages''} \<Longrightarrow>
   pf_family (builtin_profile family) = family \<and> template_matches_family (pf_template (builtin_profile family)) family"
  by (auto simp: builtin_profile_def openai_chat_profile_def openai_responses_profile_def anthropic_messages_profile_def bare_profile_def
      template_matches_family_def)

text \<open>The profile a stored one is turned into always speaks the protocol the address asks for: its family is the
  inferred one, and its template fits that family, unless the stored profile is of the family already, whose
  template is kept as it is; path, capability, provider and the headers of the caller are those asked for.
\<close>
theorem preset_profile_fits:
  assumes "build_profile_from_preset parse preset a = Inr p" and "load_profile parse preset (pa_capability a) = Inr (Some q)"
  shows "pf_family p = infer_protocol_family (pa_protocol a) (pa_path a)
    \<and> (template_matches_family (pf_template p) (pf_family p) \<or> pf_family q = pf_family p \<and> pf_template p = pf_template q)
    \<and> pf_path p = pa_path a \<and> pf_provider p = pa_provider a \<and> pf_capability p = pa_capability a
    \<and> (\<forall>k v. dict_wf (pa_headers a) \<and> dget (pa_headers a) k = Some v \<longrightarrow> dget (pf_headers p) k = Some v)"
proof -
  let ?f = "infer_protocol_family (pa_protocol a) (pa_path a)"
  let ?r = "if pf_family q \<noteq> ?f then rebase_profile_family a ?f q else q"
  have p: "pf_family p = pf_family ?r" "pf_template p = pf_template ?r" "pf_path p = pa_path a" "pf_provider p = pa_provider a"
    "pf_capability p = pa_capability a" "pf_headers p = dict_update (pf_headers ?r) (pa_headers a)"
    using assms by (auto simp: build_profile_from_preset_def Let_def)
  have base: "pf_family (builtin_profile ?f) = ?f" "template_matches_family (pf_template (builtin_profile ?f)) ?f"
    using builtin_fits [OF infer_cases] by blast+
  have fam: "pf_family ?r = ?f"
    using base by (simp add: rebase_profile_family_def Let_def)
  have "template_matches_family (pf_template ?r) ?f \<or> pf_family q = ?f \<and> pf_template ?r = pf_template q"
    using base by (simp add: rebase_profile_family_def Let_def)
  moreover have "dget (pf_headers p) k = Some v" if "dict_wf (pa_headers a)" and "dget (pa_headers a) k = Some v" for k v
    using that by (simp add: p(6) dget_dict_update)
  ultimately show ?thesis using p fam by metis
qed

definition messages_args :: profile_args where
  "messages_args =
     \<lparr>pa_provider = ''relay'', pa_capability = ''chat'', pa_protocol = Some ''Anthropic'', pa_path = ''messages'', pa_method = ''POST'', pa_engine = [],
      pa_template = PDict [], pa_response = [], pa_mapping = [], pa_builder = [], pa_headers = [(''x-key'', PStr ''k'')], pa_params = [],
      pa_async = PNone\<rparr>"

text \<open>The preceding statement at a stored chat profile and an address that asks for the messages of Anthropic.\<close>
theorem preset_profile_fits_witness:
  "(case build_profile_from_preset (\<lambda>_. Inr openai_chat_profile) (Some (PDict [(''chat'', PDict [])])) messages_args of
      Inl e \<Rightarrow> False
    | Inr p \<Rightarrow> pf_family p = ''anthropic_messages'' \<and> template_matches_family (pf_template p) ''anthropic_messages'')"
proof -
  let ?preset = "Some (PDict [(''chat'', PDict [])])"
  have load: "load_profile (\<lambda>_. Inr openai_chat_profile) ?preset (pa_capability messages_args) = Inr (Some openai_chat_profile)"
    by (simp add: load_profile_def messages_args_def py_get_def)
  then obtain p where p: "build_profile_from_preset (\<lambda>_. Inr openai_chat_profile) ?preset messages_args = Inr p"
    by (simp add: build_profile_from_preset_def Let_def)
  have "infer_protocol_family (pa_protocol messages_args) (pa_path messages_args) = ''anthropic_messages''" by code_simp
  moreover have "pf_family openai_chat_profile = ''openai_chat''" by (simp add: openai_chat_profile_def bare_profile_def)
  ultimately show ?thesis using preset_profile_fits [OF p load] by (auto simp: p)
qed

subsection \<open>What is sent\<close>

text \<open>
  C0: through the built-in chat profile an upstream is sent the model, the messages and the stream flag of the
  request on top of the defaults of the profile, and nothing else: temperature, output limit and tools of the
  request never reach it.
\<close>
theorem chat_request_body:
  assumes "p = openai_chat_profile\<lparr>pf_body := defaults\<rparr>"
  shows "map_sum id uq_body (build_upstream_request fmt jinja q p base_url)
    = Inr (dict_update defaults [(''model'', PStr (cq_model q)), (''messages'', PList (map dump_message (cq_messages q))),
        (''stream'', PBool (cq_stream q))])"
proof -
  have keys: "candidate_keys ''model'' = [''model'']" "candidate_keys ''messages'' = [''messages'']" "candidate_keys ''stream'' = [''stream'']"
    by code_simp+
  have entries: "dget (dump_request q) ''model'' = Some (PStr (cq_model q))"
    "dget (dump_request q) ''messages'' = Some (PList (map dump_message (cq_messages q)))" "dget (dump_request q) ''stream'' = Some (PBool (cq_stream q))"
    by (simp_all add: dump_request_def)
  have "truthy (PDict (dump_request q))" by (simp add: dump_request_def)
  moreover have "dget (build_render_context q) ''request'' = Some (PDict (dump_request q))"
    by (simp add: build_render_context_def Let_def dict_update_def)
  ultimately have ctx: "as_dict (py_or (py_get (build_render_context q) ''request'' PNone) (PDict [])) = dump_request q"
    by (simp add: py_or_def py_get_def)
  have look: "lookup_value (build_render_context q) ''model'' = PStr (cq_model q)"
    "lookup_value (build_render_context q) ''messages'' = PList (map dump_message (cq_messages q))"
    "lookup_value (build_render_context q) ''stream'' = PBool (cq_stream q)"
    by (simp_all add: lookup_value_def keys ctx Let_def entries)
  have "render_simple (build_render_context q) (PDict [(''model'', PNone), (''messages'', PNone), (''stream'', PNone)])
      = PDict [(''model'', PStr (cq_model q)), (''messages'', PList (map dump_message (cq_messages q))), (''stream'', PBool (cq_stream q))]"
    by (simp add: look)
  then show ?thesis
    by (simp add: assms build_upstream_request_def Let_def render_template_def openai_chat_profile_def bare_profile_def apply_request_builder_def)
qed

definition question :: canonical_request where
  "question =
     (plain_request ''gpt'')\<lparr>cq_messages := [\<lparr>ms_role = ''user'', ms_content = TextContent ''hi'', ms_reasoning = None, ms_tool_calls = [], ms_tool_call_id = None\<rparr>],
        cq_temperature := Some (1 / 2), cq_max_output := Some 100\<rparr>"

text \<open>The preceding statement at a request with a temperature and an output limit.\<close>
theorem chat_request_body_witness:
  "map_sum id (\<lambda>r. map fst (uq_body r)) (build_upstream_request (\<lambda>_. []) (\<lambda>s _. s) question openai_chat_profile ''https://api.test/v1'')
     = Inr [''model'', ''messages'', ''stream'']"
proof -
  have "openai_chat_profile = openai_chat_profile\<lparr>pf_body := []\<rparr>" by (simp add: openai_chat_profile_def bare_profile_def)
  from chat_request_body [OF this, of "\<lambda>_. []" "\<lambda>s _. s" question "''https://api.test/v1''"]
  have "map_sum id (map fst) (map_sum id uq_body (build_upstream_request (\<lambda>_. []) (\<lambda>s _. s) question openai_chat_profile ''https://api.test/v1''))
      = Inr [''model'', ''messages'', ''stream'']"
    by (simp add: dict_update_def)
  then show ?thesis
    by (cases "build_upstream_request (\<lambda>_. []) (\<lambda>s _. s) question openai_chat_profile ''https://api.test/v1''") auto
qed

subsection \<open>Templates render to text\<close>

text \<open>A template is a text once rendered: what it stands for is never a list or an object.\<close>

lemma literal_scalar: "\<not> a_list (literal_of s) \<and> \<not> a_dict (literal_of s)"
  by (simp add: literal_of_def Let_def split: option.split)

lemma rendered_text_scalar: "a_str v \<Longrightarrow> \<not> a_list (render_jinja j v) \<and> \<not> a_dict (render_jinja j v)"
  using literal_scalar by (cases v) auto

lemma rendered_texts:
  assumes "list_all (\<lambda>(k, v). a_str v) d" and "dict_wf d" and "render_jinja j (PDict d) = PDict d'"
  shows "dict_update [] d' = d' \<and> \<not> a_list (py_get d' k PNone)"
proof -
  have d': "d' = filter (\<lambda>(_, v). v \<noteq> PNone) (map (\<lambda>(k, v). (k, render_jinja j v)) d)" using assms(3) by simp
  have "map fst (map (\<lambda>(k, v). (k, render_jinja j v)) d) = map fst d" by (simp add: case_prod_unfold)
  then have "distinct (map fst d')"
    using assms(2) unfolding d' dict_wf_def by (metis distinct_map_filter)
  moreover have "\<not> a_list v" if "(k, v) \<in> set d'" for k v
    using that assms(1) rendered_text_scalar by (fastforce simp: d' list_all_iff)
  ultimately show ?thesis
    by (auto simp: dict_update_def fold_dput_distinct py_get_def dest: map_of_SomeD split: option.split)
qed

lemma anthropic_messages_never_a_list:
  assumes "build_upstream_request fmt jinja q anthropic_messages_profile base_url = Inr r"
  shows "\<not> a_list (py_get (uq_body r) ''messages'' PNone)"
proof -
  let ?j = "\<lambda>s. jinja s (build_render_context q)"
  obtain t where t: "pf_template anthropic_messages_profile = PDict t" "list_all (\<lambda>(k, v). a_str v) t" "dict_wf t"
    by (simp add: anthropic_messages_profile_def bare_profile_def dict_wf_def)
  obtain d where d: "render_jinja ?j (PDict t) = PDict d" by simp
  have fields: "pf_engine anthropic_messages_profile = ''jinja2''" "pf_builder anthropic_messages_profile = None" "pf_body anthropic_messages_profile = []"
    by (simp_all add: anthropic_messages_profile_def bare_profile_def)
  have "uq_body r = dict_update [] d"
    using assms by (auto simp: build_upstream_request_def Let_def render_template_def fields apply_request_builder_def t(1) d simp del: render_jinja.simps)
  with rendered_texts [OF t(2,3) d] show ?thesis by simp
qed

text \<open>A user text that reads as a number, a truth value or nothing is sent as such, and an absent one as the text \<open>None\<close>.\<close>

lemma literal_texts:
  "literal_of ''42'' = PInt 42" "literal_of ''true'' = PBool True" "literal_of ''null'' = PNone" "literal_of ''None'' = PStr ''None''"
  by code_simp+

lemma question_of_nothing_dropped:
  assumes "jinja responses_input_template = ''null''"
  shows "\<exists>d. render_jinja jinja (pf_template openai_responses_profile) = PDict d \<and> dget d ''input'' = None"
proof -
  have "str_contains responses_input_template ''{{''" by code_simp
  then have null: "render_jinja jinja (PStr responses_input_template) = PNone"
    using assms literal_texts(3) by simp
  have t: "pf_template openai_responses_profile = PDict [(''model'', PStr ''{{ request.model }}''), (''input'', PStr responses_input_template),
      (''stream'', PStr ''{{ request.stream | default(false) }}'')]"
    by (simp add: openai_responses_profile_def bare_profile_def)
  have "dget (filter (\<lambda>(_, v). v \<noteq> PNone) [(''model'', x), (''input'', PNone), (''stream'', y)]) ''input'' = None" for x y :: pyval
    by simp
  then show ?thesis unfolding t by (simp only: render_jinja.simps(2) list.map prod.case null) blast
qed

end
