(* ===== verification/Response_Transform.thy ===== *)
theory Response_Transform
  imports Protocol_Responses Stream_Accumulator Base_Step
begin

section \<open>The transformation of responses\<close>

text \<open>
  \<open>ResponseTransformer\<close> of src/app/services/providers/response_transformer.py and \<open>ResponseTransformStep\<close> of
  src/app/services/workflow/steps/response_transform.py. Jinja templates are the argument \<open>jinja\<close>, \<open>dumps\<close> is
  \<open>json.dumps\<close>. Which of the dictionaries of the context the result shares is part of the model.
\<close>

subsection \<open>Adapters\<close>

text \<open>The elements of an iterable.\<close>

fun elements :: "pyval \<Rightarrow> exn + pyval list" where
  "elements (PList xs) = Inr xs"
| "elements (PStr s) = Inr (map (\<lambda>c. PStr [c]) s)"
| "elements (PDict d) = Inr (map (PStr \<circ> fst) d)"
| "elements _ = Inl type_error"

fun append_text :: "string \<Rightarrow> pyval \<Rightarrow> exn + string" where
  "append_text s (PStr t) = Inr (s @ t)"
| "append_text s _ = Inl type_error"

record adapted =
  ad_text :: string
  ad_thought :: string
  ad_calls :: "pyval list"

definition nothing_read :: adapted where
  "nothing_read = \<lparr>ad_text = [], ad_thought = [], ad_calls = []\<rparr>"

definition function_call :: "pyval \<Rightarrow> pyval \<Rightarrow> string \<Rightarrow> pyval" where
  "function_call i name args = PDict [(''id'', i), (''type'', PStr ''function''), (''function'', PDict [(''name'', name), (''arguments'', PStr args)])]"

definition adapted_message :: "adapted \<Rightarrow> pyval" where
  "adapted_message a =
     PDict ([(''role'', PStr ''assistant'')]
       @ (if ad_text a = [] then [] else [(''content'', PStr (ad_text a))])
       @ (if ad_thought a = [] then [] else [(''reasoning_content'', PStr (ad_thought a))])
       @ (if ad_calls a = [] then []
          else [(''tool_calls'', PList (ad_calls a))] @ (if ad_text a = [] then [(''content'', PNone)] else [])))"

definition completion_choice :: "pyval \<Rightarrow> pyval \<Rightarrow> pyval" where
  "completion_choice message finish = PDict [(''index'', PInt 0), (''message'', message), (''finish_reason'', finish)]"

definition adapt_anthropic_block :: "(pyval \<Rightarrow> string) \<Rightarrow> pyval \<Rightarrow> adapted \<Rightarrow> exn + adapted" where
  "adapt_anthropic_block dumps block a =
     bindR (get_of block ''type'' PNone) (\<lambda>t.
       let d = as_dict block in
       if t = PStr ''text'' then bindR (append_text (ad_text a) (py_get d ''text'' (PStr []))) (\<lambda>s. Inr (a\<lparr>ad_text := s\<rparr>))
       else if t = PStr ''thinking'' then bindR (append_text (ad_thought a) (py_get d ''thinking'' (PStr []))) (\<lambda>s. Inr (a\<lparr>ad_thought := s\<rparr>))
       else if t = PStr ''tool_use'' then
         Inr (a\<lparr>ad_calls := ad_calls a @ [function_call (py_get d ''id'' PNone) (py_get d ''name'' PNone) (dumps (py_get d ''input'' PNone))]\<rparr>)
       else Inr a)"

definition finish_map :: "pyval \<Rightarrow> pyval" where
  "finish_map v =
     (if v = PStr ''end_turn'' \<or> v = PStr ''stop_sequence'' then PStr ''stop'' else if v = PStr ''max_tokens'' then PStr ''length'' else v)"

definition adapt_anthropic :: "(pyval \<Rightarrow> string) \<Rightarrow> (string, pyval) dict \<Rightarrow> exn + (string, pyval) dict" where
  "adapt_anthropic dumps raw =
     bindR (elements (py_get raw ''content'' (PList []))) (\<lambda>blocks.
     bindR (foldR (adapt_anthropic_block dumps) blocks nothing_read) (\<lambda>a.
     let finish = py_or (py_get raw ''stop_reason'' PNone) (PStr ''stop''); usage = py_get raw ''usage'' (PDict []) in
     bindR (if a_list finish \<or> a_dict finish then Inl type_error else Inr (finish_map finish)) (\<lambda>finish.
     bindR (get_of usage ''input_tokens'' (PInt 0)) (\<lambda>i. bindR (get_of usage ''output_tokens'' (PInt 0)) (\<lambda>out.
     bindR (py_add i out) (\<lambda>sum.
       Inr [(''id'', py_get raw ''id'' PNone), (''object'', PStr ''chat.completion''), (''choices'', PList [completion_choice (adapted_message a) finish]),
            (''usage'', PDict [(''prompt_tokens'', i), (''completion_tokens'', out), (''total_tokens'', sum)])]))))))"

definition adapt_gemini_part :: "(pyval \<Rightarrow> string) \<Rightarrow> nat \<times> pyval \<Rightarrow> adapted \<Rightarrow> exn + adapted" where
  "adapt_gemini_part dumps ip a =
     (case snd ip of
        PDict d \<Rightarrow>
          if dget d ''text'' \<noteq> None then bindR (append_text (ad_text a) (py_get d ''text'' PNone)) (\<lambda>s. Inr (a\<lparr>ad_text := s\<rparr>))
          else if dget d ''thought'' \<noteq> None then bindR (append_text (ad_thought a) (py_get d ''thought'' PNone)) (\<lambda>s. Inr (a\<lparr>ad_thought := s\<rparr>))
          else
            let f = py_or (py_get d ''functionCall'' PNone) (py_get d ''function_call'' PNone)
            in if \<not> truthy f then Inr a
               else bindR (get_of f ''name'' PNone) (\<lambda>n.
                      Inr (a\<lparr>ad_calls := ad_calls a @ [function_call (PStr (''gemini-func-'' @ nat_str (fst ip))) n
                        (dumps (py_or (py_get (as_dict f) ''args'' PNone) (PDict [])))]\<rparr>))
      | PStr _ \<Rightarrow> Inl no_attribute
      | PList _ \<Rightarrow> Inl no_attribute
      | _ \<Rightarrow> Inl type_error)"

definition adapt_gemini_choices :: "(pyval \<Rightarrow> string) \<Rightarrow> pyval \<Rightarrow> exn + pyval list" where
  "adapt_gemini_choices dumps candidates =
     (if \<not> truthy candidates then Inr []
      else
        bindR (first_or_empty candidates) (\<lambda>cand.
        bindR (get_of cand ''content'' (PDict [])) (\<lambda>content. bindR (get_of content ''parts'' (PList [])) (\<lambda>ps. bindR (elements ps) (\<lambda>parts.
        bindR (foldR (adapt_gemini_part dumps) (zip [0..<length parts] parts) nothing_read) (\<lambda>a.
          case py_or (py_get (as_dict cand) ''finishReason'' PNone) (PStr ''stop'') of
            PStr s \<Rightarrow> Inr [completion_choice (adapted_message a) (PStr (str_lower s))]
          | _ \<Rightarrow> Inl no_attribute))))))"

definition adapt_gemini :: "(pyval \<Rightarrow> string) \<Rightarrow> (string, pyval) dict \<Rightarrow> exn + (string, pyval) dict" where
  "adapt_gemini dumps raw =
     bindR (adapt_gemini_choices dumps (py_get raw ''candidates'' PNone)) (\<lambda>choices.
     let meta = py_get raw ''usageMetadata'' (PDict []) in
     bindR (if truthy meta \<and> \<not> a_dict meta then Inl no_attribute else Inr (as_dict meta)) (\<lambda>m.
       Inr ([(''id'', py_or (py_get raw ''id'' PNone) (PStr ''gemini-adapt'')), (''object'', PStr ''chat.completion''), (''choices'', PList choices)]
         @ (if m = [] then []
            else [(''usage'', PDict [(''prompt_tokens'', py_get m ''promptTokenCount'' (PInt 0)),
                    (''completion_tokens'', py_get m ''candidatesTokenCount'' (PInt 0)), (''total_tokens'', py_get m ''totalTokenCount'' (PInt 0))])]))))"

text \<open>\<open>transform\<close>: the result, and whether it is the response itself, as it is whenever something fails.\<close>

record transform_env =
  te_dumps :: "pyval \<Rightarrow> string"
  te_fmt :: "pyval \<Rightarrow> string"
  te_jinja :: "(string, pyval) dict \<Rightarrow> pyval \<Rightarrow> exn + pyval"

definition or_itself :: "pyval \<Rightarrow> exn + pyval \<Rightarrow> pyval \<times> bool" where
  "or_itself raw r = (case r of Inl e \<Rightarrow> (raw, True) | Inr v \<Rightarrow> (v, False))"

definition transform_response :: "transform_env \<Rightarrow> string \<Rightarrow> (string, pyval) dict \<Rightarrow> pyval \<Rightarrow> int \<Rightarrow> pyval \<times> bool" where
  "transform_response env engine template raw status =
     (if 400 \<le> status then (raw, True)
      else if engine = ''jinja2'' then (if template = [] then (raw, True) else or_itself raw (te_jinja env template raw))
      else if engine = ''anthropic_messages'' then
        or_itself raw (if a_dict raw then map_sum id PDict (adapt_anthropic (te_dumps env) (as_dict raw)) else Inl no_attribute)
      else if engine = ''google_gemini'' then
        or_itself raw (if a_dict raw then map_sum id PDict (adapt_gemini (te_dumps env) (as_dict raw)) else Inl no_attribute)
      else (raw, True))"

subsection \<open>Usage\<close>

record usage_counts =
  uc_prompt :: int
  uc_completion :: int
  uc_total :: int

definition no_usage :: usage_counts where
  "no_usage = \<lparr>uc_prompt = 0, uc_completion = 0, uc_total = 0\<rparr>"

definition int_or_zero :: "pyval \<Rightarrow> exn + int" where
  "int_or_zero v = py_int (py_or v (PInt 0))"

definition has_key :: "(string, pyval) dict \<Rightarrow> string \<Rightarrow> bool" where
  "has_key d k \<longleftrightarrow> dget d k \<noteq> None"

definition extract_usage :: "pyval \<Rightarrow> exn + usage_counts" where
  "extract_usage response =
     (if \<not> truthy response then Inr no_usage
      else
        let usage = as_dict (py_get (as_dict response) ''usage'' PNone);
            count = (\<lambda>d k. int_or_zero (py_get d k (PInt 0)))
        in if has_key usage ''prompt_tokens'' \<or> has_key usage ''completion_tokens'' \<or> has_key usage ''total_tokens'' then
             bindR (count usage ''prompt_tokens'') (\<lambda>p. bindR (count usage ''completion_tokens'') (\<lambda>c.
             bindR (int_or_zero (py_get usage ''total_tokens'' (PInt (p + c)))) (\<lambda>t.
               Inr \<lparr>uc_prompt = p, uc_completion = c, uc_total = t\<rparr>)))
           else if has_key usage ''input_tokens'' \<or> has_key usage ''output_tokens'' then
             bindR (count usage ''input_tokens'') (\<lambda>p. bindR (count usage ''output_tokens'') (\<lambda>c.
               Inr \<lparr>uc_prompt = p, uc_completion = c, uc_total = p + c\<rparr>))
           else if \<not> a_dict response then Inl no_attribute
           else
             case py_or (py_get (as_dict response) ''usageMetadata'' PNone) (py_get (as_dict response) ''usage_metadata'' PNone) of
               PDict m \<Rightarrow>
                 bindR (count m ''promptTokenCount'') (\<lambda>p. bindR (count m ''candidatesTokenCount'') (\<lambda>c.
                 bindR (count m ''totalTokenCount'') (\<lambda>t. Inr \<lparr>uc_prompt = p, uc_completion = c, uc_total = t\<rparr>)))
             | _ \<Rightarrow> Inr no_usage)"

subsection \<open>The step\<close>

text \<open>How much of the upstream response the result shares: nothing, its values, or everything.\<close>

datatype sharing = Own | Shallow | Same

definition profile_section :: "workflow_context \<Rightarrow> string \<Rightarrow> pyval" where
  "profile_section c k = py_or (py_get (as_dict (ctx_get c ''routing'' ''protocol_profile'' PNone)) k PNone) (PDict [])"

definition capability_of :: "workflow_context \<Rightarrow> string" where
  "capability_of c = str_lower (if str_truthy (ctx_capability c) then the (ctx_capability c) else ''chat'')"

definition by_engine :: "transform_env \<Rightarrow> workflow_context \<Rightarrow> pyval \<times> sharing" where
  "by_engine env c =
     (let engine = opt_text (string_of (py_or (py_get (as_dict (profile_section c ''request'')) ''template_engine'' PNone) (PStr ''simple_replace'')));
          template = as_dict (py_get (as_dict (profile_section c ''response'')) ''response_template'' PNone);
          status = (case ctx_get c ''upstream_call'' ''status_code'' PNone of PInt n \<Rightarrow> if n = 0 then 200 else n | _ \<Rightarrow> 200)
      in case transform_response env engine template (ctx_get c ''upstream_call'' ''response'' PNone) status of
           (v, same) \<Rightarrow> (v, if same then Same else Own))"

definition transformed_response :: "transform_env \<Rightarrow> workflow_context \<Rightarrow> exn + pyval \<times> sharing" where
  "transformed_response env c =
     (let response = ctx_get c ''upstream_call'' ''response'' PNone
      in if capability_of c = ''embedding'' then Inr (if a_dict response then (response, Shallow) else (PDict [], Own))
         else
           bindR (get_of (py_or (py_get (as_dict (profile_section c ''response'')) ''decoder'' PNone) (PDict [])) ''name'' PNone) (\<lambda>name.
             if \<not> stripped (string_of name) then Inr (by_engine env c)
             else bindR (decode_response (te_fmt env) (the (string_of name)) (as_dict response) (ctx_requested_model c)) (\<lambda>r.
                    Inr (PDict (render_chat_completion r), Own))))"

definition labelled :: "workflow_context \<Rightarrow> pyval \<Rightarrow> pyval" where
  "labelled c v =
     (case v of
        PDict d \<Rightarrow>
          (let d1 = dput ''trace_id'' (PStr (ctx_trace_id c)) d
           in PDict (if str_truthy (ctx_requested_model c) then dput ''model'' (PStr (the (ctx_requested_model c))) d1 else d1))
      | _ \<Rightarrow> v)"

text \<open>\<open>choices[0].get("message")\<close> of the result, None where there is no dictionary.\<close>

definition first_message :: "pyval \<Rightarrow> exn + (string, pyval) dict option" where
  "first_message v =
     (let choices = py_get (as_dict v) ''choices'' PNone
      in if \<not> truthy choices then Inr None
         else bindR (first_or_empty choices) (\<lambda>c. Inr (case py_get (as_dict c) ''message'' PNone of PDict m \<Rightarrow> Some m | _ \<Rightarrow> None)))"

definition with_message :: "pyval \<Rightarrow> pyval \<Rightarrow> pyval" where
  "with_message m v =
     (case py_get (as_dict v) ''choices'' PNone of
        PList (c # cs) \<Rightarrow> PDict (dput ''choices'' (PList (PDict (dput ''message'' m (as_dict c)) # cs)) (as_dict v))
      | _ \<Rightarrow> v)"

definition with_blocks :: "(pyval \<Rightarrow> string) \<Rightarrow> pyval \<Rightarrow> exn + pyval" where
  "with_blocks dumps v =
     bindR (first_message v) (\<lambda>m.
       case m of
         None \<Rightarrow> Inr v
       | Some d \<Rightarrow>
           bindR (build_normalized_blocks dumps (string_of (py_get d ''content'' PNone)) (string_of (py_get d ''reasoning_content'' PNone))
                   (as_list (py_get d ''tool_calls'' PNone))) (\<lambda>blocks.
             if blocks = [] then Inr v
             else bindR (case py_or (py_get d ''meta_info'' PNone) (PDict []) of PDict i \<Rightarrow> Inr i | _ \<Rightarrow> Inl type_error) (\<lambda>info.
                    Inr (with_message (PDict (dput ''meta_info'' (PDict (dput ''blocks'' (PList blocks) info)) d)) v))))"

definition call_name :: "pyval \<Rightarrow> pyval" where
  "call_name call =
     (case call of
        PDict d \<Rightarrow> py_or (case py_get d ''function'' PNone of PDict f \<Rightarrow> py_get f ''name'' PNone | _ \<Rightarrow> PNone) (py_get d ''name'' PNone)
      | _ \<Rightarrow> PNone)"

definition called_names :: "pyval list \<Rightarrow> pyval list" where
  "called_names calls = fold (\<lambda>call names. if truthy (call_name call) \<and> call_name call \<notin> set names then names @ [call_name call] else names) calls []"

definition announce_calls :: "pyval \<Rightarrow> workflow_context \<Rightarrow> exn + workflow_context" where
  "announce_calls v c =
     bindR (first_message v) (\<lambda>m.
       let names = take 2 (called_names (as_list (case m of None \<Rightarrow> PNone | Some d \<Rightarrow> py_get d ''tool_calls'' PNone)))
       in if names = [] then Inr c
          else if \<not> list_all a_str names then Inl type_error
          else Inr (emit_status (ctx_created_at c) ''evolve'' (Some ''tool_call'') ''running'' (Some ''tool.call'')
                 (PDict [(''name'', PStr (str_join '', '' (List.map_filter string_of names)))]) c))"

text \<open>Writing a result back to the upstream response it shares.\<close>

definition share :: "sharing \<Rightarrow> pyval \<Rightarrow> workflow_context \<Rightarrow> workflow_context" where
  "share sh v c =
     (case sh of
        Own \<Rightarrow> c
      | Same \<Rightarrow> ctx_set ''upstream_call'' ''response'' v c
      | Shallow \<Rightarrow>
          (case (ctx_get c ''upstream_call'' ''response'' PNone, dget (as_dict v) ''choices'') of
             (PDict d, Some ch) \<Rightarrow> ctx_set ''upstream_call'' ''response'' (PDict (dput ''choices'' ch d)) c
           | _ \<Rightarrow> c))"

definition usage_value :: "usage_counts \<Rightarrow> pyval" where
  "usage_value u = PDict [(''prompt_tokens'', PInt (uc_prompt u)), (''completion_tokens'', PInt (uc_completion u)), (''total_tokens'', PInt (uc_total u))]"

definition book_usage :: "usage_counts \<Rightarrow> workflow_context \<Rightarrow> workflow_context" where
  "book_usage u c =
     (let c1 = ctx_set ''response_transform'' ''usage'' (usage_value u) c
      in c1\<lparr>ctx_billing := (ctx_billing c1)\<lparr>bi_input_tokens := uc_prompt u, bi_output_tokens := uc_completion u, bi_total_tokens := uc_total u\<rparr>\<rparr>)"

text \<open>The body of the step up to the point where it raises; the context is the one reached.\<close>

definition transform_body :: "transform_env \<Rightarrow> workflow_context \<Rightarrow> (exn + unit) \<times> workflow_context" where
  "transform_body env c =
     (case transformed_response env c of
        Inl e \<Rightarrow> (Inl e, c)
      | Inr (v, sh) \<Rightarrow>
          (case extract_usage v of
             Inl e \<Rightarrow> (Inl e, c)
           | Inr u \<Rightarrow>
               (let c1 = book_usage u c; v1 = labelled c v; c2 = share sh v1 (ctx_set ''response_transform'' ''response'' v1 c1)
                in case with_blocks (te_dumps env) v1 of
                     Inl e \<Rightarrow> (Inl e, c2)
                   | Inr v2 \<Rightarrow>
                       (let c3 = share sh v2 (ctx_set ''response_transform'' ''response'' v2 c2)
                        in case announce_calls v2 c3 of Inl e \<Rightarrow> (Inl e, c3) | Inr c4 \<Rightarrow> (Inr (), c4)))))"

text \<open>A section of the profile that is neither empty nor a dictionary raises before the \<open>try\<close>.\<close>

definition response_transform_execute :: "transform_env \<Rightarrow> workflow_context \<Rightarrow> (exn + step_result) \<times> workflow_context" where
  "response_transform_execute env c =
     (if \<not> a_dict (profile_section c ''request'') \<or> \<not> a_dict (profile_section c ''response'') then (Inl no_attribute, c)
      else if truthy (ctx_get c ''upstream_call'' ''stream'' (PBool False)) then
        (Inr ((new_step_result SUCCESS)\<lparr>sr_data := Some [(''stream'', PBool True)]\<rparr>),
         ctx_set ''response_transform'' ''stream'' (PBool True) (ctx_set ''response_transform'' ''response'' PNone c))
      else if ctx_get c ''upstream_call'' ''response'' PNone = PNone then
        (Inr ((new_step_result FAILED)\<lparr>sr_message := Some ''No upstream response to transform''\<rparr>), c)
      else
        case transform_body env c of
          (Inr _, c') \<Rightarrow>
            (Inr ((new_step_result SUCCESS)\<lparr>sr_data := Some [(''tokens'', PInt (bi_total_tokens (ctx_billing c'))),
               (''provider'', ctx_get c' ''routing'' ''provider'' PNone)]\<rparr>), c')
        | (Inl e, c') \<Rightarrow>
            (Inr ((new_step_result SUCCESS)\<lparr>sr_message := Some (''Transform warning: '' @ exn_str e @ '', using original response'')\<rparr>),
             ctx_set ''response_transform'' ''response'' (ctx_get c' ''upstream_call'' ''response'' PNone) c'))"

subsection \<open>What is booked\<close>

lemma fold_dput_keeps: "k' \<noteq> k \<Longrightarrow> py_get (dput k v d) k' dflt = py_get d k' dflt"
  by simp

text \<open>The usage of a result is looked up under keys that labelling and blocks do not touch.\<close>

definition same_usage :: "pyval \<Rightarrow> pyval \<Rightarrow> bool" where
  "same_usage v w \<longleftrightarrow>
     a_dict w = a_dict v \<and> (truthy v \<longrightarrow> truthy w) \<and>
     (\<forall>k \<in> {''usage'', ''usageMetadata'', ''usage_metadata''}. py_get (as_dict w) k PNone = py_get (as_dict v) k PNone)"

lemma same_usage_refl [simp]: "same_usage v v"
  by (simp add: same_usage_def)

lemma same_usage_trans: "same_usage u v \<Longrightarrow> same_usage v w \<Longrightarrow> same_usage u w"
  by (simp add: same_usage_def)

lemma same_usage_labelled: "same_usage v (labelled c v)"
  by (cases v) (simp_all add: same_usage_def labelled_def Let_def)

lemma same_usage_message: "same_usage v (with_message m v)"
proof (cases "py_get (as_dict v) ''choices'' PNone")
  case (PList cs)
  then obtain d where "v = PDict d" by (cases v) (auto simp: py_get_def)
  with PList show ?thesis by (cases cs) (simp_all add: with_message_def same_usage_def)
qed (simp_all add: with_message_def)

lemma with_blocks_cases:
  assumes "with_blocks dumps v = Inr w"
  shows "w = v \<or> (\<exists>m. w = with_message m v)"
proof -
  obtain m where m: "first_message v = Inr m" using assms by (auto simp: with_blocks_def bindR_Inr)
  show ?thesis using assms by (cases m) (auto simp: with_blocks_def m bindR_Inr split: if_splits)
qed

lemma same_usage_blocks: "with_blocks dumps v = Inr w \<Longrightarrow> same_usage v w"
  using with_blocks_cases same_usage_message by (metis same_usage_refl)

lemma with_message_get: "k \<noteq> ''choices'' \<Longrightarrow> dget (as_dict (with_message m v)) k = dget (as_dict v) k"
  by (auto simp: with_message_def split: pyval.split list.split)

lemma extract_usage_same:
  assumes "same_usage v w" and "truthy v"
  shows "extract_usage w = extract_usage v"
proof -
  have "truthy w" and d: "a_dict w = a_dict v" and k: "py_get (as_dict w) ''usage'' PNone = py_get (as_dict v) ''usage'' PNone"
    "py_get (as_dict w) ''usageMetadata'' PNone = py_get (as_dict v) ''usageMetadata'' PNone"
    "py_get (as_dict w) ''usage_metadata'' PNone = py_get (as_dict v) ''usage_metadata'' PNone"
    using assms by (simp_all add: same_usage_def)
  then show ?thesis using assms(2) by (simp only: extract_usage_def Let_def not_True_eq_False if_False d k simp_thms)
qed

text \<open>An empty result gains a trace id, but no usage.\<close>

lemma extract_usage_empty:
  assumes "same_usage v w" and "\<not> truthy v" and "a_dict v \<or> w = v"
  shows "extract_usage w = Inr no_usage"
proof (cases "a_dict v")
  case True
  then have v: "as_dict v = []" using assms(2) by (cases v) auto
  then have "py_get (as_dict w) ''usage'' PNone = PNone" "py_get (as_dict w) ''usageMetadata'' PNone = PNone"
    "py_get (as_dict w) ''usage_metadata'' PNone = PNone" "a_dict w"
    using assms(1) True by (simp_all add: same_usage_def py_get_def)
  then show ?thesis by (simp add: extract_usage_def Let_def has_key_def py_or_def)
qed (use assms in \<open>simp add: extract_usage_def\<close>)

lemma labelled_same: "\<not> a_dict v \<Longrightarrow> labelled c v = v"
  by (cases v) (simp_all add: labelled_def)

lemma blocks_same: "\<not> a_dict v \<Longrightarrow> with_blocks dumps v = Inr w \<Longrightarrow> w = v"
  by (cases v) (simp_all add: with_blocks_def first_message_def py_get_def)

lemma delivered_usage:
  assumes "extract_usage v = Inr u" and "with_blocks dumps (labelled c v) = Inr w"
  shows "extract_usage w = Inr u"
proof -
  have same: "same_usage v w"
    using same_usage_trans [OF same_usage_labelled same_usage_blocks [OF assms(2)]] .
  show ?thesis
  proof (cases "truthy v")
    case True
    then show ?thesis using extract_usage_same [OF same] assms(1) by simp
  next
    case False
    have "a_dict v \<or> w = v" using assms(2) by (metis labelled_same blocks_same)
    with extract_usage_empty [OF same False] False assms(1) show ?thesis by (simp add: extract_usage_def)
  qed
qed

lemma ctx_set_billing [simp]: "ctx_billing (ctx_set s k v c) = ctx_billing c"
  by (simp add: ctx_set_def Let_def)

lemma share_get [simp]: "ctx_get (share sh v c) ''response_transform'' k d = ctx_get c ''response_transform'' k d"
  by (auto simp: share_def split: sharing.split pyval.split option.split)

lemma share_billing [simp]: "ctx_billing (share sh v c) = ctx_billing c"
  by (auto simp: share_def split: sharing.split pyval.split option.split)

lemma emitted_fields:
  "ctx_billing (emit_status a b e f g h x) = ctx_billing x" "ctx_get (emit_status a b e f g h x) s k d = ctx_get x s k d"
  by (simp_all add: emit_status_def ctx_get_def ctx_get_namespace_def)

lemma announced_fields:
  "announce_calls v c = Inr c' \<Longrightarrow> ctx_billing c' = ctx_billing c \<and> ctx_get c' s k d = ctx_get c s k d"
  by (auto simp: announce_calls_def bindR_Inr Let_def emitted_fields split: if_splits)

text \<open>C14: when the step transforms a response, the tokens it books are the usage of the response it leaves for the
  client, and that response carries the trace id of the request and the model the user asked for.
\<close>
theorem transform_books_delivered_usage:
  assumes "transform_body env c = (Inr (), c')" and "response = ctx_get c' ''response_transform'' ''response'' PNone"
  shows "extract_usage response = Inr \<lparr>uc_prompt = bi_input_tokens (ctx_billing c'), uc_completion = bi_output_tokens (ctx_billing c'),
      uc_total = bi_total_tokens (ctx_billing c')\<rparr>
    \<and> (a_dict response \<longrightarrow> dget (as_dict response) ''trace_id'' = Some (PStr (ctx_trace_id c))
        \<and> (str_truthy (ctx_requested_model c) \<longrightarrow> dget (as_dict response) ''model'' = Some (PStr (the (ctx_requested_model c)))))"
proof -
  obtain v sh u w where v: "transformed_response env c = Inr (v, sh)" and u: "extract_usage v = Inr u"
    and w: "with_blocks (te_dumps env) (labelled c v) = Inr w"
    and a: "announce_calls w (share sh w (ctx_set ''response_transform'' ''response'' w
        (share sh (labelled c v) (ctx_set ''response_transform'' ''response'' (labelled c v) (book_usage u c))))) = Inr c'"
    using assms(1) by (auto simp: transform_body_def Let_def split: sum.splits prod.splits)
  have response: "response = w" and billing: "ctx_billing c' = ctx_billing (book_usage u c)"
    using announced_fields [OF a] by (simp_all add: assms(2))
  have "u = \<lparr>uc_prompt = bi_input_tokens (ctx_billing c'), uc_completion = bi_output_tokens (ctx_billing c'), uc_total = bi_total_tokens (ctx_billing c')\<rparr>"
    by (simp add: billing book_usage_def Let_def)
  moreover have "dget (as_dict w) ''trace_id'' = Some (PStr (ctx_trace_id c))
      \<and> (str_truthy (ctx_requested_model c) \<longrightarrow> dget (as_dict w) ''model'' = Some (PStr (the (ctx_requested_model c))))" if "a_dict w"
  proof -
    have "a_dict (labelled c v)" using that same_usage_blocks [OF w] by (simp add: same_usage_def)
    then obtain d where d: "v = PDict d" by (cases v) (simp_all add: labelled_def)
    have keep: "dget (as_dict w) k = dget (as_dict (labelled c v)) k" if "k \<noteq> ''choices''" for k
      using with_blocks_cases [OF w] with_message_get that by metis
    show ?thesis by (simp add: keep d labelled_def Let_def)
  qed
  ultimately show ?thesis using delivered_usage [OF u w] response by simp
qed

definition plain_transform :: transform_env where
  "plain_transform = \<lparr>te_dumps = (\<lambda>_. ''{}''), te_fmt = (\<lambda>_. []), te_jinja = (\<lambda>_ v. Inr v)\<rparr>"

definition answered_context :: workflow_context where
  "answered_context =
     ctx_set ''upstream_call'' ''response'' (PDict [(''usage'', PDict [(''input_tokens'', PInt 12), (''output_tokens'', PInt 5)])])
       ((new_context ''t'' INTERNAL [])\<lparr>ctx_requested_model := Some ''my-model''\<rparr>)"

text \<open>C14 at a reply that counts input and output only.\<close>
theorem transform_books_delivered_usage_witness:
  "\<exists>c'. transform_body plain_transform answered_context = (Inr (), c') \<and> bi_total_tokens (ctx_billing c') = 17
     \<and> extract_usage (ctx_get c' ''response_transform'' ''response'' PNone) = Inr \<lparr>uc_prompt = 12, uc_completion = 5, uc_total = 17\<rparr>"
proof -
  let ?b = "ctx_billing (snd (transform_body plain_transform answered_context))"
  have ok: "fst (transform_body plain_transform answered_context) = Inr ()" by code_simp
  have "bi_input_tokens ?b = 12" "bi_output_tokens ?b = 5" "bi_total_tokens ?b = 17" by code_simp+
  moreover from ok have run: "transform_body plain_transform answered_context = (Inr (), snd (transform_body plain_transform answered_context))"
    by (simp add: prod_eq_iff)
  moreover from transform_books_delivered_usage [OF run refl]
  have "extract_usage (ctx_get (snd (transform_body plain_transform answered_context)) ''response_transform'' ''response'' PNone)
      = Inr \<lparr>uc_prompt = bi_input_tokens ?b, uc_completion = bi_output_tokens ?b, uc_total = bi_total_tokens ?b\<rparr>" by (elim conjE)
  ultimately show ?thesis by metis
qed

text \<open>A response that cannot be decoded is delivered as it came, as a success, and nothing is booked.\<close>

lemma undecodable_response_unbilled:
  assumes "transformed_response env c = Inl e" and "a_dict (profile_section c ''request'')" and "a_dict (profile_section c ''response'')"
    and "\<not> truthy (ctx_get c ''upstream_call'' ''stream'' (PBool False))" and "ctx_get c ''upstream_call'' ''response'' PNone = v" and "v \<noteq> PNone"
  shows "\<exists>r c'. response_transform_execute env c = (Inr r, c') \<and> sr_status r = SUCCESS \<and> ctx_billing c' = ctx_billing c
    \<and> ctx_get c' ''response_transform'' ''response'' PNone = v"
  using assms by (simp add: response_transform_execute_def transform_body_def new_step_result_def)

text \<open>The two readings of an Anthropic reply: only the older one translates the reasons and renders the arguments as text.\<close>

lemma adapted_forms:
  "map_sum id (\<lambda>d. case py_get d ''choices'' PNone of PList [PDict ch] \<Rightarrow> py_get ch ''finish_reason'' PNone | _ \<Rightarrow> PNone)
     (adapt_anthropic (\<lambda>_. ''{}'') [(''content'', PList []), (''stop_reason'', PStr ''end_turn''), (''usage'', PDict [])]) = Inr (PStr ''stop'')"
  "map_sum id cp_finish (decode_anthropic_messages fmt [(''content'', PList []), (''stop_reason'', PStr ''end_turn''), (''usage'', PDict [])])
     = Inr (Some ''end_turn'')"
   by (simp_all add: adapt_anthropic_def decode_anthropic_messages_def py_get_def py_or_def finish_map_def completion_choice_def dicts_or_none_def
      anthropic_usage_def usage_int_def Let_def)

end
