(* ===== verification/Request_Adapter.thy ===== *)
theory Request_Adapter
  imports Protocol_Messages Stream_Accumulator Base_Step
begin

section \<open>The adaptation of requests\<close>

text \<open>
  \<open>RequestAdapterStep\<close> of src/app/services/workflow/steps/request_adapter.py and the adapters of
  src/app/services/adapters/chat.py. What the step writes to the namespaces, a parsed chat request and its canonical
  form, is returned beside the context. \<open>av_shown\<close> is \<open>str(v)\<close> of a parsed block; a body of another form is parsed by
  the arguments \<open>av_chat\<close>, \<open>av_anthropic\<close> and \<open>av_responses\<close>.
\<close>

datatype raw_request =
    ChatRaw chat_request
  | AnthropicRaw simple_request "anthropic_message list"
  | ResponsesRaw simple_request pyval
  | BodyRaw pyval

record adapter_env =
  av_fmt :: "pyval \<Rightarrow> string"
  av_shown :: "pyval \<Rightarrow> string"
  av_chat :: "raw_request \<Rightarrow> exn + chat_request"
  av_anthropic :: "raw_request \<Rightarrow> exn + simple_request \<times> anthropic_message list"
  av_responses :: "raw_request \<Rightarrow> exn + simple_request \<times> pyval"

definition bare_message :: "string \<Rightarrow> pyval \<Rightarrow> chat_message" where
  "bare_message role content = \<lparr>gm_role = role, gm_content = content, gm_reasoning = None, gm_tool_calls = None, gm_tool_call_id = None\<rparr>"

definition chat_of_simple :: "simple_request \<Rightarrow> chat_message list \<Rightarrow> chat_request" where
  "chat_of_simple r ms =
     \<lparr>gr_model = sq_model r,
      gr_messages = (if str_truthy (sq_system r) then [bare_message ''system'' (PStr (the (sq_system r)))] else []) @ ms,
      gr_stream = sq_stream r, gr_temperature = sq_temperature r, gr_max_tokens = sq_max_tokens r, gr_request_id = None,
      gr_provider_model = None, gr_assistant = None, gr_session = None, gr_regenerate = False, gr_tools = [], gr_tool_choice = PNone,
      gr_output_format = PNone, gr_metadata = []\<rparr>"

text \<open>The blocks of a parsed message are objects, never dictionaries: each is shown as the text of the object.\<close>

definition shown_element :: "adapter_env \<Rightarrow> pyval \<Rightarrow> string" where
  "shown_element env v = (case v of PStr s \<Rightarrow> s | _ \<Rightarrow> av_shown env v)"

definition flat_content :: "adapter_env \<Rightarrow> pyval \<Rightarrow> pyval" where
  "flat_content env v = (case v of PList xs \<Rightarrow> PStr (str_join [CHR 0x0A] (map (shown_element env) xs)) | _ \<Rightarrow> v)"

definition adapt_anthropic_messages :: "adapter_env \<Rightarrow> raw_request \<Rightarrow> exn + chat_request" where
  "adapt_anthropic_messages env raw =
     bindR (case raw of AnthropicRaw r ms \<Rightarrow> Inr (r, ms) | _ \<Rightarrow> av_anthropic env raw) (\<lambda>(r, ms).
       Inr (chat_of_simple r (map (\<lambda>m. bare_message (am_role m) (flat_content env (am_content m))) ms)))"

definition adapt_responses_request :: "adapter_env \<Rightarrow> raw_request \<Rightarrow> exn + chat_request" where
  "adapt_responses_request env raw =
     bindR (case raw of ResponsesRaw r p \<Rightarrow> Inr (r, p) | _ \<Rightarrow> av_responses env raw) (\<lambda>(r, p).
       Inr (chat_of_simple r [bare_message ''user''
         (case p of PList xs \<Rightarrow> PStr (str_join [CHR 0x0A] (map (py_text (av_fmt env)) xs)) | PDict d \<Rightarrow> PStr (av_fmt env (PDict d)) | _ \<Rightarrow> p)]))"

definition unsupported :: "string \<Rightarrow> exn" where
  "unsupported vendor = OtherError ''RequestAdapterError'' (''Unsupported vendor: '' @ vendor)"

definition adapt_request :: "adapter_env \<Rightarrow> string \<Rightarrow> raw_request \<Rightarrow> exn + chat_request" where
  "adapt_request env vendor raw =
     (case raw of
        ChatRaw r \<Rightarrow> Inr r
      | _ \<Rightarrow>
          if vendor = ''openai'' \<or> vendor = ''chat'' then av_chat env raw
          else if vendor = ''anthropic'' \<or> vendor = ''messages'' then adapt_anthropic_messages env raw
          else if vendor = ''responses'' \<or> vendor = ''response'' then adapt_responses_request env raw
          else Inl (unsupported vendor))"

text \<open>The canonical forms accept their own request or a dictionary; any other object cannot be spread into arguments.\<close>

definition adapt_canonical_request :: "adapter_env \<Rightarrow> string \<Rightarrow> raw_request \<Rightarrow> exn + canonical_request" where
  "adapt_canonical_request env vendor raw =
     (let body = (case raw of BodyRaw v \<Rightarrow> True | _ \<Rightarrow> False)
      in if vendor = ''openai'' \<or> vendor = ''chat'' then
           bindR (case raw of ChatRaw r \<Rightarrow> Inr r | _ \<Rightarrow> if body then av_chat env raw else Inl type_error) (to_canonical_chat_request (av_fmt env))
         else if vendor = ''anthropic'' \<or> vendor = ''messages'' then
           bindR (case raw of AnthropicRaw r ms \<Rightarrow> Inr (r, ms) | _ \<Rightarrow> if body then av_anthropic env raw else Inl type_error)
             (\<lambda>(r, ms). Inr (to_canonical_anthropic_request (av_fmt env) r ms))
         else if vendor = ''responses'' \<or> vendor = ''response'' then
           bindR (case raw of ResponsesRaw r p \<Rightarrow> Inr (r, p) | _ \<Rightarrow> if body then av_responses env raw else Inl type_error)
             (\<lambda>(r, p). Inr (to_canonical_responses_request (av_fmt env) r p))
         else Inl (unsupported vendor))"

definition adaptation_failure :: "exn \<Rightarrow> step_result" where
  "adaptation_failure e =
     (new_step_result FAILED)\<lparr>sr_message := Some (case e of
        OtherError n m \<Rightarrow> if n = ''RequestAdapterError'' then m else ''Request adaptation error''
      | _ \<Rightarrow> ''Request adaptation error'')\<rparr>"

definition request_adapter_execute ::
  "adapter_env \<Rightarrow> raw_request option \<Rightarrow> workflow_context \<Rightarrow> step_result \<times> (chat_request \<times> canonical_request) option \<times> workflow_context" where
  "request_adapter_execute env raw c =
     (if str_lower (opt_text (ctx_capability c)) \<noteq> ''chat'' then (new_step_result SUCCESS, None, c)
      else
        let vendor = str_lower (opt_text (string_of (py_or (ctx_get c ''adapter'' ''vendor'' PNone) (PStr ''openai''))))
        in case raw of
             None \<Rightarrow> ((new_step_result FAILED)\<lparr>sr_message := Some ''No request to adapt''\<rparr>, None, c)
           | Some r \<Rightarrow>
               (case bindR (adapt_request env vendor r) (\<lambda>a. bindR (adapt_canonical_request env vendor r) (\<lambda>q. Inr (a, q))) of
                  Inl e \<Rightarrow> (adaptation_failure e, None, c)
                | Inr (a, q) \<Rightarrow>
                    ((new_step_result SUCCESS)\<lparr>sr_data := Some [(''vendor'', PStr vendor), (''model'', PStr (gr_model a))]\<rparr>,
                     Some (a, q), c\<lparr>ctx_requested_model := Some (gr_model a)\<rparr>)))"

subsection \<open>The two forms agree\<close>

text \<open>The text the two forms of a request hold for a message.\<close>

fun content_text :: "content \<Rightarrow> string option" where
  "content_text (TextContent s) = Some s"
| "content_text _ = None"

lemma chat_texts_kept:
  assumes "mapR canonical_chat_message ms = Inr qs" and "\<forall>m \<in> set ms. a_str (gm_content m)"
  shows "map (\<lambda>q. (ms_role q, content_text (ms_content q))) qs = map (\<lambda>m. (gm_role m, string_of (gm_content m))) ms"
  using assms
proof (induction ms arbitrary: qs)
  case (Cons m ms)
  then show ?case by (cases "gm_content m") (auto simp: bindR_Inr canonical_chat_message_def)
qed simp

text \<open>An accepted request gives two forms with the same model, which the context keeps too, stream flag, temperature and limit.\<close>

lemma adapted_forms_agree:
  assumes "request_adapter_execute env (Some raw) c = (r, Some (a, q), c')" and "\<And>v. raw \<noteq> BodyRaw v"
  shows "ctx_requested_model c' = Some (gr_model a) \<and> cq_model q = gr_model a \<and> cq_stream q = gr_stream a
    \<and> cq_temperature q = gr_temperature a \<and> cq_max_output q = gr_max_tokens a"
proof -
  define vendor where "vendor = str_lower (opt_text (string_of (py_or (ctx_get c ''adapter'' ''vendor'' PNone) (PStr ''openai''))))"
  have a: "adapt_request env vendor raw = Inr a" and q: "adapt_canonical_request env vendor raw = Inr q"
    and c': "ctx_requested_model c' = Some (gr_model a)"
    using assms by (auto simp: request_adapter_execute_def vendor_def [symmetric] Let_def bindR_Inr split: if_splits sum.splits)
  show ?thesis
  proof (cases raw)
    case (ChatRaw x)
    have "a = x" using a unfolding ChatRaw by (simp add: adapt_request_def)
    moreover have "to_canonical_chat_request (av_fmt env) x = Inr q"
      using q unfolding ChatRaw adapt_canonical_request_def Let_def by (simp split: if_splits)
    then have "cq_model q = gr_model x \<and> cq_stream q = gr_stream x \<and> cq_temperature q = gr_temperature x \<and> cq_max_output q = gr_max_tokens x"
      unfolding to_canonical_chat_request_def bindR_Inr by (auto simp: plain_request_def)
    ultimately show ?thesis using c' by simp
  next
    case (AnthropicRaw x ms)
    have vendor: "vendor = ''anthropic'' \<or> vendor = ''messages''" and form: "q = to_canonical_anthropic_request (av_fmt env) x ms"
      using q unfolding AnthropicRaw adapt_canonical_request_def Let_def by (simp_all split: if_splits)
    then have "\<exists>ms'. a = chat_of_simple x ms'"
      using a unfolding AnthropicRaw by (auto simp: adapt_request_def adapt_anthropic_messages_def)
    then show ?thesis using c' by (auto simp: form to_canonical_anthropic_request_def chat_of_simple_def plain_request_def)
  next
    case (ResponsesRaw x p)
    have vendor: "vendor = ''responses'' \<or> vendor = ''response''" and form: "q = to_canonical_responses_request (av_fmt env) x p"
      using q unfolding ResponsesRaw adapt_canonical_request_def Let_def by (simp_all split: if_splits)
    then have "\<exists>ms'. a = chat_of_simple x ms'"
      using a unfolding ResponsesRaw by (auto simp: adapt_request_def adapt_responses_request_def)
    then show ?thesis using c' by (auto simp: form to_canonical_responses_request_def chat_of_simple_def plain_request_def)
  qed (use assms(2) in simp)
qed

text \<open>A block of text sent to the Anthropic entry point reaches the conversation as the text of its object, whatever it says.\<close>

lemma anthropic_block_shown:
  "map_sum id (\<lambda>a. map gm_content (gr_messages a))
     (adapt_anthropic_messages env (AnthropicRaw (r\<lparr>sq_system := None\<rparr>) [\<lparr>am_role = ''user'', am_content = PList [PDict d]\<rparr>]))
   = Inr [PStr (av_shown env (PDict d))]"
  by (simp add: adapt_anthropic_messages_def chat_of_simple_def bare_message_def flat_content_def shown_element_def)

end
