(* ===== verification/Provider_Models.thy ===== *)
theory Provider_Models
  imports Protocol_Runtime
begin

section \<open>Provider instances and models\<close>

text \<open>
  The tables behind the routing: instances, models, credentials, presets and the models users have bought, and
  the queries of src/app/repositories/provider_instance_repository.py, provider_credential_repository.py,
  provider_model_entitlement_repository.py and provider_preset_repository.py, with the capability names of
  src/app/constants/model_capability_map.py. The queries are what the loaders read from the tables; the cache in front
  of them hands out an older result of the same query. Rows come in the order of the tables, since no query sorts.
\<close>

subsection \<open>Capability names\<close>

definition canonical_capabilities :: "string list" where
  "canonical_capabilities = [''chat'', ''embedding'', ''image_generation'', ''text_to_speech'', ''speech_to_text'', ''video_generation'']"

definition capability_aliases :: "(string, string) dict" where
  "capability_aliases =
     [(''chat'', ''chat''), (''chat_completion'', ''chat''), (''chat_completions'', ''chat''), (''text_generation'', ''chat''), (''text'', ''chat''),
      (''reasoning'', ''chat''), (''code'', ''chat''), (''vision'', ''chat''),
      (''embedding'', ''embedding''), (''embeddings'', ''embedding''), (''vector'', ''embedding''),
      (''image_generation'', ''image_generation''), (''image'', ''image_generation''), (''image_gen'', ''image_generation''),
      (''text_to_image'', ''image_generation''),
      (''text_to_speech'', ''text_to_speech''), (''tts'', ''text_to_speech''), (''speech'', ''text_to_speech''),
      (''speech_to_text'', ''speech_to_text''), (''stt'', ''speech_to_text''), (''audio'', ''speech_to_text''),
      (''audio_to_text'', ''speech_to_text''), (''transcription'', ''speech_to_text''),
      (''video_generation'', ''video_generation''), (''video'', ''video_generation''), (''video_gen'', ''video_generation''),
      (''text_to_video'', ''video_generation''), (''t2v'', ''video_generation'')]"

definition char_swap :: "char \<Rightarrow> char \<Rightarrow> string \<Rightarrow> string" where
  "char_swap a b s = map (\<lambda>c. if c = a then b else c) s"

definition normalize_token :: "string option \<Rightarrow> string" where
  "normalize_token v =
     (case v of None \<Rightarrow> [] | Some s \<Rightarrow> char_swap (CHR '' '') (CHR ''_'') (char_swap (CHR ''-'') (CHR ''_'') (str_lower (str_strip s))))"

definition normalize_capability :: "string option \<Rightarrow> string option" where
  "normalize_capability c =
     (let token = normalize_token c
      in if token = [] then None else Some (case dget capability_aliases token of Some canonical \<Rightarrow> canonical | None \<Rightarrow> token))"

definition append_new :: "'a \<Rightarrow> 'a list \<Rightarrow> 'a list" where
  "append_new x xs = (if x \<in> set xs then xs else xs @ [x])"

definition normalize_capabilities :: "string list \<Rightarrow> string option \<Rightarrow> string list" where
  "normalize_capabilities caps dflt =
     (let found = fold (\<lambda>c acc. case normalize_capability (Some c) of Some n \<Rightarrow> append_new n acc | None \<Rightarrow> acc) caps []
      in if found \<noteq> [] then found
         else case (if str_truthy dflt then normalize_capability dflt else None) of Some n \<Rightarrow> [n] | None \<Rightarrow> [])"

text \<open>The aliases of a name, in the order the table of expansions is built.\<close>

definition aliases_of :: "string \<Rightarrow> string list" where
  "aliases_of canonical = map fst (filter (\<lambda>(a, c). c = canonical \<and> a \<noteq> canonical) capability_aliases)"

definition kebab :: "string \<Rightarrow> string" where
  "kebab s = char_swap (CHR ''_'') (CHR ''-'') s"

definition expand_capabilities :: "string option \<Rightarrow> string list" where
  "expand_capabilities c =
     (case normalize_capability c of
        None \<Rightarrow> []
      | Some canonical \<Rightarrow>
          let ks = fold (\<lambda>a acc. append_new (kebab a) (append_new a acc)) (aliases_of canonical) [canonical];
              named = append_new (kebab canonical) ks; raw = str_lower (str_strip (opt_text c))
          in if raw = [] then named else append_new raw named)"

definition prefix_rules :: "(string \<times> string) list" where
  "prefix_rules =
     [(''text-embedding'', ''embedding''), (''embedding'', ''embedding''), (''ada-embedding'', ''embedding''), (''whisper'', ''speech_to_text''),
      (''tts-'', ''text_to_speech''), (''gpt-image'', ''image_generation''), (''dall-e'', ''image_generation''), (''sd'', ''image_generation''),
      (''flux'', ''image_generation''), (''glm-image'', ''image_generation''), (''qwen-image'', ''image_generation''),
      (''doubao-seedance'', ''video_generation''), (''doubao-video'', ''video_generation''), (''kling'', ''video_generation''),
      (''cogvideox'', ''video_generation''), (''wan-x'', ''video_generation''), (''gen-'', ''video_generation''), (''claude'', ''chat'')]"

text \<open>The alternatives of the expressions searched for, an optional separator written out.\<close>

definition search_rules :: "(string list \<times> string) list" where
  "search_rules =
     [([''embed''], ''embedding''), ([''whisper'', ''transcrib'', ''stt'', ''speech-to-text''], ''speech_to_text''),
      ([''tts'', ''text-to-speech''], ''text_to_speech''),
      ([''dalle'', ''dall-e'', ''dall_e'', ''sdx'', ''flux'', ''image'', ''img'', ''pixart'', ''kolors'', ''kandinsky''], ''image_generation''),
      ([''seedance'', ''videogen'', ''video-gen'', ''video_gen'', ''runway'', ''kling'', ''cogvideo'', ''wanx'', ''wan-x'', ''wan_x'',
        ''hunyuanvideo'', ''hunyuan-video'', ''hunyuan_video''], ''video_generation'')]"

definition guess_capabilities :: "string \<Rightarrow> string list" where
  "guess_capabilities model_id =
     (let mid = str_lower model_id
      in case filter (\<lambda>(p, c). starts_with mid p) prefix_rules of
           (p, c) # _ \<Rightarrow> [c]
         | [] \<Rightarrow> (case filter (\<lambda>(ws, c). list_ex (str_contains mid) ws) search_rules of (ws, c) # _ \<Rightarrow> [c] | [] \<Rightarrow> [''chat'']))"

definition primary_capability :: "string list \<Rightarrow> string" where
  "primary_capability caps = (case caps of c # _ \<Rightarrow> c | [] \<Rightarrow> ''chat'')"

subsection \<open>Tables\<close>

record instance_row =
  in_id :: string
  in_slug :: string
  in_owner :: "string option"
  in_enabled :: bool
  in_public :: bool
  in_base_url :: string
  in_credentials_ref :: string
  in_meta :: "(string, pyval) dict"

record model_row =
  md_id :: string
  md_instance :: string
  md_model :: string
  md_unified :: "string option"
  md_active :: bool
  md_capabilities :: "string list"
  md_path :: string
  md_pricing :: "(string, pyval) dict"
  md_limits :: "(string, pyval) dict"
  md_routing :: "(string, pyval) dict"
  md_override :: "(string, pyval) dict"
  md_weight :: int
  md_priority :: int

record credential_row =
  cr_id :: string
  cr_instance :: string
  cr_alias :: string
  cr_secret :: string
  cr_weight :: int
  cr_priority :: int
  cr_active :: bool

record preset_row =
  ps_id :: string
  ps_slug :: string
  ps_provider :: string
  ps_active :: bool
  ps_auth_type :: string
  ps_auth_config :: "(string, pyval) dict"
  ps_profiles :: pyval

text \<open>An entitlement is a user and the model the user has bought.\<close>

record provider_tables =
  pt_instances :: "instance_row list"
  pt_models :: "model_row list"
  pt_credentials :: "credential_row list"
  pt_presets :: "preset_row list"
  pt_entitlements :: "(string \<times> string) list"

subsection \<open>Queries\<close>

definition is_hex :: "char \<Rightarrow> bool" where
  "is_hex c = (is_digit c \<or> c \<in> set ''abcdefABCDEF'')"

text \<open>
  \<open>str(uuid.UUID(s))\<close>, None where it raises: hyphens, braces and a prefix do not matter. Signs, underscores and blanks
  among the 32 digits, which \<open>int\<close> would read, are not told apart from other errors.
\<close>

definition strip_chars :: "char list \<Rightarrow> string \<Rightarrow> string" where
  "strip_chars cs s = rev (dropWhile (\<lambda>c. c \<in> set cs) (rev (dropWhile (\<lambda>c. c \<in> set cs) s)))"

definition drop_prefix :: "string \<Rightarrow> string \<Rightarrow> string" where
  "drop_prefix p s = (if starts_with s p then drop (length p) s else s)"

definition uuid_of :: "string \<Rightarrow> string option" where
  "uuid_of s =
     (let h = filter (\<lambda>c. c \<noteq> CHR ''-'') (strip_chars ''{}'' (drop_prefix ''uuid:'' (drop_prefix ''urn:'' s)))
      in if length h = 32 \<and> list_all is_hex h
         then Some (str_lower (take 8 h @ ''-'' @ take 4 (drop 8 h) @ ''-'' @ take 4 (drop 12 h) @ ''-'' @ take 4 (drop 16 h) @ ''-'' @ drop 20 h))
         else None)"

definition user_uuid :: "string option \<Rightarrow> string option" where
  "user_uuid user = (case user of Some u \<Rightarrow> uuid_of u | None \<Rightarrow> None)"

definition public_instance :: "instance_row \<Rightarrow> bool" where
  "public_instance i = (in_public i \<or> in_owner i = None)"

definition instance_visible :: "string option \<Rightarrow> bool \<Rightarrow> instance_row \<Rightarrow> bool" where
  "instance_visible user public i =
     (user = None \<or> in_owner i = user_uuid user \<or> public \<and> public_instance i)"

definition get_available_instances :: "provider_tables \<Rightarrow> string option \<Rightarrow> bool \<Rightarrow> instance_row list" where
  "get_available_instances t user public =
     (if user = None \<and> \<not> public then []
      else filter (\<lambda>i. in_enabled i \<and> instance_visible user public i) (pt_instances t))"

definition find_instance :: "provider_tables \<Rightarrow> string \<Rightarrow> instance_row option" where
  "find_instance t iid = find (\<lambda>i. in_id i = iid) (pt_instances t)"

definition owner_of :: "provider_tables \<Rightarrow> string \<Rightarrow> string option" where
  "owner_of t iid = (case find_instance t iid of Some i \<Rightarrow> in_owner i | None \<Rightarrow> None)"

definition has_entitlement :: "provider_tables \<Rightarrow> string \<Rightarrow> string \<Rightarrow> bool" where
  "has_entitlement t user model = ((user, model) \<in> set (pt_entitlements t))"

text \<open>Whether the user has still to buy the model; reading the price may raise.\<close>

definition purchase_due :: "provider_tables \<Rightarrow> string option \<Rightarrow> model_row \<Rightarrow> exn + bool" where
  "purchase_due t user m =
     bindR (parse_unlock_price_credits (md_pricing m)) (\<lambda>price.
       Inr (requires_model_purchase (owner_of t (md_instance m)) user price))"

fun unlocked_models :: "provider_tables \<Rightarrow> string \<Rightarrow> model_row list \<Rightarrow> exn + model_row list" where
  "unlocked_models t user [] = Inr []"
| "unlocked_models t user (m # ms) =
     bindR (purchase_due t (Some user) m) (\<lambda>due. bindR (unlocked_models t user ms) (\<lambda>rest.
       Inr (if due \<and> \<not> has_entitlement t user (md_id m) then rest else m # rest)))"

definition capability_matches :: "bool \<Rightarrow> string list \<Rightarrow> string list \<Rightarrow> bool" where
  "capability_matches postgres wanted caps =
     (if postgres then list_ex (\<lambda>w. w \<in> set caps) wanted
      else list_ex (\<lambda>c. list_ex (\<lambda>e. e \<in> set wanted) (expand_capabilities (Some c))) caps)"

definition matching_models :: "bool \<Rightarrow> provider_tables \<Rightarrow> string list \<Rightarrow> string \<Rightarrow> string option \<Rightarrow> bool \<Rightarrow> model_row list" where
  "matching_models postgres t wanted model user public =
     filter (\<lambda>m. (md_model m = model \<or> md_unified m = Some model) \<and> md_active m
         \<and> (case find_instance t (md_instance m) of None \<Rightarrow> False | Some i \<Rightarrow> in_enabled i \<and> instance_visible user public i)
         \<and> capability_matches postgres wanted (md_capabilities m)) (pt_models t)"

definition get_candidates :: "bool \<Rightarrow> provider_tables \<Rightarrow> string \<Rightarrow> string \<Rightarrow> string option \<Rightarrow> bool \<Rightarrow> exn + model_row list" where
  "get_candidates postgres t capability model user public =
     (let wanted = expand_capabilities (Some capability); ms = matching_models postgres t wanted model user public
      in if user = None \<and> \<not> public then Inr []
         else if wanted = [] then Inr []
         else case user_uuid user of None \<Rightarrow> Inr ms | Some u \<Rightarrow> unlocked_models t u ms)"

definition active_credentials :: "provider_tables \<Rightarrow> string \<Rightarrow> credential_row list" where
  "active_credentials t iid =
     (if uuid_of iid = None then [] else filter (\<lambda>c. uuid_of iid = Some (cr_instance c) \<and> cr_active c) (pt_credentials t))"

definition get_by_slug :: "provider_tables \<Rightarrow> string \<Rightarrow> preset_row option" where
  "get_by_slug t slug = find (\<lambda>p. ps_slug p = slug) (pt_presets t)"

end
