(* ===== verification/Routing_Candidates.thy ===== *)
theory Routing_Candidates
  imports Provider_Models Routing_Choice
begin

section \<open>The candidates of a request\<close>

text \<open>
  \<open>RoutingSelector.load_candidates\<close> and \<open>load_candidates_by_provider_model_id\<close> of
  src/app/services/providers/routing_selector.py: from the tables to the candidates, one for each model and credential
  that the user may use. Arguments are the validation and the dump of a profile (\<open>ro_parse\<close>, \<open>ro_dump\<close>), the path of an
  address (\<open>ro_url_path\<close>), \<open>str(v)\<close> (\<open>ro_shown\<close>) and whether the database is PostgreSQL.
\<close>

record route_env =
  ro_parse :: "(string, pyval) dict \<Rightarrow> exn + profile"
  ro_dump :: "profile \<Rightarrow> pyval"
  ro_url_path :: "string \<Rightarrow> string option"
  ro_shown :: "pyval \<Rightarrow> string"
  ro_postgres :: bool

subsection \<open>Credentials\<close>

record key_entry =
  ke_id :: "string option"
  ke_alias :: string
  ke_secret :: string
  ke_weight :: int
  ke_priority :: int

text \<open>The reference of the instance: an alias stands for the secret of the credential with that name.\<close>

definition resolve_ref :: "credential_row list \<Rightarrow> string \<Rightarrow> string" where
  "resolve_ref creds ref =
     (if ref \<noteq> [] \<and> \<not> starts_with ref ''db:''
      then (case find (\<lambda>c. cr_alias c = ref) creds of Some c \<Rightarrow> cr_secret c | None \<Rightarrow> ref) else ref)"

definition key_entries :: "credential_row list \<Rightarrow> string \<Rightarrow> key_entry list" where
  "key_entries creds ref =
     map (\<lambda>c. \<lparr>ke_id = Some (cr_id c), ke_alias = cr_alias c, ke_secret = cr_secret c, ke_weight = cr_weight c, ke_priority = cr_priority c\<rparr>) creds
     @ (if resolve_ref creds ref = [] then []
        else [\<lparr>ke_id = None, ke_alias = ''default'', ke_secret = resolve_ref creds ref, ke_weight = 0, ke_priority = 0\<rparr>])"

definition instance_keys :: "provider_tables \<Rightarrow> instance_row \<Rightarrow> key_entry list" where
  "instance_keys t i = key_entries (active_credentials t (in_id i)) (in_credentials_ref i)"

subsection \<open>One model\<close>

text \<open>\<open>c.get(k) or c.get(k') or d\<close>, and what needs a text or a dictionary.\<close>

definition either :: "(string, pyval) dict \<Rightarrow> string \<Rightarrow> string \<Rightarrow> pyval \<Rightarrow> pyval" where
  "either c k k' d = py_or (py_get c k PNone) (py_or (py_get c k' PNone) d)"

definition a_text :: "pyval \<Rightarrow> exn + string" where
  "a_text v = (case v of PStr s \<Rightarrow> Inr s | _ \<Rightarrow> Inl no_attribute)"

definition a_mapping :: "pyval \<Rightarrow> exn + (string, pyval) dict" where
  "a_mapping v = (case v of PDict d \<Rightarrow> Inr d | _ \<Rightarrow> Inl no_attribute)"

definition overridden :: "model_row \<Rightarrow> (string, pyval) dict \<Rightarrow> (string, pyval) dict" where
  "overridden m cfg =
     (if py_get (md_routing m) ''allow_template_override'' PNone = PBool True \<and> md_override m \<noteq> []
      then deep_merge cfg (md_override m) else cfg)"

definition wire_protocol :: "instance_row \<Rightarrow> preset_row \<Rightarrow> pyval" where
  "wire_protocol i p = py_or (py_get (in_meta i) ''protocol'' PNone) (PStr (ps_provider p))"

definition append_v1 :: "instance_row \<Rightarrow> bool option" where
  "append_v1 i = (let v = py_get (in_meta i) ''auto_append_v1'' PNone in if v = PNone then None else Some (truthy v))"

definition profile_args_of ::
  "preset_row \<Rightarrow> model_row \<Rightarrow> string \<Rightarrow> string \<Rightarrow> string \<Rightarrow> (string, pyval) dict \<Rightarrow> (string, pyval) dict \<Rightarrow> (string, pyval) dict \<Rightarrow> profile_args" where
  "profile_args_of p m capability protocol http c headers params =
     \<lparr>pa_provider = ps_provider p, pa_capability = capability, pa_protocol = Some protocol, pa_path = md_path m, pa_method = http,
      pa_engine = (case py_or (py_get c ''template_engine'' PNone) (PStr ''simple_replace'') of PStr e \<Rightarrow> e | _ \<Rightarrow> []),
      pa_template = either c ''request_template'' ''body_template'' PNone,
      pa_response = as_dict (either c ''response_transform'' ''response_template'' (PDict [])),
      pa_mapping = as_dict (py_or (py_get c ''output_mapping'' PNone) (PDict [])),
      pa_builder = as_dict (py_or (py_get c ''request_builder'' PNone) (PDict [])),
      pa_headers = headers, pa_params = params, pa_async = either c ''async_config'' ''async_flow'' (PDict [])\<rparr>"

definition candidate_of ::
  "route_env \<Rightarrow> string \<Rightarrow> instance_row \<Rightarrow> preset_row \<Rightarrow> model_row \<Rightarrow> (string, pyval) dict \<Rightarrow> profile \<Rightarrow> string \<Rightarrow> string \<Rightarrow> (string, pyval) dict \<Rightarrow>
    key_entry \<Rightarrow> candidate" where
  "candidate_of env channel i p m c prof url auth_type auth_config k =
     \<lparr>rc_model = md_id m, rc_provider = ps_provider p, rc_weight = md_weight m + ke_weight k, rc_priority = md_priority m + ke_priority k,
      rc_routing = md_routing m, rc_credential = ke_id k, rc_alias = Some (ke_alias k), rc_state = None,
      rc_rest = [(''preset_id'', PStr (ps_id p)), (''preset_slug'', PStr (in_slug i)), (''instance_id'', PStr (in_id i)),
        (''upstream_url'', PStr url), (''channel'', PStr channel),
        (''async_config'', py_or (py_get (pf_metadata prof) ''async_config'' PNone) (either c ''async_config'' ''async_flow'' (PDict []))),
        (''output_mapping'', py_or (PDict (pf_output_mapping prof)) (py_or (py_get c ''output_mapping'' PNone) (PDict []))),
        (''pricing_config'', PDict (md_pricing m)), (''limit_config'', PDict (md_limits m)), (''auth_type'', PStr auth_type),
        (''auth_config'', PDict (dput ''provider'' (PStr (ps_provider p)) (dput ''secret_ref_id'' (PStr (ke_secret k)) auth_config))),
        (''config_override'', PDict (md_override m)), (''protocol_profile'', ro_dump env prof)]\<rparr>"

definition profile_for ::
  "route_env \<Rightarrow> string \<Rightarrow> instance_row \<Rightarrow> preset_row \<Rightarrow> model_row \<Rightarrow> (string, pyval) dict \<Rightarrow>
    exn + (string \<times> string \<times> (string, pyval) dict \<times> profile)" where
  "profile_for env capability i p m c =
     bindR (a_text (wire_protocol i p)) (\<lambda>protocol.
     bindR (resolve_profile_defaults (ro_parse env) (Some (ps_profiles p)) capability) (\<lambda>(own_headers, own_body).
     bindR (Inr (resolve_auth_for_protocol (ro_shown env) (Some protocol) (Some (ps_provider p)) (Some (ps_auth_type p)) (ps_auth_config p) own_headers))
       (\<lambda>(auth_type, auth_config, headers).
     bindR (a_mapping (either c ''default_headers'' ''headers'' (PDict []))) (\<lambda>more_headers.
     bindR (a_mapping (either c ''default_params'' ''params'' (PDict []))) (\<lambda>more_params.
     bindR (a_text (either c ''http_method'' ''method'' (PStr ''POST''))) (\<lambda>http.
     bindR (build_profile_from_preset (ro_parse env) (Some (ps_profiles p))
         (profile_args_of p m capability protocol http c (deep_merge (map (\<lambda>(k, v). (k, PStr v)) headers) more_headers)
           (deep_merge own_body more_params))) (\<lambda>prof. Inr (protocol, auth_type, auth_config, prof))))))))"

definition model_candidates ::
  "route_env \<Rightarrow> string \<Rightarrow> string \<Rightarrow> instance_row \<Rightarrow> preset_row \<Rightarrow> key_entry list \<Rightarrow> model_row \<Rightarrow> exn + candidate list" where
  "model_candidates env channel capability i p keys m =
     bindR (resolve_effective_config (ro_parse env) (Some (ps_profiles p)) capability) (\<lambda>found.
       case found of
         None \<Rightarrow> Inr []
       | Some cfg \<Rightarrow>
           let c = overridden m cfg
           in if \<not> truthy (either c ''request_template'' ''body_template'' PNone) then Inr []
              else bindR (profile_for env capability i p m c) (\<lambda>(protocol, auth_type, auth_config, prof).
                Inr (map (candidate_of env channel i p m c prof
                    (build_upstream_url (ro_url_path env) (in_base_url i) (md_path m) (Some protocol) (append_v1 i)) auth_type auth_config) keys)))"

subsection \<open>By the name of the model\<close>

definition attach_arms :: "candidate list \<Rightarrow> arm_store \<Rightarrow> candidate list \<times> arm_store" where
  "attach_arms cs arms =
     (if cs = [] then ([], arms)
      else case get_states_map ''router:llm'' (map rc_model cs) arms of
             (states, arms') \<Rightarrow> (map (\<lambda>c. c\<lparr>rc_state := dget states (rc_model c)\<rparr>) cs, arms'))"

definition with_arms :: "exn + candidate list \<Rightarrow> arm_store \<Rightarrow> (exn + candidate list) \<times> arm_store" where
  "with_arms r arms = (case r of Inl e \<Rightarrow> (Inl e, arms) | Inr cs \<Rightarrow> (case attach_arms cs arms of (cs', arms') \<Rightarrow> (Inr cs', arms')))"

definition preset_usable :: "string list \<Rightarrow> preset_row \<Rightarrow> bool" where
  "preset_usable allowed p = (ps_active p \<and> (allowed = [] \<or> ps_provider p \<in> set allowed))"

definition instance_candidates ::
  "route_env \<Rightarrow> provider_tables \<Rightarrow> string \<Rightarrow> string \<Rightarrow> string list \<Rightarrow> model_row list \<Rightarrow> instance_row \<Rightarrow> exn + candidate list" where
  "instance_candidates env t channel capability allowed models i =
     (let ms = filter (\<lambda>m. md_instance m = in_id i) models
      in if ms = [] then Inr []
         else case get_by_slug t (in_slug i) of
                None \<Rightarrow> Inr []
              | Some p \<Rightarrow>
                  if \<not> preset_usable allowed p \<or> instance_keys t i = [] then Inr []
                  else map_sum id concat (mapR (model_candidates env channel capability i p (instance_keys t i)) ms))"

definition load_candidates ::
  "route_env \<Rightarrow> provider_tables \<Rightarrow> string \<Rightarrow> string \<Rightarrow> string \<Rightarrow> string option \<Rightarrow> bool \<Rightarrow> string list \<Rightarrow> arm_store \<Rightarrow>
    (exn + candidate list) \<times> arm_store" where
  "load_candidates env t capability model channel user public allowed arms =
     (let instances = get_available_instances t user public
      in if instances = [] then (Inr [], arms)
         else with_arms (bindR (get_candidates (ro_postgres env) t capability model user public) (\<lambda>models.
                map_sum id concat (mapR (instance_candidates env t channel capability allowed models) instances))) arms)"

subsection \<open>By the id of the model\<close>

definition may_use :: "provider_tables \<Rightarrow> string option \<Rightarrow> bool \<Rightarrow> model_row \<Rightarrow> instance_row \<Rightarrow> exn + bool" where
  "may_use t user public m i =
     (case user of
        None \<Rightarrow> Inr True
      | Some _ \<Rightarrow>
          let u = user_uuid user
          in if u \<noteq> None \<and> in_owner i \<noteq> u \<and> \<not> (public \<and> in_owner i = None) then Inr False
             else bindR (parse_unlock_price_credits (md_pricing m)) (\<lambda>price.
                    Inr (\<not> requires_model_purchase (in_owner i) u price \<or> has_entitlement t (the u) (md_id m))))"

definition load_by_provider_model_id ::
  "route_env \<Rightarrow> provider_tables \<Rightarrow> string \<Rightarrow> string \<Rightarrow> string \<Rightarrow> string option \<Rightarrow> bool \<Rightarrow> string list \<Rightarrow> arm_store \<Rightarrow>
    (exn + candidate list) \<times> arm_store" where
  "load_by_provider_model_id env t model_id capability channel user public allowed arms =
     (case (case uuid_of model_id of None \<Rightarrow> None | Some u \<Rightarrow> find (\<lambda>m. md_id m = u) (pt_models t)) of
        None \<Rightarrow> (Inr [], arms)
      | Some m \<Rightarrow>
          if \<not> md_active m \<or> capability \<notin> set (md_capabilities m) then (Inr [], arms)
          else case find_instance t (md_instance m) of
                 None \<Rightarrow> (Inr [], arms)
               | Some i \<Rightarrow>
                   if \<not> in_enabled i then (Inr [], arms)
                   else with_arms (bindR (may_use t user public m i) (\<lambda>ok.
                     if \<not> ok then Inr []
                     else case get_by_slug t (in_slug i) of
                            None \<Rightarrow> Inr []
                          | Some p \<Rightarrow>
                              if \<not> preset_usable allowed p then Inr []
                              else if instance_keys t i = [] then
                                map_sum id (\<lambda>_. []) (resolve_effective_config (ro_parse env) (Some (ps_profiles p)) capability)
                              else model_candidates env channel capability i p (instance_keys t i) m)) arms)"

subsection \<open>Whose upstreams they are\<close>

lemma model_candidates_facts:
  assumes "model_candidates env channel capability i p keys m = Inr cs" and "c \<in> set cs"
  shows "rc_model c = md_id m" and "rc_provider c = ps_provider p" and "rc_routing c = md_routing m"
    and "py_get (rc_rest c) ''instance_id'' PNone = PStr (in_id i)"
    and "\<exists>k \<in> set keys. py_get (as_dict (py_get (rc_rest c) ''auth_config'' PNone)) ''secret_ref_id'' PNone = PStr (ke_secret k)
      \<and> rc_credential c = ke_id k \<and> rc_priority c = md_priority m + ke_priority k"
proof -
  obtain found where "resolve_effective_config (ro_parse env) (Some (ps_profiles p)) capability = Inr found"
    using assms(1) by (auto simp: model_candidates_def bindR_Inr)
  then obtain cfg prof url kind auth k where k: "k \<in> set keys" and c: "c = candidate_of env channel i p m cfg prof url kind auth k"
    using assms by (cases found) (auto simp: model_candidates_def bindR_Inr Let_def split: if_splits)
  show "rc_model c = md_id m" "rc_provider c = ps_provider p" "rc_routing c = md_routing m"
    "py_get (rc_rest c) ''instance_id'' PNone = PStr (in_id i)"
    by (simp_all add: c candidate_of_def py_get_def)
  have "py_get (as_dict (py_get (rc_rest c) ''auth_config'' PNone)) ''secret_ref_id'' PNone = PStr (ke_secret k)"
    by (simp add: c candidate_of_def py_get_def)
  then show "\<exists>k \<in> set keys. py_get (as_dict (py_get (rc_rest c) ''auth_config'' PNone)) ''secret_ref_id'' PNone = PStr (ke_secret k)
      \<and> rc_credential c = ke_id k \<and> rc_priority c = md_priority m + ke_priority k"
    using k by (auto simp: c candidate_of_def)
qed

lemma with_arms_Inr:
  assumes "fst (with_arms r arms) = Inr cs" and "c \<in> set cs"
  obtains cs0 c0 where "r = Inr cs0" and "c0 \<in> set cs0" and "rc_model c = rc_model c0" and "rc_provider c = rc_provider c0"
    and "rc_rest c = rc_rest c0"
  using assms by (auto simp: with_arms_def attach_arms_def split: sum.splits prod.splits if_splits)

lemma mapR_mem: "mapR f xs = Inr ys \<Longrightarrow> y \<in> set ys \<Longrightarrow> \<exists>x \<in> set xs. f x = Inr y"
  by (induction xs arbitrary: ys) (auto simp: bindR_Inr)

lemma mapR_concat_mem:
  assumes "map_sum id concat (mapR f xs) = Inr zs" and "z \<in> set zs"
  obtains x ys where "x \<in> set xs" and "f x = Inr ys" and "z \<in> set ys"
proof -
  obtain yss where "mapR f xs = Inr yss" "zs = concat yss" using assms(1) by (cases "mapR f xs") auto
  then show ?thesis using assms(2) mapR_mem that by (metis (no_types, lifting) UN_E set_concat)
qed

lemma unlocked_model:
  assumes "unlocked_models t u ms = Inr ms'" and "m \<in> set ms'"
  shows "m \<in> set ms \<and> (\<exists>due. purchase_due t (Some u) m = Inr due \<and> (due \<longrightarrow> has_entitlement t u (md_id m)))"
  using assms by (induction ms arbitrary: ms') (auto simp: bindR_Inr split: if_splits)

lemma find_SomeD: "find P xs = Some x \<Longrightarrow> x \<in> set xs \<and> P x"
  by (auto simp: find_Some_iff)

lemma find_instance_unique:
  assumes "distinct (map in_id (pt_instances t))" and "i \<in> set (pt_instances t)"
  shows "find_instance t (in_id i) = Some i"
proof -
  have "find (\<lambda>j. in_id j = in_id i) is = Some i" if "distinct (map in_id is)" "i \<in> set is" for "is"
    using that by (induction "is") force+
  then show ?thesis using assms by (simp add: find_instance_def)
qed

text \<open>What a user has to be entitled to, for a model of an instance.\<close>

definition paid_for :: "provider_tables \<Rightarrow> string \<Rightarrow> instance_row \<Rightarrow> model_row \<Rightarrow> bool" where
  "paid_for t u i m = (in_owner i = Some u \<or> parse_unlock_price_credits (md_pricing m) = Inr None \<or> has_entitlement t u (md_id m))"

lemma candidate_model_allowed:
  assumes "get_candidates pg t capability model (Some user) public = Inr ms" and "uuid_of user = Some u" and "m \<in> set ms"
    and "find_instance t (md_instance m) = Some i"
  shows "m \<in> set (pt_models t) \<and> md_active m \<and> in_enabled i \<and> (in_owner i = Some u \<or> public \<and> public_instance i) \<and> paid_for t u i m"
proof -
  let ?all = "matching_models pg t (expand_capabilities (Some capability)) model (Some user) public"
  have "unlocked_models t u ?all = Inr ms" using assms(1-3) by (auto simp: get_candidates_def user_uuid_def Let_def split: if_splits)
  from unlocked_model [OF this assms(3)] obtain due where m: "m \<in> set ?all" and due: "purchase_due t (Some u) m = Inr due"
    and bought: "due \<longrightarrow> has_entitlement t u (md_id m)" by blast
  have "paid_for t u i m"
    using due bought assms(4) by (auto simp: purchase_due_def bindR_Inr paid_for_def requires_model_purchase_def owner_of_def split: option.splits)
  then show ?thesis using m assms(2,4) by (auto simp: matching_models_def instance_visible_def user_uuid_def)
qed

lemma may_use_allowed:
  assumes "may_use t (Some user) public m i = Inr True" and "uuid_of user = Some u"
  shows "(in_owner i = Some u \<or> public \<and> public_instance i) \<and> paid_for t u i m"
  using assms by (auto simp: may_use_def Let_def user_uuid_def bindR_Inr paid_for_def public_instance_def requires_model_purchase_def
      split: if_splits option.splits)

text \<open>A candidate made of a model, its instance and its preset, but for the state of its arm.\<close>

definition made_of :: "route_env \<Rightarrow> provider_tables \<Rightarrow> string \<Rightarrow> string \<Rightarrow> candidate \<Rightarrow> model_row \<Rightarrow> instance_row \<Rightarrow> preset_row \<Rightarrow> bool" where
  "made_of env t channel capability c m i p =
     (\<exists>cs. \<exists>c0 \<in> set cs. rc_model c = rc_model c0 \<and> rc_provider c = rc_provider c0 \<and> rc_rest c = rc_rest c0
        \<and> model_candidates env channel capability i p (instance_keys t i) m = Inr cs)"

text \<open>What the user may be offered.\<close>

definition offered :: "provider_tables \<Rightarrow> string \<Rightarrow> bool \<Rightarrow> string list \<Rightarrow> model_row \<Rightarrow> instance_row \<Rightarrow> preset_row \<Rightarrow> bool" where
  "offered t u public allowed m i p =
     (m \<in> set (pt_models t) \<and> md_active m \<and> find_instance t (md_instance m) = Some i \<and> in_enabled i
      \<and> (in_owner i = Some u \<or> public \<and> public_instance i) \<and> paid_for t u i m
      \<and> get_by_slug t (in_slug i) = Some p \<and> preset_usable allowed p)"

lemma named_candidates:
  assumes "fst (load_candidates env t capability model channel (Some user) public allowed arms) = Inr cs"
    and "uuid_of user = Some u" and "distinct (map in_id (pt_instances t))" and "c \<in> set cs"
  shows "\<exists>m i p. made_of env t channel capability c m i p \<and> offered t u public allowed m i p"
proof -
  let ?is = "get_available_instances t (Some user) public"
  let ?each = "\<lambda>ms. map_sum id concat (mapR (instance_candidates env t channel capability allowed ms) ?is)"
  have "fst (with_arms (bindR (get_candidates (ro_postgres env) t capability model (Some user) public) ?each) arms) = Inr cs"
    using assms(1,4) by (auto simp: load_candidates_def Let_def split: if_splits)
  from with_arms_Inr [OF this assms(4)] obtain cs1 c0
    where r: "bindR (get_candidates (ro_postgres env) t capability model (Some user) public) ?each = Inr cs1" and c0: "c0 \<in> set cs1"
      and same: "rc_model c = rc_model c0" "rc_provider c = rc_provider c0" "rc_rest c = rc_rest c0" .
  from r obtain ms where ms: "get_candidates (ro_postgres env) t capability model (Some user) public = Inr ms" and cs1: "?each ms = Inr cs1"
    by (auto simp: bindR_Inr)
  from mapR_concat_mem [OF cs1 c0] obtain i ys where i: "i \<in> set ?is" and ys: "instance_candidates env t channel capability allowed ms i = Inr ys"
    and y: "c0 \<in> set ys" .
  from ys y obtain p where p: "get_by_slug t (in_slug i) = Some p" "preset_usable allowed p"
    and zs: "map_sum id concat (mapR (model_candidates env channel capability i p (instance_keys t i)) (filter (\<lambda>m. md_instance m = in_id i) ms)) = Inr ys"
    by (auto simp: instance_candidates_def Let_def split: if_splits option.splits)
  from mapR_concat_mem [OF zs y] obtain m cs0 where m: "m \<in> set (filter (\<lambda>m. md_instance m = in_id i) ms)"
    and cs0: "model_candidates env channel capability i p (instance_keys t i) m = Inr cs0" "c0 \<in> set cs0" .
  have fi: "find_instance t (md_instance m) = Some i"
    using i m find_instance_unique [OF assms(3)] by (auto simp: get_available_instances_def split: if_splits)
  have "m \<in> set ms" using m by simp
  from candidate_model_allowed [OF ms assms(2) this fi] have "offered t u public allowed m i p" using p fi by (simp add: offered_def)
  moreover have "made_of env t channel capability c m i p" using cs0 same by (auto simp: made_of_def)
  ultimately show ?thesis by blast
qed

lemma id_candidates:
  assumes "fst (load_by_provider_model_id env t model capability channel (Some user) public allowed arms) = Inr cs"
    and "uuid_of user = Some u" and "c \<in> set cs"
  shows "\<exists>m i p. made_of env t channel capability c m i p \<and> offered t u public allowed m i p"
proof -
  let ?made = "\<lambda>m i. bindR (may_use t (Some user) public m i) (\<lambda>ok.
      if \<not> ok then Inr []
      else case get_by_slug t (in_slug i) of
             None \<Rightarrow> Inr []
           | Some p \<Rightarrow>
               if \<not> preset_usable allowed p then Inr []
               else if instance_keys t i = [] then map_sum id (\<lambda>_. []) (resolve_effective_config (ro_parse env) (Some (ps_profiles p)) capability)
               else model_candidates env channel capability i p (instance_keys t i) m)"
  obtain v m i where m: "find (\<lambda>m. md_id m = v) (pt_models t) = Some m" "md_active m" and i: "find_instance t (md_instance m) = Some i" "in_enabled i"
    and r: "fst (with_arms (?made m i) arms) = Inr cs"
    using assms(1,3) by (auto simp: load_by_provider_model_id_def split: option.splits if_splits)
  from with_arms_Inr [OF r assms(3)] obtain cs1 c0 where q: "?made m i = Inr cs1" and c0: "c0 \<in> set cs1"
    and same: "rc_model c = rc_model c0" "rc_provider c = rc_provider c0" "rc_rest c = rc_rest c0" .
  have ok: "may_use t (Some user) public m i = Inr True" using q c0 by (auto simp: bindR_Inr split: if_splits)
  have none: "map_sum id (\<lambda>_. []) x = Inr ys \<Longrightarrow> ys = []" for x :: "exn + (string, pyval) dict option" and ys :: "candidate list"
    by (cases x) auto
  from q ok c0 obtain p where "get_by_slug t (in_slug i) = Some p" "preset_usable allowed p"
    and "model_candidates env channel capability i p (instance_keys t i) m = Inr cs1"
    by (auto simp: bindR_Inr split: if_splits option.splits dest: none)
  then have "made_of env t channel capability c m i p \<and> offered t u public allowed m i p"
    using same c0 i m find_SomeD [OF m(1)] may_use_allowed [OF ok assms(2)] by (auto simp: made_of_def offered_def)
  then show ?thesis by blast
qed

text \<open>C17: whether a request names a model or its id, every candidate is an active model of an enabled instance that belongs to
  the user or, where public ones are admitted, is public; the model is the user's own, free of charge or bought; the
  provider is one the scopes of the key allow, and the secret is one of that instance.
\<close>
theorem candidates_authorised:
  assumes "fst (load_candidates env t capability model channel (Some user) public allowed arms) = Inr cs
      \<or> fst (load_by_provider_model_id env t model capability channel (Some user) public allowed arms) = Inr cs"
    and "uuid_of user = Some u" and "distinct (map in_id (pt_instances t))" and "c \<in> set cs"
  shows "\<exists>m \<in> set (pt_models t). \<exists>i \<in> set (pt_instances t). \<exists>p \<in> set (pt_presets t).
    rc_model c = md_id m \<and> md_instance m = in_id i \<and> md_active m \<and> in_enabled i
    \<and> (in_owner i = Some u \<or> public \<and> (in_public i \<or> in_owner i = None))
    \<and> (in_owner i = Some u \<or> parse_unlock_price_credits (md_pricing m) = Inr None \<or> (u, md_id m) \<in> set (pt_entitlements t))
    \<and> ps_active p \<and> rc_provider c = ps_provider p \<and> (allowed = [] \<or> ps_provider p \<in> set allowed)
    \<and> (\<exists>k \<in> set (instance_keys t i). py_get (as_dict (py_get (rc_rest c) ''auth_config'' PNone)) ''secret_ref_id'' PNone = PStr (ke_secret k))"
proof -
  from assms(1) have "\<exists>m i p. made_of env t channel capability c m i p \<and> offered t u public allowed m i p"
    by (elim disjE) (rule named_candidates [OF _ assms(2-4)] id_candidates [OF _ assms(2,4)]; assumption)+
  then obtain m i p where made: "made_of env t channel capability c m i p" and ok: "offered t u public allowed m i p" by blast
  have rows: "i \<in> set (pt_instances t)" "md_instance m = in_id i" "p \<in> set (pt_presets t)"
    using ok find_SomeD by (fastforce simp: offered_def find_instance_def get_by_slug_def)+
  obtain cs0 c0 where c0: "c0 \<in> set cs0" "rc_model c = rc_model c0" "rc_provider c = rc_provider c0" "rc_rest c = rc_rest c0"
    and cs0: "model_candidates env channel capability i p (instance_keys t i) m = Inr cs0" using made by (auto simp: made_of_def)
  note facts = model_candidates_facts [OF cs0 c0(1)]
  show ?thesis
    using facts(1,2,5) c0 rows ok
    unfolding offered_def paid_for_def has_entitlement_def preset_usable_def public_instance_def by metis
qed

subsection \<open>A shop\<close>

definition user_a :: string where
  "user_a = ''aaaaaaaa-aaaa-aaaa-aaaa-aaaaaaaaaaaa''"

definition user_b :: string where
  "user_b = ''bbbbbbbb-bbbb-bbbb-bbbb-bbbbbbbbbbbb''"

definition instance_a :: string where
  "instance_a = ''11111111-1111-1111-1111-111111111111''"

definition model_a :: string where
  "model_a = ''22222222-2222-2222-2222-222222222222''"

text \<open>An instance of the first user, shown to others or not, with one model at a price; some users have bought it.\<close>

definition shop :: "bool \<Rightarrow> string list \<Rightarrow> provider_tables" where
  "shop shared buyers =
     \<lparr>pt_instances = [\<lparr>in_id = instance_a, in_slug = ''openai'', in_owner = Some user_a, in_enabled = True, in_public = shared,
        in_base_url = ''https://api.test'', in_credentials_ref = ''main'', in_meta = []\<rparr>],
      pt_models = [\<lparr>md_id = model_a, md_instance = instance_a, md_model = ''gpt'', md_unified = None, md_active = True, md_capabilities = [''chat''],
        md_path = ''chat/completions'', md_pricing = [(''unlock_price_credits'', PInt 5)], md_limits = [], md_routing = [], md_override = [],
        md_weight = 1, md_priority = 0\<rparr>],
      pt_credentials = [\<lparr>cr_id = ''k1'', cr_instance = instance_a, cr_alias = ''main'', cr_secret = ''db:secret'', cr_weight = 2, cr_priority = 3, cr_active = True\<rparr>],
      pt_presets = [\<lparr>ps_id = ''p1'', ps_slug = ''openai'', ps_provider = ''openai'', ps_active = True, ps_auth_type = ''bearer'', ps_auth_config = [],
        ps_profiles = PDict [(''chat'', PDict [])]\<rparr>],
      pt_entitlements = map (\<lambda>u. (u, model_a)) buyers\<rparr>"

definition shop_env :: route_env where
  "shop_env = \<lparr>ro_parse = (\<lambda>_. Inr openai_chat_profile), ro_dump = (\<lambda>_. PDict []), ro_url_path = (\<lambda>_. None), ro_shown = (\<lambda>_. []), ro_postgres = True\<rparr>"

definition fresh_arms :: arm_store where
  "fresh_arms = \<lparr>bs_rows = [], bs_online = True, bs_version = None, bs_cache = []\<rparr>"

definition models_of :: "(exn + candidate list) \<times> arm_store \<Rightarrow> (exn + (string \<times> int) list)" where
  "models_of r = map_sum id (map (\<lambda>c. (rc_model c, rc_priority c))) (fst r)"

lemma shared_for_buyers:
  "models_of (load_candidates shop_env (shop True [user_b]) ''chat'' ''gpt'' ''external'' (Some user_b) True [] fresh_arms) = Inr [(model_a, 3), (model_a, 0)]"
  "models_of (load_candidates shop_env (shop True []) ''chat'' ''gpt'' ''external'' (Some user_b) True [] fresh_arms) = Inr []"
  by code_simp+

text \<open>C17 at a buyer of a shared model.\<close>
theorem candidates_authorised_witness:
  "\<exists>m \<in> set (pt_models (shop True [user_b])). md_id m = model_a \<and> md_active m \<and> (user_b, md_id m) \<in> set (pt_entitlements (shop True [user_b]))"
proof -
  let ?r = "load_candidates shop_env (shop True [user_b]) ''chat'' ''gpt'' ''external'' (Some user_b) True [] fresh_arms"
  obtain cs where cs: "fst ?r = Inr cs" using shared_for_buyers(1) by (cases "fst ?r") (auto simp: models_of_def)
  then have "map rc_model cs = [model_a, model_a]" using arg_cong [OF shared_for_buyers(1), of "map_sum id (map fst)"] by (simp add: models_of_def comp_def)
  then obtain c where c: "c \<in> set cs" "rc_model c = model_a" by (cases cs) auto
  have ids: "distinct (map in_id (pt_instances (shop True [user_b])))" by (simp add: shop_def)
  have user: "uuid_of user_b = Some user_b" by code_simp
  have other: "user_a \<noteq> user_b" by (simp add: user_a_def user_b_def)
  have price: "parse_unlock_price_credits [(''unlock_price_credits'', PInt 5)] \<noteq> Inr None" by code_simp
  from candidates_authorised [OF disjI1 [OF cs] user ids c(1)] c(2) show ?thesis using other price by (auto simp: shop_def)
qed

text \<open>A request without a user passes every check: the private instance of somebody is used, with that owner's key and for nothing.\<close>

lemma anonymous_uses_private:
  "models_of (load_candidates shop_env (shop False []) ''chat'' ''gpt'' ''external'' None True [] fresh_arms) = Inr [(model_a, 3), (model_a, 0)]"
  "models_of (load_by_provider_model_id shop_env (shop False []) model_a ''chat'' ''external'' None True [] fresh_arms) = Inr [(model_a, 3), (model_a, 0)]"
  by code_simp+

text \<open>An instance its owner shares is found by the name of the model but not by the id of the same model.\<close>

lemma shared_by_name_only:
  "models_of (load_by_provider_model_id shop_env (shop True [user_b]) model_a ''chat'' ''external'' (Some user_b) True [] fresh_arms) = Inr []"
  by code_simp

text \<open>
  The query for models knows the aliases of a capability, but the profile is looked up under the name as given and the check
  of a model asked for by id compares names: an alias finds the model and still gives no candidate.
\<close>

lemma aliases_by_name_only:
  "models_of (load_candidates shop_env (shop True [user_b]) ''Chat'' ''gpt'' ''external'' (Some user_a) True [] fresh_arms) = Inr []"
  "map_sum id (map md_id) (get_candidates True (shop True [user_b]) ''Chat-Completion'' ''gpt'' (Some user_a) True) = Inr [model_a]"
  "models_of (load_by_provider_model_id shop_env (shop True []) model_a ''Chat-Completion'' ''external'' (Some user_a) True [] fresh_arms) = Inr []"
  by code_simp+

text \<open>A reference by alias makes two entries of one secret.\<close>

lemma alias_reference_duplicates:
  assumes "find (\<lambda>c. cr_alias c = ref) creds = Some c" and "ref \<noteq> []" and "\<not> starts_with ref ''db:''" and "cr_secret c \<noteq> []"
  shows "2 \<le> length (filter (\<lambda>k. ke_secret k = cr_secret c) (key_entries creds ref))"
proof -
  have "c \<in> set creds" using assms(1) find_SomeD by metis
  then have "filter (\<lambda>d. cr_secret d = cr_secret c) creds \<noteq> []" by (auto simp: filter_empty_conv)
  then have "1 \<le> length (filter (\<lambda>d. cr_secret d = cr_secret c) creds)" by (simp add: Suc_le_eq)
  then show ?thesis using assms by (simp add: key_entries_def resolve_ref_def filter_map comp_def)
qed

text \<open>
  What a model may override of the template, its engine, its builder and its responses, never reaches the profile: only
  method, headers, parameters and the asynchronous settings do.
\<close>

lemma template_override_lost:
  "build_profile_from_preset parse preset (a\<lparr>pa_template := template, pa_engine := engine, pa_builder := builder, pa_response := response, pa_mapping := mapping\<rparr>)
   = build_profile_from_preset parse preset a"
  by (cases "load_profile parse preset (pa_capability a)")
    (simp_all add: build_profile_from_preset_def rebase_profile_family_def async_or_def protocol_of_def Let_def split: option.split)

subsection \<open>Capability names\<close>

lemma char_swap_lower: "char_swap a b (char_swap a b s) = char_swap a b s"
  by (auto simp: char_swap_def)

lemma append_new_set [simp]: "set (append_new x xs) = insert x (set xs)"
  by (auto simp: append_new_def)

lemma append_new_distinct [simp]: "distinct xs \<Longrightarrow> distinct (append_new x xs)"
  by (simp add: append_new_def)

text \<open>Canonical names stand for themselves, and every alias for a canonical name.\<close>

lemma aliases_canonical:
  "list_all (\<lambda>(a, c). c \<in> set canonical_capabilities \<and> normalize_capability (Some a) = Some c \<and> normalize_capability (Some c) = Some c) capability_aliases"
  by code_simp

text \<open>The names a capability expands to are different, and the canonical one and the one given are among them.\<close>

lemma expansion_names:
  assumes "normalize_capability c = Some n"
  shows "distinct (expand_capabilities c) \<and> n \<in> set (expand_capabilities c) \<and> str_lower (str_strip (opt_text c)) \<in> set (expand_capabilities c) \<union> {[]}"
proof -
  have keep: "distinct (fold (\<lambda>a acc. append_new (kebab a) (append_new a acc)) as acc) \<and> set acc \<subseteq> set (fold (\<lambda>a acc. append_new (kebab a) (append_new a acc)) as acc)"
    if "distinct acc" for as acc :: "string list"
    using that
  proof (induction as arbitrary: acc)
    case (Cons a as)
    then show ?case using Cons.IH [of "append_new (kebab a) (append_new a acc)"] by auto
  qed simp
  show ?thesis using keep [of "[n]" "aliases_of n"] by (auto simp: expand_capabilities_def assms Let_def)
qed

end
