(* ===== verification/Routing_Step.thy ===== *)
theory Routing_Step
  imports Routing_Candidates Upstream_Call "HOL-Library.List_Lexorder" "HOL-Library.Char_ord"
begin

section \<open>The routing step\<close>

text \<open>
  \<open>RoutingStep\<close> of src/app/services/workflow/steps/routing.py and the prefix affinity of
  src/app/services/providers/routing_selector.py. The world is the tables, the arms and the affinity of the session
  for the model; the affinity machine in the context is a mark, as in the upstream call. \<open>re_dumps\<close> is \<open>json.dumps\<close>,
  None where it raises, \<open>re_digest\<close> SHA-256 and \<open>re_cached\<close> what the cache holds for a digest. The scopes of a key are texts.
\<close>

record routing_world =
  rw_tables :: provider_tables
  rw_arms :: arm_store
  rw_affinity :: affinity_store

record routing_env =
  re_route :: route_env
  re_draws :: draws
  re_bonus :: rat
  re_prefix_on :: bool
  re_prefix_ratio :: rat
  re_prefix_max :: int
  re_dumps :: "pyval \<Rightarrow> string option"
  re_digest :: "string \<Rightarrow> string"
  re_cached :: "string \<Rightarrow> string option"
  re_now :: rat
  re_stamp :: string

subsection \<open>Scopes\<close>

definition scope_values :: "string \<Rightarrow> string list \<Rightarrow> string list" where
  "scope_values kind scopes = map (\<lambda>s. snd (split_once (CHR '':'') s)) (filter (\<lambda>s. CHR '':'' \<in> set s \<and> fst (split_once (CHR '':'') s) = kind) scopes)"

definition extract_provider_filters :: "string list \<Rightarrow> string list \<times> string list \<times> string list" where
  "extract_provider_filters scopes = (scope_values ''provider'' scopes, scope_values ''preset'' scopes, scope_values ''preset_item'' scopes)"

fun texts_in :: "pyval \<Rightarrow> string list" where
  "texts_in (PList xs) = concat (map (\<lambda>v. case v of PStr s \<Rightarrow> [s] | _ \<Rightarrow> []) xs)"
| "texts_in _ = []"

subsection \<open>Prefix affinity\<close>

definition affinity_prefix :: "rat \<Rightarrow> int \<Rightarrow> string \<Rightarrow> string" where
  "affinity_prefix part most payload =
     (let r = max (1 / 10) (min 1 part); m = max 256 most
      in take (nat (min (int (length payload)) (min \<lfloor>of_int (int (length payload)) * r\<rfloor> m))) payload)"

definition prefix_fingerprint :: "routing_env \<Rightarrow> pyval \<Rightarrow> string option" where
  "prefix_fingerprint env messages =
     (if \<not> re_prefix_on env \<or> \<not> truthy messages then None
      else map_option (\<lambda>p. re_digest env (affinity_prefix (re_prefix_ratio env) (re_prefix_max env) p)) (re_dumps env messages))"

definition get_affinity_provider :: "routing_env \<Rightarrow> pyval \<Rightarrow> string option" where
  "get_affinity_provider env messages =
     (case prefix_fingerprint env messages of Some fp \<Rightarrow> if fp = [] then None else re_cached env fp | None \<Rightarrow> None)"

subsection \<open>Selection\<close>

definition no_upstream :: "string \<Rightarrow> exn" where
  "no_upstream m = OtherError ''NoAvailableUpstreamError'' m"

definition validated_field :: "workflow_context \<Rightarrow> string \<Rightarrow> exn + pyval" where
  "validated_field c k = get_of (ctx_get c ''validation'' ''validated'' (PDict [])) k PNone"

definition routed_messages :: "workflow_context \<Rightarrow> exn + pyval" where
  "routed_messages c =
     (let merged = ctx_get c ''conversation'' ''merged_messages'' PNone in if truthy merged then Inr merged else validated_field c ''messages'')"

definition chosen :: "routing_env \<Rightarrow> workflow_context \<Rightarrow> candidate list \<Rightarrow> exn + candidate \<times> candidate list" where
  "chosen env c cs =
     bindR (routed_messages c) (\<lambda>messages.
       map_sum id (\<lambda>(primary, backups, hit). (primary, backups))
         (choose_upstream (re_draws env) (re_bonus env) (get_affinity_provider env messages) cs))"

definition user_of :: "workflow_context \<Rightarrow> string option" where
  "user_of c = (if str_truthy (ctx_user_id c) then ctx_user_id c else None)"

definition capability_or_chat :: "workflow_context \<Rightarrow> string" where
  "capability_or_chat c = (if str_truthy (ctx_capability c) then the (ctx_capability c) else ''chat'')"

definition include_public :: "workflow_context \<Rightarrow> bool" where
  "include_public c = truthy (ctx_get c ''routing'' ''include_public'' (PBool True))"

text \<open>The order the only candidate of an internal task is picked by.\<close>

definition task_rank :: "candidate \<Rightarrow> int \<times> int \<times> string \<times> string \<times> string" where
  "task_rank c = (rc_priority c, rc_weight c, opt_text (rc_alias c), opt_text (rc_credential c), rc_model c)"

definition select_by_provider_model_id ::
  "routing_env \<Rightarrow> string \<Rightarrow> string list \<Rightarrow> workflow_context \<Rightarrow> routing_world \<Rightarrow> (exn + candidate \<times> candidate list) \<times> routing_world" where
  "select_by_provider_model_id env model_id allowed c w =
     (case load_by_provider_model_id (re_route env) (rw_tables w) model_id (capability_or_chat c) (channel_value (ctx_channel c)) (user_of c)
         (include_public c) allowed (rw_arms w) of
        (loaded, arms) \<Rightarrow>
          (bindR loaded (\<lambda>cs.
             if cs = [] then Inl (no_upstream (''No upstream available for provider_model_id='' @ model_id))
             else if ctx_channel c = INTERNAL \<and> truthy (ctx_get c ''routing'' ''require_provider_model_id'' (PBool False))
             then Inr (max_by task_rank cs, [])
             else chosen env c cs),
           w\<lparr>rw_arms := arms\<rparr>))"

text \<open>The session of a request: its own one, or the one the body names.\<close>

definition session_of :: "workflow_context \<Rightarrow> exn + pyval" where
  "session_of c =
     (let s = ctx_get c ''conversation'' ''session_id'' PNone
      in if truthy s then Inr s else get_of (py_or (ctx_get c ''validation'' ''validated'' PNone) (PDict [])) ''session_id'' PNone)"

definition locked_item :: "routing_env \<Rightarrow> bool \<Rightarrow> affinity_store \<Rightarrow> string option \<times> affinity_store" where
  "locked_item env in_session s =
     (if \<not> in_session then (None, s)
      else case should_use_affinity (re_now env) s of
             ((use_it, _, item), s') \<Rightarrow> (if use_it \<and> str_truthy item then item else None, s'))"

definition watch_affinity :: "bool \<Rightarrow> candidate \<Rightarrow> workflow_context \<Rightarrow> workflow_context" where
  "watch_affinity in_session primary c =
     (if in_session
      then ctx_set ''routing'' ''affinity_item_id'' (PStr (rc_model primary))
             (ctx_set ''routing'' ''affinity_provider'' (PStr (rc_provider primary)) (ctx_set ''routing'' ''affinity_machine'' (PBool True) c))
      else c)"

text \<open>
  \<open>_select_upstream\<close>; the restrictions to presets and items of presets are parameters that nothing reads. The last part of
  a result tells whether the locked upstream was used.
\<close>

definition select_upstream ::
  "routing_env \<Rightarrow> string \<Rightarrow> string \<Rightarrow> string list \<times> string list \<times> string list \<Rightarrow> workflow_context \<Rightarrow> routing_world \<Rightarrow>
    (exn + (candidate \<times> candidate list \<times> bool) \<times> workflow_context) \<times> routing_world" where
  "select_upstream env capability model filters c w =
     (case session_of c of
        Inl e \<Rightarrow> (Inl e, w)
      | Inr s \<Rightarrow>
          (case locked_item env (truthy s) (rw_affinity w) of
             (item, affinity) \<Rightarrow>
               (case load_candidates (re_route env) (rw_tables w) capability model (channel_value (ctx_channel c)) (user_of c)
                   (include_public c) (fst filters) (rw_arms w) of
                  (loaded, arms) \<Rightarrow>
                    (bindR loaded (\<lambda>cs.
                       if cs = [] then
                         Inl (no_upstream (''No upstream available for '' @ capability @ ''/'' @ model @ ''/'' @ channel_value (ctx_channel c)))
                       else case (if item = None then None else find (\<lambda>x. Some (rc_model x) = item) cs) of
                              Some primary \<Rightarrow> Inr ((primary, filter (\<lambda>x. x \<noteq> primary) cs, True), c)
                            | None \<Rightarrow>
                                bindR (chosen env c cs) (\<lambda>(primary, backups).
                                  Inr ((primary, backups, False), watch_affinity (truthy s) primary c))),
                     w\<lparr>rw_arms := arms, rw_affinity := affinity\<rparr>))))"

subsection \<open>Payloads\<close>

definition candidate_payload :: "candidate \<Rightarrow> (string, pyval) dict" where
  "candidate_payload c =
     (let rest = (\<lambda>k. py_get (rc_rest c) k PNone)
      in [(''preset_id'', rest ''preset_id''), (''preset_slug'', rest ''preset_slug''), (''instance_id'', rest ''instance_id''),
          (''provider_model_id'', PStr (rc_model c)), (''upstream_url'', rest ''upstream_url''), (''provider'', PStr (rc_provider c)),
          (''protocol_profile'', rest ''protocol_profile''), (''async_config'', rest ''async_config''), (''pricing_config'', rest ''pricing_config''),
          (''limit_config'', rest ''limit_config''), (''auth_type'', rest ''auth_type''), (''auth_config'', rest ''auth_config''),
          (''routing_config'', PDict (rc_routing c)), (''config_override'', rest ''config_override''), (''output_mapping'', rest ''output_mapping''),
          (''weight'', PInt (rc_weight c)), (''priority'', PInt (rc_priority c)), (''credential_id'', opt_str (rc_credential c)),
          (''credential_alias'', opt_str (rc_alias c))])"

definition normalize_payload :: "(string, pyval) dict \<Rightarrow> (string, pyval) dict" where
  "normalize_payload d = (if a_dict (py_get d ''protocol_profile'' PNone) then d else dput ''protocol_profile'' (PDict []) d)"

definition fallback_payload :: "(string, pyval) dict" where
  "fallback_payload =
     [(''preset_id'', PNone), (''instance_id'', PNone), (''provider_model_id'', PNone), (''upstream_url'', PStr ''http://mock-upstream''),
      (''provider'', PStr ''mock''),
      (''protocol_profile'', PDict [(''profile_id'', PStr ''mock:chat:openai_chat''), (''provider'', PStr ''mock''),
         (''protocol_family'', PStr ''openai_chat''), (''capability'', PStr ''chat''), (''transport'', PDict [(''method'', PStr ''POST'')]),
         (''request'', PDict [(''template_engine'', PStr ''simple_replace''), (''request_template'', PDict [(''model'', PNone)])]),
         (''response'', PDict [(''response_template'', PDict [])]),
         (''defaults'', PDict [(''headers'', PDict []), (''body'', PDict [])])]),
      (''pricing_config'', PDict []), (''limit_config'', PDict []), (''auth_type'', PStr ''none''), (''auth_config'', PDict []),
      (''async_config'', PDict []), (''routing_config'', PDict []), (''config_override'', PDict []), (''weight'', PInt 1), (''priority'', PInt 1)]"

text \<open>What both ways of routing write to the namespace of the step and to the top of the context.\<close>

definition publish :: "(string, pyval) dict \<Rightarrow> pyval list \<Rightarrow> bool \<Rightarrow> workflow_context \<Rightarrow> workflow_context" where
  "publish d candidates hit c =
     (let field = (\<lambda>k. py_get d k PNone); dict = (\<lambda>k. py_or (field k) (PDict []));
          c1 = fold (\<lambda>(k, v). ctx_set ''routing'' k v)
            [(''preset_id'', field ''preset_id''), (''instance_id'', field ''instance_id''), (''provider_model_id'', field ''provider_model_id''),
             (''upstream_url'', field ''upstream_url''), (''provider'', field ''provider''), (''protocol_profile'', dict ''protocol_profile''),
             (''async_config'', dict ''async_config''), (''routing_config'', field ''routing_config''), (''config_override'', dict ''config_override''),
             (''output_mapping'', dict ''output_mapping''), (''limit_config'', field ''limit_config''), (''pricing_config'', field ''pricing_config''),
             (''auth_type'', field ''auth_type''), (''auth_config'', field ''auth_config''), (''candidates'', PList candidates),
             (''candidate_index'', PInt 0), (''affinity_hit'', PBool hit), (''affinity_provider_model_id'', field ''provider_model_id'')] c
      in c1\<lparr>ctx_selected_preset_id := string_of (field ''preset_id''), ctx_selected_instance_id := string_of (field ''instance_id''),
            ctx_selected_provider_model_id := string_of (field ''provider_model_id''), ctx_selected_upstream := string_of (field ''upstream_url''),
            ctx_routing_weight := (case field ''weight'' of PInt i \<Rightarrow> Some (of_int i) | _ \<Rightarrow> None)\<rparr>)"

definition routed :: "(string, pyval) dict \<Rightarrow> step_result" where
  "routed d = (new_step_result SUCCESS)\<lparr>sr_data := Some d\<rparr>"

definition routing_fallback :: "workflow_context \<Rightarrow> step_result \<times> workflow_context" where
  "routing_fallback c = (let d = normalize_payload fallback_payload in (routed d, publish d [PDict d] False c))"

subsection \<open>The step\<close>

definition requested_id :: "workflow_context \<Rightarrow> pyval" where
  "requested_id c = py_get (as_dict (ctx_get c ''validation'' ''request'' PNone)) ''provider_model_id'' PNone"

definition model_asked :: "workflow_context \<Rightarrow> pyval" where
  "model_asked c = (if str_truthy (ctx_requested_model c) then opt_str (ctx_requested_model c) else ctx_get c ''validation'' ''model'' PNone)"

definition select_route ::
  "routing_env \<Rightarrow> string \<Rightarrow> string list \<times> string list \<times> string list \<Rightarrow> workflow_context \<Rightarrow> routing_world \<Rightarrow>
    (exn + (candidate \<times> candidate list \<times> bool) \<times> workflow_context) \<times> routing_world" where
  "select_route env model filters c w =
     (if truthy (requested_id c)
      then case select_by_provider_model_id env (py_text (ro_shown (re_route env)) (requested_id c)) (fst filters) c w of
             (r, w') \<Rightarrow> (map_sum id (\<lambda>(primary, backups). ((primary, backups, False), c)) r, w')
      else select_upstream env (capability_or_chat c) model filters c w)"

definition routing_selected :: "routing_env \<Rightarrow> candidate \<Rightarrow> candidate list \<Rightarrow> bool \<Rightarrow> workflow_context \<Rightarrow> step_result \<times> workflow_context" where
  "routing_selected env primary backups hit c =
     (let d = normalize_payload (candidate_payload primary);
          ds = map (\<lambda>b. PDict (normalize_payload (candidate_payload b))) backups
      in (routed d,
          emit_status (re_stamp env) ''remember'' (Some ''routing'') ''success'' (Some ''routing.selected'')
            (PDict [(''candidates'', PInt (1 + int (length backups))), (''provider'', PStr (rc_provider primary))])
            (publish d (PDict d # ds) hit c)))"

definition routing_failed :: "string \<Rightarrow> step_result" where
  "routing_failed m = (new_step_result FAILED)\<lparr>sr_message := Some m\<rparr>"

definition routing_execute :: "routing_env \<Rightarrow> workflow_context \<Rightarrow> routing_world \<Rightarrow> step_result \<times> workflow_context \<times> routing_world" where
  "routing_execute env c w =
     (let allow = truthy (ctx_get c ''routing'' ''allow_fallback'' (PBool False));
          give_up = (\<lambda>m. if allow then routing_fallback c else (routing_failed m, c));
          model = model_asked c
      in if \<not> truthy model then (routing_failed ''Model not specified'', c, w)
         else if \<not> ctx_db_session c then (case give_up ''Database session missing in context'' of (r, c') \<Rightarrow> (r, c', w))
         else
           case select_route env (opt_text (string_of model)) (extract_provider_filters (texts_in (ctx_get c ''auth'' ''scopes'' PNone))) c w of
             (Inl e, w') \<Rightarrow> (case give_up (exn_str e) of (r, c') \<Rightarrow> (r, c', w'))
           | (Inr ((primary, backups, hit), c1), w') \<Rightarrow> (case routing_selected env primary backups hit c1 of (r, c') \<Rightarrow> (r, c', w')))"

text \<open>A failed route is tried once more, then the workflow stops.\<close>

definition routing_on_failure :: "int \<Rightarrow> failure_action" where
  "routing_on_failure attempt = (if attempt \<le> 1 then RETRY else ABORT)"

subsection \<open>Frames\<close>

lemma map_sum_Inr_iff: "map_sum f g x = Inr y \<longleftrightarrow> (\<exists>z. x = Inr z \<and> y = g z)"
  by (cases x) auto

lemma ctx_get_top:
  "ctx_get (x\<lparr>ctx_selected_preset_id := a1, ctx_selected_instance_id := a2, ctx_selected_provider_model_id := a3, ctx_selected_upstream := a4,
     ctx_routing_weight := a5\<rparr>) s k d = ctx_get x s k d"
  by (simp add: ctx_get_def ctx_get_namespace_def)

lemma emit_selected: "ctx_selected_provider_model_id (emit_status now st sp sa co me c) = ctx_selected_provider_model_id c"
  by (simp add: emit_status_def)

subsection \<open>What is routed to\<close>

text \<open>A candidate that may be offered.\<close>

definition legitimate :: "routing_env \<Rightarrow> workflow_context \<Rightarrow> provider_tables \<Rightarrow> string \<Rightarrow> string list \<Rightarrow> candidate \<Rightarrow> bool" where
  "legitimate env c t u allowed x =
     (\<exists>m i p. made_of (re_route env) t (channel_value (ctx_channel c)) (capability_or_chat c) x m i p
        \<and> offered t u (include_public c) allowed m i p)"

lemma chosen_among:
  assumes "chosen env c cs = Inr (primary, backups)"
  shows "primary \<in> set cs \<and> set backups \<subseteq> set cs"
proof -
  obtain messages hit where "choose_upstream (re_draws env) (re_bonus env) (get_affinity_provider env messages) cs = Inr (primary, backups, hit)"
    using assms by (auto simp: chosen_def bindR_Inr map_sum_Inr_iff)
  from choose_Inr [OF this] show ?thesis using apply_gray_sub [of cs] by auto
qed

lemma locked_among: "find P cs = Some x \<Longrightarrow> x \<in> set cs"
  using find_SomeD by metis

lemma selected_by_id_legitimate:
  assumes "select_by_provider_model_id env mid allowed c w = (Inr (primary, backups), w')"
    and "user_of c = Some user" and "uuid_of user = Some u"
  shows "\<forall>x \<in> set (primary # backups). legitimate env c (rw_tables w) u allowed x"
proof -
  obtain cs where cs: "fst (load_by_provider_model_id (re_route env) (rw_tables w) mid (capability_or_chat c) (channel_value (ctx_channel c)) (Some user)
      (include_public c) allowed (rw_arms w)) = Inr cs" and "set (primary # backups) \<subseteq> set cs"
    using assms(1,2) chosen_among max_by_in
    by (fastforce simp: select_by_provider_model_id_def bindR_Inr split: prod.splits if_splits)
  then show ?thesis using id_candidates [OF cs assms(3)] by (auto simp: legitimate_def)
qed

lemma select_upstream_Inr:
  assumes "select_upstream env capability model filters c w = (Inr ((primary, backups, hit), c1), w')"
  obtains s item cs where "session_of c = Inr s" and "fst (locked_item env (truthy s) (rw_affinity w)) = item"
    and "fst (load_candidates (re_route env) (rw_tables w) capability model (channel_value (ctx_channel c)) (user_of c)
      (include_public c) (fst filters) (rw_arms w)) = Inr cs"
    and "set (primary # backups) \<subseteq> set cs" and "hit \<longrightarrow> c1 = c \<and> item = Some (rc_model primary)"
    and "\<not> hit \<longrightarrow> c1 = watch_affinity (truthy s) primary c"
proof -
  obtain s where s: "session_of c = Inr s" using assms by (auto simp: select_upstream_def split: sum.splits)
  obtain item affinity where item: "locked_item env (truthy s) (rw_affinity w) = (item, affinity)" by fastforce
  obtain loaded arms where l: "load_candidates (re_route env) (rw_tables w) capability model (channel_value (ctx_channel c)) (user_of c)
      (include_public c) (fst filters) (rw_arms w) = (loaded, arms)" by fastforce
  have step: "bindR loaded (\<lambda>cs.
      if cs = [] then Inl (no_upstream (''No upstream available for '' @ capability @ ''/'' @ model @ ''/'' @ channel_value (ctx_channel c)))
      else case (if item = None then None else find (\<lambda>x. Some (rc_model x) = item) cs) of
             Some primary \<Rightarrow> Inr ((primary, filter (\<lambda>x. x \<noteq> primary) cs, True), c)
           | None \<Rightarrow> bindR (chosen env c cs) (\<lambda>(primary, backups). Inr ((primary, backups, False), watch_affinity (truthy s) primary c)))
      = Inr ((primary, backups, hit), c1)"
    using assms by (simp add: select_upstream_def s item l)
  then obtain cs where cs: "loaded = Inr cs" "cs \<noteq> []" by (auto simp: bindR_Inr split: if_splits)
  show ?thesis
  proof (cases "if item = None then None else find (\<lambda>x. Some (rc_model x) = item) cs")
    case None
    then have "chosen env c cs = Inr (primary, backups)" "\<not> hit" "c1 = watch_affinity (truthy s) primary c"
      using step cs by (auto simp: bindR_Inr)
    moreover from this(1) have "set (primary # backups) \<subseteq> set cs" using chosen_among by fastforce
    ultimately show ?thesis using s item l cs by (intro that) auto
  next
    case (Some x)
    then have x: "primary = x" "backups = filter (\<lambda>y. y \<noteq> x) cs" "hit" "c1 = c" using step cs by auto
    have "find (\<lambda>x. Some (rc_model x) = item) cs = Some x" using Some by (auto split: if_splits)
    then have "x \<in> set cs" "Some (rc_model x) = item" by (auto dest: find_SomeD)
    then show ?thesis using s item l cs x by (intro that) auto
  qed
qed

lemma select_route_legitimate:
  assumes "select_route env model filters c w = (Inr ((primary, backups, hit), c1), w')"
    and "user_of c = Some user" and "uuid_of user = Some u" and "distinct (map in_id (pt_instances (rw_tables w)))"
  shows "\<forall>x \<in> set (primary # backups). legitimate env c (rw_tables w) u (fst filters) x"
proof (cases "truthy (requested_id c)")
  case True
  then show ?thesis
    using assms(1) selected_by_id_legitimate [OF _ assms(2,3)] by (fastforce simp: select_route_def map_sum_Inr_iff split: prod.splits)
next
  case False
  then have "select_upstream env (capability_or_chat c) model filters c w = (Inr ((primary, backups, hit), c1), w')"
    using assms(1) by (simp add: select_route_def)
  then obtain cs where cs: "fst (load_candidates (re_route env) (rw_tables w) (capability_or_chat c) model (channel_value (ctx_channel c)) (Some user)
      (include_public c) (fst filters) (rw_arms w)) = Inr cs" and sub: "set (primary # backups) \<subseteq> set cs"
    using select_upstream_Inr assms(2) by metis
  show ?thesis using named_candidates [OF cs assms(3,4)] sub unfolding legitimate_def by blast
qed

lemma publish_get:
  "ctx_get (publish d ds hit c) ''routing'' ''candidates'' PNone = PList ds"
  "ctx_get (publish d ds hit c) ''routing'' ''affinity_hit'' PNone = PBool hit"
  "ctx_get (publish d ds hit c) ''routing'' ''auth_config'' PNone = py_get d ''auth_config'' PNone"
  "ctx_get (publish d ds hit c) ''routing'' ''affinity_machine'' PNone = ctx_get c ''routing'' ''affinity_machine'' PNone"
  "ctx_selected_provider_model_id (publish d ds hit c) = string_of (py_get d ''provider_model_id'' PNone)"
  by (simp_all add: publish_def Let_def ctx_get_top)

lemma payload_fields:
  "py_get (normalize_payload (candidate_payload x)) ''provider_model_id'' PNone = PStr (rc_model x)"
  "py_get (normalize_payload (candidate_payload x)) ''provider'' PNone = PStr (rc_provider x)"
  "py_get (normalize_payload (candidate_payload x)) ''auth_config'' PNone = py_get (rc_rest x) ''auth_config'' PNone"
  by (simp_all add: normalize_payload_def candidate_payload_def Let_def py_get_def)

lemma routing_execute_success:
  assumes "routing_execute env c w = (r, c', w')" and "sr_status r = SUCCESS" and "\<not> truthy (ctx_get c ''routing'' ''allow_fallback'' (PBool False))"
  obtains primary backups hit c1
  where "select_route env (opt_text (string_of (model_asked c))) (extract_provider_filters (texts_in (ctx_get c ''auth'' ''scopes'' PNone))) c w
      = (Inr ((primary, backups, hit), c1), w')"
    and "(r, c') = routing_selected env primary backups hit c1"
  using assms by (auto simp: routing_execute_def routing_failed_def new_step_result_def Let_def split: if_splits prod.splits sum.splits)
text \<open>
  C0: a route that succeeds without the fallback leaves a list of candidates that starts with the upstream the context
  names, whose credentials are those of the step; every one of them, the backups included, is a model the user may be
  offered, from a provider that the \<open>provider:\<close> scopes of the key admit.
\<close>
theorem routing_step_sound:
  assumes "routing_execute env c w = (r, c', w')" and "sr_status r = SUCCESS" and "\<not> truthy (ctx_get c ''routing'' ''allow_fallback'' (PBool False))"
    and "ctx_user_id c = Some user" and "uuid_of user = Some u" and "distinct (map in_id (pt_instances (rw_tables w)))"
  shows "\<exists>d ds. ctx_get c' ''routing'' ''candidates'' PNone = PList (PDict d # ds)
    \<and> ctx_selected_provider_model_id c' = string_of (py_get d ''provider_model_id'' PNone)
    \<and> ctx_get c' ''routing'' ''auth_config'' PNone = py_get d ''auth_config'' PNone
    \<and> (\<forall>v \<in> set (PDict d # ds). \<exists>m i p.
        offered (rw_tables w) u (include_public c) (scope_values ''provider'' (texts_in (ctx_get c ''auth'' ''scopes'' PNone))) m i p
        \<and> py_get (as_dict v) ''provider_model_id'' PNone = PStr (md_id m) \<and> py_get (as_dict v) ''provider'' PNone = PStr (ps_provider p))"
proof -
  from routing_execute_success [OF assms(1-3)] obtain primary backups hit c1
    where s: "select_route env (opt_text (string_of (model_asked c))) (extract_provider_filters (texts_in (ctx_get c ''auth'' ''scopes'' PNone))) c w
        = (Inr ((primary, backups, hit), c1), w')"
      and r: "(r, c') = routing_selected env primary backups hit c1" .
  let ?pay = "\<lambda>x. normalize_payload (candidate_payload x)"
  have "uuid_of [] = None" by code_simp
  then have "user_of c = Some user" using assms(4,5) by (cases user) (auto simp: user_of_def)
  from select_route_legitimate [OF s this assms(5,6)]
  have leg: "\<forall>x \<in> set (primary # backups). legitimate env c (rw_tables w) u (scope_values ''provider'' (texts_in (ctx_get c ''auth'' ''scopes'' PNone))) x"
    by (simp add: extract_provider_filters_def)
  have c': "ctx_get c' ''routing'' ''candidates'' PNone = PList (map (PDict \<circ> ?pay) (primary # backups))"
    "ctx_selected_provider_model_id c' = string_of (py_get (?pay primary) ''provider_model_id'' PNone)"
    "ctx_get c' ''routing'' ''auth_config'' PNone = py_get (?pay primary) ''auth_config'' PNone"
    using r by (simp_all add: routing_selected_def Let_def publish_get emit_selected comp_def)
  have "\<exists>m i p. offered (rw_tables w) u (include_public c) (scope_values ''provider'' (texts_in (ctx_get c ''auth'' ''scopes'' PNone))) m i p
      \<and> py_get (?pay x) ''provider_model_id'' PNone = PStr (md_id m) \<and> py_get (?pay x) ''provider'' PNone = PStr (ps_provider p)"
    if x: "x \<in> set (primary # backups)" for x
    using leg x model_candidates_facts(1,2) unfolding legitimate_def made_of_def payload_fields by metis
  then show ?thesis using c' by auto
qed

definition shop_route :: routing_env where
  "shop_route =
     \<lparr>re_route = shop_env, re_draws = witness_draws, re_bonus = 1 / 5, re_prefix_on = True, re_prefix_ratio = 7 / 10, re_prefix_max = 4000,
      re_dumps = (\<lambda>_. None), re_digest = id, re_cached = (\<lambda>_. None), re_now = 0, re_stamp = ''now''\<rparr>"

definition shop_request :: "string list \<Rightarrow> string option \<Rightarrow> workflow_context" where
  "shop_request scopes session =
     (new_context ''t'' EXTERNAL ''now'')\<lparr>ctx_user_id := Some user_b, ctx_requested_model := Some ''gpt'', ctx_db_session := True,
        ctx_namespaces := [(''auth'', [(''scopes'', PList (map PStr scopes))]), (''conversation'', [(''session_id'', opt_str session)])]\<rparr>"

definition shop_world :: "affinity_store \<Rightarrow> routing_world" where
  "shop_world affinity = \<lparr>rw_tables = shop True [user_b], rw_arms = fresh_arms, rw_affinity = affinity\<rparr>"

definition unlocked :: affinity_store where
  "unlocked = \<lparr>af_redis = True, af_hash = []\<rparr>"

definition outcome_of :: "step_result \<times> workflow_context \<times> routing_world \<Rightarrow> step_status \<times> string option \<times> string option" where
  "outcome_of x = (case x of (r, c, w) \<Rightarrow> (sr_status r, sr_message r, ctx_selected_provider_model_id c))"

definition shop_candidates :: "candidate list" where
  "shop_candidates =
     (case fst (load_candidates shop_env (shop True [user_b]) ''chat'' ''gpt'' ''external'' (Some user_b) True [] fresh_arms) of Inr cs \<Rightarrow> cs | Inl _ \<Rightarrow> [])"

lemma shop_request_fields:
  "ctx_user_id (shop_request scopes s) = Some user_b" "user_of (shop_request scopes s) = Some user_b"
  "capability_or_chat (shop_request scopes s) = ''chat''" "channel_value (ctx_channel (shop_request scopes s)) = ''external''"
  "include_public (shop_request scopes s)" "ctx_db_session (shop_request scopes s)"
  "model_asked (shop_request scopes s) = PStr ''gpt''" "requested_id (shop_request scopes s) = PNone"
  "ctx_get (shop_request scopes s) ''routing'' k d = d" "ctx_get (shop_request scopes s) ''auth'' ''scopes'' PNone = PList (map PStr scopes)"
  "session_of (shop_request scopes s) = Inr (if str_truthy s then opt_str s else PNone)" "routed_messages (shop_request scopes s) = Inr PNone"
  by (simp_all add: shop_request_def new_context_def user_of_def capability_or_chat_def include_public_def model_asked_def requested_id_def
      ctx_get_def ctx_get_namespace_def py_get_def session_of_def routed_messages_def validated_field_def user_b_def opt_str_def py_or_def Let_def
      str_truthy_def split: option.split)

lemma texts_in_texts: "texts_in (PList (map PStr xs)) = xs"
  by (induction xs) auto

lemma shop_loads:
  "\<exists>arms. load_candidates shop_env (shop True [user_b]) ''chat'' ''gpt'' ''external'' (Some user_b) True [] fresh_arms = (Inr shop_candidates, arms)"
  "map rc_model shop_candidates = [model_a, model_a]"
proof -
  obtain r arms where r: "load_candidates shop_env (shop True [user_b]) ''chat'' ''gpt'' ''external'' (Some user_b) True [] fresh_arms = (r, arms)"
    by (rule prod.exhaust)
  then obtain cs where "r = Inr cs" using shared_for_buyers(1) by (cases r) (simp_all add: models_of_def)
  with r have l: "load_candidates shop_env (shop True [user_b]) ''chat'' ''gpt'' ''external'' (Some user_b) True [] fresh_arms = (Inr cs, arms)" by simp
  then show "\<exists>arms. load_candidates shop_env (shop True [user_b]) ''chat'' ''gpt'' ''external'' (Some user_b) True [] fresh_arms = (Inr shop_candidates, arms)"
    by (simp add: shop_candidates_def)
  from l have "map (\<lambda>c. (rc_model c, rc_priority c)) cs = [(model_a, 3), (model_a, 0)]" using shared_for_buyers(1) by (simp add: models_of_def)
  then have "map fst (map (\<lambda>c. (rc_model c, rc_priority c)) cs) = [model_a, model_a]" by simp
  then show "map rc_model shop_candidates = [model_a, model_a]" using l by (simp add: shop_candidates_def comp_def)
qed

lemma shop_chosen:
  "\<exists>primary backups. chosen shop_route (shop_request scopes s) shop_candidates = Inr (primary, backups) \<and> rc_model primary = model_a"
proof -
  have "shop_candidates \<noteq> []" using shop_loads(2) by auto
  moreover have "py_get (rc_routing (hd (apply_gray (dr_gray (re_draws shop_route)) shop_candidates))) ''strategy'' (PStr ''weight'') \<noteq> PStr ''bandit''"
    and w: "map_sum id rc_model (weighted_choice (dr_point (re_draws shop_route)) (apply_gray (dr_gray (re_draws shop_route)) shop_candidates)) = Inr model_a"
    by code_simp+
  ultimately show ?thesis
    using w by (auto simp: chosen_def shop_request_fields other_strategies_weighted map_sum_Inr_iff)
qed

text \<open>A key restricted to the preset of another provider is served by this one: only the scope of a provider holds it back.\<close>

lemma shop_served:
  assumes "scope_values ''provider'' scopes = []"
  shows "outcome_of (routing_execute shop_route (shop_request scopes None) (shop_world affinity)) = (SUCCESS, None, Some model_a)"
proof -
  obtain arms where l: "load_candidates shop_env (shop True [user_b]) ''chat'' ''gpt'' ''external'' (Some user_b) True [] fresh_arms = (Inr shop_candidates, arms)"
    using shop_loads(1) by blast
  obtain primary backups where ch: "chosen shop_route (shop_request scopes None) shop_candidates = Inr (primary, backups)" "rc_model primary = model_a"
    using shop_chosen by blast
  have "shop_candidates \<noteq> []" using shop_loads(2) by auto
  moreover have "re_route shop_route = shop_env" "rw_tables (shop_world affinity) = shop True [user_b]" "rw_arms (shop_world affinity) = fresh_arms"
    by (simp_all add: shop_route_def shop_world_def)
  ultimately show ?thesis
    using assms l ch
    by (simp add: routing_execute_def select_route_def select_upstream_def shop_request_fields texts_in_texts opt_text_def extract_provider_filters_def
        locked_item_def routing_selected_def routed_def new_step_result_def outcome_of_def emit_selected publish_get payload_fields Let_def
        watch_affinity_def del: texts_in.simps)
qed

lemma preset_scope_ignored:
  "outcome_of (routing_execute shop_route (shop_request [''preset:anthropic'', ''preset_item:claude''] None) (shop_world unlocked)) = (SUCCESS, None, Some model_a)"
  by (rule shop_served) code_simp

lemma provider_scope_enforced:
  "outcome_of (routing_execute shop_route (shop_request [''provider:anthropic''] None) (shop_world unlocked))
     = (FAILED, Some ''No upstream available for chat/gpt/external'', None)"
proof -
  have "load_candidates shop_env (shop True [user_b]) ''chat'' ''gpt'' ''external'' (Some user_b) True [''anthropic''] fresh_arms = (Inr [], fresh_arms)"
    "scope_values ''provider'' [''provider:anthropic''] = [''anthropic'']"
    by code_simp+
  moreover have "ctx_selected_provider_model_id (shop_request [''provider:anthropic''] None) = None" by (simp add: shop_request_def new_context_def)
  moreover have "re_route shop_route = shop_env" "rw_tables (shop_world unlocked) = shop True [user_b]" "rw_arms (shop_world unlocked) = fresh_arms"
    by (simp_all add: shop_route_def shop_world_def)
  ultimately show ?thesis
    by (simp add: routing_execute_def select_route_def select_upstream_def shop_request_fields texts_in_texts [of "[''provider:anthropic'']", simplified]
        extract_provider_filters_def locked_item_def routing_failed_def new_step_result_def outcome_of_def no_upstream_def opt_text_def Let_def)
qed

text \<open>The preceding statement at a buyer of the shared model.\<close>
theorem routing_step_sound_witness:
  "\<exists>m i p. offered (shop True [user_b]) user_b True [] m i p \<and> md_id m = model_a"
proof -
  let ?c = "shop_request [''preset:anthropic'', ''preset_item:claude''] None"
  obtain r c' w' where run: "routing_execute shop_route ?c (shop_world unlocked) = (r, c', w')" by (metis prod_cases3)
  then have ok: "sr_status r = SUCCESS" and sel: "ctx_selected_provider_model_id c' = Some model_a"
    using preset_scope_ignored by (simp_all add: outcome_of_def)
  have facts: "\<not> truthy (ctx_get ?c ''routing'' ''allow_fallback'' (PBool False))" "ctx_user_id ?c = Some user_b"
    "include_public ?c" "scope_values ''provider'' (texts_in (ctx_get ?c ''auth'' ''scopes'' PNone)) = []" "uuid_of user_b = Some user_b"
    "distinct (map in_id (pt_instances (rw_tables (shop_world unlocked))))"
    by code_simp+
  have "rw_tables (shop_world unlocked) = shop True [user_b]" "include_public ?c = True" using facts(3) by (simp_all add: shop_world_def)
  with routing_step_sound [OF run ok facts(1,2,5,6)] sel facts(4) show ?thesis by fastforce
qed

subsection \<open>Locked sessions\<close>


definition locked_to :: "string \<Rightarrow> affinity_store" where
  "locked_to m = save_context 0 (init_context\<lparr>ac_state := LOCKED, ac_locked_provider := Some ''openai'', ac_locked_provider_model_id := Some m,
     ac_lock_expires_at := Some 3600\<rparr>) unlocked"

lemma locked_run:
  "case routing_execute shop_route (shop_request [] (Some ''s1'')) (shop_world (locked_to model_a)) of
     (r, c', w') \<Rightarrow> sr_status r = SUCCESS \<and> ctx_get c' ''routing'' ''affinity_hit'' PNone = PBool True"
proof -
  obtain arms where l: "load_candidates shop_env (shop True [user_b]) ''chat'' ''gpt'' ''external'' (Some user_b) True [] fresh_arms = (Inr shop_candidates, arms)"
    using shop_loads(1) by blast
  have item: "locked_item shop_route True (locked_to model_a) = (Some model_a, locked_to model_a)" by code_simp
  obtain x where cs: "shop_candidates \<noteq> []" "find (\<lambda>x. rc_model x = model_a) shop_candidates = Some x"
  proof (cases shop_candidates)
    case Nil
    with shop_loads(2) show ?thesis by simp
  next
    case (Cons y ys)
    from shop_loads(2) have y: "rc_model y = model_a" unfolding Cons by simp
    show ?thesis by (rule that [of y]) (simp_all only: Cons find.simps y simp_thms if_True list.distinct)
  qed
  have env: "re_route shop_route = shop_env" "rw_tables (shop_world a) = shop True [user_b]" "rw_arms (shop_world a) = fresh_arms" "rw_affinity (shop_world a) = a" for a
    by (simp_all add: shop_route_def shop_world_def)
  have none: "scope_values ''provider'' [] = []" by code_simp
  have "select_route shop_route ''gpt'' ([], [], []) (shop_request [] (Some ''s1'')) (shop_world (locked_to model_a))
      = (Inr ((x, filter (\<lambda>y. y \<noteq> x) shop_candidates, True), shop_request [] (Some ''s1'')),
         (shop_world (locked_to model_a))\<lparr>rw_arms := arms, rw_affinity := locked_to model_a\<rparr>)"
    using cs by (simp add: select_route_def select_upstream_def shop_request_fields env l item opt_str_def)
  moreover have "extract_provider_filters (texts_in (PList [])) = ([], [], [])" by code_simp
  ultimately show ?thesis
    by (simp add: routing_execute_def shop_request_fields opt_text_def routing_selected_def routed_def new_step_result_def publish_get Let_def)
qed


subsection \<open>Prefixes\<close>

text \<open>The prefix that is hashed is one, within the limits of the settings, whatever these are.\<close>

lemma affinity_prefix_bounds:
  "length (affinity_prefix part most payload) \<le> length payload \<and> int (length (affinity_prefix part most payload)) \<le> max 256 most
   \<and> (\<exists>rest. payload = affinity_prefix part most payload @ rest)"
proof -
  have "\<exists>rest. payload = take n payload @ rest" for n by (metis append_take_drop_id)
  then show ?thesis by (auto simp: affinity_prefix_def Let_def)
qed

end
