(* ===== verification/Model_Market.thy ===== *)
theory Model_Market
  imports Provider_Models Billing_Repository
begin

section \<open>The sale of models\<close>

text \<open>
  The purchase of a model in src/app/api/v1/providers_route.py over the billing repository and the entitlements, and the lists
  of models with what is locked. \<open>digest\<close> is SHA-256 in hexadecimal. A price is a finite number of credits; an
  infinite one answers as a balance that is too low.
\<close>

record market =
  mk_tables :: provider_tables
  mk_billing :: billing_state

record purchase_status =
  pu_model :: string
  pu_price :: "price option"
  pu_purchased :: bool
  pu_locked :: bool

datatype market_reply = StatusReply purchase_status | HttpReply int string

definition permission_error :: exn where
  "permission_error = OtherError ''PermissionError'' ''forbidden''"

definition assert_instance_read_access :: "provider_tables \<Rightarrow> string \<Rightarrow> string option \<Rightarrow> exn + instance_row" where
  "assert_instance_read_access t iid user =
     (case find_instance t iid of
        None \<Rightarrow> Inl (ValueError ''instance_not_found'')
      | Some i \<Rightarrow>
          if user = None \<or> in_owner i = user \<or> in_public i \<or> in_owner i = None then Inr i else Inl permission_error)"

definition resolve_purchase_status :: "provider_tables \<Rightarrow> string \<Rightarrow> string \<Rightarrow> exn + model_row \<times> purchase_status" where
  "resolve_purchase_status t mid user =
     (case find (\<lambda>m. md_id m = mid) (pt_models t) of
        None \<Rightarrow> Inl (ValueError ''model_not_found'')
      | Some m \<Rightarrow>
          bindR (assert_instance_read_access t (md_instance m) (Some user)) (\<lambda>i.
          bindR (parse_unlock_price_credits (md_pricing m)) (\<lambda>unlock.
            let required = requires_model_purchase (in_owner i) (Some user) unlock;
                purchased = (\<not> required \<or> has_entitlement t user (md_id m))
            in Inr (m, \<lparr>pu_model = md_id m, pu_price = unlock, pu_purchased = purchased, pu_locked = (required \<and> \<not> purchased)\<rparr>))))"

definition purchase_trace :: "(string \<Rightarrow> string) \<Rightarrow> string \<Rightarrow> string \<Rightarrow> string" where
  "purchase_trace digest user mid = ''model-purchase-'' @ take 40 (digest (user @ '':'' @ mid))"

definition create_if_absent :: "string \<Rightarrow> string \<Rightarrow> provider_tables \<Rightarrow> provider_tables" where
  "create_if_absent user mid t =
     (if has_entitlement t user mid then t else t\<lparr>pt_entitlements := pt_entitlements t @ [(user, mid)]\<rparr>)"

text \<open>What the handler answers to an exception it has rolled back for.\<close>

definition market_error :: "exn \<Rightarrow> market_reply" where
  "market_error e =
     (case e of
        ValueError msg \<Rightarrow> if msg = ''model_not_found'' then HttpReply 404 ''model not found'' else HttpReply 400 msg
      | _ \<Rightarrow> if e = permission_error then HttpReply 403 ''forbidden'' else HttpReply 500 [])"

definition purchase_info :: "model_row \<Rightarrow> usage_info" where
  "purchase_info m =
     no_usage\<lparr>ui_provider := Some ''model_market'', ui_model := Some (md_model m), ui_provider_model_id := Some (md_id m),
       ui_description := Some (''Model unlock purchase model_id='' @ md_model m)\<rparr>"

text \<open>The entitlement is written after a deduction and after one that counts as a duplicate, then all is committed.\<close>

definition grant :: "string \<Rightarrow> model_row \<Rightarrow> billing_state \<Rightarrow> market \<Rightarrow> market_reply \<times> market" where
  "grant user m b k =
     (let t = create_if_absent user (md_id m) (mk_tables k); k' = \<lparr>mk_tables = t, mk_billing = commit_session b\<rparr>
      in case resolve_purchase_status t (md_id m) user of Inl e \<Rightarrow> (market_error e, k') | Inr (_, st) \<Rightarrow> (StatusReply st, k'))"

definition purchase_model :: "reply_conv \<Rightarrow> (string \<Rightarrow> string) \<Rightarrow> string \<Rightarrow> string \<Rightarrow> market \<Rightarrow> market_reply \<times> market" where
  "purchase_model conv digest model_id user k =
     (case uuid_of model_id of
        None \<Rightarrow> (HttpReply 400 ''invalid model_id'', k)
      | Some mid \<Rightarrow>
          (case resolve_purchase_status (mk_tables k) mid user of
             Inl e \<Rightarrow> (market_error e, k)
           | Inr (m, st) \<Rightarrow>
               if \<not> pu_locked st then (StatusReply st, k)
               else case pu_price st of
                      None \<Rightarrow> (StatusReply st, k)
                    | Some Unbounded \<Rightarrow> (HttpReply 402 ''INSUFFICIENT_BALANCE'', k)
                    | Some (Credits r) \<Rightarrow>
                        if r \<le> 0 then (StatusReply st, k)
                        else (case deduct conv user r (purchase_trace digest user (md_id m)) (purchase_info m) False (mk_billing k) of
                                (Inr _, b) \<Rightarrow> grant user m b k
                              | (Inl (DuplicateTransactionError _), b) \<Rightarrow> grant user m b k
                              | (Inl (InsufficientBalanceError _ _), b) \<Rightarrow> (HttpReply 402 ''INSUFFICIENT_BALANCE'', k\<lparr>mk_billing := b\<rparr>)
                              | (Inl _, b) \<Rightarrow> (HttpReply 500 [], k\<lparr>mk_billing := b\<rparr>))))"

definition purchase_status_route :: "string \<Rightarrow> string \<Rightarrow> market \<Rightarrow> market_reply" where
  "purchase_status_route model_id user k =
     (case uuid_of model_id of
        None \<Rightarrow> HttpReply 400 ''invalid model_id''
      | Some mid \<Rightarrow>
          (case resolve_purchase_status (mk_tables k) mid user of Inl e \<Rightarrow> market_error e | Inr (_, st) \<Rightarrow> StatusReply st))"

subsection \<open>Lists\<close>

definition list_purchased_model_ids :: "provider_tables \<Rightarrow> string \<Rightarrow> string list \<Rightarrow> string list" where
  "list_purchased_model_ids t user ids = filter (\<lambda>mid. has_entitlement t user mid) ids"

text \<open>The names a user may use: each once, of the models that are not locked.\<close>

fun first_names :: "string list \<Rightarrow> model_row list \<Rightarrow> string list" where
  "first_names seen [] = []"
| "first_names seen (m # ms) =
     (if md_model m = [] \<or> md_model m \<in> set seen then first_names seen ms else md_model m # first_names (md_model m # seen) ms)"

definition get_available_models_for_user :: "provider_tables \<Rightarrow> string \<Rightarrow> exn + string list" where
  "get_available_models_for_user t user =
     (case uuid_of user of
        None \<Rightarrow> Inr []
      | Some u \<Rightarrow>
          map_sum id (first_names []) (unlocked_models t u
            (filter (\<lambda>m. md_active m \<and> (case find_instance t (md_instance m) of
                 None \<Rightarrow> False | Some i \<Rightarrow> in_enabled i \<and> (in_owner i = Some u \<or> public_instance i))) (pt_models t))))"

text \<open>What the list of an instance says of a model: price, purchased, locked.\<close>

definition listed_model :: "provider_tables \<Rightarrow> string \<Rightarrow> instance_row \<Rightarrow> model_row \<Rightarrow> exn + string \<times> price option \<times> bool \<times> bool" where
  "listed_model t user i m =
     bindR (parse_unlock_price_credits (md_pricing m)) (\<lambda>unlock.
       let lockable = requires_model_purchase (in_owner i) (Some user) unlock;
           purchased = (\<not> lockable \<or> md_id m \<in> set (list_purchased_model_ids t user [md_id m]))
       in Inr (md_id m, if lockable then unlock else None, purchased, lockable \<and> \<not> purchased))"

subsection \<open>What a purchase costs\<close>

lemma entitled_after_grant: "has_entitlement (create_if_absent user mid t) user mid"
  by (auto simp: create_if_absent_def has_entitlement_def)

lemma create_if_absent_frame:
  "pt_models (create_if_absent user mid t) = pt_models t" "find_instance (create_if_absent user mid t) = find_instance t"
  by (simp_all add: create_if_absent_def find_instance_def fun_eq_iff)

lemma locked_status:
  assumes "resolve_purchase_status t mid user = Inr (m, st)" and "pu_locked st"
  shows "md_id m = mid \<and> \<not> has_entitlement t user mid \<and> pu_price st \<noteq> None
    \<and> resolve_purchase_status (create_if_absent user mid t) mid user = Inr (m, st\<lparr>pu_purchased := True, pu_locked := False\<rparr>)"
proof -
  obtain i unlock where m: "find (\<lambda>m. md_id m = mid) (pt_models t) = Some m" and i: "assert_instance_read_access t (md_instance m) (Some user) = Inr i"
    and unlock: "parse_unlock_price_credits (md_pricing m) = Inr unlock" and req: "requires_model_purchase (in_owner i) (Some user) unlock"
    and st: "st = \<lparr>pu_model = md_id m, pu_price = unlock, pu_purchased = False, pu_locked = True\<rparr>" and no: "\<not> has_entitlement t user (md_id m)"
    using assms by (auto simp: resolve_purchase_status_def bindR_Inr Let_def split: option.splits)
  have id: "md_id m = mid" using m by (auto simp: find_Some_iff)
  have "unlock \<noteq> None" using req by (cases unlock) (auto simp: requires_model_purchase_def)
  moreover have "assert_instance_read_access (create_if_absent user mid t) (md_instance m) (Some user) = Inr i"
    using i by (simp add: assert_instance_read_access_def create_if_absent_frame)
  ultimately show ?thesis
    using id no m unlock req st entitled_after_grant [of user mid t] by (simp add: resolve_purchase_status_def create_if_absent_frame Let_def)
qed

lemma grant_locked:
  assumes "resolve_purchase_status (mk_tables k) mid user = Inr (m, st)" and "pu_locked st"
  shows "grant user m b k = (StatusReply (st\<lparr>pu_purchased := True, pu_locked := False\<rparr>),
    \<lparr>mk_tables = create_if_absent user mid (mk_tables k), mk_billing = commit_session b\<rparr>)"
  using locked_status [OF assms] by (simp add: grant_def Let_def)

text \<open>A status that is not locked is the answer to a purchase, which then changes nothing.\<close>

lemma unlocked_purchase:
  assumes "uuid_of model_id = Some mid" and "resolve_purchase_status (mk_tables k) mid user = Inr (m, st)" and "\<not> pu_locked st"
  shows "purchase_model conv digest model_id user k = (StatusReply st, k)"
  using assms by (simp add: purchase_model_def)



text \<open>The same happens while another attempt holds the key of the deduction, whether or not that one succeeds.\<close>

lemma purchase_free_while_pending:
  assumes "uuid_of model_id = Some mid" and "resolve_purchase_status (mk_tables k) mid user = Inr (m, st)" and "pu_locked st"
    and "pu_price st = Some (Credits r)" and "0 < r"
    and "get_by_trace_id (purchase_trace digest user mid) (mk_billing k) = None"
    and "(user, purchase_trace digest user mid) \<in> set (qs_idem (bs_quota (mk_billing k)))"
  shows "has_entitlement (mk_tables (snd (purchase_model conv digest model_id user k))) user mid"
proof -
  note lock = locked_status [OF assms(2,3)]
  have "deduct conv user r (purchase_trace digest user mid) (purchase_info m) False (mk_billing k)
      = (Inl (DuplicateTransactionError (purchase_trace digest user mid)), mk_billing k)"
    using assms(6,7) by (simp add: deduct_def idem_lock_def)
  then show ?thesis
    using assms(1-5) lock grant_locked [OF assms(2,3)] entitled_after_grant by (simp add: purchase_model_def)
qed

subsection \<open>Lists agree with purchases\<close>

text \<open>What a list says of a model is what its purchase status says.\<close>

lemma listed_as_status:
  assumes "listed_model t user i m = Inr (mid, unlock, purchased, locked)" and "find (\<lambda>x. md_id x = md_id m) (pt_models t) = Some m"
    and "assert_instance_read_access t (md_instance m) (Some user) = Inr i"
  shows "\<exists>st. resolve_purchase_status t (md_id m) user = Inr (m, st) \<and> pu_purchased st = purchased \<and> pu_locked st = locked"
  using assms by (auto simp: listed_model_def resolve_purchase_status_def list_purchased_model_ids_def bindR_Inr Let_def)

lemma first_names_set: "set (first_names seen ms) = md_model ` set ms - set seen - {[]}"
  by (induction seen ms rule: first_names.induct) auto

lemma first_names_distinct: "distinct (first_names seen ms)"
  by (induction seen ms rule: first_names.induct) (auto simp: first_names_set)

subsection \<open>A sale\<close>

definition sale_tables :: provider_tables where
  "sale_tables =
     \<lparr>pt_instances = [\<lparr>in_id = ''i1'', in_slug = ''openai'', in_owner = Some ''seller'', in_enabled = True, in_public = True,
        in_base_url = ''https://api.test'', in_credentials_ref = ''main'', in_meta = []\<rparr>],
      pt_models = [\<lparr>md_id = ''22222222-2222-2222-2222-222222222222'', md_instance = ''i1'', md_model = ''gpt'', md_unified = None, md_active = True,
        md_capabilities = [''chat''], md_path = ''chat/completions'', md_pricing = [(''unlock_price_credits'', PInt 5)], md_limits = [], md_routing = [],
        md_override = [], md_weight = 1, md_priority = 0\<rparr>],
      pt_credentials = [], pt_presets = [], pt_entitlements = []\<rparr>"

definition sale :: market where
  "sale = \<lparr>mk_tables = sale_tables, mk_billing = bill_state\<rparr>"

definition sold_model :: string where
  "sold_model = ''22222222-2222-2222-2222-222222222222''"

lemma sale_status:
  "\<exists>m st. resolve_purchase_status sale_tables sold_model ''t'' = Inr (m, st) \<and> pu_locked st \<and> pu_price st = Some (Credits 5)"
proof -
  have "case resolve_purchase_status sale_tables sold_model ''t'' of
      Inl e \<Rightarrow> False | Inr (m, st) \<Rightarrow> pu_locked st \<and> pu_price st = Some (Credits 5)" by code_simp
  then show ?thesis by (auto split: sum.splits)
qed

lemma sale_id: "uuid_of sold_model = Some sold_model"
  by code_simp



end
