(* ===== verification/Request_Gate.thy ===== *)
theory Request_Gate
  imports Provider_Config Base_Step
begin

section \<open>Validation and sanitizing\<close>

text \<open>
  \<open>ValidationStep\<close> and \<open>SanitizeStep\<close> of src/app/services/workflow/steps and the detection of injections in
  src/app/utils/security.py: what may come in and what may go out. The request is a parsed one, an object whose dump
  is the dictionary, or any other value. \<open>size_of\<close> is the number of bytes of \<open>json.dumps\<close>, None where it raises;
  \<open>shown\<close> and \<open>fixed6\<close> are \<open>str(v)\<close> and the format of a number with six decimals.
\<close>

record gate_config =
  gc_max_bytes :: int
  gc_sql :: bool
  gc_prompt :: bool
  gc_internal_debug :: bool
  gc_debug_headers :: "string list"
  gc_sensitive_headers :: "string list"
  gc_body_fields :: "string list"

definition default_gate_config :: gate_config where
  "default_gate_config =
     \<lparr>gc_max_bytes = 512 * 1024, gc_sql = True, gc_prompt = True, gc_internal_debug = True,
      gc_debug_headers = [''x-request-id'', ''cf-ray'', ''server'', ''x-envoy-upstream-service-time'', ''cf-cache-status''],
      gc_sensitive_headers = [''authorization'', ''x-api-key'', ''cookie'', ''set-cookie'', ''x-request-id'', ''cf-ray'', ''server'',
        ''x-envoy-upstream-service-time'', ''x-openai-organization'', ''openai-organization'', ''cf-cache-status''],
      gc_body_fields = [''api_key'', ''password'', ''secret'', ''token'', ''system_fingerprint'']\<rparr>"

subsection \<open>Injections\<close>

definition word_char :: "char \<Rightarrow> bool" where
  "word_char c = (let n = of_char c :: nat in is_digit c \<or> 65 \<le> n \<and> n \<le> 90 \<or> 97 \<le> n \<and> n \<le> 122 \<or> c = CHR ''_'')"

text \<open>A word between boundaries; the first argument is the character before the text.\<close>

fun word_in :: "char option \<Rightarrow> string \<Rightarrow> string \<Rightarrow> bool" where
  "word_in before w [] = False"
| "word_in before w (c # cs) =
     ((case before of None \<Rightarrow> True | Some b \<Rightarrow> \<not> word_char b) \<and> starts_with (c # cs) w
        \<and> (case drop (length w) (c # cs) of [] \<Rightarrow> True | d # _ \<Rightarrow> \<not> word_char d)
      \<or> word_in (Some c) w cs)"

definition sql_words :: "string list" where
  "sql_words = [''select'', ''insert'', ''update'', ''delete'', ''drop'', ''alter'', ''union'', ''truncate'', ''exec'', ''execute'']"

definition is_potential_sql_injection :: "string \<Rightarrow> bool" where
  "is_potential_sql_injection s =
     (list_ex (\<lambda>w. word_in None w (str_lower s)) sql_words
      \<or> CHR '';'' \<in> set s \<or> str_contains s ''--'' \<or> CHR 0x27 \<in> set s \<or> CHR 0x22 \<in> set s)"

text \<open>
  What may stand between \<open>ignore\<close> and \<open>instructions\<close>: white space, then anything on one line, then white space, so but for
  the white space at its ends it has no line break.
\<close>

definition gap_ok :: "string \<Rightarrow> bool" where
  "gap_ok u = (u \<noteq> [] \<and> is_space (hd u) \<and> CHR 0x0A \<notin> set (str_strip u))"

definition ignore_instructions :: "string \<Rightarrow> bool" where
  "ignore_instructions s =
     list_ex (\<lambda>t. starts_with t ''ignore'' \<and>
       (let r = drop 6 t in list_ex (\<lambda>k. starts_with (drop k r) ''instructions'' \<and> gap_ok (take k r)) [0..<length r])) (tails s)"

definition is_potential_prompt_injection :: "string \<Rightarrow> bool" where
  "is_potential_prompt_injection s =
     (let t = str_lower s
      in ignore_instructions t \<or> str_contains t ''system prompt:'' \<or> str_contains t ''you are now a'' \<or> str_contains t ''stay in character'')"

fun first_some :: "'a option list \<Rightarrow> 'a option" where
  "first_some [] = None"
| "first_some (x # xs) = (case x of Some y \<Rightarrow> Some y | None \<Rightarrow> first_some xs)"

fun found_injection :: "gate_config \<Rightarrow> pyval \<Rightarrow> string option" where
  "found_injection cfg (PStr s) =
     (if gc_sql cfg \<and> is_potential_sql_injection s then Some ''Potential SQL injection detected''
      else if gc_prompt cfg \<and> is_potential_prompt_injection s then Some ''Potential prompt injection detected'' else None)"
| "found_injection cfg (PDict d) = first_some (map (\<lambda>(k, v). found_injection cfg v) d)"
| "found_injection cfg (PList xs) = first_some (map (found_injection cfg) xs)"
| "found_injection cfg v = None"

subsection \<open>Validation\<close>

datatype raw_input = ParsedInput "(string, pyval) dict" | OtherInput pyval

text \<open>\<open>model_dump(exclude_none=True)\<close>.\<close>

fun drop_nones :: "pyval \<Rightarrow> pyval" where
  "drop_nones (PDict d) = PDict (filter (\<lambda>(k, v). v \<noteq> PNone) (map (\<lambda>(k, v). (k, drop_nones v)) d))"
| "drop_nones (PList xs) = PList (map drop_nones xs)"
| "drop_nones v = v"

definition invalid_field :: "string \<Rightarrow> string \<Rightarrow> exn" where
  "invalid_field field message = OtherError ''ValidationError'' (''Validation failed for '' @ [CHR 0x27] @ field @ [CHR 0x27] @ '': '' @ message)"

definition validate_request :: "gate_config \<Rightarrow> (pyval \<Rightarrow> int option) \<Rightarrow> raw_input \<Rightarrow> workflow_context \<Rightarrow> exn + pyval" where
  "validate_request cfg size_of request c =
     (let fields = (case request of ParsedInput d \<Rightarrow> d | OtherInput _ \<Rightarrow> [])
      in if dget fields ''model'' \<noteq> None \<and> \<not> truthy (py_get fields ''model'' PNone) then Inl (invalid_field ''model'' ''Model is required'')
         else if ctx_channel c = INTERNAL \<and> truthy (ctx_get c ''routing'' ''require_provider_model_id'' (PBool False))
              \<and> \<not> truthy (py_get fields ''provider_model_id'' PNone)
         then Inl (invalid_field ''provider_model_id'' ''provider_model_id is required for internal gateway'')
         else if fields \<noteq> [] \<and> (case size_of (PDict fields) of Some n \<Rightarrow> gc_max_bytes cfg < n | None \<Rightarrow> False)
         then Inl (invalid_field ''body'' (''Request size exceeds limit '' @ int_str (gc_max_bytes cfg) @ '' bytes''))
         else case (if ctx_channel c = EXTERNAL \<and> (gc_sql cfg \<or> gc_prompt cfg) then found_injection cfg (PDict fields) else None) of
                Some message \<Rightarrow> Inl (invalid_field ''body'' message)
              | None \<Rightarrow> Inr (case request of ParsedInput d \<Rightarrow> drop_nones (PDict d) | OtherInput v \<Rightarrow> PDict [(''raw'', v)]))"

definition validation_execute ::
  "gate_config \<Rightarrow> (pyval \<Rightarrow> int option) \<Rightarrow> raw_input option \<Rightarrow> workflow_context \<Rightarrow> step_result \<times> workflow_context" where
  "validation_execute cfg size_of request c =
     (case request of
        None \<Rightarrow> ((new_step_result FAILED)\<lparr>sr_message := Some ''No request found in context''\<rparr>, c)
      | Some input \<Rightarrow>
          (case validate_request cfg size_of input c of
             Inl e \<Rightarrow> ((new_step_result FAILED)\<lparr>sr_message := Some (exn_str e)\<rparr>, c)
           | Inr validated \<Rightarrow>
               let c1 = ctx_set ''validation'' ''validated'' validated c;
                   c2 = (case input of
                      ParsedInput d \<Rightarrow>
                        (case dget d ''model'' of
                           Some (PStr model) \<Rightarrow> ctx_set ''validation'' ''model'' (PStr model) (c1\<lparr>ctx_requested_model := Some model\<rparr>)
                         | _ \<Rightarrow> c1)
                    | OtherInput _ \<Rightarrow> c1)
               in ((new_step_result SUCCESS)\<lparr>sr_data := Some [(''model'', opt_str (ctx_requested_model c2))]\<rparr>, c2)))"

subsection \<open>Secrets\<close>

definition key_char :: "char \<Rightarrow> bool" where
  "key_char c = (word_char c \<or> c = CHR ''-'')"

text \<open>\<open>$\<close> also matches before a final line break.\<close>

definition chomp :: "string \<Rightarrow> string" where
  "chomp s = (if s \<noteq> [] \<and> List.last s = CHR 0x0A then butlast s else s)"

definition looks_like_secret :: "string \<Rightarrow> bool" where
  "looks_like_secret v =
     (v \<noteq> [] \<and>
      (list_ex (\<lambda>p. starts_with v p \<and> (let r = chomp (drop (length p) v) in 16 \<le> length r \<and> list_all key_char r)) [''sk-'', ''ak-'', ''AIza-'']
       \<or> starts_with (str_lower v) ''bearer '' \<and> 15 < length v
       \<or> starts_with v ''eyJ'' \<and> 30 < length v \<and> CHR ''.'' \<in> set v
       \<or> starts_with v ''LTAI'' \<and> (let r = chomp (drop 4 v) in 16 \<le> length r \<and> length r \<le> 24 \<and> list_all (\<lambda>c. word_char c \<and> c \<noteq> CHR ''_'') r)))"

definition ends_shown :: "string \<Rightarrow> string" where
  "ends_shown v = take 4 v @ ''...'' @ drop (length v - 4) v"

definition mask_secret :: "string \<Rightarrow> string" where
  "mask_secret v =
     (if length v \<le> 8 then replicate (length v) (CHR ''*'')
      else if starts_with v ''Bearer '' then
        (let t = drop 7 v in if length t \<le> 8 then ''Bearer ********'' else ''Bearer '' @ ends_shown t)
      else ends_shown v)"

fun sanitize_for_log :: "gate_config \<Rightarrow> pyval \<Rightarrow> pyval" where
  "sanitize_for_log cfg (PDict d) =
     PDict (map (\<lambda>(k, v). (k, if str_lower k \<in> set (gc_body_fields cfg) then PStr ''[REDACTED]'' else sanitize_for_log cfg v)) d)"
| "sanitize_for_log cfg (PList xs) = PList (map (sanitize_for_log cfg) xs)"
| "sanitize_for_log cfg (PStr s) = PStr (if looks_like_secret s then mask_secret s else s)"
| "sanitize_for_log cfg v = v"

subsection \<open>Sanitizing\<close>

definition hidden_headers :: "gate_config \<Rightarrow> workflow_context \<Rightarrow> string list" where
  "hidden_headers cfg c =
     filter (\<lambda>h. \<not> (ctx_channel c = INTERNAL \<and> gc_internal_debug cfg \<and> h \<in> set (map str_lower (gc_debug_headers cfg))))
       (map str_lower (gc_sensitive_headers cfg))"

definition sanitize_headers :: "gate_config \<Rightarrow> workflow_context \<Rightarrow> (string, pyval) dict \<Rightarrow> (string, pyval) dict" where
  "sanitize_headers cfg c headers = filter (\<lambda>(k, v). str_lower k \<notin> set (hidden_headers cfg c)) headers"

definition affinity_headers :: "(pyval \<Rightarrow> string) \<Rightarrow> (pyval \<Rightarrow> string) \<Rightarrow> workflow_context \<Rightarrow> (string, pyval) dict \<Rightarrow> (string, pyval) dict" where
  "affinity_headers shown fixed6 c headers =
     (let hit = ctx_get c ''routing'' ''affinity_hit'' PNone
      in if hit = PNone then headers
         else dput ''X-GW-Affinity-Saved-Cost-Est'' (PStr (fixed6 (ctx_get c ''routing'' ''affinity_saved_cost_est'' (PFloat 0))))
                (dput ''X-GW-Affinity-Saved-Tokens-Est'' (PStr (shown (ctx_get c ''routing'' ''affinity_saved_tokens_est'' (PInt 0))))
                  (dput ''X-GW-Affinity-Hit'' (PStr (if truthy hit then ''true'' else ''false'')) headers)))"

definition names_in :: "(string, pyval) dict \<Rightarrow> string \<Rightarrow> string list" where
  "names_in rules k = concat (map (\<lambda>v. case v of PStr s \<Rightarrow> [s] | _ \<Rightarrow> []) (as_list (py_get rules k (PList []))))"

definition masked :: "pyval \<Rightarrow> pyval" where
  "masked v = (case v of PStr s \<Rightarrow> PStr (mask_secret s) | _ \<Rightarrow> PStr ''[MASKED]'')"

definition sanitize_response :: "gate_config \<Rightarrow> pyval \<Rightarrow> (string, pyval) dict \<Rightarrow> pyval" where
  "sanitize_response cfg response rules =
     (case response of
        PDict d \<Rightarrow>
          PDict (map (\<lambda>(k, v). (k, if k \<in> set (names_in rules ''mask_fields'') then masked v else v))
            (filter (\<lambda>(k, v). k \<notin> set (gc_body_fields cfg) \<and> k \<notin> set (names_in rules ''remove_fields'')) d))
      | _ \<Rightarrow> response)"

definition sanitization_rules :: "workflow_context \<Rightarrow> (string, pyval) dict" where
  "sanitization_rules c =
     (let profile = as_dict (ctx_get c ''routing'' ''protocol_profile'' PNone)
      in as_dict (py_get (as_dict (py_get (as_dict (py_get profile ''response'' PNone)) ''response_template'' PNone)) ''sanitization'' (PDict [])))"

definition sanitize_execute ::
  "gate_config \<Rightarrow> (pyval \<Rightarrow> string) \<Rightarrow> (pyval \<Rightarrow> string) \<Rightarrow> workflow_context \<Rightarrow> step_result \<times> workflow_context" where
  "sanitize_execute cfg shown fixed6 c =
     (let headers = affinity_headers shown fixed6 c (as_dict (py_or (ctx_get c ''upstream_call'' ''headers'' PNone) (PDict [])));
          kept = sanitize_headers cfg c headers;
          response = sanitize_response cfg (ctx_get c ''response_transform'' ''response'' PNone) (sanitization_rules c);
          c1 = ctx_set ''sanitize'' ''headers'' (PDict kept) (ctx_set ''sanitize'' ''response'' response c)
      in ((new_step_result SUCCESS)\<lparr>sr_data := Some [(''headers_removed'', PInt (int (length headers) - int (length kept)))]\<rparr>, c1))"

subsection \<open>What comes in\<close>

text \<open>The texts of a body.\<close>

fun texts_of :: "pyval \<Rightarrow> string list" where
  "texts_of (PStr s) = [s]"
| "texts_of (PDict d) = concat (map (\<lambda>(k, v). texts_of v) d)"
| "texts_of (PList xs) = concat (map texts_of xs)"
| "texts_of v = []"

definition suspicious :: "gate_config \<Rightarrow> string \<Rightarrow> bool" where
  "suspicious cfg s = (gc_sql cfg \<and> is_potential_sql_injection s \<or> gc_prompt cfg \<and> is_potential_prompt_injection s)"

lemma first_some_None: "first_some xs = None \<longleftrightarrow> (\<forall>x \<in> set xs. x = None)"
  by (induction xs) (auto split: option.splits)

lemma found_injection_None: "found_injection cfg v = None \<longleftrightarrow> (\<forall>s \<in> set (texts_of v). \<not> suspicious cfg s)"
  by (induction cfg v rule: found_injection.induct) (auto simp: first_some_None suspicious_def split: if_splits)

lemma drop_nones_texts: "set (texts_of (drop_nones v)) \<subseteq> set (texts_of v)"
  by (induction v rule: drop_nones.induct) fastforce+

lemma texts_of_validated: "texts_of (PDict d) = concat (map (\<lambda>(k, v). texts_of v) d)"
  by simp


text \<open>
  C0: with the detection of SQL switched on, as it is by default, an external request is refused as soon as one text in it holds
  an apostrophe, a quotation mark or a semicolon: ordinary prose does not pass.
\<close>
theorem quoted_prose_refused:
  assumes "ctx_channel c = EXTERNAL" and "gc_sql cfg" and "s \<in> set (texts_of (PDict d))"
    and "CHR 0x27 \<in> set s \<or> CHR 0x22 \<in> set s \<or> CHR '';'' \<in> set s"
  shows "sr_status (fst (validation_execute cfg size_of (Some (ParsedInput d)) c)) = FAILED"
proof -
  have "suspicious cfg s" using assms by (auto simp: suspicious_def is_potential_sql_injection_def)
  then have "found_injection cfg (PDict d) \<noteq> None" using assms(3) found_injection_None by blast
  then have "\<exists>e. validate_request cfg size_of (ParsedInput d) c = Inl e"
    using assms(1,2) by (auto simp: validate_request_def Let_def)
  then show ?thesis by (auto simp: validation_execute_def new_step_result_def)
qed

definition plain_prose :: "(string, pyval) dict" where
  "plain_prose = [(''model'', PStr ''m''), (''messages'', PList [PDict [(''content'', PStr ''hi'')]])]"

definition outside :: workflow_context where
  "outside = new_context ''t'' EXTERNAL ''now''"


text \<open>The preceding statement at an apostrophe.\<close>
theorem quoted_prose_refused_witness:
  "sr_status (fst (validation_execute default_gate_config (\<lambda>_. Some 60)
     (Some (ParsedInput [(''model'', PStr ''gpt''), (''messages'', PList [PDict [(''content'', PStr (''I don'' @ [CHR 0x27] @ ''t know''))]])])) outside)) = FAILED"
  by (rule quoted_prose_refused [of _ _ "''I don'' @ [CHR 0x27] @ ''t know''"]) (simp_all add: outside_def new_context_def default_gate_config_def)

text \<open>A request that is no parsed object is passed through unread.\<close>

lemma raw_input_unchecked:
  assumes "\<not> truthy (ctx_get c ''routing'' ''require_provider_model_id'' (PBool False))"
  shows "validate_request cfg size_of (OtherInput v) c = Inr (PDict [(''raw'', v)])"
  using assms by (simp add: validate_request_def)

subsection \<open>What goes out\<close>

text \<open>
  Of the response no field the settings or the rules of the provider take out is left, masked fields keep no more than eight
  characters of their text, and of the headers none of the hidden ones; the debug headers are left to the internal channel only.
\<close>

lemma sanitized_response_fields:
  assumes "sanitize_response cfg (PDict d) rules = PDict d'"
  shows "(k \<in> set (gc_body_fields cfg) \<union> set (names_in rules ''remove_fields'') \<longrightarrow> dget d' k = None)
    \<and> (dget d' k = Some v \<and> k \<in> set (names_in rules ''mask_fields'') \<longrightarrow> v \<in> range (\<lambda>s. PStr (mask_secret s)) \<union> {PStr ''[MASKED]''})"
  using assms by (auto simp: sanitize_response_def masked_def map_of_eq_None_iff dest!: map_of_SomeD split: pyval.splits)

lemma sanitized_headers_hidden:
  "(k, v) \<in> set (sanitize_headers cfg c headers) \<Longrightarrow>
   str_lower k \<notin> set (map str_lower (gc_sensitive_headers cfg))
   \<or> ctx_channel c = INTERNAL \<and> gc_internal_debug cfg \<and> str_lower k \<in> set (map str_lower (gc_debug_headers cfg))"
  by (auto simp: sanitize_headers_def hidden_headers_def)

text \<open>A masked text shows at most eight characters of it; of a short one nothing.\<close>

lemma mask_short: "length v \<le> 8 \<Longrightarrow> mask_secret v = replicate (length v) (CHR ''*'')"
  by (simp add: mask_secret_def)

lemma mask_long:
  assumes "8 < length v" and "\<not> starts_with v ''Bearer ''"
  shows "mask_secret v = take 4 v @ ''...'' @ drop (length v - 4) v \<and> length (mask_secret v) = 11"
  using assms by (simp add: mask_secret_def ends_shown_def)

lemma mask_bearer: "starts_with v ''Bearer '' \<Longrightarrow> 8 < length v \<Longrightarrow> length (mask_secret v) \<le> 18"
  by (simp add: mask_secret_def ends_shown_def Let_def)

text \<open>Only fields at the top are taken out: the same field one level down is delivered.\<close>

lemma nested_secret_delivered:
  "sanitize_response default_gate_config (PDict [(''provider'', PDict [(''api_key'', PStr ''k'')])]) [] = PDict [(''provider'', PDict [(''api_key'', PStr ''k'')])]"
  by code_simp

text \<open>A key of Google begins with AIza but has no hyphen after it and is not recognized.\<close>

lemma google_key_unseen: "\<not> looks_like_secret (''AIzaSy'' @ rest)"
proof -
  have "lower_char (CHR ''A'') = CHR ''a''" by code_simp
  then show ?thesis by (simp add: looks_like_secret_def starts_with_def str_lower_def)
qed

text \<open>In a log the values of sensitive keys are gone at every level, whatever the case of the key.\<close>

fun log_safe :: "gate_config \<Rightarrow> pyval \<Rightarrow> bool" where
  "log_safe cfg (PDict d) = list_all (\<lambda>(k, v). (str_lower k \<in> set (gc_body_fields cfg) \<longrightarrow> v = PStr ''[REDACTED]'') \<and> log_safe cfg v) d"
| "log_safe cfg (PList xs) = list_all (log_safe cfg) xs"
| "log_safe cfg v = True"

lemma sanitized_log_safe: "log_safe cfg (sanitize_for_log cfg v)"
  by (induction cfg v rule: sanitize_for_log.induct) (auto simp: list_all_iff)

end
