(* ===== verification/Spec2Isabelle.thy ===== *)
theory Spec2Isabelle
  imports Budget_Sync Rate_Limit Routing_Affinity Review_Workflow Signature_Properties Auth_Sessions Monitor_Properties Feishu_Callback Conversation_System Routing_Choice Upstream_Call
    Protocol_Responses Protocol_Runtime Response_Transform Request_Adapter Routing_Step Model_Market Request_Gate
begin

text \<open>
  A model of the core of the deeting gateway (src/app): how a request to a language model is admitted, routed, sent
  upstream, billed and remembered, and of the services this rests on. Python code is translated function by function;
  theories are named below with the files they translate, definitions keep the names of the functions.

  \<^bold>\<open>The parts and how they interact.\<close> A request makes a \<open>workflow_context\<close> (Workflow_Context). The gateway orchestrator
  (Gateway_Orchestrator) picks the template of its channel and capability (Workflow_Config), builds the steps from the
  registry (Step_Registry), aligns their dependencies and hands them to the engine (Step_Graph, Orchestration_Engine),
  which runs them layer by layer. The steps validate the request (Request_Gate), check its signature and its key
  (Signature_Verify, Api_Keys), limit its rate (Rate_Limit), take the quota (Billing_Steps over Quota_Repository), load the
  conversation (Conversation_Append over Conversation_Window), adapt the request (Request_Adapter), choose an upstream
  (Routing_Step), call it (Upstream_Call), transform the response (Response_Transform), sanitize it (Request_Gate), settle the
  costs (Billing_Steps over Billing_Pipeline and Billing_Repository) and append the turn (Conversation_Append). Steps talk
  through the namespaces of the context and through shared stores: rows of the database, hashes and keys of Redis.

  \<^bold>\<open>Foundations.\<close> Prelude: ordered dictionaries, texts, lists. Py_Value, Py_Text: dynamic values, their truth,
  exceptions, integers in texts. A dictionary is an association list in insertion order, a float or decimal an exact rational
  (\<open>quantize\<close> and \<open>int\<close> round where the source rounds), a text a list of characters of one byte each, an error the left
  side of a sum. A store the code mutates is a record that every operation takes and returns; what another process may do in
  between is another operation.

  \<^bold>\<open>Orchestration\<close> (src/app/services/orchestrator, workflow/steps/base.py). Workflow_Context, Base_Step, Step_Registry,
  Workflow_Config, Step_Graph (cycle detection and layers), Orchestration_Engine (retries, degradation, skipping, the run),
  Gateway_Orchestrator. Shown: the engine accepts exactly the acyclic graphs over known steps (equivalence with a
  specification), every layer lies strictly above its dependencies, a step runs only when what it depends on has
  succeeded, each run ends in one of the outcomes described, and in every workflow of a channel the call of a provider comes
  after all its gates.

  \<^bold>\<open>Quota and billing\<close> (repositories/quota_repository.py, repositories/billing_repository.py, services/billing_pipeline.py,
  core/redis_scripts, workflow/steps/quota_check.py and billing.py, tasks). Quota_Script is the Lua script, a refinement of the
  check of the repository; Quota_Repository the rows, their optimistic version and the cache; Billing_Repository
  transactions, idempotency keys, recharge and reversal; Billing_Pipeline costs and streams; Billing_Steps the two steps and
  the callback of a stream; Budget_Sync the tasks that write Redis figures back. Shown: concurrent deductions never pass a
  limit, a deduction happens once per trace, the pre-deduction is corrected to the actual cost, and where this fails.
  Model_Market is the sale of models: a purchase is charged once, except without Redis, where it is free.

  \<^bold>\<open>Admission\<close> (workflow/steps, services/users, services/providers/api_key.py, core/distributed_lock.py). Rate_Limit: sliding
  window and token bucket with their bounds. Signature_Verify, Signature_Properties: nonces, replay, freezing. Api_Keys,
  Api_Key_Lifecycle: the life of a key and what an accepted key guarantees. Auth_Service, Auth_Login, Auth_Sessions,
  Auth_Properties: sessions and tokens over whole histories, lockout of a login. Registration: windows and invite codes.
  Request_Gate: what validation lets in and sanitizing lets out. Secret_Manager, Cache_Service, Distributed_Lock: secrets,
  the cache and its locks, each with its round trip or mutual exclusion.

  \<^bold>\<open>Routing\<close> (services/providers, services/routing, repositories, workflow/steps/routing.py). Provider_Config: merging, paths,
  addresses, prices. Provider_Models: the tables and the queries over them, with the names of capabilities.
  Routing_Candidates: from the tables to the candidates. Bandit_Arms: the arms and their cache. Routing_Choice: gray release,
  weights and strategies. Routing_Affinity: the machine that pins a session. Routing_Step: the step over all of these.
  Provider_Health: what is recorded of an instance. Shown: every candidate is one the user may use and pay for, from
  a provider the key admits, with a secret of its own instance; whatever is drawn, the choice is among the candidates; a
  locked session is not watched.

  \<^bold>\<open>Protocols\<close> (app/protocols, services/adapters, services/providers/response_transformer.py). Protocol_Messages,
  Protocol_Responses: the canonical form, its entry points, decoders and renderers, with the round trip of a chat completion.
  Protocol_Runtime: profiles and the requests built from them. Request_Adapter, Response_Transform: the two steps.

  \<^bold>\<open>The call\<close> (workflow/steps/upstream_call.py, services/proxy, utils/security.py). Circuit_Breaker: a refinement of the
  three-state machine. Upstream_Transport: guarded addresses, redirects, proxies, attempts. Stream_Accumulator: what is read
  of a stream while it passes. Upstream_Call: the step, with backups, degradation and what it reports to arms, affinity and health.

  \<^bold>\<open>Conversations\<close> (services/conversation, repositories, tasks/conversation.py, api/v1/internal/conversation_route.py).
  Conversation_Window (Redis), Conversation_Store (database), Conversation_Messages, Conversation_Append (the two steps),
  Conversation_Summary (the tasks), Conversation_System (their interleaving as a step relation). Shown: what is appended is
  stored, and an invariant of window and rows over every interleaving.

  \<^bold>\<open>Monitoring and reviews.\<close> Monitor_Cron (cron expressions; the next run is the least one), Monitor_Task, Monitor_Scheduler,
  Monitor_Properties (services/monitor_*.py, tasks/monitor.py), Feishu_Callback (api/v1/monitor_route.py), Review_Workflow
  (services/review, services/assistant).

  \<^bold>\<open>Parameters.\<close> Code outside src/ is an argument of the definitions that use it: the conversion of script replies, the digests
  and ciphers (\<open>mac\<close>, \<open>digest\<close>, \<open>re_digest\<close>, the cipher of the secrets), the JWT library (\<open>dec\<close>), the network and
  the name resolution, JSON texts (\<open>loads\<close>, \<open>dumps\<close>, \<open>size_of\<close>), pydantic's validation and dump of stored profiles (\<open>parse\<close>,
  \<open>ro_dump\<close>), Jinja (\<open>jinja\<close>), \<open>str(v)\<close> of a value (\<open>fmt\<close>, \<open>shown\<close>), language models (\<open>ask\<close>, \<open>verdict\<close>) and what \<open>random\<close>
  draws. A hypothesis on one of them is documented behaviour, such as \<open>redis_reply\<close> for the replies of a script.

  \<^bold>\<open>Bounds.\<close> Loops of the source are structural recursions or have a proof of termination. Fuel is used for the depth-first
  search of the cycle detection (at most the number of steps deep), for redirects and attempts (the settings bound
  both), for retries of a step (its configuration) and for the search of a cron run (the window of the source);
  where it could matter a theorem says it is enough.

  \<^bold>\<open>Not modelled.\<close> FastAPI handlers but for those named above: parsing and streaming around modelled services. The agent
  executor, plugins, skills and the code mode: loops over replies of language models and a third-party sandbox. Rendering by
  templates (workflow/steps/template_render.py) beyond the protocol runtime: it is Jinja and prompts. Knowledge, memory and search:
  vector stores and document parsing behind network services. Media generation and object storage: jobs against
  providers. Payment providers: signatures of a third party. Notifications: delivery to channels. Provider instances and hub,
  beyond access and sale: queries and HTTP probes. Celery, SQLAlchemy and Redis set-up. Isolation of the database is
  that of single statements and explicit row versions; log records and metrics are left out.
\<close>

end
